(* ===== verification/Prelude.thy ===== *)
theory Prelude
  imports Main "HOL-Library.Word"
begin

unbundle bit_operations_syntax

text \<open>
  Shared vocabulary of the development: the C integer types as words, the faults a C
  routine can run into (a failed assertion, a division by zero, an access outside an
  array), checked array accesses, and generic lemmas on words, lists and ring indices.
\<close>

section \<open>C types\<close>

type_synonym u8 = "8 word"
type_synonym u16 = "16 word"
type_synonym u32 = "32 word"
type_synonym u64 = "64 word"

section \<open>Faults and checked memory accesses\<close>

text \<open>
  A routine that can fault returns a value of type \<open>fault + 'a\<close>. The constructor
  \<open>Diverges\<close> stands for a C loop that has not ended within the bound its model gives it;
  the theorems show that it does not occur.
\<close>

datatype fault = Assert_failed | Div_by_zero | Out_of_bounds | Diverges

type_synonym 'a res = "fault + 'a"

definition ld :: "'a list \<Rightarrow> nat \<Rightarrow> 'a res" where
  "ld xs i = (if i < length xs then Inr (xs ! i) else Inl Out_of_bounds)"

definition st :: "'a list \<Rightarrow> nat \<Rightarrow> 'a \<Rightarrow> 'a list res" where
  "st xs i v = (if i < length xs then Inr (xs[i := v]) else Inl Out_of_bounds)"

definition umod :: "u32 \<Rightarrow> u32 \<Rightarrow> u32 res" where
  "umod a b = (if b = 0 then Inl Div_by_zero else Inr (a mod b))"

text \<open>
  The result of a routine that returns zero or a negative error number: \<open>None\<close> is zero.
\<close>

datatype errno = ENOTSUP | EINVAL | ENODEV | EIO | ENOENT

type_synonym rc = "errno option"

named_theorems access \<comment> \<open>checked accesses that are in range\<close>

lemma ld_ok [access]: "i < length xs \<Longrightarrow> ld xs i = Inr (xs ! i)"
  by (simp add: ld_def)

lemma st_ok [access]: "i < length xs \<Longrightarrow> st xs i v = Inr (xs[i := v])"
  by (simp add: st_def)

lemma umod_ok [access]: "b \<noteq> 0 \<Longrightarrow> umod a b = Inr (a mod b)"
  by (simp add: umod_def)

section \<open>Words\<close>

named_theorems wordnat \<comment> \<open>word operations read as operations on \<open>nat\<close>\<close>

lemma unat_inc [wordnat]:
  fixes x y :: "'a::len word"
  assumes "x < y"
  shows "unat (x + 1) = unat x + 1"
proof -
  have "unat y < 2 ^ LENGTH('a)"
    by (rule unsigned_less)
  with assms have "unat x + 1 < 2 ^ LENGTH('a)"
    unfolding word_less_nat_alt by linarith
  then show ?thesis
    by (simp add: unat_word_ariths)
qed

lemma word_count_down:
  fixes x y :: "'a::len word"
  assumes "x < y"
  shows "unat (y - (x + 1)) < unat (y - x)"
proof -
  have le: "x + 1 \<le> y" and lt: "x \<le> y"
    using assms by (auto simp: word_le_nat_alt word_less_nat_alt unat_inc [OF assms])
  show ?thesis
    using assms unat_inc [OF assms]
    by (simp add: unat_sub [OF le] unat_sub [OF lt] word_less_nat_alt)
qed

lemma unat_mod_word [wordnat]: "unat (x mod y) = unat x mod unat y"
  by (rule unat_mod)

lemma word_mod_lt: "(y :: 'a::len word) \<noteq> 0 \<Longrightarrow> x mod y < y"
  by (simp add: word_less_nat_alt unat_mod unat_gt_0)

section \<open>Ring indices\<close>

text \<open>
  \<open>ring_slice buf t k\<close> is the list of the \<open>k\<close> elements of the circular buffer \<open>buf\<close> that
  start at index \<open>t\<close>; \<open>ring_dist n t h\<close> is the number of steps from \<open>t\<close> forward to \<open>h\<close>
  in a ring of \<open>n\<close> slots.
\<close>

definition ring_dist :: "nat \<Rightarrow> nat \<Rightarrow> nat \<Rightarrow> nat" where
  "ring_dist n t h = (if t \<le> h then h - t else h + n - t)"

definition ring_slice :: "'a list \<Rightarrow> nat \<Rightarrow> nat \<Rightarrow> 'a list" where
  "ring_slice buf t k = map (\<lambda>i. buf ! ((t + i) mod length buf)) [0..<k]"

lemma length_ring_slice [simp]: "length (ring_slice buf t k) = k"
  by (simp add: ring_slice_def)

lemma ring_slice_0 [simp]: "ring_slice buf t 0 = []"
  by (simp add: ring_slice_def)

lemma ring_slice_snoc: "ring_slice buf t (Suc k) = ring_slice buf t k @ [buf ! ((t + k) mod length buf)]"
  by (simp add: ring_slice_def)

lemma ring_slice_Cons:
  assumes "t < length buf"
  shows "ring_slice buf t (Suc k) = buf ! t # ring_slice buf (Suc t mod length buf) k"
  using assms
  by (auto simp: ring_slice_def map_upt_Suc mod_simps simp del: upt_Suc)

lemma mod_add_inj_le:
  fixes i n m t :: nat
  assumes "i \<le> m" "m < n" "(t + m) mod n = (t + i) mod n"
  shows "i = m"
proof -
  have "n dvd (t + m) - (t + i)"
    using assms by (subst mod_eq_dvd_iff_nat [symmetric]) simp_all
  then have "n dvd m - i" by simp
  moreover have "m - i < n" using assms by simp
  ultimately show ?thesis
    using assms(1) by (meson diff_is_0_eq dvd_imp_le le_antisym leD not_gr_zero)
qed

lemma mod_add_inj:
  fixes i n m t :: nat
  assumes "i < n" "m < n" "(t + i) mod n = (t + m) mod n"
  shows "i = m"
  using assms mod_add_inj_le [of i m n t] mod_add_inj_le [of m i n t]
  by (metis nat_le_linear)

lemma ring_slice_update:
  assumes "k \<le> m" "m < length buf"
  shows "ring_slice (buf[(t + m) mod length buf := v]) t k = ring_slice buf t k"
proof -
  have "(t + m) mod length buf \<noteq> (t + i) mod length buf" if "i < k" for i
    using that assms mod_add_inj [of m "length buf" i t] by auto
  with assms show ?thesis
    by (auto simp: ring_slice_def nth_list_update_neq)
qed

section \<open>Single-bit flags\<close>

lemma bit_flag: "bit (push_bit n 1 :: 'a::len word) k \<longleftrightarrow> k = n \<and> n < LENGTH('a)"
  by (auto simp: bit_simps)

lemma and_flag: "(x :: 'a::len word) AND push_bit n 1 \<noteq> 0 \<longleftrightarrow> bit x n"
  by (metis and_exp_eq_0_iff_not_bit push_bit_of_1)

section \<open>Consecutive stores and loads\<close>

text \<open>A run of stores \<open>p[i++] = v\<close>, each of them checked.\<close>

fun store_seq :: "'a list \<Rightarrow> nat \<Rightarrow> 'a list \<Rightarrow> 'a list res" where
  "store_seq p i [] = Inr p"
| "store_seq p i (v # vs) =
     (case st p i v of Inl e \<Rightarrow> Inl e | Inr p' \<Rightarrow> store_seq p' (Suc i) vs)"

lemma store_seq_ok [access]:
  "i + length vs \<le> length p \<Longrightarrow> store_seq p i vs = Inr (take i p @ vs @ drop (i + length vs) p)"
proof (induction vs arbitrary: i p)
  case (Cons v vs)
  then have "i < length p" by simp
  then show ?case
    using Cons by (simp add: access take_Suc_conv_app_nth)
qed simp

text \<open>A run of loads \<open>p[i++]\<close>.\<close>

fun load_seq :: "'a list \<Rightarrow> nat \<Rightarrow> nat \<Rightarrow> 'a list res" where
  "load_seq p i 0 = Inr []"
| "load_seq p i (Suc n) =
     (case ld p i of
        Inl e \<Rightarrow> Inl e
      | Inr v \<Rightarrow> (case load_seq p (Suc i) n of Inl e \<Rightarrow> Inl e | Inr vs \<Rightarrow> Inr (v # vs)))"

lemma load_seq_ok [access]: "i + n \<le> length p \<Longrightarrow> load_seq p i n = Inr (take n (drop i p))"
proof (induction n arbitrary: i)
  case (Suc n)
  then have "drop i p = p ! i # drop (Suc i) p" by (simp add: Cons_nth_drop_Suc)
  then show ?case using Suc by (simp add: access)
qed simp

lemma load_seq_overrun: "length p < i + n \<Longrightarrow> i \<le> length p \<Longrightarrow> load_seq p i n = Inl Out_of_bounds"
  by (induction n arbitrary: i) (auto simp: ld_def split: sum.splits)

lemma unat_of_nat32: "k < 2 ^ 32 \<Longrightarrow> unat (of_nat k :: u32) = k"
  by (simp add: unat_of_nat)

section \<open>Packed structures\<close>

text \<open>A number of two bytes at an offset of a packed structure, little endian.\<close>

definition rd16 :: "u8 list \<Rightarrow> nat \<Rightarrow> u16" where
  "rd16 v i = ucast (v ! i) OR push_bit 8 (ucast (v ! (i + 1)))"

definition wr16 :: "nat \<Rightarrow> u16 \<Rightarrow> u8 list \<Rightarrow> u8 list" where
  "wr16 i x v = v[i := ucast x, i + 1 := ucast (drop_bit 8 x)]"

section \<open>Machines that do not fault\<close>

text \<open>
  Several components are machines that take one input at a time. \<open>run_res\<close> feeds a list of
  inputs to such a machine and stops at the first fault. The interface \<open>safe_machine\<close> is the
  contract of a machine that keeps an invariant and never faults on admissible inputs; the
  whole-run statement is proved once, and every machine of the development obtains it by
  interpretation.
\<close>

fun run_res :: "('s \<Rightarrow> 'i \<Rightarrow> ('o \<times> 's) res) \<Rightarrow> 's \<Rightarrow> 'i list \<Rightarrow> ('o list \<times> 's) res" where
  "run_res step s [] = Inr ([], s)"
| "run_res step s (i # is) =
     (case step s i of
        Inl e \<Rightarrow> Inl e
      | Inr (o1, s1) \<Rightarrow>
          (case run_res step s1 is of
             Inl e \<Rightarrow> Inl e
           | Inr (os, s2) \<Rightarrow> Inr (o1 # os, s2)))"

locale safe_machine =
  fixes step :: "'s \<Rightarrow> 'i \<Rightarrow> ('o \<times> 's) res"
    and inv :: "'s \<Rightarrow> bool"
    and adm :: "'i \<Rightarrow> bool"
  assumes step_safe: "inv s \<Longrightarrow> adm i \<Longrightarrow> \<exists>out s'. step s i = Inr (out, s') \<and> inv s'"
begin

lemma run_safe:
  "inv s \<Longrightarrow> list_all adm is \<Longrightarrow>
     \<exists>os s'. run_res step s is = Inr (os, s') \<and> length os = length is \<and> inv s'"
proof (induction "is" arbitrary: s)
  case (Cons i "is")
  obtain out s1 where s1: "step s i = Inr (out, s1)" "inv s1"
    using step_safe [of s i] Cons.prems by auto
  then show ?case using Cons.IH [OF s1(2)] Cons.prems by auto
qed simp

end

end
