(* ===== verification/Flash.thy ===== *)
theory Flash
  imports Prelude
begin

text \<open>
  Byte-wise writing of the internal flash: \<open>amd_crb_flash_byte_write\<close> of
  \<open>src/drivers/amd_crb_drivers_spiFlash.c\<close>, with the read access beside it. The flash driver is
  not part of the repository: its three operations are a value of type \<open>flash_dev\<close> over an
  arbitrary device state, and what NOR flash does (erasing gives ones, writing can only clear
  bits) is the predicate \<open>nor_flash\<close> about them.
\<close>

section \<open>The driver\<close>

record 'd flash_dev =
  flash_read :: "nat \<Rightarrow> nat \<Rightarrow> 'd \<Rightarrow> int \<times> u8 list" \<comment> \<open>offset, length; result code and buffer\<close>
  flash_erase :: "nat \<Rightarrow> nat \<Rightarrow> 'd \<Rightarrow> int \<times> 'd"
  flash_write :: "nat \<Rightarrow> u8 list \<Rightarrow> 'd \<Rightarrow> int \<times> 'd"

definition put :: "nat \<Rightarrow> 'a list \<Rightarrow> 'a list \<Rightarrow> 'a list" where
  "put off xs m = take off m @ xs @ drop (off + length xs) m"

definition slice :: "nat \<Rightarrow> nat \<Rightarrow> 'a list \<Rightarrow> 'a list" where
  "slice off n m = take n (drop off m)"

text \<open>\<open>c\<close> is the contents of the device.\<close>

definition nor_flash :: "'d flash_dev \<Rightarrow> ('d \<Rightarrow> u8 list) \<Rightarrow> bool" where
  "nor_flash F c \<longleftrightarrow>
     (\<forall>off n d. length (snd (flash_read F off n d)) = n \<and>
        (fst (flash_read F off n d) = 0 \<longrightarrow> off + n \<le> length (c d) \<and> snd (flash_read F off n d) = slice off n (c d))) \<and>
     (\<forall>off n d rc d'. flash_erase F off n d = (rc, d') \<longrightarrow> length (c d') = length (c d) \<and>
        (rc = 0 \<longrightarrow> off + n \<le> length (c d) \<and> c d' = put off (replicate n 0xFF) (c d))) \<and>
     (\<forall>off xs d rc d'. flash_write F off xs d = (rc, d') \<longrightarrow> length (c d') = length (c d) \<and>
        (rc = 0 \<longrightarrow> off + length xs \<le> length (c d) \<and>
           c d' = put off (map2 (AND) (slice off (length xs) (c d)) xs) (c d)))"

section \<open>Operations\<close>

definition SECTOR_SIZE :: nat where "SECTOR_SIZE = 4096"

definition amd_crb_drivers_sFlash_int_read :: "'d flash_dev \<Rightarrow> nat \<Rightarrow> nat \<Rightarrow> 'd \<Rightarrow> int \<times> u8 list" where
  "amd_crb_drivers_sFlash_int_read F offset n d = flash_read F offset n d"

definition need_erase :: "u8 list \<Rightarrow> u8 list \<Rightarrow> bool" where
  "need_erase src old = list_ex (\<lambda>(s, o'). s AND NOT o' \<noteq> 0) (zip src old)"

definition chunk_len :: "nat \<Rightarrow> u8 list \<Rightarrow> nat" where
  "chunk_len offset src = min (length src) (SECTOR_SIZE - offset mod SECTOR_SIZE)"

definition write_chunk :: "'d flash_dev \<Rightarrow> nat \<Rightarrow> u8 list \<Rightarrow> 'd \<Rightarrow> int \<times> 'd" where
  "write_chunk F offset chunk d =
     (let sector_offset = offset mod SECTOR_SIZE; sector_start = offset - sector_offset;
          (rc, sector_buffer) = flash_read F sector_start SECTOR_SIZE d
      in if rc \<noteq> 0 then (rc, d)
      else if need_erase chunk (drop sector_offset sector_buffer)
      then (let (rc1, d1) = flash_erase F sector_start SECTOR_SIZE d in
            if rc1 \<noteq> 0 then (rc1, d1) else flash_write F sector_start (put sector_offset chunk sector_buffer) d1)
      else flash_write F offset chunk d)"

function write_chunks :: "'d flash_dev \<Rightarrow> nat \<Rightarrow> u8 list \<Rightarrow> 'd \<Rightarrow> int \<times> 'd" where
  "write_chunks F offset src d =
     (if src = [] then (0, d)
      else
        (let n = chunk_len offset src; (rc, d') = write_chunk F offset (take n src) d in
         if rc \<noteq> 0 then (rc, d') else write_chunks F (offset + n) (drop n src) d'))"
  by pat_completeness auto
termination
  by (relation "measure (\<lambda>(F, offset, src, d). length src)") (auto simp: chunk_len_def SECTOR_SIZE_def)

declare write_chunks.simps [simp del]

definition amd_crb_flash_byte_write :: "'d flash_dev \<Rightarrow> nat \<Rightarrow> u8 list \<Rightarrow> 'd \<Rightarrow> int \<times> 'd" where
  "amd_crb_flash_byte_write F offset src d = (if src = [] then (- 22, d) else write_chunks F offset src d)"

section \<open>A successful write replaces the bytes and no others\<close>

lemma length_put [simp]: "off + length xs \<le> length m \<Longrightarrow> length (put off xs m) = length m"
  by (simp add: put_def)

lemma length_slice [simp]: "off + n \<le> length m \<Longrightarrow> length (slice off n m) = n"
  by (simp add: slice_def)

lemma nth_put:
  "off + length xs \<le> length m \<Longrightarrow> i < length m \<Longrightarrow>
     put off xs m ! i = (if off \<le> i \<and> i < off + length xs then xs ! (i - off) else m ! i)"
  by (auto simp: put_def nth_append min_def)

lemma nth_slice: "off + n \<le> length m \<Longrightarrow> i < n \<Longrightarrow> slice off n m ! i = m ! (off + i)"
  by (simp add: slice_def)

lemma put_put_same: "off + length xs \<le> length m \<Longrightarrow> length ys = length xs \<Longrightarrow> put off xs (put off ys m) = put off xs m"
  by (intro nth_equalityI) (auto simp: nth_put)

lemma put_append:
  "off + length xs + length ys \<le> length m \<Longrightarrow> put (off + length xs) ys (put off xs m) = put off (xs @ ys) m"
  by (intro nth_equalityI) (auto simp: nth_put nth_append)

lemma put_in_slice:
  assumes "a + n \<le> length m" "so + length xs \<le> n"
  shows "put a (put so xs (slice a n m)) m = put (a + so) xs m"
proof (rule nth_equalityI)
  show "length (put a (put so xs (slice a n m)) m) = length (put (a + so) xs m)" using assms by simp
next
  fix i assume "i < length (put a (put so xs (slice a n m)) m)"
  then have "i < length m" using assms by simp
  then show "put a (put so xs (slice a n m)) m ! i = put (a + so) xs m ! i"
    using assms by (auto simp: nth_put nth_slice)
qed

lemma slice_put: "a + length xs \<le> length m \<Longrightarrow> length xs = n \<Longrightarrow> slice a n (put a xs m) = xs"
  by (simp add: slice_def put_def)

lemma slice_put_other:
  assumes "a + length xs \<le> length m" "off + n \<le> length m" "off + n \<le> a \<or> a + length xs \<le> off"
  shows "slice off n (put a xs m) = slice off n m"
  using assms by (intro nth_equalityI) (auto simp: nth_slice nth_put)

lemma map2_ones: "map2 (AND) (replicate (length xs) (0xFF :: u8)) xs = xs"
proof -
  have "(0xFF :: u8) = - 1" by simp
  then have "(0xFF :: u8) AND x = x" for x by (metis and.left_neutral)
  then show ?thesis by (intro nth_equalityI) simp_all
qed

lemma map2_clear:
  assumes "\<not> need_erase src old" "length src \<le> length old"
  shows "map2 (AND) (take (length src) old) src = src"
proof (rule nth_equalityI)
  fix i assume "i < length (map2 (AND) (take (length src) old) src)"
  then have i: "i < length src" "i < length old" using assms(2) by simp_all
  have "(src ! i, old ! i) \<in> set (zip src old)" using i by (auto simp: in_set_zip)
  then have "src ! i AND NOT (old ! i) = 0" using assms(1) by (auto simp: need_erase_def list_ex_iff)
  then have "old ! i AND src ! i = src ! i"
    by (auto simp: bit_eq_iff bit_simps)
  with i show "map2 (AND) (take (length src) old) src ! i = src ! i" by simp
qed (use assms(2) in simp)

text \<open>One chunk inside its sector.\<close>

lemma write_chunk_ok:
  assumes nor: "nor_flash F c" and w: "write_chunk F offset chunk d = (0, d')"
    and len: "offset mod SECTOR_SIZE + length chunk \<le> SECTOR_SIZE"
  shows "offset + length chunk \<le> length (c d) \<and> c d' = put offset chunk (c d)"
proof -
  let ?so = "offset mod SECTOR_SIZE"
  let ?start = "offset - ?so"
  obtain rc buf where rd: "flash_read F ?start SECTOR_SIZE d = (rc, buf)" by (cases "flash_read F ?start SECTOR_SIZE d")
  have "rc = 0" using w rd by (auto simp: write_chunk_def Let_def split: if_splits)
  then have buf: "buf = slice ?start SECTOR_SIZE (c d)" "?start + SECTOR_SIZE \<le> length (c d)"
    using nor rd unfolding nor_flash_def by (metis fst_conv snd_conv)+
  have so: "?start + ?so = offset" by simp
  have room: "offset + length chunk \<le> length (c d)" using buf(2) len so by linarith
  show ?thesis
  proof (cases "need_erase chunk (drop ?so buf)")
    case True
    let ?img = "put ?so chunk buf"
    obtain d1 where e: "flash_erase F ?start SECTOR_SIZE d = (0, d1)" "flash_write F ?start ?img d1 = (0, d')"
      using w rd \<open>rc = 0\<close> True by (auto simp: write_chunk_def Let_def split: prod.splits if_splits)
    have lb: "length buf = SECTOR_SIZE" using buf by simp
    then have li: "length ?img = SECTOR_SIZE" using len by simp
    have d1: "c d1 = put ?start (replicate SECTOR_SIZE 0xFF) (c d)" using nor e(1) by (auto simp: nor_flash_def)
    have "slice ?start (length ?img) (c d1) = replicate (length ?img) 0xFF"
      using buf(2) slice_put [of ?start "replicate SECTOR_SIZE 0xFF" "c d" SECTOR_SIZE] by (simp add: d1 li)
    then have "c d' = put ?start ?img (c d1)"
      using nor e(2) map2_ones [of ?img] by (auto simp: nor_flash_def)
    also have "\<dots> = put ?start ?img (c d)" using buf(2) li by (simp add: d1 put_put_same)
    also have "\<dots> = put offset chunk (c d)"
      using put_in_slice [OF buf(2), of ?so chunk] len by (simp add: buf(1) so)
    finally show ?thesis using room by simp
  next
    case False
    have "flash_write F offset chunk d = (0, d')"
      using w rd \<open>rc = 0\<close> False by (simp add: write_chunk_def Let_def)
    then have "c d' = put offset (map2 (AND) (slice offset (length chunk) (c d)) chunk) (c d)"
      using nor by (auto simp: nor_flash_def)
    moreover have "slice offset (length chunk) (c d) = take (length chunk) (drop ?so buf)"
      using buf room len so by (intro nth_equalityI) (auto simp: nth_slice slice_def)
    moreover have "length chunk \<le> length (drop ?so buf)" using buf len by simp
    ultimately show ?thesis using map2_clear [OF False] room by simp
  qed
qed

lemma write_chunks_ok:
  assumes "nor_flash F c" "write_chunks F offset src d = (0, d')" "offset + length src \<le> length (c d)"
  shows "c d' = put offset src (c d)"
  using assms
proof (induction F offset src d rule: write_chunks.induct)
  case (1 F offset src d)
  show ?case
  proof (cases "src = []")
    case True
    with "1.prems" show ?thesis by (simp add: write_chunks.simps [of F offset "[]" d] put_def)
  next
    case False
    let ?n = "chunk_len offset src"
    obtain rc d1 where w: "write_chunk F offset (take ?n src) d = (rc, d1)" by (cases "write_chunk F offset (take ?n src) d")
    have rc: "rc = 0" and r: "write_chunks F (offset + ?n) (drop ?n src) d1 = (0, d')"
      using "1.prems"(2) False w by (auto simp: write_chunks.simps [of F offset src d] Let_def split: if_splits)
    have "offset mod SECTOR_SIZE < SECTOR_SIZE" by (simp add: SECTOR_SIZE_def)
    then have n: "?n \<le> length src" "offset mod SECTOR_SIZE + length (take ?n src) \<le> SECTOR_SIZE"
      by (auto simp: chunk_len_def)
    have c1: "c d1 = put offset (take ?n src) (c d)"
      using write_chunk_ok [OF "1.prems"(1) _ n(2)] w rc by simp
    have l: "offset + ?n + length (drop ?n src) \<le> length (c d)" using "1.prems"(3) n(1) by simp
    then have "c d' = put (offset + ?n) (drop ?n src) (c d1)"
      using "1.IH" [OF False refl w [symmetric] refl] rc "1.prems"(1) r c1 n(1) by (simp add: min_def)
    also have "\<dots> = put offset (take ?n src @ drop ?n src) (c d)"
    proof -
      have "length (take ?n src) = ?n" using n(1) by simp
      then show ?thesis using put_append [of offset "take ?n src" "drop ?n src" "c d"] l unfolding c1 by metis
    qed
    finally show ?thesis by simp
  qed
qed

lemma byte_write_ok:
  assumes "nor_flash F c" "amd_crb_flash_byte_write F offset src d = (0, d')" "offset + length src \<le> length (c d)"
  shows "c d' = put offset src (c d)"
  using assms write_chunks_ok by (auto simp: amd_crb_flash_byte_write_def split: if_splits)

section \<open>Drivers that work\<close>

text \<open>Accesses inside the device succeed.\<close>

definition flash_works :: "'d flash_dev \<Rightarrow> ('d \<Rightarrow> u8 list) \<Rightarrow> bool" where
  "flash_works F c \<longleftrightarrow>
     (\<forall>off n d. off + n \<le> length (c d) \<longrightarrow> fst (flash_read F off n d) = 0 \<and> fst (flash_erase F off n d) = 0) \<and>
     (\<forall>off xs d. off + length xs \<le> length (c d) \<longrightarrow> fst (flash_write F off xs d) = 0)"

lemma flash_read_works:
  assumes "flash_works F c" "nor_flash F c" "off + n \<le> length (c d)"
  shows "snd (flash_read F off n d) = slice off n (c d)"
  using assms by (auto simp: flash_works_def nor_flash_def)

text \<open>A device that is a list of bytes.\<close>

definition demo_flash :: "u8 list flash_dev" where
  "demo_flash = \<lparr>flash_read = (\<lambda>off n d. if off + n \<le> length d then (0, slice off n d) else (- 5, replicate n 0)),
     flash_erase = (\<lambda>off n d. if off + n \<le> length d then (0, put off (replicate n 0xFF) d) else (- 5, d)),
     flash_write = (\<lambda>off xs d. if off + length xs \<le> length d
       then (0, put off (map2 (AND) (slice off (length xs) d) xs) d) else (- 5, d))\<rparr>"

lemma demo_flash_nor: "nor_flash demo_flash id"
  by (auto simp: nor_flash_def demo_flash_def split: if_splits)

lemma demo_flash_works: "flash_works demo_flash id"
  by (auto simp: flash_works_def demo_flash_def)

end
