(* ===== verification/Bram.thy ===== *)
theory Bram
  imports Prelude
begin

text \<open>
  The battery-backed RAM: \<open>src/misc/f_bram.c\<close>. Its 128 bytes survive a reset; the first four
  hold the signature of the reason for the next boot, the others are rows of four bytes.
\<close>

section \<open>Little-endian words in byte arrays\<close>

definition rd32 :: "u8 list \<Rightarrow> nat \<Rightarrow> u32" where
  "rd32 xs i = ucast (xs ! i) OR push_bit 8 (ucast (xs ! (i + 1))) OR push_bit 16 (ucast (xs ! (i + 2))) OR
     push_bit 24 (ucast (xs ! (i + 3)))"

definition wr32 :: "u8 list \<Rightarrow> nat \<Rightarrow> u32 \<Rightarrow> u8 list" where
  "wr32 xs i v = xs[i := ucast v, i + 1 := ucast (drop_bit 8 v), i + 2 := ucast (drop_bit 16 v), i + 3 := ucast (drop_bit 24 v)]"

lemma length_wr32 [simp]: "length (wr32 xs i v) = length xs"
  by (simp add: wr32_def)

lemma bytes_of_u32:
  "ucast (ucast (v :: u32) :: u8) OR push_bit 8 (ucast (ucast (drop_bit 8 v) :: u8)) OR
     push_bit 16 (ucast (ucast (drop_bit 16 v) :: u8)) OR push_bit 24 (ucast (ucast (drop_bit 24 v) :: u8)) = v" (is "?l = v")
proof (rule bit_word_eqI)
  fix n assume "n < LENGTH(32)"
  then consider "n < 8" | "8 \<le> n" "n < 16" | "16 \<le> n" "n < 24" | "24 \<le> n" "n < 32" by fastforce
  then show "bit ?l n = bit v n"
    by cases (auto simp: bit_simps)
qed

lemma rd32_wr32: "i + 3 < length xs \<Longrightarrow> rd32 (wr32 xs i v) i = v"
  using bytes_of_u32 [of v] by (simp add: rd32_def wr32_def)

lemma wr32_other: "j < i \<or> i + 3 < j \<Longrightarrow> wr32 xs i v ! j = xs ! j"
  by (auto simp: wr32_def nth_list_update_neq)

lemma rd32_wr32_other: "j + 3 < i \<or> i + 3 < j \<Longrightarrow> rd32 (wr32 xs i v) j = rd32 xs j"
  by (auto simp: rd32_def wr32_other)

section \<open>State and operations\<close>

record bram =
  u8Arr :: "u8 list" \<comment> \<open>128 bytes\<close>
  s_pageSelector :: u8
  s_bootReason :: u32

definition F_BRAM_RAM_SIZE :: nat where "F_BRAM_RAM_SIZE = 128"
definition F_BRAM_ACPI_SPACE_PAGE_BASE :: u8 where "F_BRAM_ACPI_SPACE_PAGE_BASE = 0"
definition F_BRAM_ACPI_SPACE_PAGE_SELECTOR_OFFSET :: u8 where "F_BRAM_ACPI_SPACE_PAGE_SELECTOR_OFFSET = 0x30"

definition F_BRAM_COLD_BOOT_SIGNATURE :: u32 where "F_BRAM_COLD_BOOT_SIGNATURE = 0x444C4F43"
definition F_BRAM_WDT_BOOT_SIGNATURE :: u32 where "F_BRAM_WDT_BOOT_SIGNATURE = 0x5444575F"
definition F_BRAM_VCI_BOOT_SIGNATURE :: u32 where "F_BRAM_VCI_BOOT_SIGNATURE = 0x4943565F"
definition F_BRAM_UNEXPECTED_BOOT_SIGNATURE :: u32 where "F_BRAM_UNEXPECTED_BOOT_SIGNATURE = 0x50584555"
definition F_BRAM_FLASH_BIOS_WDT_BOOT_SIGNATURE :: u32 where "F_BRAM_FLASH_BIOS_WDT_BOOT_SIGNATURE = 0x48534146"
definition F_BRAM_NV_OPTION_UPDATE_SIGNATURE :: u32 where "F_BRAM_NV_OPTION_UPDATE_SIGNATURE = 0x4455564E"

lemmas bram_signatures = F_BRAM_COLD_BOOT_SIGNATURE_def F_BRAM_WDT_BOOT_SIGNATURE_def F_BRAM_VCI_BOOT_SIGNATURE_def
  F_BRAM_UNEXPECTED_BOOT_SIGNATURE_def F_BRAM_FLASH_BIOS_WDT_BOOT_SIGNATURE_def F_BRAM_NV_OPTION_UPDATE_SIGNATURE_def

definition f_bram_setSig :: "u32 \<Rightarrow> bram \<Rightarrow> bram" where
  "f_bram_setSig sig b = b\<lparr>u8Arr := wr32 (u8Arr b) 0 sig\<rparr>"

definition f_bram_onBootUp :: "bram \<Rightarrow> bram" where
  "f_bram_onBootUp b =
     (let r = rd32 (u8Arr b) 0; b1 = b\<lparr>s_bootReason := r\<rparr>;
          zero = (\<lambda>b. b\<lparr>u8Arr := replicate F_BRAM_RAM_SIZE 0\<rparr>);
          b2 = (if r \<in> {F_BRAM_VCI_BOOT_SIGNATURE, F_BRAM_WDT_BOOT_SIGNATURE, F_BRAM_FLASH_BIOS_WDT_BOOT_SIGNATURE, F_BRAM_NV_OPTION_UPDATE_SIGNATURE} then b1
                else if r = F_BRAM_UNEXPECTED_BOOT_SIGNATURE then zero b1
                else (zero b1)\<lparr>s_bootReason := F_BRAM_COLD_BOOT_SIGNATURE\<rparr>)
      in f_bram_setSig F_BRAM_UNEXPECTED_BOOT_SIGNATURE b2)"

definition f_bram_bootReason :: "bram \<Rightarrow> u32" where
  "f_bram_bootReason b = s_bootReason b"

definition f_bram_bootReasonClear :: "bram \<Rightarrow> bram" where
  "f_bram_bootReasonClear b = b\<lparr>s_bootReason := F_BRAM_COLD_BOOT_SIGNATURE\<rparr>"

definition f_bram_getRow :: "u8 \<Rightarrow> bram \<Rightarrow> u32 res" where
  "f_bram_getRow r b =
     (if unat r < F_BRAM_RAM_SIZE div 4 \<and> r \<noteq> 0 then Inr (rd32 (u8Arr b) (unat r * 4)) else Inl Assert_failed)"

text \<open>The row is read at \<open>r * 4\<close> and the result is stored in the first four bytes.\<close>

definition f_bram_setRow :: "u8 \<Rightarrow> u32 \<Rightarrow> u32 \<Rightarrow> bram \<Rightarrow> bram res" where
  "f_bram_setRow r u32Val u32Msk b =
     (if unat r < F_BRAM_RAM_SIZE div 4 \<and> r \<noteq> 0 then
        (let u32tmp = (rd32 (u8Arr b) (unat r * 4) AND NOT u32Msk) OR (u32Val AND u32Msk)
         in Inr (b\<lparr>u8Arr := wr32 (u8Arr b) 0 u32tmp\<rparr>))
      else Inl Assert_failed)"

definition f_bram_acpiHandler :: "bool \<Rightarrow> u8 \<Rightarrow> u8 \<Rightarrow> bram \<Rightarrow> u8 \<times> u8 \<times> bram" where
  "f_bram_acpiHandler isRead idx data b =
     (let i = idx - F_BRAM_ACPI_SPACE_PAGE_BASE in
      if i = F_BRAM_ACPI_SPACE_PAGE_SELECTOR_OFFSET then
        (if isRead then (1, s_pageSelector b, b)
         else (1, data, if data < 3 then b\<lparr>s_pageSelector := data\<rparr> else b))
      else
        (let offset = s_pageSelector b * F_BRAM_ACPI_SPACE_PAGE_SELECTOR_OFFSET + i in
         if unat offset < F_BRAM_RAM_SIZE then
           (if isRead then (1, u8Arr b ! unat offset, b)
            else (1, data, b\<lparr>u8Arr := (u8Arr b)[unat offset := data]\<rparr>))
         else (0, data, b)))"

section \<open>Properties\<close>

definition bram_wf :: "bram \<Rightarrow> bool" where
  "bram_wf b \<longleftrightarrow> length (u8Arr b) = F_BRAM_RAM_SIZE"

lemma setSig_wf: "bram_wf b \<Longrightarrow> bram_wf (f_bram_setSig sig b)"
  by (simp add: bram_wf_def f_bram_setSig_def)

lemma onBootUp_wf: "bram_wf b \<Longrightarrow> bram_wf (f_bram_onBootUp b)"
  by (simp add: bram_wf_def f_bram_onBootUp_def f_bram_setSig_def Let_def)

lemma acpiHandler_wf: "bram_wf b \<Longrightarrow> bram_wf (snd (snd (f_bram_acpiHandler isRead idx data b)))"
  by (auto simp: bram_wf_def f_bram_acpiHandler_def Let_def)

lemma sig_read: "bram_wf b \<Longrightarrow> rd32 (u8Arr (f_bram_setSig sig b)) 0 = sig"
  by (simp add: f_bram_setSig_def rd32_wr32 bram_wf_def F_BRAM_RAM_SIZE_def)

text \<open>
  The reason given before a reset is the reason of the next boot for the four planned resets,
  every other value boots cold with the RAM cleared, and a reset without a new reason is
  reported as unexpected.
\<close>

lemma bram_boot_reason:
  assumes "bram_wf b"
  shows "f_bram_bootReason (f_bram_onBootUp (f_bram_setSig sig b)) =
       (if sig \<in> {F_BRAM_VCI_BOOT_SIGNATURE, F_BRAM_WDT_BOOT_SIGNATURE, F_BRAM_FLASH_BIOS_WDT_BOOT_SIGNATURE, F_BRAM_NV_OPTION_UPDATE_SIGNATURE,
          F_BRAM_UNEXPECTED_BOOT_SIGNATURE} then sig else F_BRAM_COLD_BOOT_SIGNATURE)"
    and "f_bram_bootReason (f_bram_onBootUp (f_bram_onBootUp b)) = F_BRAM_UNEXPECTED_BOOT_SIGNATURE"
proof -
  have r: "f_bram_bootReason (f_bram_onBootUp b) = (if rd32 (u8Arr b) 0 \<in>
      {F_BRAM_VCI_BOOT_SIGNATURE, F_BRAM_WDT_BOOT_SIGNATURE, F_BRAM_FLASH_BIOS_WDT_BOOT_SIGNATURE, F_BRAM_NV_OPTION_UPDATE_SIGNATURE,
          F_BRAM_UNEXPECTED_BOOT_SIGNATURE} then rd32 (u8Arr b) 0 else F_BRAM_COLD_BOOT_SIGNATURE)" for b
    by (simp add: f_bram_onBootUp_def f_bram_bootReason_def f_bram_setSig_def Let_def)
  show "f_bram_bootReason (f_bram_onBootUp (f_bram_setSig sig b)) =
       (if sig \<in> {F_BRAM_VCI_BOOT_SIGNATURE, F_BRAM_WDT_BOOT_SIGNATURE, F_BRAM_FLASH_BIOS_WDT_BOOT_SIGNATURE, F_BRAM_NV_OPTION_UPDATE_SIGNATURE,
          F_BRAM_UNEXPECTED_BOOT_SIGNATURE} then sig else F_BRAM_COLD_BOOT_SIGNATURE)"
    using r [of "f_bram_setSig sig b"] sig_read [OF assms] by simp
  have "rd32 (u8Arr (f_bram_onBootUp b)) 0 = F_BRAM_UNEXPECTED_BOOT_SIGNATURE"
    using assms by (simp add: f_bram_onBootUp_def f_bram_setSig_def Let_def rd32_wr32 bram_wf_def F_BRAM_RAM_SIZE_def)
  then show "f_bram_bootReason (f_bram_onBootUp (f_bram_onBootUp b)) = F_BRAM_UNEXPECTED_BOOT_SIGNATURE"
    using r [of "f_bram_onBootUp b"] by simp
qed

text \<open>
  Setting a row of the battery-backed RAM destroys the boot signature and not the row: for
  every valid row, value and mask the row reads as before, while the four bytes of the boot
  signature become the merged value; the next boot is then a cold boot that clears the RAM,
  unless the value happens to be one of the signatures.
\<close>

theorem bram_set_row_hits_signature:
  assumes "bram_wf b" "f_bram_setRow r v msk b = Inr b1" "f_bram_getRow r b = Inr old" "m = (old AND NOT msk) OR (v AND msk)"
    and "m \<notin> {F_BRAM_VCI_BOOT_SIGNATURE, F_BRAM_WDT_BOOT_SIGNATURE, F_BRAM_FLASH_BIOS_WDT_BOOT_SIGNATURE, F_BRAM_NV_OPTION_UPDATE_SIGNATURE,
          F_BRAM_UNEXPECTED_BOOT_SIGNATURE}"
  shows "f_bram_getRow r b1 = Inr old \<and> rd32 (u8Arr b1) 0 = m \<and> f_bram_bootReason (f_bram_onBootUp b1) = F_BRAM_COLD_BOOT_SIGNATURE \<and>
     f_bram_getRow r (f_bram_onBootUp b1) = Inr 0"
proof -
  have r: "unat r < 32" "r \<noteq> 0" and o: "old = rd32 (u8Arr b) (unat r * 4)"
    using assms(3) by (auto simp: f_bram_getRow_def F_BRAM_RAM_SIZE_def split: if_splits)
  have r4: "3 < unat r * 4" using r(2) unat_gt_0 [of r] by simp
  have b1: "b1 = b\<lparr>u8Arr := wr32 (u8Arr b) 0 m\<rparr>"
    using assms(2,4) o by (simp add: f_bram_setRow_def Let_def split: if_splits)
  have sig: "rd32 (u8Arr b1) 0 = m" using b1 assms(1) by (simp add: rd32_wr32 bram_wf_def F_BRAM_RAM_SIZE_def)
  have row: "rd32 (u8Arr b1) (unat r * 4) = old" using b1 o r4 by (simp add: rd32_wr32_other)
  have boot: "f_bram_onBootUp b1 = f_bram_setSig F_BRAM_UNEXPECTED_BOOT_SIGNATURE
      (b1\<lparr>u8Arr := replicate F_BRAM_RAM_SIZE 0, s_bootReason := F_BRAM_COLD_BOOT_SIGNATURE\<rparr>)"
    using sig assms(5) by (simp add: f_bram_onBootUp_def Let_def)
  have "rd32 (u8Arr (f_bram_onBootUp b1)) (unat r * 4) = 0"
    using r r4 by (simp add: boot f_bram_setSig_def rd32_wr32_other) (simp add: rd32_def F_BRAM_RAM_SIZE_def)
  with sig row boot r show ?thesis
    by (simp add: f_bram_getRow_def F_BRAM_RAM_SIZE_def f_bram_bootReason_def f_bram_setSig_def)
qed

end
