(* ===== verification/Rpmc_rom.thy ===== *)
theory Rpmc_rom
  imports Flash Bram
begin

text \<open>
  The storage of the replay protected counters, \<open>src/drivers/oob_rpmc_rom.c\<close>: eight root keys in a
  block of the internal flash each, and eight counters in two blocks each. A new value is stored in
  the slot below the last one, so that a block is only erased when it is full; at start the lowest valid slot
  is the newest. The flash driver, the CRC-16 of the operating system and the readiness of the devices are
  parameters. Addresses are natural numbers: all of them lie between the base and the end of the
  storage, so that none is zero and no sum leaves 32 bits.
\<close>

section \<open>Layout\<close>

definition RPMC_ROM_BLOCK_SIZE :: nat where "RPMC_ROM_BLOCK_SIZE = 0x1000"
definition RPMC_ROM_MC_NUM :: nat where "RPMC_ROM_MC_NUM = 8"
definition RPMC_ROM_MC_BLOCK_NUM :: nat where "RPMC_ROM_MC_BLOCK_NUM = 2"
definition RPMC_ROM_RK_DATA_SIZE :: nat where "RPMC_ROM_RK_DATA_SIZE = 48"
definition RPMC_ROM_MC_DATA_SIZE :: nat where "RPMC_ROM_MC_DATA_SIZE = 4"
definition RPMC_ROM_UNIQUE_ID_SIZE :: nat where "RPMC_ROM_UNIQUE_ID_SIZE = 16"
definition RPMC_ROM_ACCESS_SIZE :: nat where "RPMC_ROM_ACCESS_SIZE = 64"
definition RPMC_ROM_VERSION :: u16 where "RPMC_ROM_VERSION = 2"
definition RPMC_ROM_BUS_SPI :: u8 where "RPMC_ROM_BUS_SPI = 2"
definition RPMC_ROM_BUS_CACHE :: u8 where "RPMC_ROM_BUS_CACHE = 0"
definition RPMC_ROM_PARAM_ADDR :: nat where "RPMC_ROM_PARAM_ADDR = 0x80000"
definition RPMC_ROM_ROOT_KEY_ADDR :: nat where "RPMC_ROM_ROOT_KEY_ADDR = RPMC_ROM_PARAM_ADDR + RPMC_ROM_BLOCK_SIZE"
definition RPMC_ROM_ROOT_KEY_SIZE :: nat where "RPMC_ROM_ROOT_KEY_SIZE = RPMC_ROM_BLOCK_SIZE * RPMC_ROM_MC_NUM"
definition RPMC_ROM_COUNTER_ADDR :: nat where "RPMC_ROM_COUNTER_ADDR = RPMC_ROM_ROOT_KEY_ADDR + RPMC_ROM_ROOT_KEY_SIZE"
definition RPMC_ROM_COUNTER_SIZE :: nat where
  "RPMC_ROM_COUNTER_SIZE = RPMC_ROM_BLOCK_SIZE * RPMC_ROM_MC_BLOCK_NUM * RPMC_ROM_MC_NUM"

definition RPMC_ROM_RT_INST_ADDR :: "nat \<Rightarrow> nat" where
  "RPMC_ROM_RT_INST_ADDR n = RPMC_ROM_BLOCK_SIZE * n + RPMC_ROM_ROOT_KEY_ADDR"

definition RPMC_ROM_MC_INST_ADDR :: "nat \<Rightarrow> nat" where
  "RPMC_ROM_MC_INST_ADDR n = RPMC_ROM_BLOCK_SIZE * RPMC_ROM_MC_BLOCK_NUM * n + RPMC_ROM_COUNTER_ADDR"

section \<open>State\<close>

text \<open>
  What the code calls: the flash driver, \<open>crc16\<close> with polynomial, seed and data, whether the devices are ready, and
  the identification read of the flash with its result and 16 bytes.
\<close>

record 'd rom_env =
  flash :: "'d flash_dev"
  crc16 :: "u16 \<Rightarrow> u16 \<Rightarrow> u8 list \<Rightarrow> u16"
  intflash_ready :: bool
  espi_ready :: bool
  flash_uid :: "int \<times> u8 list"

record spi_rom_data =
  rootk :: "u8 list"
  rt_addr :: nat
  rt_cycle :: u16
  u32_ct :: u32
  ct_addr :: nat
  ct_cycle :: u16
  unique_id :: "u8 list"
  inited :: bool

record 'd rom_ctx =
  dev :: 'd \<comment> \<open>the flash\<close>
  rom_timer :: bool \<comment> \<open>the timer of the postponed erase is running\<close>
  erase_addr :: "nat list"
  rom_data :: "spi_rom_data list"

definition power_up :: "'d \<Rightarrow> 'd rom_ctx" where
  "power_up d = \<lparr>dev = d, rom_timer = False, erase_addr = replicate RPMC_ROM_MC_NUM 0,
     rom_data = replicate RPMC_ROM_MC_NUM
       \<lparr>rootk = replicate RPMC_ROM_RK_DATA_SIZE 0, rt_addr = 0, rt_cycle = 0, u32_ct = 0, ct_addr = 0, ct_cycle = 0,
        unique_id = replicate RPMC_ROM_UNIQUE_ID_SIZE 0, inited = False\<rparr>\<rparr>"

section \<open>Access to the flash\<close>

definition crc16_compute :: "'d rom_env \<Rightarrow> u8 list \<Rightarrow> u16" where
  "crc16_compute E data = crc16 E 0x1021 0 data"

text \<open>The result codes of the driver are logged and dropped.\<close>

definition spi_rom_read :: "'d rom_env \<Rightarrow> nat \<Rightarrow> nat \<Rightarrow> 'd \<Rightarrow> u8 list" where
  "spi_rom_read E addr len d = snd (amd_crb_drivers_sFlash_int_read (flash E) addr len d)"

definition spi_rom_write :: "'d rom_env \<Rightarrow> nat \<Rightarrow> u8 list \<Rightarrow> 'd \<Rightarrow> 'd" where
  "spi_rom_write E addr bs d = snd (flash_write (flash E) addr bs d)"

definition spi_rom_erase :: "'d rom_env \<Rightarrow> nat \<Rightarrow> 'd \<Rightarrow> 'd" where
  "spi_rom_erase E addr d = snd (flash_erase (flash E) addr RPMC_ROM_BLOCK_SIZE d)"

text \<open>The helpers set the bus selection to SPI, whatever the caller asks for.\<close>

definition rom_read_helper :: "'d rom_env \<Rightarrow> nat \<Rightarrow> nat \<Rightarrow> 'd \<Rightarrow> u8 list" where
  "rom_read_helper E addr len d = spi_rom_read E addr len d"

definition rom_write_helper :: "'d rom_env \<Rightarrow> nat \<Rightarrow> u8 list \<Rightarrow> 'd \<Rightarrow> 'd" where
  "rom_write_helper E addr bs d = spi_rom_write E addr bs d"

definition rom_erase_helper :: "'d rom_env \<Rightarrow> nat \<Rightarrow> 'd \<Rightarrow> 'd" where
  "rom_erase_helper E addr d = spi_rom_erase E addr d"

text \<open>The driver's identification read returns 4 dummy bytes, 8 bytes and 4 reserved ones; a failed read leaves zeros.\<close>

definition spi_rom_unique_id_read :: "'d rom_env \<Rightarrow> u8 list" where
  "spi_rom_unique_id_read E =
     (let z = replicate RPMC_ROM_UNIQUE_ID_SIZE 0 in
      case flash_uid E of (rc, tmp) \<Rightarrow> if rc \<noteq> 0 then z else put 0 (take 8 (drop 4 tmp)) z)"

text \<open>All bytes are \<open>0xFF\<close>, or all are zero when that is asked for.\<close>

fun data_empty_loop :: "bool \<Rightarrow> bool \<Rightarrow> bool \<Rightarrow> u8 list \<Rightarrow> bool" where
  "data_empty_loop check_zero all_ff all_00 [] = (all_ff \<or> (check_zero \<and> all_00))"
| "data_empty_loop check_zero all_ff all_00 (x # xs) =
     (let ff = all_ff \<and> x = 0xFF; zz = all_00 \<and> \<not> (check_zero \<and> x \<noteq> 0) in
      if \<not> ff \<and> (\<not> zz \<or> \<not> check_zero) then False else data_empty_loop check_zero ff zz xs)"

definition data_empty :: "u8 list \<Rightarrow> bool \<Rightarrow> bool" where
  "data_empty pData check_zero =
     (let first = pData ! 0 in
      if first \<noteq> 0xFF \<and> (\<not> check_zero \<or> first \<noteq> 0) then False
      else data_empty_loop check_zero True check_zero pData)"

definition data_match :: "'a list \<Rightarrow> 'a list \<Rightarrow> int" where
  "data_match p1 p2 = (if length p1 \<noteq> length p2 then - 1 else if p1 \<noteq> p2 then - 2 else 0)"

section \<open>Slots\<close>

text \<open>A slot of a counter: value, cycle and checksum, little endian. A slot of a root key: 48 bytes, 12 reserved ones, cycle and checksum.\<close>

definition le16 :: "u16 \<Rightarrow> u8 list" where "le16 x = [ucast x, ucast (drop_bit 8 x)]"

definition le32 :: "u32 \<Rightarrow> u8 list" where
  "le32 x = [ucast x, ucast (drop_bit 8 x), ucast (drop_bit 16 x), ucast (drop_bit 24 x)]"

definition mc_data :: "u32 \<Rightarrow> u16 \<Rightarrow> u16 \<Rightarrow> u8 list" where
  "mc_data value cycle chksum = le32 value @ le16 cycle @ le16 chksum"

definition rt_data :: "u8 list \<Rightarrow> u16 \<Rightarrow> u16 \<Rightarrow> u8 list" where
  "rt_data value cycle chksum = value @ replicate 12 0xFF @ le16 cycle @ le16 chksum"

definition mc_write :: "'d rom_env \<Rightarrow> nat \<Rightarrow> u32 \<Rightarrow> u16 \<Rightarrow> 'd \<Rightarrow> 'd" where
  "mc_write E addr value cycle =
     (let chksum = crc16_compute E (le32 value @ le16 cycle) in rom_write_helper E addr (mc_data value cycle chksum))"

definition rt_write :: "'d rom_env \<Rightarrow> nat \<Rightarrow> u8 list \<Rightarrow> u16 \<Rightarrow> 'd \<Rightarrow> 'd" where
  "rt_write E addr value cycle d =
     (if length value \<noteq> RPMC_ROM_RK_DATA_SIZE then d
      else let chksum = crc16_compute E (value @ le16 cycle) in rom_write_helper E addr (rt_data value cycle chksum) d)"

definition mc_check :: "'d rom_env \<Rightarrow> u32 \<Rightarrow> u16 \<Rightarrow> u16 \<Rightarrow> bool" where
  "mc_check E value cycle chksum \<longleftrightarrow> crc16_compute E (le32 value @ le16 cycle) = chksum"

definition rt_check :: "'d rom_env \<Rightarrow> u8 list \<Rightarrow> u16 \<Rightarrow> u16 \<Rightarrow> bool" where
  "rt_check E value cycle chksum \<longleftrightarrow>
     length value = RPMC_ROM_RK_DATA_SIZE \<and> crc16_compute E (value @ le16 cycle) = chksum"

section \<open>Postponed erasing\<close>

definition post_work_one :: "'d rom_env \<Rightarrow> nat \<Rightarrow> 'd rom_ctx \<Rightarrow> 'd rom_ctx" where
  "post_work_one E i s =
     (if \<not> inited (rom_data s ! i) \<or> erase_addr s ! i = 0 then s
      else s\<lparr>dev := rom_erase_helper E (erase_addr s ! i) (dev s), erase_addr := (erase_addr s)[i := 0]\<rparr>)"

definition rom_post_worksCallback :: "'d rom_env \<Rightarrow> 'd rom_ctx \<Rightarrow> 'd rom_ctx" where
  "rom_post_worksCallback E s = fold (post_work_one E) [0..<RPMC_ROM_MC_NUM] (s\<lparr>rom_timer := False\<rparr>)"

definition rom_post_works_notify :: "'d rom_ctx \<Rightarrow> 'd rom_ctx" where
  "rom_post_works_notify s = s\<lparr>rom_timer := True\<rparr>"

section \<open>Programming a value\<close>

text \<open>The next slot, and the block to erase, or 0.\<close>

definition mc_next :: "nat \<Rightarrow> nat \<Rightarrow> nat \<times> nat" where
  "mc_next base_addr addr =
     (let block_end_offset = RPMC_ROM_BLOCK_SIZE - 8; alt_block_addr = base_addr + 2 * RPMC_ROM_BLOCK_SIZE - 8 in
      if addr = 0 then (alt_block_addr, 0)
      else if addr = base_addr then (alt_block_addr, addr)
      else (addr - 8, if addr - 8 = base_addr + block_end_offset then addr else 0))"

definition mc_erase :: "'d rom_env \<Rightarrow> nat \<Rightarrow> nat \<Rightarrow> 'd rom_ctx \<Rightarrow> 'd rom_ctx" where
  "mc_erase E inst ea s =
     (if ea = 0 then s
      else if erase_addr s ! inst = 0 then rom_post_works_notify (s\<lparr>erase_addr := (erase_addr s)[inst := ea]\<rparr>)
      else s\<lparr>dev := rom_erase_helper E (erase_addr s ! inst) (rom_erase_helper E ea (dev s)),
             erase_addr := (erase_addr s)[inst := 0]\<rparr>)"

text \<open>\<open>addr\<close> and \<open>cycle\<close> are pointers: the result has their new values.\<close>

definition mc_program ::
  "'d rom_env \<Rightarrow> nat \<Rightarrow> nat \<Rightarrow> nat \<Rightarrow> u32 \<Rightarrow> u16 \<Rightarrow> 'd rom_ctx \<Rightarrow> nat \<times> u16 \<times> 'd rom_ctx" where
  "mc_program E inst base_addr addr value cycle s =
     (let (spi_addr, ea) = mc_next base_addr addr; s1 = mc_erase E inst ea s;
          cycle1 = (if value = 0 then cycle + 1 else cycle)
      in (spi_addr, cycle1, s1\<lparr>dev := mc_write E spi_addr value cycle1 (dev s1)\<rparr>))"

definition rt_program ::
  "'d rom_env \<Rightarrow> nat \<Rightarrow> nat \<Rightarrow> u8 list \<Rightarrow> u16 \<Rightarrow> 'd \<Rightarrow> int \<times> nat \<times> u16 \<times> 'd" where
  "rt_program E base_addr addr value cycle d =
     (let alt_block_addr = base_addr + RPMC_ROM_BLOCK_SIZE - 64 in
      if length value \<noteq> RPMC_ROM_RK_DATA_SIZE then (- 1, addr, cycle, d)
      else
        (let (spi_addr, ea) =
               (if addr = 0 then (alt_block_addr, 0)
                else if addr = base_addr then (alt_block_addr, addr) else (addr - 64, 0));
             d1 = (if ea \<noteq> 0 then rom_erase_helper E ea d else d)
         in (0, spi_addr, cycle + 1, rt_write E spi_addr value (cycle + 1) d1)))"

section \<open>Finding the last value\<close>

record mc_scan =
  fd_mc :: "(u32 \<times> u16) list"
  fd_addr :: "nat list"
  fd_broken :: bool
  fd_bits :: u8
  fd_block :: nat
  fd_val :: u32
  fd_cycle :: u16

text \<open>A valid value replaces the one found before: it is of the same cycle and not smaller, or of a later cycle.\<close>

definition wrap_offset :: u16 where "wrap_offset = 2048"

definition cycle_reset_cond_a :: "u16 \<Rightarrow> u16 \<Rightarrow> bool" where
  "cycle_reset_cond_a cur_cycle fdc \<longleftrightarrow> cur_cycle < wrap_offset \<and> 0xFFFF - wrap_offset < fdc"

definition cycle_reset_cond_b :: "u16 \<Rightarrow> u16 \<Rightarrow> bool" where
  "cycle_reset_cond_b cur_cycle fdc \<longleftrightarrow> 0xFFFF - wrap_offset < cur_cycle \<and> fdc < wrap_offset"

definition mc_prefer :: "mc_scan \<Rightarrow> u32 \<Rightarrow> u16 \<Rightarrow> bool" where
  "mc_prefer S v cur_cycle \<longleftrightarrow>
     fd_cycle S = cur_cycle \<and> fd_val S \<le> v \<or>
     \<not> (cycle_reset_cond_a cur_cycle (fd_cycle S) \<or> cycle_reset_cond_b cur_cycle (fd_cycle S)) \<and> fd_cycle S < cur_cycle \<or>
     cycle_reset_cond_a cur_cycle (fd_cycle S) \<or> fd_bits S = 0"

definition first_addr :: "nat \<Rightarrow> nat \<Rightarrow> mc_scan \<Rightarrow> mc_scan" where
  "first_addr block cur_addr S =
     (if fd_addr S ! block = 0 then S\<lparr>fd_addr := (fd_addr S)[block := cur_addr]\<rparr> else S)"

definition mc_found ::
  "'d rom_env \<Rightarrow> nat \<Rightarrow> nat \<Rightarrow> nat \<Rightarrow> u32 \<Rightarrow> u16 \<Rightarrow> mc_scan \<times> 'd \<Rightarrow> mc_scan \<times> 'd" where
  "mc_found E base_addr block cur_addr v cycle Sd =
     (case Sd of (S, d) \<Rightarrow>
       let S1 = first_addr block cur_addr (S\<lparr>fd_mc := (fd_mc S)[block := (v, cycle)]\<rparr>);
           (ea, S2) =
             (if mc_prefer S1 v cycle
              then (if fd_bits S1 \<noteq> 0 then base_addr + RPMC_ROM_BLOCK_SIZE * fd_block S1 else 0,
                    S1\<lparr>fd_block := block, fd_cycle := cycle, fd_val := v\<rparr>)
              else (base_addr + block * RPMC_ROM_BLOCK_SIZE, S1));
           d1 = (if ea \<noteq> 0 then rom_erase_helper E ea d else d)
       in (S2\<lparr>fd_broken := False, fd_bits := fd_bits S2 OR push_bit block 1\<rparr>, d1))"

text \<open>One slot; the flag says that the loop over the slots is left.\<close>

definition mc_slot ::
  "'d rom_env \<Rightarrow> nat \<Rightarrow> nat \<Rightarrow> nat \<Rightarrow> u8 list \<Rightarrow> mc_scan \<times> 'd \<Rightarrow> bool \<times> mc_scan \<times> 'd" where
  "mc_slot E base_addr block cur_addr bs Sd =
     (if data_empty bs False then (False, Sd)
      else if \<not> mc_check E (rd32 bs 0) (rd16 bs 4) (rd16 bs 6)
      then (False, (first_addr block cur_addr (fst Sd))\<lparr>fd_broken := True\<rparr>, snd Sd)
      else (True, mc_found E base_addr block cur_addr (rd32 bs 0) (rd16 bs 4) Sd))"

fun mc_chunk ::
  "'d rom_env \<Rightarrow> nat \<Rightarrow> nat \<Rightarrow> nat \<Rightarrow> u8 list \<Rightarrow> nat list \<Rightarrow> mc_scan \<times> 'd \<Rightarrow> mc_scan \<times> 'd" where
  "mc_chunk E base_addr block spi_addr chunk [] Sd = Sd"
| "mc_chunk E base_addr block spi_addr chunk (i # is) Sd =
     (case mc_slot E base_addr block (spi_addr + i) (slice i 8 chunk) Sd of (brk, Sd1) \<Rightarrow>
        if brk then Sd1 else mc_chunk E base_addr block spi_addr chunk is Sd1)"

fun mc_block :: "'d rom_env \<Rightarrow> nat \<Rightarrow> nat \<Rightarrow> nat list \<Rightarrow> mc_scan \<times> 'd \<Rightarrow> mc_scan \<times> 'd" where
  "mc_block E base_addr block [] Sd = Sd"
| "mc_block E base_addr block (a # as) Sd =
     (let chunk_data = rom_read_helper E a RPMC_ROM_ACCESS_SIZE (snd Sd);
          Sd1 = mc_chunk E base_addr block a chunk_data [0, 8, 16, 24, 32, 40, 48, 56] Sd
      in if bit (fd_bits (fst Sd1)) block then Sd1 else mc_block E base_addr block as Sd1)"

definition mc_scan_block :: "'d rom_env \<Rightarrow> nat \<Rightarrow> nat \<Rightarrow> mc_scan \<times> 'd \<Rightarrow> mc_scan \<times> 'd" where
  "mc_scan_block E base_addr block Sd =
     (let block_base = base_addr + block * RPMC_ROM_BLOCK_SIZE;
          (S, d) = mc_block E base_addr block (map (\<lambda>k. block_base + RPMC_ROM_ACCESS_SIZE * k) [0..<64])
                     ((fst Sd)\<lparr>fd_broken := False\<rparr>, snd Sd)
      in if fd_broken S then (S\<lparr>fd_addr := (fd_addr S)[block := 0]\<rparr>, rom_erase_helper E block_base d) else (S, d))"

text \<open>The result has value, cycle and address.\<close>

definition mc_init :: "'d rom_env \<Rightarrow> nat \<Rightarrow> 'd \<Rightarrow> (u32 \<times> u16 \<times> nat) \<times> 'd" where
  "mc_init E base_addr d =
     (let (S, d1) = fold (mc_scan_block E base_addr) [0..<RPMC_ROM_MC_BLOCK_NUM]
            (\<lparr>fd_mc = [(0, 0), (0, 0)], fd_addr = [0, 0], fd_broken = False, fd_bits = 0, fd_block = 0,
              fd_val = 0, fd_cycle = 0\<rparr>, d)
      in if fd_bits S = 0 then ((0, 0, 0), d1)
         else ((fst (fd_mc S ! fd_block S), snd (fd_mc S ! fd_block S), fd_addr S ! fd_block S), d1))"

text \<open>Broken, address, cycle and value of the root key found; one slot per access.\<close>

fun rt_scan :: "'d rom_env \<Rightarrow> 'd \<Rightarrow> nat list \<Rightarrow> bool \<times> nat \<times> u16 \<times> u8 list \<Rightarrow> bool \<times> nat \<times> u16 \<times> u8 list" where
  "rt_scan E d [] S = S"
| "rt_scan E d (a # as) (broken, fa, fc, fv) =
     (let bs = rom_read_helper E a RPMC_ROM_ACCESS_SIZE d; fa1 = (if fa = 0 then a else fa) in
      if data_empty bs False then rt_scan E d as (broken, fa, fc, fv)
      else if \<not> rt_check E (take 48 bs) (rd16 bs 60) (rd16 bs 62) then rt_scan E d as (True, fa1, fc, fv)
      else (False, fa1, rd16 bs 60, take 48 bs))"

definition rt_init :: "'d rom_env \<Rightarrow> nat \<Rightarrow> 'd \<Rightarrow> (u8 list \<times> u16 \<times> nat) \<times> 'd" where
  "rt_init E base_addr d =
     (let (broken, fa, fc, fv) =
            rt_scan E d (map (\<lambda>k. base_addr + RPMC_ROM_ACCESS_SIZE * k) [0..<64]) (False, 0, 0, replicate RPMC_ROM_RK_DATA_SIZE 0);
          (fa1, d1) = (if broken then (0, rom_erase_helper E base_addr d) else (fa, d))
      in if fa1 = 0 then ((replicate RPMC_ROM_RK_DATA_SIZE 0xFF, 0, 0), d1) else ((fv, fc, fa1), d1))"

section \<open>Initialisation\<close>

definition blocks :: "nat \<Rightarrow> nat \<Rightarrow> nat list" where
  "blocks addr n = map (\<lambda>k. addr + RPMC_ROM_BLOCK_SIZE * k) [0..<n div RPMC_ROM_BLOCK_SIZE]"

text \<open>
  Identification and version of the storage are compared; when they differ the storage is erased and
  they are written. The checksum covers the structure with the old checksum in it, and is never checked.
\<close>

definition param_init :: "'d rom_env \<Rightarrow> nat \<Rightarrow> u8 list \<Rightarrow> u16 \<Rightarrow> 'd \<Rightarrow> 'd" where
  "param_init E inst uid version d =
     (if inst \<noteq> 0 then d
      else
        (let data = rom_read_helper E RPMC_ROM_PARAM_ADDR 32 d in
         if version \<noteq> 0 \<and> data_match (take 16 data) uid = 0 \<and> rd16 data 28 = version then d
         else
           (let d1 = fold (rom_erase_helper E)
                       (RPMC_ROM_PARAM_ADDR # blocks RPMC_ROM_ROOT_KEY_ADDR RPMC_ROM_ROOT_KEY_SIZE @
                        blocks RPMC_ROM_COUNTER_ADDR RPMC_ROM_COUNTER_SIZE) d;
                data1 = wr16 28 version (put 0 uid data);
                data2 = wr16 30 (crc16_compute E data1) data1
            in rom_write_helper E RPMC_ROM_PARAM_ADDR data2 d1)))"

definition init_instance :: "'d rom_env \<Rightarrow> nat \<Rightarrow> 'd rom_ctx \<Rightarrow> 'd rom_ctx" where
  "init_instance E i s =
     (if inited (rom_data s ! i) then s
      else
        (let uid = spi_rom_unique_id_read E;
             d1 = param_init E i uid RPMC_ROM_VERSION (dev s);
             ((key, kc, ka), d2) = rt_init E (RPMC_ROM_RT_INST_ADDR i) d1;
             ((v, c, a), d3) = mc_init E (RPMC_ROM_MC_INST_ADDR i) d2
         in s\<lparr>dev := d3, rom_data := (rom_data s)[i :=
                (rom_data s ! i)\<lparr>rootk := key, rt_addr := ka, rt_cycle := kc, u32_ct := v, ct_addr := a, ct_cycle := c,
                   unique_id := uid, inited := True\<rparr>]\<rparr>))"

definition rom_rpmc_data_init :: "'d rom_env \<Rightarrow> u8 \<Rightarrow> 'd rom_ctx \<Rightarrow> int \<times> 'd rom_ctx" where
  "rom_rpmc_data_init E num s =
     (if RPMC_ROM_MC_NUM < unat num then (- 1, s)
      else if \<not> intflash_ready E then (- 2, s)
      else if \<not> espi_ready E then (- 4, s)
      else (0, fold (init_instance E) [0..<RPMC_ROM_MC_NUM] s))"

section \<open>Access\<close>

text \<open>The caller passes an instance below the number of instances; the code does not check it.\<close>

definition rom_unique_id_read :: "'d rom_ctx \<Rightarrow> u8 \<Rightarrow> u8 list \<Rightarrow> (int \<times> u8 list) res" where
  "rom_unique_id_read s inst pData =
     (case ld (rom_data s) (unat inst) of
        Inl e \<Rightarrow> Inl e
      | Inr p \<Rightarrow>
          if \<not> inited p then Inr (- 1, pData)
          else Inr (0, put 0 (take (min RPMC_ROM_UNIQUE_ID_SIZE (length pData)) (unique_id p)) pData))"

text \<open>The buffer is \<open>None\<close> for a null pointer; the result is the code, the buffer and the state.\<close>

definition rom_rpmc_mc_access ::
  "'d rom_env \<Rightarrow> u8 \<Rightarrow> u8 list option \<Rightarrow> bool \<Rightarrow> u8 \<Rightarrow> 'd rom_ctx \<Rightarrow> int \<times> u8 list option \<times> 'd rom_ctx" where
  "rom_rpmc_mc_access E inst pData read bus s =
     (case pData of
        None \<Rightarrow> (- 1, None, s)
      | Some buf \<Rightarrow>
          (let p = rom_data s ! unat inst in
           if RPMC_ROM_MC_NUM \<le> unat inst then (- 2, pData, s)
           else if length buf \<noteq> RPMC_ROM_MC_DATA_SIZE then (- 3, pData, s)
           else if \<not> inited p then (- 4, pData, s)
           else if bus = RPMC_ROM_BUS_CACHE \<and> \<not> read then (- 5, pData, s)
           else if read then (0, Some (le32 (u32_ct p)), s)
           else if data_match (le32 (u32_ct p)) buf = 0 then (0, pData, s)
           else
             (let (a, c, s1) = mc_program E (unat inst) (RPMC_ROM_MC_INST_ADDR (unat inst)) (ct_addr p) (rd32 buf 0) (ct_cycle p) s
              in (0, pData, s1\<lparr>rom_data := (rom_data s1)[unat inst := p\<lparr>ct_addr := a, ct_cycle := c, u32_ct := rd32 buf 0\<rparr>]\<rparr>))))"

definition rom_rpmc_rt_access ::
  "'d rom_env \<Rightarrow> u8 \<Rightarrow> u8 list option \<Rightarrow> bool \<Rightarrow> u8 \<Rightarrow> 'd rom_ctx \<Rightarrow> int \<times> u8 list option \<times> 'd rom_ctx" where
  "rom_rpmc_rt_access E inst pData read bus s =
     (case pData of
        None \<Rightarrow> (- 1, None, s)
      | Some buf \<Rightarrow>
          (let p = rom_data s ! unat inst; len = length buf in
           if RPMC_ROM_MC_NUM \<le> unat inst then (- 2, pData, s)
           else if RPMC_ROM_RK_DATA_SIZE < len then (- 3, pData, s)
           else if \<not> inited p then (- 4, pData, s)
           else if bus = RPMC_ROM_BUS_CACHE \<and> \<not> read then (- 5, pData, s)
           else if read then (0, Some (take len (rootk p)), s)
           else if data_match (take len (rootk p)) buf = 0 then (0, pData, s)
           else
             (let (rc, a, c, d) = rt_program E (RPMC_ROM_RT_INST_ADDR (unat inst)) (rt_addr p)
                    (put 0 buf (replicate RPMC_ROM_RK_DATA_SIZE 0xFF)) (rt_cycle p) (dev s)
              in (0, pData, s\<lparr>dev := d, rom_data := (rom_data s)[unat inst :=
                    p\<lparr>rt_addr := a, rt_cycle := c, rootk := put 0 buf (rootk p)\<rparr>]\<rparr>))))"

end
