(* ===== verification/Rpmc_rom_Scan.thy ===== *)
theory Rpmc_rom_Scan
  imports Rpmc_rom
begin

text \<open>
  How the counters' storage is read at start. The nested loops over chunks and slots are a scan over the
  slots of a block; a block is empty, or its lowest valid slot gives the value and its lowest used slot the address, or it
  is broken and erased.
\<close>

section \<open>The flash under the helpers\<close>

text \<open>The driver works, and the checksum of erased bytes is not the erased value.\<close>

definition rom_ok :: "'d rom_env \<Rightarrow> ('d \<Rightarrow> u8 list) \<Rightarrow> bool" where
  "rom_ok E c \<longleftrightarrow> nor_flash (flash E) c \<and> flash_works (flash E) c \<and>
     crc16_compute E (replicate 6 0xFF) \<noteq> 0xFFFF \<and> crc16_compute E (replicate 50 0xFF) \<noteq> 0xFFFF"

named_theorems rom \<comment> \<open>what the accesses do to the contents\<close>

lemma rom_read [rom]:
  "rom_ok E c \<Longrightarrow> off + n \<le> length (c d) \<Longrightarrow> rom_read_helper E off n d = slice off n (c d)"
  by (simp add: rom_ok_def rom_read_helper_def spi_rom_read_def amd_crb_drivers_sFlash_int_read_def flash_read_works)

lemma rom_erase [rom]:
  assumes "rom_ok E c" "off + RPMC_ROM_BLOCK_SIZE \<le> length (c d)"
  shows "c (rom_erase_helper E off d) = put off (replicate RPMC_ROM_BLOCK_SIZE 0xFF) (c d)"
proof -
  obtain rc d' where e: "flash_erase (flash E) off RPMC_ROM_BLOCK_SIZE d = (rc, d')" by fastforce
  have "rc = 0" using assms e by (metis fst_conv flash_works_def rom_ok_def)
  then show ?thesis using assms e by (simp add: rom_ok_def nor_flash_def rom_erase_helper_def spi_rom_erase_def)
qed

lemma rom_write:
  assumes "rom_ok E c" "off + length bs \<le> length (c d)" "slice off (length bs) (c d) = replicate (length bs) 0xFF"
  shows "c (rom_write_helper E off bs d) = put off bs (c d)"
proof -
  obtain rc d' where e: "flash_write (flash E) off bs d = (rc, d')" by fastforce
  have "rc = 0" using assms e by (metis fst_conv flash_works_def rom_ok_def)
  then have "c d' = put off (map2 (AND) (slice off (length bs) (c d)) bs) (c d)"
    using assms e by (simp add: rom_ok_def nor_flash_def)
  then show ?thesis using e assms(3) map2_ones [of bs] by (simp add: rom_write_helper_def spi_rom_write_def)
qed

section \<open>Slots\<close>

lemma data_empty_loop: "data_empty_loop False ff zz xs \<longleftrightarrow> ff \<and> (\<forall>x \<in> set xs. x = 0xFF)"
  by (induction xs arbitrary: ff zz) (auto simp: Let_def)

lemma data_empty_iff: "xs \<noteq> [] \<Longrightarrow> data_empty xs False \<longleftrightarrow> xs = replicate (length xs) 0xFF"
proof -
  assume n: "xs \<noteq> []"
  have "xs = replicate (length xs) 0xFF \<longleftrightarrow> (\<forall>x \<in> set xs. x = 0xFF)" by (induction xs) auto
  then show ?thesis using n by (cases xs) (simp_all add: data_empty_def data_empty_loop)
qed

lemma data_empty8: "length xs = 8 \<Longrightarrow> data_empty xs False \<longleftrightarrow> xs = replicate 8 0xFF"
  using data_empty_iff [of xs] by (cases xs) simp_all

lemma length_le [simp]: "length (le16 x) = 2" "length (le32 y) = 4" "length (mc_data v k s) = 8"
  by (simp_all add: le16_def le32_def mc_data_def)

lemma rd16_le16: "rd16 (xs @ le16 x @ ys) (length xs) = x"
proof -
  have "ucast (ucast x :: u8) OR push_bit 8 (ucast (ucast (drop_bit 8 x) :: u8)) = x"
    by (rule bit_word_eqI) (auto simp: bit_simps)
  then show ?thesis by (simp add: rd16_def le16_def nth_append)
qed

lemma rd32_le32: "rd32 (le32 x @ ys) 0 = x"
  using bytes_of_u32 [of x] by (simp add: rd32_def le32_def)

lemma mc_data_fields [simp]:
  "rd32 (mc_data v k s) 0 = v" "rd16 (mc_data v k s) 4 = k" "rd16 (mc_data v k s) 6 = s"
  using rd16_le16 [of "le32 v" k "le16 s"] rd16_le16 [of "le32 v @ le16 k" s "[]"]
  by (simp_all add: mc_data_def rd32_le32)

definition empty_at :: "u8 list \<Rightarrow> nat \<Rightarrow> bool" where
  "empty_at m a \<longleftrightarrow> slice a 8 m = replicate 8 0xFF"

definition good_at :: "'d rom_env \<Rightarrow> u8 list \<Rightarrow> nat \<Rightarrow> u32 \<Rightarrow> u16 \<Rightarrow> bool" where
  "good_at E m a v k \<longleftrightarrow> slice a 8 m = mc_data v k (crc16_compute E (le32 v @ le16 k))"

definition invalid :: "'d rom_env \<Rightarrow> u8 list \<Rightarrow> bool" where
  "invalid E xs \<longleftrightarrow> length xs = 8 \<and> \<not> mc_check E (rd32 xs 0) (rd16 xs 4) (rd16 xs 6)"

definition broken_at :: "'d rom_env \<Rightarrow> u8 list \<Rightarrow> nat \<Rightarrow> bool" where
  "broken_at E m a \<longleftrightarrow> \<not> empty_at m a \<and> invalid E (slice a 8 m)"

lemma erased_split:
  "xs @ ys = replicate 6 z @ replicate 2 z \<Longrightarrow> length xs = 6 \<Longrightarrow> xs = replicate 6 z \<and> ys = replicate 2 z"
  using append_eq_append_conv [of xs "replicate 6 z" ys "replicate 2 z"] by simp

lemma mc_data_used:
  assumes "rom_ok E c"
  shows "mc_data v k (crc16_compute E (le32 v @ le16 k)) \<noteq> replicate 8 0xFF"
proof
  assume a: "mc_data v k (crc16_compute E (le32 v @ le16 k)) = replicate 8 0xFF"
  have "replicate 8 (0xFF :: u8) = replicate 6 0xFF @ replicate 2 0xFF" by (simp add: numeral_eq_Suc)
  then have e: "(le32 v @ le16 k) @ le16 (crc16_compute E (le32 v @ le16 k)) = replicate 6 0xFF @ replicate 2 0xFF"
    using a by (simp add: mc_data_def)
  have b: "le32 v @ le16 k = replicate 6 0xFF \<and> le16 (crc16_compute E (le32 v @ le16 k)) = replicate 2 0xFF"
    by (rule erased_split [OF e]) simp
  have "le16 (crc16_compute E (replicate 6 0xFF)) = replicate 2 0xFF"
    using b [THEN conjunct2] unfolding b [THEN conjunct1] .
  moreover have "replicate 2 (0xFF :: u8) = [0xFF, 0xFF]" by (simp add: eval_nat_numeral)
  moreover have "rd16 [0xFF, 0xFF] 0 = 0xFFFF" by (simp add: rd16_def)
  ultimately have "crc16_compute E (replicate 6 0xFF) = 0xFFFF"
    using rd16_le16 [of "[]" "crc16_compute E (replicate 6 0xFF)" "[]"] by (metis append.right_neutral append_Nil list.size(3))
  with assms show False by (simp add: rom_ok_def)
qed

lemma slot_empty: "empty_at m a \<Longrightarrow> mc_slot E base blk a (slice a 8 m) Sd = (False, Sd)"
  by (simp add: empty_at_def mc_slot_def data_empty_iff)

lemma slot_broken:
  "broken_at E m a \<Longrightarrow>
     mc_slot E base blk a (slice a 8 m) (S, d) = (False, (first_addr blk a S)\<lparr>fd_broken := True\<rparr>, d)"
  by (simp add: broken_at_def empty_at_def invalid_def mc_slot_def data_empty8)

lemma slot_good:
  "rom_ok E c \<Longrightarrow> good_at E m a v k \<Longrightarrow>
     mc_slot E base blk a (slice a 8 m) Sd = (True, mc_found E base blk a v k Sd)"
  using mc_data_used [of E c v k]
  by (simp add: good_at_def mc_slot_def data_empty8 mc_check_def)

section \<open>The loops as a scan over slots\<close>

fun scan_at ::
  "'d rom_env \<Rightarrow> nat \<Rightarrow> nat \<Rightarrow> u8 list \<Rightarrow> nat list \<Rightarrow> mc_scan \<times> 'd \<Rightarrow> bool \<times> mc_scan \<times> 'd" where
  "scan_at E base blk m [] Sd = (False, Sd)"
| "scan_at E base blk m (a # as) Sd =
     (case mc_slot E base blk a (slice a 8 m) Sd of (brk, Sd1) \<Rightarrow>
        if brk then (True, Sd1) else scan_at E base blk m as Sd1)"

lemma scan_append:
  "scan_at E base blk m (xs @ ys) Sd =
     (case scan_at E base blk m xs Sd of (brk, Sd1) \<Rightarrow> if brk then (True, Sd1) else scan_at E base blk m ys Sd1)"
  by (induction xs arbitrary: Sd) (auto split: prod.splits)

lemma slot_flag:
  assumes "mc_slot E base blk a bs Sd = (brk, Sd1)" "blk < 8" "\<not> bit (fd_bits (fst Sd)) blk"
  shows "bit (fd_bits (fst Sd1)) blk = brk" "\<not> brk \<Longrightarrow> snd Sd1 = snd Sd"
  using assms by (auto simp: mc_slot_def mc_found_def first_addr_def Let_def bit_simps split: prod.splits if_splits)

lemma scan_flag:
  assumes "scan_at E base blk m as Sd = (brk, Sd1)" "blk < 8" "\<not> bit (fd_bits (fst Sd)) blk"
  shows "bit (fd_bits (fst Sd1)) blk = brk \<and> (\<not> brk \<longrightarrow> snd Sd1 = snd Sd)"
  using assms
proof (induction as arbitrary: Sd)
  case (Cons a as)
  obtain b2 Sd2 where s: "mc_slot E base blk a (slice a 8 m) Sd = (b2, Sd2)" by (rule prod.exhaust)
  then show ?case using slot_flag [OF s Cons.prems(2,3)] Cons.IH [of Sd2] Cons.prems by (cases b2) auto
qed auto

lemma chunk_scan:
  assumes "a + n \<le> length m" "\<forall>i \<in> set is. i + 8 \<le> n"
  shows "mc_chunk E base blk a (slice a n m) is Sd = snd (scan_at E base blk m (map (\<lambda>i. a + i) is) Sd)"
  using assms(2)
proof (induction "is" arbitrary: Sd)
  case (Cons i "is")
  have "slice i 8 (slice a n m) = slice (a + i) 8 m"
    using assms(1) Cons.prems by (intro nth_equalityI) (auto simp: nth_slice algebra_simps)
  then show ?case using Cons by (auto split: prod.splits)
qed simp

lemma block_scan:
  assumes "rom_ok E c" "\<forall>a \<in> set as. a + 64 \<le> length (c (snd Sd))" "blk < 8" "\<not> bit (fd_bits (fst Sd)) blk"
  shows "mc_block E base blk as Sd =
    snd (scan_at E base blk (c (snd Sd)) (concat (map (\<lambda>a. map (\<lambda>j. a + 8 * j) [0..<8]) as)) Sd)"
  using assms(2,4)
proof (induction as arbitrary: Sd)
  case (Cons a as)
  let ?m = "c (snd Sd)"
  have u: "map (\<lambda>j. a + 8 * j) [0..<8] = map (\<lambda>i. a + i) [0, 8, 16, 24, 32, 40, 48, 56]"
    by (simp add: upt_rec numeral_eq_Suc)
  obtain brk Sd1 where s: "scan_at E base blk ?m (map (\<lambda>j. a + 8 * j) [0..<8]) Sd = (brk, Sd1)" by (rule prod.exhaust)
  have r: "rom_read_helper E a RPMC_ROM_ACCESS_SIZE (snd Sd) = slice a 64 ?m"
    using rom_read [OF assms(1), of a 64 "snd Sd"] Cons.prems by (simp add: RPMC_ROM_ACCESS_SIZE_def)
  have k: "mc_chunk E base blk a (slice a 64 ?m) [0, 8, 16, 24, 32, 40, 48, 56] Sd = Sd1"
    using chunk_scan [of a 64 ?m "[0, 8, 16, 24, 32, 40, 48, 56]" E base blk Sd] Cons.prems s unfolding u by simp
  note f = scan_flag [OF s assms(3) Cons.prems(2)]
  show ?case
  proof (cases brk)
    case True
    then show ?thesis using f s unfolding mc_block.simps Let_def r k by (simp add: scan_append del: upt_Suc)
  next
    case False
    then have "snd Sd1 = snd Sd" "\<not> bit (fd_bits (fst Sd1)) blk" using f by auto
    then show ?thesis using Cons.IH [of Sd1] Cons.prems False s
      unfolding mc_block.simps Let_def r k by (simp add: scan_append del: upt_Suc)
  qed
qed simp

lemma concat_groups: "concat (map (\<lambda>k. map (\<lambda>j. f (n * k + j)) [0..<n]) [0..<l]) = map f [0..<n * l]"
proof (induction l)
  case (Suc l)
  have "[0..<n * Suc l] = [0..<n * l] @ map (\<lambda>j. n * l + j) [0..<n]"
    using upt_add_eq_append [of 0 "n * l" n] map_add_upt [of "n * l" n] by (simp add: add.commute)
  with Suc show ?case by simp
qed simp

section \<open>Blocks\<close>

definition slot_addrs :: "nat \<Rightarrow> nat list" where
  "slot_addrs B = map (\<lambda>i. B + 8 * i) [0..<512]"

lemma scan_block_slots:
  assumes "rom_ok E c" "base + blk * RPMC_ROM_BLOCK_SIZE = B" "B + RPMC_ROM_BLOCK_SIZE \<le> length (c d)" "blk < 8"
    "\<not> bit (fd_bits S) blk"
  shows "mc_scan_block E base blk (S, d) =
    (let (S1, d1) = snd (scan_at E base blk (c d) (slot_addrs B) (S\<lparr>fd_broken := False\<rparr>, d))
     in if fd_broken S1 then (S1\<lparr>fd_addr := (fd_addr S1)[blk := 0]\<rparr>, rom_erase_helper E B d1) else (S1, d1))"
proof -
  have "concat (map (\<lambda>a. map (\<lambda>j. a + 8 * j) [0..<8]) (map (\<lambda>k. B + 64 * k) [0..<64])) = slot_addrs B"
    using concat_groups [of "\<lambda>i. B + 8 * i" 8 64]
    by (simp add: slot_addrs_def comp_def algebra_simps del: upt_Suc)
  moreover have "\<forall>a \<in> set (map (\<lambda>k. B + 64 * k) [0..<64]). a + 64 \<le> length (c d)"
    using assms(3) by (auto simp: RPMC_ROM_BLOCK_SIZE_def)
  ultimately show ?thesis
    using block_scan [OF assms(1), of "map (\<lambda>k. B + 64 * k) [0..<64]" "(S\<lparr>fd_broken := False\<rparr>, d)" blk base] assms(2,4,5)
    by (simp add: mc_scan_block_def RPMC_ROM_ACCESS_SIZE_def Let_def del: upt_Suc)
qed

lemma scan_empties: "\<forall>a \<in> set as. empty_at m a \<Longrightarrow> scan_at E base blk m as Sd = (False, Sd)"
  by (induction as) (auto simp: slot_empty)

lemma first_addr_again:
  "first_addr blk b (first_addr blk a S\<lparr>fd_broken := x\<rparr>) = first_addr blk a S\<lparr>fd_broken := x\<rparr>"
  if "a \<noteq> 0" "blk < length (fd_addr S)"
  using that by (auto simp: first_addr_def)

lemma scan_brokens:
  assumes "\<forall>a \<in> set (a0 # as). broken_at E m a" "a0 \<noteq> 0" "blk < length (fd_addr S)"
  shows "scan_at E base blk m (a0 # as) (S, d) = (False, (first_addr blk a0 S)\<lparr>fd_broken := True\<rparr>, d)"
proof -
  have "scan_at E base blk m as ((first_addr blk a0 S)\<lparr>fd_broken := True\<rparr>, d) =
      (False, (first_addr blk a0 S)\<lparr>fd_broken := True\<rparr>, d)"
    using assms(1)
  proof (induction as)
    case (Cons a as)
    then show ?case using first_addr_again [OF assms(2,3), of a True] by (simp add: slot_broken)
  qed simp
  then show ?thesis using assms(1) by (simp add: slot_broken)
qed

definition empty_blk :: "u8 list \<Rightarrow> nat \<Rightarrow> bool" where
  "empty_blk m B \<longleftrightarrow> (\<forall>i < 512. empty_at m (B + 8 * i))"

text \<open>The lowest used slot is \<open>b\<close>; broken ones and then the newest value follow.\<close>

definition cur_blk :: "'d rom_env \<Rightarrow> u8 list \<Rightarrow> nat \<Rightarrow> nat \<Rightarrow> u32 \<Rightarrow> u16 \<Rightarrow> bool" where
  "cur_blk E m B b v k \<longleftrightarrow> (\<forall>i < b. empty_at m (B + 8 * i)) \<and>
     (\<exists>j. b \<le> j \<and> j < 512 \<and> (\<forall>i. b \<le> i \<and> i < j \<longrightarrow> broken_at E m (B + 8 * i)) \<and> good_at E m (B + 8 * j) v k)"

text \<open>Only the highest slot is used, by something broken.\<close>

definition torn_blk :: "'d rom_env \<Rightarrow> u8 list \<Rightarrow> nat \<Rightarrow> bool" where
  "torn_blk E m B \<longleftrightarrow> (\<forall>i < 511. empty_at m (B + 8 * i)) \<and> broken_at E m (B + 8 * 511)"

lemma slot_addrs_split:
  "n \<le> l \<Longrightarrow> l \<le> 512 \<Longrightarrow>
     slot_addrs B = map (\<lambda>i. B + 8 * i) [0..<n] @ map (\<lambda>i. B + 8 * i) [n..<l] @ map (\<lambda>i. B + 8 * i) [l..<512]"
  using upt_add_eq_append [of 0 n "512 - n"] upt_add_eq_append [of n l "512 - l"]
  by (simp add: slot_addrs_def flip: map_append)

lemma scan_empty_blk:
  assumes "rom_ok E c" "base + blk * RPMC_ROM_BLOCK_SIZE = B" "B + RPMC_ROM_BLOCK_SIZE \<le> length (c d)" "blk < 8"
    "\<not> bit (fd_bits S) blk" "empty_blk (c d) B"
  shows "mc_scan_block E base blk (S, d) = (S\<lparr>fd_broken := False\<rparr>, d)"
proof -
  have "\<forall>a \<in> set (slot_addrs B). empty_at (c d) a" using assms(6) by (auto simp: slot_addrs_def empty_blk_def)
  then show ?thesis by (simp add: scan_block_slots [OF assms(1-5)] scan_empties)
qed

lemma found_broken: "mc_found E base blk a v k (S\<lparr>fd_broken := x\<rparr>, d) = mc_found E base blk a v k (S, d)"
  by (cases "fd_addr S ! blk = 0") (simp_all add: mc_found_def first_addr_def mc_prefer_def Let_def)

lemma scan_cur_blk:
  assumes "rom_ok E c" "base + blk * RPMC_ROM_BLOCK_SIZE = B" "B + RPMC_ROM_BLOCK_SIZE \<le> length (c d)" "blk < 8"
    "\<not> bit (fd_bits S) blk" "cur_blk E (c d) B b v k" "fd_addr S ! blk = 0" "blk < length (fd_addr S)" "B \<noteq> 0"
  shows "mc_scan_block E base blk (S, d) = mc_found E base blk (B + 8 * b) v k (S, d)"
proof -
  obtain j where j: "\<forall>i < b. empty_at (c d) (B + 8 * i)" "b \<le> j" "j < 512"
      "\<forall>i. b \<le> i \<and> i < j \<longrightarrow> broken_at E (c d) (B + 8 * i)" "good_at E (c d) (B + 8 * j) v k"
    using assms(6) by (auto simp: cur_blk_def)
  let ?S = "S\<lparr>fd_broken := False\<rparr>"
  let ?f = "\<lambda>S. mc_found E base blk (B + 8 * j) v k (S, d)"
  have sp: "slot_addrs B = map (\<lambda>i. B + 8 * i) [0..<b] @ map (\<lambda>i. B + 8 * i) [b..<j] @
      (B + 8 * j) # map (\<lambda>i. B + 8 * i) [Suc j..<512]"
    using slot_addrs_split [of b j B] j(2,3) by (simp add: upt_conv_Cons)
  have e: "scan_at E base blk (c d) (map (\<lambda>i. B + 8 * i) [0..<b]) Sd = (False, Sd)" for Sd
    using j(1) by (intro scan_empties) auto
  have "scan_at E base blk (c d) (slot_addrs B) (?S, d) = (True, mc_found E base blk (B + 8 * b) v k (S, d))"
  proof (cases "b = j")
    case True
    then show ?thesis using slot_good [OF assms(1) j(5)]
      by (simp add: sp scan_append e found_broken flip: True)
  next
    case False
    then have b: "map (\<lambda>i. B + 8 * i) [b..<j] = (B + 8 * b) # map (\<lambda>i. B + 8 * i) [Suc b..<j]"
      using j(2) by (simp add: upt_conv_Cons)
    have "scan_at E base blk (c d) (map (\<lambda>i. B + 8 * i) [b..<j]) (?S, d) =
        (False, (first_addr blk (B + 8 * b) ?S)\<lparr>fd_broken := True\<rparr>, d)"
      unfolding b using j(2,4) assms(8,9) False by (intro scan_brokens) auto
    moreover have "?f ((first_addr blk (B + 8 * b) ?S)\<lparr>fd_broken := True\<rparr>) = mc_found E base blk (B + 8 * b) v k (S, d)"
      using assms(7,8,9) by (simp add: mc_found_def first_addr_def mc_prefer_def Let_def)
    ultimately show ?thesis using slot_good [OF assms(1) j(5)] by (simp add: sp scan_append e)
  qed
  moreover have "\<not> fd_broken (fst (mc_found E base blk (B + 8 * b) v k (S, d)))"
    by (simp add: mc_found_def Let_def split: prod.splits)
  ultimately show ?thesis
    by (auto simp: scan_block_slots [OF assms(1-5)] split: prod.splits)
qed

lemma scan_torn_blk:
  assumes "rom_ok E c" "base + blk * RPMC_ROM_BLOCK_SIZE = B" "B + RPMC_ROM_BLOCK_SIZE \<le> length (c d)" "blk < 8"
    "\<not> bit (fd_bits S) blk" "torn_blk E (c d) B" "fd_addr S ! blk = 0" "blk < length (fd_addr S)"
  shows "mc_scan_block E base blk (S, d) = (S\<lparr>fd_broken := True\<rparr>, rom_erase_helper E B d)"
proof -
  have sp: "slot_addrs B = map (\<lambda>i. B + 8 * i) [0..<511] @ [B + 8 * 511]"
    by (simp add: slot_addrs_def del: upt_Suc add: upt_Suc_append [of 0 511, simplified])
  have "scan_at E base blk (c d) (map (\<lambda>i. B + 8 * i) [0..<511]) Sd = (False, Sd)" for Sd
    using assms(6) by (intro scan_empties) (auto simp: torn_blk_def)
  moreover have "scan_at E base blk (c d) [B + 8 * 511] (S\<lparr>fd_broken := False\<rparr>, d) =
      (False, (first_addr blk (B + 8 * 511) (S\<lparr>fd_broken := False\<rparr>))\<lparr>fd_broken := True\<rparr>, d)"
    using assms(6,8) by (intro scan_brokens) (auto simp: torn_blk_def)
  moreover have "(fd_addr S)[blk := 0] = fd_addr S" using assms(7) by (metis list_update_id)
  ultimately show ?thesis
    using assms(7) by (simp add: scan_block_slots [OF assms(1-5)] sp scan_append first_addr_def del: upt_Suc)
qed

end
