(* ===== verification/Rpmc_rom_Inv.thy ===== *)
theory Rpmc_rom_Inv
  imports Rpmc_rom_Scan
begin

text \<open>
  The invariant of a counter's two blocks, and that writing, postponed erasing, a restart and a write cut
  off by a power loss keep it.
\<close>

section \<open>Parts of the flash\<close>

text \<open>The contents differ at most in \<open>n\<close> bytes from \<open>b\<close> on.\<close>

definition changes_only :: "nat \<Rightarrow> nat \<Rightarrow> u8 list \<Rightarrow> u8 list \<Rightarrow> bool" where
  "changes_only b n m m' \<longleftrightarrow> length m' = length m \<and> (\<forall>i < length m. i < b \<or> b + n \<le> i \<longrightarrow> m' ! i = m ! i)"

lemma changes_refl [simp]: "changes_only b n m m"
  by (simp add: changes_only_def)

lemma changes_trans: "changes_only b n m m1 \<Longrightarrow> changes_only b n m1 m2 \<Longrightarrow> changes_only b n m m2"
  by (auto simp: changes_only_def)

lemma changes_put:
  "off + length xs \<le> length m \<Longrightarrow> b \<le> off \<Longrightarrow> off + length xs \<le> b + n \<Longrightarrow> changes_only b n m (put off xs m)"
  by (auto simp: changes_only_def nth_put)

lemma changes_length: "changes_only b n m m' \<Longrightarrow> length m' = length m"
  by (simp add: changes_only_def)

lemma slice_unchanged:
  assumes "changes_only b n m m'" "off + l \<le> length m" "off + l \<le> b \<or> b + n \<le> off"
  shows "slice off l m' = slice off l m"
  using assms by (intro nth_equalityI) (auto simp: changes_only_def nth_slice)

definition same_blk :: "u8 list \<Rightarrow> u8 list \<Rightarrow> nat \<Rightarrow> bool" where
  "same_blk m m' B \<longleftrightarrow> (\<forall>i < 512. slice (B + 8 * i) 8 m' = slice (B + 8 * i) 8 m)"

lemma blk_cong:
  assumes "same_blk m m' B"
  shows "empty_blk m' B = empty_blk m B" "b \<le> 512 \<Longrightarrow> cur_blk E m' B b v k = cur_blk E m B b v k"
    "torn_blk E m' B = torn_blk E m B"
proof -
  note s = assms [unfolded same_blk_def, rule_format]
  have e: "empty_at m' (B + 8 * i) = empty_at m (B + 8 * i)" "good_at E m' (B + 8 * i) v k = good_at E m (B + 8 * i) v k"
      "broken_at E m' (B + 8 * i) = broken_at E m (B + 8 * i)" if "i < 512" for i v k
    using s [OF that] by (simp_all add: empty_at_def good_at_def broken_at_def)
  show "empty_blk m' B = empty_blk m B" using e by (simp add: empty_blk_def)
  show "cur_blk E m' B b v k = cur_blk E m B b v k" if "b \<le> 512"
    using e that by (auto simp: cur_blk_def)
  show "torn_blk E m' B = torn_blk E m B" using e(1) e(3) [of 511] by (simp add: torn_blk_def)
qed

lemma same_blk_changes:
  assumes "changes_only b n m m'" "B + 4096 \<le> length m" "B + 4096 \<le> b \<or> b + n \<le> B"
  shows "same_blk m m' B"
  using assms slice_unchanged [OF assms(1)] by (auto simp: same_blk_def)

lemma empty_erased:
  assumes "B + 4096 \<le> length m"
  shows "empty_blk (put B (replicate 4096 0xFF) m) B"
proof -
  have "slice (B + 8 * i) 8 (put B (replicate 4096 0xFF) m) = replicate 8 0xFF" if "i < 512" for i
    using that assms by (intro nth_equalityI) (auto simp: nth_slice nth_put)
  then show ?thesis by (simp add: empty_blk_def empty_at_def)
qed

section \<open>Writing a slot\<close>

lemma slot_other:
  "i \<noteq> j \<Longrightarrow> B + 8 * i + 8 \<le> length m \<Longrightarrow> B + 8 * j + 8 \<le> length m \<Longrightarrow> length xs = 8 \<Longrightarrow>
     slice (B + 8 * i) 8 (put (B + 8 * j) xs m) = slice (B + 8 * i) 8 m"
  by (intro slice_put_other) auto

lemma mc_write_mem:
  assumes "rom_ok E c" "empty_at (c d) a" "a + 8 \<le> length (c d)"
  shows "c (mc_write E a v k d) = put a (mc_data v k (crc16_compute E (le32 v @ le16 k))) (c d)"
  using rom_write [OF assms(1), of a _ d] assms(2,3) by (simp add: mc_write_def empty_at_def Let_def)

text \<open>Below \<open>b\<close> all slots are empty: the value goes to the one just below.\<close>

lemma cur_blk_written:
  assumes "\<forall>i < b. empty_at m (B + 8 * i)" "0 < b" "b \<le> 512" "B + 4096 \<le> length m"
  shows "cur_blk E (put (B + 8 * (b - 1)) (mc_data v k (crc16_compute E (le32 v @ le16 k))) m) B (b - 1) v k"
proof -
  let ?m = "put (B + 8 * (b - 1)) (mc_data v k (crc16_compute E (le32 v @ le16 k))) m"
  have "\<forall>i < b - 1. empty_at ?m (B + 8 * i)"
    using assms by (auto simp: empty_at_def slot_other)
  moreover have "good_at E ?m (B + 8 * (b - 1)) v k"
    using assms(3,4) by (simp add: good_at_def slice_put)
  ultimately show ?thesis using assms(2,3) by (auto simp: cur_blk_def intro!: exI [of _ "b - 1"])
qed

lemma cur_blk_below: "cur_blk E m B b v k \<Longrightarrow> \<forall>i < b. empty_at m (B + 8 * i)"
  by (simp add: cur_blk_def)

lemma cur_blk_bound: "cur_blk E m B b v k \<Longrightarrow> b < 512"
  by (auto simp: cur_blk_def)

text \<open>Something invalid goes there instead: the newest value is the same.\<close>

lemma cur_blk_torn:
  assumes "cur_blk E m B b v k" "0 < b" "b < 512" "B + 4096 \<le> length m" "invalid E xs" "xs \<noteq> replicate 8 0xFF"
  shows "cur_blk E (put (B + 8 * (b - 1)) xs m) B (b - 1) v k"
proof -
  let ?m = "put (B + 8 * (b - 1)) xs m"
  have l: "length xs = 8" using assms(5) by (simp add: invalid_def)
  have o: "slice (B + 8 * i) 8 ?m = slice (B + 8 * i) 8 m" if "i < 512" "i \<noteq> b - 1" for i
    using that assms(3,4) l by (intro slot_other) auto
  obtain j where j: "\<forall>i < b. empty_at m (B + 8 * i)" "b \<le> j" "j < 512"
      "\<forall>i. b \<le> i \<and> i < j \<longrightarrow> broken_at E m (B + 8 * i)" "good_at E m (B + 8 * j) v k"
    using assms(1) by (auto simp: cur_blk_def)
  have n: "slice (B + 8 * (b - 1)) 8 ?m = xs" using assms(3,4) l by (intro slice_put) auto
  have "\<forall>i < b - 1. empty_at ?m (B + 8 * i)" using j(1) o assms(3) by (auto simp: empty_at_def)
  moreover have "broken_at E ?m (B + 8 * i)" if "b - 1 \<le> i" "i < j" for i
  proof (cases "i = b - 1")
    case True
    then show ?thesis using n assms(5,6) by (simp add: broken_at_def empty_at_def)
  next
    case False
    then have "broken_at E m (B + 8 * i)" using that j(4) by auto
    then show ?thesis using o [of i] False that j(3) by (simp add: broken_at_def empty_at_def)
  qed
  moreover have "good_at E ?m (B + 8 * j) v k" using j(2,3,5) o [of j] assms(2) by (simp add: good_at_def)
  ultimately show ?thesis using j(2,3) unfolding cur_blk_def by (intro conjI exI [of _ j]) auto
qed

lemma torn_blk_written:
  assumes "empty_blk m B" "B + 4096 \<le> length m" "invalid E xs" "xs \<noteq> replicate 8 0xFF"
  shows "torn_blk E (put (B + 8 * 511) xs m) B"
proof -
  have l: "length xs = 8" using assms(3) by (simp add: invalid_def)
  have "\<forall>i < 511. empty_at (put (B + 8 * 511) xs m) (B + 8 * i)"
    using assms(1,2) l slot_other [of _ 511 B m xs] by (auto simp: empty_blk_def empty_at_def)
  moreover have "slice (B + 8 * 511) 8 (put (B + 8 * 511) xs m) = xs" using assms(2) l by (intro slice_put) auto
  ultimately show ?thesis using assms(3,4) by (simp add: torn_blk_def broken_at_def empty_at_def)
qed

section \<open>The invariant\<close>

text \<open>The two blocks of a counter: the one in use, and the other.\<close>

definition two_blocks :: "nat \<Rightarrow> nat \<Rightarrow> nat \<Rightarrow> bool" where
  "two_blocks base B X \<longleftrightarrow> B = base \<and> X = base + 4096 \<or> B = base + 4096 \<and> X = base"

text \<open>The value is later than the one of the other block, and by no more cycles than values have been written.\<close>

definition later :: "nat \<Rightarrow> u32 \<Rightarrow> u16 \<Rightarrow> u32 \<Rightarrow> u16 \<Rightarrow> bool" where
  "later b v0 k0 v k \<longleftrightarrow> unat (k - k0) \<le> 512 - b \<and> (k = k0 \<longrightarrow> v0 < v)"

text \<open>\<open>pend\<close> is the block that is still to be erased, or 0.\<close>

definition ctr_ok :: "'d rom_env \<Rightarrow> u8 list \<Rightarrow> nat \<Rightarrow> nat \<Rightarrow> u32 \<Rightarrow> u16 \<Rightarrow> nat \<Rightarrow> bool" where
  "ctr_ok E m base addr v k pend \<longleftrightarrow>
     addr = 0 \<and> v = 0 \<and> k = 0 \<and> pend = 0 \<and> empty_blk m base \<and> empty_blk m (base + 4096) \<or>
     (\<exists>B X b. two_blocks base B X \<and> addr = B + 8 * b \<and> b < 512 \<and> cur_blk E m B b v k \<and>
        (pend = 0 \<and> empty_blk m X \<or> pend = X \<and> (\<exists>v0 k0. cur_blk E m X 0 v0 k0 \<and> later b v0 k0 v k)))"

lemma ctr_cases:
  assumes "ctr_ok E m base addr v k pend"
  obtains (none) "addr = 0" "v = 0" "k = 0" "pend = 0" "empty_blk m base" "empty_blk m (base + 4096)"
  | (one) B X b where "two_blocks base B X" "addr = B + 8 * b" "b < 512" "cur_blk E m B b v k" "pend = 0" "empty_blk m X"
  | (two) B X b v0 k0 where "two_blocks base B X" "addr = B + 8 * b" "b < 512" "cur_blk E m B b v k" "pend = X"
      "cur_blk E m X 0 v0 k0" "later b v0 k0 v k"
  using assms unfolding ctr_ok_def by blast

lemma ctr_none: "empty_blk m base \<Longrightarrow> empty_blk m (base + 4096) \<Longrightarrow> ctr_ok E m base 0 0 0 0"
  by (simp add: ctr_ok_def)

lemma ctr_one:
  "two_blocks base B X \<Longrightarrow> b < 512 \<Longrightarrow> cur_blk E m B b v k \<Longrightarrow> empty_blk m X \<Longrightarrow> ctr_ok E m base (B + 8 * b) v k 0"
  unfolding ctr_ok_def by blast

lemma ctr_two:
  "two_blocks base B X \<Longrightarrow> b < 512 \<Longrightarrow> cur_blk E m B b v k \<Longrightarrow> cur_blk E m X 0 v0 k0 \<Longrightarrow> later b v0 k0 v k \<Longrightarrow>
     ctr_ok E m base (B + 8 * b) v k X"
  unfolding ctr_ok_def by blast

lemma ctr_same:
  assumes "same_blk m m' base" "same_blk m m' (base + 4096)" "ctr_ok E m base addr v k pend"
  shows "ctr_ok E m' base addr v k pend"
  using assms(3)
proof (cases rule: ctr_cases)
  case none
  then show ?thesis by (simp add: ctr_ok_def blk_cong(1) [OF assms(1)] blk_cong(1) [OF assms(2)])
next
  case (one B X b)
  then have "same_blk m m' B" "same_blk m m' X" using assms(1,2) by (auto simp: two_blocks_def)
  then show ?thesis using one by (simp add: ctr_one blk_cong)
next
  case (two B X b v0 k0)
  then have "same_blk m m' B" "same_blk m m' X" using assms(1,2) by (auto simp: two_blocks_def)
  then show ?thesis using two by (simp add: ctr_two blk_cong)
qed

lemma ctr_frame:
  assumes "changes_only b n m m'" "base + 8192 \<le> length m" "base + 8192 \<le> b \<or> b + n \<le> base" "ctr_ok E m base addr v k pend"
  shows "ctr_ok E m' base addr v k pend"
  using assms by (intro ctr_same [OF _ _ assms(4)] same_blk_changes [OF assms(1)]) auto

lemma later_step:
  assumes "later b v0 k0 v k" "0 < b" "b < 512" "v < v' \<or> v' = 0"
  shows "later (b - 1) v0 k0 v' (if v' = 0 then k + 1 else k)"
proof (cases "v' = 0")
  case True
  have "unat (k + 1 - k0) \<le> unat (k - k0) + 1"
    using unat_plus_if_size [of "k - k0" 1] by (simp add: algebra_simps split: if_splits)
  moreover have "k + 1 \<noteq> k0"
  proof
    assume "k + 1 = k0"
    then have "k - k0 = - 1" by (simp add: algebra_simps)
    then have "unat (k - k0) = 65535" by (simp add: unsigned_minus_1_eq_mask mask_eq_exp_minus_1)
    then show False using assms(1) diff_le_self [of 512 b] unfolding later_def by linarith
  qed
  moreover have "unat (k - k0) \<le> 512 - b" using assms(1) by (simp add: later_def)
  ultimately have "unat (k + 1 - k0) \<le> 512 - (b - 1)" "k + 1 \<noteq> k0" using assms(2,3) by linarith+
  then show ?thesis using True by (simp add: later_def)
next
  case False
  then have "v < v'" using assms(4) by simp
  then have "k = k0 \<longrightarrow> v0 < v'" using assms(1) less_trans unfolding later_def by blast
  moreover have "unat (k - k0) \<le> 512 - (b - 1)" using assms(1) unfolding later_def by linarith
  ultimately show ?thesis using False by (simp add: later_def)
qed

lemma later_first: "v < v' \<or> v' = 0 \<Longrightarrow> later 511 v k v' (if v' = 0 then k + 1 else k)"
  by (auto simp: later_def)

section \<open>Writing a value\<close>

lemma next_slot:
  assumes "two_blocks base B X" "b < 512" "base \<noteq> 0"
  shows "mc_next base (B + 8 * b) = (if b = 0 then (X + 8 * 511, B) else (B + 8 * (b - 1), 0))"
  using assms by (auto simp: mc_next_def two_blocks_def RPMC_ROM_BLOCK_SIZE_def Let_def)

lemma next_slot_none: "mc_next base 0 = (base + 4096 + 8 * 511, 0)"
  by (simp add: mc_next_def RPMC_ROM_BLOCK_SIZE_def Let_def)

lemma blocks_in:
  "two_blocks base B X \<Longrightarrow> base + 8192 \<le> n \<Longrightarrow> B + 4096 \<le> n \<and> X + 4096 \<le> n \<and> base \<le> B \<and> base \<le> X \<and> (B + 4096 \<le> X \<or> X + 4096 \<le> B)"
  by (auto simp: two_blocks_def)

text \<open>A value written into the first block after all slots from \<open>b\<close> on; the rest stays.\<close>

lemma written:
  assumes "rom_ok E c" "two_blocks base B X" "base + 8192 \<le> length (c d)" "\<forall>i < b. empty_at (c d) (B + 8 * i)" "0 < b" "b \<le> 512"
    and d'_def: "d' = mc_write E (B + 8 * (b - 1)) v k d"
  shows "cur_blk E (c d') B (b - 1) v k" "same_blk (c d) (c d') X" "changes_only base 8192 (c d) (c d')"
proof -
  note i = blocks_in [OF assms(2,3)]
  have m: "c d' = put (B + 8 * (b - 1)) (mc_data v k (crc16_compute E (le32 v @ le16 k))) (c d)"
    unfolding d'_def using assms(4-6) i by (intro mc_write_mem [OF assms(1)]) auto
  show "cur_blk E (c d') B (b - 1) v k" unfolding m using assms(4-6) i by (intro cur_blk_written) auto
  have "changes_only B 4096 (c d) (c d')" unfolding m using assms(5,6) i by (intro changes_put) auto
  then show "same_blk (c d) (c d') X" using i by (intro same_blk_changes) auto
  show "changes_only base 8192 (c d) (c d')" unfolding m using assms(2,3,5,6) by (intro changes_put) (auto simp: two_blocks_def)
qed

lemma erased:
  assumes "rom_ok E c" "two_blocks base B X" "base + 8192 \<le> length (c d)"
    and d'_def: "d' = rom_erase_helper E X d"
  shows "empty_blk (c d') X" "same_blk (c d) (c d') B" "changes_only base 8192 (c d) (c d')"
proof -
  note i = blocks_in [OF assms(2,3)]
  have m: "c d' = put X (replicate 4096 0xFF) (c d)"
    unfolding d'_def using rom_erase [OF assms(1), of X d] i by (simp add: RPMC_ROM_BLOCK_SIZE_def)
  show "empty_blk (c d') X" unfolding m using i by (intro empty_erased) auto
  have "changes_only X 4096 (c d) (c d')" unfolding m using i by (intro changes_put) auto
  then show "same_blk (c d) (c d') B" using i by (intro same_blk_changes) auto
  show "changes_only base 8192 (c d) (c d')" unfolding m using assms(2,3) by (intro changes_put) (auto simp: two_blocks_def)
qed

text \<open>What the invariant says after a write, besides the contents: the same counters and pending blocks of the others.\<close>

definition only_inst :: "nat \<Rightarrow> 'd rom_ctx \<Rightarrow> 'd rom_ctx \<Rightarrow> bool" where
  "only_inst i s s' \<longleftrightarrow> rom_data s' = rom_data s \<and> length (erase_addr s') = length (erase_addr s) \<and>
     (\<forall>j. j \<noteq> i \<longrightarrow> erase_addr s' ! j = erase_addr s ! j)"

lemma program_ok:
  assumes ok: "rom_ok E c" and inv: "ctr_ok E (c (dev s)) base addr v k (erase_addr s ! i)"
    and rng: "base + 8192 \<le> length (c (dev s))" "base \<noteq> 0" "i < length (erase_addr s)"
    and v': "v < v' \<or> v' = 0" and p: "mc_program E i base addr v' k s = (addr', k', s')"
  shows "ctr_ok E (c (dev s')) base addr' v' k' (erase_addr s' ! i) \<and>
    changes_only base 8192 (c (dev s)) (c (dev s')) \<and> only_inst i s s'"
  using inv
proof (cases rule: ctr_cases)
  case none
  have tb: "two_blocks base (base + 4096) base" by (simp add: two_blocks_def)
  have a': "addr' = base + 4096 + 8 * (512 - 1)" "s' = s\<lparr>dev := mc_write E (base + 4096 + 8 * (512 - 1)) v' k' (dev s)\<rparr>"
    using p by (auto simp: mc_program_def none(1) next_slot_none mc_erase_def Let_def)
  note w = written [OF ok tb rng(1), where b = 512 and v = v' and k = k', OF _ _ _ refl] none(5,6) [unfolded empty_blk_def]
  have "cur_blk E (c (dev s')) (base + 4096) (512 - 1) v' k'" "empty_blk (c (dev s')) base"
      "changes_only base 8192 (c (dev s)) (c (dev s'))"
    using w none(5) blk_cong(1) by (auto simp: a'(2))
  then show ?thesis using ctr_one [OF tb, of "512 - 1" E "c (dev s')" v' k'] none(4) unfolding a'(1)
    by (simp add: only_inst_def a'(2))
next
  case (one B X b)
  show ?thesis
  proof (cases "b = 0")
    case True
    have tb: "two_blocks base X B" using one(1) by (auto simp: two_blocks_def)
    have B0: "B \<noteq> 0" using one(1) rng(2) by (auto simp: two_blocks_def)
    have s': "addr' = X + 8 * (512 - 1)" "k' = (if v' = 0 then k + 1 else k)"
        "dev s' = mc_write E (X + 8 * (512 - 1)) v' k' (dev s)" "erase_addr s' = (erase_addr s)[i := B]" "rom_data s' = rom_data s"
      using p next_slot [OF one(1,3) rng(2)] True one(2,5) B0
      by (auto simp: mc_program_def mc_erase_def rom_post_works_notify_def Let_def)
    have w: "cur_blk E (c (dev s')) X (512 - 1) v' k'" "same_blk (c (dev s)) (c (dev s')) B"
        "changes_only base 8192 (c (dev s)) (c (dev s'))"
      using written [OF ok tb rng(1), where b = 512 and v = v' and k = k', OF _ _ _ refl] one(6) unfolding s'(3) by (auto simp: empty_blk_def)
    have "cur_blk E (c (dev s')) B 0 v k" using one(4) True by (simp add: blk_cong(2) [OF w(2)])
    then have "ctr_ok E (c (dev s')) base addr' v' k' B"
      unfolding s'(1) using w(1) later_first [OF v'] unfolding s'(2) by (intro ctr_two [OF tb]) auto
    then show ?thesis using w(3) rng(3) s' by (simp add: only_inst_def)
  next
    case False
    have s': "addr' = B + 8 * (b - 1)" "s' = s\<lparr>dev := mc_write E (B + 8 * (b - 1)) v' k' (dev s)\<rparr>"
      using p next_slot [OF one(1,3) rng(2)] False one(2) by (auto simp: mc_program_def mc_erase_def Let_def)
    have w: "cur_blk E (c (dev s')) B (b - 1) v' k'" "empty_blk (c (dev s')) X"
        "changes_only base 8192 (c (dev s)) (c (dev s'))"
      using written [OF ok one(1) rng(1), where b = b and v = v' and k = k', OF _ _ _ refl] one(3,6) cur_blk_below [OF one(4)] False
      by (auto simp: s'(2) blk_cong(1))
    then show ?thesis using ctr_one [OF one(1) _ w(1,2)] one(3,5) unfolding s'(1) by (simp add: s'(2) only_inst_def)
  qed
next
  case (two B X b v0 k0)
  have X0: "X \<noteq> 0" using two(1) rng(2) by (auto simp: two_blocks_def)
  show ?thesis
  proof (cases "b = 0")
    case True
    have tb: "two_blocks base X B" using two(1) by (auto simp: two_blocks_def)
    let ?d1 = "rom_erase_helper E B (dev s)"
    let ?d2 = "rom_erase_helper E X ?d1"
    have B0: "B \<noteq> 0" using two(1) rng(2) by (auto simp: two_blocks_def)
    have s': "addr' = X + 8 * (512 - 1)" "dev s' = mc_write E (X + 8 * (512 - 1)) v' k' ?d2"
        "erase_addr s' = (erase_addr s)[i := 0]" "rom_data s' = rom_data s"
      using p next_slot [OF two(1,3) rng(2)] True two(2,5) X0 B0 by (auto simp: mc_program_def mc_erase_def Let_def)
    note e1 = erased [OF ok tb rng(1) refl]
    have r1: "base + 8192 \<le> length (c ?d1)" using e1(3) rng(1) by (simp add: changes_length)
    note e2 = erased [OF ok two(1) r1 refl]
    have r2: "base + 8192 \<le> length (c ?d2)" using e2(3) r1 by (simp add: changes_length)
    have w: "cur_blk E (c (dev s')) X (512 - 1) v' k'" "same_blk (c ?d2) (c (dev s')) B"
        "changes_only base 8192 (c ?d2) (c (dev s'))"
      using written [OF ok tb r2, where b = 512 and v = v' and k = k', OF _ _ _ refl] e2(1) unfolding s'(2) by (auto simp: empty_blk_def)
    have "empty_blk (c (dev s')) B" using e1(1) e2(2) w(2) by (simp add: blk_cong(1))
    then have "ctr_ok E (c (dev s')) base addr' v' k' 0" unfolding s'(1) using w(1) by (intro ctr_one [OF tb]) auto
    moreover have "changes_only base 8192 (c (dev s)) (c (dev s'))"
      using changes_trans [OF changes_trans [OF e1(3) e2(3)] w(3)] .
    ultimately show ?thesis using rng(3) s' by (simp add: only_inst_def)
  next
    case False
    have s': "addr' = B + 8 * (b - 1)" "k' = (if v' = 0 then k + 1 else k)"
        "s' = s\<lparr>dev := mc_write E (B + 8 * (b - 1)) v' k' (dev s)\<rparr>"
      using p next_slot [OF two(1,3) rng(2)] False two(2) by (auto simp: mc_program_def mc_erase_def Let_def)
    have w: "cur_blk E (c (dev s')) B (b - 1) v' k'" "cur_blk E (c (dev s')) X 0 v0 k0"
        "changes_only base 8192 (c (dev s)) (c (dev s'))"
      using written [OF ok two(1) rng(1), where b = b and v = v' and k = k', OF _ _ _ refl] two(3,6) cur_blk_below [OF two(4)] False
      by (auto simp: s'(3) blk_cong(2))
    have "later (b - 1) v0 k0 v' k'" unfolding s'(2) using later_step [OF two(7) _ two(3) v'] False by simp
    then have "ctr_ok E (c (dev s')) base addr' v' k' X"
      unfolding s'(1) using w(1,2) two(3) by (intro ctr_two [OF two(1)]) auto
    then show ?thesis using w(3) two(5) by (simp add: s'(3) only_inst_def)
  qed
qed

end
