(* ===== verification/Rpmc_rom_Start.thy ===== *)
theory Rpmc_rom_Start
  imports Rpmc_rom_Inv
begin

text \<open>
  What a restart finds: the value, cycle and address of the newest slot, whichever block it is in and
  whether or not the other block has been erased; and the value before a write that was cut off.
\<close>

section \<open>The scan of the two blocks\<close>

definition scan0 :: mc_scan where
  "scan0 = \<lparr>fd_mc = [(0, 0), (0, 0)], fd_addr = [0, 0], fd_broken = False, fd_bits = 0, fd_block = 0, fd_val = 0, fd_cycle = 0\<rparr>"

definition scan1 :: "nat \<Rightarrow> nat \<Rightarrow> u32 \<Rightarrow> u16 \<Rightarrow> mc_scan" where
  "scan1 blk a v k = scan0\<lparr>fd_mc := (fd_mc scan0)[blk := (v, k)], fd_addr := (fd_addr scan0)[blk := a], fd_bits := push_bit blk 1,
     fd_block := blk, fd_val := v, fd_cycle := k\<rparr>"

lemma init_scan:
  "mc_init E base d =
     (let (S, d1) = mc_scan_block E base 1 (mc_scan_block E base 0 (scan0, d))
      in if fd_bits S = 0 then ((0, 0, 0), d1)
         else ((fst (fd_mc S ! fd_block S), snd (fd_mc S ! fd_block S), fd_addr S ! fd_block S), d1))"
  by (simp add: mc_init_def RPMC_ROM_MC_BLOCK_NUM_def scan0_def numeral_2_eq_2)

lemma found_first: "blk < 2 \<Longrightarrow> mc_found E base blk a v k (scan0, d) = (scan1 blk a v k, d)"
  by (auto simp: mc_found_def scan0_def scan1_def first_addr_def mc_prefer_def Let_def less_2_cases_iff)

lemma found_first_broken:
  "blk < 2 \<Longrightarrow> mc_found E base blk a v k (scan0\<lparr>fd_broken := x\<rparr>, d) = (scan1 blk a v k, d)"
  using found_first [of blk E base a v k d] by (simp add: found_broken)

lemma prefer_later:
  assumes "later b v0 k0 v k"
  shows "mc_prefer (scan1 blk a v0 k0\<lparr>fd_mc := f, fd_addr := g\<rparr>) v k" "blk < 2 \<Longrightarrow> \<not> mc_prefer (scan1 blk a v k\<lparr>fd_mc := f, fd_addr := g\<rparr>) v0 k0"
proof -
  have d: "unat (k - k0) \<le> 512" "k = k0 \<Longrightarrow> v0 < v" using assms by (auto simp: later_def)
  have l: "unat k < 65536" "unat k0 < 65536" using unsigned_less [of k] unsigned_less [of k0] by simp_all
  have u: "unat (k - k0) = (if unat k0 \<le> unat k then unat k - unat k0 else unat k + 65536 - unat k0)"
    using unat_sub_if_size [of k k0] by (simp add: word_size)
  show "mc_prefer (scan1 blk a v0 k0\<lparr>fd_mc := f, fd_addr := g\<rparr>) v k"
  proof (cases "k = k0")
    case True
    then show ?thesis using d by (simp add: mc_prefer_def scan1_def scan0_def order_less_imp_le)
  next
    case False
    then have "unat k \<noteq> unat k0" by (simp add: word_unat_eq_iff)
    then show ?thesis using d u l
      by (auto simp: mc_prefer_def scan1_def scan0_def cycle_reset_cond_a_def cycle_reset_cond_b_def wrap_offset_def
          word_less_nat_alt split: if_splits)
  qed
  have b: "push_bit blk (1 :: u8) \<noteq> 0" if "blk < 2" using that by (auto simp: less_2_cases_iff)
  show "\<not> mc_prefer (scan1 blk a v k\<lparr>fd_mc := f, fd_addr := g\<rparr>) v0 k0" if "blk < 2"
  proof (cases "k = k0")
    case True
    then show ?thesis using d b [OF that]
      by (auto simp: mc_prefer_def scan1_def scan0_def cycle_reset_cond_a_def wrap_offset_def word_less_nat_alt word_le_nat_alt)
  next
    case False
    then have "unat k \<noteq> unat k0" by (simp add: word_unat_eq_iff)
    then show ?thesis using d u l b [OF that] False
      by (auto simp: mc_prefer_def scan1_def scan0_def cycle_reset_cond_a_def cycle_reset_cond_b_def wrap_offset_def
          word_less_nat_alt split: if_splits)
  qed
qed

lemma found_second_newer:
  assumes "later b v0 k0 v k" "base \<noteq> 0" "a0 \<noteq> 0" "a \<noteq> 0"
  shows "\<exists>S. mc_found E base 1 a v k (scan1 0 a0 v0 k0, d) = (S, rom_erase_helper E base d) \<and>
    fd_bits S \<noteq> 0 \<and> fd_block S = 1 \<and> fd_mc S ! 1 = (v, k) \<and> fd_addr S ! 1 = a"
  using prefer_later(1) [OF assms(1), where blk = 0 and a = a0 and f = "[(v0, k0), (v, k)]" and g = "[a0, a]"] assms(2-4)
  by (auto simp: mc_found_def first_addr_def Let_def scan1_def scan0_def intro: exI [of _ 0])

lemma found_second_older:
  assumes "later b v0 k0 v k" "base \<noteq> 0" "a0 \<noteq> 0" "a \<noteq> 0"
  shows "\<exists>S. mc_found E base 1 a0 v0 k0 (scan1 0 a v k, d) = (S, rom_erase_helper E (base + 4096) d) \<and>
    fd_bits S \<noteq> 0 \<and> fd_block S = 0 \<and> fd_mc S ! 0 = (v, k) \<and> fd_addr S ! 0 = a"
  using prefer_later(2) [OF assms(1), where blk = 0 and a = a and f = "[(v, k), (v0, k0)]" and g = "[a, a0]"] assms(2-4)
  by (auto simp: mc_found_def first_addr_def Let_def scan1_def scan0_def RPMC_ROM_BLOCK_SIZE_def
      intro: exI [of _ 0])

section \<open>A restart\<close>

lemma scan_bits:
  "\<not> bit (fd_bits scan0) n" "\<not> bit (fd_bits (scan1 0 a v k)) 1" "fd_addr scan0 = [0, 0]" "fd_addr (scan1 0 a v k) = [a, 0]"
  "\<not> bit (fd_bits (scan0\<lparr>fd_broken := x\<rparr>)) n" "scan0\<lparr>fd_broken := False\<rparr> = scan0" "scan1 blk a v k\<lparr>fd_broken := False\<rparr> = scan1 blk a v k"
  by (simp_all add: scan0_def scan1_def bit_simps)

lemma scan1_result [simp]:
  "blk < 2 \<Longrightarrow> fd_bits (scan1 blk a v k) \<noteq> 0" "blk < 2 \<Longrightarrow> fd_mc (scan1 blk a v k) ! blk = (v, k)"
  "blk < 2 \<Longrightarrow> fd_addr (scan1 blk a v k) ! blk = a" "fd_block (scan1 blk a v k) = blk" "fd_bits scan0 = 0"
  by (auto simp: scan0_def scan1_def less_2_cases_iff)

text \<open>The first block, and the second block after an empty, a broken or a used first one.\<close>

lemma start_none:
  assumes "rom_ok E c" "base + 8192 \<le> length (c d)" "empty_blk (c d) base" "empty_blk (c d) (base + 4096)"
  shows "mc_init E base d = ((0, 0, 0), d)"
  using scan_empty_blk [OF assms(1), of base 0 base d scan0] scan_empty_blk [OF assms(1), of base 1 "base + 4096" d scan0] assms(2-4)
  by (simp add: init_scan scan_bits RPMC_ROM_BLOCK_SIZE_def del: One_nat_def)

lemma start_one:
  assumes "rom_ok E c" "base + 8192 \<le> length (c d)" "base \<noteq> 0" "two_blocks base B X" "cur_blk E (c d) B b v k" "empty_blk (c d) X"
  shows "mc_init E base d = ((v, k, B + 8 * b), d)"
proof (cases "B = base")
  case True
  then have x: "X = base + 4096" using assms(4) by (auto simp: two_blocks_def)
  show ?thesis
    using scan_cur_blk [OF assms(1), of base 0 base d scan0 b v k] scan_empty_blk [OF assms(1), of base 1 X d "scan1 0 (base + 8 * b) v k"]
      assms(2,3,5,6) True x found_first [of 0 E base "base + 8 * b" v k d]
    by (simp add: init_scan scan_bits RPMC_ROM_BLOCK_SIZE_def del: One_nat_def)
next
  case False
  then have x: "X = base" "B = base + 4096" using assms(4) by (auto simp: two_blocks_def)
  show ?thesis
    using scan_empty_blk [OF assms(1), of base 0 base d scan0] scan_cur_blk [OF assms(1), of base 1 "base + 4096" d scan0 b v k]
      assms(2,3,5,6) x found_first [of 1 E base "base + 4096 + 8 * b" v k d]
    by (simp add: init_scan scan_bits RPMC_ROM_BLOCK_SIZE_def del: One_nat_def)
qed

lemma start_two:
  assumes "rom_ok E c" "base + 8192 \<le> length (c d)" "base \<noteq> 0" "two_blocks base B X" "cur_blk E (c d) B b v k"
    "cur_blk E (c d) X 0 v0 k0" "later l v0 k0 v k"
  shows "mc_init E base d = ((v, k, B + 8 * b), rom_erase_helper E X d)"
proof (cases "B = base")
  case True
  then have x: "X = base + 4096" using assms(4) by (auto simp: two_blocks_def)
  obtain S where "mc_found E base 1 X v0 k0 (scan1 0 (base + 8 * b) v k, d) = (S, rom_erase_helper E X d)"
      "fd_bits S \<noteq> 0" "fd_block S = 0" "fd_mc S ! 0 = (v, k)" "fd_addr S ! 0 = base + 8 * b"
    using found_second_older [OF assms(7,3), of X "base + 8 * b" E d] assms(3) x by auto
  then show ?thesis
    using scan_cur_blk [OF assms(1), of base 0 base d scan0 b v k]
      scan_cur_blk [OF assms(1), of base 1 X d "scan1 0 (base + 8 * b) v k" 0 v0 k0]
      assms(2,3,5,6) True x found_first [of 0 E base "base + 8 * b" v k d]
    by (simp add: init_scan scan_bits RPMC_ROM_BLOCK_SIZE_def del: One_nat_def)
next
  case False
  then have x: "X = base" "B = base + 4096" using assms(4) by (auto simp: two_blocks_def)
  obtain S where "mc_found E base 1 (B + 8 * b) v k (scan1 0 base v0 k0, d) = (S, rom_erase_helper E base d)"
      "fd_bits S \<noteq> 0" "fd_block S = 1" "fd_mc S ! 1 = (v, k)" "fd_addr S ! 1 = B + 8 * b"
    using found_second_newer [OF assms(7,3), of base "B + 8 * b" E d] assms(3) x by auto
  then show ?thesis
    using scan_cur_blk [OF assms(1), of base 0 base d scan0 0 v0 k0]
      scan_cur_blk [OF assms(1), of base 1 "base + 4096" d "scan1 0 base v0 k0" b v k]
      assms(2,3,5,6) x found_first [of 0 E base base v0 k0 d]
    by (simp add: init_scan scan_bits RPMC_ROM_BLOCK_SIZE_def del: One_nat_def)
qed

text \<open>A broken block beside one in use, or beside an empty one, is erased.\<close>

lemma start_torn:
  assumes "rom_ok E c" "base + 8192 \<le> length (c d)" "base \<noteq> 0" "two_blocks base B X" "cur_blk E (c d) B b v k" "torn_blk E (c d) X"
  shows "mc_init E base d = ((v, k, B + 8 * b), rom_erase_helper E X d)"
proof (cases "B = base")
  case True
  then have x: "X = base + 4096" using assms(4) by (auto simp: two_blocks_def)
  show ?thesis
    using scan_cur_blk [OF assms(1), of base 0 base d scan0 b v k] scan_torn_blk [OF assms(1), of base 1 X d "scan1 0 (base + 8 * b) v k"]
      assms(2,3,5,6) True x found_first [of 0 E base "base + 8 * b" v k d]
    by (simp add: init_scan scan_bits RPMC_ROM_BLOCK_SIZE_def del: One_nat_def)
next
  case False
  then have x: "X = base" "B = base + 4096" using assms(4) by (auto simp: two_blocks_def)
  let ?d = "rom_erase_helper E base d"
  have e: "same_blk (c d) (c ?d) B" "changes_only base 8192 (c d) (c ?d)"
    using erased [OF assms(1,4,2) refl] x by auto
  have "cur_blk E (c ?d) B b v k" using assms(5) cur_blk_bound [OF assms(5)] by (simp add: blk_cong(2) [OF e(1)])
  then show ?thesis
    using scan_torn_blk [OF assms(1), of base 0 base d scan0] scan_cur_blk [OF assms(1), of base 1 "base + 4096" ?d "scan0\<lparr>fd_broken := True\<rparr>" b v k]
      assms(2,3,6) x found_first_broken [of 1 E base "base + 4096 + 8 * b" v k True ?d] changes_length [OF e(2)] scan_bits(3)
    by (simp add: init_scan scan_bits RPMC_ROM_BLOCK_SIZE_def del: One_nat_def)
qed

lemma start_torn_none:
  assumes "rom_ok E c" "base + 8192 \<le> length (c d)" "two_blocks base B X" "empty_blk (c d) B" "torn_blk E (c d) X"
  shows "mc_init E base d = ((0, 0, 0), rom_erase_helper E X d)"
proof (cases "B = base")
  case True
  then have x: "X = base + 4096" using assms(3) by (auto simp: two_blocks_def)
  show ?thesis
    using scan_empty_blk [OF assms(1), of base 0 base d scan0] scan_torn_blk [OF assms(1), of base 1 X d scan0] assms(2,4,5) True x
    by (simp add: init_scan scan_bits RPMC_ROM_BLOCK_SIZE_def del: One_nat_def)
next
  case False
  then have x: "X = base" "B = base + 4096" using assms(3) by (auto simp: two_blocks_def)
  let ?d = "rom_erase_helper E base d"
  have e: "same_blk (c d) (c ?d) B" "changes_only base 8192 (c d) (c ?d)"
    using erased [OF assms(1,3,2) refl] x by auto
  have "empty_blk (c ?d) B" using assms(4) by (simp add: blk_cong(1) [OF e(1)])
  then show ?thesis
    using scan_torn_blk [OF assms(1), of base 0 base d scan0] scan_empty_blk [OF assms(1), of base 1 "base + 4096" ?d "scan0\<lparr>fd_broken := True\<rparr>"]
      assms(2,5) x changes_length [OF e(2)]
    by (simp add: init_scan scan_bits RPMC_ROM_BLOCK_SIZE_def del: One_nat_def)
qed

section \<open>A counter at start\<close>

text \<open>A counter of value \<open>v\<close>, with or without a broken block beside it.\<close>

definition ctr_boot :: "'d rom_env \<Rightarrow> u8 list \<Rightarrow> nat \<Rightarrow> u32 \<Rightarrow> bool" where
  "ctr_boot E m base v \<longleftrightarrow> (\<exists>addr k pend. ctr_ok E m base addr v k pend) \<or>
     (\<exists>B X b k. two_blocks base B X \<and> cur_blk E m B b v k \<and> torn_blk E m X) \<or>
     v = 0 \<and> (\<exists>B X. two_blocks base B X \<and> empty_blk m B \<and> torn_blk E m X)"

lemma ctr_boot_frame:
  assumes "changes_only b n m m'" "base + 8192 \<le> length m" "base + 8192 \<le> b \<or> b + n \<le> base" "ctr_boot E m base v"
  shows "ctr_boot E m' base v"
proof -
  have s: "same_blk m m' base" "same_blk m m' (base + 4096)"
    using assms by (auto intro!: same_blk_changes [OF assms(1)])
  consider (ok) addr k pend where "ctr_ok E m base addr v k pend"
    | (torn) B X b k where "two_blocks base B X" "cur_blk E m B b v k" "torn_blk E m X"
    | (none) B X where "v = 0" "two_blocks base B X" "empty_blk m B" "torn_blk E m X"
    using assms(4) unfolding ctr_boot_def by blast
  then show ?thesis
  proof cases
    case ok
    then show ?thesis using ctr_frame [OF assms(1-3)] unfolding ctr_boot_def by blast
  next
    case (torn B X b k)
    then have "same_blk m m' B" "same_blk m m' X" using s by (auto simp: two_blocks_def)
    then have "cur_blk E m' B b v k" "torn_blk E m' X"
      using torn(2,3) cur_blk_bound [OF torn(2)] by (simp_all add: blk_cong)
    then show ?thesis using torn(1) unfolding ctr_boot_def by blast
  next
    case (none B X)
    then have "same_blk m m' B" "same_blk m m' X" using s by (auto simp: two_blocks_def)
    then have "empty_blk m' B" "torn_blk E m' X" using none(3,4) by (simp_all add: blk_cong)
    then show ?thesis using none(1,2) unfolding ctr_boot_def by blast
  qed
qed

text \<open>A restart finds the value and leaves a counter in use, with nothing left to erase.\<close>

lemma erased_other:
  assumes "rom_ok E c" "base + 8192 \<le> length (c d)" "two_blocks base B X" "cur_blk E (c d) B b v k"
  shows "ctr_ok E (c (rom_erase_helper E X d)) base (B + 8 * b) v k 0 \<and> changes_only base 8192 (c d) (c (rom_erase_helper E X d))"
proof -
  note e = erased [OF assms(1,3,2) refl]
  have "b < 512" using assms(4) by (rule cur_blk_bound)
  then have "cur_blk E (c (rom_erase_helper E X d)) B b v k" using assms(4) by (simp add: blk_cong(2) [OF e(2)])
  then show ?thesis using ctr_one [OF assms(3) \<open>b < 512\<close> _ e(1)] e(3) by blast
qed

lemma ctr_start:
  assumes "rom_ok E c" "base + 8192 \<le> length (c d)" "base \<noteq> 0" "ctr_boot E (c d) base v"
  obtains addr k d' where "mc_init E base d = ((v, k, addr), d')" "ctr_ok E (c d') base addr v k 0"
    "changes_only base 8192 (c d) (c d')"
proof -
  consider (none) "v = 0" "empty_blk (c d) base" "empty_blk (c d) (base + 4096)"
    | (one) B X b k where "two_blocks base B X" "b < 512" "cur_blk E (c d) B b v k" "empty_blk (c d) X"
    | (two) B X b k l v0 k0 where "two_blocks base B X" "cur_blk E (c d) B b v k" "cur_blk E (c d) X 0 v0 k0" "later l v0 k0 v k"
    | (torn) B X b k where "two_blocks base B X" "cur_blk E (c d) B b v k" "torn_blk E (c d) X"
    | (torn_none) B X where "v = 0" "two_blocks base B X" "empty_blk (c d) B" "torn_blk E (c d) X"
    using assms(4) unfolding ctr_boot_def ctr_ok_def by blast
  then show ?thesis
  proof cases
    case none
    then show ?thesis using that [of 0 0 d] start_none [OF assms(1,2)] by (simp add: ctr_none)
  next
    case one
    then show ?thesis using that [OF start_one [OF assms(1-3) one(1,3,4)]] by (simp add: ctr_one)
  next
    case two
    then show ?thesis using that [OF start_two [OF assms(1-3) two]] erased_other [OF assms(1,2)] by blast
  next
    case torn
    then show ?thesis using that [OF start_torn [OF assms(1-3) torn]] erased_other [OF assms(1,2)] by blast
  next
    case (torn_none B X)
    note e = erased [OF assms(1) torn_none(2) assms(2) refl]
    have "empty_blk (c (rom_erase_helper E X d)) B" using torn_none(3) by (simp add: blk_cong(1) [OF e(2)])
    then have "ctr_ok E (c (rom_erase_helper E X d)) base 0 v 0 0"
      using e(1) torn_none(1,2) by (auto simp: two_blocks_def intro!: ctr_none)
    then show ?thesis using that [of 0 0] start_torn_none [OF assms(1,2) torn_none(2-4)] e(3) torn_none(1) by simp
  qed
qed

section \<open>A write that is cut off\<close>

text \<open>A driver whose write leaves \<open>xs\<close> in the slot.\<close>

definition torn_flash :: "'d flash_dev \<Rightarrow> ('d \<Rightarrow> u8 list) \<Rightarrow> u8 list \<Rightarrow> 'd flash_dev \<Rightarrow> bool" where
  "torn_flash F c xs F' \<longleftrightarrow> flash_read F' = flash_read F \<and> flash_erase F' = flash_erase F \<and>
     (\<forall>off bs d. length bs = length xs \<and> off + length bs \<le> length (c d) \<longrightarrow> c (snd (flash_write F' off bs d)) = put off xs (c d))"

lemma torn_mem:
  assumes "torn_flash (flash E) c xs F'" "length xs = 8" "a + 8 \<le> length (c d)"
  shows "c (mc_write (E\<lparr>flash := F'\<rparr>) a v k d) = put a xs (c d)"
  using assms by (simp add: torn_flash_def mc_write_def rom_write_helper_def spi_rom_write_def Let_def)

lemma torn_erase: "torn_flash (flash E) c xs F' \<Longrightarrow> mc_erase (E\<lparr>flash := F'\<rparr>) = mc_erase E"
  by (auto simp: torn_flash_def mc_erase_def rom_erase_helper_def spi_rom_erase_def fun_eq_iff)

lemma put_erased:
  assumes "empty_at m a" "a + 8 \<le> length m"
  shows "put a (replicate 8 0xFF) m = m"
proof (rule nth_equalityI)
  fix i assume i: "i < length (put a (replicate 8 0xFF) m)"
  have "m ! (a + (i - a)) = 0xFF" if "a \<le> i" "i < a + 8"
    using assms that nth_slice [of a 8 m "i - a"] by (simp add: empty_at_def)
  with i assms(2) show "put a (replicate 8 0xFF) m ! i = m ! i" by (auto simp: nth_put)
qed (use assms in simp)

text \<open>Below the newest value of a block, and in the highest slot of an empty one.\<close>

lemma torn_low:
  assumes "cur_blk E m B b v k" "0 < b" "B + 4096 \<le> length m" "invalid E xs"
  shows "\<exists>b' \<le> b. cur_blk E (put (B + 8 * (b - 1)) xs m) B b' v k"
proof (cases "xs = replicate 8 0xFF")
  case True
  have "empty_at m (B + 8 * (b - 1))" using cur_blk_below [OF assms(1)] assms(2) by simp
  then have "put (B + 8 * (b - 1)) xs m = m"
    unfolding True using assms(2,3) cur_blk_bound [OF assms(1)] by (intro put_erased) auto
  then show ?thesis using assms(1) by auto
next
  case False
  then show ?thesis using cur_blk_torn [OF assms(1,2) cur_blk_bound [OF assms(1)] assms(3,4)] by (intro exI [of _ "b - 1"]) auto
qed

lemma torn_high:
  assumes "empty_blk m X" "X + 4096 \<le> length m" "invalid E xs"
  shows "empty_blk (put (X + 8 * 511) xs m) X \<or> torn_blk E (put (X + 8 * 511) xs m) X"
proof (cases "xs = replicate 8 0xFF")
  case True
  have "empty_at m (X + 8 * 511)" using assms(1) [unfolded empty_blk_def, rule_format, of 511] by simp
  then have "put (X + 8 * 511) xs m = m" unfolding True using assms(2) by (intro put_erased) auto
  then show ?thesis using assms(1) by simp
qed (use torn_blk_written [OF assms] in blast)

lemma torn_program:
  assumes "rom_ok E c" "torn_flash (flash E) c xs F'" "length xs = 8" "base + 8192 \<le> length (c (dev s))"
    "mc_program (E\<lparr>flash := F'\<rparr>) i base addr v' k s = (addr', k', s')"
    "mc_next base addr = (a, ea)" "ea = 0 \<or> erase_addr s ! i = 0" "B = base \<or> B = base + 4096" "B \<le> a" "a + 8 \<le> B + 4096"
  shows "c (dev s') = put a xs (c (dev s))" "changes_only B 4096 (c (dev s)) (c (dev s'))"
    "changes_only base 8192 (c (dev s)) (c (dev s'))"
proof -
  have "dev s' = mc_write (E\<lparr>flash := F'\<rparr>) a v' k' (dev s)"
    using assms(5-7) by (auto simp: mc_program_def torn_erase [OF assms(2)] mc_erase_def rom_post_works_notify_def Let_def split: if_splits)
  then show m: "c (dev s') = put a xs (c (dev s))" using torn_mem [OF assms(2,3), of a "dev s" v' k'] assms(4,8,10) by auto
  show "changes_only B 4096 (c (dev s)) (c (dev s'))" "changes_only base 8192 (c (dev s)) (c (dev s'))"
    unfolding m using assms(3,4,8-10) by (auto intro!: changes_put)
qed

text \<open>Unless a block is full and the one before it still waits for its erase, the value before the write remains.\<close>

lemma torn_boot:
  assumes ok: "rom_ok E c" and inv: "ctr_ok E (c (dev s)) base addr v k (erase_addr s ! i)"
    and rng: "base + 8192 \<le> length (c (dev s))" "base \<noteq> 0" "base mod 4096 = 0"
    and t: "torn_flash (flash E) c xs F'" "invalid E xs"
    and g: "addr mod 4096 \<noteq> 0 \<or> erase_addr s ! i = 0"
    and p: "mc_program (E\<lparr>flash := F'\<rparr>) i base addr v' k s = (addr', k', s')"
  shows "ctr_boot E (c (dev s')) base v \<and> changes_only base 8192 (c (dev s)) (c (dev s'))"
proof -
  have "length xs = 8" using t(2) by (simp add: invalid_def)
  note tp = torn_program [OF ok t(1) this rng(1) p]
  show ?thesis
    using inv
  proof (cases rule: ctr_cases)
    case none
    note m = tp [of "base + 4096 + 8 * 511" 0 "base + 4096", simplified none(1) next_slot_none, simplified]
    have "empty_blk (c (dev s')) base"
      using none(5) same_blk_changes [OF m(2), of base] rng(1) by (simp add: blk_cong(1))
    moreover have "empty_blk (c (dev s')) (base + 4096) \<or> torn_blk E (c (dev s')) (base + 4096)"
      using torn_high [OF none(6) _ t(2)] rng(1) m(1) by (simp add: add.commute)
    moreover have "two_blocks base base (base + 4096)" by (simp add: two_blocks_def)
    ultimately have "ctr_boot E (c (dev s')) base 0" unfolding ctr_boot_def using ctr_none by blast
    then show ?thesis using m(3) none(2) by simp
  next
    case (one B X b)
    note i = blocks_in [OF one(1) rng(1)]
    have x: "X = base \<or> X = base + 4096" "B = base \<or> B = base + 4096" using one(1) by (auto simp: two_blocks_def)
    show ?thesis
    proof (cases "b = 0")
      case True
      have m: "c (dev s') = put (X + 8 * 511) xs (c (dev s))" "changes_only X 4096 (c (dev s)) (c (dev s'))"
          "changes_only base 8192 (c (dev s)) (c (dev s'))"
        using tp [of "X + 8 * 511" B X] next_slot [OF one(1,3) rng(2)] True one(2,5) x by auto
      have "cur_blk E (c (dev s')) B b v k"
        using one(3,4) same_blk_changes [OF m(2), of B] i by (simp add: blk_cong(2))
      then show ?thesis using torn_high [OF one(6) _ t(2)] i m(1,3) ctr_one [OF one(1,3)] one(1) unfolding ctr_boot_def by metis
    next
      case False
      have m: "c (dev s') = put (B + 8 * (b - 1)) xs (c (dev s))" "changes_only B 4096 (c (dev s)) (c (dev s'))"
          "changes_only base 8192 (c (dev s)) (c (dev s'))"
        using tp [of "B + 8 * (b - 1)" 0 B] next_slot [OF one(1,3) rng(2)] False one(2,3) x by auto
      have e: "empty_blk (c (dev s')) X" using one(6) blk_cong(1) [OF same_blk_changes [OF m(2), of X]] i by blast
      obtain b' where "b' \<le> b" "cur_blk E (c (dev s')) B b' v k" using torn_low [OF one(4) _ _ t(2)] False i m(1) by auto
      then show ?thesis using ctr_one [OF one(1) _ _ e] one(3) m(3) unfolding ctr_boot_def by (meson le_less_trans)
    qed
  next
    case (two B X b v0 k0)
    note i = blocks_in [OF two(1) rng(1)]
    have "B mod 4096 = 0" "X \<noteq> 0" using two(1) rng(2,3) by (auto simp: two_blocks_def)
    then have "b \<noteq> 0" using g two(2,5) by auto
    have x: "B = base \<or> B = base + 4096" using two(1) by (auto simp: two_blocks_def)
    have m: "c (dev s') = put (B + 8 * (b - 1)) xs (c (dev s))" "changes_only B 4096 (c (dev s)) (c (dev s'))"
        "changes_only base 8192 (c (dev s)) (c (dev s'))"
      using tp [of "B + 8 * (b - 1)" 0 B] next_slot [OF two(1,3) rng(2)] \<open>b \<noteq> 0\<close> two(2,3) x by auto
    have "same_blk (c (dev s)) (c (dev s')) X" using same_blk_changes [OF m(2), of X] i by blast
    then have e: "cur_blk E (c (dev s')) X 0 v0 k0" using two(6) by (simp add: blk_cong(2))
    obtain b' where b': "b' \<le> b" "cur_blk E (c (dev s')) B b' v k" using torn_low [OF two(4) _ _ t(2)] \<open>b \<noteq> 0\<close> i m(1) by auto
    moreover have "later b' v0 k0 v k" using two(7) b'(1) by (auto simp: later_def)
    ultimately show ?thesis using ctr_two [OF two(1) _ _ e] two(3) m(3) unfolding ctr_boot_def by (meson le_less_trans)
  qed
qed

end
