(* ===== verification/Rpmc_rom_Key.thy ===== *)
theory Rpmc_rom_Key
  imports Rpmc_rom_Start
begin

text \<open>
  The invariant of a root key's block: the lowest used slot holds the key.
\<close>

section \<open>Slots of a root key\<close>

definition free_at :: "u8 list \<Rightarrow> nat \<Rightarrow> bool" where
  "free_at m a \<longleftrightarrow> slice a 64 m = replicate 64 0xFF"

definition key_at :: "'d rom_env \<Rightarrow> u8 list \<Rightarrow> nat \<Rightarrow> u8 list \<Rightarrow> u16 \<Rightarrow> bool" where
  "key_at E m a key k \<longleftrightarrow> length key = 48 \<and> slice a 64 m = rt_data key k (crc16_compute E (key @ le16 k))"

lemma rt_data_fields:
  assumes "length key = 48"
  shows "length (rt_data key k s) = 64" "take 48 (rt_data key k s) = key" "rd16 (rt_data key k s) 60 = k" "rd16 (rt_data key k s) 62 = s"
  using assms rd16_le16 [of "key @ replicate 12 0xFF" k "le16 s"] rd16_le16 [of "key @ replicate 12 0xFF @ le16 k" s "[]"]
  by (simp_all add: rt_data_def)

lemma erased_split50:
  "xs @ zs @ ys @ ws = replicate 64 z \<Longrightarrow> length xs = 48 \<Longrightarrow> length zs = 12 \<Longrightarrow> length ys = 2 \<Longrightarrow> length ws = 2 \<Longrightarrow>
     xs @ ys = replicate 50 z \<and> ws = replicate 2 z"
proof -
  assume a: "xs @ zs @ ys @ ws = replicate 64 z" and l: "length xs = 48" "length zs = 12" "length ys = 2" "length ws = 2"
  have "set (xs @ zs @ ys @ ws) = {z}" unfolding a by simp
  then have "\<forall>x \<in> set (xs @ ys). x = z" "\<forall>x \<in> set ws. x = z" by auto
  then show ?thesis using l replicate_length_same [of "xs @ ys" z] replicate_length_same [of ws z] by simp
qed

lemma rt_data_used:
  assumes "rom_ok E c" "length key = 48"
  shows "rt_data key k (crc16_compute E (key @ le16 k)) \<noteq> replicate 64 0xFF"
proof
  assume a: "rt_data key k (crc16_compute E (key @ le16 k)) = replicate 64 0xFF"
  have b: "key @ le16 k = replicate 50 0xFF \<and> le16 (crc16_compute E (key @ le16 k)) = replicate 2 0xFF"
    by (rule erased_split50 [OF a [unfolded rt_data_def]]) (simp_all add: assms(2))
  have "le16 (crc16_compute E (replicate 50 0xFF)) = replicate 2 0xFF"
    using b [THEN conjunct2] unfolding b [THEN conjunct1] .
  moreover have "replicate 2 (0xFF :: u8) = [0xFF, 0xFF]" by (simp add: eval_nat_numeral)
  moreover have "rd16 [0xFF, 0xFF] 0 = 0xFFFF" by (simp add: rd16_def)
  ultimately have "crc16_compute E (replicate 50 0xFF) = 0xFFFF"
    using rd16_le16 [of "[]" "crc16_compute E (replicate 50 0xFF)" "[]"] by (metis append.right_neutral append_Nil list.size(3))
  with assms show False by (simp add: rom_ok_def)
qed

section \<open>The block\<close>

text \<open>\<open>n\<close> is the number of bytes of the key that count.\<close>

definition key_ok :: "'d rom_env \<Rightarrow> nat \<Rightarrow> u8 list \<Rightarrow> nat \<Rightarrow> nat \<Rightarrow> u8 list \<Rightarrow> u16 \<Rightarrow> bool" where
  "key_ok E n m base addr key k \<longleftrightarrow>
     addr = 0 \<and> key = replicate n 0xFF \<and> k = 0 \<and> (\<forall>i < 64. free_at m (base + 64 * i)) \<or>
     (\<exists>b stored. addr = base + 64 * b \<and> b < 64 \<and> (\<forall>i < b. free_at m (base + 64 * i)) \<and>
        key_at E m (base + 64 * b) stored k \<and> take n stored = key)"

lemma key_frame:
  assumes "changes_only b n m m'" "base + 4096 \<le> length m" "base + 4096 \<le> b \<or> b + n \<le> base" "key_ok E l m base addr key k"
  shows "key_ok E l m' base addr key k"
proof -
  have s: "slice (base + 64 * i) 64 m' = slice (base + 64 * i) 64 m" if "i < 64" for i
    using that assms(2,3) by (intro slice_unchanged [OF assms(1)]) auto
  have f: "free_at m' (base + 64 * i) = free_at m (base + 64 * i)" if "i < 64" for i
    using s [OF that] by (simp add: free_at_def)
  have k: "key_at E m' (base + 64 * i) key k = key_at E m (base + 64 * i) key k" if "i < 64" for i key k
    using s [OF that] by (simp add: key_at_def)
  from assms(4) [unfolded key_ok_def] show ?thesis
  proof (elim disjE exE conjE)
    assume "addr = 0" "key = replicate l 0xFF" "k = 0" "\<forall>i < 64. free_at m (base + 64 * i)"
    then show ?thesis using f by (simp add: key_ok_def)
  next
    fix b stored assume "addr = base + 64 * b" "b < 64" "\<forall>i < b. free_at m (base + 64 * i)"
      "key_at E m (base + 64 * b) stored k" "take l stored = key"
    then show ?thesis
      unfolding key_ok_def using f k [of b] by (intro disjI2 exI [of _ b] exI [of _ stored]) simp
  qed
qed

lemma free_erased:
  assumes "B + 4096 \<le> length m" "i < 64"
  shows "free_at (put B (replicate 4096 0xFF) m) (B + 64 * i)"
  unfolding free_at_def using assms by (intro nth_equalityI) (auto simp: nth_slice nth_put)

text \<open>A key written below free slots.\<close>

lemma key_written:
  assumes "rom_ok E c" "base + 4096 \<le> length (c d)" "\<forall>i < b. free_at (c d) (base + 64 * i)" "0 < b" "b \<le> 64" "length key = 48" "take n key = short"
  shows "key_ok E n (c (rt_write E (base + 64 * (b - 1)) key k d)) base (base + 64 * (b - 1)) short k \<and>
    changes_only base 4096 (c d) (c (rt_write E (base + 64 * (b - 1)) key k d))"
proof -
  let ?x = "rt_data key k (crc16_compute E (key @ le16 k))"
  let ?a = "base + 64 * (b - 1)"
  have l: "length ?x = 64" using rt_data_fields(1) [OF assms(6)] .
  have "slice ?a (length ?x) (c d) = replicate (length ?x) 0xFF" using assms(3-5) l by (simp add: free_at_def)
  then have m: "c (rt_write E ?a key k d) = put ?a ?x (c d)"
    using rom_write [OF assms(1), of ?a ?x d] assms(2,5,6) l by (simp add: rt_write_def RPMC_ROM_RK_DATA_SIZE_def Let_def)
  have "free_at (put ?a ?x (c d)) (base + 64 * i)" if "i < b - 1" for i
    unfolding free_at_def using that assms(2,3,5) l slice_put_other [of ?a ?x "c d" "base + 64 * i" 64] by (auto simp: free_at_def)
  moreover have "slice ?a 64 (put ?a ?x (c d)) = ?x" using assms(2,5) l by (intro slice_put) auto
  ultimately have "key_ok E n (put ?a ?x (c d)) base ?a short k"
    unfolding key_ok_def key_at_def using assms(4-7) by (intro disjI2 exI [of _ "b - 1"] exI [of _ key]) auto
  moreover have "changes_only base 4096 (c d) (put ?a ?x (c d))" using assms(2,5) l by (intro changes_put) auto
  ultimately show ?thesis unfolding m by blast
qed

lemma key_program:
  assumes ok: "rom_ok E c" and inv: "key_ok E n (c d) base addr key k" and rng: "base + 4096 \<le> length (c d)" "base \<noteq> 0"
    and l: "length new = 48" "take n new = short" and p: "rt_program E base addr new k d = (rc, addr', k', d')"
  shows "key_ok E n (c d') base addr' short k' \<and> changes_only base 4096 (c d) (c d')"
proof -
  have k': "k' = k + 1" using p l by (auto simp: rt_program_def RPMC_ROM_RK_DATA_SIZE_def Let_def split: prod.splits)
  consider (none) "addr = 0" "\<forall>i < 64. free_at (c d) (base + 64 * i)"
    | (low) "addr = base" | (some) b where "addr = base + 64 * b" "0 < b" "b < 64" "\<forall>i < b. free_at (c d) (base + 64 * i)"
    using inv unfolding key_ok_def by (metis add.right_neutral gr0I mult_0_right)
  then show ?thesis
  proof cases
    case none
    have "addr' = base + 64 * (64 - 1)" "d' = rt_write E (base + 64 * (64 - 1)) new k' d"
      using p none(1) l by (auto simp: rt_program_def RPMC_ROM_RK_DATA_SIZE_def RPMC_ROM_BLOCK_SIZE_def Let_def add.commute)
    then show ?thesis using key_written [OF ok rng(1) none(2) _ _ l, of k'] by simp
  next
    case low
    let ?d = "rom_erase_helper E base d"
    have a: "addr' = base + 64 * (64 - 1)" "d' = rt_write E (base + 64 * (64 - 1)) new k' ?d"
      using p low l rng(2) by (auto simp: rt_program_def RPMC_ROM_RK_DATA_SIZE_def RPMC_ROM_BLOCK_SIZE_def Let_def add.commute)
    have m: "c ?d = put base (replicate 4096 0xFF) (c d)" using rom_erase [OF ok, of base d] rng(1) by (simp add: RPMC_ROM_BLOCK_SIZE_def)
    have ch: "changes_only base 4096 (c d) (c ?d)" unfolding m using rng(1) by (intro changes_put) auto
    have "\<forall>i < 64. free_at (c ?d) (base + 64 * i)" unfolding m using free_erased [OF rng(1)] by blast
    then show ?thesis using key_written [OF ok _ _ _ _ l, of base ?d 64 k'] rng(1) changes_length [OF ch] changes_trans [OF ch]
      unfolding a by (metis less_imp_le_nat order_refl zero_less_numeral)
  next
    case (some b)
    have "addr' = base + 64 * (b - 1)" "d' = rt_write E (base + 64 * (b - 1)) new k' d"
      using p some l rng(2) by (auto simp: rt_program_def RPMC_ROM_RK_DATA_SIZE_def Let_def diff_mult_distrib2)
    then show ?thesis using key_written [OF ok rng(1) some(4,2) _ l, of k'] some(3) by simp
  qed
qed

text \<open>A restart finds the key.\<close>

lemma rt_scan_free:
  assumes "rom_ok E c" "\<forall>a \<in> set as. a + 64 \<le> length (c d) \<and> free_at (c d) a"
  shows "rt_scan E d (as @ bs) S = rt_scan E d bs S"
  using assms(2)
proof (induction as)
  case (Cons a as)
  then have "rom_read_helper E a RPMC_ROM_ACCESS_SIZE d = replicate 64 0xFF"
    using rom_read [OF assms(1), of a 64 d] by (simp add: free_at_def RPMC_ROM_ACCESS_SIZE_def)
  then show ?case using Cons data_empty_iff [of "replicate 64 0xFF"] by (cases S) (simp add: Let_def)
qed simp

lemma key_start:
  assumes "rom_ok E c" "key_ok E n (c d) base addr key k" "base + 4096 \<le> length (c d)" "base \<noteq> 0" "n \<le> 48"
  shows "\<exists>full. rt_init E base d = ((full, k, addr), d) \<and> length full = 48 \<and> take n full = key"
proof -
  let ?as = "\<lambda>l u. map (\<lambda>i. base + 64 * i) [l..<u]"
  have r: "rt_init E base d = (let (broken, fa, fc, fv) = rt_scan E d (?as 0 64) (False, 0, 0, replicate 48 0);
          (fa1, d1) = (if broken then (0, rom_erase_helper E base d) else (fa, d))
      in if fa1 = 0 then ((replicate 48 0xFF, 0, 0), d1) else ((fv, fc, fa1), d1))"
    by (simp only: rt_init_def RPMC_ROM_ACCESS_SIZE_def RPMC_ROM_RK_DATA_SIZE_def)
  from assms(2) [unfolded key_ok_def] show ?thesis
  proof (elim disjE exE conjE)
    assume a: "addr = 0" "key = replicate n 0xFF" "k = 0" "\<forall>i < 64. free_at (c d) (base + 64 * i)"
    then have "rt_scan E d (?as 0 64 @ []) S = rt_scan E d [] S" for S using assms(3) by (intro rt_scan_free [OF assms(1)]) auto
    then show ?thesis using a assms(5) by (simp add: r min_def)
  next
    fix b stored assume a: "addr = base + 64 * b" "b < 64" "\<forall>i < b. free_at (c d) (base + 64 * i)"
      "key_at E (c d) (base + 64 * b) stored k" "take n stored = key"
    let ?x = "rt_data stored k (crc16_compute E (stored @ le16 k))"
    have sp: "?as 0 64 = ?as 0 b @ (base + 64 * b) # ?as (Suc b) 64"
      using a(2) upt_add_eq_append [of 0 b "64 - b"] by (simp add: upt_conv_Cons)
    have st: "rt_scan E d (?as 0 64) S = rt_scan E d ((base + 64 * b) # ?as (Suc b) 64) S" for S
      unfolding sp using a(2,3) assms(3) by (intro rt_scan_free [OF assms(1)]) auto
    have l: "length stored = 48" using a(4) by (simp add: key_at_def)
    have rd: "rom_read_helper E (base + 64 * b) RPMC_ROM_ACCESS_SIZE d = ?x"
      using rom_read [OF assms(1), of "base + 64 * b" 64 d] a(2,4) assms(3) by (simp add: key_at_def RPMC_ROM_ACCESS_SIZE_def)
    have "\<not> data_empty ?x False"
      using data_empty_iff [of ?x] rt_data_fields(1) [OF l] rt_data_used [OF assms(1) l] by (metis length_0_conv zero_neq_numeral)
    then have "rt_scan E d ((base + 64 * b) # ?as (Suc b) 64) (False, 0, 0, z) = (False, base + 64 * b, k, stored)" for z
      using rt_data_fields [OF l] l by (simp add: rd rt_check_def RPMC_ROM_RK_DATA_SIZE_def Let_def)
    then show ?thesis using a(1,5) l assms(4) by (simp add: r st)
  qed
qed

end
