(* ===== verification/Rpmc_rom_Dev.thy ===== *)
theory Rpmc_rom_Dev
  imports Rpmc_rom_Key
begin

text \<open>
  The storage as a whole: its parts do not overlap, a restart loads what is stored, and a new device is
  set up with all counters at 0 and no keys.
\<close>

section \<open>The parts of the storage\<close>

named_theorems layout \<comment> \<open>the addresses as numbers\<close>

lemmas [layout] = RPMC_ROM_RT_INST_ADDR_def RPMC_ROM_MC_INST_ADDR_def RPMC_ROM_COUNTER_ADDR_def RPMC_ROM_ROOT_KEY_ADDR_def
  RPMC_ROM_ROOT_KEY_SIZE_def RPMC_ROM_COUNTER_SIZE_def RPMC_ROM_PARAM_ADDR_def RPMC_ROM_BLOCK_SIZE_def RPMC_ROM_MC_NUM_def
  RPMC_ROM_MC_BLOCK_NUM_def

definition RPMC_ROM_END :: nat where "RPMC_ROM_END = RPMC_ROM_COUNTER_ADDR + RPMC_ROM_COUNTER_SIZE"

abbreviation mc_base :: "nat \<Rightarrow> nat" where "mc_base \<equiv> RPMC_ROM_MC_INST_ADDR"
abbreviation rt_base :: "nat \<Rightarrow> nat" where "rt_base \<equiv> RPMC_ROM_RT_INST_ADDR"

lemma mc_base_facts:
  "i < 8 \<Longrightarrow> mc_base i + 8192 \<le> RPMC_ROM_END" "mc_base i \<noteq> 0" "mc_base i mod 4096 = 0"
  "i \<noteq> j \<Longrightarrow> mc_base i + 8192 \<le> mc_base j \<or> mc_base j + 8192 \<le> mc_base i"
proof -
  have b: "mc_base i = 4096 * (2 * i + 137)" for i by (simp add: layout)
  show "i < 8 \<Longrightarrow> mc_base i + 8192 \<le> RPMC_ROM_END" "mc_base i \<noteq> 0" by (simp_all add: RPMC_ROM_END_def layout)
  show "mc_base i mod 4096 = 0" unfolding b by simp
  assume "i \<noteq> j"
  then consider "i + 1 \<le> j" | "j + 1 \<le> i" by linarith
  then show "mc_base i + 8192 \<le> mc_base j \<or> mc_base j + 8192 \<le> mc_base i" by cases (simp_all add: b)
qed

lemma rt_base_facts:
  "i < 8 \<Longrightarrow> rt_base i + 4096 \<le> RPMC_ROM_END" "rt_base i \<noteq> 0"
  "i \<noteq> j \<Longrightarrow> rt_base i + 4096 \<le> rt_base j \<or> rt_base j + 4096 \<le> rt_base i"
  "i < 8 \<Longrightarrow> rt_base i + 4096 \<le> mc_base j" "RPMC_ROM_PARAM_ADDR + 32 \<le> rt_base i" "RPMC_ROM_PARAM_ADDR + 32 \<le> mc_base i"
  by (auto simp: RPMC_ROM_END_def layout)

definition param_ok :: "'d rom_env \<Rightarrow> u8 list \<Rightarrow> bool" where
  "param_ok E m \<longleftrightarrow> take 16 (slice RPMC_ROM_PARAM_ADDR 32 m) = spi_rom_unique_id_read E \<and>
     rd16 (slice RPMC_ROM_PARAM_ADDR 32 m) 28 = RPMC_ROM_VERSION"

lemma param_frame:
  "changes_only b n m m' \<Longrightarrow> RPMC_ROM_PARAM_ADDR + 32 \<le> b \<Longrightarrow> RPMC_ROM_PARAM_ADDR + 32 \<le> length m \<Longrightarrow> param_ok E m' = param_ok E m"
  using slice_unchanged [of b n m m' RPMC_ROM_PARAM_ADDR 32] by (simp add: param_ok_def)

text \<open>
  The invariants. \<open>stored\<close>: what the flash alone holds, with counters \<open>ct\<close> and keys \<open>ks\<close> of \<open>n\<close>
  bytes; \<open>loaded\<close>: the context agrees with it.
\<close>

definition stored :: "'d rom_env \<Rightarrow> nat \<Rightarrow> (nat \<Rightarrow> u32) \<Rightarrow> (nat \<Rightarrow> u8 list) \<Rightarrow> u8 list \<Rightarrow> bool" where
  "stored E n ct ks m \<longleftrightarrow> RPMC_ROM_END \<le> length m \<and> param_ok E m \<and>
     (\<forall>i < 8. ctr_boot E m (mc_base i) (ct i) \<and> (\<exists>a k. key_ok E n m (rt_base i) a (ks i) k))"

definition inst_ok :: "'d rom_env \<Rightarrow> nat \<Rightarrow> u8 list \<Rightarrow> nat \<Rightarrow> u32 \<Rightarrow> u8 list \<Rightarrow> spi_rom_data \<Rightarrow> nat \<Rightarrow> bool" where
  "inst_ok E n m i v key p pend \<longleftrightarrow> inited p \<and> u32_ct p = v \<and> length (rootk p) = 48 \<and> take n (rootk p) = key \<and>
     ctr_ok E m (mc_base i) (ct_addr p) v (ct_cycle p) pend \<and> key_ok E n m (rt_base i) (rt_addr p) key (rt_cycle p)"

definition loaded :: "'d rom_env \<Rightarrow> ('d \<Rightarrow> u8 list) \<Rightarrow> nat \<Rightarrow> (nat \<Rightarrow> u32) \<Rightarrow> (nat \<Rightarrow> u8 list) \<Rightarrow> 'd rom_ctx \<Rightarrow> bool" where
  "loaded E c n ct ks s \<longleftrightarrow> RPMC_ROM_END \<le> length (c (dev s)) \<and> param_ok E (c (dev s)) \<and> length (rom_data s) = 8 \<and>
     length (erase_addr s) = 8 \<and>
     (\<forall>i < 8. inst_ok E n (c (dev s)) i (ct i) (ks i) (rom_data s ! i) (erase_addr s ! i))"

lemma loaded_stored: "loaded E c n ct ks s \<Longrightarrow> stored E n ct ks (c (dev s))"
  unfolding loaded_def stored_def inst_ok_def ctr_boot_def by blast

lemma inst_frame:
  assumes "changes_only b l m m'" "RPMC_ROM_END \<le> length m" "i < 8" "inst_ok E n m i v key p pend"
    "mc_base i + 8192 \<le> b \<or> b + l \<le> mc_base i" "rt_base i + 4096 \<le> b \<or> b + l \<le> rt_base i"
  shows "inst_ok E n m' i v key p pend"
  using assms ctr_frame [OF assms(1) _ assms(5)] key_frame [OF assms(1) _ assms(6)] mc_base_facts(1) [OF assms(3)]
    rt_base_facts(1) [OF assms(3)] unfolding inst_ok_def by (meson le_trans)

text \<open>A change inside the parts of one instance leaves the others.\<close>

lemma others_frame:
  assumes "changes_only (mc_base i) 8192 m m' \<or> changes_only (rt_base i) 4096 m m'" "RPMC_ROM_END \<le> length m" "i < 8"
  shows "length m' = length m" "param_ok E m' = param_ok E m"
    "j < 8 \<Longrightarrow> j \<noteq> i \<Longrightarrow> inst_ok E n m j v key p pend \<Longrightarrow> inst_ok E n m' j v key p pend"
    "j < 8 \<Longrightarrow> j \<noteq> i \<Longrightarrow> ctr_boot E m (mc_base j) v \<Longrightarrow> ctr_boot E m' (mc_base j) v"
    "j < 8 \<Longrightarrow> j \<noteq> i \<Longrightarrow> key_ok E n m (rt_base j) a key k \<Longrightarrow> key_ok E n m' (rt_base j) a key k"
    "changes_only (mc_base i) 8192 m m' \<Longrightarrow> j < 8 \<Longrightarrow> key_ok E n m (rt_base j) a key k \<Longrightarrow> key_ok E n m' (rt_base j) a key k"
    "changes_only (rt_base i) 4096 m m' \<Longrightarrow> j < 8 \<Longrightarrow> ctr_ok E m (mc_base j) b v u pend \<Longrightarrow> ctr_ok E m' (mc_base j) b v u pend"
    "changes_only (rt_base i) 4096 m m' \<Longrightarrow> j < 8 \<Longrightarrow> ctr_boot E m (mc_base j) v \<Longrightarrow> ctr_boot E m' (mc_base j) v"
proof -
  obtain b l where ch: "changes_only b l m m'" and bl: "b = mc_base i \<and> l = 8192 \<or> b = rt_base i \<and> l = 4096"
    using assms(1) by blast
  show "length m' = length m" using ch by (rule changes_length)
  have "RPMC_ROM_PARAM_ADDR + 32 \<le> length m" using assms(2,3) rt_base_facts(5) [of i] rt_base_facts(1) [OF assms(3)] by linarith
  then show "param_ok E m' = param_ok E m" using param_frame [OF ch] bl rt_base_facts(5,6) by metis
  have d: "mc_base j + 8192 \<le> b \<or> b + l \<le> mc_base j" "rt_base j + 4096 \<le> b \<or> b + l \<le> rt_base j" if "j < 8" "j \<noteq> i" for j
    using bl that mc_base_facts(4) rt_base_facts(3,4) assms(3) by metis+
  have r: "mc_base j + 8192 \<le> length m" "rt_base j + 4096 \<le> length m" if "j < 8" for j
    using mc_base_facts(1) [OF that] rt_base_facts(1) [OF that] assms(2) by linarith+
  show "j < 8 \<Longrightarrow> j \<noteq> i \<Longrightarrow> inst_ok E n m j v key p pend \<Longrightarrow> inst_ok E n m' j v key p pend"
    using inst_frame [OF ch assms(2)] d by blast
  show "j < 8 \<Longrightarrow> j \<noteq> i \<Longrightarrow> ctr_boot E m (mc_base j) v \<Longrightarrow> ctr_boot E m' (mc_base j) v"
    using ctr_boot_frame [OF ch] d r by blast
  show "j < 8 \<Longrightarrow> j \<noteq> i \<Longrightarrow> key_ok E n m (rt_base j) a key k \<Longrightarrow> key_ok E n m' (rt_base j) a key k"
    using key_frame [OF ch] d r by blast
  show "changes_only (mc_base i) 8192 m m' \<Longrightarrow> j < 8 \<Longrightarrow> key_ok E n m (rt_base j) a key k \<Longrightarrow> key_ok E n m' (rt_base j) a key k"
    using key_frame [of "mc_base i" 8192 m m' "rt_base j"] r rt_base_facts(4) by blast
  have k: "mc_base j + 8192 \<le> rt_base i \<or> rt_base i + 4096 \<le> mc_base j" using rt_base_facts(4) [OF assms(3)] by blast
  show "changes_only (rt_base i) 4096 m m' \<Longrightarrow> j < 8 \<Longrightarrow> ctr_ok E m (mc_base j) b v u pend \<Longrightarrow> ctr_ok E m' (mc_base j) b v u pend"
    for b using ctr_frame [of "rt_base i" 4096 m m' "mc_base j"] r k by blast
  show "changes_only (rt_base i) 4096 m m' \<Longrightarrow> j < 8 \<Longrightarrow> ctr_boot E m (mc_base j) v \<Longrightarrow> ctr_boot E m' (mc_base j) v"
    using ctr_boot_frame [of "rt_base i" 4096 m m' "mc_base j"] r k by blast
qed

section \<open>A restart\<close>

lemma uid_length: "length (spi_rom_unique_id_read E) = 16"
  by (simp add: spi_rom_unique_id_read_def RPMC_ROM_UNIQUE_ID_SIZE_def Let_def split: prod.splits)

lemma param_init_ok:
  assumes "rom_ok E c" "param_ok E (c d)" "RPMC_ROM_END \<le> length (c d)"
  shows "param_init E i (spi_rom_unique_id_read E) RPMC_ROM_VERSION d = d"
proof -
  have l: "RPMC_ROM_PARAM_ADDR + 32 \<le> length (c d)" using assms(3) by (simp add: RPMC_ROM_END_def layout)
  then show ?thesis using assms(2) rom_read [OF assms(1) l]
    by (simp add: param_init_def param_ok_def data_match_def RPMC_ROM_VERSION_def uid_length Let_def)
qed

text \<open>The first \<open>l\<close> instances are initialised, the flash holds what it held.\<close>

definition part_loaded :: "'d rom_env \<Rightarrow> ('d \<Rightarrow> u8 list) \<Rightarrow> nat \<Rightarrow> (nat \<Rightarrow> u32) \<Rightarrow> (nat \<Rightarrow> u8 list) \<Rightarrow> nat \<Rightarrow> 'd rom_ctx \<Rightarrow> bool" where
  "part_loaded E c n ct ks l s \<longleftrightarrow> stored E n ct ks (c (dev s)) \<and> length (rom_data s) = 8 \<and> erase_addr s = replicate 8 0 \<and>
     (\<forall>i < l. inst_ok E n (c (dev s)) i (ct i) (ks i) (rom_data s ! i) 0) \<and>
     (\<forall>i. l \<le> i \<and> i < 8 \<longrightarrow> \<not> inited (rom_data s ! i))"

lemma init_instance_ok:
  assumes ok: "rom_ok E c" and inv: "part_loaded E c n ct ks i s" and i: "i < 8" and n: "n \<le> 48"
  shows "part_loaded E c n ct ks (Suc i) (init_instance E i s)"
proof -
  let ?m = "c (dev s)"
  have st: "RPMC_ROM_END \<le> length ?m" "param_ok E ?m" "ctr_boot E ?m (mc_base i) (ct i)"
    using inv i by (auto simp: part_loaded_def stored_def)
  obtain ka kk where key: "key_ok E n ?m (rt_base i) ka (ks i) kk" using inv i by (auto simp: part_loaded_def stored_def)
  have r: "rt_base i + 4096 \<le> length ?m" "mc_base i + 8192 \<le> length ?m"
    using st(1) mc_base_facts(1) [OF i] rt_base_facts(1) [OF i] by linarith+
  obtain full where rt: "rt_init E (rt_base i) (dev s) = ((full, kk, ka), dev s)" "length full = 48" "take n full = ks i"
    using key_start [OF ok key r(1) rt_base_facts(2) n] by blast
  obtain addr k d' where mc: "mc_init E (mc_base i) (dev s) = ((ct i, k, addr), d')" "ctr_ok E (c d') (mc_base i) addr (ct i) k 0"
      "changes_only (mc_base i) 8192 ?m (c d')"
    using ctr_start [OF ok r(2) mc_base_facts(2) st(3)] .
  note f = others_frame [OF disjI1 [OF mc(3)] st(1) i]
  define p where "p = (rom_data s ! i)\<lparr>rootk := full, rt_addr := ka, rt_cycle := kk, u32_ct := ct i, ct_addr := addr, ct_cycle := k,
     unique_id := spi_rom_unique_id_read E, inited := True\<rparr>"
  have e: "init_instance E i s = s\<lparr>dev := d', rom_data := (rom_data s)[i := p]\<rparr>"
    using inv i param_init_ok [OF ok st(2,1)] rt(1) mc(1) by (simp add: init_instance_def part_loaded_def p_def Let_def)
  have b: "ctr_boot E (c d') (mc_base i) (ct i)" using mc(2) unfolding ctr_boot_def by blast
  have pi: "inst_ok E n (c d') i (ct i) (ks i) p 0" using mc(2) rt(2,3) f(6) [OF mc(3) i key] by (simp add: inst_ok_def p_def)
  have "stored E n ct ks (c d')"
    unfolding stored_def
  proof (intro conjI allI impI)
    show "RPMC_ROM_END \<le> length (c d')" "param_ok E (c d')" using st by (simp_all add: f(1,2))
    fix j :: nat assume j: "j < 8"
    show "ctr_boot E (c d') (mc_base j) (ct j)"
      using b f(4) [OF j] inv j by (cases "j = i") (auto simp: part_loaded_def stored_def)
    show "\<exists>a k. key_ok E n (c d') (rt_base j) a (ks j) k" using f(6) [OF mc(3) j] inv j unfolding part_loaded_def stored_def by blast
  qed
  moreover have "inst_ok E n (c d') j (ct j) (ks j) ((rom_data s)[i := p] ! j) 0" if "j < Suc i" for j
    using pi inv that i by (cases "j = i") (auto simp: part_loaded_def intro: f(3))
  ultimately show ?thesis using inv unfolding e by (simp add: part_loaded_def)
qed

lemma init_ok:
  assumes "rom_ok E c" "stored E n ct ks (c d)" "n \<le> 48" "intflash_ready E" "espi_ready E"
  shows "fst (rom_rpmc_data_init E 8 (power_up d)) = 0 \<and> loaded E c n ct ks (snd (rom_rpmc_data_init E 8 (power_up d)))"
proof -
  have "part_loaded E c n ct ks l (fold (init_instance E) [0..<l] (power_up d))" if "l \<le> 8" for l
    using that
  proof (induction l)
    case 0
    then show ?case using assms(2) by (simp add: part_loaded_def power_up_def RPMC_ROM_MC_NUM_def)
  next
    case (Suc l)
    then show ?case using init_instance_ok [OF assms(1) _ _ assms(3), of ct ks l] by simp
  qed
  from this [of 8] have "part_loaded E c n ct ks 8 (fold (init_instance E) [0..<8] (power_up d))" by simp
  then have "loaded E c n ct ks (fold (init_instance E) [0..<8] (power_up d))"
    by (auto simp: part_loaded_def loaded_def stored_def)
  then show ?thesis using assms(4,5) by (simp add: rom_rpmc_data_init_def RPMC_ROM_MC_NUM_def del: upt_rec_numeral)
qed

section \<open>A new device\<close>

lemma erase_all:
  assumes "rom_ok E c" "\<forall>a \<in> set as. a + 4096 \<le> length (c d)"
  shows "length (c (fold (rom_erase_helper E) as d)) = length (c d) \<and>
    (\<forall>p < length (c d). c (fold (rom_erase_helper E) as d) ! p = (if \<exists>a \<in> set as. a \<le> p \<and> p < a + 4096 then 0xFF else c d ! p))"
  using assms(2)
proof (induction as arbitrary: d)
  case (Cons a as)
  have "c (rom_erase_helper E a d) = put a (replicate 4096 0xFF) (c d)"
    using rom_erase [OF assms(1), of a d] Cons.prems by (simp add: RPMC_ROM_BLOCK_SIZE_def)
  then show ?case using Cons.IH [of "rom_erase_helper E a d"] Cons.prems by (auto simp: nth_put)
qed simp

lemma blocks_cover:
  assumes "addr \<le> p" "p < addr + 4096 * l"
  shows "\<exists>a \<in> set (blocks addr (4096 * l)). a \<le> p \<and> p < a + 4096"
proof -
  let ?k = "(p - addr) div 4096"
  have "?k < l" using assms by (simp add: less_mult_imp_div_less)
  moreover have "4096 * ?k \<le> p - addr" "p - addr < 4096 * ?k + 4096"
    using div_mult_mod_eq [of "p - addr" 4096] mod_less_divisor [of 4096 "p - addr"] by linarith+
  ultimately show ?thesis using assms(1) by (auto simp: blocks_def RPMC_ROM_BLOCK_SIZE_def intro!: bexI [of _ ?k])
qed

lemma new_image:
  assumes ok: "rom_ok E c" and new: "\<not> param_ok E (c d)" and rng: "RPMC_ROM_END \<le> length (c d)"
  defines "m \<equiv> c (param_init E 0 (spi_rom_unique_id_read E) RPMC_ROM_VERSION d)"
  shows "RPMC_ROM_END \<le> length m \<and> param_ok E m \<and>
    (\<forall>a k. RPMC_ROM_PARAM_ADDR + 32 \<le> a \<and> a + k \<le> RPMC_ROM_END \<longrightarrow> slice a k m = replicate k 0xFF)"
proof -
  let ?uid = "spi_rom_unique_id_read E"
  let ?P = RPMC_ROM_PARAM_ADDR
  define data2 where "data2 = (let data1 = wr16 28 RPMC_ROM_VERSION (put 0 ?uid (slice ?P 32 (c d))) in wr16 30 (crc16_compute E data1) data1)"
  define as where "as = ?P # blocks RPMC_ROM_ROOT_KEY_ADDR (4096 * 8) @ blocks RPMC_ROM_COUNTER_ADDR (4096 * 16)"
  define d1 where "d1 = fold (rom_erase_helper E) as d"
  have e: "?P + 32 \<le> length (c d)" "RPMC_ROM_END = 0x99000" "?P = 0x80000" using rng by (simp_all add: RPMC_ROM_END_def layout)
  have init: "param_init E 0 ?uid RPMC_ROM_VERSION d = rom_write_helper E ?P data2 d1"
    using new rom_read [OF ok e(1)] uid_length [of E]
    by (auto simp: param_init_def param_ok_def data_match_def data2_def d1_def as_def RPMC_ROM_VERSION_def Let_def
        RPMC_ROM_ROOT_KEY_SIZE_def RPMC_ROM_COUNTER_SIZE_def RPMC_ROM_BLOCK_SIZE_def RPMC_ROM_MC_NUM_def RPMC_ROM_MC_BLOCK_NUM_def)
  have "\<forall>a \<in> set as. a + 4096 \<le> length (c d)" using rng by (auto simp: as_def blocks_def RPMC_ROM_END_def layout)
  note er = erase_all [OF ok this, folded d1_def]
  have ff: "c d1 ! p = 0xFF" if "?P \<le> p" "p < RPMC_ROM_END" for p
  proof -
    have "\<exists>a \<in> set as. a \<le> p \<and> p < a + 4096"
    proof (cases "p < RPMC_ROM_ROOT_KEY_ADDR")
      case True
      then show ?thesis using that by (auto simp: as_def layout)
    next
      case False
      then show ?thesis
        using that blocks_cover [of RPMC_ROM_ROOT_KEY_ADDR p 8] blocks_cover [of RPMC_ROM_COUNTER_ADDR p 16]
        by (cases "p < RPMC_ROM_COUNTER_ADDR") (auto simp: as_def RPMC_ROM_END_def layout)
    qed
    then show ?thesis using er that rng by simp
  qed
  have l2: "length data2 = 32" using uid_length [of E] e(1) by (simp add: data2_def wr16_def Let_def)
  have "slice ?P (length data2) (c d1) = replicate (length data2) 0xFF"
    using ff er e rng l2 by (intro nth_equalityI) (auto simp: nth_slice)
  then have m: "c (rom_write_helper E ?P data2 d1) = put ?P data2 (c d1)" using rom_write [OF ok] er e l2 by simp
  let ?m = "put ?P data2 (c d1)"
  have len: "length ?m = length (c d)" using er e l2 by simp
  have erased: "slice a k ?m = replicate k 0xFF" if "?P + 32 \<le> a" "a + k \<le> RPMC_ROM_END" for a k
    using that ff er e l2 rng len by (intro nth_equalityI) (auto simp: nth_slice nth_put)
  have "slice ?P 32 ?m = data2" using er e l2 by (intro slice_put) auto
  moreover have "take 16 data2 = ?uid" using uid_length [of E] e(1) by (simp add: data2_def wr16_def put_def Let_def)
  moreover have "rd16 data2 28 = RPMC_ROM_VERSION"
    using rd16_le16 [of "[]" RPMC_ROM_VERSION "[]"] e(1) uid_length [of E] by (simp add: data2_def wr16_def rd16_def le16_def Let_def nth_list_update)
  ultimately have "param_ok E ?m" by (simp add: param_ok_def)
  then show ?thesis using rng len erased unfolding m_def init m by auto
qed

lemma new_device:
  assumes "rom_ok E c" "\<not> param_ok E (c d)" "RPMC_ROM_END \<le> length (c d)"
  defines "m \<equiv> c (param_init E 0 (spi_rom_unique_id_read E) RPMC_ROM_VERSION d)"
  shows "stored E n (\<lambda>_. 0) (\<lambda>_. replicate n 0xFF) m" "i < 8 \<Longrightarrow> empty_blk m (mc_base i) \<and> empty_blk m (mc_base i + 4096)"
    "i < 8 \<Longrightarrow> key_ok E n m (rt_base i) 0 (replicate n 0xFF) 0"
proof -
  note im = new_image [OF assms(1-3), folded m_def]
  have B: "empty_blk m B" if "RPMC_ROM_PARAM_ADDR + 32 \<le> B" "B + 4096 \<le> RPMC_ROM_END" for B
    using that im by (auto simp: empty_blk_def empty_at_def)
  show e: "empty_blk m (mc_base i) \<and> empty_blk m (mc_base i + 4096)" if "i < 8" for i
    using mc_base_facts(1) [OF that] rt_base_facts(6) [of i] by (auto intro!: B)
  show k: "key_ok E n m (rt_base i) 0 (replicate n 0xFF) 0" if "i < 8" for i
    using im rt_base_facts(1) [OF that] rt_base_facts(5) [of i] by (auto simp: key_ok_def free_at_def)
  have "ctr_boot E m (mc_base i) 0" if "i < 8" for i
    using ctr_none e [OF that] unfolding ctr_boot_def by blast
  then show "stored E n (\<lambda>_. 0) (\<lambda>_. replicate n 0xFF) m" using im k unfolding stored_def by blast
qed

lemma init_new:
  assumes "rom_ok E c" "\<not> param_ok E (c d)" "RPMC_ROM_END \<le> length (c d)" "intflash_ready E" "espi_ready E" "n \<le> 48"
  shows "loaded E c n (\<lambda>_. 0) (\<lambda>_. replicate n 0xFF) (snd (rom_rpmc_data_init E 8 (power_up d)))"
proof -
  let ?d = "param_init E 0 (spi_rom_unique_id_read E) RPMC_ROM_VERSION d"
  note st = new_device(1) [OF assms(1-3)]
  have "param_init E 0 (spi_rom_unique_id_read E) RPMC_ROM_VERSION ?d = ?d"
    using st by (intro param_init_ok [OF assms(1)]) (auto simp: stored_def)
  then have "init_instance E 0 (power_up d) = init_instance E 0 (power_up ?d)"
    by (simp add: init_instance_def power_up_def RPMC_ROM_MC_NUM_def Let_def split: prod.splits)
  then have "fold (init_instance E) (0 # [1..<8]) (power_up d) = fold (init_instance E) (0 # [1..<8]) (power_up ?d)"
    by (simp del: upt_rec_numeral)
  then have "rom_rpmc_data_init E 8 (power_up d) = (0, fold (init_instance E) [0..<8] (power_up ?d))"
    using assms(4,5) upt_conv_Cons [of 0 8] by (simp add: rom_rpmc_data_init_def RPMC_ROM_MC_NUM_def del: upt_rec_numeral)
  moreover have "rom_rpmc_data_init E 8 (power_up ?d) = (0, fold (init_instance E) [0..<8] (power_up ?d))"
    using assms(4,5) by (simp add: rom_rpmc_data_init_def RPMC_ROM_MC_NUM_def del: upt_rec_numeral)
  ultimately show ?thesis using init_ok [OF assms(1) st assms(6,4,5)] by simp
qed

lemma init_other:
  "j \<noteq> i \<Longrightarrow> rom_data (init_instance E i s) ! j = rom_data s ! j" "erase_addr (init_instance E i s) = erase_addr s"
  by (simp_all add: init_instance_def Let_def split: prod.splits)

text \<open>The first counter of a new device has no slot yet.\<close>

lemma new_first:
  assumes "rom_ok E c" "\<not> param_ok E (c d)" "RPMC_ROM_END \<le> length (c d)" "intflash_ready E" "espi_ready E"
  defines "s \<equiv> snd (rom_rpmc_data_init E 8 (power_up d))"
  shows "ct_addr (rom_data s ! 0) = 0 \<and> erase_addr s ! 0 = 0"
proof -
  let ?d = "param_init E 0 (spi_rom_unique_id_read E) RPMC_ROM_VERSION d"
  note nd = new_device [OF assms(1-3)]
  have "RPMC_ROM_END \<le> length (c ?d)" using new_image [OF assms(1-3)] by blast
  then have r: "rt_base 0 + 4096 \<le> length (c ?d)" "mc_base 0 + 8192 \<le> length (c ?d)"
    using mc_base_facts(1) [of 0] rt_base_facts(1) [of 0] by linarith+
  obtain full k where "rt_init E (rt_base 0) ?d = ((full, k, 0), ?d)"
    using key_start [OF assms(1) nd(3) r(1) rt_base_facts(2)] by fastforce
  moreover have "mc_init E (mc_base 0) ?d = ((0, 0, 0), ?d)" using start_none [OF assms(1) r(2)] nd(2) [of 0] by simp
  ultimately have f: "ct_addr (rom_data (init_instance E 0 (power_up d)) ! 0) = 0 \<and> erase_addr (init_instance E 0 (power_up d)) = replicate 8 0"
    by (simp add: init_instance_def power_up_def RPMC_ROM_MC_NUM_def Let_def)
  have o: "rom_data (fold (init_instance E) as t) ! 0 = rom_data t ! 0 \<and> erase_addr (fold (init_instance E) as t) = erase_addr t"
    if "0 \<notin> set as" for as t
    using that by (induction as arbitrary: t) (auto simp: init_other)
  have "s = fold (init_instance E) [1..<8] (init_instance E 0 (power_up d))"
    using assms(4,5) upt_conv_Cons [of 0 8] by (simp add: s_def rom_rpmc_data_init_def RPMC_ROM_MC_NUM_def del: upt_rec_numeral)
  then show ?thesis using f o [of "[1..<8]" "init_instance E 0 (power_up d)"] by (simp del: upt_rec_numeral)
qed

end
