(* ===== verification/Rpmc_rom_Props.thy ===== *)
theory Rpmc_rom_Props
  imports Rpmc_rom_Dev
begin

text \<open>
  Histories of counter and key writes, postponed erases, restarts and power losses: every counter and root
  key reads back as it was last written, except in the one case in which a power loss takes a counter
  back to 0.
\<close>

section \<open>The operations keep the invariant\<close>

lemma le32_inject: "le32 a = le32 b \<longleftrightarrow> a = b"
  by (metis rd32_le32)

lemma rd32_le32_0 [simp]: "rd32 (le32 v) 0 = v"
  using rd32_le32 [of v "[]"] by simp

lemma mc_write_access:
  assumes "inited (rom_data s ! unat inst)" "unat inst < 8" "v \<noteq> u32_ct (rom_data s ! unat inst)"
    "mc_program E (unat inst) (mc_base (unat inst)) (ct_addr (rom_data s ! unat inst)) v (ct_cycle (rom_data s ! unat inst)) s = (a, k, s1)"
  shows "rom_rpmc_mc_access E inst (Some (le32 v)) False RPMC_ROM_BUS_SPI s =
    (0, Some (le32 v), s1\<lparr>rom_data := (rom_data s1)[unat inst := (rom_data s ! unat inst)\<lparr>ct_addr := a, ct_cycle := k, u32_ct := v\<rparr>]\<rparr>)"
  using assms
  by (simp add: rom_rpmc_mc_access_def RPMC_ROM_MC_NUM_def RPMC_ROM_MC_DATA_SIZE_def RPMC_ROM_BUS_SPI_def RPMC_ROM_BUS_CACHE_def
      data_match_def le32_inject Let_def)

lemma mc_write_same:
  assumes "inited (rom_data s ! unat inst)" "unat inst < 8"
  shows "rom_rpmc_mc_access E inst (Some (le32 (u32_ct (rom_data s ! unat inst)))) False RPMC_ROM_BUS_SPI s =
    (0, Some (le32 (u32_ct (rom_data s ! unat inst))), s)"
  using assms
  by (simp add: rom_rpmc_mc_access_def RPMC_ROM_MC_NUM_def RPMC_ROM_MC_DATA_SIZE_def RPMC_ROM_BUS_SPI_def RPMC_ROM_BUS_CACHE_def
      data_match_def Let_def)

lemma loaded_inst:
  assumes "loaded E c n ct ks s" "i < 8"
  shows "inst_ok E n (c (dev s)) i (ct i) (ks i) (rom_data s ! i) (erase_addr s ! i)" "inited (rom_data s ! i)"
    "u32_ct (rom_data s ! i) = ct i" "mc_base i + 8192 \<le> length (c (dev s))" "rt_base i + 4096 \<le> length (c (dev s))"
    "length (erase_addr s) = 8" "length (rom_data s) = 8" "RPMC_ROM_END \<le> length (c (dev s))"
  using assms mc_base_facts(1) [OF assms(2)] rt_base_facts(1) [OF assms(2)] by (auto simp: loaded_def inst_ok_def)

lemma count_ok:
  assumes ok: "rom_ok E c" and inv: "loaded E c n ct ks s" and i: "unat inst < 8" and v: "ct (unat inst) \<le> v \<or> v = 0"
  shows "loaded E c n (ct(unat inst := v)) ks (snd (snd (rom_rpmc_mc_access E inst (Some (le32 v)) False RPMC_ROM_BUS_SPI s)))"
proof (cases "v = ct (unat inst)")
  case True
  then show ?thesis using mc_write_same [of s inst E] loaded_inst(2,3) [OF inv i] inv i by (simp add: fun_upd_idem)
next
  case False
  let ?i = "unat inst"
  let ?p = "rom_data s ! ?i"
  note l = loaded_inst [OF inv i]
  obtain a k s1 where p: "mc_program E ?i (mc_base ?i) (ct_addr ?p) v (ct_cycle ?p) s = (a, k, s1)" by (rule prod_cases3)
  have c: "ctr_ok E (c (dev s)) (mc_base ?i) (ct_addr ?p) (ct ?i) (ct_cycle ?p) (erase_addr s ! ?i)" using l(1) by (simp add: inst_ok_def)
  have "ct ?i < v \<or> v = 0" using v False by auto
  note program_ok [OF ok c l(4) mc_base_facts(2) _ this p]
  with l(6) i
  have o: "ctr_ok E (c (dev s1)) (mc_base ?i) a v k (erase_addr s1 ! ?i)" "changes_only (mc_base ?i) 8192 (c (dev s)) (c (dev s1))"
      "only_inst ?i s s1" by simp_all
  note f = others_frame [OF disjI1 [OF o(2)] l(8) i]
  let ?p' = "?p\<lparr>ct_addr := a, ct_cycle := k, u32_ct := v\<rparr>"
  have key: "key_ok E n (c (dev s)) (rt_base ?i) (rt_addr ?p) (ks ?i) (rt_cycle ?p)" using l(1) by (simp add: inst_ok_def)
  have "inst_ok E n (c (dev s1)) ?i v (ks ?i) ?p' (erase_addr s1 ! ?i)"
    using l(1) o(1) f(6) [OF o(2) i key] by (simp add: inst_ok_def)
  moreover have "inst_ok E n (c (dev s1)) j (ct j) (ks j) (rom_data s ! j) (erase_addr s1 ! j)" if "j < 8" "j \<noteq> ?i" for j
    using f(3) [OF that loaded_inst(1) [OF inv that(1)]] o(3) that by (simp add: only_inst_def)
  ultimately have "loaded E c n (ct(?i := v)) ks (s1\<lparr>rom_data := (rom_data s1)[?i := ?p']\<rparr>)"
    using inv l i o(3) unfolding loaded_def by (simp add: f(1,2) only_inst_def nth_list_update)
  then show ?thesis using mc_write_access [OF l(2) i _ p] False l(3) by simp
qed

lemma key_ok_write:
  assumes ok: "rom_ok E c" and inv: "loaded E c n ct ks s" and i: "unat inst < 8" and key: "length key = n" "n \<le> 48"
  shows "loaded E c n ct (ks(unat inst := key)) (snd (snd (rom_rpmc_rt_access E inst (Some key) False RPMC_ROM_BUS_SPI s)))"
proof -
  let ?i = "unat inst"
  let ?p = "rom_data s ! ?i"
  let ?new = "put 0 key (replicate 48 0xFF)"
  note l = loaded_inst [OF inv i]
  have p: "length (rootk ?p) = 48" "take n (rootk ?p) = ks ?i"
      "key_ok E n (c (dev s)) (rt_base ?i) (rt_addr ?p) (ks ?i) (rt_cycle ?p)" using l(1) by (simp_all add: inst_ok_def)
  obtain rc a k d where rp: "rt_program E (rt_base ?i) (rt_addr ?p) ?new (rt_cycle ?p) (dev s) = (rc, a, k, d)" by (rule prod_cases4)
  have acc: "snd (snd (rom_rpmc_rt_access E inst (Some key) False RPMC_ROM_BUS_SPI s)) =
      (if key = ks ?i then s else s\<lparr>dev := d, rom_data := (rom_data s)[?i := ?p\<lparr>rt_addr := a, rt_cycle := k, rootk := put 0 key (rootk ?p)\<rparr>]\<rparr>)"
    using i l(2) key p(1,2) rp
    by (auto simp: rom_rpmc_rt_access_def RPMC_ROM_MC_NUM_def RPMC_ROM_RK_DATA_SIZE_def RPMC_ROM_BUS_SPI_def RPMC_ROM_BUS_CACHE_def
        data_match_def Let_def)
  show ?thesis
  proof (cases "key = ks ?i")
    case True
    then show ?thesis unfolding acc using inv by (simp add: fun_upd_idem)
  next
    case False
    have new: "length ?new = 48" "take n ?new = key" using key by (simp_all add: put_def)
    note w = key_program [OF ok p(3) l(5) rt_base_facts(2) new rp]
    note f = others_frame [OF disjI2 [OF w [THEN conjunct2]] l(8) i]
    let ?p' = "?p\<lparr>rt_addr := a, rt_cycle := k, rootk := put 0 key (rootk ?p)\<rparr>"
    have ctr: "ctr_ok E (c (dev s)) (mc_base ?i) (ct_addr ?p) (ct ?i) (ct_cycle ?p) (erase_addr s ! ?i)" using l(1) by (simp add: inst_ok_def)
    have "inst_ok E n (c d) ?i (ct ?i) key ?p' (erase_addr s ! ?i)"
      using l(1) w p(1) key f(7) [OF w [THEN conjunct2] i ctr] by (simp add: inst_ok_def put_def)
    moreover have "inst_ok E n (c d) j (ct j) (ks j) (rom_data s ! j) (erase_addr s ! j)" if "j < 8" "j \<noteq> ?i" for j
      using f(3) [OF that loaded_inst(1) [OF inv that(1)]] .
    ultimately show ?thesis using inv l i False unfolding acc loaded_def by (simp add: f(1,2) nth_list_update)
  qed
qed

lemma post_work_ok:
  assumes ok: "rom_ok E c" and inv: "loaded E c n ct ks s"
  shows "loaded E c n ct ks (rom_post_worksCallback E s)"
proof -
  have one: "loaded E c n ct ks (post_work_one E i s)" if i: "i < 8" and inv: "loaded E c n ct ks s" for i s
  proof (cases "erase_addr s ! i = 0")
    case False
    note l = loaded_inst [OF inv i]
    let ?p = "rom_data s ! i"
    let ?d = "rom_erase_helper E (erase_addr s ! i) (dev s)"
    have "ctr_ok E (c (dev s)) (mc_base i) (ct_addr ?p) (ct i) (ct_cycle ?p) (erase_addr s ! i)" using l(1) by (simp add: inst_ok_def)
    then obtain B X b where "two_blocks (mc_base i) B X" "ct_addr ?p = B + 8 * b" "cur_blk E (c (dev s)) B b (ct i) (ct_cycle ?p)" "erase_addr s ! i = X"
      using False by (cases rule: ctr_cases) auto
    then have o: "ctr_ok E (c ?d) (mc_base i) (ct_addr ?p) (ct i) (ct_cycle ?p) 0" "changes_only (mc_base i) 8192 (c (dev s)) (c ?d)"
      using erased_other [OF ok l(4)] by auto
    note f = others_frame [OF disjI1 [OF o(2)] l(8) i]
    have key: "key_ok E n (c (dev s)) (rt_base i) (rt_addr ?p) (ks i) (rt_cycle ?p)" using l(1) by (simp add: inst_ok_def)
    have "inst_ok E n (c ?d) i (ct i) (ks i) ?p 0" using l(1) o(1) f(6) [OF o(2) i key] by (simp add: inst_ok_def)
    moreover have "inst_ok E n (c ?d) j (ct j) (ks j) (rom_data s ! j) (erase_addr s ! j)" if "j < 8" "j \<noteq> i" for j
      using f(3) [OF that loaded_inst(1) [OF inv that(1)]] .
    ultimately show ?thesis using inv l i False unfolding loaded_def by (simp add: f(1,2) post_work_one_def nth_list_update)
  qed (use inv in \<open>simp add: post_work_one_def\<close>)
  have "loaded E c n ct ks (fold (post_work_one E) as s)" if "\<forall>i \<in> set as. i < 8" "loaded E c n ct ks s" for as s
    using that one by (induction as arbitrary: s) auto
  then show ?thesis using inv by (simp add: rom_post_worksCallback_def RPMC_ROM_MC_NUM_def loaded_def del: upt_rec_numeral)
qed

section \<open>Histories\<close>

text \<open>
  The next value of counter \<open>i\<close> crosses into a block that still waits for its erase, and the block in use is full:
  \<open>mc_program\<close> then erases both before it stores the value.
\<close>

definition both_erased :: "'d rom_ctx \<Rightarrow> nat \<Rightarrow> bool" where
  "both_erased s i \<longleftrightarrow> ct_addr (rom_data s ! i) mod RPMC_ROM_BLOCK_SIZE = 0 \<and> erase_addr s ! i \<noteq> 0"

text \<open>
  \<open>rom_history E c n d0 ct ks s\<close>: from the new device \<open>d0\<close> the context \<open>s\<close> has been reached, and the counters
  should read \<open>ct\<close> and the keys of \<open>n\<close> bytes \<open>ks\<close>. A counter is written with a value that is not smaller
  than the one it has, or with 0. In a power loss during the write of a counter the erases of that write are complete
  and its slot holds anything but a valid entry: the counter keeps its value, except where both of its
  blocks were erased, where it starts again from 0.
\<close>

inductive rom_history ::
  "'d rom_env \<Rightarrow> ('d \<Rightarrow> u8 list) \<Rightarrow> nat \<Rightarrow> 'd \<Rightarrow> (nat \<Rightarrow> u32) \<Rightarrow> (nat \<Rightarrow> u8 list) \<Rightarrow> 'd rom_ctx \<Rightarrow> bool"
  for E :: "'d rom_env" and c n d0 where
  first_start: "rom_history E c n d0 (\<lambda>_. 0) (\<lambda>_. replicate n 0xFF) (snd (rom_rpmc_data_init E 8 (power_up d0)))"
| count: "rom_history E c n d0 ct ks s \<Longrightarrow> unat inst < 8 \<Longrightarrow> ct (unat inst) \<le> v \<or> v = 0 \<Longrightarrow>
    rom_history E c n d0 (ct(unat inst := v)) ks (snd (snd (rom_rpmc_mc_access E inst (Some (le32 v)) False RPMC_ROM_BUS_SPI s)))"
| new_key: "rom_history E c n d0 ct ks s \<Longrightarrow> unat inst < 8 \<Longrightarrow> length key = n \<Longrightarrow>
    rom_history E c n d0 ct (ks(unat inst := key)) (snd (snd (rom_rpmc_rt_access E inst (Some key) False RPMC_ROM_BUS_SPI s)))"
| post_work: "rom_history E c n d0 ct ks s \<Longrightarrow> rom_history E c n d0 ct ks (rom_post_worksCallback E s)"
| restart: "rom_history E c n d0 ct ks s \<Longrightarrow> rom_history E c n d0 ct ks (snd (rom_rpmc_data_init E 8 (power_up (dev s))))"
| power_loss: "rom_history E c n d0 ct ks s \<Longrightarrow> unat inst < 8 \<Longrightarrow> torn_flash (flash E) c xs F' \<Longrightarrow> invalid E xs \<Longrightarrow>
    s' = snd (snd (rom_rpmc_mc_access (E\<lparr>flash := F'\<rparr>) inst (Some (le32 v)) False RPMC_ROM_BUS_SPI s)) \<Longrightarrow>
    ct' = (if both_erased s (unat inst) \<and> v \<noteq> ct (unat inst) then ct(unat inst := 0) else ct) \<Longrightarrow>
    rom_history E c n d0 ct' ks (snd (rom_rpmc_data_init E 8 (power_up (dev s'))))"

definition new_rom :: "'d rom_env \<Rightarrow> ('d \<Rightarrow> u8 list) \<Rightarrow> nat \<Rightarrow> 'd \<Rightarrow> bool" where
  "new_rom E c n d0 \<longleftrightarrow> rom_ok E c \<and> intflash_ready E \<and> espi_ready E \<and> n \<le> 48 \<and> RPMC_ROM_END \<le> length (c d0) \<and> \<not> param_ok E (c d0)"

text \<open>
  A write that crosses into a block that still waits for its erase: both blocks are erased before the new
  value is stored, so that a write cut off there leaves no value at all.
\<close>

lemma torn_lost:
  assumes ok: "rom_ok E c" and inv: "ctr_ok E (c (dev s)) base addr v k (erase_addr s ! i)"
    and rng: "base + 8192 \<le> length (c (dev s))" "base \<noteq> 0" "base mod 4096 = 0"
    and t: "torn_flash (flash E) c xs F'" "invalid E xs"
    and g: "addr mod 4096 = 0" "erase_addr s ! i \<noteq> 0"
    and p: "mc_program (E\<lparr>flash := F'\<rparr>) i base addr v' k s = (addr', k', s')"
  shows "ctr_boot E (c (dev s')) base 0 \<and> changes_only base 8192 (c (dev s)) (c (dev s'))"
  using inv
proof (cases rule: ctr_cases)
  case (two B X b v0 k0)
  have tb: "two_blocks base X B" and z: "B mod 4096 = 0" "B \<noteq> 0" "X \<noteq> 0" using two(1) rng(2,3) by (auto simp: two_blocks_def)
  have "(8 * b) mod 4096 = 0" using g(1) z(1) two(2) by (metis add_0 mod_add_left_eq)
  then have b: "b = 0" using two(3) by simp
  have l: "length xs = 8" using t(2) by (simp add: invalid_def)
  let ?d1 = "rom_erase_helper E B (dev s)"
  let ?d2 = "rom_erase_helper E X ?d1"
  have er: "mc_erase (E\<lparr>flash := F'\<rparr>) i B s = s\<lparr>dev := ?d2, erase_addr := (erase_addr s)[i := 0]\<rparr>"
    using two(5) z by (simp add: torn_erase [OF t(1)] mc_erase_def)
  have s': "dev s' = mc_write (E\<lparr>flash := F'\<rparr>) (X + 8 * 511) v' k' ?d2"
    using p next_slot [OF two(1,3) rng(2)] b two(2) er by (auto simp: mc_program_def Let_def)
  note e1 = erased [OF ok tb rng(1) refl]
  have r1: "base + 8192 \<le> length (c ?d1)" using e1(3) rng(1) by (simp add: changes_length)
  note e2 = erased [OF ok two(1) r1 refl]
  have r2: "base + 8192 \<le> length (c ?d2)" using e2(3) r1 by (simp add: changes_length)
  note i = blocks_in [OF two(1) r2]
  have m: "c (dev s') = put (X + 8 * 511) xs (c ?d2)" unfolding s' using torn_mem [OF t(1) l] i by simp
  have ch: "changes_only X 4096 (c ?d2) (c (dev s'))" "changes_only base 8192 (c ?d2) (c (dev s'))"
    unfolding m using i l two(1) r2 by (auto intro!: changes_put simp: two_blocks_def)
  have "same_blk (c ?d2) (c (dev s')) B" using same_blk_changes [OF ch(1), of B] i by blast
  then have B: "empty_blk (c (dev s')) B" using e1(1) by (simp add: blk_cong(1) [OF e2(2)] blk_cong(1))
  have "empty_blk (c (dev s')) X \<or> torn_blk E (c (dev s')) X" unfolding m using torn_high [OF e2(1) _ t(2)] i by simp
  then have "ctr_boot E (c (dev s')) base 0"
  proof
    assume "empty_blk (c (dev s')) X"
    then have "ctr_ok E (c (dev s')) base 0 0 0 0" using B two(1) by (auto simp: two_blocks_def intro!: ctr_none)
    then show ?thesis unfolding ctr_boot_def by blast
  qed (use B two(1) in \<open>auto simp: ctr_boot_def\<close>)
  moreover have "changes_only base 8192 (c (dev s)) (c (dev s'))" using changes_trans [OF changes_trans [OF e1(3) e2(3)] ch(2)] .
  ultimately show ?thesis by blast
qed (use g in auto)

lemma lost_write:
  assumes ok: "rom_ok E c" and inv: "loaded E c n ct ks s" and i: "unat inst < 8" and t: "torn_flash (flash E) c xs F'" "invalid E xs"
  shows "stored E n (if both_erased s (unat inst) \<and> v \<noteq> ct (unat inst) then ct(unat inst := 0) else ct) ks
    (c (dev (snd (snd (rom_rpmc_mc_access (E\<lparr>flash := F'\<rparr>) inst (Some (le32 v)) False RPMC_ROM_BUS_SPI s)))))"
proof (cases "v = ct (unat inst)")
  case True
  then show ?thesis using mc_write_same [of s inst "E\<lparr>flash := F'\<rparr>"] loaded_inst(2,3) [OF inv i] i loaded_stored [OF inv] by simp
next
  case False
  let ?i = "unat inst"
  let ?p = "rom_data s ! ?i"
  let ?v = "if both_erased s ?i then 0 else ct ?i"
  note l = loaded_inst [OF inv i]
  obtain a k s1 where p: "mc_program (E\<lparr>flash := F'\<rparr>) ?i (mc_base ?i) (ct_addr ?p) v (ct_cycle ?p) s = (a, k, s1)" by (rule prod_cases3)
  have c: "ctr_ok E (c (dev s)) (mc_base ?i) (ct_addr ?p) (ct ?i) (ct_cycle ?p) (erase_addr s ! ?i)" using l(1) by (simp add: inst_ok_def)
  have "ctr_boot E (c (dev s1)) (mc_base ?i) ?v \<and> changes_only (mc_base ?i) 8192 (c (dev s)) (c (dev s1))"
    using torn_boot [OF ok c l(4) mc_base_facts(2,3) t _ p] torn_lost [OF ok c l(4) mc_base_facts(2,3) t _ _ p]
    by (simp add: both_erased_def RPMC_ROM_BLOCK_SIZE_def)
  then have b: "ctr_boot E (c (dev s1)) (mc_base ?i) ?v" "changes_only (mc_base ?i) 8192 (c (dev s)) (c (dev s1))" by simp_all
  note f = others_frame [OF disjI1 [OF b(2)] l(8) i]
  have st: "stored E n ct ks (c (dev s))" using loaded_stored [OF inv] .
  have "stored E n (ct(?i := ?v)) ks (c (dev s1))"
    unfolding stored_def
  proof (intro conjI allI impI)
    show "RPMC_ROM_END \<le> length (c (dev s1))" "param_ok E (c (dev s1))" using st by (simp_all add: f(1,2) stored_def)
    fix j :: nat assume j: "j < 8"
    show "ctr_boot E (c (dev s1)) (mc_base j) ((ct(?i := ?v)) j)" using b(1) f(4) [OF j] st j by (cases "j = ?i") (auto simp: stored_def)
    show "\<exists>a k. key_ok E n (c (dev s1)) (rt_base j) a (ks j) k" using f(6) [OF b(2) j] st j unfolding stored_def by blast
  qed
  moreover have "ct(?i := ?v) = (if both_erased s ?i \<and> v \<noteq> ct ?i then ct(?i := 0) else ct)" using False by simp
  ultimately show ?thesis using mc_write_access [OF l(2) i _ p] False l(3) by simp
qed

lemma history_loaded:
  assumes new: "new_rom E c n d0" and h: "rom_history E c n d0 ct ks s"
  shows "loaded E c n ct ks s"
  using h
proof (induction rule: rom_history.induct)
  case first_start
  show ?case using new init_new [of E c d0 n] by (simp add: new_rom_def)
next
  case (count ct ks s inst v)
  then show ?case using new by (intro count_ok) (auto simp: new_rom_def)
next
  case (new_key ct ks s inst key)
  then show ?case using new by (intro key_ok_write) (auto simp: new_rom_def)
next
  case (post_work ct ks s)
  then show ?case using post_work_ok [of E c n] new by (simp add: new_rom_def)
next
  case (restart ct ks s)
  then show ?case using init_ok [of E c n] loaded_stored [of E c n] new by (simp add: new_rom_def)
next
  case (power_loss ct ks s inst xs F' s' v ct')
  have "stored E n ct' ks (c (dev s'))"
    unfolding power_loss.hyps(5,6) using new power_loss by (intro lost_write) (auto simp: new_rom_def)
  then show ?case using init_ok [of E c n] new by (simp add: new_rom_def)
qed

section \<open>A concrete device\<close>

text \<open>The flash is a list of bytes of which none is erased; a sum takes the place of the CRC.\<close>

definition demo_crc :: "u16 \<Rightarrow> u16 \<Rightarrow> u8 list \<Rightarrow> u16" where
  "demo_crc poly seed bs = fold (\<lambda>b r. r + ucast b) bs seed"

definition demo_rom :: "u8 list rom_env" where
  "demo_rom = \<lparr>flash = demo_flash, crc16 = demo_crc, intflash_ready = True, espi_ready = True, flash_uid = (0, replicate 16 0)\<rparr>"

definition torn_demo :: "u8 list flash_dev" where
  "torn_demo = demo_flash\<lparr>flash_write := (\<lambda>off bs d. if length bs = 8 \<and> off + 8 \<le> length d then (- 5, put off [1, 0, 0, 0, 0, 0, 0, 0] d) else (- 5, d))\<rparr>"

definition demo_dev :: "u8 list" where "demo_dev = replicate RPMC_ROM_END 0"

lemma demo_crc_ff: "demo_crc 0x1021 0 (replicate 6 0xFF) \<noteq> 0xFFFF" "demo_crc 0x1021 0 (replicate 50 0xFF) \<noteq> 0xFFFF"
  "demo_crc 0x1021 0 [1, 0, 0, 0, 0, 0] \<noteq> 0"
  by code_simp+

definition contents :: "u8 list \<Rightarrow> u8 list" where "contents d = d"

lemma contents_id: "contents = id"
  by (simp add: contents_def fun_eq_iff)

lemma demo_rom_new: "new_rom demo_rom contents 32 demo_dev"
proof -
  have "rd16 (slice RPMC_ROM_PARAM_ADDR 32 demo_dev) 28 = 0"
    by (simp add: demo_dev_def slice_def RPMC_ROM_END_def layout rd16_def)
  then show ?thesis
    using demo_flash_nor demo_flash_works demo_crc_ff(1,2) unfolding contents_id
    by (simp add: new_rom_def rom_ok_def demo_rom_def crc16_compute_def param_ok_def RPMC_ROM_VERSION_def) (simp add: demo_dev_def)
qed

lemma demo_torn: "torn_flash (flash demo_rom) contents [1, 0, 0, 0, 0, 0, 0, 0] torn_demo" "invalid demo_rom [1, 0, 0, 0, 0, 0, 0, 0]"
proof -
  show "torn_flash (flash demo_rom) contents [1, 0, 0, 0, 0, 0, 0, 0] torn_demo"
    by (simp add: torn_flash_def demo_rom_def torn_demo_def contents_def)
  have "le32 (rd32 [1, 0, 0, 0, 0, 0, 0, 0] 0) @ le16 (rd16 [1, 0, 0, 0, 0, 0, 0, 0] 4) = [1, 0, 0, 0, 0, 0]"
    "rd16 [1, 0, 0, 0, 0, 0, 0, 0] 6 = 0" by code_simp+
  then show "invalid demo_rom [1, 0, 0, 0, 0, 0, 0, 0]"
    using demo_crc_ff(3) by (simp add: invalid_def mc_check_def crc16_compute_def demo_rom_def)
qed

text \<open>After \<open>l\<close> values of the first counter.\<close>

lemma demo_history:
  "l \<le> 1024 \<Longrightarrow> \<exists>ct ks s. rom_history demo_rom contents 32 demo_dev ct ks s \<and> ct 0 = of_nat l \<and>
     ct_addr (rom_data s ! 0) = (if l = 0 then 0 else mc_base 0 + 8 * (1024 - l)) \<and>
     erase_addr s ! 0 = (if l \<le> 512 then 0 else mc_base 0 + 4096)"
proof (induction l)
  case 0
  let ?s = "snd (rom_rpmc_data_init demo_rom 8 (power_up demo_dev))"
  have h: "rom_history demo_rom contents 32 demo_dev (\<lambda>_. 0) (\<lambda>_. replicate 32 0xFF) ?s" by (rule first_start)
  have f: "ct_addr (rom_data ?s ! 0) = 0 \<and> erase_addr ?s ! 0 = 0"
    using demo_rom_new by (intro new_first [of _ contents]) (auto simp: new_rom_def)
  show ?case by (intro exI conjI, rule h) (use f in simp_all)
next
  case (Suc l)
  then obtain ct ks s where n: "ct 0 = of_nat l" and h: "rom_history demo_rom contents 32 demo_dev ct ks s"
      "ct_addr (rom_data s ! 0) = (if l = 0 then 0 else mc_base 0 + 8 * (1024 - l))"
      "erase_addr s ! 0 = (if l \<le> 512 then 0 else mc_base 0 + 4096)" by auto
  note i = loaded_inst [OF history_loaded [OF demo_rom_new h(1)], of 0]
  let ?v = "ct 0 + 1"
  obtain a k s1 where p: "mc_program demo_rom 0 (mc_base 0) (ct_addr (rom_data s ! 0)) ?v (ct_cycle (rom_data s ! 0)) s = (a, k, s1)"
    by (rule prod_cases3)
  let ?s' = "snd (snd (rom_rpmc_mc_access demo_rom 0 (Some (le32 ?v)) False RPMC_ROM_BUS_SPI s))"
  have up: "ct 0 \<le> ?v" using n Suc.prems by (simp add: word_le_nat_alt unat_of_nat unat_word_ariths flip: of_nat_Suc)
  have s': "?s' = s1\<lparr>rom_data := (rom_data s1)[0 := (rom_data s ! 0)\<lparr>ct_addr := a, ct_cycle := k, u32_ct := ?v\<rparr>]\<rparr>"
    using mc_write_access [of s 0 ?v demo_rom] p i(2,3) by simp
  have "rom_history demo_rom contents 32 demo_dev (ct(0 := ?v)) ks ?s'" using count [OF h(1), of 0 ?v] up by simp
  moreover have "rom_data s1 = rom_data s" "a = mc_base 0 + 8 * (1024 - Suc l)" "erase_addr s1 ! 0 = (if Suc l \<le> 512 then 0 else mc_base 0 + 4096)"
    using p h(2,3) i(6) Suc.prems
    by (auto simp: mc_program_def mc_next_def mc_erase_def rom_post_works_notify_def RPMC_ROM_BLOCK_SIZE_def mc_base_facts(2) Let_def split: if_splits)
  ultimately show ?case using i(7) n unfolding s' by (intro exI conjI) (assumption, auto simp: add.commute)
qed

section \<open>Properties\<close>

lemma mc_read_access:
  assumes "inited (rom_data s ! unat inst)" "unat inst < 8" "length buf = 4"
  shows "rom_rpmc_mc_access E inst (Some buf) True bus s = (0, Some (le32 (u32_ct (rom_data s ! unat inst))), s)"
  using assms by (simp add: rom_rpmc_mc_access_def RPMC_ROM_MC_NUM_def RPMC_ROM_MC_DATA_SIZE_def Let_def)

text \<open>
  C39. A device is set up from new and then goes through any order of counter writes, root key writes, postponed
  erases that are done or not, restarts, and power losses in the middle of the write of a counter, where a
  value written is not smaller than the counter or is 0, as the message layer does it (it writes the next value, or 0 with a first root
  key), erases complete, and a slot that was cut off does not pass its check. Then a counter reads as the value written
  last before any power loss; only where the power was lost while both of its blocks were erased - the next value crosses into a
  block that still waits for its erase - does it go on from 0 instead. The flash is a NOR flash without errors, and the CRC of erased
  slots is not 0xFFFF.
\<close>

theorem rpmc_counters_survive:
  assumes "new_rom E c n d0" "rom_history E c n d0 ct ks s" "unat inst < 8"
  shows "rom_rpmc_mc_access E inst (Some (replicate 4 0)) True RPMC_ROM_BUS_CACHE s = (0, Some (le32 (ct (unat inst))), s)"
  using mc_read_access [of s inst] loaded_inst(2,3) [OF history_loaded [OF assms(1,2)] assms(3)] assms(3) by simp

theorem rpmc_counters_survive_witness:
  "\<exists>s. rom_rpmc_mc_access demo_rom 0 (Some (replicate 4 0)) True RPMC_ROM_BUS_CACHE s = (0, Some (le32 1), s)"
proof -
  let ?s = "snd (snd (rom_rpmc_mc_access demo_rom 0 (Some (le32 1)) False RPMC_ROM_BUS_SPI
    (snd (rom_rpmc_data_init demo_rom 8 (power_up demo_dev)))))"
  have "rom_history demo_rom contents 32 demo_dev ((\<lambda>_. 0)(0 := 1)) (\<lambda>_. replicate 32 0xFF) ?s"
    using count [OF first_start, of 0 1 demo_rom contents 32 demo_dev] by simp
  from rpmc_counters_survive [OF demo_rom_new this, of 0] show ?thesis by auto
qed

text \<open>The same of the root keys.\<close>

lemma rpmc_keys_survive:
  assumes "new_rom E c n d0" "rom_history E c n d0 ct ks s" "unat inst < 8"
  shows "rom_rpmc_rt_access E inst (Some (replicate n 0)) True RPMC_ROM_BUS_CACHE s = (0, Some (ks (unat inst)), s)"
  using loaded_inst(1,2) [OF history_loaded [OF assms(1,2)] assms(3)] assms(1,3)
  by (simp add: rom_rpmc_rt_access_def RPMC_ROM_MC_NUM_def RPMC_ROM_RK_DATA_SIZE_def inst_ok_def new_rom_def Let_def)

text \<open>
  C40. When a counter's block is full while the block before it still waits for its postponed erase, a power
  loss during the next write takes the counter back to 0, whatever it was: replay protection is lost.
\<close>

theorem rpmc_power_loss_resets:
  assumes new: "new_rom E c n d0" and h: "rom_history E c n d0 ct ks s" and i: "unat inst < 8"
    and t: "torn_flash (flash E) c xs F'" "invalid E xs"
    and g: "ct_addr (rom_data s ! unat inst) mod RPMC_ROM_BLOCK_SIZE = 0" "erase_addr s ! unat inst \<noteq> 0"
    and v: "v \<noteq> ct (unat inst)"
    and s': "s' = snd (snd (rom_rpmc_mc_access (E\<lparr>flash := F'\<rparr>) inst (Some (le32 v)) False RPMC_ROM_BUS_SPI s))"
  shows "u32_ct (rom_data (snd (rom_rpmc_data_init E 8 (power_up (dev s')))) ! unat inst) = 0"
proof -
  have "rom_history E c n d0 (ct(unat inst := 0)) ks (snd (rom_rpmc_data_init E 8 (power_up (dev s'))))"
    using power_loss [OF h i t s' refl] g v by (simp add: both_erased_def)
  from loaded_inst(3) [OF history_loaded [OF new this] i] show ?thesis by simp
qed

theorem rpmc_power_loss_resets_witness:
  "\<exists>ct ks s s'. rom_history demo_rom contents 32 demo_dev ct ks s \<and> ct 0 = 1024 \<and>
     s' = snd (snd (rom_rpmc_mc_access (demo_rom\<lparr>flash := torn_demo\<rparr>) 0 (Some (le32 1025)) False RPMC_ROM_BUS_SPI s)) \<and>
     u32_ct (rom_data (snd (rom_rpmc_data_init demo_rom 8 (power_up (dev s')))) ! 0) = 0"
proof -
  obtain ct ks s where h: "rom_history demo_rom contents 32 demo_dev ct ks s" "ct_addr (rom_data s ! 0) = mc_base 0"
      "erase_addr s ! 0 = mc_base 0 + 4096" and n: "ct 0 = 1024"
    using demo_history [of 1024] by auto
  from rpmc_power_loss_resets [OF demo_rom_new h(1) _ demo_torn, of 0 1025, OF _ _ _ _ refl] h n mc_base_facts(3) [of 0]
  have "u32_ct (rom_data (snd (rom_rpmc_data_init demo_rom 8 (power_up (dev (snd (snd (rom_rpmc_mc_access
      (demo_rom\<lparr>flash := torn_demo\<rparr>) 0 (Some (le32 1025)) False RPMC_ROM_BUS_SPI s))))))) ! 0) = 0"
    by (simp add: RPMC_ROM_BLOCK_SIZE_def)
  with h(1) n show ?thesis by blast
qed

end
