(* ===== verification/Modbus.thy ===== *)
theory Modbus
  imports Flash
begin

text \<open>
  The Modbus RTU driver, \<open>src/drivers/amd_crb_modbusrtu_driver.c\<close>: the table-driven CRC-16, the
  assembling of a reply out of the pieces that the UART delivers, the two receive buffers, and the
  three transactions (read input registers, read holding registers, write registers).

  The UART driver is not part of the repository. Its calls are recorded in \<open>uart\<close>, their results
  are a value of type \<open>uart_env\<close>, and what happens while the driver waits or calls the UART - bytes
  that the DMA stores, callbacks - is the list \<open>inputs\<close>: each wait takes the next element. A
  semaphore is a counter limited to 1; the mutex is a counter of locks held, and unlocking it when
  it is not held is counted in \<open>unlock_errors\<close>.
\<close>

section \<open>CRC-16\<close>

definition CRC16Low :: "u8 list" where
  "CRC16Low =
    [0x00, 0xC0, 0xC1, 0x01, 0xC3, 0x03, 0x02, 0xC2, 0xC6, 0x06, 0x07, 0xC7, 0x05, 0xC5, 0xC4, 0x04,
     0xCC, 0x0C, 0x0D, 0xCD, 0x0F, 0xCF, 0xCE, 0x0E, 0x0A, 0xCA, 0xCB, 0x0B, 0xC9, 0x09, 0x08, 0xC8,
     0xD8, 0x18, 0x19, 0xD9, 0x1B, 0xDB, 0xDA, 0x1A, 0x1E, 0xDE, 0xDF, 0x1F, 0xDD, 0x1D, 0x1C, 0xDC,
     0x14, 0xD4, 0xD5, 0x15, 0xD7, 0x17, 0x16, 0xD6, 0xD2, 0x12, 0x13, 0xD3, 0x11, 0xD1, 0xD0, 0x10,
     0xF0, 0x30, 0x31, 0xF1, 0x33, 0xF3, 0xF2, 0x32, 0x36, 0xF6, 0xF7, 0x37, 0xF5, 0x35, 0x34, 0xF4,
     0x3C, 0xFC, 0xFD, 0x3D, 0xFF, 0x3F, 0x3E, 0xFE, 0xFA, 0x3A, 0x3B, 0xFB, 0x39, 0xF9, 0xF8, 0x38,
     0x28, 0xE8, 0xE9, 0x29, 0xEB, 0x2B, 0x2A, 0xEA, 0xEE, 0x2E, 0x2F, 0xEF, 0x2D, 0xED, 0xEC, 0x2C,
     0xE4, 0x24, 0x25, 0xE5, 0x27, 0xE7, 0xE6, 0x26, 0x22, 0xE2, 0xE3, 0x23, 0xE1, 0x21, 0x20, 0xE0,
     0xA0, 0x60, 0x61, 0xA1, 0x63, 0xA3, 0xA2, 0x62, 0x66, 0xA6, 0xA7, 0x67, 0xA5, 0x65, 0x64, 0xA4,
     0x6C, 0xAC, 0xAD, 0x6D, 0xAF, 0x6F, 0x6E, 0xAE, 0xAA, 0x6A, 0x6B, 0xAB, 0x69, 0xA9, 0xA8, 0x68,
     0x78, 0xB8, 0xB9, 0x79, 0xBB, 0x7B, 0x7A, 0xBA, 0xBE, 0x7E, 0x7F, 0xBF, 0x7D, 0xBD, 0xBC, 0x7C,
     0xB4, 0x74, 0x75, 0xB5, 0x77, 0xB7, 0xB6, 0x76, 0x72, 0xB2, 0xB3, 0x73, 0xB1, 0x71, 0x70, 0xB0,
     0x50, 0x90, 0x91, 0x51, 0x93, 0x53, 0x52, 0x92, 0x96, 0x56, 0x57, 0x97, 0x55, 0x95, 0x94, 0x54,
     0x9C, 0x5C, 0x5D, 0x9D, 0x5F, 0x9F, 0x9E, 0x5E, 0x5A, 0x9A, 0x9B, 0x5B, 0x99, 0x59, 0x58, 0x98,
     0x88, 0x48, 0x49, 0x89, 0x4B, 0x8B, 0x8A, 0x4A, 0x4E, 0x8E, 0x8F, 0x4F, 0x8D, 0x4D, 0x4C, 0x8C,
     0x44, 0x84, 0x85, 0x45, 0x87, 0x47, 0x46, 0x86, 0x82, 0x42, 0x43, 0x83, 0x41, 0x81, 0x80, 0x40]"

definition CRC16High :: "u8 list" where
  "CRC16High =
    [0x00, 0xC1, 0x81, 0x40, 0x01, 0xC0, 0x80, 0x41, 0x01, 0xC0, 0x80, 0x41, 0x00, 0xC1, 0x81, 0x40,
     0x01, 0xC0, 0x80, 0x41, 0x00, 0xC1, 0x81, 0x40, 0x00, 0xC1, 0x81, 0x40, 0x01, 0xC0, 0x80, 0x41,
     0x01, 0xC0, 0x80, 0x41, 0x00, 0xC1, 0x81, 0x40, 0x00, 0xC1, 0x81, 0x40, 0x01, 0xC0, 0x80, 0x41,
     0x00, 0xC1, 0x81, 0x40, 0x01, 0xC0, 0x80, 0x41, 0x01, 0xC0, 0x80, 0x41, 0x00, 0xC1, 0x81, 0x40,
     0x01, 0xC0, 0x80, 0x41, 0x00, 0xC1, 0x81, 0x40, 0x00, 0xC1, 0x81, 0x40, 0x01, 0xC0, 0x80, 0x41,
     0x00, 0xC1, 0x81, 0x40, 0x01, 0xC0, 0x80, 0x41, 0x01, 0xC0, 0x80, 0x41, 0x00, 0xC1, 0x81, 0x40,
     0x00, 0xC1, 0x81, 0x40, 0x01, 0xC0, 0x80, 0x41, 0x01, 0xC0, 0x80, 0x41, 0x00, 0xC1, 0x81, 0x40,
     0x01, 0xC0, 0x80, 0x41, 0x00, 0xC1, 0x81, 0x40, 0x00, 0xC1, 0x81, 0x40, 0x01, 0xC0, 0x80, 0x41,
     0x01, 0xC0, 0x80, 0x41, 0x00, 0xC1, 0x81, 0x40, 0x00, 0xC1, 0x81, 0x40, 0x01, 0xC0, 0x80, 0x41,
     0x00, 0xC1, 0x81, 0x40, 0x01, 0xC0, 0x80, 0x41, 0x01, 0xC0, 0x80, 0x41, 0x00, 0xC1, 0x81, 0x40,
     0x00, 0xC1, 0x81, 0x40, 0x01, 0xC0, 0x80, 0x41, 0x01, 0xC0, 0x80, 0x41, 0x00, 0xC1, 0x81, 0x40,
     0x01, 0xC0, 0x80, 0x41, 0x00, 0xC1, 0x81, 0x40, 0x00, 0xC1, 0x81, 0x40, 0x01, 0xC0, 0x80, 0x41,
     0x00, 0xC1, 0x81, 0x40, 0x01, 0xC0, 0x80, 0x41, 0x01, 0xC0, 0x80, 0x41, 0x00, 0xC1, 0x81, 0x40,
     0x01, 0xC0, 0x80, 0x41, 0x00, 0xC1, 0x81, 0x40, 0x00, 0xC1, 0x81, 0x40, 0x01, 0xC0, 0x80, 0x41,
     0x01, 0xC0, 0x80, 0x41, 0x00, 0xC1, 0x81, 0x40, 0x00, 0xC1, 0x81, 0x40, 0x01, 0xC0, 0x80, 0x41,
     0x00, 0xC1, 0x81, 0x40, 0x01, 0xC0, 0x80, 0x41, 0x01, 0xC0, 0x80, 0x41, 0x00, 0xC1, 0x81, 0x40]"

fun crc_loop :: "nat \<Rightarrow> u8 list \<Rightarrow> u8 \<Rightarrow> u8 \<Rightarrow> (u8 \<times> u8) res" where
  "crc_loop 0 buf uchCRCHi uchCRCLow = Inr (uchCRCHi, uchCRCLow)"
| "crc_loop (Suc n) [] uchCRCHi uchCRCLow = Inl Out_of_bounds"
| "crc_loop (Suc n) (b # buf) uchCRCHi uchCRCLow =
     (let uIndex = unat (uchCRCLow XOR b)
      in crc_loop n buf (CRC16Low ! uIndex) (uchCRCHi XOR CRC16High ! uIndex))"

text \<open>The length is a \<open>uint8_t\<close>: a caller's longer length is cut to its low byte.\<close>

definition Modbus_CRC16 :: "u8 list \<Rightarrow> u8 \<Rightarrow> u16 res" where
  "Modbus_CRC16 buff buf_length =
     (case crc_loop (unat buf_length) buff 0xFF 0xFF of
        Inl e \<Rightarrow> Inl e
      | Inr (uchCRCHi, uchCRCLow) \<Rightarrow> Inr (push_bit 8 (ucast uchCRCHi) OR ucast uchCRCLow))"

section \<open>State\<close>

definition MODBUS_MIN_FRAME_SIZE :: nat where "MODBUS_MIN_FRAME_SIZE = 8"
definition MODBUS_MAX_FRAME_SIZE :: nat where "MODBUS_MAX_FRAME_SIZE = 2560"
definition MODBUS_MSG_SIZE :: nat where "MODBUS_MSG_SIZE = 2560"
definition MODBUS_MAX_REGISTERS :: nat where "MODBUS_MAX_REGISTERS = 4096"
definition RX_BUF_POOL_SIZE :: nat where "RX_BUF_POOL_SIZE = 2"
definition RX_BUF_LEN :: nat where "RX_BUF_LEN = MODBUS_MSG_SIZE"

text \<open>Zero, the negative error numbers of the driver, and a result of the UART driver.\<close>

datatype mrc = M_OK | M_EIO | M_ENOMEM | M_EBUSY | M_ENODEV | M_EINVAL | M_ERANGE | M_EBADMSG
  | M_ETIMEDOUT | M_ENOTSUP | M_EOVERFLOW | M_uart int

record rx_buf =
  rb_data :: "u8 list"
  in_use :: bool

record frame_rx_state =
  frame_buf :: "u8 list"
  frame_len :: u16
  frame_started :: bool
  frame_complete :: bool
  expected_len :: u16

text \<open>A buffer of the pool is named by its index; a larger number is any other address.\<close>

datatype uart_call = Rx_enable nat | Rx_disable | Tx "u8 list" | Buf_rsp "nat option" | Set_callback

datatype uart_event = UART_TX_DONE | UART_TX_ABORTED | UART_RX_RDY nat nat nat \<comment> \<open>buffer, offset, length\<close>
  | UART_RX_BUF_REQUEST | UART_RX_BUF_RELEASED nat | UART_RX_DISABLED | UART_RX_STOPPED

datatype hw = Dma nat nat "u8 list" \<comment> \<open>buffer, offset, received bytes\<close> | Event uart_event

record modbusrtu_device =
  locks :: nat
  unlock_errors :: nat
  rx_sem :: nat
  tx_sem :: nat
  transaction_sem :: nat
  rx_ready :: bool
  tx_done :: bool
  slave_reg_addr :: u16
  request_len :: u16
  slave_data_len :: u8
  last_error :: mrc
  tx_buf :: "u8 list"
  registers :: "u16 list"
  rx_buf_pool :: "rx_buf list"
  rx_enabled :: bool
  uart_dev :: bool \<comment> \<open>the pointer is set\<close>
  frame_state :: frame_rx_state
  uart :: "uart_call list"
  inputs :: "hw list list"

record uart_env =
  dev_ready :: bool
  callback_set_ret :: int
  tx_ret :: int
  rx_enable_ret :: int
  buf_rsp_ret :: int

definition uart_call :: "uart_call \<Rightarrow> modbusrtu_device \<Rightarrow> modbusrtu_device" where
  "uart_call c m = m\<lparr>uart := uart m @ [c]\<rparr>"

definition k_mutex_lock :: "modbusrtu_device \<Rightarrow> modbusrtu_device" where
  "k_mutex_lock m = m\<lparr>locks := locks m + 1\<rparr>"

definition k_mutex_unlock :: "modbusrtu_device \<Rightarrow> modbusrtu_device" where
  "k_mutex_unlock m =
     (if locks m = 0 then m\<lparr>unlock_errors := unlock_errors m + 1\<rparr> else m\<lparr>locks := locks m - 1\<rparr>)"

definition and_then :: "'a res \<Rightarrow> ('a \<Rightarrow> 'b res) \<Rightarrow> 'b res" where
  "and_then r f = (case r of Inl e \<Rightarrow> Inl e | Inr x \<Rightarrow> f x)"

lemma and_then_simps [simp]:
  "and_then (Inl e) f = Inl e" "and_then (Inr x) f = f x"
  by (simp_all add: and_then_def)

text \<open>The static initializer of \<open>modbus_dev\<close>; memory without an initializer is zero.\<close>

definition modbus_dev :: modbusrtu_device where
  "modbus_dev = \<lparr>locks = 0, unlock_errors = 0, rx_sem = 0, tx_sem = 0, transaction_sem = 0,
     rx_ready = False, tx_done = False, slave_reg_addr = 0, request_len = 0, slave_data_len = 0,
     last_error = M_OK, tx_buf = replicate MODBUS_MAX_FRAME_SIZE 0,
     registers = replicate MODBUS_MAX_REGISTERS 0,
     rx_buf_pool = replicate RX_BUF_POOL_SIZE \<lparr>rb_data = replicate RX_BUF_LEN 0, in_use = False\<rparr>,
     rx_enabled = False, uart_dev = False,
     frame_state = \<lparr>frame_buf = replicate MODBUS_MAX_FRAME_SIZE 0, frame_len = 0, frame_started = False,
       frame_complete = False, expected_len = 0\<rparr>,
     uart = [], inputs = []\<rparr>"

section \<open>Frames and buffers\<close>

text \<open>The length of the whole frame that starts with the given bytes, if the header says it.\<close>

definition parse_frame_header :: "u8 list \<Rightarrow> u16 \<Rightarrow> u16 option" where
  "parse_frame_header data len =
     (if len < 3 then None
      else
        (let func_code = data ! 1 in
         if func_code = 0x04 \<or> func_code = 0x03 then Some (3 + ucast (data ! 2) + 2)
         else if func_code = 0x84 \<or> func_code = 0x83 then Some 5
         else if func_code = 0x06 then Some 8
         else if func_code = 0x86 then Some 5
         else if func_code = 0x10 then Some 8
         else if func_code = 0x90 then Some 5
         else None))"

definition reset_frame_state :: "modbusrtu_device \<Rightarrow> modbusrtu_device" where
  "reset_frame_state m =
     k_mutex_unlock ((k_mutex_lock m)\<lparr>frame_state := \<lparr>frame_buf = replicate MODBUS_MAX_FRAME_SIZE 0, frame_len = 0,
       frame_started = False, frame_complete = False, expected_len = 0\<rparr>\<rparr>)"

definition get_free_rx_buf :: "modbusrtu_device \<Rightarrow> nat option" where
  "get_free_rx_buf m = find (\<lambda>idx. \<not> in_use (rx_buf_pool m ! idx)) [0..<RX_BUF_POOL_SIZE]"

definition set_in_use :: "bool \<Rightarrow> nat \<Rightarrow> modbusrtu_device \<Rightarrow> modbusrtu_device" where
  "set_in_use u b m =
     m\<lparr>rx_buf_pool := (rx_buf_pool m)[b := (rx_buf_pool m ! b)\<lparr>in_use := u\<rparr>]\<rparr>"

definition set_data :: "u8 list \<Rightarrow> nat \<Rightarrow> modbusrtu_device \<Rightarrow> modbusrtu_device" where
  "set_data xs b m =
     m\<lparr>rx_buf_pool := (rx_buf_pool m)[b := (rx_buf_pool m ! b)\<lparr>rb_data := xs\<rparr>]\<rparr>"

definition release_rx_buf :: "nat \<Rightarrow> modbusrtu_device \<Rightarrow> modbusrtu_device" where
  "release_rx_buf b m = k_mutex_unlock (set_in_use False b (k_mutex_lock m))"

definition re_enable_rx_dma :: "uart_env \<Rightarrow> modbusrtu_device \<Rightarrow> mrc \<times> modbusrtu_device" where
  "re_enable_rx_dma E m =
     (if \<not> rx_enabled m \<or> \<not> uart_dev m then (M_EINVAL, m)
      else
        case get_free_rx_buf m of
          None \<Rightarrow> (M_ENOMEM, m)
        | Some b \<Rightarrow>
            (let m1 = uart_call (Rx_enable b) (set_in_use True b m) in
             if rx_enable_ret E \<noteq> 0 then (M_uart (rx_enable_ret E), (release_rx_buf b m1)\<lparr>rx_enabled := False\<rparr>)
             else (M_OK, m1)))"

definition k_sem_give_rx :: "modbusrtu_device \<Rightarrow> modbusrtu_device" where
  "k_sem_give_rx m = m\<lparr>rx_sem := 1\<rparr>"

definition k_sem_give_tx :: "modbusrtu_device \<Rightarrow> modbusrtu_device" where
  "k_sem_give_tx m = m\<lparr>tx_sem := 1\<rparr>"

text \<open>An error found in a complete frame.\<close>

definition frame_error :: "mrc \<Rightarrow> modbusrtu_device \<Rightarrow> modbusrtu_device" where
  "frame_error e m = k_sem_give_rx (reset_frame_state (m\<lparr>last_error := e\<rparr>))"

definition be_word :: "u8 \<Rightarrow> u8 \<Rightarrow> u16" where
  "be_word h l = push_bit 8 (ucast h) OR ucast l"

text \<open>The loop over the registers of a reply, from index \<open>k\<close> on.\<close>

fun store_regs :: "nat \<Rightarrow> nat \<Rightarrow> u8 list \<Rightarrow> nat \<Rightarrow> u16 list \<Rightarrow> u16 list res" where
  "store_regs 0 k frame_data a regs = Inr regs"
| "store_regs (Suc n) k frame_data a regs =
     and_then (ld frame_data (3 + k * 2)) (\<lambda>h.
     and_then (ld frame_data (4 + k * 2)) (\<lambda>l.
     and_then (st regs (a + k) (be_word h l))
       (store_regs n (k + 1) frame_data a)))"

text \<open>The two identical branches for the function codes \<open>0x03\<close> and \<open>0x04\<close>.\<close>

definition read_reply :: "modbusrtu_device \<Rightarrow> modbusrtu_device res" where
  "read_reply m =
     (let fd = frame_buf (frame_state m); flen = frame_len (frame_state m);
          m1 = m\<lparr>slave_data_len := fd ! 2\<rparr>; a = unat (slave_reg_addr m); n = unat (slave_data_len m1) div 2
      in if uint (slave_data_len m1) \<noteq> uint flen - 5 then Inr (frame_error M_EINVAL m1)
      else if MODBUS_MAX_REGISTERS < a + n then Inr (frame_error M_ERANGE m1)
      else and_then (store_regs n 0 fd a (registers m1)) (\<lambda>regs.
        Inr (k_sem_give_rx (reset_frame_state (m1\<lparr>registers := regs, last_error := M_OK\<rparr>)))))"

definition process_frame :: "modbusrtu_device \<Rightarrow> modbusrtu_device res" where
  "process_frame m0 =
     (let m = m0\<lparr>rx_ready := True\<rparr>; fd = frame_buf (frame_state m); flen = frame_len (frame_state m) in
      if flen < 4 then Inr (frame_error M_EINVAL m)
      else
        and_then (ld fd (unat flen - 1)) (\<lambda>c1.
        and_then (ld fd (unat flen - 2)) (\<lambda>c2.
        and_then (Modbus_CRC16 fd (ucast (flen - 2))) (\<lambda>calculated_crc.
          if be_word c1 c2 \<noteq> calculated_crc then Inr (frame_error M_EBADMSG m)
          else if fd ! 1 = 0x03 \<or> fd ! 1 = 0x04 then read_reply m
          else Inr (frame_error
            (if fd ! 1 = 0x83 \<or> fd ! 1 = 0x84 then M_EIO else if fd ! 1 = 0x10 then M_OK else M_ENOTSUP) m)))))"

definition append_frame :: "u8 list \<Rightarrow> frame_rx_state \<Rightarrow> frame_rx_state" where
  "append_frame xs f = f\<lparr>frame_buf := put (unat (frame_len f)) xs (frame_buf f),
     frame_len := frame_len f + of_nat (length xs), frame_started := True\<rparr>"

definition check_complete :: "frame_rx_state \<Rightarrow> frame_rx_state" where
  "check_complete f =
     (let f1 = (if expected_len f = 0
                then (case parse_frame_header (frame_buf f) (frame_len f) of
                        None \<Rightarrow> f | Some n \<Rightarrow> f\<lparr>expected_len := n\<rparr>)
                else f);
          complete = (if 0 < expected_len f1 then expected_len f1 \<le> frame_len f1
                      else MODBUS_MIN_FRAME_SIZE \<le> unat (frame_len f1))
      in if complete then f1\<lparr>frame_complete := True\<rparr> else f1)"

definition uart_rx_rdy :: "uart_env \<Rightarrow> nat \<Rightarrow> nat \<Rightarrow> nat \<Rightarrow> modbusrtu_device \<Rightarrow> modbusrtu_device res" where
  "uart_rx_rdy E buf offset len m =
     (if len = 0 then
        (let m1 = (reset_frame_state m)\<lparr>last_error := M_ETIMEDOUT\<rparr>;
             m2 = (if buf < RX_BUF_POOL_SIZE then release_rx_buf buf m1 else m1)
         in Inr (k_sem_give_rx (snd (re_enable_rx_dma E m2))))
      else if \<not> buf < RX_BUF_POOL_SIZE then Inr (k_sem_give_rx (m\<lparr>last_error := M_EINVAL\<rparr>))
      else if MODBUS_MAX_FRAME_SIZE < unat (frame_len (frame_state m)) + len then
        Inr (k_sem_give_rx (release_rx_buf buf (k_mutex_unlock ((reset_frame_state m)\<lparr>last_error := M_EOVERFLOW\<rparr>))))
      else
        and_then (load_seq (rb_data (rx_buf_pool m ! buf)) offset len) (\<lambda>xs.
          let m1 = release_rx_buf buf (m\<lparr>frame_state := check_complete (append_frame xs (frame_state m))\<rparr>)
          in if frame_complete (frame_state m1) then process_frame m1 else Inr m1))"

definition uart_callback :: "uart_env \<Rightarrow> uart_event \<Rightarrow> modbusrtu_device \<Rightarrow> modbusrtu_device res" where
  "uart_callback E evt m =
     (case evt of
        UART_TX_DONE \<Rightarrow> Inr (k_sem_give_tx (m\<lparr>tx_done := True\<rparr>))
      | UART_TX_ABORTED \<Rightarrow> Inr (k_sem_give_tx (m\<lparr>tx_done := False, last_error := M_EIO\<rparr>))
      | UART_RX_RDY buf offset len \<Rightarrow> uart_rx_rdy E buf offset len m
      | UART_RX_BUF_REQUEST \<Rightarrow>
          Inr (case get_free_rx_buf m of
                 Some b \<Rightarrow>
                   (let m1 = uart_call (Buf_rsp (Some b)) (set_in_use True b m)
                    in if buf_rsp_ret E \<noteq> 0 then release_rx_buf b m1 else m1)
               | None \<Rightarrow> uart_call (Buf_rsp None) m)
      | UART_RX_BUF_RELEASED buf \<Rightarrow>
          Inr (if buf < RX_BUF_POOL_SIZE
               then set_data (replicate RX_BUF_LEN 0) buf (release_rx_buf buf m) else m)
      | UART_RX_DISABLED \<Rightarrow>
          Inr (fold release_rx_buf [0..<RX_BUF_POOL_SIZE] (reset_frame_state (m\<lparr>rx_enabled := False\<rparr>)))
      | UART_RX_STOPPED \<Rightarrow> Inr (if rx_enabled m then snd (re_enable_rx_dma E m) else m))"

section \<open>Hardware inputs and waiting\<close>

text \<open>The DMA stores into a buffer of the pool, within its length.\<close>

definition hw_step :: "uart_env \<Rightarrow> hw \<Rightarrow> modbusrtu_device \<Rightarrow> modbusrtu_device res" where
  "hw_step E h m =
     (case h of
        Dma b off xs \<Rightarrow>
          (if b < RX_BUF_POOL_SIZE
           then and_then (store_seq (rb_data (rx_buf_pool m ! b)) off xs) (\<lambda>d. Inr (set_data d b m))
           else Inr m)
      | Event evt \<Rightarrow> uart_callback E evt m)"

fun hw_run :: "uart_env \<Rightarrow> hw list \<Rightarrow> modbusrtu_device \<Rightarrow> modbusrtu_device res" where
  "hw_run E [] m = Inr m"
| "hw_run E (h # hs) m = and_then (hw_step E h m) (hw_run E hs)"

definition pause :: "uart_env \<Rightarrow> modbusrtu_device \<Rightarrow> modbusrtu_device res" where
  "pause E m =
     (case inputs m of [] \<Rightarrow> Inr m | hs # is \<Rightarrow> hw_run E hs (m\<lparr>inputs := is\<rparr>))"

definition uart_rx_disable :: "uart_env \<Rightarrow> modbusrtu_device \<Rightarrow> modbusrtu_device res" where
  "uart_rx_disable E m = pause E (uart_call Rx_disable m)"

definition take_tx :: "uart_env \<Rightarrow> modbusrtu_device \<Rightarrow> (bool \<times> modbusrtu_device) res" where
  "take_tx E m = and_then (pause E m) (\<lambda>m1.
     Inr (if tx_sem m1 = 0 then (False, m1) else (True, m1\<lparr>tx_sem := 0\<rparr>)))"

definition take_rx :: "uart_env \<Rightarrow> modbusrtu_device \<Rightarrow> (bool \<times> modbusrtu_device) res" where
  "take_rx E m = and_then (pause E m) (\<lambda>m1.
     Inr (if rx_sem m1 = 0 then (False, m1) else (True, m1\<lparr>rx_sem := 0\<rparr>)))"

section \<open>Initialization and transactions\<close>

definition amd_crb_modbusrtu_init :: "uart_env \<Rightarrow> modbusrtu_device \<Rightarrow> mrc \<times> modbusrtu_device" where
  "amd_crb_modbusrtu_init E m0 =
     (let m = m0\<lparr>uart_dev := True\<rparr> in
      if \<not> dev_ready E then (M_ENODEV, m)
      else
        (let m1 = uart_call Set_callback
               (m\<lparr>locks := 0, rx_sem := 0, tx_sem := 0, transaction_sem := 1\<rparr>) in
         if callback_set_ret E \<noteq> 0 then (M_uart (callback_set_ret E), m1)
         else
           (let (ret, m2) = re_enable_rx_dma E (m1\<lparr>
                  rx_buf_pool := replicate RX_BUF_POOL_SIZE \<lparr>rb_data = replicate RX_BUF_LEN 0, in_use = False\<rparr>,
                  tx_buf := replicate MODBUS_MAX_FRAME_SIZE 0,
                  registers := replicate MODBUS_MAX_REGISTERS 0, rx_enabled := True\<rparr>)
            in if ret \<noteq> M_OK then (ret, m2\<lparr>rx_enabled := False\<rparr>) else (M_OK, m2))))"

text \<open>The label \<open>cleanup\<close> of the three transactions.\<close>

definition cleanup :: "uart_env \<Rightarrow> mrc \<Rightarrow> modbusrtu_device \<Rightarrow> (mrc \<times> modbusrtu_device) res" where
  "cleanup E ret m =
     and_then (if ret \<noteq> M_OK then uart_rx_disable E m else Inr m) (\<lambda>m1.
     and_then (pause E m1) (\<lambda>m2.
       Inr (ret, m2\<lparr>transaction_sem := 1\<rparr>)))"

text \<open>
  The part common to the transactions, from the clearing of the receive buffer to the reply: the
  packet has been built in \<open>tx_buf\<close>. \<open>settle\<close> is the sleep of the write transaction before it
  transmits. The result is \<open>M_OK\<close> when the reply semaphore has been given; the write transaction
  does not take the mutex after that wait.
\<close>

definition exchange :: "uart_env \<Rightarrow> bool \<Rightarrow> nat \<Rightarrow> modbusrtu_device \<Rightarrow> (mrc \<times> modbusrtu_device) res" where
  "exchange E settle n m =
     and_then (uart_rx_disable E ((set_data (replicate MODBUS_MSG_SIZE 0) 0 m)\<lparr>rx_sem := 0, tx_sem := 0\<rparr>)) (\<lambda>m0.
     and_then (if settle then pause E m0 else Inr m0) (\<lambda>m1.
       let m2 = uart_call (Tx (take n (tx_buf m1))) m1 in
       if tx_ret E \<noteq> 0 then Inr (M_uart (tx_ret E), k_mutex_unlock m2)
       else
         let m3 = k_mutex_unlock (uart_call (Rx_enable 0) m2) in
         if rx_enable_ret E \<noteq> 0 then Inr (M_uart (rx_enable_ret E), m3)
         else
           and_then (take_tx E m3) (\<lambda>(got, m4).
             if \<not> got then and_then (uart_rx_disable E m4) (\<lambda>m5. Inr (M_ETIMEDOUT, m5))
             else if \<not> tx_done m4 then and_then (uart_rx_disable E m4) (\<lambda>m5. Inr (M_EIO, m5))
             else
               and_then (take_rx E m4) (\<lambda>(got, m5).
                 let m6 = (if settle then m5 else k_mutex_lock m5) in
                 and_then (uart_rx_disable E m6) (\<lambda>m7.
                   let m8 = (if settle then m7 else k_mutex_unlock m7) in
                   Inr (if \<not> got then M_ETIMEDOUT else last_error m7, m8))))))"

text \<open>What follows the reply: the delay between frames after a success, and the cleanup.\<close>

definition finish :: "uart_env \<Rightarrow> mrc \<Rightarrow> modbusrtu_device \<Rightarrow> (mrc \<times> modbusrtu_device) res" where
  "finish E ret m = and_then (if ret = M_OK then pause E m else Inr m) (cleanup E ret)"

text \<open>\<open>k_sem_take\<close> on the transaction semaphore; only a transaction gives it.\<close>

definition take_transaction :: "uart_env \<Rightarrow> modbusrtu_device \<Rightarrow> (bool \<times> modbusrtu_device) res" where
  "take_transaction E m =
     (if transaction_sem m = 0 then and_then (pause E m) (\<lambda>m1. Inr (False, m1))
      else Inr (True, m\<lparr>transaction_sem := 0\<rparr>))"

definition hi_byte :: "u16 \<Rightarrow> u8" where
  "hi_byte w = ucast (drop_bit 8 w AND 0xFF)"

definition lo_byte :: "u16 \<Rightarrow> u8" where
  "lo_byte w = ucast (w AND 0xFF)"

definition start_request :: "u16 \<Rightarrow> modbusrtu_device \<Rightarrow> modbusrtu_device" where
  "start_request reg_addr m =
     m\<lparr>slave_reg_addr := reg_addr, rx_ready := False, tx_done := False, last_error := M_OK\<rparr>"

definition read_request :: "u8 \<Rightarrow> u16 \<Rightarrow> u16 \<Rightarrow> u16 \<Rightarrow> modbusrtu_device \<Rightarrow> modbusrtu_device res" where
  "read_request func_code dev_addr reg_addr n m =
     (let m1 = start_request reg_addr m in
      and_then (store_seq (tx_buf m1) 0 [ucast dev_addr, func_code, hi_byte reg_addr, lo_byte reg_addr, hi_byte n, lo_byte n])
        (\<lambda>t. and_then (Modbus_CRC16 t 6)
        (\<lambda>crc_value. and_then (store_seq t 6 [lo_byte crc_value, hi_byte crc_value])
        (\<lambda>t'. Inr (m1\<lparr>tx_buf := t', request_len := n * 2 + 5\<rparr>)))))"

text \<open>
  A read transaction; \<open>want\<close> says that the pointer \<open>values\<close> is not null, and then the copied
  registers are part of the result. The two read functions differ in the function code only.
\<close>

definition modbus_read :: "uart_env \<Rightarrow> u8 \<Rightarrow> u16 \<Rightarrow> u16 \<Rightarrow> bool \<Rightarrow> u16 \<Rightarrow> modbusrtu_device \<Rightarrow>
    (mrc \<times> u16 list option \<times> modbusrtu_device) res" where
  "modbus_read E func_code dev_addr reg_addr want n m =
     (if dev_addr = 0 \<or> 247 < dev_addr then Inr (M_EINVAL, None, m)
      else if n = 0 \<or> 125 < n then Inr (M_EINVAL, None, m)
      else if 0xFFFF < unat reg_addr + unat n then Inr (M_ERANGE, None, m)
      else if MODBUS_MAX_REGISTERS < unat reg_addr + unat n then Inr (M_ERANGE, None, m)
      else
        and_then (take_transaction E m) (\<lambda>(got, m1).
          if \<not> got then Inr (M_EBUSY, None, m1)
          else
            and_then (read_request func_code dev_addr reg_addr n (k_mutex_lock m1)) (\<lambda>m2.
            and_then (exchange E False 8 m2) (\<lambda>(ret, m3).
            and_then (if ret = M_OK \<and> want
                      then and_then (load_seq (registers m3) (unat reg_addr) (unat n)) (\<lambda>vs. Inr (Some vs))
                      else Inr None) (\<lambda>values.
            and_then (finish E ret m3) (\<lambda>(ret', m4). Inr (ret', values, m4)))))))"

definition amd_crb_modbusrtu_read :: "uart_env \<Rightarrow> u16 \<Rightarrow> u16 \<Rightarrow> bool \<Rightarrow> u16 \<Rightarrow> modbusrtu_device \<Rightarrow>
    (mrc \<times> u16 list option \<times> modbusrtu_device) res" where
  "amd_crb_modbusrtu_read E = modbus_read E 0x04"

definition amd_crb_modbusrtu_read_holding_registers :: "uart_env \<Rightarrow> u16 \<Rightarrow> u16 \<Rightarrow> bool \<Rightarrow> u16 \<Rightarrow> modbusrtu_device \<Rightarrow>
    (mrc \<times> u16 list option \<times> modbusrtu_device) res" where
  "amd_crb_modbusrtu_read_holding_registers E = modbus_read E 0x03"

text \<open>The loop that stores the bytes of the values swapped in pairs, \<open>k\<close> pairs from index \<open>num\<close> on.\<close>

fun fill_pairs :: "nat \<Rightarrow> nat \<Rightarrow> u8 list \<Rightarrow> u8 list \<Rightarrow> u8 list res" where
  "fill_pairs 0 num v t = Inr t"
| "fill_pairs (Suc k) num v t =
     and_then (ld v (num + 1)) (\<lambda>a.
     and_then (st t (7 + num) a) (\<lambda>t1.
     and_then (ld v num) (\<lambda>b.
     and_then (st t1 (8 + num) b) (fill_pairs k (num + 2) v))))"

definition write_request :: "u16 \<Rightarrow> u16 \<Rightarrow> u8 list \<Rightarrow> u32 \<Rightarrow> modbusrtu_device \<Rightarrow> (nat \<times> modbusrtu_device) res" where
  "write_request dev_addr reg_addr v n m =
     (let is_odd = n mod 2 \<noteq> 0; actual_len = (if is_odd then n + 1 else n) in
      and_then (store_seq (tx_buf m) 0 [ucast dev_addr, 0x10, hi_byte reg_addr, lo_byte reg_addr, 0,
        ucast (actual_len div 2), ucast actual_len]) (\<lambda>t0.
      and_then (fill_pairs (unat n div 2) 0 v t0) (\<lambda>t1.
      and_then (if is_odd
                then and_then (st t1 (7 + (unat n - 1)) 0) (\<lambda>t.
                  and_then (ld v (unat n - 1)) (st t (8 + (unat n - 1))))
                else Inr t1) (\<lambda>t2.
      and_then (Modbus_CRC16 t2 (ucast (7 + actual_len))) (\<lambda>crc_value.
      and_then (store_seq t2 (7 + unat actual_len) [lo_byte crc_value, hi_byte crc_value]) (\<lambda>t3.
        Inr (9 + unat actual_len, start_request reg_addr (m\<lparr>tx_buf := t3\<rparr>))))))))"

definition amd_crb_modbusrtu_write :: "uart_env \<Rightarrow> u16 \<Rightarrow> u16 \<Rightarrow> u8 list option \<Rightarrow> u32 \<Rightarrow> modbusrtu_device \<Rightarrow>
    (mrc \<times> modbusrtu_device) res" where
  "amd_crb_modbusrtu_write E dev_addr reg_addr value_opt n m =
     (if dev_addr = 0 \<or> 247 < dev_addr then Inr (M_EINVAL, m)
      else
        case value_opt of
          None \<Rightarrow> Inr (M_EINVAL, m)
        | Some v \<Rightarrow>
            if n = 0 \<or> MODBUS_MSG_SIZE - 9 < unat n then Inr (M_EINVAL, m)
            else if 0xFFFF < unat reg_addr + unat (n div 2) then Inr (M_ERANGE, m)
            else
              and_then (take_transaction E m) (\<lambda>(got, m1).
                if \<not> got then Inr (M_EBUSY, m1)
                else
                  and_then (write_request dev_addr reg_addr v n (k_mutex_lock m1)) (\<lambda>(k, m2).
                  and_then (exchange E True k m2) (\<lambda>(ret, m3). finish E ret m3))))"

end
