(* ===== verification/Modbus_Crc.thy ===== *)
theory Modbus_Crc
  imports Modbus
begin

text \<open>
  The CRC-16 of \<open>src/drivers/amd_crb_modbusrtu_driver.c\<close> against the bit-serial definition of the
  Modbus CRC (initial value \<open>0xFFFF\<close>, reflected polynomial \<open>0xA001\<close>).
\<close>

section \<open>Reference\<close>

definition crc16_shift :: "u16 \<Rightarrow> u16" where
  "crc16_shift c = (if bit c 0 then drop_bit 1 c XOR 0xA001 else drop_bit 1 c)"

definition crc16_byte :: "u16 \<Rightarrow> u8 \<Rightarrow> u16" where
  "crc16_byte c b = (crc16_shift ^^ 8) (c XOR ucast b)"

definition modbus_crc :: "u8 list \<Rightarrow> u16" where
  "modbus_crc bs = foldl crc16_byte 0xFFFF bs"

section \<open>The tables\<close>

fun crc_tables_ok :: "nat \<Rightarrow> u8 list \<Rightarrow> u8 list \<Rightarrow> bool" where
  "crc_tables_ok n [] [] = True"
| "crc_tables_ok n (h # hs) (l # ls) =
     (be_word h l = crc16_shift (crc16_shift (crc16_shift (crc16_shift (crc16_shift (crc16_shift
        (crc16_shift (crc16_shift (word_of_nat n)))))))) \<and> crc_tables_ok (n + 1) hs ls)"
| "crc_tables_ok n hs ls = False"

lemma crc_tables_nth:
  "crc_tables_ok n hs ls \<Longrightarrow> i < length hs \<Longrightarrow> be_word (hs ! i) (ls ! i) = (crc16_shift ^^ 8) (word_of_nat (n + i))"
proof (induction n hs ls arbitrary: i rule: crc_tables_ok.induct)
  case (2 n h hs l ls)
  then show ?case by (cases i) (simp_all add: eval_nat_numeral algebra_simps)
qed simp_all

lemma crc_tables: "crc_tables_ok 0 CRC16Low CRC16High"
  by (simp add: CRC16Low_def CRC16High_def crc16_shift_def be_word_def)

lemma crc_table_length: "length CRC16Low = 256"
  by (simp add: CRC16Low_def)

lemma crc16_shift_xor: "crc16_shift (x XOR y) = crc16_shift x XOR crc16_shift y"
  by (simp add: crc16_shift_def bit_xor_iff drop_bit_xor ac_simps)

lemma crc16_shifts_xor: "(crc16_shift ^^ n) (x XOR y) = (crc16_shift ^^ n) x XOR (crc16_shift ^^ n) y"
  by (induction n) (simp_all add: crc16_shift_xor)

lemma crc16_shift_even: "n < 8 \<Longrightarrow> crc16_shift (push_bit (Suc n) (ucast (h :: u8))) = push_bit n (ucast h)"
  by (rule bit_word_eqI) (auto simp: crc16_shift_def bit_simps simp del: push_bit_Suc dest: bit_imp_le_length)

lemma crc16_shifts_high: "n \<le> 8 \<Longrightarrow> (crc16_shift ^^ n) (push_bit n (ucast (h :: u8))) = ucast h"
  by (induction n) (simp_all add: crc16_shift_even funpow_Suc_right del: funpow.simps push_bit_Suc)

lemma be_word_xor: "be_word x y = push_bit 8 (ucast x) XOR ucast y"
  by (rule bit_word_eqI) (auto simp: be_word_def bit_simps dest: bit_imp_le_length)

lemma crc_table_entry: "be_word (CRC16Low ! unat i) (CRC16High ! unat i) = (crc16_shift ^^ 8) (ucast (i :: u8))"
  using crc_tables_nth [OF crc_tables, of "unat i"] unsigned_less [of i, where ?'a = nat]
  by (simp add: crc_table_length)

lemma crc_step:
  "be_word (CRC16Low ! unat (low XOR b)) (h XOR CRC16High ! unat (low XOR b)) = crc16_byte (be_word h low) b"
proof -
  define i where "i = low XOR b"
  have "crc16_byte (be_word h low) b = (crc16_shift ^^ 8) (push_bit 8 (ucast h) XOR ucast i)"
    by (simp only: crc16_byte_def be_word_xor unsigned_xor_eq xor.assoc i_def)
  also have "\<dots> = ucast h XOR (crc16_shift ^^ 8) (ucast i)"
    using crc16_shifts_high [of 8 h] by (simp add: crc16_shifts_xor)
  also have "\<dots> = be_word (CRC16Low ! unat i) (h XOR CRC16High ! unat i)"
    unfolding crc_table_entry [symmetric] by (simp only: be_word_xor unsigned_xor_eq ac_simps)
  finally show ?thesis by (simp add: i_def)
qed

lemma crc_loop_short: "length buf < n \<Longrightarrow> crc_loop n buf h low = Inl Out_of_bounds"
  by (induction n buf h low rule: crc_loop.induct) (simp_all add: Let_def)

lemma crc_loop_ok:
  "n \<le> length buf \<Longrightarrow> \<exists>h' low'. crc_loop n buf h low = Inr (h', low') \<and>
      be_word h' low' = foldl crc16_byte (be_word h low) (take n buf)"
  by (induction n buf h low rule: crc_loop.induct) (simp_all add: Let_def crc_step)

text \<open>
  C36. The table-driven CRC is the bit-serial CRC-16 of the first \<open>buf_length\<close> bytes, for every
  buffer and length; a buffer that is shorter than the length is read beyond its end.
\<close>

theorem modbus_crc_table_driven:
  "Modbus_CRC16 buff n =
     (if length buff < unat n then Inl Out_of_bounds else Inr (modbus_crc (take (unat n) buff)))"
proof (cases "length buff < unat n")
  case True
  then show ?thesis by (simp add: Modbus_CRC16_def crc_loop_short)
next
  case False
  then obtain h low where "crc_loop (unat n) buff 0xFF 0xFF = Inr (h, low)"
      "be_word h low = foldl crc16_byte (be_word 0xFF 0xFF) (take (unat n) buff)"
    using crc_loop_ok [where n = "unat n" and buf = buff and h = "0xFF" and low = "0xFF"] by auto
  with False show ?thesis by (simp add: Modbus_CRC16_def modbus_crc_def be_word_def)
qed

end
