(* ===== verification/Modbus_Props.thy ===== *)
theory Modbus_Props
  imports Modbus_Crc
begin

text \<open>
  What the Modbus RTU driver does with replies: however the UART cuts a reply into pieces, a read
  transaction stores the registers of the reply and hands them out; but a reply is not checked against the request.
\<close>

section \<open>Well-formed device state\<close>

definition mb_wf :: "modbusrtu_device \<Rightarrow> bool" where
  "mb_wf m \<longleftrightarrow> length (rx_buf_pool m) = 2 \<and> (\<forall>b < 2. length (rb_data (rx_buf_pool m ! b)) = 2560) \<and>
     length (registers m) = 4096 \<and> length (tx_buf m) = 2560"

text \<open>The frame state in the middle of the frame \<open>fr\<close>, of which \<open>acc\<close> has arrived.\<close>

definition partial_frame :: "u8 list \<Rightarrow> u8 list \<Rightarrow> frame_rx_state" where
  "partial_frame fr acc = \<lparr>frame_buf = acc @ replicate (2560 - length acc) 0, frame_len = of_nat (length acc),
     frame_started = (acc \<noteq> []), frame_complete = (acc = fr),
     expected_len = (if length acc < 3 then 0 else of_nat (length fr))\<rparr>"

text \<open>The frame state between frames.\<close>

definition no_frame :: frame_rx_state where
  "no_frame = \<lparr>frame_buf = replicate 2560 0, frame_len = 0, frame_started = False, frame_complete = False,
     expected_len = 0\<rparr>"

text \<open>A frame whose header announces its length.\<close>

definition announced :: "u8 list \<Rightarrow> bool" where
  "announced fr \<longleftrightarrow> 5 \<le> length fr \<and> length fr \<le> 257 \<and> parse_frame_header fr 3 = Some (of_nat (length fr))"

lemma partial_nil: "fr \<noteq> [] \<Longrightarrow> partial_frame fr [] = no_frame"
  by (simp add: partial_frame_def no_frame_def)

lemma unlock_lock: "k_mutex_unlock (k_mutex_lock m) = m"
  by (simp add: k_mutex_lock_def k_mutex_unlock_def)

lemma reset_eq: "reset_frame_state m = m\<lparr>frame_state := no_frame\<rparr>"
  by (simp add: reset_frame_state_def k_mutex_lock_def k_mutex_unlock_def no_frame_def MODBUS_MAX_FRAME_SIZE_def)

lemma release_eq: "release_rx_buf b m = set_in_use False b m"
  by (simp add: release_rx_buf_def k_mutex_lock_def k_mutex_unlock_def set_in_use_def)

lemma wf_updates [simp]:
  "b < 2 \<Longrightarrow> mb_wf m \<Longrightarrow> mb_wf (set_in_use u b m)"
  "b < 2 \<Longrightarrow> length xs = 2560 \<Longrightarrow> mb_wf m \<Longrightarrow> mb_wf (set_data xs b m)"
  "mb_wf (k_mutex_lock m) = mb_wf m" "mb_wf (k_mutex_unlock m) = mb_wf m" "mb_wf (uart_call c m) = mb_wf m"
  by (auto simp: mb_wf_def set_in_use_def set_data_def nth_list_update k_mutex_lock_def k_mutex_unlock_def uart_call_def)

lemma header_prefix:
  assumes "3 \<le> n" "n \<le> 2560" "length acc = n" "take n fr = acc" "n \<le> length fr"
  shows "parse_frame_header (acc @ ys) (of_nat n) = parse_frame_header fr 3"
proof -
  have "take n fr ! 1 = fr ! 1" "take n fr ! 2 = fr ! 2" using assms(1) by simp_all
  moreover have "1 < length acc" "2 < length acc" using assms by simp_all
  ultimately have "(acc @ ys) ! 1 = fr ! 1" "(acc @ ys) ! 2 = fr ! 2" using assms(4) by (simp_all only: nth_append if_True)
  moreover have "\<not> (of_nat n :: u16) < 3"
    using assms by (simp add: word_less_nat_alt unsigned_of_nat take_bit_nat_eq_self)
  ultimately show ?thesis
    using assms by (simp add: parse_frame_header_def Let_def)
qed

lemma piece_added:
  assumes fr: "announced fr" and e: "fr = acc @ xs @ rest" and xs: "xs \<noteq> []" and short: "acc \<noteq> fr"
  shows "check_complete (append_frame xs (partial_frame fr acc)) = partial_frame fr (acc @ xs)"
proof -
  define a where "a = acc @ xs"
  have e': "fr = a @ rest" and k: "length a = length acc + length xs" "a \<noteq> []" using e xs by (simp_all add: a_def)
  have len: "length a \<le> length fr" "length fr \<le> 257" "5 \<le> length fr" using fr e' by (auto simp: announced_def)
  have u: "unat (of_nat j :: u16) = j" if "j \<le> 257" for j
    using that by (simp add: unsigned_of_nat take_bit_nat_eq_self)
  let ?f = "\<lparr>frame_buf = a @ replicate (2560 - length a) 0, frame_len = of_nat (length a),
     frame_started = True, frame_complete = False, expected_len = (if length acc < 3 then 0 else of_nat (length fr))\<rparr>"
  have a: "append_frame xs (partial_frame fr acc) = ?f"
    using len short k u [of "length acc"] by (simp add: append_frame_def partial_frame_def put_def a_def)
  have c: "(of_nat (length fr) :: u16) \<le> of_nat (length a) \<longleftrightarrow> a = fr"
    using len e' u [of "length fr"] u [of "length a"] by (auto simp: word_le_nat_alt)
  have z: "(of_nat (length fr) :: u16) \<noteq> 0" "0 < (of_nat (length fr) :: u16)"
    using len u [of "length fr"] by (auto simp: word_less_nat_alt simp flip: unat_eq_0)
  have h: "parse_frame_header (a @ replicate (2560 - length a) 0) (of_nat (length a)) =
      (if length a < 3 then None else Some (of_nat (length fr)))"
  proof (cases "length a < 3")
    case True
    then show ?thesis using u [of "length a"] by (simp add: parse_frame_header_def word_less_nat_alt)
  next
    case False
    then show ?thesis
      using len e' fr header_prefix [of "length a" a fr] by (simp add: announced_def)
  qed
  have "check_complete ?f = partial_frame fr a"
  proof (cases "length a < 3")
    case True
    then have "a \<noteq> fr" "\<not> 8 \<le> length a" using len by auto
    with True h k u [of "length a"] show ?thesis
      by (simp add: check_complete_def MODBUS_MIN_FRAME_SIZE_def partial_frame_def)
  next
    case False
    with h c z k show ?thesis by (auto simp: check_complete_def partial_frame_def)
  qed
  with a show ?thesis by (simp add: a_def)
qed

section \<open>A frame in pieces\<close>

text \<open>A piece is stored by the DMA at an offset of a buffer, and then announced.\<close>

definition deliver :: "nat \<times> nat \<times> u8 list \<Rightarrow> hw list" where
  "deliver p = (case p of (b, off, xs) \<Rightarrow> [Dma b off xs, Event (UART_RX_RDY b off (length xs))])"

definition piece_ok :: "nat \<times> nat \<times> u8 list \<Rightarrow> bool" where
  "piece_ok p \<longleftrightarrow> (case p of (b, off, xs) \<Rightarrow> b < 2 \<and> xs \<noteq> [] \<and> off + length xs \<le> 2560)"

definition piece_bytes :: "nat \<times> nat \<times> u8 list \<Rightarrow> u8 list" where
  "piece_bytes p = snd (snd p)"

lemma piece_bytes_simp [simp]: "piece_bytes (b, off, xs) = xs"
  by (simp add: piece_bytes_def)

lemma wf_fields [simp]:
  "mb_wf (m\<lparr>frame_state := f\<rparr>) = mb_wf m" "mb_wf (m\<lparr>rx_ready := u\<rparr>) = mb_wf m" "mb_wf (m\<lparr>last_error := e\<rparr>) = mb_wf m"
  "mb_wf (m\<lparr>inputs := i\<rparr>) = mb_wf m" "mb_wf (m\<lparr>rx_sem := k\<rparr>) = mb_wf m" "mb_wf (m\<lparr>tx_sem := k\<rparr>) = mb_wf m"
  "mb_wf (m\<lparr>tx_done := u\<rparr>) = mb_wf m"
  "mb_wf (m\<lparr>frame_state := f, rx_buf_pool := pool\<rparr>) = mb_wf (m\<lparr>rx_buf_pool := pool\<rparr>)"
  by (simp_all add: mb_wf_def)

lemma and_then_nil [simp]: "and_then r (hw_run E []) = r"
  by (cases r) simp_all

lemma deliver_piece:
  assumes wf: "mb_wf m" and fr: "announced fr" and e: "fr = acc @ xs @ rest" and short: "acc \<noteq> fr"
    and f: "frame_state m = partial_frame fr acc" and ok: "piece_ok (b, off, xs)"
  obtains pool where "mb_wf (m\<lparr>rx_buf_pool := pool\<rparr>)"
    and "hw_run E (deliver (b, off, xs)) m =
      (let m1 = m\<lparr>rx_buf_pool := pool, frame_state := partial_frame fr (acc @ xs)\<rparr>
       in if acc @ xs = fr then process_frame m1 else Inr m1)"
proof -
  define d where "d = rb_data (rx_buf_pool m ! b)"
  define d' where "d' = take off d @ xs @ drop (off + length xs) d"
  define m1 where "m1 = set_data d' b m"
  define m2 where "m2 = set_in_use False b (m1\<lparr>frame_state := partial_frame fr (acc @ xs)\<rparr>)"
  have b: "b < 2" "xs \<noteq> []" "off + length xs \<le> 2560" "length d = 2560" "length (rx_buf_pool m) = 2"
    using ok wf by (simp_all add: piece_ok_def mb_wf_def d_def)
  have f1: "frame_state m1 = partial_frame fr acc" using f by (simp add: m1_def set_data_def)
  have "length acc + length xs \<le> 257" using fr e by (auto simp: announced_def)
  then have n: "unat (frame_len (frame_state m1)) + length xs \<le> 2560"
    using f1 by (simp add: partial_frame_def unsigned_of_nat take_bit_nat_eq_self)
  have "length d' = 2560" "rb_data (rx_buf_pool m1 ! b) = d'" using b by (simp_all add: m1_def set_data_def d'_def)
  then have l: "load_seq (rb_data (rx_buf_pool m1 ! b)) off (length xs) = Inr xs"
    using b by (simp add: load_seq_ok d'_def)
  have c: "check_complete (append_frame xs (frame_state m1)) = partial_frame fr (acc @ xs)"
    using piece_added [OF fr e b(2) short] f1 by simp
  have f2: "frame_complete (frame_state m2) \<longleftrightarrow> acc @ xs = fr"
    by (simp add: m2_def set_in_use_def partial_frame_def)
  have dma: "hw_step E (Dma b off xs) m = Inr m1"
    using b by (simp add: hw_step_def RX_BUF_POOL_SIZE_def store_seq_ok m1_def d'_def flip: d_def)
  have rdy: "hw_step E (Event (UART_RX_RDY b off (length xs))) m1 =
      (if frame_complete (frame_state m2) then process_frame m2 else Inr m2)"
    using b n l c
    by (simp add: hw_step_def uart_callback_def uart_rx_rdy_def RX_BUF_POOL_SIZE_def MODBUS_MAX_FRAME_SIZE_def release_eq
        Let_def flip: m2_def)
  have m2: "m2 = m\<lparr>rx_buf_pool := rx_buf_pool m2, frame_state := partial_frame fr (acc @ xs)\<rparr>"
    by (simp add: m2_def m1_def set_in_use_def set_data_def)
  have "mb_wf m2" using wf b \<open>length d' = 2560\<close> by (simp add: m2_def m1_def)
  then have "mb_wf (m\<lparr>rx_buf_pool := rx_buf_pool m2\<rparr>)"
    by (subst (asm) m2) (simp add: mb_wf_def)
  moreover have "hw_run E (deliver (b, off, xs)) m = (if acc @ xs = fr then process_frame m2 else Inr m2)"
    by (simp add: deliver_def dma rdy f2)
  ultimately show ?thesis using that [of "rx_buf_pool m2"] m2 by (simp add: Let_def)
qed

lemma hw_run_append: "hw_run E (hs @ ks) m = and_then (hw_run E hs m) (hw_run E ks)"
  by (induction hs arbitrary: m) (simp_all add: and_then_def split: sum.splits)

lemma deliver_frame:
  assumes "mb_wf m" "announced fr" "frame_state m = partial_frame fr acc" "fr = acc @ concat (map piece_bytes ps)"
    and "acc \<noteq> fr" "list_all piece_ok ps"
  shows "\<exists>pool. mb_wf (m\<lparr>rx_buf_pool := pool\<rparr>) \<and> hw_run E (concat (map deliver ps)) m =
    process_frame (m\<lparr>rx_buf_pool := pool, frame_state := partial_frame fr fr\<rparr>)"
  using assms
proof (induction ps arbitrary: m acc)
  case (Cons p ps)
  obtain b off xs where p: "p = (b, off, xs)" by (cases p)
  have e: "fr = acc @ xs @ concat (map piece_bytes ps)" and ok: "piece_ok (b, off, xs)"
    using Cons.prems by (simp_all add: p)
  obtain pool where wf: "mb_wf (m\<lparr>rx_buf_pool := pool\<rparr>)"
    and run: "hw_run E (deliver p) m = (let m1 = m\<lparr>rx_buf_pool := pool, frame_state := partial_frame fr (acc @ xs)\<rparr>
       in if acc @ xs = fr then process_frame m1 else Inr m1)"
    using deliver_piece [OF Cons.prems(1,2) e Cons.prems(5,3) ok] by (auto simp: p)
  show ?case
  proof (cases "acc @ xs = fr")
    case True
    then have "concat (map piece_bytes ps) = []" using e by simp
    then have "ps = []" using Cons.prems(6) by (cases ps) (auto simp: piece_ok_def)
    with True wf run show ?thesis by auto
  next
    case False
    let ?m = "m\<lparr>rx_buf_pool := pool, frame_state := partial_frame fr (acc @ xs)\<rparr>"
    have "\<exists>pool'. mb_wf (?m\<lparr>rx_buf_pool := pool'\<rparr>) \<and> hw_run E (concat (map deliver ps)) ?m =
        process_frame (?m\<lparr>rx_buf_pool := pool', frame_state := partial_frame fr fr\<rparr>)"
      using wf Cons.prems False e by (intro Cons.IH [of ?m "acc @ xs"]) simp_all
    with False run show ?thesis by (simp add: hw_run_append)
  qed
qed simp

section \<open>Whole frames\<close>

definition with_crc :: "u8 list \<Rightarrow> u8 list" where
  "with_crc bs = bs @ [lo_byte (modbus_crc bs), hi_byte (modbus_crc bs)]"

text \<open>The reply of the slave \<open>addr\<close> to a read: its registers, each with the high byte first.\<close>

definition words_be :: "u16 list \<Rightarrow> u8 list" where
  "words_be ws = concat (map (\<lambda>w. [hi_byte w, lo_byte w]) ws)"

definition read_reply_frame :: "u8 \<Rightarrow> u8 \<Rightarrow> u16 list \<Rightarrow> u8 list" where
  "read_reply_frame addr func_code ws = with_crc ([addr, func_code, of_nat (2 * length ws)] @ words_be ws)"

lemma byte_mask: "(0xFF :: u16) = mask 8"
  by (simp add: mask_eq_exp_minus_1)

lemma bit_lo_byte: "bit (lo_byte w) n \<longleftrightarrow> n < 8 \<and> bit w n"
  unfolding lo_byte_def byte_mask by (auto simp: bit_simps)

lemma bit_hi_byte: "bit (hi_byte w) n \<longleftrightarrow> n < 8 \<and> bit w (8 + n)"
  unfolding hi_byte_def byte_mask by (auto simp: bit_simps)

lemma be_hi_lo: "be_word (hi_byte w) (lo_byte w) = w"
proof (rule bit_word_eqI)
  fix n assume "n < LENGTH(16)"
  then show "bit (be_word (hi_byte w) (lo_byte w)) n = bit w n"
    by (cases "n < 8") (auto simp: be_word_def bit_or_iff bit_push_bit_iff bit_unsigned_iff bit_lo_byte bit_hi_byte)
qed

lemma length_words_be [simp]: "length (words_be ws) = 2 * length ws"
  by (induction ws) (simp_all add: words_be_def)

lemma words_be_nth: "i < length ws \<Longrightarrow> words_be ws ! (2 * i) = hi_byte (ws ! i) \<and> words_be ws ! (2 * i + 1) = lo_byte (ws ! i)"
proof (induction ws arbitrary: i)
  case (Cons w ws)
  then show ?case by (cases i) (simp_all add: words_be_def)
qed simp

lemma put_Cons: "i < length xs \<Longrightarrow> put (Suc i) ws (xs[i := w]) = put i (w # ws) xs"
  by (simp add: put_def take_Suc_conv_app_nth)

lemma store_regs_ok:
  assumes "\<forall>i < length ws. fd ! (3 + (k + i) * 2) = hi_byte (ws ! i) \<and> fd ! (4 + (k + i) * 2) = lo_byte (ws ! i)"
    and "3 + (k + length ws) * 2 \<le> length fd" "a + k + length ws \<le> length regs"
  shows "store_regs (length ws) k fd a regs = Inr (put (a + k) ws regs)"
  using assms
proof (induction ws arbitrary: k regs)
  case Nil
  then show ?case by (simp add: put_def)
next
  case (Cons w ws)
  have fd: "fd ! (3 + k * 2) = hi_byte w" "fd ! (4 + k * 2) = lo_byte w" using Cons.prems(1) by (auto dest: spec [of _ 0])
  have "store_regs (length ws) (k + 1) fd a (regs[a + k := w]) = Inr (put (a + (k + 1)) ws (regs[a + k := w]))"
    using Cons.prems by (intro Cons.IH) (auto dest: spec [of _ "Suc _"])
  moreover have "4 + k * 2 < length fd" "a + k < length regs" using Cons.prems by simp_all
  ultimately show ?case
    using fd by (simp add: access be_hi_lo put_Cons)
qed

lemma process_crc:
  assumes fr: "fr = with_crc body" and len: "3 \<le> length body" "length body \<le> 255"
    and f: "frame_state m = partial_frame fr fr"
  shows "process_frame m =
    (if body ! 1 = 0x03 \<or> body ! 1 = 0x04 then read_reply (m\<lparr>rx_ready := True\<rparr>)
     else Inr (frame_error (if body ! 1 = 0x83 \<or> body ! 1 = 0x84 then M_EIO else if body ! 1 = 0x10 then M_OK else M_ENOTSUP)
       (m\<lparr>rx_ready := True\<rparr>)))"
proof -
  let ?fd = "frame_buf (frame_state m)" and ?n = "length body"
  have fd: "?fd = body @ [lo_byte (modbus_crc body), hi_byte (modbus_crc body)] @ replicate (2558 - ?n) 0"
    using f len by (simp add: partial_frame_def fr with_crc_def)
  have fl: "frame_len (frame_state m) = of_nat (?n + 2)"
    using f by (simp add: partial_frame_def fr with_crc_def)
  have u: "unat (frame_len (frame_state m)) = ?n + 2"
    using len fl by (simp only: unsigned_of_nat) (simp add: take_bit_nat_eq_self)
  have ge: "\<not> frame_len (frame_state m) < 4" using u len by (simp add: word_less_nat_alt)
  have "frame_len (frame_state m) - 2 = of_nat ?n" using fl by simp
  then have c: "unat (ucast (frame_len (frame_state m) - 2) :: u8) = ?n"
    using len by (simp add: unsigned_ucast_eq unsigned_of_nat take_bit_nat_eq_self)
  then have crc: "Modbus_CRC16 ?fd (ucast (frame_len (frame_state m) - 2)) = Inr (modbus_crc body)"
    using len fd by (simp add: c modbus_crc_table_driven)
  have "ld ?fd (?n + 1) = Inr (hi_byte (modbus_crc body))" "ld ?fd ?n = Inr (lo_byte (modbus_crc body))"
    using len by (simp_all add: fd ld_def nth_append)
  moreover have "?fd ! 1 = body ! 1" using len by (simp add: fd nth_append)
  ultimately show ?thesis
    using u ge crc by (simp add: process_frame_def be_hi_lo Let_def)
qed

section \<open>What a reply leaves behind\<close>

text \<open>
  \<open>answered fr reg regs e rs\<close>: a complete frame \<open>fr\<close>, received for a request at \<open>reg\<close> with the registers
  \<open>regs\<close>, ends with the error \<open>e\<close> and the registers \<open>rs\<close>, and wakes the transaction.
\<close>

definition answered :: "u8 list \<Rightarrow> u16 \<Rightarrow> u16 list \<Rightarrow> mrc \<Rightarrow> u16 list \<Rightarrow> bool" where
  "answered fr reg regs e rs \<longleftrightarrow>
     (\<forall>m. mb_wf m \<and> frame_state m = partial_frame fr fr \<and> slave_reg_addr m = reg \<and> registers m = regs \<longrightarrow>
        (\<exists>m'. process_frame m = Inr m' \<and> mb_wf m' \<and> rx_sem m' = 1 \<and> last_error m' = e \<and> registers m' = rs \<and>
           inputs m' = inputs m \<and> uart m' = uart m))"

lemma small_word:
  assumes "k < 256"
  shows "unat (of_nat k :: u8) = k" "uint (of_nat k :: u8) = int k" "(ucast (of_nat k :: u8) :: u16) = of_nat k"
    "uint (of_nat (k + 5) :: u16) = int (k + 5)"
proof -
  show u: "unat (of_nat k :: u8) = k" using assms by (simp add: unsigned_of_nat take_bit_nat_eq_self)
  then show "uint (of_nat k :: u8) = int k" by (metis of_nat_unat)
  have "unat (ucast (of_nat k :: u8) :: u16) = unat (of_nat k :: u16)"
    using assms u by (simp add: unsigned_ucast_eq unsigned_of_nat take_bit_nat_eq_self)
  then show "(ucast (of_nat k :: u8) :: u16) = of_nat k" by (rule unsigned_word_eqI)
  have "unat (of_nat (k + 5) :: u16) = k + 5" using assms by (simp add: unsigned_of_nat take_bit_nat_eq_self del: of_nat_add)
  then show "uint (of_nat (k + 5) :: u16) = int (k + 5)" by (metis of_nat_unat)
qed

lemma announced_read:
  assumes "func_code = 0x03 \<or> func_code = 0x04" "length ws \<le> 126"
  shows "announced (read_reply_frame addr func_code ws)"
proof -
  have "(ucast (of_nat (2 * length ws) :: u8) :: u16) = of_nat (2 * length ws)"
    using assms(2) by (intro small_word) simp
  with assms show ?thesis
    by (auto simp: announced_def read_reply_frame_def with_crc_def parse_frame_header_def)
qed

lemma read_answered:
  assumes fc: "func_code = 0x03 \<or> func_code = 0x04" and n: "length ws \<le> 126" and a: "unat reg + length ws \<le> 4096"
    and regs: "length regs = 4096"
  shows "answered (read_reply_frame addr func_code ws) reg regs M_OK (put (unat reg) ws regs)"
  unfolding answered_def
proof (intro allI impI)
  fix m :: modbusrtu_device
  let ?body = "[addr, func_code, of_nat (2 * length ws)] @ words_be ws" and ?fr = "read_reply_frame addr func_code ws"
  assume m: "mb_wf m \<and> frame_state m = partial_frame ?fr ?fr \<and> slave_reg_addr m = reg \<and> registers m = regs"
  have fr: "?fr = with_crc ?body" by (simp add: read_reply_frame_def)
  have p: "process_frame m = read_reply (m\<lparr>rx_ready := True\<rparr>)"
    using process_crc [OF fr] m fc n by auto
  have fb: "frame_buf (frame_state m) = [addr, func_code, of_nat (2 * length ws)] @ words_be ws @
      [lo_byte (modbus_crc ?body), hi_byte (modbus_crc ?body)] @ replicate (2555 - 2 * length ws) 0"
    using m by (simp add: partial_frame_def fr with_crc_def)
  have fl: "frame_len (frame_state m) = of_nat (2 * length ws + 5)"
    using m by (simp add: partial_frame_def fr with_crc_def)
  have u: "unat (of_nat (2 * length ws) :: u8) = 2 * length ws" "uint (of_nat (2 * length ws) :: u8) = int (2 * length ws)"
    "uint (frame_len (frame_state m)) = int (2 * length ws + 5)"
    using n small_word [of "2 * length ws"] by (simp_all add: fl)
  have s: "store_regs (length ws) 0 (frame_buf (frame_state m)) (unat reg) regs = Inr (put (unat reg + 0) ws regs)"
  proof (rule store_regs_ok)
    have "frame_buf (frame_state m) ! (3 + j) = words_be ws ! j" if "j < 2 * length ws" for j
      using that by (simp add: fb nth_append)
    from this [of "2 * i" for i] this [of "2 * i + 1" for i]
    show "\<forall>i < length ws. frame_buf (frame_state m) ! (3 + (0 + i) * 2) = hi_byte (ws ! i) \<and>
        frame_buf (frame_state m) ! (4 + (0 + i) * 2) = lo_byte (ws ! i)"
      using words_be_nth [of _ ws] by (auto simp: mult.commute)
  qed (use a regs fb n in simp_all)
  have d: "frame_buf (frame_state m) ! 2 = of_nat (2 * length ws)" by (simp add: fb)
  have r: "slave_reg_addr m = reg" "registers m = regs" using m by simp_all
  have "read_reply (m\<lparr>rx_ready := True\<rparr>) = Inr (k_sem_give_rx (reset_frame_state (m\<lparr>rx_ready := True,
      slave_data_len := of_nat (2 * length ws), registers := put (unat reg) ws regs, last_error := M_OK\<rparr>)))"
    using s a u by (simp add: read_reply_def Let_def d r MODBUS_MAX_REGISTERS_def)
  then show "\<exists>m'. process_frame m = Inr m' \<and> mb_wf m' \<and> rx_sem m' = 1 \<and> last_error m' = M_OK \<and>
      registers m' = put (unat reg) ws regs \<and> inputs m' = inputs m \<and> uart m' = uart m"
    using m a regs by (simp add: p reset_eq k_sem_give_rx_def mb_wf_def)
qed

text \<open>The acknowledgement of a write carries the function code \<open>0x10\<close>.\<close>

definition ack_frame :: "u8 \<Rightarrow> u16 \<Rightarrow> u16 \<Rightarrow> u8 list" where
  "ack_frame addr start count = with_crc [addr, 0x10, hi_byte start, lo_byte start, hi_byte count, lo_byte count]"

lemma announced_ack: "announced (ack_frame addr start count)"
  by (simp add: announced_def ack_frame_def with_crc_def parse_frame_header_def)

lemma ack_answered: "answered (ack_frame addr start count) reg regs M_OK regs"
  unfolding answered_def
  by (auto simp: process_crc [OF ack_frame_def] frame_error_def reset_eq k_sem_give_rx_def mb_wf_def)

section \<open>Transactions\<close>

text \<open>
  Calls of the UART driver that the driver makes on its own while a transaction runs: handing over
  and taking back receive buffers, and reporting that reception has been switched off.
\<close>

fun quiet :: "hw \<Rightarrow> bool" where
  "quiet (Event UART_RX_BUF_REQUEST) = True"
| "quiet (Event (UART_RX_BUF_RELEASED b)) = True"
| "quiet (Event UART_RX_DISABLED) = True"
| "quiet h = False"

definition kept :: "modbusrtu_device \<Rightarrow> modbusrtu_device \<Rightarrow> bool" where
  "kept m m' \<longleftrightarrow> mb_wf m' \<and> registers m' = registers m \<and> last_error m' = last_error m \<and>
     slave_reg_addr m' = slave_reg_addr m \<and> tx_done m' = tx_done m \<and> tx_buf m' = tx_buf m \<and> rx_sem m' = rx_sem m \<and>
     tx_sem m' = tx_sem m \<and> transaction_sem m' = transaction_sem m \<and> inputs m' = inputs m \<and>
     (frame_state m = no_frame \<longrightarrow> frame_state m' = no_frame) \<and> set (uart m) \<subseteq> set (uart m')"

lemma kept_refl: "mb_wf m \<Longrightarrow> kept m m"
  by (simp add: kept_def)

lemma kept_wf: "kept m m' \<Longrightarrow> mb_wf m'"
  by (simp add: kept_def)

lemma kept_trans: "kept m m' \<Longrightarrow> kept m' m'' \<Longrightarrow> kept m m''"
  by (auto simp: kept_def)

lemma kept_buffers:
  "mb_wf m \<Longrightarrow> b < 2 \<Longrightarrow> kept m (set_in_use u b m)"
  "mb_wf m \<Longrightarrow> b < 2 \<Longrightarrow> length xs = 2560 \<Longrightarrow> kept m (set_data xs b m)"
  "mb_wf m \<Longrightarrow> kept m (uart_call c m)"
  by (simp_all add: kept_def) (auto simp: set_in_use_def set_data_def uart_call_def)

lemma quiet_step:
  assumes q: "quiet h" and wf: "mb_wf m"
  shows "\<exists>m'. hw_step E h m = Inr m' \<and> kept m m'"
proof (cases h rule: quiet.cases)
  case 1
  show ?thesis
  proof (cases "get_free_rx_buf m")
    case (Some b)
    then have b: "b < 2" by (auto simp: get_free_rx_buf_def RX_BUF_POOL_SIZE_def find_Some_iff)
    let ?m = "uart_call (Buf_rsp (Some b)) (set_in_use True b m)"
    have k: "kept m ?m" using b wf kept_trans [OF kept_buffers(1) kept_buffers(3)] by simp
    then have "kept m (set_in_use False b ?m)" using b by (blast intro: kept_trans kept_buffers dest: kept_def [THEN iffD1])
    with k Some 1 show ?thesis by (simp add: hw_step_def uart_callback_def release_eq Let_def)
  qed (use 1 wf kept_buffers(3) in \<open>simp add: hw_step_def uart_callback_def\<close>)
next
  case (2 b)
  have "kept m (set_data (replicate 2560 0) b (set_in_use False b m))" if "b < 2"
    using that wf by (intro kept_trans [OF kept_buffers(1) kept_buffers(2)]) simp_all
  with 2 wf show ?thesis
    by (simp add: hw_step_def uart_callback_def release_eq RX_BUF_POOL_SIZE_def RX_BUF_LEN_def MODBUS_MSG_SIZE_def kept_refl)
next
  case 3
  let ?m = "m\<lparr>rx_enabled := False, frame_state := no_frame\<rparr>"
  have k0: "kept m ?m" using wf by (simp add: kept_def mb_wf_def)
  have k1: "kept m (set_in_use False 0 ?m)"
    by (rule kept_trans [OF k0 kept_buffers(1)]) (use k0 in \<open>simp_all add: kept_def\<close>)
  have "kept m (set_in_use False 1 (set_in_use False 0 ?m))"
    by (rule kept_trans [OF k1 kept_buffers(1)]) (use k1 in \<open>simp_all add: kept_def\<close>)
  with 3 show ?thesis
    by (simp add: hw_step_def uart_callback_def release_eq RX_BUF_POOL_SIZE_def reset_eq numeral_2_eq_2)
qed (use q in simp_all)

lemma quiet_run: "list_all quiet hs \<Longrightarrow> mb_wf m \<Longrightarrow> \<exists>m'. hw_run E hs m = Inr m' \<and> kept m m'"
proof (induction hs arbitrary: m)
  case (Cons h hs)
  obtain m1 where m1: "hw_step E h m = Inr m1" "kept m m1" using Cons.prems quiet_step [of h m E] by auto
  then obtain m' where "hw_run E hs m1 = Inr m'" "kept m1 m'"
    using Cons.IH [of m1] Cons.prems kept_wf by auto
  with m1 show ?case by (auto intro: kept_trans)
qed (simp add: kept_refl)

lemma quiet_pause:
  assumes "inputs m = q # rest" "list_all quiet q" "mb_wf m"
  obtains m' where "pause E m = Inr m'" "kept (m\<lparr>inputs := rest\<rparr>) m'"
  using assms quiet_run [of q "m\<lparr>inputs := rest\<rparr>" E] by (auto simp: pause_def)

lemma quiet_disable:
  assumes "inputs m = q # rest" "list_all quiet q" "mb_wf m"
  obtains m' where "uart_rx_disable E m = Inr m'" "kept (m\<lparr>inputs := rest\<rparr>) m'"
proof -
  obtain m' where "pause E (uart_call Rx_disable m) = Inr m'" "kept ((uart_call Rx_disable m)\<lparr>inputs := rest\<rparr>) m'"
    using assms quiet_pause [of "uart_call Rx_disable m" q rest E] by (auto simp: uart_call_def mb_wf_def)
  then show ?thesis using that by (auto simp: uart_rx_disable_def kept_def uart_call_def)
qed

text \<open>
  The inputs of an exchange that is not disturbed: while reception is switched off and on the UART
  driver handles its buffers, the transmission is reported, and then the frame \<open>fr\<close> arrives in the
  pieces \<open>ps\<close>.
\<close>

definition frame_arrives :: "u8 list \<Rightarrow> hw list list \<Rightarrow> hw list list \<Rightarrow> bool" where
  "frame_arrives fr ins rest \<longleftrightarrow> announced fr \<and>
     (\<exists>q1 ps q2. ins = q1 # [Event UART_TX_DONE] # concat (map deliver ps) # q2 # rest \<and>
        list_all quiet q1 \<and> list_all quiet q2 \<and> list_all piece_ok ps \<and> concat (map piece_bytes ps) = fr)"

lemma exchange_frame:
  assumes wf: "mb_wf m" "frame_state m = no_frame" and E: "tx_ret E = 0" "rx_enable_ret E = 0"
    and arr: "frame_arrives fr (inputs m) rest" and ans: "answered fr (slave_reg_addr m) (registers m) e rs"
  shows "\<exists>m'. exchange E False k m = Inr (e, m') \<and> mb_wf m' \<and> registers m' = rs \<and> inputs m' = rest \<and>
    Tx (take k (tx_buf m)) \<in> set (uart m')"
proof -
  have fr: "announced fr" "fr \<noteq> []" using arr by (auto simp: frame_arrives_def announced_def)
  obtain q1 ps q2 where ins: "inputs m = q1 # [Event UART_TX_DONE] # concat (map deliver ps) # q2 # rest"
      "list_all quiet q1" "list_all quiet q2" "list_all piece_ok ps" "concat (map piece_bytes ps) = fr"
    using arr unfolding frame_arrives_def by blast
  define ma where "ma = (set_data (replicate MODBUS_MSG_SIZE 0) 0 m)\<lparr>rx_sem := 0, tx_sem := 0\<rparr>"
  have ma: "mb_wf ma" "inputs ma = inputs m" "frame_state ma = no_frame" "registers ma = registers m"
      "slave_reg_addr ma = slave_reg_addr m" "tx_buf ma = tx_buf m"
    using wf by (simp_all add: ma_def MODBUS_MSG_SIZE_def) (simp_all add: set_data_def)
  obtain m0 where m0: "uart_rx_disable E ma = Inr m0"
      "kept (ma\<lparr>inputs := [Event UART_TX_DONE] # concat (map deliver ps) # q2 # rest\<rparr>) m0"
    using quiet_disable [of ma q1 _ E] ins ma by metis
  define m3 where "m3 = k_mutex_unlock (uart_call (Rx_enable 0) (uart_call (Tx (take k (tx_buf m0))) m0))"
  define m4 where "m4 = m3\<lparr>inputs := concat (map deliver ps) # q2 # rest, tx_done := True, tx_sem := 0\<rparr>"
  have k0: "mb_wf m0" "frame_state m0 = no_frame" "registers m0 = registers m" "slave_reg_addr m0 = slave_reg_addr m"
      "tx_buf m0 = tx_buf m" "inputs m0 = [Event UART_TX_DONE] # concat (map deliver ps) # q2 # rest"
    using m0(2) ma by (simp_all add: kept_def)
  have m3: "mb_wf m3" "frame_state m3 = no_frame" "registers m3 = registers m" "slave_reg_addr m3 = slave_reg_addr m"
      "inputs m3 = inputs m0" "Tx (take k (tx_buf m)) \<in> set (uart m3)"
    using k0 by (simp_all add: m3_def) (simp_all add: k_mutex_unlock_def uart_call_def)
  have t: "take_tx E m3 = Inr (True, m4)"
    using m3(5) k0(6) by (simp add: take_tx_def pause_def hw_step_def uart_callback_def k_sem_give_tx_def m4_def)
  let ?m = "m4\<lparr>inputs := q2 # rest\<rparr>"
  have "\<exists>pool. mb_wf (?m\<lparr>rx_buf_pool := pool\<rparr>) \<and> hw_run E (concat (map deliver ps)) ?m =
      process_frame (?m\<lparr>rx_buf_pool := pool, frame_state := partial_frame fr fr\<rparr>)"
    using m3 fr ins by (intro deliver_frame [of _ fr "[]"]) (simp_all add: m4_def partial_nil)
  then obtain pool where pool: "mb_wf (?m\<lparr>rx_buf_pool := pool\<rparr>)"
      "hw_run E (concat (map deliver ps)) ?m = process_frame (?m\<lparr>rx_buf_pool := pool, frame_state := partial_frame fr fr\<rparr>)"
    by blast
  let ?p = "?m\<lparr>rx_buf_pool := pool, frame_state := partial_frame fr fr\<rparr>"
  have "mb_wf ?p \<and> frame_state ?p = partial_frame fr fr \<and> slave_reg_addr ?p = slave_reg_addr m \<and> registers ?p = registers m"
    using pool(1) m3 by (simp add: m4_def mb_wf_def)
  then have "\<exists>m5. process_frame ?p = Inr m5 \<and> mb_wf m5 \<and> rx_sem m5 = 1 \<and> last_error m5 = e \<and> registers m5 = rs \<and>
      inputs m5 = inputs ?p \<and> uart m5 = uart ?p"
    using ans unfolding answered_def by blast
  moreover have "inputs ?p = q2 # rest" "uart ?p = uart m3" by (simp_all add: m4_def)
  ultimately obtain m5 where m5: "process_frame ?p = Inr m5" "mb_wf m5" "rx_sem m5 = 1" "last_error m5 = e" "registers m5 = rs"
      "inputs m5 = q2 # rest" "uart m5 = uart m3"
    by auto
  have r: "take_rx E m4 = Inr (True, m5\<lparr>rx_sem := 0\<rparr>)"
    using pool(2) m5(1,3) by (simp add: take_rx_def pause_def m4_def)
  define m6 where "m6 = k_mutex_lock (m5\<lparr>rx_sem := 0\<rparr>)"
  have m6: "mb_wf m6" "inputs m6 = q2 # rest" "last_error m6 = e" "registers m6 = rs" "uart m6 = uart m3"
    using m5 by (simp_all add: m6_def) (simp_all add: k_mutex_lock_def)
  obtain m7 where m7: "uart_rx_disable E m6 = Inr m7" "kept (m6\<lparr>inputs := rest\<rparr>) m7"
    using quiet_disable [OF m6(2) ins(3) m6(1)] by metis
  have "exchange E False k m = Inr (last_error m7, k_mutex_unlock m7)"
    using m0(1) t r m7(1) E
    by (simp add: exchange_def Let_def m4_def flip: ma_def m3_def m6_def)
  moreover have "mb_wf (k_mutex_unlock m7)" "registers (k_mutex_unlock m7) = rs" "inputs (k_mutex_unlock m7) = rest"
      "last_error m7 = e" "Tx (take k (tx_buf m)) \<in> set (uart (k_mutex_unlock m7))"
    using m7(2) m6 m3(6) by (auto simp: kept_def) (auto simp: k_mutex_unlock_def)
  ultimately show ?thesis by auto
qed

text \<open>The request of a read.\<close>

definition read_packet :: "u8 \<Rightarrow> u16 \<Rightarrow> u16 \<Rightarrow> u16 \<Rightarrow> u8 list" where
  "read_packet func_code dev reg n = with_crc [ucast dev, func_code, hi_byte reg, lo_byte reg, hi_byte n, lo_byte n]"

lemma read_request_ok:
  assumes "length (tx_buf m) = 2560"
  shows "read_request func_code dev reg n m =
      Inr ((start_request reg m)\<lparr>tx_buf := read_packet func_code dev reg n @ drop 8 (tx_buf m), request_len := n * 2 + 5\<rparr>)"
proof -
  have six: "unat (6 :: u8) = 6" by simp
  show ?thesis
    using assms(1)
    by (simp add: read_request_def start_request_def store_seq_ok modbus_crc_table_driven six read_packet_def with_crc_def Let_def
        del: store_seq.simps)
qed

lemma cleanup_ok:
  assumes "inputs m = q # rest" "list_all quiet q" "mb_wf m"
  shows "\<exists>m'. cleanup E M_OK m = Inr (M_OK, m') \<and> registers m' = registers m \<and> set (uart m) \<subseteq> set (uart m') \<and>
    transaction_sem m' = 1 \<and> inputs m' = rest"
proof -
  obtain m1 where "pause E m = Inr m1" "kept (m\<lparr>inputs := rest\<rparr>) m1" using quiet_pause [OF assms] by metis
  then show ?thesis by (auto simp: cleanup_def kept_def)
qed

text \<open>A read transaction that is answered by a frame which the driver takes without an error.\<close>

definition read_ready :: "modbusrtu_device \<Rightarrow> uart_env \<Rightarrow> u16 \<Rightarrow> u16 \<Rightarrow> u16 \<Rightarrow> bool" where
  "read_ready m E dev reg n \<longleftrightarrow> mb_wf m \<and> frame_state m = no_frame \<and> transaction_sem m = 1 \<and> tx_ret E = 0 \<and>
     rx_enable_ret E = 0 \<and> dev \<noteq> 0 \<and> dev \<le> 247 \<and> n \<noteq> 0 \<and> n \<le> 125 \<and> unat reg + unat n \<le> 4096"

lemma read_frame:
  assumes rdy: "read_ready m E dev reg n"
    and arr: "frame_arrives fr (inputs m) (q3 # q4 # rest)" and q: "list_all quiet q3" "list_all quiet q4"
    and ans: "answered fr reg (registers m) M_OK rs" and rs: "length rs = 4096"
  shows "\<exists>m'. modbus_read E func_code dev reg True n m = Inr (M_OK, Some (slice (unat reg) (unat n) rs), m') \<and>
    registers m' = rs \<and> transaction_sem m' = 1 \<and> inputs m' = rest \<and>
    Tx (read_packet func_code dev reg n) \<in> set (uart m')"
proof -
  define q where "q = read_packet func_code dev reg n"
  have r: "mb_wf m" "frame_state m = no_frame" "transaction_sem m = 1" "tx_ret E = 0" "rx_enable_ret E = 0"
      "unat reg + unat n \<le> 4096" "\<not> (dev = 0 \<or> 247 < dev)" "\<not> (n = 0 \<or> 125 < n)" "length (tx_buf m) = 2560"
    using rdy by (auto simp: read_ready_def mb_wf_def)
  define m1 where "m1 = k_mutex_lock (m\<lparr>transaction_sem := 0\<rparr>)"
  define m2 where "m2 = (start_request reg m1)\<lparr>tx_buf := q @ drop 8 (tx_buf m), request_len := n * 2 + 5\<rparr>"
  have "length (tx_buf m1) = 2560" "tx_buf m1 = tx_buf m" using r by (simp_all add: m1_def k_mutex_lock_def)
  then have rq: "read_request func_code dev reg n m1 = Inr m2"
    using read_request_ok [of m1] by (simp add: m2_def q_def)
  have m2: "mb_wf m2" "frame_state m2 = no_frame" "inputs m2 = inputs m" "slave_reg_addr m2 = reg" "registers m2 = registers m"
      "take 8 (tx_buf m2) = q"
    using r by (simp_all add: m2_def m1_def start_request_def k_mutex_lock_def mb_wf_def q_def read_packet_def with_crc_def)
  obtain m3 where m3: "exchange E False 8 m2 = Inr (M_OK, m3)" "mb_wf m3" "registers m3 = rs" "inputs m3 = q3 # q4 # rest"
      "Tx q \<in> set (uart m3)"
    using exchange_frame [of m2 E fr "q3 # q4 # rest" M_OK rs 8] m2 r arr ans by auto
  obtain m4 where m4: "pause E m3 = Inr m4" "kept (m3\<lparr>inputs := q4 # rest\<rparr>) m4"
    using quiet_pause [OF m3(4) q(1) m3(2)] by metis
  then have k4: "mb_wf m4" "inputs m4 = q4 # rest" "registers m4 = rs" "Tx q \<in> set (uart m4)"
    using m3 by (auto simp: kept_def)
  obtain m5 where m5: "cleanup E M_OK m4 = Inr (M_OK, m5)" "registers m5 = rs" "Tx q \<in> set (uart m5)" "transaction_sem m5 = 1"
      "inputs m5 = rest"
    using cleanup_ok [OF k4(2) q(2) k4(1), of E] k4 by auto
  have "take_transaction E m = Inr (True, m\<lparr>transaction_sem := 0\<rparr>)" using r by (simp add: take_transaction_def)
  moreover have "load_seq (registers m3) (unat reg) (unat n) = Inr (slice (unat reg) (unat n) rs)"
    using r m3(3) rs by (simp add: load_seq_ok slice_def)
  moreover have "finish E M_OK m3 = Inr (M_OK, m5)" using m4(1) m5(1) by (simp add: finish_def)
  ultimately have "modbus_read E func_code dev reg True n m = Inr (M_OK, Some (slice (unat reg) (unat n) rs), m5)"
    using r rq m3(1) by (simp add: modbus_read_def MODBUS_MAX_REGISTERS_def flip: m1_def)
  then show ?thesis using m5 by (auto simp: q_def)
qed

text \<open>
  C34. A read transaction hands out the registers that the slave sends: however the UART cuts the
  reply into pieces and wherever the DMA puts them, when the UART works, the request is transmitted with its
  CRC, the registers of the reply are stored at the requested address, no other register changes,
  and the caller gets them. The reply may come from any slave address.
\<close>

theorem modbus_read_returns_registers:
  assumes "read_ready m E dev reg n" and "length ws = unat n" and "reply_code = 0x03 \<or> reply_code = 0x04"
    and "frame_arrives (read_reply_frame addr reply_code ws) (inputs m) (q3 # q4 # rest)"
    and "list_all quiet q3" "list_all quiet q4"
  shows "\<exists>m'. modbus_read E func_code dev reg True n m = Inr (M_OK, Some ws, m') \<and>
    registers m' = put (unat reg) ws (registers m) \<and> transaction_sem m' = 1 \<and> inputs m' = rest \<and>
    Tx (read_packet func_code dev reg n) \<in> set (uart m')"
proof -
  have "unat n \<le> 125" using assms(1) by (simp add: read_ready_def word_le_nat_alt)
  with assms have a: "answered (read_reply_frame addr reply_code ws) reg (registers m) M_OK (put (unat reg) ws (registers m))"
    by (intro read_answered) (auto simp: read_ready_def mb_wf_def)
  have l: "unat reg + length ws \<le> length (registers m)" "length (registers m) = 4096"
    using assms by (simp_all add: read_ready_def mb_wf_def)
  then have "slice (unat reg) (unat n) (put (unat reg) ws (registers m)) = ws"
    using assms(2) by (simp add: slice_def put_def)
  with read_frame [OF assms(1,4-6) a] l show ?thesis by simp
qed

text \<open>
  C35. The reply is not checked against the request: when the frame that arrives is the
  acknowledgement of a write, of any slave, the read transaction reports success and hands out
  whatever the register cache held before.
\<close>

theorem modbus_foreign_reply_accepted:
  assumes "read_ready m E dev reg n" and "frame_arrives (ack_frame addr start count) (inputs m) (q3 # q4 # rest)"
    and "list_all quiet q3" "list_all quiet q4"
  shows "\<exists>m'. modbus_read E func_code dev reg True n m = Inr (M_OK, Some (slice (unat reg) (unat n) (registers m)), m') \<and>
    registers m' = registers m"
proof -
  have "length (registers m) = 4096" using assms(1) by (simp add: read_ready_def mb_wf_def)
  from read_frame [OF assms ack_answered this] show ?thesis by auto
qed

section \<open>Concrete runs\<close>

definition demo_uart :: uart_env where
  "demo_uart = \<lparr>dev_ready = True, callback_set_ret = 0, tx_ret = 0, rx_enable_ret = 0, buf_rsp_ret = 0\<rparr>"

text \<open>A device that gets the frame \<open>fr\<close> in two pieces, which the DMA puts into different buffers.\<close>

definition demo_pieces :: "u8 list \<Rightarrow> (nat \<times> nat \<times> u8 list) list" where
  "demo_pieces fr = [(0, 0, take 2 fr), (1, 4, drop 2 fr)]"

definition demo_modbus :: "u8 list \<Rightarrow> modbusrtu_device" where
  "demo_modbus fr = modbus_dev\<lparr>transaction_sem := 1, inputs := [[Event UART_RX_DISABLED], [Event UART_TX_DONE],
     concat (map deliver (demo_pieces fr)), [Event UART_RX_DISABLED, Event (UART_RX_BUF_RELEASED 0)], [], []]\<rparr>"

lemma demo_ready: "read_ready (demo_modbus fr) demo_uart 1 0x10 1"
  by (auto simp: read_ready_def demo_modbus_def modbus_dev_def demo_uart_def mb_wf_def no_frame_def less_2_cases_iff
      MODBUS_MAX_FRAME_SIZE_def MODBUS_MSG_SIZE_def MODBUS_MAX_REGISTERS_def RX_BUF_POOL_SIZE_def RX_BUF_LEN_def
      nth_replicate)

lemma demo_arrives:
  assumes "announced fr"
  shows "frame_arrives fr (inputs (demo_modbus fr)) ([] # [] # [])"
proof -
  have "2 < length fr" "length fr \<le> 257" using assms by (auto simp: announced_def)
  then have "list_all piece_ok (demo_pieces fr)" "concat (map piece_bytes (demo_pieces fr)) = fr"
    by (auto simp: demo_pieces_def piece_ok_def)
  with assms show ?thesis by (force simp: frame_arrives_def demo_modbus_def)
qed

lemma modbus_read_returns_registers_witness:
  "\<exists>m'. modbus_read demo_uart 0x04 1 0x10 True 1 (demo_modbus (read_reply_frame 1 0x04 [0x1234])) = Inr (M_OK, Some [0x1234], m') \<and>
    registers m' = put 0x10 [0x1234] (registers (demo_modbus (read_reply_frame 1 0x04 [0x1234]))) \<and>
    transaction_sem m' = 1 \<and> inputs m' = [] \<and> Tx (read_packet 0x04 1 0x10 1) \<in> set (uart m')"
  using modbus_read_returns_registers [OF demo_ready, where ws = "[0x1234]" and addr = 1 and reply_code = "0x04",
      OF _ _ demo_arrives [OF announced_read], where func_code = "0x04"] by simp

lemma modbus_foreign_reply_accepted_witness:
  "\<exists>m'. modbus_read demo_uart 0x04 1 0x10 True 1 (demo_modbus (ack_frame 9 0 1)) =
      Inr (M_OK, Some (slice 0x10 1 (registers (demo_modbus (ack_frame 9 0 1)))), m') \<and>
    registers m' = registers (demo_modbus (ack_frame 9 0 1))"
  using modbus_foreign_reply_accepted [OF demo_ready demo_arrives [OF announced_ack], where func_code = "0x04"] by simp

end
