(* ===== verification/Modbus_Write.thy ===== *)
theory Modbus_Write
  imports Modbus_Props
begin

text \<open>
  What \<open>amd_crb_modbusrtu_write\<close> sends, for every length that it accepts.
\<close>

section \<open>The data region\<close>

text \<open>The bytes of each register are swapped; a last single byte becomes the low byte of a register.\<close>

fun swap_pairs :: "u8 list \<Rightarrow> u8 list" where
  "swap_pairs [] = []"
| "swap_pairs [x] = [0, x]"
| "swap_pairs (x # y # xs) = y # x # swap_pairs xs"

lemma length_swap_pairs: "length (swap_pairs xs) = length xs + length xs mod 2"
  by (induction xs rule: swap_pairs.induct) simp_all

lemma swap_pairs_append: "even (length xs) \<Longrightarrow> swap_pairs (xs @ ys) = swap_pairs xs @ swap_pairs ys"
  by (induction xs rule: swap_pairs.induct) simp_all

lemma and_then_assoc: "and_then (and_then r f) g = and_then r (\<lambda>x. and_then (f x) g)"
  by (cases r) simp_all

lemma take_two: "n + 2 \<le> length v \<Longrightarrow> take (k + 2) (drop n v) = v ! n # v ! (n + 1) # take k (drop (n + 2) v)"
  by (simp flip: Cons_nth_drop_Suc)

lemma fill_pairs_ok:
  "num + 2 * k \<le> length v \<Longrightarrow> 7 + num + 2 * k \<le> length t \<Longrightarrow>
     fill_pairs k num v t = Inr (put (7 + num) (swap_pairs (take (2 * k) (drop num v))) t)"
proof (induction k arbitrary: num t)
  case 0
  then show ?case by (simp add: put_def)
next
  case (Suc k)
  let ?t = "t[7 + num := v ! (num + 1), 8 + num := v ! num]" and ?s = "swap_pairs (take (2 * k) (drop (num + 2) v))"
  have "fill_pairs k (num + 2) v ?t = Inr (put (7 + (num + 2)) ?s ?t)"
    using Suc.prems by (intro Suc.IH) simp_all
  moreover have "put (Suc (8 + num)) ?s ?t = put (Suc (7 + num)) (v ! num # ?s) (t[7 + num := v ! (num + 1)])"
    using Suc.prems by (subst put_Cons) simp_all
  then have "put (7 + (num + 2)) ?s ?t = put (7 + num) (v ! (num + 1) # v ! num # ?s) t"
    using Suc.prems put_Cons [of "7 + num" t "v ! num # ?s" "v ! (num + 1)"] by simp
  moreover have "take (2 * Suc k) (drop num v) = v ! num # v ! (num + 1) # take (2 * k) (drop (num + 2) v)"
    using Suc.prems take_two [of num v "2 * k"] by simp
  ultimately show ?case using Suc.prems by (simp add: access)
qed

lemma put_two:
  assumes "i + length xs + 2 \<le> length t"
  shows "(put i xs t)[i + length xs := a, Suc (i + length xs) := b] = put i (xs @ [a, b]) t"
proof -
  have "drop (i + length xs) t = t ! (i + length xs) # t ! Suc (i + length xs) # drop (i + length xs + 2) t"
    using assms by (simp add: Cons_nth_drop_Suc)
  then show ?thesis using assms by (simp add: put_def list_update_append)
qed

section \<open>The packet\<close>

definition even_len :: "u8 list \<Rightarrow> nat" where
  "even_len v = length v + length v mod 2"

definition write_body :: "u16 \<Rightarrow> u16 \<Rightarrow> u8 list \<Rightarrow> u8 list" where
  "write_body dev reg v = [ucast dev, 0x10, hi_byte reg, lo_byte reg, 0, of_nat (even_len v div 2), of_nat (even_len v)] @ swap_pairs v"

lemma length_write_body [simp]: "length (write_body dev reg v) = 7 + even_len v"
  by (simp add: write_body_def even_len_def length_swap_pairs)

lemma write_lengths:
  fixes n :: u32
  assumes "unat n \<le> 2551"
  defines "k \<equiv> unat n + unat n mod 2" and "a \<equiv> (if n mod 2 \<noteq> 0 then n + 1 else n)"
  shows "n mod 2 \<noteq> 0 \<longleftrightarrow> odd (unat n)" "unat a = k" "ucast (a div 2) = (of_nat (k div 2) :: u8)"
    "ucast a = (of_nat k :: u8)" "unat (ucast (7 + a) :: u8) = (7 + k) mod 256" "k \<le> 2552"
proof -
  have m: "unat (n mod 2) = unat n mod 2" by (simp add: unat_mod)
  show o: "n mod 2 \<noteq> 0 \<longleftrightarrow> odd (unat n)" by (simp add: unat_eq_0 [symmetric] m odd_iff_mod_2_eq_one)
  show k: "k \<le> 2552" using assms(1) unfolding k_def by presburger
  have s: "unat (n + 1) = unat n + 1" using assms(1) by (simp add: unat_word_ariths)
  show a: "unat a = k"
    using o s by (auto simp: a_def k_def odd_iff_mod_2_eq_one)
  have u8: "unat (ucast w :: u8) = unat w mod 256" for w :: u32
    by (simp add: unsigned_ucast_eq take_bit_eq_mod)
  have eq8: "ucast w = (of_nat j :: u8)" if "unat w = j" for w :: u32 and j
    by (simp only: word_unat_eq_iff u8 that unsigned_of_nat take_bit_eq_mod) simp
  show "ucast (a div 2) = (of_nat (k div 2) :: u8)" by (rule eq8) (simp add: unat_div a)
  show "ucast a = (of_nat k :: u8)" by (rule eq8) (rule a)
  have "unat (7 + a) = 7 + k" using a k by (simp add: unat_word_ariths)
  then show "unat (ucast (7 + a) :: u8) = (7 + k) mod 256" by (simp add: u8)
qed

text \<open>The checksum of the packet covers \<open>(7 + length) mod 256\<close> bytes.\<close>

definition write_packet :: "u16 \<Rightarrow> u16 \<Rightarrow> u8 list \<Rightarrow> u8 list" where
  "write_packet dev reg v =
     (let body = write_body dev reg v; crc = modbus_crc (take (length body mod 256) body)
      in body @ [lo_byte crc, hi_byte crc])"

lemma write_packet_small: "even_len v \<le> 248 \<Longrightarrow> write_packet dev reg v = with_crc (write_body dev reg v)"
  by (simp add: write_packet_def with_crc_def Let_def)

lemma data_region:
  fixes n :: u32
  assumes len: "length v = unat n" "unat n \<le> 2551" and t: "length t = 2560" and n: "n \<noteq> 0"
  shows "and_then (fill_pairs (unat n div 2) 0 v t) (\<lambda>t1.
      if n mod 2 \<noteq> 0 then and_then (st t1 (7 + (unat n - 1)) 0) (\<lambda>t.
          and_then (ld v (unat n - 1)) (st t (8 + (unat n - 1))))
      else Inr t1) =
    (Inr (put 7 (swap_pairs v) t) :: u8 list res)"
proof (cases "odd (unat n)")
  case False
  then have "2 * (unat n div 2) = unat n" by simp
  then have "fill_pairs (unat n div 2) 0 v t = Inr (put 7 (swap_pairs v) t)"
    using fill_pairs_ok [of 0 "unat n div 2" v t] len t by simp
  then show ?thesis using False write_lengths(1) [OF len(2)] by simp
next
  case True
  define j where "j = unat n - 1"
  have j: "2 * (unat n div 2) = j" "even j" "unat n = Suc j" using True by (auto simp: j_def elim: oddE)
  have v: "v = take j v @ [v ! j]" using j len by (simp add: take_Suc_conv_app_nth [symmetric])
  have f: "fill_pairs (unat n div 2) 0 v t = Inr (put 7 (swap_pairs (take j v)) t)"
    using fill_pairs_ok [of 0 "unat n div 2" v t] len t j by simp
  have l: "length (swap_pairs (take j v)) = j" using j len by (simp add: length_swap_pairs)
  then have p: "length (put 7 (swap_pairs (take j v)) t) = 2560" using len t j by simp
  have "(put 7 (swap_pairs (take j v)) t)[7 + j := 0, 8 + j := v ! j] = put 7 (swap_pairs (take j v) @ [0, v ! j]) t"
    using put_two [of 7 "swap_pairs (take j v)" t] l len t j by simp
  also have "swap_pairs (take j v) @ [0, v ! j] = swap_pairs v"
    using swap_pairs_append [of "take j v" "[v ! j]"] j len v by simp
  finally show ?thesis
    using True write_lengths(1) [OF len(2)] f p j len by (simp add: access)
qed

lemma write_request_stages:
  fixes n :: u32 and dev reg :: u16
  assumes "length v = unat n" "n \<noteq> 0" "unat n \<le> 2551" "length (tx_buf m) = 2560"
  defines "body \<equiv> write_body dev reg v" and "crc \<equiv> modbus_crc (take ((7 + even_len v) mod 256) (write_body dev reg v))"
  shows "write_request dev reg v n m =
    and_then (store_seq (body @ drop (7 + even_len v) (tx_buf m)) (7 + even_len v) [lo_byte crc, hi_byte crc])
      (\<lambda>t. Inr (9 + even_len v, start_request reg (m\<lparr>tx_buf := t\<rparr>)))"
proof -
  define a where "a = (if n mod 2 \<noteq> 0 then n + 1 else n)"
  define h where "h = [ucast dev, 0x10, hi_byte reg, lo_byte reg, 0, ucast (a div 2), ucast a]"
  have k: "even_len v = unat n + unat n mod 2" using assms(1) by (simp add: even_len_def)
  note w = write_lengths [OF assms(3), folded a_def, folded k]
  have body: "body = h @ swap_pairs v" by (simp add: body_def write_body_def h_def w)
  have lb: "length body = 7 + even_len v" by (simp add: body_def)
  have lh: "length h = 7" by (simp add: h_def)
  let ?t0 = "h @ drop 7 (tx_buf m)" and ?t2 = "body @ drop (7 + even_len v) (tx_buf m)"
  have t0: "store_seq (tx_buf m) 0 h = Inr ?t0" using assms(4) lh by (simp add: store_seq_ok)
  have "length ?t0 = 2560" using assms(4) lh by simp
  then have t2: "and_then (fill_pairs (unat n div 2) 0 v ?t0) (\<lambda>t1.
      if n mod 2 \<noteq> 0 then and_then (st t1 (7 + (unat n - 1)) 0) (\<lambda>t.
          and_then (ld v (unat n - 1)) (st t (8 + (unat n - 1))))
      else Inr t1) = Inr (put 7 (swap_pairs v) ?t0)"
    using data_region [OF assms(1,3) _ assms(2)] by blast
  have p: "put 7 (swap_pairs v) ?t0 = ?t2"
    using lh by (simp add: put_def body length_swap_pairs even_len_def add.commute)
  have c: "Modbus_CRC16 ?t2 (ucast (7 + a)) = Inr crc"
    using lb w(6) assms(4) by (simp add: modbus_crc_table_driven w crc_def body_def)
  have "and_then (fill_pairs (unat n div 2) 0 v ?t0) (\<lambda>t1. and_then
      (if n mod 2 \<noteq> 0 then and_then (st t1 (7 + (unat n - 1)) 0) (\<lambda>t.
          and_then (ld v (unat n - 1)) (st t (8 + (unat n - 1))))
       else Inr t1) G) = G ?t2" for G :: "u8 list \<Rightarrow> (nat \<times> modbusrtu_device) res"
    by (simp only: and_then_assoc [symmetric] t2 p and_then_simps)
  then show ?thesis
    unfolding write_request_def Let_def a_def [symmetric] h_def [symmetric]
    by (simp only: t0 and_then_simps c w)
qed

text \<open>
  A write sends the slave address, the function code, the start address, the counts and the data
  with the bytes of every register swapped, an odd last byte padded with zero, and a checksum; but the
  checksum covers only \<open>(7 + bytes) mod 256\<close> bytes of the packet and the counts are cut to 8
  bits, so that it is the checksum of the packet only up to 248 bytes of data.
\<close>

theorem modbus_write_packet:
  assumes "length v = unat n" "n \<noteq> 0" "unat n \<le> 2550" "length (tx_buf m) = 2560"
  shows "write_request dev reg v n m =
    Inr (length (write_packet dev reg v),
      start_request reg (m\<lparr>tx_buf := write_packet dev reg v @ drop (length (write_packet dev reg v)) (tx_buf m)\<rparr>))"
proof -
  have k: "even_len v \<le> 2550" "unat n \<le> 2551" using assms(1,3) unfolding even_len_def by presburger+
  have "length (write_packet dev reg v) = 9 + even_len v" by (simp add: write_packet_def Let_def)
  with k show ?thesis
    using write_request_stages [OF assms(1,2) k(2) assms(4), of dev reg] assms(4)
    by (simp add: store_seq_ok write_packet_def Let_def del: store_seq.simps)
qed

text \<open>
  The longest write that the length check admits, 2551 bytes, stores the second byte of its
  checksum behind the end of the transmit buffer.
\<close>

theorem modbus_write_overruns:
  assumes "length v = 2551" "length (tx_buf m) = 2560" "transaction_sem m = 1" "dev \<noteq> 0" "dev \<le> 247"
    and "unat reg + 1275 \<le> 0xFFFF"
  shows "amd_crb_modbusrtu_write E dev reg (Some v) 2551 m = Inl Out_of_bounds"
proof -
  let ?m = "k_mutex_lock (m\<lparr>transaction_sem := 0\<rparr>)"
  have k: "even_len v = 2552" using assms(1) by (simp add: even_len_def)
  have "length (write_body dev reg v @ drop 2559 (tx_buf m)) = 2560" using k assms(2) by simp
  then have "store_seq (write_body dev reg v @ drop 2559 (tx_buf m)) 2559 [x, y] = Inl Out_of_bounds" for x y
    by (simp only: store_seq.simps st_def) simp
  then have "write_request dev reg v 2551 ?m = Inl Out_of_bounds"
    using write_request_stages [of v 2551 ?m dev reg] assms(1,2) k by (simp add: k_mutex_lock_def del: store_seq.simps)
  moreover have "(2551 :: u32) div 2 = 1275" by simp
  ultimately show ?thesis
    using assms by (auto simp: amd_crb_modbusrtu_write_def MODBUS_MSG_SIZE_def take_transaction_def)
qed

end
