(* ===== verification/Sha3.thy ===== *)
theory Sha3
  imports Prelude
begin

text \<open>
  SHA3-384 and HMAC-SHA3-384 in software, \<open>src/drivers/oob_rpmc_hmac_sha3_384.c\<close>: the permutation
  Keccak-f[1600] on 25 lanes, the streaming absorption of bytes, the digest, and the HMAC built of
  them. The bytes of the lanes are in the little-endian order of the controller.
\<close>

section \<open>The permutation\<close>

definition keccakf_rndc :: "u64 list" where
  "keccakf_rndc =
    [0x0000000000000001, 0x0000000000008082, 0x800000000000808a, 0x8000000080008000,
     0x000000000000808b, 0x0000000080000001, 0x8000000080008081, 0x8000000000008009,
     0x000000000000008a, 0x0000000000000088, 0x0000000080008009, 0x000000008000000a,
     0x000000008000808b, 0x800000000000008b, 0x8000000000008089, 0x8000000000008003,
     0x8000000000008002, 0x8000000000000080, 0x000000000000800a, 0x800000008000000a,
     0x8000000080008081, 0x8000000000008080, 0x0000000080000001, 0x8000000080008008]"

definition keccakf_rotc :: "nat list" where
  "keccakf_rotc = [1, 3, 6, 10, 15, 21, 28, 36, 45, 55, 2, 14, 27, 41, 56, 8, 25, 43, 62, 18, 39, 61, 20, 44]"

definition keccakf_piln :: "nat list" where
  "keccakf_piln = [10, 7, 11, 17, 18, 3, 5, 16, 8, 21, 24, 4, 15, 23, 19, 13, 12, 2, 20, 14, 22, 9, 6, 1]"

definition ROTLEFT :: "u64 \<Rightarrow> nat \<Rightarrow> u64" where
  "ROTLEFT a b = push_bit b a OR drop_bit (64 - b) a"

text \<open>The inner loops of the steps: a value is added to a column, and a row is combined.\<close>

definition xor_column :: "nat \<Rightarrow> u64 \<Rightarrow> u64 list \<Rightarrow> u64 list" where
  "xor_column i t s0 = fold (\<lambda>j s. s[j + i := s ! (j + i) XOR t]) [0, 5, 10, 15, 20] s0"

definition theta_step :: "u64 list \<Rightarrow> u64 list" where
  "theta_step s0 =
     (let bc = map (\<lambda>i. s0 ! i XOR s0 ! (i + 5) XOR s0 ! (i + 10) XOR s0 ! (i + 15) XOR s0 ! (i + 20)) [0, 1, 2, 3, 4]
      in fold (\<lambda>i. xor_column i (bc ! ((i + 4) mod 5) XOR ROTLEFT (bc ! ((i + 1) mod 5)) 1)) [0, 1, 2, 3, 4] s0)"

text \<open>The in-place loop that rotates and moves the lanes; \<open>t\<close> is the lane that was overwritten last.\<close>

definition rho_pi_step :: "u64 list \<Rightarrow> u64 list" where
  "rho_pi_step s0 =
     fst (fold (\<lambda>i (s, t).
       let j = keccakf_piln ! i; bc0 = s ! j in (s[j := ROTLEFT t (keccakf_rotc ! i)], bc0))
       [0..<24] (s0, s0 ! 1))"

definition chi_row :: "nat \<Rightarrow> u64 list \<Rightarrow> u64 list" where
  "chi_row j s0 =
     (let bc = map (\<lambda>i. s0 ! (j + i)) [0, 1, 2, 3, 4]
      in fold (\<lambda>i s. s[j + i := s ! (j + i) XOR (NOT (bc ! ((i + 1) mod 5)) AND bc ! ((i + 2) mod 5))]) [0, 1, 2, 3, 4] s0)"

definition chi_step :: "u64 list \<Rightarrow> u64 list" where
  "chi_step s0 = fold chi_row [0, 5, 10, 15, 20] s0"

definition keccak_round :: "nat \<Rightarrow> u64 list \<Rightarrow> u64 list" where
  "keccak_round r s0 =
     (let s = chi_step (rho_pi_step (theta_step s0)) in s[0 := s ! 0 XOR keccakf_rndc ! r])"

definition keccak_f1600 :: "u64 list \<Rightarrow> u64 list" where
  "keccak_f1600 s = fold keccak_round [0..<24] s"

section \<open>SHA3-384\<close>

record sha3_384_ctx =
  lanes :: "u64 list"
  pt :: nat
  rsiz :: nat
  mdlen :: nat

definition sha3_384_init :: sha3_384_ctx where
  "sha3_384_init = \<lparr>lanes = replicate 25 0, pt = 0, rsiz = 200 - 2 * (384 div 8), mdlen = 384 div 8\<rparr>"

text \<open>The state as an array of bytes: a byte is changed, and read.\<close>

definition xor_byte :: "nat \<Rightarrow> u8 \<Rightarrow> u64 list \<Rightarrow> u64 list" where
  "xor_byte j x s = s[j div 8 := s ! (j div 8) XOR push_bit (8 * (j mod 8)) (ucast x)]"

definition get_byte :: "u64 list \<Rightarrow> nat \<Rightarrow> u8" where
  "get_byte s j = ucast (drop_bit (8 * (j mod 8)) (s ! (j div 8)))"

definition absorb_byte :: "nat \<Rightarrow> u8 \<Rightarrow> u64 list \<times> nat \<Rightarrow> u64 list \<times> nat" where
  "absorb_byte rs x p =
     (case p of (s, j) \<Rightarrow>
        let s1 = xor_byte j x s in if rs \<le> j + 1 then (keccak_f1600 s1, 0) else (s1, j + 1))"

definition sha3_384_update :: "sha3_384_ctx \<Rightarrow> u8 list \<Rightarrow> sha3_384_ctx" where
  "sha3_384_update c data =
     (let (s, j) = fold (absorb_byte (rsiz c)) data (lanes c, pt c) in c\<lparr>lanes := s, pt := j\<rparr>)"

definition sha3_384_final :: "sha3_384_ctx \<Rightarrow> u8 list" where
  "sha3_384_final c =
     (let s = keccak_f1600 (xor_byte (rsiz c - 1) 0x80 (xor_byte (pt c) 0x06 (lanes c)))
      in map (get_byte s) [0..<mdlen c])"

definition eRPMC_SHA3_384_DIGEST_SIZE :: u8 where "eRPMC_SHA3_384_DIGEST_SIZE = 48"
definition eRPMC_SHA3_384_BLOCK_SIZE :: nat where "eRPMC_SHA3_384_BLOCK_SIZE = 104"
definition eRPMC_SHA3_384_SIGNATURE_SIZE :: u8 where "eRPMC_SHA3_384_SIGNATURE_SIZE = 48"

text \<open>
  The engines return a code and, when it is zero, the digest. A pointer is an option, and a buffer
  with its length a list of fewer than 256 bytes.
\<close>

definition sha3_384_engine :: "u8 list option \<Rightarrow> bool \<Rightarrow> u8 \<Rightarrow> int \<times> u8 list option" where
  "sha3_384_engine pInMsg out OutDigSize =
     (case pInMsg of
        None \<Rightarrow> (- 1, None)
      | Some msg \<Rightarrow>
          if \<not> out then (- 1, None)
          else if OutDigSize \<noteq> eRPMC_SHA3_384_DIGEST_SIZE then (- 2, None)
          else (0, Some (sha3_384_final (sha3_384_update sha3_384_init msg))))"

definition hmac_key_pad :: "u8 list \<Rightarrow> u8 list" where
  "hmac_key_pad key =
     (let k = (if eRPMC_SHA3_384_BLOCK_SIZE < length key
               then sha3_384_final (sha3_384_update sha3_384_init key) else key)
      in k @ replicate (eRPMC_SHA3_384_BLOCK_SIZE - length k) 0)"

definition hmac_sha3_384_engine :: "u8 list option \<Rightarrow> u8 list option \<Rightarrow> bool \<Rightarrow> u8 \<Rightarrow> int \<times> u8 list option" where
  "hmac_sha3_384_engine pInMsg pInKey out OutDigSize =
     (case (pInMsg, pInKey) of
        (Some msg, Some key) \<Rightarrow>
          if \<not> out then (- 1, None)
          else if OutDigSize \<noteq> eRPMC_SHA3_384_SIGNATURE_SIZE then (- 2, None)
          else
            (let key_pad = hmac_key_pad key;
                 ipad = map (\<lambda>b. b XOR 0x36) key_pad; opad = map (\<lambda>b. b XOR 0x5C) key_pad;
                 inner_hash = sha3_384_final (sha3_384_update (sha3_384_update sha3_384_init ipad) msg)
             in (0, Some (sha3_384_final (sha3_384_update (sha3_384_update sha3_384_init opad) inner_hash))))
      | _ \<Rightarrow> (- 1, None))"

definition hmac_sha3_384_init :: int where "hmac_sha3_384_init = 0"
definition hmac_sha3_384_deinit :: int where "hmac_sha3_384_deinit = 0"

end
