(* ===== verification/Sha3_Props.thy ===== *)
theory Sha3_Props
  imports Sha3
begin

text \<open>
  The software SHA3-384 against the definitions of FIPS 202: the step mappings of Keccak-f[1600] on
  lanes with coordinates, the round constants from the linear feedback shift register, and the
  sponge with its padding; and HMAC against its definition.
\<close>

section \<open>The step mappings\<close>

text \<open>A state array: the lane with the coordinates \<open>x\<close> and \<open>y\<close>.\<close>

type_synonym state_array = "nat \<Rightarrow> nat \<Rightarrow> u64"

definition array_of :: "u64 list \<Rightarrow> state_array" where
  "array_of s = (\<lambda>x y. s ! (x + 5 * y))"

definition list_of :: "state_array \<Rightarrow> u64 list" where
  "list_of a = concat (map (\<lambda>y. map (\<lambda>x. a x y) [0..<5]) [0..<5])"

definition rotl :: "nat \<Rightarrow> u64 \<Rightarrow> u64" where
  "rotl n w = push_bit (n mod 64) w OR drop_bit (64 - n mod 64) w"

definition column :: "state_array \<Rightarrow> nat \<Rightarrow> u64" where
  "column a x = a x 0 XOR a x 1 XOR a x 2 XOR a x 3 XOR a x 4"

definition theta :: "state_array \<Rightarrow> state_array" where
  "theta a = (\<lambda>x y. a x y XOR (column a ((x + 4) mod 5) XOR rotl 1 (column a ((x + 1) mod 5))))"

text \<open>The coordinates that the rotation offsets are assigned to, one after the other.\<close>

fun rho_path :: "nat \<Rightarrow> nat \<times> nat" where
  "rho_path 0 = (1, 0)"
| "rho_path (Suc t) = (case rho_path t of (x, y) \<Rightarrow> (y, (2 * x + 3 * y) mod 5))"

definition rho_offset :: "nat \<Rightarrow> nat \<Rightarrow> nat" where
  "rho_offset x y =
     (case find (\<lambda>t. rho_path t = (x, y)) [0..<24] of None \<Rightarrow> 0 | Some t \<Rightarrow> (t + 1) * (t + 2) div 2)"

definition rho :: "state_array \<Rightarrow> state_array" where
  "rho a = (\<lambda>x y. rotl (rho_offset x y) (a x y))"

definition pi_map :: "state_array \<Rightarrow> state_array" where
  "pi_map a = (\<lambda>x y. a ((x + 3 * y) mod 5) x)"

definition chi :: "state_array \<Rightarrow> state_array" where
  "chi a = (\<lambda>x y. a x y XOR (NOT (a ((x + 1) mod 5) y) AND a ((x + 2) mod 5) y))"

text \<open>The bit \<open>rc t\<close>: the shift register of 8 bits with the feedback at the bits 0, 4, 5 and 6.\<close>

fun lfsr :: "nat \<Rightarrow> bool list" where
  "lfsr 0 = [True, False, False, False, False, False, False, False]"
| "lfsr (Suc t) =
     (case lfsr t of [r0, r1, r2, r3, r4, r5, r6, r7] \<Rightarrow> [r7, r0, r1, r2, r3 \<noteq> r7, r4 \<noteq> r7, r5 \<noteq> r7, r6] | _ \<Rightarrow> [])"

definition rc :: "nat \<Rightarrow> bool" where
  "rc t = hd (lfsr (t mod 255))"

definition round_constant :: "nat \<Rightarrow> u64" where
  "round_constant r = foldr (\<lambda>j w. if rc (j + 7 * r) then w OR push_bit (2 ^ j - 1) 1 else w) [0..<7] 0"

definition iota :: "nat \<Rightarrow> state_array \<Rightarrow> state_array" where
  "iota r a = (\<lambda>x y. if x = 0 \<and> y = 0 then a x y XOR round_constant r else a x y)"

definition keccak_p :: "state_array \<Rightarrow> state_array" where
  "keccak_p a = fold (\<lambda>r a. iota r (chi (pi_map (rho (theta a))))) [0..<24] a"

section \<open>The code computes the step mappings\<close>

lemma upto5: "[0..<5] = [0, 1, 2, 3, 4 :: nat]"
  by (simp add: upt_rec)

lemma upto24: "[0..<24] = [0, 1, 2, 3, 4, 5, 6, 7, 8, 9, 10, 11, 12, 13, 14, 15, 16, 17, 18, 19, 20, 21, 22, 23 :: nat]"
  by (simp add: upt_rec)

lemma state_cases:
  assumes "length s = 25"
  obtains a0 a1 a2 a3 a4 a5 a6 a7 a8 a9 a10 a11 a12 a13 a14 a15 a16 a17 a18 a19 a20 a21 a22 a23 a24
  where "s = [a0, a1, a2, a3, a4, a5, a6, a7, a8, a9, a10, a11, a12, a13, a14, a15, a16, a17, a18, a19, a20, a21, a22, a23, a24]"
  using assms by (auto simp: length_Suc_conv eval_nat_numeral)

lemma update_numeral: "(x # xs)[numeral v := y] = x # xs[pred_numeral v := y]"
  by (simp add: numeral_eq_Suc)

lemma ROTLEFT_rotl: "ROTLEFT a n = rotl n a" if "n < 64"
  using that by (simp add: ROTLEFT_def rotl_def)

lemma xor_columns:
  "xor_column 0 t [a0, a1, a2, a3, a4, a5, a6, a7, a8, a9, a10, a11, a12, a13, a14, a15, a16, a17, a18, a19, a20, a21, a22, a23, a24] =
     [a0 XOR t, a1, a2, a3, a4, a5 XOR t, a6, a7, a8, a9, a10 XOR t, a11, a12, a13, a14, a15 XOR t, a16,
      a17, a18, a19, a20 XOR t, a21, a22, a23, a24]"
  "xor_column 1 t [a0, a1, a2, a3, a4, a5, a6, a7, a8, a9, a10, a11, a12, a13, a14, a15, a16, a17, a18, a19, a20, a21, a22, a23, a24] =
     [a0, a1 XOR t, a2, a3, a4, a5, a6 XOR t, a7, a8, a9, a10, a11 XOR t, a12, a13, a14, a15, a16 XOR t,
      a17, a18, a19, a20, a21 XOR t, a22, a23, a24]"
  "xor_column 2 t [a0, a1, a2, a3, a4, a5, a6, a7, a8, a9, a10, a11, a12, a13, a14, a15, a16, a17, a18, a19, a20, a21, a22, a23, a24] =
     [a0, a1, a2 XOR t, a3, a4, a5, a6, a7 XOR t, a8, a9, a10, a11, a12 XOR t, a13, a14, a15, a16, a17 XOR
      t, a18, a19, a20, a21, a22 XOR t, a23, a24]"
  "xor_column 3 t [a0, a1, a2, a3, a4, a5, a6, a7, a8, a9, a10, a11, a12, a13, a14, a15, a16, a17, a18, a19, a20, a21, a22, a23, a24] =
     [a0, a1, a2, a3 XOR t, a4, a5, a6, a7, a8 XOR t, a9, a10, a11, a12, a13 XOR t, a14, a15, a16, a17,
      a18 XOR t, a19, a20, a21, a22, a23 XOR t, a24]"
  "xor_column 4 t [a0, a1, a2, a3, a4, a5, a6, a7, a8, a9, a10, a11, a12, a13, a14, a15, a16, a17, a18, a19, a20, a21, a22, a23, a24] =
     [a0, a1, a2, a3, a4 XOR t, a5, a6, a7, a8, a9 XOR t, a10, a11, a12, a13, a14 XOR t, a15, a16, a17,
      a18, a19 XOR t, a20, a21, a22, a23, a24 XOR t]"
  by (simp_all add: xor_column_def update_numeral)

lemma chi_rows:
  "chi_row 0 [a0, a1, a2, a3, a4, a5, a6, a7, a8, a9, a10, a11, a12, a13, a14, a15, a16, a17, a18, a19, a20, a21, a22, a23, a24] =
     [a0 XOR (NOT a1 AND a2), a1 XOR (NOT a2 AND a3), a2 XOR (NOT a3 AND a4), a3 XOR (NOT a4 AND a0), a4
      XOR (NOT a0 AND a1), a5, a6, a7, a8, a9, a10, a11, a12, a13, a14, a15, a16, a17, a18, a19, a20, a21,
      a22, a23, a24]"
  "chi_row 5 [a0, a1, a2, a3, a4, a5, a6, a7, a8, a9, a10, a11, a12, a13, a14, a15, a16, a17, a18, a19, a20, a21, a22, a23, a24] =
     [a0, a1, a2, a3, a4, a5 XOR (NOT a6 AND a7), a6 XOR (NOT a7 AND a8), a7 XOR (NOT a8 AND a9), a8 XOR
      (NOT a9 AND a5), a9 XOR (NOT a5 AND a6), a10, a11, a12, a13, a14, a15, a16, a17, a18, a19, a20, a21,
      a22, a23, a24]"
  "chi_row 10 [a0, a1, a2, a3, a4, a5, a6, a7, a8, a9, a10, a11, a12, a13, a14, a15, a16, a17, a18, a19, a20, a21, a22, a23, a24] =
     [a0, a1, a2, a3, a4, a5, a6, a7, a8, a9, a10 XOR (NOT a11 AND a12), a11 XOR (NOT a12 AND a13), a12
      XOR (NOT a13 AND a14), a13 XOR (NOT a14 AND a10), a14 XOR (NOT a10 AND a11), a15, a16, a17, a18,
      a19, a20, a21, a22, a23, a24]"
  "chi_row 15 [a0, a1, a2, a3, a4, a5, a6, a7, a8, a9, a10, a11, a12, a13, a14, a15, a16, a17, a18, a19, a20, a21, a22, a23, a24] =
     [a0, a1, a2, a3, a4, a5, a6, a7, a8, a9, a10, a11, a12, a13, a14, a15 XOR (NOT a16 AND a17), a16 XOR
      (NOT a17 AND a18), a17 XOR (NOT a18 AND a19), a18 XOR (NOT a19 AND a15), a19 XOR (NOT a15 AND a16),
      a20, a21, a22, a23, a24]"
  "chi_row 20 [a0, a1, a2, a3, a4, a5, a6, a7, a8, a9, a10, a11, a12, a13, a14, a15, a16, a17, a18, a19, a20, a21, a22, a23, a24] =
     [a0, a1, a2, a3, a4, a5, a6, a7, a8, a9, a10, a11, a12, a13, a14, a15, a16, a17, a18, a19, a20 XOR
      (NOT a21 AND a22), a21 XOR (NOT a22 AND a23), a22 XOR (NOT a23 AND a24), a23 XOR (NOT a24 AND a20),
      a24 XOR (NOT a20 AND a21)]"
  by (simp_all add: chi_row_def update_numeral)

lemma theta_ok: "length s = 25 \<Longrightarrow> theta_step s = list_of (theta (array_of s))"
  by (erule state_cases)
    (simp add: theta_step_def xor_columns list_of_def theta_def array_of_def column_def upto5 ROTLEFT_rotl del: One_nat_def)

lemma chi_ok: "length s = 25 \<Longrightarrow> chi_step s = list_of (chi (array_of s))"
  by (erule state_cases) (simp add: chi_step_def chi_rows list_of_def chi_def array_of_def upto5 del: One_nat_def)

lemma rho_offsets: "map (\<lambda>y. map (\<lambda>x. rho_offset x y) [0, 1, 2, 3, 4]) [0, 1, 2, 3, 4] =
    [[0, 1, 190, 28, 91],
     [36, 300, 6, 55, 276],
     [3, 10, 171, 153, 231],
     [105, 45, 15, 21, 136],
     [210, 66, 253, 120, 78]]"
  by code_simp

lemma rotl_mod: "rotl n w = rotl (n mod 64) w"
  by (simp add: rotl_def)

lemma rho_pi_lanes:
  "rho_pi_step [a0, a1, a2, a3, a4, a5, a6, a7, a8, a9, a10, a11, a12, a13, a14, a15, a16, a17, a18, a19, a20, a21, a22, a23, a24] =
     [a0, rotl 44 a6, rotl 43 a12, rotl 21 a18, rotl 14 a24, rotl 28 a3, rotl 20 a9, rotl 3 a10, rotl 45
      a16, rotl 61 a22, rotl 1 a1, rotl 6 a7, rotl 25 a13, rotl 8 a19, rotl 18 a20, rotl 27 a4, rotl 36
      a5, rotl 10 a11, rotl 15 a17, rotl 56 a23, rotl 62 a2, rotl 55 a8, rotl 39 a14, rotl 41 a15, rotl 2
      a21]"
  by (simp add: rho_pi_step_def upto24 keccakf_piln_def keccakf_rotc_def ROTLEFT_rotl update_numeral)

lemma pi_list: "list_of (pi_map f) =
    [f 0 0, f 1 1, f 2 2, f 3 3, f 4 4, f 3 0, f 4 1, f 0 2, f 1 3, f 2 4, f 1 0, f 2 1, f 3 2, f 4 3, f
     0 4, f 4 0, f 0 1, f 1 2, f 2 3, f 3 4, f 2 0, f 3 1, f 4 2, f 0 3, f 1 4]"
  by (simp add: list_of_def pi_map_def upto5 del: One_nat_def) (simp add: numeral_2_eq_2)

lemma rho_pi_ok: "length s = 25 \<Longrightarrow> rho_pi_step s = list_of (pi_map (rho (array_of s)))"
proof (erule state_cases)
  fix a0 a1 a2 a3 a4 a5 a6 a7 a8 a9 a10 a11 a12 a13 a14 a15 a16 a17 a18 a19 a20 a21 a22 a23 a24 :: u64
  let ?s = "[a0, a1, a2, a3, a4, a5, a6, a7, a8, a9, a10, a11, a12, a13, a14, a15, a16, a17, a18, a19, a20, a21, a22, a23, a24]"
  assume s: "s = ?s"
  have "rho_pi_step ?s = list_of (pi_map (rho (array_of ?s)))"
    using rho_offsets
    by (simp add: rho_pi_lanes pi_list rho_def array_of_def rotl_def del: One_nat_def)
  with s show ?thesis by simp
qed

lemma length_list_of [simp]: "length (list_of a) = 25"
  by (simp add: list_of_def upto5)

lemma list_of_nth: "x < 5 \<Longrightarrow> y < 5 \<Longrightarrow> list_of a ! (x + 5 * y) = a x y"
  by (auto simp: list_of_def upto5 less_Suc_eq numeral_eq_Suc)

lemma round_constants: "map round_constant [0..<24] = keccakf_rndc"
  by code_simp

text \<open>Only the 25 lanes of an array are relevant.\<close>

definition same_lanes :: "state_array \<Rightarrow> state_array \<Rightarrow> bool" where
  "same_lanes a b \<longleftrightarrow> (\<forall>x < 5. \<forall>y < 5. a x y = b x y)"

lemma same_lanes_steps:
  assumes "same_lanes a b"
  shows "same_lanes (theta a) (theta b)" "same_lanes (rho a) (rho b)" "same_lanes (pi_map a) (pi_map b)"
    "same_lanes (chi a) (chi b)" "same_lanes (iota r a) (iota r b)"
  using assms by (simp_all add: same_lanes_def theta_def column_def rho_def pi_map_def chi_def iota_def)

lemma list_of_cong: "same_lanes a b \<Longrightarrow> list_of a = list_of b"
  by (auto simp: same_lanes_def list_of_def intro!: arg_cong [where f = concat])

lemma array_list: "same_lanes (array_of (list_of a)) a"
  by (simp add: same_lanes_def array_of_def list_of_nth)

lemma list_array: "length s = 25 \<Longrightarrow> list_of (array_of s) = s"
  by (erule state_cases) (simp add: list_of_def array_of_def upto5)

definition keccak_steps :: "nat \<Rightarrow> state_array \<Rightarrow> state_array" where
  "keccak_steps r a = iota r (chi (pi_map (rho (theta a))))"

lemma keccak_round_ok:
  assumes "length s = 25" "same_lanes (array_of s) a" "r < 24"
  shows "keccak_round r s = list_of (keccak_steps r a)"
proof -
  let ?c = "chi (pi_map (rho (theta a)))"
  have t: "theta_step s = list_of (theta a)"
    using assms by (simp add: theta_ok same_lanes_steps list_of_cong)
  have rp: "rho_pi_step (theta_step s) = list_of (pi_map (rho (theta a)))"
    unfolding t by (simp add: rho_pi_ok) (intro list_of_cong same_lanes_steps array_list)
  have c: "chi_step (rho_pi_step (theta_step s)) = list_of ?c"
    unfolding rp by (simp add: chi_ok) (intro list_of_cong same_lanes_steps array_list)
  have k: "keccakf_rndc ! r = round_constant r"
    using assms(3) by (simp flip: round_constants)
  have "(list_of ?c)[0 := list_of ?c ! 0 XOR round_constant r] = list_of (iota r ?c)"
    by (simp add: list_of_def iota_def upto5)
  then show ?thesis by (simp add: keccak_round_def c k keccak_steps_def Let_def)
qed

lemma keccak_f1600_eq:
  assumes "length s = 25"
  shows "keccak_f1600 s = list_of (keccak_p (array_of s))"
proof -
  have "fold keccak_round rs s = list_of (fold keccak_steps rs a)"
    if "length s = 25" "same_lanes (array_of s) a" "\<forall>r \<in> set rs. r < 24" for rs s a
    using that
  proof (induction rs arbitrary: s a)
    case Nil
    then show ?case using list_of_cong [of "array_of s" a] by (simp add: list_array)
  next
    case (Cons r rs)
    then have "fold keccak_round rs (list_of (keccak_steps r a)) = list_of (fold keccak_steps rs (keccak_steps r a))"
      by (intro Cons.IH) (simp_all add: array_list)
    then show ?case using Cons.prems by (simp add: keccak_round_ok)
  qed
  from this [of s "array_of s" "[0..<24]"] assms show ?thesis
    by (simp add: keccak_f1600_def keccak_p_def keccak_steps_def [abs_def] same_lanes_def)
qed

text \<open>
  C37. The permutation of the code, with its in-place loops and its tables of offsets, lane numbers
  and constants, is Keccak-f[1600] as FIPS 202 defines it: 24 rounds of theta, rho, pi, chi and iota,
  the rotation offsets along the path of coordinates and the round constants from the shift register.
\<close>

theorem keccak_f1600_is_keccak_p:
  "length s = 25 \<Longrightarrow> keccak_f1600 s = list_of (keccak_p (array_of s))"
  by (rule keccak_f1600_eq)

lemma keccak_f1600_is_keccak_p_witness:
  "keccak_f1600 (replicate 25 0) = list_of (keccak_p (array_of (replicate 25 0)))"
  by (rule keccak_f1600_is_keccak_p) simp

end
