(* ===== verification/Sha3_Hmac.thy ===== *)
theory Sha3_Hmac
  imports Sha3_Props
begin

text \<open>
  The streaming SHA3-384 of \<open>src/drivers/oob_rpmc_hmac_sha3_384.c\<close> against the sponge of FIPS 202, which
  pads the whole message and absorbs it in blocks of 104 bytes, and HMAC-SHA3-384 against the
  definition of HMAC.
\<close>

section \<open>Reference\<close>

definition keccak_ref :: "u64 list \<Rightarrow> u64 list" where
  "keccak_ref s = list_of (keccak_p (array_of s))"

fun xor_bytes :: "u8 list \<Rightarrow> nat \<Rightarrow> u64 list \<Rightarrow> u64 list" where
  "xor_bytes [] j s = s"
| "xor_bytes (x # xs) j s = xor_bytes xs (j + 1) (xor_byte j x s)"

text \<open>Absorb the whole blocks of a byte string.\<close>

function absorb :: "u64 list \<Rightarrow> u8 list \<Rightarrow> u64 list" where
  "absorb s bs = (if length bs < 104 then s else absorb (keccak_ref (xor_bytes (take 104 bs) 0 s)) (drop 104 bs))"
  by pat_completeness auto
termination
  by (relation "measure (\<lambda>(s, bs). length bs)") auto

declare absorb.simps [simp del]

text \<open>The padding of SHA3 in bytes: the bits \<open>01\<close>, a one, zeros and a last one.\<close>

definition sha3_pad :: "nat \<Rightarrow> u8 list" where
  "sha3_pad r = (if r = 103 then [0x86] else 0x06 # replicate (102 - r) 0 @ [0x80])"

definition sha3_384 :: "u8 list \<Rightarrow> u8 list" where
  "sha3_384 msg = map (get_byte (absorb (replicate 25 0) (msg @ sha3_pad (length msg mod 104)))) [0..<48]"

definition hmac_sha3_384 :: "u8 list \<Rightarrow> u8 list \<Rightarrow> u8 list" where
  "hmac_sha3_384 key msg =
     (let k = (if 104 < length key then sha3_384 key else key); k0 = k @ replicate (104 - length k) 0
      in sha3_384 (map (\<lambda>b. b XOR 0x5C) k0 @ sha3_384 (map (\<lambda>b. b XOR 0x36) k0 @ msg)))"

section \<open>Streaming\<close>

lemma length_xor_byte [simp]: "length (xor_byte j x s) = length s"
  by (simp add: xor_byte_def)

lemma length_xor_bytes [simp]: "length (xor_bytes xs j s) = length s"
  by (induction xs arbitrary: j s) simp_all

lemma length_keccak_ref [simp]: "length (keccak_ref s) = 25"
  by (simp add: keccak_ref_def)

lemma keccak_code: "length s = 25 \<Longrightarrow> keccak_f1600 s = keccak_ref s"
  by (simp add: keccak_ref_def keccak_f1600_eq)

lemma stream_part: "j + length xs < 104 \<Longrightarrow> fold (absorb_byte 104) xs (s, j) = (xor_bytes xs j s, j + length xs)"
  by (induction xs arbitrary: s j) (simp_all add: absorb_byte_def Let_def)

lemma stream_block:
  "length s = 25 \<Longrightarrow> xs \<noteq> [] \<Longrightarrow> j + length xs = 104 \<Longrightarrow> fold (absorb_byte 104) xs (s, j) = (keccak_ref (xor_bytes xs j s), 0)"
proof (induction xs arbitrary: s j)
  case (Cons x xs)
  show ?case
  proof (cases "xs = []")
    case True
    with Cons.prems have "j = 103" by simp
    with True Cons.prems show ?thesis by (simp add: absorb_byte_def keccak_code Let_def)
  next
    case False
    with Cons.prems have "absorb_byte 104 x (s, j) = (xor_byte j x s, j + 1)"
      by (cases xs) (simp_all add: absorb_byte_def)
    with False Cons show ?thesis by simp
  qed
qed simp

lemma absorb_rest: "length bs < 104 \<Longrightarrow> absorb s bs = s"
  by (simp add: absorb.simps)

lemma length_absorb [simp]: "length s = 25 \<Longrightarrow> length (absorb s bs) = 25"
  by (induction s bs rule: absorb.induct) (simp add: absorb.simps)

text \<open>The bytes behind the last whole block.\<close>

definition tail :: "u8 list \<Rightarrow> u8 list" where
  "tail bs = drop (104 * (length bs div 104)) bs"

lemma length_tail: "length (tail bs) = length bs mod 104"
  by (simp add: tail_def minus_mult_div_eq_mod)

lemma tail_block: "104 \<le> length bs \<Longrightarrow> tail bs = tail (drop 104 bs)"
  by (simp add: tail_def le_div_geq add.commute)

lemma stream_ok:
  "length s = 25 \<Longrightarrow> fold (absorb_byte 104) bs (s, 0) = (xor_bytes (tail bs) 0 (absorb s bs), length bs mod 104)"
proof (induction s bs rule: absorb.induct)
  case (1 s bs)
  show ?case
  proof (cases "length bs < 104")
    case True
    then show ?thesis by (simp add: stream_part absorb_rest tail_def)
  next
    case False
    let ?s = "keccak_ref (xor_bytes (take 104 bs) 0 s)"
    have "bs \<noteq> []" using False by auto
    then have "fold (absorb_byte 104) (take 104 bs @ drop 104 bs) (s, 0) = fold (absorb_byte 104) (drop 104 bs) (?s, 0)"
      using False 1(2) stream_block [of s "take 104 bs" 0] by (auto simp del: append_take_drop_id)
    then show ?thesis
      using False 1 by (simp add: tail_block absorb.simps [of s bs] le_mod_geq)
  qed
qed

lemma absorb_append: "absorb s (bs @ cs) = absorb (absorb s bs) (tail bs @ cs)"
proof (induction s bs rule: absorb.induct)
  case (1 s bs)
  show ?case
  proof (cases "length bs < 104")
    case True
    then show ?thesis by (simp add: absorb_rest tail_def)
  next
    case False
    with 1 show ?thesis
      by (simp add: absorb.simps [of s "bs @ cs"] absorb.simps [of s bs] tail_block)
  qed
qed

lemma xor_bytes_append: "xor_bytes (xs @ ys) j s = xor_bytes ys (j + length xs) (xor_bytes xs j s)"
  by (induction xs arbitrary: j s) simp_all

lemma xor_byte_0 [simp]: "xor_byte j 0 s = s"
  by (simp add: xor_byte_def)

lemma xor_bytes_0 [simp]: "xor_bytes (replicate n 0) j s = s"
  by (induction n arbitrary: j) simp_all

lemma xor_byte_twice: "j div 8 < length s \<Longrightarrow> xor_byte j x (xor_byte j y s) = xor_byte j (y XOR x) s"
  by (simp add: xor_byte_def unsigned_xor_eq push_bit_xor xor.assoc)

lemma padded_block:
  assumes "length s = 25" "r < 104"
  shows "xor_bytes (sha3_pad r) r s = xor_byte 103 0x80 (xor_byte r 0x06 s)"
proof (cases "r = 103")
  case True
  then show ?thesis using assms by (simp add: sha3_pad_def xor_byte_twice)
next
  case False
  with assms(2) have "r + (1 + (102 - r)) = 103" by simp
  with False show ?thesis by (simp add: sha3_pad_def xor_bytes_append)
qed

lemma final_ok:
  assumes "length s = 25"
  shows "absorb s (msg @ sha3_pad (length msg mod 104)) =
    keccak_ref (xor_byte 103 0x80 (xor_byte (length msg mod 104) 0x06 (xor_bytes (tail msg) 0 (absorb s msg))))"
proof -
  let ?b = "tail msg @ sha3_pad (length msg mod 104)"
  have l: "length ?b = 104"
    using mod_less_divisor [of 104 "length msg"] by (auto simp: length_tail sha3_pad_def)
  have "absorb s (msg @ sha3_pad (length msg mod 104)) = absorb (absorb s msg) ?b" by (rule absorb_append)
  also have "\<dots> = keccak_ref (xor_bytes ?b 0 (absorb s msg))"
    using l by (simp add: absorb.simps [of _ ?b] absorb_rest)
  finally show ?thesis
    using assms by (simp add: xor_bytes_append length_tail padded_block)
qed

lemma ctx_facts: "rsiz sha3_384_init = 104" "mdlen sha3_384_init = 48" "lanes sha3_384_init = replicate 25 0" "pt sha3_384_init = 0"
  "rsiz (sha3_384_update c bs) = rsiz c" "mdlen (sha3_384_update c bs) = mdlen c"
  by (simp_all add: sha3_384_init_def sha3_384_update_def split: prod.split)

lemma update_append: "sha3_384_update (sha3_384_update c as) bs = sha3_384_update c (as @ bs)"
  by (simp add: sha3_384_update_def split: prod.split)

lemma digest_ok: "sha3_384_final (sha3_384_update sha3_384_init msg) = sha3_384 msg"
proof -
  let ?s = "xor_bytes (tail msg) 0 (absorb (replicate 25 0) msg)"
  have "sha3_384_update sha3_384_init msg = sha3_384_init\<lparr>lanes := ?s, pt := length msg mod 104\<rparr>"
    by (simp add: sha3_384_update_def ctx_facts stream_ok)
  then show ?thesis
    by (simp add: sha3_384_final_def sha3_384_def ctx_facts final_ok keccak_code Let_def)
qed

text \<open>
  C38. The digest of the streaming implementation is SHA3-384 of the message, and the HMAC engine
  computes HMAC-SHA3-384 for every key, also one longer than a block, and every message.
\<close>

theorem hmac_sha3_384_correct:
  "hmac_sha3_384_engine (Some msg) (Some key) True 48 = (0, Some (hmac_sha3_384 key msg)) \<and>
   sha3_384_engine (Some msg) True 48 = (0, Some (sha3_384 msg))"
proof -
  have "hmac_key_pad key = (let k = (if 104 < length key then sha3_384 key else key) in k @ replicate (104 - length k) 0)"
    by (simp add: hmac_key_pad_def digest_ok eRPMC_SHA3_384_BLOCK_SIZE_def Let_def)
  then show ?thesis
    by (simp add: hmac_sha3_384_engine_def sha3_384_engine_def update_append digest_ok hmac_sha3_384_def Let_def
        eRPMC_SHA3_384_SIGNATURE_SIZE_def eRPMC_SHA3_384_DIGEST_SIZE_def)
qed

end
