(* ===== verification/Pseq.thy ===== *)
theory Pseq
  imports Bram
begin

text \<open>
  The power sequencing of \<open>src/app/power_sequencing/app_pseq.c\<close>: the system power state with its
  transition handlers, the sequencing stages with their delays, and the monitor that starts
  sequences. Preprocessor choices are a value of type \<open>board\<close>: which options are on, which
  optional pins the board names, and two properties of its identification. What the code reads
  from pins and from other modules in one call is a value of type \<open>env\<close>. Output pins are part of
  the state; calls of other modules, pin writes included, are recorded in order.
\<close>

section \<open>States, stages, pins\<close>

datatype system_power_state =
    SYSTEM_INIT_STATE | SYSTEM_G3_STATE | SYSTEM_S0_R_STATE | SYSTEM_S0_STATE | SYSTEM_S3_STATE
  | SYSTEM_S4_STATE | SYSTEM_S5_STATE

datatype system_power_seq_stage =
    POWER_INIT | SETUP_GPIO_DEFAULT | ENTER_TO_G3
  | FROM_G3_TO_S5 | FROM_G3_TO_S5_MID | PWRGD_ASSERTED | RELEASE_RSMRST
  | FROM_G3_TO_S0 | FROM_G3_TO_S0_MID | PWRGD_ASSERTED_IN_DC_MODE | RELEASE_RSMRST_IN_DC_MODE
  | FROM_S5_TO_G3 | FROM_S5_TO_G3_Part2 | FROM_S5_TO_G3_Part3
  | FROM_S5S3_TO_S0 | PWR_BTNn_EC_ASSERTED | FROM_S3_TO_S0 | FROM_S3_TO_S0_15ms | TRANSFERED_INTO_S0
  | FROM_S0_TO_S3S5 | FROM_S0_TO_S5 | FROM_S0_TO_S5_MEM_PMIC | GOING_TO_S5
  | FORCE_RESET | FORCE_RESET_Part1 | FORCE_RESET_Part2 | FORCE_RESET_G3_TO_S5 | FORCE_RESET_G3_TO_S5_MID
  | FORCE_RESET_PWRGD_ASSERTED
  | FORCE_G3 | FORCE_G3_Part1 | FORCE_G3_Part2 | FORCE_G3_Part3
  | SEQ_NUM_MAX | STATE_NO_CHANGE

datatype pin =
    EC_S5_PWREN | EC_1V8_S5_EN | RSMRST_N | EC_SLP_S5_N | EC_SLP_S3_S0A3_N | EC_APU_PROCHOT_N
  | EC_USB32_RD_RST_N | EC_USB32_RD_EN | ex_EP_SENSOR_3V3_PWREN | EC_S0_LED | ex_EP_SB_TSI_ESP32n_EC_SEL
  | ex_EP_MEM_1V0_PWREN | ex_EP_MEM_I2C_EN | ex_EP_HDR_DEPOP_MUTEn | ex_EP_CODEC_DEPOP_MUTEn
  | EC_CODEC_DEPOP_MUTE_N | ex_MEM_PMIC_VR_EN_3V3 | ex_MEM_PMIC_PWR_GOOD | EC_FPR_OP_BOOT_LOGIN_N
  | EC_IOT_3V3_SENSE_EN

datatype build_opt =
    CONFIG_VR_CONFIG_TABLE | CONFIG_POWER_SOURCE_MANAGEMENT | STANDBY_WITH_G3_POWER | CONFIG_HOT_BAG_EN
  | CONFIG_SFH | CONFIG_WIRELESS_MANAGEABILITY | CONFIG_FAN_RPM_CONTROL | CONFIG_UDC_MANAGEMENT
  | CONFIG_BATTERY_MANAGEMENT | CONFIG_CHARGER_ISL9241 | CONFIG_CHARGER_MP2764 | CONFIG_USBC_CCGX
  | CONFIG_USBC_4CC | CONFIG_USBC_UCSI_TUNNEL | CONFIG_SLEEP | CONFIG_ALS | CONFIG_IO_EXPANDER
  | CONFIG_SOC_SERIES_NPCX4 | CONFIG_SOC_FAMILY_MEC | CONFIG_POSTCODE_MANAGEMENT | BRD_MDS_DORNE_OR_AERIS

record board =
  opt :: "build_opt \<Rightarrow> bool"
  has_pin :: "pin \<Rightarrow> bool"
  supportMemPMIC :: bool \<comment> \<open>\<open>brdId_supportMemPMIC\<close>\<close>
  isPEO :: bool \<comment> \<open>\<open>BRDID_isPEO\<close>\<close>

text \<open>What one call of the state machine or of the monitor reads.\<close>

record env =
  SYSTEM_S5_PG :: bool
  SLP_S3_ASSERT :: bool
  SLP_S5_ASSERT :: bool
  hasAcPowerSource :: bool
  S5AlwEnFlag :: bool
  vr_needs_G3 :: bool \<comment> \<open>result of \<open>board_vrCfg_vr_init\<close>\<close>
  mem_pmic_pwr_good :: bool \<comment> \<open>\<open>ioexp_get(ex_MEM_PMIC_PWR_GOOD)\<close>\<close>
  iot_3v3_sense :: bool
  pd_is_CCGx :: bool \<comment> \<open>\<open>app_usbc_readDevID() == PD_DEVICE_ID_CCGx\<close>\<close>
  hostNotifyDisabled :: bool
  pmf_suspended :: bool \<comment> \<open>\<open>g_pmfStatus == PMF_SUSPEND\<close>\<close>

datatype call =
    Write pin bool | Evaluate_card_pins | ManOs_exit_S5 | ManOs_enter_S5 | ManOs_enter_S0 | ManOs_exit_S0
  | ManOs_enter_S3 | Pmf_heartbeat_refresh | Pmf_heartbeat_stop | Fan_enable | Fan_disable | Clear_queued_events
  | Acpi_ibf nat bool | Acpi_obe nat bool | Postcode_on | Postcode_off | Prochot_irq bool | Enable_host_notify
  | Charger_set_prochot | Ccgx_update system_power_state | Tps_config system_power_state
  | Apu_sleep_exit | Apu_sleep_enter | Enable_ksx_wakeup | Brd_transition_S5 | Vr_exit_low_power | Vr_setup_core
  | Vr_init | Gpio_switching system_power_state | Espi_reset | Espi_init | Espi_on | Battery_frozen | Spi_reset
  | Pd_role_S5 | Pd_role_G3 | Init_io_expander | Init_als | Trigger_pwrbtn nat | Ddr5_power bool
  | Post_signal_probe | Btn_monitor | Update_error u8 | Add_state_handler | Busy_wait_1s | Reboot_cold

record pseq =
  pwrseq_failure :: bool
  init_espi :: bool
  current_state :: system_power_state
  next_state :: system_power_state
  next_stage :: system_power_seq_stage
  s_slpS35WaitCnt :: u32
  s_gotoG3WaitCnt :: u32
  s_pwrStHadS3 :: bool
  s_vrNeedG3 :: bool
  s_vrNeedG3_cnt :: u8
  g_ui32_pwrBtnMissCnt :: u32
  g_pwrSeqDelay :: u32
  g_pwrSeqExpired :: bool
  boot_mode_maf :: bool
  g_ui8PwrBtnVciFlag :: bool
  g_auxD3Cold :: u8
  g_LPCAMM_PWR_EN :: bool
  g_ui8MondernStandbySupport :: bool
  g_slideToShutdownEnabled :: bool
  g_isUcsiCycleFinished :: bool
  waie_syc_flag :: u8
  g_powerSeq_criticalZone :: bool
  s_bootReason :: u32
  s_last_pin_level :: bool
  sleep_ready :: bool
  delay_timer :: "u32 option" \<comment> \<open>\<open>_s_pseqDelayTimerId\<close>: armed with this period\<close>
  pins :: "pin \<Rightarrow> bool"
  calls :: "call list"

section \<open>Sequencing of actions\<close>

text \<open>A block of statements, and a statement under a condition.\<close>

definition steps :: "('s \<Rightarrow> 's) list \<Rightarrow> 's \<Rightarrow> 's" where
  "steps fs s = fold (\<lambda>f. f) fs s"

definition if_do :: "bool \<Rightarrow> ('s \<Rightarrow> 's) \<Rightarrow> 's \<Rightarrow> 's" where
  "if_do c f s = (if c then f s else s)"

lemma steps_simps [simp]: "steps [] s = s" "steps (f # fs) s = steps fs (f s)"
  by (simp_all add: steps_def)

definition emit :: "call \<Rightarrow> pseq \<Rightarrow> pseq" where
  "emit c s = s\<lparr>calls := calls s @ [c]\<rparr>"

definition gpio_write_pin :: "pin \<Rightarrow> bool \<Rightarrow> pseq \<Rightarrow> pseq" where
  "gpio_write_pin p v s = s\<lparr>pins := (pins s)(p := v), calls := calls s @ [Write p v]\<rparr>"

text \<open>A write inside \<open>#ifdef\<close> of the pin.\<close>

definition opt_write :: "board \<Rightarrow> pin \<Rightarrow> bool \<Rightarrow> pseq \<Rightarrow> pseq" where
  "opt_write b p v = if_do (has_pin b p) (gpio_write_pin p v)"

text \<open>
  \<open>app_btn_ecReset\<close> of \<open>app_btn.c\<close>, as far as the sequencing sees it: it does not return, the
  controller reboots.
\<close>

definition ec_reset :: "pseq \<Rightarrow> pseq" where
  "ec_reset = steps [gpio_write_pin EC_1V8_S5_EN False, emit Busy_wait_1s, emit Reboot_cold]"

definition set_sleep_ready :: "bool \<Rightarrow> pseq \<Rightarrow> pseq" where
  "set_sleep_ready v s = s\<lparr>sleep_ready := v\<rparr>"

definition app_pseq_nextStep :: "system_power_seq_stage \<Rightarrow> u32 \<Rightarrow> pseq \<Rightarrow> pseq" where
  "app_pseq_nextStep next delay s =
     s\<lparr>sleep_ready := False, g_pwrSeqDelay := delay, delay_timer := Some delay,
       next_stage := (if STATE_NO_CHANGE \<noteq> next then next else next_stage s)\<rparr>"

definition app_pseq_delayCallback :: "pseq \<Rightarrow> pseq" where
  "app_pseq_delayCallback s = s\<lparr>g_pwrSeqExpired := True\<rparr>"

definition app_pseq_isBusy :: "pseq \<Rightarrow> bool" where
  "app_pseq_isBusy s \<longleftrightarrow> g_pwrSeqDelay s \<noteq> 0"

definition app_pseq_systemState :: "pseq \<Rightarrow> system_power_state" where
  "app_pseq_systemState s = current_state s"

definition app_pseq_error :: "board \<Rightarrow> u8 \<Rightarrow> pseq \<Rightarrow> pseq" where
  "app_pseq_error b error_code s =
     if_do (opt b CONFIG_POSTCODE_MANAGEMENT) (emit (Update_error error_code)) (s\<lparr>pwrseq_failure := True\<rparr>)"

section \<open>Virtual wire handler and initialisation\<close>

datatype vwire = ESPI_VWIRE_SIGNAL_SLP_S3 | ESPI_VWIRE_SIGNAL_SLP_S4 | ESPI_VWIRE_SIGNAL_SLP_S5

definition app_pseq_slp_handler :: "vwire \<Rightarrow> bool \<Rightarrow> pseq \<Rightarrow> pseq" where
  "app_pseq_slp_handler signal status s =
     (if status then
        (case current_state s of
           SYSTEM_S5_STATE \<Rightarrow> s\<lparr>next_state := SYSTEM_S0_STATE\<rparr>
         | SYSTEM_S4_STATE \<Rightarrow> s\<lparr>next_state := SYSTEM_S0_STATE\<rparr>
         | SYSTEM_G3_STATE \<Rightarrow> s\<lparr>next_state := SYSTEM_S0_STATE\<rparr>
         | SYSTEM_S3_STATE \<Rightarrow> s\<lparr>next_state := SYSTEM_S0_STATE\<rparr>
         | _ \<Rightarrow> s)
      else
        (case signal of
           ESPI_VWIRE_SIGNAL_SLP_S3 \<Rightarrow> s\<lparr>next_state := SYSTEM_S3_STATE\<rparr>
         | ESPI_VWIRE_SIGNAL_SLP_S4 \<Rightarrow> s\<lparr>next_state := SYSTEM_S4_STATE\<rparr>
         | ESPI_VWIRE_SIGNAL_SLP_S5 \<Rightarrow> s\<lparr>next_state := SYSTEM_S5_STATE\<rparr>))"

datatype boot_config_mode = FLASH_BOOT_MODE_G3_SHARING | FLASH_BOOT_MODE_MAF | FLASH_BOOT_MODE_SAF | FLASH_BOOT_MODE_OWN

definition handle_spi_sharing :: "boot_config_mode \<Rightarrow> pseq \<Rightarrow> pseq" where
  "handle_spi_sharing boot_mode s =
     (case boot_mode of FLASH_BOOT_MODE_MAF \<Rightarrow> s\<lparr>boot_mode_maf := True\<rparr> | _ \<Rightarrow> s)"

definition app_pseq_task_init :: "boot_config_mode \<Rightarrow> pseq \<Rightarrow> pseq" where
  "app_pseq_task_init boot_mode =
     steps [\<lambda>s. s\<lparr>current_state := SYSTEM_INIT_STATE, next_state := SYSTEM_INIT_STATE\<rparr>,
       handle_spi_sharing boot_mode, emit Add_state_handler, app_pseq_nextStep POWER_INIT 1]"

section \<open>Transition handlers\<close>

definition app_pseq_exitS0 :: "board \<Rightarrow> pseq \<Rightarrow> pseq" where
  "app_pseq_exitS0 b =
     steps [if_do (opt b CONFIG_UDC_MANAGEMENT) (emit Postcode_off),
       if_do (opt b CONFIG_WIRELESS_MANAGEABILITY) (emit ManOs_exit_S0),
       emit Espi_reset, emit (Prochot_irq False),
       gpio_write_pin EC_APU_PROCHOT_N (\<not> opt b CONFIG_SOC_FAMILY_MEC),
       if_do (opt b CONFIG_HOT_BAG_EN)
         (steps [\<lambda>s. s\<lparr>g_powerSeq_criticalZone := False\<rparr>, emit Pmf_heartbeat_stop])]"

definition charger_prochot :: "board \<Rightarrow> pseq \<Rightarrow> pseq" where
  "charger_prochot b = if_do (opt b CONFIG_BATTERY_MANAGEMENT \<and>
     (opt b CONFIG_CHARGER_ISL9241 \<or> opt b CONFIG_CHARGER_MP2764)) (emit Charger_set_prochot)"

definition ccgx_update :: "board \<Rightarrow> env \<Rightarrow> system_power_state \<Rightarrow> pseq \<Rightarrow> pseq" where
  "ccgx_update b e pst = if_do (opt b CONFIG_USBC_CCGX \<and> pd_is_CCGx e) (emit (Ccgx_update pst))"

definition finish_ucsi :: "board \<Rightarrow> pseq \<Rightarrow> pseq" where
  "finish_ucsi b = if_do (opt b CONFIG_USBC_UCSI_TUNNEL) (\<lambda>s. s\<lparr>g_isUcsiCycleFinished := True\<rparr>)"

definition app_pseq_transitionToS0 :: "board \<Rightarrow> env \<Rightarrow> pseq \<Rightarrow> bool \<times> pseq" where
  "app_pseq_transitionToS0 b e s =
     (let (valid_transition, s1) =
        (case current_state s of
           SYSTEM_G3_STATE \<Rightarrow> (True, emit Evaluate_card_pins s)
         | SYSTEM_S5_STATE \<Rightarrow> (True, if_do (opt b CONFIG_WIRELESS_MANAGEABILITY) (emit ManOs_exit_S5) s)
         | SYSTEM_S3_STATE \<Rightarrow> (True,
             if_do (opt b CONFIG_HOT_BAG_EN \<and> g_ui8MondernStandbySupport s \<and> pmf_suspended e)
               (steps [\<lambda>s. s\<lparr>g_powerSeq_criticalZone := True\<rparr>, emit Pmf_heartbeat_refresh]) s)
         | SYSTEM_S0_R_STATE \<Rightarrow> (True, s)
         | _ \<Rightarrow> (False, s))
      in (valid_transition, steps
       [if_do (opt b CONFIG_FAN_RPM_CONTROL) (emit Fan_enable),
        set_sleep_ready False,
        if_do (\<not> g_ui8MondernStandbySupport s) (emit Clear_queued_events),
        emit (Acpi_ibf 0 True), emit (Acpi_obe 0 True), emit (Acpi_ibf 1 True),
        if_do (opt b CONFIG_UDC_MANAGEMENT) (emit Postcode_on),
        if_do (opt b CONFIG_WIRELESS_MANAGEABILITY) (emit ManOs_enter_S0),
        emit (Prochot_irq True),
        gpio_write_pin EC_APU_PROCHOT_N (\<not> opt b CONFIG_SOC_FAMILY_MEC),
        if_do (g_ui8MondernStandbySupport s \<and> hostNotifyDisabled e) (emit Enable_host_notify),
        charger_prochot b,
        ccgx_update b e SYSTEM_S0_STATE,
        if_do (opt b CONFIG_USBC_4CC) (steps [emit (Tps_config SYSTEM_S0_STATE), emit (Tps_config SYSTEM_S0_STATE)])] s1))"

definition app_pseq_transitionToS0R :: "board \<Rightarrow> pseq \<Rightarrow> bool \<times> pseq" where
  "app_pseq_transitionToS0R b s = (True, steps
     [if_do (s_pwrStHadS3 s) (steps [\<lambda>s. s\<lparr>s_pwrStHadS3 := False\<rparr>, emit Apu_sleep_exit]),
      if_do (current_state s = SYSTEM_S5_STATE \<and> opt b CONFIG_WIRELESS_MANAGEABILITY) (emit ManOs_exit_S5),
      opt_write b EC_FPR_OP_BOOT_LOGIN_N True,
      set_sleep_ready False] s)"

definition app_pseq_transitionToS3 :: "board \<Rightarrow> env \<Rightarrow> pseq \<Rightarrow> bool \<times> pseq" where
  "app_pseq_transitionToS3 b e s =
     (let (valid_transition, s1) =
        (case current_state s of
           SYSTEM_S0_STATE \<Rightarrow> (True, steps
             [app_pseq_exitS0 b, opt_write b EC_FPR_OP_BOOT_LOGIN_N True,
              if_do (opt b CONFIG_SFH) (\<lambda>s. s\<lparr>waie_syc_flag := 0xD1\<rparr>)] s)
         | SYSTEM_G3_STATE \<Rightarrow> (True, emit Evaluate_card_pins s)
         | SYSTEM_S5_STATE \<Rightarrow> (True, if_do (opt b CONFIG_WIRELESS_MANAGEABILITY) (emit ManOs_exit_S5) s)
         | _ \<Rightarrow> (False, s))
      in (valid_transition, steps
       [set_sleep_ready True,
        \<lambda>s. s\<lparr>s_pwrStHadS3 := True\<rparr>,
        emit Apu_sleep_enter,
        if_do (opt b CONFIG_WIRELESS_MANAGEABILITY) (emit ManOs_enter_S3),
        charger_prochot b,
        if_do (g_ui8MondernStandbySupport s) (steps
          [if_do (opt b CONFIG_SLEEP) (emit Enable_ksx_wakeup),
           emit (Acpi_ibf 0 False), emit (Acpi_obe 0 False), emit (Acpi_ibf 1 False)]),
        ccgx_update b e SYSTEM_S3_STATE,
        finish_ucsi b] s1))"

definition app_pseq_transitionToS4 :: "board \<Rightarrow> pseq \<Rightarrow> bool \<times> pseq" where
  "app_pseq_transitionToS4 b s = (True, steps
     [set_sleep_ready True,
      if_do (current_state s = SYSTEM_S0_STATE) (steps
        [opt_write b EC_FPR_OP_BOOT_LOGIN_N False, app_pseq_exitS0 b,
         if_do (opt b CONFIG_SFH) (\<lambda>s. s\<lparr>waie_syc_flag := 0xD1\<rparr>)]),
      finish_ucsi b] s)"

definition app_pseq_transitionToS5 :: "board \<Rightarrow> env \<Rightarrow> pseq \<Rightarrow> bool \<times> pseq" where
  "app_pseq_transitionToS5 b e s =
     (let (valid_transition, s1) =
        (case current_state s of
           SYSTEM_S3_STATE \<Rightarrow> (True, s)
         | SYSTEM_S0_STATE \<Rightarrow> (True, steps
             [app_pseq_exitS0 b, opt_write b EC_FPR_OP_BOOT_LOGIN_N False,
              if_do (opt b CONFIG_SFH) (\<lambda>s. s\<lparr>waie_syc_flag := 0xD1\<rparr>)] s)
         | SYSTEM_G3_STATE \<Rightarrow> (True, emit Evaluate_card_pins s)
         | _ \<Rightarrow> (False, s))
      in (valid_transition, steps
       [set_sleep_ready True,
        emit Brd_transition_S5,
        \<lambda>s. s\<lparr>g_auxD3Cold := 0, g_ui8MondernStandbySupport := False, g_slideToShutdownEnabled := False\<rparr>,
        if_do (opt b CONFIG_UDC_MANAGEMENT) (emit Postcode_off),
        if_do (opt b CONFIG_WIRELESS_MANAGEABILITY) (emit ManOs_enter_S5),
        charger_prochot b,
        ccgx_update b e SYSTEM_S5_STATE,
        finish_ucsi b] s1))"

definition app_pseq_transitionToG3 :: "board \<Rightarrow> env \<Rightarrow> pseq \<Rightarrow> bool \<times> pseq" where
  "app_pseq_transitionToG3 b e s =
     (let (valid_transition, s1) =
        (case current_state s of
           SYSTEM_S3_STATE \<Rightarrow> (True, s)
         | SYSTEM_S0_STATE \<Rightarrow> (True, steps
             [app_pseq_exitS0 b, if_do (opt b CONFIG_SFH) (\<lambda>s. s\<lparr>waie_syc_flag := 0xD1\<rparr>)] s)
         | SYSTEM_S5_STATE \<Rightarrow> (True, if_do (opt b CONFIG_WIRELESS_MANAGEABILITY) (emit ManOs_exit_S5) s)
         | SYSTEM_INIT_STATE \<Rightarrow> (True, s)
         | _ \<Rightarrow> (False, s))
      in (valid_transition, steps
       [set_sleep_ready True,
        if_do (opt b CONFIG_VR_CONFIG_TABLE) (emit Vr_exit_low_power),
        if_do (opt b CONFIG_UDC_MANAGEMENT) (emit Postcode_off),
        \<lambda>s. if_do (g_ui8PwrBtnVciFlag s)
          (steps [\<lambda>s. s\<lparr>g_ui8PwrBtnVciFlag := False\<rparr>, app_pseq_nextStep FROM_G3_TO_S0 5]) s,
        ccgx_update b e SYSTEM_G3_STATE,
        finish_ucsi b,
        if_do (opt b CONFIG_USBC_4CC) (steps [emit (Tps_config SYSTEM_G3_STATE), emit (Tps_config SYSTEM_G3_STATE)])] s1))"

definition app_pseq_update :: "board \<Rightarrow> env \<Rightarrow> pseq \<Rightarrow> pseq" where
  "app_pseq_update b e s =
     (let s0 = (if next_state s \<noteq> SYSTEM_S0_STATE \<and> next_state s \<noteq> SYSTEM_S0_R_STATE
                then s\<lparr>s_pwrStHadS3 := False\<rparr> else s);
          (valid_sx_transition, s1) =
            (case next_state s0 of
               SYSTEM_S0_STATE \<Rightarrow> app_pseq_transitionToS0 b e s0
             | SYSTEM_S0_R_STATE \<Rightarrow> app_pseq_transitionToS0R b s0
             | SYSTEM_S3_STATE \<Rightarrow> app_pseq_transitionToS3 b e s0
             | SYSTEM_S4_STATE \<Rightarrow> app_pseq_transitionToS4 b s0
             | SYSTEM_S5_STATE \<Rightarrow> app_pseq_transitionToS5 b e s0
             | SYSTEM_G3_STATE \<Rightarrow> app_pseq_transitionToG3 b e s0
             | SYSTEM_INIT_STATE \<Rightarrow> (False, s0))
      in if valid_sx_transition
         then emit (Gpio_switching (next_state s1)) (s1\<lparr>current_state := next_state s1\<rparr>)
         else s1\<lparr>next_state := current_state s1\<rparr>)"

definition app_pseq_setPwrStatus :: "board \<Rightarrow> env \<Rightarrow> system_power_state \<Rightarrow> pseq \<Rightarrow> pseq" where
  "app_pseq_setPwrStatus b e pst s =
     (if next_state s \<noteq> pst then
        (let s1 = s\<lparr>next_state := pst\<rparr> in
         if next_state s1 \<noteq> current_state s1 \<and> \<not> pwrseq_failure s1 then app_pseq_update b e s1 else s1)
      else s)"

section \<open>The stages\<close>

text \<open>The switches of the S5 rails that several stages write after the two power enables.\<close>

definition opt_S5_rails :: "board \<Rightarrow> bool \<Rightarrow> pseq \<Rightarrow> pseq" where
  "opt_S5_rails b v = steps [opt_write b EC_USB32_RD_RST_N v, opt_write b EC_USB32_RD_EN v, opt_write b ex_EP_SENSOR_3V3_PWREN v]"

text \<open>The stages after reset, and from G3 to S5.\<close>

definition S5_rails_on :: "board \<Rightarrow> pseq \<Rightarrow> pseq" where
  "S5_rails_on b = steps [gpio_write_pin EC_S5_PWREN True, gpio_write_pin EC_1V8_S5_EN True, opt_S5_rails b True]"

definition wait_S5_power_good :: "env \<Rightarrow> system_power_seq_stage \<Rightarrow> pseq \<Rightarrow> pseq" where
  "wait_S5_power_good e next =
     (if SYSTEM_S5_PG e then app_pseq_nextStep next 20 else app_pseq_nextStep STATE_NO_CHANGE 1)"

definition S5_devices_init :: "board \<Rightarrow> pseq \<Rightarrow> pseq" where
  "S5_devices_init b = steps
     [if_do (opt b CONFIG_SOC_SERIES_NPCX4) (emit Spi_reset), emit Pd_role_S5,
      if_do (opt b CONFIG_IO_EXPANDER) (emit Init_io_expander)]"

definition vr_espi_init :: "board \<Rightarrow> env \<Rightarrow> pseq \<Rightarrow> pseq" where
  "vr_espi_init b e = steps
     [if_do (opt b CONFIG_VR_CONFIG_TABLE) (steps [emit Vr_init, \<lambda>s. s\<lparr>s_vrNeedG3 := vr_needs_G3 e\<rparr>]),
      \<lambda>s. if_do (\<not> init_espi s) (steps [emit Espi_init, \<lambda>s. s\<lparr>init_espi := True\<rparr>]) s]"

definition vr_retry :: "board \<Rightarrow> pseq \<Rightarrow> bool" where
  "vr_retry b s \<longleftrightarrow> opt b CONFIG_VR_CONFIG_TABLE \<and> s_vrNeedG3 s \<and> s_vrNeedG3_cnt s < 3"

definition vr_count :: "pseq \<Rightarrow> pseq" where
  "vr_count s = s\<lparr>s_vrNeedG3 := False, s_vrNeedG3_cnt := s_vrNeedG3_cnt s + 1\<rparr>"

definition vr_done :: "board \<Rightarrow> pseq \<Rightarrow> pseq" where
  "vr_done b = if_do (opt b CONFIG_VR_CONFIG_TABLE) (\<lambda>s. s\<lparr>s_vrNeedG3_cnt := 0\<rparr>)"

definition release_rsmrst :: "board \<Rightarrow> env \<Rightarrow> pseq \<Rightarrow> pseq" where
  "release_rsmrst b e s =
     (let s1 = vr_espi_init b e s in
      if vr_retry b s1 then steps [vr_count, app_pseq_nextStep FROM_S5_TO_G3 1] s1
      else steps [vr_done b, gpio_write_pin RSMRST_N True, app_pseq_setPwrStatus b e SYSTEM_S5_STATE,
             if_do (isPEO b) (app_pseq_nextStep FROM_S5S3_TO_S0 100)] s1)"

definition release_rsmrst_in_dc_mode :: "board \<Rightarrow> env \<Rightarrow> pseq \<Rightarrow> pseq" where
  "release_rsmrst_in_dc_mode b e s =
     (let s1 = vr_espi_init b e s in
      if vr_retry b s1 then steps [vr_count, app_pseq_nextStep FORCE_RESET 30] s1
      else steps [vr_done b, gpio_write_pin RSMRST_N True, app_pseq_nextStep FROM_S5S3_TO_S0 30] s1)"

definition stage_g3_up :: "board \<Rightarrow> env \<Rightarrow> system_power_seq_stage \<Rightarrow> pseq \<Rightarrow> pseq" where
  "stage_g3_up b e stage =
     (case stage of
        POWER_INIT \<Rightarrow> app_pseq_nextStep SETUP_GPIO_DEFAULT 1
      | SETUP_GPIO_DEFAULT \<Rightarrow> app_pseq_nextStep ENTER_TO_G3 10
      | ENTER_TO_G3 \<Rightarrow> app_pseq_setPwrStatus b e SYSTEM_G3_STATE
      | FROM_G3_TO_S5 \<Rightarrow> steps [S5_rails_on b, wait_S5_power_good e PWRGD_ASSERTED]
      | PWRGD_ASSERTED \<Rightarrow> steps
          [gpio_write_pin RSMRST_N False, S5_rails_on b, S5_devices_init b,
           if_do (opt b CONFIG_ALS) (emit Init_als), app_pseq_nextStep RELEASE_RSMRST 1]
      | RELEASE_RSMRST \<Rightarrow> release_rsmrst b e
      | FROM_G3_TO_S0 \<Rightarrow> steps
          [gpio_write_pin RSMRST_N False, S5_rails_on b, wait_S5_power_good e PWRGD_ASSERTED_IN_DC_MODE]
      | PWRGD_ASSERTED_IN_DC_MODE \<Rightarrow> steps
          [S5_rails_on b, S5_devices_init b, if_do (opt b CONFIG_ALS) (emit Init_als),
           app_pseq_nextStep RELEASE_RSMRST_IN_DC_MODE 20]
      | RELEASE_RSMRST_IN_DC_MODE \<Rightarrow> release_rsmrst_in_dc_mode b e
      | _ \<Rightarrow> id)"

text \<open>From S5 to G3.\<close>

definition stage_s5_g3 :: "board \<Rightarrow> env \<Rightarrow> system_power_seq_stage \<Rightarrow> pseq \<Rightarrow> pseq" where
  "stage_s5_g3 b e stage =
     (case stage of
        FROM_S5_TO_G3 \<Rightarrow> steps
          [opt_write b ex_EP_SB_TSI_ESP32n_EC_SEL False, gpio_write_pin EC_SLP_S5_N False,
           gpio_write_pin EC_SLP_S3_S0A3_N False, opt_write b EC_S0_LED False, gpio_write_pin RSMRST_N False,
           app_pseq_nextStep FROM_S5_TO_G3_Part2 10]
      | FROM_S5_TO_G3_Part2 \<Rightarrow> steps
          [opt_S5_rails b False, gpio_write_pin EC_1V8_S5_EN False, app_pseq_nextStep FROM_S5_TO_G3_Part3 20]
      | FROM_S5_TO_G3_Part3 \<Rightarrow> steps
          [gpio_write_pin EC_S5_PWREN False, app_pseq_setPwrStatus b e SYSTEM_G3_STATE]
      | _ \<Rightarrow> id)"

text \<open>From S5 or S3 to S0.\<close>

definition into_s0r :: "board \<Rightarrow> env \<Rightarrow> pseq \<Rightarrow> pseq" where
  "into_s0r b e = steps
     [if_do (opt b CONFIG_BATTERY_MANAGEMENT) (emit Battery_frozen), emit Espi_on,
      gpio_write_pin EC_SLP_S5_N True, gpio_write_pin EC_SLP_S3_S0A3_N True,
      opt_write b ex_EP_SB_TSI_ESP32n_EC_SEL True, opt_write b EC_S0_LED True, emit (Ddr5_power True),
      if_do (supportMemPMIC b) (steps [opt_write b ex_EP_MEM_1V0_PWREN True, opt_write b ex_EP_MEM_I2C_EN True]),
      app_pseq_setPwrStatus b e SYSTEM_S0_R_STATE,
      if_do (supportMemPMIC b \<and> has_pin b ex_MEM_PMIC_PWR_GOOD) (\<lambda>s. s\<lparr>g_LPCAMM_PWR_EN := True\<rparr>),
      app_pseq_nextStep TRANSFERED_INTO_S0 100,
      \<lambda>s. s\<lparr>s_slpS35WaitCnt := 0\<rparr>]"

definition wait_slp :: "pseq \<Rightarrow> pseq" where
  "wait_slp s =
     (let s1 = app_pseq_nextStep STATE_NO_CHANGE 1 (s\<lparr>s_slpS35WaitCnt := s_slpS35WaitCnt s + 1\<rparr>) in
      if s_slpS35WaitCnt s1 > 2000
      then steps [\<lambda>s. s\<lparr>g_ui32_pwrBtnMissCnt := g_ui32_pwrBtnMissCnt s + 1, s_slpS35WaitCnt := 0\<rparr>,
             emit (Ddr5_power False), app_pseq_nextStep FROM_S0_TO_S3S5 1] s1
      else s1)"

definition stage_to_s0 :: "board \<Rightarrow> env \<Rightarrow> system_power_seq_stage \<Rightarrow> pseq \<Rightarrow> pseq" where
  "stage_to_s0 b e stage =
     (case stage of
        FROM_S5S3_TO_S0 \<Rightarrow> steps [emit (Trigger_pwrbtn 20), app_pseq_nextStep FROM_S3_TO_S0 1]
      | FROM_S3_TO_S0 \<Rightarrow> (if \<not> SLP_S3_ASSERT e \<and> \<not> SLP_S5_ASSERT e then into_s0r b e else wait_slp)
      | TRANSFERED_INTO_S0 \<Rightarrow> steps
          [opt_write b ex_EP_HDR_DEPOP_MUTEn True, opt_write b ex_EP_CODEC_DEPOP_MUTEn True,
           opt_write b EC_CODEC_DEPOP_MUTE_N True, app_pseq_setPwrStatus b e SYSTEM_S0_STATE]
      | _ \<Rightarrow> id)"

text \<open>From S0 to S3 or S5.\<close>

definition stage_from_s0 :: "board \<Rightarrow> env \<Rightarrow> system_power_seq_stage \<Rightarrow> pseq \<Rightarrow> pseq" where
  "stage_from_s0 b e stage =
     (case stage of
        FROM_S0_TO_S3S5 \<Rightarrow> steps
          [if_do (opt b CONFIG_FAN_RPM_CONTROL) (emit Fan_disable),
           opt_write b ex_EP_HDR_DEPOP_MUTEn False, opt_write b ex_EP_CODEC_DEPOP_MUTEn False,
           opt_write b EC_CODEC_DEPOP_MUTE_N False,
           if SLP_S5_ASSERT e then app_pseq_nextStep FROM_S0_TO_S5 1
           else steps [gpio_write_pin EC_SLP_S3_S0A3_N False, opt_write b EC_S0_LED False,
                  app_pseq_setPwrStatus b e SYSTEM_S3_STATE]]
      | FROM_S0_TO_S5 \<Rightarrow> steps
          [gpio_write_pin (if opt b BRD_MDS_DORNE_OR_AERIS then EC_SLP_S5_N else EC_SLP_S3_S0A3_N) False,
           if supportMemPMIC b
           then steps [opt_write b ex_MEM_PMIC_VR_EN_3V3 False, app_pseq_nextStep FROM_S0_TO_S5_MEM_PMIC 1]
           else app_pseq_nextStep GOING_TO_S5 (if opt b BRD_MDS_DORNE_OR_AERIS then 20 else 1)]
      | FROM_S0_TO_S5_MEM_PMIC \<Rightarrow>
          if_do (has_pin b ex_MEM_PMIC_PWR_GOOD)
            (if \<not> mem_pmic_pwr_good e then app_pseq_nextStep GOING_TO_S5 200 else app_pseq_nextStep STATE_NO_CHANGE 1)
      | GOING_TO_S5 \<Rightarrow> steps
          [gpio_write_pin (if opt b BRD_MDS_DORNE_OR_AERIS then EC_SLP_S3_S0A3_N else EC_SLP_S5_N) False,
           opt_write b EC_S0_LED False, if_do (opt b CONFIG_VR_CONFIG_TABLE) (emit Vr_setup_core),
           emit (Ddr5_power False), app_pseq_setPwrStatus b e SYSTEM_S5_STATE]
      | _ \<Rightarrow> id)"

text \<open>Forced reset and forced G3.\<close>

definition stage_force :: "board \<Rightarrow> env \<Rightarrow> system_power_seq_stage \<Rightarrow> pseq \<Rightarrow> pseq" where
  "stage_force b e stage =
     (case stage of
        FORCE_RESET \<Rightarrow> steps
          [if_do (opt b CONFIG_FAN_RPM_CONTROL) (emit Fan_disable),
           gpio_write_pin (if opt b BRD_MDS_DORNE_OR_AERIS then EC_SLP_S5_N else EC_SLP_S3_S0A3_N) False,
           app_pseq_nextStep FORCE_RESET_Part1 (if opt b BRD_MDS_DORNE_OR_AERIS then 20 else 1)]
      | FORCE_RESET_Part1 \<Rightarrow> steps
          [gpio_write_pin (if opt b BRD_MDS_DORNE_OR_AERIS then EC_SLP_S3_S0A3_N else EC_SLP_S5_N) False,
           opt_write b ex_EP_SB_TSI_ESP32n_EC_SEL False, opt_write b EC_S0_LED False,
           gpio_write_pin EC_S5_PWREN False, app_pseq_nextStep FORCE_RESET_Part2 20]
      | FORCE_RESET_Part2 \<Rightarrow> steps
          [opt_write b EC_USB32_RD_EN False, opt_write b EC_USB32_RD_RST_N False, opt_write b ex_EP_SENSOR_3V3_PWREN False,
           gpio_write_pin EC_1V8_S5_EN False, gpio_write_pin RSMRST_N False,
           app_pseq_setPwrStatus b e SYSTEM_G3_STATE, app_pseq_nextStep FORCE_RESET_G3_TO_S5 1000]
      | FORCE_RESET_G3_TO_S5 \<Rightarrow> steps [S5_rails_on b, wait_S5_power_good e FORCE_RESET_PWRGD_ASSERTED]
      | FORCE_RESET_PWRGD_ASSERTED \<Rightarrow> steps
          [S5_devices_init b, gpio_write_pin RSMRST_N True, app_pseq_setPwrStatus b e SYSTEM_S5_STATE,
           app_pseq_nextStep FROM_S5S3_TO_S0 200]
      | FORCE_G3 \<Rightarrow> steps
          [if_do (opt b CONFIG_FAN_RPM_CONTROL) (emit Fan_disable),
           gpio_write_pin (if opt b BRD_MDS_DORNE_OR_AERIS then EC_SLP_S5_N else EC_SLP_S3_S0A3_N) False,
           app_pseq_nextStep FORCE_G3_Part1 (if opt b BRD_MDS_DORNE_OR_AERIS then 20 else 1)]
      | FORCE_G3_Part1 \<Rightarrow> steps
          [gpio_write_pin (if opt b BRD_MDS_DORNE_OR_AERIS then EC_SLP_S3_S0A3_N else EC_SLP_S5_N) False,
           gpio_write_pin RSMRST_N False, opt_write b EC_S0_LED False, opt_write b ex_EP_SB_TSI_ESP32n_EC_SEL False,
           app_pseq_nextStep FORCE_G3_Part2 10]
      | FORCE_G3_Part2 \<Rightarrow> steps
          [opt_write b EC_USB32_RD_EN False, opt_write b EC_USB32_RD_RST_N False, opt_write b ex_EP_SENSOR_3V3_PWREN False,
           gpio_write_pin EC_1V8_S5_EN False, app_pseq_nextStep FORCE_G3_Part3 20]
      | FORCE_G3_Part3 \<Rightarrow> steps
          [gpio_write_pin EC_S5_PWREN False, app_pseq_setPwrStatus b e SYSTEM_G3_STATE, app_pseq_nextStep ENTER_TO_G3 3000]
      | _ \<Rightarrow> id)"

text \<open>
  The state machine; each stage belongs to one of the five groups above, and the stages that no
  group names do nothing, as the default case.
\<close>

definition app_pseq_StateMachine :: "board \<Rightarrow> env \<Rightarrow> pseq \<Rightarrow> pseq" where
  "app_pseq_StateMachine b e s =
     (let stage = next_stage s in
      steps [stage_g3_up b e stage, stage_s5_g3 b e stage, stage_to_s0 b e stage, stage_from_s0 b e stage,
        stage_force b e stage] s)"

section \<open>Monitor and thread\<close>

definition POWER_SEQ_S5_TO_G3_DELAY :: u32 where
  "POWER_SEQ_S5_TO_G3_DELAY = 10000"

definition app_sb_tsi_monitor :: "board \<Rightarrow> env \<Rightarrow> pseq \<Rightarrow> pseq" where
  "app_sb_tsi_monitor b e s =
     (if has_pin b EC_IOT_3V3_SENSE_EN \<and> has_pin b ex_EP_SB_TSI_ESP32n_EC_SEL \<and> iot_3v3_sense e \<noteq> s_last_pin_level s
      then (gpio_write_pin ex_EP_SB_TSI_ESP32n_EC_SEL (iot_3v3_sense e) s)\<lparr>s_last_pin_level := iot_3v3_sense e\<rparr>
      else s)"

definition monitor_g3 :: "board \<Rightarrow> env \<Rightarrow> pseq \<Rightarrow> pseq" where
  "monitor_g3 b e = if_do (opt b CONFIG_POWER_SOURCE_MANAGEMENT \<and> \<not> opt b STANDBY_WITH_G3_POWER) (steps
     [if_do (hasAcPowerSource e \<or> S5AlwEnFlag e) (app_pseq_nextStep FROM_G3_TO_S5 500),
      \<lambda>s. if s_bootReason s = F_BRAM_FLASH_BIOS_WDT_BOOT_SIGNATURE
          then app_pseq_nextStep FROM_G3_TO_S5 500 (s\<lparr>s_bootReason := F_BRAM_COLD_BOOT_SIGNATURE\<rparr>)
          else if s_bootReason s = F_BRAM_NV_OPTION_UPDATE_SIGNATURE
          then app_pseq_nextStep FROM_G3_TO_S0 5 (s\<lparr>s_bootReason := F_BRAM_COLD_BOOT_SIGNATURE\<rparr>)
          else s])"

definition keeps_s5 :: "board \<Rightarrow> env \<Rightarrow> bool" where
  "keeps_s5 b e \<longleftrightarrow> opt b CONFIG_POWER_SOURCE_MANAGEMENT \<and> \<not> opt b STANDBY_WITH_G3_POWER \<and>
     (hasAcPowerSource e \<or> S5AlwEnFlag e)"

definition monitor_s5 :: "board \<Rightarrow> env \<Rightarrow> pseq \<Rightarrow> pseq" where
  "monitor_s5 b e s =
     (if \<not> SLP_S3_ASSERT e \<and> \<not> SLP_S5_ASSERT e then app_pseq_nextStep FROM_S3_TO_S0 1 s
      else if \<not> keeps_s5 b e then
        (let s1 = set_sleep_ready False s in
         if s_gotoG3WaitCnt s1 > 1 then s1\<lparr>s_gotoG3WaitCnt := s_gotoG3WaitCnt s1 - 1\<rparr>
         else steps [\<lambda>s. s\<lparr>s_gotoG3WaitCnt := 0\<rparr>, app_pseq_nextStep FROM_S5_TO_G3 1, emit Pd_role_G3] s1)
      else s\<lparr>s_gotoG3WaitCnt := POWER_SEQ_S5_TO_G3_DELAY\<rparr>)"

definition app_pseq_stateMonitor :: "board \<Rightarrow> env \<Rightarrow> pseq \<Rightarrow> pseq" where
  "app_pseq_stateMonitor b e s =
     (let s1 = (if current_state s \<noteq> SYSTEM_S4_STATE \<and> current_state s \<noteq> SYSTEM_S5_STATE
                then s\<lparr>s_gotoG3WaitCnt := POWER_SEQ_S5_TO_G3_DELAY\<rparr> else s)
      in case current_state s of
           SYSTEM_G3_STATE \<Rightarrow> monitor_g3 b e s1
         | SYSTEM_S0_STATE \<Rightarrow> (if SLP_S3_ASSERT e then app_pseq_nextStep FROM_S0_TO_S3S5 1 s1 else app_sb_tsi_monitor b e s1)
         | SYSTEM_S3_STATE \<Rightarrow> steps
             [if_do (\<not> SLP_S3_ASSERT e) (app_pseq_nextStep FROM_S3_TO_S0 1),
              if_do (SLP_S5_ASSERT e) (app_pseq_nextStep FROM_S0_TO_S5 1)] s1
         | SYSTEM_S4_STATE \<Rightarrow> monitor_s5 b e s1
         | SYSTEM_S5_STATE \<Rightarrow> monitor_s5 b e s1
         | _ \<Rightarrow> s1)"

text \<open>
  One pass of the thread's loop; \<open>e\<close> is what the state machine reads and \<open>e'\<close> what the monitor
  reads. \<open>btn\<close> is the effect of \<open>smchost_pwrbtn_post_signal_probe\<close> on this state.
\<close>

definition app_pseq_pass :: "board \<Rightarrow> (pseq \<Rightarrow> pseq) \<Rightarrow> env \<Rightarrow> env \<Rightarrow> pseq \<Rightarrow> pseq" where
  "app_pseq_pass b btn e e' s =
     (let s1 = (if g_pwrSeqExpired s
                then app_pseq_StateMachine b e (s\<lparr>g_pwrSeqDelay := 0, g_pwrSeqExpired := False\<rparr>) else s);
          s2 = (if g_pwrSeqDelay s1 \<noteq> 0 then set_sleep_ready False s1
                else steps [emit Post_signal_probe, btn, app_pseq_stateMonitor b e'] s1)
      in emit Btn_monitor s2)"

end
