(* ===== verification/Sleep.thy ===== *)
theory Sleep
  imports Pseq
begin

text \<open>
  The task table and its readiness flags (\<open>src/misc/task_handler.c\<close>), and the idle thread that
  sends the controller to sleep (\<open>src/app/power_management/app_sleep.c\<close>). The flags are bytes that
  \<open>task_status_set\<close> changes with accesses of 32 bits, so the memory that holds them is modelled as
  bytes, and a flag is an address in it. Starting, suspending and waking threads is recorded.
\<close>

section \<open>Memory\<close>

definition load32 :: "u8 list \<Rightarrow> nat \<Rightarrow> u32 res" where
  "load32 m a = (if a + 3 < length m then
     Inr (ucast (m ! a) OR push_bit 8 (ucast (m ! (a + 1))) OR push_bit 16 (ucast (m ! (a + 2))) OR push_bit 24 (ucast (m ! (a + 3))))
     else Inl Out_of_bounds)"

definition store32 :: "u8 list \<Rightarrow> nat \<Rightarrow> u32 \<Rightarrow> u8 list" where
  "store32 m a w = m[a := ucast w, a + 1 := ucast (drop_bit 8 w), a + 2 := ucast (drop_bit 16 w), a + 3 := ucast (drop_bit 24 w)]"

section \<open>Tasks\<close>

definition TASK_STASTUS_SLEEP_READY :: u8 where "TASK_STASTUS_SLEEP_READY = 1"
definition TASK_STASTUS_BUSY_SHORT :: u8 where "TASK_STASTUS_BUSY_SHORT = 2"

record task_info =
  thread_id :: nat
  can_suspend :: bool
  tagname :: string
  sleep_ready :: "nat option"

text \<open>The parts of the firmware that are compiled in, and the table of the tasks in it.\<close>

record task_cfg =
  cfg_kbc :: bool
  cfg_periph :: bool
  cfg_npcx :: bool
  cfg_thermal :: bool
  cfg_als :: bool
  cfg_battery :: bool
  cfg_usbc :: bool
  cfg_psrc :: bool
  cfg_fan :: bool
  cfg_cpu_rate :: bool
  cfg_sleep :: bool
  cfg_udc :: bool

definition task :: "nat \<Rightarrow> string \<Rightarrow> nat option \<Rightarrow> task_info" where
  "task i n r = \<lparr>thread_id = i, can_suspend = False, tagname = n, sleep_ready = r\<rparr>"

text \<open>The address of each flag, in the order of their declarations.\<close>

definition tasks :: "task_cfg \<Rightarrow> task_info list" where
  "tasks c =
     (if cfg_kbc c then [task 1 ''KBC'' None, task 2 ''KB'' None] else []) @
     (if cfg_periph c then [task 3 ''PERIPH'' (Some 0)] else []) @
     [task 4 ''PWR'' (Some 1)] @
     (if cfg_npcx c then [task 5 ''OOB'' None] else []) @
     [task 6 ''SMC'' (Some 9)] @
     (if cfg_thermal c then [task 7 ''THRMLMGMT'' (Some 2)] else []) @
     (if cfg_als c then [task 8 ''OPT4048'' (Some 3)] else []) @
     (if cfg_battery c then [task 9 ''BATTMGMT'' (Some 7)] else []) @
     (if cfg_usbc c then [task 10 ''USBC'' (Some 4)] else []) @
     (if cfg_psrc c then [task 11 ''PWRSRC'' (Some 6), task 12 ''PWRSRC_DELAY'' None] else []) @
     (if cfg_fan c then [task 13 ''FANCTRL'' (Some 8)] else []) @
     (if cfg_cpu_rate c then [task 14 ''CPU_RATE'' None] else []) @
     (if cfg_sleep c then [task 15 ''IDLE_TASK'' None] else []) @
     (if cfg_udc c then [task 16 ''UDCMGMT'' None] else [])"

datatype thread_ev = Name_set nat string | Start nat | Suspend nat | Resume nat | Wakeup nat

definition start_all_tasks :: "bool \<Rightarrow> task_info list \<Rightarrow> thread_ev list" where
  "start_all_tasks named l = concat (map (\<lambda>t. if thread_id t \<noteq> 0
     then (if named then [Name_set (thread_id t) (tagname t)] else []) @ [Start (thread_id t)] else []) l)"

definition suspend_all_tasks :: "task_info list \<Rightarrow> thread_ev list" where
  "suspend_all_tasks l = map (\<lambda>t. Suspend (thread_id t)) (filter can_suspend l)"

definition resume_all_tasks :: "task_info list \<Rightarrow> thread_ev list" where
  "resume_all_tasks l = map (\<lambda>t. Resume (thread_id t)) (filter can_suspend l)"

definition by_tag :: "(nat \<Rightarrow> thread_ev) \<Rightarrow> string \<Rightarrow> task_info list \<Rightarrow> thread_ev list" where
  "by_tag f n l = (case find (\<lambda>t. tagname t = n) l of None \<Rightarrow> [] | Some t \<Rightarrow> [f (thread_id t)])"

definition wake_task :: "string \<Rightarrow> task_info list \<Rightarrow> thread_ev list" where "wake_task = by_tag Wakeup"
definition suspend_tasks :: "string \<Rightarrow> task_info list \<Rightarrow> thread_ev list" where "suspend_tasks = by_tag Suspend"
definition resume_tasks :: "string \<Rightarrow> task_info list \<Rightarrow> thread_ev list" where "resume_tasks = by_tag Resume"

text \<open>A short-busy flag is consumed by the test that finds it, which then fails.\<close>

fun sleep_ready_loop :: "task_info list \<Rightarrow> u8 list \<Rightarrow> (bool \<times> u8 list) res" where
  "sleep_ready_loop [] m = Inr (True, m)"
| "sleep_ready_loop (t # l) m =
     (case sleep_ready t of
        None \<Rightarrow> sleep_ready_loop l m
      | Some a \<Rightarrow>
          (case ld m a of
             Inl e \<Rightarrow> Inl e
           | Inr f \<Rightarrow>
               if f AND TASK_STASTUS_BUSY_SHORT \<noteq> 0 then Inr (False, m[a := f AND NOT TASK_STASTUS_BUSY_SHORT])
               else if f AND TASK_STASTUS_SLEEP_READY = 0 then Inr (False, m)
               else sleep_ready_loop l m))"

definition all_tasks_sleep_ready :: "task_cfg \<Rightarrow> u8 list \<Rightarrow> (bool \<times> u8 list) res" where
  "all_tasks_sleep_ready c = sleep_ready_loop (tasks c)"

definition task_status_set :: "nat option \<Rightarrow> u32 \<Rightarrow> bool \<Rightarrow> u8 list \<Rightarrow> u8 list res" where
  "task_status_set p value on m =
     (case p of
        None \<Rightarrow> Inr m
      | Some a \<Rightarrow> map_sum id (\<lambda>w. store32 m a (if on then w OR value else w AND NOT value)) (load32 m a))"

section \<open>Sleep\<close>

datatype sleep_ev = Heavy_sleep u16 | Wfi | Delay_10ms | Psl_out | Idle

record slp =
  s_sleep_wait_count :: u32
  s_psl_wait_count :: u32
  s_rtcWake :: bool
  s_rtcCycle :: u8
  OSIdleCtr :: u32
  slp_evs :: "sleep_ev list"

text \<open>
  What a pass of the idle thread finds: the state of the power sequencing, whether the adapter is
  present, whether the timer ended the sleep, the option of the AC/DC switch, and the pin that
  permits the power-switch logic, if the board has it.
\<close>

record slp_env =
  pwr_status :: system_power_state
  system_state :: system_power_state
  has_ac :: bool
  timer_woke :: bool
  acdc_enabled :: bool
  psl_pin :: "u8 option"

record slp_cfg =
  cfg_psl :: bool
  cfg_shell :: bool

definition PWRSAVER_WAIT_CYCLE :: u32 where "PWRSAVER_WAIT_CYCLE = 800"
definition PSL_WAIT_CYCLE :: u32 where "PSL_WAIT_CYCLE = 600"

definition slp_emit :: "sleep_ev \<Rightarrow> slp \<Rightarrow> slp" where
  "slp_emit e s = s\<lparr>slp_evs := slp_evs s @ [e]\<rparr>"

definition app_sleep_PwrSaver :: "slp_env \<Rightarrow> slp \<Rightarrow> slp" where
  "app_sleep_PwrSaver E s =
     (let s1 = slp_emit (Heavy_sleep (if has_ac E then 3 else 61)) s in
      if timer_woke E then
        (let s2 = s1\<lparr>s_rtcWake := True, s_rtcCycle := s_rtcCycle s1 + 1\<rparr> in
         if unat (s_rtcCycle s2) = 300 then s2\<lparr>s_rtcWake := False, s_rtcCycle := 0\<rparr> else s2)
      else s1)"

definition task_wfi :: "task_cfg \<Rightarrow> slp \<times> u8 list \<Rightarrow> (slp \<times> u8 list) res" where
  "task_wfi c = (\<lambda>(s, m).
     (case all_tasks_sleep_ready c m of
        Inl e \<Rightarrow> Inl e
      | Inr (ready, m') \<Rightarrow>
          Inr (if ready
               then (let s1 = s\<lparr>s_sleep_wait_count := s_sleep_wait_count s + 1\<rparr> in
                     if s_sleep_wait_count s1 > 600 then (slp_emit Wfi s1)\<lparr>s_sleep_wait_count := 0\<rparr> else s1)
               else s\<lparr>s_sleep_wait_count := 0\<rparr>, m')))"

text \<open>The tasks are asked again when the first test is not reached or fails.\<close>

definition task_wait_for_sleep :: "task_cfg \<Rightarrow> slp_env \<Rightarrow> slp \<times> u8 list \<Rightarrow> (slp \<times> u8 list) res" where
  "task_wait_for_sleep c E = (\<lambda>(s, m).
     (case (if s_rtcWake s then all_tasks_sleep_ready c m else Inr (False, m)) of
        Inl e \<Rightarrow> Inl e
      | Inr (True, m1) \<Rightarrow> Inr (app_sleep_PwrSaver E (s\<lparr>s_rtcWake := False\<rparr>), m1)
      | Inr (False, m1) \<Rightarrow>
          (case all_tasks_sleep_ready c m1 of
             Inl e \<Rightarrow> Inl e
           | Inr (True, m2) \<Rightarrow>
               (let s1 = s\<lparr>s_sleep_wait_count := s_sleep_wait_count s + 1\<rparr>;
                    s2 = (if s_sleep_wait_count s1 > PWRSAVER_WAIT_CYCLE then (app_sleep_PwrSaver E s1)\<lparr>s_sleep_wait_count := 0\<rparr> else s1)
                in Inr (slp_emit Delay_10ms s2, m2))
           | Inr (False, m2) \<Rightarrow> Inr (s\<lparr>s_sleep_wait_count := 0\<rparr>, m2))))"

text \<open>The counter of the power-switch logic is not reset when a task is not ready.\<close>

definition psl_wait :: "task_cfg \<Rightarrow> slp_env \<Rightarrow> slp \<times> u8 list \<Rightarrow> (slp \<times> u8 list) res" where
  "psl_wait c E = (\<lambda>(s, m).
     (case all_tasks_sleep_ready c m of
        Inl e \<Rightarrow> Inl e
      | Inr (ready, m') \<Rightarrow>
          Inr (if ready \<and> \<not> acdc_enabled E \<and> psl_pin E \<noteq> Some 0
               then (let s1 = s\<lparr>s_psl_wait_count := s_psl_wait_count s + 1\<rparr>;
                         s2 = (if s_psl_wait_count s1 > PSL_WAIT_CYCLE then (slp_emit Psl_out s1)\<lparr>s_psl_wait_count := 0\<rparr> else s1)
                     in slp_emit Delay_10ms s2)
               else s, m')))"

definition idle_pass :: "slp_cfg \<Rightarrow> task_cfg \<Rightarrow> slp_env \<Rightarrow> slp \<times> u8 list \<Rightarrow> (slp \<times> u8 list) res" where
  "idle_pass g c E = (\<lambda>(s, m).
     (if pwr_status E \<notin> {SYSTEM_S3_STATE, SYSTEM_S5_STATE, SYSTEM_G3_STATE} then Inr (slp_emit Idle (s\<lparr>OSIdleCtr := OSIdleCtr s + 1\<rparr>), m)
      else if system_state E = SYSTEM_G3_STATE then (if cfg_psl g then psl_wait c E (s, m) else Inr (s, m))
      else if cfg_shell g then Inr (s, m)
      else task_wait_for_sleep c E (s, m)))"

text \<open>The report of the idle counter.\<close>

definition cpu_usage_round :: "slp \<Rightarrow> u32 \<times> slp" where
  "cpu_usage_round s = (OSIdleCtr s, s\<lparr>OSIdleCtr := 0\<rparr>)"

text \<open>Passes of the idle thread, each with its environment.\<close>

fun idle_passes :: "slp_cfg \<Rightarrow> task_cfg \<Rightarrow> slp_env list \<Rightarrow> slp \<times> u8 list \<Rightarrow> (slp \<times> u8 list) res" where
  "idle_passes g c [] x = Inr x"
| "idle_passes g c (E # es) x = (case idle_pass g c E x of Inl e \<Rightarrow> Inl e | Inr y \<Rightarrow> idle_passes g c es y)"

end
