(* ===== verification/Sleep_Props.thy ===== *)
theory Sleep_Props
  imports Sleep
begin

text \<open>
  The flags of the tasks are changed by wider accesses without disturbing their neighbours; when the
  controller sleeps, and that sleep after a timer wake-up never ends by itself.
\<close>

section \<open>Flags\<close>

definition parts :: "u8 list \<Rightarrow> nat \<Rightarrow> u32" where
  "parts m a = ucast (m ! a) OR push_bit 8 (ucast (m ! (a + 1))) OR push_bit 16 (ucast (m ! (a + 2))) OR push_bit 24 (ucast (m ! (a + 3)))"

lemma bit_ucast8: "bit (ucast (x :: u8) :: u32) n \<longleftrightarrow> n < 8 \<and> bit x n"
  using bit_imp_le_length [of x n] by (auto simp: bit_simps)

lemma parts_bytes:
  "ucast (parts m a) = m ! a" "ucast (drop_bit 8 (parts m a)) = m ! (a + 1)"
  "ucast (drop_bit 16 (parts m a)) = m ! (a + 2)" "ucast (drop_bit 24 (parts m a)) = m ! (a + 3)"
  unfolding parts_def by (rule bit_word_eqI; auto simp: bit_simps bit_ucast8 dest: bit_imp_le_length)+

lemma byte_bits:
  fixes v :: u32
  assumes "v < 256" "8 \<le> n"
  shows "\<not> bit v n"
proof -
  have "unat (take_bit 8 v) = unat v" using assms(1) by (simp add: unsigned_take_bit_eq take_bit_nat_eq_self word_less_nat_alt)
  then have "take_bit 8 v = v" by (rule unsigned_word_eqI)
  then have "bit v n = bit (take_bit 8 v) n" by simp
  then show ?thesis using assms(2) by (simp add: bit_take_bit_iff)
qed

lemma store_bytes:
  assumes "a + 3 < length m" "ucast (drop_bit 8 w) = m ! (a + 1)" "ucast (drop_bit 16 w) = m ! (a + 2)" "ucast (drop_bit 24 w) = m ! (a + 3)"
  shows "store32 m a w = m[a := ucast w]"
proof -
  have upd: "l[i := x] = l" if "l ! i = x" for l :: "u8 list" and i x using that by (metis list_update_id)
  show ?thesis unfolding store32_def assms(2-) using assms(1) by (simp add: upd)
qed

lemma store_flag:
  assumes "a + 3 < length m" "v < 256"
  shows "store32 m a (if on then parts m a OR v else parts m a AND NOT v) =
    m[a := if on then m ! a OR ucast v else m ! a AND NOT (ucast v)]"
proof -
  let ?w = "if on then parts m a OR v else parts m a AND NOT v"
  note bits = bit_simps byte_bits [OF assms(2)]
  have hi: "(ucast (drop_bit k ?w) :: u8) = ucast (drop_bit k (parts m a))" if "8 \<le> k" for k
    by (rule bit_word_eqI) (use that in \<open>auto simp: bits dest: bit_imp_le_length\<close>)
  have lo: "ucast ?w = (if on then m ! a OR ucast v else m ! a AND NOT (ucast v))"
    unfolding parts_bytes(1) [of m a, symmetric] by (rule bit_word_eqI) (auto simp: bit_simps)
  show ?thesis using store_bytes [OF assms(1), of ?w] hi parts_bytes [of m a] lo by simp
qed

lemma load32_parts: "load32 m a = (if a + 3 < length m then Inr (parts m a) else Inl Out_of_bounds)"
  by (simp only: load32_def parts_def)

text \<open>
  C29. Setting or clearing a task's flag changes that byte and no other, although the access is of
  four bytes; it also needs the three bytes after the flag to be there.
\<close>

theorem task_status_set_one_flag:
  assumes "v < 256"
  shows "task_status_set (Some a) v on m =
    (if a + 3 < length m then Inr (m[a := if on then m ! a OR ucast v else m ! a AND NOT (ucast v)]) else Inl Out_of_bounds)"
  using store_flag [OF _ assms, of a m on] by (simp add: task_status_set_def load32_parts)

lemma task_status_set_one_flag_witness:
  "task_status_set (Some 2) 1 True [1, 0, 0, 7, 255, 4] = Inr [1, 0, 1, 7, 255, 4]"
  using task_status_set_one_flag [of 1 2 True "[1, 0, 0, 7, 255, 4]"] by simp

section \<open>When the controller sleeps\<close>

definition sleeps :: "slp \<Rightarrow> nat" where
  "sleeps s = length (filter (\<lambda>e. case e of Heavy_sleep d \<Rightarrow> True | _ \<Rightarrow> False) (slp_evs s))"

text \<open>The system is in S3 or S5, and every task has set its flag and no short-busy flag.\<close>

definition suspended :: "slp_env \<Rightarrow> bool" where
  "suspended E \<longleftrightarrow> pwr_status E \<in> {SYSTEM_S3_STATE, SYSTEM_S5_STATE} \<and> system_state E = pwr_status E"

definition rested :: "task_cfg \<Rightarrow> u8 list \<Rightarrow> bool" where
  "rested c m \<longleftrightarrow> all_tasks_sleep_ready c m = Inr (True, m)"

lemma idle_pass_suspended:
  "suspended E \<Longrightarrow> \<not> cfg_shell g \<Longrightarrow> idle_pass g c E x = task_wait_for_sleep c E x"
  by (cases x) (auto simp: idle_pass_def suspended_def)

lemma idle_passes_append:
  "idle_passes g c (es @ fs) x = (case idle_passes g c es x of Inl e \<Rightarrow> Inl e | Inr y \<Rightarrow> idle_passes g c fs y)"
  by (induction es arbitrary: x) (auto split: sum.split)

lemma pwrSaver_facts:
  "sleeps (app_sleep_PwrSaver E s) = sleeps s + 1" "s_sleep_wait_count (app_sleep_PwrSaver E s) = s_sleep_wait_count s"
  "s_rtcWake (app_sleep_PwrSaver E s) = (timer_woke E \<or> s_rtcWake s)"
proof -
  have "unat (s_rtcCycle s + 1) \<noteq> 300" using unsigned_less [of "s_rtcCycle s + 1", where ?'a = nat] by simp
  then show "sleeps (app_sleep_PwrSaver E s) = sleeps s + 1" "s_sleep_wait_count (app_sleep_PwrSaver E s) = s_sleep_wait_count s"
    "s_rtcWake (app_sleep_PwrSaver E s) = (timer_woke E \<or> s_rtcWake s)"
    by (simp_all add: app_sleep_PwrSaver_def slp_emit_def sleeps_def Let_def)
qed

lemma sleeps_upd: "sleeps (s\<lparr>s_sleep_wait_count := n\<rparr>) = sleeps s" "sleeps (s\<lparr>s_rtcWake := b\<rparr>) = sleeps s"
  "sleeps (slp_emit Delay_10ms s) = sleeps s" "s_sleep_wait_count (slp_emit e s) = s_sleep_wait_count s" "s_rtcWake (slp_emit e s) = s_rtcWake s"
  by (simp_all add: sleeps_def slp_emit_def)

lemma wait_step:
  assumes "rested c m" "\<not> s_rtcWake s" "\<not> timer_woke E" "s_sleep_wait_count s = of_nat (n mod 801)"
  shows "\<exists>s'. task_wait_for_sleep c E (s, m) = Inr (s', m) \<and> \<not> s_rtcWake s' \<and> s_sleep_wait_count s' = of_nat (Suc n mod 801) \<and>
     sleeps s' = sleeps s + (if Suc n mod 801 = 0 then 1 else 0)"
proof -
  have n: "n mod 801 < 801" by simp
  have "of_nat (n mod 801) + 1 = (of_nat (Suc (n mod 801)) :: u32)" by simp
  moreover have "unat (of_nat (Suc (n mod 801)) :: u32) = Suc (n mod 801)"
    using n by (simp add: unsigned_of_nat take_bit_nat_eq_self del: of_nat_Suc)
  ultimately have gt: "of_nat (n mod 801) + 1 > (800 :: u32) \<longleftrightarrow> n mod 801 = 800"
    using n by (simp only: word_less_nat_alt) (simp, linarith)
  have m: "Suc n mod 801 = (if n mod 801 = 800 then 0 else Suc (n mod 801))" by (simp add: mod_Suc)
  show ?thesis
    using assms gt m by (auto simp: task_wait_for_sleep_def rested_def PWRSAVER_WAIT_CYCLE_def Let_def sleeps_upd pwrSaver_facts)
qed

text \<open>
  In S3 or S5, while every task stays ready and no sleep is ended by the timer, the controller
  goes to sleep exactly at every 801st pass of its idle thread.
\<close>

theorem sleep_every_801_passes:
  assumes "\<forall>E \<in> set es. suspended E \<and> \<not> timer_woke E" "rested c m" "\<not> cfg_shell g" "\<not> s_rtcWake s" "s_sleep_wait_count s = 0"
  shows "\<exists>s'. idle_passes g c es (s, m) = Inr (s', m) \<and> sleeps s' = sleeps s + length es div 801"
proof -
  have "\<exists>s'. idle_passes g c es (s, m) = Inr (s', m) \<and> \<not> s_rtcWake s' \<and> s_sleep_wait_count s' = of_nat (length es mod 801) \<and>
      sleeps s' = sleeps s + length es div 801"
    using assms(1)
  proof (induction es rule: rev_induct)
    case Nil
    then show ?case using assms(4,5) by simp
  next
    case (snoc E es)
    then obtain s' where s': "idle_passes g c es (s, m) = Inr (s', m)" "\<not> s_rtcWake s'"
      "s_sleep_wait_count s' = of_nat (length es mod 801)" "sleeps s' = sleeps s + length es div 801" by auto
    have E: "suspended E" "\<not> timer_woke E" using snoc.prems by auto
    obtain s2 where "task_wait_for_sleep c E (s', m) = Inr (s2, m)" "\<not> s_rtcWake s2"
      "s_sleep_wait_count s2 = of_nat (Suc (length es) mod 801)" "sleeps s2 = sleeps s' + (if Suc (length es) mod 801 = 0 then 1 else 0)"
      using wait_step [OF assms(2) s'(2) E(2) s'(3)] by blast
    then show ?case using s'(1,4) E(1) assms(3) by (simp add: idle_passes_append idle_pass_suspended div_Suc)
  qed
  then show ?thesis by blast
qed

text \<open>
  A sleep that the timer ended is followed at once by the next one, and the limit of 300 such
  cycles is never reached because their counter has 8 bits: as long as the timer ends every sleep and
  the tasks are ready, every pass is a sleep, however many there are.
\<close>

theorem rtc_cycle_never_ends:
  assumes "\<forall>E \<in> set es. suspended E \<and> timer_woke E" "rested c m" "\<not> cfg_shell g" "s_rtcWake s"
  shows "\<exists>s'. idle_passes g c es (s, m) = Inr (s', m) \<and> sleeps s' = sleeps s + length es \<and> s_rtcWake s'"
  using assms
proof (induction es arbitrary: s)
  case (Cons E es)
  let ?s = "app_sleep_PwrSaver E (s\<lparr>s_rtcWake := False\<rparr>)"
  have "idle_pass g c E (s, m) = Inr (?s, m)"
    using Cons.prems by (simp add: idle_pass_suspended task_wait_for_sleep_def rested_def)
  moreover have "s_rtcWake ?s" "sleeps ?s = sleeps s + 1" using Cons.prems by (simp_all add: pwrSaver_facts sleeps_upd)
  ultimately show ?case using Cons.IH [of ?s] Cons.prems by auto
qed simp

definition demo_task_cfg :: task_cfg where
  "demo_task_cfg = \<lparr>cfg_kbc = True, cfg_periph = True, cfg_npcx = True, cfg_thermal = True, cfg_als = False, cfg_battery = True,
     cfg_usbc = True, cfg_psrc = True, cfg_fan = True, cfg_cpu_rate = False, cfg_sleep = True, cfg_udc = True\<rparr>"

definition demo_sleep_env :: "bool \<Rightarrow> slp_env" where
  "demo_sleep_env timer = \<lparr>pwr_status = SYSTEM_S5_STATE, system_state = SYSTEM_S5_STATE, has_ac = True, timer_woke = timer,
     acdc_enabled = False, psl_pin = None\<rparr>"

definition demo_slp :: "bool \<Rightarrow> slp" where
  "demo_slp rtc = \<lparr>s_sleep_wait_count = 0, s_psl_wait_count = 0, s_rtcWake = rtc, s_rtcCycle = 0, OSIdleCtr = 0, slp_evs = []\<rparr>"

lemma demo_rested: "rested demo_task_cfg (replicate 13 1)"
  unfolding rested_def by code_simp

end
