(* ===== verification/Periph.thy ===== *)
theory Periph
  imports Prelude
begin

text \<open>
  Debouncing of the input pins: \<open>src/app/peripheral_management/periphmgmt.c\<close> and the interrupt
  handlers of \<open>board_periph.c\<close> that start it. A handler is named by a number; its calls are recorded
  in order. Reading a pin, natively or through the expander, is a function of the pin whose negative
  results are errors.
\<close>

record pin_input =
  port_pin :: u32
  debouncing :: bool
  deb_cnt :: u8
  handler :: "nat option"
  prev_level :: bool

datatype pin_call = Call nat u8

record pin_cfg =
  is_ioexp :: "u32 \<Rightarrow> bool"
  cfg_ioexp :: bool

text \<open>The level of a pin; without the expander its pins cannot be read.\<close>

definition pin_level :: "pin_cfg \<Rightarrow> (u32 \<Rightarrow> int) \<Rightarrow> u32 \<Rightarrow> int option" where
  "pin_level c rd p = (if is_ioexp c p \<and> \<not> cfg_ioexp c then None else Some (rd p))"

datatype reg_result = Reg_ok | Reg_unknown | Reg_error int

definition periph_register_debounce_handler ::
    "pin_cfg \<Rightarrow> (u32 \<Rightarrow> int) \<Rightarrow> u32 \<Rightarrow> nat \<Rightarrow> pin_input list \<Rightarrow> reg_result \<times> pin_input list" where
  "periph_register_debounce_handler c rd p h l =
     (case find (\<lambda>i. port_pin (l ! i) = p) [0 ..< length l] of
        None \<Rightarrow> (Reg_unknown, l)
      | Some i \<Rightarrow>
          (let l1 = l[i := (l ! i)\<lparr>handler := Some h\<rparr>] in
           case pin_level c rd p of
             None \<Rightarrow> (Reg_ok, l1)
           | Some level \<Rightarrow>
               if level < 0 then (Reg_error level, l1) else (Reg_ok, l1[i := (l1 ! i)\<lparr>prev_level := level \<noteq> 0\<rparr>])))"

text \<open>The interrupt of a pin starts its debouncing, or starts it again.\<close>

definition start_debounce :: "nat \<Rightarrow> u8 \<Rightarrow> pin_input list \<Rightarrow> pin_input list" where
  "start_debounce i n l = l[i := (l ! i)\<lparr>debouncing := True, deb_cnt := n\<rparr>]"

definition notify_debounce_handlers :: "pin_cfg \<Rightarrow> (u32 \<Rightarrow> int) \<Rightarrow> pin_input \<Rightarrow> pin_input \<times> pin_call list" where
  "notify_debounce_handlers c rd x =
     (case pin_level c rd (port_pin x) of
        None \<Rightarrow> (x, [])
      | Some level \<Rightarrow>
          if level < 0 then (x, [])
          else (case handler x of
                  None \<Rightarrow> (x, [])
                | Some h \<Rightarrow> if of_bool (prev_level x) \<noteq> level then (x\<lparr>prev_level := level \<noteq> 0\<rparr>, [Call h (word_of_int level)]) else (x, [])))"

definition debounce_pin :: "pin_cfg \<Rightarrow> (u32 \<Rightarrow> int) \<Rightarrow> pin_input \<Rightarrow> pin_input \<times> pin_call list" where
  "debounce_pin c rd x =
     (if debouncing x then
        (let x1 = x\<lparr>deb_cnt := deb_cnt x - 1\<rparr> in
         if deb_cnt x1 = 0 then notify_debounce_handlers c rd (x1\<lparr>debouncing := False, deb_cnt := 0\<rparr>) else (x1, []))
      else (x, []))"

fun debounce_pins :: "pin_cfg \<Rightarrow> (u32 \<Rightarrow> int) \<Rightarrow> pin_input list \<Rightarrow> pin_input list \<times> pin_call list" where
  "debounce_pins c rd [] = ([], [])"
| "debounce_pins c rd (x # l) =
     (let (x', e) = debounce_pin c rd x; (l', es) = debounce_pins c rd l in (x' # l', e @ es))"

definition is_debouncing :: "pin_input list \<Rightarrow> bool" where
  "is_debouncing l \<longleftrightarrow> list_ex debouncing l"

text \<open>
  The loop of the thread after an interrupt, a round each millisecond: the interrupts \<open>irq k\<close> that
  come in the sleep before round \<open>k\<close>, each with the pin and the count it loads, then the round, in
  which the levels are \<open>rd k\<close>. The result has the number of the last round. The loop is given fuel,
  and \<open>None\<close> means that the fuel did not suffice.
\<close>

definition interrupts :: "(nat \<times> u8) list \<Rightarrow> pin_input list \<Rightarrow> pin_input list" where
  "interrupts = fold (\<lambda>(i, n). start_debounce i n)"

fun debounce_loop ::
    "pin_cfg \<Rightarrow> (nat \<Rightarrow> u32 \<Rightarrow> int) \<Rightarrow> (nat \<Rightarrow> (nat \<times> u8) list) \<Rightarrow> nat \<Rightarrow> nat \<Rightarrow> pin_input list \<Rightarrow>
      (nat \<times> pin_input list \<times> pin_call list) option" where
  "debounce_loop c rd irq 0 k l = None"
| "debounce_loop c rd irq (Suc n) k l =
     (let (l', e) = debounce_pins c (rd k) (interrupts (irq k) l) in
      if is_debouncing l' then map_option (\<lambda>(m, l2, e2). (m, l2, e @ e2)) (debounce_loop c rd irq n (k + 1) l')
      else Some (k, l', e))"

definition periph_round ::
    "pin_cfg \<Rightarrow> (nat \<Rightarrow> u32 \<Rightarrow> int) \<Rightarrow> (nat \<Rightarrow> (nat \<times> u8) list) \<Rightarrow> nat \<Rightarrow> pin_input list \<Rightarrow>
      (nat \<times> pin_input list \<times> pin_call list) option" where
  "periph_round c rd irq n = debounce_loop c rd irq n 1"

end
