(* ===== verification/Periph_Props.thy ===== *)
theory Periph_Props
  imports Periph
begin

text \<open>
  Debouncing against a specification over time: when a pin expires, which level it reported last and
  when it calls its handler, with interrupts that start the debouncing of a pin again at any time.
\<close>

section \<open>Specification\<close>

text \<open>A counter of 0 wraps around.\<close>

definition rounds :: "u8 \<Rightarrow> nat" where
  "rounds n = (if n = 0 then 256 else unat n)"

text \<open>
  The count the last interrupt of pin \<open>i\<close> before round \<open>k\<close> loads, if there is one. Debouncing that goes
  on at the start counts like an interrupt before round 1.
\<close>

definition armed_at :: "(nat \<Rightarrow> (nat \<times> u8) list) \<Rightarrow> nat \<Rightarrow> nat \<Rightarrow> u8 option" where
  "armed_at irq i k = (case filter (\<lambda>(j, n). j = i) (irq k) of [] \<Rightarrow> None | xs \<Rightarrow> Some (snd (last xs)))"

definition arms :: "(nat \<Rightarrow> (nat \<times> u8) list) \<Rightarrow> nat \<Rightarrow> pin_input \<Rightarrow> nat \<Rightarrow> u8 option" where
  "arms irq i x k =
     (if k = 1 \<and> armed_at irq i k = None \<and> debouncing x then Some (deb_cnt x) else armed_at irq i k)"

text \<open>A pin expires in round \<open>k\<close> if that is the last round of the latest count loaded.\<close>

definition expires :: "(nat \<Rightarrow> u8 option) \<Rightarrow> nat \<Rightarrow> bool" where
  "expires arm k \<longleftrightarrow> (\<exists>a n. 1 \<le> a \<and> a \<le> k \<and> arm a = Some n \<and> (\<forall>b. a < b \<and> b \<le> k \<longrightarrow> arm b = None) \<and> k + 1 = a + rounds n)"

text \<open>The level it reported last before round \<open>k\<close>: that of the last expiry at which it could be read.\<close>

definition level_at :: "pin_cfg \<Rightarrow> (nat \<Rightarrow> u32 \<Rightarrow> int) \<Rightarrow> pin_input \<Rightarrow> nat \<Rightarrow> int" where
  "level_at c rd x k = (if is_ioexp c (port_pin x) \<and> \<not> cfg_ioexp c then -1 else rd k (port_pin x))"

definition last_reported :: "pin_cfg \<Rightarrow> (nat \<Rightarrow> u32 \<Rightarrow> int) \<Rightarrow> pin_input \<Rightarrow> (nat \<Rightarrow> u8 option) \<Rightarrow> nat \<Rightarrow> bool" where
  "last_reported c rd x arm k =
     last (prev_level x # map (\<lambda>j. level_at c rd x j \<noteq> 0) (filter (\<lambda>j. expires arm j \<and> 0 \<le> level_at c rd x j) [1 ..< k]))"

text \<open>The calls of a pin in round \<open>k\<close>, and of all pins.\<close>

definition spec_call :: "pin_cfg \<Rightarrow> (nat \<Rightarrow> u32 \<Rightarrow> int) \<Rightarrow> pin_input \<Rightarrow> (nat \<Rightarrow> u8 option) \<Rightarrow> nat \<Rightarrow> pin_call list" where
  "spec_call c rd x arm k =
     (case handler x of
        None \<Rightarrow> []
      | Some h \<Rightarrow>
          if expires arm k \<and> 0 \<le> level_at c rd x k \<and> level_at c rd x k \<noteq> of_bool (last_reported c rd x arm k)
          then [Call h (word_of_int (level_at c rd x k))] else [])"

definition spec_round :: "pin_cfg \<Rightarrow> (nat \<Rightarrow> u32 \<Rightarrow> int) \<Rightarrow> (nat \<Rightarrow> (nat \<times> u8) list) \<Rightarrow> pin_input list \<Rightarrow> nat \<Rightarrow> pin_call list" where
  "spec_round c rd irq l k = concat (map (\<lambda>i. spec_call c rd (l ! i) (arms irq i (l ! i)) k) [0 ..< length l])"

section \<open>One pin\<close>

definition loaded :: "u8 option \<Rightarrow> pin_input \<Rightarrow> pin_input" where
  "loaded a x = (case a of None \<Rightarrow> x | Some n \<Rightarrow> x\<lparr>debouncing := True, deb_cnt := n\<rparr>)"

lemma loaded_simps [simp]:
  "loaded None x = x" "loaded (Some n) x = x\<lparr>debouncing := True, deb_cnt := n\<rparr>"
  by (simp_all add: loaded_def)

lemma rounds_pos: "0 < rounds n" "rounds n \<le> 256"
  using unsigned_less [of n, where ?'a = nat] unat_eq_zero [of n] by (auto simp: rounds_def)

lemma rounds_dec:
  "n - 1 = 0 \<longleftrightarrow> rounds n = 1"
  "rounds n \<noteq> 1 \<Longrightarrow> rounds (n - 1) = rounds n - 1"
proof -
  show one: "n - 1 = 0 \<longleftrightarrow> rounds n = 1"
  proof -
    have "unat w = 1 \<longleftrightarrow> w = 1" for w :: u8 by (metis unsigned_1 unsigned_word_eqI)
    then show ?thesis by (auto simp: rounds_def)
  qed
  show "rounds (n - 1) = rounds n - 1" if "rounds n \<noteq> 1"
    using that one by (cases "n = 0") (auto simp: rounds_def unat_minus_one unsigned_minus_1_eq_mask mask_eq_exp_minus_1)
qed

text \<open>The pin after \<open>k\<close> rounds, and its calls in round \<open>k\<close>.\<close>

primrec pin_after :: "pin_cfg \<Rightarrow> (nat \<Rightarrow> u32 \<Rightarrow> int) \<Rightarrow> (nat \<Rightarrow> u8 option) \<Rightarrow> pin_input \<Rightarrow> nat \<Rightarrow> pin_input" where
  "pin_after c rd arm x 0 = x"
| "pin_after c rd arm x (Suc k) = fst (debounce_pin c (rd (Suc k)) (loaded (arm (Suc k)) (pin_after c rd arm x k)))"

definition pin_calls :: "pin_cfg \<Rightarrow> (nat \<Rightarrow> u32 \<Rightarrow> int) \<Rightarrow> (nat \<Rightarrow> u8 option) \<Rightarrow> pin_input \<Rightarrow> nat \<Rightarrow> pin_call list" where
  "pin_calls c rd arm x k = snd (debounce_pin c (rd k) (loaded (arm k) (pin_after c rd arm x (k - 1))))"

text \<open>The count loaded before round \<open>a\<close> is still running after round \<open>k\<close>.\<close>

definition running :: "(nat \<Rightarrow> u8 option) \<Rightarrow> nat \<Rightarrow> u8 \<Rightarrow> nat \<Rightarrow> bool" where
  "running arm a n k \<longleftrightarrow> 1 \<le> a \<and> a \<le> k \<and> arm a = Some n \<and> (\<forall>b. a < b \<and> b \<le> k \<longrightarrow> arm b = None) \<and> k + 1 < a + rounds n"

lemma running_armed:
  assumes "arm (Suc k) = Some n"
  shows "running arm a m (Suc k) \<longleftrightarrow> a = Suc k \<and> m = n \<and> rounds n \<noteq> 1" "expires arm (Suc k) \<longleftrightarrow> rounds n = 1"
proof -
  have last: "a = Suc k" if "a \<le> Suc k" "\<forall>b. a < b \<and> b \<le> Suc k \<longrightarrow> arm b = None" for a
    using that(1) that(2) [rule_format, of "Suc k"] assms by (cases "a = Suc k") auto
  show "running arm a m (Suc k) \<longleftrightarrow> a = Suc k \<and> m = n \<and> rounds n \<noteq> 1"
    using last [of a] assms rounds_pos(1) [of n] by (auto simp: running_def)
  show "expires arm (Suc k) \<longleftrightarrow> rounds n = 1"
  proof
    assume "expires arm (Suc k)"
    then obtain a m where a: "a \<le> Suc k" "\<forall>b. a < b \<and> b \<le> Suc k \<longrightarrow> arm b = None" "arm a = Some m" "Suc k + 1 = a + rounds m"
      unfolding expires_def by blast
    with last [OF a(1,2)] assms show "rounds n = 1" by simp
  qed (use assms in \<open>auto simp: expires_def intro!: exI [of _ "Suc k"]\<close>)
qed

lemma running_idle:
  assumes "arm (Suc k) = None"
  shows "running arm a m (Suc k) \<longleftrightarrow> running arm a m k \<and> k + 2 < a + rounds m"
    "expires arm (Suc k) \<longleftrightarrow> (\<exists>a m. running arm a m k \<and> k + 2 = a + rounds m)"
proof -
  have le: "a \<le> Suc k \<and> arm a = Some m \<longleftrightarrow> a \<le> k \<and> arm a = Some m" for a m
    using assms by (auto simp: le_Suc_eq)
  have none: "(\<forall>b. a < b \<and> b \<le> Suc k \<longrightarrow> arm b = None) \<longleftrightarrow> (\<forall>b. a < b \<and> b \<le> k \<longrightarrow> arm b = None)" for a
    using assms by (auto simp: le_Suc_eq)
  show "running arm a m (Suc k) \<longleftrightarrow> running arm a m k \<and> k + 2 < a + rounds m"
    unfolding running_def none using le [of a m] by auto
  have *: "1 \<le> a \<and> a \<le> Suc k \<and> arm a = Some m \<and> (\<forall>b. a < b \<and> b \<le> k \<longrightarrow> arm b = None) \<and> Suc k + 1 = a + rounds m \<longleftrightarrow>
     running arm a m k \<and> k + 2 = a + rounds m" for a m
    unfolding running_def using le [of a m] by auto
  show "expires arm (Suc k) \<longleftrightarrow> (\<exists>a m. running arm a m k \<and> k + 2 = a + rounds m)"
    unfolding expires_def none * ..
qed

lemma running_unique: "running arm a m k \<Longrightarrow> running arm b n k \<Longrightarrow> a = b \<and> m = n"
  unfolding running_def by (metis linorder_neqE_nat option.distinct(1) option.inject)

text \<open>One round of a pin.\<close>

lemma notify_frame [simp]:
  "debouncing (fst (notify_debounce_handlers c rd x)) = debouncing x"
  "deb_cnt (fst (notify_debounce_handlers c rd x)) = deb_cnt x"
  "handler (fst (notify_debounce_handlers c rd x)) = handler x"
  "port_pin (fst (notify_debounce_handlers c rd x)) = port_pin x"
  by (auto simp: notify_debounce_handlers_def split: option.split)

lemma pin_after_frame [simp]:
  "handler (pin_after c rd arm x k) = handler x" "port_pin (pin_after c rd arm x k) = port_pin x"
  by (induction k) (auto simp: debounce_pin_def Let_def loaded_def split: option.split)

lemma debounce_pin_facts:
  "debouncing (fst (debounce_pin c rd x)) \<longleftrightarrow> debouncing x \<and> rounds (deb_cnt x) \<noteq> 1"
  "debouncing x \<Longrightarrow> rounds (deb_cnt x) \<noteq> 1 \<Longrightarrow> rounds (deb_cnt (fst (debounce_pin c rd x))) = rounds (deb_cnt x) - 1"
  "snd (debounce_pin c rd x) = (if debouncing x \<and> rounds (deb_cnt x) = 1
     then snd (notify_debounce_handlers c rd (x\<lparr>debouncing := False, deb_cnt := 0\<rparr>)) else [])"
  "prev_level (fst (debounce_pin c rd x)) = (if debouncing x \<and> rounds (deb_cnt x) = 1
     then prev_level (fst (notify_debounce_handlers c rd (x\<lparr>debouncing := False, deb_cnt := 0\<rparr>))) else prev_level x)"
  using rounds_dec [of "deb_cnt x"] by (auto simp: debounce_pin_def Let_def)

text \<open>The handler is called with a readable level that differs from the remembered one, which it replaces.\<close>

lemma notify_calls:
  assumes "handler x = Some h"
  shows "snd (notify_debounce_handlers c (rd k) x) =
      (if 0 \<le> level_at c rd x k \<and> level_at c rd x k \<noteq> of_bool (prev_level x) then [Call h (word_of_int (level_at c rd x k))] else [])"
    and "prev_level (fst (notify_debounce_handlers c (rd k) x)) =
      (if 0 \<le> level_at c rd x k then level_at c rd x k \<noteq> 0 else prev_level x)"
  using assms by (auto simp: notify_debounce_handlers_def pin_level_def level_at_def)

lemma level_at_same: "port_pin y = port_pin x \<Longrightarrow> level_at c rd y k = level_at c rd x k"
  by (simp add: level_at_def)

lemma pin_state:
  assumes "\<not> debouncing x"
  shows "(debouncing (pin_after c rd arm x k) \<longleftrightarrow> (\<exists>a n. running arm a n k)) \<and>
     (\<forall>a n. running arm a n k \<longrightarrow> rounds (deb_cnt (pin_after c rd arm x k)) = a + rounds n - (k + 1))"
proof (induction k)
  case 0
  then show ?case using assms by (simp add: running_def)
next
  case (Suc k)
  let ?y = "loaded (arm (Suc k)) (pin_after c rd arm x k)"
  show ?case
  proof (cases "arm (Suc k)")
    case (Some n)
    then show ?thesis
      using debounce_pin_facts(1,2) [where c = c and rd = "rd (Suc k)" and x = ?y] running_armed(1) [of arm k n] Some by auto
  next
    case None
    show ?thesis
    proof (cases "\<exists>a n. running arm a n k")
      case True
      then obtain a n where r: "running arm a n k" by blast
      have d: "debouncing ?y" "rounds (deb_cnt ?y) = a + rounds n - (k + 1)" using Suc r None by auto
      have lt: "k + 1 < a + rounds n" using r by (simp add: running_def)
      have only: "running arm b m (Suc k) \<longleftrightarrow> b = a \<and> m = n \<and> k + 2 < a + rounds n" for b m
        using running_idle(1) [of arm k, OF None, of b m] running_unique [OF r, of b m] r by auto
      show ?thesis
        using debounce_pin_facts(1,2) [where c = c and rd = "rd (Suc k)" and x = ?y] d lt unfolding only pin_after.simps by auto
    next
      case False
      then have "\<not> debouncing ?y" using Suc None by simp
      then show ?thesis
        using debounce_pin_facts(1) [of c "rd (Suc k)" ?y] False running_idle(1) [of arm k, OF None] by auto
    qed
  qed
qed

lemma pin_expires:
  assumes "\<not> debouncing x"
  shows "debouncing (loaded (arm (Suc k)) (pin_after c rd arm x k)) \<and>
     rounds (deb_cnt (loaded (arm (Suc k)) (pin_after c rd arm x k))) = 1 \<longleftrightarrow> expires arm (Suc k)"
proof (cases "arm (Suc k)")
  case (Some n)
  then show ?thesis using running_armed(2) [of arm k n] Some by simp
next
  case None
  note st = pin_state [OF assms, of c rd arm k]
  show ?thesis
  proof (cases "\<exists>a n. running arm a n k")
    case True
    then obtain a n where r: "running arm a n k" by blast
    have "k + 1 < a + rounds n" using r by (simp add: running_def)
    moreover have "expires arm (Suc k) \<longleftrightarrow> k + 2 = a + rounds n"
      using running_idle(2) [of arm k, OF None] running_unique [OF r] r by blast
    ultimately show ?thesis using st r None by auto
  next
    case False
    then show ?thesis using st None running_idle(2) [of arm k, OF None] by auto
  qed
qed

lemma loaded_same [simp]:
  "handler (loaded a x) = handler x" "port_pin (loaded a x) = port_pin x" "prev_level (loaded a x) = prev_level x"
  by (cases a; simp)+

lemma last_reported_Suc:
  "last_reported c rd x arm (Suc (Suc k)) =
     (if expires arm (Suc k) \<and> 0 \<le> level_at c rd x (Suc k) then level_at c rd x (Suc k) \<noteq> 0 else last_reported c rd x arm (Suc k))"
  by (simp add: last_reported_def)

lemma pin_prev_level:
  assumes "\<not> debouncing x" "handler x = Some h"
  shows "prev_level (pin_after c rd arm x k) = last_reported c rd x arm (Suc k)"
proof (induction k)
  case 0
  show ?case by (simp add: last_reported_def)
next
  case (Suc k)
  let ?y = "loaded (arm (Suc k)) (pin_after c rd arm x k)"
  have n: "prev_level (fst (notify_debounce_handlers c (rd (Suc k)) (?y\<lparr>debouncing := False, deb_cnt := 0\<rparr>))) =
     (if 0 \<le> level_at c rd x (Suc k) then level_at c rd x (Suc k) \<noteq> 0 else prev_level ?y)"
    using notify_calls(2) [of "?y\<lparr>debouncing := False, deb_cnt := 0\<rparr>" h c rd "Suc k"] assms(2)
      level_at_same [of "?y\<lparr>debouncing := False, deb_cnt := 0\<rparr>" x c rd "Suc k"] by simp
  show ?case
    using debounce_pin_facts(4) [of c "rd (Suc k)" ?y] Suc n pin_expires [OF assms(1), of arm k c rd]
    by (simp add: last_reported_Suc)
qed

text \<open>The calls of a pin are those of the specification.\<close>

lemma pin_calls_spec:
  assumes "\<not> debouncing x"
  shows "pin_calls c rd arm x (Suc k) = spec_call c rd x arm (Suc k)"
proof (cases "handler x")
  case None
  then show ?thesis
    by (simp add: pin_calls_def debounce_pin_facts(3) spec_call_def notify_debounce_handlers_def split: option.split)
next
  case (Some h)
  let ?y = "loaded (arm (Suc k)) (pin_after c rd arm x k)"
  have "snd (notify_debounce_handlers c (rd (Suc k)) (?y\<lparr>debouncing := False, deb_cnt := 0\<rparr>)) =
     (if 0 \<le> level_at c rd x (Suc k) \<and> level_at c rd x (Suc k) \<noteq> of_bool (prev_level ?y)
      then [Call h (word_of_int (level_at c rd x (Suc k)))] else [])"
    using notify_calls(1) [of "?y\<lparr>debouncing := False, deb_cnt := 0\<rparr>" h c rd "Suc k"] Some
      level_at_same [of "?y\<lparr>debouncing := False, deb_cnt := 0\<rparr>" x c rd "Suc k"] by simp
  then show ?thesis
    using debounce_pin_facts(3) [of c "rd (Suc k)" ?y] pin_expires [OF assms, of arm k c rd] Some
      pin_prev_level [OF assms Some, of c rd arm k]
    by (simp add: pin_calls_def spec_call_def)
qed

section \<open>The loop\<close>

text \<open>All pins after \<open>k\<close> rounds, whether the thread waits between them or not, and the calls of round \<open>k\<close>.\<close>

primrec after :: "pin_cfg \<Rightarrow> (nat \<Rightarrow> u32 \<Rightarrow> int) \<Rightarrow> (nat \<Rightarrow> (nat \<times> u8) list) \<Rightarrow> pin_input list \<Rightarrow> nat \<Rightarrow> pin_input list" where
  "after c rd irq l 0 = l"
| "after c rd irq l (Suc k) = fst (debounce_pins c (rd (Suc k)) (interrupts (irq (Suc k)) (after c rd irq l k)))"

definition round_calls :: "pin_cfg \<Rightarrow> (nat \<Rightarrow> u32 \<Rightarrow> int) \<Rightarrow> (nat \<Rightarrow> (nat \<times> u8) list) \<Rightarrow> pin_input list \<Rightarrow> nat \<Rightarrow> pin_call list" where
  "round_calls c rd irq l k = snd (debounce_pins c (rd k) (interrupts (irq k) (after c rd irq l (k - 1))))"

lemma debounce_pins_map:
  "debounce_pins c rd l = (map (\<lambda>x. fst (debounce_pin c rd x)) l, concat (map (\<lambda>x. snd (debounce_pin c rd x)) l))"
  by (induction l) (auto simp: Let_def split: prod.split)

lemma interrupts_length [simp]: "length (interrupts xs l) = length l"
  by (induction xs arbitrary: l) (auto simp: interrupts_def start_debounce_def)

lemma interrupts_nth:
  "i < length l \<Longrightarrow> interrupts (irq k) l ! i = loaded (armed_at irq i k) (l ! i)"
proof -
  have "i < length l \<Longrightarrow> interrupts xs l ! i =
     loaded (case filter (\<lambda>(j, n). j = i) xs of [] \<Rightarrow> None | ys \<Rightarrow> Some (snd (last ys))) (l ! i)" for xs
  proof (induction xs rule: rev_induct)
    case (snoc x xs)
    obtain j n where x: "x = (j, n)" by (cases x)
    let ?l = "interrupts xs l"
    have s: "interrupts (xs @ [x]) l = start_debounce j n ?l" by (simp add: interrupts_def x)
    show ?case
    proof (cases "j = i")
      case True
      then show ?thesis unfolding s using snoc x
        by (auto simp: start_debounce_def loaded_def split: list.split option.split)
    next
      case False
      then show ?thesis unfolding s using snoc x by (simp add: start_debounce_def)
    qed
  qed (simp add: interrupts_def)
  then show "i < length l \<Longrightarrow> interrupts (irq k) l ! i = loaded (armed_at irq i k) (l ! i)" by (simp add: armed_at_def)
qed

lemma after_length [simp]: "length (after c rd irq l k) = length l"
  by (induction k) (simp_all add: debounce_pins_map)

definition at_rest :: "pin_input \<Rightarrow> pin_input" where
  "at_rest x = x\<lparr>debouncing := False\<rparr>"

lemma at_rest_simps [simp]:
  "\<not> debouncing (at_rest x)" "handler (at_rest x) = handler x" "port_pin (at_rest x) = port_pin x"
  "prev_level (at_rest x) = prev_level x"
  by (simp_all add: at_rest_def)

lemma level_at_rest [simp]: "level_at c rd (at_rest x) k = level_at c rd x k"
  by (simp add: level_at_def)

lemma spec_call_at_rest: "spec_call c rd (at_rest x) arm k = spec_call c rd x arm k"
  unfolding spec_call_def last_reported_def level_at_rest at_rest_simps ..

text \<open>Debouncing under way at the start is an interrupt before round 1.\<close>

lemma loaded_start: "loaded (arms irq i x (Suc 0)) (at_rest x) = loaded (armed_at irq i (Suc 0)) x"
  by (cases "armed_at irq i (Suc 0)"; cases "debouncing x") (simp_all add: arms_def at_rest_def)

lemma loaded_round:
  assumes "i < length l"
  shows "loaded (arms irq i (l ! i) (Suc k)) (pin_after c rd (arms irq i (l ! i)) (at_rest (l ! i)) k) =
     loaded (armed_at irq i (Suc k)) (after c rd irq l k ! i)"
proof (induction k)
  case 0
  show ?case by (simp add: loaded_start)
next
  case (Suc k)
  have "after c rd irq l (Suc k) ! i = fst (debounce_pin c (rd (Suc k)) (loaded (armed_at irq i (Suc k)) (after c rd irq l k ! i)))"
    using assms by (simp add: debounce_pins_map interrupts_nth)
  then show ?case using Suc by (simp add: arms_def)
qed

lemma after_pin:
  assumes "i < length l" "0 < k"
  shows "after c rd irq l k ! i = pin_after c rd (arms irq i (l ! i)) (at_rest (l ! i)) k"
proof -
  obtain j where "k = Suc j" using assms(2) by (cases k) auto
  then show ?thesis using assms loaded_round [OF assms(1), of irq j c rd] by (simp add: debounce_pins_map interrupts_nth)
qed

lemma round_calls_spec: "round_calls c rd irq l (Suc k) = spec_round c rd irq l (Suc k)"
proof -
  have "snd (debounce_pin c (rd (Suc k)) (interrupts (irq (Suc k)) (after c rd irq l k) ! i)) =
     spec_call c rd (l ! i) (arms irq i (l ! i)) (Suc k)" if "i < length l" for i
    using pin_calls_spec [of "at_rest (l ! i)" c rd "arms irq i (l ! i)" k] loaded_round [OF that, of irq k c rd] that
    by (simp add: pin_calls_def spec_call_at_rest interrupts_nth)
  then have "map (\<lambda>x. snd (debounce_pin c (rd (Suc k)) x)) (interrupts (irq (Suc k)) (after c rd irq l k)) =
     map (\<lambda>i. spec_call c rd (l ! i) (arms irq i (l ! i)) (Suc k)) [0 ..< length l]"
    by (intro nth_equalityI) simp_all
  then show ?thesis by (simp add: round_calls_def spec_round_def debounce_pins_map)
qed

lemma loop_rounds:
  "debounce_loop c rd irq n (Suc k) (after c rd irq l k) = Some (m, l', es) \<Longrightarrow>
     k < m \<and> m \<le> k + n \<and> l' = after c rd irq l m \<and> \<not> is_debouncing l' \<and>
     es = concat (map (round_calls c rd irq l) [Suc k ..< Suc m])"
proof (induction n arbitrary: k es)
  case (Suc n)
  obtain l1 e where d: "debounce_pins c (rd (Suc k)) (interrupts (irq (Suc k)) (after c rd irq l k)) = (l1, e)"
    by (cases "debounce_pins c (rd (Suc k)) (interrupts (irq (Suc k)) (after c rd irq l k))")
  then have l1: "after c rd irq l (Suc k) = l1" "round_calls c rd irq l (Suc k) = e" by (simp_all add: round_calls_def)
  show ?case
  proof (cases "is_debouncing l1")
    case True
    then obtain es' where r: "debounce_loop c rd irq n (Suc (Suc k)) l1 = Some (m, l', es')" "es = e @ es'"
      using Suc.prems d by auto
    have ih: "Suc k < m" "m \<le> Suc k + n" "l' = after c rd irq l m" "\<not> is_debouncing l'"
      "es' = concat (map (round_calls c rd irq l) [Suc (Suc k) ..< Suc m])"
      using Suc.IH [of "Suc k" es'] r(1) l1(1) by auto
    have "[Suc k ..< Suc m] = Suc k # [Suc (Suc k) ..< Suc m]" using ih(1) by (simp add: upt_rec del: upt_Suc)
    then show ?thesis using ih r(2) l1(2) by (simp del: upt_Suc)
  qed (use Suc.prems d l1 in \<open>auto\<close>)
qed simp

lemma loop_out_of_fuel:
  "debounce_loop c rd irq n (Suc k) (after c rd irq l k) = None \<Longrightarrow> k < j \<Longrightarrow> j \<le> k + n \<Longrightarrow> is_debouncing (after c rd irq l j)"
proof (induction n arbitrary: k)
  case (Suc n)
  obtain l1 e where d: "debounce_pins c (rd (Suc k)) (interrupts (irq (Suc k)) (after c rd irq l k)) = (l1, e)"
    by (cases "debounce_pins c (rd (Suc k)) (interrupts (irq (Suc k)) (after c rd irq l k))")
  then have l1: "after c rd irq l (Suc k) = l1" by simp
  have r: "is_debouncing l1" "debounce_loop c rd irq n (Suc (Suc k)) l1 = None"
    using Suc.prems(1) d by (auto split: if_splits)
  then show ?case using Suc.IH [of "Suc k"] Suc.prems(2,3) l1 by (cases "j = Suc k") auto
qed simp

text \<open>256 rounds after the last interrupt nothing is debounced.\<close>

lemma quiet_at_end:
  assumes "\<forall>k > m. irq k = []"
  shows "\<not> is_debouncing (after c rd irq l (m + 256))"
proof -
  have "\<not> debouncing (after c rd irq l (m + 256) ! i)" if i: "i < length l" for i
  proof
    assume "debouncing (after c rd irq l (m + 256) ! i)"
    then have "debouncing (pin_after c rd (arms irq i (l ! i)) (at_rest (l ! i)) (m + 256))" using after_pin [OF i, of "m + 256" c rd irq] by simp
    then obtain a n where r: "running (arms irq i (l ! i)) a n (m + 256)"
      using pin_state [of "at_rest (l ! i)" c rd "arms irq i (l ! i)" "m + 256"] by auto
    have "a \<le> m \<or> a = 1"
    proof (rule ccontr)
      assume "\<not> (a \<le> m \<or> a = 1)"
      then have "armed_at irq i a = None" "a \<noteq> 1" using assms by (simp_all add: armed_at_def)
      then show False using r by (simp add: running_def arms_def)
    qed
    then show False using r rounds_pos(2) [of n] by (auto simp: running_def)
  qed
  then show ?thesis by (auto simp: is_debouncing_def list_ex_iff in_set_conv_nth)
qed

text \<open>
  C30. Debouncing with interrupts: for any pins and levels, and any interrupts that start debouncing
  again in the sleeps of the loop, before any round and with any count, when the loop of the thread comes to its end after round \<open>m\<close>, the calls
  it made are those of the specification, in the order of the rounds and in each of the pins. A pin
  calls its handler in a round exactly if the count loaded last (0 counting as 256) runs out in it, the
  level can be read and is not the one found at its last expiry with a readable level (at first, the
  remembered one). The loop may go on as long as interrupts come; it ends at the latest 256 rounds
  after the last of them.
\<close>

theorem debounce_equals_spec:
  "(periph_round c rd irq n l = Some (m, l', es) \<longrightarrow>
      es = concat (map (spec_round c rd irq l) [1 ..< m + 1]) \<and> \<not> is_debouncing l' \<and> 1 \<le> m \<and> m \<le> n) \<and>
   ((\<forall>k > q. irq k = []) \<and> q + 256 \<le> n \<longrightarrow> periph_round c rd irq n l \<noteq> None)"
proof (intro conjI impI)
  assume "periph_round c rd irq n l = Some (m, l', es)"
  then have r: "debounce_loop c rd irq n (Suc 0) (after c rd irq l 0) = Some (m, l', es)" by (simp add: periph_round_def)
  note L = loop_rounds [OF r]
  then have "es = concat (map (round_calls c rd irq l) [1 ..< m + 1])" by simp
  also have "map (round_calls c rd irq l) [1 ..< m + 1] = map (spec_round c rd irq l) [1 ..< m + 1]"
    by (rule map_cong [OF refl]) (metis One_nat_def Suc_le_D atLeastLessThan_iff round_calls_spec set_upt)
  finally show "es = concat (map (spec_round c rd irq l) [1 ..< m + 1])" .
  show "\<not> is_debouncing l'" "1 \<le> m" "m \<le> n" using L by auto
next
  assume q: "(\<forall>k > q. irq k = []) \<and> q + 256 \<le> n"
  show "periph_round c rd irq n l \<noteq> None"
  proof
    assume "periph_round c rd irq n l = None"
    then have "is_debouncing (after c rd irq l (q + 256))"
      using loop_out_of_fuel [of c rd irq n 0 l "q + 256"] q by (simp add: periph_round_def)
    then show False using quiet_at_end [of q irq c rd l] q by blast
  qed
qed

text \<open>
  A pin with a count of 2 whose second interrupt comes one round later expires in round 3, and
  reports the level 0.
\<close>

definition demo_pin :: pin_input where
  "demo_pin = \<lparr>port_pin = 7, debouncing = False, deb_cnt = 0, handler = Some 1, prev_level = True\<rparr>"

theorem debounce_equals_spec_witness:
  "\<exists>l'. periph_round \<lparr>is_ioexp = (\<lambda>_. False), cfg_ioexp = False\<rparr> (\<lambda>_ _. 0) (\<lambda>k. if k \<in> {1, 2} then [(0, 2)] else []) 258 [demo_pin] =
     Some (3, l', [Call 1 0])"
proof -
  let ?c = "\<lparr>is_ioexp = (\<lambda>_. False), cfg_ioexp = False\<rparr>" and ?irq = "\<lambda>k. if k \<in> {1, 2} then [(0, 2 :: u8)] else []"
  have "periph_round ?c (\<lambda>_ _. 0) ?irq 258 [demo_pin] \<noteq> None"
    using debounce_equals_spec [of ?c "\<lambda>_ _. 0" ?irq 258 "[demo_pin]" _ _ _ 2] by simp
  then show ?thesis
    by (simp add: periph_round_def numeral_eq_Suc interrupts_def start_debounce_def demo_pin_def debounce_pin_def
        notify_debounce_handlers_def pin_level_def is_debouncing_def)
qed

end
