(* ===== verification/Thermal.thy ===== *)
theory Thermal
  imports Pseq
begin

text \<open>
  Thermal management: \<open>src/app/thermal_management/app_thermal.c\<close> and the Plum board's
  \<open>board_thermal.c\<close>. The options, the sensors, the answers of the processor's mailbox and of the I2C
  bus are inputs; what is sent is recorded in order. The work item is a flag that is set when it is
  submitted; \<open>THL_eventCallback\<close> is its run.
\<close>

section \<open>State\<close>

record temps =
  dieTmp :: u16
  pcbTmp :: u16
  pcbTmpQ1 :: u16
  pcbTmpQ2 :: u16
  evalSensor :: u16

datatype thm_ev = P3t_write u32 | Stt_write nat u16 | Force_G3 | Heartbeat_stop | Heartbeat_refresh
  | Resistance_correction bool | I2c_write "u8 list" | I2c_write_read u8

record thermal =
  u32AppliedP3tLimit :: u32
  u32RequiredP3tLimit :: u32
  p3tConfigLimit :: u8
  thermal_work :: bool
  apmlDelayCnt :: u32
  apmlErrCnt :: u32
  now_temps :: temps
  a_temps :: temps \<comment> \<open>locked by the first handler\<close>
  b_temps :: temps \<comment> \<open>locked by the second one\<close>
  highestSkinTemp :: u16
  is_polling_started :: bool
  lastPwrSt :: system_power_state
  thm_calls :: nat \<comment> \<open>calls outside so far\<close>
  thm_evs :: "thm_ev list"

datatype p3t_op = P3t_update u32 | P3t_refresh | P3t_reset

text \<open>The functions of a number take the number of the call.\<close>

record thm_env =
  host_notify_off :: bool
  p3tLimitEn_DC :: bool
  p3tLimitEn_AC :: bool
  uploadOnboardTemp :: bool
  uploadEvalCardTemp :: bool
  soc_in_lp :: "nat \<Rightarrow> bool"
  p3t_reply :: "nat \<Rightarrow> u32 \<Rightarrow> u32"
  p3t_during :: "nat \<Rightarrow> p3t_op list"
  tmp432 :: "nat \<Rightarrow> u16"
  sbtsi :: u16
  stt_ok :: "nat \<Rightarrow> bool"
  i2c_ret :: "nat \<Rightarrow> int"
  i2c_data :: "nat \<Rightarrow> u8 list"
  hot_bag_on :: bool
  lid_closed :: bool
  ac_source :: bool
  fake_battery :: bool
  critical_zone :: bool
  heartbeat_expired :: bool
  thm_pwr :: system_power_state

definition SYS_CONFIG_MAX_P3T_LIMIT :: u32 where "SYS_CONFIG_MAX_P3T_LIMIT = 216000"
definition APML_ERROR_NUM_THRESHOLD :: u32 where "APML_ERROR_NUM_THRESHOLD = 500"
definition APML_MB_DELAY_MS :: u32 where "APML_MB_DELAY_MS = 2400"

definition thm_emit :: "thm_ev \<Rightarrow> thermal \<Rightarrow> thermal" where
  "thm_emit e s = s\<lparr>thm_evs := thm_evs s @ [e]\<rparr>"

definition thm_call :: "thermal \<Rightarrow> thermal" where
  "thm_call s = s\<lparr>thm_calls := thm_calls s + 1\<rparr>"

section \<open>The P3T limit\<close>

definition app_thermal_updateP3tSetting :: "u32 \<Rightarrow> thermal \<Rightarrow> thermal" where
  "app_thermal_updateP3tSetting lim s =
     (if lim \<noteq> 0xFFFFFFFF then s\<lparr>u32RequiredP3tLimit := lim, thermal_work := True\<rparr>
      else if p3tConfigLimit s \<noteq> 0xFF then s\<lparr>u32RequiredP3tLimit := 1000 * ucast (p3tConfigLimit s), thermal_work := True\<rparr>
      else s)"

definition app_thermal_refreshP3tSetting :: "thermal \<Rightarrow> thermal" where
  "app_thermal_refreshP3tSetting s = s\<lparr>thermal_work := True\<rparr>"

definition app_thermal_resetP3tSetting :: "thermal \<Rightarrow> thermal" where
  "app_thermal_resetP3tSetting s = s\<lparr>u32AppliedP3tLimit := 0, u32RequiredP3tLimit := 0\<rparr>"

text \<open>
  What other threads do to the limit while a mailbox call sleeps: \<open>p3t_during E n\<close> are their calls
  during the \<open>n\<close>-th call outside.
\<close>

definition p3t_other :: "p3t_op \<Rightarrow> thermal \<Rightarrow> thermal" where
  "p3t_other x = (case x of P3t_update lim \<Rightarrow> app_thermal_updateP3tSetting lim | P3t_refresh \<Rightarrow> app_thermal_refreshP3tSetting
     | P3t_reset \<Rightarrow> app_thermal_resetP3tSetting)"

definition p3t_others :: "p3t_op list \<Rightarrow> thermal \<Rightarrow> thermal" where
  "p3t_others = fold p3t_other"

text \<open>The attempts: the limit is read anew for each of them, and again to check the reply.\<close>

fun p3t_retry :: "thm_env \<Rightarrow> nat \<Rightarrow> thermal \<Rightarrow> thermal" where
  "p3t_retry E 0 s = s"
| "p3t_retry E (Suc n) s =
     (if soc_in_lp E (thm_calls s) then p3t_retry E n (thm_call s)
      else (let s1 = p3t_others (p3t_during E (thm_calls s)) (thm_emit (P3t_write (u32RequiredP3tLimit s)) (thm_call s));
                r = p3t_reply E (thm_calls s) (u32RequiredP3tLimit s) in
            if r = u32RequiredP3tLimit s1 then s1\<lparr>u32AppliedP3tLimit := r\<rparr> else p3t_retry E n s1))"

definition applyP3tSetting :: "thm_env \<Rightarrow> thermal \<Rightarrow> thermal" where
  "applyP3tSetting E s =
     (if host_notify_off E then s
      else if \<not> p3tLimitEn_DC E \<and> \<not> p3tLimitEn_AC E then s
      else
        (let s1 = (if u32RequiredP3tLimit s > SYS_CONFIG_MAX_P3T_LIMIT then s\<lparr>u32RequiredP3tLimit := SYS_CONFIG_MAX_P3T_LIMIT\<rparr> else s)
         in if u32AppliedP3tLimit s1 \<noteq> u32RequiredP3tLimit s1 then p3t_retry E 2 s1 else s1))"

definition THL_eventCallback :: "thm_env \<Rightarrow> thermal \<Rightarrow> thermal" where
  "THL_eventCallback E s = (if thermal_work s then applyP3tSetting E (s\<lparr>thermal_work := False\<rparr>) else s)"

section \<open>Hot bag\<close>

definition app_thermal_hotBagCheck :: "thm_env \<Rightarrow> bool" where
  "app_thermal_hotBagCheck E \<longleftrightarrow> hot_bag_on E \<and> lid_closed E \<and> \<not> ac_source E \<and> \<not> fake_battery E"

text \<open>The counter of overheated rounds is a local variable that starts at 0 in each round.\<close>

definition app_thermal_hotBagMonitorTemp :: "thm_env \<Rightarrow> u16 \<Rightarrow> u16 \<Rightarrow> u16 \<Rightarrow> thermal \<Rightarrow> thermal" where
  "app_thermal_hotBagMonitorTemp E t q0 q1 s =
     (if \<not> app_thermal_hotBagCheck E then s
      else
        (let s1 = s\<lparr>highestSkinTemp := max (max t q0) q1\<rparr>;
             overTempCnt = (if highestSkinTemp s1 > 75 then 1 else 0) :: u16;
             s2 = (if overTempCnt > 75 then thm_emit Force_G3 (s1\<lparr>highestSkinTemp := 0\<rparr>) else s1)
         in if critical_zone E \<and> highestSkinTemp s2 > 50 \<and> heartbeat_expired E then thm_emit Force_G3 s2 else s2))"

definition app_thermal_hotBagMonitorBat :: "thm_env \<Rightarrow> thermal \<Rightarrow> thermal" where
  "app_thermal_hotBagMonitorBat E s =
     (if \<not> app_thermal_hotBagCheck E \<or> host_notify_off E \<and> \<not> critical_zone E
      then (thm_emit Heartbeat_stop s)\<lparr>is_polling_started := False\<rparr>
      else if \<not> is_polling_started s then (thm_emit Heartbeat_refresh s)\<lparr>is_polling_started := True\<rparr>
      else s)"

section \<open>The board\<close>

definition board_thermal_getinfo :: "thm_env \<Rightarrow> thermal \<Rightarrow> thermal" where
  "board_thermal_getinfo E s =
     (let t = (now_temps s)\<lparr>pcbTmp := tmp432 E 0, pcbTmpQ1 := tmp432 E 1, pcbTmpQ2 := tmp432 E 2\<rparr> in
      (thm_call s)\<lparr>now_temps := (if soc_in_lp E (thm_calls s) then t else t\<lparr>dieTmp := sbtsi E\<rparr>)\<rparr>)"

text \<open>Three attempts are made also when one succeeds; data that was not read stays.\<close>

definition eval_addr :: "u32 \<Rightarrow> u8 list" where
  "eval_addr reg = [1, 4, 0x0F, ucast (drop_bit 18 reg), ucast (drop_bit 10 reg), ucast (drop_bit 2 reg)]"

definition be32 :: "u8 list \<Rightarrow> u32" where
  "be32 b = push_bit 24 (ucast (b ! 1)) OR push_bit 16 (ucast (b ! 2)) OR push_bit 8 (ucast (b ! 3)) OR ucast (b ! 4)"

fun board_eval_regAccess :: "thm_env \<Rightarrow> bool \<Rightarrow> u32 \<Rightarrow> nat \<Rightarrow> int \<Rightarrow> u32 \<Rightarrow> thermal \<Rightarrow> int \<times> u32 \<times> thermal" where
  "board_eval_regAccess E isRead reg 0 ret data s = (ret, data, s)"
| "board_eval_regAccess E isRead reg (Suc n) ret data s =
     (let s1 = thm_emit (I2c_write (eval_addr reg)) (thm_call s); r1 = i2c_ret E (thm_calls s) in
      if r1 \<noteq> 0 then board_eval_regAccess E isRead reg n r1 data s1
      else if isRead then
        (let s2 = thm_emit (I2c_write_read 3) (thm_call s1); r2 = i2c_ret E (thm_calls s1); b = i2c_data E (thm_calls s1)
         in board_eval_regAccess E isRead reg n r2 (if r2 = 0 \<and> b ! 0 = 4 then be32 b else data) s2)
      else
        (let s2 = thm_emit (I2c_write [2, 4, ucast (drop_bit 24 data), ucast (drop_bit 16 data), ucast (drop_bit 8 data), ucast data]) (thm_call s1)
         in board_eval_regAccess E isRead reg n (i2c_ret E (thm_calls s1)) data s2))"

definition stt_write :: "thm_env \<Rightarrow> nat \<Rightarrow> u16 \<Rightarrow> thermal \<Rightarrow> thermal" where
  "stt_write E i v s =
     (if soc_in_lp E (thm_calls s) then thm_call s
      else (let s1 = thm_emit (Stt_write i v) (thm_call s) in
            if stt_ok E (thm_calls s) then s1 else s1\<lparr>apmlErrCnt := apmlErrCnt s1 + 1\<rparr>))"

definition board_thermal_reporter :: "thm_env \<Rightarrow> u16 \<Rightarrow> u16 \<Rightarrow> thermal \<Rightarrow> thermal" where
  "board_thermal_reporter E q0 q1 s =
     (let s1 = (if uploadOnboardTemp E \<and> apmlErrCnt s < APML_ERROR_NUM_THRESHOLD then stt_write E 1 q1 (stt_write E 0 q0 s) else s) in
      if uploadEvalCardTemp E \<and> apmlErrCnt s1 < APML_ERROR_NUM_THRESHOLD then
        (let (r, w, s2) = board_eval_regAccess E False 0x3C000238 3 0 0xC0300014 s1;
             (r', data, s3) = board_eval_regAccess E True 0x3C00023C 3 0 w s2;
             t = (ucast (drop_bit 9 (data AND 0x3FE00)) :: u16);
             s4 = s3\<lparr>now_temps := (now_temps s3)\<lparr>evalSensor := (if t > 0xFF then 0xFF00 else push_bit 8 t)\<rparr>\<rparr>
         in stt_write E 2 (evalSensor (now_temps s4)) s4)
      else s1)"

text \<open>
  The two handlers of the temperatures: reading a high byte locks the value, whose low byte is read
  next. The first one returns 1 if it read something.
\<close>

definition lock_byte :: "nat \<Rightarrow> temps \<Rightarrow> temps \<Rightarrow> u8 \<times> temps" where
  "lock_byte i t l =
     (let high = (\<lambda>w. ucast (drop_bit 8 w) :: u8) in
      if i = 1 then (high (dieTmp t), l\<lparr>dieTmp := dieTmp t\<rparr>)
      else if i = 0 then (ucast (dieTmp l), l)
      else if i = 3 then (high (pcbTmp t), l\<lparr>pcbTmp := pcbTmp t\<rparr>)
      else if i = 2 then (ucast (pcbTmp l), l)
      else if i = 5 then (high (pcbTmpQ1 t), l\<lparr>pcbTmpQ1 := pcbTmpQ1 t\<rparr>)
      else if i = 4 then (ucast (pcbTmpQ1 l), l)
      else if i = 7 then (high (pcbTmpQ2 t), l\<lparr>pcbTmpQ2 := pcbTmpQ2 t\<rparr>)
      else if i = 6 then (ucast (pcbTmpQ2 l), l)
      else if i = 9 then (high (evalSensor t), l\<lparr>evalSensor := evalSensor t\<rparr>)
      else (ucast (evalSensor l), l))"

definition board_thermal_AcpiHandler :: "bool \<Rightarrow> u8 \<Rightarrow> u8 \<Rightarrow> thermal \<Rightarrow> u8 \<times> u8 \<times> thermal" where
  "board_thermal_AcpiHandler isRead idx data s =
     (if isRead \<and> idx \<le> 9
      then (let (v, l) = lock_byte (unat idx) (now_temps s) (a_temps s) in (1, v, s\<lparr>a_temps := l\<rparr>))
      else (0, data, s))"

definition ACPIThermalHandler :: "u8 \<Rightarrow> bool \<Rightarrow> u8 \<Rightarrow> u8 \<Rightarrow> thermal \<Rightarrow> u8 \<times> thermal" where
  "ACPIThermalHandler base isRead idx data s =
     (if isRead \<and> idx - base \<le> 9
      then (let (v, l) = lock_byte (unat (idx - base)) (now_temps s) (b_temps s) in (v, s\<lparr>b_temps := l\<rparr>))
      else (data, s))"

text \<open>The reset of the processor: the delay has 32 bits but is declared there with 8.\<close>

definition apu_reset_thermal :: "thermal \<Rightarrow> thermal" where
  "apu_reset_thermal s = s\<lparr>apmlErrCnt := 0, apmlDelayCnt := apmlDelayCnt s AND NOT 0xFF\<rparr>"

section \<open>The task\<close>

text \<open>One round; \<open>hb\<close>: the hot bag monitor is compiled in.\<close>

definition thermal_round :: "bool \<Rightarrow> u32 \<Rightarrow> thm_env \<Rightarrow> thermal \<Rightarrow> thermal res" where
  "thermal_round hb period E s =
     (let s1 = (if lastPwrSt s \<noteq> thm_pwr E
                then (if thm_pwr E = SYSTEM_S0_STATE then thm_emit (Resistance_correction False) s else s)\<lparr>lastPwrSt := thm_pwr E\<rparr>
                else s);
          bat = (\<lambda>s. if hb then app_thermal_hotBagMonitorBat E s else s)
      in if thm_pwr E = SYSTEM_S0_STATE then
           if period = 0 then Inl Div_by_zero
           else if apmlDelayCnt s1 < APML_MB_DELAY_MS div period then Inr (bat (s1\<lparr>apmlDelayCnt := apmlDelayCnt s1 + 1\<rparr>))
           else
             (let s2 = board_thermal_getinfo E (s1\<lparr>thermal_work := True\<rparr>);
                  t = now_temps s2; q0 = pcbTmpQ1 t; q1 = pcbTmpQ2 t;
                  s3 = board_thermal_reporter E q0 q1 s2;
                  s4 = (if hb then app_thermal_hotBagMonitorTemp E (pcbTmp t) q0 q1 s3 else s3)
              in Inr (bat s4))
         else Inr (bat (s1\<lparr>apmlDelayCnt := 0\<rparr>)))"

text \<open>What the firmware does over time: rounds, runs of the work item, requests and resets.\<close>

datatype thm_step = Round thm_env | Work thm_env | Update u32 | Refresh | Reset_limit | Apu_reset | Read_b u8

definition thm_do :: "bool \<Rightarrow> u32 \<Rightarrow> thm_step \<Rightarrow> thermal \<Rightarrow> thermal res" where
  "thm_do hb period x s = (case x of
       Round E \<Rightarrow> thermal_round hb period E s
     | Work E \<Rightarrow> Inr (THL_eventCallback E s)
     | Update l \<Rightarrow> Inr (app_thermal_updateP3tSetting l s)
     | Refresh \<Rightarrow> Inr (app_thermal_refreshP3tSetting s)
     | Reset_limit \<Rightarrow> Inr (app_thermal_resetP3tSetting s)
     | Apu_reset \<Rightarrow> Inr (apu_reset_thermal s)
     | Read_b i \<Rightarrow> Inr (snd (ACPIThermalHandler 0 True i 0 s)))"

fun thm_run :: "bool \<Rightarrow> u32 \<Rightarrow> thm_step list \<Rightarrow> thermal \<Rightarrow> thermal res" where
  "thm_run hb period [] s = Inr s"
| "thm_run hb period (x # xs) s = (case thm_do hb period x s of Inl e \<Rightarrow> Inl e | Inr s' \<Rightarrow> thm_run hb period xs s')"

end
