(* ===== verification/Thermal_Props.thy ===== *)
theory Thermal_Props
  imports Thermal
begin

text \<open>
  A temperature that the host reads byte by byte is one reading; a limit above the maximum
  is sent to the processor only when another thread asks for it during a mailbox call; and when the hot bag monitor shuts the system down.
\<close>

section \<open>Observations\<close>

text \<open>
  An observation of the state that bookkeeping and the events other than limits and shutdowns do not
  change; what the rest of a round does to it.
\<close>

definition quiet :: "thm_ev \<Rightarrow> bool" where
  "quiet e \<longleftrightarrow> (case e of P3t_write w \<Rightarrow> False | Force_G3 \<Rightarrow> False | _ \<Rightarrow> True)"

locale observation =
  fixes obs :: "thermal \<Rightarrow> 'a"
  assumes obs_call: "obs (s\<lparr>thm_calls := n\<rparr>) = obs s"
    and obs_temps: "obs (s\<lparr>now_temps := t\<rparr>) = obs s"
    and obs_b: "obs (s\<lparr>b_temps := t\<rparr>) = obs s"
    and obs_err: "obs (s\<lparr>apmlErrCnt := v\<rparr>) = obs s"
    and obs_delay: "obs (s\<lparr>apmlDelayCnt := v\<rparr>) = obs s"
    and obs_pwr: "obs (s\<lparr>lastPwrSt := l\<rparr>) = obs s"
    and obs_work: "obs (s\<lparr>thermal_work := b\<rparr>) = obs s"
    and obs_poll: "obs (s\<lparr>is_polling_started := b\<rparr>) = obs s"
    and obs_applied: "obs (s\<lparr>u32AppliedP3tLimit := v\<rparr>) = obs s"
    and obs_required: "obs (s\<lparr>u32RequiredP3tLimit := v\<rparr>) = obs s"
    and obs_emit: "quiet e \<Longrightarrow> obs (s\<lparr>thm_evs := thm_evs s @ [e]\<rparr>) = obs s"
begin

lemmas obs_simps = obs_call obs_temps obs_b obs_err obs_delay obs_pwr obs_work obs_poll obs_applied obs_required

lemma obs_quiet:
  "obs (thm_call s) = obs s" "obs (thm_emit (Stt_write i v) s) = obs s" "obs (thm_emit Heartbeat_stop s) = obs s"
  "obs (thm_emit Heartbeat_refresh s) = obs s" "obs (thm_emit (Resistance_correction b) s) = obs s"
  "obs (thm_emit (I2c_write l) s) = obs s" "obs (thm_emit (I2c_write_read c) s) = obs s"
  by (simp_all add: thm_call_def thm_emit_def obs_simps obs_emit quiet_def)

lemma obs_eval: "obs (snd (snd (board_eval_regAccess E r reg n ret d s))) = obs s"
  by (induction E r reg n ret d s rule: board_eval_regAccess.induct) (simp_all add: Let_def obs_quiet)

lemma obs_stt: "obs (stt_write E i v s) = obs s"
  by (simp add: stt_write_def Let_def obs_quiet obs_simps)

lemma obs_reporter: "obs (board_thermal_reporter E q0 q1 s) = obs s"
proof -
  have "obs s' = obs s" if "board_eval_regAccess E r reg n ret d s = (ret', d', s')" for E r reg n ret d s ret' d' s'
    using obs_eval [of E r reg n ret d s] that by simp
  then show ?thesis by (auto simp: board_thermal_reporter_def Let_def obs_stt obs_simps split: prod.split)
qed

lemma obs_getinfo: "obs (board_thermal_getinfo E s) = obs s"
  by (simp add: board_thermal_getinfo_def Let_def obs_simps obs_quiet)

lemma obs_bat: "obs (app_thermal_hotBagMonitorBat E s) = obs s"
  by (simp add: app_thermal_hotBagMonitorBat_def obs_simps obs_quiet)

text \<open>A round changes the observation at most in the monitor of the temperature.\<close>

lemma obs_round:
  assumes "thermal_round hb p E s = Inr s'"
  shows "\<exists>t. obs t = obs s \<and> obs s' = obs (if hb \<and> thm_pwr E = SYSTEM_S0_STATE \<and> \<not> apmlDelayCnt s < APML_MB_DELAY_MS div p
     then app_thermal_hotBagMonitorTemp E (tmp432 E 0) (tmp432 E 1) (tmp432 E 2) t else t)"
proof -
  define s1 where "s1 = (if lastPwrSt s \<noteq> thm_pwr E
     then (if thm_pwr E = SYSTEM_S0_STATE then thm_emit (Resistance_correction False) s else s)\<lparr>lastPwrSt := thm_pwr E\<rparr> else s)"
  have s1: "obs s1 = obs s" "apmlDelayCnt s1 = apmlDelayCnt s" by (simp_all add: s1_def obs_simps obs_quiet) (simp add: thm_emit_def)
  define t where "t = board_thermal_reporter E (tmp432 E 1) (tmp432 E 2) (board_thermal_getinfo E (s1\<lparr>thermal_work := True\<rparr>))"
  have t: "obs t = obs s" by (simp add: t_def obs_reporter obs_getinfo obs_simps s1)
  have get: "pcbTmp (now_temps (board_thermal_getinfo E u)) = tmp432 E 0" "pcbTmpQ1 (now_temps (board_thermal_getinfo E u)) = tmp432 E 1"
    "pcbTmpQ2 (now_temps (board_thermal_getinfo E u)) = tmp432 E 2" for u by (simp_all add: board_thermal_getinfo_def Let_def)
  show ?thesis
  proof (cases "thm_pwr E = SYSTEM_S0_STATE \<and> \<not> apmlDelayCnt s < APML_MB_DELAY_MS div p")
    case True
    then have "obs s' = obs (if hb then app_thermal_hotBagMonitorTemp E (tmp432 E 0) (tmp432 E 1) (tmp432 E 2) t else t)"
      using assms s1(2) unfolding thermal_round_def Let_def s1_def [symmetric] get t_def [symmetric]
      by (auto simp: obs_bat split: if_splits)
    with True t show ?thesis by auto
  next
    case False
    then have "obs s' = obs s" using assms s1 unfolding thermal_round_def Let_def s1_def [symmetric]
      by (auto simp: obs_bat obs_simps split: if_splits)
    with False show ?thesis by (intro exI [of _ s]) auto
  qed
qed

lemma obs_requests:
  "obs (app_thermal_updateP3tSetting l s) = obs s" "obs (app_thermal_refreshP3tSetting s) = obs s"
  "obs (app_thermal_resetP3tSetting s) = obs s" "obs (apu_reset_thermal s) = obs s" "obs (snd (ACPIThermalHandler b r i d s)) = obs s"
  by (simp_all add: app_thermal_updateP3tSetting_def app_thermal_refreshP3tSetting_def app_thermal_resetP3tSetting_def
    apu_reset_thermal_def ACPIThermalHandler_def obs_simps Let_def split: prod.split)

end

definition limits_ok :: "(u32 \<Rightarrow> bool) \<Rightarrow> thermal \<Rightarrow> bool" where
  "limits_ok A s \<longleftrightarrow> (\<forall>w. P3t_write w \<in> set (thm_evs s) \<longrightarrow> w \<le> SYS_CONFIG_MAX_P3T_LIMIT \<or> A w)"

definition shutdowns :: "thermal \<Rightarrow> nat" where
  "shutdowns s = length (filter (\<lambda>e. e = Force_G3) (thm_evs s))"

interpretation locked: observation a_temps
  by unfold_locales simp_all

interpretation limits: observation "limits_ok A" for A
  by unfold_locales (auto simp: limits_ok_def quiet_def)

interpretation downs: observation shutdowns
  by unfold_locales (auto simp: shutdowns_def quiet_def)

section \<open>Reading a temperature\<close>

definition temp_no :: "nat \<Rightarrow> temps \<Rightarrow> u16" where
  "temp_no i t = (if i = 0 then dieTmp t else if i = 1 then pcbTmp t else if i = 2 then pcbTmpQ1 t
     else if i = 3 then pcbTmpQ2 t else evalSensor t)"

lemma monitor_locked: "a_temps (app_thermal_hotBagMonitorTemp E t q0 q1 s) = a_temps s"
  by (simp add: app_thermal_hotBagMonitorTemp_def thm_emit_def Let_def)

lemma other_fields: "a_temps (p3t_other x s) = a_temps s" "thm_evs (p3t_other x s) = thm_evs s"
  "p3tConfigLimit (p3t_other x s) = p3tConfigLimit s" "thm_calls (p3t_other x s) = thm_calls s"
  by (auto simp: p3t_other_def app_thermal_updateP3tSetting_def app_thermal_refreshP3tSetting_def app_thermal_resetP3tSetting_def
      split: p3t_op.split)

lemma others_fields [simp]: "a_temps (p3t_others xs s) = a_temps s" "thm_evs (p3t_others xs s) = thm_evs s"
  "p3tConfigLimit (p3t_others xs s) = p3tConfigLimit s" "thm_calls (p3t_others xs s) = thm_calls s"
  by (induction xs arbitrary: s) (simp_all add: p3t_others_def other_fields)

lemma retry_locked: "a_temps (p3t_retry E n s) = a_temps s"
  by (induction E n s rule: p3t_retry.induct) (simp_all add: Let_def thm_emit_def thm_call_def)

lemma work_locked: "a_temps (THL_eventCallback E s) = a_temps s"
  by (simp add: THL_eventCallback_def applyP3tSetting_def retry_locked Let_def)

lemma do_locked: "thm_do hb p x s = Inr s' \<Longrightarrow> a_temps s' = a_temps s"
  by (cases x) (auto simp: thm_do_def locked.obs_requests work_locked monitor_locked dest!: locked.obs_round split: if_splits)

lemma run_locked: "thm_run hb p xs s = Inr s' \<Longrightarrow> a_temps s' = a_temps s"
  by (induction xs arbitrary: s) (auto split: sum.splits dest: do_locked)

lemma high_low: "push_bit 8 (ucast (ucast (drop_bit 8 w) :: u8)) OR ucast (ucast w :: u8) = (w :: u16)"
  by (rule bit_word_eqI) (auto simp: bit_simps dest: bit_imp_le_length)

text \<open>
  C31. The high byte of a temperature and the low byte read after it belong to the same measurement,
  whatever the firmware did in between: rounds with new measurements, requests, resets, and reads of
  the other register window.
\<close>

theorem temperature_reads_consistent:
  assumes "i < 5" "board_thermal_AcpiHandler True (of_nat (2 * i + 1)) x s = (r, hi, s1)" "thm_run hb p xs s1 = Inr s2"
    "board_thermal_AcpiHandler True (of_nat (2 * i)) y s2 = (r', lo, s3)"
  shows "r = 1 \<and> r' = 1 \<and> push_bit 8 (ucast hi) OR ucast lo = temp_no i (now_temps s)"
proof -
  have keep: "a_temps s2 = a_temps s1" by (rule run_locked [OF assms(3)])
  consider "i = 0" | "i = 1" | "i = 2" | "i = 3" | "i = 4" using assms(1) by linarith
  then show ?thesis
    using assms(2,4) keep by cases (auto simp: board_thermal_AcpiHandler_def lock_byte_def temp_no_def high_low Let_def)
qed

section \<open>The P3T limit\<close>

text \<open>The limits other threads ask for while a call of this run of the work item sleeps.\<close>

definition asked_in_wait :: "thm_env \<Rightarrow> u32 \<Rightarrow> bool" where
  "asked_in_wait E w \<longleftrightarrow> (\<exists>n. P3t_update w \<in> set (p3t_during E n) \<or>
     P3t_update 0xFFFFFFFF \<in> set (p3t_during E n) \<and> (\<exists>c :: u8. w = 1000 * ucast c))"

lemma others_required:
  "u32RequiredP3tLimit (p3t_others xs s) \<in> {u32RequiredP3tLimit s, 0} \<union> {w. P3t_update w \<in> set xs} \<union>
     (if P3t_update 0xFFFFFFFF \<in> set xs then {1000 * ucast (p3tConfigLimit s)} else {})"
proof (induction xs arbitrary: s)
  case (Cons x xs)
  have "u32RequiredP3tLimit (p3t_other x s) \<in> {u32RequiredP3tLimit s, 0} \<union> {w. P3t_update w = x} \<union>
     (if P3t_update 0xFFFFFFFF = x then {1000 * ucast (p3tConfigLimit s)} else {})"
    by (cases x) (auto simp: p3t_other_def app_thermal_updateP3tSetting_def app_thermal_refreshP3tSetting_def app_thermal_resetP3tSetting_def)
  then show ?case using Cons [of "p3t_other x s"] by (auto simp: p3t_others_def other_fields split: if_splits)
qed (simp add: p3t_others_def)

lemma retry_limits:
  "limits_ok A s \<Longrightarrow> (\<And>w. asked_in_wait E w \<Longrightarrow> A w) \<Longrightarrow> u32RequiredP3tLimit s \<le> SYS_CONFIG_MAX_P3T_LIMIT \<or> A (u32RequiredP3tLimit s) \<Longrightarrow>
     limits_ok A (p3t_retry E n s)"
proof (induction E n s rule: p3t_retry.induct)
  case (2 E n s)
  let ?s0 = "thm_emit (P3t_write (u32RequiredP3tLimit s)) (thm_call s)"
  let ?s1 = "p3t_others (p3t_during E (thm_calls s)) ?s0"
  have ok: "limits_ok A ?s1" using 2(3,5) by (auto simp: limits_ok_def thm_emit_def thm_call_def)
  have req: "u32RequiredP3tLimit ?s1 \<le> SYS_CONFIG_MAX_P3T_LIMIT \<or> A (u32RequiredP3tLimit ?s1)"
  proof -
    have "u32RequiredP3tLimit ?s1 \<in> {u32RequiredP3tLimit s, 0} \<or> asked_in_wait E (u32RequiredP3tLimit ?s1)"
      using others_required [of "p3t_during E (thm_calls s)" ?s0]
      by (auto simp: asked_in_wait_def thm_emit_def thm_call_def split: if_splits)
    then show ?thesis using 2(4) [of "u32RequiredP3tLimit ?s1"] 2(5) by (auto simp: SYS_CONFIG_MAX_P3T_LIMIT_def)
  qed
  show ?case
  proof (cases "soc_in_lp E (thm_calls s)")
    case True
    then show ?thesis using 2(1,3-5) by (simp add: limits_ok_def thm_call_def)
  next
    case False
    then show ?thesis using 2(2) [OF False refl refl _ ok 2(4) req] ok by (simp add: Let_def limits_ok_def)
  qed
qed simp

lemma work_limits:
  assumes "limits_ok A s" "\<And>w. asked_in_wait E w \<Longrightarrow> A w"
  shows "limits_ok A (THL_eventCallback E s)"
proof -
  define t where "t = s\<lparr>thermal_work := False\<rparr>"
  define u where "u = (if u32RequiredP3tLimit t > SYS_CONFIG_MAX_P3T_LIMIT then t\<lparr>u32RequiredP3tLimit := SYS_CONFIG_MAX_P3T_LIMIT\<rparr> else t)"
  have "limits_ok A t" using assms by (simp add: t_def limits.obs_simps)
  moreover from this have "limits_ok A u" "u32RequiredP3tLimit u \<le> SYS_CONFIG_MAX_P3T_LIMIT" by (auto simp: u_def limits.obs_simps)
  ultimately show ?thesis using assms retry_limits [of A u E]
    by (simp add: THL_eventCallback_def applyP3tSetting_def flip: t_def u_def)
qed

lemma monitor_limits: "limits_ok A (app_thermal_hotBagMonitorTemp E t q0 q1 s) = limits_ok A s"
  by (simp add: app_thermal_hotBagMonitorTemp_def thm_emit_def limits_ok_def Let_def)

lemma do_limits:
  "thm_do hb p x s = Inr s' \<Longrightarrow> limits_ok A s \<Longrightarrow> (\<And>E w. x = Work E \<Longrightarrow> asked_in_wait E w \<Longrightarrow> A w) \<Longrightarrow> limits_ok A s'"
  by (cases x) (auto simp: thm_do_def limits.obs_requests work_limits monitor_limits dest!: limits.obs_round split: if_splits)

text \<open>
  C32. A P3T limit above the maximum is sent only if it was asked for during the mailbox call of an
  earlier attempt: whatever limits are asked for, in whatever order requests, runs of the work
  item, rounds and resets come, and whatever other threads do to the limit while a mailbox call
  sleeps, each limit sent to the processor is at most the maximum, or another thread asked for it
  (directly, or for the configured limit) while a call of one of the runs of the work item slept.
  So without such an interference no limit above the maximum is sent; with it one is, see
  \<open>p3t_asked_in_wait_sent\<close>.
\<close>

theorem p3t_never_above_max:
  assumes "thm_run hb p xs s = Inr s'" "thm_evs s = []" "P3t_write w \<in> set (thm_evs s')"
  shows "w \<le> SYS_CONFIG_MAX_P3T_LIMIT \<or>
     (\<exists>E n. Work E \<in> set xs \<and> (P3t_update w \<in> set (p3t_during E n) \<or>
        P3t_update 0xFFFFFFFF \<in> set (p3t_during E n) \<and> (\<exists>c :: u8. w = 1000 * ucast c)))"
proof -
  define A where "A w \<longleftrightarrow> (\<exists>E. Work E \<in> set xs \<and> asked_in_wait E w)" for w
  have A: "Work E \<in> set xs \<Longrightarrow> asked_in_wait E w \<Longrightarrow> A w" for E w by (auto simp: A_def)
  have "limits_ok A s'" if "thm_run hb p ys t = Inr s'" "limits_ok A t" "set ys \<subseteq> set xs" for ys t
    using that
  proof (induction ys arbitrary: t)
    case (Cons y ys)
    then obtain u where u: "thm_do hb p y t = Inr u" "thm_run hb p ys u = Inr s'" by (auto split: sum.splits)
    have "limits_ok A u" using Cons.prems(2,3) by (intro do_limits [OF u(1)]) (auto intro: A)
    then show ?case using Cons.IH [OF u(2)] Cons.prems(3) by simp
  qed simp
  moreover have "limits_ok A s" using assms(2) by (simp add: limits_ok_def)
  ultimately have "limits_ok A s'" using assms(1) by blast
  then show ?thesis using assms(3) unfolding limits_ok_def A_def asked_in_wait_def by blast
qed

text \<open>
  A limit asked for while the mailbox call of the first attempt sleeps is sent by the second
  attempt as it is, above the maximum too, unless the processor happened to answer with it.
\<close>

lemma p3t_asked_in_wait_sent:
  assumes "thermal_work s" "\<not> host_notify_off E" "p3tLimitEn_DC E \<or> p3tLimitEn_AC E" "\<forall>n. \<not> soc_in_lp E n"
    and "first = min (u32RequiredP3tLimit s) SYS_CONFIG_MAX_P3T_LIMIT" "first \<noteq> u32AppliedP3tLimit s"
    and "p3t_during E (thm_calls s) = [P3t_update w]" "w \<noteq> 0xFFFFFFFF" "p3t_reply E (thm_calls s) first \<noteq> w"
  shows "thm_evs (THL_eventCallback E s) = thm_evs s @ [P3t_write first, P3t_write w]"
proof -
  have two: "p3t_retry E 2 t = p3t_retry E (Suc (Suc 0)) t" for t by (simp only: numeral_2_eq_2)
  have one: "p3t_others [x] t = p3t_other x t" for x t by (simp add: p3t_others_def)
  define t where "t = s\<lparr>thermal_work := False, u32RequiredP3tLimit := first\<rparr>"
  have clamp: "(if u32RequiredP3tLimit s > SYS_CONFIG_MAX_P3T_LIMIT
      then s\<lparr>thermal_work := False, u32RequiredP3tLimit := SYS_CONFIG_MAX_P3T_LIMIT\<rparr> else s\<lparr>thermal_work := False\<rparr>) = t"
    unfolding t_def assms(5) by (cases "u32RequiredP3tLimit s > SYS_CONFIG_MAX_P3T_LIMIT") (simp_all add: min_def)
  have "applyP3tSetting E (s\<lparr>thermal_work := False\<rparr>) = p3t_retry E 2 t"
    using assms(2,3,6) clamp by (simp add: applyP3tSetting_def Let_def) (simp add: t_def, blast)
  then have "THL_eventCallback E s = p3t_retry E (Suc (Suc 0)) t" using assms(1) by (simp add: THL_eventCallback_def two)
  then show ?thesis using assms(4,7-9)
    by (simp add: t_def Let_def one p3t_other_def app_thermal_updateP3tSetting_def thm_emit_def thm_call_def)
qed

section \<open>Hot bag\<close>

lemma monitor_shutdowns:
  "shutdowns (app_thermal_hotBagMonitorTemp E t q0 q1 s) = shutdowns s +
     of_bool (app_thermal_hotBagCheck E \<and> critical_zone E \<and> heartbeat_expired E \<and> 50 < max (max t q0) q1)"
  by (auto simp: app_thermal_hotBagMonitorTemp_def shutdowns_def thm_emit_def Let_def)

text \<open>
  C33. When a round of the thermal task shuts the system down: the number of shutdowns a round asks
  for is one exactly if the hot bag protection is compiled in and enabled, the lid is closed, there
  is no power source and no fake battery, the system is in S0 and the delay of the mailbox is over,
  the power sequence is in its critical zone, the heartbeat of the host has expired, and the
  highest of the three skin sensors is above 50 units, which are units of 1/256 degree; otherwise
  none. So outside the critical zone no temperature ever does, however long it lasts: the count of
  overheated rounds starts again in each round.
\<close>

theorem hot_bag_shutdown_iff:
  assumes "thermal_round hb p E s = Inr s'"
  shows "shutdowns s' = shutdowns s + of_bool (hb \<and> thm_pwr E = SYSTEM_S0_STATE \<and> \<not> apmlDelayCnt s < APML_MB_DELAY_MS div p \<and>
     app_thermal_hotBagCheck E \<and> critical_zone E \<and> heartbeat_expired E \<and> 50 < max (max (tmp432 E 0) (tmp432 E 1)) (tmp432 E 2))"
proof -
  from downs.obs_round [OF assms] obtain t where "shutdowns t = shutdowns s"
    "shutdowns s' = shutdowns (if hb \<and> thm_pwr E = SYSTEM_S0_STATE \<and> \<not> apmlDelayCnt s < APML_MB_DELAY_MS div p
      then app_thermal_hotBagMonitorTemp E (tmp432 E 0) (tmp432 E 1) (tmp432 E 2) t else t)" by blast
  then show ?thesis by (simp only: monitor_shutdowns split: if_splits) auto
qed

section \<open>Examples\<close>

definition demo_temps :: "u16 \<Rightarrow> temps" where
  "demo_temps v = \<lparr>dieTmp = v, pcbTmp = v, pcbTmpQ1 = v, pcbTmpQ2 = v, evalSensor = v\<rparr>"

definition demo_thermal :: thermal where
  "demo_thermal = \<lparr>u32AppliedP3tLimit = 0, u32RequiredP3tLimit = 0, p3tConfigLimit = 0xFF, thermal_work = False, apmlDelayCnt = 3,
     apmlErrCnt = 0, now_temps = demo_temps 0x2AF0, a_temps = demo_temps 0, b_temps = demo_temps 0, highestSkinTemp = 0,
     is_polling_started = False, lastPwrSt = SYSTEM_S0_STATE, thm_calls = 0, thm_evs = []\<rparr>"

definition demo_thermal_env :: thm_env where
  "demo_thermal_env = \<lparr>host_notify_off = False, p3tLimitEn_DC = True, p3tLimitEn_AC = True, uploadOnboardTemp = False, uploadEvalCardTemp = False,
     soc_in_lp = (\<lambda>n. False), p3t_reply = (\<lambda>n w. w), p3t_during = (\<lambda>n. []), tmp432 = (\<lambda>n. 0x0110), sbtsi = 0x3180, stt_ok = (\<lambda>n. True), i2c_ret = (\<lambda>n. 0),
     i2c_data = (\<lambda>n. []), hot_bag_on = True, lid_closed = True, ac_source = False, fake_battery = False, critical_zone = True,
     heartbeat_expired = True, thm_pwr = SYSTEM_S0_STATE\<rparr>"

lemmas demo_thermal_defs = demo_thermal_def demo_thermal_env_def demo_temps_def thm_emit_def thm_call_def

lemma temperature_reads_consistent_witness:
  "\<exists>r hi s1 s2 r' lo s3. board_thermal_AcpiHandler True (of_nat (2 * 0 + 1)) 0 demo_thermal = (r, hi, s1) \<and>
     thm_run True 800 [Round demo_thermal_env, Update 5000, Apu_reset] s1 = Inr s2 \<and>
     board_thermal_AcpiHandler True (of_nat (2 * 0)) 0 s2 = (r', lo, s3) \<and>
     r = 1 \<and> r' = 1 \<and> push_bit 8 (ucast hi) OR ucast lo = temp_no 0 (now_temps demo_thermal)"
proof -
  obtain r hi s1 where 1: "board_thermal_AcpiHandler True (of_nat (2 * 0 + 1)) 0 demo_thermal = (r, hi, s1)" using prod_cases3 by blast
  have "\<exists>s2. thm_run True 800 [Round demo_thermal_env, Update 5000, Apu_reset] s1 = Inr s2"
    by (simp add: thm_do_def demo_thermal_env_def thermal_round_def Let_def)
  then obtain s2 where 2: "thm_run True 800 [Round demo_thermal_env, Update 5000, Apu_reset] s1 = Inr s2" by blast
  obtain r' lo s3 where 3: "board_thermal_AcpiHandler True (of_nat (2 * 0)) 0 s2 = (r', lo, s3)" using prod_cases3 by blast
  have "0 < (5 :: nat)" by simp
  from temperature_reads_consistent [OF this 1 2 3] 1 2 3 show ?thesis by blast
qed

lemma p3t_never_above_max_witness:
  "\<exists>s' w. thm_run True 800 [Update 500000, Work demo_thermal_env] demo_thermal = Inr s' \<and> P3t_write w \<in> set (thm_evs s') \<and>
     w \<le> SYS_CONFIG_MAX_P3T_LIMIT"
proof -
  define s' where "s' = THL_eventCallback demo_thermal_env (app_thermal_updateP3tSetting 500000 demo_thermal)"
  have 1: "thm_run True 800 [Update 500000, Work demo_thermal_env] demo_thermal = Inr s'" by (simp add: thm_do_def s'_def)
  have two: "p3t_retry E 2 t = p3t_retry E (Suc (Suc 0)) t" for E t by (simp only: numeral_2_eq_2)
  have 2: "P3t_write 216000 \<in> set (thm_evs s')"
    by (simp add: s'_def THL_eventCallback_def app_thermal_updateP3tSetting_def applyP3tSetting_def demo_thermal_defs SYS_CONFIG_MAX_P3T_LIMIT_def
      two Let_def
      p3t_others_def)
  show ?thesis using p3t_never_above_max [OF 1 _ 2] 1 2 by (auto simp: demo_thermal_def demo_thermal_env_def)
qed

text \<open>At 1.06 degrees.\<close>

lemma hot_bag_shutdown_iff_witness:
  "\<exists>s'. thermal_round True 800 demo_thermal_env demo_thermal = Inr s' \<and> shutdowns s' = 1"
proof -
  have "\<exists>s'. thermal_round True 800 demo_thermal_env demo_thermal = Inr s'"
    by (simp add: demo_thermal_env_def thermal_round_def Let_def)
  then obtain s' where s': "thermal_round True 800 demo_thermal_env demo_thermal = Inr s'" by blast
  show ?thesis using hot_bag_shutdown_iff [OF s'] s'
    by (simp add: demo_thermal_def demo_thermal_env_def APML_MB_DELAY_MS_def app_thermal_hotBagCheck_def shutdowns_def)
qed

end
