(* ===== verification/Fan.thy ===== *)
theory Fan
  imports Prelude
begin

text \<open>
  Fan control: the speed tables and the control algorithms of
  \<open>src/app/fanctrl/app_fanRpmCtrl.c\<close>, over the types of \<open>board_fanRpmCtrl.h\<close>. The control mode
  (\<open>FAN_CTRL_MODE\<close>) is chosen at compile time and is a parameter; the union of the control
  profiles is a datatype, of the constructor the mode compiles. The C type \<open>int\<close> of the PID state is a word of 32 bits read as signed;
  other intermediate values of type \<open>int\<close> (speeds and temperatures of 16 bits and their products in a table) are integers.
\<close>

section \<open>Data\<close>

text \<open>A table entry: \<open>temp\<close> and \<open>hysteresis\<close> of a lined table, \<open>up_temp\<close> and \<open>down_temp\<close> of a stepwise one.\<close>

record tbi =
  temp_1 :: u8
  temp_2 :: u8
  tb_speed :: u16

record profile_table =
  spike_temp :: u8
  tb_type :: u8
  tb_item :: "tbi list"

record pid =
  started :: bool
  target :: u32
  actual :: u32
  out :: u32
  pre_err :: u32
  ppre_err :: u32
  inter_err :: u32
  k_multi :: u32
  kp :: u32
  ki :: u32
  kd :: u32
  tolerant_err :: u32
  ajust_cnt :: u32

datatype ctrl_profile =
    Mal_offset u8 "(int \<times> int) list" \<comment> \<open>length, tolerance and offset\<close>
  | Mal_curve u8 u8 "(u16 \<times> u16) list" \<comment> \<open>scale, length, set speed and expected speed\<close>
  | Pid_curve pid
  | Ramp_rate u16 "(u16 \<times> u16) list" "(u16 \<times> u16) list" \<comment> \<open>\<open>min_start_pwm\<close>, \<open>up\<close> and \<open>down\<close>: rpm and pwm\<close>

datatype fan_type = FAN_RPM_PWM | FAN_PWM | FAN_PWM_TACH

record fan_dev =
  logicId :: u8
  pwmChannel :: u8
  tachChannel :: u8
  ftype :: fan_type
  isInit :: bool
  isDisable :: bool
  tb_select :: u8
  pTable :: "profile_table list list" \<comment> \<open>by mode and kind of temperature\<close>
  miniSpeed :: u16
  maxSpeed :: u16
  resolution :: u16
  ctrl_type :: u8
  pCtrl_profile :: ctrl_profile
  overrideTemp :: u8
  overrideTargetSpeed :: u16
  overridePercentage :: u8
  reportInputTemp :: u16
  reportSpeed :: u32
  reporCalculatedSpeed :: u16
  reportRealRpm :: u16
  pwm_value :: u16

definition FAN_CTRL_SPEED_TABLE_ITEM_NUM :: nat where "FAN_CTRL_SPEED_TABLE_ITEM_NUM = 10"
definition FAN_RPM_NO_CONTROL :: u8 where "FAN_RPM_NO_CONTROL = 0"
definition FAN_RPM_MANUAL_WITH_OFFSET_CONTROL :: u8 where "FAN_RPM_MANUAL_WITH_OFFSET_CONTROL = 1"
definition FAN_RPM_MANUAL_WITH_CURVE_MAP_CONTROL :: u8 where "FAN_RPM_MANUAL_WITH_CURVE_MAP_CONTROL = 2"
definition FAN_RPM_PID_DISCRETIZE_CONTROL :: u8 where "FAN_RPM_PID_DISCRETIZE_CONTROL = 3"
definition FAN_RPM_PID_INCREMENTAL_CONTROL :: u8 where "FAN_RPM_PID_INCREMENTAL_CONTROL = 4"
definition FAN_RPM_RAMP_RATE_CONTROL :: u8 where "FAN_RPM_RAMP_RATE_CONTROL = 5"
definition FAN_RPM_MAX_SPEED_SUPPORT_CONTROL_MSK :: u8 where "FAN_RPM_MAX_SPEED_SUPPORT_CONTROL_MSK = 0x0F"
definition FAN_TEMP_TYPE_NUMBER :: nat where "FAN_TEMP_TYPE_NUMBER = 2"
definition FAN_SPEED_TABLE_MODE_NUM :: u8 where "FAN_SPEED_TABLE_MODE_NUM = 3"

section \<open>Speed tables\<close>

text \<open>Division of C: towards zero.\<close>

definition cdiv :: "int \<Rightarrow> int \<Rightarrow> int" where
  "cdiv a b = sgn a * sgn b * (\<bar>a\<bar> div \<bar>b\<bar>)"

text \<open>
  A lined table: between two entries the speed is interpolated. The last temperature is kept until
  the temperature falls by more than the hysteresis; it is stored in 8 bits.
\<close>

definition line_hys :: "u8 \<Rightarrow> u16 \<Rightarrow> u8 \<Rightarrow> u16 \<times> u8" where
  "line_hys threshold temp hys =
     (if temp > ucast hys then (temp, ucast temp)
      else if temp < ucast hys then
        (if ucast hys - temp > ucast threshold then (temp, ucast temp) else (ucast hys, hys))
      else (temp, hys))"

definition between :: "tbi list \<Rightarrow> u16 \<Rightarrow> nat \<Rightarrow> bool" where
  "between p temp i \<longleftrightarrow> ucast (temp_1 (p ! i)) \<le> temp \<and> temp < ucast (temp_1 (p ! (i + 1)))"

definition interpolate :: "tbi \<Rightarrow> tbi \<Rightarrow> u16 \<Rightarrow> u16" where
  "interpolate a b temp =
     (let tempLow = uint (temp_1 a); tempHigh = uint (temp_1 b); speedLow = uint (tb_speed a); speedHigh = uint (tb_speed b)
      in word_of_int (speedLow + cdiv ((speedHigh - speedLow) * (uint temp - tempLow)) (tempHigh - tempLow)))"

definition app_fan_ctrl_line_speed :: "tbi list \<Rightarrow> nat \<Rightarrow> u16 \<Rightarrow> u8 \<Rightarrow> u16 \<times> u8" where
  "app_fan_ctrl_line_speed p sz temp hys =
     (let last_idx = sz - 1; (t, hys') = line_hys (temp_2 (p ! 0)) temp hys in
      (if t < ucast (temp_1 (p ! 0)) then 0
       else if t \<ge> ucast (temp_1 (p ! last_idx)) then tb_speed (p ! last_idx)
       else (case find (between p t) [0 ..< last_idx] of
               Some i \<Rightarrow> interpolate (p ! i) (p ! (i + 1)) t
             | None \<Rightarrow> tb_speed (p ! last_idx)), hys'))"

text \<open>
  A stepwise table: a step is entered at its upper temperature and left at its lower one. The
  stored temperature is the upper temperature of the current step, or 0. \<open>step_up\<close> looks for the
  step in the \<open>n\<close> entries above \<open>fd\<close>.
\<close>

definition up_temp :: "tbi list \<Rightarrow> nat \<Rightarrow> u16" where "up_temp p i = ucast (temp_1 (p ! i))"
definition down_temp :: "tbi list \<Rightarrow> nat \<Rightarrow> u16" where "down_temp p i = ucast (temp_2 (p ! i))"

fun step_up :: "tbi list \<Rightarrow> u16 \<Rightarrow> nat \<Rightarrow> nat \<Rightarrow> nat" where
  "step_up p temp 0 fd = fd"
| "step_up p temp (Suc n) fd = (if temp < up_temp p (fd + 1) then fd else step_up p temp n (fd + 1))"

fun step_down :: "tbi list \<Rightarrow> u16 \<Rightarrow> nat \<Rightarrow> nat" where
  "step_down p temp 0 = 0"
| "step_down p temp (Suc fd) = (if temp \<le> down_temp p (Suc fd) then step_down p temp fd else Suc fd)"

definition at_step :: "tbi list \<Rightarrow> nat \<Rightarrow> u16 \<times> u8" where
  "at_step p fd = (tb_speed (p ! fd), temp_1 (p ! fd))"

definition app_fan_ctrl_stepwise_speed :: "tbi list \<Rightarrow> nat \<Rightarrow> u16 \<Rightarrow> u8 \<Rightarrow> u16 \<times> u8" where
  "app_fan_ctrl_stepwise_speed p sz temp hys =
     (let last_idx = sz - 1 in
      if temp \<le> down_temp p 0 then (0, 0)
      else if temp \<ge> up_temp p last_idx then at_step p last_idx
      else
        (case find (\<lambda>i. hys = temp_1 (p ! i)) [0 ..< sz] of
           None \<Rightarrow>
             (let fd = (case find (\<lambda>i. temp < up_temp p i) [0 ..< sz] of Some i \<Rightarrow> i | None \<Rightarrow> sz)
              in if fd = 0 then (0, 0) else at_step p (fd - 1))
         | Some fd \<Rightarrow>
             (let tempLow = down_temp p fd; tempHigh = (if fd < last_idx then up_temp p (fd + 1) else 0xFFFF) in
              if tempLow < temp \<and> temp < tempHigh then (tb_speed (p ! fd), hys)
              else if temp \<ge> tempHigh then at_step p (step_up p temp (last_idx - fd) fd)
              else at_step p (step_down p temp fd))))"

text \<open>The entries before the sentinel. The type is passed as a truth value, so any but 0 is stepwise.\<close>

definition table_size :: "tbi list \<Rightarrow> nat" where
  "table_size p = length (takeWhile (\<lambda>e. temp_1 e \<noteq> 0) (take FAN_CTRL_SPEED_TABLE_ITEM_NUM p))"

definition app_fan_ctrl_target_speed_calculate :: "tbi list \<Rightarrow> u8 \<Rightarrow> u16 \<Rightarrow> bool \<Rightarrow> u16 \<times> u8" where
  "app_fan_ctrl_target_speed_calculate p hys temp stepwise =
     (let sz = table_size p in
      if sz = 0 then (0, hys)
      else if \<not> stepwise then app_fan_ctrl_line_speed p sz temp hys
      else app_fan_ctrl_stepwise_speed p sz temp hys)"

section \<open>Control algorithms\<close>

definition s32 :: "u32 \<Rightarrow> int" where "s32 w = sint w"

definition fan_abs :: "u16 \<Rightarrow> u16 \<Rightarrow> int" where
  "fan_abs a b = \<bar>uint a - uint b\<bar>"

text \<open>The absolute value, divided as an unsigned number.\<close>

definition udiv_abs :: "u32 \<Rightarrow> u32 \<Rightarrow> u32 res" where
  "udiv_abs v k = (if k = 0 then Inl Div_by_zero else Inr ((if s32 v < 0 then - v else v) div k))"

definition app_fan_ctrl_data_flush :: "u8 \<Rightarrow> fan_dev \<Rightarrow> fan_dev" where
  "app_fan_ctrl_data_flush mode d =
     (if mode \<in> {FAN_RPM_PID_INCREMENTAL_CONTROL, FAN_RPM_PID_DISCRETIZE_CONTROL} \<and>
         ctrl_type d \<in> {FAN_RPM_PID_INCREMENTAL_CONTROL, FAN_RPM_PID_DISCRETIZE_CONTROL}
      then (case pCtrl_profile d of
              Pid_curve p \<Rightarrow> d\<lparr>pCtrl_profile := Pid_curve (p\<lparr>target := 0, actual := 0, out := 0, pre_err := 0, ppre_err := 0,
                inter_err := 0, ajust_cnt := 0, started := False\<rparr>)\<rparr>
            | _ \<Rightarrow> d)
      else d)"

text \<open>The loop over the offsets, from the last one down.\<close>

fun offset_loop :: "(int \<times> int) list \<Rightarrow> int \<Rightarrow> int \<Rightarrow> nat \<Rightarrow> int \<Rightarrow> int res" where
  "offset_loop l inp tgt i cal =
     (case ld l i of
        Inl e \<Rightarrow> Inl e
      | Inr (tol, off) \<Rightarrow>
          (let cal' = (if inp > tgt + tol then tgt - off else if inp < tgt - tol then tgt + off else cal)
           in case i of 0 \<Rightarrow> Inr cal' | Suc j \<Rightarrow> if cal' = 0 then offset_loop l inp tgt j cal' else Inr cal'))"

declare offset_loop.simps [simp del]

definition offset_control :: "u8 \<Rightarrow> (int \<times> int) list \<Rightarrow> u16 \<Rightarrow> u16 \<Rightarrow> (bool \<times> int) res" where
  "offset_control len l inputRpm targetRpm =
     (case ld l 0 of
        Inl e \<Rightarrow> Inl e
      | Inr (tol, off) \<Rightarrow>
          if fan_abs inputRpm targetRpm \<le> tol \<or> uint targetRpm \<le> tol * 2 then Inr (True, uint targetRpm)
          else map_sum id (Pair False) (offset_loop l (uint inputRpm) (uint targetRpm) (unat (len - 1)) 0))"

text \<open>The number of entries of a curve map; the entry is read before its index is compared.\<close>

fun curve_size :: "(u16 \<times> u16) list \<Rightarrow> nat \<Rightarrow> nat \<Rightarrow> nat res" where
  "curve_size [] len sz = Inl Out_of_bounds"
| "curve_size ((s, e) # l) len sz = (if e \<noteq> 0 \<and> sz < len then curve_size l len (Suc sz) else Inr sz)"

definition curve_between :: "u8 \<Rightarrow> (u16 \<times> u16) list \<Rightarrow> u16 \<Rightarrow> nat \<Rightarrow> bool" where
  "curve_between scale l t i \<longleftrightarrow> uint (snd (l ! i)) * uint scale \<le> uint t \<and> uint t < uint (snd (l ! (i + 1))) * uint scale"

text \<open>The first pair that contains the target and whose lower speed is not 0, and the index where the search ended.\<close>

fun curve_search :: "u8 \<Rightarrow> (u16 \<times> u16) list \<Rightarrow> u16 \<Rightarrow> nat \<Rightarrow> nat \<Rightarrow> nat option \<times> nat" where
  "curve_search scale l t 0 i = (None, i)"
| "curve_search scale l t (Suc n) i =
     (if curve_between scale l t i \<and> (ucast (snd (l ! i)) * ucast scale :: u16) \<noteq> 0 then (Some i, i + 1)
      else curve_search scale l t n (i + 1))"

definition curve_control :: "u8 \<Rightarrow> u8 \<Rightarrow> (u16 \<times> u16) list \<Rightarrow> u16 \<Rightarrow> u16 \<Rightarrow> int res" where
  "curve_control scale len l maxSp targetRpm =
     (case curve_size l (unat len) 0 of
        Inl e \<Rightarrow> Inl e
      | Inr sz \<Rightarrow>
          (let sc = (\<lambda>w. ucast w * ucast scale :: u16); (r, i) = curve_search scale l targetRpm (sz - 1) 0 in
           case r of
             None \<Rightarrow>
               (case ld l i of
                  Inl e \<Rightarrow> Inl e
                | Inr (s, e) \<Rightarrow>
                    Inr (if (uint e * uint scale \<le> uint targetRpm \<and> targetRpm \<le> maxSp) \<or>
                            uint targetRpm < uint (snd (l ! 0)) * uint scale then uint targetRpm else 0))
           | Some k \<Rightarrow>
               (let el = uint (sc (snd (l ! k))); eh = uint (sc (snd (l ! (k + 1)))); tl = uint (sc (fst (l ! k))); th = uint (sc (fst (l ! (k + 1))))
                in if eh - el = 0 then Inl Div_by_zero else Inr (cdiv ((th - tl) * (uint targetRpm - el)) (eh - el) + tl))))"

definition pid_start :: "u16 \<Rightarrow> u16 \<Rightarrow> pid \<Rightarrow> pid" where
  "pid_start targetRpm inputRpm p =
     p\<lparr>ajust_cnt := (if fan_abs targetRpm inputRpm \<le> s32 (tolerant_err p) then 0 else ajust_cnt p + 1),
       target := ucast targetRpm, actual := ucast inputRpm\<rparr>"

text \<open>A negative value is negated before it was divided.\<close>

definition pid_discretize :: "u16 \<Rightarrow> u16 \<Rightarrow> u16 \<Rightarrow> u16 \<Rightarrow> pid \<Rightarrow> (u32 \<times> pid) res" where
  "pid_discretize maxSp miniSp targetRpm inputRpm p0 =
     (let p = pid_start targetRpm inputRpm p0;
          err = target p - actual p; preErr = err - pre_err p; inter = inter_err p + err;
          calVal = kp p * err + ki p * inter + kd p * preErr
      in case udiv_abs calVal (k_multi p) of
           Inl e \<Rightarrow> Inl e
         | Inr q \<Rightarrow>
             (let calOut = (if s32 calVal < 0 then - calVal else q);
                  limited = (s32 (ki p) > 0 \<and> (s32 calOut \<ge> uint maxSp \<or> s32 calOut \<le> uint miniSp));
                  inter' = (if limited then word_of_int (cdiv (s32 (calVal - kp p * err - kd p * preErr)) (s32 (ki p))) - err else inter)
              in Inr (calOut, p\<lparr>inter_err := inter', pre_err := err, out := calOut\<rparr>)))"

definition pid_incremental :: "u16 \<Rightarrow> u16 \<Rightarrow> u16 \<Rightarrow> pid \<Rightarrow> (u32 \<times> pid) res" where
  "pid_incremental res targetRpm inputRpm p0 =
     (let p = pid_start targetRpm inputRpm p0; shift = res div 100; err = target p - actual p in
      if \<not> started p
      then (let o1 = ucast shift * 20 in Inr (o1, p\<lparr>pre_err := err, ppre_err := err, out := o1, started := True\<rparr>))
      else
        (let calVal = kp p * (err - pre_err p) + ki p * err + kd p * (err + ppre_err p - 2 * pre_err p) in
         case udiv_abs calVal (k_multi p) of
           Inl e \<Rightarrow> Inl e
         | Inr q \<Rightarrow>
             (let o1 = out p + (if s32 calVal < 0 then - q else q);
                  o2 = (if s32 o1 < uint shift * 10 then ucast shift * 10 else if s32 o1 > uint shift * 100 then ucast shift * 100 else o1)
              in Inr (o2, p\<lparr>ppre_err := pre_err p, pre_err := err, out := o2\<rparr>))))"

text \<open>The first entry of a ramp table the difference reaches, up to the sentinel.\<close>

fun ramp_find :: "(u16 \<times> u16) list \<Rightarrow> u16 \<Rightarrow> u16 option res" where
  "ramp_find [] delta = Inl Out_of_bounds"
| "ramp_find ((rpm, pwm) # l) delta =
     (if rpm = 0 then Inr None else if delta \<ge> rpm then Inr (Some pwm) else ramp_find l delta)"

definition ramp_control :: "u16 \<Rightarrow> (u16 \<times> u16) list \<Rightarrow> (u16 \<times> u16) list \<Rightarrow> u16 \<Rightarrow> u16 \<Rightarrow> u16 \<Rightarrow> int res" where
  "ramp_control min_start up down pwm_old targetRpm inputRpm =
     (if pwm_old = 0 \<and> targetRpm \<noteq> 0 then Inr (uint min_start)
      else if targetRpm > inputRpm then
        (case ramp_find up (targetRpm - inputRpm) of
           Inl e \<Rightarrow> Inl e
         | Inr r \<Rightarrow> Inr (uint pwm_old + (case r of None \<Rightarrow> 0 | Some w \<Rightarrow> uint w)))
      else
        (case ramp_find down (inputRpm - targetRpm) of
           Inl e \<Rightarrow> Inl e
         | Inr r \<Rightarrow>
             (let cal = (case r of None \<Rightarrow> uint pwm_old | Some w \<Rightarrow> if pwm_old > w then uint pwm_old - uint w else 0)
              in Inr (if cal < uint min_start then (if targetRpm = 0 then 0 else uint min_start) else cal))))"

definition clamp_speed :: "u16 \<Rightarrow> u16 \<Rightarrow> int \<Rightarrow> int" where
  "clamp_speed maxSp miniSp cal = (if cal > uint maxSp then uint maxSp else if cal < uint miniSp then uint miniSp else cal)"

text \<open>
  The output of the algorithm. Only the algorithm of the mode is compiled, and it runs if the
  device has that type; the speed is clamped unless the algorithm returns itself.
\<close>

definition app_fan_ctrl_rpmDataCalculate :: "u8 \<Rightarrow> u16 \<Rightarrow> fan_dev \<Rightarrow> (int \<times> fan_dev) res" where
  "app_fan_ctrl_rpmDataCalculate mode inputRpm d =
     (let targetRpm = (ucast (reportSpeed d) :: u16); type = ctrl_type d; clamp = clamp_speed (maxSpeed d) (miniSpeed d) in
      if type \<noteq> FAN_RPM_RAMP_RATE_CONTROL \<and> targetRpm = 0 then Inr (0, app_fan_ctrl_data_flush mode d)
      else if type = FAN_RPM_PID_INCREMENTAL_CONTROL \<and> overridePercentage d > 0 then Inr (uint targetRpm, d)
      else if mode \<in> {FAN_RPM_NO_CONTROL, FAN_RPM_MANUAL_WITH_OFFSET_CONTROL} \<and> type = FAN_RPM_NO_CONTROL then
        Inr (clamp (uint targetRpm), d)
      else if mode = type then
        (case pCtrl_profile d of
           Mal_offset len l \<Rightarrow> map_sum id (\<lambda>(final, v). (if final then v else clamp v, d)) (offset_control len l inputRpm targetRpm)
         | Mal_curve scale len l \<Rightarrow> map_sum id (\<lambda>v. (clamp v, d)) (curve_control scale len l (maxSpeed d) targetRpm)
         | Pid_curve p \<Rightarrow>
             (if type = FAN_RPM_PID_DISCRETIZE_CONTROL
              then map_sum id (\<lambda>(v, p'). (clamp (s32 v), d\<lparr>pCtrl_profile := Pid_curve p'\<rparr>)) (pid_discretize (maxSpeed d) (miniSpeed d) targetRpm inputRpm p)
              else map_sum id (\<lambda>(v, p'). (s32 v, d\<lparr>pCtrl_profile := Pid_curve p'\<rparr>)) (pid_incremental (resolution d) targetRpm inputRpm p))
         | Ramp_rate m up down \<Rightarrow> map_sum id (\<lambda>v. (v, d)) (ramp_control m up down (pwm_value d) targetRpm inputRpm))
      else if mode = FAN_RPM_NO_CONTROL \<and> type = FAN_RPM_MANUAL_WITH_OFFSET_CONTROL then
        (case pCtrl_profile d of
           Mal_offset len l \<Rightarrow> map_sum id (\<lambda>(final, v). (if final then v else clamp v, d)) (offset_control len l inputRpm targetRpm)
         | _ \<Rightarrow> Inr (clamp 0, d))
      else Inr (clamp 0, d))"

end
