(* ===== verification/Fan_task.thy ===== *)
theory Fan_task
  imports Fan
begin

text \<open>
  The fan devices and their task: the rest of \<open>src/app/fanctrl/app_fanRpmCtrl.c\<close>, and the
  registration of the devices in \<open>board_fanRpmCtrl.c\<close>. The board's functions for temperatures
  and tachometers are inputs; the speeds set and the power switched are recorded in order. Every
  board gives all of its functions, so the tests for missing ones are left out. The two debug
  structures are packed and are kept as their bytes.
\<close>

section \<open>State\<close>

datatype fan_ev = Set_speed u8 u16 | Power_on u8 | Power_off u8

record fanctl =
  devs :: "fan_dev list"
  sys_dbg :: "u8 list"
  tb_dbg :: "u8 list"
  g_fan_ctrl_enabled :: bool
  on_off_flag :: bool
  updated_cnt :: u32
  tach_reads :: nat
  fan_evs :: "fan_ev list"

text \<open>\<open>read_temp\<close>: by device and kind of temperature; \<open>tach\<close>: by channel and number of the reading.\<close>

record fan_env =
  read_temp :: "u8 \<Rightarrow> nat \<Rightarrow> int"
  tach :: "u8 \<Rightarrow> nat \<Rightarrow> int"

definition FAN_DBG_PWM_DIS :: u8 where "FAN_DBG_PWM_DIS = 0xFF"
definition FAN_DBG_TEMP_DIS :: u8 where "FAN_DBG_TEMP_DIS = 0xFF"
definition FAN_DBG_PID_FLAG_DUMP :: u8 where "FAN_DBG_PID_FLAG_DUMP = 0"
definition FAN_DBG_PID_FLAG_SET_DONE :: u8 where "FAN_DBG_PID_FLAG_SET_DONE = 2"

text \<open>Offsets in the two structures.\<close>

definition pwm_w :: "fanctl \<Rightarrow> u8" where "pwm_w s = sys_dbg s ! 0"
definition temp_w :: "fanctl \<Rightarrow> u8" where "temp_w s = sys_dbg s ! 1"
definition table_rw :: "fanctl \<Rightarrow> u8" where "table_rw s = sys_dbg s ! 3"
definition pid_flag :: "fanctl \<Rightarrow> u8" where "pid_flag s = sys_dbg s ! 0x10"
definition pid_sel :: "fanctl \<Rightarrow> u8" where "pid_sel s = sys_dbg s ! 0x11"
definition table_flag :: "fanctl \<Rightarrow> u8" where "table_flag s = tb_dbg s ! 0"
definition dev_sel :: "fanctl \<Rightarrow> u8" where "dev_sel s = tb_dbg s ! 1"
definition active_mode :: "fanctl \<Rightarrow> u8" where "active_mode s = tb_dbg s ! 2"
definition active_temp :: "fanctl \<Rightarrow> u8" where "active_temp s = tb_dbg s ! 3"

definition is_pid :: "u8 \<Rightarrow> bool" where
  "is_pid t \<longleftrightarrow> t \<in> {FAN_RPM_PID_DISCRETIZE_CONTROL, FAN_RPM_PID_INCREMENTAL_CONTROL}"

text \<open>The size of the first structure and of its part for tuning.\<close>

definition sys_dbg_size :: "u8 \<Rightarrow> nat" where
  "sys_dbg_size mode = (if is_pid mode then 32 else if mode = FAN_RPM_RAMP_RATE_CONTROL then 22 else 16)"

definition tuning_size :: "u8 \<Rightarrow> nat" where
  "tuning_size mode = (if is_pid mode then 14 else 4)"

definition fan_emit :: "fan_ev \<Rightarrow> fanctl \<Rightarrow> fanctl" where
  "fan_emit e s = s\<lparr>fan_evs := fan_evs s @ [e]\<rparr>"

text \<open>A walk over the devices that are initialised and not disabled. A step may fault.\<close>

definition usable :: "fan_dev \<Rightarrow> bool" where
  "usable d \<longleftrightarrow> isInit d \<and> \<not> isDisable d"

fun walk :: "(fan_dev \<Rightarrow> fanctl \<Rightarrow> (fan_dev \<times> fanctl) res) \<Rightarrow> fan_dev list \<Rightarrow> fanctl \<Rightarrow> (fan_dev list \<times> fanctl) res" where
  "walk f [] s = Inr ([], s)"
| "walk f (d # ds) s =
     (case (if usable d then f d s else Inr (d, s)) of
        Inl e \<Rightarrow> Inl e
      | Inr (d', s1) \<Rightarrow> map_sum id (\<lambda>(ds', s2). (d' # ds', s2)) (walk f ds s1))"

definition for_devs :: "(fan_dev \<Rightarrow> fanctl \<Rightarrow> (fan_dev \<times> fanctl) res) \<Rightarrow> fanctl \<Rightarrow> fanctl res" where
  "for_devs f s = map_sum id (\<lambda>(ds, s'). s'\<lparr>devs := ds\<rparr>) (walk f (devs s) s)"

section \<open>Output\<close>

definition convert_count :: "u16 \<Rightarrow> u16 \<Rightarrow> u16 \<Rightarrow> u16" where
  "convert_count v mx rang = (if v \<ge> mx then rang else word_of_int (uint v * uint rang div uint mx))"

definition set_pwm :: "fan_dev \<Rightarrow> u16 \<Rightarrow> fanctl \<Rightarrow> fan_dev \<times> fanctl" where
  "set_pwm d speed s =
     (let v = (if speed > resolution d then resolution d else speed)
      in (d\<lparr>pwm_value := v\<rparr>, fan_emit (Set_speed (pwmChannel d) v) s))"

definition app_fan_ctrl_rpmSet :: "fan_dev \<Rightarrow> u16 \<Rightarrow> fanctl \<Rightarrow> fan_dev \<times> fanctl" where
  "app_fan_ctrl_rpmSet d targetSpeed s =
     (if ctrl_type d \<le> 3 then set_pwm d (convert_count targetSpeed (maxSpeed d) (resolution d)) s
      else if ctrl_type d \<le> 5 then set_pwm d targetSpeed s
      else (d, s))"

definition app_fan_ctrl_pwmSet :: "fan_dev \<Rightarrow> u8 \<Rightarrow> fanctl \<Rightarrow> fan_dev \<times> fanctl" where
  "app_fan_ctrl_pwmSet d targetPwm s = set_pwm d (ucast targetPwm * (resolution d div 100)) s"

fun tach_retry :: "fan_env \<Rightarrow> u8 \<Rightarrow> nat \<Rightarrow> fanctl \<Rightarrow> int \<times> fanctl" where
  "tach_retry E ch 0 s = (0, s)"
| "tach_retry E ch (Suc n) s =
     (let v = tach E ch (tach_reads s); s1 = s\<lparr>tach_reads := tach_reads s + 1\<rparr> in
      if v = 0 \<and> n > 0 then tach_retry E ch n s1 else (v, s1))"

definition app_fan_ctrl_rpmGet :: "fan_env \<Rightarrow> fan_dev \<Rightarrow> fanctl \<Rightarrow> int \<times> fanctl" where
  "app_fan_ctrl_rpmGet E d = tach_retry E (tachChannel d) (if ftype d = FAN_PWM_TACH then 3 else 1)"

section \<open>Target speed\<close>

definition app_fan_ctrl_temp_calculate :: "fan_env \<Rightarrow> fan_dev \<Rightarrow> nat \<Rightarrow> fanctl \<Rightarrow> u16" where
  "app_fan_ctrl_temp_calculate E d type s =
     (if temp_w s \<noteq> FAN_DBG_TEMP_DIS then ucast (temp_w s)
      else if overrideTemp d > 0 then ucast (overrideTemp d)
      else word_of_int (read_temp E (logicId d) type))"

text \<open>The mask of control types is compared with the number of the type.\<close>

definition app_fan_ctrl_speed_calculate :: "u16 \<Rightarrow> nat \<Rightarrow> fan_dev \<Rightarrow> (u32 \<times> fan_dev) res" where
  "app_fan_ctrl_speed_calculate inputTemp type d =
     (if overrideTargetSpeed d > 0 then Inr (ucast (overrideTargetSpeed d), d)
      else if overridePercentage d > 0 then
        Inr (if ctrl_type d AND FAN_RPM_MAX_SPEED_SUPPORT_CONTROL_MSK \<noteq> 0
             then ucast (overridePercentage d AND 0x7F) * ucast (maxSpeed d) div 100 else 0, d)
      else
        (case ld (pTable d) (unat (tb_select d)) of
           Inl e \<Rightarrow> Inl e
         | Inr row \<Rightarrow>
             (case ld row type of
                Inl e \<Rightarrow> Inl e
              | Inr pt \<Rightarrow>
                  (let (v, h) = app_fan_ctrl_target_speed_calculate (tb_item pt) (spike_temp pt) inputTemp (tb_type pt \<noteq> 0)
                   in Inr (ucast v, d\<lparr>pTable := (pTable d)[unat (tb_select d) := row[type := pt\<lparr>spike_temp := h\<rparr>]]\<rparr>)))))"

text \<open>The highest speed over the kinds of temperature, and the temperature that gave it.\<close>

fun highest :: "fan_env \<Rightarrow> nat list \<Rightarrow> u16 \<Rightarrow> u32 \<Rightarrow> fan_dev \<Rightarrow> fanctl \<Rightarrow> (u16 \<times> u32 \<times> fan_dev) res" where
  "highest E [] inputTemp targetSpeed d s = Inr (inputTemp, targetSpeed, d)"
| "highest E (i # is) inputTemp targetSpeed d s =
     (let temp = app_fan_ctrl_temp_calculate E d i s in
      case app_fan_ctrl_speed_calculate temp i d of
        Inl e \<Rightarrow> Inl e
      | Inr (speed, d1) \<Rightarrow>
          if speed \<ge> targetSpeed then highest E is temp speed d1 s else highest E is inputTemp targetSpeed d1 s)"

definition data_update_dev :: "fan_env \<Rightarrow> fan_dev \<Rightarrow> fanctl \<Rightarrow> (fan_dev \<times> fanctl) res" where
  "data_update_dev E d s =
     (case highest E [0 ..< FAN_TEMP_TYPE_NUMBER] 0 0 d s of
        Inl e \<Rightarrow> Inl e
      | Inr (t, v, d1) \<Rightarrow>
          Inr (d1\<lparr>reportInputTemp := t, reportSpeed := v\<rparr>, s\<lparr>sys_dbg := (sys_dbg s)[2 := ucast t]\<rparr>))"

definition app_fan_data_update :: "fan_env \<Rightarrow> fanctl \<Rightarrow> fanctl res" where
  "app_fan_data_update E = for_devs (data_update_dev E)"

section \<open>Control\<close>

definition app_fan_debug_sys_report_speed :: "u8 \<Rightarrow> u16 \<Rightarrow> fanctl \<Rightarrow> fanctl" where
  "app_fan_debug_sys_report_speed i speed s =
     (if 1 \<le> i \<and> i \<le> 6 then s\<lparr>sys_dbg := wr16 (2 + 2 * unat i) speed (sys_dbg s)\<rparr> else s)"

definition power_dev :: "u8 \<Rightarrow> bool \<Rightarrow> fan_dev \<Rightarrow> fanctl \<Rightarrow> (fan_dev \<times> fanctl) res" where
  "power_dev mode on d s =
     (if on then Inr (d, fan_emit (Power_on (logicId d)) s)
      else (let (d1, s1) = app_fan_ctrl_pwmSet (app_fan_ctrl_data_flush mode d) 0 s in Inr (d1, fan_emit (Power_off (logicId d)) s1)))"

definition app_fan_sys_power_control :: "u8 \<Rightarrow> bool \<Rightarrow> fanctl \<Rightarrow> fanctl res" where
  "app_fan_sys_power_control mode on = for_devs (power_dev mode on)"

text \<open>The speed is set when the calculated speed differs from the one calculated last.\<close>

definition control_dev :: "u8 \<Rightarrow> fan_env \<Rightarrow> fan_dev \<Rightarrow> fanctl \<Rightarrow> (fan_dev \<times> fanctl) res" where
  "control_dev mode E d s =
     (let (v, s1) = app_fan_ctrl_rpmGet E d s; readSpeed = (word_of_int v :: u16);
          fin = (\<lambda>(d', s'). Inr (d'\<lparr>reportRealRpm := readSpeed\<rparr>, app_fan_debug_sys_report_speed (logicId d) readSpeed s'))
      in if pwm_w s1 \<noteq> FAN_DBG_PWM_DIS then
           (let (d1, s2) = app_fan_ctrl_pwmSet d (pwm_w s1) s1 in fin (d1\<lparr>reporCalculatedSpeed := 0xFFFF\<rparr>, s2))
         else if overridePercentage d > 0 then
           (let (d1, s2) = app_fan_ctrl_pwmSet d (if overridePercentage d > 100 then 100 else overridePercentage d) s1
            in fin (d1\<lparr>reporCalculatedSpeed := 0xFFFF\<rparr>, s2))
         else
           (case app_fan_ctrl_rpmDataCalculate mode readSpeed d of
              Inl e \<Rightarrow> Inl e
            | Inr (cal, d1) \<Rightarrow>
                if uint (reporCalculatedSpeed d1) \<noteq> cal then
                  (let (d2, s2) = app_fan_ctrl_rpmSet d1 (word_of_int cal) s1
                   in fin (d2\<lparr>reporCalculatedSpeed := word_of_int cal\<rparr>, s2))
                else fin (d1, s1)))"

definition app_fan_sys_control :: "u8 \<Rightarrow> fan_env \<Rightarrow> fanctl \<Rightarrow> fanctl res" where
  "app_fan_sys_control mode E = for_devs (control_dev mode E)"

section \<open>Debug registers\<close>

definition select_table :: "u8 \<Rightarrow> fanctl \<Rightarrow> fanctl" where
  "select_table m s =
     (if m < FAN_SPEED_TABLE_MODE_NUM then s\<lparr>devs := map (\<lambda>d. d\<lparr>tb_select := m\<rparr>) (devs s)\<rparr> else s)"

definition current_table :: "u8 \<Rightarrow> fanctl \<Rightarrow> u8" where
  "current_table m s = (case devs s of [] \<Rightarrow> m | d # ds \<Rightarrow> tb_select d)"

definition app_fan_debug_speed_table_control :: "u8 \<Rightarrow> bool \<Rightarrow> fanctl \<Rightarrow> u8 \<times> fanctl" where
  "app_fan_debug_speed_table_control m write s =
     (if write then (m, select_table m s) else (current_table m s, s))"

definition tuned :: "u8 \<Rightarrow> fan_dev \<Rightarrow> bool" where
  "tuned mode d \<longleftrightarrow> (if is_pid mode then is_pid (ctrl_type d) else mode = FAN_RPM_RAMP_RATE_CONTROL \<and> ctrl_type d = FAN_RPM_RAMP_RATE_CONTROL)"

definition dump_tuning :: "u8 \<Rightarrow> fan_dev \<Rightarrow> u8 list \<Rightarrow> u8 list" where
  "dump_tuning mode d v =
     (let v1 = wr16 0x14 (reportRealRpm d) (wr16 0x12 (overrideTargetSpeed d) v) in
      case pCtrl_profile d of
        Pid_curve p \<Rightarrow>
          if is_pid mode then
            (wr16 0x1C (ucast (kd p)) (wr16 0x1A (ucast (ki p)) (wr16 0x18 (ucast (kp p)) (wr16 0x16 (ucast (k_multi p)) v1))))
              [0x1E := ucast (tolerant_err p), 0x1F := ucast (ajust_cnt p)]
          else v1
      | _ \<Rightarrow> v1)"

definition set_tuning :: "u8 \<Rightarrow> u8 list \<Rightarrow> fan_dev \<Rightarrow> fan_dev" where
  "set_tuning mode v d =
     (let d1 = d\<lparr>overrideTargetSpeed := rd16 v 0x12\<rparr> in
      case pCtrl_profile d of
        Pid_curve p \<Rightarrow>
          if is_pid mode then d1\<lparr>pCtrl_profile := Pid_curve (p\<lparr>k_multi := ucast (rd16 v 0x16), kp := ucast (rd16 v 0x18),
             ki := ucast (rd16 v 0x1A), kd := ucast (rd16 v 0x1C), tolerant_err := ucast (v ! 0x1E)\<rparr>)\<rparr>
          else d1
      | _ \<Rightarrow> d1)"

text \<open>\<open>n\<close>: the number of devices of the board.\<close>

definition app_fan_debug_sys_acpiHandler :: "u8 \<Rightarrow> u8 \<Rightarrow> bool \<Rightarrow> u8 \<Rightarrow> u8 \<Rightarrow> fanctl \<Rightarrow> u8 \<times> u8 \<times> fanctl" where
  "app_fan_debug_sys_acpiHandler mode n isRead idx data s =
     (let tun = (is_pid mode \<or> mode = FAN_RPM_RAMP_RATE_CONTROL); chosen = (tun \<and> pid_sel s \<noteq> 0 \<and> pid_sel s \<le> n) in
      if idx \<ge> 0x31 \<or> sys_dbg_size mode \<le> unat idx then (0, data, s)
      else if isRead then
        (let v1 = (if chosen \<and> pid_flag s = FAN_DBG_PID_FLAG_DUMP
                   then fold (\<lambda>d v. if tuned mode d \<and> logicId d = pid_sel s then dump_tuning mode d v else v) (devs s) (sys_dbg s)
                   else sys_dbg s);
             v2 = v1[3 := current_table (v1 ! 3) s]
         in (0, v2 ! unat idx, s\<lparr>sys_dbg := v2\<rparr>))
      else
        (let put = (\<lambda>s. s\<lparr>sys_dbg := (sys_dbg s)[unat idx := data]\<rparr>);
             s1 = (if tun \<and> unat idx < sys_dbg_size mode - tuning_size mode then put s else s);
             s2 = (if pwm_w s1 \<noteq> 0xFF \<and> pwm_w s1 > 100 then s1\<lparr>sys_dbg := (sys_dbg s1)[0 := 100]\<rparr> else s1);
             s3 = (if table_rw s2 < FAN_SPEED_TABLE_MODE_NUM then select_table (table_rw s2) s2 else s2)
         in if \<not> tun \<or> pid_flag s3 = FAN_DBG_PID_FLAG_DUMP then (0, data, s3)
            else
              (let s4 = put s3 in
               (0, data,
                if pid_sel s4 \<noteq> 0 \<and> pid_sel s4 \<le> n \<and> pid_flag s4 = FAN_DBG_PID_FLAG_SET_DONE
                then s4\<lparr>devs := map (\<lambda>d. if logicId d = pid_sel s4 \<and> tuned mode d then set_tuning mode (sys_dbg s4) d else d) (devs s4)\<rparr>
                else s4))))"

text \<open>The table of a mode and a kind of temperature, unchecked, and its copy into the second structure.\<close>

definition table_of :: "fan_dev \<Rightarrow> u8 \<Rightarrow> u8 \<Rightarrow> tbi list res" where
  "table_of d m t =
     (case ld (pTable d) (unat m) of
        Inl e \<Rightarrow> Inl e
      | Inr row \<Rightarrow> (case ld row (unat t) of Inl e \<Rightarrow> Inl e | Inr pt \<Rightarrow> Inr (tb_item pt)))"

definition dump_table :: "tbi list \<Rightarrow> u8 list \<Rightarrow> u8 list" where
  "dump_table tab v =
     fold (\<lambda>i v. wr16 (4 + 4 * i + 2) (tb_speed (tab ! i)) (v[4 + 4 * i := temp_1 (tab ! i), 4 + 4 * i + 1 := temp_2 (tab ! i)]))
       [0 ..< FAN_CTRL_SPEED_TABLE_ITEM_NUM] v"

definition read_table :: "u8 list \<Rightarrow> tbi list" where
  "read_table v = map (\<lambda>i. \<lparr>temp_1 = v ! (4 + 4 * i), temp_2 = v ! (4 + 4 * i + 1), tb_speed = rd16 v (4 + 4 * i + 2)\<rparr>)
     [0 ..< FAN_CTRL_SPEED_TABLE_ITEM_NUM]"

fun dump_tables :: "u8 \<Rightarrow> fan_dev list \<Rightarrow> fanctl \<Rightarrow> fanctl res" where
  "dump_tables sel [] s = Inr s"
| "dump_tables sel (d # ds) s =
     (if logicId d = sel \<and> table_flag s = FAN_DBG_PID_FLAG_DUMP then
        (case table_of d (active_mode s) (active_temp s) of
           Inl e \<Rightarrow> Inl e
         | Inr tab \<Rightarrow> dump_tables sel ds (s\<lparr>tb_dbg := dump_table tab (tb_dbg s)\<rparr>))
      else dump_tables sel ds s)"

definition put_table :: "u8 \<Rightarrow> u8 \<Rightarrow> tbi list \<Rightarrow> fan_dev \<Rightarrow> fan_dev" where
  "put_table m t tab d =
     d\<lparr>pTable := (pTable d)[unat m := (pTable d ! unat m)[unat t := (pTable d ! unat m ! unat t)\<lparr>tb_item := tab\<rparr>]]\<rparr>"

definition app_fan_debug_speed_table_acpiHandler :: "u8 \<Rightarrow> bool \<Rightarrow> u8 \<Rightarrow> u8 \<Rightarrow> fanctl \<Rightarrow> (u8 \<times> u8 \<times> fanctl) res" where
  "app_fan_debug_speed_table_acpiHandler n isRead idx data s =
     (if idx \<ge> 0x31 \<or> 44 \<le> unat idx then Inr (0, data, s)
      else if isRead then
        map_sum id (\<lambda>s'. (0, tb_dbg s' ! unat idx, s'))
          (if dev_sel s \<noteq> 0 \<and> dev_sel s \<le> n then dump_tables (dev_sel s) (devs s) s else Inr s)
      else
        (let put = (\<lambda>s. s\<lparr>tb_dbg := (tb_dbg s)[unat idx := data]\<rparr>); s1 = (if unat idx < 2 then put s else s) in
         if table_flag s1 = FAN_DBG_PID_FLAG_DUMP then Inr (0, data, s1)
         else
           (let s2 = put s1 in
            Inr (0, data,
              if dev_sel s2 \<noteq> 0 \<and> dev_sel s2 \<le> n \<and> table_flag s2 = FAN_DBG_PID_FLAG_SET_DONE \<and>
                 active_mode s2 < FAN_SPEED_TABLE_MODE_NUM \<and> unat (active_temp s2) < FAN_TEMP_TYPE_NUMBER
              then s2\<lparr>devs := map (\<lambda>d. if logicId d = dev_sel s2
                     then put_table (active_mode s2) (active_temp s2) (read_table (tb_dbg s2)) d else d) (devs s2)\<rparr>
              else s2))))"

section \<open>The task\<close>

definition app_fan_ctrl_sys_speed_table_select :: "u8 \<Rightarrow> bool \<Rightarrow> fanctl \<Rightarrow> u8 \<times> fanctl" where
  "app_fan_ctrl_sys_speed_table_select = app_fan_debug_speed_table_control"

definition app_fan_ctrl_sys_disable :: "u8 \<Rightarrow> fanctl \<Rightarrow> fanctl res" where
  "app_fan_ctrl_sys_disable mode s = map_sum id (\<lambda>s'. s'\<lparr>g_fan_ctrl_enabled := False\<rparr>) (app_fan_sys_power_control mode False s)"

definition app_fan_ctrl_sys_enable :: "fanctl \<Rightarrow> fanctl" where
  "app_fan_ctrl_sys_enable s = s\<lparr>g_fan_ctrl_enabled := True\<rparr>"

definition app_fan_ctrl_sys_enabled :: "fanctl \<Rightarrow> bool" where
  "app_fan_ctrl_sys_enabled s = g_fan_ctrl_enabled s"

definition app_fan_dbg_int :: "u8 \<Rightarrow> fanctl \<Rightarrow> fanctl" where
  "app_fan_dbg_int mode s =
     (let v = replicate (sys_dbg_size mode) 0xFF in
      s\<lparr>sys_dbg := (if is_pid mode \<or> mode = FAN_RPM_RAMP_RATE_CONTROL then v[0x10 := 0, 0x11 := 0] else v),
        tb_dbg := (tb_dbg s)[0 := 0, 1 := 0]\<rparr>)"

definition updated_thd :: "u8 \<Rightarrow> u32" where
  "updated_thd mode = (if mode = FAN_RPM_RAMP_RATE_CONTROL then 1 else 10)"

text \<open>One round of the thread; \<open>s0\<close>: the system is in S0.\<close>

definition fanctrl_round :: "u8 \<Rightarrow> fan_env \<Rightarrow> bool \<Rightarrow> fanctl \<Rightarrow> fanctl res" where
  "fanctrl_round mode E s0 s =
     (if s0 \<and> app_fan_ctrl_sys_enabled s then
        (case (if \<not> on_off_flag s then map_sum id (\<lambda>s'. s'\<lparr>on_off_flag := True\<rparr>) (app_fan_sys_power_control mode True s) else Inr s) of
           Inl e \<Rightarrow> Inl e
         | Inr s1 \<Rightarrow>
             (let c = updated_cnt s1 + 1 in
              case (if c \<ge> updated_thd mode then app_fan_data_update E (s1\<lparr>updated_cnt := 0\<rparr>) else Inr (s1\<lparr>updated_cnt := c\<rparr>)) of
                Inl e \<Rightarrow> Inl e
              | Inr s2 \<Rightarrow> app_fan_sys_control mode E s2))
      else if on_off_flag s then map_sum id (\<lambda>s'. s'\<lparr>on_off_flag := False\<rparr>) (app_fan_sys_power_control mode False s)
      else Inr s)"

section \<open>Registration of the devices\<close>

text \<open>
  A device is put in front of the list; \<open>ok\<close>: its initialisation succeeded. The reported values
  start as zero, as static data.
\<close>

definition board_fan_dev_init :: "bool \<Rightarrow> fan_dev \<Rightarrow> fan_dev list \<Rightarrow> fan_dev list" where
  "board_fan_dev_init ok d ds = (if \<not> isDisable d then d\<lparr>isInit := ok\<rparr> else d) # ds"

definition board_fan_ctrl_init :: "(bool \<times> fan_dev) list \<Rightarrow> fan_dev list" where
  "board_fan_ctrl_init l = fold (\<lambda>(ok, d). board_fan_dev_init ok d) l []"

text \<open>The pulse for a speed of at most 1000, of a period of the board.\<close>

definition board_fan_pwm_speed_set :: "u32 \<Rightarrow> u8 \<Rightarrow> u16 \<Rightarrow> (u8 \<times> u32) option" where
  "board_fan_pwm_speed_set period ch v =
     (if ch > 1 \<or> v > 1000 then None else Some (ch, (period div 1000) * ucast v))"

end
