(* ===== verification/Fan_board.thy ===== *)
theory Fan_board
  imports Fan_task
begin

text \<open>
  The fans of the Dorne board: the tables of \<open>board_fanRpmCtrl.c\<close> by device, mode and kind of
  temperature, the parameters of each control algorithm, and the two devices. A static array is
  filled up with zeros to its size.
\<close>

definition fill :: "nat \<Rightarrow> 'a \<Rightarrow> 'a list \<Rightarrow> 'a list" where
  "fill n z l = l @ replicate (n - length l) z"

definition stepwise_table :: "(u8 \<times> u8 \<times> u16) list \<Rightarrow> profile_table" where
  "stepwise_table l = \<lparr>spike_temp = 0, tb_type = 1,
     tb_item = fill FAN_CTRL_SPEED_TABLE_ITEM_NUM \<lparr>temp_1 = 0, temp_2 = 0, tb_speed = 0\<rparr>
       (map (\<lambda>(a, b, c). \<lparr>temp_1 = a, temp_2 = b, tb_speed = c\<rparr>) l)\<rparr>"

definition g_fan_speed_table_init :: "profile_table list list list" where
  "g_fan_speed_table_init =
    [
      [[stepwise_table [(56, 50, 2950), (62, 56, 3200), (68, 62, 3400), (74, 68, 3700), (80, 74, 3900)],
        stepwise_table [(47, 44, 2950), (50, 47, 3200), (54, 51, 3400), (57, 54, 3700), (59, 56, 3900)]],
       [stepwise_table [(55, 50, 3200), (60, 55, 3500), (65, 60, 3800), (70, 65, 4300), (75, 70, 4600), (80, 75, 5150), (85, 80, 5850)],
        stepwise_table [(47, 44, 3200), (50, 47, 3500), (54, 51, 3800), (57, 54, 4300), (59, 56, 4600), (61, 59, 5150), (63, 60, 5850)]],
       [stepwise_table [(55, 50, 3200), (60, 55, 3500), (65, 60, 4300), (70, 65, 4800), (75, 70, 5350), (80, 75, 5850), (85, 80, 6300)],
        stepwise_table [(47, 44, 3200), (50, 47, 3500), (54, 51, 4300), (57, 54, 4800), (59, 56, 5350), (61, 59, 5850), (63, 60, 6300)]]],
      [[stepwise_table [(56, 50, 3100), (62, 56, 3350), (68, 62, 3550), (74, 68, 3850), (80, 74, 4050)],
        stepwise_table [(47, 44, 3100), (50, 47, 3350), (54, 51, 3550), (57, 54, 3850), (59, 56, 4050)]],
       [stepwise_table [(55, 50, 3350), (60, 55, 3650), (65, 60, 3950), (70, 65, 4450), (75, 70, 4900), (80, 75, 5450), (85, 80, 6150)],
        stepwise_table [(47, 44, 3350), (50, 47, 3650), (54, 51, 3950), (57, 54, 4450), (59, 56, 4900), (61, 59, 5450), (63, 60, 6150)]],
       [stepwise_table [(55, 50, 3350), (60, 55, 3650), (65, 60, 4450), (70, 65, 5100), (75, 70, 5650), (80, 75, 6150), (85, 80, 6600)],
        stepwise_table [(47, 44, 3350), (50, 47, 3650), (54, 51, 4450), (57, 54, 5100), (59, 56, 5650), (61, 59, 6150), (63, 60, 6600)]]]]"

definition dorne_pid :: "u32 \<Rightarrow> u32 \<Rightarrow> u32 \<Rightarrow> u32 \<Rightarrow> pid" where
  "dorne_pid p i d k = \<lparr>started = False, target = 0, actual = 0, out = 0, pre_err = 0, ppre_err = 0, inter_err = 0,
     k_multi = k, kp = p, ki = i, kd = d, tolerant_err = 25, ajust_cnt = 0\<rparr>"

text \<open>Both devices have the same parameters.\<close>

definition s_fan_dev_calibration_init :: "u8 \<Rightarrow> ctrl_profile" where
  "s_fan_dev_calibration_init mode =
     (if mode = FAN_RPM_NO_CONTROL \<or> mode = FAN_RPM_MANUAL_WITH_OFFSET_CONTROL then Mal_offset 10 (replicate 10 (0, 0))
      else if mode = FAN_RPM_MANUAL_WITH_CURVE_MAP_CONTROL then Mal_curve 10 20 (replicate 20 (0, 0))
      else if mode = FAN_RPM_PID_DISCRETIZE_CONTROL then Pid_curve (dorne_pid 17 3 1 10)
      else if mode = FAN_RPM_PID_INCREMENTAL_CONTROL then Pid_curve (dorne_pid 4 2 0 100)
      else Ramp_rate 200 (fill 10 (0, 0) [(500, 40), (250, 20), (60, 10), (30, 5)])
             (fill 10 (0, 0) [(250, 20), (120, 10), (60, 5), (30, 2)]))"

definition dorne_fan :: "u8 \<Rightarrow> u8 \<Rightarrow> u8 \<Rightarrow> u16 \<Rightarrow> profile_table list list \<Rightarrow> fan_dev" where
  "dorne_fan mode i ch mx tab =
     \<lparr>logicId = i, pwmChannel = ch, tachChannel = ch, ftype = FAN_PWM_TACH, isInit = False, isDisable = False,
      tb_select = 0, pTable = tab, miniSpeed = 0,
      maxSpeed = (if mode \<in> {FAN_RPM_NO_CONTROL, FAN_RPM_MANUAL_WITH_OFFSET_CONTROL, FAN_RPM_MANUAL_WITH_CURVE_MAP_CONTROL} then mx else 0),
      resolution = 1000, ctrl_type = mode, pCtrl_profile = s_fan_dev_calibration_init mode,
      overrideTemp = 0, overrideTargetSpeed = 0, overridePercentage = 0, reportInputTemp = 0, reportSpeed = 0,
      reporCalculatedSpeed = 0, reportRealRpm = 0, pwm_value = 0\<rparr>"

definition g_fan_ctrl_data_init :: "u8 \<Rightarrow> fan_dev list" where
  "g_fan_ctrl_data_init mode =
     [dorne_fan mode 1 0 6300 (g_fan_speed_table_init ! 0), dorne_fan mode 2 1 6210 (g_fan_speed_table_init ! 1)]"

text \<open>The temperatures, from the sensors' 8.8 fixed point, while the system is in S0.\<close>

definition board_fan_thermal_cpu_tj_val_get :: "bool \<Rightarrow> u16 \<Rightarrow> int" where
  "board_fan_thermal_cpu_tj_val_get s0 die = (if s0 then uint (drop_bit 8 die) else 0)"

definition board_fan_thermal_pcb_sensor_val_get :: "bool \<Rightarrow> u16 \<Rightarrow> int" where
  "board_fan_thermal_pcb_sensor_val_get s0 pcb = (if s0 then uint (drop_bit 8 pcb) else 0)"

text \<open>The controller after the initialisation of the board and of its thread, enabled; \<open>oks\<close>: which
  devices could be initialised.\<close>

definition dorne_fanctl :: "u8 \<Rightarrow> bool list \<Rightarrow> fanctl" where
  "dorne_fanctl mode oks = app_fan_dbg_int mode
     \<lparr>devs = board_fan_ctrl_init (zip oks (g_fan_ctrl_data_init mode)), sys_dbg = [], tb_dbg = replicate 44 0,
      g_fan_ctrl_enabled = True, on_off_flag = False, updated_cnt = 0, tach_reads = 0, fan_evs = []\<rparr>"

text \<open>Rounds of the thread, one for each environment and state of the system.\<close>

fun fan_rounds :: "u8 \<Rightarrow> (fan_env \<times> bool) list \<Rightarrow> fanctl \<Rightarrow> fanctl res" where
  "fan_rounds mode [] s = Inr s"
| "fan_rounds mode ((E, s0) # es) s = (case fanctrl_round mode E s0 s of Inl e \<Rightarrow> Inl e | Inr s' \<Rightarrow> fan_rounds mode es s')"

end
