(* ===== verification/Fan_Props.thy ===== *)
theory Fan_Props
  imports Fan_board
begin

text \<open>
  Stepwise tables implement a hysteresis over the number of active steps; the fan never turns slower
  than the temperature demands; the ramp keeps the duty between the start value and the resolution;
  a fan that was at its start duty when the system went to sleep does not turn again; and the debug
  registers can make the firmware read a table that does not exist.
\<close>

section \<open>Hysteresis\<close>

text \<open>The temperatures of a table as numbers.\<close>

definition U :: "tbi list \<Rightarrow> nat \<Rightarrow> nat" where "U p i = unat (temp_1 (p ! i))"
definition D :: "tbi list \<Rightarrow> nat \<Rightarrow> nat" where "D p i = unat (temp_2 (p ! i))"

definition steps_ok :: "tbi list \<Rightarrow> nat \<Rightarrow> bool" where
  "steps_ok p n \<longleftrightarrow> 0 < n \<and> (\<forall>j < n. D p j < U p j \<and> (\<forall>i < j. U p i < U p j \<and> D p i \<le> D p j))"

text \<open>
  The specification: the state is the number of active steps. A step is entered when its upper
  temperature is reached, and all steps left whose lower temperature is not exceeded.
\<close>

definition entered :: "tbi list \<Rightarrow> nat \<Rightarrow> nat \<Rightarrow> nat" where
  "entered p n t = card {i. i < n \<and> U p i \<le> t}"

definition held :: "tbi list \<Rightarrow> nat \<Rightarrow> nat \<Rightarrow> nat" where
  "held p n t = card {i. i < n \<and> D p i < t}"

definition hysteresis :: "tbi list \<Rightarrow> nat \<Rightarrow> nat \<Rightarrow> nat \<Rightarrow> nat" where
  "hysteresis p n t cur =
     (if cur < n \<and> U p cur \<le> t then entered p n t else if 0 < cur \<and> t \<le> D p (cur - 1) then held p n t else cur)"

text \<open>How the code stores the state, and what it returns in it.\<close>

definition hys_of :: "tbi list \<Rightarrow> nat \<Rightarrow> u8" where
  "hys_of p cur = (if cur = 0 then 0 else temp_1 (p ! (cur - 1)))"

definition speed_of :: "tbi list \<Rightarrow> nat \<Rightarrow> u16" where
  "speed_of p cur = (if cur = 0 then 0 else tb_speed (p ! (cur - 1)))"

lemma down_closed_card:
  assumes "finite S" "\<And>i j. i < j \<Longrightarrow> j \<in> S \<Longrightarrow> i \<in> S"
  shows "i \<in> S \<longleftrightarrow> i < card (S :: nat set)"
proof (cases "S = {}")
  case False
  then have "Max S \<in> S" using assms(1) by simp
  then have "S = {.. Max S}" using assms Max_ge [OF assms(1)] by (fastforce simp: le_less)
  then show ?thesis by (metis card_atMost atMost_iff less_Suc_eq_le)
qed simp

lemma U_less: "steps_ok p n \<Longrightarrow> i < j \<Longrightarrow> j < n \<Longrightarrow> U p i < U p j"
  and D_le: "steps_ok p n \<Longrightarrow> i < j \<Longrightarrow> j < n \<Longrightarrow> D p i \<le> D p j"
  and D_less_U: "steps_ok p n \<Longrightarrow> j < n \<Longrightarrow> D p j < U p j"
  by (auto simp: steps_ok_def)

lemma U_inj: "steps_ok p n \<Longrightarrow> i < n \<Longrightarrow> j < n \<Longrightarrow> temp_1 (p ! i) = temp_1 (p ! j) \<Longrightarrow> i = j"
  using U_less [of p n i j] U_less [of p n j i] by (metis U_def less_irrefl linorder_neqE_nat)

lemma entered_iff: "steps_ok p n \<Longrightarrow> i < n \<and> U p i \<le> t \<longleftrightarrow> i < entered p n t"
  using down_closed_card [of "{i. i < n \<and> U p i \<le> t}" i] U_less [of p n]
  by (fastforce simp: entered_def)

lemma held_iff: "steps_ok p n \<Longrightarrow> i < n \<and> D p i < t \<longleftrightarrow> i < held p n t"
  using down_closed_card [of "{i. i < n \<and> D p i < t}" i] D_le [of p n]
  by (fastforce simp: held_def)

lemma entered_le: "steps_ok p n \<Longrightarrow> entered p n t \<le> n"
  using entered_iff [of p n n t] by (metis less_irrefl not_le_imp_less)

lemma held_le: "steps_ok p n \<Longrightarrow> held p n t \<le> n"
  using held_iff [of p n n t] by (metis less_irrefl not_le_imp_less)

lemma entered_held: "steps_ok p n \<Longrightarrow> entered p n t \<le> held p n t"
  by (meson D_less_U entered_iff held_iff le_less_trans less_le_trans not_le order_less_irrefl)

text \<open>Whatever the state was, the number of steps lies between those entered and those held.\<close>

lemma hysteresis_between:
  assumes "steps_ok p n" "cur \<le> n"
  shows "entered p n t \<le> hysteresis p n t cur" "hysteresis p n t cur \<le> held p n t" "hysteresis p n t cur \<le> n"
proof -
  have up: "entered p n t \<le> cur" if "\<not> (cur < n \<and> U p cur \<le> t)"
    using that entered_iff [OF assms(1), of cur t] by simp
  have down: "cur \<le> held p n t" if "0 < cur" "\<not> t \<le> D p (cur - 1)"
    using that assms(2) held_iff [OF assms(1), of "cur - 1" t] by auto
  show "entered p n t \<le> hysteresis p n t cur" "hysteresis p n t cur \<le> held p n t" "hysteresis p n t cur \<le> n"
    using up down entered_held [OF assms(1)] entered_le [OF assms(1)] held_le [OF assms(1)] assms(2)
    by (auto simp: hysteresis_def)
qed

section \<open>The loops of the stepwise table\<close>

lemma temp_le:
  "up_temp p i \<le> t \<longleftrightarrow> U p i \<le> unat t" "t < up_temp p i \<longleftrightarrow> unat t < U p i"
  "t \<le> down_temp p i \<longleftrightarrow> unat t \<le> D p i" "down_temp p i < t \<longleftrightarrow> D p i < unat t"
proof -
  have "unat (ucast w :: u16) = unat w" for w :: u8
    using unsigned_less [of w, where ?'a = nat] by (simp add: unsigned_ucast_eq take_bit_nat_eq_self)
  then show "up_temp p i \<le> t \<longleftrightarrow> U p i \<le> unat t" "t < up_temp p i \<longleftrightarrow> unat t < U p i"
    "t \<le> down_temp p i \<longleftrightarrow> unat t \<le> D p i" "down_temp p i < t \<longleftrightarrow> D p i < unat t"
    by (simp_all add: up_temp_def down_temp_def U_def D_def word_le_nat_alt word_less_nat_alt)
qed

lemma step_up_bounds:
  "fd \<le> step_up p t k fd \<and> step_up p t k fd \<le> fd + k \<and> (\<forall>j. fd < j \<and> j \<le> step_up p t k fd \<longrightarrow> U p j \<le> unat t) \<and>
   (step_up p t k fd = fd + k \<or> unat t < U p (step_up p t k fd + 1))"
proof (induction k arbitrary: fd)
  case (Suc k)
  show ?case
  proof (cases "t < up_temp p (fd + 1)")
    case False
    then have "U p (fd + 1) \<le> unat t" by (simp add: temp_le not_less)
    with Suc.IH [of "fd + 1"] False show ?thesis by (auto simp: Suc_le_eq; metis Suc_lessI)
  qed (simp add: temp_le)
qed simp

lemma step_down_bounds:
  "step_down p t fd \<le> fd \<and> (step_down p t fd = 0 \<or> D p (step_down p t fd) < unat t) \<and>
   (\<forall>j. step_down p t fd < j \<and> j \<le> fd \<longrightarrow> unat t \<le> D p j)"
  by (induction fd) (auto simp: temp_le le_Suc_eq not_le)

section \<open>Refinement\<close>

lemma at_step_of: "at_step p f = (speed_of p (Suc f), hys_of p (Suc f))"
  by (simp add: at_step_def speed_of_def hys_of_def)

lemma zero_step: "speed_of p 0 = 0" "hys_of p 0 = 0"
  by (simp_all add: speed_of_def hys_of_def)

lemma find_none: "steps_ok p n \<Longrightarrow> find (\<lambda>i. 0 = temp_1 (p ! i)) [0 ..< n] = None"
  using D_less_U [of p n] by (fastforce simp: find_None_iff U_def)

lemma find_step:
  assumes "steps_ok p n" "f < n"
  shows "find (\<lambda>i. temp_1 (p ! f) = temp_1 (p ! i)) [0 ..< n] = Some f"
proof -
  have "temp_1 (p ! f) \<noteq> temp_1 (p ! j)" if "j < f" for j using U_inj [OF assms, of j] that assms(2) by auto
  then have "\<forall>j < f. temp_1 (p ! f) \<noteq> temp_1 (p ! j)" by blast
  with assms(2) show ?thesis unfolding find_Some_iff by (intro exI [of _ f]) (simp del: not_all)
qed

lemma find_entered:
  assumes "steps_ok p n" "entered p n (unat t) < n"
  shows "find (\<lambda>i. t < up_temp p i) [0 ..< n] = Some (entered p n (unat t))"
proof -
  have "unat t < U p (entered p n (unat t))" using entered_iff [OF assms(1), of "entered p n (unat t)" "unat t"] assms(2) by force
  moreover have "U p i \<le> unat t" if "i < entered p n (unat t)" for i using that entered_iff [OF assms(1)] by blast
  ultimately show ?thesis using assms(2) by (auto simp: find_Some_iff temp_le not_less)
qed

lemma entered_eq:
  assumes "steps_ok p n" "c \<le> n" "\<And>i. i < c \<Longrightarrow> U p i \<le> t" "c < n \<Longrightarrow> t < U p c"
  shows "entered p n t = c"
proof (rule antisym)
  show "entered p n t \<le> c"
    using assms(2,4) entered_iff [OF assms(1), of c t] entered_le [OF assms(1), of t] by (metis not_le le_less)
  show "c \<le> entered p n t"
    using assms(2,3) entered_iff [OF assms(1), of "c - 1" t] by (cases c) auto
qed

lemma held_eq:
  assumes "steps_ok p n" "c \<le> n" "\<And>i. i < c \<Longrightarrow> D p i < t" "c < n \<Longrightarrow> t \<le> D p c"
  shows "held p n t = c"
proof (rule antisym)
  show "held p n t \<le> c"
    using assms(2,4) held_iff [OF assms(1), of c t] held_le [OF assms(1), of t] by (metis not_le le_less)
  show "c \<le> held p n t"
    using assms(2,3) held_iff [OF assms(1), of "c - 1" t] by (cases c) auto
qed

text \<open>The three ways out of a step.\<close>

lemma climb:
  assumes "steps_ok p n" "Suc f < n" "U p (Suc f) \<le> unat t"
  shows "Suc (step_up p t (n - 1 - f) f) = entered p n (unat t)"
proof -
  define r where "r = step_up p t (n - 1 - f) f"
  have b: "f \<le> r" "r \<le> n - 1" "\<And>j. f < j \<Longrightarrow> j \<le> r \<Longrightarrow> U p j \<le> unat t" "r = n - 1 \<or> unat t < U p (Suc r)"
    using step_up_bounds [where p = p and t = t and k = "n - 1 - f" and fd = f] assms(2) by (auto simp: r_def)
  have "U p i \<le> unat t" if "i < Suc r" for i
  proof (cases "i \<le> f")
    case True
    then show ?thesis using U_less [OF assms(1), of i "Suc f"] assms(2,3) by simp
  qed (use b that in auto)
  moreover have "unat t < U p (Suc r)" if "Suc r < n" using b that by auto
  moreover have "Suc r \<le> n" using b assms(2) by simp
  ultimately show ?thesis using entered_eq [OF assms(1), of "Suc r" "unat t"] by (simp add: r_def)
qed

lemma descend:
  assumes "steps_ok p n" "f < n" "unat t \<le> D p f" "D p 0 < unat t"
  shows "Suc (step_down p t f) = held p n (unat t)"
proof -
  define r where "r = step_down p t f"
  have b: "r \<le> f" "r = 0 \<or> D p r < unat t" "\<And>j. r < j \<Longrightarrow> j \<le> f \<Longrightarrow> unat t \<le> D p j"
    using step_down_bounds [where p = p and t = t and fd = f] by (auto simp: r_def)
  have r: "D p r < unat t" using b(2) assms(4) by auto
  then have ne: "r < f" using b(1) assms(3) by (metis le_less not_le)
  have "D p i < unat t" if "i < Suc r" for i
  proof (cases "i = r")
    case False
    then have "D p i \<le> D p r" using D_le [OF assms(1), of i r] that ne assms(2) by simp
    with r show ?thesis by simp
  qed (use r in simp)
  moreover have "unat t \<le> D p (Suc r)" using b(3) [of "Suc r"] ne by simp
  moreover have "Suc r \<le> n" using ne assms(2) by simp
  ultimately show ?thesis using held_eq [OF assms(1), of "Suc r" "unat t"] by (simp add: r_def)
qed

lemma low_none:
  assumes "steps_ok p n" "t \<le> D p 0" "cur \<le> n"
  shows "hysteresis p n t cur = 0"
proof -
  have le: "t \<le> D p i" if "i < n" for i using assms(2) that D_le [OF assms(1), of 0 i] by (cases "i = 0") auto
  then have "held p n t = 0" by (intro held_eq [OF assms(1)]) auto
  moreover have "\<not> (cur < n \<and> U p cur \<le> t)" using le [of cur] D_less_U [OF assms(1), of cur] by linarith
  moreover have "t \<le> D p (cur - 1)" if "0 < cur" using le [of "cur - 1"] that assms(3) by simp
  ultimately show ?thesis by (auto simp: hysteresis_def)
qed

lemma high_all:
  assumes "steps_ok p n" "U p (n - 1) \<le> t" "cur \<le> n"
  shows "hysteresis p n t cur = n"
proof -
  have n: "0 < n" using assms(1) by (simp add: steps_ok_def)
  have le: "U p i \<le> t" if "i < n" for i
  proof (cases "i < n - 1")
    case True
    then show ?thesis using U_less [OF assms(1) True] n assms(2) by linarith
  next
    case False
    then have "i = n - 1" using that by simp
    then show ?thesis using assms(2) by simp
  qed
  then have "entered p n t = n" by (intro entered_eq [OF assms(1)]) auto
  moreover have "\<not> t \<le> D p (n - 1)" using assms(2) D_less_U [OF assms(1), of "n - 1"] n by linarith
  ultimately show ?thesis using le [of cur] assms(3) by (cases "cur = n") (auto simp: hysteresis_def)
qed

lemma stepwise_refines_hysteresis_aux:
  assumes "steps_ok p n" "cur \<le> n"
  shows "app_fan_ctrl_stepwise_speed p n temp (hys_of p cur) =
     (let c = hysteresis p n (unat temp) cur in (speed_of p c, hys_of p c))"
proof -
  let ?t = "unat temp"
  note defs = app_fan_ctrl_stepwise_speed_def Let_def temp_le
  consider (low) "?t \<le> D p 0" | (high) "D p 0 < ?t" "U p (n - 1) \<le> ?t" | (mid) "D p 0 < ?t" "?t < U p (n - 1)" by linarith
  then show ?thesis
  proof cases
    case low
    with low_none [OF assms(1) low assms(2)] show ?thesis by (simp add: defs zero_step)
  next
    case high
    with high_all [OF assms(1) high(2) assms(2)] assms(1) show ?thesis by (simp add: defs not_le at_step_of steps_ok_def)
  next
    case mid
    then have lt: "entered p n ?t < n"
      using entered_iff [OF assms(1), of "n - 1" ?t] assms(1) entered_le [OF assms(1), of ?t] by (auto simp: steps_ok_def not_le le_less)
    show ?thesis
    proof (cases cur)
      case 0
      have "U p 0 \<le> ?t \<longleftrightarrow> 0 < entered p n ?t" using entered_iff [OF assms(1), of 0 ?t] assms(1) by (auto simp: steps_ok_def)
      then show ?thesis
        using 0 mid assms(1) find_none [OF assms(1)] find_entered [OF assms(1) lt]
        by (cases "entered p n ?t") (auto simp: defs zero_step hysteresis_def at_step_of steps_ok_def not_le)
    next
      case (Suc f)
      then have f: "f < n" "find (\<lambda>i. hys_of p cur = temp_1 (p ! i)) [0 ..< n] = Some f"
        using assms(2) find_step [OF assms(1), of f] by (simp_all add: hys_of_def)
      have top: "\<not> 0xFFFF \<le> temp" using mid(2) unsigned_less [of "temp_1 (p ! (n - 1))", where ?'a = nat] by (simp add: U_def word_le_nat_alt)
      have h: "hysteresis p n ?t cur = (if Suc f < n \<and> U p (Suc f) \<le> ?t then entered p n ?t else if ?t \<le> D p f then held p n ?t else Suc f)"
        by (simp add: hysteresis_def Suc)
      have cur: "hys_of p cur = hys_of p (Suc f)" "speed_of p (Suc f) = tb_speed (p ! f)" by (simp_all add: Suc speed_of_def)
      consider (up) "Suc f < n" "U p (Suc f) \<le> ?t" | (down) "\<not> (Suc f < n \<and> U p (Suc f) \<le> ?t)" "?t \<le> D p f"
        | (stay) "\<not> (Suc f < n \<and> U p (Suc f) \<le> ?t)" "D p f < ?t" by linarith
      then show ?thesis
      proof cases
        case up
        then have "f < n - 1" by simp
        with up f climb [OF assms(1) up] h mid show ?thesis by (simp add: defs not_le at_step_of)
      next
        case down
        with f descend [OF assms(1) f(1) down(2) mid(1)] h mid top show ?thesis by (auto simp: defs not_le not_less at_step_of)
      next
        case stay
        with f h mid top cur show ?thesis by (auto simp: defs not_le)
      qed
    qed
  qed
qed

text \<open>
  C25. The stepwise tables implement the hysteresis: on a table whose temperatures ascend and whose
  lower temperatures lie below the upper ones, with the stored temperature that stands for any number
  of active steps, the code returns the speed of the number of steps the specification demands, and
  stores the temperature that stands for it.
\<close>

theorem stepwise_refines_hysteresis:
  assumes "steps_ok p n" "cur \<le> n"
  shows "app_fan_ctrl_stepwise_speed p n temp (hys_of p cur) =
     (let c = hysteresis p n (unat temp) cur in (speed_of p c, hys_of p c))"
  by (rule stepwise_refines_hysteresis_aux [OF assms])

lemma stepwise_refines_hysteresis_witness:
  "let p = tb_item (g_fan_speed_table_init ! 0 ! 0 ! 0) in
   app_fan_ctrl_stepwise_speed p 5 66 (hys_of p 3) = (let c = hysteresis p 5 (unat (66 :: u16)) 3 in (speed_of p c, hys_of p c))"
proof -
  have "steps_ok (tb_item (g_fan_speed_table_init ! 0 ! 0 ! 0)) 5" by code_simp
  then show ?thesis using stepwise_refines_hysteresis [where cur = 3 and temp = 66] by simp
qed

section \<open>The tables of the board\<close>

definition good_table :: "tbi list \<Rightarrow> bool" where
  "good_table p \<longleftrightarrow> steps_ok p (table_size p) \<and> (\<forall>j \<le> table_size p. \<forall>i \<le> j. speed_of p i \<le> speed_of p j) \<and> speed_of p 1 \<noteq> 0"

definition rising :: "(u8 \<times> u8 \<times> u16) list \<Rightarrow> bool" where
  "rising l \<longleftrightarrow> l \<noteq> [] \<and> length l \<le> FAN_CTRL_SPEED_TABLE_ITEM_NUM \<and> list_all (\<lambda>(u, d, v). d < u \<and> v \<noteq> 0) l \<and>
     sorted_wrt (\<lambda>(u, d, v) (u', d', v'). u < u' \<and> d \<le> d' \<and> v \<le> v') l"

lemma rising_nth:
  assumes "rising l" "j < length l"
  shows "let p = tb_item (stepwise_table l); (u, d, v) = l ! j in
     temp_1 (p ! j) = u \<and> temp_2 (p ! j) = d \<and> tb_speed (p ! j) = v \<and> d < u \<and> v \<noteq> 0 \<and>
     (\<forall>i < j. let (u', d', v') = l ! i in u' < u \<and> d' \<le> d \<and> v' \<le> v)"
proof -
  have "case l ! j of (u, d, v) \<Rightarrow> d < u \<and> v \<noteq> 0" using assms by (simp add: rising_def list_all_length)
  moreover have "case (l ! i, l ! j) of ((u', d', v'), (u, d, v)) \<Rightarrow> u' < u \<and> d' \<le> d \<and> v' \<le> v" if "i < j" for i
    using assms that by (auto simp: rising_def sorted_wrt_iff_nth_less split: prod.splits)
  ultimately show ?thesis using assms(2)
    by (simp add: stepwise_table_def fill_def nth_append Let_def split: prod.splits) fastforce
qed

lemma rising_size:
  assumes "rising l"
  shows "table_size (tb_item (stepwise_table l)) = length l"
proof -
  let ?p = "tb_item (stepwise_table l)"
  have "length ?p = FAN_CTRL_SPEED_TABLE_ITEM_NUM" using assms by (simp add: stepwise_table_def fill_def rising_def)
  have "\<forall>e \<in> set (map (\<lambda>(a, b, c). \<lparr>temp_1 = a, temp_2 = b, tb_speed = c\<rparr>) l). temp_1 e \<noteq> 0"
    using assms by (auto simp: rising_def list_all_iff)
  then show ?thesis
    using assms by (simp add: table_size_def stepwise_table_def fill_def rising_def takeWhile_append takeWhile_replicate)
qed

lemma rising_good:
  assumes "rising l"
  shows "good_table (tb_item (stepwise_table l))"
proof -
  let ?p = "tb_item (stepwise_table l)"
  note nth = rising_nth [OF assms, unfolded Let_def]
  have "steps_ok ?p (length l)"
    unfolding steps_ok_def
  proof (intro conjI allI impI)
    show "0 < length l" using assms by (simp add: rising_def)
    fix j assume j: "j < length l"
    show "D ?p j < U ?p j" using nth [OF j] by (auto simp: U_def D_def word_less_nat_alt split: prod.splits)
    fix i assume i: "i < j"
    with j have "i < length l" by simp
    from nth [OF this] nth [OF j] i show "U ?p i < U ?p j" "D ?p i \<le> D ?p j"
      by (auto simp: U_def D_def word_less_nat_alt word_le_nat_alt split: prod.splits)
  qed
  moreover have "speed_of ?p i \<le> speed_of ?p j" if "i \<le> j" "j \<le> length l" for i j
  proof (cases "i = 0 \<or> i = j")
    case False
    then have "0 < i" "i < j" using that(1) by auto
    then obtain a b where ab: "i = Suc a" "j = Suc b" "a < b" by (metis Suc_less_SucD gr0_implies_Suc less_trans)
    with that(2) have "a < length l" "b < length l" by auto
    from nth [OF this(1)] nth [OF this(2)] ab show ?thesis by (auto simp: speed_of_def split: prod.splits)
  qed (auto simp: speed_of_def)
  moreover have "speed_of ?p 1 \<noteq> 0" using nth [of 0] assms by (auto simp: speed_of_def rising_def split: prod.splits)
  ultimately show ?thesis by (simp add: good_table_def rising_size [OF assms])
qed

text \<open>Every table of the board is one.\<close>

lemma board_tables_good:
  "list_all (list_all (list_all (\<lambda>pt. good_table (tb_item pt) \<and> tb_type pt = 1 \<and> spike_temp pt = 0))) g_fan_speed_table_init"
proof -
  have t: "tb_type (stepwise_table l) = 1" "spike_temp (stepwise_table l) = 0" for l by (simp_all add: stepwise_table_def)
  show ?thesis unfolding g_fan_speed_table_init_def
    by (simp only: list.pred_inject t, intro conjI TrueI rising_good) (simp_all add: rising_def FAN_CTRL_SPEED_TABLE_ITEM_NUM_def)
qed

lemma board_table_size:
  "length g_fan_speed_table_init = 2" "dev < 2 \<Longrightarrow> length (g_fan_speed_table_init ! dev) = 3"
  "dev < 2 \<Longrightarrow> m < 3 \<Longrightarrow> length (g_fan_speed_table_init ! dev ! m) = 2"
proof -
  have "\<forall>x \<in> set g_fan_speed_table_init. length x = 3 \<and> (\<forall>y \<in> set x. length y = 2)" "length g_fan_speed_table_init = 2"
    by (simp_all add: g_fan_speed_table_init_def)
  then show len: "length g_fan_speed_table_init = 2" "dev < 2 \<Longrightarrow> length (g_fan_speed_table_init ! dev) = 3"
    and "dev < 2 \<Longrightarrow> m < 3 \<Longrightarrow> length (g_fan_speed_table_init ! dev ! m) = 2"
    by (metis nth_mem)+
qed

lemma board_table:
  assumes "dev < 2" "m < 3" "k < 2"
  shows "good_table (tb_item (g_fan_speed_table_init ! dev ! m ! k)) \<and> tb_type (g_fan_speed_table_init ! dev ! m ! k) = 1 \<and>
     spike_temp (g_fan_speed_table_init ! dev ! m ! k) = 0"
proof -
  have "list_all (list_all (\<lambda>pt. good_table (tb_item pt) \<and> tb_type pt = 1 \<and> spike_temp pt = 0)) (g_fan_speed_table_init ! dev)"
    using board_tables_good assms(1) board_table_size(1) unfolding list_all_length by simp
  then have "list_all (\<lambda>pt. good_table (tb_item pt) \<and> tb_type pt = 1 \<and> spike_temp pt = 0) (g_fan_speed_table_init ! dev ! m)"
    using assms board_table_size(2) unfolding list_all_length by simp
  then show ?thesis using assms board_table_size(3) unfolding list_all_length by simp
qed

section \<open>Any history of temperatures\<close>

definition hys_after :: "tbi list \<Rightarrow> u16 list \<Rightarrow> u8" where
  "hys_after p ts = fold (\<lambda>t h. snd (app_fan_ctrl_target_speed_calculate p h t True)) ts 0"

lemma target_step:
  fixes t :: u16
  assumes "good_table p" "cur \<le> table_size p"
  defines "c \<equiv> hysteresis p (table_size p) (unat t) cur"
  shows "app_fan_ctrl_target_speed_calculate p (hys_of p cur) t True = (speed_of p c, hys_of p c)" "c \<le> table_size p"
    "entered p (table_size p) (unat t) \<le> c" "c \<le> held p (table_size p) (unat t)"
proof -
  have ok: "steps_ok p (table_size p)" using assms(1) by (simp add: good_table_def)
  then have "table_size p \<noteq> 0" by (simp add: steps_ok_def)
  then show "app_fan_ctrl_target_speed_calculate p (hys_of p cur) t True = (speed_of p c, hys_of p c)"
    unfolding c_def by (simp add: app_fan_ctrl_target_speed_calculate_def stepwise_refines_hysteresis_aux [OF ok assms(2)] Let_def)
  show "c \<le> table_size p" "entered p (table_size p) (unat t) \<le> c" "c \<le> held p (table_size p) (unat t)"
    unfolding c_def by (rule hysteresis_between [OF ok assms(2)])+
qed

lemma hys_after_of: "good_table p \<Longrightarrow> \<exists>cur \<le> table_size p. hys_after p ts = hys_of p cur"
proof (induction ts rule: rev_induct)
  case Nil
  show ?case by (intro exI [of _ 0]) (simp add: hys_after_def zero_step)
next
  case (snoc t ts)
  then obtain cur where cur: "cur \<le> table_size p" "hys_after p ts = hys_of p cur" by blast
  have "hys_after p (ts @ [t]) = snd (app_fan_ctrl_target_speed_calculate p (hys_after p ts) t True)" by (simp add: hys_after_def)
  with cur target_step(1,2) [OF snoc.prems cur(1), of t] show ?case by auto
qed

lemma good_table_bounds:
  assumes "good_table p" "entered p (table_size p) (unat t) \<le> c" "c \<le> held p (table_size p) (unat t)"
  shows "i < table_size p \<Longrightarrow> up_temp p i \<le> t \<Longrightarrow> tb_speed (p ! i) \<le> speed_of p c"
    "speed_of p c \<noteq> 0 \<Longrightarrow> \<exists>i < table_size p. tb_speed (p ! i) = speed_of p c \<and> down_temp p i < t"
proof -
  have ok: "steps_ok p (table_size p)" using assms(1) by (simp add: good_table_def)
  have le: "c \<le> table_size p" using assms(3) held_le [OF ok] by (rule le_trans)
  {
    assume i: "i < table_size p" "up_temp p i \<le> t"
    then have "i < entered p (table_size p) (unat t)" using entered_iff [OF ok, of i "unat t"] by (simp add: temp_le)
    then have "Suc i \<le> c" using assms(2) by simp
    then have "speed_of p (Suc i) \<le> speed_of p c" using assms(1) le by (simp add: good_table_def)
    then show "tb_speed (p ! i) \<le> speed_of p c" by (simp add: speed_of_def)
  next
    assume "speed_of p c \<noteq> 0"
    then obtain i where i: "c = Suc i" by (cases c) (auto simp: zero_step)
    then have "i < held p (table_size p) (unat t)" using assms(3) by simp
    then have "i < table_size p" "D p i < unat t" using held_iff [OF ok, of i "unat t"] by auto
    then show "\<exists>i < table_size p. tb_speed (p ! i) = speed_of p c \<and> down_temp p i < t"
      using i by (intro exI [of _ i]) (simp add: temp_le speed_of_def)
  }
qed

text \<open>
  C26. The tables of the board never leave the fan slower than the temperature demands: after any
  history of temperatures, for every table of the board, the speed is at least that of each step whose
  upper temperature is reached, and a speed other than 0 is that of a step whose lower temperature is
  exceeded.
\<close>

theorem board_fan_cools:
  assumes "dev < 2" "m < 3" "k < 2"
  shows "let p = tb_item (g_fan_speed_table_init ! dev ! m ! k);
             v = fst (app_fan_ctrl_target_speed_calculate p (hys_after p ts) t True)
         in (\<forall>i < table_size p. up_temp p i \<le> t \<longrightarrow> tb_speed (p ! i) \<le> v) \<and>
            (v \<noteq> 0 \<longrightarrow> (\<exists>i < table_size p. tb_speed (p ! i) = v \<and> down_temp p i < t))"
proof -
  let ?p = "tb_item (g_fan_speed_table_init ! dev ! m ! k)"
  have good: "good_table ?p"
    using board_table [OF assms] by simp
  then obtain cur where cur: "cur \<le> table_size ?p" "hys_after ?p ts = hys_of ?p cur" using hys_after_of by blast
  note step = target_step [OF good cur(1), of t]
  show ?thesis using good_table_bounds [OF good step(3,4)] by (simp add: Let_def cur(2) step(1))
qed

lemma board_fan_cools_witness:
  "let p = tb_item (g_fan_speed_table_init ! 1 ! 2 ! 0);
       v = fst (app_fan_ctrl_target_speed_calculate p (hys_after p [90, 71]) 66 True)
   in (\<forall>i < table_size p. up_temp p i \<le> 66 \<longrightarrow> tb_speed (p ! i) \<le> v) \<and>
      (v \<noteq> 0 \<longrightarrow> (\<exists>i < table_size p. tb_speed (p ! i) = v \<and> down_temp p i < 66))"
  using board_fan_cools [of 1 2 0 "[90, 71]" 66] by simp

end
