(* ===== verification/Fan_Ramp.thy ===== *)
theory Fan_Ramp
  imports Fan_Props
begin

text \<open>
  The Dorne board in its mode, the ramp control: the rounds of the thread never fault and keep every
  duty at 0 or between the start value and the resolution, whatever the sensors report; and a fan
  that turned at its start duty when the system went to sleep does not turn again while it is hot.
\<close>

section \<open>Invariant of the devices\<close>

definition tables_of :: "profile_table list list \<Rightarrow> profile_table list list \<Rightarrow> bool" where
  "tables_of a b \<longleftrightarrow> length a = 3 \<and> (\<forall>m < 3. length (a ! m) = 2 \<and> (\<forall>k < 2.
     tb_item (a ! m ! k) = tb_item (b ! m ! k) \<and> tb_type (a ! m ! k) = 1 \<and>
     (\<exists>cur \<le> table_size (tb_item (b ! m ! k)). spike_temp (a ! m ! k) = hys_of (tb_item (b ! m ! k)) cur)))"

definition dorne_dev :: "fan_dev \<Rightarrow> bool" where
  "dorne_dev d \<longleftrightarrow> ctrl_type d = FAN_RPM_RAMP_RATE_CONTROL \<and> pCtrl_profile d = s_fan_dev_calibration_init FAN_RPM_RAMP_RATE_CONTROL \<and>
     resolution d = 1000 \<and> tb_select d < 3 \<and> overrideTemp d = 0 \<and> overrideTargetSpeed d = 0 \<and> overridePercentage d = 0 \<and>
     (\<exists>i < 2. tables_of (pTable d) (g_fan_speed_table_init ! i))"

definition duty_ok :: "u16 \<Rightarrow> bool" where
  "duty_ok v \<longleftrightarrow> v = 0 \<or> 200 \<le> v \<and> v \<le> 1000"

text \<open>The controller with its debug registers untouched, and only such duties set so far; \<open>b\<close>: switched on.\<close>

definition plain :: "bool \<Rightarrow> fanctl \<Rightarrow> bool" where
  "plain b s \<longleftrightarrow> on_off_flag s = b \<and> g_fan_ctrl_enabled s \<and> updated_cnt s = 0 \<and> length (sys_dbg s) = 22 \<and> pwm_w s = 0xFF \<and> temp_w s = 0xFF \<and>
     (\<forall>ch v. Set_speed ch v \<in> set (fan_evs s) \<longrightarrow> duty_ok v)"

lemma walk_inv:
  assumes "\<And>d s. P d \<Longrightarrow> Q s \<Longrightarrow> usable d \<Longrightarrow> \<exists>d' s'. f d s = Inr (d', s') \<and> R d' \<and> Q s'"
    and "\<And>d. P d \<Longrightarrow> \<not> usable d \<Longrightarrow> R d"
  shows "\<forall>d \<in> set ds. P d \<Longrightarrow> Q s \<Longrightarrow> \<exists>ds' s'. walk f ds s = Inr (ds', s') \<and> (\<forall>d \<in> set ds'. R d) \<and> Q s'"
proof (induction ds arbitrary: s)
  case (Cons d ds)
  obtain d' s1 where one: "(if usable d then f d s else Inr (d, s)) = Inr (d', s1)" "R d'" "Q s1"
    using assms(1) [of d s] assms(2) [of d] Cons.prems by (cases "usable d") auto
  obtain ds' s2 where "walk f ds s1 = Inr (ds', s2)" "\<forall>d \<in> set ds'. R d" "Q s2"
    using Cons.IH [of s1] Cons.prems one(3) by auto
  with one show ?case by simp
qed simp

lemma for_devs_inv:
  assumes "\<And>d s. P d \<Longrightarrow> Q s \<Longrightarrow> usable d \<Longrightarrow> \<exists>d' s'. f d s = Inr (d', s') \<and> R d' \<and> Q s'"
    and "\<And>d. P d \<Longrightarrow> \<not> usable d \<Longrightarrow> R d" and "\<And>s ds. Q (s\<lparr>devs := ds\<rparr>) = Q s"
    and "\<forall>d \<in> set (devs s). P d" "Q s"
  shows "\<exists>s'. for_devs f s = Inr s' \<and> (\<forall>d \<in> set (devs s'). R d) \<and> Q s'"
proof -
  obtain ds' s1 where "walk f (devs s) s = Inr (ds', s1)" "\<forall>d \<in> set ds'. R d" "Q s1"
    using walk_inv [of P Q f R "devs s" s] assms by blast
  then show ?thesis by (simp add: for_devs_def assms(3))
qed

lemma plain_devs: "plain b (s\<lparr>devs := ds\<rparr>) = plain b s"
  by (simp add: plain_def pwm_w_def temp_w_def)

section \<open>Target speed\<close>

lemma tables_of_update:
  assumes "tables_of a b" "m < 3" "k < 2" "cur \<le> table_size (tb_item (b ! m ! k))"
  shows "tables_of (a[m := (a ! m)[k := (a ! m ! k)\<lparr>spike_temp := hys_of (tb_item (b ! m ! k)) cur\<rparr>]]) b"
  using assms by (auto simp: tables_of_def nth_list_update)

lemma first_up_temp:
  assumes "i < 2" "m < 3"
  shows "up_temp (tb_item (g_fan_speed_table_init ! i ! m ! 0)) 0 \<le> 56"
proof -
  have "list_all (list_all (\<lambda>row. up_temp (tb_item (row ! 0)) 0 \<le> 56)) g_fan_speed_table_init"
    by (simp add: g_fan_speed_table_init_def up_temp_def stepwise_table_def fill_def)
  then have "list_all (\<lambda>row. up_temp (tb_item (row ! 0)) 0 \<le> 56) (g_fan_speed_table_init ! i)"
    using assms(1) board_table_size(1) unfolding list_all_length by simp
  then show ?thesis using assms board_table_size(2) unfolding list_all_length by simp
qed

lemma ucast_16_32: "(ucast (w :: u16) :: u32) = 0 \<longleftrightarrow> w = 0"
  using unsigned_less [of w, where ?'a = nat] by (simp add: word_eq_iff_unsigned unsigned_ucast_eq take_bit_nat_eq_self flip: unat_eq_zero)

lemma speed_calculate_dorne:
  assumes "dorne_dev d" "type < 2"
  shows "\<exists>v a. app_fan_ctrl_speed_calculate t type d = Inr (v, d\<lparr>pTable := a\<rparr>) \<and> dorne_dev (d\<lparr>pTable := a\<rparr>) \<and>
     v \<le> 0xFFFF \<and> (type = 0 \<and> 56 \<le> t \<longrightarrow> v \<noteq> 0)"
proof -
  obtain i where i: "i < 2" "tables_of (pTable d) (g_fan_speed_table_init ! i)" using assms(1) by (auto simp: dorne_dev_def)
  let ?m = "unat (tb_select d)" and ?b = "g_fan_speed_table_init ! i"
  let ?p = "tb_item (?b ! ?m ! type)" and ?pt = "pTable d ! ?m ! type"
  have m: "?m < 3" using assms(1) by (simp add: dorne_dev_def word_less_nat_alt)
  with i assms(2) have pt: "length (pTable d) = 3" "length (pTable d ! ?m) = 2" "tb_item ?pt = ?p" "tb_type ?pt = 1"
    by (simp_all add: tables_of_def)
  obtain cur where cur: "cur \<le> table_size ?p" "spike_temp ?pt = hys_of ?p cur"
    using i m assms(2) by (auto simp: tables_of_def)
  have good: "good_table ?p" using board_table [OF i(1) m assms(2)] by simp
  note step = target_step [OF good cur(1), of t]
  let ?c = "hysteresis ?p (table_size ?p) (unat t) cur"
  let ?a = "(pTable d)[?m := (pTable d ! ?m)[type := ?pt\<lparr>spike_temp := hys_of ?p ?c\<rparr>]]"
  have "app_fan_ctrl_speed_calculate t type d = Inr (ucast (speed_of ?p ?c), d\<lparr>pTable := ?a\<rparr>)"
    using assms m pt cur(2) step(1) by (simp add: app_fan_ctrl_speed_calculate_def dorne_dev_def ld_def)
  moreover have "dorne_dev (d\<lparr>pTable := ?a\<rparr>)"
    using assms(1) i tables_of_update [OF i(2) m assms(2) step(2)] by (auto simp: dorne_dev_def)
  moreover have "(ucast (speed_of ?p ?c) :: u32) \<noteq> 0" if hot: "type = 0" "56 \<le> t"
  proof -
    have "table_size ?p \<noteq> 0" using good by (simp add: good_table_def steps_ok_def)
    moreover have "up_temp ?p 0 \<le> 56" using first_up_temp [OF i(1) m] hot by simp
    ultimately have "tb_speed (?p ! 0) \<le> speed_of ?p ?c"
      using good_table_bounds(1) [OF good step(3,4), of 0] hot(2) by simp
    moreover have "tb_speed (?p ! 0) \<noteq> 0" using good by (simp add: good_table_def speed_of_def)
    ultimately have "speed_of ?p ?c \<noteq> 0" by auto
    then show ?thesis by (simp add: ucast_16_32)
  qed
  moreover have "(ucast (speed_of ?p ?c) :: u32) \<le> 0xFFFF"
    using unsigned_less [of "speed_of ?p ?c", where ?'a = nat]
    by (simp add: word_le_nat_alt unsigned_ucast_eq take_bit_nat_eq_self)
  ultimately show ?thesis by blast
qed

lemma highest_dorne:
  assumes "dorne_dev d" "\<forall>k \<in> set ks. k < 2" "v \<le> 0xFFFF"
  shows "\<exists>t' v' a. highest E ks t v d s = Inr (t', v', d\<lparr>pTable := a\<rparr>) \<and> dorne_dev (d\<lparr>pTable := a\<rparr>) \<and> v \<le> v' \<and> v' \<le> 0xFFFF \<and>
     (0 \<in> set ks \<and> 56 \<le> app_fan_ctrl_temp_calculate E d 0 s \<longrightarrow> v' \<noteq> 0)"
  using assms
proof (induction ks arbitrary: t v d)
  case Nil
  then show ?case by (auto intro!: exI [of _ "pTable d"])
next
  case (Cons k ks)
  let ?t = "app_fan_ctrl_temp_calculate E d k s"
  obtain w a where one: "app_fan_ctrl_speed_calculate ?t k d = Inr (w, d\<lparr>pTable := a\<rparr>)" "dorne_dev (d\<lparr>pTable := a\<rparr>)"
    "k = 0 \<and> 56 \<le> ?t \<longrightarrow> w \<noteq> 0" "w \<le> 0xFFFF"
    using speed_calculate_dorne [OF Cons.prems(1), of k ?t] Cons.prems(2) by auto
  have same: "app_fan_ctrl_temp_calculate E (d\<lparr>pTable := a\<rparr>) 0 s = app_fan_ctrl_temp_calculate E d 0 s"
    by (simp add: app_fan_ctrl_temp_calculate_def)
  define nt where "nt = (if v \<le> w then ?t else t)"
  define nv where "nv = (if v \<le> w then w else v)"
  have nv: "v \<le> nv" "w \<le> nv" "nv \<le> 0xFFFF" using one(4) Cons.prems(3) by (auto simp: nv_def)
  obtain t' v' b where rest: "highest E ks nt nv (d\<lparr>pTable := a\<rparr>) s = Inr (t', v', d\<lparr>pTable := a, pTable := b\<rparr>)"
    "dorne_dev (d\<lparr>pTable := a, pTable := b\<rparr>)" "nv \<le> v'"
    "v' \<le> 0xFFFF" "0 \<in> set ks \<and> 56 \<le> app_fan_ctrl_temp_calculate E (d\<lparr>pTable := a\<rparr>) 0 s \<longrightarrow> v' \<noteq> 0"
    using Cons.IH [OF one(2), where t = nt and v = nv] Cons.prems(2) nv(3) by auto
  have "highest E (k # ks) t v d s = Inr (t', v', d\<lparr>pTable := b\<rparr>)"
    using one(1) rest(1) by (simp add: Let_def nt_def nv_def split: if_splits)
  moreover have "v' \<noteq> 0" if "0 \<in> set (k # ks)" "56 \<le> app_fan_ctrl_temp_calculate E d 0 s"
    using that rest(3,5) nv one(3) same by auto
  ultimately show ?case using rest(2,3,4) nv by auto
qed

text \<open>Hot: the temperature of the CPU is at least the highest first temperature of the board's tables.\<close>

definition hot :: "fan_env \<Rightarrow> bool" where
  "hot E \<longleftrightarrow> (\<forall>i. 56 \<le> read_temp E i 0 \<and> read_temp E i 0 < 256)"

lemma hot_temp:
  assumes "hot E" "dorne_dev d" "plain b s"
  shows "56 \<le> app_fan_ctrl_temp_calculate E d 0 s"
proof -
  have "56 \<le> read_temp E (logicId d) 0" "read_temp E (logicId d) 0 < 256" using assms(1) by (auto simp: hot_def)
  then have "(56 :: u16) \<le> word_of_int (read_temp E (logicId d) 0)" by (simp add: word_le_def word_of_int_inverse uint_word_of_int)
  then show ?thesis using assms by (simp add: app_fan_ctrl_temp_calculate_def plain_def dorne_dev_def FAN_DBG_TEMP_DIS_def)
qed

lemma data_update_dorne:
  assumes "dorne_dev d" "plain b s"
  shows "\<exists>t v a. data_update_dev E d s = Inr (d\<lparr>pTable := a, reportInputTemp := t, reportSpeed := v\<rparr>, s\<lparr>sys_dbg := (sys_dbg s)[2 := ucast t]\<rparr>) \<and>
     dorne_dev (d\<lparr>pTable := a, reportInputTemp := t, reportSpeed := v\<rparr>) \<and> (hot E \<longrightarrow> ucast v \<noteq> (0 :: u16)) \<and>
     plain b (s\<lparr>sys_dbg := (sys_dbg s)[2 := ucast t]\<rparr>)"
proof -
  obtain t v a where "highest E [0 ..< FAN_TEMP_TYPE_NUMBER] 0 0 d s = Inr (t, v, d\<lparr>pTable := a\<rparr>)" "dorne_dev (d\<lparr>pTable := a\<rparr>)"
    "0 \<in> set [0 ..< FAN_TEMP_TYPE_NUMBER] \<and> 56 \<le> app_fan_ctrl_temp_calculate E d 0 s \<longrightarrow> v \<noteq> 0" "v \<le> 0xFFFF"
    using highest_dorne [OF assms(1), where ks = "[0 ..< FAN_TEMP_TYPE_NUMBER]" and E = E and t = 0 and v = 0 and s = s] by (auto simp: FAN_TEMP_TYPE_NUMBER_def)
  moreover have "ucast v = (0 :: u16) \<longleftrightarrow> v = 0" using \<open>v \<le> 0xFFFF\<close>
    by (simp add: word_eq_iff_unsigned unsigned_ucast_eq take_bit_nat_eq_self word_le_nat_alt flip: unat_eq_zero)
  moreover have "plain b (s\<lparr>sys_dbg := (sys_dbg s)[2 := ucast t]\<rparr>)"
    using assms(2) by (simp add: plain_def pwm_w_def temp_w_def)
  ultimately show ?thesis using hot_temp [OF _ assms]
    by (intro exI [of _ t] exI [of _ v] exI [of _ a]) (simp add: data_update_dev_def dorne_dev_def FAN_TEMP_TYPE_NUMBER_def)
qed

section \<open>The ramp\<close>

lemma ramp_control_range:
  assumes "duty_ok pwm" "Ramp_rate m up down = s_fan_dev_calibration_init FAN_RPM_RAMP_RATE_CONTROL"
  shows "\<exists>v. ramp_control m up down pwm t i = Inr v \<and> (v = 0 \<or> 200 \<le> v \<and> v \<le> 1040)"
proof -
  have r: "m = 200" "up = fill 10 (0, 0) [(500, 40), (250, 20), (60, 10), (30, 5)]"
    "down = fill 10 (0, 0) [(250, 20), (120, 10), (60, 5), (30, 2)]"
    using assms(2) by (simp_all add: s_fan_dev_calibration_init_def FAN_RPM_NO_CONTROL_def FAN_RPM_MANUAL_WITH_OFFSET_CONTROL_def
      FAN_RPM_MANUAL_WITH_CURVE_MAP_CONTROL_def FAN_RPM_PID_DISCRETIZE_CONTROL_def FAN_RPM_PID_INCREMENTAL_CONTROL_def FAN_RPM_RAMP_RATE_CONTROL_def)
  have six: "replicate 6 z = z # replicate 5 z" for z :: "u16 \<times> u16" by (simp add: numeral_eq_Suc)
  have up: "\<exists>r. ramp_find up x = Inr r \<and> (r = None \<or> (\<exists>w. r = Some w \<and> w \<le> 40))" for x by (simp add: r fill_def six)
  have down: "\<exists>r. ramp_find down x = Inr r" for x by (simp add: r fill_def six)
  have pwm: "uint pwm = 0 \<or> 200 \<le> uint pwm \<and> uint pwm \<le> 1000" using assms(1) by (auto simp: duty_ok_def word_le_def)
  obtain u where u: "ramp_find up (t - i) = Inr u" "u = None \<or> (\<exists>w. u = Some w \<and> w \<le> 40)" using up by blast
  obtain l where l: "ramp_find down (i - t) = Inr l" using down by blast
  have small: "uint w \<le> 40" if "w \<le> 40" for w :: u16 using that by (simp add: word_le_def)
  have big: "t = 0" if "pwm = 0" "\<not> (pwm = 0 \<and> t \<noteq> 0)" using that by simp
  show ?thesis
  proof (cases "pwm = 0 \<and> t \<noteq> 0")
    case True
    then show ?thesis by (simp add: ramp_control_def r)
  next
    case False
    show ?thesis
    proof (cases "t > i")
      case True
      with False have "pwm \<noteq> 0" by auto
      with pwm have p: "200 \<le> uint pwm" "uint pwm \<le> 1000" by (auto simp: unsigned_eq_0_iff)
      define up_by where "up_by = (case u of None \<Rightarrow> 0 | Some w \<Rightarrow> uint w)"
      have "0 \<le> up_by" "up_by \<le> 40" using u(2) small by (auto simp: up_by_def)
      moreover have "ramp_control m up down pwm t i = Inr (uint pwm + up_by)"
        using True \<open>pwm \<noteq> 0\<close> by (simp add: ramp_control_def u(1) up_by_def)
      ultimately show ?thesis using p by simp
    next
      case False2: False
      define cal where "cal = (case l of None \<Rightarrow> uint pwm | Some w \<Rightarrow> if pwm > w then uint pwm - uint w else 0)"
      have "cal \<le> uint pwm" by (cases l) (auto simp: cal_def)
      then have "cal \<le> 1000" using pwm by auto
      then show ?thesis using False False2 by (auto simp: ramp_control_def l r(1) simp flip: cal_def)
    qed
  qed
qed

lemma tach_only_counts: "\<exists>v k. tach_retry E ch n s = (v, s\<lparr>tach_reads := k\<rparr>)"
proof (induction n arbitrary: s)
  case 0
  show ?case by (intro exI [of _ 0] exI [of _ "tach_reads s"]) simp
next
  case (Suc n)
  show ?case using Suc.IH [of "s\<lparr>tach_reads := tach_reads s + 1\<rparr>"] by (auto simp: Let_def)
qed

lemma plain_simps:
  "plain b (s\<lparr>tach_reads := n\<rparr>) = plain b s" "plain b s \<Longrightarrow> plain c (s\<lparr>on_off_flag := c\<rparr>)"
  "plain b s \<Longrightarrow> plain b (app_fan_debug_sys_report_speed i v s)"
  "plain b s \<Longrightarrow> duty_ok v \<Longrightarrow> plain b (fan_emit (Set_speed ch v) s)"
  "plain b s \<Longrightarrow> plain b (fan_emit (Power_on i) s)" "plain b s \<Longrightarrow> plain b (fan_emit (Power_off i) s)"
  by (auto simp: plain_def pwm_w_def temp_w_def app_fan_debug_sys_report_speed_def wr16_def nth_list_update word_le_nat_alt fan_emit_def)

text \<open>The speed of a device in the mode of the board.\<close>

lemma ramp_cal:
  assumes "dorne_dev d" "duty_ok (pwm_value d)"
  shows "\<exists>v. app_fan_ctrl_rpmDataCalculate FAN_RPM_RAMP_RATE_CONTROL i d = Inr (v, d) \<and> (v = 0 \<or> 200 \<le> v \<and> v \<le> 1040) \<and>
     (pwm_value d = 0 \<and> ucast (reportSpeed d) \<noteq> (0 :: u16) \<longrightarrow> v = 200)"
proof -
  note d = assms(1) [unfolded dorne_dev_def]
  note nums = FAN_RPM_NO_CONTROL_def FAN_RPM_MANUAL_WITH_OFFSET_CONTROL_def FAN_RPM_MANUAL_WITH_CURVE_MAP_CONTROL_def
    FAN_RPM_PID_DISCRETIZE_CONTROL_def FAN_RPM_PID_INCREMENTAL_CONTROL_def FAN_RPM_RAMP_RATE_CONTROL_def
  obtain up down where r: "s_fan_dev_calibration_init FAN_RPM_RAMP_RATE_CONTROL = Ramp_rate 200 up down"
    by (simp add: s_fan_dev_calibration_init_def nums)
  obtain v where v: "ramp_control 200 up down (pwm_value d) (ucast (reportSpeed d)) i = Inr v" "v = 0 \<or> 200 \<le> v \<and> v \<le> 1040"
    using ramp_control_range [OF assms(2) r [symmetric]] by blast
  have eq: "app_fan_ctrl_rpmDataCalculate FAN_RPM_RAMP_RATE_CONTROL i d =
      map_sum id (\<lambda>v. (v, d)) (ramp_control 200 up down (pwm_value d) (ucast (reportSpeed d)) i)"
    using d r by (simp add: app_fan_ctrl_rpmDataCalculate_def nums)
  have "v = 200" if "pwm_value d = 0" "ucast (reportSpeed d) \<noteq> (0 :: u16)" using v(1) that by (simp add: ramp_control_def)
  with v eq show ?thesis by simp
qed

lemma rpmSet_dorne:
  assumes "dorne_dev d" "v = 0 \<or> 200 \<le> v \<and> v \<le> 1040" "plain b s"
  shows "\<exists>w s'. app_fan_ctrl_rpmSet d (word_of_int v) s = (d\<lparr>pwm_value := w\<rparr>, s') \<and> duty_ok w \<and> plain b s' \<and> (v = 200 \<longrightarrow> w = 200)"
proof -
  let ?w = "(if word_of_int v > (1000 :: u16) then 1000 else word_of_int v) :: u16"
  have "uint (word_of_int v :: u16) = v" using assms(2) by (auto simp: uint_word_of_int)
  then have w: "duty_ok ?w" "v = 200 \<longrightarrow> ?w = 200" using assms(2) by (auto simp: duty_ok_def word_le_def word_less_def)
  have "app_fan_ctrl_rpmSet d (word_of_int v) s = (d\<lparr>pwm_value := ?w\<rparr>, fan_emit (Set_speed (pwmChannel d) ?w) s)"
    using assms(1) by (simp add: app_fan_ctrl_rpmSet_def set_pwm_def dorne_dev_def FAN_RPM_RAMP_RATE_CONTROL_def Let_def)
  with w assms(3) show ?thesis by (blast intro: plain_simps)
qed

text \<open>One device in one round. A device at duty 0 that last calculated its start duty is not set again.\<close>

lemma control_dorne:
  assumes "dorne_dev d" "duty_ok (pwm_value d)" "plain b s"
  shows "\<exists>w c r s'. control_dev FAN_RPM_RAMP_RATE_CONTROL E d s =
       Inr (d\<lparr>pwm_value := w, reporCalculatedSpeed := c, reportRealRpm := r\<rparr>, s') \<and> duty_ok w \<and> plain b s' \<and>
     (pwm_value d = 0 \<and> ucast (reportSpeed d) \<noteq> (0 :: u16) \<longrightarrow>
        c = 200 \<and> w = (if reporCalculatedSpeed d = 200 then 0 else 200))"
proof -
  obtain v n where tach: "app_fan_ctrl_rpmGet E d s = (v, s\<lparr>tach_reads := n\<rparr>)"
    using tach_only_counts unfolding app_fan_ctrl_rpmGet_def by blast
  let ?s = "s\<lparr>tach_reads := n\<rparr>" and ?r = "word_of_int v :: u16"
  have plain: "plain b ?s" "pwm_w ?s = FAN_DBG_PWM_DIS" "overridePercentage d = 0" using assms(1,3)
    by (simp_all add: plain_simps) (simp_all add: plain_def pwm_w_def FAN_DBG_PWM_DIS_def dorne_dev_def)
  obtain cal where cal: "app_fan_ctrl_rpmDataCalculate FAN_RPM_RAMP_RATE_CONTROL ?r d = Inr (cal, d)"
    "cal = 0 \<or> 200 \<le> cal \<and> cal \<le> 1040" "pwm_value d = 0 \<and> ucast (reportSpeed d) \<noteq> (0 :: u16) \<longrightarrow> cal = 200"
    using ramp_cal [OF assms(1,2)] by blast
  have u200: "uint x = 200 \<longleftrightarrow> x = 200" for x :: u16 using word_uint_eq_iff [of x 200] by simp
  show ?thesis
  proof (cases "uint (reporCalculatedSpeed d) = cal")
    case True
    then have "control_dev FAN_RPM_RAMP_RATE_CONTROL E d s =
        Inr (d\<lparr>reportRealRpm := ?r\<rparr>, app_fan_debug_sys_report_speed (logicId d) ?r ?s)"
      using tach plain cal(1) by (simp add: control_dev_def Let_def)
    moreover have "d\<lparr>reportRealRpm := ?r\<rparr> = d\<lparr>pwm_value := pwm_value d, reporCalculatedSpeed := reporCalculatedSpeed d, reportRealRpm := ?r\<rparr>"
      by simp
    moreover have "plain b (app_fan_debug_sys_report_speed (logicId d) ?r ?s)" by (rule plain_simps(3) [OF plain(1)])
    moreover have "pwm_value d = 0 \<and> ucast (reportSpeed d) \<noteq> (0 :: u16) \<longrightarrow>
        reporCalculatedSpeed d = 200 \<and> pwm_value d = (if reporCalculatedSpeed d = 200 then 0 else 200)"
      using cal(3) True u200 by auto
    ultimately show ?thesis using assms(2) by metis
  next
    case False
    obtain w s' where set: "app_fan_ctrl_rpmSet d (word_of_int cal) ?s = (d\<lparr>pwm_value := w\<rparr>, s')" "duty_ok w" "plain b s'" "cal = 200 \<longrightarrow> w = 200"
      using rpmSet_dorne [OF assms(1) cal(2) plain(1)] by blast
    have "control_dev FAN_RPM_RAMP_RATE_CONTROL E d s =
        Inr (d\<lparr>pwm_value := w, reporCalculatedSpeed := word_of_int cal, reportRealRpm := ?r\<rparr>, app_fan_debug_sys_report_speed (logicId d) ?r s')"
      using tach plain cal(1) False set(1) by (simp add: control_dev_def Let_def)
    moreover have "plain b (app_fan_debug_sys_report_speed (logicId d) ?r s')" by (rule plain_simps(3) [OF set(3)])
    moreover have "pwm_value d = 0 \<and> ucast (reportSpeed d) \<noteq> (0 :: u16) \<longrightarrow>
        (word_of_int cal :: u16) = 200 \<and> w = (if reporCalculatedSpeed d = 200 then 0 else 200)"
      using cal(3) False set(4) u200 by auto
    ultimately show ?thesis using set(2) by metis
  qed
qed

lemma power_dorne:
  assumes "dorne_dev d" "plain b s"
  shows "\<exists>s'. power_dev FAN_RPM_RAMP_RATE_CONTROL on d s = Inr (if on then d else d\<lparr>pwm_value := 0\<rparr>, s') \<and> plain b s'"
proof -
  have flush: "app_fan_ctrl_data_flush FAN_RPM_RAMP_RATE_CONTROL d = d"
    by (simp add: app_fan_ctrl_data_flush_def FAN_RPM_RAMP_RATE_CONTROL_def FAN_RPM_PID_INCREMENTAL_CONTROL_def FAN_RPM_PID_DISCRETIZE_CONTROL_def)
  have "duty_ok 0" by (simp add: duty_ok_def)
  with assms show ?thesis
    by (cases on) (auto simp: power_dev_def flush app_fan_ctrl_pwmSet_def set_pwm_def Let_def intro: plain_simps)
qed

lemma dorne_dev_simps:
  "dorne_dev (d\<lparr>pwm_value := w, reporCalculatedSpeed := c, reportRealRpm := r\<rparr>) = dorne_dev d" "dorne_dev (d\<lparr>pwm_value := w\<rparr>) = dorne_dev d"
  "dorne_dev (d\<lparr>isInit := i\<rparr>) = dorne_dev d" "usable (d\<lparr>pwm_value := w, reporCalculatedSpeed := c, reportRealRpm := r\<rparr>) = usable d"
  "usable (d\<lparr>pwm_value := w\<rparr>) = usable d" "usable (d\<lparr>pTable := a, reportInputTemp := t, reportSpeed := v\<rparr>) = usable d"
  by (simp_all add: dorne_dev_def usable_def)

section \<open>Rounds\<close>

text \<open>What the steps of a round do to the property that all devices have.\<close>

definition sound :: "(fan_dev \<Rightarrow> bool) \<Rightarrow> bool" where
  "sound P \<longleftrightarrow> (\<forall>d. P d \<longrightarrow> dorne_dev d \<and> duty_ok (pwm_value d))"

definition updates :: "fan_env \<Rightarrow> (fan_dev \<Rightarrow> bool) \<Rightarrow> (fan_dev \<Rightarrow> bool) \<Rightarrow> bool" where
  "updates E P Q \<longleftrightarrow> (\<forall>d. P d \<and> \<not> usable d \<longrightarrow> Q d) \<and>
     (\<forall>d a t v. P d \<and> usable d \<and> dorne_dev (d\<lparr>pTable := a, reportInputTemp := t, reportSpeed := v\<rparr>) \<and> (hot E \<longrightarrow> ucast v \<noteq> (0 :: u16)) \<longrightarrow>
        Q (d\<lparr>pTable := a, reportInputTemp := t, reportSpeed := v\<rparr>))"

definition controls :: "(fan_dev \<Rightarrow> bool) \<Rightarrow> (fan_dev \<Rightarrow> bool) \<Rightarrow> bool" where
  "controls P Q \<longleftrightarrow> (\<forall>d. P d \<and> \<not> usable d \<longrightarrow> Q d) \<and>
     (\<forall>d w c r. P d \<and> usable d \<and> duty_ok w \<and>
        (pwm_value d = 0 \<and> ucast (reportSpeed d) \<noteq> (0 :: u16) \<longrightarrow> c = 200 \<and> w = (if reporCalculatedSpeed d = 200 then 0 else 200)) \<longrightarrow>
        Q (d\<lparr>pwm_value := w, reporCalculatedSpeed := c, reportRealRpm := r\<rparr>))"

definition sleeps :: "(fan_dev \<Rightarrow> bool) \<Rightarrow> (fan_dev \<Rightarrow> bool) \<Rightarrow> bool" where
  "sleeps P Q \<longleftrightarrow> (\<forall>d. P d \<and> \<not> usable d \<longrightarrow> Q d) \<and> (\<forall>d. P d \<and> usable d \<longrightarrow> Q (d\<lparr>pwm_value := 0\<rparr>))"

lemma power_round:
  assumes "sound P" "if on then Q = P else sleeps P Q" "\<forall>d \<in> set (devs s). P d" "plain b s"
  shows "\<exists>s'. app_fan_sys_power_control FAN_RPM_RAMP_RATE_CONTROL on s = Inr s' \<and> (\<forall>d \<in> set (devs s'). Q d) \<and> plain b s'"
  unfolding app_fan_sys_power_control_def
proof (rule for_devs_inv [where P = P and Q = "plain b" and R = Q])
  fix d s assume "P d" "plain b s" "usable d"
  with assms(1,2) power_dorne [of d b s on]
  show "\<exists>d' s'. power_dev FAN_RPM_RAMP_RATE_CONTROL on d s = Inr (d', s') \<and> Q d' \<and> plain b s'"
    by (auto simp: sound_def sleeps_def split: if_splits)
qed (use assms plain_devs in \<open>auto simp: sleeps_def split: if_splits\<close>)

lemma update_round:
  assumes "sound P" "updates E P Q" "\<forall>d \<in> set (devs s). P d" "plain b s"
  shows "\<exists>s'. app_fan_data_update E s = Inr s' \<and> (\<forall>d \<in> set (devs s'). Q d) \<and> plain b s'"
  unfolding app_fan_data_update_def
proof (rule for_devs_inv [where P = P and Q = "plain b" and R = Q])
  fix d s assume d: "P d" "plain b s" "usable d"
  then have "dorne_dev d" using assms(1) by (simp add: sound_def)
  from data_update_dorne [OF this d(2), of E] d assms(2)
  show "\<exists>d' s'. data_update_dev E d s = Inr (d', s') \<and> Q d' \<and> plain b s'" unfolding updates_def by blast
qed (use assms plain_devs in \<open>auto simp: updates_def\<close>)

lemma control_round:
  assumes "sound P" "controls P Q" "\<forall>d \<in> set (devs s). P d" "plain b s"
  shows "\<exists>s'. app_fan_sys_control FAN_RPM_RAMP_RATE_CONTROL E s = Inr s' \<and> (\<forall>d \<in> set (devs s'). Q d) \<and> plain b s'"
  unfolding app_fan_sys_control_def
proof (rule for_devs_inv [where P = P and Q = "plain b" and R = Q])
  fix d s assume d: "P d" "plain b s" "usable d"
  then have "dorne_dev d" "duty_ok (pwm_value d)" using assms(1) by (simp_all add: sound_def)
  from control_dorne [OF this d(2), of E] d assms(2)
  show "\<exists>d' s'. control_dev FAN_RPM_RAMP_RATE_CONTROL E d s = Inr (d', s') \<and> Q d' \<and> plain b s'"
    unfolding controls_def by blast
qed (use assms plain_devs in \<open>auto simp: controls_def\<close>)

lemma round_S0:
  assumes "sound P" "updates E P Q" "sound Q" "controls Q R" "\<forall>d \<in> set (devs s). P d" "plain b s"
  shows "\<exists>s'. fanctrl_round FAN_RPM_RAMP_RATE_CONTROL E True s = Inr s' \<and> (\<forall>d \<in> set (devs s'). R d) \<and> plain True s'"
proof -
  obtain s1 where s1: "(if \<not> on_off_flag s then map_sum id (\<lambda>s'. s'\<lparr>on_off_flag := True\<rparr>) (app_fan_sys_power_control FAN_RPM_RAMP_RATE_CONTROL True s) else Inr s) = Inr s1"
    "\<forall>d \<in> set (devs s1). P d" "plain True s1"
  proof (cases "on_off_flag s")
    case True
    then have "plain True s" using assms(6) by (simp add: plain_def)
    with that [of s] True assms(5) show ?thesis by simp
  next
    case False
    obtain s' where "app_fan_sys_power_control FAN_RPM_RAMP_RATE_CONTROL True s = Inr s'" "\<forall>d \<in> set (devs s'). P d" "plain b s'"
      using power_round [OF assms(1) _ assms(5,6), of True P] by auto
    with that [of "s'\<lparr>on_off_flag := True\<rparr>"] False show ?thesis by (simp add: plain_simps)
  qed
  have c: "updated_cnt s1 = 0" "g_fan_ctrl_enabled s" using s1(3) assms(6) by (simp_all add: plain_def)
  have "s1\<lparr>updated_cnt := 0\<rparr> = s1" using c(1) by simp
  then obtain s2 where s2: "app_fan_data_update E (s1\<lparr>updated_cnt := 0\<rparr>) = Inr s2" "\<forall>d \<in> set (devs s2). Q d" "plain True s2"
    using update_round [OF assms(1,2) s1(2,3)] by auto
  show ?thesis using control_round [OF assms(3,4) s2(2,3), of E] s1(1) c s2(1)
    by (simp add: fanctrl_round_def app_fan_ctrl_sys_enabled_def updated_thd_def)
qed

lemma round_sleep:
  assumes "sound P" "sleeps P Q" "\<forall>d \<in> set (devs s). P d" "plain True s"
  shows "\<exists>s'. fanctrl_round FAN_RPM_RAMP_RATE_CONTROL E False s = Inr s' \<and> (\<forall>d \<in> set (devs s'). Q d) \<and> plain False s'"
proof -
  obtain s' where "app_fan_sys_power_control FAN_RPM_RAMP_RATE_CONTROL False s = Inr s'" "\<forall>d \<in> set (devs s'). Q d" "plain True s'"
    using power_round [OF assms(1) _ assms(3,4), of False Q] assms(2) by auto
  moreover have "on_off_flag s" using assms(4) by (simp add: plain_def)
  ultimately show ?thesis by (simp add: fanctrl_round_def plain_simps)
qed

lemma rounds_inv:
  assumes "sound P" "\<forall>(E, s0) \<in> set es. if s0 then updates E P P \<and> controls P P else sleeps P P"
    "\<forall>d \<in> set (devs s). P d" "plain b s"
  shows "\<exists>s' c. fan_rounds FAN_RPM_RAMP_RATE_CONTROL es s = Inr s' \<and> (\<forall>d \<in> set (devs s'). P d) \<and> plain c s'"
  using assms(2-)
proof (induction es arbitrary: s b)
  case (Cons e es)
  obtain E s0 where e: "e = (E, s0)" by fastforce
  have "\<exists>s1 c. fanctrl_round FAN_RPM_RAMP_RATE_CONTROL E s0 s = Inr s1 \<and> (\<forall>d \<in> set (devs s1). P d) \<and> plain c s1"
  proof (cases s0)
    case True
    then show ?thesis using round_S0 [OF assms(1) _ assms(1) _ Cons.prems(2,3), of E P] Cons.prems(1) e by auto
  next
    case False
    have "on_off_flag s = b" using Cons.prems(3) by (simp add: plain_def)
    have "sleeps P P" using Cons.prems(1) e False by simp
    show ?thesis
    proof (cases b)
      case True
      with False round_sleep [OF assms(1) \<open>sleeps P P\<close> Cons.prems(2), of E] Cons.prems(3) show ?thesis by fastforce
    next
      case nb: False
      with False \<open>on_off_flag s = b\<close> Cons.prems(2,3) show ?thesis by (auto simp: fanctrl_round_def)
    qed
  qed
  then obtain s1 c where s1: "fanctrl_round FAN_RPM_RAMP_RATE_CONTROL E s0 s = Inr s1" "\<forall>d \<in> set (devs s1). P d" "plain c s1" by auto
  then show ?case using Cons.IH [OF _ s1(2,3)] Cons.prems(1) e s1(1) by simp
qed auto

lemma dorne_start:
  "\<forall>d \<in> set (devs (dorne_fanctl FAN_RPM_RAMP_RATE_CONTROL oks)). dorne_dev d \<and> pwm_value d = 0 \<and> reporCalculatedSpeed d = 0"
  "plain False (dorne_fanctl FAN_RPM_RAMP_RATE_CONTROL oks)"
proof -
  let ?D = "\<lambda>d. dorne_dev d \<and> pwm_value d = 0 \<and> reporCalculatedSpeed d = 0"
  have t: "tables_of a a" if "i < 2" "a = g_fan_speed_table_init ! i" for a i
    using that board_table_size(2,3) board_table by (auto simp: tables_of_def zero_step intro!: exI [of _ 0])
  have each: "?D d" if "d \<in> set (g_fan_ctrl_data_init FAN_RPM_RAMP_RATE_CONTROL)" for d
  proof -
    have "\<exists>i < 2. tables_of (g_fan_speed_table_init ! 0) (g_fan_speed_table_init ! i)" using t [of 0] by (intro exI [of _ 0]) simp
    moreover have "\<exists>i < 2. tables_of (g_fan_speed_table_init ! 1) (g_fan_speed_table_init ! i)" using t [of 1] by (intro exI [of _ 1]) simp
    ultimately show ?thesis using that by (auto simp: g_fan_ctrl_data_init_def dorne_fan_def dorne_dev_def)
  qed
  have reg: "?D d \<Longrightarrow> \<forall>x \<in> set ds. ?D x \<Longrightarrow> \<forall>x \<in> set (board_fan_dev_init ok d ds). ?D x" for ok d ds
    by (simp add: board_fan_dev_init_def dorne_dev_simps)
  have init: "\<forall>d \<in> set (fold (\<lambda>(ok, d). board_fan_dev_init ok d) l ds). ?D d"
    if "\<forall>x \<in> set l. ?D (snd x)" "\<forall>d \<in> set ds. ?D d" for l ds
    using that
  proof (induction l arbitrary: ds)
    case (Cons x l)
    obtain ok d where x: "x = (ok, d)" by fastforce
    have "\<forall>y \<in> set (board_fan_dev_init ok d ds). ?D y" using Cons.prems x by (intro reg) simp_all
    moreover have "\<forall>x \<in> set l. ?D (snd x)" using Cons.prems(1) unfolding list.set by blast
    ultimately show ?case unfolding x fold_simps(2) prod.case by (rule Cons.IH [rotated])
  qed (simp only: fold_simps(1))
  have D: "devs (dorne_fanctl FAN_RPM_RAMP_RATE_CONTROL oks) = board_fan_ctrl_init (zip oks (g_fan_ctrl_data_init FAN_RPM_RAMP_RATE_CONTROL))"
    by (simp add: dorne_fanctl_def app_fan_dbg_int_def Let_def)
  have Z: "\<forall>x \<in> set (zip oks (g_fan_ctrl_data_init FAN_RPM_RAMP_RATE_CONTROL)). ?D (snd x)"
    using each set_zip_rightD by (metis prod.collapse)
  show "\<forall>d \<in> set (devs (dorne_fanctl FAN_RPM_RAMP_RATE_CONTROL oks)). ?D d"
    unfolding D board_fan_ctrl_init_def by (rule init [OF Z]) (simp only: list.set ball_empty)
  show "plain False (dorne_fanctl FAN_RPM_RAMP_RATE_CONTROL oks)"
    by (simp add: dorne_fanctl_def app_fan_dbg_int_def plain_def pwm_w_def temp_w_def sys_dbg_size_def is_pid_def Let_def
      FAN_RPM_RAMP_RATE_CONTROL_def FAN_RPM_PID_INCREMENTAL_CONTROL_def FAN_RPM_PID_DISCRETIZE_CONTROL_def)
qed

text \<open>
  C27. Whatever the sensors and tachometers report and whenever the system sleeps, the rounds of the
  fan thread of the board never fault, and every duty that was set, and every one in force, is 0 or
  lies between the start duty and the resolution.
\<close>

theorem fan_duty_in_range:
  "\<exists>s. fan_rounds FAN_RPM_RAMP_RATE_CONTROL es (dorne_fanctl FAN_RPM_RAMP_RATE_CONTROL oks) = Inr s \<and>
     (\<forall>ch v. Set_speed ch v \<in> set (fan_evs s) \<longrightarrow> v = 0 \<or> 200 \<le> v \<and> v \<le> 1000) \<and>
     (\<forall>d \<in> set (devs s). pwm_value d = 0 \<or> 200 \<le> pwm_value d \<and> pwm_value d \<le> 1000)"
proof -
  let ?P = "\<lambda>d. dorne_dev d \<and> duty_ok (pwm_value d)"
  have "sound ?P" "updates E ?P ?P" "controls ?P ?P" "sleeps ?P ?P" for E
    by (auto simp: sound_def updates_def controls_def sleeps_def dorne_dev_simps duty_ok_def)
  moreover have "\<forall>d \<in> set (devs (dorne_fanctl FAN_RPM_RAMP_RATE_CONTROL oks)). ?P d" using dorne_start(1) by (simp add: duty_ok_def)
  ultimately have "\<exists>s c. fan_rounds FAN_RPM_RAMP_RATE_CONTROL es (dorne_fanctl FAN_RPM_RAMP_RATE_CONTROL oks) = Inr s \<and>
      (\<forall>d \<in> set (devs s). ?P d) \<and> plain c s" using dorne_start(2) by (intro rounds_inv) auto
  then show ?thesis by (auto simp: plain_def duty_ok_def)
qed

lemma fan_duty_in_range_witness:
  "\<exists>s. fan_rounds FAN_RPM_RAMP_RATE_CONTROL (replicate 50 (\<lparr>read_temp = \<lambda>_ _. 70, tach = \<lambda>_ n. int n\<rparr>, True))
        (dorne_fanctl FAN_RPM_RAMP_RATE_CONTROL [True, False]) = Inr s \<and>
     (\<forall>ch v. Set_speed ch v \<in> set (fan_evs s) \<longrightarrow> v = 0 \<or> 200 \<le> v \<and> v \<le> 1000) \<and>
     (\<forall>d \<in> set (devs s). pwm_value d = 0 \<or> 200 \<le> pwm_value d \<and> pwm_value d \<le> 1000)"
  by (rule fan_duty_in_range)

text \<open>
  C28. A fan that turned at its start duty when the system went to sleep does not turn again while the
  CPU is hot: after a hot round in S0 and a round asleep, any number of hot rounds leaves every fan at
  duty 0, although every usable fan has a speed to reach. The power is switched off without resetting
  the speed calculated last, with which the new one is compared.
\<close>

theorem fan_stuck_after_sleep:
  assumes "hot E" "\<forall>E' \<in> set Es. hot E'"
  shows "\<exists>s. fan_rounds FAN_RPM_RAMP_RATE_CONTROL ((E, True) # (E0, False) # map (\<lambda>E. (E, True)) Es)
        (dorne_fanctl FAN_RPM_RAMP_RATE_CONTROL oks) = Inr s \<and>
     (\<forall>d \<in> set (devs s). pwm_value d = 0 \<and> (usable d \<longrightarrow> ucast (reportSpeed d) \<noteq> (0 :: u16)))"
proof -
  define P0 where "P0 = (\<lambda>d. dorne_dev d \<and> pwm_value d = 0 \<and> reporCalculatedSpeed d = 0)"
  define Q0 where "Q0 = (\<lambda>d. P0 d \<and> (usable d \<longrightarrow> ucast (reportSpeed d) \<noteq> (0 :: u16)))"
  define P1 where "P1 = (\<lambda>d. dorne_dev d \<and> (if usable d then pwm_value d = 200 \<and> reporCalculatedSpeed d = 200 \<and>
     ucast (reportSpeed d) \<noteq> (0 :: u16) else pwm_value d = 0))"
  define P2 where "P2 = (\<lambda>d. dorne_dev d \<and> pwm_value d = 0 \<and> (usable d \<longrightarrow> reporCalculatedSpeed d = 200 \<and> ucast (reportSpeed d) \<noteq> (0 :: u16)))"
  note defs = P0_def Q0_def P1_def P2_def sound_def updates_def controls_def sleeps_def dorne_dev_simps duty_ok_def
  let ?s = "dorne_fanctl FAN_RPM_RAMP_RATE_CONTROL oks"
  have "\<exists>s1. fanctrl_round FAN_RPM_RAMP_RATE_CONTROL E True ?s = Inr s1 \<and> (\<forall>d \<in> set (devs s1). P1 d) \<and> plain True s1"
    by (rule round_S0 [where P = P0 and Q = Q0, OF _ _ _ _ _ dorne_start(2)]) (use dorne_start(1) assms(1) in \<open>auto simp: defs\<close>)
  then obtain s1 where s1: "fanctrl_round FAN_RPM_RAMP_RATE_CONTROL E True ?s = Inr s1" "\<forall>d \<in> set (devs s1). P1 d" "plain True s1" by blast
  have "\<exists>s2. fanctrl_round FAN_RPM_RAMP_RATE_CONTROL E0 False s1 = Inr s2 \<and> (\<forall>d \<in> set (devs s2). P2 d) \<and> plain False s2"
    by (rule round_sleep [OF _ _ s1(2,3)]) (auto simp: defs)
  then obtain s2 where s2: "fanctrl_round FAN_RPM_RAMP_RATE_CONTROL E0 False s1 = Inr s2" "\<forall>d \<in> set (devs s2). P2 d" "plain False s2" by blast
  have "sound P2" "updates E' P2 P2" "controls P2 P2" if "hot E'" for E' using that by (auto simp: defs)
  then have "\<exists>s c. fan_rounds FAN_RPM_RAMP_RATE_CONTROL (map (\<lambda>E. (E, True)) Es) s2 = Inr s \<and> (\<forall>d \<in> set (devs s). P2 d) \<and> plain c s"
    using assms by (intro rounds_inv [OF _ _ s2(2,3)]) auto
  then show ?thesis using s1(1) s2(1) by (auto simp: P2_def)
qed

lemma fan_stuck_after_sleep_witness:
  "\<exists>s. fan_rounds FAN_RPM_RAMP_RATE_CONTROL
        ((\<lparr>read_temp = \<lambda>_ _. 60, tach = \<lambda>_ _. 3000\<rparr>, True) # (\<lparr>read_temp = \<lambda>_ _. 0, tach = \<lambda>_ _. 0\<rparr>, False) #
         map (\<lambda>E. (E, True)) (replicate 100 \<lparr>read_temp = \<lambda>_ _. 80, tach = \<lambda>_ _. 0\<rparr>))
        (dorne_fanctl FAN_RPM_RAMP_RATE_CONTROL [True, True]) = Inr s \<and>
     (\<forall>d \<in> set (devs s). pwm_value d = 0 \<and> (usable d \<longrightarrow> ucast (reportSpeed d) \<noteq> (0 :: u16)))"
  by (rule fan_stuck_after_sleep) (auto simp: hot_def)

section \<open>The debug registers of the tables\<close>

fun table_accesses :: "(bool \<times> u8 \<times> u8) list \<Rightarrow> fanctl \<Rightarrow> fanctl res" where
  "table_accesses [] s = Inr s"
| "table_accesses ((isRead, idx, data) # l) s =
     (case app_fan_debug_speed_table_acpiHandler 2 isRead idx data s of
        Inl e \<Rightarrow> Inl e
      | Inr (r, v, s') \<Rightarrow> table_accesses l s')"

text \<open>
  The host can make the firmware read a table that does not exist: it selects a device, leaves
  the dump state, writes a mode beyond the three modes, and returns to the dump state; the mode is
  checked when a table is written but not when it is read.
\<close>

theorem fan_debug_reads_missing_table:
  assumes "3 \<le> m"
  shows "table_accesses [(False, 1, 2), (False, 0, 1), (False, 2, m), (False, 0, FAN_DBG_PID_FLAG_DUMP), (True, i, 0)]
     (dorne_fanctl FAN_RPM_RAMP_RATE_CONTROL [True, True]) = (if i < 44 then Inl Out_of_bounds else table_accesses
       [(False, 1, 2), (False, 0, 1), (False, 2, m), (False, 0, FAN_DBG_PID_FLAG_DUMP)] (dorne_fanctl FAN_RPM_RAMP_RATE_CONTROL [True, True]))"
proof -
  define s where "s = dorne_fanctl FAN_RPM_RAMP_RATE_CONTROL [True, True]"
  have D: "devs s = [(dorne_fan FAN_RPM_RAMP_RATE_CONTROL 2 1 6210 (g_fan_speed_table_init ! 1))\<lparr>isInit := True\<rparr>,
      (dorne_fan FAN_RPM_RAMP_RATE_CONTROL 1 0 6300 (g_fan_speed_table_init ! 0))\<lparr>isInit := True\<rparr>]"
    by (simp add: s_def dorne_fanctl_def app_fan_dbg_int_def Let_def board_fan_ctrl_init_def board_fan_dev_init_def
      g_fan_ctrl_data_init_def dorne_fan_def)
  have T: "tb_dbg s = replicate 44 0" by (simp add: s_def dorne_fanctl_def app_fan_dbg_int_def Let_def) (simp add: numeral_eq_Suc)
  note h = app_fan_debug_speed_table_acpiHandler_def table_flag_def dev_sel_def active_mode_def active_temp_def FAN_DBG_PID_FLAG_DUMP_def
    FAN_DBG_PID_FLAG_SET_DONE_def Let_def
  have w: "table_accesses [(False, 1, 2), (False, 0, 1), (False, 2, m), (False, 0, FAN_DBG_PID_FLAG_DUMP)] s =
      Inr (s\<lparr>tb_dbg := (replicate 44 0)[1 := 2, 0 := 0, 2 := m]\<rparr>)"
    using T by (simp add: h list_update_swap word_le_nat_alt)
  have split: "table_accesses (l @ [a]) s = (case table_accesses l s of Inl e \<Rightarrow> Inl e | Inr s' \<Rightarrow> table_accesses [a] s')" for l a s
    by (induction l arbitrary: s) (auto split: sum.split)
  have tab: "table_of (dorne_fan FAN_RPM_RAMP_RATE_CONTROL 2 1 6210 (g_fan_speed_table_init ! 1)\<lparr>isInit := True\<rparr>) m t = Inl Out_of_bounds" for t
    using assms board_table_size(2) [of 1] by (simp add: table_of_def dorne_fan_def ld_def word_le_nat_alt)
  have r: "table_accesses [(True, i, 0)] (s\<lparr>tb_dbg := (replicate 44 0)[1 := 2, 0 := 0, 2 := m]\<rparr>) =
      (if i < 44 then Inl Out_of_bounds else Inr (s\<lparr>tb_dbg := (replicate 44 0)[1 := 2, 0 := 0, 2 := m]\<rparr>))"
    using tab D by (auto simp: h word_le_nat_alt word_less_nat_alt dorne_fan_def)
  show ?thesis using split [of "[(False, 1, 2), (False, 0, 1), (False, 2, m), (False, 0, FAN_DBG_PID_FLAG_DUMP)]" "(True, i, 0)" s] w r
    by (simp add: s_def)
qed

end
