(* ===== verification/Rrq.thy ===== *)
theory Rrq
  imports Prelude
begin

text \<open>
  The byte ring queues of \<open>src/utilities/u_rrq.c\<close>. A handler holds a circular buffer of
  \<open>bufLen\<close> bytes of which at most \<open>bufLen - 1\<close> are in use, its two indices and two running
  byte counters. The module keeps ten handlers. Every operation is modelled at the width of
  the C code, with its memory accesses checked, and returns in addition the sequence of
  mutex operations it performs. A queue's buffer and the caller's buffers are distinct
  arrays.
\<close>

section \<open>State\<close>

record rrq_handler =
  rq_pBuf :: "u8 list option" \<comment> \<open>\<open>None\<close> is the null pointer\<close>
  rq_bufLen :: u32
  rq_overrideOnFull :: bool
  rq_head :: u32
  rq_tail :: u32
  rq_inputCounter :: u32
  rq_outputCounter :: u32

record rrq_module =
  s_rrqCfg :: "rrq_handler list"
  s_moduleInitFlag :: bool

datatype rrq_lock_ev = Lock_producer | Lock_consumer | Unlock_consumer | Unlock_producer

definition U_RRQ_MAX_QUEUE_NUM :: nat where
  "U_RRQ_MAX_QUEUE_NUM = 10"

definition U_RRQ_INVALID_RRQ_ID :: u8 where
  "U_RRQ_INVALID_RRQ_ID = 0xFF"

definition rrq_zero :: rrq_handler where
  "rrq_zero = \<lparr>rq_pBuf = None, rq_bufLen = 0, rq_overrideOnFull = False, rq_head = 0,
     rq_tail = 0, rq_inputCounter = 0, rq_outputCounter = 0\<rparr>"

section \<open>Set-up\<close>

definition u_rrq_init :: "rrq_module \<Rightarrow> rrq_module" where
  "u_rrq_init m = m\<lparr>s_rrqCfg := replicate U_RRQ_MAX_QUEUE_NUM rrq_zero, s_moduleInitFlag := True\<rparr>"

fun rrq_find_free :: "rrq_handler list \<Rightarrow> nat \<Rightarrow> nat option" where
  "rrq_find_free [] i = None"
| "rrq_find_free (h # hs) i =
     (if rq_pBuf h = None \<and> rq_bufLen h = 0 then Some i else rrq_find_free hs (Suc i))"

definition u_rrq_setup ::
  "rrq_module \<Rightarrow> u8 list option \<Rightarrow> u32 \<Rightarrow> bool \<Rightarrow> (u8 \<times> rrq_module) res" where
  "u_rrq_setup m pBuf len override =
     (if \<not> s_moduleInitFlag m then Inl Assert_failed
      else case rrq_find_free (s_rrqCfg m) 0 of
        None \<Rightarrow> Inr (U_RRQ_INVALID_RRQ_ID, m)
      | Some i \<Rightarrow>
          Inr (of_nat i,
               m\<lparr>s_rrqCfg := (s_rrqCfg m)[i := rrq_zero\<lparr>rq_pBuf := pBuf, rq_bufLen := len,
                   rq_overrideOnFull := override\<rparr>]\<rparr>))"

section \<open>Buffer accesses\<close>

definition rrq_load :: "rrq_handler \<Rightarrow> u32 \<Rightarrow> u8 res" where
  "rrq_load h i = (case rq_pBuf h of None \<Rightarrow> Inl Out_of_bounds | Some buf \<Rightarrow> ld buf (unat i))"

definition rrq_store_head :: "rrq_handler \<Rightarrow> u8 \<Rightarrow> rrq_handler res" where
  "rrq_store_head h c =
     (case rq_pBuf h of
        None \<Rightarrow> Inl Out_of_bounds
      | Some buf \<Rightarrow>
          (case st buf (unat (rq_head h)) c of
             Inl e \<Rightarrow> Inl e
           | Inr buf' \<Rightarrow> Inr (h\<lparr>rq_pBuf := Some buf'\<rparr>)))"

section \<open>Reset, put\<close>

definition rrq_locks :: "bool \<Rightarrow> bool \<Rightarrow> rrq_lock_ev list" where
  "rrq_locks lockProd isr =
     (if isr then [] else
        (if lockProd then [Lock_producer] else []) @ [Lock_consumer, Unlock_consumer] @
        (if lockProd then [Unlock_producer] else []))"

definition rrq_reset :: "rrq_handler \<Rightarrow> rrq_lock_ev list \<times> rrq_handler" where
  "rrq_reset h = (rrq_locks (rq_overrideOnFull h) False,
     h\<lparr>rq_tail := rq_head h, rq_outputCounter := rq_inputCounter h\<rparr>)"

text \<open>First loop of \<open>u_rrq_put\<close>: until all bytes are stored or the queue is full.\<close>

function rrq_put_fill :: "u8 list \<Rightarrow> u32 \<Rightarrow> rrq_handler \<Rightarrow> u32 \<Rightarrow> (rrq_handler \<times> u32) res" where
  "rrq_put_fill data len h putBytes =
     (if putBytes < len then
        (case umod (rq_head h + 1) (rq_bufLen h) of
           Inl e \<Rightarrow> Inl e
         | Inr nxt \<Rightarrow>
             if nxt = rq_tail h then Inr (h, putBytes)
             else
               (case ld data (unat putBytes) of
                  Inl e \<Rightarrow> Inl e
                | Inr c \<Rightarrow>
                    (case rrq_store_head h c of
                       Inl e \<Rightarrow> Inl e
                     | Inr h' \<Rightarrow> rrq_put_fill data len (h'\<lparr>rq_head := nxt\<rparr>) (putBytes + 1))))
      else Inr (h, putBytes))"
  by pat_completeness auto
termination
  by (relation "measure (\<lambda>(data, len, h, n). unat (len - n))") (auto intro: word_count_down)

text \<open>Second loop of \<open>u_rrq_put\<close>: overwrite the oldest bytes, moving the tail along.\<close>

definition rrq_override_step :: "rrq_handler \<Rightarrow> u8 \<Rightarrow> rrq_handler res" where
  "rrq_override_step h c =
     (case rrq_store_head h c of
        Inl e \<Rightarrow> Inl e
      | Inr h1 \<Rightarrow>
          (case umod (rq_head h1 + 1) (rq_bufLen h1) of
             Inl e \<Rightarrow> Inl e
           | Inr nxt \<Rightarrow>
               if nxt = rq_tail h1 then
                 (case umod (rq_tail h1 + 1) (rq_bufLen h1) of
                    Inl e \<Rightarrow> Inl e
                  | Inr t \<Rightarrow> Inr (h1\<lparr>rq_head := nxt, rq_tail := t,
                                 rq_outputCounter := rq_outputCounter h1 + 1\<rparr>))
               else Inr (h1\<lparr>rq_head := nxt\<rparr>)))"

function rrq_put_override :: "u8 list \<Rightarrow> u32 \<Rightarrow> rrq_handler \<Rightarrow> u32 \<Rightarrow> (rrq_handler \<times> u32) res" where
  "rrq_put_override data len h putBytes =
     (if putBytes < len then
        (case ld data (unat putBytes) of
           Inl e \<Rightarrow> Inl e
         | Inr c \<Rightarrow>
             (case rrq_override_step h c of
                Inl e \<Rightarrow> Inl e
              | Inr h' \<Rightarrow> rrq_put_override data len h' (putBytes + 1)))
      else Inr (h, putBytes))"
  by pat_completeness auto
termination
  by (relation "measure (\<lambda>(data, len, h, n). unat (len - n))") (auto intro: word_count_down)

declare rrq_put_fill.simps [simp del] rrq_put_override.simps [simp del]

definition rrq_put ::
  "bool \<Rightarrow> u8 list option \<Rightarrow> u32 \<Rightarrow> rrq_handler \<Rightarrow> ((u32 \<times> rrq_lock_ev list) \<times> rrq_handler) res" where
  "rrq_put isr pBuf len h =
     (case pBuf of
        None \<Rightarrow> Inl Assert_failed
      | Some data \<Rightarrow>
          (case rrq_put_fill data len h 0 of
             Inl e \<Rightarrow> Inl e
           | Inr (h1, n1) \<Rightarrow>
               (case (if rq_overrideOnFull h1 \<and> n1 \<noteq> len then rrq_put_override data len h1 n1
                      else Inr (h1, n1)) of
                  Inl e \<Rightarrow> Inl e
                | Inr (h2, n2) \<Rightarrow>
                    Inr ((n2,
                          if isr then []
                          else [Lock_producer] @
                            (if rq_overrideOnFull h1 \<and> n1 \<noteq> len
                             then [Lock_consumer, Unlock_consumer] else []) @
                            [Unlock_producer]),
                         h2\<lparr>rq_inputCounter := rq_inputCounter h2 + n2\<rparr>))))"

section \<open>Get, read\<close>

text \<open>
  The copy loop shared by \<open>u_rrq_get\<close>, \<open>u_rrq_read\<close> and the frame operations: copy from
  index \<open>t\<close> up to the index \<open>stop\<close>, at most \<open>len\<close> bytes, into \<open>out\<close>.
\<close>

function rrq_copy ::
  "rrq_handler \<Rightarrow> u32 \<Rightarrow> u32 \<Rightarrow> u8 list \<Rightarrow> u32 \<Rightarrow> u32 \<Rightarrow> (u8 list \<times> u32 \<times> u32) res" where
  "rrq_copy h stop len out t n =
     (if n < len \<and> t \<noteq> stop then
        (case rrq_load h t of
           Inl e \<Rightarrow> Inl e
         | Inr c \<Rightarrow>
             (case st out (unat n) c of
                Inl e \<Rightarrow> Inl e
              | Inr out' \<Rightarrow>
                  (case umod (t + 1) (rq_bufLen h) of
                     Inl e \<Rightarrow> Inl e
                   | Inr t' \<Rightarrow> rrq_copy h stop len out' t' (n + 1))))
      else Inr (out, t, n))"
  by pat_completeness auto
termination
  by (relation "measure (\<lambda>(h, stop, len, out, t, n). unat (len - n))") (auto intro: word_count_down)

declare rrq_copy.simps [simp del]

definition rrq_get ::
  "bool \<Rightarrow> u8 list option \<Rightarrow> u32 \<Rightarrow> rrq_handler
   \<Rightarrow> ((u32 \<times> u8 list \<times> rrq_lock_ev list) \<times> rrq_handler) res" where
  "rrq_get isr pBuf len h =
     (case pBuf of
        None \<Rightarrow> Inl Assert_failed
      | Some out \<Rightarrow>
          (case rrq_copy h (rq_head h) len out (rq_tail h) 0 of
             Inl e \<Rightarrow> Inl e
           | Inr (out', t, n) \<Rightarrow>
               Inr ((n, out', rrq_locks (rq_overrideOnFull h) isr),
                    h\<lparr>rq_tail := t, rq_outputCounter := rq_outputCounter h + n\<rparr>)))"

definition rrq_read ::
  "u8 list option \<Rightarrow> u32 \<Rightarrow> rrq_handler
   \<Rightarrow> ((u32 \<times> u8 list \<times> rrq_lock_ev list) \<times> rrq_handler) res" where
  "rrq_read pBuf len h =
     (case pBuf of
        None \<Rightarrow> Inl Assert_failed
      | Some out \<Rightarrow>
          (case rrq_copy h (rq_head h) len out (rq_tail h) 0 of
             Inl e \<Rightarrow> Inl e
           | Inr (out', t, n) \<Rightarrow>
               Inr ((n, out', rrq_locks (rq_overrideOnFull h) False), h)))"

section \<open>Pattern frames\<close>

text \<open>Inner loop of the pattern search: how many bytes of the pattern match at index \<open>i\<close>.\<close>

function rrq_match_len :: "rrq_handler \<Rightarrow> u32 \<Rightarrow> u8 list \<Rightarrow> u32 \<Rightarrow> u32 \<Rightarrow> u32 res" where
  "rrq_match_len h i ptn plen j =
     (if j < plen then
        (case umod (i + j) (rq_bufLen h) of
           Inl e \<Rightarrow> Inl e
         | Inr p \<Rightarrow>
             if p = rq_head h then Inr j
             else
               (case rrq_load h p of
                  Inl e \<Rightarrow> Inl e
                | Inr c \<Rightarrow>
                    (case ld ptn (unat j) of
                       Inl e \<Rightarrow> Inl e
                     | Inr d \<Rightarrow> if c = d then rrq_match_len h i ptn plen (j + 1) else Inr j)))
      else Inr j)"
  by pat_completeness auto
termination
  by (relation "measure (\<lambda>(h, i, ptn, plen, j). unat (plen - j))") (auto intro: word_count_down)

declare rrq_match_len.simps [simp del]

text \<open>
  Outer loop: the first index from \<open>i\<close> on at which the whole pattern matches, with the number
  of bytes skipped. One unit of the first argument is spent per iteration; \<open>bufLen\<close> units
  are enough, since the loop ends when it reaches the head.
\<close>

fun rrq_search ::
  "nat \<Rightarrow> rrq_handler \<Rightarrow> u8 list \<Rightarrow> u32 \<Rightarrow> u32 \<Rightarrow> u32 \<Rightarrow> (u32 \<times> u32) option res" where
  "rrq_search 0 h ptn plen i k = Inl Diverges"
| "rrq_search (Suc fuel) h ptn plen i k =
     (if i = rq_head h then Inr None
      else
        (case rrq_match_len h i ptn plen 0 of
           Inl e \<Rightarrow> Inl e
         | Inr j \<Rightarrow>
             if j = plen then Inr (Some (i, k))
             else
               (case umod (i + 1) (rq_bufLen h) of
                  Inl e \<Rightarrow> Inl e
                | Inr i' \<Rightarrow> rrq_search fuel h ptn plen i' (k + 1))))"

definition ptn_given :: "u8 list option \<Rightarrow> u32 \<Rightarrow> bool" where
  "ptn_given ptn len \<longleftrightarrow> ptn \<noteq> None \<and> len \<noteq> 0"

text \<open>The value \<open>0xFFFFFFFF\<close> marks a frame boundary that was not found.\<close>

definition rrq_frame_start ::
  "rrq_handler \<Rightarrow> u8 list option \<Rightarrow> u32 \<Rightarrow> (u32 \<times> u32 \<times> u32) res" where
  "rrq_frame_start h startPtn spLen =
     (if ptn_given startPtn spLen then
        (case rrq_search (unat (rq_bufLen h)) h (the startPtn) spLen (rq_tail h) 0 of
           Inl e \<Rightarrow> Inl e
         | Inr None \<Rightarrow> Inr (0xFFFFFFFF, 0, spLen)
         | Inr (Some (i, k)) \<Rightarrow> Inr (i, k, spLen))
      else Inr (rq_tail h, 0, 0))"

definition rrq_frame_end ::
  "rrq_handler \<Rightarrow> u32 \<Rightarrow> u32 \<Rightarrow> u8 list option \<Rightarrow> u32 \<Rightarrow> u32 res" where
  "rrq_frame_end h frameStart spLen endPtn epLen =
     (if ptn_given endPtn epLen \<and> frameStart \<noteq> 0xFFFFFFFF then
        (case umod (frameStart + spLen) (rq_bufLen h) of
           Inl e \<Rightarrow> Inl e
         | Inr i0 \<Rightarrow>
             (case rrq_search (unat (rq_bufLen h)) h (the endPtn) epLen i0 0 of
                Inl e \<Rightarrow> Inl e
              | Inr None \<Rightarrow> Inr 0xFFFFFFFF
              | Inr (Some (i, k)) \<Rightarrow> umod (i + epLen) (rq_bufLen h)))
      else Inr (rq_head h))"

definition rrq_find_frame ::
  "rrq_handler \<Rightarrow> u8 list option \<Rightarrow> u32 \<Rightarrow> u8 list option \<Rightarrow> u32 \<Rightarrow> (u32 \<times> u32 \<times> u32) res" where
  "rrq_find_frame h startPtn spLen endPtn epLen =
     (case rrq_frame_start h startPtn spLen of
        Inl e \<Rightarrow> Inl e
      | Inr (frameStart, skipped, spLen') \<Rightarrow>
          (case rrq_frame_end h frameStart spLen' endPtn epLen of
             Inl e \<Rightarrow> Inl e
           | Inr frameEndPlus1 \<Rightarrow> Inr (frameStart, skipped, frameEndPlus1)))"

definition frame_found :: "u32 \<Rightarrow> u32 \<Rightarrow> bool" where
  "frame_found s e \<longleftrightarrow> s \<noteq> e \<and> s \<noteq> 0xFFFFFFFF \<and> e \<noteq> 0xFFFFFFFF"

definition rrq_pattern_get ::
  "u8 list option \<Rightarrow> u32 \<Rightarrow> u8 list option \<Rightarrow> u32 \<Rightarrow> u8 list option \<Rightarrow> u32 \<Rightarrow> rrq_handler
   \<Rightarrow> ((u32 \<times> u8 list \<times> rrq_lock_ev list) \<times> rrq_handler) res" where
  "rrq_pattern_get startPtn spLen endPtn epLen pBuf len h =
     (case pBuf of
        None \<Rightarrow> Inl Assert_failed
      | Some out \<Rightarrow>
          (case rrq_find_frame h startPtn spLen endPtn epLen of
             Inl e \<Rightarrow> Inl e
           | Inr (frameStart, skipped, frameEndPlus1) \<Rightarrow>
               if frame_found frameStart frameEndPlus1 then
                 (case rrq_copy h frameEndPlus1 len out frameStart 0 of
                    Inl e \<Rightarrow> Inl e
                  | Inr (out', t, n) \<Rightarrow>
                      Inr ((n, out', rrq_locks (rq_overrideOnFull h) False),
                           h\<lparr>rq_tail := t,
                             rq_outputCounter := rq_outputCounter h + (skipped + n)\<rparr>))
               else Inr ((0, out, rrq_locks (rq_overrideOnFull h) False), h)))"

definition rrq_pattern_read ::
  "u8 list option \<Rightarrow> u32 \<Rightarrow> u8 list option \<Rightarrow> u32 \<Rightarrow> u8 list option \<Rightarrow> u32 \<Rightarrow> rrq_handler
   \<Rightarrow> ((u32 \<times> u8 list \<times> rrq_lock_ev list) \<times> rrq_handler) res" where
  "rrq_pattern_read startPtn spLen endPtn epLen pBuf len h =
     (case pBuf of
        None \<Rightarrow> Inl Assert_failed
      | Some out \<Rightarrow>
          (case rrq_find_frame h startPtn spLen endPtn epLen of
             Inl e \<Rightarrow> Inl e
           | Inr (frameStart, skipped, frameEndPlus1) \<Rightarrow>
               if frame_found frameStart frameEndPlus1 then
                 (case rrq_copy h frameEndPlus1 len out frameStart 0 of
                    Inl e \<Rightarrow> Inl e
                  | Inr (out', t, n) \<Rightarrow>
                      Inr ((n, out', rrq_locks (rq_overrideOnFull h) False), h))
               else Inr ((0, out, rrq_locks (rq_overrideOnFull h) False), h)))"

section \<open>Packages\<close>

text \<open>
  \<open>u_rrq_package_get\<close> offers every byte with its position in the current frame to a crawler.
  The crawlers of the program keep static variables, so a crawler is a function that also
  takes and returns its state.
\<close>

datatype U_RRQ_PKG_OPS = U_RRQ_POS_MOVE_RIGHT | U_RRQ_FRAME_MOVE_RIGHT | U_RRQ_MATCH

type_synonym 's rrq_crawler = "'s \<Rightarrow> u8 \<Rightarrow> u32 \<Rightarrow> U_RRQ_PKG_OPS \<times> 's"

text \<open>Inner loop over one frame: the position of the last byte of the package, if any.\<close>

fun rrq_crawl ::
  "nat \<Rightarrow> rrq_handler \<Rightarrow> 's rrq_crawler \<Rightarrow> u32 \<Rightarrow> u32 \<Rightarrow> 's \<Rightarrow> (u32 option \<times> 's) res" where
  "rrq_crawl 0 h crawler frameStart pos s = Inl Diverges"
| "rrq_crawl (Suc fuel) h crawler frameStart pos s =
     (case umod (frameStart + pos) (rq_bufLen h) of
        Inl e \<Rightarrow> Inl e
      | Inr p \<Rightarrow>
          if p = rq_head h then Inr (None, s)
          else
            (case rrq_load h p of
               Inl e \<Rightarrow> Inl e
             | Inr c \<Rightarrow>
                 (case crawler s c pos of
                    (U_RRQ_POS_MOVE_RIGHT, s') \<Rightarrow> rrq_crawl fuel h crawler frameStart (pos + 1) s'
                  | (U_RRQ_MATCH, s') \<Rightarrow> Inr (Some pos, s')
                  | (U_RRQ_FRAME_MOVE_RIGHT, s') \<Rightarrow> Inr (None, s'))))"

text \<open>Outer loop: the first frame that matches, its offset and its last position.\<close>

fun rrq_package_scan ::
  "nat \<Rightarrow> rrq_handler \<Rightarrow> 's rrq_crawler \<Rightarrow> u32 \<Rightarrow> u32 \<Rightarrow> 's
   \<Rightarrow> ((u32 \<times> u32 \<times> u32) option \<times> 's) res" where
  "rrq_package_scan 0 h crawler frameStart frameOffset s = Inl Diverges"
| "rrq_package_scan (Suc fuel) h crawler frameStart frameOffset s =
     (if frameStart = rq_head h then Inr (None, s)
      else
        (case rrq_crawl (unat (rq_bufLen h)) h crawler frameStart 0 s of
           Inl e \<Rightarrow> Inl e
         | Inr (Some pos, s') \<Rightarrow> Inr (Some (frameStart, frameOffset, pos), s')
         | Inr (None, s') \<Rightarrow>
             (case umod (frameStart + 1) (rq_bufLen h) of
                Inl e \<Rightarrow> Inl e
              | Inr nxt \<Rightarrow> rrq_package_scan fuel h crawler nxt (frameOffset + 1) s')))"

definition rrq_package_get ::
  "'s rrq_crawler \<Rightarrow> 's \<Rightarrow> u8 list option \<Rightarrow> u32 \<Rightarrow> rrq_handler
   \<Rightarrow> ((u32 \<times> u8 list \<times> rrq_lock_ev list \<times> 's) \<times> rrq_handler) res" where
  "rrq_package_get crawler s pBuf len h =
     (case pBuf of
        None \<Rightarrow> Inl Assert_failed
      | Some out \<Rightarrow>
          (case rrq_package_scan (unat (rq_bufLen h)) h crawler (rq_tail h) 0 s of
             Inl e \<Rightarrow> Inl e
           | Inr (None, s') \<Rightarrow> Inr ((0, out, rrq_locks (rq_overrideOnFull h) False, s'), h)
           | Inr (Some (frameStart, frameOffset, pos), s') \<Rightarrow>
               if len = 0 then Inr ((0, out, rrq_locks (rq_overrideOnFull h) False, s'), h)
               else
                 (case umod (frameStart + pos + 1) (rq_bufLen h) of
                    Inl e \<Rightarrow> Inl e
                  | Inr frameEndPlus1 \<Rightarrow>
                      (case rrq_copy h frameEndPlus1 len out frameStart 0 of
                         Inl e \<Rightarrow> Inl e
                       | Inr (out', t, n) \<Rightarrow>
                           Inr ((n, out', rrq_locks (rq_overrideOnFull h) False, s'),
                                h\<lparr>rq_tail := t,
                                  rq_outputCounter := (if n \<noteq> 0
                                     then rq_outputCounter h + (frameOffset + n)
                                     else rq_outputCounter h)\<rparr>)))))"

section \<open>Queries\<close>

definition rrq_isEmpty :: "rrq_handler \<Rightarrow> bool" where
  "rrq_isEmpty h \<longleftrightarrow> rq_head h = rq_tail h"

definition rrq_isFull :: "rrq_handler \<Rightarrow> bool res" where
  "rrq_isFull h =
     (case umod (rq_head h + 1) (rq_bufLen h) of
        Inl e \<Rightarrow> Inl e
      | Inr nxt \<Rightarrow> Inr (nxt = rq_tail h))"

definition rrq_bytesInQueue :: "rrq_handler \<Rightarrow> u32 \<times> rrq_lock_ev list" where
  "rrq_bytesInQueue h =
     (let bytes = rq_inputCounter h - rq_outputCounter h in
      if bytes < rq_bufLen h then (bytes, [])
      else ((0xFFFFFFFF - rq_outputCounter h) + rq_inputCounter h + 1,
            [Lock_producer, Lock_consumer, Unlock_consumer, Unlock_producer]))"

section \<open>The module's entry points\<close>

definition rrq_on ::
  "(rrq_handler \<Rightarrow> ('r \<times> rrq_handler) res) \<Rightarrow> rrq_module \<Rightarrow> u8 \<Rightarrow> ('r \<times> rrq_module) res" where
  "rrq_on f m rrqId =
     (if unat rrqId < U_RRQ_MAX_QUEUE_NUM then
        (case ld (s_rrqCfg m) (unat rrqId) of
           Inl e \<Rightarrow> Inl e
         | Inr h \<Rightarrow>
             (case f h of
                Inl e \<Rightarrow> Inl e
              | Inr (r, h') \<Rightarrow> Inr (r, m\<lparr>s_rrqCfg := (s_rrqCfg m)[unat rrqId := h']\<rparr>)))
      else Inl Assert_failed)"

definition rrq_query :: "(rrq_handler \<Rightarrow> 'r res) \<Rightarrow> rrq_module \<Rightarrow> u8 \<Rightarrow> 'r res" where
  "rrq_query f m rrqId =
     (case ld (s_rrqCfg m) (unat rrqId) of Inl e \<Rightarrow> Inl e | Inr h \<Rightarrow> f h)"

definition u_rrq_reset :: "rrq_module \<Rightarrow> u8 \<Rightarrow> (rrq_lock_ev list \<times> rrq_module) res" where
  "u_rrq_reset = rrq_on (\<lambda>h. Inr (rrq_reset h))"

definition u_rrq_put where
  "u_rrq_put m rrqId isr pBuf len = rrq_on (rrq_put isr pBuf len) m rrqId"

definition u_rrq_get where
  "u_rrq_get m rrqId isr pBuf len = rrq_on (rrq_get isr pBuf len) m rrqId"

definition u_rrq_read where
  "u_rrq_read m rrqId pBuf len = rrq_on (rrq_read pBuf len) m rrqId"

definition u_rrq_pattern_get where
  "u_rrq_pattern_get m rrqId startPtn spLen endPtn epLen pBuf len =
     rrq_on (rrq_pattern_get startPtn spLen endPtn epLen pBuf len) m rrqId"

definition u_rrq_pattern_read where
  "u_rrq_pattern_read m rrqId startPtn spLen endPtn epLen pBuf len =
     rrq_on (rrq_pattern_read startPtn spLen endPtn epLen pBuf len) m rrqId"

definition u_rrq_package_get where
  "u_rrq_package_get m rrqId crawler s pBuf len = rrq_on (rrq_package_get crawler s pBuf len) m rrqId"

definition u_rrq_getHeadIdx :: "rrq_module \<Rightarrow> u8 \<Rightarrow> u32 res" where
  "u_rrq_getHeadIdx m rrqId =
     (if unat rrqId < U_RRQ_MAX_QUEUE_NUM then rrq_query (\<lambda>h. Inr (rq_head h)) m rrqId
      else Inl Assert_failed)"

definition u_rrq_getTailIdx :: "rrq_module \<Rightarrow> u8 \<Rightarrow> u32 res" where
  "u_rrq_getTailIdx m rrqId =
     (if unat rrqId < U_RRQ_MAX_QUEUE_NUM then rrq_query (\<lambda>h. Inr (rq_tail h)) m rrqId
      else Inl Assert_failed)"

definition u_rrq_isEmpty :: "rrq_module \<Rightarrow> u8 \<Rightarrow> bool res" where
  "u_rrq_isEmpty = rrq_query (\<lambda>h. Inr (rrq_isEmpty h))"

definition u_rrq_isFull :: "rrq_module \<Rightarrow> u8 \<Rightarrow> bool res" where
  "u_rrq_isFull = rrq_query rrq_isFull"

definition u_rrq_bytesInQueue :: "rrq_module \<Rightarrow> u8 \<Rightarrow> (u32 \<times> rrq_lock_ev list) res" where
  "u_rrq_bytesInQueue = rrq_query (\<lambda>h. Inr (rrq_bytesInQueue h))"

end
