(* ===== verification/Rrq_Correct.thy ===== *)
theory Rrq_Correct
  imports Rrq
begin

text \<open>
  Correctness of the ring queues. \<open>rrq_content\<close> abstracts a handler to the list of bytes it
  holds, oldest first; \<open>rrq_wf\<close> is the representation invariant. The lemmas show that no
  operation faults on a well-formed handler, and which list operation each one performs.
\<close>

section \<open>Ring arithmetic\<close>

lemma ring_dist_lt: "t < n \<Longrightarrow> h < n \<Longrightarrow> ring_dist n t h < n"
  by (auto simp: ring_dist_def)

lemma ring_dist_add: "t < n \<Longrightarrow> h < n \<Longrightarrow> (t + ring_dist n t h) mod n = h"
  by (auto simp: ring_dist_def)

lemma ring_dist_eq_0: "t < n \<Longrightarrow> h < n \<Longrightarrow> ring_dist n t h = 0 \<longleftrightarrow> t = h"
  by (auto simp: ring_dist_def)

lemma ring_dist_same [simp]: "ring_dist n t t = 0"
  by (simp add: ring_dist_def)

lemma ring_dist_push:
  "t < n \<Longrightarrow> h < n \<Longrightarrow> Suc h mod n \<noteq> t \<Longrightarrow> ring_dist n t (Suc h mod n) = Suc (ring_dist n t h)"
  by (auto simp: ring_dist_def mod_Suc split: if_splits)

lemma ring_dist_full:
  "t < n \<Longrightarrow> h < n \<Longrightarrow> Suc h mod n = t \<longleftrightarrow> ring_dist n t h = n - Suc 0"
  by (auto simp: ring_dist_def mod_Suc split: if_splits)

lemma ring_dist_pop:
  "t < n \<Longrightarrow> h < n \<Longrightarrow> t \<noteq> h \<Longrightarrow> ring_dist n t h = Suc (ring_dist n (Suc t mod n) h)"
  by (auto simp: ring_dist_def mod_Suc split: if_splits)

lemma unat_ring_succ:
  fixes x n :: u32
  assumes "x < n"
  shows "unat ((x + 1) mod n) = Suc (unat x) mod unat n"
  using unat_inc [OF assms] by (simp add: unat_mod)

section \<open>Abstraction and invariant\<close>

definition rrq_buf :: "rrq_handler \<Rightarrow> u8 list" where
  "rrq_buf h = (case rq_pBuf h of None \<Rightarrow> [] | Some buf \<Rightarrow> buf)"

definition rrq_count :: "rrq_handler \<Rightarrow> nat" where
  "rrq_count h = ring_dist (unat (rq_bufLen h)) (unat (rq_tail h)) (unat (rq_head h))"

definition rrq_content :: "rrq_handler \<Rightarrow> u8 list" where
  "rrq_content h = ring_slice (rrq_buf h) (unat (rq_tail h)) (rrq_count h)"

definition rrq_cap :: "rrq_handler \<Rightarrow> nat" where
  "rrq_cap h = unat (rq_bufLen h) - 1"

text \<open>Indices and buffer are consistent: enough for every memory access.\<close>

definition rrq_idx :: "rrq_handler \<Rightarrow> bool" where
  "rrq_idx h \<longleftrightarrow> rq_pBuf h \<noteq> None \<and> length (rrq_buf h) = unat (rq_bufLen h) \<and>
     rq_head h < rq_bufLen h \<and> rq_tail h < rq_bufLen h"

text \<open>In addition the running counters differ by the number of bytes held.\<close>

definition rrq_wf :: "rrq_handler \<Rightarrow> bool" where
  "rrq_wf h \<longleftrightarrow> rrq_idx h \<and> rq_inputCounter h - rq_outputCounter h = of_nat (rrq_count h)"

definition rrq_frame :: "rrq_handler \<Rightarrow> u32 \<times> bool \<times> u32" where
  "rrq_frame h = (rq_bufLen h, rq_overrideOnFull h, rq_inputCounter h)"

lemma length_rrq_content [simp]: "length (rrq_content h) = rrq_count h"
  by (simp add: rrq_content_def)

lemma rrq_idxE:
  assumes "rrq_idx h"
  obtains buf where "rq_pBuf h = Some buf" "rrq_buf h = buf" "length buf = unat (rq_bufLen h)"
    "unat (rq_head h) < unat (rq_bufLen h)" "unat (rq_tail h) < unat (rq_bufLen h)"
    "rq_bufLen h \<noteq> 0"
proof -
  obtain buf where "rq_pBuf h = Some buf" using assms by (auto simp: rrq_idx_def)
  moreover from assms have "rq_bufLen h \<noteq> 0" by (auto simp: rrq_idx_def)
  ultimately show ?thesis
    using that assms by (simp add: rrq_idx_def rrq_buf_def word_less_nat_alt)
qed

lemma rrq_count_lt: "rrq_idx h \<Longrightarrow> rrq_count h < unat (rq_bufLen h)"
  by (auto simp: rrq_count_def elim!: rrq_idxE intro: ring_dist_lt)

lemma rrq_count_cap: "rrq_idx h \<Longrightarrow> rrq_count h \<le> rrq_cap h"
  using rrq_count_lt [of h] by (simp add: rrq_cap_def)

lemma rrq_empty_iff: "rrq_idx h \<Longrightarrow> rq_head h = rq_tail h \<longleftrightarrow> rrq_content h = []"
  unfolding length_0_conv [symmetric] length_rrq_content rrq_count_def
  by (auto simp: ring_dist_eq_0 word_unat_eq_iff elim!: rrq_idxE)

lemma rrq_full_iff:
  assumes "rrq_idx h"
  shows "(rq_head h + 1) mod rq_bufLen h = rq_tail h \<longleftrightarrow> rrq_count h = rrq_cap h"
proof -
  have "rq_head h < rq_bufLen h" using assms by (simp add: rrq_idx_def)
  then have "(rq_head h + 1) mod rq_bufLen h = rq_tail h \<longleftrightarrow>
      Suc (unat (rq_head h)) mod unat (rq_bufLen h) = unat (rq_tail h)"
    by (simp add: word_unat_eq_iff unat_ring_succ)
  with assms show ?thesis
    by (auto simp: rrq_count_def rrq_cap_def ring_dist_full elim!: rrq_idxE)
qed

section \<open>Pushing one byte\<close>

definition rrq_write :: "rrq_handler \<Rightarrow> u8 \<Rightarrow> rrq_handler" where
  "rrq_write h c = h\<lparr>rq_pBuf := Some ((rrq_buf h)[unat (rq_head h) := c])\<rparr>"

lemma rrq_store_head_ok: "rrq_idx h \<Longrightarrow> rrq_store_head h c = Inr (rrq_write h c)"
  by (auto simp: rrq_store_head_def rrq_write_def access elim!: rrq_idxE)

lemma rrq_push:
  fixes c :: u8
  assumes idx: "rrq_idx h" and room: "(rq_head h + 1) mod rq_bufLen h \<noteq> rq_tail h"
  defines "h' \<equiv> (rrq_write h c)\<lparr>rq_head := (rq_head h + 1) mod rq_bufLen h\<rparr>"
  shows "rrq_idx h'" "rrq_content h' = rrq_content h @ [c]" "rrq_count h' = rrq_count h + 1"
proof -
  obtain buf where buf: "rq_pBuf h = Some buf" "rrq_buf h = buf" "length buf = unat (rq_bufLen h)"
    and lt: "unat (rq_head h) < unat (rq_bufLen h)" "unat (rq_tail h) < unat (rq_bufLen h)"
    and n0: "rq_bufLen h \<noteq> 0"
    using idx by (rule rrq_idxE)
  let ?n = "unat (rq_bufLen h)" and ?t = "unat (rq_tail h)" and ?hd = "unat (rq_head h)"
  have hlt: "rq_head h < rq_bufLen h" using idx by (simp add: rrq_idx_def)
  have succ: "unat ((rq_head h + 1) mod rq_bufLen h) = Suc ?hd mod ?n"
    using hlt by (rule unat_ring_succ)
  show "rrq_idx h'"
    using idx n0 by (simp add: h'_def rrq_idx_def rrq_write_def rrq_buf_def word_mod_lt)
  have ne: "Suc ?hd mod ?n \<noteq> ?t" using room succ by (metis word_unat_eq_iff)
  show cnt: "rrq_count h' = rrq_count h + 1"
    using ring_dist_push [OF lt(2,1) ne] succ by (simp add: h'_def rrq_count_def rrq_write_def)
  have pos: "(?t + rrq_count h) mod length buf = ?hd"
    using ring_dist_add [OF lt(2,1)] buf by (simp add: rrq_count_def)
  have "ring_slice (buf[?hd := c]) ?t (rrq_count h) = ring_slice buf ?t (rrq_count h)"
    using ring_slice_update [of "rrq_count h" "rrq_count h" buf ?t c] rrq_count_lt [OF idx] buf pos
    by simp
  then show "rrq_content h' = rrq_content h @ [c]"
    using cnt pos buf lt
    by (simp add: rrq_content_def ring_slice_snoc h'_def rrq_write_def rrq_buf_def)
qed

section \<open>The loops of put\<close>

lemma rrq_put_fill_ok:
  assumes "rrq_idx h" "unat len \<le> length data" "n \<le> len"
  shows "\<exists>h' n'. rrq_put_fill data len h n = Inr (h', n') \<and> rrq_idx h' \<and>
     rrq_frame h' = rrq_frame h \<and> rq_outputCounter h' = rq_outputCounter h \<and>
     n \<le> n' \<and> n' \<le> len \<and> unat n' - unat n = min (unat len - unat n) (rrq_cap h - rrq_count h) \<and>
     rrq_content h' = rrq_content h @ take (unat n' - unat n) (drop (unat n) data)"
  using assms
proof (induction data len h n rule: rrq_put_fill.induct)
  case (1 data len h n)
  show ?case
  proof (cases "n < len \<and> (rq_head h + 1) mod rq_bufLen h \<noteq> rq_tail h")
    case False
    with 1 have "rrq_put_fill data len h n = Inr (h, n)"
      by (auto simp: rrq_put_fill.simps [of data len h n] access elim!: rrq_idxE)
    moreover have "min (unat len - unat n) (rrq_cap h - rrq_count h) = 0"
      using False 1 rrq_full_iff [of h] by (auto simp: word_le_nat_alt word_less_nat_alt)
    ultimately show ?thesis using 1 by simp
  next
    case True
    let ?c = "data ! unat n"
    let ?h = "(rrq_write h ?c)\<lparr>rq_head := (rq_head h + 1) mod rq_bufLen h\<rparr>"
    have nlt: "n < len" and room: "(rq_head h + 1) mod rq_bufLen h \<noteq> rq_tail h" using True by auto
    have n0: "rq_bufLen h \<noteq> 0" using "1.prems"(1) by (rule rrq_idxE)
    have c: "ld data (unat n) = Inr ?c"
      using "1.prems"(2) nlt by (simp add: access word_less_nat_alt)
    note push = rrq_push [OF "1.prems"(1) room, of ?c]
    have step: "rrq_put_fill data len h n = rrq_put_fill data len ?h (n + 1)"
      using True n0 c "1.prems"(1)
      by (simp add: rrq_put_fill.simps [of data len h n] access rrq_store_head_ok)
    have le: "n + 1 \<le> len" using nlt unat_inc [OF nlt] by (simp add: word_le_nat_alt word_less_nat_alt)
    obtain h' n' where IH: "rrq_put_fill data len ?h (n + 1) = Inr (h', n')" "rrq_idx h'"
      "rrq_frame h' = rrq_frame ?h" "rq_outputCounter h' = rq_outputCounter ?h"
      "n + 1 \<le> n'" "n' \<le> len"
      "unat n' - unat (n + 1) = min (unat len - unat (n + 1)) (rrq_cap ?h - rrq_count ?h)"
      "rrq_content h' = rrq_content ?h @ take (unat n' - unat (n + 1)) (drop (unat (n + 1)) data)"
      using "1.IH" [OF nlt umod_ok [OF n0] room c rrq_store_head_ok [OF "1.prems"(1)] push(1) "1.prems"(2) le]
      by blast
    have inc: "unat (n + 1) = unat n + 1" using nlt by (rule unat_inc)
    have len: "unat n < length data" using "1.prems"(2) nlt by (simp add: word_less_nat_alt)
    have le': "unat n + 1 \<le> unat n'" "unat n' \<le> unat len"
      using IH(5,6) inc by (simp_all add: word_le_nat_alt)
    have cap: "rrq_cap ?h = rrq_cap h" "rrq_count h < rrq_cap h"
      using room rrq_full_iff [OF "1.prems"(1)] rrq_count_cap [OF "1.prems"(1)]
      by (simp_all add: rrq_cap_def rrq_write_def)
    have "take (unat n' - unat n) (drop (unat n) data) =
        ?c # take (unat n' - (unat n + 1)) (drop (unat n + 1) data)"
      using len le' by (subst Cons_nth_drop_Suc [symmetric]) (auto simp: take_Cons' Suc_diff_le)
    then show ?thesis
      using IH step inc le' push cap nlt
      by (auto simp: word_le_nat_alt rrq_frame_def rrq_write_def)
  qed
qed

definition lastn :: "nat \<Rightarrow> 'a list \<Rightarrow> 'a list" where
  "lastn k xs = drop (length xs - k) xs"

lemma lastn_short: "length xs \<le> k \<Longrightarrow> lastn k xs = xs"
  by (simp add: lastn_def)

lemma lastn_absorb: "lastn k (lastn k xs @ ys) = lastn k (xs @ ys)"
proof (cases "length xs \<le> k")
  case False
  then have "length xs + length ys - k = length ys + (length xs - k)" by simp
  with False show ?thesis by (simp add: lastn_def)
qed (simp add: lastn_def)

lemma length_lastn: "length (lastn k xs) = min k (length xs)"
  by (simp add: lastn_def)

text \<open>One step of the overwriting loop keeps the newest \<open>bufLen - 1\<close> bytes.\<close>

lemma rrq_override_step_ok:
  assumes idx: "rrq_idx h"
  shows "\<exists>h'. rrq_override_step h c = Inr h' \<and> rrq_idx h' \<and> rrq_frame h' = rrq_frame h \<and>
     rrq_content h' = lastn (rrq_cap h) (rrq_content h @ [c]) \<and>
     rq_outputCounter h' = rq_outputCounter h + of_nat (rrq_count h + 1 - rrq_count h')"
proof (cases "(rq_head h + 1) mod rq_bufLen h = rq_tail h")
  case False
  have n0: "rq_bufLen h \<noteq> 0" using idx by (rule rrq_idxE)
  note push = rrq_push [OF idx False, of c]
  have "rrq_count h + 1 \<le> rrq_cap h"
    using False rrq_full_iff [OF idx] rrq_count_cap [OF idx] by simp
  then show ?thesis
    using idx n0 False push
    by (simp add: rrq_override_step_def rrq_store_head_ok access lastn_short)
      (simp add: rrq_write_def access rrq_frame_def)
next
  case True
  obtain buf where buf: "rq_pBuf h = Some buf" "rrq_buf h = buf" "length buf = unat (rq_bufLen h)"
    and lt: "unat (rq_head h) < unat (rq_bufLen h)" "unat (rq_tail h) < unat (rq_bufLen h)"
    and n0: "rq_bufLen h \<noteq> 0"
    using idx by (rule rrq_idxE)
  let ?n = "unat (rq_bufLen h)" and ?t = "unat (rq_tail h)" and ?hd = "unat (rq_head h)"
  let ?h = "(rrq_write h c)\<lparr>rq_head := (rq_head h + 1) mod rq_bufLen h,
     rq_tail := (rq_tail h + 1) mod rq_bufLen h, rq_outputCounter := rq_outputCounter h + 1\<rparr>"
  have full: "rrq_count h = rrq_cap h" using True rrq_full_iff [OF idx] by simp
  have step: "rrq_override_step h c = Inr ?h"
    using idx n0 True
    by (simp add: rrq_override_step_def rrq_store_head_ok access) (simp add: rrq_write_def access)
  have idx': "rrq_idx ?h"
    using idx n0 by (simp add: rrq_idx_def rrq_write_def rrq_buf_def word_mod_lt)
  have ut: "unat ((rq_tail h + 1) mod rq_bufLen h) = Suc ?t mod ?n"
    and uh: "unat ((rq_head h + 1) mod rq_bufLen h) = ?t"
    using idx unat_ring_succ [of "rq_tail h" "rq_bufLen h"] True by (auto simp: rrq_idx_def)
  have cnt: "rrq_count ?h = rrq_cap h"
  proof -
    have "Suc ?t mod ?n < ?n" using lt by simp
    then have "ring_dist ?n (Suc ?t mod ?n) ?t = ?n - Suc 0"
      using lt ring_dist_full [of "Suc ?t mod ?n" ?n ?t] by simp
    then show ?thesis using True ut uh by (simp add: rrq_count_def rrq_cap_def rrq_write_def)
  qed
  have n1: "?n = Suc (rrq_cap h)" using lt by (simp add: rrq_cap_def)
  have pos: "(?t + rrq_cap h) mod ?n = ?hd"
    using ring_dist_add [OF lt(2,1)] full by (simp add: rrq_count_def)
  have old: "ring_slice (buf[?hd := c]) ?t (rrq_cap h) = rrq_content h"
    using ring_slice_update [of "rrq_cap h" "rrq_cap h" buf ?t c] pos buf full n1
    by (simp add: rrq_content_def)
  have "ring_slice (buf[?hd := c]) ?t (Suc (rrq_cap h)) = rrq_content h @ [c]"
    using old pos lt buf by (simp add: ring_slice_snoc)
  then have "rrq_content h @ [c] = (buf[?hd := c]) ! ?t # ring_slice (buf[?hd := c]) (Suc ?t mod ?n) (rrq_cap h)"
    using ring_slice_Cons [of ?t "buf[?hd := c]" "rrq_cap h"] lt buf by simp
  then have "ring_slice (buf[?hd := c]) (Suc ?t mod ?n) (rrq_cap h) = lastn (rrq_cap h) (rrq_content h @ [c])"
    using full by (simp add: lastn_def drop_Suc)
  then have "rrq_content ?h = lastn (rrq_cap h) (rrq_content h @ [c])"
    using cnt ut by (simp add: rrq_content_def rrq_write_def rrq_buf_def buf)
  with step idx' cnt full show ?thesis
    by (simp add: rrq_frame_def rrq_write_def)
qed

lemma rrq_put_override_ok:
  assumes "rrq_idx h" "unat len \<le> length data" "n \<le> len"
  shows "\<exists>h'. rrq_put_override data len h n = Inr (h', len) \<and> rrq_idx h' \<and>
     rrq_frame h' = rrq_frame h \<and>
     rrq_content h' = lastn (rrq_cap h) (rrq_content h @ take (unat len - unat n) (drop (unat n) data)) \<and>
     rq_outputCounter h' = rq_outputCounter h + of_nat (rrq_count h + (unat len - unat n) - rrq_count h') \<and>
     rrq_count h' \<le> rrq_count h + (unat len - unat n)"
  using assms
proof (induction data len h n rule: rrq_put_override.induct)
  case (1 data len h n)
  show ?case
  proof (cases "n < len")
    case False
    then have "n = len" using "1.prems"(3) by simp
    then show ?thesis
      using "1.prems" rrq_count_cap [of h]
      by (simp add: rrq_put_override.simps [of data len h len] lastn_short)
  next
    case True
    let ?c = "data ! unat n"
    have c: "ld data (unat n) = Inr ?c" and len: "unat n < length data"
      using "1.prems"(2) True by (simp_all add: access word_less_nat_alt)
    obtain h1 where h1: "rrq_override_step h ?c = Inr h1" "rrq_idx h1" "rrq_frame h1 = rrq_frame h"
      "rrq_content h1 = lastn (rrq_cap h) (rrq_content h @ [?c])"
      "rq_outputCounter h1 = rq_outputCounter h + of_nat (rrq_count h + 1 - rrq_count h1)"
      using rrq_override_step_ok [OF "1.prems"(1)] by blast
    have inc: "unat (n + 1) = unat n + 1" using True by (rule unat_inc)
    have le: "n + 1 \<le> len" using True inc by (simp add: word_le_nat_alt word_less_nat_alt)
    obtain h' where IH: "rrq_put_override data len h1 (n + 1) = Inr (h', len)" "rrq_idx h'"
      "rrq_frame h' = rrq_frame h1"
      "rrq_content h' = lastn (rrq_cap h1) (rrq_content h1 @ take (unat len - unat (n + 1)) (drop (unat (n + 1)) data))"
      "rq_outputCounter h' = rq_outputCounter h1 + of_nat (rrq_count h1 + (unat len - unat (n + 1)) - rrq_count h')"
      "rrq_count h' \<le> rrq_count h1 + (unat len - unat (n + 1))"
      using "1.IH" [OF True c h1(1,2) "1.prems"(2) le] by blast
    have cap: "rrq_cap h1 = rrq_cap h" using h1(3) by (simp add: rrq_cap_def rrq_frame_def)
    have cnt1: "rrq_count h1 \<le> rrq_count h + 1"
      using arg_cong [OF h1(4), of length] by (simp add: length_lastn)
    have lt: "unat n < unat len" using True by (simp add: word_less_nat_alt)
    have tk: "take (unat len - unat n) (drop (unat n) data) =
        ?c # take (unat len - (unat n + 1)) (drop (unat n + 1) data)"
      using len lt by (subst Cons_nth_drop_Suc [symmetric]) (auto simp: take_Cons' Suc_diff_le)
    have out: "of_nat (rrq_count h + 1 - rrq_count h1) +
        of_nat (rrq_count h1 + (unat len - unat (n + 1)) - rrq_count h') =
        (of_nat (rrq_count h + (unat len - unat n) - rrq_count h') :: u32)"
    proof -
      have "rrq_count h + 1 - rrq_count h1 + (rrq_count h1 + (unat len - unat (n + 1)) - rrq_count h') =
          rrq_count h + (unat len - unat n) - rrq_count h'"
        using cnt1 IH(6) inc lt by arith
      then show ?thesis by (metis of_nat_add)
    qed
    have step: "rrq_put_override data len h n = rrq_put_override data len h1 (n + 1)"
      using True c h1(1) by (simp add: rrq_put_override.simps [of data len h n])
    show ?thesis
      using IH step h1 cap tk out inc cnt1 lt
      by (simp add: lastn_absorb add.assoc)
  qed
qed

section \<open>Put\<close>

lemma rrq_put_ok:
  assumes wf: "rrq_wf h" and len: "unat len \<le> length data"
  shows "\<exists>n ev h'. rrq_put isr (Some data) len h = Inr ((n, ev), h') \<and> rrq_wf h' \<and>
     rq_bufLen h' = rq_bufLen h \<and> rq_overrideOnFull h' = rq_overrideOnFull h \<and>
     unat n = (if rq_overrideOnFull h then unat len else min (unat len) (rrq_cap h - rrq_count h)) \<and>
     rrq_content h' = lastn (rrq_cap h) (rrq_content h @ take (unat n) data)"
proof -
  have idx: "rrq_idx h" and cnt: "rq_inputCounter h - rq_outputCounter h = of_nat (rrq_count h)"
    using wf by (simp_all add: rrq_wf_def)
  obtain h1 n1 where f: "rrq_put_fill data len h 0 = Inr (h1, n1)" "rrq_idx h1"
    "rrq_frame h1 = rrq_frame h" "rq_outputCounter h1 = rq_outputCounter h" "n1 \<le> len"
    "unat n1 = min (unat len) (rrq_cap h - rrq_count h)"
    "rrq_content h1 = rrq_content h @ take (unat n1) data"
    using rrq_put_fill_ok [OF idx len, of 0] by auto
  have le: "unat n1 \<le> unat len" using f(5) by (simp add: word_le_nat_alt)
  have cnt1: "rrq_count h1 = rrq_count h + unat n1"
    using arg_cong [OF f(7), of length] len le by simp
  have fr: "rq_bufLen h1 = rq_bufLen h" "rq_overrideOnFull h1 = rq_overrideOnFull h"
    "rq_inputCounter h1 = rq_inputCounter h" "rrq_cap h1 = rrq_cap h"
    using f(3) by (simp_all add: rrq_frame_def rrq_cap_def)
  show ?thesis
  proof (cases "rq_overrideOnFull h1 \<and> n1 \<noteq> len")
    case False
    let ?h = "h1\<lparr>rq_inputCounter := rq_inputCounter h1 + n1\<rparr>"
    have same: "rrq_content ?h = rrq_content h1" "rrq_count ?h = rrq_count h1" "rrq_idx ?h"
      using f(2) by (simp_all add: rrq_content_def rrq_count_def rrq_buf_def rrq_idx_def)
    have "rq_inputCounter h1 + n1 - rq_outputCounter h1 = of_nat (rrq_count h1)"
      using cnt cnt1 fr f(4) by (simp add: algebra_simps)
    then have "rrq_wf ?h" using same by (simp add: rrq_wf_def)
    moreover have "rrq_content ?h = lastn (rrq_cap h) (rrq_content h @ take (unat n1) data)"
      using same f(7) rrq_count_cap [OF f(2)] fr cnt1 len le by (simp add: lastn_short)
    ultimately show ?thesis
      using f False fr by (auto simp: rrq_put_def)
  next
    case True
    obtain h2 where o: "rrq_put_override data len h1 n1 = Inr (h2, len)" "rrq_idx h2"
      "rrq_frame h2 = rrq_frame h1"
      "rrq_content h2 = lastn (rrq_cap h1) (rrq_content h1 @ take (unat len - unat n1) (drop (unat n1) data))"
      "rq_outputCounter h2 = rq_outputCounter h1 + of_nat (rrq_count h1 + (unat len - unat n1) - rrq_count h2)"
      "rrq_count h2 \<le> rrq_count h1 + (unat len - unat n1)"
      using rrq_put_override_ok [OF f(2) len f(5)] by blast
    let ?h = "h2\<lparr>rq_inputCounter := rq_inputCounter h2 + len\<rparr>"
    have same: "rrq_content ?h = rrq_content h2" "rrq_count ?h = rrq_count h2" "rrq_idx ?h"
      using o(2) by (simp_all add: rrq_content_def rrq_count_def rrq_buf_def rrq_idx_def)
    have sum: "rrq_count h1 + (unat len - unat n1) - rrq_count h2 = rrq_count h + unat len - rrq_count h2"
      using cnt1 le by simp
    have le2: "rrq_count h2 \<le> rrq_count h + unat len" using o(6) cnt1 le by simp
    have "rq_inputCounter h2 + len - rq_outputCounter h2 = of_nat (rrq_count h2)"
      using cnt o(3,5) f(4) fr le2 unfolding sum by (simp add: rrq_frame_def algebra_simps)
    then have "rrq_wf ?h" using same by (simp add: rrq_wf_def)
    moreover have "take (unat n1) data @ take (unat len - unat n1) (drop (unat n1) data) = take (unat len) data"
      using le take_add [of "unat n1" "unat len - unat n1" data] by simp
    then have "rrq_content ?h = lastn (rrq_cap h) (rrq_content h @ take (unat len) data)"
      using same o(4) f(7) fr by simp
    ultimately show ?thesis
      using f o True fr by (auto simp: rrq_put_def rrq_frame_def)
  qed
qed

section \<open>Copying bytes out\<close>

lemma rrq_load_ok: "rrq_idx h \<Longrightarrow> i < rq_bufLen h \<Longrightarrow> rrq_load h i = Inr (rrq_buf h ! unat i)"
  by (auto simp: rrq_load_def access word_less_nat_alt elim!: rrq_idxE)

lemma rrq_copy_ok:
  assumes "rrq_idx h" "stop < rq_bufLen h" "t < rq_bufLen h" "unat len \<le> length out" "n \<le> len"
  defines "m \<equiv> min (unat len - unat n) (ring_dist (unat (rq_bufLen h)) (unat t) (unat stop))"
  shows "\<exists>t'. rrq_copy h stop len out t n =
     Inr (take (unat n) out @ ring_slice (rrq_buf h) (unat t) m @ drop (unat n + m) out, t', n + of_nat m) \<and>
     unat t' = (unat t + m) mod unat (rq_bufLen h)"
  using assms(1-5) unfolding m_def
proof (induction h stop len out t n rule: rrq_copy.induct)
  case (1 h stop len out t n)
  let ?N = "unat (rq_bufLen h)"
  have lt: "unat t < ?N" "unat stop < ?N" using "1.prems"(2,3) by (simp_all add: word_less_nat_alt)
  show ?case
  proof (cases "n < len \<and> t \<noteq> stop")
    case False
    then have z: "min (unat len - unat n) (ring_dist ?N (unat t) (unat stop)) = 0"
      using lt "1.prems"(5) by (auto simp: ring_dist_eq_0)
    have "rrq_copy h stop len out t n = Inr (out, t, n)"
      using False by (auto simp: rrq_copy.simps [of h stop len out t n])
    then show ?thesis using lt unfolding z by simp
  next
    case True
    let ?c = "rrq_buf h ! unat t" and ?t = "(t + 1) mod rq_bufLen h"
    let ?out = "out[unat n := ?c]"
    let ?d = "ring_dist ?N (Suc (unat t) mod ?N) (unat stop)"
    have n0: "rq_bufLen h \<noteq> 0" using "1.prems"(1) by (rule rrq_idxE)
    have nlt: "n < len" and ne: "t \<noteq> stop" using True by auto
    have l: "rrq_load h t = Inr ?c" using "1.prems"(1,3) by (rule rrq_load_ok)
    have w: "st out (unat n) ?c = Inr ?out" and nl: "unat n < length out"
      using nlt "1.prems"(4) by (simp_all add: access word_less_nat_alt)
    have inc: "unat (n + 1) = Suc (unat n)" using unat_inc [OF nlt] by simp
    have le: "n + 1 \<le> len" using nlt inc by (simp add: word_le_nat_alt word_less_nat_alt)
    have ut: "unat ?t = Suc (unat t) mod ?N" using "1.prems"(3) by (rule unat_ring_succ)
    have tlt: "?t < rq_bufLen h" using n0 by (rule word_mod_lt)
    have step: "rrq_copy h stop len out t n = rrq_copy h stop len ?out ?t (n + 1)"
      using True l w n0 by (simp add: rrq_copy.simps [of h stop len out t n] access)
    define k where "k = min (unat len - Suc (unat n)) ?d"
    have mk: "min (unat len - unat n) (ring_dist ?N (unat t) (unat stop)) = Suc k"
      using ring_dist_pop [OF lt] ne nlt by (simp add: k_def word_unat_eq_iff word_less_nat_alt)
    obtain t' where IH: "rrq_copy h stop len ?out ?t (n + 1) =
        Inr (take (Suc (unat n)) ?out @ ring_slice (rrq_buf h) (unat ?t) k @ drop (Suc (unat n) + k) ?out,
          t', n + 1 + of_nat k)" "unat t' = (unat ?t + k) mod ?N"
      using "1.IH" [OF True l w umod_ok [OF n0] "1.prems"(1,2) tlt _ le] "1.prems"(4)
      unfolding inc k_def ut by auto
    have blen: "length (rrq_buf h) = ?N" using "1.prems"(1) by (simp add: rrq_idx_def)
    have "take (Suc (unat n)) ?out @ ring_slice (rrq_buf h) (unat ?t) k @ drop (Suc (unat n) + k) ?out =
        take (unat n) out @ ring_slice (rrq_buf h) (unat t) (Suc k) @ drop (unat n + Suc k) out"
      using ring_slice_Cons [of "unat t" "rrq_buf h" k] lt blen nl ut
      by (simp add: take_Suc_conv_app_nth)
    moreover have "unat t' = (unat t + Suc k) mod ?N"
      using IH(2) ut by (simp add: mod_simps)
    ultimately show ?thesis
      using IH(1) unfolding step mk by (simp add: add.assoc)
  qed
qed

text \<open>Dropping \<open>k\<close> bytes at the tail: the content loses its first \<open>k\<close> bytes.\<close>

lemma ring_slice_split:
  assumes "a + b \<le> length buf" "t < length buf"
  shows "ring_slice buf t (a + b) = ring_slice buf t a @ ring_slice buf ((t + a) mod length buf) b"
  using assms
proof (induction b)
  case (Suc b)
  have "((t + a) mod length buf + b) mod length buf = (t + (a + b)) mod length buf"
    by (simp add: mod_simps add.assoc)
  with Suc show ?case by (simp add: ring_slice_snoc)
qed simp

lemma ring_dist_advance:
  assumes "t < n" "h < n" "k \<le> ring_dist n t h"
  shows "ring_dist n ((t + k) mod n) h = ring_dist n t h - k"
  using assms
proof (induction k)
  case (Suc k)
  have lt: "(t + k) mod n < n" using Suc.prems by simp
  have d: "ring_dist n ((t + k) mod n) h = ring_dist n t h - k" using Suc by simp
  moreover have "(t + k) mod n \<noteq> h"
    using d Suc.prems lt ring_dist_eq_0 [of "(t + k) mod n" n h] by auto
  ultimately have "ring_dist n (Suc ((t + k) mod n) mod n) h = ring_dist n t h - Suc k"
    using ring_dist_pop [OF lt Suc.prems(2)] by simp
  then show ?case by (simp add: mod_simps)
qed simp

lemma rrq_drop:
  assumes idx: "rrq_idx h" and k: "k \<le> rrq_count h"
    and t: "unat t = (unat (rq_tail h) + k) mod unat (rq_bufLen h)"
  shows "rrq_idx (h\<lparr>rq_tail := t, rq_outputCounter := out\<rparr>)"
    "rrq_count (h\<lparr>rq_tail := t, rq_outputCounter := out\<rparr>) = rrq_count h - k"
    "rrq_content (h\<lparr>rq_tail := t, rq_outputCounter := out\<rparr>) = drop k (rrq_content h)"
    "take k (rrq_content h) = ring_slice (rrq_buf h) (unat (rq_tail h)) k"
proof -
  obtain buf where buf: "rq_pBuf h = Some buf" "rrq_buf h = buf" "length buf = unat (rq_bufLen h)"
    and lt: "unat (rq_head h) < unat (rq_bufLen h)" "unat (rq_tail h) < unat (rq_bufLen h)"
    and n0: "rq_bufLen h \<noteq> 0"
    using idx by (rule rrq_idxE)
  let ?h = "h\<lparr>rq_tail := t, rq_outputCounter := out\<rparr>"
  show "rrq_idx ?h" using idx t lt by (simp add: rrq_idx_def rrq_buf_def word_less_nat_alt)
  show c: "rrq_count ?h = rrq_count h - k"
    using ring_dist_advance [OF lt(2,1)] k t by (simp add: rrq_count_def)
  have "rrq_content h = ring_slice buf (unat (rq_tail h)) (k + (rrq_count h - k))"
    using k buf by (simp add: rrq_content_def)
  also have "\<dots> = ring_slice buf (unat (rq_tail h)) k @ rrq_content ?h"
    using rrq_count_lt [OF idx] k c t lt buf
    by (subst ring_slice_split) (simp_all add: rrq_content_def rrq_buf_def)
  finally show "rrq_content ?h = drop k (rrq_content h)"
    "take k (rrq_content h) = ring_slice (rrq_buf h) (unat (rq_tail h)) k"
    using buf by simp_all
qed

lemma rrq_get_ok:
  assumes wf: "rrq_wf h" and len: "unat len \<le> length out"
  defines "k \<equiv> min (unat len) (rrq_count h)"
  shows "\<exists>h'. rrq_get isr (Some out) len h =
       Inr ((of_nat k, take k (rrq_content h) @ drop k out, rrq_locks (rq_overrideOnFull h) isr), h') \<and>
     rrq_wf h' \<and> rrq_content h' = drop k (rrq_content h) \<and>
     rq_bufLen h' = rq_bufLen h \<and> rq_overrideOnFull h' = rq_overrideOnFull h"
proof -
  have idx: "rrq_idx h" and cnt: "rq_inputCounter h - rq_outputCounter h = of_nat (rrq_count h)"
    using wf by (simp_all add: rrq_wf_def)
  have bounds: "rq_head h < rq_bufLen h" "rq_tail h < rq_bufLen h" using idx by (simp_all add: rrq_idx_def)
  have kle: "k \<le> rrq_count h" by (simp add: k_def)
  obtain t where c: "rrq_copy h (rq_head h) len out (rq_tail h) 0 =
      Inr (ring_slice (rrq_buf h) (unat (rq_tail h)) k @ drop k out, t, of_nat k)"
    "unat t = (unat (rq_tail h) + k) mod unat (rq_bufLen h)"
    using rrq_copy_ok [OF idx bounds len, of 0] by (auto simp: k_def rrq_count_def)
  note d = rrq_drop(1-3) [OF idx kle c(2), of "rq_outputCounter h + of_nat k"]
    rrq_drop(4) [OF idx kle c(2)]
  have "rq_inputCounter h - (rq_outputCounter h + of_nat k) = of_nat (rrq_count h - k)"
    using cnt kle by (simp add: diff_diff_eq [symmetric])
  with d c(1) show ?thesis
    by (simp add: rrq_get_def rrq_wf_def)
qed

end
