(* ===== verification/Rrq_Frames.thy ===== *)
theory Rrq_Frames
  imports Rrq_Correct "HOL-Library.Sublist"
begin

text \<open>
  The frame operations of the ring queues: pattern search and package scan. Each loop over
  the ring is related to a structurally recursive function on the list of queued bytes, so
  that the loops are shown to end and to find the first frame of the list. Buffers of at
  most \<open>2^31\<close> bytes are assumed, so that the sum of two ring indices does not wrap.
\<close>

section \<open>Positions in the content\<close>

text \<open>\<open>rrq_pos h i a\<close>: the ring index \<open>i\<close> is the place of byte number \<open>a\<close> of the content.\<close>

definition rrq_pos :: "rrq_handler \<Rightarrow> u32 \<Rightarrow> nat \<Rightarrow> bool" where
  "rrq_pos h i a \<longleftrightarrow> a \<le> rrq_count h \<and> unat i = (unat (rq_tail h) + a) mod unat (rq_bufLen h)"

definition rrq_small :: "rrq_handler \<Rightarrow> bool" where
  "rrq_small h \<longleftrightarrow> rrq_idx h \<and> unat (rq_bufLen h) \<le> 2 ^ 31"

lemma rrq_small_idx: "rrq_small h \<Longrightarrow> rrq_idx h"
  by (simp add: rrq_small_def)

lemma rrq_pos_tail: "rrq_idx h \<Longrightarrow> rrq_pos h (rq_tail h) 0"
  by (simp add: rrq_pos_def rrq_idx_def word_less_nat_alt)

lemma rrq_pos_lt: "rrq_idx h \<Longrightarrow> rrq_pos h i a \<Longrightarrow> i < rq_bufLen h"
  by (auto simp: rrq_pos_def word_less_nat_alt elim!: rrq_idxE)

lemma rrq_pos_inj: "rrq_idx h \<Longrightarrow> rrq_pos h i a \<Longrightarrow> rrq_pos h j b \<Longrightarrow> i = j \<longleftrightarrow> a = b"
  using rrq_count_lt [of h] mod_add_inj [of a "unat (rq_bufLen h)" b "unat (rq_tail h)"]
  by (auto simp: rrq_pos_def word_unat_eq_iff)

lemma rrq_pos_head: "rrq_idx h \<Longrightarrow> rrq_pos h (rq_head h) (rrq_count h)"
  by (auto simp: rrq_pos_def rrq_count_def ring_dist_add elim!: rrq_idxE)

lemma rrq_pos_head_iff: "rrq_idx h \<Longrightarrow> rrq_pos h i a \<Longrightarrow> i = rq_head h \<longleftrightarrow> a = rrq_count h"
  using rrq_pos_inj rrq_pos_head by blast

lemma rrq_pos_load:
  assumes "rrq_idx h" "rrq_pos h i a" "a < rrq_count h"
  shows "rrq_load h i = Inr (rrq_content h ! a)"
proof -
  have "rrq_content h ! a = rrq_buf h ! ((unat (rq_tail h) + a) mod length (rrq_buf h))"
    using assms(3) by (simp add: rrq_content_def ring_slice_def)
  then show ?thesis
    using assms rrq_load_ok [OF assms(1) rrq_pos_lt [OF assms(1,2)]]
    by (simp add: rrq_pos_def rrq_idx_def)
qed

text \<open>Advancing an index by \<open>j\<close> positions, as the C expression \<open>(i + j) % bufLen\<close> does.\<close>

lemma rrq_pos_add:
  assumes "rrq_small h" "rrq_pos h i a" "a + unat j \<le> rrq_count h"
  shows "umod (i + j) (rq_bufLen h) = Inr ((i + j) mod rq_bufLen h)"
    "rrq_pos h ((i + j) mod rq_bufLen h) (a + unat j)"
proof -
  have idx: "rrq_idx h" and N: "unat (rq_bufLen h) \<le> 2 ^ 31"
    using assms(1) by (simp_all add: rrq_small_def)
  have n0: "rq_bufLen h \<noteq> 0" using idx by (rule rrq_idxE)
  then show "umod (i + j) (rq_bufLen h) = Inr ((i + j) mod rq_bufLen h)" by (rule umod_ok)
  have "unat i < 2 ^ 31" "unat j < 2 ^ 31"
    using rrq_pos_lt [OF idx assms(2)] N rrq_count_lt [OF idx] assms(3)
    by (simp_all add: word_less_nat_alt)
  then have "unat (i + j) = unat i + unat j" by (simp add: unat_word_ariths)
  then show "rrq_pos h ((i + j) mod rq_bufLen h) (a + unat j)"
    using assms by (simp add: rrq_pos_def unat_mod mod_simps add.assoc)
qed

lemmas rrq_pos_succ = rrq_pos_add [where j = 1, simplified]

section \<open>Pattern search on lists\<close>

fun lcp_len :: "'a list \<Rightarrow> 'a list \<Rightarrow> nat" where
  "lcp_len (x # xs) (y # ys) = (if x = y then Suc (lcp_len xs ys) else 0)"
| "lcp_len _ _ = 0"

fun find_sub :: "'a list \<Rightarrow> 'a list \<Rightarrow> nat option" where
  "find_sub p [] = None"
| "find_sub p (x # xs) = (if prefix p (x # xs) then Some 0 else map_option Suc (find_sub p xs))"

lemma lcp_len_le: "lcp_len xs ys \<le> length xs"
  by (induction xs ys rule: lcp_len.induct) auto

lemma lcp_len_full: "lcp_len xs ys = length xs \<longleftrightarrow> prefix xs ys"
  by (induction xs ys rule: lcp_len.induct) auto

lemma find_sub_SomeD:
  "find_sub p xs = Some k \<Longrightarrow> k < length xs \<and> prefix p (drop k xs) \<and> (\<forall>j<k. \<not> prefix p (drop j xs))"
proof (induction xs arbitrary: k)
  case (Cons x xs)
  show ?case
  proof (cases "prefix p (x # xs)")
    case False
    with Cons.prems obtain m where m: "find_sub p xs = Some m" "k = Suc m" by auto
    with Cons.IH False show ?thesis by (auto simp: less_Suc_eq_0_disj)
  qed (use Cons.prems in auto)
qed simp

lemma find_sub_NoneD: "find_sub p xs = None \<Longrightarrow> j < length xs \<Longrightarrow> \<not> prefix p (drop j xs)"
proof (induction xs arbitrary: j)
  case (Cons x xs)
  then show ?case by (cases j) (auto split: if_splits)
qed simp

lemma rrq_match_len_ok:
  assumes "rrq_small h" "rrq_pos h i a" "length ptn = unat plen" "j \<le> plen" "a + unat j \<le> rrq_count h"
  shows "\<exists>r. rrq_match_len h i ptn plen j = Inr r \<and>
     unat r = unat j + lcp_len (drop (unat j) ptn) (drop (a + unat j) (rrq_content h))"
  using assms
proof (induction h i ptn plen j rule: rrq_match_len.induct)
  case (1 h i ptn plen j)
  let ?p = "(i + j) mod rq_bufLen h" and ?xs = "rrq_content h"
  have idx: "rrq_idx h" using "1.prems"(1) by (rule rrq_small_idx)
  note pos = rrq_pos_add [OF "1.prems"(1,2,5)]
  show ?case
  proof (cases "j < plen \<and> ?p \<noteq> rq_head h")
    case False
    then have "rrq_match_len h i ptn plen j = Inr j"
      using pos by (auto simp: rrq_match_len.simps [of h i ptn plen j])
    moreover have "lcp_len (drop (unat j) ptn) (drop (a + unat j) ?xs) = 0"
    proof (cases "j < plen")
      case True
      then have "a + unat j = rrq_count h" using False rrq_pos_head_iff [OF idx pos(2)] by simp
      then show ?thesis by (simp add: lcp_len.simps(3))
    next
      case False
      then have "drop (unat j) ptn = []" using "1.prems"(3,4) by (simp add: word_less_nat_alt)
      then show ?thesis by simp
    qed
    ultimately show ?thesis by simp
  next
    case True
    have lt: "unat j < length ptn" using True "1.prems"(3) by (simp add: word_less_nat_alt)
    have ne: "a + unat j < rrq_count h" using True "1.prems"(5) rrq_pos_head_iff [OF idx pos(2)] by simp
    have l: "rrq_load h ?p = Inr (?xs ! (a + unat j))" using rrq_pos_load [OF idx pos(2) ne] .
    have d: "ld ptn (unat j) = Inr (ptn ! unat j)" using lt by (rule ld_ok)
    have inc: "unat (j + 1) = Suc (unat j)" using True unat_inc [of j plen] by simp
    have c1: "drop (unat j) ptn = ptn ! unat j # drop (Suc (unat j)) ptn"
      using lt by (simp add: Cons_nth_drop_Suc)
    have c2: "drop (a + unat j) ?xs = ?xs ! (a + unat j) # drop (Suc (a + unat j)) ?xs"
      using ne by (simp add: Cons_nth_drop_Suc)
    show ?thesis
    proof (cases "?xs ! (a + unat j) = ptn ! unat j")
      case False
      then show ?thesis
        using True pos l d by (simp add: rrq_match_len.simps [of h i ptn plen j] c1 c2)
    next
      case eq: True
      have le: "j + 1 \<le> plen" using inc lt "1.prems"(3) by (simp add: word_le_nat_alt)
      have "\<exists>r. rrq_match_len h i ptn plen (j + 1) = Inr r \<and>
          unat r = unat (j + 1) + lcp_len (drop (unat (j + 1)) ptn) (drop (a + unat (j + 1)) ?xs)"
        using "1.IH" [OF conjunct1 [OF True] pos(1) conjunct2 [OF True] l d eq "1.prems"(1-3) le] ne inc
        by simp
      then show ?thesis
        using True pos l d eq inc
        by (auto simp: rrq_match_len.simps [of h i ptn plen j] c1 c2)
    qed
  qed
qed

lemma rrq_match_ok:
  assumes "rrq_small h" "rrq_pos h i a" "length ptn = unat plen"
  shows "\<exists>r. rrq_match_len h i ptn plen 0 = Inr r \<and> (r = plen \<longleftrightarrow> prefix ptn (drop a (rrq_content h)))"
  using rrq_match_len_ok [OF assms, of 0] assms(2,3)
  by (auto simp: rrq_pos_def word_unat_eq_iff lcp_len_full [symmetric])

lemma rrq_search_ok:
  assumes "rrq_small h" "rrq_pos h i a" "length ptn = unat plen" "rrq_count h - a < fuel"
  shows "case find_sub ptn (drop a (rrq_content h)) of
     None \<Rightarrow> rrq_search fuel h ptn plen i k = Inr None
   | Some m \<Rightarrow> \<exists>i'. rrq_search fuel h ptn plen i k = Inr (Some (i', k + of_nat m)) \<and> rrq_pos h i' (a + m)"
  using assms
proof (induction fuel arbitrary: i a k)
  case (Suc fuel)
  let ?xs = "rrq_content h"
  have idx: "rrq_idx h" using Suc.prems(1) by (rule rrq_small_idx)
  have ale: "a \<le> rrq_count h" using Suc.prems(2) by (simp add: rrq_pos_def)
  show ?case
  proof (cases "i = rq_head h")
    case True
    then have "a = rrq_count h" using rrq_pos_head_iff [OF idx Suc.prems(2)] by simp
    then show ?thesis using True by simp
  next
    case False
    then have lt: "a < rrq_count h" using rrq_pos_head_iff [OF idx Suc.prems(2)] ale by simp
    have c: "drop a ?xs = ?xs ! a # drop (Suc a) ?xs" using lt by (simp add: Cons_nth_drop_Suc)
    obtain r where r: "rrq_match_len h i ptn plen 0 = Inr r" "r = plen \<longleftrightarrow> prefix ptn (drop a ?xs)"
      using rrq_match_ok [OF Suc.prems(1-3)] by blast
    have nxt: "umod (i + 1) (rq_bufLen h) = Inr ((i + 1) mod rq_bufLen h)"
      "rrq_pos h ((i + 1) mod rq_bufLen h) (Suc a)"
      using rrq_pos_succ [OF Suc.prems(1,2)] lt by simp_all
    show ?thesis
    proof (cases "r = plen")
      case True
      then show ?thesis using False r c Suc.prems(2) by simp
    next
      case ne: False
      have "case find_sub ptn (drop (Suc a) ?xs) of
           None \<Rightarrow> rrq_search fuel h ptn plen ((i + 1) mod rq_bufLen h) (k + 1) = Inr None
         | Some m \<Rightarrow> \<exists>i'. rrq_search fuel h ptn plen ((i + 1) mod rq_bufLen h) (k + 1) =
              Inr (Some (i', k + 1 + of_nat m)) \<and> rrq_pos h i' (Suc a + m)"
        by (rule Suc.IH [OF Suc.prems(1) nxt(2) Suc.prems(3)]) (use Suc.prems(4) lt in simp)
      then show ?thesis
        using False ne r nxt(1) by (cases "find_sub ptn (drop (Suc a) ?xs)") (auto simp: c add.assoc)
    qed
  qed
qed simp

section \<open>Pattern frames\<close>

definition ptn_list :: "u8 list option \<Rightarrow> u32 \<Rightarrow> u8 list" where
  "ptn_list p len = (if ptn_given p len then the p else [])"

definition ptn_ok :: "u8 list option \<Rightarrow> u32 \<Rightarrow> bool" where
  "ptn_ok p len \<longleftrightarrow> (case p of None \<Rightarrow> True | Some xs \<Rightarrow> length xs = unat len)"

text \<open>
  What the frame search means on a list: the first occurrence of the start pattern, and the
  end of the first occurrence of the end pattern after it. An empty pattern stands for an
  absent one.
\<close>

definition frame_bounds :: "u8 list \<Rightarrow> u8 list \<Rightarrow> u8 list \<Rightarrow> (nat \<times> nat) option" where
  "frame_bounds sp ep xs =
     (case (if sp = [] then Some 0 else find_sub sp xs) of
        None \<Rightarrow> None
      | Some s \<Rightarrow>
          (case (if ep = [] then Some (length xs)
                 else map_option (\<lambda>e. s + length sp + e + length ep) (find_sub ep (drop (s + length sp) xs))) of
             None \<Rightarrow> None
           | Some e \<Rightarrow> if s = e then None else Some (s, e)))"

lemma ptn_list_given:
  assumes "ptn_ok p len" "ptn_given p len"
  shows "ptn_list p len = the p" "length (the p) = unat len" "the p \<noteq> []"
proof -
  obtain xs where "p = Some xs" using assms(2) by (auto simp: ptn_given_def)
  moreover from this assms have "length xs = unat len" "xs \<noteq> []"
    by (auto simp: ptn_ok_def ptn_given_def unat_eq_0)
  ultimately show "ptn_list p len = the p" "length (the p) = unat len" "the p \<noteq> []"
    using assms(2) by (simp_all add: ptn_list_def)
qed

lemma rrq_pos_not_sentinel: "rrq_idx h \<Longrightarrow> rrq_pos h i a \<Longrightarrow> i \<noteq> 0xFFFFFFFF"
proof
  assume "rrq_idx h" "rrq_pos h i a" "i = 0xFFFFFFFF"
  then have "(0xFFFFFFFF :: u32) < rq_bufLen h" using rrq_pos_lt by blast
  then show False
    using unsigned_less [of "rq_bufLen h", where ?'a = nat] by (simp add: word_less_nat_alt)
qed

lemma rrq_frame_start_ok:
  assumes sm: "rrq_small h" and ok: "ptn_ok sp spLen"
  defines "xs \<equiv> rrq_content h" and "p \<equiv> ptn_list sp spLen"
  shows "case (if p = [] then Some 0 else find_sub p xs) of
     None \<Rightarrow> rrq_frame_start h sp spLen = Inr (0xFFFFFFFF, 0, spLen)
   | Some s \<Rightarrow> \<exists>i spLen'. rrq_frame_start h sp spLen = Inr (i, of_nat s, spLen') \<and> rrq_pos h i s \<and>
       unat spLen' = length p \<and> s + length p \<le> length xs"
proof (cases "ptn_given sp spLen")
  case False
  then show ?thesis
    using rrq_pos_tail [OF rrq_small_idx [OF sm]]
    by (simp add: rrq_frame_start_def p_def ptn_list_def)
next
  case True
  note g = ptn_list_given [OF ok True]
  have idx: "rrq_idx h" using sm by (rule rrq_small_idx)
  have "case find_sub (the sp) (drop 0 xs) of
      None \<Rightarrow> rrq_search (unat (rq_bufLen h)) h (the sp) spLen (rq_tail h) 0 = Inr None
    | Some m \<Rightarrow> \<exists>i'. rrq_search (unat (rq_bufLen h)) h (the sp) spLen (rq_tail h) 0 =
        Inr (Some (i', 0 + of_nat m)) \<and> rrq_pos h i' (0 + m)"
    unfolding xs_def
    by (rule rrq_search_ok [OF sm rrq_pos_tail [OF idx] g(2)]) (use rrq_count_lt [OF idx] in simp)
  then show ?thesis
    using True g find_sub_SomeD [of "the sp" xs]
    by (auto simp: rrq_frame_start_def p_def dest!: prefix_length_le split: option.splits)
qed

lemma rrq_frame_end_ok:
  assumes sm: "rrq_small h" and ok: "ptn_ok ep epLen" and pos: "rrq_pos h i s"
    and fit: "s + unat spLen \<le> rrq_count h"
  defines "xs \<equiv> rrq_content h" and "p \<equiv> ptn_list ep epLen"
  shows "case (if p = [] then Some (length xs)
       else map_option (\<lambda>e. s + unat spLen + e + length p) (find_sub p (drop (s + unat spLen) xs))) of
     None \<Rightarrow> rrq_frame_end h i spLen ep epLen = Inr 0xFFFFFFFF
   | Some e \<Rightarrow> \<exists>j. rrq_frame_end h i spLen ep epLen = Inr j \<and> rrq_pos h j e"
proof (cases "ptn_given ep epLen")
  case False
  then show ?thesis
    using rrq_pos_head [OF rrq_small_idx [OF sm]]
    by (simp add: rrq_frame_end_def p_def ptn_list_def xs_def)
next
  case True
  note g = ptn_list_given [OF ok True]
  have idx: "rrq_idx h" using sm by (rule rrq_small_idx)
  let ?i0 = "(i + spLen) mod rq_bufLen h" and ?a = "s + unat spLen"
  note i0 = rrq_pos_add [OF sm pos fit]
  have S: "case find_sub (the ep) (drop ?a xs) of
      None \<Rightarrow> rrq_search (unat (rq_bufLen h)) h (the ep) epLen ?i0 0 = Inr None
    | Some m \<Rightarrow> \<exists>i'. rrq_search (unat (rq_bufLen h)) h (the ep) epLen ?i0 0 =
        Inr (Some (i', 0 + of_nat m)) \<and> rrq_pos h i' (?a + m)"
    unfolding xs_def
    by (rule rrq_search_ok [OF sm i0(2) g(2)]) (use rrq_count_lt [OF idx] in simp)
  show ?thesis
  proof (cases "find_sub (the ep) (drop ?a xs)")
    case None
    with S True g i0(1) rrq_pos_not_sentinel [OF idx pos] show ?thesis
      by (simp add: rrq_frame_end_def p_def)
  next
    case (Some m)
    with S obtain i' where i': "rrq_search (unat (rq_bufLen h)) h (the ep) epLen ?i0 0 = Inr (Some (i', of_nat m))"
      "rrq_pos h i' (?a + m)" by auto
    have "?a + m + unat epLen \<le> rrq_count h"
      using find_sub_SomeD [OF Some] g(2) by (auto simp: xs_def dest!: prefix_length_le)
    note e = rrq_pos_add [OF sm i'(2) this]
    show ?thesis
      using True g Some i' i0(1) e rrq_pos_not_sentinel [OF idx pos]
      by (simp add: rrq_frame_end_def p_def)
  qed
qed

lemma frame_bounds_le:
  "frame_bounds sp ep xs = Some (s, e) \<Longrightarrow> s < e \<and> e \<le> length xs"
  using find_sub_SomeD [of sp xs] find_sub_SomeD [of ep "drop (s + length sp) xs"]
  by (auto simp: frame_bounds_def dest!: prefix_length_le split: option.splits if_splits)

lemma rrq_find_frame_ok:
  assumes sm: "rrq_small h" and ok: "ptn_ok sp spLen" "ptn_ok ep epLen"
  shows "\<exists>i k j. rrq_find_frame h sp spLen ep epLen = Inr (i, k, j) \<and>
     (case frame_bounds (ptn_list sp spLen) (ptn_list ep epLen) (rrq_content h) of
        None \<Rightarrow> \<not> frame_found i j
      | Some (s, e) \<Rightarrow> frame_found i j \<and> rrq_pos h i s \<and> rrq_pos h j e \<and> k = of_nat s)"
proof -
  let ?xs = "rrq_content h" and ?p = "ptn_list sp spLen" and ?q = "ptn_list ep epLen"
  have idx: "rrq_idx h" using sm by (rule rrq_small_idx)
  note fs = rrq_frame_start_ok [OF sm ok(1)]
  show ?thesis
  proof (cases "if ?p = [] then Some 0 else find_sub ?p ?xs")
    case None
    with fs show ?thesis
      by (auto simp: rrq_find_frame_def rrq_frame_end_def frame_bounds_def frame_found_def)
  next
    case (Some s)
    with fs obtain i spLen' where st: "rrq_frame_start h sp spLen = Inr (i, of_nat s, spLen')"
      "rrq_pos h i s" "unat spLen' = length ?p" "s + length ?p \<le> rrq_count h" by auto
    note fe = rrq_frame_end_ok [OF sm ok(2) st(2), of spLen', unfolded st(3), OF st(4)]
    show ?thesis
    proof (cases "if ?q = [] then Some (length ?xs) else
        map_option (\<lambda>e. s + length ?p + e + length ?q) (find_sub ?q (drop (s + length ?p) ?xs))")
      case None
      with fe st Some show ?thesis
        by (simp add: rrq_find_frame_def frame_bounds_def frame_found_def)
    next
      case e: (Some e)
      with fe obtain j where j: "rrq_frame_end h i spLen' ep epLen = Inr j" "rrq_pos h j e" by auto
      show ?thesis
        using st j Some e rrq_pos_inj [OF idx st(2) j(2)] rrq_pos_not_sentinel [OF idx]
        by (auto simp: rrq_find_frame_def frame_bounds_def frame_found_def)
    qed
  qed
qed

text \<open>Copying between two positions of the content.\<close>

lemma rrq_copy_pos:
  assumes idx: "rrq_idx h" and pos: "rrq_pos h i s" "rrq_pos h j e" and se: "s \<le> e"
    and len: "unat len \<le> length out"
  defines "n \<equiv> min (unat len) (e - s)"
  shows "\<exists>t. rrq_copy h j len out i 0 = Inr (take n (drop s (rrq_content h)) @ drop n out, t, of_nat n) \<and>
     rrq_pos h t (s + n)"
proof -
  obtain buf where buf: "rrq_buf h = buf" "length buf = unat (rq_bufLen h)"
    and lt: "unat (rq_tail h) < unat (rq_bufLen h)"
    using idx by (rule rrq_idxE)
  let ?N = "unat (rq_bufLen h)"
  have ecnt: "e \<le> rrq_count h" "s \<le> rrq_count h" using pos by (simp_all add: rrq_pos_def)
  have N: "rrq_count h < ?N" using idx by (rule rrq_count_lt)
  have d: "ring_dist ?N (unat i) (unat j) = e - s"
  proof -
    obtain d where "e = s + d" using se le_Suc_ex by blast
    then have "unat j = (unat i + (e - s)) mod ?N"
      using pos by (simp add: rrq_pos_def mod_simps add.assoc)
    moreover have "unat i < ?N" using pos lt by (simp add: rrq_pos_def)
    moreover have "e - s < ?N" using ecnt N by simp
    ultimately show ?thesis by (auto simp: ring_dist_def mod_if)
  qed
  obtain t where c: "rrq_copy h j len out i 0 = Inr (ring_slice buf (unat i) n @ drop n out, t, of_nat n)"
    "unat t = (unat i + n) mod ?N"
    using rrq_copy_ok [OF idx rrq_pos_lt [OF idx pos(2)] rrq_pos_lt [OF idx pos(1)] len, of 0] d buf
    by (auto simp: n_def)
  have nle: "s + n \<le> rrq_count h" using ecnt se by (simp add: n_def)
  have i: "unat i = (unat (rq_tail h) + s) mod ?N" using pos(1) by (simp add: rrq_pos_def)
  have "rrq_content h = ring_slice buf (unat (rq_tail h)) (s + (rrq_count h - s))"
    using ecnt buf by (simp add: rrq_content_def)
  also have "\<dots> = ring_slice buf (unat (rq_tail h)) s @ ring_slice buf (unat i) (rrq_count h - s)"
    using N lt ecnt buf i by (subst ring_slice_split) simp_all
  finally have "drop s (rrq_content h) = ring_slice buf (unat i) (n + (rrq_count h - s - n))"
    using nle by simp
  also have "\<dots> = ring_slice buf (unat i) n @ ring_slice buf ((unat i + n) mod length buf) (rrq_count h - s - n)"
    using N nle buf lt i by (subst ring_slice_split) simp_all
  finally have "take n (drop s (rrq_content h)) = ring_slice buf (unat i) n" by simp
  moreover have "rrq_pos h t (s + n)"
    using c(2) i nle by (simp add: rrq_pos_def mod_simps add.assoc)
  ultimately show ?thesis using c(1) by auto
qed

text \<open>The frame operations consume up to \<open>s + n\<close> bytes and account for all of them.\<close>

lemma rrq_consume:
  assumes wf: "rrq_wf h" and pos: "rrq_pos h t k"
  shows "rrq_wf (h\<lparr>rq_tail := t, rq_outputCounter := rq_outputCounter h + of_nat k\<rparr>)"
    "rrq_content (h\<lparr>rq_tail := t, rq_outputCounter := rq_outputCounter h + of_nat k\<rparr>) =
       drop k (rrq_content h)"
proof -
  have idx: "rrq_idx h" and cnt: "rq_inputCounter h - rq_outputCounter h = of_nat (rrq_count h)"
    using wf by (simp_all add: rrq_wf_def)
  have k: "k \<le> rrq_count h" and t: "unat t = (unat (rq_tail h) + k) mod unat (rq_bufLen h)"
    using pos by (simp_all add: rrq_pos_def)
  note d = rrq_drop(1-3) [OF idx k t, of "rq_outputCounter h + of_nat k"]
  have "rq_inputCounter h - (rq_outputCounter h + of_nat k) = of_nat (rrq_count h - k)"
    using cnt k by (simp add: diff_diff_eq [symmetric])
  with d show "rrq_wf (h\<lparr>rq_tail := t, rq_outputCounter := rq_outputCounter h + of_nat k\<rparr>)"
    by (simp add: rrq_wf_def)
  show "rrq_content (h\<lparr>rq_tail := t, rq_outputCounter := rq_outputCounter h + of_nat k\<rparr>) =
       drop k (rrq_content h)" by (rule d(3))
qed

lemma rrq_pattern_get_ok:
  assumes wf: "rrq_wf h" and sm: "unat (rq_bufLen h) \<le> 2 ^ 31"
    and ok: "ptn_ok sp spLen" "ptn_ok ep epLen" and len: "unat len \<le> length out"
  shows "case frame_bounds (ptn_list sp spLen) (ptn_list ep epLen) (rrq_content h) of
     None \<Rightarrow> rrq_pattern_get sp spLen ep epLen (Some out) len h =
         Inr ((0, out, rrq_locks (rq_overrideOnFull h) False), h)
   | Some (s, e) \<Rightarrow>
       (let n = min (unat len) (e - s) in
        \<exists>h'. rrq_pattern_get sp spLen ep epLen (Some out) len h =
           Inr ((of_nat n, take n (drop s (rrq_content h)) @ drop n out,
                 rrq_locks (rq_overrideOnFull h) False), h') \<and>
         rrq_wf h' \<and> rrq_content h' = drop (s + n) (rrq_content h))"
proof -
  let ?fb = "frame_bounds (ptn_list sp spLen) (ptn_list ep epLen) (rrq_content h)"
  have idx: "rrq_idx h" using wf by (simp add: rrq_wf_def)
  then have "rrq_small h" using sm by (simp add: rrq_small_def)
  then obtain i k j where f: "rrq_find_frame h sp spLen ep epLen = Inr (i, k, j)"
    "case ?fb of None \<Rightarrow> \<not> frame_found i j
      | Some (s, e) \<Rightarrow> frame_found i j \<and> rrq_pos h i s \<and> rrq_pos h j e \<and> k = of_nat s"
    using rrq_find_frame_ok ok by blast
  show ?thesis
  proof (cases ?fb)
    case None
    with f show ?thesis by (simp add: rrq_pattern_get_def)
  next
    case (Some se)
    then obtain s e where se: "?fb = Some (s, e)" by (cases se) auto
    then have s: "frame_found i j" "rrq_pos h i s" "rrq_pos h j e" "k = of_nat s" "s \<le> e"
      using f(2) frame_bounds_le [OF se] by auto
    define n where "n = min (unat len) (e - s)"
    obtain t where t: "rrq_copy h j len out i 0 =
        Inr (take n (drop s (rrq_content h)) @ drop n out, t, of_nat n)" "rrq_pos h t (s + n)"
      using rrq_copy_pos [OF idx s(2,3,5) len] unfolding n_def by blast
    show ?thesis
      using se f(1) s t(1) rrq_consume [OF wf t(2)]
      by (simp add: rrq_pattern_get_def n_def Let_def)
  qed
qed

section \<open>Packages\<close>

fun crawl_list :: "'s rrq_crawler \<Rightarrow> u8 list \<Rightarrow> u32 \<Rightarrow> 's \<Rightarrow> u32 option \<times> 's" where
  "crawl_list cr [] pos s = (None, s)"
| "crawl_list cr (c # cs) pos s =
     (case cr s c pos of
        (U_RRQ_POS_MOVE_RIGHT, s') \<Rightarrow> crawl_list cr cs (pos + 1) s'
      | (U_RRQ_MATCH, s') \<Rightarrow> (Some pos, s')
      | (U_RRQ_FRAME_MOVE_RIGHT, s') \<Rightarrow> (None, s'))"

text \<open>The first frame of a list that the crawler accepts: its offset and its last position.\<close>

fun scan_list :: "'s rrq_crawler \<Rightarrow> u8 list \<Rightarrow> 's \<Rightarrow> (nat \<times> u32) option \<times> 's" where
  "scan_list cr [] s = (None, s)"
| "scan_list cr (c # cs) s =
     (case crawl_list cr (c # cs) 0 s of
        (Some pos, s') \<Rightarrow> (Some (0, pos), s')
      | (None, s') \<Rightarrow> map_prod (map_option (map_prod Suc id)) id (scan_list cr cs s'))"

lemma crawl_list_pos:
  assumes "crawl_list cr xs p s = (Some q, s')" "unat p + length xs < 2 ^ 32"
  shows "unat p \<le> unat q \<and> unat q < unat p + length xs"
  using assms
proof (induction cr xs p s rule: crawl_list.induct)
  case (2 cr c cs p s)
  obtain ops s1 where o: "cr s c p = (ops, s1)" by fastforce
  have inc: "unat (p + 1) = unat p + 1" using "2.prems"(2) by (simp add: unat_word_ariths)
  show ?case
    using "2.IH" [OF o [symmetric]] "2.prems" o inc by (cases ops) auto
qed simp

lemma scan_list_pos:
  assumes "scan_list cr xs s = (Some (a, q), s')" "length xs < 2 ^ 32"
  shows "a + unat q < length xs"
  using assms
proof (induction cr xs s arbitrary: a q s' rule: scan_list.induct)
  case (2 cr c cs s)
  show ?case
  proof (cases "crawl_list cr (c # cs) 0 s")
    case (Pair r s1)
    show ?thesis
    proof (cases r)
      case None
      then obtain b where "scan_list cr cs s1 = (Some (b, q), s')" "a = Suc b"
        using "2.prems"(1) Pair by (cases "scan_list cr cs s1") (auto simp: map_prod_def)
      then show ?thesis using "2.IH" [OF Pair [symmetric] None] "2.prems"(2) by auto
    next
      case (Some pos)
      then show ?thesis
        using "2.prems" Pair crawl_list_pos [of cr "c # cs" 0 s pos s1] by simp
    qed
  qed
qed simp

lemma rrq_crawl_ok:
  assumes "rrq_small h" "rrq_pos h i a" "a + unat pos \<le> rrq_count h" "rrq_count h - (a + unat pos) < fuel"
  shows "rrq_crawl fuel h cr i pos s = Inr (crawl_list cr (drop (a + unat pos) (rrq_content h)) pos s)"
  using assms
proof (induction fuel arbitrary: pos s)
  case (Suc fuel)
  let ?xs = "rrq_content h" and ?p = "(i + pos) mod rq_bufLen h"
  have idx: "rrq_idx h" using Suc.prems(1) by (rule rrq_small_idx)
  note p = rrq_pos_add [OF Suc.prems(1,2,3)]
  show ?case
  proof (cases "?p = rq_head h")
    case True
    then have "drop (a + unat pos) ?xs = []" using rrq_pos_head_iff [OF idx p(2)] by simp
    then show ?thesis using True p(1) by simp
  next
    case False
    then have lt: "a + unat pos < rrq_count h" using rrq_pos_head_iff [OF idx p(2)] Suc.prems(3) by simp
    have c: "drop (a + unat pos) ?xs = ?xs ! (a + unat pos) # drop (Suc (a + unat pos)) ?xs"
      using lt by (simp add: Cons_nth_drop_Suc)
    have l: "rrq_load h ?p = Inr (?xs ! (a + unat pos))" using idx p(2) lt by (rule rrq_pos_load)
    have "rrq_count h < 2 ^ 31" using Suc.prems(1) rrq_count_lt [OF idx] by (simp add: rrq_small_def)
    then have inc: "unat (pos + 1) = Suc (unat pos)" using lt by (simp add: unat_word_ariths)
    have IH: "rrq_crawl fuel h cr i (pos + 1) s' = Inr (crawl_list cr (drop (Suc (a + unat pos)) ?xs) (pos + 1) s')" for s'
      using Suc.IH [OF Suc.prems(1,2), of "pos + 1" s'] Suc.prems(4) lt inc by simp
    obtain ops s1 where o: "cr s (?xs ! (a + unat pos)) pos = (ops, s1)" by fastforce
    show ?thesis using False p(1) l c IH o by (cases ops) simp_all
  qed
qed simp

lemma rrq_package_scan_ok:
  assumes "rrq_small h" "rrq_pos h i a" "rrq_count h - a < fuel"
  shows "case scan_list cr (drop a (rrq_content h)) s of
      (None, s') \<Rightarrow> rrq_package_scan fuel h cr i k s = Inr (None, s')
    | (Some (m, q), s') \<Rightarrow> \<exists>i'. rrq_package_scan fuel h cr i k s = Inr (Some (i', k + of_nat m, q), s') \<and>
        rrq_pos h i' (a + m)"
  using assms
proof (induction fuel arbitrary: i a k s)
  case (Suc fuel)
  let ?xs = "rrq_content h" and ?i = "(i + 1) mod rq_bufLen h"
  have idx: "rrq_idx h" using Suc.prems(1) by (rule rrq_small_idx)
  have ale: "a \<le> rrq_count h" using Suc.prems(2) by (simp add: rrq_pos_def)
  show ?case
  proof (cases "i = rq_head h")
    case True
    then have "drop a ?xs = []" using rrq_pos_head_iff [OF idx Suc.prems(2)] by simp
    then show ?thesis using True by simp
  next
    case False
    then have lt: "a < rrq_count h" using rrq_pos_head_iff [OF idx Suc.prems(2)] ale by simp
    have c: "drop a ?xs = ?xs ! a # drop (Suc a) ?xs" using lt by (simp add: Cons_nth_drop_Suc)
    have cr: "rrq_crawl (unat (rq_bufLen h)) h cr i 0 s = Inr (crawl_list cr (drop a ?xs) 0 s)"
    proof -
      have "rrq_count h - a < unat (rq_bufLen h)" using rrq_count_lt [OF idx] by linarith
      then show ?thesis
        using rrq_crawl_ok [OF Suc.prems(1,2), of 0 "unat (rq_bufLen h)"] ale by simp
    qed
    have nxt: "umod (i + 1) (rq_bufLen h) = Inr ?i" "rrq_pos h ?i (Suc a)"
      using rrq_pos_succ [OF Suc.prems(1,2)] lt by simp_all
    obtain r s1 where rs: "crawl_list cr (drop a ?xs) 0 s = (r, s1)" by fastforce
    show ?thesis
    proof (cases r)
      case (Some q)
      then show ?thesis using False cr rs c Suc.prems(2) by simp
    next
      case None
      have IH: "case scan_list cr (drop (Suc a) ?xs) s1 of
          (None, s') \<Rightarrow> rrq_package_scan fuel h cr ?i (k + 1) s1 = Inr (None, s')
        | (Some (m, q), s') \<Rightarrow> \<exists>i'. rrq_package_scan fuel h cr ?i (k + 1) s1 =
            Inr (Some (i', k + 1 + of_nat m, q), s') \<and> rrq_pos h i' (Suc a + m)"
        by (rule Suc.IH [OF Suc.prems(1) nxt(2)]) (use Suc.prems(3) lt in simp)
      obtain r2 s2 where r2: "scan_list cr (drop (Suc a) ?xs) s1 = (r2, s2)" by fastforce
      show ?thesis
        using IH None False cr rs c nxt(1) r2 by (cases r2) (auto simp: add.assoc)
    qed
  qed
qed simp

lemma rrq_package_get_ok:
  assumes wf: "rrq_wf h" and sm: "unat (rq_bufLen h) \<le> 2 ^ 31" and len: "unat len \<le> length out"
    and len0: "len \<noteq> 0"
  shows "case scan_list cr (rrq_content h) s of
      (None, s') \<Rightarrow> rrq_package_get cr s (Some out) len h =
         Inr ((0, out, rrq_locks (rq_overrideOnFull h) False, s'), h)
    | (Some (a, q), s') \<Rightarrow>
       (let n = min (unat len) (unat q + 1) in
        \<exists>h'. rrq_package_get cr s (Some out) len h =
           Inr ((of_nat n, take n (drop a (rrq_content h)) @ drop n out,
                 rrq_locks (rq_overrideOnFull h) False, s'), h') \<and>
         rrq_wf h' \<and> rrq_content h' = drop (a + n) (rrq_content h))"
proof -
  let ?xs = "rrq_content h"
  have idx: "rrq_idx h" using wf by (simp add: rrq_wf_def)
  then have small: "rrq_small h" using sm by (simp add: rrq_small_def)
  have N: "rrq_count h < 2 ^ 31" using rrq_count_lt [OF idx] sm by simp
  have sc: "case scan_list cr (drop 0 ?xs) s of
      (None, s') \<Rightarrow> rrq_package_scan (unat (rq_bufLen h)) h cr (rq_tail h) 0 s = Inr (None, s')
    | (Some (m, q), s') \<Rightarrow> \<exists>i'. rrq_package_scan (unat (rq_bufLen h)) h cr (rq_tail h) 0 s =
        Inr (Some (i', 0 + of_nat m, q), s') \<and> rrq_pos h i' (0 + m)"
    by (rule rrq_package_scan_ok [OF small rrq_pos_tail [OF idx]]) (use rrq_count_lt [OF idx] in simp)
  show ?thesis
  proof (cases "scan_list cr ?xs s")
    case (Pair r s')
    show ?thesis
    proof (cases r)
      case None
      with Pair sc show ?thesis by (simp add: rrq_package_get_def)
    next
      case (Some aq)
      then obtain a q where aq: "scan_list cr ?xs s = (Some (a, q), s')" using Pair by (cases aq) auto
      with sc obtain i where i: "rrq_package_scan (unat (rq_bufLen h)) h cr (rq_tail h) 0 s =
          Inr (Some (i, of_nat a, q), s')" "rrq_pos h i a" by auto
      have fit: "a + unat q < rrq_count h" using scan_list_pos [OF aq] N by simp
      have inc: "unat (q + 1) = unat q + 1" using fit N by (simp add: unat_word_ariths)
      have e: "umod (i + q + 1) (rq_bufLen h) = Inr ((i + q + 1) mod rq_bufLen h)"
        "rrq_pos h ((i + q + 1) mod rq_bufLen h) (a + (unat q + 1))"
        using rrq_pos_add [OF small i(2), of "q + 1"] fit inc by (simp_all add: add.assoc)
      define n where "n = min (unat len) (unat q + 1)"
      obtain t where t: "rrq_copy h ((i + q + 1) mod rq_bufLen h) len out i 0 =
          Inr (take n (drop a ?xs) @ drop n out, t, of_nat n)" "rrq_pos h t (a + n)"
        using rrq_copy_pos [OF idx i(2) e(2) _ len] unfolding n_def by auto
      have n0: "(of_nat n :: u32) \<noteq> 0"
      proof -
        have "0 < n" "n < 2 ^ 32" using len0 fit N by (simp_all add: n_def unat_gt_0)
        then show ?thesis by (simp add: of_nat_eq_0_iff word_of_nat_eq_0_iff nat_dvd_not_less)
      qed
      show ?thesis
        using aq i(1) e(1) t(1) n0 len0 rrq_consume [OF wf t(2)]
        by (simp add: rrq_package_get_def Let_def) (simp add: n_def)
    qed
  qed
qed

end
