(* ===== verification/Rrq_Props.thy ===== *)
theory Rrq_Props
  imports Rrq_Frames
begin

text \<open>
  The properties of the ring queues, and the interface they offer to their users as the
  locale \<open>byte_queue\<close>: bounded first-in first-out delivery over any schedule of put and get
  calls, proved once from the contract and then used for the handlers of \<open>u_rrq.c\<close>.
\<close>

section \<open>The interface of a bounded byte queue\<close>

datatype queue_op = Put_bytes "u8 list" | Get_bytes nat

text \<open>
  A schedule of calls: \<open>queue_run put get ops q\<close> returns the bytes accepted by the put calls,
  the bytes delivered by the get calls and the final queue.
\<close>

fun queue_run ::
  "(u8 list \<Rightarrow> 'q \<Rightarrow> nat \<times> 'q) \<Rightarrow> (nat \<Rightarrow> 'q \<Rightarrow> u8 list \<times> 'q) \<Rightarrow> queue_op list \<Rightarrow> 'q
   \<Rightarrow> u8 list \<times> u8 list \<times> 'q" where
  "queue_run pt gt [] q = ([], [], q)"
| "queue_run pt gt (Put_bytes d # ops) q =
     (let (n, q1) = pt d q; (i, d', q2) = queue_run pt gt ops q1 in (take n d @ i, d', q2))"
| "queue_run pt gt (Get_bytes k # ops) q =
     (let (xs, q1) = gt k q; (i, d', q2) = queue_run pt gt ops q1 in (i, xs @ d', q2))"

definition op_fits :: "queue_op \<Rightarrow> bool" where
  "op_fits x \<longleftrightarrow> (case x of Put_bytes d \<Rightarrow> length d < 2 ^ 32 | Get_bytes k \<Rightarrow> k < 2 ^ 32)"

locale byte_queue =
  fixes invar :: "'q \<Rightarrow> bool" and items :: "'q \<Rightarrow> u8 list" and capacity :: "'q \<Rightarrow> nat"
    and pt :: "u8 list \<Rightarrow> 'q \<Rightarrow> nat \<times> 'q" and gt :: "nat \<Rightarrow> 'q \<Rightarrow> u8 list \<times> 'q"
  assumes put_law: "invar q \<Longrightarrow> length d < 2 ^ 32 \<Longrightarrow> pt d q = (n, q') \<Longrightarrow>
      invar q' \<and> capacity q' = capacity q \<and> items q' = items q @ take n d \<and>
      n = min (length d) (capacity q - length (items q))"
    and get_law: "invar q \<Longrightarrow> k < 2 ^ 32 \<Longrightarrow> gt k q = (xs, q') \<Longrightarrow>
      invar q' \<and> capacity q' = capacity q \<and> xs = take k (items q) \<and> items q' = drop k (items q)"
    and bound_law: "invar q \<Longrightarrow> length (items q) \<le> capacity q"
begin

lemma fifo_run:
  assumes "invar q" "list_all op_fits ops" "queue_run pt gt ops q = (inp, outp, q')"
  shows "invar q' \<and> capacity q' = capacity q \<and> items q @ inp = outp @ items q'"
  using assms
proof (induction ops arbitrary: q inp outp q')
  case (Cons x ops)
  show ?case
  proof (cases x)
    case (Put_bytes d)
    obtain n q1 where p: "pt d q = (n, q1)" by fastforce
    obtain i d' q2 where r: "queue_run pt gt ops q1 = (i, d', q2)" by (metis prod_cases3)
    have "length d < 2 ^ 32" using Cons.prems(2) Put_bytes by (simp add: op_fits_def)
    note law = put_law [OF Cons.prems(1) this p]
    from law Cons.prems(2) r have "invar q2 \<and> capacity q2 = capacity q1 \<and> items q1 @ i = d' @ items q2"
      by (intro Cons.IH) simp_all
    with law p r Cons.prems(3) Put_bytes show ?thesis by (auto simp: Let_def)
  next
    case (Get_bytes k)
    obtain xs q1 where p: "gt k q = (xs, q1)" by fastforce
    obtain i d' q2 where r: "queue_run pt gt ops q1 = (i, d', q2)" by (metis prod_cases3)
    have "k < 2 ^ 32" using Cons.prems(2) Get_bytes by (simp add: op_fits_def)
    note law = get_law [OF Cons.prems(1) this p]
    from law Cons.prems(2) r have IH: "invar q2 \<and> capacity q2 = capacity q1 \<and> items q1 @ i = d' @ items q2"
      by (intro Cons.IH) simp_all
    have "items q = xs @ items q1" using law by simp
    with law IH p r Cons.prems(3) Get_bytes show ?thesis by (auto simp: Let_def)
  qed
qed simp

text \<open>A put of \<open>d\<close> into an empty queue with room, then a get, returns \<open>d\<close>.\<close>

lemma put_get:
  assumes "invar q" "items q = []" "length d \<le> capacity q" "length d < 2 ^ 32"
    and "pt d q = (n, q1)" "gt (length d) q1 = (xs, q2)"
  shows "n = length d \<and> xs = d \<and> items q2 = []"
  using put_law [OF assms(1,4,5)] get_law [OF _ assms(4,6)] assms(2,3) by auto

end

section \<open>The handlers implement the interface\<close>

definition rrq_put_bytes :: "u8 list \<Rightarrow> rrq_handler \<Rightarrow> nat \<times> rrq_handler" where
  "rrq_put_bytes d h = (case rrq_put False (Some d) (of_nat (length d)) h of
     Inl e \<Rightarrow> (0, h) | Inr ((n, ev), h') \<Rightarrow> (unat n, h'))"

definition rrq_get_bytes :: "nat \<Rightarrow> rrq_handler \<Rightarrow> u8 list \<times> rrq_handler" where
  "rrq_get_bytes k h = (case rrq_get False (Some (replicate k 0)) (of_nat k) h of
     Inl e \<Rightarrow> ([], h) | Inr ((n, out, ev), h') \<Rightarrow> (take (unat n) out, h'))"

definition rrq_discards :: "rrq_handler \<Rightarrow> bool" where
  "rrq_discards h \<longleftrightarrow> rrq_wf h \<and> \<not> rq_overrideOnFull h"

lemma rrq_cap_bufLen: "rq_bufLen h' = rq_bufLen h \<Longrightarrow> rrq_cap h' = rrq_cap h"
  by (simp add: rrq_cap_def)

interpretation rrqh: byte_queue rrq_discards rrq_content rrq_cap rrq_put_bytes rrq_get_bytes
proof unfold_locales
  fix h d n h' assume h: "rrq_discards h" "length (d :: u8 list) < 2 ^ 32" "rrq_put_bytes d h = (n, h')"
  let ?len = "of_nat (length d) :: u32"
  have u: "unat ?len = length d" using h(2) by (rule unat_of_nat32)
  have wf: "rrq_wf h" and no: "\<not> rq_overrideOnFull h" using h(1) by (simp_all add: rrq_discards_def)
  obtain m ev h1 where r: "rrq_put False (Some d) ?len h = Inr ((m, ev), h1)" "rrq_wf h1"
    "rq_bufLen h1 = rq_bufLen h" "rq_overrideOnFull h1 = rq_overrideOnFull h"
    "unat m = min (length d) (rrq_cap h - rrq_count h)"
    "rrq_content h1 = lastn (rrq_cap h) (rrq_content h @ take (unat m) d)"
    using rrq_put_ok [OF wf, of ?len d False] u no by auto
  have "rrq_count h \<le> rrq_cap h" using wf rrq_count_cap by (simp add: rrq_wf_def)
  then have "rrq_content h1 = rrq_content h @ take (unat m) d" using r(5,6) by (simp add: lastn_short)
  moreover have "n = unat m" "h' = h1" using h(3) r(1) by (simp_all add: rrq_put_bytes_def)
  ultimately show "rrq_discards h' \<and> rrq_cap h' = rrq_cap h \<and> rrq_content h' = rrq_content h @ take n d \<and>
      n = min (length d) (rrq_cap h - length (rrq_content h))"
    using r no rrq_cap_bufLen [OF r(3)] by (simp add: rrq_discards_def)
next
  fix h k xs h' assume h: "rrq_discards h" "k < 2 ^ 32" "rrq_get_bytes k h = (xs, h')"
  let ?len = "of_nat k :: u32"
  have u: "unat ?len = k" using h(2) by (rule unat_of_nat32)
  have wf: "rrq_wf h" and no: "\<not> rq_overrideOnFull h" using h(1) by (simp_all add: rrq_discards_def)
  define m where "m = min k (rrq_count h)"
  obtain h1 where r: "rrq_get False (Some (replicate k 0)) ?len h =
      Inr ((of_nat m, take m (rrq_content h) @ drop m (replicate k 0), rrq_locks (rq_overrideOnFull h) False), h1)"
    "rrq_wf h1" "rrq_content h1 = drop m (rrq_content h)"
    "rq_bufLen h1 = rq_bufLen h" "rq_overrideOnFull h1 = rq_overrideOnFull h"
    using rrq_get_ok [OF wf, of ?len "replicate k 0" False] u by (auto simp: m_def)
  have um: "unat (of_nat m :: u32) = m" using h(2) by (intro unat_of_nat32) (simp add: m_def)
  have m: "m \<le> rrq_count h" "take m (rrq_content h) = take k (rrq_content h)"
    "drop m (rrq_content h) = drop k (rrq_content h)"
    by (auto simp: m_def min_def)
  have "xs = take m (rrq_content h)" "h' = h1" using h(3) r(1) um m(1) by (simp_all add: rrq_get_bytes_def)
  then show "rrq_discards h' \<and> rrq_cap h' = rrq_cap h \<and> xs = take k (rrq_content h) \<and>
      rrq_content h' = drop k (rrq_content h)"
    using r m no rrq_cap_bufLen [OF r(4)] by (simp add: rrq_discards_def)
next
  fix h assume "rrq_discards h"
  then show "length (rrq_content h) \<le> rrq_cap h"
    using rrq_count_cap by (simp add: rrq_discards_def rrq_wf_def)
qed

section \<open>Lifting to the module\<close>

definition rrq_slot :: "rrq_module \<Rightarrow> u8 \<Rightarrow> rrq_handler" where
  "rrq_slot m rrqId = s_rrqCfg m ! unat rrqId"

definition rrq_valid :: "rrq_module \<Rightarrow> u8 \<Rightarrow> bool" where
  "rrq_valid m rrqId \<longleftrightarrow> length (s_rrqCfg m) = U_RRQ_MAX_QUEUE_NUM \<and> unat rrqId < U_RRQ_MAX_QUEUE_NUM \<and>
     rrq_wf (rrq_slot m rrqId)"

definition rrq_others_kept :: "rrq_module \<Rightarrow> u8 \<Rightarrow> rrq_module \<Rightarrow> bool" where
  "rrq_others_kept m rrqId m' \<longleftrightarrow> length (s_rrqCfg m') = length (s_rrqCfg m) \<and>
     (\<forall>j < length (s_rrqCfg m). j \<noteq> unat rrqId \<longrightarrow> s_rrqCfg m' ! j = s_rrqCfg m ! j)"

lemma rrq_on_ok:
  assumes "rrq_valid m rrqId" "f (rrq_slot m rrqId) = Inr (r, h')"
  shows "\<exists>m'. rrq_on f m rrqId = Inr (r, m') \<and> rrq_slot m' rrqId = h' \<and> rrq_others_kept m rrqId m'"
  using assms
  by (auto simp: rrq_on_def rrq_valid_def rrq_slot_def rrq_others_kept_def access)

lemma rrq_query_ok: "rrq_valid m rrqId \<Longrightarrow> rrq_query f m rrqId = f (rrq_slot m rrqId)"
  by (simp add: rrq_query_def rrq_valid_def rrq_slot_def access)

lemma rrq_valid_wf: "rrq_valid m rrqId \<Longrightarrow> rrq_wf (rrq_slot m rrqId)"
  by (simp add: rrq_valid_def)

lemma rrq_valid_step:
  "rrq_valid m rrqId \<Longrightarrow> rrq_others_kept m rrqId m' \<Longrightarrow> rrq_wf (rrq_slot m' rrqId) \<Longrightarrow> rrq_valid m' rrqId"
  by (simp add: rrq_valid_def rrq_others_kept_def)

text \<open>A concrete queue for the witnesses: a buffer of four bytes holding two.\<close>

definition demo_handler :: "bool \<Rightarrow> rrq_handler" where
  "demo_handler ovr = \<lparr>rq_pBuf = Some [7, 0, 0, 5], rq_bufLen = 4, rq_overrideOnFull = ovr, rq_head = 1,
     rq_tail = 3, rq_inputCounter = 1, rq_outputCounter = 0xFFFFFFFF\<rparr>"

definition demo_module :: "bool \<Rightarrow> rrq_module" where
  "demo_module ovr = \<lparr>s_rrqCfg = demo_handler ovr # replicate 9 rrq_zero, s_moduleInitFlag = True\<rparr>"

lemma demo_slot: "rrq_slot (demo_module ovr) 0 = demo_handler ovr"
  by (simp add: rrq_slot_def demo_module_def)

lemma demo_wf: "rrq_wf (demo_handler ovr)"
  by (simp add: rrq_wf_def rrq_idx_def demo_handler_def rrq_buf_def rrq_count_def ring_dist_def)

lemma demo_valid: "rrq_valid (demo_module ovr) 0"
  using demo_wf [of ovr] by (simp add: rrq_valid_def demo_slot U_RRQ_MAX_QUEUE_NUM_def) (simp add: demo_module_def)

lemma demo_content: "rrq_content (demo_handler ovr) = [5, 7]"
  by (simp add: rrq_content_def demo_handler_def rrq_buf_def rrq_count_def ring_dist_def ring_slice_def upt_rec)

lemma demo_override: "rq_overrideOnFull (demo_handler ovr) = ovr"
  by (simp add: demo_handler_def)

lemma demo_count: "rrq_count (demo_handler ovr) = 2"
  using arg_cong [OF demo_content, of length ovr] by simp

lemmas demo = demo_slot demo_content demo_override demo_count

lemma demo_cap: "rrq_cap (demo_handler ovr) = 3"
  by (simp add: rrq_cap_def demo_handler_def)

section \<open>Properties\<close>

text \<open>
  C2. \<open>u_rrq_put\<close> on a valid queue never faults, returns the number of bytes it stored, keeps
  the queue valid and the other queues untouched. In the discarding mode it appends as many
  bytes as fit; in the overriding mode it appends all and keeps the newest \<open>bufLen - 1\<close>.
\<close>

theorem u_rrq_put_refines:
  assumes "rrq_valid m rrqId" and "unat len \<le> length data"
  shows "\<exists>n ev m'. u_rrq_put m rrqId isr (Some data) len = Inr ((n, ev), m') \<and>
     rrq_valid m' rrqId \<and> rrq_others_kept m rrqId m' \<and>
     (if rq_overrideOnFull (rrq_slot m rrqId)
      then n = len \<and> rrq_content (rrq_slot m' rrqId) =
             lastn (rrq_cap (rrq_slot m rrqId)) (rrq_content (rrq_slot m rrqId) @ take (unat len) data)
      else unat n = min (unat len) (rrq_cap (rrq_slot m rrqId) - length (rrq_content (rrq_slot m rrqId))) \<and>
           rrq_content (rrq_slot m' rrqId) = rrq_content (rrq_slot m rrqId) @ take (unat n) data)"
proof -
  let ?h = "rrq_slot m rrqId"
  have wf: "rrq_wf ?h" using assms(1) by (rule rrq_valid_wf)
  obtain n ev h' where r: "rrq_put isr (Some data) len ?h = Inr ((n, ev), h')" "rrq_wf h'"
    "unat n = (if rq_overrideOnFull ?h then unat len else min (unat len) (rrq_cap ?h - rrq_count ?h))"
    "rrq_content h' = lastn (rrq_cap ?h) (rrq_content ?h @ take (unat n) data)"
    using rrq_put_ok [OF wf assms(2)] by blast
  obtain m' where m': "u_rrq_put m rrqId isr (Some data) len = Inr ((n, ev), m')" "rrq_slot m' rrqId = h'"
    "rrq_others_kept m rrqId m'"
    unfolding u_rrq_put_def
    using rrq_on_ok [of m rrqId "rrq_put isr (Some data) len", OF assms(1) r(1)] by blast
  have cap: "rrq_count ?h \<le> rrq_cap ?h" using wf rrq_count_cap by (simp add: rrq_wf_def)
  have over: "rq_overrideOnFull ?h \<Longrightarrow> n = len" using r(3) by (simp add: word_unat_eq_iff)
  have "\<not> rq_overrideOnFull ?h \<Longrightarrow> rrq_content h' = rrq_content ?h @ take (unat n) data"
    using r(3,4) cap by (simp add: lastn_short)
  with over show ?thesis
    using m' r(2-4) rrq_valid_step [OF assms(1) m'(3)]
    by (intro exI [of _ n] exI [of _ ev] exI [of _ m']) simp
qed

theorem u_rrq_put_refines_witness:
  "\<exists>n ev m'. u_rrq_put (demo_module True) 0 False (Some [1, 2, 3]) 3 = Inr ((n, ev), m') \<and>
     rrq_content (rrq_slot m' 0) = [1, 2, 3]"
  using u_rrq_put_refines [OF demo_valid [of True], of 3 "[1, 2, 3]" False]
  by (auto simp: demo demo_cap lastn_def)

text \<open>
  C3. \<open>u_rrq_get\<close> on a valid queue never faults: it hands out the oldest bytes, as many as were
  asked for and are there, writes nothing beyond them in the caller's buffer, and removes
  exactly those bytes from the queue.
\<close>

theorem u_rrq_get_refines:
  assumes "rrq_valid m rrqId" and "unat len \<le> length out"
  shows "\<exists>n out' ev m'. u_rrq_get m rrqId isr (Some out) len = Inr ((n, out', ev), m') \<and>
     unat n = min (unat len) (length (rrq_content (rrq_slot m rrqId))) \<and>
     out' = take (unat n) (rrq_content (rrq_slot m rrqId)) @ drop (unat n) out \<and>
     rrq_content (rrq_slot m' rrqId) = drop (unat n) (rrq_content (rrq_slot m rrqId)) \<and>
     rrq_valid m' rrqId \<and> rrq_others_kept m rrqId m'"
proof -
  let ?h = "rrq_slot m rrqId"
  define k where "k = min (unat len) (rrq_count ?h)"
  have uk: "unat (of_nat k :: u32) = k"
    using unsigned_less [of len, where ?'a = nat] by (intro unat_of_nat32) (simp add: k_def)
  obtain h' where r: "rrq_get isr (Some out) len ?h =
       Inr ((of_nat k, take k (rrq_content ?h) @ drop k out, rrq_locks (rq_overrideOnFull ?h) isr), h')"
     "rrq_wf h'" "rrq_content h' = drop k (rrq_content ?h)"
    using rrq_get_ok [OF rrq_valid_wf [OF assms(1)] assms(2)] unfolding k_def by blast
  obtain m' where m': "u_rrq_get m rrqId isr (Some out) len =
       Inr ((of_nat k, take k (rrq_content ?h) @ drop k out, rrq_locks (rq_overrideOnFull ?h) isr), m')"
     "rrq_slot m' rrqId = h'" "rrq_others_kept m rrqId m'"
    unfolding u_rrq_get_def
    using rrq_on_ok [of m rrqId "rrq_get isr (Some out) len", OF assms(1) r(1)] by blast
  show ?thesis
    using m' r uk rrq_valid_step [OF assms(1) m'(3)] by (simp add: k_def)
qed

theorem u_rrq_get_refines_witness:
  "\<exists>n out' ev m'. u_rrq_get (demo_module False) 0 True (Some [9, 9, 9]) 3 = Inr ((n, out', ev), m') \<and>
     unat n = 2 \<and> out' = [5, 7, 9] \<and> rrq_content (rrq_slot m' 0) = []"
  using u_rrq_get_refines [OF demo_valid [of False], of 3 "[9, 9, 9]" True]
  by (auto simp: demo_slot demo_content)

text \<open>
  C8. First in, first out without loss: over any schedule of put and get calls on a queue in
  discarding mode, the bytes delivered followed by the bytes still queued are the bytes
  initially queued followed by the bytes the put calls accepted.
\<close>

theorem rrq_fifo_schedule:
  assumes "rrq_wf h" and "\<not> rq_overrideOnFull h" and "list_all op_fits ops"
    and "queue_run rrq_put_bytes rrq_get_bytes ops h = (inp, outp, h')"
  shows "rrq_wf h' \<and> rrq_content h @ inp = outp @ rrq_content h'"
  using rrqh.fifo_run [of h ops inp outp h'] assms by (simp add: rrq_discards_def)

theorem rrq_fifo_schedule_witness:
  "\<exists>inp outp h'. queue_run rrq_put_bytes rrq_get_bytes [Put_bytes [1, 2], Get_bytes 2, Put_bytes [3]] (demo_handler False)
     = (inp, outp, h') \<and> [5, 7] @ inp = outp @ rrq_content h'"
proof -
  obtain inp outp h' where r: "queue_run rrq_put_bytes rrq_get_bytes
      [Put_bytes [1, 2], Get_bytes 2, Put_bytes [3]] (demo_handler False) = (inp, outp, h')"
    by (metis prod_cases3)
  have "\<not> rq_overrideOnFull (demo_handler False)" by (simp add: demo_handler_def)
  from rrq_fifo_schedule [OF demo_wf this _ r] r show ?thesis
    by (auto simp: op_fits_def demo_content)
qed

text \<open>
  \<open>u_rrq_bytesInQueue\<close> returns the number of queued bytes, also after the 32-bit running
  counters have wrapped around, and \<open>u_rrq_isEmpty\<close> and \<open>u_rrq_isFull\<close> agree with it.
\<close>

theorem u_rrq_bytesInQueue_exact:
  assumes "rrq_valid m rrqId"
  shows "\<exists>n ev. u_rrq_bytesInQueue m rrqId = Inr (n, ev) \<and> unat n = length (rrq_content (rrq_slot m rrqId)) \<and>
     u_rrq_isEmpty m rrqId = Inr (n = 0) \<and>
     u_rrq_isFull m rrqId = Inr (unat n = rrq_cap (rrq_slot m rrqId))"
proof -
  let ?h = "rrq_slot m rrqId"
  have idx: "rrq_idx ?h" and cnt: "rq_inputCounter ?h - rq_outputCounter ?h = of_nat (rrq_count ?h)"
    using rrq_valid_wf [OF assms] by (simp_all add: rrq_wf_def)
  have lt: "rrq_count ?h < unat (rq_bufLen ?h)" using idx by (rule rrq_count_lt)
  then have u: "unat (of_nat (rrq_count ?h) :: u32) = rrq_count ?h"
    using unsigned_less [of "rq_bufLen ?h", where ?'a = nat] by (intro unat_of_nat32) simp
  have "rrq_bytesInQueue ?h = (of_nat (rrq_count ?h), [])"
    using lt u cnt by (simp add: rrq_bytesInQueue_def word_less_nat_alt)
  moreover have "rrq_isEmpty ?h \<longleftrightarrow> (of_nat (rrq_count ?h) :: u32) = 0"
    using rrq_empty_iff [OF idx] u
    by (metis length_0_conv length_rrq_content rrq_isEmpty_def unat_eq_zero)
  moreover have "rrq_isFull ?h = Inr (rrq_count ?h = rrq_cap ?h)"
    using idx rrq_full_iff [OF idx] by (auto simp: rrq_isFull_def access elim!: rrq_idxE)
  ultimately show ?thesis
    using assms u by (simp add: u_rrq_bytesInQueue_def u_rrq_isEmpty_def u_rrq_isFull_def rrq_query_ok)
qed

lemma find_sub_eqI:
  assumes "k < length xs" "prefix p (drop k xs)" "\<And>j. j < k \<Longrightarrow> \<not> prefix p (drop j xs)"
  shows "find_sub p xs = Some k"
proof (cases "find_sub p xs")
  case None
  with assms show ?thesis using find_sub_NoneD by blast
next
  case (Some m)
  with find_sub_SomeD [OF Some] assms have "m = k" by (metis nat_neq_iff)
  with Some show ?thesis by simp
qed

lemma frame_bounds_eqI:
  assumes "sp \<noteq> []" "ep \<noteq> []"
    and "\<And>j. j < length pre \<Longrightarrow> \<not> prefix sp (drop j (pre @ sp @ body @ ep @ rest))"
    and "\<And>j. j < length body \<Longrightarrow> \<not> prefix ep (drop j (body @ ep @ rest))"
  shows "frame_bounds sp ep (pre @ sp @ body @ ep @ rest) =
     Some (length pre, length pre + length sp + length body + length ep)"
proof -
  have "find_sub sp (pre @ sp @ body @ ep @ rest) = Some (length pre)"
    using assms by (intro find_sub_eqI) auto
  moreover have "find_sub ep (body @ ep @ rest) = Some (length body)"
    using assms by (intro find_sub_eqI) auto
  ultimately show ?thesis using assms(1,2) by (simp add: frame_bounds_def)
qed

text \<open>
  C10. \<open>u_rrq_pattern_get\<close> with a start and an end pattern extracts the first frame: when the
  queued bytes are some bytes without the start pattern, the start pattern, a body without
  the end pattern, the end pattern and a rest, then exactly the frame with its two patterns
  is handed out, the bytes before it are dropped and the rest stays queued.
\<close>

theorem u_rrq_pattern_get_frame:
  assumes "rrq_valid m rrqId" and "unat (rq_bufLen (rrq_slot m rrqId)) \<le> 2 ^ 31"
    and "rrq_content (rrq_slot m rrqId) = pre @ sp @ body @ ep @ rest"
    and "sp \<noteq> []" "ep \<noteq> []" "length sp = unat spLen" "length ep = unat epLen"
    and "\<And>j. j < length pre \<Longrightarrow> \<not> prefix sp (drop j (pre @ sp @ body @ ep @ rest))"
    and "\<And>j. j < length body \<Longrightarrow> \<not> prefix ep (drop j (body @ ep @ rest))"
    and "length (sp @ body @ ep) \<le> unat len" and "unat len \<le> length out"
  shows "\<exists>n out' ev m'. u_rrq_pattern_get m rrqId (Some sp) spLen (Some ep) epLen (Some out) len =
       Inr ((n, out', ev), m') \<and>
     take (unat n) out' = sp @ body @ ep \<and> drop (unat n) out' = drop (unat n) out \<and>
     rrq_content (rrq_slot m' rrqId) = rest \<and> rrq_valid m' rrqId \<and> rrq_others_kept m rrqId m'"
proof -
  let ?h = "rrq_slot m rrqId"
  define n where "n = length (sp @ body @ ep)"
  have pl: "ptn_ok (Some sp) spLen" "ptn_ok (Some ep) epLen"
    "ptn_list (Some sp) spLen = sp" "ptn_list (Some ep) epLen = ep"
    using assms(4-7) by (auto simp: ptn_ok_def ptn_list_def ptn_given_def unat_eq_0)
  have fb: "frame_bounds sp ep (rrq_content ?h) = Some (length pre, length pre + n)"
    using frame_bounds_eqI [OF assms(4,5,8,9)] assms(3) by (simp add: n_def add.assoc)
  have mn: "min (unat len) (length pre + n - length pre) = n" using assms(10) by (simp add: n_def)
  have un: "unat (of_nat n :: u32) = n"
    using assms(10) unsigned_less [of len, where ?'a = nat] by (intro unat_of_nat32) (simp add: n_def)
  have tk: "take n (drop (length pre) (rrq_content ?h)) = sp @ body @ ep"
    and dp: "drop (length pre + n) (rrq_content ?h) = rest"
    using assms(3) by (simp_all add: n_def)
  obtain h' where h': "rrq_pattern_get (Some sp) spLen (Some ep) epLen (Some out) len ?h =
      Inr ((of_nat n, (sp @ body @ ep) @ drop n out, rrq_locks (rq_overrideOnFull ?h) False), h')"
    "rrq_wf h'" "rrq_content h' = rest"
    using rrq_pattern_get_ok [OF rrq_valid_wf [OF assms(1)] assms(2) pl(1,2) assms(11)] pl(3,4) fb mn tk dp
    by (auto simp: Let_def)
  obtain m' where m': "u_rrq_pattern_get m rrqId (Some sp) spLen (Some ep) epLen (Some out) len =
      Inr ((of_nat n, (sp @ body @ ep) @ drop n out, rrq_locks (rq_overrideOnFull ?h) False), m')"
    "rrq_slot m' rrqId = h'" "rrq_others_kept m rrqId m'"
    unfolding u_rrq_pattern_get_def
    using rrq_on_ok [of m rrqId "rrq_pattern_get (Some sp) spLen (Some ep) epLen (Some out) len",
        OF assms(1) h'(1)] by blast
  have len: "length (sp @ body @ ep) = n" by (simp add: n_def)
  show ?thesis
    using m' h'(2,3) un len rrq_valid_step [OF assms(1) m'(3)]
    by (intro exI [of _ "of_nat n"] exI [of _ "(sp @ body @ ep) @ drop n out"]
        exI [of _ "rrq_locks (rq_overrideOnFull ?h) False"] exI [of _ m']) simp
qed

theorem u_rrq_pattern_get_frame_witness:
  "\<exists>n out' ev m'. u_rrq_pattern_get (demo_module False) 0 (Some [5]) 1 (Some [7]) 1 (Some [9, 9]) 2 =
       Inr ((n, out', ev), m') \<and> take (unat n) out' = [5, 7] \<and> rrq_content (rrq_slot m' 0) = []"
  using u_rrq_pattern_get_frame [OF demo_valid [of False], of "[]" "[5]" "[]" "[7]" "[]" 1 1 2 "[9, 9]"]
  by (auto simp: demo) (auto simp: demo_handler_def)

fun lock_order_ok :: "bool \<Rightarrow> bool \<Rightarrow> rrq_lock_ev list \<Rightarrow> bool" where
  "lock_order_ok p c [] = (\<not> p \<and> \<not> c)"
| "lock_order_ok p c (Lock_producer # es) = (\<not> p \<and> \<not> c \<and> lock_order_ok True c es)"
| "lock_order_ok p c (Lock_consumer # es) = (\<not> c \<and> lock_order_ok p True es)"
| "lock_order_ok p c (Unlock_consumer # es) = (c \<and> lock_order_ok p False es)"
| "lock_order_ok p c (Unlock_producer # es) = (p \<and> \<not> c \<and> lock_order_ok False c es)"

lemma rrq_locks_ok: "lock_order_ok False False (rrq_locks b isr)"
  by (simp add: rrq_locks_def)

text \<open>
  Lock discipline: whatever a ring queue operation does, it takes the producer lock before
  the consumer lock, never takes a lock it holds, and releases every lock it took; so two
  operations cannot wait for each other.
\<close>

theorem rrq_lock_discipline:
  "(rrq_put isr p len h = Inr ((n, ev), h1) \<longrightarrow> lock_order_ok False False ev) \<and>
   (rrq_get isr p len h = Inr ((n, out, ev), h1) \<longrightarrow> lock_order_ok False False ev) \<and>
   (rrq_read p len h = Inr ((n, out, ev), h1) \<longrightarrow> lock_order_ok False False ev) \<and>
   (rrq_pattern_get sp spLen ep epLen p len h = Inr ((n, out, ev), h1) \<longrightarrow> lock_order_ok False False ev) \<and>
   (rrq_pattern_read sp spLen ep epLen p len h = Inr ((n, out, ev), h1) \<longrightarrow> lock_order_ok False False ev) \<and>
   (rrq_package_get cr s p len h = Inr ((n, out, ev, s'), h1) \<longrightarrow> lock_order_ok False False ev) \<and>
   lock_order_ok False False (fst (rrq_reset h)) \<and> lock_order_ok False False (snd (rrq_bytesInQueue h))"
proof (intro conjI impI)
  show "lock_order_ok False False ev" if "rrq_put isr p len h = Inr ((n, ev), h1)"
    using that by (auto simp: rrq_put_def split: option.splits sum.splits prod.splits if_splits)
  show "lock_order_ok False False ev" if "rrq_get isr p len h = Inr ((n, out, ev), h1)"
    using that by (auto simp: rrq_get_def rrq_locks_ok split: option.splits sum.splits)
  show "lock_order_ok False False ev" if "rrq_read p len h = Inr ((n, out, ev), h1)"
    using that by (auto simp: rrq_read_def rrq_locks_ok split: option.splits sum.splits)
  show "lock_order_ok False False ev" if "rrq_pattern_get sp spLen ep epLen p len h = Inr ((n, out, ev), h1)"
    using that by (auto simp: rrq_pattern_get_def rrq_locks_ok split: option.splits sum.splits if_splits)
  show "lock_order_ok False False ev" if "rrq_pattern_read sp spLen ep epLen p len h = Inr ((n, out, ev), h1)"
    using that by (auto simp: rrq_pattern_read_def rrq_locks_ok split: option.splits sum.splits if_splits)
  show "lock_order_ok False False ev" if "rrq_package_get cr s p len h = Inr ((n, out, ev, s'), h1)"
    using that by (auto simp: rrq_package_get_def rrq_locks_ok split: option.splits sum.splits if_splits)
  show "lock_order_ok False False (fst (rrq_reset h))"
    by (simp add: rrq_reset_def rrq_locks_ok)
  show "lock_order_ok False False (snd (rrq_bytesInQueue h))"
    by (simp add: rrq_bytesInQueue_def Let_def)
qed

definition rrq_free :: "rrq_handler \<Rightarrow> bool" where
  "rrq_free h \<longleftrightarrow> rq_pBuf h = None \<and> rq_bufLen h = 0"

lemma rrq_find_free_spec:
  "case rrq_find_free hs k of
     None \<Rightarrow> list_all (\<lambda>h. \<not> rrq_free h) hs
   | Some i \<Rightarrow> k \<le> i \<and> i - k < length hs \<and> rrq_free (hs ! (i - k)) \<and> (\<forall>j < i - k. \<not> rrq_free (hs ! j))"
proof (induction hs k rule: rrq_find_free.induct)
  case (2 h hs i)
  show ?case
  proof (cases "rrq_free h")
    case False
    then show ?thesis
      using "2.IH"
      by (auto simp: rrq_free_def Suc_le_eq nth_Cons' split: option.splits)
  qed (simp add: rrq_free_def)
qed simp

text \<open>
  \<open>u_rrq_setup\<close> hands out the lowest free identifier and makes it a valid empty queue over
  the caller's buffer without touching the others; when all ten handlers are in use it
  returns \<open>U_RRQ_INVALID_RRQ_ID\<close> and changes nothing; before \<open>u_rrq_init\<close> it fails its assertion.
\<close>

theorem u_rrq_setup_correct:
  assumes "length (s_rrqCfg m) = U_RRQ_MAX_QUEUE_NUM" and "length buf = unat len" and "len \<noteq> 0"
  shows "case u_rrq_setup m (Some buf) len ovr of
      Inl e \<Rightarrow> e = Assert_failed \<and> \<not> s_moduleInitFlag m
    | Inr (rrqId, m') \<Rightarrow> s_moduleInitFlag m \<and>
       (if list_all (\<lambda>h. \<not> rrq_free h) (s_rrqCfg m) then rrqId = U_RRQ_INVALID_RRQ_ID \<and> m' = m
        else rrq_free (rrq_slot m rrqId) \<and> (\<forall>j < unat rrqId. \<not> rrq_free (s_rrqCfg m ! j)) \<and>
          rrq_valid m' rrqId \<and> rrq_content (rrq_slot m' rrqId) = [] \<and>
          rq_overrideOnFull (rrq_slot m' rrqId) = ovr \<and> rrq_others_kept m rrqId m')"
proof (cases "rrq_find_free (s_rrqCfg m) 0")
  case None
  then show ?thesis
    using rrq_find_free_spec [of "s_rrqCfg m" 0] by (simp add: u_rrq_setup_def)
next
  case (Some i)
  then have i: "i < length (s_rrqCfg m)" "rrq_free (s_rrqCfg m ! i)" "\<forall>j < i. \<not> rrq_free (s_rrqCfg m ! j)"
    using rrq_find_free_spec [of "s_rrqCfg m" 0] by auto
  have u: "unat (of_nat i :: u8) = i"
    using i(1) assms(1) by (simp add: unat_of_nat U_RRQ_MAX_QUEUE_NUM_def)
  let ?h = "rrq_zero\<lparr>rq_pBuf := Some buf, rq_bufLen := len, rq_overrideOnFull := ovr\<rparr>"
  have "rrq_wf ?h" "rrq_content ?h = []"
    using assms(2,3)
    by (simp_all add: rrq_wf_def rrq_idx_def rrq_zero_def rrq_buf_def rrq_count_def rrq_content_def word_gt_0)
  moreover have "\<not> list_all (\<lambda>h. \<not> rrq_free h) (s_rrqCfg m)"
    using i(1,2) by (auto simp: list_all_length)
  ultimately show ?thesis
    using Some i u assms(1)
    by (auto simp: u_rrq_setup_def rrq_slot_def rrq_valid_def rrq_others_kept_def U_RRQ_MAX_QUEUE_NUM_def)
qed

end
