(* ===== verification/Crc8.thy ===== *)
theory Crc8
  imports Prelude
begin

text \<open>
  The table-driven CRC-8 of \<open>src/utilities/u_crc8.c\<close>: the parameter table, the generation of
  the lookup table, and the running computation over a context. The reference is the
  bit-serial shift register, most significant bit first.
\<close>

section \<open>Parameters\<close>

record crc8_cfg =
  cfg_poly :: u8
  cfg_init :: u8
  cfg_refIn :: bool
  cfg_refOut :: bool
  cfg_xorOut :: u8
  cfg_check :: u8

definition crc8_row :: "u8 \<Rightarrow> u8 \<Rightarrow> bool \<Rightarrow> bool \<Rightarrow> u8 \<Rightarrow> u8 \<Rightarrow> crc8_cfg" where
  "crc8_row p i ri ro x c = \<lparr>cfg_poly = p, cfg_init = i, cfg_refIn = ri, cfg_refOut = ro,
     cfg_xorOut = x, cfg_check = c\<rparr>"

definition s_crc8Cfg :: "crc8_cfg list" where
  "s_crc8Cfg = [
     crc8_row 0x07 0x00 False False 0x00 0xF4,
     crc8_row 0x9B 0xFF False False 0x00 0xDA,
     crc8_row 0x9B 0xFF False False 0x00 0xDA,
     crc8_row 0xD5 0x00 False False 0x00 0xBC,
     crc8_row 0x1D 0xFF True  True  0x00 0x97,
     crc8_row 0x1D 0xFD False False 0x00 0x7E,
     crc8_row 0x07 0x00 False False 0x55 0xA1,
     crc8_row 0x31 0x00 True  True  0x00 0xA1,
     crc8_row 0x07 0xFF True  True  0x00 0xD0,
     crc8_row 0x9B 0x00 True  True  0x00 0x25]"

text \<open>The values of the enumeration \<open>U_CRC8_EM_ALGORITHM\<close>.\<close>

definition U_CRC8_ALG_I_CODE :: nat where "U_CRC8_ALG_I_CODE = 5"
definition U_CRC8_ALG_ITU :: nat where "U_CRC8_ALG_ITU = 5"
definition U_CRC8_ALG_MAX_SUPPORT :: nat where "U_CRC8_ALG_MAX_SUPPORT = 10"

section \<open>Lookup table\<close>

text \<open>One iteration of the inner loop, and the eight iterations for one table entry.\<close>

definition crc8_shift :: "u8 \<Rightarrow> u8 \<Rightarrow> u8" where
  "crc8_shift poly c =
     (let tmp = c AND 0x80; c' = push_bit 1 c in if tmp \<noteq> 0 then c' XOR poly else c')"

definition crc8_entry :: "u8 \<Rightarrow> u8 \<Rightarrow> u8" where
  "crc8_entry poly c = (crc8_shift poly ^^ 8) c"

function crc8_fill :: "u8 \<Rightarrow> u32 \<Rightarrow> u32 \<Rightarrow> u8 list \<Rightarrow> u8 list res" where
  "crc8_fill poly len i tbl =
     (if i < len \<and> i < 256 then
        (case st tbl (unat i) (crc8_entry poly (ucast i)) of
           Inl e \<Rightarrow> Inl e
         | Inr tbl' \<Rightarrow> crc8_fill poly len (i + 1) tbl')
      else Inr tbl)"
  by pat_completeness auto
termination
  by (relation "measure (\<lambda>(poly, len, i, tbl). unat (len - i))") (auto intro: word_count_down)

declare crc8_fill.simps [simp del]

definition u_crc8_makeTable :: "nat \<Rightarrow> u8 list \<Rightarrow> u32 \<Rightarrow> (bool \<times> u8 list) res" where
  "u_crc8_makeTable alg tbl len =
     (if U_CRC8_ALG_MAX_SUPPORT \<le> alg then Inr (False, tbl)
      else
        (case crc8_fill (cfg_poly (s_crc8Cfg ! alg)) len 0 tbl of
           Inl e \<Rightarrow> Inl e
         | Inr tbl' \<Rightarrow> Inr (\<not> len < 256, tbl')))"

section \<open>Bit reversal\<close>

definition s_reverse :: "u8 list" where
  "s_reverse = [0x00, 0x08, 0x04, 0x0C, 0x02, 0x0A, 0x06, 0x0E,
                0x01, 0x09, 0x05, 0x0D, 0x03, 0x0B, 0x07, 0x0F]"

definition u_crc8_reversByte :: "u8 \<Rightarrow> u8" where
  "u_crc8_reversByte b =
     push_bit 4 (s_reverse ! unat (b AND 0x0F)) OR s_reverse ! unat (drop_bit 4 b AND 0x0F)"

section \<open>Running computation\<close>

record crc8_context =
  ctx_alg :: nat
  ctx_pCrcTable :: "u8 list option"
  ctx_u8crc :: u8
  ctx_u32bytes :: u32

definition u_crc8_init :: "crc8_context \<Rightarrow> crc8_context res" where
  "u_crc8_init ctx =
     (if \<not> ctx_alg ctx < U_CRC8_ALG_MAX_SUPPORT then Inl Assert_failed
      else if ctx_pCrcTable ctx = None then Inl Assert_failed
      else Inr (ctx\<lparr>ctx_u32bytes := 0, ctx_u8crc := cfg_init (s_crc8Cfg ! ctx_alg ctx)\<rparr>))"

definition u_crc8_push :: "crc8_context \<Rightarrow> u8 \<Rightarrow> crc8_context res" where
  "u_crc8_push ctx byte =
     (case ld s_crc8Cfg (ctx_alg ctx) of
        Inl e \<Rightarrow> Inl e
      | Inr cfg \<Rightarrow>
          (let b = (if cfg_refIn cfg then u_crc8_reversByte byte else byte) in
           case ctx_pCrcTable ctx of
             None \<Rightarrow> Inl Out_of_bounds
           | Some tbl \<Rightarrow>
               (case ld tbl (unat (ctx_u8crc ctx XOR b)) of
                  Inl e \<Rightarrow> Inl e
                | Inr c \<Rightarrow> Inr (ctx\<lparr>ctx_u8crc := c\<rparr>))))"

definition u_crc8_finsh :: "crc8_context \<Rightarrow> (u8 \<times> crc8_context) res" where
  "u_crc8_finsh ctx =
     (case ld s_crc8Cfg (ctx_alg ctx) of
        Inl e \<Rightarrow> Inl e
      | Inr cfg \<Rightarrow>
          (let c1 = (if cfg_refOut cfg then u_crc8_reversByte (ctx_u8crc ctx) else ctx_u8crc ctx);
               c2 = c1 XOR cfg_xorOut cfg
           in Inr (c2, ctx\<lparr>ctx_u8crc := c2\<rparr>)))"

text \<open>A whole computation, as the callers of the module do it.\<close>

fun crc8_push_all :: "crc8_context \<Rightarrow> u8 list \<Rightarrow> crc8_context res" where
  "crc8_push_all ctx [] = Inr ctx"
| "crc8_push_all ctx (b # bs) =
     (case u_crc8_push ctx b of Inl e \<Rightarrow> Inl e | Inr ctx' \<Rightarrow> crc8_push_all ctx' bs)"

definition crc8_compute :: "nat \<Rightarrow> u8 list \<Rightarrow> u8 list \<Rightarrow> u8 res" where
  "crc8_compute alg tbl bs =
     (case u_crc8_init \<lparr>ctx_alg = alg, ctx_pCrcTable = Some tbl, ctx_u8crc = 0, ctx_u32bytes = 0\<rparr> of
        Inl e \<Rightarrow> Inl e
      | Inr ctx \<Rightarrow>
          (case crc8_push_all ctx bs of
             Inl e \<Rightarrow> Inl e
           | Inr ctx' \<Rightarrow> map_sum id fst (u_crc8_finsh ctx')))"

section \<open>The table entry is eight steps of the bit-serial register\<close>

definition crc8_serial_bit :: "u8 \<Rightarrow> u8 \<Rightarrow> bool \<Rightarrow> u8" where
  "crc8_serial_bit poly c b =
     (if bit c 7 \<noteq> b then push_bit 1 c XOR poly else push_bit 1 c)"

definition msb_first :: "u8 \<Rightarrow> bool list" where
  "msb_first b = map (\<lambda>k. bit b (7 - k)) [0..<8]"

definition crc8_serial :: "u8 \<Rightarrow> u8 \<Rightarrow> u8 \<Rightarrow> u8" where
  "crc8_serial poly c byte = foldl (crc8_serial_bit poly) c (msb_first byte)"

lemma crc8_shift_bit: "crc8_shift poly c = (if bit c 7 then push_bit 1 c XOR poly else push_bit 1 c)"
proof -
  have "c AND 0x80 \<noteq> 0 \<longleftrightarrow> bit c 7"
  proof -
    have "c AND 0x80 = c AND push_bit 7 1" by simp
    also have "\<dots> \<noteq> 0 \<longleftrightarrow> bit c 7" by (metis and_exp_eq_0_iff_not_bit push_bit_of_1)
    finally show ?thesis .
  qed
  then show ?thesis by (simp add: crc8_shift_def)
qed

lemma crc8_shift_xor: "crc8_shift poly (x XOR y) = crc8_shift poly x XOR crc8_shift poly y"
  by (simp add: crc8_shift_bit bit_xor_iff push_bit_xor ac_simps)

definition bit_at :: "bool \<Rightarrow> u8 \<Rightarrow> u8" where
  "bit_at b v = (if b then v else 0)"

lemma u8_bit_cases: "n < 8 \<Longrightarrow> n \<in> {0, 1, 2, 3, 4, 5, 6, 7 :: nat}"
  by auto

lemma bit_bit_at: "bit (bit_at b v) n \<longleftrightarrow> b \<and> bit v n"
  by (simp add: bit_at_def)

lemma u8_decompose:
  "(b :: u8) = bit_at (bit b 7) 0x80 XOR (bit_at (bit b 6) 0x40 XOR (bit_at (bit b 5) 0x20 XOR
     (bit_at (bit b 4) 0x10 XOR (bit_at (bit b 3) 0x08 XOR (bit_at (bit b 2) 0x04 XOR
     (bit_at (bit b 1) 0x02 XOR bit_at (bit b 0) 0x01))))))"
proof (rule bit_word_eqI)
  fix n assume "n < LENGTH(8)"
  then have "n < 8" by simp
  then have "n \<in> {0, 1, 2, 3, 4, 5, 6, 7}" by (rule u8_bit_cases)
  then show "bit b n = bit (bit_at (bit b 7) 0x80 XOR (bit_at (bit b 6) 0x40 XOR (bit_at (bit b 5) 0x20 XOR
     (bit_at (bit b 4) 0x10 XOR (bit_at (bit b 3) 0x08 XOR (bit_at (bit b 2) 0x04 XOR
     (bit_at (bit b 1) 0x02 XOR bit_at (bit b 0) 0x01))))))) n"
    by (elim insertE emptyE; hypsubst) (simp_all add: bit_xor_iff bit_bit_at)
qed

lemma crc8_shift_0: "crc8_shift poly 0 = 0"
  by (simp add: crc8_shift_bit)

lemma crc8_shift_bit_at:
  "crc8_shift poly (bit_at b 0x01) = bit_at b 0x02" "crc8_shift poly (bit_at b 0x02) = bit_at b 0x04"
  "crc8_shift poly (bit_at b 0x04) = bit_at b 0x08" "crc8_shift poly (bit_at b 0x08) = bit_at b 0x10"
  "crc8_shift poly (bit_at b 0x10) = bit_at b 0x20" "crc8_shift poly (bit_at b 0x20) = bit_at b 0x40"
  "crc8_shift poly (bit_at b 0x40) = bit_at b 0x80"
  by (simp_all add: crc8_shift_def bit_at_def)

lemma crc8_serial_bit_shift: "crc8_serial_bit poly c b = crc8_shift poly (c XOR bit_at b 0x80)"
proof -
  have z: "push_bit 1 (0x80 :: u8) = 0" by simp
  have "push_bit 1 (c XOR 0x80) = push_bit 1 c"
    by (simp only: push_bit_xor z xor.right_neutral)
  then show ?thesis
    by (auto simp: crc8_serial_bit_def crc8_shift_bit bit_at_def bit_xor_iff simp del: push_bit_xor)
qed

lemma crc8_entry_serial: "crc8_entry poly (c XOR byte) = crc8_serial poly c byte"
proof -
  have "[0..<8] = [0, 1, 2, 3, 4, 5, 6, 7 :: nat]" by (simp add: upt_rec)
  then have "crc8_serial poly c byte = (crc8_shift poly ^^ 8) c XOR
      (crc8_shift poly ^^ 8) (bit_at (bit byte 7) 0x80 XOR (bit_at (bit byte 6) 0x40 XOR (bit_at (bit byte 5) 0x20 XOR
     (bit_at (bit byte 4) 0x10 XOR (bit_at (bit byte 3) 0x08 XOR (bit_at (bit byte 2) 0x04 XOR
     (bit_at (bit byte 1) 0x02 XOR bit_at (bit byte 0) 0x01)))))))"
    by (simp add: crc8_serial_def msb_first_def crc8_serial_bit_shift crc8_shift_xor crc8_shift_bit_at
        eval_nat_numeral xor.assoc)
  moreover have "(crc8_shift poly ^^ n) (x XOR y) = (crc8_shift poly ^^ n) x XOR (crc8_shift poly ^^ n) y" for n x y
    by (induction n) (simp_all add: crc8_shift_xor)
  then have "crc8_entry poly (c XOR byte) = (crc8_shift poly ^^ 8) c XOR (crc8_shift poly ^^ 8) byte"
    by (simp only: crc8_entry_def)
  ultimately show ?thesis
    using arg_cong [OF u8_decompose [of byte], of "crc8_shift poly ^^ 8"] by (simp only:)
qed

section \<open>Table generation\<close>

lemma crc8_fill_ok:
  assumes "min (unat len) 256 \<le> length tbl"
  shows "\<exists>t. crc8_fill poly len i tbl = Inr t \<and> length t = length tbl \<and>
     (\<forall>j < length tbl. t ! j = (if unat i \<le> j \<and> j < min (unat len) 256 then crc8_entry poly (of_nat j) else tbl ! j))"
  using assms
proof (induction poly len i tbl rule: crc8_fill.induct)
  case (1 poly len i tbl)
  show ?case
  proof (cases "i < len \<and> i < 256")
    case False
    then have "\<not> (unat i \<le> j \<and> j < min (unat len) 256)" for j
      by (auto simp: word_less_nat_alt)
    with False show ?thesis by (auto simp: crc8_fill.simps [of poly len i tbl])
  next
    case True
    let ?t = "tbl[unat i := crc8_entry poly (ucast i)]"
    have il: "unat i < length tbl" using True "1.prems" unfolding word_less_nat_alt by simp linarith
    then have w: "st tbl (unat i) (crc8_entry poly (ucast i)) = Inr ?t" by (rule st_ok)
    have inc: "unat (i + 1) = Suc (unat i)" using True unat_inc [of i len] by simp
    have uc: "ucast i = (of_nat (unat i) :: u8)" by simp
    obtain t where t: "crc8_fill poly len (i + 1) ?t = Inr t" "length t = length tbl"
      "\<forall>j < length tbl. t ! j = (if Suc (unat i) \<le> j \<and> j < min (unat len) 256 then crc8_entry poly (of_nat j) else ?t ! j)"
      using "1.IH" [OF True w] "1.prems" inc by auto
    have "t ! j = (if unat i \<le> j \<and> j < min (unat len) 256 then crc8_entry poly (of_nat j) else tbl ! j)"
      if "j < length tbl" for j
      using t(3) that True uc by (cases "j = unat i") (auto simp: word_less_nat_alt)
    with t True w show ?thesis by (auto simp: crc8_fill.simps [of poly len i tbl])
  qed
qed

lemma crc8_table:
  assumes "u_crc8_makeTable alg tbl len = Inr (True, t)" "unat len \<le> length tbl"
  shows "alg < U_CRC8_ALG_MAX_SUPPORT" "length t = length tbl" "256 \<le> length t"
    "t ! unat x = crc8_entry (cfg_poly (s_crc8Cfg ! alg)) x"
proof -
  show alg: "alg < U_CRC8_ALG_MAX_SUPPORT"
    using assms(1) by (simp add: u_crc8_makeTable_def split: if_splits)
  have len: "256 \<le> unat len" and f: "crc8_fill (cfg_poly (s_crc8Cfg ! alg)) len 0 tbl = Inr t"
    using assms(1) alg
    by (auto simp: u_crc8_makeTable_def word_less_nat_alt split: sum.splits if_splits)
  then have t: "length t = length tbl" "\<forall>j < length tbl. t ! j =
      (if j < min (unat len) 256 then crc8_entry (cfg_poly (s_crc8Cfg ! alg)) (of_nat j) else tbl ! j)"
    using crc8_fill_ok [of len tbl "cfg_poly (s_crc8Cfg ! alg)" 0] assms(2) by auto
  then show "length t = length tbl" "256 \<le> length t" using len assms(2) by auto
  have x: "unat x < 256" using unsigned_less [of x, where ?'a = nat] by simp
  then show "t ! unat x = crc8_entry (cfg_poly (s_crc8Cfg ! alg)) x"
    using t len assms(2) by simp
qed

section \<open>Reference computation\<close>

definition crc8_in :: "crc8_cfg \<Rightarrow> u8 \<Rightarrow> bool list" where
  "crc8_in cfg b = (if cfg_refIn cfg then rev (msb_first b) else msb_first b)"

definition crc8_ref :: "crc8_cfg \<Rightarrow> u8 list \<Rightarrow> u8" where
  "crc8_ref cfg bs =
     (let r = foldl (crc8_serial_bit (cfg_poly cfg)) (cfg_init cfg) (concat (map (crc8_in cfg) bs))
      in (if cfg_refOut cfg then u_crc8_reversByte r else r) XOR cfg_xorOut cfg)"

lemma s_reverse_bits:
  "list_all (\<lambda>n. list_all (\<lambda>j. bit (s_reverse ! n) j = (j < 4 \<and> bit n (3 - j))) [0..<8]) [0..<16]"
  by code_simp

lemma s_reverse_bit:
  assumes "n < 16" "j < 8"
  shows "bit (s_reverse ! n) j = (j < 4 \<and> bit n (3 - j))"
  using s_reverse_bits assms unfolding list_all_iff set_upt by auto

lemma nibble_lt: "unat ((b :: u8) AND 0x0F) < 16"
proof -
  have "b AND 0x0F \<le> 0x0F" by (rule word_and_le1)
  then show ?thesis by (simp add: word_le_nat_alt)
qed

lemma bit_nibble: "bit (15 :: int) k \<longleftrightarrow> k < 4"
proof -
  have "(15 :: int) = mask 4" by (simp add: mask_eq_exp_minus_1)
  then show ?thesis by (simp only: bit_mask_iff possible_bit_int simp_thms)
qed

text \<open>The byte reversal reverses the order of the bits.\<close>

lemma reversByte_bit: "k < 8 \<Longrightarrow> bit (u_crc8_reversByte b) k = bit b (7 - k)"
  by (cases "k < 4")
    (auto simp: u_crc8_reversByte_def bit_or_iff bit_push_bit_iff s_reverse_bit nibble_lt
      bit_unsigned_iff bit_and_iff bit_nibble bit_drop_bit_eq)

lemma reversByte_msb_first: "msb_first (u_crc8_reversByte b) = rev (msb_first b)"
  by (simp add: msb_first_def upt_rec reversByte_bit)

lemma crc8_push_ref:
  assumes "ctx_alg ctx < U_CRC8_ALG_MAX_SUPPORT" "ctx_pCrcTable ctx = Some t" "256 \<le> length t"
    and "\<And>x. t ! unat x = crc8_entry (cfg_poly (s_crc8Cfg ! ctx_alg ctx)) x"
  defines "cfg \<equiv> s_crc8Cfg ! ctx_alg ctx"
  shows "u_crc8_push ctx b =
     Inr (ctx\<lparr>ctx_u8crc := foldl (crc8_serial_bit (cfg_poly cfg)) (ctx_u8crc ctx) (crc8_in cfg b)\<rparr>)"
proof -
  have lt: "unat x < length t" for x :: u8
    using assms(3) unsigned_less [of x, where ?'a = nat] by simp
  have "length s_crc8Cfg = U_CRC8_ALG_MAX_SUPPORT"
    by (simp add: s_crc8Cfg_def U_CRC8_ALG_MAX_SUPPORT_def)
  then have "ld s_crc8Cfg (ctx_alg ctx) = Inr cfg" using assms(1) by (simp add: access cfg_def)
  then show ?thesis
    using assms(2,4) lt
    by (simp add: u_crc8_push_def access crc8_entry_serial crc8_serial_def crc8_in_def reversByte_msb_first cfg_def)
qed

lemma crc8_push_all_ref:
  assumes "ctx_alg ctx < U_CRC8_ALG_MAX_SUPPORT" "ctx_pCrcTable ctx = Some t" "256 \<le> length t"
    and "\<And>x. t ! unat x = crc8_entry (cfg_poly (s_crc8Cfg ! ctx_alg ctx)) x"
  shows "crc8_push_all ctx bs =
     Inr (ctx\<lparr>ctx_u8crc := foldl (crc8_serial_bit (cfg_poly (s_crc8Cfg ! ctx_alg ctx))) (ctx_u8crc ctx)
        (concat (map (crc8_in (s_crc8Cfg ! ctx_alg ctx)) bs))\<rparr>)"
  using assms
proof (induction bs arbitrary: ctx)
  case (Cons b bs)
  then show ?case using crc8_push_ref [OF Cons.prems] by simp
qed simp

section \<open>Properties\<close>

lemma crc8_compute_ref:
  assumes "u_crc8_makeTable alg tbl len = Inr (True, t)" and "unat len \<le> length tbl"
  shows "crc8_compute alg t bs = Inr (crc8_ref (s_crc8Cfg ! alg) bs)"
proof -
  note T = crc8_table [OF assms]
  let ?ctx = "\<lparr>ctx_alg = alg, ctx_pCrcTable = Some t, ctx_u8crc = cfg_init (s_crc8Cfg ! alg), ctx_u32bytes = 0\<rparr>"
  have "length s_crc8Cfg = U_CRC8_ALG_MAX_SUPPORT"
    by (simp add: s_crc8Cfg_def U_CRC8_ALG_MAX_SUPPORT_def)
  then have "ld s_crc8Cfg alg = Inr (s_crc8Cfg ! alg)" using T(1) by (simp add: access)
  then show ?thesis
    using T crc8_push_all_ref [of ?ctx t bs]
    by (simp add: crc8_compute_def u_crc8_init_def u_crc8_finsh_def crc8_ref_def Let_def)
qed

text \<open>
  C4. The table-driven CRC computes what the bit-serial shift register computes: with a table
  made by \<open>u_crc8_makeTable\<close> for an algorithm, initialising, pushing the bytes one by one
  and finishing gives the reference CRC of the bytes, for every algorithm and every message.
\<close>

theorem crc8_table_driven_correct:
  assumes "u_crc8_makeTable alg tbl len = Inr (True, t)" and "unat len \<le> length tbl"
  shows "crc8_compute alg t bs = Inr (crc8_ref (s_crc8Cfg ! alg) bs)"
  by (rule crc8_compute_ref [OF assms])

theorem crc8_table_driven_correct_witness:
  "\<exists>t. u_crc8_makeTable 0 (replicate 256 0) 256 = Inr (True, t) \<and>
     crc8_compute 0 t [0x31] = Inr (crc8_ref (s_crc8Cfg ! 0) [0x31])"
proof -
  obtain t where t: "u_crc8_makeTable 0 (replicate 256 0) 256 = Inr (True, t)"
    using crc8_fill_ok [of 256 "replicate 256 0" "cfg_poly (s_crc8Cfg ! 0)" 0]
    by (auto simp: u_crc8_makeTable_def U_CRC8_ALG_MAX_SUPPORT_def)
  moreover from crc8_table_driven_correct [OF t, of "[0x31]"]
  have "crc8_compute 0 t [0x31] = Inr (crc8_ref (s_crc8Cfg ! 0) [0x31])" by simp
  ultimately show ?thesis by blast
qed

definition crc8_check_input :: "u8 list" where
  "crc8_check_input = [0x31, 0x32, 0x33, 0x34, 0x35, 0x36, 0x37, 0x38, 0x39]"

text \<open>
  The parameter table is consistent with its own check column: for every row, the CRC of
  the ASCII digits 1 to 9 is the value recorded in the row.
\<close>

theorem crc8_check_values:
  "map (\<lambda>cfg. crc8_ref cfg crc8_check_input) s_crc8Cfg = map cfg_check s_crc8Cfg"
  by code_simp

text \<open>
  The enumeration value for the ITU algorithm is the one of I-CODE, so selecting ITU
  computes the I-CODE checksum, and the row meant for ITU cannot be selected by its name.
\<close>

theorem crc8_itu_aliases_icode:
  "s_crc8Cfg ! U_CRC8_ALG_ITU = s_crc8Cfg ! U_CRC8_ALG_I_CODE \<and>
   crc8_ref (s_crc8Cfg ! U_CRC8_ALG_ITU) crc8_check_input = 0x7E \<and> cfg_check (s_crc8Cfg ! 6) = 0xA1"
  by code_simp

end
