(* ===== verification/Misc.thy ===== *)
theory Misc
  imports Prelude
begin

text \<open>
  The helpers of \<open>src/utilities/u_misc.c\<close>: bit counting and lowest-set-bit search through byte
  tables, and the pseudo-random byte arrays used for link tests.
\<close>

section \<open>Tables\<close>

definition s_bitcount :: "u8 list" where
  "s_bitcount = [
     0, 1, 1, 2, 1, 2, 2, 3, 1, 2, 2, 3, 2, 3, 3, 4,
     1, 2, 2, 3, 2, 3, 3, 4, 2, 3, 3, 4, 3, 4, 4, 5,
     1, 2, 2, 3, 2, 3, 3, 4, 2, 3, 3, 4, 3, 4, 4, 5,
     2, 3, 3, 4, 3, 4, 4, 5, 3, 4, 4, 5, 4, 5, 5, 6,
     1, 2, 2, 3, 2, 3, 3, 4, 2, 3, 3, 4, 3, 4, 4, 5,
     2, 3, 3, 4, 3, 4, 4, 5, 3, 4, 4, 5, 4, 5, 5, 6,
     2, 3, 3, 4, 3, 4, 4, 5, 3, 4, 4, 5, 4, 5, 5, 6,
     3, 4, 4, 5, 4, 5, 5, 6, 4, 5, 5, 6, 5, 6, 6, 7,
     1, 2, 2, 3, 2, 3, 3, 4, 2, 3, 3, 4, 3, 4, 4, 5,
     2, 3, 3, 4, 3, 4, 4, 5, 3, 4, 4, 5, 4, 5, 5, 6,
     2, 3, 3, 4, 3, 4, 4, 5, 3, 4, 4, 5, 4, 5, 5, 6,
     3, 4, 4, 5, 4, 5, 5, 6, 4, 5, 5, 6, 5, 6, 6, 7,
     2, 3, 3, 4, 3, 4, 4, 5, 3, 4, 4, 5, 4, 5, 5, 6,
     3, 4, 4, 5, 4, 5, 5, 6, 4, 5, 5, 6, 5, 6, 6, 7,
     3, 4, 4, 5, 4, 5, 5, 6, 4, 5, 5, 6, 5, 6, 6, 7,
     4, 5, 5, 6, 5, 6, 6, 7, 5, 6, 6, 7, 6, 7, 7, 8]"

definition s_lowbit :: "u8 list" where
  "s_lowbit = [
     0x80, 0, 1, 0, 2, 0, 1, 0, 3, 0, 1, 0, 2, 0, 1, 0,
     4, 0, 1, 0, 2, 0, 1, 0, 3, 0, 1, 0, 2, 0, 1, 0,
     5, 0, 1, 0, 2, 0, 1, 0, 3, 0, 1, 0, 2, 0, 1, 0,
     4, 0, 1, 0, 2, 0, 1, 0, 3, 0, 1, 0, 2, 0, 1, 0,
     6, 0, 1, 0, 2, 0, 1, 0, 3, 0, 1, 0, 2, 0, 1, 0,
     4, 0, 1, 0, 2, 0, 1, 0, 3, 0, 1, 0, 2, 0, 1, 0,
     5, 0, 1, 0, 2, 0, 1, 0, 3, 0, 1, 0, 2, 0, 1, 0,
     4, 0, 1, 0, 2, 0, 1, 0, 3, 0, 1, 0, 2, 0, 1, 0,
     7, 0, 1, 0, 2, 0, 1, 0, 3, 0, 1, 0, 2, 0, 1, 0,
     4, 0, 1, 0, 2, 0, 1, 0, 3, 0, 1, 0, 2, 0, 1, 0,
     5, 0, 1, 0, 2, 0, 1, 0, 3, 0, 1, 0, 2, 0, 1, 0,
     4, 0, 1, 0, 2, 0, 1, 0, 3, 0, 1, 0, 2, 0, 1, 0,
     6, 0, 1, 0, 2, 0, 1, 0, 3, 0, 1, 0, 2, 0, 1, 0,
     4, 0, 1, 0, 2, 0, 1, 0, 3, 0, 1, 0, 2, 0, 1, 0,
     5, 0, 1, 0, 2, 0, 1, 0, 3, 0, 1, 0, 2, 0, 1, 0,
     4, 0, 1, 0, 2, 0, 1, 0, 3, 0, 1, 0, 2, 0, 1, 0]"

definition U_BYTE_BC :: "u8 \<Rightarrow> u8" where
  "U_BYTE_BC byte = s_bitcount ! unat byte"

definition U_BYTE_LB :: "u8 \<Rightarrow> u8" where
  "U_BYTE_LB byte = s_lowbit ! unat byte"

section \<open>Bit counts\<close>

definition u_misc_u8BitCount :: "u8 \<Rightarrow> u8" where
  "u_misc_u8BitCount d = U_BYTE_BC d"

definition u_misc_u16BitCount :: "u16 \<Rightarrow> u8" where
  "u_misc_u16BitCount d = U_BYTE_BC (ucast (d AND 0xFF)) + U_BYTE_BC (ucast (drop_bit 8 d AND 0xFF))"

definition u_misc_u32BitCount :: "u32 \<Rightarrow> u8" where
  "u_misc_u32BitCount d =
     U_BYTE_BC (ucast (d AND 0xFF)) + U_BYTE_BC (ucast (drop_bit 8 d AND 0xFF)) +
     U_BYTE_BC (ucast (drop_bit 16 d AND 0xFF)) + U_BYTE_BC (ucast (drop_bit 24 d AND 0xFF))"

definition u_misc_u64BitCount :: "u64 \<Rightarrow> u8" where
  "u_misc_u64BitCount d =
     (let h = ucast (drop_bit 32 d) :: u32; l = ucast d :: u32
      in u_misc_u32BitCount h + u_misc_u32BitCount l)"

section \<open>Lowest set bit\<close>

definition u_misc_u8lowestOneBit :: "u8 \<Rightarrow> u32 \<Rightarrow> u8 res" where
  "u_misc_u8lowestOneBit d startPos =
     (if \<not> startPos < 8 then Inl Assert_failed
      else Inr (U_BYTE_LB (drop_bit (unat startPos) d) + ucast startPos))"

definition u_misc_u16lowestOneBit :: "u16 \<Rightarrow> u32 \<Rightarrow> u8 res" where
  "u_misc_u16lowestOneBit d startPos =
     (if \<not> startPos < 16 then Inl Assert_failed
      else
        (let d = drop_bit (unat startPos) d; tmp = ucast (d AND 0xFF) :: u8 in
         if tmp \<noteq> 0 then Inr (U_BYTE_LB tmp + ucast startPos)
         else Inr (U_BYTE_LB (ucast (drop_bit 8 d AND 0xFF)) + ucast startPos + 8)))"

definition u_misc_u32lowestOneBit :: "u32 \<Rightarrow> u32 \<Rightarrow> u8 res" where
  "u_misc_u32lowestOneBit d startPos =
     (if \<not> startPos < 32 then Inl Assert_failed
      else
        (let d = drop_bit (unat startPos) d;
             t0 = ucast (d AND 0xFF) :: u8;
             t1 = ucast (drop_bit 8 d AND 0xFF) :: u8;
             t2 = ucast (drop_bit 16 d AND 0xFF) :: u8;
             t3 = ucast (drop_bit 24 d AND 0xFF) :: u8 in
         if t0 \<noteq> 0 then Inr (U_BYTE_LB t0 + ucast startPos)
         else if startPos < 24 \<and> t1 \<noteq> 0 then Inr (U_BYTE_LB t1 + ucast startPos + 8)
         else if startPos < 24 \<and> startPos < 16 \<and> t2 \<noteq> 0 then Inr (U_BYTE_LB t2 + ucast startPos + 16)
         else if startPos < 24 \<and> startPos < 16 \<and> startPos < 8 \<and> t3 \<noteq> 0
           then Inr (U_BYTE_LB t3 + ucast startPos + 24)
         else Inr 0x80))"

definition u_misc_u64lowestOneBit :: "u64 \<Rightarrow> u32 \<Rightarrow> u8 res" where
  "u_misc_u64lowestOneBit d startPos =
     (if \<not> startPos < 64 then Inl Assert_failed
      else
        (let d = drop_bit (unat startPos) d;
             lo = ucast (d AND 0xFFFFFFFF) :: u32;
             hi = ucast (drop_bit 32 d AND 0xFFFFFFFF) :: u32 in
         if lo \<noteq> 0 then map_sum id (\<lambda>r. r + ucast startPos) (u_misc_u32lowestOneBit lo 0)
         else if startPos < 32 \<and> hi \<noteq> 0
           then map_sum id (\<lambda>r. r + ucast startPos + 32) (u_misc_u32lowestOneBit hi 0)
         else Inr 0x80))"

section \<open>Pseudo-random arrays\<close>

text \<open>The generator's state \<open>_s_pr_next\<close> is passed explicitly.\<close>

definition u_misc_pr_srand :: "u32 \<Rightarrow> u32 \<Rightarrow> u32" where
  "u_misc_pr_srand s pr_next = s"

definition u_misc_pr_rand :: "u32 \<Rightarrow> u16 \<times> u32" where
  "u_misc_pr_rand pr_next =
     (let nxt = pr_next * 1103515245 + 12345 in ((ucast (nxt div 65536) :: u16) mod 32768, nxt))"

definition u_misc_pr_random :: "u16 \<Rightarrow> u16" where
  "u_misc_pr_random s =
     (let tmp = (ucast s :: u64) * 1103515245 + 12345 in ucast ((tmp div 65536) mod 32768))"

definition val_l :: "u16 \<Rightarrow> u8" where "val_l v = ucast v"
definition val_h :: "u16 \<Rightarrow> u8" where "val_h v = ucast (drop_bit 8 v)"

text \<open>
  The loops run over an even number of bytes, two per iteration; \<open>pairs\<close> counts the
  iterations that are left, and \<open>idx\<close> is the byte index, which stays below \<open>size\<close> and does not
  wrap.
\<close>

fun pr_gen_loop :: "nat \<Rightarrow> nat \<Rightarrow> u16 \<Rightarrow> u8 list \<Rightarrow> (u16 \<times> nat \<times> u8 list) res" where
  "pr_gen_loop 0 idx v buf = Inr (v, idx, buf)"
| "pr_gen_loop (Suc pairs) idx v buf =
     (case st buf idx (val_l v) of
        Inl e \<Rightarrow> Inl e
      | Inr buf1 \<Rightarrow>
          (case st buf1 (idx + 1) (val_h v) of
             Inl e \<Rightarrow> Inl e
           | Inr buf2 \<Rightarrow> pr_gen_loop pairs (idx + 2) (u_misc_pr_random v) buf2))"

definition u_misc_pr_genRandArray :: "u16 \<Rightarrow> u8 list \<Rightarrow> u32 \<Rightarrow> u8 list res" where
  "u_misc_pr_genRandArray seed buf sz =
     (case pr_gen_loop (unat sz div 2) 0 seed buf of
        Inl e \<Rightarrow> Inl e
      | Inr (v, idx, buf') \<Rightarrow> if unat sz mod 2 \<noteq> 0 then st buf' idx (val_l v) else Inr buf')"

fun pr_verify_loop :: "nat \<Rightarrow> nat \<Rightarrow> u16 \<Rightarrow> u8 list \<Rightarrow> (nat + u16 \<times> nat) res" where
  "pr_verify_loop 0 idx v buf = Inr (Inr (v, idx))"
| "pr_verify_loop (Suc pairs) idx v buf =
     (case ld buf idx of
        Inl e \<Rightarrow> Inl e
      | Inr c \<Rightarrow>
          if c \<noteq> val_l v then Inr (Inl idx)
          else
            (case ld buf (idx + 1) of
               Inl e \<Rightarrow> Inl e
             | Inr c' \<Rightarrow>
                 if c' \<noteq> val_h v then Inr (Inl (idx + 1))
                 else pr_verify_loop pairs (idx + 2) (u_misc_pr_random v) buf))"

definition u_misc_pr_verifyRandArray :: "u16 \<Rightarrow> u8 list \<Rightarrow> u32 \<Rightarrow> u32 res" where
  "u_misc_pr_verifyRandArray seed buf sz =
     (case pr_verify_loop (unat sz div 2) 0 seed buf of
        Inl e \<Rightarrow> Inl e
      | Inr (Inl i) \<Rightarrow> Inr (of_nat i)
      | Inr (Inr (v, idx)) \<Rightarrow>
          if unat sz mod 2 \<noteq> 0 then
            (case ld buf idx of
               Inl e \<Rightarrow> Inl e
             | Inr c \<Rightarrow> if c \<noteq> val_l v then Inr (sz - 1) else Inr sz)
          else Inr sz)"

section \<open>Table facts\<close>

text \<open>\<open>tbl_ok P n xs\<close>: the entries of the table satisfy \<open>P\<close> at their indices, counted from \<open>n\<close>.\<close>

fun tbl_ok :: "(int \<Rightarrow> u8 \<Rightarrow> bool) \<Rightarrow> int \<Rightarrow> u8 list \<Rightarrow> bool" where
  "tbl_ok P n [] = True"
| "tbl_ok P n (x # xs) = (P n x \<and> tbl_ok P (n + 1) xs)"

lemma tbl_ok_nth: "tbl_ok P n xs \<Longrightarrow> i < length xs \<Longrightarrow> P (n + int i) (xs ! i)"
proof (induction P n xs arbitrary: i rule: tbl_ok.induct)
  case (2 P n x xs)
  then show ?case by (cases i) (auto simp: algebra_simps)
qed simp

definition popcount :: "'a::len word \<Rightarrow> nat" where
  "popcount w = length (filter (bit w) [0..<LENGTH('a)])"

definition count8 :: "int \<Rightarrow> int" where
  "count8 n = of_bool (bit n 0) + of_bool (bit n 1) + of_bool (bit n 2) + of_bool (bit n 3) +
     of_bool (bit n 4) + of_bool (bit n 5) + of_bool (bit n 6) + of_bool (bit n 7)"

lemma s_bitcount_table: "tbl_ok (\<lambda>n x. uint x = count8 n) 0 s_bitcount"
  by (simp add: s_bitcount_def count8_def)

lemma s_lowbit_table:
  "tbl_ok (\<lambda>n x. n = 0 \<and> x = 0x80 \<or> n \<noteq> 0 \<and> uint x < 8 \<and> bit n (unat x) \<and> n mod 2 ^ unat x = 0) 0 s_lowbit"
  by (simp add: s_lowbit_def)

lemma length_tables: "length s_bitcount = 256" "length s_lowbit = 256"
  by (simp_all add: s_bitcount_def s_lowbit_def)

lemma u8_index: "unat (b :: u8) < 256"
  using unsigned_less [of b, where ?'a = nat] by simp

lemma popcount_u8: "int (popcount (b :: u8)) = count8 (uint b)"
proof -
  have "[0..<LENGTH(8)] = [0, 1, 2, 3, 4, 5, 6, 7]" by (simp add: upt_rec)
  then show ?thesis by (simp add: popcount_def count8_def bit_uint_iff)
qed

lemma U_BYTE_BC_popcount: "unat (U_BYTE_BC b) = popcount b"
proof -
  have "uint (U_BYTE_BC b) = count8 (uint b)"
    using tbl_ok_nth [OF s_bitcount_table, of "unat b"] u8_index [of b]
    by (simp add: U_BYTE_BC_def length_tables)
  then have "int (unat (U_BYTE_BC b)) = int (popcount b)" by (simp add: popcount_u8)
  then show ?thesis by (simp only: of_nat_eq_iff)
qed

lemma popcount_le: "popcount (w :: 'a::len word) \<le> LENGTH('a)"
  by (metis diff_zero length_filter_le length_upt popcount_def)

section \<open>Splitting a word into bytes\<close>

lemma bit_0xFF: "bit (255 :: int) j \<longleftrightarrow> j < 8"
proof -
  have "(255 :: int) = mask 8" by (simp add: mask_eq_exp_minus_1)
  then show ?thesis by (simp only: bit_mask_iff possible_bit_int simp_thms)
qed

lemma bit_byte: "bit (ucast (drop_bit k d AND 0xFF) :: u8) j \<longleftrightarrow> j < 8 \<and> bit d (k + j)"
  for d :: "'a::len word"
  using bit_imp_le_length [of d "k + j"]
  by (auto simp: bit_ucast_iff bit_and_iff bit_drop_bit_eq bit_0xFF)

lemmas bit_byte0 = bit_byte [where k = 0, simplified]

lemma length_filter_upt_shift: "length (filter P [a..<a + n]) = length (filter (\<lambda>j. P (a + j)) [0..<n])"
  by (induction n) auto

lemma count_byte:
  "length (filter (bit d) [k..<k + 8]) = popcount (ucast (drop_bit k d AND 0xFF) :: u8)"
  for d :: "'a::len word"
proof -
  have "filter (\<lambda>j. bit d (k + j)) [0..<8] = filter (bit (ucast (drop_bit k d AND 0xFF) :: u8)) [0..<8]"
    by (rule filter_cong) (simp_all add: bit_byte)
  then show ?thesis by (simp add: length_filter_upt_shift popcount_def)
qed

lemmas count_bytes = count_byte [where k = 0, simplified] count_byte [where k = 8, simplified]
  count_byte [where k = 16, simplified] count_byte [where k = 24, simplified]

lemma upt_split: "i \<le> j \<Longrightarrow> j \<le> k \<Longrightarrow> [i..<k] = [i..<j] @ [j..<k]"
  by (metis upt_add_eq_append le_add_diff_inverse)

lemma popcount_u16:
  "popcount (d :: u16) = popcount (ucast (d AND 0xFF) :: u8) + popcount (ucast (drop_bit 8 d AND 0xFF) :: u8)"
proof -
  have "[0..<16] = [0..<8] @ [8..<16]" by (rule upt_split) simp_all
  then have "popcount d = length (filter (bit d) [0..<8]) + length (filter (bit d) [8..<16])"
    by (simp add: popcount_def)
  then show ?thesis by (simp add: count_bytes)
qed

lemma popcount_u32:
  "popcount (d :: u32) = popcount (ucast (d AND 0xFF) :: u8) + popcount (ucast (drop_bit 8 d AND 0xFF) :: u8) +
     popcount (ucast (drop_bit 16 d AND 0xFF) :: u8) + popcount (ucast (drop_bit 24 d AND 0xFF) :: u8)"
proof -
  have "[0..<32] = [0..<8] @ [8..<16] @ [16..<24] @ [24..<32]"
    using upt_split [of 0 8 32] upt_split [of 8 16 32] upt_split [of 16 24 32] by simp
  then have "popcount d = length (filter (bit d) [0..<8]) + length (filter (bit d) [8..<16]) +
      length (filter (bit d) [16..<24]) + length (filter (bit d) [24..<32])"
    by (simp add: popcount_def)
  then show ?thesis by (simp add: count_bytes)
qed

lemma popcount_u64:
  "popcount (d :: u64) = popcount (ucast d :: u32) + popcount (ucast (drop_bit 32 d) :: u32)"
proof -
  have "[0..<64] = [0..<32] @ [32..<32 + 32]"
    using upt_split [of 0 32 "32 + 32"] by simp
  then have "popcount d = length (filter (bit d) [0..<32]) + length (filter (\<lambda>j. bit d (32 + j)) [0..<32])"
    using length_filter_upt_shift [of "bit d" 32 32] by (simp add: popcount_def)
  moreover have "filter (bit d) [0..<32] = filter (bit (ucast d :: u32)) [0..<32]"
    by (rule filter_cong) (simp_all add: bit_ucast_iff)
  moreover have "filter (\<lambda>j. bit d (32 + j)) [0..<32] = filter (bit (ucast (drop_bit 32 d) :: u32)) [0..<32]"
    by (rule filter_cong) (simp_all add: bit_ucast_iff bit_drop_bit_eq)
  ultimately show ?thesis by (simp add: popcount_def)
qed

section \<open>Properties\<close>

lemma unat_add_u8: "unat x + unat y < 256 \<Longrightarrow> unat (x + y :: u8) = unat x + unat y"
  by (simp add: unat_word_ariths)

lemma BC_le: "unat (U_BYTE_BC b) \<le> 8"
  using popcount_le [of b] by (simp add: U_BYTE_BC_popcount)

lemma u32BitCount_popcount: "unat (u_misc_u32BitCount d) = popcount d"
  using BC_le [of "ucast (d AND 0xFF)"] BC_le [of "ucast (drop_bit 8 d AND 0xFF)"]
    BC_le [of "ucast (drop_bit 16 d AND 0xFF)"] BC_le [of "ucast (drop_bit 24 d AND 0xFF)"]
  by (simp add: u_misc_u32BitCount_def popcount_u32 unat_add_u8 flip: U_BYTE_BC_popcount)

text \<open>
  The four bit-count routines return the number of one bits of their argument; the 8-bit
  sums of table entries do not overflow.
\<close>

theorem u_misc_bitcount_correct:
  "unat (u_misc_u8BitCount a) = popcount a \<and> unat (u_misc_u16BitCount b) = popcount b \<and>
   unat (u_misc_u32BitCount c) = popcount c \<and> unat (u_misc_u64BitCount d) = popcount d"
proof (intro conjI)
  show "unat (u_misc_u8BitCount a) = popcount a" by (simp add: u_misc_u8BitCount_def U_BYTE_BC_popcount)
  show "unat (u_misc_u16BitCount b) = popcount b"
    using BC_le [of "ucast (b AND 0xFF)"] BC_le [of "ucast (drop_bit 8 b AND 0xFF)"]
    by (simp add: u_misc_u16BitCount_def popcount_u16 unat_add_u8 flip: U_BYTE_BC_popcount)
  show "unat (u_misc_u32BitCount c) = popcount c" by (rule u32BitCount_popcount)
  show "unat (u_misc_u64BitCount d) = popcount d"
    using popcount_le [of "ucast d :: u32"] popcount_le [of "ucast (drop_bit 32 d) :: u32"]
    by (simp add: u_misc_u64BitCount_def Let_def popcount_u64 unat_add_u8 u32BitCount_popcount)
qed

section \<open>Lowest set bit\<close>

definition is_lowest :: "'a::len word \<Rightarrow> nat \<Rightarrow> nat \<Rightarrow> bool" where
  "is_lowest d s k \<longleftrightarrow> s \<le> k \<and> bit d k \<and> (\<forall>j. s \<le> j \<and> j < k \<longrightarrow> \<not> bit d j)"

text \<open>
  What the search promises: the lowest one bit from the start position on, with bit 7 of the
  result clear, or a result with bit 7 set (\<open>U_MISC_LOB_isOverflow\<close>) when there is none.
\<close>

definition lob_ok :: "'a::len word \<Rightarrow> nat \<Rightarrow> u8 \<Rightarrow> bool" where
  "lob_ok d s r \<longleftrightarrow> (if \<exists>k. s \<le> k \<and> bit d k then is_lowest d s (unat r) \<and> \<not> bit r 7 else bit r 7)"

lemma U_BYTE_LB_0: "U_BYTE_LB 0 = 0x80"
  by (simp add: U_BYTE_LB_def s_lowbit_def)

lemma U_BYTE_LB_nonzero:
  assumes "b \<noteq> 0"
  shows "unat (U_BYTE_LB b) < 8" "bit b (unat (U_BYTE_LB b))" "j < unat (U_BYTE_LB b) \<Longrightarrow> \<not> bit b j"
proof -
  let ?r = "U_BYTE_LB b"
  have "uint b \<noteq> 0" using assms by (simp add: uint_0_iff)
  then have t: "uint ?r < 8" "bit (uint b) (unat ?r)" "uint b mod 2 ^ unat ?r = 0"
    using tbl_ok_nth [OF s_lowbit_table, of "unat b"] u8_index [of b]
    by (auto simp: U_BYTE_LB_def length_tables)
  show "unat ?r < 8" using t(1) by (simp flip: of_nat_less_iff [where ?'a = int])
  show "bit b (unat ?r)" using t(2) by (simp add: bit_uint_iff)
  show "\<not> bit b j" if "j < unat ?r"
  proof -
    have "take_bit (unat ?r) (uint b) = 0" using t(3) by (simp add: take_bit_eq_mod)
    then have "\<not> bit (take_bit (unat ?r) (uint b)) j" by simp
    with that show ?thesis by (auto simp: bit_take_bit_iff bit_uint_iff dest: bit_imp_le_length)
  qed
qed

lemma bit7_small: "unat (r :: u8) < 128 \<Longrightarrow> \<not> bit r 7"
proof
  assume "unat r < 128" "bit r 7"
  then have "bit (unat r) 7" by (simp add: bit_unsigned_iff)
  then have "odd (unat r div 2 ^ 7)" by (simp add: bit_iff_odd)
  with \<open>unat r < 128\<close> show False by simp
qed

lemma byte_nonzero_lowest:
  fixes d :: "'a::len word" and t :: u8
  assumes t: "\<And>j. bit t j \<longleftrightarrow> j < 8 \<and> bit d (s + m + j)" and below: "\<forall>j < m. \<not> bit d (s + j)"
    and "t \<noteq> 0" "s + m < 56" "unat r = unat (U_BYTE_LB t) + s + m"
  shows "lob_ok d s r"
proof -
  note L = U_BYTE_LB_nonzero [OF assms(3)]
  have b: "bit d (unat r)" using L(2) t assms(5) by (simp add: ac_simps)
  have "\<not> bit d j" if "s \<le> j" "j < unat r" for j
  proof (cases "j - s < m")
    case True
    then show ?thesis using below that(1) by (metis le_add_diff_inverse)
  next
    case False
    then have "j - s - m < unat (U_BYTE_LB t)" "s + m + (j - s - m) = j" using that assms(5) by auto
    then show ?thesis using L(3) [of "j - s - m"] L(1) t [of "j - s - m"] by auto
  qed
  with b have "is_lowest d s (unat r)" using assms(5) by (auto simp: is_lowest_def)
  moreover have "\<not> bit r 7" using L(1) assms(4,5) by (intro bit7_small) simp
  moreover have "\<exists>k. s \<le> k \<and> bit d k"
    using b assms(5) by (intro exI [of _ "unat r"]) simp
  ultimately show ?thesis by (simp add: lob_ok_def)
qed

lemma byte_zero_below:
  assumes t: "\<And>j. bit (0 :: u8) j \<longleftrightarrow> j < 8 \<and> bit d (s + m + j)" and below: "\<forall>j < m. \<not> bit d (s + j)"
  shows "\<forall>j < m + 8. \<not> bit d (s + j)"
proof (intro allI impI)
  fix j assume "j < m + 8"
  then show "\<not> bit d (s + j)"
    using below t [of "j - m"] by (cases "j < m") auto
qed

lemma unat_LB_sum:
  assumes "t \<noteq> 0" "unat s < 32" "m < 32"
  shows "unat (U_BYTE_LB t + ucast (s :: u32) + of_nat m :: u8) = unat (U_BYTE_LB t) + unat s + m"
  using U_BYTE_LB_nonzero(1) [OF assms(1)] assms(2,3)
  by (simp add: unat_word_ariths unsigned_ucast_eq take_bit_eq_mod unat_of_nat mod_simps)

lemma u32lowestOneBit_ok:
  assumes "startPos < 32"
  shows "\<exists>r. u_misc_u32lowestOneBit d startPos = Inr r \<and> lob_ok d (unat startPos) r"
proof -
  let ?s = "unat startPos"
  let ?t = "\<lambda>m. ucast (drop_bit m (drop_bit ?s d) AND 0xFF) :: u8"
  have s: "?s < 32" using assms by (simp add: word_less_nat_alt)
  have t: "bit (?t m) j \<longleftrightarrow> j < 8 \<and> bit d (?s + m + j)" for m j
    by (simp add: bit_byte bit_drop_bit_eq ac_simps)
  have b0: "\<forall>j < 0. \<not> bit d (?s + j)" by simp
  have b8: "\<forall>j < 8. \<not> bit d (?s + j)" if "?t 0 = 0" using byte_zero_below [OF t [of 0, unfolded that] b0] by simp
  have b16: "\<forall>j < 16. \<not> bit d (?s + j)" if "?t 0 = 0" "?t 8 = 0"
    using byte_zero_below [OF t [of 8, unfolded that(2)] b8 [OF that(1)]] by simp
  have b24: "\<forall>j < 24. \<not> bit d (?s + j)" if "?t 0 = 0" "?t 8 = 0" "?t 16 = 0"
    using byte_zero_below [OF t [of 16, unfolded that(3)] b16 [OF that(1,2)]] by simp
  have b32: "\<forall>j < 32. \<not> bit d (?s + j)" if "?t 0 = 0" "?t 8 = 0" "?t 16 = 0" "?t 24 = 0"
    using byte_zero_below [OF t [of 24, unfolded that(4)] b24 [OF that(1-3)]] by simp
  have none: "lob_ok d ?s 0x80" if "\<forall>j < n. \<not> bit d (?s + j)" "32 - ?s \<le> n" for n
  proof -
    have "\<not> bit d k" if "?s \<le> k" for k
    proof
      assume "bit d k"
      then have "k < 32" using bit_imp_le_length by force
      then have "k - ?s < n" using \<open>32 - ?s \<le> n\<close> that by linarith
      with \<open>\<forall>j < n. \<not> bit d (?s + j)\<close> \<open>bit d k\<close> that show False by (metis le_add_diff_inverse)
    qed
    then show ?thesis by (auto simp: lob_ok_def)
  qed
  have sum: "unat (U_BYTE_LB (?t m) + ucast startPos + of_nat m :: u8) = unat (U_BYTE_LB (?t m)) + ?s + m"
    if "?t m \<noteq> 0" "m < 32" for m
    using that s by (intro unat_LB_sum)
  have hit: "lob_ok d ?s (U_BYTE_LB (?t m) + ucast startPos + of_nat m)"
    if "?t m \<noteq> 0" "m < 25" "\<forall>j < m. \<not> bit d (?s + j)" "m = 0 \<or> ?s + m < 32" for m
    using byte_nonzero_lowest [OF t that(3,1) _ sum] that s by auto
  let ?f = "u_misc_u32lowestOneBit d startPos"
  have lt: "startPos < 24 \<longleftrightarrow> ?s < 24" "startPos < 16 \<longleftrightarrow> ?s < 16" "startPos < 8 \<longleftrightarrow> ?s < 8"
    by (simp_all add: word_less_nat_alt)
  have f: "?f = (if ?t 0 \<noteq> 0 then Inr (U_BYTE_LB (?t 0) + ucast startPos)
      else if ?s < 24 \<and> ?t 8 \<noteq> 0 then Inr (U_BYTE_LB (?t 8) + ucast startPos + 8)
      else if ?s < 16 \<and> ?t 16 \<noteq> 0 then Inr (U_BYTE_LB (?t 16) + ucast startPos + 16)
      else if ?s < 8 \<and> ?t 24 \<noteq> 0 then Inr (U_BYTE_LB (?t 24) + ucast startPos + 24)
      else Inr 0x80)"
    using assms lt by (auto simp: u_misc_u32lowestOneBit_def Let_def)
  consider "?t 0 \<noteq> 0" | "?t 0 = 0" "?s < 24" "?t 8 \<noteq> 0"
    | "?t 0 = 0" "?t 8 = 0" "?s < 16" "?t 16 \<noteq> 0"
    | "?t 0 = 0" "?t 8 = 0" "?t 16 = 0" "?s < 8" "?t 24 \<noteq> 0"
    | "?t 0 = 0" "\<not> ?s < 24" | "?t 0 = 0" "?t 8 = 0" "\<not> ?s < 16"
    | "?t 0 = 0" "?t 8 = 0" "?t 16 = 0" "\<not> ?s < 8"
    | "?t 0 = 0" "?t 8 = 0" "?t 16 = 0" "?t 24 = 0" by blast
  then show ?thesis
  proof cases
    case 1 then show ?thesis using f hit [of 0] by simp
  next
    case 2 then show ?thesis using f hit [of 8] b8 by simp
  next
    case 3 then show ?thesis using f hit [of 16] b16 by simp
  next
    case 4 then show ?thesis using f hit [of 24] b24 by simp
  next
    case 5 then show ?thesis using f none [OF b8] by simp
  next
    case 6 then show ?thesis using f none [OF b16] by simp
  next
    case 7 then show ?thesis using f none [OF b24] by simp
  next
    case 8 then show ?thesis using f none [OF b32] by simp
  qed
qed

lemma u64lowestOneBit_ok:
  assumes "startPos < 64"
  shows "\<exists>r. u_misc_u64lowestOneBit d startPos = Inr r \<and> lob_ok d (unat startPos) r"
proof -
  let ?s = "unat startPos"
  let ?w = "\<lambda>m. ucast (drop_bit m (drop_bit ?s d) AND 0xFFFFFFFF) :: u32"
  have s: "?s < 64" using assms by (simp add: word_less_nat_alt)
  have ff: "bit (0xFFFFFFFF :: int) j \<longleftrightarrow> j < 32" for j
  proof -
    have "(0xFFFFFFFF :: int) = mask 32" by (simp add: mask_eq_exp_minus_1)
    then show ?thesis by (simp only: bit_mask_iff possible_bit_int simp_thms)
  qed
  have w: "bit (?w m) j \<longleftrightarrow> j < 32 \<and> bit d (?s + m + j)" for m j
    using bit_imp_le_length [of d "?s + m + j"]
    by (auto simp: bit_ucast_iff bit_and_iff bit_drop_bit_eq ff ac_simps)
  have us: "unat (ucast startPos :: u8) = ?s"
    using s by (simp add: unsigned_ucast_eq take_bit_eq_mod)
  have hit: "\<exists>r. map_sum id (\<lambda>r. r + ucast startPos + of_nat m) (u_misc_u32lowestOneBit (?w m) 0) = Inr r \<and> lob_ok d ?s r"
    if nz: "?w m \<noteq> 0" and m: "?s + m < 64" and below: "\<forall>j < m. \<not> bit d (?s + j)" for m
  proof -
    obtain r where r: "u_misc_u32lowestOneBit (?w m) 0 = Inr r" "lob_ok (?w m) 0 r"
      using u32lowestOneBit_ok [of 0 "?w m"] by auto
    have "\<exists>k. bit (?w m) k"
    proof (rule ccontr)
      assume "\<nexists>k. bit (?w m) k"
      then have "?w m = 0" by (intro bit_word_eqI) simp
      with nz show False by contradiction
    qed
    then obtain k where "bit (?w m) k" ..
    then have L: "is_lowest (?w m) 0 (unat r)" using r(2) by (auto simp: lob_ok_def split: if_splits)
    then have r32: "unat r < 32" and b: "bit d (?s + m + unat r)" using w by (auto simp: is_lowest_def)
    have u: "unat (r + ucast startPos + of_nat m) = unat r + ?s + m"
    proof -
      have m8: "unat (of_nat m :: u8) = m" using m by (simp add: unat_of_nat)
      have "unat (r + ucast startPos) = unat r + ?s" using r32 m us by (subst unat_add_u8) simp_all
      then show ?thesis using r32 m m8 by (subst unat_add_u8) simp_all
    qed
    have "\<not> bit d j" if "?s \<le> j" "j < ?s + m + unat r" for j
    proof (cases "j - ?s < m")
      case True
      then show ?thesis using below that(1) by (metis le_add_diff_inverse)
    next
      case False
      then have "j - ?s - m < unat r" "?s + m + (j - ?s - m) = j" using that by auto
      then show ?thesis using L w [of m "j - ?s - m"] r32 by (auto simp: is_lowest_def)
    qed
    then have "is_lowest d ?s (?s + m + unat r)" using b by (auto simp: is_lowest_def)
    then have low: "is_lowest d ?s (unat (r + ucast startPos + of_nat m))" unfolding u by (simp only: ac_simps)
    have small: "\<not> bit (r + ucast startPos + of_nat m) 7"
      using u r32 m by (intro bit7_small) simp
    have "\<exists>k. ?s \<le> k \<and> bit d k" using b by (intro exI [of _ "?s + m + unat r"]) simp
    then have "lob_ok d ?s (r + ucast startPos + of_nat m)"
      unfolding lob_ok_def using low small by (simp only: simp_thms if_True)
    then show ?thesis unfolding r(1) by (simp only: map_sum.simps sum.inject ex_simps simp_thms)
  qed
  have zero: "\<not> bit d (?s + m + j)" if "?w m = 0" "j < 32" for m j
    using w [of m j] that by simp
  have lt: "startPos < 32 \<longleftrightarrow> ?s < 32" by (simp add: word_less_nat_alt)
  have f: "u_misc_u64lowestOneBit d startPos =
      (if ?w 0 \<noteq> 0 then map_sum id (\<lambda>r. r + ucast startPos) (u_misc_u32lowestOneBit (?w 0) 0)
       else if ?s < 32 \<and> ?w 32 \<noteq> 0
         then map_sum id (\<lambda>r. r + ucast startPos + 32) (u_misc_u32lowestOneBit (?w 32) 0)
       else Inr 0x80)"
    using assms lt by (simp add: u_misc_u64lowestOneBit_def Let_def)
  consider "?w 0 \<noteq> 0" | "?w 0 = 0" "?s < 32" "?w 32 \<noteq> 0" | "?w 0 = 0" "\<not> (?s < 32 \<and> ?w 32 \<noteq> 0)" by blast
  then show ?thesis
  proof cases
    case 1 then show ?thesis using f hit [of 0] s by simp
  next
    case 2
    have "\<forall>j < 32. \<not> bit d (?s + j)" using zero [OF 2(1)] by simp
    then show ?thesis using 2 f hit [of 32] by simp
  next
    case 3
    have "\<not> bit d k" if "?s \<le> k" for k
    proof
      assume b: "bit d k"
      then have "k < 64" using bit_imp_le_length by force
      then show False
        using b that zero [OF 3(1), of "k - ?s"] 3(2) zero [of 32 "k - ?s - 32"]
        by (cases "k - ?s < 32"; cases "k - ?s - 32 < 32") auto
    qed
    with 3 show ?thesis using f by (auto simp: lob_ok_def)
  qed
qed

lemma u8lowestOneBit_ok:
  assumes "startPos < 8"
  shows "\<exists>r. u_misc_u8lowestOneBit d startPos = Inr r \<and> lob_ok d (unat startPos) r"
proof -
  let ?s = "unat startPos" and ?t = "drop_bit (unat startPos) d"
  have s: "?s < 8" using assms by (simp add: word_less_nat_alt)
  have t: "bit ?t j \<longleftrightarrow> j < 8 \<and> bit d (?s + 0 + j)" for j
    using bit_imp_le_length [of d "?s + j"] by (auto simp: bit_drop_bit_eq)
  show ?thesis
  proof (cases "?t = 0")
    case True
    have nb: "\<not> bit d k" if "?s \<le> k" for k
      using t [of "k - ?s"] True that bit_imp_le_length [of d k] by auto
    have u: "unat (0x80 + ucast startPos :: u8) = 128 + ?s"
      using s by (simp add: unat_word_ariths unsigned_ucast_eq take_bit_eq_mod)
    have "(128 + ?s) div 128 = 1" using s by (intro div_nat_eqI) simp_all
    then have "bit (unat (0x80 + ucast startPos :: u8)) 7" unfolding u bit_iff_odd by simp
    then have "bit (0x80 + ucast startPos :: u8) 7" by (simp add: bit_unsigned_iff)
    with nb show ?thesis using assms True by (auto simp: u_misc_u8lowestOneBit_def lob_ok_def U_BYTE_LB_0)
  next
    case False
    show ?thesis
      using byte_nonzero_lowest [OF t _ False, of "U_BYTE_LB ?t + ucast startPos"] s assms
        unat_LB_sum [OF False, of startPos 0]
      by (simp add: u_misc_u8lowestOneBit_def)
  qed
qed

text \<open>
  The lowest-bit searches find the lowest one bit at or above the start position, and flag
  the overflow exactly when there is none, for 8-, 32- and 64-bit arguments.
\<close>

theorem u_misc_lowestOneBit_correct:
  "(p < 8 \<longrightarrow> (\<exists>r. u_misc_u8lowestOneBit a p = Inr r \<and> lob_ok a (unat p) r)) \<and>
   (q < 32 \<longrightarrow> (\<exists>r. u_misc_u32lowestOneBit b q = Inr r \<and> lob_ok b (unat q) r)) \<and>
   (s < 64 \<longrightarrow> (\<exists>r. u_misc_u64lowestOneBit c s = Inr r \<and> lob_ok c (unat s) r))"
  using u8lowestOneBit_ok u32lowestOneBit_ok u64lowestOneBit_ok by blast

section \<open>Pseudo-random arrays\<close>

text \<open>The byte sequence of a seed.\<close>

fun pr_seq :: "nat \<Rightarrow> u16 \<Rightarrow> u8 list" where
  "pr_seq 0 v = []"
| "pr_seq (Suc 0) v = [val_l v]"
| "pr_seq (Suc (Suc n)) v = val_l v # val_h v # pr_seq n (u_misc_pr_random v)"

lemma length_pr_seq [simp]: "length (pr_seq n v) = n"
  by (induction n v rule: pr_seq.induct) auto

definition agree_len :: "u8 list \<Rightarrow> u8 list \<Rightarrow> nat" where
  "agree_len xs ys = length (takeWhile (\<lambda>(a, b). a = b) (zip xs ys))"

fun pr_tail :: "nat \<Rightarrow> u16 \<Rightarrow> u16" where
  "pr_tail 0 v = v"
| "pr_tail (Suc k) v = pr_tail k (u_misc_pr_random v)"

lemma pr_seq_odd: "pr_seq (Suc (2 * k)) v = pr_seq (2 * k) v @ [val_l (pr_tail k v)]"
  by (induction k arbitrary: v) simp_all

lemma list_update_split: "i < length xs \<Longrightarrow> xs[i := a] = take i xs @ a # drop (Suc i) xs"
  by (rule upd_conv_take_nth_drop)

lemma pr_gen_loop_ok:
  assumes "idx + 2 * k \<le> length buf"
  shows "pr_gen_loop k idx v buf =
     Inr (pr_tail k v, idx + 2 * k, take idx buf @ pr_seq (2 * k) v @ drop (idx + 2 * k) buf)"
  using assms
proof (induction k arbitrary: idx v buf)
  case (Suc k)
  have "take (idx + 2) (buf[idx := val_l v, Suc idx := val_h v]) = take idx buf @ [val_l v, val_h v]"
    using Suc.prems by (simp add: list_update_split take_Suc_conv_app_nth nth_append)
  then show ?case
    using Suc.prems by (simp add: access Suc.IH)
qed simp

lemma agree_len_simps [simp]:
  "agree_len [] ys = 0"
  "agree_len (x # xs) (y # ys) = (if x = y then Suc (agree_len xs ys) else 0)"
  by (simp_all add: agree_len_def)

lemma pr_verify_loop_ok:
  assumes "idx + 2 * k \<le> length buf"
  shows "pr_verify_loop k idx v buf =
     (let a = agree_len (pr_seq (2 * k) v) (drop idx buf) in
      if a = 2 * k then Inr (Inr (pr_tail k v, idx + 2 * k)) else Inr (Inl (idx + a)))"
  using assms
proof (induction k arbitrary: idx v)
  case (Suc k)
  have d: "drop idx buf = buf ! idx # buf ! Suc idx # drop (idx + 2) buf"
    using Suc.prems by (simp add: Cons_nth_drop_Suc)
  show ?case
    using Suc.prems Suc.IH [of "idx + 2" "u_misc_pr_random v"] by (auto simp: access d Let_def)
qed simp

lemma agree_len_snoc:
  "length xs < length ys \<Longrightarrow> agree_len (xs @ [x]) ys =
     (if agree_len xs ys = length xs then (if x = ys ! length xs then Suc (length xs) else length xs)
      else agree_len xs ys)"
proof (induction xs arbitrary: ys)
  case Nil
  then show ?case by (cases ys) auto
next
  case (Cons a xs)
  then show ?case by (cases ys) auto
qed

lemma agree_len_le: "agree_len xs ys \<le> length xs"
  by (metis agree_len_def length_takeWhile_le length_zip min.cobounded1 order_trans)

lemma verifyRandArray_ok:
  assumes "unat sz \<le> length buf"
  shows "u_misc_pr_verifyRandArray seed buf sz = Inr (of_nat (agree_len (pr_seq (unat sz) seed) buf))"
proof -
  define k where "k = unat sz div 2"
  let ?a = "agree_len (pr_seq (2 * k) seed) buf"
  have k2: "2 * k \<le> length buf" "unat sz = 2 * k + unat sz mod 2" using assms by (simp_all add: k_def)
  have L: "pr_verify_loop k 0 seed buf = (if ?a = 2 * k then Inr (Inr (pr_tail k seed, 2 * k)) else Inr (Inl ?a))"
    using pr_verify_loop_ok [of 0 k buf seed] k2 by (simp add: Let_def)
  show ?thesis
  proof (cases "unat sz mod 2 = 0")
    case True
    then have "unat sz = 2 * k" using k2 by simp
    moreover from this have "sz = of_nat (2 * k)" by (metis of_nat_unat ucast_id)
    ultimately show ?thesis using L True by (auto simp: u_misc_pr_verifyRandArray_def simp flip: k_def)
  next
    case False
    then have sz: "unat sz = Suc (2 * k)" using k2 by (simp add: mod2_eq_if split: if_splits)
    have szw: "sz = of_nat (Suc (2 * k))" using sz by (metis of_nat_unat ucast_id)
    then have "sz - 1 = of_nat (2 * k)" by simp
    then show ?thesis
      using L False sz szw assms agree_len_snoc [of "pr_seq (2 * k) seed" buf "val_l (pr_tail k seed)"]
      by (auto simp: u_misc_pr_verifyRandArray_def pr_seq_odd access simp flip: k_def)
  qed
qed

lemma genRandArray_ok:
  assumes "unat sz \<le> length buf"
  shows "u_misc_pr_genRandArray seed buf sz = Inr (pr_seq (unat sz) seed @ drop (unat sz) buf)"
proof -
  define k where "k = unat sz div 2"
  have k2: "2 * k \<le> length buf" "unat sz = 2 * k + unat sz mod 2" using assms by (simp_all add: k_def)
  have L: "pr_gen_loop k 0 seed buf = Inr (pr_tail k seed, 2 * k, pr_seq (2 * k) seed @ drop (2 * k) buf)"
    using pr_gen_loop_ok [of 0 k buf seed] k2 by simp
  show ?thesis
  proof (cases "unat sz mod 2 = 0")
    case True
    then have "unat sz = 2 * k" using k2 by simp
    then show ?thesis using L True by (simp add: u_misc_pr_genRandArray_def flip: k_def)
  next
    case False
    then have sz: "unat sz = Suc (2 * k)" using k2 by (simp add: mod2_eq_if split: if_splits)
    then have "drop (2 * k) buf = buf ! (2 * k) # drop (Suc (2 * k)) buf" using assms by (simp add: Cons_nth_drop_Suc)
    then show ?thesis
      using L False sz assms
      by (simp add: u_misc_pr_genRandArray_def pr_seq_odd access list_update_append flip: k_def)
  qed
qed

text \<open>
  The pseudo-random array check is exact: on any buffer \<open>u_misc_pr_verifyRandArray\<close> returns
  the index of the first byte that differs from the seed's sequence and the size if there is
  none; so it accepts what \<open>u_misc_pr_genRandArray\<close> wrote with the same seed.
\<close>

theorem u_misc_pr_verify_exact:
  assumes "unat sz \<le> length buf"
  shows "u_misc_pr_verifyRandArray seed buf sz = Inr (of_nat (agree_len (pr_seq (unat sz) seed) buf)) \<and>
     (\<exists>buf'. u_misc_pr_genRandArray seed buf sz = Inr buf' \<and> length buf' = length buf \<and>
        u_misc_pr_verifyRandArray seed buf' sz = Inr sz)"
proof -
  let ?b = "pr_seq (unat sz) seed @ drop (unat sz) buf"
  have "agree_len xs (xs @ ys) = length xs" for xs ys by (induction xs) simp_all
  then have "agree_len (pr_seq (unat sz) seed) ?b = unat sz" by (metis length_pr_seq)
  then show ?thesis
    using assms verifyRandArray_ok [of sz buf seed] verifyRandArray_ok [of sz ?b seed]
      genRandArray_ok [of sz buf seed] by simp
qed

end
