(* ===== verification/Time.thy ===== *)
theory Time
  imports Prelude
begin

text \<open>
  Calendar conversions of \<open>src/utilities/u_time.c\<close>: seconds since 1970 to a date in the time zone
  UTC+8 and back. All sums are 32-bit and wrap as in C.
\<close>

section \<open>Definitions\<close>

definition UNIX_EPOCH_YEAR :: u16 where "UNIX_EPOCH_YEAR = 1970"
definition SECONDS_PER_MIN :: u32 where "SECONDS_PER_MIN = 60"
definition SECONDS_PER_HOUR :: u32 where "SECONDS_PER_HOUR = 60 * 60"
definition SECONDS_PER_DAY :: u32 where "SECONDS_PER_DAY = 24 * (60 * 60)"
definition SECONDS_PER_YEAR :: u32 where "SECONDS_PER_YEAR = 365 * (24 * (60 * 60))"
definition SECONDS_IN_LEAP_YEAR :: u32 where "SECONDS_IN_LEAP_YEAR = 365 * (24 * (60 * 60)) + 24 * (60 * 60)"
definition THE_LEAP_MONTH :: u8 where "THE_LEAP_MONTH = 2"

lemmas second_units = SECONDS_PER_MIN_def SECONDS_PER_HOUR_def SECONDS_PER_DAY_def SECONDS_PER_YEAR_def
  SECONDS_IN_LEAP_YEAR_def

definition IS_LEAP_YEAR :: "u16 \<Rightarrow> bool" where
  "IS_LEAP_YEAR y \<longleftrightarrow> (y AND 3 = 0 \<and> y mod 100 \<noteq> 0) \<or> y mod 400 = 0"

record rtc_timestamp =
  u16year :: u16
  u8mon :: u8
  u8day :: u8
  u8hrs :: u8
  u8min :: u8
  u8sec :: u8

definition s_days_per_month :: "u8 list" where
  "s_days_per_month = [31, 28, 31, 30, 31, 30, 31, 31, 30, 31, 30, 31]"

definition year_seconds :: "u16 \<Rightarrow> u32" where
  "year_seconds y = (if IS_LEAP_YEAR y then SECONDS_IN_LEAP_YEAR else SECONDS_PER_YEAR)"

function year_loop :: "u16 \<Rightarrow> u32 \<Rightarrow> u16 \<times> u32" where
  "year_loop y rest =
     (if rest \<noteq> 0 \<and> year_seconds y \<le> rest then year_loop (y + 1) (rest - year_seconds y) else (y, rest))"
  by pat_completeness auto
termination
proof (relation "measure (\<lambda>(y, rest). unat rest)")
  fix y rest
  assume "rest \<noteq> 0 \<and> year_seconds y \<le> rest"
  moreover have "0 < unat (year_seconds y)" by (simp add: year_seconds_def second_units)
  ultimately have "unat (rest - year_seconds y) < unat rest"
    by (metis diff_less less_le_trans unat_sub word_le_nat_alt)
  then show "((y + 1, rest - year_seconds y), y, rest) \<in> measure (\<lambda>(y, rest). unat rest)" by simp
qed simp

declare year_loop.simps [simp del]

definition month_seconds :: "u8 \<Rightarrow> u32" where
  "month_seconds d = ucast d * SECONDS_PER_DAY"

text \<open>The loop over the months; one unit of fuel per month, thirteen are enough.\<close>

fun month_loop :: "nat \<Rightarrow> u8 \<Rightarrow> u32 \<Rightarrow> (u8 \<times> u32) res" where
  "month_loop 0 mon rest = Inl Diverges"
| "month_loop (Suc fuel) mon rest =
     (case ld s_days_per_month (unat (mon - 1)) of
        Inl e \<Rightarrow> Inl e
      | Inr d \<Rightarrow>
          if month_seconds d \<le> rest then month_loop fuel (mon + 1) (rest - month_seconds d)
          else Inr (mon, rest))"

definition feb_seconds :: "u16 \<Rightarrow> u32" where
  "feb_seconds y = (ucast (s_days_per_month ! 1) + (if IS_LEAP_YEAR y then 1 else 0)) * SECONDS_PER_DAY"

text \<open>The two separate tests for January and February.\<close>

definition jan_step :: "u8 \<times> u32 \<Rightarrow> u8 \<times> u32" where
  "jan_step x = (case x of (mon, rest) \<Rightarrow>
     if month_seconds (s_days_per_month ! 0) \<le> rest
     then (mon + 1, rest - month_seconds (s_days_per_month ! 0)) else (mon, rest))"

definition feb_step :: "u16 \<Rightarrow> u8 \<times> u32 \<Rightarrow> u8 \<times> u32" where
  "feb_step y x = (case x of (mon, rest) \<Rightarrow>
     if feb_seconds y \<le> rest then (mon + 1, rest - feb_seconds y) else (mon, rest))"

definition u_time_unix2rtc :: "u32 \<Rightarrow> rtc_timestamp res" where
  "u_time_unix2rtc ts =
     (case year_loop UNIX_EPOCH_YEAR (ts + 8 * SECONDS_PER_HOUR) of
        (y, rest0) \<Rightarrow>
          (case feb_step y (jan_step (1, rest0)) of
             (mon2, rest2) \<Rightarrow>
               (case month_loop 13 mon2 rest2 of
                  Inl e \<Rightarrow> Inl e
                | Inr (mon, rest) \<Rightarrow>
                    let r1 = rest mod SECONDS_PER_DAY; r2 = r1 mod SECONDS_PER_HOUR in
                    Inr \<lparr>u16year = y, u8mon = mon, u8day = 1 + ucast (rest div SECONDS_PER_DAY),
                         u8hrs = ucast (r1 div SECONDS_PER_HOUR), u8min = ucast (r2 div SECONDS_PER_MIN),
                         u8sec = ucast (r2 mod SECONDS_PER_MIN)\<rparr>)))"

text \<open>The sums of \<open>u_time_rtc2unix\<close>, over years and over months.\<close>

function sum_years :: "u16 \<Rightarrow> u16 \<Rightarrow> u32 \<Rightarrow> u32" where
  "sum_years y stop ts = (if y < stop then sum_years (y + 1) stop (ts + year_seconds y) else ts)"
  by pat_completeness auto
termination
  by (relation "measure (\<lambda>(y, stop, ts). unat (stop - y))") (auto intro: word_count_down)

function sum_months :: "u8 \<Rightarrow> u8 \<Rightarrow> u32 \<Rightarrow> u32 res" where
  "sum_months m stop ts =
     (if m < stop then
        (case ld s_days_per_month (unat (m - 1)) of
           Inl e \<Rightarrow> Inl e
         | Inr d \<Rightarrow> sum_months (m + 1) stop (ts + month_seconds d))
      else Inr ts)"
  by pat_completeness auto
termination
  by (relation "measure (\<lambda>(m, stop, ts). unat (stop - m))") (auto intro: word_count_down)

declare sum_years.simps [simp del] sum_months.simps [simp del]

definition u_time_rtc2unix :: "rtc_timestamp \<Rightarrow> u32 res" where
  "u_time_rtc2unix rtc =
     (let ts0 = sum_years UNIX_EPOCH_YEAR (u16year rtc) 0;
          ts1 = (if IS_LEAP_YEAR (u16year rtc) \<and> THE_LEAP_MONTH < u8mon rtc then ts0 + SECONDS_PER_DAY else ts0)
      in case sum_months 1 (u8mon rtc) ts1 of
           Inl e \<Rightarrow> Inl e
         | Inr ts2 \<Rightarrow>
             Inr (ts2 + (ucast (u8day rtc) - 1) * SECONDS_PER_DAY + ucast (u8hrs rtc) * SECONDS_PER_HOUR +
                  ucast (u8min rtc) * SECONDS_PER_MIN + ucast (u8sec rtc) - 8 * SECONDS_PER_HOUR))"

text \<open>The formatted text of a date, \<open>"%04d-%02d-%02d %02d:%02d:%02d"\<close>.\<close>

fun dec :: "nat \<Rightarrow> string" where
  "dec n = (if n < 10 then [char_of (48 + n)] else dec (n div 10) @ [char_of (48 + n mod 10)])"

declare dec.simps [simp del]

definition zero_pad :: "nat \<Rightarrow> nat \<Rightarrow> string" where
  "zero_pad w n = replicate (w - length (dec n)) (CHR ''0'') @ dec n"

definition u_time_rtc2str :: "rtc_timestamp \<Rightarrow> string" where
  "u_time_rtc2str rtc =
     zero_pad 4 (unat (u16year rtc)) @ ''-'' @ zero_pad 2 (unat (u8mon rtc)) @ ''-'' @
     zero_pad 2 (unat (u8day rtc)) @ '' '' @ zero_pad 2 (unat (u8hrs rtc)) @ '':'' @
     zero_pad 2 (unat (u8min rtc)) @ '':'' @ zero_pad 2 (unat (u8sec rtc))"

definition u_time_unix2str :: "u32 \<Rightarrow> string res" where
  "u_time_unix2str ts = map_sum id u_time_rtc2str (u_time_unix2rtc ts)"

section \<open>Years\<close>

lemma year_seconds_nat: "unat (year_seconds y) = (if IS_LEAP_YEAR y then 31622400 else 31536000)"
  by (simp add: year_seconds_def second_units)

text \<open>
  The years subtracted by the first loop are the years summed by the second: the total is kept,
  and what is left is less than a year.
\<close>

lemma year_loop_ok:
  "year_loop y rest = (y', rest') \<Longrightarrow> unat y + unat rest div 31536000 < 65536 \<Longrightarrow>
     y \<le> y' \<and> (\<forall>ts. sum_years y y' ts + rest' = ts + rest) \<and> unat rest' < unat (year_seconds y')"
proof (induction y rest rule: year_loop.induct)
  case (1 y rest)
  show ?case
  proof (cases "rest \<noteq> 0 \<and> year_seconds y \<le> rest")
    case True
    have le: "unat (year_seconds y) \<le> unat rest" using True by (simp add: word_le_nat_alt)
    have sub: "unat (rest - year_seconds y) = unat rest - unat (year_seconds y)"
      using True by (simp add: unat_sub)
    have big: "31536000 \<le> unat (year_seconds y)" by (simp add: year_seconds_nat)
    have ge1: "unat rest div 31536000 \<ge> 1" using le big by (simp add: Suc_le_eq div_greater_zero_iff)
    then have y: "unat (y + 1) = unat y + 1"
      using "1.prems"(2) by (simp add: unat_word_ariths)
    have "(unat rest - unat (year_seconds y)) div 31536000 \<le> (unat rest - 31536000) div 31536000"
      using big by (intro div_le_mono) simp
    also have "\<dots> = unat rest div 31536000 - 1" using le big by (simp add: le_div_geq)
    finally have P: "unat (y + 1) + unat (rest - year_seconds y) div 31536000 < 65536"
      using "1.prems"(2) y sub ge1 by simp
    have Y: "year_loop (y + 1) (rest - year_seconds y) = (y', rest')"
      using "1.prems"(1) True by (simp add: year_loop.simps [of y rest])
    note IH = "1.IH" [OF True Y P]
    have lt: "y < y'" using IH y by (simp add: word_less_nat_alt word_le_nat_alt)
    then have "sum_years y y' ts = sum_years (y + 1) y' (ts + year_seconds y)" for ts
      by (simp add: sum_years.simps [of y])
    then show ?thesis using IH lt by simp
  next
    case False
    have "0 < unat (year_seconds y)" by (simp add: year_seconds_nat)
    then show ?thesis
      using False "1.prems"(1)
      by (auto simp: year_loop.simps [of y rest] sum_years.simps [of y] word_le_nat_alt)
  qed
qed

section \<open>Months\<close>

abbreviation dpm :: "nat list" where
  "dpm \<equiv> map unat s_days_per_month"

lemma dpm: "dpm = [31, 28, 31, 30, 31, 30, 31, 31, 30, 31, 30, 31]"
  by (simp add: s_days_per_month_def)

lemma length_days [simp]: "length s_days_per_month = 12"
  by (simp add: s_days_per_month_def)

lemma month_seconds_nat: "unat (month_seconds d) = unat d * 86400"
proof -
  have "unat d * 86400 < 2 ^ 32" using unsigned_less [of d, where ?'a = nat] by simp
  then show ?thesis
    by (simp add: month_seconds_def second_units unat_word_ariths unsigned_ucast_eq take_bit_eq_mod)
qed

lemma month_loop_ok:
  "1 \<le> unat m \<Longrightarrow> unat m \<le> 12 \<Longrightarrow> 12 < fuel + unat m \<Longrightarrow>
   unat rest < 86400 * sum_list (drop (unat m - 1) dpm) \<Longrightarrow>
     \<exists>m' rest'. month_loop fuel m rest = Inr (m', rest') \<and> m \<le> m' \<and> unat m' \<le> 12 \<and>
       unat rest' < 86400 * dpm ! (unat m' - 1) \<and>
       (\<forall>ts. \<exists>x. sum_months m m' ts = Inr x \<and> x + rest' = ts + rest)"
proof (induction fuel m rest rule: month_loop.induct)
  case (2 fuel m rest)
  let ?d = "s_days_per_month ! (unat m - 1)"
  have m1: "unat (m - 1) = unat m - 1" using 2(2) by (simp add: unat_sub word_le_nat_alt)
  have d: "ld s_days_per_month (unat (m - 1)) = Inr ?d" using 2(2,3) m1 by (simp add: access)
  have S: "sum_list (drop (unat m - 1) dpm) = unat ?d + sum_list (drop (unat m) dpm)"
    using 2(2,3) Cons_nth_drop_Suc [of "unat m - 1" dpm] by (metis (no_types, lifting) One_nat_def Suc_pred
        length_days length_map less_eq_Suc_le nth_map sum_list.Cons Suc_le_lessD le_imp_less_Suc)
  show ?case
  proof (cases "month_seconds ?d \<le> rest")
    case True
    have sub: "unat (rest - month_seconds ?d) = unat rest - unat ?d * 86400"
      using True by (simp add: unat_sub month_seconds_nat)
    have "unat ?d * 86400 \<le> unat rest" using True by (simp add: word_le_nat_alt month_seconds_nat)
    have lt: "unat m < 12"
    proof (rule ccontr)
      assume "\<not> unat m < 12"
      then have "drop (unat m) dpm = []" by simp
      then show False using 2(5) S \<open>unat ?d * 86400 \<le> unat rest\<close> by simp
    qed
    have mp: "unat (m + 1) = unat m + 1" using lt by (simp add: unat_word_ariths)
    have pre: "1 \<le> unat (m + 1)" "unat (m + 1) \<le> 12" "12 < fuel + unat (m + 1)" using mp lt 2(4) by simp_all
    have "unat (rest - month_seconds ?d) < 86400 * sum_list (drop (unat m) dpm)"
      using 2(5) \<open>unat ?d * 86400 \<le> unat rest\<close> unfolding sub S by simp
    then have "unat (rest - month_seconds ?d) < 86400 * sum_list (drop (unat (m + 1) - 1) dpm)"
      unfolding mp by simp
    from 2(1) [OF d True pre this] obtain m' rest' where IH: "month_loop fuel (m + 1) (rest - month_seconds ?d) = Inr (m', rest')" "m + 1 \<le> m'"
      "unat m' \<le> 12" "unat rest' < 86400 * dpm ! (unat m' - 1)"
      "\<forall>ts. \<exists>x. sum_months (m + 1) m' ts = Inr x \<and> x + rest' = ts + (rest - month_seconds ?d)"
      by blast
    have lt': "m < m'" using IH(2) mp by (simp add: word_less_nat_alt word_le_nat_alt)
    have "\<exists>x. sum_months m m' ts = Inr x \<and> x + rest' = ts + rest" for ts
      using IH(5) [THEN spec, of "ts + month_seconds ?d"] d lt' by (simp add: sum_months.simps [of m])
    then show ?thesis using IH lt' d True by auto
  next
    case False
    have "unat rest < 86400 * dpm ! (unat m - 1)"
      using False 2(2,3) by (simp add: word_le_nat_alt month_seconds_nat)
    then show ?thesis using False d 2(3) by (auto simp: sum_months.simps [of m m])
  qed
qed simp

section \<open>Time of day\<close>

lemma unat_ucast_small: "unat (x :: u32) < 256 \<Longrightarrow> unat (ucast x :: u8) = unat x"
  by (simp add: unsigned_ucast_eq take_bit_eq_mod)

lemma ucast_back: "unat (x :: u32) < 256 \<Longrightarrow> (ucast (ucast x :: u8) :: u32) = x"
  by (simp add: word_unat_eq_iff unsigned_ucast_eq take_bit_eq_mod unat_mod)

lemma word_div_mod: "(x div y) * y + x mod y = (x :: u32)"
  by (metis div_mult_mod_eq)

text \<open>The fields of a day less than 255 days long, put together again.\<close>

lemma day_fields:
  fixes rest :: u32
  assumes "unat rest < 86400 * 31"
  defines "r1 \<equiv> rest mod SECONDS_PER_DAY" and "r2 \<equiv> rest mod SECONDS_PER_DAY mod SECONDS_PER_HOUR"
  shows "(ucast (1 + ucast (rest div SECONDS_PER_DAY) :: u8) - 1) * SECONDS_PER_DAY +
       ucast (ucast (r1 div SECONDS_PER_HOUR) :: u8) * SECONDS_PER_HOUR +
       ucast (ucast (r2 div SECONDS_PER_MIN) :: u8) * SECONDS_PER_MIN +
       ucast (ucast (r2 mod SECONDS_PER_MIN) :: u8) = rest"
    and "unat (1 + ucast (rest div SECONDS_PER_DAY) :: u8) = 1 + unat rest div 86400"
    and "unat (ucast (r1 div SECONDS_PER_HOUR) :: u8) < 24"
    and "unat (ucast (r2 div SECONDS_PER_MIN) :: u8) < 60"
    and "unat (ucast (r2 mod SECONDS_PER_MIN) :: u8) < 60"
proof -
  have u: "unat SECONDS_PER_DAY = 86400" "unat SECONDS_PER_HOUR = 3600" "unat SECONDS_PER_MIN = 60"
    by (simp_all add: second_units)
  have d: "unat (rest div SECONDS_PER_DAY) = unat rest div 86400" by (simp add: unat_div u)
  have d31: "unat rest div 86400 < 31" using assms(1) by (simp add: div_less_iff_less_mult mult.commute)
  have r1: "unat r1 = unat rest mod 86400" "unat r2 = unat rest mod 86400 mod 3600"
    by (simp_all add: r1_def r2_def unat_mod u)
  have h: "unat (r1 div SECONDS_PER_HOUR) < 24" by (simp add: unat_div u r1 div_less_iff_less_mult)
  have mi: "unat (r2 div SECONDS_PER_MIN) < 60" by (simp add: unat_div u r1 div_less_iff_less_mult)
  have se: "unat (r2 mod SECONDS_PER_MIN) < 60" by (simp add: unat_mod u)
  have "unat (ucast (rest div SECONDS_PER_DAY) :: u8) = unat rest div 86400"
    using d31 d by (subst unat_ucast_small) simp_all
  then show day: "unat (1 + ucast (rest div SECONDS_PER_DAY) :: u8) = 1 + unat rest div 86400"
    using d31 by (simp add: unat_word_ariths)
  show "unat (ucast (r1 div SECONDS_PER_HOUR) :: u8) < 24" "unat (ucast (r2 div SECONDS_PER_MIN) :: u8) < 60"
    "unat (ucast (r2 mod SECONDS_PER_MIN) :: u8) < 60"
    using h mi se by (simp_all add: unat_ucast_small)
  have "ucast (1 + ucast (rest div SECONDS_PER_DAY) :: u8) = 1 + (rest div SECONDS_PER_DAY)"
    using day d31 d by (simp add: word_unat_eq_iff unsigned_ucast_eq take_bit_eq_mod unat_word_ariths)
  then show "(ucast (1 + ucast (rest div SECONDS_PER_DAY) :: u8) - 1) * SECONDS_PER_DAY +
       ucast (ucast (r1 div SECONDS_PER_HOUR) :: u8) * SECONDS_PER_HOUR +
       ucast (ucast (r2 div SECONDS_PER_MIN) :: u8) * SECONDS_PER_MIN +
       ucast (ucast (r2 mod SECONDS_PER_MIN) :: u8) = rest"
    using h mi se word_div_mod [of rest SECONDS_PER_DAY] word_div_mod [of r1 SECONDS_PER_HOUR]
      word_div_mod [of r2 SECONDS_PER_MIN]
    by (simp add: ucast_back r1_def r2_def add.assoc)
qed

section \<open>January and February\<close>

definition leap_days :: "u16 \<Rightarrow> nat" where
  "leap_days y = (if IS_LEAP_YEAR y then 1 else 0)"

lemma feb_seconds_nat: "unat (feb_seconds y) = (28 + leap_days y) * 86400"
  by (simp add: feb_seconds_def second_units leap_days_def s_days_per_month_def)

lemma jan_seconds_nat: "unat (month_seconds (s_days_per_month ! 0)) = 31 * 86400"
  by (simp add: month_seconds_nat s_days_per_month_def)

text \<open>
  The part of the year in which the two tests go wrong: the last days of January, which are at
  least as many days into the year as February is long, and the 29th of February.
\<close>

definition misdated :: "u16 \<Rightarrow> u32 \<Rightarrow> bool" where
  "misdated y rest \<longleftrightarrow>
     ((28 + leap_days y) * 86400 \<le> unat rest \<and> unat rest < 31 * 86400) \<or>
     (IS_LEAP_YEAR y \<and> 59 * 86400 \<le> unat rest \<and> unat rest < 60 * 86400)"

definition months_of :: "u16 \<Rightarrow> u32 \<Rightarrow> (u8 \<times> u32) res" where
  "months_of y rest = (case feb_step y (jan_step (1, rest)) of (m, r) \<Rightarrow> month_loop 13 m r)"

lemma month_loop_stop:
  "1 \<le> unat m \<Longrightarrow> unat m \<le> 12 \<Longrightarrow> unat rest < 86400 * dpm ! (unat m - 1) \<Longrightarrow> month_loop 13 m rest = Inr (m, rest)"
  using month_loop.simps(2) [of 12 m rest]
  by (auto simp: access unat_sub word_le_nat_alt month_seconds_nat)

lemma sum_months_step:
  assumes "m < stop" "unat m \<ge> 1" "unat m \<le> 12"
  shows "sum_months m stop ts = sum_months (m + 1) stop (ts + month_seconds (s_days_per_month ! (unat m - 1)))"
  using assms by (simp add: sum_months.simps [of m] access unat_sub word_le_nat_alt)

definition dim :: "u16 \<Rightarrow> nat \<Rightarrow> nat" where
  "dim y m = dpm ! (m - 1) + (if m = 2 then leap_days y else 0)"

lemma months_ok_late:
  assumes year: "unat rest < (365 + leap_days y) * 86400" and late: "(59 + leap_days y) * 86400 \<le> unat rest"
  shows "\<exists>m r. months_of y rest = Inr (m, r) \<and> 2 < unat m \<and> unat m \<le> 12 \<and> unat r < 86400 * dpm ! (unat m - 1) \<and>
     (\<forall>ts. \<exists>x. sum_months 1 m (if IS_LEAP_YEAR y then ts + SECONDS_PER_DAY else ts) = Inr x \<and> x + r = ts + rest)"
proof -
  let ?j = "month_seconds (s_days_per_month ! 0)" and ?f = "feb_seconds y"
  define r2 where "r2 = rest - ?j - ?f"
  have j: "?j \<le> rest" using late by (simp add: word_le_nat_alt jan_seconds_nat)
  have uj: "unat (rest - ?j) = unat rest - 31 * 86400" using j by (simp add: unat_sub jan_seconds_nat)
  have f: "?f \<le> rest - ?j" using late by (simp add: word_le_nat_alt uj feb_seconds_nat)
  have ur: "unat r2 = unat rest - 31 * 86400 - (28 + leap_days y) * 86400"
    using f by (simp add: r2_def unat_sub uj feb_seconds_nat)
  have s306: "sum_list (drop (unat (3 :: u8) - 1) dpm) = 306" by (simp add: s_days_per_month_def)
  have "unat r2 < 86400 * sum_list (drop (unat (3 :: u8) - 1) dpm)" using year late unfolding ur s306 by simp
  then obtain m r where L: "month_loop 13 3 r2 = Inr (m, r)" "3 \<le> m" "unat m \<le> 12" "unat r < 86400 * dpm ! (unat m - 1)"
    "\<forall>ts. \<exists>x. sum_months 3 m ts = Inr x \<and> x + r = ts + r2"
    using month_loop_ok [of 3 13 r2] by auto
  have m3: "2 < unat m" using L(2) by (simp add: word_le_nat_alt)
  have M: "months_of y rest = Inr (m, r)"
    using L(1) j f by (simp add: months_of_def jan_step_def feb_step_def r2_def)
  have lt: "1 < m" "2 < m" using m3 by (simp_all add: word_less_nat_alt)
  have S: "sum_months 1 m ts = sum_months 3 m (ts + ?j + month_seconds (s_days_per_month ! 1))" for ts
    using sum_months_step [of 1 m ts] sum_months_step [of 2 m "ts + ?j"] lt by simp
  have F: "(if IS_LEAP_YEAR y then ts + SECONDS_PER_DAY else ts) + ?j + month_seconds (s_days_per_month ! 1) = ts + ?j + ?f" for ts
    by (simp add: feb_seconds_def month_seconds_def algebra_simps)
  have "\<exists>x. sum_months 1 m (if IS_LEAP_YEAR y then ts + SECONDS_PER_DAY else ts) = Inr x \<and> x + r = ts + rest" for ts
    unfolding S F using L(5) [THEN spec, of "ts + ?j + ?f"] by (simp add: r2_def)
  then show ?thesis using M m3 L(3,4) by blast
qed

lemma months_ok_early:
  assumes early: "unat rest < (59 + leap_days y) * 86400" and ok: "\<not> misdated y rest"
  shows "\<exists>m r. months_of y rest = Inr (m, r) \<and> 1 \<le> unat m \<and> unat m \<le> 2 \<and> unat r < 86400 * dpm ! (unat m - 1) \<and>
     (\<forall>ts. \<exists>x. sum_months 1 m ts = Inr x \<and> x + r = ts + rest)"
proof (cases "unat rest < 31 * 86400")
  case True
  then have f: "unat rest < (28 + leap_days y) * 86400" using ok by (auto simp: misdated_def)
  have "months_of y rest = Inr (1, rest)"
    using True f month_loop_stop [of 1 rest]
    by (simp add: months_of_def jan_step_def feb_step_def word_le_nat_alt feb_seconds_nat month_seconds_nat s_days_per_month_def)
  then show ?thesis using True by (auto simp: sum_months.simps [of 1 1] s_days_per_month_def)
next
  case False
  let ?j = "month_seconds (s_days_per_month ! 0)"
  have j: "?j \<le> rest" using False by (simp add: word_le_nat_alt jan_seconds_nat)
  have uj: "unat (rest - ?j) = unat rest - 31 * 86400" using j by (simp add: unat_sub jan_seconds_nat)
  have f: "\<not> feb_seconds y \<le> rest - ?j" using early False by (simp add: word_le_nat_alt uj feb_seconds_nat)
  have r28: "unat (rest - ?j) < 86400 * 28"
    using ok early False uj by (auto simp: misdated_def leap_days_def split: if_splits)
  have "months_of y rest = Inr (2, rest - ?j)"
    using j f r28 month_loop_stop [of 2 "rest - ?j"]
    by (simp add: months_of_def jan_step_def feb_step_def s_days_per_month_def)
  moreover have "sum_months 1 2 ts = Inr (ts + ?j)" for ts
    using sum_months_step [of 1 2 ts] by (simp add: sum_months.simps [of 2 2])
  ultimately show ?thesis using r28 by (simp add: s_days_per_month_def)
qed

lemma months_ok:
  assumes "unat rest < unat (year_seconds y)" "\<not> misdated y rest"
  shows "\<exists>m r. months_of y rest = Inr (m, r) \<and> 1 \<le> unat m \<and> unat m \<le> 12 \<and> unat r < 86400 * dpm ! (unat m - 1) \<and>
     (\<forall>ts. \<exists>x. sum_months 1 m (if IS_LEAP_YEAR y \<and> THE_LEAP_MONTH < m then ts + SECONDS_PER_DAY else ts) = Inr x \<and>
        x + r = ts + rest)"
proof (cases "unat rest < (59 + leap_days y) * 86400")
  case True
  then obtain m r where "months_of y rest = Inr (m, r)" "1 \<le> unat m" "unat m \<le> 2" "unat r < 86400 * dpm ! (unat m - 1)"
     "\<forall>ts. \<exists>x. sum_months 1 m ts = Inr x \<and> x + r = ts + rest"
    using months_ok_early assms(2) by blast
  moreover from this have "\<not> THE_LEAP_MONTH < m" by (simp add: THE_LEAP_MONTH_def word_less_nat_alt)
  ultimately show ?thesis by (intro exI [of _ m] exI [of _ r]) simp
next
  case False
  have "unat rest < (365 + leap_days y) * 86400"
    using assms(1) by (simp add: year_seconds_nat leap_days_def split: if_splits)
  then obtain m r where "months_of y rest = Inr (m, r)" "2 < unat m" "unat m \<le> 12" "unat r < 86400 * dpm ! (unat m - 1)"
     "\<forall>ts. \<exists>x. sum_months 1 m (if IS_LEAP_YEAR y then ts + SECONDS_PER_DAY else ts) = Inr x \<and> x + r = ts + rest"
    using months_ok_late [of rest y] False by (auto simp: not_less)
  moreover from this have "THE_LEAP_MONTH < m" by (simp add: THE_LEAP_MONTH_def word_less_nat_alt)
  ultimately show ?thesis by (intro exI [of _ m] exI [of _ r]) simp
qed

lemma dpm_le_31: "1 \<le> m \<Longrightarrow> m \<le> 12 \<Longrightarrow> dpm ! (m - 1) \<le> 31"
proof -
  have "list_all (\<lambda>d. d \<le> 31) dpm" by (simp add: s_days_per_month_def)
  then show "1 \<le> m \<Longrightarrow> m \<le> 12 \<Longrightarrow> dpm ! (m - 1) \<le> 31" by (simp add: list_all_length)
qed

lemma unix2rtc_months:
  assumes "year_loop UNIX_EPOCH_YEAR (ts + 8 * SECONDS_PER_HOUR) = (y, rest)" "months_of y rest = Inr (m, r)"
  shows "u_time_unix2rtc ts = Inr \<lparr>u16year = y, u8mon = m, u8day = 1 + ucast (r div SECONDS_PER_DAY),
     u8hrs = ucast (r mod SECONDS_PER_DAY div SECONDS_PER_HOUR),
     u8min = ucast (r mod SECONDS_PER_DAY mod SECONDS_PER_HOUR div SECONDS_PER_MIN),
     u8sec = ucast (r mod SECONDS_PER_DAY mod SECONDS_PER_HOUR mod SECONDS_PER_MIN)\<rparr>"
  using assms by (simp add: u_time_unix2rtc_def months_of_def Let_def split: prod.splits)

lemma year_loop_epoch:
  assumes "year_loop UNIX_EPOCH_YEAR rest0 = (y, rest)"
  shows "sum_years UNIX_EPOCH_YEAR y 0 + rest = rest0" "unat rest < unat (year_seconds y)"
proof -
  have "unat rest0 div 31536000 \<le> 136"
    using unsigned_less [of rest0, where ?'a = nat] by simp
  then have "unat UNIX_EPOCH_YEAR + unat rest0 div 31536000 < 65536" by (simp add: UNIX_EPOCH_YEAR_def)
  from year_loop_ok [OF assms this] show "sum_years UNIX_EPOCH_YEAR y 0 + rest = rest0" "unat rest < unat (year_seconds y)"
    by simp_all
qed

section \<open>Properties\<close>

text \<open>
  C12. The calendar conversion is exact and invertible outside the misdated days: for every
  timestamp that does not fall on the last days of January or on a leap day, \<open>u_time_unix2rtc\<close>
  yields a date with all fields in range (month 1 to 12, day within the month, time of day),
  and \<open>u_time_rtc2unix\<close> turns it back into the timestamp.
\<close>

theorem u_time_roundtrip:
  assumes "year_loop UNIX_EPOCH_YEAR (ts + 8 * SECONDS_PER_HOUR) = (y, rest)" "\<not> misdated y rest"
  shows "\<exists>rtc. u_time_unix2rtc ts = Inr rtc \<and> u_time_rtc2unix rtc = Inr ts \<and> u16year rtc = y \<and>
     1 \<le> unat (u8mon rtc) \<and> unat (u8mon rtc) \<le> 12 \<and>
     1 \<le> unat (u8day rtc) \<and> unat (u8day rtc) \<le> unat (s_days_per_month ! (unat (u8mon rtc) - 1)) \<and>
     unat (u8hrs rtc) < 24 \<and> unat (u8min rtc) < 60 \<and> unat (u8sec rtc) < 60"
proof -
  note E = year_loop_epoch [OF assms(1)]
  obtain m r where M: "months_of y rest = Inr (m, r)" "1 \<le> unat m" "unat m \<le> 12" "unat r < 86400 * dpm ! (unat m - 1)"
     "\<forall>ts. \<exists>x. sum_months 1 m (if IS_LEAP_YEAR y \<and> THE_LEAP_MONTH < m then ts + SECONDS_PER_DAY else ts) = Inr x \<and>
        x + r = ts + rest"
    using months_ok [OF E(2) assms(2)] by blast
  have r31: "unat r < 86400 * 31"
    using M(4) dpm_le_31 [OF M(2,3)] by (meson less_le_trans mult_le_mono2)
  note D = day_fields [OF r31]
  note U = unix2rtc_months [OF assms(1) M(1)]
  obtain x where x: "sum_months 1 m (if IS_LEAP_YEAR y \<and> THE_LEAP_MONTH < m
       then sum_years UNIX_EPOCH_YEAR y 0 + SECONDS_PER_DAY else sum_years UNIX_EPOCH_YEAR y 0) = Inr x"
    "x + r = ts + 8 * SECONDS_PER_HOUR"
    using M(5) E(1) by metis
  have total: "x + (d + h + mi + se) - 8 * SECONDS_PER_HOUR = ts" if "d + h + mi + se = r" for d h mi se
    unfolding that x(2) by simp
  have "1 + unat r div 86400 \<le> unat (s_days_per_month ! (unat m - 1))"
    using M(2-4) by (simp add: Suc_le_eq div_less_iff_less_mult mult.commute)
  moreover have "u_time_rtc2unix (projr (u_time_unix2rtc ts)) = Inr ts"
    unfolding U using x(1) total [OF D(1)] by (simp add: u_time_rtc2unix_def Let_def add.assoc)
  ultimately show ?thesis unfolding U using D(2-5) M(2,3) by auto
qed

theorem u_time_roundtrip_witness:
  "\<exists>rtc. u_time_unix2rtc 0 = Inr rtc \<and> u_time_rtc2unix rtc = Inr 0 \<and> u16year rtc = 1970 \<and>
     1 \<le> unat (u8mon rtc) \<and> unat (u8mon rtc) \<le> 12 \<and>
     1 \<le> unat (u8day rtc) \<and> unat (u8day rtc) \<le> unat (s_days_per_month ! (unat (u8mon rtc) - 1)) \<and>
     unat (u8hrs rtc) < 24 \<and> unat (u8min rtc) < 60 \<and> unat (u8sec rtc) < 60"
proof -
  have "year_loop UNIX_EPOCH_YEAR (0 + 8 * SECONDS_PER_HOUR) = (1970, 28800)"
    by (subst year_loop.simps) (simp add: UNIX_EPOCH_YEAR_def second_units year_seconds_def IS_LEAP_YEAR_def)
  then show ?thesis
    by (rule u_time_roundtrip) (simp add: misdated_def IS_LEAP_YEAR_def leap_days_def)
qed

text \<open>
  The misdated days: a moment in the last days of January, once as many days of the year have
  passed as February has, is turned into a date in February, and a moment on the 29th of
  February of a leap year into the first of March.
\<close>

theorem u_time_misdated:
  assumes "year_loop UNIX_EPOCH_YEAR (ts + 8 * SECONDS_PER_HOUR) = (y, rest)" "misdated y rest"
  shows "\<exists>rtc. u_time_unix2rtc ts = Inr rtc \<and>
     (if unat rest < 31 * 86400 then u8mon rtc = 2 else u8mon rtc = 3 \<and> u8day rtc = 1)"
proof (cases "unat rest < 31 * 86400")
  case True
  then have f: "(28 + leap_days y) * 86400 \<le> unat rest" using assms(2) by (auto simp: misdated_def)
  have "feb_seconds y \<le> rest" using f by (simp add: word_le_nat_alt feb_seconds_nat)
  moreover have "\<not> month_seconds (s_days_per_month ! 0) \<le> rest" using True by (simp add: word_le_nat_alt jan_seconds_nat)
  moreover have "unat (rest - feb_seconds y) < 86400 * 3"
    using True calculation(1) by (simp add: unat_sub feb_seconds_nat)
  then have "month_loop 13 2 (rest - feb_seconds y) = Inr (2, rest - feb_seconds y)"
    by (intro month_loop_stop) (simp_all add: s_days_per_month_def)
  ultimately have "months_of y rest = Inr (2, rest - feb_seconds y)"
    by (simp add: months_of_def jan_step_def feb_step_def)
  then show ?thesis using unix2rtc_months [OF assms(1)] True by simp
next
  case False
  let ?j = "month_seconds (s_days_per_month ! 0)" and ?f = "month_seconds (s_days_per_month ! 1)"
  from False have b: "IS_LEAP_YEAR y" "59 * 86400 \<le> unat rest" "unat rest < 60 * 86400"
    using assms(2) by (auto simp: misdated_def)
  have j: "?j \<le> rest" using b by (simp add: word_le_nat_alt jan_seconds_nat)
  have uj: "unat (rest - ?j) = unat rest - 31 * 86400" using j by (simp add: unat_sub jan_seconds_nat)
  have f: "\<not> feb_seconds y \<le> rest - ?j" using b by (simp add: word_le_nat_alt uj feb_seconds_nat leap_days_def)
  have uf: "unat ?f = 28 * 86400" by (simp add: month_seconds_nat s_days_per_month_def)
  have f28: "?f \<le> rest - ?j" unfolding word_le_nat_alt uj uf using b by simp
  let ?r = "rest - ?j - ?f"
  have ur: "unat ?r < 86400" unfolding unat_sub [OF f28] uj uf using b by simp
  have "month_loop 13 2 (rest - ?j) = month_loop 12 3 ?r"
    using f28 month_loop.simps(2) [of 12 2 "rest - ?j"] by (simp add: access)
  also have "\<dots> = Inr (3, ?r)"
    using ur month_loop.simps(2) [of 11 3 ?r]
    by (simp add: access word_le_nat_alt month_seconds_nat s_days_per_month_def)
  finally have "months_of y rest = Inr (3, ?r)"
    using j f by (simp add: months_of_def jan_step_def feb_step_def)
  moreover have "?r div SECONDS_PER_DAY = 0"
    using ur by (simp add: word_unat_eq_iff unat_div second_units)
  ultimately show ?thesis using unix2rtc_months [OF assms(1)] False by simp
qed

end
