(* ===== verification/Kbc.thy ===== *)
theory Kbc
  imports Prelude
begin

text \<open>
  The 8042 keyboard controller of \<open>src/app/kbchost/kbchost.c\<close>. The static variables of the
  file are the record \<open>kbc\<close>; build options are the record \<open>kbc_cfg\<close>. Calls into the kernel,
  the eSPI driver, the PS/2 driver and the keyboard scanner are the emitted events, and what
  those calls return is an argument: a reading that is repeated in a loop is a function of
  the number of the reading.
\<close>

section \<open>Constants\<close>

definition MAX_HOST_REQ_SIZE :: nat where "MAX_HOST_REQ_SIZE = 4"
definition MAX_TO_HOST_RETRIES :: nat where "MAX_TO_HOST_RETRIES = 3"
definition MAX_RST_ATTEMPTS :: nat where "MAX_RST_ATTEMPTS = 3"

definition KBC_8042_HOST_SYS_FLAG :: u8 where "KBC_8042_HOST_SYS_FLAG = push_bit 2 1"
definition KBC_8042_KBD_DIS :: u8 where "KBC_8042_KBD_DIS = push_bit 4 1"
definition KBC_8042_MOUSE_DIS :: u8 where "KBC_8042_MOUSE_DIS = push_bit 5 1"
definition KBC_8042_TRANSLATE :: u8 where "KBC_8042_TRANSLATE = push_bit 6 1"

definition KBC_8042_ACK :: u8 where "KBC_8042_ACK = 0xfa"
definition KBC_8042_NACK :: u8 where "KBC_8042_NACK = 0xfe"
definition KBC_8042_BAT :: u8 where "KBC_8042_BAT = 0xaa"
definition KBC_8042_DEFAULT_SCAN_CODE :: u8 where "KBC_8042_DEFAULT_SCAN_CODE = 2"
definition NO_PASSWORD :: u8 where "NO_PASSWORD = 0xf1"
definition TEST_PASSED :: u8 where "TEST_PASSED = 0x55"

definition INPUT_PORT_DUMMY :: u8 where
  "INPUT_PORT_DUMMY = push_bit 0 1 OR push_bit 1 1"

definition OUTPUT_PORT_DUMMY :: u8 where
  "OUTPUT_PORT_DUMMY = push_bit 7 1 OR push_bit 6 1 OR push_bit 3 1 OR push_bit 2 1 OR push_bit 1 1"

section \<open>State, environment, events\<close>

datatype data_port =
    DEFAULT_STATE | WRITE_CMD_BYTE_STATE | HOTKEY_EVENT_STATE | WRITE_OUTPUT_PORT_STATE
  | WRITE_KBD_OUTPUT_REG_STATE | ECHO_MOUSE_STATE | SEND_TO_MOUSE_STATE
  | SET_LEDS_STATE | SET_GET_SCANCODE_STATE | SET_TYPEMATIC_RATE_STATE

record kbc =
  cmdbyte :: u8
  resend_cmd :: "u8 list"
  resend_cmd_len :: u8
  current_scan_code :: u8
  data_port_state :: data_port
  current_leds_state :: u8
  g_triggerKbcRst :: u8
  last_data :: u8
  last_cmd :: u8
  has_prev :: bool

definition kbc_initial :: kbc where
  "kbc_initial = \<lparr>
     cmdbyte = KBC_8042_KBD_DIS OR KBC_8042_MOUSE_DIS OR KBC_8042_HOST_SYS_FLAG OR KBC_8042_TRANSLATE,
     resend_cmd = replicate MAX_HOST_REQ_SIZE 0, resend_cmd_len = 0,
     current_scan_code = 2, data_port_state = DEFAULT_STATE, current_leds_state = 0,
     g_triggerKbcRst = 0, last_data = 0, last_cmd = 0, has_prev = False\<rparr>"

datatype kbc_led = Scroll_led | Num_led | Caps_led

text \<open>Build options; a lock pin counts when it is defined and \<open>CONFIG_DEBUG_LED\<close> is not.\<close>

record kbc_cfg =
  CONFIG_PS2_MOUSE :: bool
  CONFIG_PS2_KEYBOARD :: bool
  CONFIG_KSCAN_EC :: bool
  CONFIG_SLEEP :: bool
  led_pin :: "kbc_led \<Rightarrow> bool"
  caps_active_high :: bool \<comment> \<open>\<open>BRD_MDS_DORNE\<close> or \<open>BRD_MDS_AERIS\<close>\<close>

datatype e8042 =
    E8042_SET_FLAG | E8042_CLEAR_FLAG | E8042_WRITE_KB_CHAR | E8042_WRITE_MB_CHAR
  | E8042_CLEAR_OBF | E8042_PAUSE_IRQ | E8042_RESUME_IRQ

datatype kbc_ev =
    Msgq_purge_to_host | Msgq_put_to_host u8 | Msgq_full_to_host u8 | Msgq_get_to_host | Sem_give_p60
  | Msgq_put_from_host u8 u8
  | Espihub_kbc_write e8042 u32 | Espihub_kbc_read_obf | Msleep nat
  | Ps2_keyboard_write u8 | Ps2_mouse_write u8 | Atomic_set_ps2_reset bool
  | Ps2_keyboard_disable | Ps2_keyboard_enable | Ps2_mouse_disable | Ps2_mouse_enable
  | Kbs_write_typematic u8 | Kbs_keyboard_set_default | Kbs_keyboard_disable | Kbs_keyboard_enable
  | Led_mutex_lock | Led_mutex_unlock | Gpio_write_pin kbc_led bool
  | Board_slp_wake_up_from_kb

text \<open>
  What the rest of the system answers: the n-th \<open>atomic_get(&ps2_reset)\<close>, the n-th OBF
  reading, the result of a LED pin write, and what the n-th byte sent to the host's queue finds:
  whether the system is in modern standby S3 with the \<open>espi_ResetInS0i3\<close> option set, and how many
  bytes stand in the queue (the thread that empties it runs in between).
\<close>

record kbc_env =
  env_ps2_reset :: "nat \<Rightarrow> bool"
  env_obf :: "nat \<Rightarrow> bool"
  env_gpio :: "kbc_led \<Rightarrow> bool \<Rightarrow> int"
  env_standby :: "nat \<Rightarrow> bool"
  env_used :: "nat \<Rightarrow> nat"

section \<open>Command byte\<close>

definition write_command_byte :: "u8 \<Rightarrow> kbc \<Rightarrow> kbc" where
  "write_command_byte new s = s\<lparr>cmdbyte := new\<rparr>"

definition cmdbyte_enable_kbd :: "kbc \<Rightarrow> kbc" where
  "cmdbyte_enable_kbd s = write_command_byte (cmdbyte s AND NOT KBC_8042_KBD_DIS) s"

definition cmdbyte_disable_kbd :: "kbc \<Rightarrow> kbc" where
  "cmdbyte_disable_kbd s = write_command_byte (cmdbyte s OR KBC_8042_KBD_DIS) s"

definition cmdbyte_kbd_enabled :: "kbc \<Rightarrow> bool" where
  "cmdbyte_kbd_enabled s \<longleftrightarrow> \<not> (cmdbyte s AND KBC_8042_KBD_DIS \<noteq> 0)"

definition cmdbyte_enable_mb :: "kbc \<Rightarrow> kbc" where
  "cmdbyte_enable_mb s = write_command_byte (cmdbyte s AND NOT KBC_8042_MOUSE_DIS) s"

definition cmdbyte_disable_mb :: "kbc \<Rightarrow> kbc" where
  "cmdbyte_disable_mb s = write_command_byte (cmdbyte s OR KBC_8042_MOUSE_DIS) s"

definition cmdbyte_mb_enabled :: "kbc \<Rightarrow> bool" where
  "cmdbyte_mb_enabled s \<longleftrightarrow> \<not> (cmdbyte s AND KBC_8042_MOUSE_DIS \<noteq> 0)"

definition purge_kb_queue :: "kbc_ev list" where
  "purge_kb_queue = [Msgq_purge_to_host]"

text \<open>
  \<open>used\<close> is the number of bytes in the queue; the put does not wait, so a full queue drops the
  byte (\<open>Msgq_full_to_host\<close>), and the semaphore is given all the same.
\<close>

definition TO_HOST_LEN :: nat where "TO_HOST_LEN = 16"

definition send_kb_to_host :: "bool \<Rightarrow> nat \<Rightarrow> u8 \<Rightarrow> kbc_ev list" where
  "send_kb_to_host standby used data =
     (let d = (if standby then 0x65 else data) in
      [if used < TO_HOST_LEN then Msgq_put_to_host d else Msgq_full_to_host d, Sem_give_p60])"

definition to_port :: "data_port \<Rightarrow> kbc \<Rightarrow> kbc" where
  "to_port p s = s\<lparr>data_port_state := p\<rparr>"

section \<open>Port 0x64: commands\<close>

text \<open>
  A handler yields the new state, its events and the bytes it appends to \<open>output\<close>.
\<close>

definition command_switch :: "u8 \<Rightarrow> kbc_cfg \<Rightarrow> kbc \<Rightarrow> kbc \<times> kbc_ev list \<times> u8 list" where
  "command_switch command cfg s =
     (if command = 0x20 then (s, [], [cmdbyte s])
      else if command = 0x60 then (to_port WRITE_CMD_BYTE_STATE s, [], [])
      else if command = 0xa4 then (s, [], [NO_PASSWORD])
      else if CONFIG_PS2_MOUSE cfg \<and> command = 0xa7 then (cmdbyte_disable_mb s, [], [])
      else if CONFIG_PS2_MOUSE cfg \<and> command = 0xa8 then (cmdbyte_enable_mb s, [], [])
      else if CONFIG_PS2_MOUSE cfg \<and> command = 0xa9 then (s, [], [0])
      else if command = 0xaa then (s, purge_kb_queue, [TEST_PASSED])
      else if command = 0xab then (s, [], [0])
      else if command = 0xac then (s, [], [0])
      else if command = 0xad then (cmdbyte_disable_kbd s, purge_kb_queue, [])
      else if command = 0xae then (cmdbyte_enable_kbd s, [], [])
      else if command = 0xe0 then (s, [], [INPUT_PORT_DUMMY])
      else if command = 0xc3 then (to_port HOTKEY_EVENT_STATE s, [], [])
      else if command = 0xd0 then (s, [], [OUTPUT_PORT_DUMMY])
      else if command = 0xd1 then (to_port WRITE_OUTPUT_PORT_STATE s, [], [])
      else if command = 0xd2 then (to_port WRITE_KBD_OUTPUT_REG_STATE s, [], [])
      else if command = 0xd3 then (to_port ECHO_MOUSE_STATE s, [], [])
      else if command = 0xd4 then (to_port SEND_TO_MOUSE_STATE s, [], [])
      else if command = 0xfe then (s\<lparr>g_triggerKbcRst := 1\<rparr>, [], [])
      else (to_port DEFAULT_STATE s, purge_kb_queue, [KBC_8042_NACK]))"

definition process_keyboard_command ::
  "kbc_cfg \<Rightarrow> u8 \<Rightarrow> u8 list \<Rightarrow> kbc \<Rightarrow> (kbc \<times> kbc_ev list \<times> u8 list \<times> u8) res" where
  "process_keyboard_command cfg command output s =
     (if \<not> CONFIG_PS2_MOUSE cfg \<and> (command = 0xa7 \<or> command = 0xa8 \<or> command = 0xa9)
      then Inr (s, [], output, 0)
      else
        (case command_switch command cfg s of
           (s', evs, bytes) \<Rightarrow>
             (case store_seq output 0 bytes of
                Inl e \<Rightarrow> Inl e
              | Inr output' \<Rightarrow> Inr (s', evs, output', of_nat (length bytes)))))"

section \<open>LEDs\<close>

definition GET_LOCK :: "nat \<Rightarrow> u8 \<Rightarrow> bool" where
  "GET_LOCK pos x \<longleftrightarrow> drop_bit pos x AND 1 \<noteq> 0"

fun led_pos :: "kbc_led \<Rightarrow> nat" where
  "led_pos Scroll_led = 0"
| "led_pos Num_led = 1"
| "led_pos Caps_led = 2"

text \<open>
  One LED: write its pin if there is one, then record the LED unless the last pin write
  failed. The result \<open>ret\<close> of an earlier pin stays when this LED has no pin.
\<close>

definition set_led :: "kbc_cfg \<Rightarrow> kbc_env \<Rightarrow> u8 \<Rightarrow> kbc_led \<Rightarrow> int \<times> kbc \<times> kbc_ev list \<Rightarrow> int \<times> kbc \<times> kbc_ev list" where
  "set_led cfg env leds led st3 =
     (case st3 of (ret0, s, evs) \<Rightarrow>
        let on = GET_LOCK (led_pos led) leds;
            level = (if led = Caps_led \<and> caps_active_high cfg then on else \<not> on);
            ret = (if led_pin cfg led then env_gpio env led level else ret0);
            evs' = (if led_pin cfg led then evs @ [Gpio_write_pin led level] else evs)
        in (ret,
            if ret \<noteq> 0 then s
            else s\<lparr>current_leds_state :=
                     (if on then current_leds_state s OR push_bit (led_pos led) 1
                      else current_leds_state s AND NOT (push_bit (led_pos led) 1))\<rparr>,
            evs'))"

definition kbc_set_leds :: "kbc_cfg \<Rightarrow> kbc_env \<Rightarrow> u8 \<Rightarrow> kbc \<Rightarrow> kbc \<times> kbc_ev list" where
  "kbc_set_leds cfg env leds s =
     (case set_led cfg env leds Caps_led (set_led cfg env leds Num_led
             (set_led cfg env leds Scroll_led (0, s, [Led_mutex_lock]))) of
        (ret, s', evs) \<Rightarrow> (s', evs @ [Led_mutex_unlock]))"

definition kbc_get_leds :: "kbc \<Rightarrow> u8 \<times> kbc_ev list" where
  "kbc_get_leds s = (current_leds_state s, [Led_mutex_lock, Led_mutex_unlock])"

section \<open>Port 0x60: data\<close>

text \<open>The loop that resends a mouse reset until the mouse acknowledged it.\<close>

function mouse_reset_loop :: "(nat \<Rightarrow> bool) \<Rightarrow> nat \<Rightarrow> kbc_ev list" where
  "mouse_reset_loop pending attempt =
     (if attempt \<le> MAX_RST_ATTEMPTS \<and> pending attempt
      then [Ps2_mouse_write 0xff, Msleep 8] @ mouse_reset_loop pending (attempt + 1)
      else [])"
  by pat_completeness auto
termination
  by (relation "measure (\<lambda>(pending, attempt). Suc MAX_RST_ATTEMPTS - attempt)") auto

declare mouse_reset_loop.simps [simp del]

definition send_to_mouse :: "kbc_cfg \<Rightarrow> kbc_env \<Rightarrow> u8 \<Rightarrow> kbc_ev list" where
  "send_to_mouse cfg env data =
     (if CONFIG_PS2_MOUSE cfg then
        (if data = 0xff then [Atomic_set_ps2_reset True] @ mouse_reset_loop (env_ps2_reset env) 0
         else [Ps2_mouse_write data])
      else [])"

definition ps2_kb :: "kbc_cfg \<Rightarrow> u8 \<Rightarrow> kbc_ev list" where
  "ps2_kb cfg data = (if CONFIG_PS2_KEYBOARD cfg then [Ps2_keyboard_write data] else [])"

definition kscan :: "kbc_cfg \<Rightarrow> kbc_ev \<Rightarrow> kbc_ev list" where
  "kscan cfg ev = (if CONFIG_KSCAN_EC cfg then [ev] else [])"

definition write_cmd_byte_data :: "u8 \<Rightarrow> kbc \<Rightarrow> kbc \<times> kbc_ev list" where
  "write_cmd_byte_data data s =
     (let flag = (if data AND KBC_8042_HOST_SYS_FLAG \<noteq> 0
                  then Espihub_kbc_write E8042_SET_FLAG (ucast KBC_8042_HOST_SYS_FLAG)
                  else Espihub_kbc_write E8042_CLEAR_FLAG (ucast KBC_8042_HOST_SYS_FLAG));
          s1 = write_command_byte data s;
          (s2, evs) = (if data AND KBC_8042_KBD_DIS \<noteq> 0
                       then (cmdbyte_disable_kbd s1, purge_kb_queue)
                       else (cmdbyte_enable_kbd s1, []));
          s3 = (if data AND KBC_8042_MOUSE_DIS \<noteq> 0 then cmdbyte_disable_mb s2
                else cmdbyte_disable_mb s2)
      in (to_port DEFAULT_STATE s3, flag # evs))"

text \<open>
  Commands that arrive on port 0x60 in \<open>DEFAULT_STATE\<close>. The first two components are the new
  state and the events, then the bytes appended to \<open>output\<close>, then \<open>save_cmd\<close>.
\<close>

definition default_data ::
  "kbc_cfg \<Rightarrow> u8 \<Rightarrow> kbc \<Rightarrow> (kbc \<times> kbc_ev list \<times> u8 list \<times> bool) res" where
  "default_data cfg data s =
     (if data = 0xee then Inr (s, [], [0xee], True)
      else if data = 0xed then Inr (to_port SET_LEDS_STATE s, ps2_kb cfg data, [KBC_8042_ACK], True)
      else if data = 0xf0 then Inr (to_port SET_GET_SCANCODE_STATE s, [], [KBC_8042_ACK], True)
      else if data = 0xf2 then Inr (s, [], [KBC_8042_ACK, 0xab, 0x83], True)
      else if data = 0xf3 then Inr (to_port SET_TYPEMATIC_RATE_STATE s, [], [KBC_8042_ACK], True)
      else if data = 0xf4 then
        Inr (cmdbyte_enable_kbd s, purge_kb_queue @ ps2_kb cfg data @ [Kbs_keyboard_set_default],
             [KBC_8042_ACK], True)
      else if data = 0xf5 then
        Inr (cmdbyte_disable_kbd (s\<lparr>current_scan_code := KBC_8042_DEFAULT_SCAN_CODE\<rparr>),
             purge_kb_queue @ ps2_kb cfg data @ kscan cfg Kbs_keyboard_set_default,
             [KBC_8042_ACK], True)
      else if data = 0xf6 then
        Inr (s\<lparr>current_scan_code := KBC_8042_DEFAULT_SCAN_CODE\<rparr>,
             purge_kb_queue @ ps2_kb cfg data @ kscan cfg Kbs_keyboard_set_default,
             [KBC_8042_ACK], True)
      else if data = 0xfe then
        (case load_seq (resend_cmd s) 0 (unat (resend_cmd_len s)) of
           Inl e \<Rightarrow> Inl e
         | Inr bytes \<Rightarrow> Inr (s, [], bytes, False))
      else if data = 0xff then
        Inr (s\<lparr>current_scan_code := KBC_8042_DEFAULT_SCAN_CODE\<rparr>,
             [Espihub_kbc_write E8042_CLEAR_OBF 0] @ purge_kb_queue @ ps2_kb cfg data @
               kscan cfg Kbs_keyboard_set_default,
             [KBC_8042_ACK, KBC_8042_BAT], True)
      else Inr (s, [], [KBC_8042_NACK], True))"

definition data_switch ::
  "kbc_cfg \<Rightarrow> kbc_env \<Rightarrow> u8 \<Rightarrow> kbc \<Rightarrow> (kbc \<times> kbc_ev list \<times> u8 list \<times> bool) res" where
  "data_switch cfg env data s =
     (case data_port_state s of
        WRITE_CMD_BYTE_STATE \<Rightarrow>
          (case write_cmd_byte_data data s of (s', evs) \<Rightarrow> Inr (s', evs, [], True))
      | WRITE_OUTPUT_PORT_STATE \<Rightarrow> Inr (to_port DEFAULT_STATE s, [], [], True)
      | HOTKEY_EVENT_STATE \<Rightarrow> Inr (s, [], [], True)
      | WRITE_KBD_OUTPUT_REG_STATE \<Rightarrow> Inr (to_port DEFAULT_STATE s, [], [data], True)
      | ECHO_MOUSE_STATE \<Rightarrow>
          Inr (to_port DEFAULT_STATE s,
               if CONFIG_PS2_KEYBOARD cfg \<or> CONFIG_PS2_MOUSE cfg
               then [Espihub_kbc_write E8042_WRITE_MB_CHAR (ucast data)] else [],
               [], True)
      | SEND_TO_MOUSE_STATE \<Rightarrow> Inr (to_port DEFAULT_STATE s, send_to_mouse cfg env data, [], True)
      | SET_LEDS_STATE \<Rightarrow>
          (case kbc_set_leds cfg env data s of
             (s', evs) \<Rightarrow> Inr (to_port DEFAULT_STATE s', evs @ ps2_kb cfg data, [KBC_8042_ACK], True))
      | SET_GET_SCANCODE_STATE \<Rightarrow>
          if data = 0
          then Inr (to_port DEFAULT_STATE s, [], [KBC_8042_ACK, current_scan_code s], True)
          else Inr (to_port DEFAULT_STATE (s\<lparr>current_scan_code := data\<rparr>),
                    purge_kb_queue @ ps2_kb cfg data, [KBC_8042_ACK], True)
      | SET_TYPEMATIC_RATE_STATE \<Rightarrow>
          Inr (to_port DEFAULT_STATE s, ps2_kb cfg data @ kscan cfg (Kbs_write_typematic data),
               [KBC_8042_ACK], True)
      | DEFAULT_STATE \<Rightarrow> default_data cfg data s)"

text \<open>The reply is kept for a later resend command.\<close>

definition process_keyboard_data ::
  "kbc_cfg \<Rightarrow> kbc_env \<Rightarrow> u8 \<Rightarrow> u8 list \<Rightarrow> kbc \<Rightarrow> (kbc \<times> kbc_ev list \<times> u8 list \<times> u8) res" where
  "process_keyboard_data cfg env data output s =
     (case data_switch cfg env data s of
        Inl e \<Rightarrow> Inl e
      | Inr (s1, evs, bytes, save_cmd) \<Rightarrow>
          (case store_seq output 0 bytes of
             Inl e \<Rightarrow> Inl e
           | Inr output' \<Rightarrow>
               let out_len = of_nat (length bytes) :: u8 in
               if out_len \<noteq> 0 \<and> save_cmd then
                 (case load_seq output' 0 (unat out_len) of
                    Inl e \<Rightarrow> Inl e
                  | Inr saved \<Rightarrow>
                      (case store_seq (resend_cmd s1) 0 saved of
                         Inl e \<Rightarrow> Inl e
                       | Inr r \<Rightarrow> Inr (s1\<lparr>resend_cmd := r, resend_cmd_len := out_len\<rparr>, evs, output', out_len)))
               else Inr (s1, evs, output', out_len)))"

section \<open>Replies\<close>

text \<open>
  The loop that hands the reply to the host: \<open>poll\<close> counts the OBF readings, \<open>i\<close> the bytes
  written, \<open>retries\<close> the readings in a row that found the output buffer full.
\<close>

function reply_loop ::
  "kbc_env \<Rightarrow> u8 list \<Rightarrow> nat \<Rightarrow> nat \<Rightarrow> nat \<Rightarrow> nat \<Rightarrow> (kbc_ev list \<times> nat \<times> nat) res" where
  "reply_loop env buf out_len poll i retries =
     (case ld buf i of
        Inl e \<Rightarrow> Inl e
      | Inr kb_data \<Rightarrow>
          let full = env_obf env poll;
              evs = (if full then [Espihub_kbc_read_obf, Msleep 1]
                     else [Espihub_kbc_read_obf, Espihub_kbc_write E8042_WRITE_KB_CHAR (ucast kb_data)]);
              i' = (if full then i else i + 1);
              retries' = (if full then retries + 1 else 0)
          in if i' < out_len \<and> retries' < MAX_TO_HOST_RETRIES then
               (case reply_loop env buf out_len (poll + 1) i' retries' of
                  Inl e \<Rightarrow> Inl e
                | Inr (evs', n, r) \<Rightarrow> Inr (evs @ evs', n, r))
             else Inr (evs, i', retries'))"
  by pat_completeness auto
termination
  by (relation "measures [\<lambda>(env, buf, out_len, poll, i, retries). out_len - i,
        \<lambda>(env, buf, out_len, poll, i, retries). MAX_TO_HOST_RETRIES - retries]")
     (auto split: if_splits)

declare reply_loop.simps [simp del]

text \<open>The bytes the host did not take are queued; \<open>k\<close> counts them.\<close>

fun queue_rest :: "kbc_env \<Rightarrow> nat \<Rightarrow> u8 list \<Rightarrow> kbc_ev list" where
  "queue_rest env k [] = []"
| "queue_rest env k (b # bs) = send_kb_to_host (env_standby env k) (env_used env k) b @ queue_rest env (Suc k) bs"

record host_byte =
  hb_data :: u8
  hb_cmd :: u8

definition kbc_process :: "kbc_cfg \<Rightarrow> kbc_env \<Rightarrow> host_byte \<Rightarrow> kbc \<Rightarrow> (kbc \<times> kbc_ev list \<times> u8 list \<times> u8) res" where
  "kbc_process cfg env hb s =
     (if hb_cmd hb \<noteq> 0
      then process_keyboard_command cfg (hb_data hb) (replicate MAX_HOST_REQ_SIZE 0) s
      else process_keyboard_data cfg env (hb_data hb) (replicate MAX_HOST_REQ_SIZE 0) s)"

definition handle_from_to_host :: "kbc_cfg \<Rightarrow> kbc_env \<Rightarrow> host_byte \<Rightarrow> kbc \<Rightarrow> (kbc_ev list \<times> kbc) res" where
  "handle_from_to_host cfg env hb s =
     (case kbc_process cfg env hb s of
        Inl e \<Rightarrow> Inl e
      | Inr (s', evs, buf, out_len) \<Rightarrow>
          if out_len \<noteq> 0 then
            (case reply_loop env buf (unat out_len) 0 0 0 of
               Inl e \<Rightarrow> Inl e
             | Inr (evs1, i, retries) \<Rightarrow>
                 (case (if retries = MAX_RST_ATTEMPTS then load_seq buf i (unat out_len - i) else Inr []) of
                    Inl e \<Rightarrow> Inl e
                  | Inr rest \<Rightarrow> Inr (evs @ [Msleep 5] @ evs1 @ queue_rest env 0 rest, s')))
          else Inr (evs, s'))"

section \<open>Threads and callbacks\<close>

text \<open>
  One pass of the inner loop of \<open>to_host_kb_thread\<close>. The readings of a pass are whether the
  queue holds bytes, whether the output buffer is full, whether the system is in modern
  standby S3, and the byte the queue hands out (\<open>None\<close> when it was emptied meanwhile). The
  locals are the retry counter and the variable \<open>kb_data\<close>, of which the queue only writes the
  lowest byte. The last component tells whether the loop goes on.
\<close>

record kb_reading =
  rd_used :: bool
  rd_obf :: bool
  rd_s3 :: bool
  rd_byte :: "u8 option"

record kb_locals =
  obf_retries :: u8
  kb_data :: u32

definition store_low_byte :: "u8 option \<Rightarrow> u32 \<Rightarrow> u32" where
  "store_low_byte b d = (case b of None \<Rightarrow> d | Some c \<Rightarrow> (d AND 0xFFFFFF00) OR ucast c)"

definition to_host_kb_pass ::
  "kbc_cfg \<Rightarrow> kb_reading \<Rightarrow> kb_locals \<Rightarrow> kbc_ev list \<times> kb_locals \<times> bool" where
  "to_host_kb_pass cfg rd l =
     (if rd_used rd then
        if rd_obf rd then
          (if unat (obf_retries l) > MAX_TO_HOST_RETRIES
           then (Espihub_kbc_read_obf # purge_kb_queue, l\<lparr>obf_retries := 0\<rparr>, False)
           else ([Espihub_kbc_read_obf, Msleep 2], l\<lparr>obf_retries := obf_retries l + 1\<rparr>, True))
        else
          (let d = store_low_byte (rd_byte rd) (kb_data l) in
           ([Espihub_kbc_read_obf] @
            (if rd_s3 rd \<and> CONFIG_SLEEP cfg then [Board_slp_wake_up_from_kb] else []) @
            [Msgq_get_to_host, Espihub_kbc_write E8042_WRITE_KB_CHAR d],
            l\<lparr>kb_data := d, obf_retries := 0\<rparr>, True))
      else ([], l, False))"

text \<open>The passes of one wake-up, as long as the loop goes on and there are readings.\<close>

fun to_host_kb_loop :: "kbc_cfg \<Rightarrow> kb_reading list \<Rightarrow> kb_locals \<Rightarrow> kbc_ev list \<times> kb_locals \<times> bool" where
  "to_host_kb_loop cfg [] l = ([], l, True)"
| "to_host_kb_loop cfg (rd # rds) l =
     (case to_host_kb_pass cfg rd l of
        (evs, l', False) \<Rightarrow> (evs, l', False)
      | (evs, l', True) \<Rightarrow>
          (case to_host_kb_loop cfg rds l' of (evs', l'', c) \<Rightarrow> (evs @ evs', l'', c)))"

definition keyboard_callback :: "bool \<Rightarrow> nat \<Rightarrow> u8 \<Rightarrow> kbc \<Rightarrow> kbc_ev list" where
  "keyboard_callback standby used data s =
     (if cmdbyte_kbd_enabled s \<and> data \<noteq> KBC_8042_ACK \<and> data \<noteq> KBC_8042_NACK
      then send_kb_to_host standby used data else [])"

text \<open>\<open>reset\<close> is the value of \<open>ps2_reset\<close>.\<close>

definition mouse_callback :: "bool \<Rightarrow> u8 \<Rightarrow> kbc \<Rightarrow> kbc_ev list" where
  "mouse_callback reset data s =
     (if reset then
        (if data = KBC_8042_ACK
         then [Atomic_set_ps2_reset False, Espihub_kbc_write E8042_WRITE_MB_CHAR (ucast data)] else [])
      else if (\<not> cmdbyte_mb_enabled s \<and> (data = KBC_8042_ACK \<or> data = KBC_8042_NACK))
              \<or> cmdbyte_mb_enabled s
        then [Espihub_kbc_write E8042_WRITE_MB_CHAR (ucast data)] else [])"

definition mtx_keyboard_callback ::
  "(nat \<Rightarrow> bool) \<Rightarrow> (nat \<Rightarrow> nat) \<Rightarrow> bool \<Rightarrow> u8 list \<Rightarrow> u8 \<Rightarrow> kbc \<Rightarrow> kbc_ev list res" where
  "mtx_keyboard_callback standby used hotkey data len s =
     (if cmdbyte_kbd_enabled s \<and> \<not> hotkey then
        (case load_seq data 0 (unat len) of
           Inl e \<Rightarrow> Inl e
         | Inr bytes \<Rightarrow> Inr (concat (map (\<lambda>(i, b). send_kb_to_host (standby i) (used i) b) (enumerate 0 bytes))))
      else Inr [])"

section \<open>Initialisation, enabling, host interrupts\<close>

text \<open>The arguments are the results of the three device initialisations.\<close>

definition kbc_init :: "kbc_cfg \<Rightarrow> int \<Rightarrow> int \<Rightarrow> int \<Rightarrow> rc" where
  "kbc_init cfg mouse keyboard matrix =
     (let ps2_mb_err = (if CONFIG_PS2_MOUSE cfg then mouse else 0);
          ps2_kb_err = (if CONFIG_PS2_KEYBOARD cfg then keyboard else 0)
      in if ps2_mb_err \<noteq> 0 \<or> ps2_kb_err \<noteq> 0 then Some ENOTSUP
         else if CONFIG_KSCAN_EC cfg \<and> matrix \<noteq> 0 then Some ENOTSUP
         else None)"

definition kbc_disable_interface :: "kbc_cfg \<Rightarrow> int \<Rightarrow> kbc \<Rightarrow> int \<times> kbc_ev list \<times> kbc" where
  "kbc_disable_interface cfg ret s =
     (ret,
      (if CONFIG_PS2_KEYBOARD cfg then [Ps2_keyboard_disable] else []) @
      (if CONFIG_PS2_MOUSE cfg then [Ps2_mouse_disable] else []) @
      kscan cfg Kbs_keyboard_disable @ [Espihub_kbc_write E8042_PAUSE_IRQ 0],
      cmdbyte_disable_mb (cmdbyte_disable_kbd s))"

definition kbc_enable_interface :: "kbc_cfg \<Rightarrow> int \<Rightarrow> kbc \<Rightarrow> int \<times> kbc_ev list \<times> kbc" where
  "kbc_enable_interface cfg ret s =
     (ret,
      (if CONFIG_PS2_KEYBOARD cfg then [Ps2_keyboard_enable] else []) @
      (if CONFIG_PS2_MOUSE cfg then [Ps2_mouse_enable] else []) @
      kscan cfg Kbs_keyboard_enable @ [Espihub_kbc_write E8042_RESUME_IRQ 0],
      cmdbyte_enable_mb (cmdbyte_enable_kbd s))"

text \<open>
  \<open>S0i3SelfRestore\<close>: \<open>opt\<close> is the option \<open>espi_ResetInS0i3\<close>, \<open>ms\<close> the modern standby flag,
  \<open>wake\<close> the flag \<open>g_ui8isKbcWakeEvent\<close>, \<open>ret\<close> the result of the last eSPI write. The C
  function returns its \<open>int\<close> through an 8-bit type.
\<close>

definition S0i3SelfRestore :: "kbc_cfg \<Rightarrow> bool \<Rightarrow> bool \<Rightarrow> bool \<Rightarrow> nat \<Rightarrow> int \<Rightarrow> u8 \<Rightarrow>
    u8 \<times> kbc_ev list \<times> u8" where
  "S0i3SelfRestore cfg opt ms standby used ret wake =
     (if opt \<and> CONFIG_SLEEP cfg \<and> ms \<and> wake = 1 then
        (of_int ret,
         send_kb_to_host standby used 0x65 @
         [Espihub_kbc_write E8042_PAUSE_IRQ 0, Espihub_kbc_write E8042_RESUME_IRQ 0,
          Espihub_kbc_write E8042_PAUSE_IRQ 0, Espihub_kbc_write E8042_RESUME_IRQ 0],
         if ret \<noteq> 0 then wake else 0)
      else (0, [], wake))"

definition kbc_handler :: "u8 \<Rightarrow> u8 \<Rightarrow> kbc \<Rightarrow> kbc_ev list \<times> kbc" where
  "kbc_handler data cmd_data s =
     (if has_prev s \<and> last_data s = data \<and> last_cmd s = cmd_data
      then ([], s\<lparr>has_prev := False\<rparr>)
      else ([Msgq_put_from_host data cmd_data],
            s\<lparr>last_data := data, last_cmd := cmd_data, has_prev := True\<rparr>))"

fun kbc_handler_all :: "(u8 \<times> u8) list \<Rightarrow> kbc \<Rightarrow> kbc_ev list \<times> kbc" where
  "kbc_handler_all [] s = ([], s)"
| "kbc_handler_all (x # xs) s =
     (case kbc_handler (fst x) (snd x) s of
        (evs, s1) \<Rightarrow> (case kbc_handler_all xs s1 of (evs', s2) \<Rightarrow> (evs @ evs', s2)))"

end
