(* ===== verification/Kbc_Props.thy ===== *)
theory Kbc_Props
  imports Kbc
begin

text \<open>
  Correctness of the 8042 model: no reply overruns its buffers whatever the host sends, the
  bytes of a reply are written or queued in order as far as the queue has room, a resend command repeats the last
  reply, and the port-0x60 state machine.
\<close>

section \<open>Replies fit their buffers\<close>

definition kbc_wf :: "kbc \<Rightarrow> bool" where
  "kbc_wf s \<longleftrightarrow> length (resend_cmd s) = MAX_HOST_REQ_SIZE \<and> unat (resend_cmd_len s) \<le> MAX_HOST_REQ_SIZE"

lemmas cmdbyte_ops = write_command_byte_def cmdbyte_enable_kbd_def cmdbyte_disable_kbd_def
  cmdbyte_enable_mb_def cmdbyte_disable_mb_def to_port_def

definition same_resend :: "kbc \<Rightarrow> kbc \<Rightarrow> bool" where
  "same_resend s s' \<longleftrightarrow> resend_cmd s' = resend_cmd s \<and> resend_cmd_len s' = resend_cmd_len s"

lemma kbc_set_leds_resend [simp]:
  "resend_cmd (fst (kbc_set_leds cfg env d s)) = resend_cmd s"
  "resend_cmd_len (fst (kbc_set_leds cfg env d s)) = resend_cmd_len s"
  by (simp_all add: kbc_set_leds_def set_led_def Let_def)

lemma command_switch_ok:
  assumes "command_switch c cfg s = (s', evs, bytes)"
  shows "length bytes \<le> 1" "same_resend s s'"
  using assms by (auto simp: command_switch_def cmdbyte_ops same_resend_def split: if_splits)

lemma write_cmd_byte_data_resend: "write_cmd_byte_data d s = (s', evs) \<Longrightarrow> same_resend s s'"
  by (auto simp: write_cmd_byte_data_def Let_def cmdbyte_ops same_resend_def split: if_splits)

lemma default_data_ok:
  assumes "kbc_wf s"
  shows "\<exists>s' evs bytes save. default_data cfg d s = Inr (s', evs, bytes, save) \<and>
     length bytes \<le> MAX_HOST_REQ_SIZE \<and> same_resend s s'"
  using assms
  by (auto simp: default_data_def kbc_wf_def access cmdbyte_ops same_resend_def MAX_HOST_REQ_SIZE_def)

lemma data_switch_ok:
  assumes "kbc_wf s"
  shows "\<exists>s' evs bytes save. data_switch cfg env d s = Inr (s', evs, bytes, save) \<and>
     length bytes \<le> MAX_HOST_REQ_SIZE \<and> same_resend s s'"
proof (cases "data_port_state s")
  case DEFAULT_STATE
  then show ?thesis using default_data_ok [OF assms] by (simp add: data_switch_def)
next
  case WRITE_CMD_BYTE_STATE
  then show ?thesis
    by (cases "write_cmd_byte_data d s") (auto simp: data_switch_def dest: write_cmd_byte_data_resend)
next
  case SET_LEDS_STATE
  then show ?thesis
    using kbc_set_leds_resend [of cfg env d s]
    by (cases "kbc_set_leds cfg env d s")
       (auto simp: data_switch_def same_resend_def to_port_def MAX_HOST_REQ_SIZE_def)
qed (auto simp: data_switch_def same_resend_def to_port_def MAX_HOST_REQ_SIZE_def)

lemma small_len: "n \<le> MAX_HOST_REQ_SIZE \<Longrightarrow> unat (of_nat n :: u8) = n"
  by (simp add: MAX_HOST_REQ_SIZE_def unat_of_nat)

lemma process_keyboard_data_ok:
  assumes wf: "kbc_wf s" and len: "length output = MAX_HOST_REQ_SIZE"
    and sw: "data_switch cfg env d s = Inr (s1, evs, bytes, save)"
  shows "process_keyboard_data cfg env d output s =
     Inr (if bytes \<noteq> [] \<and> save
          then s1\<lparr>resend_cmd := bytes @ drop (length bytes) (resend_cmd s),
                  resend_cmd_len := of_nat (length bytes)\<rparr>
          else s1,
          evs, bytes @ drop (length bytes) output, of_nat (length bytes))"
    and "length bytes \<le> MAX_HOST_REQ_SIZE" "same_resend s s1"
proof -
  show *: "length bytes \<le> MAX_HOST_REQ_SIZE" "same_resend s s1"
    using data_switch_ok [OF wf, of cfg env d] sw by auto
  moreover have "of_nat (length bytes) = (0 :: u8) \<longleftrightarrow> bytes = []"
    using small_len [OF *(1)] by (auto simp: unat_eq_0 [symmetric])
  ultimately show "process_keyboard_data cfg env d output s =
     Inr (if bytes \<noteq> [] \<and> save
          then s1\<lparr>resend_cmd := bytes @ drop (length bytes) (resend_cmd s),
                  resend_cmd_len := of_nat (length bytes)\<rparr>
          else s1,
          evs, bytes @ drop (length bytes) output, of_nat (length bytes))"
    using wf len small_len [OF *(1)]
    by (simp add: process_keyboard_data_def sw access Let_def kbc_wf_def same_resend_def)
qed

lemma kbc_process_ok:
  assumes wf: "kbc_wf s"
  shows "\<exists>s' evs bytes. kbc_process cfg env hb s =
     Inr (s', evs, bytes @ replicate (MAX_HOST_REQ_SIZE - length bytes) 0, of_nat (length bytes)) \<and>
     length bytes \<le> MAX_HOST_REQ_SIZE \<and> kbc_wf s'"
proof (cases "hb_cmd hb = 0")
  case True
  obtain s1 evs bytes save where sw: "data_switch cfg env (hb_data hb) s = Inr (s1, evs, bytes, save)"
    using data_switch_ok [OF wf] by blast
  note P = process_keyboard_data_ok [OF wf length_replicate sw]
  let ?s = "if bytes \<noteq> [] \<and> save
          then s1\<lparr>resend_cmd := bytes @ drop (length bytes) (resend_cmd s),
                  resend_cmd_len := of_nat (length bytes)\<rparr>
          else s1"
  have "kbc_wf ?s"
    using wf P(2,3) small_len [OF P(2)] by (auto simp: kbc_wf_def same_resend_def)
  then show ?thesis
    using P True by (intro exI [of _ ?s] exI [of _ evs] exI [of _ bytes]) (simp add: kbc_process_def)
next
  case False
  obtain s1 evs bytes where sw: "command_switch (hb_data hb) cfg s = (s1, evs, bytes)"
    using prod_cases3 by blast
  note P = command_switch_ok [OF sw]
  have wf1: "kbc_wf s1" using P(2) wf by (simp add: kbc_wf_def same_resend_def)
  have "kbc_process cfg env hb s = Inr (s, [], replicate MAX_HOST_REQ_SIZE 0, 0) \<or>
        kbc_process cfg env hb s =
          Inr (s1, evs, bytes @ replicate (MAX_HOST_REQ_SIZE - length bytes) 0, of_nat (length bytes))"
    using P(1) False by (auto simp: kbc_process_def process_keyboard_command_def sw access MAX_HOST_REQ_SIZE_def)
  moreover have "length bytes \<le> MAX_HOST_REQ_SIZE" using P(1) by (simp add: MAX_HOST_REQ_SIZE_def)
  ultimately show ?thesis
  proof (elim disjE)
    assume "kbc_process cfg env hb s = Inr (s, [], replicate MAX_HOST_REQ_SIZE 0, 0)"
    then show ?thesis
      using wf by (intro exI [of _ s] exI [of _ "[]"]) simp
  next
    assume "kbc_process cfg env hb s =
          Inr (s1, evs, bytes @ replicate (MAX_HOST_REQ_SIZE - length bytes) 0, of_nat (length bytes))"
      and "length bytes \<le> MAX_HOST_REQ_SIZE"
    then show ?thesis using wf1 by blast
  qed
qed

section \<open>The reply loop\<close>

fun kb_write :: "kbc_ev \<Rightarrow> u32 list" where
  "kb_write (Espihub_kbc_write E8042_WRITE_KB_CHAR d) = [d]"
| "kb_write _ = []"

fun kb_queue :: "kbc_ev \<Rightarrow> u8 list" where
  "kb_queue (Msgq_put_to_host d) = [d]"
| "kb_queue _ = []"

fun kb_put :: "kbc_ev \<Rightarrow> u8 list" where
  "kb_put (Msgq_put_to_host d) = [d]"
| "kb_put (Msgq_full_to_host d) = [d]"
| "kb_put _ = []"

text \<open>
  The bytes a trace writes to the host, the bytes it queues for the host, and the bytes it tries
  to queue. Of the last, \<open>kept used bs\<close> are those that find room when \<open>used n\<close> bytes stand in the
  queue at the n-th.
\<close>

primrec kb_puts :: "kbc_ev list \<Rightarrow> u8 list" where
  "kb_puts [] = []"
| "kb_puts (e # evs) = kb_put e @ kb_puts evs"

definition kept :: "(nat \<Rightarrow> nat) \<Rightarrow> nat \<Rightarrow> u8 list \<Rightarrow> u8 list" where
  "kept used n bs = map snd (filter (\<lambda>(i, b). used i < TO_HOST_LEN) (enumerate n bs))"

lemma kept_simps [simp]:
  "kept used n [] = []"
  "kept used n (b # bs) = (if used n < TO_HOST_LEN then b # kept used (Suc n) bs else kept used (Suc n) bs)"
  by (simp_all add: kept_def)

lemma kept_all: "\<forall>i. n \<le> i \<and> i < n + length bs \<longrightarrow> used i < TO_HOST_LEN \<Longrightarrow> kept used n bs = bs"
  by (induction bs arbitrary: n) auto

primrec kb_writes :: "kbc_ev list \<Rightarrow> u32 list" where
  "kb_writes [] = []"
| "kb_writes (e # evs) = kb_write e @ kb_writes evs"

primrec kb_queued :: "kbc_ev list \<Rightarrow> u8 list" where
  "kb_queued [] = []"
| "kb_queued (e # evs) = kb_queue e @ kb_queued evs"

lemma kb_traces_append [simp]:
  "kb_writes (xs @ ys) = kb_writes xs @ kb_writes ys"
  "kb_queued (xs @ ys) = kb_queued xs @ kb_queued ys"
  "kb_puts (xs @ ys) = kb_puts xs @ kb_puts ys"
  by (induction xs) simp_all

lemma reply_loop_ok:
  assumes "i < out_len" "out_len \<le> length buf" "retries < MAX_TO_HOST_RETRIES"
  shows "\<exists>evs n r. reply_loop env buf out_len poll i retries = Inr (evs, n, r) \<and>
     i \<le> n \<and> kb_writes evs = map ucast (take (n - i) (drop i buf)) \<and> kb_queued evs = [] \<and> kb_puts evs = [] \<and>
     (n = out_len \<and> r = 0 \<or> n < out_len \<and> r = MAX_TO_HOST_RETRIES)"
  using assms
proof (induction env buf out_len poll i retries rule: reply_loop.induct)
  case (1 env buf out_len poll i retries)
  have d: "drop i buf = buf ! i # drop (Suc i) buf" using 1(2,3) by (simp add: Cons_nth_drop_Suc)
  have ld: "ld buf i = Inr (buf ! i)" using 1(2,3) by (simp add: access)
  show ?case
  proof (cases "env_obf env poll")
    case True
    show ?thesis
    proof (cases "retries + 1 < MAX_TO_HOST_RETRIES")
      case less: True
      from 1(1) [OF ld refl refl refl refl] True less 1(2-)
      obtain evs n r where "reply_loop env buf out_len (poll + 1) i (retries + 1) = Inr (evs, n, r)"
        "i \<le> n" "kb_writes evs = map ucast (take (n - i) (drop i buf))" "kb_queued evs = []" "kb_puts evs = []"
        "n = out_len \<and> r = 0 \<or> n < out_len \<and> r = MAX_TO_HOST_RETRIES"
        by auto
      then show ?thesis
        using True less 1(2) by (subst reply_loop.simps) (simp add: ld Let_def)
    next
      case False
      then show ?thesis
        using True 1(2,4) by (subst reply_loop.simps) (simp add: ld Let_def)
    qed
  next
    case False
    have r0: "0 < MAX_TO_HOST_RETRIES" by (simp add: MAX_TO_HOST_RETRIES_def)
    show ?thesis
    proof (cases "i + 1 < out_len")
      case less: True
      from 1(1) [OF ld refl refl refl refl] False less 1(2-) r0
      obtain evs n r where IH: "reply_loop env buf out_len (poll + 1) (i + 1) 0 = Inr (evs, n, r)"
        "i + 1 \<le> n" "kb_writes evs = map ucast (take (n - (i + 1)) (drop (i + 1) buf))" "kb_queued evs = []" "kb_puts evs = []"
        "n = out_len \<and> r = 0 \<or> n < out_len \<and> r = MAX_TO_HOST_RETRIES"
        by auto
      have "take (n - i) (drop i buf) = buf ! i # take (n - (i + 1)) (drop (i + 1) buf)"
        using IH(2) by (simp add: d take_Cons')
      then show ?thesis
        using IH False less r0 by (subst reply_loop.simps) (simp add: ld Let_def)
    next
      case eq: False
      then have "out_len = i + 1" using 1(2) by simp
      then show ?thesis
        using False by (subst reply_loop.simps) (simp add: ld Let_def d)
    qed
  qed
qed

lemma queue_rest_ok:
  "kb_queued (queue_rest env n bs) = kept (env_used env) n (kb_puts (queue_rest env n bs))"
  "kb_writes (queue_rest env n bs) = []"
  "length (kb_puts (queue_rest env n bs)) = length bs"
  "\<forall>k. \<not> env_standby env k \<Longrightarrow> kb_puts (queue_rest env n bs) = bs"
  by (induction bs arbitrary: n) (simp_all add: send_kb_to_host_def)

definition quiet :: "kbc_ev list \<Rightarrow> bool" where
  "quiet evs \<longleftrightarrow> kb_writes evs = [] \<and> kb_queued evs = [] \<and> kb_puts evs = []"

lemma quiet_mouse_reset: "quiet (mouse_reset_loop pending n)"
proof (induction pending n rule: mouse_reset_loop.induct)
  case (1 pending n)
  then show ?case by (subst mouse_reset_loop.simps) (auto simp: quiet_def)
qed

lemma quiet_app [simp]: "quiet (xs @ ys) \<longleftrightarrow> quiet xs \<and> quiet ys"
  by (auto simp: quiet_def)

lemma quiet_Cons [simp]: "quiet (e # evs) \<longleftrightarrow> kb_write e = [] \<and> kb_queue e = [] \<and> kb_put e = [] \<and> quiet evs"
  by (auto simp: quiet_def)

lemma quiet_simps [simp]:
  "quiet []" "quiet purge_kb_queue" "quiet (ps2_kb cfg d)"
  "quiet (kscan cfg Kbs_keyboard_set_default)" "quiet (kscan cfg (Kbs_write_typematic d))"
  "quiet (send_to_mouse cfg env d)"
  using quiet_mouse_reset [of "env_ps2_reset env" 0]
  by (simp_all add: quiet_def purge_kb_queue_def ps2_kb_def kscan_def send_to_mouse_def)

lemma quiet_leds: "kbc_set_leds cfg env d s = (s', evs) \<Longrightarrow> quiet evs"
  by (auto simp: kbc_set_leds_def set_led_def Let_def quiet_def split: if_splits)

lemma quiet_cmd_byte: "write_cmd_byte_data d s = (s', evs) \<Longrightarrow> quiet evs"
  by (auto simp: write_cmd_byte_data_def Let_def quiet_def purge_kb_queue_def split: if_splits)

lemma quiet_default: "default_data cfg d s = Inr (s', evs, bytes, save) \<Longrightarrow> quiet evs"
  by (auto simp: default_data_def split: if_splits sum.splits)

lemma quiet_data_switch: "data_switch cfg env d s = Inr (s', evs, bytes, save) \<Longrightarrow> quiet evs"
  by (auto simp: data_switch_def dest: quiet_leds quiet_cmd_byte quiet_default
      split: data_port.splits if_splits prod.splits)

lemma quiet_command_switch: "command_switch c cfg s = (s', evs, bytes) \<Longrightarrow> quiet evs"
  by (auto simp: command_switch_def split: if_splits)

lemma quiet_process:
  assumes "kbc_wf s" "kbc_process cfg env hb s = Inr (s', evs, buf, n)"
  shows "quiet evs"
proof (cases "hb_cmd hb = 0")
  case True
  obtain s1 evs1 bytes save where sw: "data_switch cfg env (hb_data hb) s = Inr (s1, evs1, bytes, save)"
    using data_switch_ok [OF assms(1)] by blast
  then show ?thesis
    using process_keyboard_data_ok(1) [OF assms(1) length_replicate sw] assms(2) True quiet_data_switch [OF sw]
    by (simp add: kbc_process_def)
next
  case False
  then show ?thesis
    using assms(2)
    by (auto simp: kbc_process_def process_keyboard_command_def dest: quiet_command_switch
        split: if_splits prod.splits sum.splits)
qed

text \<open>
  One host byte: the reply is written in order as far as the host takes it, the rest is put into
  the queue, and what finds the queue full is lost.
\<close>

lemma handle_ok:
  assumes wf: "kbc_wf s"
  shows "\<exists>s' evs0 buf n evs. kbc_process cfg env hb s = Inr (s', evs0, buf, n) \<and> kbc_wf s' \<and>
     unat n \<le> MAX_HOST_REQ_SIZE \<and> handle_from_to_host cfg env hb s = Inr (evs, s') \<and>
     length (kb_writes evs) + length (kb_puts evs) = unat n \<and> kb_queued evs = kept (env_used env) 0 (kb_puts evs) \<and>
     ((\<forall>k. \<not> env_standby env k) \<longrightarrow>
        kb_writes evs @ map ucast (kb_puts evs) = map ucast (take (unat n) buf))"
proof -
  obtain s' evs0 bytes where P: "kbc_process cfg env hb s =
     Inr (s', evs0, bytes @ replicate (MAX_HOST_REQ_SIZE - length bytes) 0, of_nat (length bytes))"
    and len: "length bytes \<le> MAX_HOST_REQ_SIZE" and wf': "kbc_wf s'"
    using kbc_process_ok [OF wf] by blast
  let ?buf = "bytes @ replicate (MAX_HOST_REQ_SIZE - length bytes) 0"
  let ?n = "of_nat (length bytes) :: u8"
  have q: "kb_writes evs0 = []" "kb_queued evs0 = []" "kb_puts evs0 = []"
    using quiet_process [OF wf P] by (simp_all add: quiet_def)
  have n: "unat ?n = length bytes" using small_len [OF len] .
  have "\<exists>evs. handle_from_to_host cfg env hb s = Inr (evs, s') \<and>
     length (kb_writes evs) + length (kb_puts evs) = unat ?n \<and> kb_queued evs = kept (env_used env) 0 (kb_puts evs) \<and>
     ((\<forall>k. \<not> env_standby env k) \<longrightarrow>
        kb_writes evs @ map ucast (kb_puts evs) = map ucast (take (unat ?n) ?buf))"
  proof (cases "bytes = []")
    case True
    then show ?thesis using P q by (simp add: handle_from_to_host_def)
  next
    case False
    then have nz: "?n \<noteq> 0" using n by (auto simp: unat_eq_0 [symmetric])
    obtain evs1 m r where R: "reply_loop env ?buf (length bytes) 0 0 0 = Inr (evs1, m, r)"
      "kb_writes evs1 = map ucast (take m ?buf)" "kb_queued evs1 = []" "kb_puts evs1 = []"
      "m = length bytes \<and> r = 0 \<or> m < length bytes \<and> r = MAX_TO_HOST_RETRIES"
      using reply_loop_ok [of 0 "length bytes" ?buf 0 env 0] False by (auto simp: MAX_TO_HOST_RETRIES_def)
    define rest where "rest = drop m bytes"
    have rest: "(if r = MAX_RST_ATTEMPTS then load_seq ?buf m (unat ?n - m) else Inr []) = Inr rest"
      using R(5) by (auto simp: n rest_def access MAX_RST_ATTEMPTS_def MAX_TO_HOST_RETRIES_def)
    have m: "m \<le> length bytes" using R(5) by auto
    let ?evs = "evs0 @ [Msleep 5] @ evs1 @ queue_rest env 0 rest"
    have "handle_from_to_host cfg env hb s = Inr (?evs, s')"
      using P nz n R(1) rest by (simp add: handle_from_to_host_def)
    moreover have "kb_writes ?evs = map ucast (take m bytes)" using q R(2) m queue_rest_ok(2) by simp
    moreover have "kb_queued ?evs = kb_queued (queue_rest env 0 rest)" "kb_puts ?evs = kb_puts (queue_rest env 0 rest)"
      using q R(3,4) by simp_all
    moreover have "map ucast (take m bytes) @ map ucast rest = (map ucast bytes :: u32 list)"
      by (simp add: rest_def flip: map_append)
    ultimately show ?thesis
      using m n queue_rest_ok(1,3,4) [of env 0 rest] by (intro exI [of _ ?evs]) (auto simp: rest_def)
  qed
  then show ?thesis using P wf' n len by fastforce
qed

interpretation kbcm: safe_machine
  "\<lambda>s (cfg, env, hb). handle_from_to_host cfg env hb s" kbc_wf "\<lambda>_. True"
  by unfold_locales (use handle_ok in fastforce)

section \<open>Properties\<close>

definition demo_cfg :: kbc_cfg where
  "demo_cfg = \<lparr>CONFIG_PS2_MOUSE = True, CONFIG_PS2_KEYBOARD = False, CONFIG_KSCAN_EC = True,
     CONFIG_SLEEP = True, led_pin = (\<lambda>_. True), caps_active_high = False\<rparr>"

definition demo_env :: kbc_env where
  "demo_env = \<lparr>env_ps2_reset = (\<lambda>n. n < 2), env_obf = (\<lambda>n. n \<noteq> 1), env_gpio = (\<lambda>_ _. 0),
     env_standby = (\<lambda>_. False), env_used = (\<lambda>k. k)\<rparr>"

lemma kbc_wf_initial: "kbc_wf kbc_initial"
  by (simp add: kbc_wf_def kbc_initial_def)

text \<open>
  C5. Whatever bytes the host writes to ports 0x60 and 0x64, in whatever configuration and
  however the hardware answers, the 8042 emulation never writes or reads outside its reply and
  resend buffers, and every reply loop ends.
\<close>

theorem kbc_never_faults:
  "\<exists>os s'. run_res (\<lambda>s (cfg, env, hb). handle_from_to_host cfg env hb s) kbc_initial inputs = Inr (os, s') \<and>
     length os = length inputs \<and> length (resend_cmd s') = MAX_HOST_REQ_SIZE \<and>
     unat (resend_cmd_len s') \<le> MAX_HOST_REQ_SIZE"
  using kbcm.run_safe [OF kbc_wf_initial, of inputs] by (fastforce simp: kbc_wf_def list_all_iff)

text \<open>
  C11. A reply reaches the host complete and in order, unless standby or a full queue comes in
  between: for every pattern of output-buffer-full readings, outside modern standby (in which each
  queued byte becomes 0x65), the bytes written to the output buffer followed by the bytes put into
  the queue are exactly the reply the command handler computed. Of those put, the queue takes
  exactly those that find fewer than 16 bytes in it; the others are lost. When the queue held at
  most \<open>f\<close> bytes before, nothing but this reply is added meanwhile and \<open>f\<close> and the reply fit into
  the 16 bytes, the whole reply is written or queued.
\<close>

theorem kbc_reply_delivered:
  assumes "kbc_wf s" "\<forall>k. \<not> env_standby env k"
  shows "\<exists>s' evs0 buf n evs. kbc_process cfg env hb s = Inr (s', evs0, buf, n) \<and>
     handle_from_to_host cfg env hb s = Inr (evs, s') \<and>
     kb_writes evs @ map ucast (kb_puts evs) = map ucast (take (unat n) buf) \<and>
     kb_queued evs = map snd (filter (\<lambda>(i, b). env_used env i < TO_HOST_LEN) (enumerate 0 (kb_puts evs))) \<and>
     (\<forall>f. (\<forall>k. env_used env k \<le> f + k) \<and> f + unat n \<le> TO_HOST_LEN \<longrightarrow>
        kb_writes evs @ map ucast (kb_queued evs) = map ucast (take (unat n) buf))"
proof -
  obtain s' evs0 buf n evs where H: "kbc_process cfg env hb s = Inr (s', evs0, buf, n)"
    "handle_from_to_host cfg env hb s = Inr (evs, s')" "length (kb_writes evs) + length (kb_puts evs) = unat n"
    "kb_queued evs = kept (env_used env) 0 (kb_puts evs)"
    "kb_writes evs @ map ucast (kb_puts evs) = map ucast (take (unat n) buf)"
    using handle_ok [OF assms(1), of cfg env hb] assms(2) by blast
  have "kb_queued evs = kb_puts evs" if "\<forall>k. env_used env k \<le> f + k" "f + unat n \<le> TO_HOST_LEN" for f
  proof -
    have "env_used env i < TO_HOST_LEN" if "i < length (kb_puts evs)" for i
      using \<open>\<forall>k. env_used env k \<le> f + k\<close> [rule_format, of i] \<open>f + unat n \<le> TO_HOST_LEN\<close> that H(3) by linarith
    then show ?thesis unfolding H(4) by (intro kept_all) simp
  qed
  then have "\<forall>f. (\<forall>k. env_used env k \<le> f + k) \<and> f + unat n \<le> TO_HOST_LEN \<longrightarrow>
        kb_writes evs @ map ucast (kb_queued evs) = map ucast (take (unat n) buf)" using H(5) by auto
  with H(1,2,5) H(4) [unfolded kept_def] show ?thesis by blast
qed

theorem kbc_reply_delivered_witness:
  "\<exists>s' evs0 buf n evs. kbc_process demo_cfg demo_env \<lparr>hb_data = 0xf2, hb_cmd = 0\<rparr> kbc_initial = Inr (s', evs0, buf, n) \<and>
     handle_from_to_host demo_cfg demo_env \<lparr>hb_data = 0xf2, hb_cmd = 0\<rparr> kbc_initial = Inr (evs, s') \<and>
     kb_writes evs @ map ucast (kb_puts evs) = map ucast (take (unat n) buf)"
  using kbc_reply_delivered [of kbc_initial demo_env demo_cfg "\<lparr>hb_data = 0xf2, hb_cmd = 0\<rparr>"]
  by (simp add: kbc_wf_initial demo_env_def) blast

text \<open>
  The resend command repeats the last reply: after a data byte that produced a reply and
  left the data port in its default state, \<open>KBC_8042_RESEND\<close> answers with the same bytes and
  changes nothing, so it can be repeated.
\<close>

theorem kbc_resend_repeats:
  assumes "kbc_wf s" "length output = MAX_HOST_REQ_SIZE" "length output' = MAX_HOST_REQ_SIZE"
    and "process_keyboard_data cfg env d output s = Inr (s1, evs, buf, n)" "n \<noteq> 0"
    and "d \<noteq> 0xfe \<or> data_port_state s \<noteq> DEFAULT_STATE" "data_port_state s1 = DEFAULT_STATE"
  shows "process_keyboard_data cfg' env' 0xfe output' s1 =
     Inr (s1, [], take (unat n) buf @ drop (unat n) output', n)"
proof -
  obtain s0 evs0 bytes save where sw: "data_switch cfg env d s = Inr (s0, evs0, bytes, save)"
    using data_switch_ok [OF assms(1)] by blast
  note P = process_keyboard_data_ok [OF assms(1,2) sw]
  have save: "save"
    using sw assms(6)
    by (auto simp: data_switch_def default_data_def split: data_port.splits if_splits prod.splits)
  have ne: "bytes \<noteq> []" using P(1) assms(4,5) by auto
  have s1: "s1 = s0\<lparr>resend_cmd := bytes @ drop (length bytes) (resend_cmd s),
       resend_cmd_len := of_nat (length bytes)\<rparr>" and n: "n = of_nat (length bytes)"
    and buf: "buf = bytes @ drop (length bytes) output"
    using P(1) assms(4) save ne by auto
  have un: "unat n = length bytes" using small_len [OF P(2)] n by simp
  have len1: "length (resend_cmd s1) = MAX_HOST_REQ_SIZE"
    using s1 P(2) assms(1) by (simp add: kbc_wf_def)
  have "data_switch cfg' env' 0xfe s1 = Inr (s1, [], bytes, False)"
    using assms(7) un n P(2) len1 s1
    by (simp add: data_switch_def default_data_def access small_len [OF P(2)])
  moreover have "kbc_wf s1" using len1 s1 small_len [OF P(2)] P(2) by (simp add: kbc_wf_def)
  ultimately show ?thesis
    using process_keyboard_data_ok(1) [of s1 output' cfg' env' "0xfe" s1 "[]" bytes False] assms(3) un n buf
    by simp
qed

text \<open>
  The data port as a table: the state a data byte leads to. A command of two bytes waits for
  one parameter; every parameter leads back to the default state, but for the hot-key state.
\<close>

definition data_port_next :: "data_port \<Rightarrow> u8 \<Rightarrow> data_port" where
  "data_port_next p d =
     (if p = HOTKEY_EVENT_STATE then HOTKEY_EVENT_STATE
      else if p \<noteq> DEFAULT_STATE then DEFAULT_STATE
      else if d = 0xed then SET_LEDS_STATE
      else if d = 0xf0 then SET_GET_SCANCODE_STATE
      else if d = 0xf3 then SET_TYPEMATIC_RATE_STATE
      else DEFAULT_STATE)"

lemma data_switch_port:
  assumes "data_switch cfg env d s = Inr (s', evs, bytes, save)"
  shows "data_port_state s' = data_port_next (data_port_state s) d"
proof (cases "data_port_state s")
  case DEFAULT_STATE
  then show ?thesis
    using assms
    by (auto simp: data_switch_def default_data_def data_port_next_def cmdbyte_ops split: if_splits sum.splits)
next
  case WRITE_CMD_BYTE_STATE
  then show ?thesis
    using assms
    by (auto simp: data_switch_def data_port_next_def write_cmd_byte_data_def Let_def to_port_def split: prod.splits)
qed (use assms in \<open>auto simp: data_switch_def data_port_next_def to_port_def split: if_splits prod.splits\<close>)

lemma process_data_port:
  assumes "kbc_wf s" "hb_cmd hb = 0" "kbc_process cfg env hb s = Inr (s', evs, buf, n)"
  shows "data_port_state s' = data_port_next (data_port_state s) (hb_data hb)"
proof -
  obtain s1 evs1 bytes save where sw: "data_switch cfg env (hb_data hb) s = Inr (s1, evs1, bytes, save)"
    using data_switch_ok [OF assms(1)] by blast
  then show ?thesis
    using process_keyboard_data_ok(1) [OF assms(1) length_replicate sw] assms(2,3) data_switch_port [OF sw]
    by (auto simp: kbc_process_def)
qed

text \<open>
  Every exchange on port 0x60 is complete after at most one parameter byte: from any state
  but the hot-key state, a data byte that is not one of the three two-byte commands in the
  default state leaves the port in the default state, and after a two-byte command the next
  data byte does.
\<close>

theorem kbc_exchange_completes:
  assumes "kbc_wf s" "hb_cmd a = 0" "hb_cmd b = 0" "data_port_state s \<noteq> HOTKEY_EVENT_STATE"
  shows "\<exists>evs1 s1. handle_from_to_host cfg env a s = Inr (evs1, s1) \<and>
     (data_port_state s1 = DEFAULT_STATE \<or>
      data_port_state s = DEFAULT_STATE \<and> hb_data a \<in> {0xed, 0xf0, 0xf3} \<and>
      (\<exists>evs2 s2. handle_from_to_host cfg' env' b s1 = Inr (evs2, s2) \<and> data_port_state s2 = DEFAULT_STATE))"
proof -
  obtain s1 e1 b1 n1 evs1 where A: "kbc_process cfg env a s = Inr (s1, e1, b1, n1)" "kbc_wf s1"
    "handle_from_to_host cfg env a s = Inr (evs1, s1)"
    using handle_ok [OF assms(1), of cfg env a] by blast
  obtain s2 e2 b2 n2 evs2 where B: "kbc_process cfg' env' b s1 = Inr (s2, e2, b2, n2)"
    "handle_from_to_host cfg' env' b s1 = Inr (evs2, s2)"
    using handle_ok [OF A(2), of cfg' env' b] by blast
  show ?thesis
    using A B process_data_port [OF assms(1,2) A(1)] process_data_port [OF A(2) assms(3) B(1)] assms(4)
    by (auto simp: data_port_next_def split: if_splits)
qed

text \<open>
  The hot-key command is a trap for the data port: once the host has sent command 0xC3,
  every later data byte is swallowed without a reply and leaves the port in the hot-key state,
  so keyboard commands are ignored until another port-0x64 command changes the state.
\<close>

theorem kbc_hotkey_swallows:
  assumes "data_port_state s = HOTKEY_EVENT_STATE" "list_all (\<lambda>(cfg, env, hb). hb_cmd hb = 0) inputs"
  shows "run_res (\<lambda>s (cfg, env, hb). handle_from_to_host cfg env hb s) s inputs =
     Inr (replicate (length inputs) [], s)"
  using assms(2)
proof (induction inputs)
  case (Cons x inputs)
  obtain cfg env hb where x: "x = (cfg, env, hb)" using prod_cases3 by blast
  then have "handle_from_to_host cfg env hb s = Inr ([], s)"
    using Cons.prems assms(1)
    by (simp add: handle_from_to_host_def kbc_process_def process_keyboard_data_def data_switch_def Let_def)
  then show ?case using Cons x by simp
qed simp

lemma dis_flags:
  "bit KBC_8042_KBD_DIS k \<longleftrightarrow> k = 4" "bit KBC_8042_MOUSE_DIS k \<longleftrightarrow> k = 5"
  "x AND KBC_8042_KBD_DIS = 0 \<longleftrightarrow> \<not> bit x 4" "x AND KBC_8042_MOUSE_DIS = 0 \<longleftrightarrow> \<not> bit x 5"
  using and_flag [of x 4] and_flag [of x 5]
  by (auto simp only: KBC_8042_KBD_DIS_def KBC_8042_MOUSE_DIS_def bit_flag) simp_all

text \<open>
  Writing the command byte and reading it back: after \<open>KBC_8042_WRITE_CMD_BYTE\<close> and a
  parameter \<open>d\<close>, \<open>KBC_8042_READ_CMD_BYTE\<close> returns \<open>d\<close> with bit 5 set, whatever bit 5 of \<open>d\<close>
  was. The keyboard interface is enabled exactly when bit 4 of \<open>d\<close> is clear; the mouse
  interface always ends up disabled, also when the host asked for it to be enabled.
\<close>

theorem kbc_command_byte_readback:
  "\<exists>s1 s2 evs. kbc_process cfg env \<lparr>hb_data = 0x60, hb_cmd = 1\<rparr> s = Inr (s1, [], [0, 0, 0, 0], 0) \<and>
     kbc_process cfg env \<lparr>hb_data = d, hb_cmd = 0\<rparr> s1 = Inr (s2, evs, [0, 0, 0, 0], 0) \<and>
     kbc_process cfg env \<lparr>hb_data = 0x20, hb_cmd = 1\<rparr> s2 = Inr (s2, [], [d OR 0x20, 0, 0, 0], 1) \<and>
     (cmdbyte_kbd_enabled s2 \<longleftrightarrow> \<not> bit d 4) \<and> \<not> cmdbyte_mb_enabled s2"
proof -
  let ?s1 = "to_port WRITE_CMD_BYTE_STATE s"
  let ?s2 = "fst (write_cmd_byte_data d ?s1)"
  have zeros: "replicate MAX_HOST_REQ_SIZE 0 = ([0, 0, 0, 0] :: u8 list)"
    by (simp add: MAX_HOST_REQ_SIZE_def eval_nat_numeral)
  have cb: "cmdbyte ?s2 = d OR KBC_8042_MOUSE_DIS"
    by (auto simp: write_cmd_byte_data_def Let_def cmdbyte_ops dis_flags bit_or_iff bit_and_iff
        bit_not_iff intro!: bit_word_eqI)
  have cb20: "d OR KBC_8042_MOUSE_DIS = d OR 0x20"
    by (simp add: KBC_8042_MOUSE_DIS_def)
  have "kbc_process cfg env \<lparr>hb_data = 0x60, hb_cmd = 1\<rparr> s = Inr (?s1, [], [0, 0, 0, 0], 0)"
    by (simp add: kbc_process_def process_keyboard_command_def command_switch_def zeros)
  moreover have "kbc_process cfg env \<lparr>hb_data = d, hb_cmd = 0\<rparr> ?s1 =
     Inr (?s2, snd (write_cmd_byte_data d ?s1), [0, 0, 0, 0], 0)"
    by (simp add: kbc_process_def process_keyboard_data_def data_switch_def zeros Let_def
        to_port_def split: prod.splits)
  moreover have "kbc_process cfg env \<lparr>hb_data = 0x20, hb_cmd = 1\<rparr> ?s2 = Inr (?s2, [], [d OR 0x20, 0, 0, 0], 1)"
    by (simp add: kbc_process_def process_keyboard_command_def command_switch_def zeros cb cb20 st_def)
  moreover have "cmdbyte_kbd_enabled ?s2 \<longleftrightarrow> \<not> bit d 4"
    by (simp add: cmdbyte_kbd_enabled_def dis_flags cb bit_or_iff)
  moreover have "\<not> cmdbyte_mb_enabled ?s2"
    by (simp add: cmdbyte_mb_enabled_def dis_flags cb bit_or_iff KBC_8042_MOUSE_DIS_def)
  ultimately show ?thesis by blast
qed

text \<open>
  The interrupt handler's duplicate filter: host bytes are queued unchanged and in order
  when no two consecutive ones are equal, but of \<open>n\<close> equal bytes in a row only
  \<open>(n + 1) div 2\<close> are queued: every second one is dropped, also when the host wrote it
  on purpose.
\<close>

theorem kbc_handler_filter:
  "(distinct_adj xs \<and> (xs = [] \<or> \<not> (has_prev s \<and> hd xs = (last_data s, last_cmd s))) \<longrightarrow>
      fst (kbc_handler_all xs s) = map (\<lambda>(d, c). Msgq_put_from_host d c) xs) \<and>
   (\<not> has_prev s \<longrightarrow>
      fst (kbc_handler_all (replicate n (d, c)) s) = replicate ((n + 1) div 2) (Msgq_put_from_host d c))"
proof (intro conjI impI)
  assume "distinct_adj xs \<and> (xs = [] \<or> \<not> (has_prev s \<and> hd xs = (last_data s, last_cmd s)))"
  then show "fst (kbc_handler_all xs s) = map (\<lambda>(d, c). Msgq_put_from_host d c) xs"
  proof (induction xs arbitrary: s)
    case (Cons x xs)
    let ?s = "s\<lparr>last_data := fst x, last_cmd := snd x, has_prev := True\<rparr>"
    have "kbc_handler (fst x) (snd x) s = ([Msgq_put_from_host (fst x) (snd x)], ?s)"
      using Cons.prems by (auto simp: kbc_handler_def)
    moreover have "fst (kbc_handler_all xs ?s) = map (\<lambda>(d, c). Msgq_put_from_host d c) xs"
      using Cons.prems by (intro Cons.IH) (cases xs; auto simp: distinct_adj_Cons)
    ultimately show ?case by (simp add: split_beta)
  qed simp
next
  assume "\<not> has_prev s"
  then show "fst (kbc_handler_all (replicate n (d, c)) s) = replicate ((n + 1) div 2) (Msgq_put_from_host d c)"
  proof (induction n arbitrary: s rule: induct_nat_012)
    case (ge2 n)
    have "\<not> has_prev (s\<lparr>last_data := d, last_cmd := c, has_prev := False\<rparr>)" by simp
    from ge2.IH(1) [OF this] ge2.prems show ?case by (simp add: kbc_handler_def split_beta)
  qed (simp_all add: kbc_handler_def)
qed

lemma GET_LOCK_bit: "GET_LOCK k x \<longleftrightarrow> bit x k"
  by (simp add: GET_LOCK_def and_one_eq bit_iff_odd_drop_bit mod2_eq_if)

definition led_writes :: "kbc_cfg \<Rightarrow> kbc_ev list \<Rightarrow> bool" where
  "led_writes cfg evs \<longleftrightarrow> (\<forall>e \<in> set evs. \<exists>led level. e = Gpio_write_pin led level \<and> led_pin cfg led)"

lemma set_led_ok:
  assumes "\<forall>led level. env_gpio env led level = 0"
  shows "\<exists>c g. set_led cfg env leds led (0, s, evs) = (0, s\<lparr>current_leds_state := c\<rparr>, evs @ g) \<and>
     led_writes cfg g \<and>
     (\<forall>i. bit c i \<longleftrightarrow> (if i = led_pos led then bit leds i else bit (current_leds_state s) i))"
proof -
  let ?on = "GET_LOCK (led_pos led) leds" and ?f = "push_bit (led_pos led) 1 :: u8"
  let ?c = "if ?on then current_leds_state s OR ?f else current_leds_state s AND NOT ?f"
  let ?g = "if led_pin cfg led
    then [Gpio_write_pin led (if led = Caps_led \<and> caps_active_high cfg then ?on else \<not> ?on)] else []"
  have pos: "led_pos led < 8" by (cases led) simp_all
  have c: "bit ?c i \<longleftrightarrow> (if i = led_pos led then bit leds i else bit (current_leds_state s) i)" for i
  proof -
    have "bit (current_leds_state s) i \<Longrightarrow> i < 8" using bit_imp_le_length [of "current_leds_state s" i] by simp
    with pos show ?thesis
      by (auto simp only: GET_LOCK_bit bit_or_iff bit_and_iff bit_not_iff bit_flag possible_bit_word split: if_splits) auto
  qed
  have "set_led cfg env leds led (0, s, evs) = (0, s\<lparr>current_leds_state := ?c\<rparr>, evs @ ?g)"
    using assms by (simp add: set_led_def Let_def)
  moreover have "led_writes cfg ?g" by (simp add: led_writes_def)
  ultimately show ?thesis using c by blast
qed

text \<open>
  \<open>kbc_set_leds\<close> records the three lock LEDs: when the pin writes succeed, \<open>kbc_get_leds\<close>
  afterwards returns the three low bits of the argument and leaves the other bits alone, and
  the LED mutex is held during the pin writes and released.
\<close>

theorem kbc_leds_recorded:
  assumes "\<forall>led level. env_gpio env led level = 0"
  shows "\<exists>s' evs. kbc_set_leds cfg env leds s = (s', Led_mutex_lock # evs @ [Led_mutex_unlock]) \<and>
     (\<forall>e \<in> set evs. \<exists>led level. e = Gpio_write_pin led level \<and> led_pin cfg led) \<and>
     (\<forall>i. bit (fst (kbc_get_leds s')) i \<longleftrightarrow> (if i < 3 then bit leds i else bit (current_leds_state s) i)) \<and>
     cmdbyte s' = cmdbyte s \<and> data_port_state s' = data_port_state s"
proof -
  obtain c1 g1 where 1: "set_led cfg env leds Scroll_led (0, s, [Led_mutex_lock]) =
      (0, s\<lparr>current_leds_state := c1\<rparr>, [Led_mutex_lock] @ g1)" "led_writes cfg g1"
    "\<forall>i. bit c1 i \<longleftrightarrow> (if i = 0 then bit leds i else bit (current_leds_state s) i)"
    using set_led_ok [OF assms, of cfg leds Scroll_led s "[Led_mutex_lock]"] by auto
  obtain c2 g2 where 2: "set_led cfg env leds Num_led (0, s\<lparr>current_leds_state := c1\<rparr>, [Led_mutex_lock] @ g1) =
      (0, s\<lparr>current_leds_state := c2\<rparr>, [Led_mutex_lock] @ g1 @ g2)" "led_writes cfg g2"
    "\<forall>i. bit c2 i \<longleftrightarrow> (if i = 1 then bit leds i else bit c1 i)"
    using set_led_ok [OF assms, of cfg leds Num_led "s\<lparr>current_leds_state := c1\<rparr>" "[Led_mutex_lock] @ g1"] by auto
  obtain c3 g3 where 3: "set_led cfg env leds Caps_led (0, s\<lparr>current_leds_state := c2\<rparr>, [Led_mutex_lock] @ g1 @ g2) =
      (0, s\<lparr>current_leds_state := c3\<rparr>, [Led_mutex_lock] @ g1 @ g2 @ g3)" "led_writes cfg g3"
    "\<forall>i. bit c3 i \<longleftrightarrow> (if i = 2 then bit leds i else bit c2 i)"
    using set_led_ok [OF assms, of cfg leds Caps_led "s\<lparr>current_leds_state := c2\<rparr>" "[Led_mutex_lock] @ g1 @ g2"] by auto
  have "kbc_set_leds cfg env leds s =
     (s\<lparr>current_leds_state := c3\<rparr>, Led_mutex_lock # (g1 @ g2 @ g3) @ [Led_mutex_unlock])"
    unfolding kbc_set_leds_def 1(1) 2(1) 3(1) by simp
  moreover have "led_writes cfg (g1 @ g2 @ g3)" using 1(2) 2(2) 3(2) by (auto simp: led_writes_def)
  moreover have "\<forall>i. bit c3 i \<longleftrightarrow> (if i < 3 then bit leds i else bit (current_leds_state s) i)"
    using 1(3) 2(3) 3(3) by (auto simp: less_Suc_eq numeral_3_eq_3 numeral_2_eq_2)
  ultimately show ?thesis
    by (intro exI [of _ "s\<lparr>current_leds_state := c3\<rparr>"] exI [of _ "g1 @ g2 @ g3"])
       (simp add: led_writes_def kbc_get_leds_def)
qed

text \<open>
  The keyboard thread does not wait for a busy host for ever: with the retry counter at
  \<open>r\<close>, at most four, it polls a full output buffer \<open>5 - r\<close> times, then purges the queue,
  resets the counter and goes back to sleep. The counter never exceeds four, so it does not
  wrap.
\<close>

theorem to_host_kb_bounded_retry:
  assumes "unat (obf_retries l) \<le> 4" "list_all (\<lambda>rd. rd_used rd \<and> rd_obf rd) rds"
    and "5 - unat (obf_retries l) \<le> length rds"
  shows "to_host_kb_loop cfg rds l =
     (concat (replicate (4 - unat (obf_retries l)) [Espihub_kbc_read_obf, Msleep 2]) @
        [Espihub_kbc_read_obf, Msgq_purge_to_host],
      l\<lparr>obf_retries := 0\<rparr>, False) \<and>
     unat (obf_retries (fst (snd (to_host_kb_pass cfg' rd l)))) \<le> 4"
proof
  show "to_host_kb_loop cfg rds l =
     (concat (replicate (4 - unat (obf_retries l)) [Espihub_kbc_read_obf, Msleep 2]) @
        [Espihub_kbc_read_obf, Msgq_purge_to_host],
      l\<lparr>obf_retries := 0\<rparr>, False)"
    using assms
  proof (induction rds arbitrary: l)
    case (Cons rd rds)
    show ?case
    proof (cases "unat (obf_retries l) = 4")
      case True
      then show ?thesis
        using Cons.prems by (simp add: to_host_kb_pass_def MAX_TO_HOST_RETRIES_def purge_kb_queue_def)
    next
      case False
      then have r: "unat (obf_retries l) \<le> 3" using Cons.prems by simp
      then have u: "unat (obf_retries l + 1) = Suc (unat (obf_retries l))"
        by (simp add: unat_word_ariths)
      let ?l = "l\<lparr>obf_retries := obf_retries l + 1\<rparr>"
      have p: "to_host_kb_pass cfg rd l = ([Espihub_kbc_read_obf, Msleep 2], ?l, True)"
        using Cons.prems r by (simp add: to_host_kb_pass_def MAX_TO_HOST_RETRIES_def)
      have "4 - unat (obf_retries l) = Suc (4 - unat (obf_retries ?l))" using u r by simp
      then show ?thesis
        using Cons.IH [of ?l] Cons.prems u r p by simp
    qed
  qed simp
next
  have "unat (obf_retries l + 1) = Suc (unat (obf_retries l))"
    using assms(1) by (simp add: unat_word_ariths)
  then show "unat (obf_retries (fst (snd (to_host_kb_pass cfg' rd l)))) \<le> 4"
    using assms(1) by (simp add: to_host_kb_pass_def MAX_TO_HOST_RETRIES_def Let_def)
qed

end
