(* ===== verification/Keymap.thy ===== *)
theory Keymap
  imports Prelude
begin

text \<open>
  Key tables: translation between scan code sets (\<open>src/app/kbchost/keyboard_utility.c\<close>) and
  the keyboard layouts with their Fn keys (\<open>src/drivers/amdcrb_keymap.c\<close>). A struct that the C
  code leaves uninitialised is an argument.
\<close>

section \<open>Scan code translation\<close>

definition kb_translation_table :: "u8 list" where
  "kb_translation_table = [
     0xff, 0x43, 0x41, 0x3f, 0x3d, 0x3b, 0x3c, 0x58, 0x64, 0x44, 0x42, 0x40, 0x3e, 0x0f, 0x29, 0x59,
     0x65, 0x38, 0x2a, 0x70, 0x1d, 0x10, 0x02, 0x5a, 0x66, 0x71, 0x2c, 0x1f, 0x1e, 0x11, 0x03, 0x5b,
     0x67, 0x2e, 0x2d, 0x20, 0x12, 0x05, 0x04, 0x5c, 0x68, 0x39, 0x2f, 0x21, 0x14, 0x13, 0x06, 0x5d,
     0x69, 0x31, 0x30, 0x23, 0x22, 0x15, 0x07, 0x5e, 0x6a, 0x72, 0x32, 0x24, 0x16, 0x08, 0x09, 0x5f,
     0x6b, 0x33, 0x25, 0x17, 0x18, 0x0b, 0x0a, 0x60, 0x6c, 0x34, 0x35, 0x26, 0x27, 0x19, 0x0c, 0x61,
     0x6d, 0x73, 0x28, 0x74, 0x1a, 0x0d, 0x62, 0x6e, 0x3a, 0x36, 0x1c, 0x1b, 0x75, 0x2b, 0x63, 0x76,
     0x55, 0x56, 0x77, 0x78, 0x79, 0x7a, 0x0e, 0x7b, 0x7c, 0x4f, 0x7d, 0x4b, 0x47, 0x7e, 0x7f, 0x6f,
     0x52, 0x53, 0x50, 0x4c, 0x4d, 0x48, 0x01, 0x45, 0x57, 0x4e, 0x51, 0x4a, 0x37, 0x49, 0x46, 0x54,
     0x80, 0x81, 0x82, 0x41, 0x54, 0x85, 0x86, 0x87, 0x88, 0x89, 0x8a, 0x8b, 0x8c, 0x8d, 0x8e, 0x8f,
     0x90, 0x91, 0x92, 0x93, 0x94, 0x95, 0x96, 0x97, 0x98, 0x99, 0x9a, 0x9b, 0x9c, 0x9d, 0x9e, 0x9f,
     0xa0, 0xa1, 0xa2, 0xa3, 0xa4, 0xa5, 0xa6, 0xa7, 0xa8, 0xa9, 0xaa, 0xab, 0xac, 0xad, 0xae, 0xaf,
     0xb0, 0xb1, 0xb2, 0xb3, 0xb4, 0xb5, 0xb6, 0xb7, 0xb8, 0xb9, 0xba, 0xbb, 0xbc, 0xbd, 0xbe, 0xbf,
     0xc0, 0xc1, 0xc2, 0xc3, 0xc4, 0xc5, 0xc6, 0xc7, 0xc8, 0xc9, 0xca, 0xcb, 0xcc, 0xcd, 0xce, 0xcf,
     0xd0, 0xd1, 0xd2, 0xd3, 0xd4, 0xd5, 0xd6, 0xd7, 0xd8, 0xd9, 0xda, 0xdb, 0xdc, 0xdd, 0xde, 0xdf,
     0xe0, 0xe1, 0xe2, 0xe3, 0xe4, 0xe5, 0xe6, 0xe7, 0xe8, 0xe9, 0xea, 0xeb, 0xec, 0xed, 0xee, 0xef,
     0xf0, 0xf1, 0xf2, 0xf3, 0xf4, 0xf5, 0xf6, 0xf7, 0xf8, 0xf9, 0xfa, 0xfb, 0xfc, 0xfd, 0xfe, 0xff]"

definition START_BREAK_CODE :: u8 where "START_BREAK_CODE = 0xf0"

text \<open>
  \<open>translate_key\<close> with the static flag \<open>found_break_code\<close> passed explicitly. The result is the
  return code, the new value of \<open>*data\<close> and the flag.
\<close>

definition translate_key :: "u8 \<Rightarrow> u8 \<Rightarrow> bool \<Rightarrow> rc \<times> u8 \<times> bool" where
  "translate_key scan_code data found =
     (if scan_code = 1 then (None, data, found)
      else if scan_code = 2 then
        (if data = START_BREAK_CODE then (Some EINVAL, data, True)
         else
           let d = kb_translation_table ! unat data in
           if found then (None, d OR 0x80, False) else (None, d, False))
      else (Some ENOTSUP, data, found))"

section \<open>Layouts\<close>

datatype board = BRD_MDS_DORNE | BRD_MDS_AERIS | BRD_OTHER | BRD_OTHER_EC_MODULE

definition MAX_MTX_KEY_COLS :: nat where "MAX_MTX_KEY_COLS = 16"
definition MAX_MTX_KEY_ROWS :: nat where "MAX_MTX_KEY_ROWS = 8"

definition keymap_dorne :: "u8 list list" where
  "keymap_dorne = [
     [123, 0, 0, 0, 86, 85, 81, 80],
     [127, 0, 0, 0, 0, 0, 0, 0],
     [0, 60, 60, 0, 0, 0, 0, 0],
     [122, 40, 26, 0, 11, 41, 12, 27],
     [76, 61, 43, 29, 15, 116, 121, 120],
     [54, 39, 25, 55, 10, 118, 0, 119],
     [53, 38, 24, 117, 9, 13, 28, 0],
     [0, 0, 0, 0, 0, 0, 0, 255],
     [0, 0, 0, 0, 57, 0, 0, 44],
     [0, 0, 0, 0, 0, 58, 58, 0],
     [89, 79, 84, 83, 0, 0, 0, 0],
     [49, 34, 20, 50, 5, 21, 6, 35],
     [52, 37, 23, 36, 8, 22, 51, 7],
     [47, 32, 18, 30, 3, 0, 0, 112],
     [48, 33, 19, 0, 4, 115, 114, 113],
     [46, 31, 17, 255, 2, 16, 1, 110]]"

definition keymap_aeris :: "u8 list list" where
  "keymap_aeris = [
     [110, 16, 17, 1, 31, 2, 46, 131],
     [115, 114, 19, 113, 33, 4, 48, 0],
     [45, 30, 18, 112, 32, 3, 47, 0],
     [0, 0, 0, 58, 0, 0, 64, 0],
     [35, 21, 20, 6, 34, 5, 49, 50],
     [36, 22, 23, 7, 37, 8, 52, 51],
     [117, 28, 24, 13, 38, 9, 53, 56],
     [132, 118, 25, 119, 39, 10, 54, 133],
     [41, 27, 26, 12, 40, 11, 42, 55],
     [0, 44, 0, 0, 0, 0, 57, 0],
     [116, 15, 14, 120, 29, 121, 43, 61],
     [0, 0, 0, 126, 0, 122, 0, 84],
     [60, 0, 0, 0, 0, 124, 0, 62],
     [0, 0, 0, 80, 255, 86, 0, 79],
     [83, 0, 0, 75, 0, 123, 0, 89],
     [0, 0, 127, 81, 129, 85, 0, 0]]"

definition keymap_other :: "bool \<Rightarrow> u8 list list" where
  "keymap_other ec_module = [
     [0, 0, 0, 0, 125, 0, 0, 0],
     [0, 127, 0, 0, 0, 0, 0, 0],
     [131, 0, 255, 16, 1, 2, 17, 31],
     [62, 60, 0, 0, 0, 0, 0, 0],
     [48, 61, 114, 115, 30, 4, 19, 33],
     [47, 46, 113, 112, 110, 3, 18, 32],
     [49, 50, 35, 21, 6, 5, 20, 34],
     [52, 51, 36, 22, 7, 8, 23, 37],
     [54, 84, 0, 122, 121, 10, 25, 39],
     [57, 44, 0, 0, 0, 0, 0, 0],
     [53, 76, 118, 117, 116, 9, 24, 38],
     [133, 132, 119, 120, 56, 0, 129, 79],
     [0, 58, 0, 0, 64, 0, 0, 0]] @
     (if \<not> ec_module
      then [[41, 43, 126, 90, 13, 15, 28, 29],
            [55, 83, 12, 123, 11, 26, 27, 40]]
      else [[55, 83, 12, 123, 11, 26, 27, 40],
            [41, 43, 126, 90, 13, 15, 28, 29]]) @
     [[81, 89, 14, 124, 76, 80, 85, 86]]"

fun amdcrb_keymap :: "board \<Rightarrow> u8 list list" where
  "amdcrb_keymap BRD_MDS_DORNE = keymap_dorne"
| "amdcrb_keymap BRD_MDS_AERIS = keymap_aeris"
| "amdcrb_keymap BRD_OTHER = keymap_other False"
| "amdcrb_keymap BRD_OTHER_EC_MODULE = keymap_other True"

definition amdcrb_get_keynum :: "board \<Rightarrow> u8 \<Rightarrow> u8 \<Rightarrow> (rc \<times> u8) res" where
  "amdcrb_get_keynum b col row =
     (if unat col > MAX_MTX_KEY_COLS \<and> unat row > MAX_MTX_KEY_ROWS then Inr (Some EINVAL, 0)
      else
        (case ld (amdcrb_keymap b) (unat col) of
           Inl e \<Rightarrow> Inl e
         | Inr r \<Rightarrow> (case ld r (unat row) of Inl e \<Rightarrow> Inl e | Inr k \<Rightarrow> Inr (None, k))))"

section \<open>Fn keys\<close>

definition MAX_SCAN_CODE_LEN :: nat where "MAX_SCAN_CODE_LEN = 8"

record scan_code =
  sc_code :: "u8 list"
  sc_len :: u8
  sc_typematic :: bool

datatype fn_data_type = FN_SCAN_CODE | SCI_CODE

text \<open>
  In \<open>struct fn_data\<close> the byte \<open>sci_code\<close> shares its storage with the first byte of the scan
  code.
\<close>

record fn_data =
  fd_type :: fn_data_type
  fd_sc :: scan_code

definition fn_sci_code :: "fn_data \<Rightarrow> u8" where
  "fn_sci_code d = sc_code (fd_sc d) ! 0"

definition put_code :: "u8 list \<Rightarrow> u8 list \<Rightarrow> u8 list" where
  "put_code codes p = codes @ drop (length codes) p"

definition fn_scan :: "bool \<Rightarrow> u8 list \<Rightarrow> fn_data \<Rightarrow> fn_data" where
  "fn_scan tpm codes d = d\<lparr>fd_type := FN_SCAN_CODE, fd_sc := \<lparr>sc_code = put_code codes (sc_code (fd_sc d)),
     sc_len = of_nat (length codes), sc_typematic = tpm\<rparr>\<rparr>"

definition fn_sci :: "fn_data_type \<Rightarrow> u8 \<Rightarrow> fn_data \<Rightarrow> fn_data" where
  "fn_sci ty c d = d\<lparr>fd_type := ty, fd_sc := (fd_sc d)\<lparr>sc_code := put_code [c] (sc_code (fd_sc d))\<rparr>\<rparr>"

text \<open>
  The shapes the case branches have: an extended key (make \<open>E0 c\<close>, break \<open>E0 F0 c\<close>) that
  repeats or not, a plain key, print screen, a system control event, an ignored key.
\<close>

definition fn_ext :: "bool \<Rightarrow> u8 \<Rightarrow> bool \<Rightarrow> fn_data \<Rightarrow> fn_data" where
  "fn_ext repeat c pressed =
     (if pressed then fn_scan repeat [0xE0, c] else fn_scan False [0xE0, 0xF0, c])"

definition fn_plain :: "u8 \<Rightarrow> bool \<Rightarrow> fn_data \<Rightarrow> fn_data" where
  "fn_plain c pressed = (if pressed then fn_scan False [c] else fn_scan False [0xF0, c])"

definition fn_prtsc :: "bool \<Rightarrow> fn_data \<Rightarrow> fn_data" where
  "fn_prtsc pressed =
     (if pressed then fn_scan False [0xE0, 0x12, 0xE0, 0x7C]
      else fn_scan False [0xE0, 0xF0, 0x7C, 0xE0, 0xF0, 0x12])"

definition fn_event :: "fn_data_type \<Rightarrow> u8 \<Rightarrow> bool \<Rightarrow> fn_data \<Rightarrow> fn_data" where
  "fn_event ty c pressed = fn_sci ty (if pressed then c else 0)"

definition fn_unmapped :: "fn_data \<Rightarrow> fn_data" where
  "fn_unmapped = fn_scan False [0]"

text \<open>Board Dorne; key \<open>F8\<close> writes the event code under the type of a scan code.\<close>

definition dorne_f_keys :: "u8 \<Rightarrow> bool \<Rightarrow> (fn_data \<Rightarrow> fn_data) option" where
  "dorne_f_keys key pressed =
     (if key = 110 then Some fn_unmapped
      else if key = 112 then Some (fn_ext False 0x23 pressed)
      else if key = 113 then Some (fn_ext True 0x21 pressed)
      else if key = 114 then Some (fn_ext True 0x32 pressed)
      else if key = 115 then Some (fn_event SCI_CODE 0x67 pressed)
      else if key = 116 then Some (fn_event SCI_CODE 0x61 pressed)
      else if key = 117 then Some (fn_event SCI_CODE 0x60 pressed)
      else if key = 118 then Some (fn_event SCI_CODE 0x62 pressed)
      else if key = 119 then Some (fn_event FN_SCAN_CODE 0x69 pressed)
      else if key = 120 then Some (fn_event SCI_CODE 0x68 pressed)
      else if key = 121 then Some (fn_event SCI_CODE 0x63 pressed)
      else None)"

definition dorne_other_keys :: "u8 \<Rightarrow> bool \<Rightarrow> (fn_data \<Rightarrow> fn_data) option" where
  "dorne_other_keys key pressed =
     (if key = 122 then Some (fn_prtsc pressed)
      else if key = 123 then Some (fn_ext False 0x70 pressed)
      else if key = 79 then Some (fn_ext True 0x21 pressed)
      else if key = 89 then Some (fn_ext True 0x32 pressed)
      else if key = 83 then Some (fn_event SCI_CODE 0x60 pressed)
      else if key = 84 then Some (fn_event SCI_CODE 0x61 pressed)
      else if key = 64 then Some (fn_ext False 0x2F pressed)
      else None)"

text \<open>Board Aeris; key \<open>F9\<close> has an empty branch that leaves the data untouched.\<close>

definition aeris_f_keys :: "u8 \<Rightarrow> bool \<Rightarrow> (fn_data \<Rightarrow> fn_data) option" where
  "aeris_f_keys key pressed =
     (if key = 110 then Some fn_unmapped
      else if key = 112 then Some (fn_event SCI_CODE 0x61 pressed)
      else if key = 113 then Some (fn_event SCI_CODE 0x60 pressed)
      else if key = 114 then Some (fn_ext False 0x23 pressed)
      else if key = 115 then Some (fn_ext True 0x21 pressed)
      else if key = 116 then Some (fn_ext True 0x32 pressed)
      else if key = 117 then Some (fn_event SCI_CODE 0x67 pressed)
      else if key = 118 then Some (fn_event SCI_CODE 0x63 pressed)
      else if key = 119 then Some (fn_event SCI_CODE 0x62 pressed)
      else if key = 120 then Some id
      else None)"

definition aeris_other_keys :: "u8 \<Rightarrow> bool \<Rightarrow> (fn_data \<Rightarrow> fn_data) option" where
  "aeris_other_keys key pressed =
     (if key = 121 then Some (fn_ext False 0x2F pressed)
      else if key = 122 then Some (fn_prtsc pressed)
      else if key = 123 then Some (fn_ext False 0x70 pressed)
      else if key = 79 then Some (fn_ext True 0x7D pressed)
      else if key = 89 then Some (fn_ext True 0x7A pressed)
      else None)"

definition other_f_keys :: "u8 \<Rightarrow> bool \<Rightarrow> (fn_data \<Rightarrow> fn_data) option" where
  "other_f_keys key pressed =
     (if key = 110 then Some (fn_ext False 0x3F pressed)
      else if key = 112 then Some (fn_event SCI_CODE 0x29 pressed)
      else if key = 113 then Some (fn_event SCI_CODE 0x62 pressed)
      else if key = 114 then Some (fn_ext False 0x23 pressed)
      else if key = 115 then Some fn_unmapped
      else if key = 116 then Some fn_unmapped
      else if key = 117 then Some (fn_ext False 0x70 pressed)
      else if key = 118 then Some (fn_prtsc pressed)
      else if key = 120 then Some (fn_plain 0x78 pressed)
      else if key = 121 then Some (fn_plain 0x07 pressed)
      else None)"

definition other_other_keys :: "u8 \<Rightarrow> bool \<Rightarrow> (fn_data \<Rightarrow> fn_data) option" where
  "other_other_keys key pressed =
     (if key = 79 then Some (fn_ext True 0x21 pressed)
      else if key = 89 then Some (fn_ext True 0x32 pressed)
      else if key = 83 then Some (fn_event SCI_CODE 0x60 pressed)
      else if key = 84 then Some (fn_event SCI_CODE 0x61 pressed)
      else if key = 64 then Some (fn_ext False 0x2F pressed)
      else None)"

text \<open>The case branches of \<open>amdcrb_get_fn_key\<close>; \<open>None\<close> is the default branch.\<close>

fun fn_branch :: "board \<Rightarrow> u8 \<Rightarrow> bool \<Rightarrow> (fn_data \<Rightarrow> fn_data) option" where
  "fn_branch BRD_MDS_DORNE key pressed =
     (case dorne_f_keys key pressed of None \<Rightarrow> dorne_other_keys key pressed | Some f \<Rightarrow> Some f)"
| "fn_branch BRD_MDS_AERIS key pressed =
     (case aeris_f_keys key pressed of None \<Rightarrow> aeris_other_keys key pressed | Some f \<Rightarrow> Some f)"
| "fn_branch _ key pressed =
     (case other_f_keys key pressed of None \<Rightarrow> other_other_keys key pressed | Some f \<Rightarrow> Some f)"

text \<open>LED toggles; \<open>pin\<close> gives the current level of a pin. The result is the pin to write.\<close>

datatype fn_led = EC_F4_LED | EC_KB_BL_LED | EC_FN_LED

definition amdcrb_fn_key_led_set :: "board \<Rightarrow> (fn_led \<Rightarrow> bool) \<Rightarrow> u8 \<Rightarrow> (fn_led \<times> bool) list" where
  "amdcrb_fn_key_led_set b pin key =
     (if b = BRD_MDS_DORNE \<and> key = 115 then [(EC_F4_LED, \<not> pin EC_F4_LED)]
      else if b = BRD_MDS_DORNE \<and> key = 121 then [(EC_KB_BL_LED, \<not> pin EC_KB_BL_LED)]
      else if b = BRD_MDS_AERIS \<and> key = 110 then [(EC_FN_LED, \<not> pin EC_FN_LED)]
      else [])"

definition amdcrb_get_fn_key ::
  "board \<Rightarrow> (fn_led \<Rightarrow> bool) \<Rightarrow> u8 \<Rightarrow> bool \<Rightarrow> fn_data \<Rightarrow> rc \<times> fn_data \<times> (fn_led \<times> bool) list" where
  "amdcrb_get_fn_key b pin key pressed d =
     (case fn_branch b key pressed of
        None \<Rightarrow> (Some EINVAL, d, [])
      | Some f \<Rightarrow> (None, f d, if pressed then amdcrb_fn_key_led_set b pin key else []))"

end
