(* ===== verification/Kbs.thy ===== *)
theory Kbs
  imports Keymap
begin

text \<open>
  The keyboard scanner of \<open>src/drivers/kbs_matrix.c\<close>: modifier tracking, make and break codes in
  scan code set 2, their translation, key repeat, hot-key sequences. The static variables are
  the record \<open>kbs\<close>. Calls into the kernel's timer, the scan driver and the other components
  are events. The stack variable \<open>struct fn_data data\<close>, which the code does not initialise, is
  the argument \<open>junk\<close>.
\<close>

section \<open>Tables\<close>

definition typematic_period :: "u16 list" where
  "typematic_period = [
     33, 37, 42, 46, 50, 54, 58, 63, 67, 75, 83, 92, 100, 109, 116, 125,
     133, 149, 167, 182, 200, 217, 232, 250, 270, 303, 333, 370, 400, 435, 470, 500]"

definition typematic_delay :: "u16 list" where
  "typematic_delay = [250, 500, 750, 1000]"

definition MAX_SC2_TABLE_SIZE :: nat where "MAX_SC2_TABLE_SIZE = 135"

text \<open>An entry is the list of the first \<open>len\<close> codes of the C entry.\<close>

definition scan_code2 :: "u8 list list" where
  "scan_code2 = [
     [], [0xe], [0x16], [0x1e], [0x26], [0x25], [0x2e], [0x36], [0x3d],
     [0x3e], [0x46], [0x45], [0x4e], [0x55], [0x0], [0x66], [0xd], [0x15],
     [0x1d], [0x24], [0x2d], [0x2c], [0x35], [0x3c], [0x43], [0x44], [0x4d],
     [0x54], [0x5b], [0x5d], [0x58], [0x1c], [0x1b], [0x23], [0x2b], [0x34],
     [0x33], [0x3b], [0x42], [0x4b], [0x4c], [0x52], [0x5d], [0x5a], [0x12],
     [0x61], [0x1a], [0x22], [0x21], [0x2a], [0x32], [0x31], [0x3a], [0x41],
     [0x49], [0x4a], [], [0x59], [0x14], [], [0x11], [0x29], [0xe0, 0x11],
     [], [0xe0, 0x14], [], [], [], [], [], [], [],
     [], [], [], [0xe0, 0x70], [0xe0, 0x71], [], [], [0xe0, 0x6b], [0xe0, 0x6c],
     [0xe0, 0x69], [], [0xe0, 0x75], [0xe0, 0x72], [0xe0, 0x7d], [0xe0, 0x7a], [], [], [0xe0, 0x74],
     [0x77], [0x6c], [0x6b], [0x69], [], [0xe0, 0x4a], [0x75], [0x73], [0x72],
     [0x70], [0x7c], [0x7d], [0x74], [0x7a], [0x71], [0x7b], [0x79], [],
     [0xe0, 0x5a], [], [0x76], [], [0x5], [0x6], [0x4], [0xc], [0x3],
     [0xb], [0x83], [0xa], [0x1], [0x9], [0x78], [0x7], [], [0x7e],
     [], [0xe0, 0x1f], [0x29], [0xe0, 0x2f], [], [], [], [], [0x20]]"

section \<open>State and events\<close>

record kbs_keyseq =
  ks_trigger_key :: u8
  ks_modifiers :: u8
  ks_handler :: bool \<comment> \<open>a callback is registered\<close>
  ks_detected :: bool

record kbs =
  kscan_flags :: u32
  make_tpmatic_code :: scan_code
  fn_lock :: bool
  typematic_period_idx :: u8
  typematic_delay_idx :: u8
  hotkey_detected :: bool
  found_break_code :: bool
  keyseq_det :: "kbs_keyseq list"
  trigger_key :: u8

datatype kbs_ev =
    Timer_stop | Timer_start u16 u16 | Timer_init | Kbs_callback "u8 list" u8 | ACPI_NotifyHost u8
  | Kscan_config | Kscan_enable_callback | Kscan_disable_callback | Kscan_ksodrive_config
  | Fn_led_write fn_led bool | Keyseq_handler nat bool | Kso_write nat bool | Busy_wait_ms nat

definition dflt_typematic_delay_rate :: u8 where
  "dflt_typematic_delay_rate = 0x01 OR 0xB"

section \<open>Modifier flags\<close>

definition KBS_NUMLOCK_DOWN :: u32 where "KBS_NUMLOCK_DOWN = push_bit 0 1"
definition KBS_SCLOCK_DOWN :: u32 where "KBS_SCLOCK_DOWN = push_bit 1 1"
definition KBS_FN_DOWN :: u32 where "KBS_FN_DOWN = push_bit 2 1"
definition KBS_CTRL_DOWN :: u32 where "KBS_CTRL_DOWN = push_bit 3 1"
definition KBS_ALT_DOWN :: u32 where "KBS_ALT_DOWN = push_bit 4 1"
definition KBS_SHIFT_DOWN :: u32 where "KBS_SHIFT_DOWN = push_bit 5 1"

definition flag_set :: "nat \<Rightarrow> kbs \<Rightarrow> bool" where
  "flag_set pos s \<longleftrightarrow> drop_bit pos (kscan_flags s) AND 1 = 1"

definition numlock_on :: "kbs \<Rightarrow> bool" where "numlock_on = flag_set 0"
definition sclock_on :: "kbs \<Rightarrow> bool" where "sclock_on = flag_set 1"
definition fn_pressed :: "kbs \<Rightarrow> bool" where "fn_pressed = flag_set 2"
definition ctrl_pressed :: "kbs \<Rightarrow> bool" where "ctrl_pressed = flag_set 3"
definition alt_pressed :: "kbs \<Rightarrow> bool" where "alt_pressed = flag_set 4"
definition shift_pressed :: "kbs \<Rightarrow> bool" where "shift_pressed = flag_set 5"

definition set_flag :: "u32 \<Rightarrow> bool \<Rightarrow> kbs \<Rightarrow> kbs" where
  "set_flag f pressed s =
     s\<lparr>kscan_flags := (if pressed then kscan_flags s OR f else kscan_flags s AND NOT f)\<rparr>"

definition toggle_flag :: "u32 \<Rightarrow> bool \<Rightarrow> kbs \<Rightarrow> kbs" where
  "toggle_flag f pressed s = (if pressed then s\<lparr>kscan_flags := kscan_flags s XOR f\<rparr> else s)"

definition toggle_nlock_key :: "bool \<Rightarrow> kbs \<Rightarrow> kbs" where "toggle_nlock_key = toggle_flag KBS_NUMLOCK_DOWN"
definition toggle_sclock_key :: "bool \<Rightarrow> kbs \<Rightarrow> kbs" where "toggle_sclock_key = toggle_flag KBS_SCLOCK_DOWN"
definition set_fn_key :: "bool \<Rightarrow> kbs \<Rightarrow> kbs" where "set_fn_key = set_flag KBS_FN_DOWN"
definition set_ctrl_key :: "bool \<Rightarrow> kbs \<Rightarrow> kbs" where "set_ctrl_key = set_flag KBS_CTRL_DOWN"
definition set_alt_key :: "bool \<Rightarrow> kbs \<Rightarrow> kbs" where "set_alt_key = set_flag KBS_ALT_DOWN"
definition set_shift_key :: "bool \<Rightarrow> kbs \<Rightarrow> kbs" where "set_shift_key = set_flag KBS_SHIFT_DOWN"

definition update_modifier_keys :: "u8 \<Rightarrow> bool \<Rightarrow> kbs \<Rightarrow> kbs" where
  "update_modifier_keys key pressed s =
     (if key = 58 \<or> key = 64 then set_ctrl_key pressed s
      else if key = 60 \<or> key = 62 then set_alt_key pressed s
      else if key = 44 \<or> key = 57 then set_shift_key pressed s
      else if key = 90 then toggle_nlock_key pressed s
      else if key = 125 then toggle_sclock_key pressed s
      else s)"

section \<open>Enabling, typematic settings\<close>

definition kbs_write_typematic :: "u8 \<Rightarrow> kbs \<Rightarrow> kbs_ev list \<times> kbs" where
  "kbs_write_typematic data s =
     ([Timer_stop],
      s\<lparr>typematic_period_idx := data AND 0x1F, typematic_delay_idx := drop_bit 5 data AND 0x60\<rparr>)"

definition kbs_keyboard_enable :: "kbs \<Rightarrow> kbs_ev list \<times> kbs" where
  "kbs_keyboard_enable s =
     (case kbs_write_typematic dflt_typematic_delay_rate s of
        (evs, s') \<Rightarrow> (Kscan_enable_callback # evs, s'))"

definition kbs_keyboard_disable :: "kbs \<Rightarrow> kbs_ev list \<times> kbs" where
  "kbs_keyboard_disable s = ([Timer_stop, Kscan_disable_callback], s)"

definition kbs_keyboard_set_default :: "kbs \<Rightarrow> kbs_ev list \<times> kbs" where
  "kbs_keyboard_set_default s =
     (case kbs_keyboard_disable s of
        (evs, s1) \<Rightarrow> (case kbs_keyboard_enable s1 of (evs', s2) \<Rightarrow> (evs @ evs', s2)))"

definition kbs_is_hotkey_detected :: "kbs \<Rightarrow> bool" where
  "kbs_is_hotkey_detected s = hotkey_detected s"

text \<open>
  Initialisation. The arguments tell whether a callback was given, the device is ready, the
  layout could be obtained, and the build options.
\<close>

definition keyseq_boot :: "u8 \<Rightarrow> u8 \<Rightarrow> kbs_keyseq list \<Rightarrow> kbs_keyseq list" where
  "keyseq_boot custom0 custom1 ks =
     ks[0 := (ks ! 0)\<lparr>ks_trigger_key := 0, ks_modifiers := ucast (KBS_CTRL_DOWN OR KBS_SHIFT_DOWN OR KBS_ALT_DOWN)\<rparr>,
        2 := (ks ! 2)\<lparr>ks_trigger_key := custom0, ks_modifiers := ucast (KBS_SHIFT_DOWN OR KBS_ALT_DOWN)\<rparr>,
        3 := (ks ! 3)\<lparr>ks_trigger_key := custom1, ks_modifiers := ucast (KBS_SHIFT_DOWN OR KBS_ALT_DOWN)\<rparr>]"

definition kbs_matrix_init ::
  "bool \<Rightarrow> bool \<Rightarrow> bool \<Rightarrow> bool \<Rightarrow> (u8 \<times> u8) option \<Rightarrow> kbs \<Rightarrow> rc \<times> kbs_ev list \<times> kbs" where
  "kbs_matrix_init callback ready layout ksodrive early s =
     (if \<not> callback then (Some EINVAL, [], s)
      else if \<not> ready then (Some ENODEV, [], s)
      else
        (case kbs_write_typematic dflt_typematic_delay_rate s of
           (evs, s1) \<Rightarrow>
             let evs' = evs @ [Kscan_config, Kscan_enable_callback] @
                   (if ksodrive then [Kscan_ksodrive_config] else []) @ [Timer_init]
             in if \<not> layout then (Some ENODEV, evs', s1)
                else (None, evs',
                      case early of
                        None \<Rightarrow> s1
                      | Some (c0, c1) \<Rightarrow> s1\<lparr>keyseq_det := keyseq_boot c0 c1 (keyseq_det s1)\<rparr>)))"

section \<open>Scan codes\<close>

definition sc_set :: "bool \<Rightarrow> u8 list \<Rightarrow> scan_code \<Rightarrow> scan_code res" where
  "sc_set tpm codes sc =
     (case store_seq (sc_code sc) 0 codes of
        Inl e \<Rightarrow> Inl e
      | Inr p \<Rightarrow> Inr \<lparr>sc_code = p, sc_len = of_nat (length codes), sc_typematic = tpm\<rparr>)"

definition get_print_screen_scode :: "scan_code \<Rightarrow> bool \<Rightarrow> bool \<Rightarrow> bool \<Rightarrow> bool \<Rightarrow> scan_code res" where
  "get_print_screen_scode sc pressed ctrl alt shift =
     (if \<not> shift \<and> \<not> ctrl \<and> \<not> alt then
        (if pressed then sc_set True [0xe0, 0x12, 0xe0, 0x7c] sc
         else sc_set False [0xe0, 0xf0, 0x7c, 0xe0, 0xf0, 0x12] sc)
      else if alt then
        (if pressed then sc_set True [0x84] sc else sc_set False [0xf0, 0x84] sc)
      else
        (if pressed then sc_set True [0xe0, 0x7c] sc else sc_set False [0xf0, 0xe0, 0x7c] sc))"

definition get_pause_scode :: "scan_code \<Rightarrow> bool \<Rightarrow> scan_code res" where
  "get_pause_scode sc ctrl =
     (if ctrl then sc_set False [0xe0, 0x7e, 0xe0, 0xf0, 0x7e] sc
      else sc_set False [0xe1, 0x14, 0x77, 0xe1, 0xf0, 0x14, 0xf0, 0x77] sc)"

definition numpad_code :: "u8 \<Rightarrow> u8" where
  "numpad_code key =
     (if key = 8 then 0x6C else if key = 9 then 0x75 else if key = 10 then 0x7D
      else if key = 11 then 0x4A else if key = 23 then 0x6B else if key = 24 then 0x73
      else if key = 25 then 0x74 else if key = 26 then 0x7C else if key = 37 then 0x69
      else if key = 38 then 0x72 else if key = 39 then 0x7A else if key = 40 then 0x4E
      else if key = 52 then 0x70 else if key = 54 then 0x71 else if key = 55 then 0x79
      else 0)"

definition get_numpad_scode :: "u8 \<Rightarrow> scan_code \<Rightarrow> bool \<Rightarrow> scan_code res" where
  "get_numpad_scode key sc pressed =
     (let c = numpad_code key in
      if c \<noteq> 0 then
        (if pressed then
           (case st (sc_code sc) 0 c of
              Inl e \<Rightarrow> Inl e
            | Inr p \<Rightarrow> Inr \<lparr>sc_code = p, sc_len = sc_len sc + 1, sc_typematic = True\<rparr>)
         else sc_set False [0xF0, c] sc)
      else Inr (sc\<lparr>sc_len := 0\<rparr>))"

text \<open>The break code of a table entry: \<open>F0\<close> before every byte but the prefix \<open>E0\<close>.\<close>

fun break_codes :: "u8 list \<Rightarrow> u8 list" where
  "break_codes [] = []"
| "break_codes (c # cs) = (if c \<noteq> 0xE0 then [0xF0, c] else [c]) @ break_codes cs"

definition get_table_scode :: "u8 \<Rightarrow> scan_code \<Rightarrow> bool \<Rightarrow> scan_code res" where
  "get_table_scode key sc pressed =
     (if MAX_SC2_TABLE_SIZE \<le> unat key then Inr (sc\<lparr>sc_len := 0\<rparr>)
      else
        (case ld scan_code2 (unat key) of
           Inl e \<Rightarrow> Inl e
         | Inr codes \<Rightarrow>
             if length codes \<noteq> 0 then
               (if pressed then sc_set True codes sc else sc_set False (break_codes codes) sc)
             else Inr sc))"

definition get_plain_scode :: "kbs \<Rightarrow> u8 \<Rightarrow> scan_code \<Rightarrow> bool \<Rightarrow> scan_code res" where
  "get_plain_scode s key sc pressed =
     (if key = 124 then
        get_print_screen_scode sc pressed (ctrl_pressed s) (alt_pressed s) (shift_pressed s)
      else if key = 126 then get_pause_scode sc (ctrl_pressed s)
      else get_table_scode key sc pressed)"

definition get_scan_code :: "u8 \<Rightarrow> scan_code \<Rightarrow> bool \<Rightarrow> kbs \<Rightarrow> (scan_code \<times> kbs) res" where
  "get_scan_code key sc pressed s0 =
     (let s = update_modifier_keys key pressed s0;
          plain = (\<lambda>sc. map_sum id (\<lambda>sc2. (sc2, s)) (get_plain_scode s key sc pressed))
      in if numlock_on s then
           (case get_numpad_scode key sc pressed of
              Inl e \<Rightarrow> Inl e
            | Inr sc1 \<Rightarrow> if sc_len sc1 \<noteq> 0 then Inr (sc1, s) else plain sc1)
         else plain sc)"

section \<open>Make and break\<close>

text \<open>The translation loop over \<open>sc2.code[i]\<close>, appending to a scan code that starts empty.\<close>

fun translate_loop :: "u8 \<Rightarrow> u8 list \<Rightarrow> bool \<Rightarrow> scan_code \<Rightarrow> (scan_code \<times> bool) res" where
  "translate_loop sset [] found out = Inr (out, found)"
| "translate_loop sset (v # vs) found out =
     (case translate_key sset v found of
        (rc, v', found') \<Rightarrow>
          if rc = None \<and> unat (sc_len out) < MAX_SCAN_CODE_LEN then
            (case st (sc_code out) (unat (sc_len out)) v' of
               Inl e \<Rightarrow> Inl e
             | Inr p \<Rightarrow> translate_loop sset vs found' (out\<lparr>sc_code := p, sc_len := sc_len out + 1\<rparr>))
          else translate_loop sset vs found' out)"

definition translate_scan_code :: "u8 \<Rightarrow> scan_code \<Rightarrow> bool \<Rightarrow> scan_code \<Rightarrow> (scan_code \<times> bool) res" where
  "translate_scan_code sset sc2 found out =
     (case load_seq (sc_code sc2) 0 (unat (sc_len sc2)) of
        Inl e \<Rightarrow> Inl e
      | Inr vs \<Rightarrow> translate_loop sset vs found (out\<lparr>sc_len := 0\<rparr>))"

definition sc_cleared :: scan_code where
  "sc_cleared = \<lparr>sc_code = replicate MAX_SCAN_CODE_LEN 0, sc_len = 0, sc_typematic = False\<rparr>"

text \<open>
  The environment of a key event: the board, the current scan code set, the Fn LEDs' levels
  and the two uninitialised stack objects.
\<close>

record kbs_env =
  ke_board :: board
  ke_set :: u8
  ke_pin :: "fn_led \<Rightarrow> bool"
  ke_junk :: fn_data
  ke_junk_sc :: scan_code

definition toggles_fn_lock :: "board \<Rightarrow> u8 \<Rightarrow> bool" where
  "toggles_fn_lock b key \<longleftrightarrow> (b = BRD_MDS_DORNE \<or> b = BRD_MDS_AERIS) \<and> key = 110"

text \<open>
  The code to send for a key press: \<open>None\<close> when the function returns early because the Fn key
  is not mapped.
\<close>

definition make_fn :: "kbs_env \<Rightarrow> u8 \<Rightarrow> kbs \<Rightarrow> kbs_ev list \<times> scan_code option \<times> kbs" where
  "make_fn env key s =
     (case amdcrb_get_fn_key (ke_board env) (ke_pin env) key True (ke_junk env) of
        (rc, d, leds) \<Rightarrow>
          let s1 = (if toggles_fn_lock (ke_board env) key
                    then set_fn_key (\<not> fn_lock s) (s\<lparr>fn_lock := \<not> fn_lock s\<rparr>) else s);
              evs = map (\<lambda>(p, l). Fn_led_write p l) leds
          in if fd_type d = FN_SCAN_CODE then
               (evs, if sc_code (fd_sc d) ! 0 = 0 then None else Some (fd_sc d),
                s1\<lparr>hotkey_detected := False\<rparr>)
             else (evs @ [ACPI_NotifyHost (fn_sci_code d)], Some sc_cleared, s1\<lparr>hotkey_detected := True\<rparr>))"

definition make_code :: "kbs_env \<Rightarrow> u8 \<Rightarrow> kbs \<Rightarrow> (kbs_ev list \<times> scan_code option \<times> kbs) res" where
  "make_code env key s =
     (if fn_pressed s then Inr (make_fn env key s)
      else
        (case get_scan_code key sc_cleared True (s\<lparr>hotkey_detected := False\<rparr>) of
           Inl e \<Rightarrow> Inl e
         | Inr (sc, s') \<Rightarrow> Inr ([], Some sc, s')))"

definition start_typematic :: "kbs \<Rightarrow> scan_code \<Rightarrow> kbs_ev list res" where
  "start_typematic s sc =
     (if sc_typematic sc then
        (case ld typematic_delay (unat (typematic_delay_idx s)) of
           Inl e \<Rightarrow> Inl e
         | Inr d \<Rightarrow>
             (case ld typematic_period (unat (typematic_period_idx s)) of
                Inl e \<Rightarrow> Inl e
              | Inr p \<Rightarrow> Inr [Timer_start d p]))
      else Inr [])"

definition make_key :: "kbs_env \<Rightarrow> u8 \<Rightarrow> kbs \<Rightarrow> (kbs_ev list \<times> kbs) res" where
  "make_key env key s =
     (if key = 255 then Inr ([Timer_stop], set_fn_key True s)
      else
        (case make_code env key s of
           Inl e \<Rightarrow> Inl e
         | Inr (evs, None, s1) \<Rightarrow> Inr (Timer_stop # evs, s1)
         | Inr (evs, Some sc2, s1) \<Rightarrow>
             if sc_len sc2 = 0 then Inr (Timer_stop # evs, s1)
             else
               (case translate_scan_code (ke_set env) sc2 (found_break_code s1) (make_tpmatic_code s1) of
                  Inl e \<Rightarrow> Inl e
                | Inr (out, found) \<Rightarrow>
                    (case start_typematic s1 sc2 of
                       Inl e \<Rightarrow> Inl e
                     | Inr tm \<Rightarrow>
                         Inr (Timer_stop # evs @ [Kbs_callback (sc_code out) (sc_len out)] @ tm,
                              s1\<lparr>make_tpmatic_code := out, found_break_code := found\<rparr>)))))"

definition break_code :: "kbs_env \<Rightarrow> u8 \<Rightarrow> kbs \<Rightarrow> (scan_code option \<times> kbs) res" where
  "break_code env key s =
     (if fn_pressed s then
        (case amdcrb_get_fn_key (ke_board env) (ke_pin env) key False (ke_junk env) of
           (rc, d, leds) \<Rightarrow>
             if fd_type d = FN_SCAN_CODE
             then Inr (if sc_code (fd_sc d) ! 0 = 0 then None else Some (fd_sc d), s)
             else Inr (Some sc_cleared, s))
      else
        (case get_scan_code key sc_cleared False s of
           Inl e \<Rightarrow> Inl e
         | Inr (sc, s') \<Rightarrow> Inr (Some sc, s')))"

definition break_key :: "kbs_env \<Rightarrow> u8 \<Rightarrow> kbs \<Rightarrow> (kbs_ev list \<times> kbs) res" where
  "break_key env key s =
     (if key = 255 then Inr ([Timer_stop], set_fn_key (fn_lock s) s)
      else
        (case break_code env key s of
           Inl e \<Rightarrow> Inl e
         | Inr (None, s1) \<Rightarrow> Inr ([Timer_stop], s1)
         | Inr (Some sc2, s1) \<Rightarrow>
             if sc_len sc2 = 0 then Inr ([Timer_stop], s1)
             else
               (case translate_scan_code (ke_set env) sc2 (found_break_code s1) (ke_junk_sc env) of
                  Inl e \<Rightarrow> Inl e
                | Inr (out, found) \<Rightarrow>
                    Inr ([Timer_stop, Kbs_callback (sc_code out) (sc_len out)],
                         s1\<lparr>found_break_code := found\<rparr>))))"

definition typematic_callback :: "kbs \<Rightarrow> kbs_ev list" where
  "typematic_callback s = [Kbs_callback (sc_code (make_tpmatic_code s)) (sc_len (make_tpmatic_code s))]"

section \<open>Hot-key sequences\<close>

definition kbs_keyseq_boot_detect :: "nat \<Rightarrow> kbs \<Rightarrow> bool res" where
  "kbs_keyseq_boot_detect ty s =
     (case ld (keyseq_det s) ty of Inl e \<Rightarrow> Inl e | Inr k \<Rightarrow> Inr (ks_detected k))"

definition kbs_keyseq_define :: "u8 \<Rightarrow> u8 \<Rightarrow> kbs \<Rightarrow> (rc \<times> kbs) res" where
  "kbs_keyseq_define modifiers key s =
     (case ld (keyseq_det s) 1 of
        Inl e \<Rightarrow> Inl e
      | Inr k \<Rightarrow>
          if ks_trigger_key k \<noteq> 0 then Inr (Some EINVAL, s)
          else if ks_handler k then Inr (Some EINVAL, s)
          else Inr (None, s\<lparr>keyseq_det := (keyseq_det s)
                 [1 := k\<lparr>ks_trigger_key := key, ks_modifiers := modifiers, ks_handler := True\<rparr>]\<rparr>))"

definition kbs_keyseq_register :: "nat \<Rightarrow> kbs \<Rightarrow> (rc \<times> kbs) res" where
  "kbs_keyseq_register index s =
     (case ld (keyseq_det s) index of
        Inl e \<Rightarrow> Inl e
      | Inr k \<Rightarrow>
          if ks_handler k then Inr (Some EINVAL, s)
          else Inr (None, s\<lparr>keyseq_det := (keyseq_det s)[index := k\<lparr>ks_handler := True\<rparr>]\<rparr>))"

definition is_modifier :: "u8 \<Rightarrow> bool" where
  "is_modifier key \<longleftrightarrow> key \<in> {58, 64, 60, 62, 44, 57, 90, 125}"

text \<open>The loop over the sequences, with the trigger key and the handler calls threaded through.\<close>

definition keyseq_step :: "u32 \<Rightarrow> nat \<Rightarrow> kbs_keyseq \<Rightarrow> u8 \<Rightarrow> kbs_keyseq \<times> u8" where
  "keyseq_step flags i k trig =
     (let match_mod = (flags AND ucast (ks_modifiers k) = (ucast (ks_modifiers k) :: u32)) in
      if ks_modifiers k = 0 then (k, trig)
      else if match_mod \<and> i = 0 then (k\<lparr>ks_detected := True\<rparr>, 0)
      else if trig = ks_trigger_key k \<and> match_mod then (k\<lparr>ks_detected := True\<rparr>, 0)
      else (k, trig))"

fun keyseq_loop :: "u32 \<Rightarrow> bool \<Rightarrow> nat \<Rightarrow> kbs_keyseq list \<Rightarrow> u8 \<Rightarrow> kbs_keyseq list \<times> u8 \<times> kbs_ev list" where
  "keyseq_loop flags pressed i [] trig = ([], trig, [])"
| "keyseq_loop flags pressed i (k # ks) trig =
     (case keyseq_step flags i k trig of
        (k', trig') \<Rightarrow>
          (case keyseq_loop flags pressed (Suc i) ks trig' of
             (ks', trig'', evs) \<Rightarrow>
               (k' # ks', trig'',
                (if ks_modifiers k \<noteq> 0 \<and> ks_detected k' \<and> ks_handler k'
                 then [Keyseq_handler i pressed] else []) @ evs)))"

definition fw_hotkeyseq_detection :: "bool \<Rightarrow> u8 \<Rightarrow> kbs \<Rightarrow> kbs_ev list \<times> kbs" where
  "fw_hotkeyseq_detection pressed key s =
     (let trig = (if \<not> is_modifier key then key else trigger_key s) in
      case keyseq_loop (kscan_flags s) pressed 0 (keyseq_det s) trig of
        (ks, trig', evs) \<Rightarrow> (evs, s\<lparr>keyseq_det := ks, trigger_key := trig'\<rparr>))"

text \<open>
  The scan driver's callback. \<open>bad_key\<close> is what the negative return code of the layout becomes
  as an 8-bit key number; \<open>early\<close> is the build option for hot-key sequences.
\<close>

definition kscan_callback :: "bool \<Rightarrow> u8 \<Rightarrow> kbs_env \<Rightarrow> u8 \<Rightarrow> u8 \<Rightarrow> bool \<Rightarrow> kbs \<Rightarrow> (kbs_ev list \<times> kbs) res" where
  "kscan_callback early bad_key env row col pressed s =
     (case amdcrb_get_keynum (ke_board env) col row of
        Inl e \<Rightarrow> Inl e
      | Inr (rc, k) \<Rightarrow>
          let key = (if rc = None then k else bad_key) in
          (case (if pressed then make_key env key s else break_key env key s) of
             Inl e \<Rightarrow> Inl e
           | Inr (evs, s1) \<Rightarrow>
               if early then
                 (case fw_hotkeyseq_detection pressed key s1 of (evs', s2) \<Rightarrow> Inr (evs @ evs', s2))
               else Inr (evs, s1)))"

section \<open>Column drive, synthetic keys\<close>

definition KSO_Out :: "bool \<Rightarrow> u8 \<Rightarrow> kbs_ev list" where
  "KSO_Out level line = (if unat line < MAX_MTX_KEY_COLS then [Kso_write (unat line) level] else [])"

definition KSO_Out_High :: "u8 \<Rightarrow> kbs_ev list" where "KSO_Out_High = KSO_Out True"
definition KSO_Out_Low :: "u8 \<Rightarrow> kbs_ev list" where "KSO_Out_Low = KSO_Out False"

definition KSO_All_High :: "kbs_ev list" where
  "KSO_All_High = concat (map (\<lambda>i. KSO_Out_High (of_nat i)) [0..<MAX_MTX_KEY_COLS])"

definition KSO_All_Low :: "kbs_ev list" where
  "KSO_All_Low = concat (map (\<lambda>i. KSO_Out_Low (of_nat i)) [0..<MAX_MTX_KEY_COLS])"

definition kscan_ksodrive :: "int \<Rightarrow> bool \<Rightarrow> kbs_ev list" where
  "kscan_ksodrive col level =
     (if col = - 2 then KSO_All_High
      else if col = - 1 then KSO_All_Low
      else if level then KSO_Out_High (of_int col) else KSO_Out_Low (of_int col))"

fun run_keys :: "kbs_env \<Rightarrow> (u8 \<times> bool) list \<Rightarrow> kbs \<Rightarrow> (kbs_ev list \<times> kbs) res" where
  "run_keys env [] s = Inr ([], s)"
| "run_keys env ((key, pressed) # ks) s =
     (case (if pressed then make_key env key s else break_key env key s) of
        Inl e \<Rightarrow> Inl e
      | Inr (evs, s1) \<Rightarrow>
          (case run_keys env ks s1 of
             Inl e \<Rightarrow> Inl e
           | Inr (evs', s2) \<Rightarrow>
               Inr (evs @ (if ks \<noteq> [] then [Busy_wait_ms 1] else []) @ evs', s2)))"

definition kbs_generate_key_win_slide :: "kbs_env \<Rightarrow> kbs \<Rightarrow> (kbs_ev list \<times> kbs) res" where
  "kbs_generate_key_win_slide env s = run_keys env [(127, True), (134, True), (134, False), (127, False)] s"

end
