(* ===== verification/Kbs_Props.thy ===== *)
theory Kbs_Props
  imports Kbs
begin

text \<open>
  Correctness of the keyboard scanner: a key event overruns a scan code buffer or a table only
  through uninitialised Fn data,
  the break code the host sees is the make code with the release bit, modifier tracking, and
  the defects the model shows in the typematic delay, the layout's range check and the Fn keys.
\<close>

section \<open>Tables\<close>

lemma scan_code2_entries:
  "length scan_code2 = MAX_SC2_TABLE_SIZE"
  "list_all (\<lambda>cs. length cs \<le> 2 \<and> list_all (\<lambda>c. c \<noteq> 0xF0) cs) scan_code2"
  by (simp_all add: scan_code2_def MAX_SC2_TABLE_SIZE_def)

lemma scan_code2_entry:
  assumes "unat key < MAX_SC2_TABLE_SIZE"
  shows "length (scan_code2 ! unat key) \<le> 2" "0xF0 \<notin> set (scan_code2 ! unat key)"
  using assms scan_code2_entries by (auto simp: list_all_iff list_all_length)

lemma length_translation_table: "length kb_translation_table = 256"
  by (simp add: kb_translation_table_def)

abbreviation T :: "u8 \<Rightarrow> u8" where
  "T c \<equiv> kb_translation_table ! unat c"

lemma T_E0: "kb_translation_table ! 224 = 0xE0"
  by (simp add: kb_translation_table_def)

lemma keymap_shape:
  "length (amdcrb_keymap b) = MAX_MTX_KEY_COLS" "list_all (\<lambda>r. length r = MAX_MTX_KEY_ROWS) (amdcrb_keymap b)"
  by (cases b; simp add: keymap_dorne_def keymap_aeris_def keymap_other_def MAX_MTX_KEY_COLS_def MAX_MTX_KEY_ROWS_def)+

section \<open>Flags\<close>

lemma flag_set_bit: "flag_set n s \<longleftrightarrow> bit (kscan_flags s) n"
  by (auto simp: flag_set_def and_one_eq bit_iff_odd_drop_bit mod2_eq_if)

lemmas flag_defs = numlock_on_def sclock_on_def fn_pressed_def ctrl_pressed_def alt_pressed_def shift_pressed_def
definition is_flag :: "nat \<Rightarrow> u32 \<Rightarrow> bool" where
  "is_flag n f \<longleftrightarrow> (\<forall>k. bit f k \<longleftrightarrow> k = n)"

lemma is_flags:
  "is_flag 0 KBS_NUMLOCK_DOWN" "is_flag 1 KBS_SCLOCK_DOWN" "is_flag 2 KBS_FN_DOWN"
  "is_flag 3 KBS_CTRL_DOWN" "is_flag 4 KBS_ALT_DOWN" "is_flag 5 KBS_SHIFT_DOWN"
  unfolding is_flag_def KBS_NUMLOCK_DOWN_def KBS_SCLOCK_DOWN_def KBS_FN_DOWN_def KBS_CTRL_DOWN_def
    KBS_ALT_DOWN_def KBS_SHIFT_DOWN_def bit_flag
  by simp_all

lemma flag_set_set_flag:
  "is_flag n f \<Longrightarrow> m < 32 \<Longrightarrow> flag_set m (set_flag f p s) \<longleftrightarrow> (if m = n then p else flag_set m s)"
  by (auto simp: flag_set_bit set_flag_def is_flag_def bit_or_iff bit_and_iff bit_not_iff)

lemma flag_set_toggle_flag:
  "is_flag n f \<Longrightarrow> flag_set m (toggle_flag f p s) \<longleftrightarrow> (if m = n \<and> p then \<not> flag_set m s else flag_set m s)"
  by (auto simp: flag_set_bit toggle_flag_def is_flag_def bit_xor_iff)

lemma set_flag_frame [simp]:
  "make_tpmatic_code (set_flag f p s) = make_tpmatic_code s"
  "typematic_delay_idx (set_flag f p s) = typematic_delay_idx s"
  "typematic_period_idx (set_flag f p s) = typematic_period_idx s"
  "found_break_code (set_flag f p s) = found_break_code s"
  "hotkey_detected (set_flag f p s) = hotkey_detected s"
  "fn_lock (set_flag f p s) = fn_lock s"
  "make_tpmatic_code (toggle_flag f p s) = make_tpmatic_code s"
  "typematic_delay_idx (toggle_flag f p s) = typematic_delay_idx s"
  "typematic_period_idx (toggle_flag f p s) = typematic_period_idx s"
  "found_break_code (toggle_flag f p s) = found_break_code s"
  "hotkey_detected (toggle_flag f p s) = hotkey_detected s"
  "fn_lock (toggle_flag f p s) = fn_lock s"
  by (simp_all add: set_flag_def toggle_flag_def)

lemmas modifier_ops = set_ctrl_key_def set_alt_key_def set_shift_key_def toggle_nlock_key_def
  toggle_sclock_key_def set_fn_key_def

lemma update_modifier_frame [simp]:
  "make_tpmatic_code (update_modifier_keys k p s) = make_tpmatic_code s"
  "typematic_delay_idx (update_modifier_keys k p s) = typematic_delay_idx s"
  "typematic_period_idx (update_modifier_keys k p s) = typematic_period_idx s"
  "found_break_code (update_modifier_keys k p s) = found_break_code s"
  "hotkey_detected (update_modifier_keys k p s) = hotkey_detected s"
  "fn_lock (update_modifier_keys k p s) = fn_lock s"
  by (simp_all add: update_modifier_keys_def modifier_ops)

lemma flag_set_update_modifier:
  "m < 32 \<Longrightarrow> flag_set m (update_modifier_keys k p s) \<longleftrightarrow>
     (if m = 3 \<and> (k = 58 \<or> k = 64) then p
      else if m = 4 \<and> (k = 60 \<or> k = 62) then p
      else if m = 5 \<and> (k = 44 \<or> k = 57) then p
      else if m = 0 \<and> k = 90 \<and> p then \<not> flag_set m s
      else if m = 1 \<and> k = 125 \<and> p then \<not> flag_set m s
      else flag_set m s)"
  unfolding update_modifier_keys_def modifier_ops
  by (simp add: flag_set_set_flag [OF is_flags(4)] flag_set_set_flag [OF is_flags(5)]
      flag_set_set_flag [OF is_flags(6)] flag_set_toggle_flag [OF is_flags(1)]
      flag_set_toggle_flag [OF is_flags(2)])

section \<open>Translation\<close>

text \<open>What the translation loop emits, as a function on lists.\<close>

fun translated :: "u8 \<Rightarrow> bool \<Rightarrow> u8 list \<Rightarrow> u8 list" where
  "translated sset found [] = []"
| "translated sset found (v # vs) =
     (case translate_key sset v found of
        (rc, v', found') \<Rightarrow> (if rc = None then [v'] else []) @ translated sset found' vs)"

fun translated_flag :: "u8 \<Rightarrow> bool \<Rightarrow> u8 list \<Rightarrow> bool" where
  "translated_flag sset found [] = found"
| "translated_flag sset found (v # vs) = translated_flag sset (snd (snd (translate_key sset v found))) vs"

definition sc_ok :: "scan_code \<Rightarrow> bool" where
  "sc_ok sc \<longleftrightarrow> length (sc_code sc) = MAX_SCAN_CODE_LEN \<and> unat (sc_len sc) \<le> MAX_SCAN_CODE_LEN"

definition sc_bytes :: "scan_code \<Rightarrow> u8 list" where
  "sc_bytes sc = take (unat (sc_len sc)) (sc_code sc)"

lemma translate_loop_ok:
  assumes "sc_ok out"
  shows "\<exists>out'. translate_loop sset vs found out = Inr (out', translated_flag sset found vs) \<and> sc_ok out' \<and>
     sc_bytes out' = take MAX_SCAN_CODE_LEN (sc_bytes out @ translated sset found vs) \<and>
     sc_typematic out' = sc_typematic out"
  using assms
proof (induction vs arbitrary: found out)
  case Nil
  then show ?case by (simp add: sc_ok_def sc_bytes_def)
next
  case (Cons v vs)
  obtain rc v' f' where t: "translate_key sset v found = (rc, v', f')" using prod_cases3 by blast
  let ?n = "unat (sc_len out)"
  consider "rc \<noteq> None" | "rc = None" "\<not> ?n < MAX_SCAN_CODE_LEN" | "rc = None" "?n < MAX_SCAN_CODE_LEN" by blast
  then show ?case
  proof cases
    case 1
    then show ?thesis using Cons.IH [OF Cons.prems, of f'] t by auto
  next
    case 2
    then have full: "length (sc_bytes out) = MAX_SCAN_CODE_LEN"
      using Cons.prems by (simp add: sc_ok_def sc_bytes_def)
    then show ?thesis using Cons.IH [OF Cons.prems, of f'] t 2 by auto
  next
    case 3
    let ?out = "out\<lparr>sc_code := (sc_code out)[?n := v'], sc_len := sc_len out + 1\<rparr>"
    have len: "?n < length (sc_code out)" using Cons.prems 3 by (simp add: sc_ok_def)
    have n1: "unat (sc_len out + 1) = Suc ?n" using 3(2) by (simp add: unat_word_ariths MAX_SCAN_CODE_LEN_def)
    have ok: "sc_ok ?out" using Cons.prems 3(2) n1 by (simp add: sc_ok_def)
    have "sc_bytes ?out = sc_bytes out @ [v']"
      using len n1 by (simp add: sc_bytes_def take_Suc_conv_app_nth)
    then show ?thesis using Cons.IH [OF ok, of f'] t 3 len by (simp add: access)
  qed
qed

lemma translate_scan_code_ok:
  assumes "sc_ok sc" "length (sc_code out) = MAX_SCAN_CODE_LEN"
  shows "\<exists>out'. translate_scan_code sset sc found out = Inr (out', translated_flag sset found (sc_bytes sc)) \<and>
     sc_ok out' \<and> sc_bytes out' = take MAX_SCAN_CODE_LEN (translated sset found (sc_bytes sc))"
  using assms translate_loop_ok [of "out\<lparr>sc_len := 0\<rparr>" sset "sc_bytes sc" found]
  by (auto simp: translate_scan_code_def sc_ok_def access sc_bytes_def)

lemma translated_make:
  "0xF0 \<notin> set cs \<Longrightarrow> translated 2 False cs = map T cs" "0xF0 \<notin> set cs \<Longrightarrow> \<not> translated_flag 2 False cs"
  by (induction cs) (auto simp: translate_key_def START_BREAK_CODE_def Let_def)

lemma translated_break:
  "0xF0 \<notin> set cs \<Longrightarrow>
     translated 2 False (break_codes cs) = map (\<lambda>c. if c = 0xE0 then 0xE0 else T c OR 0x80) cs"
  by (induction cs) (auto simp: translate_key_def START_BREAK_CODE_def Let_def T_E0)

section \<open>No key event faults\<close>

definition kbs_wf :: "kbs \<Rightarrow> bool" where
  "kbs_wf s \<longleftrightarrow> sc_ok (make_tpmatic_code s) \<and> unat (typematic_delay_idx s) < length typematic_delay \<and>
     unat (typematic_period_idx s) < length typematic_period"

text \<open>
  The uninitialised objects have the size of their types; \<open>junk_ok\<close> says in addition that the
  length byte found in the uninitialised Fn data does not exceed the buffer.
\<close>

definition env_shape :: "kbs_env \<Rightarrow> bool" where
  "env_shape env \<longleftrightarrow> length (sc_code (fd_sc (ke_junk env))) = MAX_SCAN_CODE_LEN \<and>
     length (sc_code (ke_junk_sc env)) = MAX_SCAN_CODE_LEN"

definition junk_ok :: "kbs_env \<Rightarrow> bool" where
  "junk_ok env \<longleftrightarrow> env_shape env \<and> unat (sc_len (fd_sc (ke_junk env))) \<le> MAX_SCAN_CODE_LEN"

lemma sc_set_ok:
  "length codes \<le> 8 \<Longrightarrow> length (sc_code sc) = MAX_SCAN_CODE_LEN \<Longrightarrow>
     \<exists>sc'. sc_set tpm codes sc = Inr sc' \<and> sc_ok sc' \<and> sc_bytes sc' = codes \<and> sc_typematic sc' = tpm"
  by (auto simp: sc_set_def access sc_ok_def sc_bytes_def MAX_SCAN_CODE_LEN_def unat_of_nat)

lemma break_codes_length: "length (break_codes cs) \<le> 2 * length cs"
  by (induction cs) auto

lemma get_table_scode_ok:
  assumes "sc_ok sc"
  shows "\<exists>sc'. get_table_scode key sc pressed = Inr sc' \<and> sc_ok sc'"
proof (cases "MAX_SC2_TABLE_SIZE \<le> unat key")
  case True
  then show ?thesis using assms by (simp add: get_table_scode_def sc_ok_def)
next
  case False
  then have k: "unat key < MAX_SC2_TABLE_SIZE" by simp
  let ?cs = "scan_code2 ! unat key"
  have "length ?cs \<le> 8" "length (break_codes ?cs) \<le> 8"
    using scan_code2_entry(1) [OF k] break_codes_length [of ?cs] by simp_all
  then show ?thesis
    using k assms sc_set_ok [of ?cs sc True] sc_set_ok [of "break_codes ?cs" sc False] scan_code2_entries(1)
    by (auto simp: get_table_scode_def access sc_ok_def)
qed

lemma get_plain_scode_ok:
  assumes "sc_ok sc"
  shows "\<exists>sc'. get_plain_scode s key sc pressed = Inr sc' \<and> sc_ok sc'"
proof -
  have *: "\<exists>sc'. sc_set tpm codes sc = Inr sc' \<and> sc_ok sc'" if "length codes \<le> 8" for tpm codes
    using sc_set_ok [OF that] assms by (auto simp: sc_ok_def)
  show ?thesis
    using get_table_scode_ok [OF assms, of key pressed]
    by (auto simp: get_plain_scode_def get_print_screen_scode_def get_pause_scode_def intro!: *)
qed

lemma get_numpad_scode_ok:
  assumes "sc_ok sc" "sc_len sc = 0"
  shows "\<exists>sc'. get_numpad_scode key sc pressed = Inr sc' \<and> sc_ok sc'"
  using assms sc_set_ok [of "[0xF0, numpad_code key]" sc False]
  by (auto simp: get_numpad_scode_def Let_def sc_ok_def access MAX_SCAN_CODE_LEN_def)

lemma sc_cleared_ok: "sc_ok sc_cleared" "sc_len sc_cleared = 0" "sc_bytes sc_cleared = []"
  by (simp_all add: sc_cleared_def sc_ok_def sc_bytes_def)

lemma get_scan_code_ok:
  "\<exists>sc'. get_scan_code key sc_cleared pressed s = Inr (sc', update_modifier_keys key pressed s) \<and> sc_ok sc'"
proof -
  let ?s = "update_modifier_keys key pressed s"
  obtain n where n: "get_numpad_scode key sc_cleared pressed = Inr n" "sc_ok n"
    using get_numpad_scode_ok [OF sc_cleared_ok(1,2)] by blast
  show ?thesis
    using n get_plain_scode_ok [OF sc_cleared_ok(1), of ?s key pressed] get_plain_scode_ok [OF n(2), of ?s key pressed]
    by (auto simp: get_scan_code_def Let_def)
qed

lemma fn_key_shape:
  assumes "length (sc_code (fd_sc d)) = MAX_SCAN_CODE_LEN" "amdcrb_get_fn_key b pin key pressed d = (rc, d', leds)"
  shows "length (sc_code (fd_sc d')) = MAX_SCAN_CODE_LEN \<and>
     (sc_len (fd_sc d') = sc_len (fd_sc d) \<or> unat (sc_len (fd_sc d')) \<le> 6)"
proof -
  define good where "good f \<longleftrightarrow> (\<forall>d. length (sc_code (fd_sc d)) = MAX_SCAN_CODE_LEN \<longrightarrow>
     length (sc_code (fd_sc (f d))) = MAX_SCAN_CODE_LEN \<and>
     (sc_len (fd_sc (f d)) = sc_len (fd_sc d) \<or> unat (sc_len (fd_sc (f d))) \<le> 6))" for f :: "fn_data \<Rightarrow> fn_data"
  have g: "good (fn_ext r c p)" "good (fn_plain c p)" "good (fn_prtsc p)" "good (fn_event ty c p)"
    "good fn_unmapped" "good id" for r c p ty
    by (auto simp: good_def fn_ext_def fn_plain_def fn_prtsc_def fn_event_def fn_unmapped_def fn_scan_def
        fn_sci_def put_code_def MAX_SCAN_CODE_LEN_def)
  have "good f" if "fn_branch b key pressed = Some f" for f
    using that
    by (cases b)
       (auto simp: dorne_f_keys_def dorne_other_keys_def aeris_f_keys_def aeris_other_keys_def
          other_f_keys_def other_other_keys_def g split: if_splits option.splits)
  then show ?thesis
    using assms by (auto simp: amdcrb_get_fn_key_def good_def split: option.splits)
qed

lemma start_typematic_ok: "kbs_wf s \<Longrightarrow> \<exists>tm. start_typematic s sc = Inr tm"
  by (auto simp: start_typematic_def kbs_wf_def access)

lemma fn_key_sc_ok:
  assumes "junk_ok env" "amdcrb_get_fn_key b pin key pressed (ke_junk env) = (rc, d', leds)"
  shows "sc_ok (fd_sc d')"
  using fn_key_shape [OF _ assms(2)] assms(1)
  by (auto simp: junk_ok_def env_shape_def sc_ok_def MAX_SCAN_CODE_LEN_def)

text \<open>The uninitialised Fn data matter only while Fn is held.\<close>

definition fn_safe :: "kbs_env \<Rightarrow> kbs \<Rightarrow> bool" where
  "fn_safe env s \<longleftrightarrow> env_shape env \<and> (fn_pressed s \<longrightarrow> unat (sc_len (fd_sc (ke_junk env))) \<le> MAX_SCAN_CODE_LEN)"

lemma fn_safe_junk: "fn_safe env s \<Longrightarrow> fn_pressed s \<Longrightarrow> junk_ok env"
  by (simp add: fn_safe_def junk_ok_def)

lemma junk_fn_safe: "junk_ok env \<Longrightarrow> fn_safe env s"
  by (simp add: fn_safe_def junk_ok_def)

lemma make_code_ok:
  assumes "kbs_wf s" "fn_safe env s"
  shows "\<exists>evs osc s'. make_code env key s = Inr (evs, osc, s') \<and> (\<forall>sc. osc = Some sc \<longrightarrow> sc_ok sc) \<and> kbs_wf s'"
proof (cases "fn_pressed s")
  case True
  obtain rc d leds where k: "amdcrb_get_fn_key (ke_board env) (ke_pin env) key True (ke_junk env) = (rc, d, leds)"
    using prod_cases3 by blast
  then show ?thesis
    using True assms(1) fn_key_sc_ok [OF fn_safe_junk [OF assms(2) True] k] sc_cleared_ok(1)
    by (auto simp: make_code_def make_fn_def Let_def kbs_wf_def modifier_ops)
next
  case False
  then show ?thesis
    using get_scan_code_ok [of key True "s\<lparr>hotkey_detected := False\<rparr>"] assms(1)
    by (auto simp: make_code_def kbs_wf_def)
qed

lemma make_key_ok:
  assumes "kbs_wf s" "fn_safe env s"
  shows "\<exists>evs s'. make_key env key s = Inr (evs, s') \<and> kbs_wf s'"
proof -
  obtain evs osc s1 where m: "make_code env key s = Inr (evs, osc, s1)" "\<forall>sc. osc = Some sc \<longrightarrow> sc_ok sc" "kbs_wf s1"
    using make_code_ok [OF assms] by blast
  show ?thesis
  proof (cases osc)
    case None
    then show ?thesis using m assms(1) by (simp add: make_key_def kbs_wf_def modifier_ops)
  next
    case (Some sc)
    obtain tm where "start_typematic s1 sc = Inr tm" using start_typematic_ok [OF m(3)] by blast
    moreover obtain out' where "translate_scan_code (ke_set env) sc (found_break_code s1) (make_tpmatic_code s1) =
        Inr (out', translated_flag (ke_set env) (found_break_code s1) (sc_bytes sc))" "sc_ok out'"
      using translate_scan_code_ok [of sc "make_tpmatic_code s1"] m Some by (auto simp: kbs_wf_def sc_ok_def)
    ultimately show ?thesis
      using m Some assms(1) by (simp add: make_key_def kbs_wf_def modifier_ops)
  qed
qed

lemma break_key_ok:
  assumes "kbs_wf s" "fn_safe env s"
  shows "\<exists>evs s'. break_key env key s = Inr (evs, s') \<and> kbs_wf s'"
proof -
  obtain rc d leds where k: "amdcrb_get_fn_key (ke_board env) (ke_pin env) key False (ke_junk env) = (rc, d, leds)"
    using prod_cases3 by blast
  have "\<exists>osc s1. break_code env key s = Inr (osc, s1) \<and> (\<forall>sc. osc = Some sc \<longrightarrow> sc_ok sc) \<and> kbs_wf s1"
    using get_scan_code_ok [of key False s] fn_key_sc_ok [OF fn_safe_junk [OF assms(2)] k] sc_cleared_ok(1) assms(1)
    by (cases "fn_pressed s") (auto simp: break_code_def k kbs_wf_def)
  then obtain osc s1 where m: "break_code env key s = Inr (osc, s1)" "\<forall>sc. osc = Some sc \<longrightarrow> sc_ok sc" "kbs_wf s1"
    by blast
  show ?thesis
  proof (cases osc)
    case None
    then show ?thesis using m assms(1) by (simp add: break_key_def kbs_wf_def modifier_ops)
  next
    case (Some sc)
    then show ?thesis
      using translate_scan_code_ok [of sc "ke_junk_sc env" "ke_set env" "found_break_code s1"] m assms
      by (auto simp: break_key_def kbs_wf_def modifier_ops fn_safe_def env_shape_def)
  qed
qed

lemma get_keynum_ok:
  assumes "unat col < MAX_MTX_KEY_COLS" "unat row < MAX_MTX_KEY_ROWS"
  shows "amdcrb_get_keynum b col row = Inr (None, amdcrb_keymap b ! unat col ! unat row)"
  using assms keymap_shape [of b]
  by (simp add: amdcrb_get_keynum_def access list_all_length)

lemma kbs_wf_keyseq: "kbs_wf s \<Longrightarrow> kbs_wf (snd (fw_hotkeyseq_detection p k s))"
  by (auto simp: fw_hotkeyseq_detection_def kbs_wf_def Let_def split: prod.splits)

lemma kscan_callback_ok:
  assumes "kbs_wf s" "fn_safe env s" "unat col < MAX_MTX_KEY_COLS" "unat row < MAX_MTX_KEY_ROWS"
  shows "\<exists>evs s'. kscan_callback early bad env row col pressed s = Inr (evs, s') \<and> kbs_wf s'"
proof -
  define key where "key = amdcrb_keymap (ke_board env) ! unat col ! unat row"
  obtain evs s1 where "(if pressed then make_key env key s else break_key env key s) = Inr (evs, s1)" "kbs_wf s1"
    using make_key_ok [OF assms(1,2), of key] break_key_ok [OF assms(1,2), of key]
    by (cases pressed) auto
  then show ?thesis
    using get_keynum_ok [OF assms(3,4), of "ke_board env"] kbs_wf_keyseq [of s1 pressed key]
    by (auto simp: kscan_callback_def key_def [symmetric] Let_def split: prod.splits)
qed

interpretation kbsm: safe_machine
  "\<lambda>s (early, bad, env, row, col, pressed). kscan_callback early bad env row col pressed s" kbs_wf
  "\<lambda>(early, bad, env, row, col, pressed). junk_ok env \<and> unat col < MAX_MTX_KEY_COLS \<and> unat row < MAX_MTX_KEY_ROWS"
  by unfold_locales (use kscan_callback_ok junk_fn_safe in auto)

text \<open>With Fn held, a code of the Fn key that is longer than its buffer cannot be read.\<close>

lemma read_sc_ok:
  assumes "translate_scan_code sset sc found out = Inr r" "length (sc_code sc) = MAX_SCAN_CODE_LEN"
  shows "sc_ok sc"
proof (rule ccontr)
  assume "\<not> sc_ok sc"
  then have "load_seq (sc_code sc) 0 (unat (sc_len sc)) = Inl Out_of_bounds"
    using assms(2) by (intro load_seq_overrun) (simp_all add: sc_ok_def MAX_SCAN_CODE_LEN_def)
  then show False using assms(1) by (simp add: translate_scan_code_def)
qed

lemma make_key_keeps:
  assumes "kbs_wf s" "env_shape env" "fn_pressed s" "make_key env key s = Inr (evs, s')"
  shows "kbs_wf s'"
proof -
  obtain rc d leds where k: "amdcrb_get_fn_key (ke_board env) (ke_pin env) key True (ke_junk env) = (rc, d, leds)"
    using prod_cases3 by blast
  obtain evs1 osc s1 where m: "make_fn env key s = (evs1, osc, s1)" by (rule prod_cases3)
  have s1: "kbs_wf s1" using m k assms(1) by (auto simp: make_fn_def Let_def kbs_wf_def modifier_ops split: if_splits)
  have c: "make_code env key s = Inr (evs1, osc, s1)" using m assms(3) by (simp add: make_code_def)
  have len: "length (sc_code sc) = MAX_SCAN_CODE_LEN" if "osc = Some sc" for sc
    using that m k fn_key_shape [OF _ k] assms(2)
    by (auto simp: make_fn_def Let_def env_shape_def sc_cleared_def split: if_splits)
  show ?thesis
  proof (cases "key = 255 \<or> osc = None \<or> (\<exists>sc. osc = Some sc \<and> sc_len sc = 0)")
    case True
    have "kbs_wf (set_fn_key True s)" using assms(1) by (simp add: kbs_wf_def modifier_ops)
    then show ?thesis using True assms(4) s1 c by (auto simp: make_key_def split: if_splits)
  next
    case False
    then obtain sc out found where sc: "osc = Some sc"
      and t: "translate_scan_code (ke_set env) sc (found_break_code s1) (make_tpmatic_code s1) = Inr (out, found)"
      and s': "s' = s1\<lparr>make_tpmatic_code := out, found_break_code := found\<rparr>"
      using assms(4) c by (auto simp: make_key_def split: sum.splits)
    have o: "length (sc_code (make_tpmatic_code s1)) = MAX_SCAN_CODE_LEN" using s1 by (simp add: kbs_wf_def sc_ok_def)
    from translate_scan_code_ok [OF read_sc_ok [OF t len [OF sc]] o, of "ke_set env" "found_break_code s1"]
    have "sc_ok out" by (simp add: t)
    then show ?thesis using s1 by (simp add: s' kbs_wf_def)
  qed
qed

lemma break_key_keeps:
  assumes "kbs_wf s" "fn_pressed s" "break_key env key s = Inr (evs, s')"
  shows "kbs_wf s'"
  using assms
  by (auto simp: break_key_def break_code_def kbs_wf_def modifier_ops split: if_splits sum.splits prod.splits)

text \<open>A key event goes through, or Fn is held and the length byte it finds is above the buffer.\<close>

lemma kscan_callback_cases:
  assumes "kbs_wf s" "env_shape env" "unat col < MAX_MTX_KEY_COLS" "unat row < MAX_MTX_KEY_ROWS"
  obtains evs s' where "kscan_callback early bad env row col pressed s = Inr (evs, s')" "kbs_wf s'"
  | e where "kscan_callback early bad env row col pressed s = Inl e" "fn_pressed s"
      "MAX_SCAN_CODE_LEN < unat (sc_len (fd_sc (ke_junk env)))"
proof (cases "fn_safe env s")
  case True
  then show ?thesis using kscan_callback_ok [OF assms(1) _ assms(3,4)] that(1) by blast
next
  case False
  then have f: "fn_pressed s" "MAX_SCAN_CODE_LEN < unat (sc_len (fd_sc (ke_junk env)))" using assms(2) by (auto simp: fn_safe_def)
  define key where "key = amdcrb_keymap (ke_board env) ! unat col ! unat row"
  show ?thesis
  proof (cases "kscan_callback early bad env row col pressed s")
    case (Inl e)
    then show ?thesis using that(2) f by blast
  next
    case (Inr r)
    then obtain evs s1 where "(if pressed then make_key env key s else break_key env key s) = Inr (evs, s1)"
        "snd r = s1 \<or> snd r = snd (fw_hotkeyseq_detection pressed key s1)"
      using get_keynum_ok [OF assms(3,4), of "ke_board env"]
      by (auto simp: kscan_callback_def key_def [symmetric] Let_def split: prod.splits sum.splits if_splits)
    then have "kbs_wf (snd r)"
      using make_key_keeps [OF assms(1,2) f(1)] break_key_keeps [OF assms(1) f(1)] kbs_wf_keyseq by (auto split: if_splits)
    then show ?thesis using that(1) Inr by (cases r) auto
  qed
qed

text \<open>A run goes through, or it faults at a key event that comes while Fn is held and finds a length byte above the buffer.\<close>

lemma run_safe_until:
  assumes "kbs_wf s"
    and "list_all (\<lambda>(early, bad, env, row, col, pressed).
           env_shape env \<and> unat col < MAX_MTX_KEY_COLS \<and> unat row < MAX_MTX_KEY_ROWS) inputs"
  shows "(\<exists>os s'. run_res (\<lambda>s (early, bad, env, row, col, pressed). kscan_callback early bad env row col pressed s)
       s inputs = Inr (os, s') \<and> length os = length inputs \<and> kbs_wf s') \<or>
     (\<exists>n os s'. n < length inputs \<and>
        run_res (\<lambda>s (early, bad, env, row, col, pressed). kscan_callback early bad env row col pressed s)
          s (take n inputs) = Inr (os, s') \<and> fn_pressed s' \<and>
        (case inputs ! n of (early, bad, env, row, col, pressed) \<Rightarrow>
           MAX_SCAN_CODE_LEN < unat (sc_len (fd_sc (ke_junk env))) \<and>
           (\<exists>e. kscan_callback early bad env row col pressed s' = Inl e)))"
  using assms
proof (induction inputs arbitrary: s)
  case (Cons i inputs)
  obtain early bad env row col pressed where i: "i = (early, bad, env, row, col, pressed)" by (cases i)
  have h: "env_shape env" "unat col < MAX_MTX_KEY_COLS" "unat row < MAX_MTX_KEY_ROWS"
    "list_all (\<lambda>(early, bad, env, row, col, pressed).
           env_shape env \<and> unat col < MAX_MTX_KEY_COLS \<and> unat row < MAX_MTX_KEY_ROWS) inputs"
    using Cons.prems(2) i by simp_all
  show ?case
  proof (rule kscan_callback_cases [OF Cons.prems(1) h(1-3), of early bad pressed], goal_cases)
    case (1 evs s1)
    from Cons.IH [OF 1(2) h(4)] show ?case
    proof (elim disjE exE conjE, goal_cases)
      case (2 n os s')
      then show ?case using 1 i by (intro disjI2 exI [of _ "Suc n"] exI [of _ "evs # os"] exI [of _ s']) simp
    qed (use 1 i in auto)
  next
    case (2 e)
    then show ?case using i by (intro disjI2 exI [of _ 0] exI [of _ "[]"] exI [of _ s]) auto
  qed
qed simp

section \<open>Properties\<close>

definition kbs_initial :: kbs where
  "kbs_initial = \<lparr>kscan_flags = 0, make_tpmatic_code = sc_cleared, fn_lock = False, typematic_period_idx = 0,
     typematic_delay_idx = 0, hotkey_detected = False, found_break_code = False,
     keyseq_det = replicate 4 \<lparr>ks_trigger_key = 0, ks_modifiers = 0, ks_handler = False, ks_detected = False\<rparr>,
     trigger_key = 0\<rparr>"

definition kbs_demo :: kbs_env where
  "kbs_demo = \<lparr>ke_board = BRD_MDS_DORNE, ke_set = 2, ke_pin = (\<lambda>_. False),
     ke_junk = \<lparr>fd_type = FN_SCAN_CODE, fd_sc = sc_cleared\<rparr>, ke_junk_sc = sc_cleared\<rparr>"

lemma kbs_demo_ok: "junk_ok kbs_demo" "kbs_wf kbs_initial"
  by (simp_all add: kbs_demo_def junk_ok_def env_shape_def sc_cleared_def kbs_initial_def kbs_wf_def sc_ok_def
      typematic_delay_def typematic_period_def)

text \<open>
  C13. The keyboard scanner overruns a buffer or a table only through uninitialised Fn data: over
  any sequence of key events at positions of the key matrix (16 columns, 8 rows), on every board and
  with every scan code set, either every event is processed without a fault, or the first event that
  faults comes while Fn is held and finds in the uninitialised Fn data of its call a length byte
  above the eight bytes of a scan code.
\<close>

theorem kbs_never_faults:
  assumes "kbs_wf s"
    and "list_all (\<lambda>(early, bad, env, row, col, pressed).
           env_shape env \<and> unat col < MAX_MTX_KEY_COLS \<and> unat row < MAX_MTX_KEY_ROWS) inputs"
  shows "(\<exists>os s'. run_res (\<lambda>s (early, bad, env, row, col, pressed). kscan_callback early bad env row col pressed s)
       s inputs = Inr (os, s') \<and> length os = length inputs \<and> kbs_wf s') \<or>
     (\<exists>n os s'. n < length inputs \<and>
        run_res (\<lambda>s (early, bad, env, row, col, pressed). kscan_callback early bad env row col pressed s)
          s (take n inputs) = Inr (os, s') \<and> fn_pressed s' \<and>
        (case inputs ! n of (early, bad, env, row, col, pressed) \<Rightarrow>
           MAX_SCAN_CODE_LEN < unat (sc_len (fd_sc (ke_junk env))) \<and>
           (\<exists>e. kscan_callback early bad env row col pressed s' = Inl e)))"
  by (rule run_safe_until [OF assms])

theorem kbs_never_faults_witness:
  "\<exists>os s'. run_res (\<lambda>s (early, bad, env, row, col, pressed). kscan_callback early bad env row col pressed s)
     kbs_initial [(True, 234, kbs_demo, 3, 15, True), (True, 234, kbs_demo, 7, 14, True)] = Inr (os, s') \<and>
     length os = length [(True, 234 :: u8, kbs_demo, 3 :: u8, 15 :: u8, True), (True, 234, kbs_demo, 7, 14, True)] \<and>
     kbs_wf s'"
proof -
  have len: "sc_len (fd_sc (ke_junk kbs_demo)) = 0" by (simp add: kbs_demo_def sc_cleared_def)
  have shape: "env_shape kbs_demo" using kbs_demo_ok(1) by (simp add: junk_ok_def)
  show ?thesis
    using kbs_never_faults [of kbs_initial "[(True, 234, kbs_demo, 3, 15, True), (True, 234, kbs_demo, 7, 14, True)]"]
    by (simp add: kbs_demo_ok shape MAX_MTX_KEY_COLS_def MAX_MTX_KEY_ROWS_def)
       (auto simp: len less_Suc_eq)
qed

text \<open>
  Reading the Fn data of an unmapped key is not safe: on every board there is a key for
  which \<open>amdcrb_get_fn_key\<close> reports an error that its caller ignores, so that the length byte
  of the scan code is whatever the stack holds, and with a stack byte above eight the key press
  reads outside the scan code.
\<close>

theorem kbs_fn_unmapped_reads_out_of_bounds:
  "\<exists>env s. kbs_wf s \<and> env_shape env \<and> ke_board env = b \<and>
     fst (amdcrb_get_fn_key b (ke_pin env) 2 True (ke_junk env)) = Some EINVAL \<and>
     make_key env 2 s = Inl Out_of_bounds"
proof -
  let ?sc = "\<lparr>sc_code = replicate 8 1, sc_len = 9, sc_typematic = False\<rparr>"
  let ?env = "\<lparr>ke_board = b, ke_set = 2, ke_pin = (\<lambda>_. False),
     ke_junk = \<lparr>fd_type = FN_SCAN_CODE, fd_sc = ?sc\<rparr>, ke_junk_sc = sc_cleared\<rparr>"
  let ?s = "set_fn_key True kbs_initial"
  have "fn_branch b 2 p = None" for p
    by (cases b) (simp_all add: dorne_f_keys_def dorne_other_keys_def aeris_f_keys_def aeris_other_keys_def
        other_f_keys_def other_other_keys_def)
  then have k: "amdcrb_get_fn_key b pin 2 True d = (Some EINVAL, d, [])" for pin d
    by (simp add: amdcrb_get_fn_key_def)
  have fn: "fn_pressed ?s"
    by (simp add: fn_pressed_def set_fn_key_def flag_set_set_flag [OF is_flags(3)])
  have "load_seq (sc_code ?sc) 0 (unat (sc_len ?sc)) = Inl Out_of_bounds"
    by (rule load_seq_overrun) simp_all
  then have "make_key ?env 2 ?s = Inl Out_of_bounds"
    using fn k by (simp add: make_key_def make_code_def make_fn_def Let_def toggles_fn_lock_def translate_scan_code_def)
  moreover have "kbs_wf ?s" using kbs_demo_ok(2) by (simp add: kbs_wf_def set_fn_key_def)
  ultimately show ?thesis
    using k by (intro exI [of _ ?env] exI [of _ ?s]) (simp add: env_shape_def MAX_SCAN_CODE_LEN_def sc_cleared_def)
qed

lemma flag_set_frame [simp]:
  "flag_set m (s\<lparr>hotkey_detected := h\<rparr>) = flag_set m s"
  "flag_set m (s\<lparr>found_break_code := f\<rparr>) = flag_set m s"
  "flag_set m (s\<lparr>make_tpmatic_code := c\<rparr>) = flag_set m s"
  by (simp_all add: flag_set_def)

text \<open>A key of the scan code table, with Num Lock and Fn off.\<close>

definition table_key :: "kbs \<Rightarrow> kbs_env \<Rightarrow> u8 \<Rightarrow> bool" where
  "table_key s env key \<longleftrightarrow> kbs_wf s \<and> junk_ok env \<and> ke_set env = 2 \<and> \<not> fn_pressed s \<and> \<not> numlock_on s \<and>
     \<not> found_break_code s \<and> unat key < MAX_SC2_TABLE_SIZE \<and> key \<notin> {90, 124, 126} \<and> scan_code2 ! unat key \<noteq> []"

lemma table_key_numlock:
  "table_key s env key \<Longrightarrow> \<not> numlock_on (update_modifier_keys key p (s\<lparr>hotkey_detected := h\<rparr>))"
  "table_key s env key \<Longrightarrow> \<not> numlock_on (update_modifier_keys key p s)"
  by (simp_all add: table_key_def numlock_on_def flag_set_update_modifier)

lemma table_key_codes:
  assumes "table_key s env key"
  shows "\<exists>m. get_table_scode key sc_cleared True = Inr m \<and> sc_ok m \<and> sc_bytes m = scan_code2 ! unat key"
    "\<exists>b. get_table_scode key sc_cleared False = Inr b \<and> sc_ok b \<and> sc_bytes b = break_codes (scan_code2 ! unat key)"
proof -
  let ?cs = "scan_code2 ! unat key"
  have k: "unat key < MAX_SC2_TABLE_SIZE" "?cs \<noteq> []" using assms by (simp_all add: table_key_def)
  have "length ?cs \<le> 8" "length (break_codes ?cs) \<le> 8"
    using break_codes_length [of ?cs] scan_code2_entry(1) [OF k(1)] by simp_all
  then show "\<exists>m. get_table_scode key sc_cleared True = Inr m \<and> sc_ok m \<and> sc_bytes m = ?cs"
    "\<exists>b. get_table_scode key sc_cleared False = Inr b \<and> sc_ok b \<and> sc_bytes b = break_codes ?cs"
    using sc_set_ok [of ?cs sc_cleared True] sc_set_ok [of "break_codes ?cs" sc_cleared False] sc_cleared_ok k
      scan_code2_entries(1)
    by (auto simp: get_table_scode_def access sc_ok_def)
qed

lemma sc_len_bytes: "sc_ok sc \<Longrightarrow> unat (sc_len sc) = length (sc_bytes sc)"
  by (simp add: sc_ok_def sc_bytes_def)

lemma sc_len_nonzero: "sc_ok sc \<Longrightarrow> sc_bytes sc \<noteq> [] \<Longrightarrow> sc_len sc \<noteq> 0"
  by (auto simp: sc_bytes_def)

lemma take_short:
  "unat key < MAX_SC2_TABLE_SIZE \<Longrightarrow> take MAX_SCAN_CODE_LEN (map f (scan_code2 ! unat key)) = map f (scan_code2 ! unat key)"
  using scan_code2_entry(1) [of key] by (simp add: MAX_SCAN_CODE_LEN_def)

lemma make_table_key:
  assumes "table_key s env key"
  shows "\<exists>out tm. make_key env key s = Inr ([Timer_stop, Kbs_callback (sc_code out) (sc_len out)] @ tm,
       (update_modifier_keys key True (s\<lparr>hotkey_detected := False\<rparr>))\<lparr>make_tpmatic_code := out, found_break_code := False\<rparr>) \<and>
     sc_ok out \<and> sc_bytes out = map T (scan_code2 ! unat key)"
proof -
  let ?u = "update_modifier_keys key True (s\<lparr>hotkey_detected := False\<rparr>)" and ?cs = "scan_code2 ! unat key"
  have t: "kbs_wf s" "ke_set env = 2" "\<not> fn_pressed s" "\<not> found_break_code s" "unat key < MAX_SC2_TABLE_SIZE"
    "key \<notin> {90, 124, 126}" "?cs \<noteq> []" using assms by (simp_all add: table_key_def)
  note E = scan_code2_entry [OF t(5)]
  obtain m where m: "get_table_scode key sc_cleared True = Inr m" "sc_ok m" "sc_bytes m = ?cs"
    using table_key_codes(1) [OF assms] by blast
  have "make_code env key s = Inr ([], Some m, ?u)"
    using t(3,6) table_key_numlock(1) [OF assms] m(1)
    by (simp add: make_code_def get_scan_code_def get_plain_scode_def Let_def)
  moreover obtain out where "translate_scan_code 2 m False (make_tpmatic_code s) = Inr (out, False)" "sc_ok out"
    "sc_bytes out = map T ?cs"
    using translate_scan_code_ok [of m "make_tpmatic_code s" 2 False] m(2,3) t(1) translated_make [OF E(2)]
      take_short [OF t(5)]
    by (auto simp: kbs_wf_def sc_ok_def)
  moreover obtain tm where "start_typematic ?u m = Inr tm"
    using start_typematic_ok [of ?u m] t(1) by (auto simp: kbs_wf_def)
  moreover have "key \<noteq> 255" using t(5) by (auto simp: MAX_SC2_TABLE_SIZE_def)
  ultimately show ?thesis
    using sc_len_nonzero [OF m(2)] m(3) t(2,4,7) by (auto simp: make_key_def)
qed

lemma break_table_key:
  assumes "table_key s env key"
  shows "\<exists>out s'. break_key env key s = Inr ([Timer_stop, Kbs_callback (sc_code out) (sc_len out)], s') \<and>
     sc_ok out \<and> sc_bytes out = map (\<lambda>c. if c = 0xE0 then 0xE0 else T c OR 0x80) (scan_code2 ! unat key) \<and>
     hotkey_detected s' = hotkey_detected s"
proof -
  let ?cs = "scan_code2 ! unat key"
  have t: "junk_ok env" "ke_set env = 2" "\<not> fn_pressed s" "\<not> found_break_code s" "unat key < MAX_SC2_TABLE_SIZE"
    "key \<notin> {90, 124, 126}" "?cs \<noteq> []" using assms by (simp_all add: table_key_def)
  note E = scan_code2_entry [OF t(5)]
  obtain b where b: "get_table_scode key sc_cleared False = Inr b" "sc_ok b" "sc_bytes b = break_codes ?cs"
    using table_key_codes(2) [OF assms] by blast
  have "break_code env key s = Inr (Some b, update_modifier_keys key False s)"
    using t(3,6) table_key_numlock(2) [OF assms] b(1)
    by (simp add: break_code_def get_scan_code_def get_plain_scode_def Let_def)
  moreover obtain out f where "translate_scan_code 2 b False (ke_junk_sc env) = Inr (out, f)" "sc_ok out"
    "sc_bytes out = map (\<lambda>c. if c = 0xE0 then 0xE0 else T c OR 0x80) ?cs"
    using translate_scan_code_ok [of b "ke_junk_sc env" 2 False] b(2,3) t(1) translated_break [OF E(2)]
      take_short [OF t(5)]
    by (auto simp: junk_ok_def env_shape_def)
  moreover have "key \<noteq> 255" using t(5) by (auto simp: MAX_SC2_TABLE_SIZE_def)
  moreover have "break_codes ?cs \<noteq> []" using t(7) by (cases ?cs) auto
  ultimately show ?thesis
    using sc_len_nonzero [OF b(2)] b(3) t(2,4) by (auto simp: break_key_def)
qed

lemma table_key_after_make:
  assumes "table_key s env key" "sc_ok out"
  shows "table_key ((update_modifier_keys key True (s\<lparr>hotkey_detected := False\<rparr>))
     \<lparr>make_tpmatic_code := out, found_break_code := False\<rparr>) env key"
  using assms table_key_numlock(1) [OF assms(1)]
  by (simp add: table_key_def kbs_wf_def fn_pressed_def numlock_on_def flag_set_update_modifier)

text \<open>
  Make and break codes agree: on an ordinary key (one of the scan code table, with Num Lock
  off and no Fn key), with scan code set 2, a press followed by a release sends the host the
  translated make code, and then the same bytes with the release bit set on every byte but the
  prefix \<open>E0\<close>.
\<close>

theorem kbs_make_break_codes:
  assumes "kbs_wf s" "junk_ok env" "ke_set env = 2" "\<not> fn_pressed s" "\<not> numlock_on s" "\<not> found_break_code s"
    and "unat key < MAX_SC2_TABLE_SIZE" "key \<notin> {90, 124, 126}" "scan_code2 ! unat key \<noteq> []"
  shows "\<exists>p n tm s1 p' s2.
     make_key env key s = Inr ([Timer_stop, Kbs_callback p n] @ tm, s1) \<and>
     take (unat n) p = map (\<lambda>c. kb_translation_table ! unat c) (scan_code2 ! unat key) \<and>
     break_key env key s1 = Inr ([Timer_stop, Kbs_callback p' n], s2) \<and>
     take (unat n) p' = map (\<lambda>c. if c = 0xE0 then 0xE0 else kb_translation_table ! unat c OR 0x80) (scan_code2 ! unat key)"
proof -
  have t: "table_key s env key" using assms by (simp add: table_key_def)
  obtain o1 tm where m: "make_key env key s = Inr ([Timer_stop, Kbs_callback (sc_code o1) (sc_len o1)] @ tm,
       (update_modifier_keys key True (s\<lparr>hotkey_detected := False\<rparr>))\<lparr>make_tpmatic_code := o1, found_break_code := False\<rparr>)"
    "sc_ok o1" "sc_bytes o1 = map T (scan_code2 ! unat key)"
    using make_table_key [OF t] by blast
  obtain o2 s2 where b: "break_key env key ((update_modifier_keys key True (s\<lparr>hotkey_detected := False\<rparr>))
       \<lparr>make_tpmatic_code := o1, found_break_code := False\<rparr>) = Inr ([Timer_stop, Kbs_callback (sc_code o2) (sc_len o2)], s2)"
    "sc_ok o2" "sc_bytes o2 = map (\<lambda>c. if c = 0xE0 then 0xE0 else T c OR 0x80) (scan_code2 ! unat key)"
    using break_table_key [OF table_key_after_make [OF t m(2)]] by blast
  have "sc_len o2 = sc_len o1"
    using sc_len_bytes [OF m(2)] sc_len_bytes [OF b(2)] m(3) b(3) by (simp add: word_unat_eq_iff)
  then show ?thesis
    using m(1,3) b(1,3)
    by (intro exI [of _ "sc_code o1"] exI [of _ "sc_len o1"] exI [of _ tm]
         exI [of _ "(update_modifier_keys key True (s\<lparr>hotkey_detected := False\<rparr>))\<lparr>make_tpmatic_code := o1, found_break_code := False\<rparr>"]
         exI [of _ "sc_code o2"] exI [of _ s2])
       (simp add: sc_bytes_def)
qed

text \<open>
  Modifier tracking: after a key event the Ctrl, Alt and Shift flags say whether the last
  event on one of their keys was a press, Num Lock and Scroll Lock flip on a press of their
  key only, and no other key changes any flag.
\<close>

theorem kbs_modifiers_tracked:
  "(ctrl_pressed (update_modifier_keys k p s) \<longleftrightarrow> (if k = 58 \<or> k = 64 then p else ctrl_pressed s)) \<and>
   (alt_pressed (update_modifier_keys k p s) \<longleftrightarrow> (if k = 60 \<or> k = 62 then p else alt_pressed s)) \<and>
   (shift_pressed (update_modifier_keys k p s) \<longleftrightarrow> (if k = 44 \<or> k = 57 then p else shift_pressed s)) \<and>
   (numlock_on (update_modifier_keys k p s) \<longleftrightarrow> (numlock_on s \<noteq> (k = 90 \<and> p))) \<and>
   (sclock_on (update_modifier_keys k p s) \<longleftrightarrow> (sclock_on s \<noteq> (k = 125 \<and> p))) \<and>
   (fn_pressed (update_modifier_keys k p s) \<longleftrightarrow> fn_pressed s)"
  by (auto simp: flag_defs flag_set_update_modifier)

text \<open>
  The typematic delay cannot be set: \<open>kbs_write_typematic\<close> shifts the delay bits down before
  it masks them in place, so for every setting byte the delay index is zero, and every
  repeating key starts to repeat after 250 milliseconds, with the period that the five low bits
  select.
\<close>

theorem kbs_typematic_delay_stuck:
  "\<exists>s'. kbs_write_typematic data s = ([Timer_stop], s') \<and> typematic_delay_idx s' = 0 \<and>
     typematic_period_idx s' = data AND 0x1F \<and>
     start_typematic s' \<lparr>sc_code = codes, sc_len = n, sc_typematic = True\<rparr> =
       Inr [Timer_start 250 (typematic_period ! unat (data AND 0x1F))]"
proof -
  have z: "drop_bit 5 data AND 0x60 = 0"
  proof (rule bit_word_eqI)
    fix k
    have "\<not> bit (0x60 :: u8) k" if "k < 3"
      using that by (auto simp: numeral_3_eq_3 less_Suc_eq)
    moreover have "k < 3" if "bit data (5 + k)" using bit_imp_le_length [OF that] by simp
    ultimately show "bit (drop_bit 5 data AND 0x60) k \<longleftrightarrow> bit (0 :: u8) k"
      by (auto simp only: bit_and_iff bit_drop_bit_eq comp_apply bit_0_eq bot_apply bot_bool_def)
  qed
  have "(0x1F :: u8) = mask 5" by (simp add: mask_eq_exp_minus_1)
  then have "unat (data AND 0x1F) = take_bit 5 (unat data)"
    by (simp only: take_bit_eq_mask [symmetric] unsigned_take_bit_eq)
  then have "unat (data AND 0x1F) < 32" using take_bit_nat_less_exp [of 5 "unat data"] by simp
  then show ?thesis using z
    by (simp add: kbs_write_typematic_def start_typematic_def typematic_delay_def typematic_period_def ld_def)
qed

text \<open>
  The range check of the keyboard layout lets bad positions through: \<open>amdcrb_get_keynum\<close>
  returns the table entry for every position of the matrix, but it rejects a position only when
  the column exceeds 16 and the row exceeds 8, so every position with just one of the two out of
  range, and the position one past the end, read outside the table.
\<close>

theorem amdcrb_keynum_guard:
  "amdcrb_get_keynum b col row =
     (if unat col < 16 \<and> unat row < 8 then Inr (None, amdcrb_keymap b ! unat col ! unat row)
      else if 16 < unat col \<and> 8 < unat row then Inr (Some EINVAL, 0)
      else Inl Out_of_bounds)"
  using keymap_shape [of b] get_keynum_ok [of col row b]
  by (auto simp: amdcrb_get_keynum_def MAX_MTX_KEY_COLS_def MAX_MTX_KEY_ROWS_def ld_def list_all_length)

end
