(* ===== verification/Keyboard_Path.thy ===== *)
theory Keyboard_Path
  imports Kbc_Props Kbs_Props
begin

text \<open>
  The keyboard path across components: the scanner's callback is the controller's
  \<open>mtx_keyboard_callback\<close>, which queues the bytes for the host as far as there is room.
\<close>

text \<open>Outside standby, the bytes passed to the controller that find room are queued in order.\<close>

lemma kb_queued_enumerate:
  "kb_queued (concat (map (\<lambda>(i, b). send_kb_to_host False (used i) b) (enumerate n bs))) = kept used n bs"
  by (induction bs arbitrary: n) (simp_all add: send_kb_to_host_def)

lemma mtx_callback_queues:
  assumes "cmdbyte_kbd_enabled k" "unat n \<le> length p"
  shows "\<exists>evs. mtx_keyboard_callback (\<lambda>_. False) used False p n k = Inr evs \<and> kb_queued evs = kept used 0 (take (unat n) p)"
  using assms kb_queued_enumerate by (simp add: mtx_keyboard_callback_def access)

text \<open>
  C9. A key press is queued for the host, whatever hot key was pressed before: with scan code set
  2, Fn released, Num Lock off, no break prefix pending and the uninitialised objects in range
  (\<open>junk_ok\<close>), with the keyboard interface enabled and outside modern standby, the press of any key
  of the scan code table but Num Lock, Print Screen and Pause leads to its translated make code, of which exactly the bytes that find fewer than
  16 bytes in the queue are queued, in order; so the whole make code when there is room for it.
\<close>

theorem key_press_queued:
  assumes "kbs_wf s" "junk_ok env" "ke_set env = 2" "\<not> fn_pressed s" "\<not> numlock_on s" "\<not> found_break_code s"
    and "unat key < MAX_SC2_TABLE_SIZE" "key \<notin> {90, 124, 126}" "scan_code2 ! unat key \<noteq> []"
    and "cmdbyte_kbd_enabled k"
  shows "\<exists>p n tm s1 evs code. make_key env key s = Inr ([Timer_stop, Kbs_callback p n] @ tm, s1) \<and>
     mtx_keyboard_callback (\<lambda>_. False) used (kbs_is_hotkey_detected s1) p n k = Inr evs \<and>
     code = map (\<lambda>c. kb_translation_table ! unat c) (scan_code2 ! unat key) \<and>
     kb_queued evs = map snd (filter (\<lambda>(i, b). used i < TO_HOST_LEN) (enumerate 0 code)) \<and>
     ((\<forall>i < length code. used i < TO_HOST_LEN) \<longrightarrow> kb_queued evs = code)"
proof -
  have key: "table_key s env key" using assms by (simp add: table_key_def)
  obtain out tm where m: "make_key env key s = Inr ([Timer_stop, Kbs_callback (sc_code out) (sc_len out)] @ tm,
       (update_modifier_keys key True (s\<lparr>hotkey_detected := False\<rparr>))\<lparr>make_tpmatic_code := out, found_break_code := False\<rparr>)"
    "sc_ok out" "sc_bytes out = map (\<lambda>c. kb_translation_table ! unat c) (scan_code2 ! unat key)"
    using make_table_key [OF key] by blast
  obtain evs where e: "mtx_keyboard_callback (\<lambda>_. False) used False (sc_code out) (sc_len out) k = Inr evs"
    "kb_queued evs = kept used 0 (sc_bytes out)"
    using mtx_callback_queues [OF assms(10), of "sc_len out" "sc_code out"] m(2)
    by (auto simp: sc_ok_def sc_bytes_def)
  have all: "kept used 0 bs = bs" if "\<forall>i < length bs. used i < TO_HOST_LEN" for bs
    using that by (intro kept_all) simp
  show ?thesis
    by (intro exI conjI, rule m(1)) (use e m(3) all in \<open>auto simp: kbs_is_hotkey_detected_def kept_def [symmetric]\<close>)
qed

theorem key_press_queued_witness:
  "\<exists>p n tm s1 evs. make_key kbs_demo 2 kbs_initial = Inr ([Timer_stop, Kbs_callback p n] @ tm, s1) \<and>
     mtx_keyboard_callback (\<lambda>_. False) (\<lambda>i. i) (kbs_is_hotkey_detected s1) p n (cmdbyte_enable_kbd kbc_initial) = Inr evs \<and>
     kb_queued evs = map (\<lambda>c. kb_translation_table ! unat c) (scan_code2 ! unat (2 :: u8))"
proof -
  have "cmdbyte_kbd_enabled (cmdbyte_enable_kbd kbc_initial)"
    by (simp add: cmdbyte_kbd_enabled_def cmdbyte_ops dis_flags bit_and_iff bit_not_iff)
  moreover have "ke_set kbs_demo = 2" "\<not> fn_pressed kbs_initial" "\<not> numlock_on kbs_initial" "\<not> found_break_code kbs_initial"
    by (simp_all add: kbs_demo_def kbs_initial_def fn_pressed_def numlock_on_def flag_set_def)
  moreover have "unat (2 :: u8) < MAX_SC2_TABLE_SIZE" "(2 :: u8) \<notin> {90, 124, 126}" "length (scan_code2 ! unat (2 :: u8)) = 1"
    "scan_code2 ! unat (2 :: u8) \<noteq> []"
    by (simp_all add: MAX_SC2_TABLE_SIZE_def scan_code2_def)
  ultimately show ?thesis
    using key_press_queued [of kbs_initial kbs_demo 2 "cmdbyte_enable_kbd kbc_initial" "\<lambda>i. i"] kbs_demo_ok
    by (simp add: TO_HOST_LEN_def) blast
qed

text \<open>
  A release can be lost: once a hot key has set \<open>hotkey_detected\<close>, releasing an ordinary key
  that is still held produces its break code, but the controller's callback drops it and the flag
  stays set, so the host never sees the release.
\<close>

theorem key_release_lost_after_hotkey:
  assumes "table_key s env key" "hotkey_detected s"
  shows "\<exists>p n s1. break_key env key s = Inr ([Timer_stop, Kbs_callback p n], s1) \<and>
     take (unat n) p \<noteq> [] \<and>
     mtx_keyboard_callback standby used (kbs_is_hotkey_detected s1) p n k = Inr [] \<and> hotkey_detected s1"
proof -
  obtain out s1 where b: "break_key env key s = Inr ([Timer_stop, Kbs_callback (sc_code out) (sc_len out)], s1)"
    "sc_ok out" "sc_bytes out = map (\<lambda>c. if c = 0xE0 then 0xE0 else kb_translation_table ! unat c OR 0x80) (scan_code2 ! unat key)"
    "hotkey_detected s1 = hotkey_detected s"
    using break_table_key [OF assms(1)] by blast
  then have "take (unat (sc_len out)) (sc_code out) \<noteq> []"
    using assms(1) by (simp add: table_key_def sc_bytes_def)
  then show ?thesis
    using b assms(2) by (auto simp: mtx_keyboard_callback_def kbs_is_hotkey_detected_def)
qed

end
