(* ===== verification/Udc.thy ===== *)
theory Udc
  imports Rrq_Props
begin

text \<open>
  The serial protocol of the universal debug card, in \<open>src/app/udc/app_udc.c\<close>: the package
  crawler for the ring queue, the command handlers and the transmit and receive paths. Display,
  board identification memory, UART and timer calls are events; what they return is an
  argument. The package buffer \<open>pkgBuf\<close> of the thread is passed explicitly, since it keeps the
  bytes of earlier packages.
\<close>

section \<open>State and events\<close>

record udc_crawler =
  pkgLen :: u8
  checksum :: u8

record udc =
  s_isUdcBiosLogEnabled :: bool
  s_statusChanged :: bool
  s_biosDebugLogEnable :: bool
  g_isUdcPresent :: bool
  g_isUartDonglePresent :: bool
  s_txQid :: u8
  s_rxQid :: u8
  s_postcodeShown :: bool \<comment> \<open>\<open>_s_udcDisplayType == _UDC_DISPLAY_POSTCODE\<close>\<close>

datatype udc_ev =
    Display u32 nat nat | BrdId_read u8 u8 | BrdId_write u8 "u8 list" | Sender_timer_start
  | Uart_poll_out u8 | Data_arrive

section \<open>The package crawler\<close>

definition udcPackage :: "udc_crawler rrq_crawler" where
  "udcPackage s c pos =
     (if pos = 0 \<and> c = 0xAA then (U_RRQ_POS_MOVE_RIGHT, s)
      else if pos = 1 \<and> c = 0x55 then (U_RRQ_POS_MOVE_RIGHT, s\<lparr>checksum := 0\<rparr>)
      else
        let s1 = (if pos = 2 then s\<lparr>pkgLen := c\<rparr> else s) in
        if 2 \<le> pos \<and> pos < ucast (pkgLen s1) + 2
        then (U_RRQ_POS_MOVE_RIGHT, s1\<lparr>checksum := checksum s1 + c\<rparr>)
        else if 2 \<le> pos \<and> pos = ucast (pkgLen s1) + 2 \<and> c = checksum s1 then (U_RRQ_MATCH, s1)
        else (U_RRQ_FRAME_MOVE_RIGHT, s1\<lparr>pkgLen := 0, checksum := 0\<rparr>))"

section \<open>Transmit and receive\<close>

definition udc_uart_fifo_write :: "udc \<Rightarrow> u8 list \<Rightarrow> u32 \<Rightarrow> rrq_module \<Rightarrow> (u32 \<times> udc_ev list \<times> rrq_module) res" where
  "udc_uart_fifo_write u pBuf len m =
     (if s_txQid u = U_RRQ_INVALID_RRQ_ID then Inr (0, [], m)
      else
        (case u_rrq_put m (s_txQid u) False (Some pBuf) len of
           Inl e \<Rightarrow> Inl e
         | Inr ((bytes, locks), m') \<Rightarrow> Inr (bytes, [Sender_timer_start], m')))"

text \<open>
  The transmit loop of the timer callback, which runs in interrupt context; \<open>sent\<close> is the
  counter \<open>bytesSend\<close>.
\<close>

function tx_loop :: "udc \<Rightarrow> u8 \<Rightarrow> rrq_module \<Rightarrow> (udc_ev list \<times> rrq_module) res" where
  "tx_loop u sent m =
     (if s_txQid u = U_RRQ_INVALID_RRQ_ID then Inr ([], m)
      else
        (case u_rrq_get m (s_txQid u) True (Some [0]) 1 of
           Inl e \<Rightarrow> Inl e
         | Inr ((n, buf, locks), m') \<Rightarrow>
             if n \<noteq> 0 then
               (if unat (sent + 1) > 100 then Inr ([Uart_poll_out (buf ! 0)], m')
                else
                  (case tx_loop u (sent + 1) m' of
                     Inl e \<Rightarrow> Inl e
                   | Inr (evs, m'') \<Rightarrow> Inr (Uart_poll_out (buf ! 0) # evs, m'')))
             else Inr ([], m')))"
  by pat_completeness auto
termination
proof (relation "measure (\<lambda>(u, sent, m). if unat sent \<le> 100 then 100 - unat sent else 101)", goal_cases)
  case (2 u sent m)
  then have le: "unat (sent + 1) \<le> 100" by simp
  have "unat (sent + 1) = unat sent + 1 \<or> sent + 1 = 0 \<and> unat sent = 255"
    using unsigned_less [of sent, where ?'a = nat] by (auto simp: unat_word_ariths word_unat_eq_iff mod_Suc)
  with le show ?case by auto
qed simp

declare tx_loop.simps [simp del]

definition udc_uart_tx_callback :: "udc \<Rightarrow> rrq_module \<Rightarrow> (udc_ev list \<times> rrq_module) res" where
  "udc_uart_tx_callback u m =
     (case tx_loop u 0 m of
        Inl e \<Rightarrow> Inl e
      | Inr (evs, m') \<Rightarrow>
          (case u_rrq_isEmpty m' (s_txQid u) of
             Inl e \<Rightarrow> Inl e
           | Inr isEmpty \<Rightarrow> Inr (evs @ (if isEmpty then [] else [Sender_timer_start]), m')))"

text \<open>
  The receive interrupt; \<open>update\<close> is the result of \<open>uart_irq_update\<close> and \<open>bytes\<close> are the bytes
  the UART hands out until it is no longer ready.
\<close>

fun rx_loop :: "udc \<Rightarrow> u8 list \<Rightarrow> rrq_module \<Rightarrow> rrq_module res" where
  "rx_loop u [] m = Inr m"
| "rx_loop u (b # bs) m =
     (case u_rrq_put m (s_rxQid u) True (Some [b]) 1 of
        Inl e \<Rightarrow> Inl e
      | Inr (r, m') \<Rightarrow> rx_loop u bs m')"

definition udc_uart_rx_callback :: "udc \<Rightarrow> bool \<Rightarrow> u8 list \<Rightarrow> rrq_module \<Rightarrow> (udc_ev list \<times> rrq_module) res" where
  "udc_uart_rx_callback u update bytes m =
     (if \<not> update then Inr ([], m)
      else
        (case rx_loop u bytes m of
           Inl e \<Rightarrow> Inl e
         | Inr m' \<Rightarrow> Inr (if bytes \<noteq> [] then [Data_arrive] else [], m')))"

section \<open>Commands\<close>

text \<open>\<open>_postcodeDisplay\<close> works on the package from its length byte on and changes that byte.\<close>

definition postcodeDisplay :: "u8 list \<Rightarrow> (udc_ev list \<times> u8 list) res" where
  "postcodeDisplay buf =
     (case load_seq buf 2 6 of
        Inl e \<Rightarrow> Inl e
      | Inr p \<Rightarrow>
          let len = p ! 0 - 2;
              u32pc = ucast (p ! 2) OR push_bit 8 (ucast (p ! 3)) OR push_bit 16 (ucast (p ! 4)) OR
                      push_bit 24 (ucast (p ! 5)) :: u32;
              u16pc = ucast (p ! 2) OR push_bit 8 (ucast (p ! 3)) :: u32
          in Inr (if len = 4 then [Display u32pc 8 0]
                  else if len = 2 then [Display u16pc 4 0]
                  else if len = 1 then [Display (ucast (p ! 2)) 2 0]
                  else [],
                  buf[2 := len]))"

text \<open>
  A reply package: the magic \<open>0x55AA\<close> in memory order, the length, the command, the sequence
  number, the data and the checksum over all bytes from the length on.
\<close>

definition udc_reply :: "u8 \<Rightarrow> u8 \<Rightarrow> u8 list \<Rightarrow> u8 list" where
  "udc_reply cmd seqNo data =
     (let len = of_nat (3 + length data) in
      [0xAA, 0x55, len, cmd, seqNo] @ data @ [fold (\<lambda>b s. s + b) data (len + cmd + seqNo)])"

text \<open>
  \<open>_boardIdProcess\<close>: \<open>read start\<close> gives the 128 bytes \<open>brdId_readBuf\<close> delivers. The result
  holds the events and the package to transmit, if any.
\<close>

definition boardIdProcess :: "(u8 \<Rightarrow> u8 list) \<Rightarrow> u8 list \<Rightarrow> (udc_ev list \<times> u8 list option) res" where
  "boardIdProcess read buf =
     (case load_seq buf 2 3 of
        Inl e \<Rightarrow> Inl e
      | Inr p \<Rightarrow>
          let len = p ! 0; cmd = p ! 1; seqNo = p ! 2 in
          if len = 3 then
            (let start = (if cmd = 0x30 then 0 else if cmd = 0x32 then 128 else 0xFF) in
             if start \<noteq> 0xFF then Inr ([BrdId_read start 128], Some (udc_reply cmd seqNo (read start)))
             else Inr ([], None))
          else if len = 3 + 128 then
            (let start = (if cmd = 0x31 then 0 else if cmd = 0x33 then 128 else 0xFF) in
             if start \<noteq> 0xFF then
               (case load_seq buf 5 128 of
                  Inl e \<Rightarrow> Inl e
                | Inr data \<Rightarrow> Inr ([BrdId_write start data], Some (udc_reply cmd seqNo [])))
             else Inr ([], None))
          else Inr ([], None))"

text \<open>\<open>_biosLogSwitchProcess\<close>: the package is changed in place and sent back.\<close>

definition biosLogSwitchProcess :: "u8 list \<Rightarrow> udc \<Rightarrow> (u8 list option \<times> u8 list \<times> udc) res" where
  "biosLogSwitchProcess buf u =
     (case load_seq buf 0 7 of
        Inl e \<Rightarrow> Inl e
      | Inr p \<Rightarrow>
          let operator = p ! 5 in
          if operator = 0 \<or> operator = 1 then
            (let u' = (if s_isUdcBiosLogEnabled u \<noteq> (operator = 1)
                       then u\<lparr>s_isUdcBiosLogEnabled := (operator = 1), s_statusChanged := True\<rparr> else u)
             in Inr (Some p, buf, u'))
          else if operator = 0xFF then
            (let op' = (if s_isUdcBiosLogEnabled u then 1 else 0);
                 buf' = buf[5 := op', 6 := p ! 2 + p ! 3 + p ! 4 + op']
             in Inr (Some (take 7 buf'), buf', u))
          else Inr (None, buf, u))"

section \<open>The command loop\<close>

definition transmit :: "udc \<Rightarrow> u8 list option \<Rightarrow> rrq_module \<Rightarrow> (udc_ev list \<times> rrq_module) res" where
  "transmit u pkg m =
     (case pkg of
        None \<Rightarrow> Inr ([], m)
      | Some p \<Rightarrow>
          (case udc_uart_fifo_write u p (of_nat (length p)) m of
             Inl e \<Rightarrow> Inl e
           | Inr (n, evs, m') \<Rightarrow> Inr (evs, m')))"

text \<open>\<open>s0\<close> tells whether the system is in state S0.\<close>

definition udc_command ::
  "bool \<Rightarrow> (u8 \<Rightarrow> u8 list) \<Rightarrow> u8 list \<Rightarrow> udc \<Rightarrow> rrq_module \<Rightarrow> (udc_ev list \<times> u8 list \<times> udc \<times> rrq_module) res" where
  "udc_command s0 read buf u m =
     (case ld buf 3 of
        Inl e \<Rightarrow> Inl e
      | Inr cmd \<Rightarrow>
          if cmd = 0x80 then
            (if s0 \<and> s_postcodeShown u
             then map_sum id (\<lambda>(evs, buf'). (evs, buf', u, m)) (postcodeDisplay buf)
             else Inr ([], buf, u, m))
          else if cmd \<in> {0x30, 0x31, 0x32, 0x33} then
            (case boardIdProcess read buf of
               Inl e \<Rightarrow> Inl e
             | Inr (evs, pkg) \<Rightarrow>
                 map_sum id (\<lambda>(evs', m'). (evs @ evs', buf, u, m')) (transmit u pkg m))
          else if cmd = 0x34 then
            (case biosLogSwitchProcess buf u of
               Inl e \<Rightarrow> Inl e
             | Inr (pkg, buf', u') \<Rightarrow>
                 map_sum id (\<lambda>(evs', m'). (evs', buf', u', m')) (transmit u' pkg m))
          else Inr ([], buf, u, m))"

text \<open>The part of the thread's loop that handles the commands of the debug card.\<close>

definition udc_receive ::
  "bool \<Rightarrow> (u8 \<Rightarrow> u8 list) \<Rightarrow> udc_crawler \<Rightarrow> u8 list \<Rightarrow> udc \<Rightarrow> rrq_module
   \<Rightarrow> (udc_ev list \<times> udc_crawler \<times> u8 list \<times> udc \<times> rrq_module) res" where
  "udc_receive s0 read cr buf u m =
     (case u_rrq_isFull m (s_rxQid u) of
        Inl e \<Rightarrow> Inl e
      | Inr full \<Rightarrow>
          (case u_rrq_package_get m (s_rxQid u) udcPackage cr (Some buf) (of_nat (length buf)) of
             Inl e \<Rightarrow> Inl e
           | Inr ((n, buf', locks, cr'), m') \<Rightarrow>
               if n \<noteq> 0 then
                 map_sum id (\<lambda>(evs, b, u', m''). (evs, cr', b, u', m'')) (udc_command s0 read buf' u m')
               else if full then
                 (case u_rrq_reset m' (s_rxQid u) of
                    Inl e \<Rightarrow> Inl e
                  | Inr (ev, m'') \<Rightarrow> Inr ([], cr', buf', u, m''))
               else Inr ([], cr', buf', u, m')))"

datatype udc_port = ESPI_UDC_NONE | ESPI_UDC_UDCPRESENT | ESPI_UDC_UARTDONGLE_PRESENT

definition app_udc_getUdcStatus :: "udc \<Rightarrow> udc_port" where
  "app_udc_getUdcStatus u =
     (if s_biosDebugLogEnable u then
        (if g_isUdcPresent u \<and> s_isUdcBiosLogEnabled u then ESPI_UDC_UDCPRESENT
         else if g_isUartDonglePresent u then ESPI_UDC_UARTDONGLE_PRESENT else ESPI_UDC_NONE)
      else ESPI_UDC_NONE)"

text \<open>The queues set up by \<open>app_udc_init\<close>.\<close>

definition udc_init_queues :: "rrq_module \<Rightarrow> udc \<Rightarrow> (udc \<times> rrq_module) res" where
  "udc_init_queues m u =
     (case u_rrq_setup m (Some (replicate 256 0)) 256 False of
        Inl e \<Rightarrow> Inl e
      | Inr (tx, m1) \<Rightarrow>
          (case u_rrq_setup m1 (Some (replicate 512 0)) 512 False of
             Inl e \<Rightarrow> Inl e
           | Inr (rx, m2) \<Rightarrow> Inr (u\<lparr>s_txQid := tx, s_rxQid := rx\<rparr>, m2)))"

section \<open>Frames of the protocol\<close>

text \<open>A frame carries a body whose first byte is the length of the body.\<close>

definition udc_frame :: "u8 list \<Rightarrow> u8 list" where
  "udc_frame body = [0xAA, 0x55] @ body @ [sum_list body]"

definition udc_body :: "u8 list \<Rightarrow> bool" where
  "udc_body body \<longleftrightarrow> body \<noteq> [] \<and> length body < 256 \<and> hd body = of_nat (length body)"

text \<open>The crawler with the position as a natural number.\<close>

lemma udcPackage_nat:
  assumes "p < 2 ^ 32"
  shows "udcPackage s c (of_nat p) =
     (if p = 0 \<and> c = 0xAA then (U_RRQ_POS_MOVE_RIGHT, s)
      else if p = 1 \<and> c = 0x55 then (U_RRQ_POS_MOVE_RIGHT, s\<lparr>checksum := 0\<rparr>)
      else
        let s1 = (if p = 2 then s\<lparr>pkgLen := c\<rparr> else s) in
        if 2 \<le> p \<and> p < unat (pkgLen s1) + 2
        then (U_RRQ_POS_MOVE_RIGHT, s1\<lparr>checksum := checksum s1 + c\<rparr>)
        else if 2 \<le> p \<and> p = unat (pkgLen s1) + 2 \<and> c = checksum s1 then (U_RRQ_MATCH, s1)
        else (U_RRQ_FRAME_MOVE_RIGHT, s1\<lparr>pkgLen := 0, checksum := 0\<rparr>))"
proof -
  have u: "unat (of_nat p :: u32) = p" using assms by (rule unat_of_nat32)
  have n: "unat (ucast x + 2 :: u32) = unat x + 2" for x :: u8
    using unsigned_less [of x, where ?'a = nat] by (simp add: unat_word_ariths unsigned_ucast_eq take_bit_eq_mod)
  have eqs: "of_nat p = (0 :: u32) \<longleftrightarrow> p = 0" "of_nat p = (1 :: u32) \<longleftrightarrow> p = 1"
    "of_nat p = (2 :: u32) \<longleftrightarrow> p = 2" "(2 :: u32) \<le> of_nat p \<longleftrightarrow> 2 \<le> p"
    by (simp_all add: word_unat_eq_iff word_le_nat_alt u)
  have cmp: "of_nat p < (ucast x + 2 :: u32) \<longleftrightarrow> p < unat x + 2"
    "of_nat p = (ucast x + 2 :: u32) \<longleftrightarrow> p = unat x + 2" for x :: u8
    by (simp_all only: word_unat_eq_iff word_less_nat_alt u n)
  show ?thesis unfolding udcPackage_def eqs cmp ..
qed

lemma crawl_body:
  assumes "1 \<le> k" "k + length bs = n" "n < 256"
  shows "\<exists>s'. crawl_list udcPackage (bs @ (c + sum_list bs) # rest) (of_nat (2 + k)) \<lparr>pkgLen = of_nat n, checksum = c\<rparr> =
     (Some (of_nat (2 + n)), s')"
  using assms
proof (induction bs arbitrary: k c)
  case Nil
  then have "unat (of_nat n :: u8) = n" by (simp add: unat_of_nat)
  then show ?case using Nil udcPackage_nat [of "2 + k"] by (simp del: of_nat_add)
next
  case (Cons b bs)
  have n: "unat (of_nat n :: u8) = n" using Cons.prems by (simp add: unat_of_nat)
  have "udcPackage \<lparr>pkgLen = of_nat n, checksum = c\<rparr> b (of_nat (2 + k)) =
      (U_RRQ_POS_MOVE_RIGHT, \<lparr>pkgLen = of_nat n, checksum = c + b\<rparr>)"
    using Cons.prems n udcPackage_nat [of "2 + k"] by (simp del: of_nat_add)
  then show ?case
    using Cons.IH [of "Suc k" "c + b"] Cons.prems by (simp add: algebra_simps)
qed

lemma crawl_frame:
  assumes "udc_body body"
  shows "\<exists>s'. crawl_list udcPackage (udc_frame body @ rest) 0 s = (Some (of_nat (2 + length body)), s')"
proof -
  obtain b bs where body: "body = b # bs" "length bs < 255" "b = of_nat (Suc (length bs))"
    using assms by (cases body) (auto simp: udc_body_def)
  have ub: "unat b = Suc (length bs)" using body by (simp add: unat_of_nat del: of_nat_Suc)
  have p0: "udcPackage s 0xAA 0 = (U_RRQ_POS_MOVE_RIGHT, s)"
    "udcPackage s 0x55 1 = (U_RRQ_POS_MOVE_RIGHT, s\<lparr>checksum := 0\<rparr>)" for s
    using udcPackage_nat [of 0] udcPackage_nat [of 1] by simp_all
  have p2: "udcPackage (s\<lparr>checksum := 0\<rparr>) b 2 = (U_RRQ_POS_MOVE_RIGHT, \<lparr>pkgLen = b, checksum = b\<rparr>)" for s
    using udcPackage_nat [of 2 "s\<lparr>checksum := 0\<rparr>" b] ub by simp
  obtain s' where "crawl_list udcPackage (bs @ (b + sum_list bs) # rest) (of_nat (2 + 1))
      \<lparr>pkgLen = of_nat (Suc (length bs)), checksum = b\<rparr> = (Some (of_nat (2 + Suc (length bs))), s')"
    using crawl_body [of 1 bs "Suc (length bs)" b rest] body(2) by auto
  then show ?thesis using p0 p2 body by (simp add: udc_frame_def)
qed

lemma scan_frame:
  assumes "0xAA \<notin> set junk" "udc_body body"
  shows "\<exists>s'. scan_list udcPackage (junk @ udc_frame body @ rest) s = (Some (length junk, of_nat (2 + length body)), s')"
  using assms(1)
proof (induction junk arbitrary: s)
  case Nil
  obtain xs where x: "udc_frame body @ rest = 0xAA # xs" by (simp add: udc_frame_def)
  then show ?case using crawl_frame [OF assms(2), of rest s] by (auto simp: x)
next
  case (Cons c junk)
  have "udcPackage s c 0 = (U_RRQ_FRAME_MOVE_RIGHT, s\<lparr>pkgLen := 0, checksum := 0\<rparr>)"
    using Cons.prems udcPackage_nat [of 0 s c] by simp
  moreover obtain s' where "scan_list udcPackage (junk @ udc_frame body @ rest) (s\<lparr>pkgLen := 0, checksum := 0\<rparr>) =
      (Some (length junk, of_nat (2 + length body)), s')"
    using Cons by fastforce
  ultimately show ?case by simp
qed

end
