(* ===== verification/Udc_Props.thy ===== *)
theory Udc_Props
  imports Udc
begin

text \<open>
  Properties of the debug card protocol: packages are found in the receive queue whatever
  precedes them, a board identification request is answered by a well-formed package on the
  transmit queue, the transmit callback drains the queue in order and in batches, and a package
  of length zero executes the command byte of an earlier one.
\<close>

section \<open>Queue operations on the module\<close>

lemma other_slot:
  assumes "rrq_others_kept m a m'" "rrq_valid m b" "a \<noteq> b"
  shows "rrq_slot m' b = rrq_slot m b" and "rrq_valid m' b"
  using assms by (auto simp: rrq_others_kept_def rrq_valid_def rrq_slot_def word_unat_eq_iff)

lemma package_get_frame:
  assumes "rrq_valid m q" and "unat (rq_bufLen (rrq_slot m q)) \<le> 2 ^ 31"
    and "rrq_content (rrq_slot m q) = junk @ udc_frame body @ rest"
    and "0xAA \<notin> set junk" and "udc_body body"
    and "length body + 3 \<le> length out" and "length out < 2 ^ 32"
  shows "\<exists>ev cr' m'. u_rrq_package_get m q udcPackage cr (Some out) (of_nat (length out)) =
       Inr ((of_nat (length body + 3), udc_frame body @ drop (length body + 3) out, ev, cr'), m') \<and>
     rrq_content (rrq_slot m' q) = rest \<and> rrq_valid m' q \<and> rrq_others_kept m q m'"
proof -
  let ?h = "rrq_slot m q" and ?len = "of_nat (length out) :: u32"
  have ul: "unat ?len = length out" using assms(7) by (rule unat_of_nat32)
  then have l0: "?len \<noteq> 0" using assms(6) by (auto simp: word_unat_eq_iff)
  have n: "unat (of_nat (2 + length body) :: u32) = 2 + length body"
    using assms(5) by (intro unat_of_nat32) (simp add: udc_body_def)
  have lf: "length (udc_frame body) = length body + 3" by (simp add: udc_frame_def)
  obtain cr' where sc: "scan_list udcPackage (rrq_content ?h) cr = (Some (length junk, of_nat (2 + length body)), cr')"
    using scan_frame [OF assms(4,5)] assms(3) by metis
  then obtain h' where h: "rrq_package_get udcPackage cr (Some out) ?len ?h =
      Inr ((of_nat (length body + 3), udc_frame body @ drop (length body + 3) out,
        rrq_locks (rq_overrideOnFull ?h) False, cr'), h')" "rrq_wf h'" "rrq_content h' = rest"
    using rrq_package_get_ok [OF rrq_valid_wf [OF assms(1)] assms(2) eq_refl [OF ul] l0, of udcPackage cr]
      assms(3,6) ul n lf by (auto simp: Let_def min_absorb2 eval_nat_numeral)
  then show ?thesis
    using rrq_on_ok [OF assms(1), of "rrq_package_get udcPackage cr (Some out) ?len", OF h(1)] rrq_valid_step [OF assms(1)]
    unfolding u_rrq_package_get_def by metis
qed

lemma put_room:
  assumes "rrq_valid m q" and "\<not> rq_overrideOnFull (rrq_slot m q)" and "length d < 2 ^ 32"
    and "length (rrq_content (rrq_slot m q)) + length d \<le> rrq_cap (rrq_slot m q)"
  shows "\<exists>n ev m'. u_rrq_put m q isr (Some d) (of_nat (length d)) = Inr ((n, ev), m') \<and>
     rrq_content (rrq_slot m' q) = rrq_content (rrq_slot m q) @ d \<and> rrq_valid m' q \<and> rrq_others_kept m q m'"
proof -
  let ?h = "rrq_slot m q" and ?len = "of_nat (length d) :: u32"
  have ul: "unat ?len = length d" using assms(3) by (rule unat_of_nat32)
  obtain n ev h' where r: "rrq_put isr (Some d) ?len ?h = Inr ((n, ev), h')" "rrq_wf h'"
    "unat n = min (length d) (rrq_cap ?h - rrq_count ?h)"
    "rrq_content h' = lastn (rrq_cap ?h) (rrq_content ?h @ take (unat n) d)"
    using rrq_put_ok [OF rrq_valid_wf [OF assms(1)], of ?len d isr] ul assms(2) by auto
  have "unat n = length d" using r(3) assms(4) by simp
  then have "rrq_content h' = rrq_content ?h @ d" using r(4) assms(4) by (simp add: lastn_short)
  then show ?thesis
    using rrq_on_ok [OF assms(1), of "rrq_put isr (Some d) ?len", OF r(1)] r(2) rrq_valid_step [OF assms(1)]
    unfolding u_rrq_put_def by metis
qed

lemma get_one:
  assumes "rrq_valid m q"
  shows "\<exists>m' ev. u_rrq_get m q isr (Some [0]) 1 =
       Inr (case rrq_content (rrq_slot m q) of
          [] \<Rightarrow> ((0, [0], ev), m') | c # cs \<Rightarrow> ((1, [c], ev), m')) \<and>
     rrq_content (rrq_slot m' q) = tl (rrq_content (rrq_slot m q)) \<and> rrq_valid m' q \<and> rrq_others_kept m q m'"
proof -
  let ?h = "rrq_slot m q"
  obtain h' ev where r: "rrq_get isr (Some [0]) 1 ?h = Inr (case rrq_content ?h of
          [] \<Rightarrow> ((0, [0], ev), h') | c # cs \<Rightarrow> ((1, [c], ev), h'))" "rrq_wf h'" "rrq_content h' = tl (rrq_content ?h)"
    using rrq_get_ok [OF rrq_valid_wf [OF assms], of 1 "[0]" isr] length_rrq_content [of ?h]
    by (cases "rrq_content ?h") auto
  show ?thesis
  proof (cases "rrq_content ?h")
    case Nil
    then show ?thesis
      using rrq_on_ok [OF assms, of "rrq_get isr (Some [0]) 1" "(0, [0], ev)" h'] r rrq_valid_step [OF assms]
      unfolding u_rrq_get_def by force
  next
    case (Cons c cs)
    then show ?thesis
      using rrq_on_ok [OF assms, of "rrq_get isr (Some [0]) 1" "(1, [c], ev)" h'] r rrq_valid_step [OF assms]
      unfolding u_rrq_get_def by force
  qed
qed

lemma isFull_total: "rrq_valid m q \<Longrightarrow> \<exists>b. u_rrq_isFull m q = Inr b"
  using rrq_valid_wf [of m q]
  by (auto simp: u_rrq_isFull_def rrq_query_ok rrq_isFull_def rrq_wf_def access elim!: rrq_idxE)

lemma isEmpty_content: "rrq_valid m q \<Longrightarrow> u_rrq_isEmpty m q = Inr (rrq_content (rrq_slot m q) = [])"
  using rrq_valid_wf [of m q] rrq_empty_iff [of "rrq_slot m q"]
  by (simp add: u_rrq_isEmpty_def rrq_query_ok rrq_isEmpty_def rrq_wf_def flip: length_0_conv)

lemma valid_id: "rrq_valid m q \<Longrightarrow> q \<noteq> U_RRQ_INVALID_RRQ_ID"
  by (auto simp: rrq_valid_def U_RRQ_MAX_QUEUE_NUM_def U_RRQ_INVALID_RRQ_ID_def)

section \<open>Replies\<close>

lemma fold_plus: "fold (\<lambda>b s. s + b) xs (a :: u8) = a + sum_list xs"
  by (induction xs arbitrary: a) (simp_all add: algebra_simps)

lemma udc_reply_frame:
  assumes "length data < 253"
  shows "udc_reply cmd seqNo data = udc_frame (of_nat (3 + length data) # cmd # seqNo # data)"
    and "udc_body (of_nat (3 + length data) # cmd # seqNo # data)"
  using assms unfolding udc_reply_def udc_frame_def udc_body_def Let_def fold_plus
  by (simp_all add: algebra_simps)

section \<open>Properties\<close>

text \<open>
  Package extraction: if the receive queue holds any bytes other than the first magic byte,
  then a frame of the protocol, then anything, one call of \<open>u_rrq_package_get\<close> with the debug
  card's crawler stores exactly that frame in the package buffer, returns its length, drops the
  bytes before it and leaves what follows in the queue, whatever the crawler's static variables
  were.
\<close>

theorem udc_package_extracted:
  assumes "rrq_valid m q" and "unat (rq_bufLen (rrq_slot m q)) \<le> 2 ^ 31"
    and "rrq_content (rrq_slot m q) = junk @ udc_frame body @ rest"
    and "0xAA \<notin> set junk" and "udc_body body"
    and "length body + 3 \<le> length out" and "length out < 2 ^ 32"
  shows "\<exists>n out' ev cr' m'. u_rrq_package_get m q udcPackage cr (Some out) (of_nat (length out)) =
       Inr ((n, out', ev, cr'), m') \<and> unat n = length (udc_frame body) \<and>
     take (unat n) out' = udc_frame body \<and> drop (unat n) out' = drop (unat n) out \<and>
     rrq_content (rrq_slot m' q) = rest \<and> rrq_valid m' q \<and> rrq_others_kept m q m'"
proof -
  have lf: "length (udc_frame body) = length body + 3" by (simp add: udc_frame_def)
  then have u: "unat (of_nat (length body + 3) :: u32) = length (udc_frame body)"
    using assms(6,7) by (subst unat_of_nat32) simp_all
  from package_get_frame [OF assms, of cr] show ?thesis
    by (elim exE conjE) (intro exI conjI, assumption, simp_all only: u lf, simp_all add: lf)
qed

text \<open>A receive queue for the witnesses: one stray byte, a frame and one byte more.\<close>

definition rx_handler :: "u8 list \<Rightarrow> rrq_handler" where
  "rx_handler bytes = \<lparr>rq_pBuf = Some (bytes @ replicate (64 - length bytes) 0), rq_bufLen = 64,
     rq_overrideOnFull = False, rq_head = of_nat (length bytes), rq_tail = 0,
     rq_inputCounter = of_nat (length bytes), rq_outputCounter = 0\<rparr>"

definition tx_handler :: rrq_handler where
  "tx_handler = \<lparr>rq_pBuf = Some (replicate 256 0), rq_bufLen = 256, rq_overrideOnFull = False, rq_head = 0,
     rq_tail = 0, rq_inputCounter = 0, rq_outputCounter = 0\<rparr>"

definition udc_module :: "u8 list \<Rightarrow> rrq_module" where
  "udc_module bytes = \<lparr>s_rrqCfg = tx_handler # rx_handler bytes # replicate 8 rrq_zero, s_moduleInitFlag = True\<rparr>"

lemma udc_module_slots: "rrq_slot (udc_module bytes) 0 = tx_handler" "rrq_slot (udc_module bytes) 1 = rx_handler bytes"
  by (simp_all add: rrq_slot_def udc_module_def)

lemma rx_count: "length bytes < 64 \<Longrightarrow> rrq_count (rx_handler bytes) = length bytes"
  by (simp add: rrq_count_def ring_dist_def rx_handler_def unat_of_nat)

lemma rx_wf: "length bytes < 64 \<Longrightarrow> rrq_wf (rx_handler bytes)"
  by (simp add: rrq_wf_def rrq_idx_def rx_count) (simp add: rx_handler_def rrq_buf_def unat_of_nat word_less_nat_alt)

lemma rx_bufLen: "rq_bufLen (rx_handler bytes) = 64"
  by (simp add: rx_handler_def)

lemma rx_content: "length bytes < 64 \<Longrightarrow> rrq_content (rx_handler bytes) = bytes"
  by (rule nth_equalityI) (simp_all add: rx_count rrq_content_def ring_slice_def, simp add: rx_handler_def rrq_buf_def nth_append)

lemma tx_facts: "rrq_wf tx_handler" "rrq_content tx_handler = []" "rrq_cap tx_handler = 255" "\<not> rq_overrideOnFull tx_handler"
  by (simp_all add: rrq_wf_def rrq_idx_def tx_handler_def rrq_buf_def rrq_count_def ring_dist_def rrq_content_def
      ring_slice_def rrq_cap_def)

lemma udc_module_valid: "length bytes < 64 \<Longrightarrow> rrq_valid (udc_module bytes) 1" "rrq_valid (udc_module bytes) 0"
  using rx_wf tx_facts(1) by (simp_all add: rrq_valid_def udc_module_slots U_RRQ_MAX_QUEUE_NUM_def) (simp_all add: udc_module_def)

lemma transmit_ok:
  assumes "rrq_valid m (s_txQid u)" and "\<not> rq_overrideOnFull (rrq_slot m (s_txQid u))" and "length p < 2 ^ 32"
    and "length (rrq_content (rrq_slot m (s_txQid u))) + length p \<le> rrq_cap (rrq_slot m (s_txQid u))"
  shows "\<exists>m'. transmit u (Some p) m = Inr ([Sender_timer_start], m') \<and>
     rrq_content (rrq_slot m' (s_txQid u)) = rrq_content (rrq_slot m (s_txQid u)) @ p \<and>
     rrq_valid m' (s_txQid u) \<and> rrq_others_kept m (s_txQid u) m'"
  using put_room [OF assms, of False] valid_id [OF assms(1)]
  by (auto simp: transmit_def udc_uart_fifo_write_def)

lemma boardId_read:
  assumes "cmd \<in> {0x30, 0x32}" and "length (read (if cmd = 0x30 then 0 else 128)) = 128"
    and "buf = udc_frame [3, cmd, seqNo] @ tl_bytes"
  shows "boardIdProcess read buf = Inr ([BrdId_read (if cmd = 0x30 then 0 else 128) 128],
     Some (udc_frame (131 # cmd # seqNo # read (if cmd = 0x30 then 0 else 128))))"
  using assms udc_reply_frame(1) [of "read (if cmd = 0x30 then 0 else 128)" cmd seqNo]
  by (auto simp: boardIdProcess_def Let_def udc_frame_def access)

text \<open>
  A board identification read is answered: when the receive queue holds such a request behind
  arbitrary bytes other than the magic byte, one pass of the thread's loop reads the requested
  half of the memory, appends to the transmit queue one well-formed frame with the same command
  and sequence number and the 128 bytes read, starts the sender timer, and leaves the bytes
  behind the request in the receive queue.
\<close>

theorem udc_board_id_read_answered:
  assumes "rrq_valid m (s_rxQid u)" and "unat (rq_bufLen (rrq_slot m (s_rxQid u))) \<le> 2 ^ 31"
    and "rrq_valid m (s_txQid u)" and "\<not> rq_overrideOnFull (rrq_slot m (s_txQid u))" and "s_rxQid u \<noteq> s_txQid u"
    and "rrq_content (rrq_slot m (s_rxQid u)) = junk @ udc_frame [3, cmd, seqNo] @ rest" and "0xAA \<notin> set junk"
    and "length (rrq_content (rrq_slot m (s_txQid u))) + 134 \<le> rrq_cap (rrq_slot m (s_txQid u))"
    and "cmd \<in> {0x30, 0x32}" and "start = (if cmd = 0x30 then 0 else 128)" and "length (read start) = 128"
    and "length buf = 150"
  shows "\<exists>cr' buf' m'. udc_receive s0 read cr buf u m =
       Inr ([BrdId_read start 128, Sender_timer_start], cr', buf', u, m') \<and>
     rrq_content (rrq_slot m' (s_rxQid u)) = rest \<and>
     rrq_content (rrq_slot m' (s_txQid u)) =
       rrq_content (rrq_slot m (s_txQid u)) @ udc_frame (131 # cmd # seqNo # read start) \<and>
     udc_body (131 # cmd # seqNo # read start) \<and> rrq_valid m' (s_rxQid u) \<and> rrq_valid m' (s_txQid u)"
proof -
  let ?rx = "s_rxQid u" and ?tx = "s_txQid u" and ?req = "udc_frame [3, cmd, seqNo]"
    and ?reply = "udc_frame (131 # cmd # seqNo # read start)"
  have body: "udc_body [3, cmd, seqNo]" by (simp add: udc_body_def)
  obtain full where full: "u_rrq_isFull m ?rx = Inr full" using isFull_total [OF assms(1)] ..
  obtain ev cr' m1 where g: "u_rrq_package_get m ?rx udcPackage cr (Some buf) (of_nat (length buf)) =
       Inr ((6, ?req @ drop 6 buf, ev, cr'), m1)" "rrq_content (rrq_slot m1 ?rx) = rest" "rrq_valid m1 ?rx"
     "rrq_others_kept m ?rx m1"
    using package_get_frame [OF assms(1,2,6,7) body, of buf cr] assms(12) by auto
  have tx: "rrq_slot m1 ?tx = rrq_slot m ?tx" "rrq_valid m1 ?tx"
    using other_slot [OF g(4) assms(3,5)] by blast+
  have len: "length ?reply = 134" using assms(11) by (simp add: udc_frame_def)
  obtain m2 where t: "transmit u (Some ?reply) m1 = Inr ([Sender_timer_start], m2)"
    "rrq_content (rrq_slot m2 ?tx) = rrq_content (rrq_slot m ?tx) @ ?reply" "rrq_valid m2 ?tx" "rrq_others_kept m1 ?tx m2"
    using transmit_ok [of m1 u ?reply] tx assms(4,8) len by auto
  have rx: "rrq_slot m2 ?rx = rrq_slot m1 ?rx" "rrq_valid m2 ?rx"
    using other_slot [OF t(4) g(3)] assms(5) by metis+
  have bid: "boardIdProcess read (?req @ drop 6 buf) = Inr ([BrdId_read start 128], Some ?reply)"
    using boardId_read [OF assms(9) _ refl, of read seqNo "drop 6 buf"] assms(10,11) by simp
  have "ld (?req @ drop 6 buf) 3 = Inr cmd" by (simp add: ld_def udc_frame_def)
  then have "udc_command s0 read (?req @ drop 6 buf) u m1 =
      Inr ([BrdId_read start 128, Sender_timer_start], ?req @ drop 6 buf, u, m2)"
    using assms(9) bid t(1) by (auto simp: udc_command_def)
  then have "udc_receive s0 read cr buf u m =
      Inr ([BrdId_read start 128, Sender_timer_start], cr', ?req @ drop 6 buf, u, m2)"
    by (simp add: udc_receive_def full g(1))
  then show ?thesis using g(2) t(2,3) rx udc_reply_frame(2) [of "read start" cmd seqNo] assms(11) by auto
qed

definition demo_udc :: udc where
  "demo_udc = \<lparr>s_isUdcBiosLogEnabled = False, s_statusChanged = False, s_biosDebugLogEnable = True, g_isUdcPresent = True,
     g_isUartDonglePresent = False, s_txQid = 0, s_rxQid = 1, s_postcodeShown = True\<rparr>"

lemma demo_udc_ids: "s_rxQid demo_udc = 1" "s_txQid demo_udc = 0"
  by (simp_all add: demo_udc_def)

lemma tx_loop_ok:
  assumes "rrq_valid m (s_txQid u)" and "unat sent \<le> 100"
  shows "\<exists>m'. tx_loop u sent m =
       Inr (map Uart_poll_out (take (101 - unat sent) (rrq_content (rrq_slot m (s_txQid u)))), m') \<and>
     rrq_content (rrq_slot m' (s_txQid u)) = drop (101 - unat sent) (rrq_content (rrq_slot m (s_txQid u))) \<and>
     rrq_valid m' (s_txQid u) \<and> rrq_others_kept m (s_txQid u) m'"
  using assms
proof (induction "100 - unat sent" arbitrary: sent m)
  case outer: 0
  let ?q = "s_txQid u"
  have s: "unat sent = 100" "unat (sent + 1) = 101" using outer by (simp_all add: unat_word_ariths)
  obtain m' ev where g: "u_rrq_get m ?q True (Some [0]) 1 =
       Inr (case rrq_content (rrq_slot m ?q) of [] \<Rightarrow> ((0, [0], ev), m') | c # cs \<Rightarrow> ((1, [c], ev), m'))"
     "rrq_content (rrq_slot m' ?q) = tl (rrq_content (rrq_slot m ?q))" "rrq_valid m' ?q" "rrq_others_kept m ?q m'"
    using get_one [OF outer.prems(1), of True] by blast
  then show ?case
    using s valid_id [OF outer.prems(1)] by (cases "rrq_content (rrq_slot m ?q)") (auto simp: tx_loop.simps [of u sent m])
next
  case (Suc k)
  let ?q = "s_txQid u"
  have s: "unat (sent + 1) = unat sent + 1" "unat sent < 100" using Suc by (simp_all add: unat_word_ariths)
  obtain m' ev where g: "u_rrq_get m ?q True (Some [0]) 1 =
       Inr (case rrq_content (rrq_slot m ?q) of [] \<Rightarrow> ((0, [0], ev), m') | c # cs \<Rightarrow> ((1, [c], ev), m'))"
     "rrq_content (rrq_slot m' ?q) = tl (rrq_content (rrq_slot m ?q))" "rrq_valid m' ?q" "rrq_others_kept m ?q m'"
    using get_one [OF Suc.prems(1), of True] by blast
  show ?case
  proof (cases "rrq_content (rrq_slot m ?q)")
    case Nil
    then show ?thesis using g valid_id [OF Suc.prems(1)] by (auto simp: tx_loop.simps [of u sent m])
  next
    case (Cons c cs)
    have d: "101 - unat sent = Suc (101 - unat (sent + 1))" using s by simp
    have k: "k = 100 - unat (sent + 1)" using Suc.hyps(2) s by simp
    obtain m'' where r: "tx_loop u (sent + 1) m' = Inr (map Uart_poll_out (take (101 - unat (sent + 1)) cs), m'')"
      "rrq_content (rrq_slot m'' ?q) = drop (101 - unat (sent + 1)) cs" "rrq_valid m'' ?q" "rrq_others_kept m' ?q m''"
      using Suc.hyps(1) [OF k g(3)] s g(2) Cons by auto
    have "rrq_others_kept m ?q m''" using g(4) r(4) by (auto simp: rrq_others_kept_def)
    moreover have "tx_loop u sent m = Inr (Uart_poll_out c # map Uart_poll_out (take (101 - unat (sent + 1)) cs), m'')"
      using g(1) r(1) Cons s valid_id [OF Suc.prems(1)] by (subst tx_loop.simps) simp
    ultimately show ?thesis using r(2,3) unfolding Cons d by simp
  qed
qed

text \<open>
  The transmit callback sends the oldest 101 bytes of the queue, in order, or all when there
  are fewer, leaves the rest queued, and starts the sender timer again exactly when bytes remain.
\<close>

theorem udc_tx_batches:
  assumes "rrq_valid m (s_txQid u)" and "rrq_content (rrq_slot m (s_txQid u)) = bytes"
  shows "\<exists>m'. udc_uart_tx_callback u m =
       Inr (map Uart_poll_out (take 101 bytes) @ (if length bytes \<le> 101 then [] else [Sender_timer_start]), m') \<and>
     rrq_content (rrq_slot m' (s_txQid u)) = drop 101 bytes \<and> rrq_valid m' (s_txQid u) \<and>
     rrq_others_kept m (s_txQid u) m'"
  using tx_loop_ok [OF assms(1), of 0] assms(2) by (auto simp: udc_uart_tx_callback_def isEmpty_content)

lemma scan_zero_length:
  "\<exists>s'. scan_list udcPackage ([0xAA, 0x55, 0] @ rest) s = (Some (0, 2), s')"
  using udcPackage_nat [of 0 s "0xAA"] udcPackage_nat [of 1 s "0x55"] udcPackage_nat [of 2 "s\<lparr>checksum := 0\<rparr>" 0]
  by simp

lemma package_get_zero_length:
  assumes "rrq_valid m q" and "unat (rq_bufLen (rrq_slot m q)) \<le> 2 ^ 31"
    and "rrq_content (rrq_slot m q) = [0xAA, 0x55, 0] @ rest" and "length out = 150"
  shows "\<exists>ev cr' m'. u_rrq_package_get m q udcPackage cr (Some out) (of_nat (length out)) =
       Inr ((3, [0xAA, 0x55, 0] @ drop 3 out, ev, cr'), m') \<and>
     rrq_content (rrq_slot m' q) = rest \<and> rrq_valid m' q \<and> rrq_others_kept m q m'"
proof -
  let ?h = "rrq_slot m q"
  obtain cr' where sc: "scan_list udcPackage (rrq_content ?h) cr = (Some (0, 2), cr')"
    using scan_zero_length assms(3) by metis
  then obtain h' where h: "rrq_package_get udcPackage cr (Some out) 150 ?h =
      Inr ((3, [0xAA, 0x55, 0] @ drop 3 out, rrq_locks (rq_overrideOnFull ?h) False, cr'), h')" "rrq_wf h'"
      "rrq_content h' = rest"
    using rrq_package_get_ok [OF rrq_valid_wf [OF assms(1)] assms(2), of 150 out udcPackage cr] assms(3,4)
    by (auto simp: Let_def)
  then show ?thesis
    using rrq_on_ok [OF assms(1), of "rrq_package_get udcPackage cr (Some out) 150", OF h(1)] rrq_valid_step [OF assms(1)]
    unfolding u_rrq_package_get_def assms(4) by (metis of_nat_numeral)
qed

text \<open>
  A package of length zero executes a stale command: the crawler accepts the three bytes
  \<open>AA 55 00\<close>, the command is then read from byte three of the package buffer, which an earlier
  package filled, and if that was a log switch its operator is applied again and a reply whose
  length byte is zero is queued.
\<close>

theorem udc_zero_length_runs_stale_command:
  assumes "rrq_valid m (s_rxQid u)" and "unat (rq_bufLen (rrq_slot m (s_rxQid u))) \<le> 2 ^ 31"
    and "rrq_valid m (s_txQid u)" and "\<not> rq_overrideOnFull (rrq_slot m (s_txQid u))" and "s_rxQid u \<noteq> s_txQid u"
    and "rrq_content (rrq_slot m (s_rxQid u)) = [0xAA, 0x55, 0] @ rest"
    and "length (rrq_content (rrq_slot m (s_txQid u))) + 7 \<le> rrq_cap (rrq_slot m (s_txQid u))"
    and "length buf = 150" and "buf ! 3 = 0x34" and "buf ! 5 \<in> {0, 1}"
  shows "\<exists>cr' buf' u' m'. udc_receive s0 read cr buf u m = Inr ([Sender_timer_start], cr', buf', u', m') \<and>
     s_isUdcBiosLogEnabled u' = (buf ! 5 = 1) \<and>
     rrq_content (rrq_slot m' (s_txQid u)) =
       rrq_content (rrq_slot m (s_txQid u)) @ [0xAA, 0x55, 0] @ take 4 (drop 3 buf)"
proof -
  let ?rx = "s_rxQid u" and ?tx = "s_txQid u" and ?b = "[0xAA, 0x55, 0] @ drop 3 buf"
  obtain full where full: "u_rrq_isFull m ?rx = Inr full" using isFull_total [OF assms(1)] ..
  obtain ev cr' m1 where g: "u_rrq_package_get m ?rx udcPackage cr (Some buf) (of_nat (length buf)) =
       Inr ((3, ?b, ev, cr'), m1)" "rrq_others_kept m ?rx m1"
    using package_get_zero_length [OF assms(1,2,6,8), of cr] by blast
  have tx: "rrq_slot m1 ?tx = rrq_slot m ?tx" "rrq_valid m1 ?tx"
    using other_slot [OF g(2) assms(3,5)] by blast+
  define u' where "u' = (if s_isUdcBiosLogEnabled u \<noteq> (buf ! 5 = 1)
    then u\<lparr>s_isUdcBiosLogEnabled := (buf ! 5 = 1), s_statusChanged := True\<rparr> else u)"
  have u': "s_txQid u' = ?tx" "s_isUdcBiosLogEnabled u' = (buf ! 5 = 1)" by (auto simp: u'_def)
  have t7: "take 7 ?b = [0xAA, 0x55, 0] @ take 4 (drop 3 buf)" by simp
  have nth: "?b ! 3 = buf ! 3" "take 7 ?b ! 5 = buf ! 5" using assms(8) by (simp_all add: nth_Cons')
  have bios: "biosLogSwitchProcess ?b u = Inr (Some (take 7 ?b), ?b, u')"
    using assms(8,10) nth(2) load_seq_ok [of 0 7 ?b] by (auto simp: biosLogSwitchProcess_def Let_def u'_def)
  obtain m2 where t: "transmit u' (Some (take 7 ?b)) m1 = Inr ([Sender_timer_start], m2)"
    "rrq_content (rrq_slot m2 ?tx) = rrq_content (rrq_slot m ?tx) @ take 7 ?b"
    using transmit_ok [of m1 u' "take 7 ?b"] tx assms(4,7,8) u'(1) by auto
  have "ld ?b 3 = Inr 0x34" using assms(8,9) nth(1) by (simp add: ld_def)
  then have "udc_command s0 read ?b u m1 = Inr ([Sender_timer_start], ?b, u', m2)"
    using bios t(1) by (simp add: udc_command_def)
  then have "udc_receive s0 read cr buf u m = Inr ([Sender_timer_start], cr', ?b, u', m2)"
    by (simp add: udc_receive_def full g(1))
  then show ?thesis using u'(2) t(2) t7 by auto
qed

end
