(* ===== verification/Pseq_Inv.thy ===== *)
theory Pseq_Inv
  imports Pseq
begin

text \<open>
  The abstract transition table of the system state with the lemma that the handlers implement
  it, and the invariant that orders the S5 rails and the resume reset over every interleaving of
  passes, timers, requests and virtual wires.
\<close>

section \<open>The abstract transition table\<close>

definition allowed :: "system_power_state \<Rightarrow> system_power_state \<Rightarrow> bool" where
  "allowed cur next =
     (case next of
        SYSTEM_S0_STATE \<Rightarrow> cur \<in> {SYSTEM_G3_STATE, SYSTEM_S5_STATE, SYSTEM_S3_STATE, SYSTEM_S0_R_STATE}
      | SYSTEM_S0_R_STATE \<Rightarrow> True
      | SYSTEM_S3_STATE \<Rightarrow> cur \<in> {SYSTEM_S0_STATE, SYSTEM_G3_STATE, SYSTEM_S5_STATE}
      | SYSTEM_S4_STATE \<Rightarrow> True
      | SYSTEM_S5_STATE \<Rightarrow> cur \<in> {SYSTEM_S3_STATE, SYSTEM_S0_STATE, SYSTEM_G3_STATE}
      | SYSTEM_G3_STATE \<Rightarrow> cur \<in> {SYSTEM_S3_STATE, SYSTEM_S0_STATE, SYSTEM_S5_STATE, SYSTEM_INIT_STATE}
      | SYSTEM_INIT_STATE \<Rightarrow> False)"

text \<open>
  The fields that decide what the sequencing does next. \<open>core\<close> leaves out the pins, the calls
  and the flags that only other modules read.
\<close>

definition core :: "pseq \<Rightarrow> system_power_state \<times> system_power_state \<times> bool" where
  "core s = (current_state s, next_state s, pwrseq_failure s)"

lemmas action_defs = emit_def gpio_write_pin_def opt_write_def set_sleep_ready_def if_do_def

lemma core_actions [simp]:
  "core (emit c s) = core s" "core (gpio_write_pin p v s) = core s" "core (opt_write b p v s) = core s"
  "core (set_sleep_ready v s) = core s" "core (app_pseq_nextStep x d s) = core s"
  by (simp_all add: core_def action_defs app_pseq_nextStep_def)

lemma core_if_do [simp]: "core (f s) = core s \<Longrightarrow> core (if_do c f s) = core s"
  by (simp add: if_do_def)

lemma core_updates [simp]:
  "core (s\<lparr>g_powerSeq_criticalZone := x1\<rparr>) = core s" "core (s\<lparr>g_isUcsiCycleFinished := x1\<rparr>) = core s"
  "core (s\<lparr>s_pwrStHadS3 := x1\<rparr>) = core s" "core (s\<lparr>waie_syc_flag := x2\<rparr>) = core s"
  "core (s\<lparr>g_auxD3Cold := x2, g_ui8MondernStandbySupport := x3, g_slideToShutdownEnabled := x4\<rparr>) = core s"
  "core (s\<lparr>g_ui8PwrBtnVciFlag := x1\<rparr>) = core s" "core (s\<lparr>s_slpS35WaitCnt := x5\<rparr>) = core s"
  "core (s\<lparr>s_vrNeedG3 := x1\<rparr>) = core s" "core (s\<lparr>init_espi := x1\<rparr>) = core s" "core (s\<lparr>s_vrNeedG3_cnt := x2\<rparr>) = core s"
  "core (s\<lparr>g_LPCAMM_PWR_EN := x1\<rparr>) = core s" "core (s\<lparr>s_gotoG3WaitCnt := x5\<rparr>) = core s"
  by (simp_all add: core_def)

lemma core_blocks [simp]:
  "core (app_pseq_exitS0 b s) = core s" "core (charger_prochot b s) = core s" "core (ccgx_update b e p s) = core s"
  "core (finish_ucsi b s) = core s"
  by (simp_all add: app_pseq_exitS0_def charger_prochot_def ccgx_update_def finish_ucsi_def)

lemmas transition_defs = app_pseq_transitionToS0_def app_pseq_transitionToS0R_def app_pseq_transitionToS3_def
  app_pseq_transitionToS4_def app_pseq_transitionToS5_def app_pseq_transitionToG3_def

lemma transitions_core:
  "core (snd (app_pseq_transitionToS0 b e s)) = core s" "core (snd (app_pseq_transitionToS0R b s)) = core s"
  "core (snd (app_pseq_transitionToS3 b e s)) = core s" "core (snd (app_pseq_transitionToS4 b s)) = core s"
  "core (snd (app_pseq_transitionToS5 b e s)) = core s" "core (snd (app_pseq_transitionToG3 b e s)) = core s"
  by (auto simp: transition_defs split: system_power_state.splits)

lemma transitions_valid:
  "fst (app_pseq_transitionToS0 b e s) = allowed (current_state s) SYSTEM_S0_STATE"
  "fst (app_pseq_transitionToS0R b s) = allowed (current_state s) SYSTEM_S0_R_STATE"
  "fst (app_pseq_transitionToS3 b e s) = allowed (current_state s) SYSTEM_S3_STATE"
  "fst (app_pseq_transitionToS4 b s) = allowed (current_state s) SYSTEM_S4_STATE"
  "fst (app_pseq_transitionToS5 b e s) = allowed (current_state s) SYSTEM_S5_STATE"
  "fst (app_pseq_transitionToG3 b e s) = allowed (current_state s) SYSTEM_G3_STATE"
  by (auto simp: transition_defs allowed_def split: system_power_state.splits)

lemma update_core:
  "core (app_pseq_update b e s) =
     (if allowed (current_state s) (next_state s) then (next_state s, next_state s, pwrseq_failure s)
      else (current_state s, current_state s, pwrseq_failure s))"
proof -
  let ?s0 = "if next_state s \<noteq> SYSTEM_S0_STATE \<and> next_state s \<noteq> SYSTEM_S0_R_STATE then s\<lparr>s_pwrStHadS3 := False\<rparr> else s"
  obtain v s1 where t: "(case next_state ?s0 of
               SYSTEM_S0_STATE \<Rightarrow> app_pseq_transitionToS0 b e ?s0
             | SYSTEM_S0_R_STATE \<Rightarrow> app_pseq_transitionToS0R b ?s0
             | SYSTEM_S3_STATE \<Rightarrow> app_pseq_transitionToS3 b e ?s0
             | SYSTEM_S4_STATE \<Rightarrow> app_pseq_transitionToS4 b ?s0
             | SYSTEM_S5_STATE \<Rightarrow> app_pseq_transitionToS5 b e ?s0
             | SYSTEM_G3_STATE \<Rightarrow> app_pseq_transitionToG3 b e ?s0
             | SYSTEM_INIT_STATE \<Rightarrow> (False, ?s0)) = (v, s1)"
    by fastforce
  have s0: "core ?s0 = core s" "next_state ?s0 = next_state s" "current_state ?s0 = current_state s" by simp_all
  have c: "core s1 = core s"
    using arg_cong [OF t, of snd] s0 transitions_core [where s = ?s0 and b = b]
    by (cases "next_state s") (auto simp del: core_updates)
  have v: "v = allowed (current_state s) (next_state s)"
    using arg_cong [OF t, of fst] s0 transitions_valid [where s = ?s0 and b = b]
    by (cases "next_state s") (auto simp: allowed_def)
  have "app_pseq_update b e s = (if v then emit (Gpio_switching (next_state s1)) (s1\<lparr>current_state := next_state s1\<rparr>)
         else s1\<lparr>next_state := current_state s1\<rparr>)"
    unfolding app_pseq_update_def Let_def t by simp
  then show ?thesis using c v by (simp add: core_def emit_def)
qed

lemma setPwrStatus_core:
  "core (app_pseq_setPwrStatus b e pst s) =
     (if next_state s = pst then core s
      else if pst = current_state s \<or> pwrseq_failure s then (current_state s, pst, pwrseq_failure s)
      else if allowed (current_state s) pst then (pst, pst, False) else (current_state s, current_state s, False))"
  using update_core [of b e "s\<lparr>next_state := pst\<rparr>"]
  by (auto simp: app_pseq_setPwrStatus_def Let_def) (auto simp: core_def)

section \<open>Rails and resume reset\<close>

definition rails_ok :: "(pin \<Rightarrow> bool) \<Rightarrow> bool" where
  "rails_ok lvl \<longleftrightarrow> (lvl RSMRST_N \<longrightarrow> lvl EC_S5_PWREN \<and> lvl EC_1V8_S5_EN)"

text \<open>The pin levels after a list of calls, and that the rails are right after each single write.\<close>

definition level_step :: "call \<Rightarrow> (pin \<Rightarrow> bool) \<Rightarrow> pin \<Rightarrow> bool" where
  "level_step c lvl = (case c of Write p v \<Rightarrow> lvl(p := v) | _ \<Rightarrow> lvl)"

fun trace_ok :: "(pin \<Rightarrow> bool) \<Rightarrow> call list \<Rightarrow> bool" where
  "trace_ok lvl [] = rails_ok lvl"
| "trace_ok lvl (c # cs) = (rails_ok lvl \<and> trace_ok (level_step c lvl) cs)"

lemma trace_ok_snoc: "trace_ok lvl (cs @ [c]) \<longleftrightarrow> trace_ok lvl cs \<and> rails_ok (level_step c (fold level_step cs lvl))"
  by (induction cs arbitrary: lvl) (auto simp del: fun_upd_apply)

lemma trace_ok_final: "trace_ok lvl cs \<Longrightarrow> rails_ok (fold level_step cs lvl)"
  by (induction cs arbitrary: lvl) auto

text \<open>All writes so far kept the rails right, and the recorded writes explain the pin levels.\<close>

definition clean :: "(pin \<Rightarrow> bool) \<Rightarrow> pseq \<Rightarrow> bool" where
  "clean lvl s \<longleftrightarrow> trace_ok lvl (calls s) \<and> fold level_step (calls s) lvl = pins s"

lemma clean_rails: "clean lvl s \<Longrightarrow> rails_ok (pins s)"
  using trace_ok_final [of lvl "calls s"] by (simp add: clean_def)

lemma clean_write: "clean lvl s \<Longrightarrow> rails_ok ((pins s)(p := v)) \<Longrightarrow> clean lvl (gpio_write_pin p v s)"
  by (simp add: clean_def gpio_write_pin_def trace_ok_snoc level_step_def)

definition free_pin :: "pin \<Rightarrow> bool" where
  "free_pin p \<longleftrightarrow> p \<notin> {RSMRST_N, EC_S5_PWREN, EC_1V8_S5_EN}"

text \<open>From \<open>s\<close> to \<open>t\<close> none of the three pins changed and the record of writes stayed clean.\<close>

definition calm :: "pseq \<Rightarrow> pseq \<Rightarrow> bool" where
  "calm s t \<longleftrightarrow> (\<forall>lvl. clean lvl s \<longrightarrow> clean lvl t) \<and> (\<forall>p. \<not> free_pin p \<longrightarrow> pins t p = pins s p)"

lemma calm_refl [simp]: "calm s s"
  by (simp add: calm_def)

lemma calm_trans: "calm s t \<Longrightarrow> calm t u \<Longrightarrow> calm s u"
  by (simp add: calm_def)

lemma calm_emit [simp]: "calm s t \<Longrightarrow> (\<forall>p v. c \<noteq> Write p v) \<Longrightarrow> calm s (emit c t)"
proof (erule calm_trans)
  assume "\<forall>p v. c \<noteq> Write p v"
  then have l: "level_step c lvl = lvl" for lvl by (simp add: level_step_def split: call.split)
  have "clean lvl (emit c t)" if "clean lvl t" for lvl
    using that clean_rails [OF that] by (simp add: clean_def emit_def trace_ok_snoc l)
  then show "calm t (emit c t)" by (simp add: calm_def) (simp add: emit_def)
qed

lemma calm_write [simp]: "calm s t \<Longrightarrow> free_pin p \<Longrightarrow> calm s (gpio_write_pin p v t)"
proof (erule calm_trans)
  assume p: "free_pin p"
  have "clean lvl (gpio_write_pin p v t)" if c: "clean lvl t" for lvl
    using clean_rails [OF c] p by (intro clean_write [OF c]) (auto simp: rails_ok_def free_pin_def)
  then show "calm t (gpio_write_pin p v t)" using p by (auto simp: calm_def gpio_write_pin_def)
qed

lemma calm_if_do [simp]: "calm s t \<Longrightarrow> calm s (f t) \<Longrightarrow> calm s (if_do c f t)"
  by (simp add: if_do_def)

lemma calm_opt_write [simp]: "calm s t \<Longrightarrow> free_pin p \<Longrightarrow> calm s (opt_write b p v t)"
  by (simp add: opt_write_def)

lemma calm_actions [simp]:
  "calm s t \<Longrightarrow> calm s (set_sleep_ready v t)" "calm s t \<Longrightarrow> calm s (app_pseq_nextStep x d t)"
  by (simp_all add: calm_def clean_def set_sleep_ready_def app_pseq_nextStep_def)

lemma calm_updates [simp]:
  "calm s t \<Longrightarrow> calm s (t\<lparr>g_powerSeq_criticalZone := x1\<rparr>)" "calm s t \<Longrightarrow> calm s (t\<lparr>g_isUcsiCycleFinished := x1\<rparr>)"
  "calm s t \<Longrightarrow> calm s (t\<lparr>s_pwrStHadS3 := x1\<rparr>)" "calm s t \<Longrightarrow> calm s (t\<lparr>waie_syc_flag := x2\<rparr>)"
  "calm s t \<Longrightarrow> calm s (t\<lparr>g_auxD3Cold := x2, g_ui8MondernStandbySupport := x3, g_slideToShutdownEnabled := x4\<rparr>)"
  "calm s t \<Longrightarrow> calm s (t\<lparr>g_ui8PwrBtnVciFlag := x1\<rparr>)" "calm s t \<Longrightarrow> calm s (t\<lparr>s_slpS35WaitCnt := x5\<rparr>)"
  "calm s t \<Longrightarrow> calm s (t\<lparr>s_vrNeedG3 := x1\<rparr>)" "calm s t \<Longrightarrow> calm s (t\<lparr>init_espi := x1\<rparr>)"
  "calm s t \<Longrightarrow> calm s (t\<lparr>s_vrNeedG3_cnt := x2\<rparr>)" "calm s t \<Longrightarrow> calm s (t\<lparr>g_LPCAMM_PWR_EN := x1\<rparr>)"
  "calm s t \<Longrightarrow> calm s (t\<lparr>s_gotoG3WaitCnt := x5\<rparr>)" "calm s t \<Longrightarrow> calm s (t\<lparr>current_state := x6\<rparr>)"
  "calm s t \<Longrightarrow> calm s (t\<lparr>next_state := x6\<rparr>)" "calm s t \<Longrightarrow> calm s (t\<lparr>s_bootReason := x5\<rparr>)"
  "calm s t \<Longrightarrow> calm s (t\<lparr>s_last_pin_level := x1\<rparr>)" "calm s t \<Longrightarrow> calm s (t\<lparr>s_vrNeedG3 := x1, s_vrNeedG3_cnt := x2\<rparr>)"
  "calm s t \<Longrightarrow> calm s (t\<lparr>g_ui32_pwrBtnMissCnt := x5, s_slpS35WaitCnt := x7\<rparr>)"
  "calm s t \<Longrightarrow> calm s (t\<lparr>g_pwrSeqDelay := x5, g_pwrSeqExpired := x1\<rparr>)"
  by (simp_all add: calm_def clean_def)

lemma free_pins [simp]:
  "p \<notin> {RSMRST_N, EC_S5_PWREN, EC_1V8_S5_EN} \<Longrightarrow> free_pin p"
  by (simp add: free_pin_def)

lemma calm_blocks [simp]:
  "calm s t \<Longrightarrow> calm s (app_pseq_exitS0 b t)" "calm s t \<Longrightarrow> calm s (charger_prochot b t)"
  "calm s t \<Longrightarrow> calm s (ccgx_update b e p t)" "calm s t \<Longrightarrow> calm s (finish_ucsi b t)"
  by (simp_all add: app_pseq_exitS0_def charger_prochot_def ccgx_update_def finish_ucsi_def)

lemma transitions_calm [simp]:
  "calm s t \<Longrightarrow> calm s (snd (app_pseq_transitionToS0 b e t))" "calm s t \<Longrightarrow> calm s (snd (app_pseq_transitionToS0R b t))"
  "calm s t \<Longrightarrow> calm s (snd (app_pseq_transitionToS3 b e t))" "calm s t \<Longrightarrow> calm s (snd (app_pseq_transitionToS4 b t))"
  "calm s t \<Longrightarrow> calm s (snd (app_pseq_transitionToS5 b e t))" "calm s t \<Longrightarrow> calm s (snd (app_pseq_transitionToG3 b e t))"
  by (auto simp: transition_defs split: system_power_state.splits)

lemma calm_setPwrStatus [simp]: "calm s t \<Longrightarrow> calm s (app_pseq_setPwrStatus b e pst t)"
  by (auto simp: app_pseq_setPwrStatus_def app_pseq_update_def Let_def case_prod_beta split: system_power_state.splits)

text \<open>The levels of the three pins and the record after each kind of action.\<close>

lemma pins_simps [simp]:
  "pins (emit c s) = pins s" "pins (set_sleep_ready v s) = pins s" "pins (app_pseq_nextStep x d s) = pins s"
  "pins (gpio_write_pin p v s) = (pins s)(p := v)"
  "pins (opt_write b p v s) q = (if has_pin b p \<and> p = q then v else pins s q)"
  "pins (if_do cond f s) q = (if cond then pins (f s) q else pins s q)"
  by (auto simp: action_defs app_pseq_nextStep_def)

lemma pins_setPwrStatus [simp]:
  "pins (app_pseq_setPwrStatus b e pst s) RSMRST_N = pins s RSMRST_N"
  "pins (app_pseq_setPwrStatus b e pst s) EC_S5_PWREN = pins s EC_S5_PWREN"
  "pins (app_pseq_setPwrStatus b e pst s) EC_1V8_S5_EN = pins s EC_1V8_S5_EN"
  using calm_setPwrStatus [OF calm_refl, of s b e pst] by (simp_all add: calm_def free_pin_def)

lemma clean_calm: "calm s t \<Longrightarrow> clean lvl s \<Longrightarrow> clean lvl t"
  by (simp add: calm_def)

lemma clean_rail_writes [simp]:
  "clean lvl s \<Longrightarrow> clean lvl (gpio_write_pin RSMRST_N False s)"
  "clean lvl s \<Longrightarrow> clean lvl (gpio_write_pin EC_S5_PWREN True s)"
  "clean lvl s \<Longrightarrow> clean lvl (gpio_write_pin EC_1V8_S5_EN True s)"
  "clean lvl s \<Longrightarrow> \<not> pins s RSMRST_N \<Longrightarrow> clean lvl (gpio_write_pin EC_S5_PWREN False s)"
  "clean lvl s \<Longrightarrow> \<not> pins s RSMRST_N \<Longrightarrow> clean lvl (gpio_write_pin EC_1V8_S5_EN False s)"
  "clean lvl s \<Longrightarrow> pins s EC_S5_PWREN \<Longrightarrow> pins s EC_1V8_S5_EN \<Longrightarrow> clean lvl (gpio_write_pin RSMRST_N True s)"
  using clean_rails [of lvl s] by (auto intro!: clean_write simp: rails_ok_def)

lemma clean_other [simp]:
  "clean lvl s \<Longrightarrow> (\<forall>p v. c \<noteq> Write p v) \<Longrightarrow> clean lvl (emit c s)"
  "clean lvl s \<Longrightarrow> free_pin p \<Longrightarrow> clean lvl (gpio_write_pin p v s)"
  "clean lvl s \<Longrightarrow> free_pin p \<Longrightarrow> clean lvl (opt_write b p v s)"
  "clean lvl s \<Longrightarrow> clean lvl (f s) \<Longrightarrow> clean lvl (if_do cond f s)"
  "clean lvl s \<Longrightarrow> clean lvl (app_pseq_nextStep x d s)"
  "clean lvl s \<Longrightarrow> clean lvl (set_sleep_ready v' s)"
  "clean lvl s \<Longrightarrow> clean lvl (app_pseq_setPwrStatus b e pst s)"
  by (auto elim!: clean_calm [rotated] simp: if_do_def)

lemma stage_simps [simp]:
  "next_stage (emit c s) = next_stage s" "next_stage (set_sleep_ready v s) = next_stage s"
  "next_stage (gpio_write_pin p v s) = next_stage s" "next_stage (opt_write b p v s) = next_stage s"
  "next_stage (if_do cond f s) = (if cond then next_stage (f s) else next_stage s)"
  "next_stage (app_pseq_nextStep x d s) = (if x = STATE_NO_CHANGE then next_stage s else x)"
  by (simp_all add: action_defs app_pseq_nextStep_def)

lemma stage_blocks [simp]:
  "next_stage (app_pseq_exitS0 b s) = next_stage s" "next_stage (charger_prochot b s) = next_stage s"
  "next_stage (ccgx_update b e p s) = next_stage s" "next_stage (finish_ucsi b s) = next_stage s"
  by (simp_all add: app_pseq_exitS0_def charger_prochot_def ccgx_update_def finish_ucsi_def)

lemma transitions_stage:
  "next_stage (snd (app_pseq_transitionToS0 b e s)) = next_stage s" "next_stage (snd (app_pseq_transitionToS0R b s)) = next_stage s"
  "next_stage (snd (app_pseq_transitionToS3 b e s)) = next_stage s" "next_stage (snd (app_pseq_transitionToS4 b s)) = next_stage s"
  "next_stage (snd (app_pseq_transitionToS5 b e s)) = next_stage s"
  "next_stage (snd (app_pseq_transitionToG3 b e s)) \<in> {next_stage s, FROM_G3_TO_S0}"
  by (auto simp: transition_defs split: system_power_state.splits)

lemma setPwrStatus_stage: "next_stage (app_pseq_setPwrStatus b e pst s) \<in> {next_stage s, FROM_G3_TO_S0}"
  using transitions_stage(6) [of b e "s\<lparr>next_state := SYSTEM_G3_STATE, s_pwrStHadS3 := False\<rparr>"]
  by (cases pst) (auto simp: app_pseq_setPwrStatus_def app_pseq_update_def Let_def case_prod_beta transitions_stage(1-5))

section \<open>The invariant of the stages\<close>

definition reset_low_stages :: "system_power_seq_stage set" where
  "reset_low_stages = {FROM_S5_TO_G3_Part2, FROM_S5_TO_G3_Part3, FORCE_G3_Part2, FORCE_G3_Part3, FORCE_RESET,
     FORCE_RESET_Part1, FORCE_RESET_Part2, FORCE_RESET_G3_TO_S5, PWRGD_ASSERTED_IN_DC_MODE, RELEASE_RSMRST_IN_DC_MODE}"

definition rails_on_stages :: "system_power_seq_stage set" where
  "rails_on_stages = {RELEASE_RSMRST, RELEASE_RSMRST_IN_DC_MODE, FORCE_RESET_PWRGD_ASSERTED}"

definition pseq_inv :: "(pin \<Rightarrow> bool) \<Rightarrow> pseq \<Rightarrow> bool" where
  "pseq_inv lvl s \<longleftrightarrow> clean lvl s \<and> (next_stage s \<in> reset_low_stages \<longrightarrow> \<not> pins s RSMRST_N) \<and>
     (next_stage s \<in> rails_on_stages \<longrightarrow> pins s EC_S5_PWREN \<and> pins s EC_1V8_S5_EN)"

lemma FROM_G3_TO_S0_plain: "FROM_G3_TO_S0 \<notin> reset_low_stages" "FROM_G3_TO_S0 \<notin> rails_on_stages"
  by (simp_all add: reset_low_stages_def rails_on_stages_def)

lemma inv_setPwrStatus [simp]: "pseq_inv lvl s \<Longrightarrow> pseq_inv lvl (app_pseq_setPwrStatus b e pst s)"
  using setPwrStatus_stage [of b e pst s] FROM_G3_TO_S0_plain by (auto simp: pseq_inv_def)

lemma clean_updates [simp]:
  "clean lvl (s\<lparr>s_slpS35WaitCnt := x5\<rparr>) = clean lvl s" "clean lvl (s\<lparr>s_vrNeedG3 := x1\<rparr>) = clean lvl s"
  "clean lvl (s\<lparr>init_espi := x1\<rparr>) = clean lvl s" "clean lvl (s\<lparr>s_vrNeedG3_cnt := x2\<rparr>) = clean lvl s"
  "clean lvl (s\<lparr>s_vrNeedG3 := x1, s_vrNeedG3_cnt := x2\<rparr>) = clean lvl s"
  "clean lvl (s\<lparr>g_LPCAMM_PWR_EN := x1\<rparr>) = clean lvl s"
  "clean lvl (s\<lparr>g_ui32_pwrBtnMissCnt := x5\<rparr>) = clean lvl s"
  "clean lvl (s\<lparr>g_pwrSeqDelay := x5, g_pwrSeqExpired := x1\<rparr>) = clean lvl s"
  "clean lvl (s\<lparr>s_gotoG3WaitCnt := x5\<rparr>) = clean lvl s" "clean lvl (s\<lparr>s_bootReason := x5\<rparr>) = clean lvl s"
  "clean lvl (s\<lparr>s_last_pin_level := x1\<rparr>) = clean lvl s"
  by (simp_all add: clean_def)

text \<open>The blocks between the writes of the rails.\<close>

lemma vr_blocks_calm [simp]:
  "calm s t \<Longrightarrow> calm s (vr_espi_init b e t)" "calm s t \<Longrightarrow> calm s (vr_count t)" "calm s t \<Longrightarrow> calm s (vr_done b t)"
  "calm s t \<Longrightarrow> calm s (S5_devices_init b t)" "calm s t \<Longrightarrow> calm s (opt_S5_rails b v t)"
  by (simp_all add: vr_espi_init_def vr_count_def vr_done_def S5_devices_init_def opt_S5_rails_def)

lemma vr_blocks_stage [simp]:
  "next_stage (vr_espi_init b e s) = next_stage s" "next_stage (vr_count s) = next_stage s" "next_stage (vr_done b s) = next_stage s"
  "next_stage (S5_devices_init b s) = next_stage s" "next_stage (opt_S5_rails b v s) = next_stage s"
  by (simp_all add: vr_espi_init_def vr_count_def vr_done_def S5_devices_init_def opt_S5_rails_def)

lemma calm_pins:
  assumes "calm s t"
  shows "pins t RSMRST_N = pins s RSMRST_N" "pins t EC_S5_PWREN = pins s EC_S5_PWREN"
    "pins t EC_1V8_S5_EN = pins s EC_1V8_S5_EN"
  using assms by (simp_all add: calm_def free_pin_def)

lemmas vr_blocks_pins [simp] =
  calm_pins [OF vr_blocks_calm(1) [OF calm_refl]] calm_pins [OF vr_blocks_calm(2) [OF calm_refl]]
  calm_pins [OF vr_blocks_calm(3) [OF calm_refl]] calm_pins [OF vr_blocks_calm(4) [OF calm_refl]]
  calm_pins [OF vr_blocks_calm(5) [OF calm_refl]]

lemmas vr_blocks_clean [simp] =
  clean_calm [OF vr_blocks_calm(1) [OF calm_refl]] clean_calm [OF vr_blocks_calm(2) [OF calm_refl]]
  clean_calm [OF vr_blocks_calm(3) [OF calm_refl]] clean_calm [OF vr_blocks_calm(4) [OF calm_refl]]
  clean_calm [OF vr_blocks_calm(5) [OF calm_refl]]

text \<open>The invariant after the last action of a stage.\<close>

lemma inv_nextStep:
  "x \<noteq> STATE_NO_CHANGE \<Longrightarrow> pseq_inv lvl (app_pseq_nextStep x d s) \<longleftrightarrow>
     clean lvl (app_pseq_nextStep x d s) \<and> (x \<in> reset_low_stages \<longrightarrow> \<not> pins s RSMRST_N) \<and>
     (x \<in> rails_on_stages \<longrightarrow> pins s EC_S5_PWREN \<and> pins s EC_1V8_S5_EN)"
  by (simp add: pseq_inv_def)

lemma inv_plain_stage:
  "next_stage s \<notin> reset_low_stages \<Longrightarrow> next_stage s \<notin> rails_on_stages \<Longrightarrow> pseq_inv lvl s \<longleftrightarrow> clean lvl s"
  by (simp add: pseq_inv_def)

lemmas stage_sets = reset_low_stages_def rails_on_stages_def

lemma release_inv:
  assumes "pseq_inv lvl s" "next_stage s = RELEASE_RSMRST"
  shows "pseq_inv lvl (release_rsmrst b e s)"
proof -
  let ?t = "gpio_write_pin RSMRST_N True (vr_done b (vr_espi_init b e s))"
  have r: "clean lvl s" "pins s EC_S5_PWREN" "pins s EC_1V8_S5_EN" using assms by (simp_all add: pseq_inv_def stage_sets)
  then have "clean lvl ?t" by simp
  with assms(2) r have "pseq_inv lvl ?t" by (simp add: pseq_inv_def stage_sets)
  then have "pseq_inv lvl (app_pseq_setPwrStatus b e SYSTEM_S5_STATE ?t)" by simp
  then show ?thesis using r
    by (auto simp: release_rsmrst_def Let_def if_do_def inv_nextStep) (auto simp: pseq_inv_def stage_sets)
qed

lemmas group_defs = stage_g3_up_def stage_s5_g3_def stage_to_s0_def stage_from_s0_def stage_force_def

lemma release_dc_inv:
  assumes "pseq_inv lvl s" "next_stage s = RELEASE_RSMRST_IN_DC_MODE"
  shows "pseq_inv lvl (release_rsmrst_in_dc_mode b e s)"
  using assms by (auto simp: release_rsmrst_in_dc_mode_def Let_def inv_nextStep) (auto simp: pseq_inv_def stage_sets)

lemma StateMachine_inv:
  assumes "pseq_inv lvl s"
  shows "pseq_inv lvl (app_pseq_StateMachine b e s)"
proof (cases "next_stage s")
  case RELEASE_RSMRST
  then show ?thesis using release_inv [OF assms] by (simp add: app_pseq_StateMachine_def group_defs)
next
  case RELEASE_RSMRST_IN_DC_MODE
  then show ?thesis using release_dc_inv [OF assms] by (simp add: app_pseq_StateMachine_def group_defs)
next
  case FROM_S5_TO_G3_Part3
  then have "pseq_inv lvl (gpio_write_pin EC_S5_PWREN False s)" using assms by (simp add: pseq_inv_def stage_sets)
  then show ?thesis using FROM_S5_TO_G3_Part3 by (simp add: app_pseq_StateMachine_def group_defs)
next
  case FORCE_RESET_G3_TO_S5
  then show ?thesis using assms
    by (simp add: app_pseq_StateMachine_def group_defs S5_rails_on_def wait_S5_power_good_def pseq_inv_def stage_sets)
qed (use assms in \<open>auto simp: app_pseq_StateMachine_def group_defs S5_rails_on_def wait_S5_power_good_def
  into_s0r_def wait_slp_def Let_def inv_nextStep stage_sets pseq_inv_def [of _ s] inv_plain_stage
  intro!: inv_setPwrStatus\<close>)

lemma inv_updates [simp]:
  "pseq_inv lvl (s\<lparr>g_pwrSeqDelay := x5, g_pwrSeqExpired := x1\<rparr>) = pseq_inv lvl s"
  "pseq_inv lvl (s\<lparr>s_gotoG3WaitCnt := x5\<rparr>) = pseq_inv lvl s" "pseq_inv lvl (s\<lparr>s_bootReason := x5\<rparr>) = pseq_inv lvl s"
  "pseq_inv lvl (s\<lparr>s_last_pin_level := x1\<rparr>) = pseq_inv lvl s" "pseq_inv lvl (set_sleep_ready v s) = pseq_inv lvl s"
  by (simp_all add: pseq_inv_def set_sleep_ready_def) (simp_all add: clean_def)

lemma inv_emit [simp]: "pseq_inv lvl s \<Longrightarrow> (\<forall>p v. c \<noteq> Write p v) \<Longrightarrow> pseq_inv lvl (emit c s)"
  by (simp add: pseq_inv_def)

text \<open>A request for a stage that the invariant does not constrain.\<close>

lemma inv_request [simp]:
  "pseq_inv lvl s \<Longrightarrow> x \<notin> reset_low_stages \<Longrightarrow> x \<notin> rails_on_stages \<Longrightarrow> pseq_inv lvl (app_pseq_nextStep x d s)"
  by (auto simp: pseq_inv_def)

lemma inv_if_do [simp]: "pseq_inv lvl s \<Longrightarrow> pseq_inv lvl (f s) \<Longrightarrow> pseq_inv lvl (if_do cond f s)"
  by (simp add: if_do_def)

lemma stateMonitor_inv:
  assumes "pseq_inv lvl s"
  shows "pseq_inv lvl (app_pseq_stateMonitor b e s)"
proof -
  have tsi: "pseq_inv lvl (app_sb_tsi_monitor b e t)" if "pseq_inv lvl t" for t
    using that by (simp add: app_sb_tsi_monitor_def) (simp add: pseq_inv_def)
  have "pseq_inv lvl (monitor_g3 b e t)" "pseq_inv lvl (monitor_s5 b e t)" if "pseq_inv lvl t" for t
    using that by (simp_all add: monitor_g3_def monitor_s5_def stage_sets Let_def)
  then show ?thesis using assms tsi
    by (simp add: app_pseq_stateMonitor_def Let_def stage_sets split: system_power_state.split)
qed

section \<open>All runs of the power sequencing\<close>

text \<open>
  The stages other modules request: thermal protection, the host, the power button and the
  wireless manageability. \<open>requests\<close> is what a handler asks for in one call.
\<close>

definition external_stages :: "system_power_seq_stage set" where
  "external_stages = {FORCE_G3, FROM_S5S3_TO_S0, FROM_G3_TO_S0}"

definition requests :: "(system_power_seq_stage \<times> u32) list \<Rightarrow> pseq \<Rightarrow> pseq" where
  "requests rs = fold (\<lambda>(x, d). app_pseq_nextStep x d) rs"

text \<open>
  Between two boots the controller either runs or is being reset by \<open>app_btn_ecReset\<close>, which holds
  it for a second and reboots. \<open>interrupted n\<close> is what the pins and the record of calls are when a
  pass was cut short after \<open>n\<close> calls; \<open>lvl\<close> are the levels at the start of the thread.
\<close>

datatype config = Running pseq | Resetting pseq

definition levels :: "(pin \<Rightarrow> bool) \<Rightarrow> call list \<Rightarrow> pin \<Rightarrow> bool" where
  "levels lvl cs = fold level_step cs lvl"

definition interrupted :: "(pin \<Rightarrow> bool) \<Rightarrow> nat \<Rightarrow> pseq \<Rightarrow> pseq" where
  "interrupted lvl n t = t\<lparr>calls := take n (calls t), pins := levels lvl (take n (calls t))\<rparr>"

text \<open>The state at reset: everything zero, the resume reset asserted.\<close>

definition pseq_reset :: pseq where
  "pseq_reset = \<lparr>pwrseq_failure = False, init_espi = False, current_state = SYSTEM_INIT_STATE,
     next_state = SYSTEM_INIT_STATE, next_stage = POWER_INIT, s_slpS35WaitCnt = 0, s_gotoG3WaitCnt = 0,
     s_pwrStHadS3 = False, s_vrNeedG3 = False, s_vrNeedG3_cnt = 0, g_ui32_pwrBtnMissCnt = 0, g_pwrSeqDelay = 0,
     g_pwrSeqExpired = False, boot_mode_maf = False, g_ui8PwrBtnVciFlag = False, g_auxD3Cold = 0,
     g_LPCAMM_PWR_EN = False, g_ui8MondernStandbySupport = False, g_slideToShutdownEnabled = False,
     g_isUcsiCycleFinished = True, waie_syc_flag = 0, g_powerSeq_criticalZone = False, s_bootReason = 0,
     s_last_pin_level = False, sleep_ready = True, delay_timer = None, pins = (\<lambda>_. False), calls = []\<rparr>"

text \<open>
  The start of the thread. The board initialisation before it leaves the resume reset asserted;
  the other levels depend on the board.
\<close>

definition pseq_boot :: "(pin \<Rightarrow> bool) \<Rightarrow> boot_config_mode \<Rightarrow> pseq" where
  "pseq_boot lvl mode = app_pseq_task_init mode (pseq_reset\<lparr>pins := lvl\<rparr>)"

text \<open>
  The steps. A reset by \<open>app_btn_ecReset\<close> comes between the other steps (the button held for 16
  seconds, a press with firmware that does not match) or cuts a pass short, after any of its calls:
  the timer is an interrupt, and the probe of the button in the middle of the pass checks the
  firmware too. A reset ends with the next boot.
\<close>

inductive pseq_step :: "board \<Rightarrow> (pin \<Rightarrow> bool) \<Rightarrow> config \<Rightarrow> config \<Rightarrow> bool" for b lvl where
  Timer: "delay_timer s = Some d \<Longrightarrow>
     pseq_step b lvl (Running s) (Running (app_pseq_delayCallback (s\<lparr>delay_timer := None\<rparr>)))"
| Pass: "fst ` set rs \<subseteq> external_stages \<Longrightarrow>
     pseq_step b lvl (Running s) (Running (app_pseq_pass b (requests rs) e e' s))"
| Request: "x \<in> external_stages \<Longrightarrow> pseq_step b lvl (Running s) (Running (app_pseq_nextStep x d s))"
| Wire: "pseq_step b lvl (Running s) (Running (app_pseq_slp_handler signal status s))"
| Error: "pseq_step b lvl (Running s) (Running (app_pseq_error b code s))"
| Flags: "pseq_step b lvl (Running s) (Running (s\<lparr>g_ui8PwrBtnVciFlag := v, g_auxD3Cold := a,
     g_ui8MondernStandbySupport := ms, g_slideToShutdownEnabled := sl, g_isUcsiCycleFinished := u, waie_syc_flag := w,
     g_powerSeq_criticalZone := z\<rparr>))"
| Ec_reset: "pseq_step b lvl (Running s) (Resetting (ec_reset s))"
| Pass_reset: "fst ` set rs \<subseteq> external_stages \<Longrightarrow> length (calls s) \<le> n \<Longrightarrow>
     pseq_step b lvl (Running s) (Resetting (ec_reset (interrupted lvl n (app_pseq_pass b (requests rs) e e' s))))"
| Restart: "pseq_step b lvl (Resetting s) (Running (pseq_boot lvl mode))"

inductive reachable :: "board \<Rightarrow> (pin \<Rightarrow> bool) \<Rightarrow> config \<Rightarrow> bool" for b lvl where
  Start: "reachable b lvl (Running (pseq_boot lvl mode))"
| Step: "reachable b lvl s \<Longrightarrow> pseq_step b lvl s t \<Longrightarrow> reachable b lvl t"

lemma inv_external [simp]: "pseq_inv lvl s \<Longrightarrow> x \<in> external_stages \<Longrightarrow> pseq_inv lvl (app_pseq_nextStep x d s)"
  by (rule inv_request) (auto simp: external_stages_def stage_sets)

lemma requests_inv: "pseq_inv lvl s \<Longrightarrow> fst ` set rs \<subseteq> external_stages \<Longrightarrow> pseq_inv lvl (requests rs s)"
  by (induction rs arbitrary: s) (auto simp: requests_def)

lemma pass_inv:
  assumes "pseq_inv lvl s" "fst ` set rs \<subseteq> external_stages"
  shows "pseq_inv lvl (app_pseq_pass b (requests rs) e e' s)"
  using assms by (simp add: app_pseq_pass_def Let_def StateMachine_inv stateMonitor_inv requests_inv)

lemma inv_fields:
  "pins t = pins s \<Longrightarrow> calls t = calls s \<Longrightarrow> next_stage t = next_stage s \<Longrightarrow> pseq_inv lvl s \<Longrightarrow> pseq_inv lvl t"
  by (simp add: pseq_inv_def clean_def)

lemma slp_handler_fields:
  "pins (app_pseq_slp_handler signal status s) = pins s" "calls (app_pseq_slp_handler signal status s) = calls s"
  "next_stage (app_pseq_slp_handler signal status s) = next_stage s"
  by (simp_all add: app_pseq_slp_handler_def split: system_power_state.split vwire.split)

lemma boot_inv: "\<not> lvl RSMRST_N \<Longrightarrow> pseq_inv lvl (pseq_boot lvl mode)"
  by (cases mode) (simp_all add: pseq_boot_def app_pseq_task_init_def handle_spi_sharing_def app_pseq_nextStep_def emit_def
      pseq_reset_def pseq_inv_def clean_def rails_ok_def level_step_def stage_sets)

text \<open>What a reset leaves: the order was right up to its write, which breaks it if the resume reset is high.\<close>

definition reset_trace :: "(pin \<Rightarrow> bool) \<Rightarrow> pseq \<Rightarrow> bool" where
  "reset_trace lvl s \<longleftrightarrow> (\<exists>cs. calls s = cs @ [Write EC_1V8_S5_EN False, Busy_wait_1s, Reboot_cold] \<and>
     trace_ok lvl cs \<and> pins s = (levels lvl cs)(EC_1V8_S5_EN := False))"

lemma ec_reset_trace: "clean lvl s \<Longrightarrow> reset_trace lvl (ec_reset s)"
  by (auto simp: reset_trace_def ec_reset_def emit_def gpio_write_pin_def clean_def levels_def)

lemma trace_ok_take: "trace_ok lvl cs \<Longrightarrow> trace_ok lvl (take n cs)"
  by (induction cs arbitrary: lvl n) (auto simp: take_Cons split: nat.split)

lemma interrupted_clean: "clean lvl t \<Longrightarrow> clean lvl (interrupted lvl n t)"
  by (simp add: clean_def interrupted_def levels_def trace_ok_take)

definition config_inv :: "(pin \<Rightarrow> bool) \<Rightarrow> config \<Rightarrow> bool" where
  "config_inv lvl c = (case c of Running s \<Rightarrow> pseq_inv lvl s | Resetting s \<Rightarrow> reset_trace lvl s)"

lemma config_inv_simps [simp]:
  "config_inv lvl (Running s) = pseq_inv lvl s" "config_inv lvl (Resetting s) = reset_trace lvl s"
  by (simp_all add: config_inv_def)

lemma inv_clean: "pseq_inv lvl s \<Longrightarrow> clean lvl s"
  by (simp add: pseq_inv_def)

lemma pseq_step_inv: "pseq_step b lvl s t \<Longrightarrow> \<not> lvl RSMRST_N \<Longrightarrow> config_inv lvl s \<Longrightarrow> config_inv lvl t"
proof (induction rule: pseq_step.induct)
  case (Timer s d)
  then have i: "pseq_inv lvl s" by simp
  show ?case unfolding config_inv_simps by (rule inv_fields [OF _ _ _ i]) (simp_all add: app_pseq_delayCallback_def)
next
  case (Wire s signal status)
  then have i: "pseq_inv lvl s" by simp
  show ?case unfolding config_inv_simps by (rule inv_fields [OF _ _ _ i]) (simp_all add: slp_handler_fields)
next
  case (Error s code)
  then have i: "pseq_inv lvl s" by simp
  have "pseq_inv lvl (s\<lparr>pwrseq_failure := True\<rparr>)" by (rule inv_fields [OF _ _ _ i]) simp_all
  then show ?case by (simp add: app_pseq_error_def)
next
  case (Flags s v a ms sl u w z)
  then have i: "pseq_inv lvl s" by simp
  show ?case unfolding config_inv_simps by (rule inv_fields [OF _ _ _ i]) simp_all
next
  case (Ec_reset s)
  then show ?case by (simp add: ec_reset_trace inv_clean)
next
  case (Pass_reset rs s n e e')
  then show ?case by (simp add: ec_reset_trace interrupted_clean inv_clean pass_inv)
qed (simp_all add: pass_inv boot_inv)

lemma reachable_inv: "reachable b lvl c \<Longrightarrow> \<not> lvl RSMRST_N \<Longrightarrow> config_inv lvl c"
proof (induction rule: reachable.induct)
  case (Step s t)
  then show ?case using pseq_step_inv by blast
qed (simp add: boot_inv)

end
