(* ===== verification/Pseq_Props.thy ===== *)
theory Pseq_Props
  imports Pseq_Inv
begin

text \<open>
  Properties of the power sequencing: refinement of the transition table, the order of rails and
  reset, the path from reset to S0, the bounded waits, and the two situations in which the
  recorded system state and the rails part for good.
\<close>

section \<open>Control fields\<close>

text \<open>The fields that time the stages.\<close>

definition ctl :: "pseq \<Rightarrow> system_power_seq_stage \<times> u32 \<times> u32 option \<times> bool \<times> bool \<times> u32" where
  "ctl s = (next_stage s, g_pwrSeqDelay s, delay_timer s, g_pwrSeqExpired s, g_ui8PwrBtnVciFlag s, s_bootReason s)"

lemma ctl_actions [simp]:
  "ctl (emit c s) = ctl s" "ctl (gpio_write_pin p v s) = ctl s" "ctl (opt_write b p v s) = ctl s"
  "ctl (set_sleep_ready v s) = ctl s"
  by (simp_all add: ctl_def action_defs)

lemma ctl_if_do [simp]: "ctl (f s) = ctl s \<Longrightarrow> ctl (if_do c f s) = ctl s"
  by (simp add: if_do_def)

lemma ctl_updates [simp]:
  "ctl (s\<lparr>g_powerSeq_criticalZone := x1\<rparr>) = ctl s" "ctl (s\<lparr>g_isUcsiCycleFinished := x1\<rparr>) = ctl s"
  "ctl (s\<lparr>s_pwrStHadS3 := x1\<rparr>) = ctl s" "ctl (s\<lparr>waie_syc_flag := x2\<rparr>) = ctl s"
  "ctl (s\<lparr>g_auxD3Cold := x2, g_ui8MondernStandbySupport := x3, g_slideToShutdownEnabled := x4\<rparr>) = ctl s"
  "ctl (s\<lparr>s_slpS35WaitCnt := x5\<rparr>) = ctl s" "ctl (s\<lparr>s_vrNeedG3 := x1\<rparr>) = ctl s" "ctl (s\<lparr>init_espi := x1\<rparr>) = ctl s"
  "ctl (s\<lparr>s_vrNeedG3_cnt := x2\<rparr>) = ctl s" "ctl (s\<lparr>g_LPCAMM_PWR_EN := x1\<rparr>) = ctl s"
  "ctl (s\<lparr>s_gotoG3WaitCnt := x5\<rparr>) = ctl s" "ctl (s\<lparr>current_state := x6\<rparr>) = ctl s" "ctl (s\<lparr>next_state := x6\<rparr>) = ctl s"
  by (simp_all add: ctl_def)

lemma ctl_blocks [simp]:
  "ctl (app_pseq_exitS0 b s) = ctl s" "ctl (charger_prochot b s) = ctl s" "ctl (ccgx_update b e p s) = ctl s"
  "ctl (finish_ucsi b s) = ctl s" "ctl (opt_S5_rails b v s) = ctl s" "ctl (S5_rails_on b s) = ctl s"
  "ctl (S5_devices_init b s) = ctl s" "ctl (vr_espi_init b e s) = ctl s" "ctl (vr_done b s) = ctl s"
  by (simp_all add: app_pseq_exitS0_def charger_prochot_def ccgx_update_def finish_ucsi_def opt_S5_rails_def S5_rails_on_def
      S5_devices_init_def vr_espi_init_def vr_done_def)

lemma core_S5_blocks [simp]:
  "core (opt_S5_rails b v s) = core s" "core (S5_rails_on b s) = core s"
  "core (S5_devices_init b s) = core s" "core (vr_espi_init b e s) = core s" "core (vr_done b s) = core s"
  by (simp_all add: opt_S5_rails_def S5_rails_on_def S5_devices_init_def vr_espi_init_def vr_done_def)

lemma transitions_ctl:
  "ctl (snd (app_pseq_transitionToS0 b e s)) = ctl s" "ctl (snd (app_pseq_transitionToS0R b s)) = ctl s"
  "ctl (snd (app_pseq_transitionToS3 b e s)) = ctl s" "ctl (snd (app_pseq_transitionToS4 b s)) = ctl s"
  "ctl (snd (app_pseq_transitionToS5 b e s)) = ctl s"
  "\<not> g_ui8PwrBtnVciFlag s \<Longrightarrow> ctl (snd (app_pseq_transitionToG3 b e s)) = ctl s"
proof -
  have vci: "g_ui8PwrBtnVciFlag t = g_ui8PwrBtnVciFlag u" if "ctl t = ctl u" for t u
    using that by (simp add: ctl_def)
  show "ctl (snd (app_pseq_transitionToG3 b e s)) = ctl s" if "\<not> g_ui8PwrBtnVciFlag s"
    using that by (auto simp: app_pseq_transitionToG3_def if_do_def [of "g_ui8PwrBtnVciFlag _"] dest: vci [THEN iffD1, rotated]
      split: system_power_state.splits)
qed (auto simp: transition_defs split: system_power_state.splits)

lemma setPwrStatus_ctl [simp]: "\<not> g_ui8PwrBtnVciFlag s \<Longrightarrow> ctl (app_pseq_setPwrStatus b e pst s) = ctl s"
  by (cases pst) (simp_all add: app_pseq_setPwrStatus_def app_pseq_update_def Let_def case_prod_beta transitions_ctl)

lemma nextStep_ctl [simp]:
  "ctl (app_pseq_nextStep x d s) =
     (if x = STATE_NO_CHANGE then next_stage s else x, d, Some d, g_pwrSeqExpired s, g_ui8PwrBtnVciFlag s,
      s_bootReason s)"
  by (simp add: ctl_def app_pseq_nextStep_def)

lemma block_pins [simp]:
  "p \<noteq> EC_APU_PROCHOT_N \<Longrightarrow> pins (app_pseq_exitS0 b s) p = pins s p" "pins (charger_prochot b s) p = pins s p"
  "pins (ccgx_update b e st' s) p = pins s p" "pins (finish_ucsi b s) p = pins s p"
  by (simp_all add: app_pseq_exitS0_def charger_prochot_def ccgx_update_def finish_ucsi_def)

lemma transitions_pins:
  assumes "p \<noteq> EC_APU_PROCHOT_N" "p \<noteq> EC_FPR_OP_BOOT_LOGIN_N"
  shows "pins (snd (app_pseq_transitionToS0 b e s)) p = pins s p" "pins (snd (app_pseq_transitionToS0R b s)) p = pins s p"
    "pins (snd (app_pseq_transitionToS3 b e s)) p = pins s p" "pins (snd (app_pseq_transitionToS4 b s)) p = pins s p"
    "pins (snd (app_pseq_transitionToS5 b e s)) p = pins s p" "pins (snd (app_pseq_transitionToG3 b e s)) p = pins s p"
  using assms by (auto simp: transition_defs split: system_power_state.splits)

lemma setPwrStatus_pins [simp]:
  assumes "p \<noteq> EC_APU_PROCHOT_N" "p \<noteq> EC_FPR_OP_BOOT_LOGIN_N"
  shows "pins (app_pseq_setPwrStatus b e pst s) p = pins s p"
  by (cases pst) (simp_all add: app_pseq_setPwrStatus_def app_pseq_update_def Let_def case_prod_beta transitions_pins [OF assms])

text \<open>The delay timer fires, if it is armed, and the thread makes a pass.\<close>

definition tick :: "board \<Rightarrow> env \<Rightarrow> pseq \<Rightarrow> pseq" where
  "tick b e s = app_pseq_pass b id e e
     (if delay_timer s = None then s else app_pseq_delayCallback (s\<lparr>delay_timer := None\<rparr>))"

definition fired :: "pseq \<Rightarrow> pseq" where
  "fired s = s\<lparr>delay_timer := None, g_pwrSeqDelay := 0, g_pwrSeqExpired := False\<rparr>"

lemma fired_simps [simp]:
  "core (fired s) = core s" "pins (fired s) = pins s" "next_stage (fired s) = next_stage s"
  "ctl (fired s) = (next_stage s, 0, None, False, g_ui8PwrBtnVciFlag s, s_bootReason s)"
  by (simp_all add: fired_def core_def ctl_def)

lemma tick_armed:
  assumes "delay_timer s \<noteq> None"
  shows "tick b e s = (let s1 = app_pseq_StateMachine b e (fired s) in
     emit Btn_monitor (if g_pwrSeqDelay s1 \<noteq> 0 then set_sleep_ready False s1
       else app_pseq_stateMonitor b e (emit Post_signal_probe s1)))"
  using assms by (auto simp: tick_def app_pseq_pass_def app_pseq_delayCallback_def Let_def fired_def)

text \<open>A stage that arms the timer again: the monitor does not run.\<close>

lemma tick_busy:
  assumes "delay_timer s \<noteq> None" and "ctl (app_pseq_StateMachine b e (fired s)) = (x, d, t, f, v, r)" and "d \<noteq> 0"
  shows "core (tick b e s) = core (app_pseq_StateMachine b e (fired s))" and "ctl (tick b e s) = (x, d, t, f, v, r)"
    and "pins (tick b e s) = pins (app_pseq_StateMachine b e (fired s))"
proof -
  have "g_pwrSeqDelay (app_pseq_StateMachine b e (fired s)) = d" using assms(2) by (simp add: ctl_def)
  with assms show "core (tick b e s) = core (app_pseq_StateMachine b e (fired s))" "ctl (tick b e s) = (x, d, t, f, v, r)"
    "pins (tick b e s) = pins (app_pseq_StateMachine b e (fired s))"
    by (simp_all add: tick_armed Let_def)
qed

lemma tick_idle:
  assumes "delay_timer s \<noteq> None" and "ctl (app_pseq_StateMachine b e (fired s)) = (x, 0, t, f, v, r)"
  shows "tick b e s = emit Btn_monitor (app_pseq_stateMonitor b e (emit Post_signal_probe (app_pseq_StateMachine b e (fired s))))"
proof -
  have "g_pwrSeqDelay (app_pseq_StateMachine b e (fired s)) = 0" using assms(2) by (simp add: ctl_def)
  with assms(1) show ?thesis by (simp add: tick_armed Let_def)
qed

section \<open>From reset to S0\<close>

lemmas sm_defs = app_pseq_StateMachine_def group_defs Let_def

text \<open>The state machine at one stage.\<close>

lemma sm_stage:
  "next_stage s = POWER_INIT \<Longrightarrow> app_pseq_StateMachine b e s = app_pseq_nextStep SETUP_GPIO_DEFAULT 1 s"
  "next_stage s = SETUP_GPIO_DEFAULT \<Longrightarrow> app_pseq_StateMachine b e s = app_pseq_nextStep ENTER_TO_G3 10 s"
  "next_stage s = ENTER_TO_G3 \<Longrightarrow> app_pseq_StateMachine b e s = app_pseq_setPwrStatus b e SYSTEM_G3_STATE s"
  "next_stage s = FROM_G3_TO_S5 \<Longrightarrow> app_pseq_StateMachine b e s = wait_S5_power_good e PWRGD_ASSERTED (S5_rails_on b s)"
  "next_stage s = PWRGD_ASSERTED \<Longrightarrow> app_pseq_StateMachine b e s = app_pseq_nextStep RELEASE_RSMRST 1
     (if_do (opt b CONFIG_ALS) (emit Init_als) (S5_devices_init b (S5_rails_on b (gpio_write_pin RSMRST_N False s))))"
  "next_stage s = RELEASE_RSMRST \<Longrightarrow> app_pseq_StateMachine b e s = release_rsmrst b e s"
  "next_stage s = FROM_S5S3_TO_S0 \<Longrightarrow> app_pseq_StateMachine b e s = app_pseq_nextStep FROM_S3_TO_S0 1 (emit (Trigger_pwrbtn 20) s)"
  "next_stage s = FROM_S3_TO_S0 \<Longrightarrow> app_pseq_StateMachine b e s =
     (if \<not> SLP_S3_ASSERT e \<and> \<not> SLP_S5_ASSERT e then into_s0r b e s else wait_slp s)"
  "next_stage s = TRANSFERED_INTO_S0 \<Longrightarrow> app_pseq_StateMachine b e s = app_pseq_setPwrStatus b e SYSTEM_S0_STATE
     (opt_write b EC_CODEC_DEPOP_MUTE_N True (opt_write b ex_EP_CODEC_DEPOP_MUTEn True
       (opt_write b ex_EP_HDR_DEPOP_MUTEn True s)))"
  by (simp_all add: sm_defs)

definition at :: "system_power_state \<Rightarrow> system_power_seq_stage \<Rightarrow> u32 \<Rightarrow> pseq \<Rightarrow> bool" where
  "at pst x d s \<longleftrightarrow> core s = (pst, pst, False) \<and> ctl s = (x, d, Some d, False, False, 0)"

lemma at_timer: "at pst x d s \<Longrightarrow> delay_timer s \<noteq> None"
  by (simp add: at_def ctl_def)

lemma at_fields: "at pst x d s \<Longrightarrow> next_stage s = x \<and> current_state s = pst \<and> next_state s = pst \<and>
    \<not> pwrseq_failure s \<and> \<not> g_ui8PwrBtnVciFlag s \<and> \<not> g_pwrSeqExpired s \<and> g_pwrSeqDelay s = d \<and> s_bootReason s = 0"
  by (simp add: at_def ctl_def core_def)

text \<open>A stage that only arms the next one.\<close>

lemma at_next:
  assumes "at pst x d s" and "core (app_pseq_StateMachine b e (fired s)) = (pst', pst', False)"
    and "ctl (app_pseq_StateMachine b e (fired s)) = (y, d', Some d', False, False, 0)" and "d' \<noteq> 0"
  shows "at pst' y d' (tick b e s)"
  using assms tick_busy [OF at_timer [OF assms(1)] assms(3,4)] by (simp add: at_def)

lemma flag_writes [simp]:
  "g_ui8PwrBtnVciFlag (emit c s) = g_ui8PwrBtnVciFlag s" "g_ui8PwrBtnVciFlag (gpio_write_pin p v s) = g_ui8PwrBtnVciFlag s"
  "g_pwrSeqExpired (emit c s) = g_pwrSeqExpired s" "g_pwrSeqExpired (gpio_write_pin p v s) = g_pwrSeqExpired s"
  "s_bootReason (emit c s) = s_bootReason s" "s_bootReason (gpio_write_pin p v s) = s_bootReason s"
  by (simp_all add: action_defs)

lemma ctl_transfer:
  "ctl t = ctl s \<Longrightarrow> g_ui8PwrBtnVciFlag t = g_ui8PwrBtnVciFlag s \<and> g_pwrSeqExpired t = g_pwrSeqExpired s \<and>
     next_stage t = next_stage s \<and> s_bootReason t = s_bootReason s"
  by (simp add: ctl_def)

lemma fired_flags [simp]: "g_ui8PwrBtnVciFlag (fired s) = g_ui8PwrBtnVciFlag s" "\<not> g_pwrSeqExpired (fired s)"
  "s_bootReason (fired s) = s_bootReason s"
  by (simp_all add: fired_def)

lemma tick_POWER_INIT: "at pst POWER_INIT d s \<Longrightarrow> at pst SETUP_GPIO_DEFAULT 1 (tick b e s)"
  using at_fields [of pst POWER_INIT d s] by (intro at_next) (simp_all add: sm_stage core_def [of s])

lemma tick_SETUP: "at pst SETUP_GPIO_DEFAULT d s \<Longrightarrow> at pst ENTER_TO_G3 10 (tick b e s)"
  using at_fields [of pst SETUP_GPIO_DEFAULT d s] by (intro at_next) (simp_all add: sm_stage core_def [of s])

lemma at_ctl:
  assumes "at pst x d s" "ctl t = ctl (fired s)"
  shows "ctl (app_pseq_nextStep y d' t) = (if y = STATE_NO_CHANGE then x else y, d', Some d', False, False, 0)"
  using ctl_transfer [OF assms(2)] at_fields [OF assms(1)] by simp

lemma tick_G3_TO_S5:
  assumes "at pst FROM_G3_TO_S5 d s" "SYSTEM_S5_PG e"
  shows "at pst PWRGD_ASSERTED 20 (tick b e s)"
  using assms at_fields [OF assms(1)] at_ctl [OF assms(1), of "S5_rails_on b (fired s)"]
  by (intro at_next [OF assms(1)]) (simp_all add: sm_stage wait_S5_power_good_def core_def [of s])

lemma tick_PWRGD:
  assumes "at pst PWRGD_ASSERTED d s"
  shows "at pst RELEASE_RSMRST 1 (tick b e s)"
proof -
  let ?t = "if_do (opt b CONFIG_ALS) (emit Init_als) (S5_devices_init b (S5_rails_on b (gpio_write_pin RSMRST_N False (fired s))))"
  have "ctl ?t = ctl (fired s)" by simp
  from at_ctl [OF assms this] at_fields [OF assms] show ?thesis
    by (intro at_next [OF assms]) (simp_all add: sm_stage core_def [of s])
qed

lemma setPwrStatus_at:
  assumes "current_state s = pst" "next_state s = pst" "\<not> pwrseq_failure s" "allowed pst st'" "st' \<noteq> pst"
  shows "core (app_pseq_setPwrStatus b e st' s) = (st', st', False)"
  using assms by (simp add: setPwrStatus_core)

lemma stateMonitor_G3:
  assumes "current_state s = SYSTEM_G3_STATE" "s_bootReason s = 0"
    and "opt b CONFIG_POWER_SOURCE_MANAGEMENT" "\<not> opt b STANDBY_WITH_G3_POWER" "hasAcPowerSource e"
  shows "app_pseq_stateMonitor b e s = app_pseq_nextStep FROM_G3_TO_S5 500 (s\<lparr>s_gotoG3WaitCnt := POWER_SEQ_S5_TO_G3_DELAY\<rparr>)"
  using assms by (simp add: app_pseq_stateMonitor_def monitor_g3_def if_do_def F_BRAM_FLASH_BIOS_WDT_BOOT_SIGNATURE_def
      F_BRAM_NV_OPTION_UPDATE_SIGNATURE_def app_pseq_nextStep_def)

lemma tick_ENTER_G3:
  assumes "at SYSTEM_INIT_STATE ENTER_TO_G3 d s"
    and "opt b CONFIG_POWER_SOURCE_MANAGEMENT" "\<not> opt b STANDBY_WITH_G3_POWER" "hasAcPowerSource e"
  shows "at SYSTEM_G3_STATE FROM_G3_TO_S5 500 (tick b e s)"
proof -
  let ?t = "app_pseq_setPwrStatus b e SYSTEM_G3_STATE (fired s)"
  note f = at_fields [OF assms(1)]
  have sm: "app_pseq_StateMachine b e (fired s) = ?t" using f by (simp add: sm_stage)
  have c: "ctl ?t = ctl (fired s)" using f by simp
  have "current_state (fired s) = SYSTEM_INIT_STATE" "next_state (fired s) = SYSTEM_INIT_STATE" "\<not> pwrseq_failure (fired s)"
    using f fired_simps(1) [of s] by (simp_all add: core_def)
  then have k: "core ?t = (SYSTEM_G3_STATE, SYSTEM_G3_STATE, False)"
    by (rule setPwrStatus_at) (simp_all add: allowed_def)
  have "current_state (emit Post_signal_probe ?t) = SYSTEM_G3_STATE" "s_bootReason (emit Post_signal_probe ?t) = 0"
    using c k f ctl_transfer [OF c] by (simp_all add: core_def action_defs)
  from stateMonitor_G3 [OF this assms(2-4)] k ctl_transfer [OF c] f show ?thesis
    using tick_idle [OF at_timer [OF assms(1)], of b e ENTER_TO_G3 None False False 0] c sm
    by (simp add: at_def)
qed

lemma stateMonitor_S5_held:
  assumes "current_state s = SYSTEM_S5_STATE" "SLP_S5_ASSERT e" "keeps_s5 b e"
  shows "app_pseq_stateMonitor b e s = s\<lparr>s_gotoG3WaitCnt := POWER_SEQ_S5_TO_G3_DELAY\<rparr>"
  using assms by (simp add: app_pseq_stateMonitor_def monitor_s5_def)

lemma tick_RELEASE:
  assumes "at SYSTEM_G3_STATE RELEASE_RSMRST d s" and "\<not> vr_needs_G3 e" "\<not> isPEO b" "SLP_S5_ASSERT e" "keeps_s5 b e"
  shows "core (tick b e s) = (SYSTEM_S5_STATE, SYSTEM_S5_STATE, False)"
    and "ctl (tick b e s) = (RELEASE_RSMRST, 0, None, False, False, 0)" and "pins (tick b e s) RSMRST_N"
proof -
  let ?u = "gpio_write_pin RSMRST_N True (vr_done b (vr_espi_init b e (fired s)))"
  let ?t = "app_pseq_setPwrStatus b e SYSTEM_S5_STATE ?u"
  note f = at_fields [OF assms(1)]
  have "\<not> vr_retry b (vr_espi_init b e (fired s))"
    using assms(2) by (simp add: vr_retry_def vr_espi_init_def action_defs)
  then have "release_rsmrst b e (fired s) = ?t"
    using assms(3) by (simp add: release_rsmrst_def Let_def if_do_def)
  then have sm: "app_pseq_StateMachine b e (fired s) = ?t" using f by (simp add: sm_stage)
  have u: "core ?u = core s" "ctl ?u = ctl (fired s)" by simp_all
  have "\<not> g_ui8PwrBtnVciFlag ?u" using ctl_transfer [OF u(2)] f by simp
  then have c: "ctl ?t = (RELEASE_RSMRST, 0, None, False, False, 0)" using u(2) f by simp
  have "current_state ?u = SYSTEM_G3_STATE" "next_state ?u = SYSTEM_G3_STATE" "\<not> pwrseq_failure ?u"
    using u(1) f by (simp_all add: core_def)
  then have k: "core ?t = (SYSTEM_S5_STATE, SYSTEM_S5_STATE, False)"
    by (rule setPwrStatus_at) (simp_all add: allowed_def)
  have "current_state (emit Post_signal_probe ?t) = SYSTEM_S5_STATE" using k by (simp add: core_def action_defs)
  note m = stateMonitor_S5_held [OF this assms(4,5)] tick_idle [OF at_timer [OF assms(1)] c [folded sm]]
  show "core (tick b e s) = (SYSTEM_S5_STATE, SYSTEM_S5_STATE, False)" "pins (tick b e s) RSMRST_N"
    "ctl (tick b e s) = (RELEASE_RSMRST, 0, None, False, False, 0)"
    using m k c sm by simp_all
qed



lemma tsi_monitor_simps [simp]:
  "core (app_sb_tsi_monitor b e s) = core s" "ctl (app_sb_tsi_monitor b e s) = ctl s"
  "p \<noteq> ex_EP_SB_TSI_ESP32n_EC_SEL \<Longrightarrow> pins (app_sb_tsi_monitor b e s) p = pins s p"
  by (auto simp: app_sb_tsi_monitor_def core_def ctl_def gpio_write_pin_def)


section \<open>Properties\<close>

text \<open>
  C6. The power state follows the transition table: a request for a state changes the recorded
  state exactly when it is a new request, no sequencing error has been recorded and the table
  allows the transition from the current state; a request the table forbids is taken back.
\<close>

theorem setPwrStatus_refines_table:
  "current_state (app_pseq_setPwrStatus b e pst s) =
     (if next_state s \<noteq> pst \<and> \<not> pwrseq_failure s \<and> allowed (current_state s) pst then pst else current_state s) \<and>
   next_state (app_pseq_setPwrStatus b e pst s) =
     (if next_state s = pst \<or> pst = current_state s \<or> pwrseq_failure s \<or> allowed (current_state s) pst then pst
      else current_state s)"
  using setPwrStatus_core [of b e pst s] by (auto simp: core_def split: if_splits)

text \<open>
  C1. The resume reset is released only with its rails, except by a reset of the controller: in
  every run of the sequencing that starts with \<open>RSMRST_N\<close> low, on every board, over all
  interleavings of passes, timer expiries, stage requests of other modules, virtual wires,
  recorded errors, resets and reboots, \<open>RSMRST_N\<close> is high only while both S5 power enables are
  high, after each single pin write of the running thread. \<open>app_btn_ecReset\<close>, which may cut a pass
  short after any call, keeps that order up to its own write and breaks it exactly when it finds
  \<open>RSMRST_N\<close> high: the 1.8 V rail is then off for the second until the reboot with the reset
  released. (The board initialisation before the thread and the resets of the options and of the
  debug interface, which assert \<open>RSMRST_N\<close> first, are not steps.)
\<close>

theorem rsmrst_only_with_rails:
  assumes "\<not> lvl RSMRST_N"
  shows "(reachable b lvl (Running s) \<longrightarrow>
       rails_ok (levels lvl (take n (calls s))) \<and> levels lvl (calls s) = pins s \<and>
       (pins s RSMRST_N \<longrightarrow> pins s EC_S5_PWREN \<and> pins s EC_1V8_S5_EN)) \<and>
     (reachable b lvl (Resetting s) \<longrightarrow>
       (\<exists>cs. calls s = cs @ [Write EC_1V8_S5_EN False, Busy_wait_1s, Reboot_cold] \<and> rails_ok (levels lvl (take n cs)) \<and>
          levels lvl (calls s) = pins s \<and> (rails_ok (pins s) \<longleftrightarrow> \<not> levels lvl cs RSMRST_N)))"
proof (intro conjI impI)
  assume "reachable b lvl (Running s)"
  then have c: "clean lvl s" using reachable_inv assms by (fastforce simp: inv_clean)
  then show "rails_ok (levels lvl (take n (calls s)))" "levels lvl (calls s) = pins s"
    using trace_ok_final [OF trace_ok_take] by (auto simp: clean_def levels_def)
  assume "pins s RSMRST_N"
  then show "pins s EC_S5_PWREN" "pins s EC_1V8_S5_EN" using clean_rails [OF c] by (simp_all add: rails_ok_def)
next
  assume "reachable b lvl (Resetting s)"
  then have "reset_trace lvl s" using reachable_inv assms by fastforce
  then obtain cs where "calls s = cs @ [Write EC_1V8_S5_EN False, Busy_wait_1s, Reboot_cold]" and t: "trace_ok lvl cs"
    and "pins s = (levels lvl cs)(EC_1V8_S5_EN := False)" by (auto simp: reset_trace_def)
  then show "\<exists>cs. calls s = cs @ [Write EC_1V8_S5_EN False, Busy_wait_1s, Reboot_cold] \<and> rails_ok (levels lvl (take n cs)) \<and>
          levels lvl (calls s) = pins s \<and> (rails_ok (pins s) \<longleftrightarrow> \<not> levels lvl cs RSMRST_N)"
    using trace_ok_final [OF trace_ok_take [OF t]] by (intro exI [of _ cs]) (simp add: levels_def level_step_def rails_ok_def)
qed

definition demo_board :: board where
  "demo_board = \<lparr>opt = (\<lambda>x. x \<in> {CONFIG_POWER_SOURCE_MANAGEMENT}), has_pin = (\<lambda>_. False), supportMemPMIC = False, isPEO = False\<rparr>"

definition demo_env :: "bool \<Rightarrow> bool \<Rightarrow> env" where
  "demo_env s3 s5 = \<lparr>SYSTEM_S5_PG = True, SLP_S3_ASSERT = s3, SLP_S5_ASSERT = s5, hasAcPowerSource = True,
     S5AlwEnFlag = False, vr_needs_G3 = False, mem_pmic_pwr_good = False, iot_3v3_sense = False, pd_is_CCGx = False,
     hostNotifyDisabled = False, pmf_suspended = False\<rparr>"

lemma reachable_tick: "reachable b lvl (Running s) \<Longrightarrow> reachable b lvl (Running (tick b e s))"
proof -
  assume r: "reachable b lvl (Running s)"
  have id: "id = requests []" by (simp add: requests_def fun_eq_iff)
  have "reachable b lvl (Running (if delay_timer s = None then s else app_pseq_delayCallback (s\<lparr>delay_timer := None\<rparr>)))"
    using r pseq_step.Timer [of s] by (auto intro: reachable.Step)
  then show ?thesis
    unfolding tick_def id by (rule reachable.Step) (rule pseq_step.Pass, simp)
qed

lemma boot_low: "pseq_boot (\<lambda>_. False) mode = app_pseq_task_init mode pseq_reset"
  by (simp add: pseq_boot_def pseq_reset_def)

lemma start_at: "at SYSTEM_INIT_STATE POWER_INIT 1 (app_pseq_task_init mode pseq_reset)"
  by (cases mode) (simp_all add: app_pseq_task_init_def handle_spi_sharing_def app_pseq_nextStep_def emit_def pseq_reset_def
      at_def core_def ctl_def)

lemma power_up:
  assumes "opt b CONFIG_POWER_SOURCE_MANAGEMENT" "\<not> opt b STANDBY_WITH_G3_POWER" "\<not> isPEO b"
    and "hasAcPowerSource e" "SYSTEM_S5_PG e" "\<not> vr_needs_G3 e" "SLP_S5_ASSERT e"
  shows "core ((tick b e ^^ 6) (app_pseq_task_init mode pseq_reset)) = (SYSTEM_S5_STATE, SYSTEM_S5_STATE, False)"
    and "ctl ((tick b e ^^ 6) (app_pseq_task_init mode pseq_reset)) = (RELEASE_RSMRST, 0, None, False, False, 0)"
    and "pins ((tick b e ^^ 6) (app_pseq_task_init mode pseq_reset)) RSMRST_N"
proof -
  let ?s = "app_pseq_task_init mode pseq_reset"
  have k: "keeps_s5 b e" using assms by (simp add: keeps_s5_def)
  have "at SYSTEM_INIT_STATE ENTER_TO_G3 10 (tick b e (tick b e ?s))"
    by (rule tick_SETUP [OF tick_POWER_INIT [OF start_at]])
  from tick_PWRGD [OF tick_G3_TO_S5 [OF tick_ENTER_G3 [OF this assms(1,2,4)] assms(5)]]
  have r: "at SYSTEM_G3_STATE RELEASE_RSMRST 1 ((tick b e ^^ 5) ?s)" by (simp add: eval_nat_numeral)
  have six: "(tick b e ^^ 6) ?s = tick b e ((tick b e ^^ 5) ?s)" by (simp add: eval_nat_numeral)
  show "core ((tick b e ^^ 6) ?s) = (SYSTEM_S5_STATE, SYSTEM_S5_STATE, False)"
    "ctl ((tick b e ^^ 6) ?s) = (RELEASE_RSMRST, 0, None, False, False, 0)" "pins ((tick b e ^^ 6) ?s) RSMRST_N"
    unfolding six by (rule tick_RELEASE [OF r assms(6,3,7) k])+
qed

theorem rsmrst_only_with_rails_witness:
  "\<exists>s. reachable demo_board (\<lambda>_. False) (Running s) \<and> pins s RSMRST_N \<and> pins s EC_S5_PWREN \<and> pins s EC_1V8_S5_EN \<and>
     \<not> rails_ok (pins (ec_reset s))"
proof -
  let ?l = "\<lambda>_. False"
  let ?s = "(tick demo_board (demo_env True True) ^^ 6) (app_pseq_task_init FLASH_BOOT_MODE_SAF pseq_reset)"
  have "reachable demo_board ?l (Running ((tick demo_board (demo_env True True) ^^ n) (pseq_boot ?l FLASH_BOOT_MODE_SAF)))" for n
    by (induction n) (simp_all add: reachable.Start reachable_tick)
  then have r: "reachable demo_board ?l (Running ?s)" by (simp add: boot_low del: funpow.simps)
  then have q: "reachable demo_board ?l (Resetting (ec_reset ?s))" by (rule reachable.Step) (rule pseq_step.Ec_reset)
  have p: "pins ?s RSMRST_N" by (rule power_up(3)) (simp_all add: demo_board_def demo_env_def)
  have c: "calls (ec_reset ?s) = calls ?s @ [Write EC_1V8_S5_EN False, Busy_wait_1s, Reboot_cold]"
    by (simp add: ec_reset_def emit_def gpio_write_pin_def)
  have l: "levels ?l (calls ?s) = pins ?s" and on: "pins ?s EC_S5_PWREN" "pins ?s EC_1V8_S5_EN"
    using rsmrst_only_with_rails [of ?l demo_board ?s 0] r p by simp_all
  have "\<not> rails_ok (pins (ec_reset ?s))"
    using rsmrst_only_with_rails [of ?l demo_board "ec_reset ?s" 0] q c l p by auto
  with r p on show ?thesis by blast
qed



lemma wait_slp_fields:
  assumes "unat (s_slpS35WaitCnt s) = k" "k \<le> 2000"
  shows "wait_slp s = (if k < 2000 then app_pseq_nextStep STATE_NO_CHANGE 1 (s\<lparr>s_slpS35WaitCnt := of_nat (Suc k)\<rparr>)
     else app_pseq_nextStep FROM_S0_TO_S3S5 1 (emit (Ddr5_power False) (app_pseq_nextStep STATE_NO_CHANGE 1
       (s\<lparr>s_slpS35WaitCnt := 0, g_ui32_pwrBtnMissCnt := g_ui32_pwrBtnMissCnt s + 1\<rparr>))))"
proof -
  have k: "s_slpS35WaitCnt s + 1 = of_nat (Suc k)" using assms(1) by auto
  have "unat (of_nat (Suc k) :: u32) = Suc k" using assms(2) by (intro unat_of_nat32) simp
  then have "(2000 :: u32) < of_nat (Suc k) \<longleftrightarrow> 2000 \<le> k" by (auto simp: word_less_nat_alt)
  then show ?thesis using k by (simp add: wait_slp_def Let_def app_pseq_nextStep_def action_defs del: of_nat_Suc)
qed

text \<open>Runs of the state machine while the sleep signals stay asserted.\<close>

definition asserted :: "env \<Rightarrow> bool" where
  "asserted e \<longleftrightarrow> SLP_S3_ASSERT e \<or> SLP_S5_ASSERT e"

lemma slp_wait_run:
  assumes "next_stage s = FROM_S3_TO_S0" "unat (s_slpS35WaitCnt s) = k" "list_all asserted es" "k + length es \<le> 2000"
  shows "next_stage (fold (app_pseq_StateMachine b) es s) = FROM_S3_TO_S0 \<and>
     unat (s_slpS35WaitCnt (fold (app_pseq_StateMachine b) es s)) = k + length es \<and>
     g_ui32_pwrBtnMissCnt (fold (app_pseq_StateMachine b) es s) = g_ui32_pwrBtnMissCnt s \<and>
     core (fold (app_pseq_StateMachine b) es s) = core s"
  using assms
proof (induction es arbitrary: s k)
  case (Cons e es)
  let ?t = "app_pseq_nextStep STATE_NO_CHANGE 1 (s\<lparr>s_slpS35WaitCnt := of_nat (Suc k)\<rparr>)"
  have "app_pseq_StateMachine b e s = wait_slp s" using Cons.prems(1,3) by (auto simp: sm_stage asserted_def)
  also have "\<dots> = ?t" using wait_slp_fields [OF Cons.prems(2)] Cons.prems(4) by simp
  finally have t: "app_pseq_StateMachine b e s = ?t" .
  have "unat (of_nat (Suc k) :: u32) = Suc k" using Cons.prems(4) by (intro unat_of_nat32) simp
  then have "next_stage ?t = FROM_S3_TO_S0" "unat (s_slpS35WaitCnt ?t) = Suc k"
    using Cons.prems(1) by (simp_all add: app_pseq_nextStep_def)
  from Cons.IH [OF this] Cons.prems(3,4) t show ?case by (simp add: app_pseq_nextStep_def core_def)
qed simp

text \<open>
  The wait for the processor is bounded: while a sleep signal stays asserted the stage is
  repeated 2000 times, and the next pass counts a missed power button, clears the counter and
  starts the way back; the recorded power state does not change meanwhile.
\<close>

theorem slp_wait_gives_up:
  assumes "next_stage s = FROM_S3_TO_S0" "s_slpS35WaitCnt s = 0" "list_all asserted es" "asserted e" "length es = 2000"
  shows "next_stage (fold (app_pseq_StateMachine b) es s) = FROM_S3_TO_S0 \<and>
     next_stage (fold (app_pseq_StateMachine b) (es @ [e]) s) = FROM_S0_TO_S3S5 \<and>
     g_ui32_pwrBtnMissCnt (fold (app_pseq_StateMachine b) (es @ [e]) s) = g_ui32_pwrBtnMissCnt s + 1 \<and>
     s_slpS35WaitCnt (fold (app_pseq_StateMachine b) (es @ [e]) s) = 0 \<and>
     current_state (fold (app_pseq_StateMachine b) (es @ [e]) s) = current_state s"
proof -
  let ?t = "fold (app_pseq_StateMachine b) es s"
  have r: "next_stage ?t = FROM_S3_TO_S0" "unat (s_slpS35WaitCnt ?t) = 2000"
    "g_ui32_pwrBtnMissCnt ?t = g_ui32_pwrBtnMissCnt s" "core ?t = core s"
    using slp_wait_run [of s 0 es b] assms by simp_all
  have "app_pseq_StateMachine b e ?t = wait_slp ?t" using r(1) assms(4) by (auto simp: sm_stage asserted_def)
  with wait_slp_fields [OF r(2)] r(1,3,4) show ?thesis by (simp add: app_pseq_nextStep_def action_defs core_def)
qed

definition no_power :: "board \<Rightarrow> env \<Rightarrow> bool" where
  "no_power b e \<longleftrightarrow> asserted e \<and> \<not> keeps_s5 b e"

lemma monitor_s5_counts:
  assumes "unat (s_gotoG3WaitCnt s) = k" "k \<le> 10000" "no_power b e" "current_state s \<in> {SYSTEM_S4_STATE, SYSTEM_S5_STATE}"
  shows "app_pseq_stateMonitor b e s = (if 1 < k then s\<lparr>sleep_ready := False, s_gotoG3WaitCnt := of_nat (k - 1)\<rparr>
     else emit Pd_role_G3 (app_pseq_nextStep FROM_S5_TO_G3 1 (s\<lparr>sleep_ready := False, s_gotoG3WaitCnt := 0\<rparr>)))"
proof -
  have "s_gotoG3WaitCnt s - 1 = of_nat (k - 1)" if "1 < k" using that assms(1) by auto
  moreover have "1 < s_gotoG3WaitCnt s \<longleftrightarrow> 1 < k" using assms(1) by (simp add: word_less_nat_alt)
  ultimately show ?thesis
    using assms(3,4) by (auto simp: app_pseq_stateMonitor_def monitor_s5_def no_power_def asserted_def set_sleep_ready_def
        app_pseq_nextStep_def emit_def Let_def)
qed

lemma s5_wait_run:
  assumes "unat (s_gotoG3WaitCnt s) = k" "k \<le> 10000" "list_all (no_power b) es" "length es < k"
    and "current_state s \<in> {SYSTEM_S4_STATE, SYSTEM_S5_STATE}"
  shows "unat (s_gotoG3WaitCnt (fold (app_pseq_stateMonitor b) es s)) = k - length es \<and>
     current_state (fold (app_pseq_stateMonitor b) es s) = current_state s \<and>
     ctl (fold (app_pseq_stateMonitor b) es s) = ctl s"
  using assms
proof (induction es arbitrary: s k)
  case (Cons e es)
  let ?t = "s\<lparr>sleep_ready := False, s_gotoG3WaitCnt := of_nat (k - 1)\<rparr>"
  have t: "app_pseq_stateMonitor b e s = ?t"
    using monitor_s5_counts [OF Cons.prems(1,2) _ Cons.prems(5), of b e] Cons.prems(3,4) by simp
  have "unat (s_gotoG3WaitCnt ?t) = k - 1" using Cons.prems(2) by (simp add: unat_of_nat32)
  moreover have "current_state ?t \<in> {SYSTEM_S4_STATE, SYSTEM_S5_STATE}" using Cons.prems(5) by simp
  moreover have "k - 1 \<le> 10000" "length es < k - 1" "list_all (no_power b) es" using Cons.prems(2,3,4) by auto
  ultimately have "unat (s_gotoG3WaitCnt (fold (app_pseq_stateMonitor b) es ?t)) = k - 1 - length es \<and>
     current_state (fold (app_pseq_stateMonitor b) es ?t) = current_state ?t \<and>
     ctl (fold (app_pseq_stateMonitor b) es ?t) = ctl ?t"
    using Cons.IH [of ?t "k - 1"] by blast
  then show ?case using t by (simp add: ctl_def)
qed simp

text \<open>
  Without a power source the system leaves S5 after exactly 10000 passes of the monitor: the
  first 9999 only count, whatever the sleep signals that stay asserted do, and the last one
  starts the way to G3.
\<close>

theorem s5_to_g3_delay:
  assumes "current_state s \<in> {SYSTEM_S4_STATE, SYSTEM_S5_STATE}" "s_gotoG3WaitCnt s = POWER_SEQ_S5_TO_G3_DELAY"
    and "list_all (no_power b) es" "no_power b e" "length es = 9999"
  shows "ctl (fold (app_pseq_stateMonitor b) es s) = ctl s \<and>
     next_stage (fold (app_pseq_stateMonitor b) (es @ [e]) s) = FROM_S5_TO_G3 \<and>
     app_pseq_isBusy (fold (app_pseq_stateMonitor b) (es @ [e]) s)"
proof -
  let ?t = "fold (app_pseq_stateMonitor b) es s"
  have "unat (s_gotoG3WaitCnt s) = 10000" using assms(2) by (simp add: POWER_SEQ_S5_TO_G3_DELAY_def)
  then have r: "unat (s_gotoG3WaitCnt ?t) = 1" "current_state ?t = current_state s" "ctl ?t = ctl s"
    using s5_wait_run [of s 10000 b es] assms by simp_all
  then show ?thesis
    using monitor_s5_counts [OF r(1) _ assms(4)] assms(1) by (simp add: app_pseq_isBusy_def app_pseq_nextStep_def emit_def)
qed

text \<open>A forced G3 in the state before S0.\<close>

definition g3_stages :: "system_power_seq_stage set" where
  "g3_stages = {FORCE_G3, FORCE_G3_Part1, FORCE_G3_Part2, FORCE_G3_Part3, ENTER_TO_G3}"

definition stuck :: "pseq \<Rightarrow> bool" where
  "stuck s \<longleftrightarrow> current_state s = SYSTEM_S0_R_STATE \<and> next_stage s \<in> g3_stages \<and> \<not> g_ui8PwrBtnVciFlag s"

lemma stuck_iff: "core t = core s \<Longrightarrow> ctl t = (x, d, y, f, False, r) \<Longrightarrow> x \<in> g3_stages \<Longrightarrow> stuck s \<Longrightarrow> stuck t"
  by (simp add: stuck_def core_def ctl_def)

lemma setPwrStatus_stuck: "stuck s \<Longrightarrow> stuck (app_pseq_setPwrStatus b e SYSTEM_G3_STATE s)"
  using setPwrStatus_core [of b e SYSTEM_G3_STATE s] setPwrStatus_ctl [of s b e SYSTEM_G3_STATE]
  by (auto simp: stuck_def core_def ctl_def allowed_def split: if_splits)

lemma stuck_actions [simp]:
  "stuck (emit c s) = stuck s" "stuck (gpio_write_pin p v s) = stuck s" "stuck (opt_write b p v s) = stuck s"
  "stuck (set_sleep_ready v s) = stuck s" "stuck (s\<lparr>g_pwrSeqDelay := d, g_pwrSeqExpired := f\<rparr>) = stuck s"
  "stuck (s\<lparr>s_gotoG3WaitCnt := x5\<rparr>) = stuck s" "stuck (app_pseq_delayCallback (s\<lparr>delay_timer := None\<rparr>)) = stuck s"
  by (simp_all add: stuck_def action_defs app_pseq_delayCallback_def)

lemma stuck_if_do [simp]: "stuck s \<Longrightarrow> stuck (f s) \<Longrightarrow> stuck (if_do cond f s)"
  by (simp add: if_do_def)

lemma stuck_next [simp]: "x \<in> g3_stages \<Longrightarrow> stuck s \<Longrightarrow> stuck (app_pseq_nextStep x d s)"
  by (auto simp: stuck_def app_pseq_nextStep_def)

lemma StateMachine_stuck: "stuck s \<Longrightarrow> stuck (app_pseq_StateMachine b e s)"
proof -
  assume s: "stuck s"
  then consider "next_stage s = FORCE_G3" | "next_stage s = FORCE_G3_Part1" | "next_stage s = FORCE_G3_Part2"
    | "next_stage s = FORCE_G3_Part3" | "next_stage s = ENTER_TO_G3"
    by (auto simp: stuck_def g3_stages_def)
  then show ?thesis
    by cases (use s in \<open>simp_all add: sm_defs setPwrStatus_stuck\<close>, simp_all add: g3_stages_def setPwrStatus_stuck s)
qed

lemma stateMonitor_stuck: "stuck s \<Longrightarrow> stuck (app_pseq_stateMonitor b e s)"
  by (simp add: app_pseq_stateMonitor_def Let_def stuck_def)

text \<open>The four stages of a forced G3 switch the rails off, whatever the recorded state.\<close>

lemma sm_force_g3:
  "next_stage s = FORCE_G3 \<Longrightarrow> app_pseq_StateMachine b e s =
     app_pseq_nextStep FORCE_G3_Part1 (if opt b BRD_MDS_DORNE_OR_AERIS then 20 else 1)
       (gpio_write_pin (if opt b BRD_MDS_DORNE_OR_AERIS then EC_SLP_S5_N else EC_SLP_S3_S0A3_N) False
         (if_do (opt b CONFIG_FAN_RPM_CONTROL) (emit Fan_disable) s))"
  "next_stage s = FORCE_G3_Part1 \<Longrightarrow> app_pseq_StateMachine b e s =
     app_pseq_nextStep FORCE_G3_Part2 10 (opt_write b ex_EP_SB_TSI_ESP32n_EC_SEL False (opt_write b EC_S0_LED False
       (gpio_write_pin RSMRST_N False
         (gpio_write_pin (if opt b BRD_MDS_DORNE_OR_AERIS then EC_SLP_S3_S0A3_N else EC_SLP_S5_N) False s))))"
  "next_stage s = FORCE_G3_Part2 \<Longrightarrow> app_pseq_StateMachine b e s =
     app_pseq_nextStep FORCE_G3_Part3 20 (gpio_write_pin EC_1V8_S5_EN False (opt_write b ex_EP_SENSOR_3V3_PWREN False
       (opt_write b EC_USB32_RD_RST_N False (opt_write b EC_USB32_RD_EN False s))))"
  "next_stage s = FORCE_G3_Part3 \<Longrightarrow> app_pseq_StateMachine b e s =
     app_pseq_nextStep ENTER_TO_G3 3000 (app_pseq_setPwrStatus b e SYSTEM_G3_STATE (gpio_write_pin EC_S5_PWREN False s))"
  by (simp_all add: sm_defs)

lemma at_block:
  assumes "at pst x d s" "app_pseq_StateMachine b e (fired s) = app_pseq_nextStep y d' t" "ctl t = ctl (fired s)"
    "core t = core s" "y \<noteq> STATE_NO_CHANGE" "d' \<noteq> 0"
  shows "at pst y d' (tick b e s)" "pins (tick b e s) = pins t"
proof -
  have c: "ctl (app_pseq_StateMachine b e (fired s)) = (y, d', Some d', False, False, 0)"
    using at_ctl [OF assms(1,3), of y d'] assms(2,5) by simp
  then show "at pst y d' (tick b e s)" using assms(1,2,4,6) by (intro at_next [OF assms(1)]) (simp_all add: at_def)
  show "pins (tick b e s) = pins t" using tick_busy(3) [OF at_timer [OF assms(1)] c] assms(2,6) by simp
qed

lemma force_g3_rails_off:
  assumes "at pst FORCE_G3 d s"
  shows "\<not> pins ((tick b e ^^ 4) s) EC_S5_PWREN \<and> \<not> pins ((tick b e ^^ 4) s) EC_1V8_S5_EN \<and>
     next_stage ((tick b e ^^ 4) s) = ENTER_TO_G3"
proof -
  let ?s1 = "tick b e s" and ?s2 = "tick b e (tick b e s)" and ?s3 = "tick b e (tick b e (tick b e s))"
  have a1: "at pst FORCE_G3_Part1 (if opt b BRD_MDS_DORNE_OR_AERIS then 20 else 1) ?s1"
    using at_fields [OF assms] by (intro at_block(1) [OF assms sm_force_g3(1)]) simp_all
  have a2: "at pst FORCE_G3_Part2 10 ?s2"
    using at_fields [OF a1] by (intro at_block(1) [OF a1 sm_force_g3(2)]) simp_all
  have a3: "at pst FORCE_G3_Part3 20 ?s3"
    using at_fields [OF a2] by (intro at_block(1) [OF a2 sm_force_g3(3)]) simp_all
  have p3: "\<not> pins ?s3 EC_1V8_S5_EN"
    using at_fields [OF a2] at_block(2) [OF a2 sm_force_g3(3), of b e] by simp
  let ?u = "app_pseq_setPwrStatus b e SYSTEM_G3_STATE (gpio_write_pin EC_S5_PWREN False (fired ?s3))"
  have c: "ctl ?u = ctl (fired ?s3)" using at_fields [OF a3] by simp
  have sm: "app_pseq_StateMachine b e (fired ?s3) = app_pseq_nextStep ENTER_TO_G3 3000 ?u"
    using at_fields [OF a3] by (simp add: sm_force_g3)
  have "pins (tick b e ?s3) = pins ?u"
    using tick_busy(3) [OF at_timer [OF a3], of b e ENTER_TO_G3 3000] at_ctl [OF a3 c, of ENTER_TO_G3 3000] sm by simp
  moreover have "next_stage (tick b e ?s3) = ENTER_TO_G3"
    using tick_busy(2) [OF at_timer [OF a3], of b e ENTER_TO_G3 3000] at_ctl [OF a3 c, of ENTER_TO_G3 3000] sm
    by (simp add: ctl_def)
  ultimately show ?thesis using p3 by (simp add: eval_nat_numeral)
qed

text \<open>
  A sleep virtual wire hides the transition it announces: when the host asserts the S3 virtual
  wire in S0, the handler already stores S3 as the requested state, so the sequence that follows
  the sleep pins pulls the S3 output low but leaves the recorded state at S0, and releasing the
  pins afterwards does not start the way back, because the monitor waits in S0.
\<close>

theorem virtual_wire_hides_s3:
  assumes "current_state s = SYSTEM_S0_STATE" "\<not> SLP_S5_ASSERT e" "next_stage s = FROM_S0_TO_S3S5"
    and "t = app_pseq_StateMachine b e (app_pseq_slp_handler ESPI_VWIRE_SIGNAL_SLP_S3 False s)"
    and "\<not> SLP_S3_ASSERT e'"
  shows "\<not> pins t EC_SLP_S3_S0A3_N \<and> current_state t = SYSTEM_S0_STATE \<and>
     ctl (app_pseq_stateMonitor b e' t) = ctl t \<and> \<not> pins (app_pseq_stateMonitor b e' t) EC_SLP_S3_S0A3_N"
proof -
  let ?u = "opt_write b EC_S0_LED False (gpio_write_pin EC_SLP_S3_S0A3_N False (opt_write b EC_CODEC_DEPOP_MUTE_N False
      (opt_write b ex_EP_CODEC_DEPOP_MUTEn False (opt_write b ex_EP_HDR_DEPOP_MUTEn False
        (if_do (opt b CONFIG_FAN_RPM_CONTROL) (emit Fan_disable) (s\<lparr>next_state := SYSTEM_S3_STATE\<rparr>))))))"
  have t: "t = app_pseq_setPwrStatus b e SYSTEM_S3_STATE ?u"
    using assms by (simp add: app_pseq_slp_handler_def sm_defs)
  have "core ?u = core (s\<lparr>next_state := SYSTEM_S3_STATE\<rparr>)" by simp
  then have "next_state ?u = SYSTEM_S3_STATE" "current_state ?u = SYSTEM_S0_STATE" using assms(1) by (simp_all add: core_def)
  then have "t = ?u" "current_state t = SYSTEM_S0_STATE" using t by (simp_all add: app_pseq_setPwrStatus_def)
  then show ?thesis using assms(5) by (simp add: app_pseq_stateMonitor_def)
qed

end
