(* ===== verification/Btn.thy ===== *)
theory Btn
  imports Pseq_Props
begin

text \<open>
  The power button: \<open>src/app/peripheral_management/app_btn.c\<close> and the power button part and
  commands of \<open>src/app/smchost/smchost_pm.c\<close>. The state of both modules and of the power
  sequencing, on which they act, is one record. Timers are armed with their period or stopped;
  calls of other modules are recorded. The test of the fingerprint mask and of the firmware
  version are arguments; after a \<open>Reboot_cold\<close> among the calls of the sequencing the controller
  does not continue.
\<close>

section \<open>State\<close>

datatype btn_call =
    Fch_pwrbtn bool \<comment> \<open>\<open>ASSERT_FCH_PWRBTN\<close>, \<open>DEASSERT_FCH_PWRBTN\<close>\<close>
  | Key_win_slide | Led_write bool | Handler_call nat bool | ManOs_pwrbtn_hook
  | Send_to_host u8 | Thermal_cs_exit

record btn =
  s_hadsentSlideToShutdown :: bool
  s_u32ecRstCount :: u32
  s_u32inS0Counter :: u32
  s_hasPwrStOtherThanS0 :: bool
  s_notifyPwrBtn :: bool
  s_triggerSlideShutDown :: bool
  s_triggerForceShutDown_ex :: bool
  s_kbcLedIndicator_dis :: bool
  pwrbtn_handlers :: "nat option list" \<comment> \<open>which handler is registered, \<open>MAX_PWRBTN_HANDLERS\<close> slots\<close>
  pwrbtn_handler_index :: nat
  pwr_btn_out_sts :: bool
  s_fakeFchBtnClick :: "u32 option"
  s_btnEcReset :: "u32 option"
  s_btnSlidShutDown :: "u32 option"
  s_btnForceShutDown :: "u32 option"
  s_btnForceShutDown_ex :: "u32 option"
  pwrbtn_notify :: bool
  legacy_wake_status :: u8
  cs_low_pwr_mode :: bool
  cs_state :: bool
  pwrbtn_post_sts :: "bool list" \<comment> \<open>two entries\<close>
  pwrbtn_post_pos :: u8
  pwrbtn_post_cnt :: u8
  fch_pwrbtn :: bool \<comment> \<open>the button output to the processor is asserted\<close>
  btn_calls :: "btn_call list"

record pwr =
  ps :: pseq
  bt :: btn

definition MAX_PWRBTN_HANDLERS :: nat where "MAX_PWRBTN_HANDLERS = 4"
definition EC_WDT_RESET_COUNT_ON_PWRBTN_LOW :: u32 where "EC_WDT_RESET_COUNT_ON_PWRBTN_LOW = 16 * 1000"
definition EC_DELAY_TO_SEND_PWRBTN :: u32 where "EC_DELAY_TO_SEND_PWRBTN = 6 * 1000"
definition EC_SLIDE_TO_SHUTDOWN :: u32 where "EC_SLIDE_TO_SHUTDOWN = 2 * 1000"
definition EC_DELAY_FORCE_SHUTDOWN_EX :: u32 where "EC_DELAY_FORCE_SHUTDOWN_EX = 10 * 1000"

definition btn_emit :: "btn_call \<Rightarrow> btn \<Rightarrow> btn" where
  "btn_emit c b = b\<lparr>btn_calls := btn_calls b @ [c]\<rparr>"

definition on_bt :: "(btn \<Rightarrow> btn) \<Rightarrow> pwr \<Rightarrow> pwr" where
  "on_bt f w = w\<lparr>bt := f (bt w)\<rparr>"

definition on_ps :: "(pseq \<Rightarrow> pseq) \<Rightarrow> pwr \<Rightarrow> pwr" where
  "on_ps f w = w\<lparr>ps := f (ps w)\<rparr>"

section \<open>The button output to the processor\<close>

definition app_btn_maskFchPwrBtn :: "btn \<Rightarrow> btn" where
  "app_btn_maskFchPwrBtn b = b\<lparr>s_notifyPwrBtn := False\<rparr>"

definition app_btn_unmaskFchPwrBtn :: "btn \<Rightarrow> btn" where
  "app_btn_unmaskFchPwrBtn b = b\<lparr>s_notifyPwrBtn := True\<rparr>"

definition app_btn_isFchPwrBtnNotifyEnabled :: "btn \<Rightarrow> bool" where
  "app_btn_isFchPwrBtnNotifyEnabled b = s_notifyPwrBtn b"

definition app_btn_assertFchPwrBtn :: "btn \<Rightarrow> btn" where
  "app_btn_assertFchPwrBtn = steps [app_btn_unmaskFchPwrBtn, \<lambda>b. b\<lparr>fch_pwrbtn := True\<rparr>, btn_emit (Fch_pwrbtn True)]"

definition app_btn_deassertFchPwrBtn :: "btn \<Rightarrow> btn" where
  "app_btn_deassertFchPwrBtn = steps [\<lambda>b. b\<lparr>fch_pwrbtn := False\<rparr>, btn_emit (Fch_pwrbtn False)]"

definition app_btn_slideHandler :: "btn \<Rightarrow> btn" where
  "app_btn_slideHandler = steps [app_btn_maskFchPwrBtn, \<lambda>b. b\<lparr>s_triggerSlideShutDown := True\<rparr>]"

definition app_btn_triggerPwrBtn :: "u8 \<Rightarrow> btn \<Rightarrow> btn" where
  "app_btn_triggerPwrBtn hold = if_do (hold \<noteq> 0)
     (steps [app_btn_assertFchPwrBtn, \<lambda>b. b\<lparr>s_fakeFchBtnClick := Some (ucast hold)\<rparr>])"

section \<open>Debounced events and handlers\<close>

definition app_btn_registerHandler :: "nat \<Rightarrow> btn \<Rightarrow> btn" where
  "app_btn_registerHandler handler b =
     (if pwrbtn_handler_index b < MAX_PWRBTN_HANDLERS
      then b\<lparr>pwrbtn_handlers := (pwrbtn_handlers b)[pwrbtn_handler_index b := Some handler],
             pwrbtn_handler_index := pwrbtn_handler_index b + 1\<rparr>
      else b)"

definition handler_calls :: "btn \<Rightarrow> bool \<Rightarrow> btn_call list" where
  "handler_calls b v = concat (map (\<lambda>h. case h of None \<Rightarrow> [] | Some i \<Rightarrow> [Handler_call i v]) (pwrbtn_handlers b))"

definition app_btn_debouncerPwrBtn :: "bool \<Rightarrow> btn \<Rightarrow> btn" where
  "app_btn_debouncerPwrBtn pwrbtn_evt b =
     (if pwrbtn_evt \<noteq> pwr_btn_out_sts b
      then b\<lparr>pwr_btn_out_sts := pwrbtn_evt, btn_calls := btn_calls b @ handler_calls b pwrbtn_evt\<rparr>
      else b)"

section \<open>Press and release\<close>

text \<open>\<open>slide\<close> is \<open>g_slideToShutdownEnabled\<close>, which the power sequencing owns.\<close>

definition release_click :: "bool \<Rightarrow> btn \<Rightarrow> btn" where
  "release_click slide b =
     (if_do (\<not> s_hadsentSlideToShutdown b \<and> \<not> s_hasPwrStOtherThanS0 b \<and> slide) (app_btn_triggerPwrBtn 30) b)
       \<lparr>s_hadsentSlideToShutdown := False\<rparr>"

definition app_btn_timer_stop_ex :: "bool \<Rightarrow> btn \<Rightarrow> btn" where
  "app_btn_timer_stop_ex slide = steps
     [\<lambda>b. if_do (s_triggerForceShutDown_ex b) (steps
        [app_btn_deassertFchPwrBtn, \<lambda>b. b\<lparr>s_u32ecRstCount := 0\<rparr>, release_click slide,
         \<lambda>b. b\<lparr>s_triggerForceShutDown_ex := False\<rparr>]) b,
      \<lambda>b. b\<lparr>s_btnEcReset := None, s_btnForceShutDown_ex := None\<rparr>]"

definition app_btn_timer_start_ex :: "btn \<Rightarrow> btn" where
  "app_btn_timer_start_ex b = b\<lparr>s_btnEcReset := Some EC_WDT_RESET_COUNT_ON_PWRBTN_LOW,
     s_btnForceShutDown_ex := Some EC_DELAY_FORCE_SHUTDOWN_EX\<rparr>"

definition app_btn_deassertCallback :: "bool \<Rightarrow> btn \<Rightarrow> btn" where
  "app_btn_deassertCallback slide = steps
     [app_btn_deassertFchPwrBtn, \<lambda>b. b\<lparr>s_u32ecRstCount := 0\<rparr>, release_click slide,
      \<lambda>b. b\<lparr>s_btnEcReset := None, s_btnSlidShutDown := None, s_btnForceShutDown := None\<rparr>]"

definition app_btn_assertCallback :: "btn \<Rightarrow> btn" where
  "app_btn_assertCallback b = b\<lparr>s_btnEcReset := Some EC_WDT_RESET_COUNT_ON_PWRBTN_LOW,
     s_btnSlidShutDown := Some EC_SLIDE_TO_SHUTDOWN, s_btnForceShutDown := Some EC_DELAY_TO_SEND_PWRBTN\<rparr>"

text \<open>\<open>dorne\<close> and \<open>kscan\<close> are the options \<open>BRD_MDS_DORNE\<close> and \<open>CONFIG_KSCAN\<close>.\<close>

definition indicator_leds :: "btn \<Rightarrow> btn" where
  "indicator_leds b =
     (if s_kbcLedIndicator_dis b then b
      else if s_u32inS0Counter b > 1000
      then (btn_emit (Led_write False) (btn_emit (Led_write False) b))\<lparr>s_kbcLedIndicator_dis := True\<rparr>
      else btn_emit (Led_write True) (btn_emit (Led_write True) b))"

definition app_btn_monitor :: "bool \<Rightarrow> bool \<Rightarrow> system_power_state \<Rightarrow> btn \<Rightarrow> btn" where
  "app_btn_monitor dorne kscan state = steps
     [if_do (state \<noteq> SYSTEM_S0_STATE) (steps
        [if_do dorne (\<lambda>b. if state = SYSTEM_S3_STATE then b\<lparr>s_kbcLedIndicator_dis := True\<rparr>
           else if s_kbcLedIndicator_dis b \<and> state \<noteq> SYSTEM_S0_R_STATE then b\<lparr>s_kbcLedIndicator_dis := False\<rparr>
           else b),
         \<lambda>b. b\<lparr>s_hasPwrStOtherThanS0 := True, s_u32inS0Counter := 0\<rparr>]),
      \<lambda>b. if_do (s_hasPwrStOtherThanS0 b \<and> state = SYSTEM_S0_STATE) (steps
        [\<lambda>b. b\<lparr>s_u32inS0Counter := s_u32inS0Counter b + 1\<rparr>, if_do dorne indicator_leds,
         \<lambda>b. if s_u32inS0Counter b > 1900 then b\<lparr>s_hasPwrStOtherThanS0 := False\<rparr> else b]) b,
      \<lambda>b. if_do (s_triggerSlideShutDown b) (steps
        [\<lambda>b. b\<lparr>s_triggerSlideShutDown := False\<rparr>, if_do kscan (btn_emit Key_win_slide)]) b]"

definition app_btn_ecReset :: "pwr \<Rightarrow> pwr" where
  "app_btn_ecReset = on_ps ec_reset"

section \<open>Timer callbacks\<close>

definition fakeFchBtnClickTimerCallback :: "btn \<Rightarrow> btn" where
  "fakeFchBtnClickTimerCallback = app_btn_deassertFchPwrBtn"

definition btnEcResetCallback :: "pwr \<Rightarrow> pwr" where
  "btnEcResetCallback = app_btn_ecReset"

definition btnSlidShutDownCallback :: "bool \<Rightarrow> btn \<Rightarrow> btn" where
  "btnSlidShutDownCallback slide b =
     (if slide \<and> \<not> s_hadsentSlideToShutdown b then app_btn_slideHandler (b\<lparr>s_hadsentSlideToShutdown := True\<rparr>) else b)"

definition btnForceShutDownCallback :: "bool \<Rightarrow> btn \<Rightarrow> btn" where
  "btnForceShutDownCallback slide = if_do slide app_btn_assertFchPwrBtn"

definition btnForceShutDownCallback_ex :: "bool \<Rightarrow> bool \<Rightarrow> btn \<Rightarrow> btn" where
  "btnForceShutDownCallback_ex wireless slide = steps
     [if_do wireless (btn_emit ManOs_pwrbtn_hook), btnSlidShutDownCallback slide, if_do slide app_btn_assertFchPwrBtn,
      \<lambda>b. b\<lparr>s_triggerForceShutDown_ex := True\<rparr>]"

section \<open>Power button events in the host module\<close>

definition state_order :: "system_power_state \<Rightarrow> nat" where
  "state_order pst = (case pst of SYSTEM_INIT_STATE \<Rightarrow> 0 | SYSTEM_G3_STATE \<Rightarrow> 1 | SYSTEM_S0_R_STATE \<Rightarrow> 2
     | SYSTEM_S0_STATE \<Rightarrow> 3 | SYSTEM_S3_STATE \<Rightarrow> 4 | SYSTEM_S4_STATE \<Rightarrow> 5 | SYSTEM_S5_STATE \<Rightarrow> 6)"

definition smchost_pwrbtn_post_handler :: "bool \<Rightarrow> bool \<Rightarrow> pwr \<Rightarrow> pwr" where
  "smchost_pwrbtn_post_handler fw_ok pwrbtn_sts w =
     (let state = current_state (ps w) in
      if state_order state \<ge> state_order SYSTEM_S3_STATE \<and> \<not> pwrbtn_sts then
        (if \<not> fw_ok then app_btn_ecReset w else on_ps (app_pseq_nextStep FROM_S5S3_TO_S0 5) w)
      else if state = SYSTEM_G3_STATE \<and> \<not> pwrbtn_sts then on_ps (app_pseq_nextStep FROM_G3_TO_S0 5) w
      else if state_order state \<ge> state_order SYSTEM_S4_STATE \<and> pwrbtn_sts then on_bt app_btn_deassertFchPwrBtn w
      else if \<not> g_slideToShutdownEnabled (ps w) then
        on_bt (if pwrbtn_sts then app_btn_deassertFchPwrBtn else app_btn_assertFchPwrBtn) w
      else w)"

definition smchost_pwrbtn_post_signal_probe :: "bool \<Rightarrow> pwr \<Rightarrow> pwr" where
  "smchost_pwrbtn_post_signal_probe fw_ok w =
     (if pwrbtn_post_cnt (bt w) \<noteq> 0 then
        (let pos = (if pwrbtn_post_cnt (bt w) \<ge> 2 then (pwrbtn_post_pos (bt w) + 1) mod 2 else pwrbtn_post_pos (bt w));
             w1 = (if pwrbtn_post_cnt (bt w) \<ge> 2
                   then smchost_pwrbtn_post_handler fw_ok (pwrbtn_post_sts (bt w) ! unat pos) w else w);
             w2 = smchost_pwrbtn_post_handler fw_ok (pwrbtn_post_sts (bt w1) ! unat pos) w1
         in on_bt (\<lambda>b. b\<lparr>pwrbtn_post_cnt := 0\<rparr>) w2)
      else w)"

text \<open>\<open>masked\<close>: the board has the fingerprint pins and they mask the button in S0.\<close>

definition postpone :: "bool \<Rightarrow> btn \<Rightarrow> btn" where
  "postpone v b =
     (let pos = (pwrbtn_post_pos b + 1) mod 2 in
      b\<lparr>pwrbtn_post_cnt := pwrbtn_post_cnt b + 1, pwrbtn_post_pos := pos,
        pwrbtn_post_sts := (pwrbtn_post_sts b)[unat pos := v]\<rparr>)"

definition smchost_pwrbtn_handler :: "bool \<Rightarrow> bool \<Rightarrow> bool \<Rightarrow> bool \<Rightarrow> pwr \<Rightarrow> pwr" where
  "smchost_pwrbtn_handler masked wireless fw_ok pwrbtn_sts w =
     (if masked \<and> current_state (ps w) = SYSTEM_S0_STATE then
        on_bt (if pwrbtn_sts then app_btn_timer_stop_ex (g_slideToShutdownEnabled (ps w)) else app_btn_timer_start_ex) w
      else
        (let w1 = (if g_pwrSeqDelay (ps w) = 0 then smchost_pwrbtn_post_handler fw_ok pwrbtn_sts w
                   else on_bt (postpone pwrbtn_sts) w)
         in on_bt (if pwrbtn_sts then app_btn_deassertCallback (g_slideToShutdownEnabled (ps w1))
              else steps [app_btn_assertCallback, if_do wireless (btn_emit ManOs_pwrbtn_hook)]) w1))"

section \<open>Power management commands of the host\<close>

datatype pm_command =
    SMCHOST_ENABLE_PWR_BTN_NOTIFY | SMCHOST_DISABLE_PWR_BTN_NOTIFY | SMCHOST_GET_LEGACY_WAKE_STS
  | SMCHOST_CLEAR_LEGACY_WAKE_STS | SMCHOST_SX_ENTRY | SMCHOST_SX_EXIT | SMCHOST_CS_ENTRY | SMCHOST_CS_EXIT | PM_other

definition cs_entry :: "btn \<Rightarrow> btn" where
  "cs_entry b = (if \<not> cs_low_pwr_mode b then b else b\<lparr>cs_state := True\<rparr>)"

definition cs_exit :: "bool \<Rightarrow> btn \<Rightarrow> btn" where
  "cs_exit thermal = steps [\<lambda>b. b\<lparr>cs_state := False\<rparr>, if_do thermal (btn_emit Thermal_cs_exit)]"

definition smchost_is_system_in_cs :: "btn \<Rightarrow> bool" where
  "smchost_is_system_in_cs b = cs_state b"

definition smchost_cmd_pm_handler :: "bool \<Rightarrow> pm_command \<Rightarrow> btn \<Rightarrow> btn" where
  "smchost_cmd_pm_handler thermal command b =
     (case command of
        SMCHOST_ENABLE_PWR_BTN_NOTIFY \<Rightarrow> b\<lparr>pwrbtn_notify := True\<rparr>
      | SMCHOST_DISABLE_PWR_BTN_NOTIFY \<Rightarrow> b\<lparr>pwrbtn_notify := False\<rparr>
      | SMCHOST_GET_LEGACY_WAKE_STS \<Rightarrow> btn_emit (Send_to_host (legacy_wake_status b)) b
      | SMCHOST_CLEAR_LEGACY_WAKE_STS \<Rightarrow> b\<lparr>legacy_wake_status := 0\<rparr>
      | SMCHOST_CS_ENTRY \<Rightarrow> cs_entry b
      | SMCHOST_CS_EXIT \<Rightarrow> cs_exit thermal b
      | _ \<Rightarrow> b)"

end
