(* ===== verification/Btn_Props.thy ===== *)
theory Btn_Props
  imports Btn
begin

text \<open>
  The power button together with the power sequencing: one pass of the power thread with the
  button state, that the composition keeps the invariant of the rails, which postponed events
  are handled, what the fingerprint mask does to the button timers, and that the button does not
  recover a system whose G3 was forced before S0.
\<close>

section \<open>The thread with the button\<close>

text \<open>The button pulses the sequencing asked for in a list of calls.\<close>

definition pulses :: "call list \<Rightarrow> btn \<Rightarrow> btn" where
  "pulses cs = fold (\<lambda>c. case c of Trigger_pwrbtn n \<Rightarrow> app_btn_triggerPwrBtn (of_nat n) | _ \<Rightarrow> id) cs"

definition power_pass :: "board \<Rightarrow> bool \<Rightarrow> bool \<Rightarrow> bool \<Rightarrow> env \<Rightarrow> env \<Rightarrow> pwr \<Rightarrow> pwr" where
  "power_pass b fw_ok dorne kscan e e' w =
     (let s0 = ps w;
          s1 = (if g_pwrSeqExpired s0
                then app_pseq_StateMachine b e (s0\<lparr>g_pwrSeqDelay := 0, g_pwrSeqExpired := False\<rparr>) else s0);
          w1 = w\<lparr>ps := s1, bt := pulses (drop (length (calls s0)) (calls s1)) (bt w)\<rparr>;
          w2 = (if g_pwrSeqDelay s1 \<noteq> 0 then on_ps (set_sleep_ready False) w1
                else steps [on_ps (emit Post_signal_probe), smchost_pwrbtn_post_signal_probe fw_ok,
                            on_ps (app_pseq_stateMonitor b e')] w1)
      in steps [on_ps (emit Btn_monitor), \<lambda>w. on_bt (app_btn_monitor dorne kscan (current_state (ps w))) w] w2)"

lemma on_simps [simp]: "ps (on_bt f w) = ps w" "ps (on_ps g w) = g (ps w)" "bt (on_bt f w) = f (bt w)" "bt (on_ps g w) = bt w"
  by (simp_all add: on_bt_def on_ps_def)

text \<open>The power sequencing was only asked for stages other modules may request.\<close>

definition asks :: "pwr \<Rightarrow> pwr \<Rightarrow> bool" where
  "asks w v \<longleftrightarrow> (\<exists>rs. fst ` set rs \<subseteq> external_stages \<and> ps v = requests rs (ps w))"

lemma asks_refl: "ps v = ps w \<Longrightarrow> asks w v"
  unfolding asks_def by (rule exI [of _ "[]"]) (simp add: requests_def)

lemma asks_next: "ps v = app_pseq_nextStep x d (ps w) \<Longrightarrow> x \<in> external_stages \<Longrightarrow> asks w v"
  unfolding asks_def by (rule exI [of _ "[(x, d)]"]) (simp add: requests_def)

lemma asks_trans: "asks u v \<Longrightarrow> asks v w \<Longrightarrow> asks u w"
proof -
  assume "asks u v" "asks v w"
  then obtain r1 r2 where "fst ` set r1 \<subseteq> external_stages" "ps v = requests r1 (ps u)"
    "fst ` set r2 \<subseteq> external_stages" "ps w = requests r2 (ps v)" by (auto simp: asks_def)
  then show ?thesis unfolding asks_def by (intro exI [of _ "r1 @ r2"]) (auto simp: requests_def)
qed

lemma post_handler_asks: "asks w (smchost_pwrbtn_post_handler True v w)"
  by (auto simp: smchost_pwrbtn_post_handler_def Let_def external_stages_def intro: asks_refl asks_next)

lemma probe_asks: "asks w (smchost_pwrbtn_post_signal_probe True w)"
  by (auto simp: smchost_pwrbtn_post_signal_probe_def Let_def intro: asks_refl post_handler_asks
      asks_trans [OF post_handler_asks post_handler_asks] asks_trans [OF _ asks_refl])

lemma power_pass_reachable:
  assumes "reachable b lvl (Running (ps w))"
  shows "reachable b lvl (Running (ps (power_pass b True dorne kscan e e' w)))"
proof -
  let ?s1 = "if g_pwrSeqExpired (ps w)
                then app_pseq_StateMachine b e ((ps w)\<lparr>g_pwrSeqDelay := 0, g_pwrSeqExpired := False\<rparr>) else ps w"
  let ?w1 = "w\<lparr>ps := ?s1, bt := pulses (drop (length (calls (ps w))) (calls ?s1)) (bt w)\<rparr>"
  obtain rs where r: "fst ` set rs \<subseteq> external_stages"
    "ps (smchost_pwrbtn_post_signal_probe True (on_ps (emit Post_signal_probe) ?w1)) =
       requests rs (ps (on_ps (emit Post_signal_probe) ?w1))"
    using probe_asks asks_def by blast
  have "ps (power_pass b True dorne kscan e e' w) = app_pseq_pass b (requests rs) e e' (ps w)"
    using r(2) by (simp add: power_pass_def app_pseq_pass_def Let_def)
  then show ?thesis using reachable.Step [OF assms pseq_step.Pass [OF r(1)]] by simp
qed

lemma button_event_reachable:
  assumes "reachable b lvl (Running (ps w))"
  shows "reachable b lvl (Running (ps (smchost_pwrbtn_handler masked wireless True v w)))"
proof -
  have "asks w (smchost_pwrbtn_handler masked wireless True v w)"
    by (auto simp: smchost_pwrbtn_handler_def Let_def intro: asks_refl asks_trans [OF post_handler_asks asks_refl])
  then obtain rs where rs: "fst ` set rs \<subseteq> external_stages"
    "ps (smchost_pwrbtn_handler masked wireless True v w) = requests rs (ps w)" by (auto simp: asks_def)
  have "reachable b lvl (Running (requests rs s))" if "reachable b lvl (Running s)" "fst ` set rs \<subseteq> external_stages" for s rs
    using that
  proof (induction rs arbitrary: s)
    case (Cons r rs)
    have "reachable b lvl (Running (app_pseq_nextStep (fst r) (snd r) s))"
      using Cons.prems by (intro reachable.Step [OF _ pseq_step.Request]) auto
    with Cons show ?case by (simp add: requests_def case_prod_beta)
  qed (simp add: requests_def)
  then show ?thesis using rs assms by simp
qed

section \<open>Runs of the power system\<close>

text \<open>
  The steps of the power system in one boot, without requests from modules other than the
  button: timers of the sequencing and of the button, passes, virtual wires and button events,
  with matching firmware or not. The hold of 16 seconds, and a press with firmware that does not
  match, end the boot.
\<close>

definition rebooted :: "pseq \<Rightarrow> bool" where
  "rebooted s \<longleftrightarrow> Reboot_cold \<in> set (calls s)"

definition button_timers :: "bool \<Rightarrow> bool \<Rightarrow> (btn \<Rightarrow> btn) set" where
  "button_timers wireless slide = {fakeFchBtnClickTimerCallback, btnSlidShutDownCallback slide,
     btnForceShutDownCallback slide, btnForceShutDownCallback_ex wireless slide}"

inductive power_run :: "board \<Rightarrow> pwr \<Rightarrow> pwr \<Rightarrow> bool" for b where
  Stay: "power_run b w w"
| Timer: "power_run b w v \<Longrightarrow> \<not> rebooted (ps v) \<Longrightarrow>
     power_run b w (on_ps (\<lambda>s. app_pseq_delayCallback (s\<lparr>delay_timer := None\<rparr>)) v)"
| Pass: "power_run b w v \<Longrightarrow> \<not> rebooted (ps v) \<Longrightarrow> power_run b w (power_pass b fw_ok dorne kscan e e' v)"
| Wire: "power_run b w v \<Longrightarrow> \<not> rebooted (ps v) \<Longrightarrow> power_run b w (on_ps (app_pseq_slp_handler signal status) v)"
| Button: "power_run b w v \<Longrightarrow> \<not> rebooted (ps v) \<Longrightarrow> power_run b w (smchost_pwrbtn_handler masked wireless fw_ok sts v)"
| Button_timer: "power_run b w v \<Longrightarrow> \<not> rebooted (ps v) \<Longrightarrow>
     f \<in> button_timers wireless (g_slideToShutdownEnabled (ps v)) \<Longrightarrow> power_run b w (on_bt f v)"
| Ec_reset: "power_run b w v \<Longrightarrow> \<not> rebooted (ps v) \<Longrightarrow> power_run b w (btnEcResetCallback v)"

text \<open>A forced G3 before S0: how far the stages are, and the rails they have switched off.\<close>

definition forced :: "pseq \<Rightarrow> bool" where
  "forced s \<longleftrightarrow> stuck s \<and> (next_stage s \<in> {FORCE_G3_Part3, ENTER_TO_G3} \<longrightarrow> \<not> pins s EC_1V8_S5_EN) \<and>
     (next_stage s = ENTER_TO_G3 \<longrightarrow> \<not> pins s EC_S5_PWREN)"

lemma forced_stuck: "forced s \<Longrightarrow> stuck s"
  by (simp add: forced_def)

lemma forced_actions [simp]:
  "forced (emit c s) = forced s" "forced (set_sleep_ready v s) = forced s"
  "forced (s\<lparr>g_pwrSeqDelay := d, g_pwrSeqExpired := f\<rparr>) = forced s"
  "forced (app_pseq_delayCallback (s\<lparr>delay_timer := None\<rparr>)) = forced s"
  by (simp_all add: forced_def) (simp_all add: action_defs app_pseq_delayCallback_def)

lemma forced_same: "forced s \<Longrightarrow> next_stage t = next_stage s \<Longrightarrow> stuck t \<Longrightarrow>
   (\<And>p. p \<in> {EC_1V8_S5_EN, EC_S5_PWREN} \<Longrightarrow> pins t p = pins s p) \<Longrightarrow> forced t"
  by (simp add: forced_def)

lemma setPwrStatus_forced: "forced s \<Longrightarrow> forced (app_pseq_setPwrStatus b e SYSTEM_G3_STATE s)"
proof -
  assume f: "forced s"
  then have "ctl (app_pseq_setPwrStatus b e SYSTEM_G3_STATE s) = ctl s"
    by (intro setPwrStatus_ctl) (simp add: forced_def stuck_def)
  with f show ?thesis by (intro forced_same [OF f]) (auto simp: setPwrStatus_stuck forced_stuck ctl_def)
qed

lemma StateMachine_forced: "forced s \<Longrightarrow> forced (app_pseq_StateMachine b e s)"
proof -
  assume f: "forced s"
  note st = StateMachine_stuck [OF forced_stuck [OF f], of b e]
  from f consider "next_stage s = FORCE_G3" | "next_stage s = FORCE_G3_Part1" | "next_stage s = FORCE_G3_Part2"
    | "next_stage s = FORCE_G3_Part3" | "next_stage s = ENTER_TO_G3"
    by (auto simp: forced_def stuck_def g3_stages_def)
  then show ?thesis
  proof cases
    case 5
    then show ?thesis using setPwrStatus_forced [OF f] by (simp add: sm_stage)
  qed (use st f in \<open>simp_all add: forced_def sm_force_g3\<close>)
qed

lemma stateMonitor_forced: "forced s \<Longrightarrow> forced (app_pseq_stateMonitor b e s)"
  by (rule forced_same) (simp_all add: stateMonitor_stuck forced_stuck, simp_all add: app_pseq_stateMonitor_def Let_def
      forced_def stuck_def)

lemma post_handler_stuck: "stuck (ps w) \<Longrightarrow> ps (smchost_pwrbtn_post_handler fw_ok v w) = ps w"
  by (simp add: smchost_pwrbtn_post_handler_def Let_def stuck_def state_order_def)

lemma probe_stuck: "stuck (ps w) \<Longrightarrow> ps (smchost_pwrbtn_post_signal_probe fw_ok w) = ps w"
  by (simp add: smchost_pwrbtn_post_signal_probe_def Let_def post_handler_stuck)

text \<open>A reset leaves the recorded state as it is and takes the 1.8 V rail off.\<close>

lemma ec_reset_forced: "forced s \<Longrightarrow> forced (ec_reset s)"
  by (auto simp: ec_reset_def) (auto simp: forced_def)

lemma slp_handler_forced: "forced s \<Longrightarrow> forced (app_pseq_slp_handler signal status s)"
  by (rule forced_same) (simp_all add: slp_handler_fields, simp add: forced_def stuck_def slp_handler_fields,
    simp add: app_pseq_slp_handler_def split: vwire.split)

lemma power_run_forced: "power_run b w v \<Longrightarrow> forced (ps w) \<Longrightarrow> forced (ps v)"
proof (induction rule: power_run.induct)
  case (Pass w v fw_ok dorne kscan e e')
  then show ?case
    by (simp add: power_pass_def Let_def StateMachine_forced stateMonitor_forced probe_stuck forced_stuck)
next
  case (Wire w v signal status)
  then show ?case by (simp add: slp_handler_forced)
next
  case (Button w v masked wireless fw_ok sts)
  then show ?case by (simp add: smchost_pwrbtn_handler_def Let_def post_handler_stuck forced_stuck)
next
  case (Ec_reset w v)
  then show ?case by (simp add: btnEcResetCallback_def app_btn_ecReset_def ec_reset_forced)
qed simp_all

section \<open>Properties\<close>

text \<open>
  C14. A forced G3 before S0 is not recovered by the button: when G3 is forced (thermal trip, hot
  bag, host or port controller) while the system waits in S0R, the recorded state stays S0R until
  the controller is reset, in every run of one boot made of timer expiries, passes, virtual wires,
  power button events and button timers, in any order and with matching firmware or not, as long
  as no other module requests a stage: the transition table has no way from S0R to G3, and the
  button requests a start only in G3 and from S3 on. The four stages of the forced G3 run all the
  same: when the stage after them stands, both S5 rails are off, and four timer expiries in a row,
  each followed by a pass, lead there. The boot ends only with the reset after a hold of the
  button for 16 seconds.
\<close>

theorem force_g3_in_s0r_unrecoverable:
  assumes "at SYSTEM_S0_R_STATE TRANSFERED_INTO_S0 100 (ps w)"
    and "power_run b (on_ps (app_pseq_nextStep FORCE_G3 1) w) v"
  shows "current_state (ps v) = SYSTEM_S0_R_STATE \<and>
     (next_stage (ps v) = ENTER_TO_G3 \<longrightarrow> \<not> pins (ps v) EC_S5_PWREN \<and> \<not> pins (ps v) EC_1V8_S5_EN) \<and>
     next_stage ((tick b e ^^ 4) (app_pseq_nextStep FORCE_G3 1 (ps w))) = ENTER_TO_G3"
proof -
  have a: "at SYSTEM_S0_R_STATE FORCE_G3 1 (app_pseq_nextStep FORCE_G3 1 (ps w))"
    using assms(1) at_fields [OF assms(1)] by (simp add: at_def)
  then have "forced (ps (on_ps (app_pseq_nextStep FORCE_G3 1) w))"
    using at_fields [OF a] by (simp add: forced_def stuck_def g3_stages_def)
  from power_run_forced [OF assms(2) this] force_g3_rails_off [OF a] show ?thesis by (simp add: forced_def stuck_def)
qed

definition demo_btn :: btn where
  "demo_btn = \<lparr>s_hadsentSlideToShutdown = False, s_u32ecRstCount = 0, s_u32inS0Counter = 0, s_hasPwrStOtherThanS0 = False,
     s_notifyPwrBtn = True, s_triggerSlideShutDown = False, s_triggerForceShutDown_ex = False, s_kbcLedIndicator_dis = False,
     pwrbtn_handlers = [Some 0, None, None, None], pwrbtn_handler_index = 1, pwr_btn_out_sts = True,
     s_fakeFchBtnClick = None, s_btnEcReset = None, s_btnSlidShutDown = None, s_btnForceShutDown = None,
     s_btnForceShutDown_ex = None, pwrbtn_notify = False, legacy_wake_status = 0, cs_low_pwr_mode = False,
     cs_state = False, pwrbtn_post_sts = [False, False], pwrbtn_post_pos = 0, pwrbtn_post_cnt = 0, fch_pwrbtn = False,
     btn_calls = []\<rparr>"

theorem force_g3_in_s0r_unrecoverable_witness:
  "\<exists>w. current_state (ps (btnEcResetCallback (smchost_pwrbtn_handler False False False False
       (on_ps (app_pseq_nextStep FORCE_G3 1) w)))) = SYSTEM_S0_R_STATE \<and>
     next_stage ((tick demo_board (demo_env True True) ^^ 4) (app_pseq_nextStep FORCE_G3 1 (ps w))) = ENTER_TO_G3"
proof -
  let ?s = "pseq_reset\<lparr>current_state := SYSTEM_S0_R_STATE, next_state := SYSTEM_S0_R_STATE,
     next_stage := TRANSFERED_INTO_S0, g_pwrSeqDelay := 100, delay_timer := Some 100\<rparr>"
  let ?w = "\<lparr>ps = ?s, bt = demo_btn\<rparr>"
  let ?v = "smchost_pwrbtn_handler False False False False (on_ps (app_pseq_nextStep FORCE_G3 1) ?w)"
  have a: "at SYSTEM_S0_R_STATE TRANSFERED_INTO_S0 100 (ps ?w)" by (simp add: at_def core_def ctl_def pseq_reset_def)
  have r: "\<not> rebooted (ps (on_ps (app_pseq_nextStep FORCE_G3 1) ?w))"
    by (simp add: rebooted_def app_pseq_nextStep_def pseq_reset_def)
  have v: "power_run demo_board (on_ps (app_pseq_nextStep FORCE_G3 1) ?w) ?v" by (rule power_run.Button [OF power_run.Stay r])
  have "ps ?v = ps (on_ps (app_pseq_nextStep FORCE_G3 1) ?w)"
    by (simp add: smchost_pwrbtn_handler_def Let_def) (simp add: app_pseq_nextStep_def)
  then have "\<not> rebooted (ps ?v)" using r by simp
  from force_g3_in_s0r_unrecoverable [OF a power_run.Ec_reset [OF v this], of "demo_env True True"]
  show ?thesis by blast
qed

lemma postpone_simps [simp]:
  "pwrbtn_post_cnt (postpone v b) = pwrbtn_post_cnt b + 1" "pwrbtn_post_pos (postpone v b) = (pwrbtn_post_pos b + 1) mod 2"
  by (simp_all add: postpone_def Let_def)

definition post_wf :: "btn \<Rightarrow> bool" where
  "post_wf b \<longleftrightarrow> length (pwrbtn_post_sts b) = 2 \<and> pwrbtn_post_pos b \<in> {0, 1}"

lemma postpone_wf: "post_wf b \<Longrightarrow> post_wf (postpone v b)"
  by (auto simp: post_wf_def postpone_def Let_def)

lemma postpone_run_wf: "post_wf b \<Longrightarrow> post_wf (fold postpone es b)"
  by (induction es arbitrary: b) (simp_all add: postpone_wf)

lemma postpone_run_cnt: "pwrbtn_post_cnt (fold postpone es b) = pwrbtn_post_cnt b + of_nat (length es)"
  by (induction es arbitrary: b) (simp_all add: algebra_simps)

text \<open>After two events the older one stands beside the position of the newer one.\<close>

lemma postpone_older:
  assumes "post_wf b"
  shows "pwrbtn_post_sts (postpone c (postpone a b)) ! unat ((pwrbtn_post_pos (postpone c (postpone a b)) + 1) mod 2) = a"
  using assms by (auto simp: post_wf_def postpone_def Let_def)

lemma post_handler_sts [simp]: "pwrbtn_post_sts (bt (smchost_pwrbtn_post_handler fw v w)) = pwrbtn_post_sts (bt w)"
  by (simp add: smchost_pwrbtn_post_handler_def Let_def app_btn_ecReset_def app_btn_deassertFchPwrBtn_def
      app_btn_assertFchPwrBtn_def app_btn_unmaskFchPwrBtn_def btn_emit_def)

lemma probe_one:
  assumes "post_wf b" "pwrbtn_post_cnt b = 0" "bt w = postpone c b"
  shows "smchost_pwrbtn_post_signal_probe fw_ok w =
     on_bt (\<lambda>b. b\<lparr>pwrbtn_post_cnt := 0\<rparr>) (smchost_pwrbtn_post_handler fw_ok c w)"
proof -
  have "\<not> (2 :: u8) \<le> 1" by (simp add: word_le_nat_alt)
  then show ?thesis using assms
    by (auto simp: smchost_pwrbtn_post_signal_probe_def Let_def post_wf_def) (auto simp: postpone_def Let_def)
qed

lemma probe_many:
  assumes "post_wf b" "pwrbtn_post_cnt b = 0" "length es < 254" "bt w = fold postpone (es @ [a, c]) b"
  shows "smchost_pwrbtn_post_signal_probe fw_ok w = on_bt (\<lambda>b. b\<lparr>pwrbtn_post_cnt := 0\<rparr>)
       (smchost_pwrbtn_post_handler fw_ok a (smchost_pwrbtn_post_handler fw_ok a w))"
proof -
  have "pwrbtn_post_cnt (bt w) = of_nat (length es + 2)" using assms(2,4) by (simp add: postpone_run_cnt algebra_simps)
  moreover have "unat (of_nat (length es + 2) :: u8) = length es + 2" using assms(3) by (subst unat_of_nat) simp
  ultimately have c: "pwrbtn_post_cnt (bt w) \<noteq> 0" "2 \<le> pwrbtn_post_cnt (bt w)"
    by (auto simp: word_le_nat_alt word_unat_eq_iff)
  have "pwrbtn_post_sts (bt w) ! unat ((pwrbtn_post_pos (bt w) + 1) mod 2) = a"
    using postpone_older [OF postpone_run_wf [OF assms(1)], of c a es] assms(4) by simp
  then show ?thesis using c by (simp add: smchost_pwrbtn_post_signal_probe_def Let_def)
qed

text \<open>
  The newest postponed button event is lost: when between 2 and 255 button events arrive
  while a stage is pending, the next idle pass handles the last but one of them twice and the
  last one not at all; a single postponed event is handled once. (With a firmware version that does
  not match, a press reboots the controller instead.)
\<close>

theorem postponed_button_event_lost:
  assumes "post_wf b" "pwrbtn_post_cnt b = 0" "length es < 254"
    and "w = \<lparr>ps = s, bt = fold postpone (es @ [a, c]) b\<rparr>" "v = \<lparr>ps = s, bt = postpone c b\<rparr>"
  shows "smchost_pwrbtn_post_signal_probe True w = on_bt (\<lambda>b. b\<lparr>pwrbtn_post_cnt := 0\<rparr>)
       (smchost_pwrbtn_post_handler True a (smchost_pwrbtn_post_handler True a w)) \<and>
     smchost_pwrbtn_post_signal_probe True v = on_bt (\<lambda>b. b\<lparr>pwrbtn_post_cnt := 0\<rparr>)
       (smchost_pwrbtn_post_handler True c v)"
  using probe_many [OF assms(1-3), of w a c True] probe_one [OF assms(1,2), of v c True] assms(4,5) by simp

lemma fch_callback_timers [simp]:
  "s_btnSlidShutDown (app_btn_deassertFchPwrBtn b) = s_btnSlidShutDown b"
  "s_btnForceShutDown (app_btn_deassertFchPwrBtn b) = s_btnForceShutDown b"
  "s_btnForceShutDown_ex (app_btn_deassertFchPwrBtn b) = s_btnForceShutDown_ex b"
  "s_btnSlidShutDown (app_btn_assertFchPwrBtn b) = s_btnSlidShutDown b"
  "s_btnForceShutDown (app_btn_assertFchPwrBtn b) = s_btnForceShutDown b"
  "s_btnForceShutDown_ex (app_btn_assertFchPwrBtn b) = s_btnForceShutDown_ex b"
  "fch_pwrbtn (app_btn_assertFchPwrBtn b)" "\<not> fch_pwrbtn (app_btn_deassertFchPwrBtn b)"
  by (simp_all add: app_btn_deassertFchPwrBtn_def app_btn_assertFchPwrBtn_def app_btn_unmaskFchPwrBtn_def btn_emit_def)

lemma release_click_timers [simp]:
  "s_btnSlidShutDown (release_click slide b) = s_btnSlidShutDown b"
  "s_btnForceShutDown (release_click slide b) = s_btnForceShutDown b"
  "s_btnForceShutDown_ex (release_click slide b) = s_btnForceShutDown_ex b"
  by (simp_all add: release_click_def if_do_def app_btn_triggerPwrBtn_def)

text \<open>
  The fingerprint mask must not change between press and release: in S0 with no stage
  pending, a press that is seen and a release under the mask leave the slide and the force
  timers running, so the processor's power button is asserted six seconds after a short press;
  a press under the mask and a release that is seen leave the extended timer running, which
  asserts it after ten seconds.
\<close>

theorem mask_change_leaves_timers:
  assumes "current_state (ps w) = SYSTEM_S0_STATE" "g_pwrSeqDelay (ps w) = 0" "g_slideToShutdownEnabled (ps w)"
    and "w1 = smchost_pwrbtn_handler True wireless fw True (smchost_pwrbtn_handler False wireless fw False w)"
    and "w2 = smchost_pwrbtn_handler False wireless fw True (smchost_pwrbtn_handler True wireless fw False w)"
  shows "s_btnSlidShutDown (bt w1) = Some EC_SLIDE_TO_SHUTDOWN \<and> s_btnForceShutDown (bt w1) = Some EC_DELAY_TO_SEND_PWRBTN \<and>
     fch_pwrbtn (btnForceShutDownCallback (g_slideToShutdownEnabled (ps w1)) (bt w1)) \<and>
     s_btnForceShutDown_ex (bt w2) = Some EC_DELAY_FORCE_SHUTDOWN_EX \<and>
     fch_pwrbtn (btnForceShutDownCallback_ex wireless (g_slideToShutdownEnabled (ps w2)) (bt w2))"
  using assms
  by (simp add: smchost_pwrbtn_handler_def Let_def smchost_pwrbtn_post_handler_def state_order_def app_btn_timer_stop_ex_def
      app_btn_timer_start_ex_def app_btn_deassertCallback_def app_btn_assertCallback_def btnForceShutDownCallback_def
      btnForceShutDownCallback_ex_def if_do_def btn_emit_def)

end
