(* ===== verification/Nvopt.thy ===== *)
theory Nvopt
  imports Bram Crc8 Flash
begin

text \<open>
  The non-volatile options: \<open>src/misc/f_nv_options.c\<close>. The options are a structure of 48 bytes in
  RAM, with a length, platform-specific bit fields, a magic number and two checksums; it is saved
  to one of two blocks of the internal flash in turn, and loaded from the first block that passes
  the checks. The position of the magic number, its value and the default bit fields depend on
  the board and the build and are a value of type \<open>nv_layout\<close>.
\<close>

section \<open>State\<close>

record nv_layout =
  magic_offset :: nat \<comment> \<open>\<open>FIELD_OFFSET(magic)\<close>\<close>
  NV_OPTIONS_MAGIC :: u32
  default_fields :: "u8 list" \<comment> \<open>the bytes from 4 to the magic after \<open>SET_NV_OPTIONS_TO_DEFAULT\<close>\<close>
  fan_control :: bool
  dorne_or_aeris :: bool
  has_s0_led :: bool
  has_sb_tsi :: bool
  has_usb32_rd_en :: bool
  has_usb32_rd_rst :: bool
  has_sensor_3v3 :: bool

datatype nv_pin = Slp_s5_n | Slp_s3_n | S0_led | Sb_tsi_sel | Rsmrst_n | Usb32_rd_en | Usb32_rd_rst_n | Sensor_3v3 | S5_1v8_en | S5_pwren

datatype nv_call = Fan_disable | Pin_low nv_pin | Busy_wait nat | Set_sig u32 | Reboot

record nvopt =
  g_ptrNvSpace :: "u8 list"
  s_activeBlock :: nat
  g_ecResetAfterSetOptions :: bool
  g_bytes256 :: "u8 list"
  nv_calls :: "nv_call list"

definition NV_OPTIONS_SIZE :: nat where "NV_OPTIONS_SIZE = 48"
definition s_blkLocation :: "nat list" where "s_blkLocation = [0x0E00, 0x0F00]"
definition NV_RAM_BLK_NUM :: nat where "NV_RAM_BLK_NUM = 2"
definition U_CRC8_ALG_WCDMA :: nat where "U_CRC8_ALG_WCDMA = 9"
definition U_CRC8_ALG_EBU :: nat where "U_CRC8_ALG_EBU = 4"

text \<open>Fields of the structure, by their offset.\<close>

definition crc0_offset :: "nv_layout \<Rightarrow> nat" where "crc0_offset L = magic_offset L + 4"
definition crc1_offset :: "nv_layout \<Rightarrow> nat" where "crc1_offset L = magic_offset L + 5"
definition reserved_offset :: "nv_layout \<Rightarrow> nat" where "reserved_offset L = magic_offset L + 6"
definition hasUpdate_offset :: "nv_layout \<Rightarrow> nat" where "hasUpdate_offset L = magic_offset L + 7"

definition f_nv_options_read :: "'d flash_dev \<Rightarrow> nat \<Rightarrow> nat \<Rightarrow> 'd \<Rightarrow> int \<times> u8 list" where
  "f_nv_options_read F offset len d = amd_crb_drivers_sFlash_int_read F offset len d"

definition f_nv_options_write :: "'d flash_dev \<Rightarrow> nat \<Rightarrow> u8 list \<Rightarrow> 'd \<Rightarrow> int \<times> 'd" where
  "f_nv_options_write F offset buf d = amd_crb_flash_byte_write F offset buf d"

section \<open>Defaults and checksums\<close>

definition nvram_loadDefault :: "nv_layout \<Rightarrow> u8 list" where
  "nvram_loadDefault L =
     (let z = replicate NV_OPTIONS_SIZE 0;
          m = wr32 (wr32 z (magic_offset L) (NV_OPTIONS_MAGIC L)) 0 (of_nat (magic_offset L));
          k = m[crc0_offset L := 0xFF, crc1_offset L := 0xFF, reserved_offset L := 0xFF, hasUpdate_offset L := 1]
      in put 4 (default_fields L) k)"

text \<open>One checksum over the first \<open>n\<close> bytes of the structure in RAM, with the shared table.\<close>

definition nv_crc :: "nat \<Rightarrow> u32 \<Rightarrow> nvopt \<Rightarrow> (u8 \<times> nvopt) res" where
  "nv_crc alg n v =
     (case u_crc8_makeTable alg (g_bytes256 v) 256 of
        Inl e \<Rightarrow> Inl e
      | Inr (ok, t) \<Rightarrow>
          (case load_seq (g_ptrNvSpace v) 0 (unat n) of
             Inl e \<Rightarrow> Inl e
           | Inr bs \<Rightarrow>
               (case crc8_compute alg t bs of Inl e \<Rightarrow> Inl e | Inr c \<Rightarrow> Inr (c, v\<lparr>g_bytes256 := t\<rparr>))))"

definition nvram_checkCrc :: "nv_layout \<Rightarrow> nvopt \<Rightarrow> (bool \<times> nvopt) res" where
  "nvram_checkCrc L v =
     (if rd32 (g_ptrNvSpace v) (magic_offset L) \<noteq> NV_OPTIONS_MAGIC L then Inr (False, v)
      else if rd32 (g_ptrNvSpace v) 0 \<noteq> of_nat (magic_offset L) then Inr (False, v)
      else
        (case nv_crc U_CRC8_ALG_WCDMA (rd32 (g_ptrNvSpace v) 0) v of
           Inl e \<Rightarrow> Inl e
         | Inr (r0, v0) \<Rightarrow>
             if r0 \<noteq> g_ptrNvSpace v0 ! crc0_offset L then Inr (False, v0)
             else
               (case nv_crc U_CRC8_ALG_EBU (rd32 (g_ptrNvSpace v0) 0) v0 of
                  Inl e \<Rightarrow> Inl e
                | Inr (r1, v1) \<Rightarrow> Inr (r1 = g_ptrNvSpace v1 ! crc1_offset L, v1))))"

definition set_byte :: "nat \<Rightarrow> u8 \<Rightarrow> nvopt \<Rightarrow> nvopt" where
  "set_byte i b v = v\<lparr>g_ptrNvSpace := (g_ptrNvSpace v)[i := b]\<rparr>"

definition nvram_updateCrc :: "nv_layout \<Rightarrow> nvopt \<Rightarrow> nvopt res" where
  "nvram_updateCrc L v =
     (if rd32 (g_ptrNvSpace v) (magic_offset L) \<noteq> NV_OPTIONS_MAGIC L then Inl Assert_failed
      else if rd32 (g_ptrNvSpace v) 0 \<noteq> of_nat (magic_offset L) then Inl Assert_failed
      else
        (case nv_crc U_CRC8_ALG_WCDMA (rd32 (g_ptrNvSpace v) 0) v of
           Inl e \<Rightarrow> Inl e
         | Inr (r0, v0) \<Rightarrow>
             (let w = set_byte (crc0_offset L) r0 v0 in
              case nv_crc U_CRC8_ALG_EBU (rd32 (g_ptrNvSpace w) 0) w of
                Inl e \<Rightarrow> Inl e
              | Inr (r1, w1) \<Rightarrow> Inr (set_byte (crc1_offset L) r1 w1))))"

section \<open>Load\<close>

text \<open>The blocks from the active one on, \<open>k\<close> of them; \<open>True\<close> when one passed.\<close>

fun load_blocks :: "nv_layout \<Rightarrow> 'd flash_dev \<Rightarrow> 'd \<Rightarrow> nat \<Rightarrow> nat \<Rightarrow> nvopt \<Rightarrow> (bool \<times> nvopt) res" where
  "load_blocks L F d blk 0 v = Inr (False, v)"
| "load_blocks L F d blk (Suc k) v =
     (let w = v\<lparr>g_ptrNvSpace := snd (f_nv_options_read F (s_blkLocation ! blk) NV_OPTIONS_SIZE d)\<rparr> in
      case nvram_checkCrc L w of
        Inl e \<Rightarrow> Inl e
      | Inr (True, w1) \<Rightarrow> Inr (True, set_byte (hasUpdate_offset L) 0 (w1\<lparr>s_activeBlock := blk\<rparr>))
      | Inr (False, w1) \<Rightarrow> load_blocks L F d ((blk + 1) mod NV_RAM_BLK_NUM) k w1)"

definition f_nv_options_load :: "nv_layout \<Rightarrow> 'd flash_dev \<Rightarrow> u32 \<Rightarrow> 'd \<Rightarrow> nvopt \<Rightarrow> nvopt res" where
  "f_nv_options_load L F bootReason d v =
     (if \<not> hasUpdate_offset L \<le> NV_OPTIONS_SIZE - 1 then Inl Assert_failed
      else
        (case (if bootReason = F_BRAM_VCI_BOOT_SIGNATURE then nvram_checkCrc L v else Inr (False, v)) of
           Inl e \<Rightarrow> Inl e
         | Inr (True, v1) \<Rightarrow> Inr (set_byte (hasUpdate_offset L) 0 v1)
         | Inr (False, v1) \<Rightarrow>
             (case load_blocks L F d (s_activeBlock v1) NV_RAM_BLK_NUM v1 of
                Inl e \<Rightarrow> Inl e
              | Inr (True, v2) \<Rightarrow> Inr v2
              | Inr (False, v2) \<Rightarrow>
                  Inr (set_byte (hasUpdate_offset L) 1 (v2\<lparr>s_activeBlock := 0, g_ptrNvSpace := nvram_loadDefault L\<rparr>)))))"

section \<open>Save\<close>

definition reset_calls :: "nv_layout \<Rightarrow> nv_call list" where
  "reset_calls L = (if fan_control L then [Fan_disable] else []) @
     (if dorne_or_aeris L then [Pin_low Slp_s5_n, Busy_wait 20000, Pin_low Slp_s3_n] else [Pin_low Slp_s5_n, Pin_low Slp_s3_n]) @
     (if has_s0_led L then [Pin_low S0_led] else []) @ (if has_sb_tsi L then [Pin_low Sb_tsi_sel] else []) @
     [Pin_low Rsmrst_n, Busy_wait 10000] @ (if has_usb32_rd_en L then [Pin_low Usb32_rd_en] else []) @
     (if has_usb32_rd_rst L then [Pin_low Usb32_rd_rst_n] else []) @ (if has_sensor_3v3 L then [Pin_low Sensor_3v3] else []) @
     [Pin_low S5_1v8_en, Busy_wait 20000, Pin_low S5_pwren, Set_sig F_BRAM_NV_OPTION_UPDATE_SIGNATURE, Busy_wait 10000, Reboot]"

definition f_nv_options_save :: "nv_layout \<Rightarrow> 'd flash_dev \<Rightarrow> nvopt \<times> 'd \<Rightarrow> (bool \<times> nvopt \<times> 'd) res" where
  "f_nv_options_save L F vd =
     (let (v, d) = vd in
      if rd32 (g_ptrNvSpace v) (magic_offset L) \<noteq> NV_OPTIONS_MAGIC L then Inl Assert_failed
      else if rd32 (g_ptrNvSpace v) 0 \<noteq> of_nat (magic_offset L) then Inl Assert_failed
      else if g_ptrNvSpace v ! hasUpdate_offset L = 0 then Inr (True, v, d)
      else
        (let blk = (s_activeBlock v + 1) mod NV_RAM_BLK_NUM; v1 = v\<lparr>s_activeBlock := blk\<rparr> in
         case nvram_updateCrc L v1 of
           Inl e \<Rightarrow> Inl e
         | Inr v2 \<Rightarrow>
             (let (ret, d1) = f_nv_options_write F (s_blkLocation ! blk) (g_ptrNvSpace v2) d;
                  v3 = set_byte (hasUpdate_offset L) 0 v2;
                  other = (blk + 1) mod NV_RAM_BLK_NUM;
                  (ret', d2) = f_nv_options_write F (s_blkLocation ! other + magic_offset L) (replicate 4 0xFF) d1;
                  v4 = (if g_ecResetAfterSetOptions v3
                        then v3\<lparr>g_ecResetAfterSetOptions := False, nv_calls := nv_calls v3 @ reset_calls L\<rparr> else v3)
              in Inr (True, v4, d2))))"

end
