(* ===== verification/Nvopt_Props.thy ===== *)
theory Nvopt_Props
  imports Nvopt
begin

text \<open>
  Saving and loading the options: what the checks accept, the round trip through the flash, and
  what a failed write does. The checksums are those of the reference computation of \<open>Crc8\<close>; the
  flash is any driver with the behaviour \<open>nor_flash\<close>.
\<close>

section \<open>Images\<close>

definition layout_ok :: "nv_layout \<Rightarrow> bool" where
  "layout_ok L \<longleftrightarrow> 4 \<le> magic_offset L \<and> magic_offset L + 8 \<le> NV_OPTIONS_SIZE \<and>
     length (default_fields L) = magic_offset L - 4 \<and> NV_OPTIONS_MAGIC L \<noteq> 0xFFFFFFFF"

definition header_ok :: "nv_layout \<Rightarrow> u8 list \<Rightarrow> bool" where
  "header_ok L sp \<longleftrightarrow> rd32 sp (magic_offset L) = NV_OPTIONS_MAGIC L \<and> rd32 sp 0 = of_nat (magic_offset L)"

definition image_ok :: "nv_layout \<Rightarrow> u8 list \<Rightarrow> bool" where
  "image_ok L sp \<longleftrightarrow> header_ok L sp \<and>
     sp ! crc0_offset L = crc8_ref (s_crc8Cfg ! U_CRC8_ALG_WCDMA) (take (magic_offset L) sp) \<and>
     sp ! crc1_offset L = crc8_ref (s_crc8Cfg ! U_CRC8_ALG_EBU) (take (magic_offset L) sp)"

definition nv_wf :: "nvopt \<Rightarrow> bool" where
  "nv_wf v \<longleftrightarrow> length (g_ptrNvSpace v) = NV_OPTIONS_SIZE \<and> length (g_bytes256 v) = 256 \<and> s_activeBlock v < NV_RAM_BLK_NUM"

lemmas nv_offsets = crc0_offset_def crc1_offset_def reserved_offset_def hasUpdate_offset_def NV_OPTIONS_SIZE_def

lemma length_unat: "layout_ok L \<Longrightarrow> unat (of_nat (magic_offset L) :: u32) = magic_offset L"
  by (rule unat_of_nat32) (simp add: layout_ok_def NV_OPTIONS_SIZE_def)

lemma nv_crc_ok:
  assumes "length (g_bytes256 v) = 256" "alg < 10" "unat n \<le> length (g_ptrNvSpace v)"
  shows "\<exists>t. nv_crc alg n v = Inr (crc8_ref (s_crc8Cfg ! alg) (take (unat n) (g_ptrNvSpace v)), v\<lparr>g_bytes256 := t\<rparr>) \<and> length t = 256"
proof -
  have u: "unat (256 :: u32) = 256" by simp
  obtain t where t: "crc8_fill (cfg_poly (s_crc8Cfg ! alg)) 256 0 (g_bytes256 v) = Inr t" "length t = 256"
    using crc8_fill_ok [of 256 "g_bytes256 v" "cfg_poly (s_crc8Cfg ! alg)" 0] assms(1) by auto
  then have m: "u_crc8_makeTable alg (g_bytes256 v) 256 = Inr (True, t)"
    using assms(2) by (simp add: u_crc8_makeTable_def U_CRC8_ALG_MAX_SUPPORT_def)
  have "crc8_compute alg t bs = Inr (crc8_ref (s_crc8Cfg ! alg) bs)" for bs
    using crc8_compute_ref [OF m] assms(1) u by simp
  with m t(2) assms(3) show ?thesis by (intro exI [of _ t]) (simp add: nv_crc_def access)
qed

lemma nv_crc_of:
  assumes "length (g_bytes256 v) = 256" "alg < 10" "unat n \<le> length (g_ptrNvSpace v)" "take (unat n) (g_ptrNvSpace v) = bs"
  shows "\<exists>t. nv_crc alg n v = Inr (crc8_ref (s_crc8Cfg ! alg) bs, v\<lparr>g_bytes256 := t\<rparr>) \<and> length t = 256"
  using nv_crc_ok [OF assms(1-3)] assms(4) by simp

lemma checkCrc_ok:
  assumes "layout_ok L" "length (g_ptrNvSpace v) = NV_OPTIONS_SIZE" "length (g_bytes256 v) = 256"
  shows "\<exists>t. nvram_checkCrc L v = Inr (image_ok L (g_ptrNvSpace v), v\<lparr>g_bytes256 := t\<rparr>) \<and> length t = 256"
proof (cases "header_ok L (g_ptrNvSpace v)")
  case False
  then show ?thesis using assms(3)
    by (intro exI [of _ "g_bytes256 v"]) (auto simp: nvram_checkCrc_def header_ok_def image_ok_def)
next
  case True
  let ?n = "rd32 (g_ptrNvSpace v) 0"
  have n: "unat ?n = magic_offset L" using True length_unat [OF assms(1)] by (simp add: header_ok_def)
  have le: "unat ?n \<le> length (g_ptrNvSpace v)" using assms(1,2) n by (simp add: layout_ok_def)
  obtain t0 where t0: "nv_crc U_CRC8_ALG_WCDMA ?n v = Inr (crc8_ref (s_crc8Cfg ! U_CRC8_ALG_WCDMA) (take (unat ?n) (g_ptrNvSpace v)), v\<lparr>g_bytes256 := t0\<rparr>)"
    "length t0 = 256"
    using nv_crc_ok [OF assms(3), of U_CRC8_ALG_WCDMA ?n] le by (auto simp: U_CRC8_ALG_WCDMA_def)
  obtain t1 where t1: "nv_crc U_CRC8_ALG_EBU ?n (v\<lparr>g_bytes256 := t0\<rparr>) =
      Inr (crc8_ref (s_crc8Cfg ! U_CRC8_ALG_EBU) (take (unat ?n) (g_ptrNvSpace v)), v\<lparr>g_bytes256 := t1\<rparr>)" "length t1 = 256"
    using nv_crc_ok [of "v\<lparr>g_bytes256 := t0\<rparr>" U_CRC8_ALG_EBU ?n] t0(2) le by (auto simp: U_CRC8_ALG_EBU_def)
  show ?thesis
  proof (cases "g_ptrNvSpace v ! crc0_offset L = crc8_ref (s_crc8Cfg ! U_CRC8_ALG_WCDMA) (take (magic_offset L) (g_ptrNvSpace v))")
    case True0: True
    with True t0 t1 n show ?thesis
      by (intro exI [of _ t1]) (auto simp: nvram_checkCrc_def header_ok_def image_ok_def)
  next
    case False
    with True t0 n show ?thesis
      by (intro exI [of _ t0]) (auto simp: nvram_checkCrc_def header_ok_def image_ok_def)
  qed
qed

lemma rd32_update_above: "j + 3 < i \<Longrightarrow> rd32 (xs[i := b]) j = rd32 xs j"
  by (simp add: rd32_def nth_list_update_neq)

lemma updateCrc_ok:
  assumes "layout_ok L" "nv_wf v" "header_ok L (g_ptrNvSpace v)"
  shows "\<exists>t sp. nvram_updateCrc L v = Inr (v\<lparr>g_bytes256 := t, g_ptrNvSpace := sp\<rparr>) \<and> length t = 256 \<and>
     length sp = NV_OPTIONS_SIZE \<and> image_ok L sp \<and> take (magic_offset L) sp = take (magic_offset L) (g_ptrNvSpace v)"
proof -
  let ?sp = "g_ptrNvSpace v" and ?m = "magic_offset L"
  let ?n = "rd32 ?sp 0"
  let ?ra = "crc8_ref (s_crc8Cfg ! U_CRC8_ALG_WCDMA) (take ?m ?sp)" and ?rb = "crc8_ref (s_crc8Cfg ! U_CRC8_ALG_EBU) (take ?m ?sp)"
  let ?spa = "?sp[crc0_offset L := ?ra]"
  let ?spb = "?spa[crc1_offset L := ?rb]"
  have len: "length ?sp = NV_OPTIONS_SIZE" "length (g_bytes256 v) = 256" using assms(2) by (auto simp: nv_wf_def)
  have m: "4 \<le> ?m" "?m + 8 \<le> NV_OPTIONS_SIZE" using assms(1) by (auto simp: layout_ok_def)
  have n: "unat ?n = ?m" using assms(3) length_unat [OF assms(1)] by (simp add: header_ok_def)
  have le: "unat ?n \<le> length ?sp" using m n len by simp
  have hd0: "rd32 ?spa 0 = ?n" using m by (simp add: rd32_update_above crc0_offset_def)
  obtain t0 where t0: "nv_crc U_CRC8_ALG_WCDMA ?n v = Inr (?ra, v\<lparr>g_bytes256 := t0\<rparr>)" "length t0 = 256"
    using nv_crc_ok [OF len(2), of U_CRC8_ALG_WCDMA ?n] le n by (auto simp: U_CRC8_ALG_WCDMA_def)
  let ?w = "v\<lparr>g_bytes256 := t0, g_ptrNvSpace := ?spa\<rparr>"
  have tk: "take ?m ?spa = take ?m ?sp" by (simp add: crc0_offset_def)
  have tw: "take (unat ?n) (g_ptrNvSpace ?w) = take ?m ?sp" using n tk by simp
  obtain t1 where t1: "nv_crc U_CRC8_ALG_EBU ?n ?w = Inr (?rb, ?w\<lparr>g_bytes256 := t1\<rparr>)" "length t1 = 256"
    using nv_crc_of [OF _ _ _ tw, of U_CRC8_ALG_EBU] t0(2) le by (force simp: U_CRC8_ALG_EBU_def)
  have h1: "header_ok L ?spb"
    using assms(3) m by (simp add: header_ok_def rd32_update_above nv_offsets)
  moreover have "take ?m ?spb = take ?m ?sp" by (simp add: nv_offsets)
  moreover have "?spb ! crc0_offset L = ?ra" "?spb ! crc1_offset L = ?rb" using m len by (simp_all add: nv_offsets)
  ultimately have "image_ok L ?spb" by (simp add: image_ok_def)
  moreover have "nvram_updateCrc L v = Inr (v\<lparr>g_bytes256 := t1, g_ptrNvSpace := ?spb\<rparr>)"
    using assms(3) t0 t1 hd0 by (simp add: nvram_updateCrc_def header_ok_def set_byte_def Let_def)
  moreover have "take ?m ?spb = take ?m ?sp" by (simp add: nv_offsets)
  ultimately show ?thesis using t1(2) len by (intro exI [of _ t1] exI [of _ ?spb]) simp
qed

section \<open>Drivers that work\<close>

lemma write_chunk_works:
  assumes "flash_works F c" "nor_flash F c" "offset + length chunk \<le> length (c d)" "SECTOR_SIZE dvd length (c d)"
    "offset mod SECTOR_SIZE + length chunk \<le> SECTOR_SIZE" "chunk \<noteq> []"
  shows "fst (write_chunk F offset chunk d) = 0"
proof -
  let ?so = "offset mod SECTOR_SIZE"
  let ?start = "offset - ?so"
  have "?start < length (c d)" using assms(3,6) by (cases chunk) auto
  moreover obtain k where k: "?start = SECTOR_SIZE * k" using minus_mod_eq_mult_div [of offset SECTOR_SIZE] by blast
  moreover obtain l where l: "length (c d) = SECTOR_SIZE * l" using assms(4) by (auto elim: dvdE)
  ultimately have "SECTOR_SIZE * Suc k \<le> SECTOR_SIZE * l" by (simp add: SECTOR_SIZE_def)
  then have room: "?start + SECTOR_SIZE \<le> length (c d)" using k l by simp
  have "fst (flash_read F ?start SECTOR_SIZE d) = 0" "length (snd (flash_read F ?start SECTOR_SIZE d)) = SECTOR_SIZE"
    using assms(1,2) room by (auto simp: flash_works_def nor_flash_def)
  then obtain buf where rd: "flash_read F ?start SECTOR_SIZE d = (0, buf)" "length buf = SECTOR_SIZE"
    by (cases "flash_read F ?start SECTOR_SIZE d") auto
  show ?thesis
  proof (cases "need_erase chunk (drop ?so buf)")
    case True
    have "fst (flash_erase F ?start SECTOR_SIZE d) = 0" using assms(1) room by (auto simp: flash_works_def)
    then obtain d1 where e: "flash_erase F ?start SECTOR_SIZE d = (0, d1)"
      by (cases "flash_erase F ?start SECTOR_SIZE d") auto
    then have l1: "length (c d1) = length (c d)" using assms(2) unfolding nor_flash_def by blast
    have "fst (flash_write F ?start (put ?so chunk buf) d1) = 0"
      using assms(1,5) room rd(2) l1 by (simp add: flash_works_def)
    with True rd e show ?thesis by (simp add: write_chunk_def Let_def)
  next
    case False
    with assms(1,3) rd show ?thesis by (simp add: write_chunk_def Let_def flash_works_def)
  qed
qed

text \<open>A write that stays inside one sector.\<close>

lemma byte_write_one:
  assumes "src \<noteq> []" "offset mod SECTOR_SIZE + length src \<le> SECTOR_SIZE"
  shows "amd_crb_flash_byte_write F offset src d = write_chunk F offset src d"
proof -
  have "chunk_len offset src = length src" using assms(2) by (simp add: chunk_len_def)
  then show ?thesis using assms(1)
    by (simp add: amd_crb_flash_byte_write_def write_chunks.simps [of F offset src d] write_chunks.simps [of F _ "[]"]
        case_prod_beta prod_eq_iff Let_def)
qed

lemma byte_write_works:
  assumes "flash_works F c" "nor_flash F c" "offset + length src \<le> length (c d)" "SECTOR_SIZE dvd length (c d)"
    "offset mod SECTOR_SIZE + length src \<le> SECTOR_SIZE" "src \<noteq> []"
  shows "c (snd (amd_crb_flash_byte_write F offset src d)) = put offset src (c d)"
proof -
  have "fst (amd_crb_flash_byte_write F offset src d) = 0"
    unfolding byte_write_one [OF assms(6,5)] by (rule write_chunk_works [OF assms])
  then show ?thesis using byte_write_ok [OF assms(2) _ assms(3)] by (metis prod.collapse)
qed

section \<open>Steps of save and load\<close>

declare load_blocks.simps(2) [simp del]

lemma save_steps:
  assumes "layout_ok L" "nv_wf v" "header_ok L (g_ptrNvSpace v)" "g_ptrNvSpace v ! hasUpdate_offset L \<noteq> 0"
    and "blk = (s_activeBlock v + 1) mod NV_RAM_BLK_NUM"
  shows "\<exists>sp v'. length sp = NV_OPTIONS_SIZE \<and> image_ok L sp \<and>
     take (magic_offset L) sp = take (magic_offset L) (g_ptrNvSpace v) \<and>
     g_ptrNvSpace v' = sp[hasUpdate_offset L := 0] \<and> s_activeBlock v' = blk \<and>
     f_nv_options_save L F (v, d) = Inr (True, v',
       snd (amd_crb_flash_byte_write F (s_blkLocation ! ((blk + 1) mod NV_RAM_BLK_NUM) + magic_offset L) (replicate 4 0xFF)
         (snd (amd_crb_flash_byte_write F (s_blkLocation ! blk) sp d))))"
proof -
  let ?v = "v\<lparr>s_activeBlock := blk\<rparr>"
  have "nv_wf ?v" "header_ok L (g_ptrNvSpace ?v)" using assms by (simp_all add: nv_wf_def NV_RAM_BLK_NUM_def)
  from updateCrc_ok [OF assms(1) this] obtain t sp where u: "nvram_updateCrc L ?v = Inr (?v\<lparr>g_bytes256 := t, g_ptrNvSpace := sp\<rparr>)"
    "length sp = NV_OPTIONS_SIZE" "image_ok L sp" "take (magic_offset L) sp = take (magic_offset L) (g_ptrNvSpace v)"
    by auto
  moreover have "Suc (s_activeBlock v) mod NV_RAM_BLK_NUM = blk" using assms(5) by simp
  ultimately show ?thesis using assms(3,4)
    by (intro exI [of _ sp]) (auto simp: f_nv_options_save_def header_ok_def set_byte_def f_nv_options_write_def Let_def
        case_prod_beta)
qed

lemma load_blocks_step:
  assumes "layout_ok L" "length (g_bytes256 v) = 256" "length img = NV_OPTIONS_SIZE"
    and "img = snd (flash_read F (s_blkLocation ! blk) NV_OPTIONS_SIZE d)"
  shows "\<exists>t. length t = 256 \<and> load_blocks L F d blk (Suc k) v =
     (if image_ok L img
      then Inr (True, set_byte (hasUpdate_offset L) 0 (v\<lparr>g_ptrNvSpace := img, g_bytes256 := t, s_activeBlock := blk\<rparr>))
      else load_blocks L F d ((blk + 1) mod NV_RAM_BLK_NUM) k (v\<lparr>g_ptrNvSpace := img, g_bytes256 := t\<rparr>))"
proof -
  from checkCrc_ok [OF assms(1), of "v\<lparr>g_ptrNvSpace := img\<rparr>"] assms(2,3)
  obtain t where "nvram_checkCrc L (v\<lparr>g_ptrNvSpace := img\<rparr>) = Inr (image_ok L img, v\<lparr>g_ptrNvSpace := img, g_bytes256 := t\<rparr>)"
    "length t = 256" by auto
  then show ?thesis
    by (intro exI [of _ t]) (simp add: load_blocks.simps(2) f_nv_options_read_def amd_crb_drivers_sFlash_int_read_def Let_def flip: assms(4))
qed

text \<open>A cold start tries block 0, then block 1, then the defaults.\<close>

lemma load_cold:
  assumes "layout_ok L" "length (g_bytes256 v) = 256" "s_activeBlock v = 0" "reason \<noteq> F_BRAM_VCI_BOOT_SIGNATURE"
    and rd: "\<And>off. length (snd (flash_read F off NV_OPTIONS_SIZE d)) = NV_OPTIONS_SIZE"
  shows "\<exists>w. f_nv_options_load L F reason d v = Inr w \<and>
     g_ptrNvSpace w = (let a = snd (flash_read F 0x0E00 NV_OPTIONS_SIZE d); b = snd (flash_read F 0x0F00 NV_OPTIONS_SIZE d) in
       if image_ok L a then a[hasUpdate_offset L := 0] else if image_ok L b then b[hasUpdate_offset L := 0]
       else (nvram_loadDefault L)[hasUpdate_offset L := 1]) \<and>
     s_activeBlock w = (if \<not> image_ok L (snd (flash_read F 0x0E00 NV_OPTIONS_SIZE d)) \<and>
        image_ok L (snd (flash_read F 0x0F00 NV_OPTIONS_SIZE d)) then 1 else 0)"
proof -
  let ?a = "snd (flash_read F 0x0E00 NV_OPTIONS_SIZE d)" and ?b = "snd (flash_read F 0x0F00 NV_OPTIONS_SIZE d)"
  have loc: "s_blkLocation ! 0 = 0x0E00" "s_blkLocation ! Suc 0 = 0x0F00" by (simp_all add: s_blkLocation_def)
  have u: "hasUpdate_offset L \<le> NV_OPTIONS_SIZE - 1" using assms(1) by (simp add: layout_ok_def nv_offsets)
  obtain s where s: "length s = 256" "load_blocks L F d 0 (Suc 1) v = (if image_ok L ?a
      then Inr (True, set_byte (hasUpdate_offset L) 0 (v\<lparr>g_ptrNvSpace := ?a, g_bytes256 := s, s_activeBlock := 0\<rparr>))
      else load_blocks L F d (Suc 0) 1 (v\<lparr>g_ptrNvSpace := ?a, g_bytes256 := s\<rparr>))"
    using load_blocks_step [OF assms(1,2) rd refl, where blk = 0 and k = 1] loc by (auto simp: NV_RAM_BLK_NUM_def cong: if_cong)
  let ?v = "v\<lparr>g_ptrNvSpace := ?a, g_bytes256 := s\<rparr>"
  obtain t where t: "load_blocks L F d (Suc 0) (Suc 0) ?v = (if image_ok L ?b
      then Inr (True, set_byte (hasUpdate_offset L) 0 (?v\<lparr>g_ptrNvSpace := ?b, g_bytes256 := t, s_activeBlock := Suc 0\<rparr>))
      else load_blocks L F d 0 0 (?v\<lparr>g_ptrNvSpace := ?b, g_bytes256 := t\<rparr>))"
    using load_blocks_step [OF assms(1) _ rd refl, where v = ?v and blk = "Suc 0" and k = 0] s(1) loc by (auto simp: NV_RAM_BLK_NUM_def cong: if_cong)
  have n: "load_blocks L F d 0 NV_RAM_BLK_NUM v = load_blocks L F d 0 (Suc 1) v" by (simp add: NV_RAM_BLK_NUM_def numeral_2_eq_2)
  show ?thesis
    using s(2) t u assms(3,4) by (auto simp: f_nv_options_load_def n set_byte_def Let_def)
qed

section \<open>Properties\<close>

lemma cleared_magic:
  assumes "layout_ok L" "off + NV_OPTIONS_SIZE \<le> length m"
  shows "\<not> image_ok L (slice off NV_OPTIONS_SIZE (put (off + magic_offset L) (replicate 4 0xFF) m))"
proof -
  have k: "magic_offset L + 8 \<le> NV_OPTIONS_SIZE" using assms(1) by (simp add: layout_ok_def)
  have "slice off NV_OPTIONS_SIZE (put (off + magic_offset L) (replicate 4 0xFF) m) ! (magic_offset L + i) = 0xFF" if "i < 4" for i
    using that assms(2) k by (simp add: nth_slice nth_put)
  from this [of 0] this [of 1] this [of 2] this [of 3]
  have "rd32 (slice off NV_OPTIONS_SIZE (put (off + magic_offset L) (replicate 4 0xFF) m)) (magic_offset L) = 0xFFFFFFFF"
    by (simp add: rd32_def)
  with assms(1) show ?thesis by (simp add: image_ok_def header_ok_def layout_ok_def)
qed

text \<open>
  C15. Options survive a save and a cold start: with a working flash, saving changed options and
  loading them again from any RAM contents gives the same option fields, from the block that
  was written last, with the update flag clear; the block that held the older options is
  invalidated and does not win.
\<close>

theorem nv_save_load_roundtrip:
  assumes "layout_ok L" "nor_flash F c" "flash_works F c" "SECTOR_SIZE dvd length (c d)" "0 < length (c d)"
    and "nv_wf v" "header_ok L (g_ptrNvSpace v)" "g_ptrNvSpace v ! hasUpdate_offset L \<noteq> 0"
    and "nv_wf v0" "s_activeBlock v0 = 0" "reason \<noteq> F_BRAM_VCI_BOOT_SIGNATURE"
  shows "\<exists>v' d' w. f_nv_options_save L F (v, d) = Inr (True, v', d') \<and> f_nv_options_load L F reason d' v0 = Inr w \<and>
     take (magic_offset L) (g_ptrNvSpace w) = take (magic_offset L) (g_ptrNvSpace v) \<and>
     g_ptrNvSpace w ! hasUpdate_offset L = 0 \<and> s_activeBlock w = s_activeBlock v'"
proof -
  have big: "4096 \<le> length (c d)" using assms(4,5) by (auto simp: SECTOR_SIZE_def dest: dvd_imp_le)
  have k: "4 \<le> magic_offset L" "magic_offset L + 8 \<le> 48" using assms(1) by (simp_all add: layout_ok_def NV_OPTIONS_SIZE_def)
  define blk where "blk = (s_activeBlock v + 1) mod NV_RAM_BLK_NUM"
  have blk: "blk = 0 \<or> blk = 1" by (auto simp: blk_def NV_RAM_BLK_NUM_def)
  let ?other = "(blk + 1) mod NV_RAM_BLK_NUM"
  obtain sp v' where sv: "length sp = NV_OPTIONS_SIZE" "image_ok L sp"
    "take (magic_offset L) sp = take (magic_offset L) (g_ptrNvSpace v)" "s_activeBlock v' = blk"
    "f_nv_options_save L F (v, d) = Inr (True, v',
       snd (amd_crb_flash_byte_write F (s_blkLocation ! ?other + magic_offset L) (replicate 4 0xFF)
         (snd (amd_crb_flash_byte_write F (s_blkLocation ! blk) sp d))))"
    using save_steps [OF assms(1,6-8) blk_def, of F d] by (elim exE conjE) (rule that)
  let ?loc = "s_blkLocation ! blk" and ?oth = "s_blkLocation ! ?other"
  have loc: "(blk = 0 \<and> ?loc = 0x0E00 \<and> ?oth = 0x0F00) \<or> (blk = 1 \<and> ?loc = 0x0F00 \<and> ?oth = 0x0E00)"
    using blk by (elim disjE) (simp_all add: s_blkLocation_def NV_RAM_BLK_NUM_def)
  let ?d1 = "snd (amd_crb_flash_byte_write F ?loc sp d)"
  let ?d2 = "snd (amd_crb_flash_byte_write F (?oth + magic_offset L) (replicate 4 0xFF) ?d1)"
  have ne: "sp \<noteq> []" using sv(1) by (auto simp: NV_OPTIONS_SIZE_def)
  have c1: "c ?d1 = put ?loc sp (c d)"
    using loc big sv(1) ne by (intro byte_write_works [OF assms(3,2)] assms(4)) (auto simp: SECTOR_SIZE_def NV_OPTIONS_SIZE_def)
  have l1: "length (c ?d1) = length (c d)" using c1 loc big sv(1) by (auto simp: NV_OPTIONS_SIZE_def)
  have c2: "c ?d2 = put (?oth + magic_offset L) (replicate 4 0xFF) (c ?d1)"
    using loc big k l1 assms(4) by (intro byte_write_works [OF assms(3,2)]) (auto simp: SECTOR_SIZE_def)
  have l2: "length (c ?d2) = length (c d)" using c2 l1 loc big k by auto
  have new: "slice ?loc NV_OPTIONS_SIZE (c ?d2) = sp"
  proof -
    have "slice ?loc NV_OPTIONS_SIZE (c ?d2) = slice ?loc NV_OPTIONS_SIZE (c ?d1)"
      unfolding c2 using loc big k l1 by (intro slice_put_other) (auto simp: NV_OPTIONS_SIZE_def)
    also have "\<dots> = sp" unfolding c1 using loc big sv(1) by (intro slice_put) (auto simp: NV_OPTIONS_SIZE_def)
    finally show ?thesis .
  qed
  have old: "\<not> image_ok L (slice ?oth NV_OPTIONS_SIZE (c ?d2))"
    unfolding c2 using loc big l1 by (intro cleared_magic [OF assms(1)]) (auto simp: NV_OPTIONS_SIZE_def)
  have rd: "snd (flash_read F off NV_OPTIONS_SIZE ?d2) = slice off NV_OPTIONS_SIZE (c ?d2)" if "off \<le> 4000" for off
    using that l2 big by (intro flash_read_works [OF assms(3,2)]) (simp add: NV_OPTIONS_SIZE_def)
  have len: "\<And>off. length (snd (flash_read F off NV_OPTIONS_SIZE ?d2)) = NV_OPTIONS_SIZE"
    using assms(2) by (auto simp: nor_flash_def)
  have t0: "length (g_bytes256 v0) = 256" using assms(9) by (simp add: nv_wf_def)
  obtain w where w: "f_nv_options_load L F reason ?d2 v0 = Inr w" "g_ptrNvSpace w = sp[hasUpdate_offset L := 0]" "s_activeBlock w = blk"
    using load_cold [OF assms(1) t0 assms(10,11) len] loc new old sv(2) rd [of "0x0E00"] rd [of "0x0F00"] by (auto simp: Let_def)
  have "take (magic_offset L) (sp[hasUpdate_offset L := 0]) = take (magic_offset L) sp" by (simp add: hasUpdate_offset_def)
  moreover have "sp[hasUpdate_offset L := 0] ! hasUpdate_offset L = 0"
    using sv(1) k by (simp add: hasUpdate_offset_def NV_OPTIONS_SIZE_def)
  ultimately show ?thesis using sv w by auto
qed

text \<open>A flash of one sector, and a board whose magic number is at offset 32.\<close>

definition demo_layout :: nv_layout where
  "demo_layout = \<lparr>magic_offset = 32, NV_OPTIONS_MAGIC = 0x12345678, default_fields = replicate 28 0, fan_control = False,
     dorne_or_aeris = False, has_s0_led = False, has_sb_tsi = False, has_usb32_rd_en = False, has_usb32_rd_rst = False,
     has_sensor_3v3 = False\<rparr>"

definition demo_nv :: nvopt where
  "demo_nv = \<lparr>g_ptrNvSpace = (wr32 (wr32 (replicate 48 0) 32 0x12345678) 0 32)[4 := 0x5A, 39 := 1], s_activeBlock = 0,
     g_ecResetAfterSetOptions = False, g_bytes256 = replicate 256 0, nv_calls = []\<rparr>"

lemma demo_layout_ok: "layout_ok demo_layout"
  by (simp add: layout_ok_def demo_layout_def NV_OPTIONS_SIZE_def)

lemma demo_nv_ok: "nv_wf demo_nv" "header_ok demo_layout (g_ptrNvSpace demo_nv)"
    "g_ptrNvSpace demo_nv ! hasUpdate_offset demo_layout \<noteq> 0"
    "length (g_bytes256 demo_nv) = 256" "s_activeBlock demo_nv = 0"
  by (simp_all add: nv_wf_def demo_nv_def demo_layout_def header_ok_def NV_OPTIONS_SIZE_def NV_RAM_BLK_NUM_def
      hasUpdate_offset_def rd32_def wr32_def)

theorem nv_save_load_roundtrip_witness:
  "\<exists>v' d' w. f_nv_options_save demo_layout demo_flash (demo_nv, replicate 4096 0) = Inr (True, v', d') \<and>
     f_nv_options_load demo_layout demo_flash F_BRAM_COLD_BOOT_SIGNATURE d' demo_nv = Inr w \<and>
     take 32 (g_ptrNvSpace w) = take 32 (g_ptrNvSpace demo_nv)"
proof -
  have r: "F_BRAM_COLD_BOOT_SIGNATURE \<noteq> F_BRAM_VCI_BOOT_SIGNATURE" by (simp add: bram_signatures)
  have l: "SECTOR_SIZE dvd length (id (replicate 4096 0 :: u8 list))" "0 < length (id (replicate 4096 0 :: u8 list))"
    by (simp_all add: SECTOR_SIZE_def)
  have m: "magic_offset demo_layout = 32" by (simp add: demo_layout_def)
  show ?thesis
    using nv_save_load_roundtrip [OF demo_layout_ok demo_flash_nor demo_flash_works l demo_nv_ok(1-3) demo_nv_ok(1,5) r]
    unfolding m by blast
qed

text \<open>Drivers that read and erase, and whose write operation fails without writing.\<close>

definition flash_write_fails :: "'d flash_dev \<Rightarrow> ('d \<Rightarrow> u8 list) \<Rightarrow> bool" where
  "flash_write_fails F c \<longleftrightarrow>
     (\<forall>off n d. off + n \<le> length (c d) \<longrightarrow> fst (flash_read F off n d) = 0 \<and> fst (flash_erase F off n d) = 0) \<and>
     (\<forall>off xs d. fst (flash_write F off xs d) \<noteq> 0 \<and> snd (flash_write F off xs d) = d)"

lemma need_erase_take: "need_erase (take k src) (take k old) \<Longrightarrow> need_erase src old"
  by (auto simp: need_erase_def list_ex_iff take_zip [symmetric] dest: in_set_takeD)

lemma need_erase_at: "i < length src \<Longrightarrow> i < length old \<Longrightarrow> src ! i AND NOT (old ! i) \<noteq> 0 \<Longrightarrow> need_erase src old"
  by (force simp: need_erase_def list_ex_iff in_set_zip)

lemma need_erase_ones: "\<not> need_erase src (replicate n 0xFF)"
proof -
  have "(0xFF :: u8) = - 1" by simp
  then have "x AND NOT (0xFF :: u8) = 0" for x by (metis and_zero_eq bit.compl_one)
  then show ?thesis by (auto simp: need_erase_def list_ex_iff in_set_zip)
qed

lemma blank_image: "layout_ok L \<Longrightarrow> \<not> image_ok L (replicate NV_OPTIONS_SIZE 0xFF)"
  by (simp add: image_ok_def header_ok_def rd32_def layout_ok_def NV_OPTIONS_SIZE_def)

text \<open>
  C16. A failed write loses every saved option: both blocks lie in one sector of the flash. When a
  save has to erase this sector and writing it back fails, the erased sector stays blank; the
  save still reports success and clears the update flag, so it is not tried again, and the next
  cold start loads the defaults although the block with the older options was intact before.
\<close>

theorem nv_failed_write_loses_options:
  assumes "layout_ok L" "nor_flash F c" "flash_write_fails F c" "SECTOR_SIZE \<le> length (c d)"
    and "nv_wf v" "header_ok L (g_ptrNvSpace v)" "g_ptrNvSpace v ! hasUpdate_offset L \<noteq> 0"
    and "blk = (s_activeBlock v + 1) mod NV_RAM_BLK_NUM"
    and "need_erase (take (magic_offset L) (g_ptrNvSpace v)) (slice (s_blkLocation ! blk) (magic_offset L) (c d))"
    and "nv_wf v0" "s_activeBlock v0 = 0" "reason \<noteq> F_BRAM_VCI_BOOT_SIGNATURE"
  shows "\<exists>v' d' w. f_nv_options_save L F (v, d) = Inr (True, v', d') \<and> g_ptrNvSpace v' ! hasUpdate_offset L = 0 \<and>
     f_nv_options_load L F reason d' v0 = Inr w \<and> g_ptrNvSpace w = (nvram_loadDefault L)[hasUpdate_offset L := 1]"
proof -
  have k: "magic_offset L + 8 \<le> 48" using assms(1) by (simp add: layout_ok_def NV_OPTIONS_SIZE_def)
  let ?other = "(blk + 1) mod NV_RAM_BLK_NUM"
  obtain sp v' where sv: "length sp = NV_OPTIONS_SIZE" "image_ok L sp"
    "take (magic_offset L) sp = take (magic_offset L) (g_ptrNvSpace v)" "g_ptrNvSpace v' = sp[hasUpdate_offset L := 0]"
    "f_nv_options_save L F (v, d) = Inr (True, v',
       snd (amd_crb_flash_byte_write F (s_blkLocation ! ?other + magic_offset L) (replicate 4 0xFF)
         (snd (amd_crb_flash_byte_write F (s_blkLocation ! blk) sp d))))"
    using save_steps [OF assms(1,5-8), of F d] by (elim exE conjE) (rule that)
  let ?loc = "s_blkLocation ! blk"
  define oth where "oth = s_blkLocation ! ?other"
  have "blk = 0 \<or> blk = 1" using assms(8) by (auto simp: NV_RAM_BLK_NUM_def)
  then have loc: "(?loc = 0x0E00 \<and> oth = 0x0F00) \<or> (?loc = 0x0F00 \<and> oth = 0x0E00)"
    by (elim disjE) (simp_all add: oth_def s_blkLocation_def NV_RAM_BLK_NUM_def)
  have S: "SECTOR_SIZE = 4096" by (simp add: SECTOR_SIZE_def)
  have N: "NV_OPTIONS_SIZE = 48" by (simp add: NV_OPTIONS_SIZE_def)
  have so: "?loc mod SECTOR_SIZE = ?loc" "(oth + magic_offset L) mod SECTOR_SIZE = oth + magic_offset L"
    using loc k by (auto simp: S)
  have rd0: "flash_read F 0 SECTOR_SIZE e = (0, slice 0 SECTOR_SIZE (c e))" if "SECTOR_SIZE \<le> length (c e)" for e
  proof -
    have "fst (flash_read F 0 SECTOR_SIZE e) = 0" using assms(3) that by (simp add: flash_write_fails_def)
    then show ?thesis using assms(2) by (simp add: nor_flash_def prod_eq_iff)
  qed
  have tk: "take (magic_offset L) (drop ?loc (slice 0 SECTOR_SIZE (c d))) = slice ?loc (magic_offset L) (c d)"
    using loc k assms(4) by (auto simp: slice_def S drop_take min_def)
  have ne: "need_erase sp (drop ?loc (slice 0 SECTOR_SIZE (c d)))"
    by (rule need_erase_take [of "magic_offset L"]) (simp only: tk sv(3) assms(9))
  have "fst (flash_erase F 0 SECTOR_SIZE d) = 0" using assms(3,4) by (simp add: flash_write_fails_def)
  then obtain d1 where e: "flash_erase F 0 SECTOR_SIZE d = (0, d1)" by (cases "flash_erase F 0 SECTOR_SIZE d") auto
  then have c1: "c d1 = put 0 (replicate SECTOR_SIZE 0xFF) (c d)" "length (c d1) = length (c d)"
    using assms(2) unfolding nor_flash_def by blast+
  have wf: "snd (flash_write F off xs a) = a" for off xs a using assms(3) by (simp add: flash_write_fails_def)
  have "sp \<noteq> []" "?loc mod SECTOR_SIZE + length sp \<le> SECTOR_SIZE" using sv(1) loc by (auto simp: N S)
  then have "amd_crb_flash_byte_write F ?loc sp d = flash_write F 0 (put ?loc sp (slice 0 SECTOR_SIZE (c d))) d1"
    using rd0 [OF assms(4)] ne by (subst byte_write_one) (simp_all add: write_chunk_def so(1) Let_def e del: snd_conv)
  then have w1: "snd (amd_crb_flash_byte_write F ?loc sp d) = d1" by (simp add: wf)
  have blank: "slice 0 SECTOR_SIZE (c d1) = replicate SECTOR_SIZE 0xFF"
    using assms(4) unfolding c1(1) by (intro slice_put) simp_all
  have "(oth + magic_offset L) mod SECTOR_SIZE + length (replicate 4 (0xFF :: u8)) \<le> SECTOR_SIZE" using loc k by (auto simp: S)
  then have w2: "snd (amd_crb_flash_byte_write F (oth + magic_offset L) (replicate 4 0xFF) d1) = d1"
    using rd0 [of d1] assms(4) c1(2) by (simp add: byte_write_one write_chunk_def so Let_def wf blank need_erase_ones)
  have img: "snd (flash_read F off NV_OPTIONS_SIZE d1) = replicate NV_OPTIONS_SIZE 0xFF" if "off + NV_OPTIONS_SIZE \<le> SECTOR_SIZE" for off
  proof -
    have "snd (flash_read F off NV_OPTIONS_SIZE d1) = slice off NV_OPTIONS_SIZE (c d1)"
      using assms(2,3,4) c1(2) that by (auto simp: nor_flash_def flash_write_fails_def)
    also have "\<dots> = replicate NV_OPTIONS_SIZE 0xFF"
      using assms(4) that c1 by (intro nth_equalityI) (auto simp: nth_slice nth_put)
    finally show ?thesis .
  qed
  have len: "\<And>off. length (snd (flash_read F off NV_OPTIONS_SIZE d1)) = NV_OPTIONS_SIZE"
    using assms(2) by (auto simp: nor_flash_def)
  have t0: "length (g_bytes256 v0) = 256" using assms(10) by (simp add: nv_wf_def)
  obtain w where "f_nv_options_load L F reason d1 v0 = Inr w" "g_ptrNvSpace w = (nvram_loadDefault L)[hasUpdate_offset L := 1]"
    using load_cold [OF assms(1) t0 assms(11,12) len] img [of "0x0E00"] img [of "0x0F00"] blank_image [OF assms(1)]
    by (auto simp: Let_def N S)
  moreover have "g_ptrNvSpace v' ! hasUpdate_offset L = 0" using sv(1,4) k by (simp add: hasUpdate_offset_def N)
  ultimately show ?thesis using sv(5) w1 w2 unfolding oth_def by auto
qed

definition broken_flash :: "u8 list flash_dev" where
  "broken_flash = demo_flash\<lparr>flash_write := \<lambda>off xs d. (- 5, d)\<rparr>"

theorem nv_failed_write_loses_options_witness:
  "\<exists>v' d' w. f_nv_options_save demo_layout broken_flash (demo_nv, replicate 4096 0) = Inr (True, v', d') \<and>
     f_nv_options_load demo_layout broken_flash F_BRAM_COLD_BOOT_SIGNATURE d' demo_nv = Inr w \<and>
     g_ptrNvSpace w = (nvram_loadDefault demo_layout)[hasUpdate_offset demo_layout := 1]"
proof -
  have r: "F_BRAM_COLD_BOOT_SIGNATURE \<noteq> F_BRAM_VCI_BOOT_SIGNATURE" by (simp add: bram_signatures)
  have n: "nor_flash broken_flash id" using demo_flash_nor by (auto simp: nor_flash_def broken_flash_def)
  have f: "flash_write_fails broken_flash id"
    by (auto simp: flash_write_fails_def broken_flash_def demo_flash_def)
  have l: "SECTOR_SIZE \<le> length (id (replicate 4096 0 :: u8 list))" by (simp add: SECTOR_SIZE_def)
  have "need_erase (take (magic_offset demo_layout) (g_ptrNvSpace demo_nv))
      (slice (s_blkLocation ! 1) (magic_offset demo_layout) (id (replicate 4096 0)))"
    by (rule need_erase_at [of 4]) (simp_all add: demo_layout_def demo_nv_def s_blkLocation_def slice_def)
  then have e: "need_erase (take (magic_offset demo_layout) (g_ptrNvSpace demo_nv))
      (slice (s_blkLocation ! ((s_activeBlock demo_nv + 1) mod NV_RAM_BLK_NUM)) (magic_offset demo_layout) (id (replicate 4096 0)))"
    by (simp add: demo_nv_def NV_RAM_BLK_NUM_def)
  show ?thesis
    using nv_failed_write_loses_options [OF demo_layout_ok n f l demo_nv_ok(1-3) refl e demo_nv_ok(1,5) r] by blast
qed

end
