(* ===== verification/Acpiplanes.thy ===== *)
theory Acpiplanes
  imports Prelude
begin

text \<open>
  The register space the host sees through the ACPI embedded controller interface:
  \<open>src/drivers/acpiplanes.c\<close>. The space has one fixed plane and up to 25 further planes, of
  which the selector register \<open>0x31\<close> activates one for the registers up to \<open>0x37\<close>. A plane is
  a table of registers with handlers, searched by bisection, or one function for all registers.

  A handler gets the direction, the register and the data byte; it may change the data byte and a
  state of type \<open>'s\<close>, which stands for everything the registered handlers share. A table is the
  list of its entries: an access behind its last entry is outside the object the pointer refers to
  and faults.
\<close>

section \<open>Data\<close>

type_synonym 's acpi_handler = "bool \<Rightarrow> u8 \<Rightarrow> u8 \<Rightarrow> 's \<Rightarrow> u8 \<times> 's"
type_synonym 's acpi_launcher = "bool \<Rightarrow> u8 \<Rightarrow> u8 \<Rightarrow> 's \<Rightarrow> u8 \<times> u8 \<times> 's" \<comment> \<open>result first\<close>

record 's acpi_entry =
  ui8Register :: u8
  pfnHandler :: "'s acpi_handler option"

type_synonym 's acpi_table = "'s acpi_entry list"

record 's acpi_plane =
  pTab :: "'s acpi_table option"
  ui8tabSize :: u8
  pFun :: "'s acpi_launcher option"
  planeId :: u8

record 's acpiplanes =
  s_xAcpiPlanes :: "'s acpi_plane list"
  gs_acpiPlanesId :: u8
  ui8AcpiSelectorUpdate :: u8
  gs_pCurTab :: "'s acpi_table option"
  gs_tabSize :: u8
  gs_pCurFun :: "'s acpi_launcher option"
  gs_pFixedPlane :: "'s acpi_table option"
  gs_fixedPlaneTabSize :: u8
  gs_pFixedFun :: "'s acpi_launcher option"

definition MD_ACPI_HYPERPLANE_SELECTOR_OFFSET :: u8 where "MD_ACPI_HYPERPLANE_SELECTOR_OFFSET = 0x31"
definition MD_ACPI_HYPERPLANE_FIXED_PLANE_ID :: u8 where "MD_ACPI_HYPERPLANE_FIXED_PLANE_ID = 0xFF"
definition MD_ACPI_HYPERPLANE_REGION_START :: u8 where "MD_ACPI_HYPERPLANE_REGION_START = 0"
definition MD_ACPI_HYPERPLANE_REGION_END :: u8 where "MD_ACPI_HYPERPLANE_REGION_END = 0x37"
definition MD_ACPI_HYPERPLANE_MAX_PLANES :: nat where "MD_ACPI_HYPERPLANE_MAX_PLANES = 25"

definition no_plane :: "'s acpi_plane" where
  "no_plane = \<lparr>pTab = None, ui8tabSize = 0, pFun = None, planeId = 0\<rparr>"

section \<open>Registration\<close>

definition md_acpiplanes_init :: "'s acpiplanes \<Rightarrow> 's acpiplanes" where
  "md_acpiplanes_init p = p\<lparr>s_xAcpiPlanes := replicate MD_ACPI_HYPERPLANE_MAX_PLANES no_plane, gs_pCurTab := None,
     gs_pCurFun := None, gs_pFixedPlane := None, gs_fixedPlaneTabSize := 0, gs_pFixedFun := None\<rparr>"

definition slot_free :: "'s acpi_plane \<Rightarrow> bool" where
  "slot_free q \<longleftrightarrow> planeId q = 0 \<and> pTab q = None \<and> pFun q = None"

text \<open>The loop over the slots: the first free one is changed.\<close>

fun take_slot :: "('s acpi_plane \<Rightarrow> 's acpi_plane) \<Rightarrow> 's acpi_plane list \<Rightarrow> 's acpi_plane list option" where
  "take_slot f [] = None"
| "take_slot f (q # qs) = (if slot_free q then Some (f q # qs) else map_option ((#) q) (take_slot f qs))"

definition md_acpiplanes_register_tab :: "'s acpi_table \<Rightarrow> u8 \<Rightarrow> u8 \<Rightarrow> 's acpiplanes \<Rightarrow> (bool \<times> 's acpiplanes) res" where
  "md_acpiplanes_register_tab tab tsize plane p =
     (if plane = MD_ACPI_HYPERPLANE_FIXED_PLANE_ID
      then Inr (True, p\<lparr>gs_pFixedFun := None, gs_pFixedPlane := Some tab, gs_fixedPlaneTabSize := tsize\<rparr>)
      else
        (case take_slot (\<lambda>q. q\<lparr>planeId := plane, pTab := Some tab, ui8tabSize := tsize, pFun := None\<rparr>) (s_xAcpiPlanes p) of
           Some qs \<Rightarrow> Inr (True, p\<lparr>s_xAcpiPlanes := qs\<rparr>)
         | None \<Rightarrow> Inl Assert_failed))"

definition md_acpiplanes_register_fun :: "'s acpi_launcher \<Rightarrow> u8 \<Rightarrow> 's acpiplanes \<Rightarrow> (bool \<times> 's acpiplanes) res" where
  "md_acpiplanes_register_fun f plane p =
     (if plane = MD_ACPI_HYPERPLANE_FIXED_PLANE_ID
      then Inr (True, p\<lparr>gs_pFixedPlane := None, gs_fixedPlaneTabSize := 0, gs_pFixedFun := Some f\<rparr>)
      else
        (case take_slot (\<lambda>q. q\<lparr>planeId := plane, pTab := None, pFun := Some f\<rparr>) (s_xAcpiPlanes p) of
           Some qs \<Rightarrow> Inr (True, p\<lparr>s_xAcpiPlanes := qs\<rparr>)
         | None \<Rightarrow> Inl Assert_failed))"

fun drop_slot :: "u8 \<Rightarrow> 's acpi_plane list \<Rightarrow> 's acpi_plane list option" where
  "drop_slot plane [] = None"
| "drop_slot plane (q # qs) =
     (if planeId q = plane \<and> (pTab q \<noteq> None \<or> pFun q \<noteq> None)
      then Some (q\<lparr>planeId := 0, pTab := None, pFun := None\<rparr> # qs)
      else map_option ((#) q) (drop_slot plane qs))"

definition md_acpiplanes_deregister :: "u8 \<Rightarrow> 's acpiplanes \<Rightarrow> bool \<times> 's acpiplanes" where
  "md_acpiplanes_deregister plane p =
     (case drop_slot plane (s_xAcpiPlanes p) of
        Some qs \<Rightarrow> (True, p\<lparr>s_xAcpiPlanes := qs\<rparr>)
      | None \<Rightarrow> (False, p))"

section \<open>Dispatch\<close>

text \<open>The bisection. It starts with \<open>ih\<close> equal to the size of the table, one more than its last index.\<close>

function search_tab :: "'s acpi_table \<Rightarrow> u8 \<Rightarrow> int \<Rightarrow> int \<Rightarrow> nat option res" where
  "search_tab tab idx il ih =
     (if il \<le> ih then
        (let im = (il + ih) div 2 in
         case ld tab (nat im) of
           Inl e \<Rightarrow> Inl e
         | Inr en \<Rightarrow>
             if ui8Register en > idx then search_tab tab idx il (im - 1)
             else if ui8Register en < idx then search_tab tab idx (im + 1) ih
             else Inr (Some (nat im)))
      else Inr None)"
  by pat_completeness auto
termination
  by (relation "measure (\<lambda>(tab, idx, il, ih). nat (ih + 1 - il))") auto

declare search_tab.simps [simp del]

definition run_tab :: "'s acpi_table \<Rightarrow> u8 \<Rightarrow> bool \<Rightarrow> u8 \<Rightarrow> u8 \<Rightarrow> 's \<Rightarrow> (u8 \<times> u8 \<times> 's) res" where
  "run_tab tab tsize isRead idx data s =
     (case search_tab tab idx 0 (int (unat tsize)) of
        Inl e \<Rightarrow> Inl e
      | Inr None \<Rightarrow> Inr (0, data, s)
      | Inr (Some im) \<Rightarrow>
          if (of_nat im :: u8) < tsize
          then (case ld tab (unat (of_nat im :: u8)) of
                  Inl e \<Rightarrow> Inl e
                | Inr en \<Rightarrow> (case pfnHandler en of
                    Some h \<Rightarrow> (let (data', s') = h isRead idx data s in Inr (1, data', s'))
                  | None \<Rightarrow> Inr (0, data, s)))
          else Inr (0, data, s))"

text \<open>Writing the selector: every slot with the plane's id is tried, in order.\<close>

definition select_slot :: "u8 \<Rightarrow> 's acpi_plane \<Rightarrow> 's acpiplanes \<Rightarrow> 's acpiplanes" where
  "select_slot plane q p =
     (if planeId q = plane then
        (case pTab q of
           Some t \<Rightarrow> p\<lparr>gs_pCurFun := None, gs_pCurTab := Some t, gs_tabSize := ui8tabSize q, gs_acpiPlanesId := plane\<rparr>
         | None \<Rightarrow>
             (case pFun q of
                Some f \<Rightarrow> p\<lparr>gs_pCurTab := None, gs_tabSize := 0, gs_pCurFun := Some f, gs_acpiPlanesId := plane\<rparr>
              | None \<Rightarrow> p))
      else p)"

definition select_plane :: "u8 \<Rightarrow> 's acpiplanes \<Rightarrow> 's acpiplanes" where
  "select_plane plane p =
     (if plane = MD_ACPI_HYPERPLANE_FIXED_PLANE_ID
      then p\<lparr>gs_pCurFun := None, gs_pCurTab := None, gs_tabSize := 0, gs_acpiPlanesId := plane\<rparr>
      else fold (select_slot plane) (s_xAcpiPlanes p) p)\<lparr>ui8AcpiSelectorUpdate := plane\<rparr>"

definition run_plane :: "'s acpi_table option \<Rightarrow> u8 \<Rightarrow> 's acpi_launcher option \<Rightarrow> bool \<Rightarrow> u8 \<Rightarrow> u8 \<Rightarrow> 's \<Rightarrow> (u8 \<times> u8 \<times> 's) res" where
  "run_plane tab tsize f isRead idx data s =
     (case (if tsize \<noteq> 0 then tab else None) of
        Some t \<Rightarrow> run_tab t tsize isRead idx data s
      | None \<Rightarrow> (case f of Some g \<Rightarrow> Inr (g isRead idx data s) | None \<Rightarrow> Inr (0, data, s)))"

definition md_acpiplanes_dispatcher ::
  "bool \<Rightarrow> u8 \<Rightarrow> u8 \<Rightarrow> 's acpiplanes \<times> 's \<Rightarrow> (u8 \<times> u8 \<times> 's acpiplanes \<times> 's) res" where
  "md_acpiplanes_dispatcher isRead idx data ps =
     (let (p, s) = ps in
      if idx = MD_ACPI_HYPERPLANE_SELECTOR_OFFSET then
        (if isRead then Inr (1, gs_acpiPlanesId p, p, s) else Inr (1, data, select_plane data p, s))
      else
        (case (if (idx < MD_ACPI_HYPERPLANE_REGION_START \<or> idx > MD_ACPI_HYPERPLANE_REGION_END) \<or>
                  gs_acpiPlanesId p = MD_ACPI_HYPERPLANE_FIXED_PLANE_ID
               then run_plane (gs_pFixedPlane p) (gs_fixedPlaneTabSize p) (gs_pFixedFun p) isRead idx data s
               else run_plane (gs_pCurTab p) (gs_tabSize p) (gs_pCurFun p) isRead idx data s) of
           Inl e \<Rightarrow> Inl e
         | Inr (ret, data', s') \<Rightarrow> Inr (ret, data', p, s')))"

end
