(* ===== verification/Acpiplanes_Props.thy ===== *)
theory Acpiplanes_Props
  imports Acpiplanes
begin

text \<open>
  The dispatch of the register space against its specification. On a table with ascending
  registers the bisection is the lookup of a finite map, although it starts one entry behind the
  table; when that entry is outside the table it is read exactly for registers above the last one.
  The registration and selection of planes satisfy the laws of a lookup after an insert.
\<close>

section \<open>The bisection\<close>

text \<open>The first \<open>n\<close> entries have ascending registers.\<close>

definition ascending :: "'s acpi_table \<Rightarrow> nat \<Rightarrow> bool" where
  "ascending tab n \<longleftrightarrow> n \<le> length tab \<and> (\<forall>j < n. \<forall>i < j. ui8Register (tab ! i) < ui8Register (tab ! j))"

text \<open>What the bisection may read: the entry behind the table exists, or the register is not above the last one.\<close>

definition covered :: "'s acpi_table \<Rightarrow> nat \<Rightarrow> u8 \<Rightarrow> bool" where
  "covered tab n idx \<longleftrightarrow> n < length tab \<or> (0 < n \<and> idx \<le> ui8Register (tab ! (n - 1)))"

lemma ascending_less: "ascending tab n \<Longrightarrow> i < j \<Longrightarrow> j < n \<Longrightarrow> ui8Register (tab ! i) < ui8Register (tab ! j)"
  by (auto simp: ascending_def)

lemma ascending_inj:
  assumes "ascending tab n" "i < n" "j < n" "ui8Register (tab ! i) = ui8Register (tab ! j)"
  shows "i = j"
  using assms ascending_less [of tab n i j] ascending_less [of tab n j i] by (metis less_irrefl linorder_neqE_nat)

definition found :: "'s acpi_table \<Rightarrow> nat \<Rightarrow> u8 \<Rightarrow> nat option \<Rightarrow> bool" where
  "found tab n idx r \<longleftrightarrow>
     (case r of Some k \<Rightarrow> (k < n \<and> ui8Register (tab ! k) = idx) \<or> (k = n \<and> (\<forall>i < n. ui8Register (tab ! i) \<noteq> idx))
      | None \<Rightarrow> \<forall>i < n. ui8Register (tab ! i) \<noteq> idx)"

lemma search_step:
  assumes "il \<le> ih" "im = (il + ih) div 2"
  shows "search_tab tab idx il ih =
     (if nat im < length tab then
        if ui8Register (tab ! nat im) > idx then search_tab tab idx il (im - 1)
        else if ui8Register (tab ! nat im) < idx then search_tab tab idx (im + 1) ih
        else Inr (Some (nat im))
      else Inl Out_of_bounds)"
  using assms by (simp add: search_tab.simps [of tab idx il ih] Let_def ld_def)

text \<open>
  The invariant of the loop: registers left of \<open>il\<close> are smaller, those right of \<open>ih\<close> are larger.
\<close>

lemma search_tab_found:
  assumes "ascending tab n" "covered tab n idx" "0 \<le> il" "ih \<le> int n"
    and "\<And>i. i < n \<Longrightarrow> int i < il \<Longrightarrow> ui8Register (tab ! i) < idx"
    and "\<And>i. i < n \<Longrightarrow> ih < int i \<Longrightarrow> idx < ui8Register (tab ! i)"
  shows "\<exists>r. search_tab tab idx il ih = Inr r \<and> found tab n idx r"
  using assms
proof (induction tab idx il ih rule: search_tab.induct)
  case (1 tab idx il ih)
  show ?case
  proof (cases "il \<le> ih")
    case False
    have "ui8Register (tab ! i) \<noteq> idx" if "i < n" for i
      using "1.prems"(5) [OF that] "1.prems"(6) [OF that] False by force
    with False show ?thesis by (simp add: search_tab.simps [of tab idx il ih] found_def)
  next
    case True
    define im where "im = (il + ih) div 2"
    have im: "il \<le> im" "im \<le> ih" "0 \<le> im" "im \<le> int n" using True "1.prems"(3,4) unfolding im_def by auto
    have left: "ui8Register (tab ! i) < idx" if "i < n" "int i \<le> im" "nat im < n" "ui8Register (tab ! nat im) < idx" for i
      using that im ascending_less [OF "1.prems"(1), of i "nat im"] by (cases "i = nat im") fastforce+
    have right: "idx < ui8Register (tab ! i)" if "i < n" "im \<le> int i" "idx < ui8Register (tab ! nat im)" for i
      using that im ascending_less [OF "1.prems"(1), of "nat im" i] by (cases "i = nat im") fastforce+
    have len: "nat im < length tab"
    proof (cases "nat im < n")
      case True
      with "1.prems"(1) show ?thesis by (simp add: ascending_def)
    next
      case False
      then have "im = int n" "il = int n" using im "1.prems"(4) unfolding im_def by auto
      have "\<not> (0 < n \<and> idx \<le> ui8Register (tab ! (n - 1)))"
      proof
        assume a: "0 < n \<and> idx \<le> ui8Register (tab ! (n - 1))"
        then have "ui8Register (tab ! (n - 1)) < idx" using "1.prems"(5) [of "n - 1"] \<open>il = int n\<close> by auto
        with a show False by (meson leD)
      qed
      with "1.prems"(2) \<open>im = int n\<close> show ?thesis by (auto simp: covered_def)
    qed
    have none: "ui8Register (tab ! i) \<noteq> idx" if "nat im = n" "i < n" for i
      using "1.prems"(5) [OF that(2)] that im "1.prems"(4) unfolding im_def by force
    note ih = "1.IH" [OF True im_def ld_ok [OF len]]
    consider (gt) "ui8Register (tab ! nat im) > idx" | (lt) "ui8Register (tab ! nat im) < idx" | (eq) "ui8Register (tab ! nat im) = idx"
      by (meson linorder_less_linear)
    then show ?thesis
    proof cases
      case gt
      have "\<exists>r. search_tab tab idx il (im - 1) = Inr r \<and> found tab n idx r"
        using ih(1) [OF gt "1.prems"(1-3) _ "1.prems"(5)] "1.prems"(4) im right gt by auto
      with gt len show ?thesis by (simp add: search_step [OF True im_def])
    next
      case lt
      have sm: "ui8Register (tab ! i) < idx" if "i < n" "int i < im + 1" for i
        using left [OF that(1)] "1.prems"(5) [OF that(1)] that lt im "1.prems"(4) unfolding im_def by force
      have "\<exists>r. search_tab tab idx (im + 1) ih = Inr r \<and> found tab n idx r"
        using ih(2) [OF order_less_not_sym [OF lt] lt "1.prems"(1,2) _ "1.prems"(4) sm "1.prems"(6)] im by auto
      with lt len show ?thesis by (simp add: search_step [OF True im_def] order_less_not_sym)
    next
      case eq
      have "found tab n idx (Some (nat im))"
        using eq none im by (cases "nat im < n") (auto simp: found_def nat_less_iff)
      with eq len show ?thesis by (simp add: search_step [OF True im_def])
    qed
  qed
qed

text \<open>The specification of a table: the handler of the first entry with the register.\<close>

definition tab_handler :: "'s acpi_table \<Rightarrow> nat \<Rightarrow> u8 \<Rightarrow> 's acpi_handler option" where
  "tab_handler tab n idx = Option.bind (find (\<lambda>en. ui8Register en = idx) (take n tab)) pfnHandler"

definition call_handler :: "'s acpi_handler option \<Rightarrow> bool \<Rightarrow> u8 \<Rightarrow> u8 \<Rightarrow> 's \<Rightarrow> u8 \<times> u8 \<times> 's" where
  "call_handler h isRead idx data s =
     (case h of Some g \<Rightarrow> (let (data', s') = g isRead idx data s in (1, data', s')) | None \<Rightarrow> (0, data, s))"

lemma find_take_Some:
  assumes "ascending tab n" "k < n" "ui8Register (tab ! k) = idx"
  shows "find (\<lambda>en. ui8Register en = idx) (take n tab) = Some (tab ! k)"
proof -
  have "k < length tab" "n \<le> length tab" using assms by (auto simp: ascending_def)
  moreover have "ui8Register (tab ! j) \<noteq> idx" if "j < k" for j
    using ascending_less [OF assms(1) that assms(2)] assms(3) by simp
  ultimately show ?thesis using assms by (auto simp: find_Some_iff intro!: exI [of _ k])
qed

lemma run_tab_spec:
  assumes "ascending tab (unat tsize)" "covered tab (unat tsize) idx"
  shows "run_tab tab tsize isRead idx data s = Inr (call_handler (tab_handler tab (unat tsize) idx) isRead idx data s)"
proof -
  let ?n = "unat tsize"
  obtain r where r: "search_tab tab idx 0 (int ?n) = Inr r" "found tab ?n idx r"
    using search_tab_found [OF assms, of 0 "int ?n"] by auto
  have u8k: "unat (of_nat k :: u8) = k" if "k \<le> ?n" for k
    using that unsigned_less [of tsize, where ?'a = nat] by (subst unat_of_nat) simp
  have none: "tab_handler tab ?n idx = None" if "\<forall>i < ?n. ui8Register (tab ! i) \<noteq> idx"
  proof -
    have "find (\<lambda>en. ui8Register en = idx) (take ?n tab) = None"
      using that by (force simp: find_None_iff in_set_conv_nth)
    then show ?thesis by (simp add: tab_handler_def)
  qed
  show ?thesis
  proof (cases r)
    case None
    with r none show ?thesis by (simp add: run_tab_def found_def call_handler_def)
  next
    case (Some k)
    show ?thesis
    proof (cases "k < ?n")
      case True
      with r Some have e: "ui8Register (tab ! k) = idx" by (simp add: found_def)
      have l: "k < length tab" using True assms(1) by (simp add: ascending_def)
      have h: "tab_handler tab ?n idx = pfnHandler (tab ! k)"
        by (simp add: tab_handler_def find_take_Some [OF assms(1) True e])
      have "(of_nat k :: u8) < tsize" using True u8k [of k] by (simp add: word_less_nat_alt)
      with r Some h l u8k [of k] True show ?thesis
        by (simp add: run_tab_def call_handler_def access Let_def split: option.split)
    next
      case False
      with r Some have k: "k = ?n" "\<forall>i < ?n. ui8Register (tab ! i) \<noteq> idx" by (auto simp: found_def)
      have "\<not> (of_nat k :: u8) < tsize" using k(1) u8k [of k] by (simp add: word_less_nat_alt)
      with r Some none [OF k(2)] show ?thesis by (simp add: run_tab_def call_handler_def)
    qed
  qed
qed

text \<open>Registers above the last one of a table that ends with its object are read out of bounds.\<close>

lemma search_tab_above:
  assumes "ascending tab n" "length tab = n" "0 \<le> il" "il \<le> ih" "ih = int n"
    and "\<And>i. i < n \<Longrightarrow> ui8Register (tab ! i) < idx"
  shows "search_tab tab idx il ih = Inl Out_of_bounds"
  using assms
proof (induction tab idx il ih rule: search_tab.induct)
  case (1 tab idx il ih)
  define im where "im = (il + ih) div 2"
  have im: "il \<le> im" "im \<le> ih" "0 \<le> im" using "1.prems"(3,4) unfolding im_def by auto
  show ?case
  proof (cases "nat im < n")
    case True
    then have l: "nat im < length tab" using "1.prems"(2) by simp
    have "search_tab tab idx (im + 1) ih = Inl Out_of_bounds"
      using "1.prems"(1,2,3,5,6) "1.prems"(6) [OF True] True im
      by (intro "1.IH"(2) [OF "1.prems"(4) im_def ld_ok [OF l]]) (auto simp: order_less_not_sym)
    with "1.prems"(6) [OF True] l show ?thesis by (simp add: search_step [OF "1.prems"(4) im_def] order_less_not_sym)
  next
    case False
    with "1.prems"(2) show ?thesis by (simp add: search_step [OF "1.prems"(4) im_def])
  qed
qed

section \<open>The space as a whole\<close>

text \<open>A table on which no access reads behind its object.\<close>

definition tab_ok :: "'s acpi_table option \<Rightarrow> u8 \<Rightarrow> bool" where
  "tab_ok t tsize \<longleftrightarrow> (\<forall>tab. t = Some tab \<longrightarrow> tsize \<noteq> 0 \<longrightarrow>
     ascending tab (unat tsize) \<and> (\<forall>idx. covered tab (unat tsize) idx))"

definition planes_ok :: "'s acpiplanes \<Rightarrow> bool" where
  "planes_ok p \<longleftrightarrow> tab_ok (gs_pFixedPlane p) (gs_fixedPlaneTabSize p) \<and> tab_ok (gs_pCurTab p) (gs_tabSize p) \<and>
     (\<forall>q \<in> set (s_xAcpiPlanes p). tab_ok (pTab q) (ui8tabSize q))"

text \<open>What a plane answers.\<close>

definition plane_spec :: "'s acpi_table option \<Rightarrow> u8 \<Rightarrow> 's acpi_launcher option \<Rightarrow> bool \<Rightarrow> u8 \<Rightarrow> u8 \<Rightarrow> 's \<Rightarrow> u8 \<times> u8 \<times> 's" where
  "plane_spec tab tsize f isRead idx data s =
     (case (if tsize \<noteq> 0 then tab else None) of
        Some t \<Rightarrow> call_handler (tab_handler t (unat tsize) idx) isRead idx data s
      | None \<Rightarrow> (case f of Some g \<Rightarrow> g isRead idx data s | None \<Rightarrow> (0, data, s)))"

lemma run_plane_spec: "tab_ok tab tsize \<Longrightarrow> run_plane tab tsize f isRead idx data s = Inr (plane_spec tab tsize f isRead idx data s)"
  by (auto simp: run_plane_def plane_spec_def tab_ok_def run_tab_spec split: option.split)

lemma select_slot_ok:
  "planes_ok p \<Longrightarrow> tab_ok (pTab q) (ui8tabSize q) \<Longrightarrow>
     planes_ok (select_slot plane q p) \<and> s_xAcpiPlanes (select_slot plane q p) = s_xAcpiPlanes p"
  by (auto simp: select_slot_def planes_ok_def tab_ok_def split: option.split)

lemma select_slots_ok:
  "planes_ok p \<Longrightarrow> \<forall>q \<in> set qs. tab_ok (pTab q) (ui8tabSize q) \<Longrightarrow> planes_ok (fold (select_slot plane) qs p)"
  by (induction qs arbitrary: p) (simp_all add: select_slot_ok)

lemma select_plane_ok: "planes_ok p \<Longrightarrow> planes_ok (select_plane plane p)"
  using select_slots_ok [of p "s_xAcpiPlanes p" plane]
  by (auto simp: select_plane_def planes_ok_def tab_ok_def)

lemma dispatcher_ok:
  assumes "planes_ok (fst ps)"
  shows "\<exists>ret data' ps'. md_acpiplanes_dispatcher isRead idx data ps = Inr (ret, data', ps') \<and> planes_ok (fst ps')"
proof -
  obtain p s where ps: "ps = (p, s)" by (cases ps)
  have "tab_ok (gs_pFixedPlane p) (gs_fixedPlaneTabSize p)" "tab_ok (gs_pCurTab p) (gs_tabSize p)"
    using assms ps by (simp_all add: planes_ok_def)
  then show ?thesis using assms ps
    by (auto simp: md_acpiplanes_dispatcher_def run_plane_spec select_plane_ok split: prod.split)
qed

definition dispatch_step :: "'s acpiplanes \<times> 's \<Rightarrow> bool \<times> u8 \<times> u8 \<Rightarrow> ((u8 \<times> u8) \<times> 's acpiplanes \<times> 's) res" where
  "dispatch_step ps acc =
     (case acc of (isRead, idx, data) \<Rightarrow>
        case md_acpiplanes_dispatcher isRead idx data ps of Inl e \<Rightarrow> Inl e | Inr (ret, data', ps') \<Rightarrow> Inr ((ret, data'), ps'))"

interpretation space: safe_machine dispatch_step "\<lambda>ps. planes_ok (fst ps)" "\<lambda>_. True"
proof
  fix ps :: "'s acpiplanes \<times> 's" and i :: "bool \<times> u8 \<times> u8"
  assume "planes_ok (fst ps)"
  then show "\<exists>out ps'. dispatch_step ps i = Inr (out, ps') \<and> planes_ok (fst ps')"
    using dispatcher_ok [of ps "fst i" "fst (snd i)" "snd (snd i)"]
    by (auto simp: dispatch_step_def case_prod_beta)
qed

section \<open>Registering and selecting\<close>

lemma take_slot_split:
  "take_slot f qs = Some qs' \<Longrightarrow> \<exists>as q bs. qs = as @ q # bs \<and> slot_free q \<and> qs' = as @ f q # bs"
proof (induction qs arbitrary: qs')
  case (Cons q qs)
  show ?case
  proof (cases "slot_free q")
    case True
    with Cons.prems show ?thesis by (intro exI [of _ "[]"]) simp
  next
    case False
    with Cons.prems obtain r where r: "take_slot f qs = Some r" "qs' = q # r" by auto
    from Cons.IH [OF r(1)] obtain as x bs where "qs = as @ x # bs" "slot_free x" "r = as @ f x # bs" by blast
    with r(2) show ?thesis by (intro exI [of _ "q # as"]) simp
  qed
qed simp

definition unselectable :: "u8 \<Rightarrow> 's acpi_plane \<Rightarrow> bool" where
  "unselectable plane q \<longleftrightarrow> planeId q \<noteq> plane \<or> (pTab q = None \<and> pFun q = None)"

lemma select_unselectable: "list_all (unselectable plane) qs \<Longrightarrow> fold (select_slot plane) qs p = p"
  by (induction qs arbitrary: p) (auto simp: unselectable_def select_slot_def)

lemma select_only:
  assumes "list_all (unselectable plane) as" "list_all (unselectable plane) bs"
  shows "fold (select_slot plane) (as @ q # bs) p = select_slot plane q p"
  using assms by (simp add: select_unselectable)

section \<open>Properties\<close>

text \<open>
  C17. The bisection of a register table is a map lookup, except above its last register: on a
  table of exactly \<open>tsize\<close> entries with ascending registers, an access to a register up to the
  last one calls the handler registered for it (and answers 0 without touching data or state when
  there is none); an access to a higher register reads one entry behind the table.
\<close>

theorem acpi_table_bisection:
  assumes "ascending tab (unat tsize)" "length tab = unat tsize" "tsize \<noteq> 0"
  shows "run_tab tab tsize isRead idx data s =
     (if idx \<le> ui8Register (last tab)
      then Inr (call_handler (tab_handler tab (unat tsize) idx) isRead idx data s) else Inl Out_of_bounds)"
proof -
  have n: "0 < length tab" using assms(2,3) by (simp add: unat_gt_0)
  then have l: "last tab = tab ! (length tab - 1)" by (simp add: last_conv_nth)
  show ?thesis
  proof (cases "idx \<le> ui8Register (last tab)")
    case True
    with n l assms(2) have "covered tab (unat tsize) idx" by (simp add: covered_def)
    with True run_tab_spec [OF assms(1)] show ?thesis by simp
  next
    case False
    have "ui8Register (tab ! i) < idx" if "i < length tab" for i
    proof (cases "i = length tab - 1")
      case True
      with False l show ?thesis by (simp add: not_le)
    next
      case neq: False
      have "ui8Register (tab ! i) < ui8Register (last tab)"
        using ascending_less [OF assms(1), of i "length tab - 1"] that neq n l assms(2) by simp
      also have "\<dots> < idx" using False by (simp add: not_le)
      finally show ?thesis .
    qed
    then have "search_tab tab idx 0 (int (unat tsize)) = Inl Out_of_bounds"
      using search_tab_above [OF assms(1,2), of 0 "int (unat tsize)" idx] assms(2) by auto
    with False show ?thesis by (simp add: run_tab_def)
  qed
qed

definition demo_table :: "nat acpi_table" where
  "demo_table = [\<lparr>ui8Register = 0x10, pfnHandler = Some (\<lambda>r i d n. (7, n + 1))\<rparr>, \<lparr>ui8Register = 0x20, pfnHandler = None\<rparr>]"

lemma demo_ascending: "ascending demo_table 2"
proof -
  have "ui8Register (demo_table ! i) < ui8Register (demo_table ! j)" if "j < 2" "i < j" for i j
  proof -
    have "j = 1" "i = 0" using that by auto
    then show ?thesis by (simp add: demo_table_def)
  qed
  then show ?thesis by (simp add: ascending_def demo_table_def)
qed

theorem acpi_table_bisection_witness:
  "run_tab demo_table 2 True 0x10 0 5 = Inr (1, 7, 6) \<and> run_tab demo_table 2 True 0x30 0 5 = Inl Out_of_bounds"
proof -
  have a: "ascending demo_table (unat (2 :: u8))" using demo_ascending by simp
  have l: "length demo_table = unat (2 :: u8)" by (simp add: demo_table_def)
  show ?thesis
    using acpi_table_bisection [OF a l, of True "0x10" 0 5] acpi_table_bisection [OF a l, of True "0x30" 0 5]
    by (simp add: demo_table_def call_handler_def tab_handler_def word_le_nat_alt)
qed

text \<open>
  A registered plane answers after it is selected: when a function is registered for a plane
  that is not registered yet and the host writes the plane's number to the selector, the selector
  reads back that number, every register up to 0x37 but the selector is served by this function,
  and every register above 0x37 is served by the fixed plane as before the selection.
\<close>

theorem acpi_plane_selected:
  assumes "plane \<noteq> MD_ACPI_HYPERPLANE_FIXED_PLANE_ID" "list_all (unselectable plane) (s_xAcpiPlanes p)"
    and "md_acpiplanes_register_fun f plane p = Inr (True, p1)"
    and "md_acpiplanes_dispatcher False MD_ACPI_HYPERPLANE_SELECTOR_OFFSET plane (p1, s) = Inr (r, d, p2, s2)"
    and "idx \<noteq> MD_ACPI_HYPERPLANE_SELECTOR_OFFSET"
  shows "s2 = s \<and> md_acpiplanes_dispatcher True MD_ACPI_HYPERPLANE_SELECTOR_OFFSET x (p2, s') = Inr (1, plane, p2, s') \<and>
     md_acpiplanes_dispatcher isRead idx data (p2, s') =
       (if idx \<le> MD_ACPI_HYPERPLANE_REGION_END then case f isRead idx data s' of (ret, data', s'') \<Rightarrow> Inr (ret, data', p2, s'')
        else case run_plane (gs_pFixedPlane p) (gs_fixedPlaneTabSize p) (gs_pFixedFun p) isRead idx data s' of
          Inl e \<Rightarrow> Inl e | Inr (ret, data', s'') \<Rightarrow> Inr (ret, data', p2, s''))"
proof -
  let ?new = "\<lambda>q. q\<lparr>planeId := plane, pTab := None, pFun := Some f\<rparr>"
  obtain qs where qs: "take_slot ?new (s_xAcpiPlanes p) = Some qs" "p1 = p\<lparr>s_xAcpiPlanes := qs\<rparr>"
    using assms(1,3) by (auto simp: md_acpiplanes_register_fun_def split: option.splits)
  from take_slot_split [OF qs(1)] obtain as q bs where
    q: "s_xAcpiPlanes p = as @ q # bs" "qs = as @ ?new q # bs" by auto
  have "fold (select_slot plane) qs p1 = select_slot plane (?new q) p1"
    using assms(2) q select_only [of plane as bs "?new q" p1] by simp
  then have p2: "p2 = p1\<lparr>gs_pCurTab := None, gs_tabSize := 0, gs_pCurFun := Some f, gs_acpiPlanesId := plane,
      ui8AcpiSelectorUpdate := plane\<rparr>" "s2 = s"
    using assms(1,4) qs(2) by (auto simp: md_acpiplanes_dispatcher_def select_plane_def select_slot_def)
  have "\<not> idx < MD_ACPI_HYPERPLANE_REGION_START" by (simp add: MD_ACPI_HYPERPLANE_REGION_START_def)
  with p2 qs(2) assms(1,5) show ?thesis
    by (auto simp: md_acpiplanes_dispatcher_def run_plane_def Let_def not_less not_le)
qed

definition demo_planes :: "nat acpiplanes" where
  "demo_planes = md_acpiplanes_init \<lparr>s_xAcpiPlanes = [], gs_acpiPlanesId = 0xFF, ui8AcpiSelectorUpdate = 0, gs_pCurTab = None,
     gs_tabSize = 0, gs_pCurFun = None, gs_pFixedPlane = None, gs_fixedPlaneTabSize = 0, gs_pFixedFun = None\<rparr>"

end
