(* ===== verification/Sci.thy ===== *)
theory Sci
  imports Pseq Acpiplanes
begin

text \<open>
  Events to the operating system: the host interface registers of
  \<open>src/drivers/realtek/realtek_acpi.c\<close>, the event queue of \<open>src/app/smchost/sci.c\<close>, and the
  notification switch of \<open>src/app/acpi/app_acpi.c\<close>.

  The host reads the output buffer whenever it likes: the output-buffer-full flag is a stream
  \<open>obf\<close>, of which every read of the flag takes the next value; theorems quantify over it or name
  the values they need. The bytes the host writes are inputs of the service loops. Effects on the
  host and on other modules are recorded in order.
\<close>

section \<open>State\<close>

datatype host_ev =
    Sci_pulse | Odr u8 | Flag u8 bool | Ucsi_write_done | Ucsi_read_done | Fa_test nat | Rcin_low
  | Spi_test nat | Vw_channels_ready | Oob_reset | Udc_refresh | Idr_popped nat | Signal_request
  | Ibf_intr nat | Sleep_ready | Set_prochot | Chg_ack_type bool | Postcode_led bool | Pmf_timer bool
  | Smart_mux | P3t_reset | Slot_power_off | Ks_wakeup_off | Smtbty_unfrozen | Pmic_trigger
  | I2c_read u8 u8 nat | I2c_write u8 u8 u32 nat | Bty_led nat | Chg_enable | Chg_disable | Chg_write u16 u16
  | Bty_attach | Bty_detach | Bty_notify u32 | Bty_call nat | Pwr_src_event | Sleep_ms nat | Chg_refresh
  | Delay_timer bool | Smart_mux_pins u8 | Smart_mux_pwm bool | Chg_acok_mode bool | Pd_call nat nat | Vw_pulse nat bool
  | Vw_mmio_work | Force_g3

record hcore =
  str0 :: u8 \<comment> \<open>status register of interface 0, the bits the firmware writes\<close>
  polls :: nat
  sci_msgq :: "u8 list"
  sci_enabled :: bool
  acpi_mode :: bool
  g_ui8MondernStandbySupport :: bool
  systemState :: system_power_state
  s_fakeEventId :: u8
  g_isUcsiCycleFinished :: bool
  host_evs :: "host_ev list"

type_synonym obf = "nat \<Rightarrow> bool"

definition ACPI_FLAG_ACPIBURST :: u8 where "ACPI_FLAG_ACPIBURST = 0x10"
definition ACPI_FLAG_SCIEVENT :: u8 where "ACPI_FLAG_SCIEVENT = 0x20"
definition HOST_TIMEOUT :: nat where "HOST_TIMEOUT = 600"
definition SCIQ_SIZE :: nat where "SCIQ_SIZE = 32"

definition hemit :: "host_ev \<Rightarrow> ('x) hcore_scheme \<Rightarrow> 'x hcore_scheme" where
  "hemit e s = s\<lparr>host_evs := host_evs s @ [e]\<rparr>"

section \<open>Interface registers\<close>

definition acpi_get_obf :: "obf \<Rightarrow> 'x hcore_scheme \<Rightarrow> bool \<times> 'x hcore_scheme" where
  "acpi_get_obf o' s = (o' (polls s), s\<lparr>polls := polls s + 1\<rparr>)"

definition acpi_set_flag :: "u8 \<Rightarrow> bool \<Rightarrow> 'x hcore_scheme \<Rightarrow> 'x hcore_scheme" where
  "acpi_set_flag f v s = hemit (Flag f v) (s\<lparr>str0 := (if v then str0 s OR f else str0 s AND NOT f)\<rparr>)"

text \<open>Reading the input register also writes bit 2 of the status register.\<close>

definition acpi_read_idr :: "u8 \<Rightarrow> 'x hcore_scheme \<Rightarrow> u8 \<times> 'x hcore_scheme" where
  "acpi_read_idr byte s = (byte, acpi_set_flag 0x04 True s)"

definition acpi_write_odr :: "u8 \<Rightarrow> 'x hcore_scheme \<Rightarrow> 'x hcore_scheme" where
  "acpi_write_odr byte = hemit (Odr byte)"

fun send_poll :: "obf \<Rightarrow> nat \<Rightarrow> u8 \<Rightarrow> 'x hcore_scheme \<Rightarrow> bool \<times> 'x hcore_scheme" where
  "send_poll o' 0 data s = (False, s)"
| "send_poll o' (Suc n) data s =
     (let (full, s1) = acpi_get_obf o' s in
      if full then send_poll o' n data s1 else (True, acpi_write_odr data s1))"

definition acpi_send_byte :: "obf \<Rightarrow> u8 \<Rightarrow> 'x hcore_scheme \<Rightarrow> bool \<times> 'x hcore_scheme" where
  "acpi_send_byte o' data = send_poll o' HOST_TIMEOUT data"

section \<open>Event queue\<close>

definition sci_queue_init :: "'x hcore_scheme \<Rightarrow> 'x hcore_scheme" where
  "sci_queue_init s = s\<lparr>sci_enabled := True\<rparr>"

definition sci_queue_flush :: "'x hcore_scheme \<Rightarrow> 'x hcore_scheme" where
  "sci_queue_flush s = s\<lparr>sci_msgq := []\<rparr>"

definition generate_sci :: "'x hcore_scheme \<Rightarrow> 'x hcore_scheme" where
  "generate_sci = hemit Sci_pulse"

definition check_sci_queue :: "'x hcore_scheme \<Rightarrow> 'x hcore_scheme" where
  "check_sci_queue s =
     (if sci_msgq s = [] then acpi_set_flag ACPI_FLAG_SCIEVENT False s
      else generate_sci (acpi_set_flag ACPI_FLAG_SCIEVENT True s))"

definition sci_pending :: "'x hcore_scheme \<Rightarrow> bool" where
  "sci_pending s \<longleftrightarrow>
     ((sci_enabled s \<and> acpi_mode s) \<or>
      (g_ui8MondernStandbySupport s \<and> (systemState s = SYSTEM_S0_R_STATE \<or> systemState s = SYSTEM_S3_STATE))) \<and>
     sci_msgq s \<noteq> []"

text \<open>With an empty queue the event byte keeps its initial value 0.\<close>

definition send_sci_events :: "obf \<Rightarrow> 'x hcore_scheme \<Rightarrow> 'x hcore_scheme" where
  "send_sci_events o' s =
     (if \<not> acpi_mode s then s
      else
        (let (full, s1) = acpi_get_obf o' s in
         if full then s1
         else
           (let evt = (case sci_msgq s1 of [] \<Rightarrow> 0 | e # q \<Rightarrow> e);
                s2 = s1\<lparr>sci_msgq := tl (sci_msgq s1)\<rparr>;
                s3 = acpi_set_flag ACPI_FLAG_SCIEVENT (sci_msgq s2 \<noteq> []) s2;
                s4 = acpi_write_odr evt s3;
                s5 = (if sci_msgq s1 = [] then acpi_set_flag ACPI_FLAG_SCIEVENT False s4 else s4)
            in generate_sci s5)))"

definition smchost_signal_request :: "'x hcore_scheme \<Rightarrow> 'x hcore_scheme" where
  "smchost_signal_request = hemit Signal_request"

text \<open>A full queue drops the event; the task is signalled in any case.\<close>

definition enqueue_sci :: "u8 \<Rightarrow> 'x hcore_scheme \<Rightarrow> 'x hcore_scheme" where
  "enqueue_sci code s =
     smchost_signal_request (if length (sci_msgq s) < SCIQ_SIZE then s\<lparr>sci_msgq := sci_msgq s @ [code]\<rparr> else s)"

definition is_system_in_acpi_mode :: "'x hcore_scheme \<Rightarrow> bool" where
  "is_system_in_acpi_mode s = acpi_mode s"

section \<open>Notification switch\<close>

text \<open>\<open>charger\<close> and \<open>ucsi\<close> are the build options for a charger with PROCHOT and for the UCSI tunnel.\<close>

definition ACPI_isHostNotifyDisable :: "'x hcore_scheme \<Rightarrow> bool" where
  "ACPI_isHostNotifyDisable s = (\<not> acpi_mode s)"

text \<open>Keyboard wakeup, dock on and off, lid open and close, touch pad, AC, battery, trip point, battery notify.\<close>

definition ACPI_isModernStandbyWakeupEvent :: "u8 \<Rightarrow> bool" where
  "ACPI_isModernStandbyWakeupEvent evt \<longleftrightarrow> evt \<in> {0x70, 0x24, 0x25, 0x26, 0x27, 0x2A, 0x35, 0x39, 0x3E, 0x45}"

definition ACPI_NotifyHost :: "u8 \<Rightarrow> 'x hcore_scheme \<Rightarrow> 'x hcore_scheme" where
  "ACPI_NotifyHost evt s =
     (if \<not> ACPI_isHostNotifyDisable s \<or>
         (g_ui8MondernStandbySupport s \<and> systemState s = SYSTEM_S3_STATE \<and> ACPI_isModernStandbyWakeupEvent evt)
      then enqueue_sci evt s else s)"

definition ACPI_ClearQueuedEvts :: "'x hcore_scheme \<Rightarrow> 'x hcore_scheme" where
  "ACPI_ClearQueuedEvts = sci_queue_flush"

definition ACPI_EnableHostNotify :: "bool \<Rightarrow> 'x hcore_scheme \<Rightarrow> 'x hcore_scheme" where
  "ACPI_EnableHostNotify charger s =
     (let s1 = (if charger \<and> \<not> acpi_mode s then hemit Set_prochot s else s);
          s2 = s1\<lparr>acpi_mode := True\<rparr>
      in if s_fakeEventId s2 \<noteq> 0 then (enqueue_sci (s_fakeEventId s2) s2)\<lparr>s_fakeEventId := 0\<rparr> else s2)"

definition ACPI_DisableHostNotify :: "bool \<Rightarrow> 'x hcore_scheme \<Rightarrow> 'x hcore_scheme" where
  "ACPI_DisableHostNotify ucsi s =
     (let s1 = s\<lparr>acpi_mode := False\<rparr> in
      if ucsi \<and> \<not> g_isUcsiCycleFinished s1 then s1\<lparr>g_isUcsiCycleFinished := True\<rparr> else s1)"

end
