(* ===== verification/Smchost.thy ===== *)
theory Smchost
  imports Sci
begin

text \<open>
  The system management controller host task: \<open>src/app/smchost/smchost.c\<close>, with the wake status
  and the write permissions of \<open>src/app/smchost/smc.c\<close>. It takes commands and data bytes from the
  ACPI interface 0 (ports 66h/62h) and reads and writes the register space of \<open>Acpiplanes\<close>.

  A service loop gets the bytes it finds, each with the flag that tells a command from a data
  byte: the next one shows in the input register when the previous one has been read.
\<close>

section \<open>State\<close>

record 'x smc =
  hs :: "'x hcore_scheme"
  planes :: "'x hcore_scheme acpiplanes"
  host_req :: "u8 list"
  host_res :: "u8 list"
  host_req_len :: u8
  host_res_len :: u8
  host_res_idx :: u8
  pltrst_signal_sts :: bool

record smc_cfg =
  charger :: bool
  ucsi :: bool
  thermal_management :: bool
  udc_management :: bool

definition SMCHOST_MAX_BUF_SIZE :: u8 where "SMCHOST_MAX_BUF_SIZE = 10"
definition EC_READ :: u8 where "EC_READ = 0x80"
definition EC_WRITE :: u8 where "EC_WRITE = 0x81"
definition SCI_BURST_ACK :: u8 where "SCI_BURST_ACK = 0x90"

definition on_hs :: "('x hcore_scheme \<Rightarrow> 'x hcore_scheme) \<Rightarrow> 'x smc \<Rightarrow> 'x smc" where
  "on_hs f s = s\<lparr>hs := f (hs s)\<rparr>"

section \<open>Events of the bus\<close>

definition smchost_slatemode_handler :: "u8 \<Rightarrow> u8 \<Rightarrow> bool \<Rightarrow> 'x smc \<Rightarrow> 'x smc" where
  "smchost_slatemode_handler release press sts s =
     (if acpi_mode (hs s) then on_hs (enqueue_sci (if sts then release else press)) s else s)"

definition smchost_pltrst_handler :: "bool \<Rightarrow> 'x smc \<Rightarrow> 'x smc" where
  "smchost_pltrst_handler sts s =
     (let s1 = (on_hs (\<lambda>h. h\<lparr>sci_enabled := sts\<rparr>) s)\<lparr>pltrst_signal_sts := sts\<rparr> in
      if sts then on_hs (hemit Vw_channels_ready) s1 else s1)"

definition smchost_busrst_handler :: "smc_cfg \<Rightarrow> u8 \<Rightarrow> bool \<Rightarrow> 'x smc \<Rightarrow> 'x smc" where
  "smchost_busrst_handler c idr sts s =
     (let s1 = on_hs (hemit Oob_reset) s in
      if sts then (if udc_management c then on_hs (hemit Udc_refresh) s1 else s1)
      else on_hs (\<lambda>h. acpi_set_flag 0xFF False (hemit (Idr_popped 0) (snd (acpi_read_idr idr h)))) s1)"

definition smchost_host_rst_warn_handler :: "bool \<Rightarrow> 'x smc \<Rightarrow> 'x smc" where
  "smchost_host_rst_warn_handler sts s =
     (if sts then on_hs (\<lambda>h. sci_queue_flush (h\<lparr>sci_enabled := False\<rparr>)) s else s)"

definition get_pltrst_signal_sts :: "'x smc \<Rightarrow> bool" where
  "get_pltrst_signal_sts s = pltrst_signal_sts s"

definition smchost_task_init :: "'x smc \<Rightarrow> 'x smc" where
  "smchost_task_init s = on_hs sci_queue_init (s\<lparr>host_req_len := 0, host_res_len := 0\<rparr>)"

section \<open>Data for the host\<close>

definition send_to_host :: "u8 list \<Rightarrow> u8 \<Rightarrow> 'x smc \<Rightarrow> 'x smc res" where
  "send_to_host pdata Len s =
     (case load_seq pdata 0 (unat Len) of
        Inl e \<Rightarrow> Inl e
      | Inr bs \<Rightarrow>
          (case store_seq (host_res s) 0 bs of
             Inl e \<Rightarrow> Inl e
           | Inr r \<Rightarrow> Inr (s\<lparr>host_res := r, host_res_len := Len, host_res_idx := 0\<rparr>)))"

definition proc_host_send :: "obf \<Rightarrow> 'x smc \<Rightarrow> (bool \<times> 'x smc) res" where
  "proc_host_send o' s =
     (if host_res_len s > 0 then
        (let (full, h1) = acpi_get_obf o' (hs s); s1 = s\<lparr>hs := h1\<rparr> in
         if full then Inr (True, s1)
         else
           (case ld (host_res s1) (unat (host_res_idx s1)) of
              Inl e \<Rightarrow> Inl e
            | Inr b \<Rightarrow>
                (let s2 = (on_hs (acpi_write_odr b) s1)\<lparr>host_res_idx := host_res_idx s1 + 1, host_res_len := host_res_len s1 - 1\<rparr>
                 in Inr (host_res_len s2 > 0, s2))))
      else Inr (False, s))"

text \<open>\<open>ibf\<close>: the input buffer is full again.\<close>

definition smchost_process_tasks :: "obf \<Rightarrow> bool \<Rightarrow> 'x smc \<Rightarrow> (bool \<times> 'x smc) res" where
  "smchost_process_tasks o' ibf s =
     (let s1 = (if ibf then s
                else (let (full, h1) = acpi_get_obf o' (hs s) in s\<lparr>hs := if full then h1 else check_sci_queue h1\<rparr>)) in
      case proc_host_send o' s1 of
        Inl e \<Rightarrow> Inl e
      | Inr (pend_data, s2) \<Rightarrow> Inr (sci_pending (hs s2) \<or> pend_data, s2))"

section \<open>Commands\<close>

definition acpi_to_ospm :: "obf \<Rightarrow> u8 \<Rightarrow> 'x hcore_scheme \<Rightarrow> bool \<times> 'x hcore_scheme" where
  "acpi_to_ospm o' byte s =
     (let s1 = acpi_set_flag ACPI_FLAG_SCIEVENT (sci_pending s) s;
          (sent, s2) = acpi_send_byte o' byte s1
      in (sent, if sent then generate_sci s2 else s2))"

definition acpi_read_ec :: "obf \<Rightarrow> 'x smc \<Rightarrow> 'x smc res" where
  "acpi_read_ec o' s =
     (case ld (host_req s) 1 of
        Inl e \<Rightarrow> Inl e
      | Inr acpi_idx \<Rightarrow>
          (case md_acpiplanes_dispatcher True acpi_idx 0xFF (planes s, hs s) of
             Inl e \<Rightarrow> Inl e
           | Inr (ret, data, p, h) \<Rightarrow> Inr (s\<lparr>planes := p, hs := snd (acpi_to_ospm o' data h)\<rparr>)))"

definition acpi_write_ec :: "'x smc \<Rightarrow> 'x smc res" where
  "acpi_write_ec s =
     (case ld (host_req s) 1 of
        Inl e \<Rightarrow> Inl e
      | Inr acpi_idx \<Rightarrow>
          (case ld (host_req s) 2 of
             Inl e \<Rightarrow> Inl e
           | Inr data \<Rightarrow>
               (case md_acpiplanes_dispatcher False acpi_idx data (planes s, hs s) of
                  Inl e \<Rightarrow> Inl e
                | Inr (ret, data', p, h) \<Rightarrow> Inr (s\<lparr>planes := p, hs := h\<rparr>))))"

definition proc_acpi_burst :: "obf \<Rightarrow> 'x hcore_scheme \<Rightarrow> 'x hcore_scheme" where
  "proc_acpi_burst o' h =
     generate_sci (acpi_set_flag ACPI_FLAG_ACPIBURST False
       (snd (acpi_to_ospm o' SCI_BURST_ACK (acpi_set_flag ACPI_FLAG_ACPIBURST True h))))"

definition acpi_normal_ec :: "'x hcore_scheme \<Rightarrow> 'x hcore_scheme" where
  "acpi_normal_ec h = generate_sci (acpi_set_flag ACPI_FLAG_ACPIBURST False h)"

definition acpi_query_ec :: "obf \<Rightarrow> 'x hcore_scheme \<Rightarrow> 'x hcore_scheme" where
  "acpi_query_ec o' = send_sci_events o'"

definition smchost_req_length :: "smc_cfg \<Rightarrow> u8 \<Rightarrow> u8" where
  "smchost_req_length c command =
     (if command \<in> {0x0F, 0x27, 0x80, 0xEA, 0x38} \<or> (thermal_management c \<and> command \<in> {0xFE, 0x58}) then 1
      else if command \<in> {0x81, 0xEB} then 2 else 0)"

definition smchost_cmd_handler :: "smc_cfg \<Rightarrow> obf \<Rightarrow> u8 \<Rightarrow> 'x smc \<Rightarrow> 'x smc res" where
  "smchost_cmd_handler c o' command s =
     (if command = 0x80 then acpi_read_ec o' s
      else if command = 0x81 then acpi_write_ec s
      else if command = 0x82 then Inr (on_hs (proc_acpi_burst o') s)
      else if command = 0x83 then Inr (on_hs acpi_normal_ec s)
      else if command = 0x84 then Inr (on_hs (acpi_query_ec o') s)
      else if command = 0xE0 then Inr (if ucsi c then on_hs (hemit Ucsi_write_done) s else s)
      else if command = 0xE1 then Inr (if ucsi c then on_hs (hemit Ucsi_read_done) s else s)
      else if command = 0xA0 then Inr (on_hs (ACPI_EnableHostNotify (charger c)) s)
      else if command = 0xA1 then Inr (on_hs (ACPI_DisableHostNotify (ucsi c)) s)
      else Inr s)"

section \<open>The service loops\<close>

text \<open>What the loop does after a byte was stored.\<close>

definition after_byte :: "smc_cfg \<Rightarrow> obf \<Rightarrow> 'x smc \<Rightarrow> 'x smc res" where
  "after_byte c o' s =
     (let cmd = host_req s ! 0 in
      if cmd = 0 then Inr s
      else
        (let s1 = (if cmd = EC_READ \<and> host_req_len s \<noteq> 1 then on_hs generate_sci s else s);
             s2 = (if cmd = EC_WRITE then on_hs generate_sci s1 else s1)
         in if smchost_req_length c cmd = host_req_len s2 then
              (case smchost_cmd_handler c o' cmd s2 of
                 Inl e \<Rightarrow> Inl e
               | Inr s3 \<Rightarrow>
                   (let s4 = s3\<lparr>host_req := (host_req s3)[0 := 0]\<rparr> in
                    Inr (if sci_pending (hs s4)
                         then on_hs (\<lambda>h. generate_sci (acpi_set_flag ACPI_FLAG_SCIEVENT True h)) s4 else s4)))
            else Inr s2))"

fun smchost_acpi0_service :: "smc_cfg \<Rightarrow> obf \<Rightarrow> (bool \<times> u8) list \<Rightarrow> 'x smc \<Rightarrow> ((bool \<times> u8) list \<times> 'x smc) res" where
  "smchost_acpi0_service c o' [] s = Inr ([], s)"
| "smchost_acpi0_service c o' ((is_cmd, byte) # rest) s =
     (let s0 = (if is_cmd then s\<lparr>host_req_len := 0\<rparr> else s) in
      if \<not> is_cmd \<and> \<not> host_req_len s0 < SMCHOST_MAX_BUF_SIZE then Inr ((is_cmd, byte) # rest, s0)
      else
        (let (b, h) = acpi_read_idr byte (hs s0) in
         case st (host_req s0) (unat (host_req_len s0)) b of
           Inl e \<Rightarrow> Inl e
         | Inr req \<Rightarrow>
             (case after_byte c o' (s0\<lparr>hs := h, host_req := req\<rparr>) of
                Inl e \<Rightarrow> Inl e
              | Inr s1 \<Rightarrow> smchost_acpi0_service c o' rest (s1\<lparr>host_req_len := host_req_len s1 + 1\<rparr>))))"

text \<open>
  The second interface (ports 6C/68) takes data bytes only: a command byte is not read, so its
  flag stays set and the loop does not end. \<open>saf\<close> is \<open>espihub_get_saf_boot_mode\<close>.
\<close>

definition acpi1_data :: "smc_cfg \<Rightarrow> bool \<Rightarrow> u8 \<Rightarrow> 'x hcore_scheme \<Rightarrow> 'x hcore_scheme" where
  "acpi1_data c saf data h =
     (let h1 = (if data = 0xE0 then (if ucsi c then hemit Ucsi_write_done h else h)
                else if data = 0xE1 then (if ucsi c then hemit Ucsi_read_done h else h) else h)
      in if saf then h1
      else if data = 0xD0 then hemit (Fa_test 0) h1
      else if data = 0xD1 then hemit (Fa_test 1) h1
      else if data = 0xD2 then hemit (Fa_test 2) h1
      else if data = 0xDC then hemit Rcin_low h1
      else if data = 0xDE then hemit (Spi_test 1) h1
      else if data = 0xDD then hemit (Spi_test 0) h1
      else if data = 0xBB then hemit (Spi_test 2) h1
      else if data = 0xBE then hemit (Spi_test 3) h1
      else if data = 0xF0 then hemit (Spi_test 4) h1
      else if data = 0xFF then hemit (Spi_test 5) h1
      else if data = 0xFC then hemit (Spi_test 6) h1
      else if data = 0x72 then hemit (Spi_test 7) h1
      else h1)"

fun smchost_acpi1_service :: "smc_cfg \<Rightarrow> bool \<Rightarrow> (bool \<times> u8) list \<Rightarrow> 'x smc \<Rightarrow> 'x smc res" where
  "smchost_acpi1_service c saf [] s = Inr s"
| "smchost_acpi1_service c saf ((is_cmd, byte) # rest) s =
     (if is_cmd then Inl Diverges else smchost_acpi1_service c saf rest (on_hs (acpi1_data c saf byte) s))"

text \<open>The outer loop of the thread, at most \<open>n\<close> rounds.\<close>

fun smchost_serve :: "nat \<Rightarrow> smc_cfg \<Rightarrow> obf \<Rightarrow> bool \<Rightarrow> (bool \<times> u8) list \<Rightarrow> (bool \<times> u8) list \<Rightarrow> 'x smc \<Rightarrow> 'x smc res" where
  "smchost_serve n c o' saf [] [] s = Inr s"
| "smchost_serve 0 c o' saf in0 in1 s = Inl Diverges"
| "smchost_serve (Suc n) c o' saf in0 in1 s =
     (case smchost_acpi0_service c o' in0 s of
        Inl e \<Rightarrow> Inl e
      | Inr (rest, s1) \<Rightarrow>
          (case smchost_acpi1_service c saf in1 s1 of
             Inl e \<Rightarrow> Inl e
           | Inr s2 \<Rightarrow> smchost_serve n c o' saf rest [] s2))"

text \<open>One wakeup of the thread.\<close>

definition smchost_thread_pass ::
  "nat \<Rightarrow> smc_cfg \<Rightarrow> obf \<Rightarrow> bool \<Rightarrow> bool \<Rightarrow> (bool \<times> u8) list \<Rightarrow> (bool \<times> u8) list \<Rightarrow> 'x smc \<Rightarrow> 'x smc res" where
  "smchost_thread_pass n c o' saf ibf in0 in1 s =
     (case smchost_serve n c o' saf in0 in1 s of
        Inl e \<Rightarrow> Inl e
      | Inr s1 \<Rightarrow>
          (let intr = on_hs (\<lambda>h. hemit (Ibf_intr 1) (hemit (Ibf_intr 0) h));
               s2 = (if in0 \<noteq> [] \<or> in1 \<noteq> [] then intr s1 else s1)
           in case smchost_process_tasks o' ibf s2 of
                Inl e \<Rightarrow> Inl e
              | Inr (pend, s3) \<Rightarrow> Inr (intr (if pend then s3 else on_hs (hemit Sleep_ready) s3))))"

section \<open>Wake status\<close>

definition smc_generate_wake :: "u8 \<Rightarrow> u8 \<Rightarrow> u8" where
  "smc_generate_wake wake_reason g_wake_status = g_wake_status OR wake_reason"

definition smc_clear_wake_sts :: "u8 \<Rightarrow> u8" where
  "smc_clear_wake_sts g_wake_status = 0"

section \<open>Write permissions\<close>

text \<open>
  The table of the registers the host may write, as runs of equal attributes. It is asked by
  builds without the register planes.
\<close>

definition acpi_tbl_attr :: "bool list" where
  "acpi_tbl_attr = concat (map (\<lambda>(a, n). replicate n a)
     [(False, 4), (True, 44), (False, 10), (True, 1), (False, 5), (True, 6), (False, 8), (True, 9), (False, 33), (True, 1), (False, 3), (True, 1),
      (False, 12), (True, 1), (False, 17), (True, 26), (False, 14), (True, 7), (False, 17), (True, 6), (False, 8), (True, 12), (False, 11)])"

definition smc_is_acpi_offset_write_permitted :: "u8 \<Rightarrow> bool res" where
  "smc_is_acpi_offset_write_permitted offset = ld acpi_tbl_attr (unat offset)"

definition smc_get_wake_sts :: "u8 \<Rightarrow> u8" where
  "smc_get_wake_sts g_wake_status = g_wake_status"

end
