(* ===== verification/Smchost_Props.thy ===== *)
theory Smchost_Props
  imports Smchost Acpiplanes_Props
begin

text \<open>
  The host side of the embedded controller. The event queue delivers events in order and drops
  them beyond 32; a read transaction on the ports returns what the register's handler returned;
  the service loop never accesses its request buffer out of bounds; and a data byte it has no room
  for stays in the input register, where the outer loop finds it again and again.
\<close>

section \<open>Event queue\<close>

text \<open>The bytes written for the host.\<close>

definition odrs :: "host_ev list \<Rightarrow> u8 list" where
  "odrs evs = List.map_filter (\<lambda>e. case e of Odr b \<Rightarrow> Some b | _ \<Rightarrow> None) evs"

lemma odrs_simps [simp]:
  "odrs [] = []" "odrs (xs @ ys) = odrs xs @ odrs ys" "odrs (Odr b # xs) = b # odrs xs"
  "odrs (Flag f v # xs) = odrs xs" "odrs (Sci_pulse # xs) = odrs xs" "odrs (Signal_request # xs) = odrs xs"
  by (simp_all add: odrs_def map_filter_def)

named_theorems hostdefs \<comment> \<open>the interface registers, unfolded\<close>

declare hemit_def [hostdefs] acpi_get_obf_def [hostdefs] acpi_set_flag_def [hostdefs] acpi_read_idr_def [hostdefs]
  acpi_write_odr_def [hostdefs] generate_sci_def [hostdefs] smchost_signal_request_def [hostdefs]

lemma enqueue_all:
  "sci_msgq (fold enqueue_sci es s) = sci_msgq s @ take (SCIQ_SIZE - length (sci_msgq s)) es \<and>
   odrs (host_evs (fold enqueue_sci es s)) = odrs (host_evs s) \<and> acpi_mode (fold enqueue_sci es s) = acpi_mode s"
proof (induction es arbitrary: s)
  case (Cons e es)
  show ?case
  proof (cases "length (sci_msgq s) < SCIQ_SIZE")
    case True
    then have "SCIQ_SIZE - length (sci_msgq s) = Suc (SCIQ_SIZE - Suc (length (sci_msgq s)))" by simp
    with True Cons show ?thesis by (simp add: enqueue_sci_def hostdefs)
  next
    case False
    with Cons show ?thesis by (simp add: enqueue_sci_def hostdefs)
  qed
qed simp

lemma query_step:
  assumes "acpi_mode s" "\<not> o' (polls s)"
  shows "sci_msgq (send_sci_events o' s) = tl (sci_msgq s)" "acpi_mode (send_sci_events o' s)"
    "odrs (host_evs (send_sci_events o' s)) = odrs (host_evs s) @ [case sci_msgq s of [] \<Rightarrow> 0 | e # q \<Rightarrow> e]"
  using assms by (auto simp: send_sci_events_def hostdefs Let_def split: list.split)

lemma query_all:
  "acpi_mode s \<Longrightarrow> \<forall>k. \<not> o' k \<Longrightarrow>
     odrs (host_evs ((send_sci_events o' ^^ n) s)) =
       odrs (host_evs s) @ take n (sci_msgq s) @ replicate (n - length (sci_msgq s)) 0"
proof (induction n arbitrary: s)
  case (Suc n)
  then have "\<not> o' (polls s)" by blast
  note q = query_step [where o' = o', OF Suc.prems(1) this]
  show ?case
    using Suc.IH [OF q(2) Suc.prems(2)]
    by (cases "sci_msgq s") (simp_all add: q(1,3) funpow_Suc_right del: funpow.simps)
qed simp

text \<open>
  C18. A host that reads its bytes gets the queued events first in, first out: after events are
  enqueued, the n-th query returns the n-th event of the queue. What exceeds 32 queued events is
  dropped, and a query on an empty queue returns 0.
\<close>

theorem sci_events_fifo:
  assumes "acpi_mode s" "\<forall>k. \<not> o' k"
  shows "odrs (host_evs ((send_sci_events o' ^^ n) (fold enqueue_sci es s))) =
     (let q = sci_msgq s @ take (SCIQ_SIZE - length (sci_msgq s)) es in
      odrs (host_evs s) @ take n q @ replicate (n - length q) 0)"
  using assms enqueue_all [of es s] query_all [of "fold enqueue_sci es s" o' n] by (simp add: Let_def)

definition demo_hcore :: hcore where
  "demo_hcore = \<lparr>str0 = 0, polls = 0, sci_msgq = [], sci_enabled = True, acpi_mode = True, g_ui8MondernStandbySupport = False,
     systemState = SYSTEM_S0_STATE, s_fakeEventId = 0, g_isUcsiCycleFinished = True, host_evs = []\<rparr>"

theorem sci_events_fifo_witness:
  "odrs (host_evs ((send_sci_events (\<lambda>_. False) ^^ 3) (fold enqueue_sci [0x70, 0x35] demo_hcore))) = [0x70, 0x35, 0]"
  using sci_events_fifo [of demo_hcore "\<lambda>_. False" 3 "[0x70, 0x35]"] by (simp add: demo_hcore_def SCIQ_SIZE_def)

section \<open>Reading a register\<close>

lemma send_poll_sent:
  "\<exists>k < n. \<not> o' (polls s + k) \<Longrightarrow>
     \<exists>m. send_poll o' n d s = (True, acpi_write_odr d (s\<lparr>polls := m\<rparr>))"
proof (induction n arbitrary: s)
  case (Suc n)
  show ?case
  proof (cases "o' (polls s)")
    case True
    from Suc.prems obtain k where k: "k < Suc n" "\<not> o' (polls s + k)" by blast
    with True have "k \<noteq> 0" by (metis add_0_right)
    with k have "\<exists>j < n. \<not> o' (polls (s\<lparr>polls := polls s + 1\<rparr>) + j)"
      by (intro exI [of _ "k - 1"]) auto
    from Suc.IH [OF this] True show ?thesis by (auto simp: acpi_get_obf_def)
  qed (auto simp: acpi_get_obf_def)
qed simp

lemma to_ospm_sent:
  assumes "\<exists>k < HOST_TIMEOUT. \<not> o' (polls h + k)"
  shows "\<exists>m. snd (acpi_to_ospm o' d h) =
     generate_sci (acpi_write_odr d (acpi_set_flag ACPI_FLAG_SCIEVENT (sci_pending h) h\<lparr>polls := m\<rparr>))"
proof -
  have "\<exists>k < HOST_TIMEOUT. \<not> o' (polls (acpi_set_flag ACPI_FLAG_SCIEVENT (sci_pending h) h) + k)"
    using assms by (simp add: hostdefs)
  from send_poll_sent [OF this, of d] show ?thesis
    by (auto simp: acpi_to_ospm_def acpi_send_byte_def Let_def)
qed

text \<open>The interface state when the index byte of a read has been taken.\<close>

definition ec_read_pre :: "u8 \<Rightarrow> 'x hcore_scheme \<Rightarrow> 'x hcore_scheme" where
  "ec_read_pre idx h = snd (acpi_read_idr idx (generate_sci (snd (acpi_read_idr EC_READ h))))"

text \<open>
  A read transaction on the ports: after the command 80h and an index byte the handler of the
  register has run exactly once, and the host is sent the byte it returned, then one interrupt.
  It holds when the host empties the output buffer within the 600 polls the firmware waits and no
  event is pending.
\<close>

theorem ec_read_returns_register:
  assumes "length (host_req s) = 10"
    and "md_acpiplanes_dispatcher True idx 0xFF (planes s, ec_read_pre idx (hs s)) = Inr (ret, data, p, h)"
    and "\<exists>k < HOST_TIMEOUT. \<not> o' (polls h + k)" "\<not> sci_pending h"
  shows "\<exists>s'. smchost_acpi0_service c o' [(True, EC_READ), (False, idx)] s = Inr ([], s') \<and>
     planes s' = p \<and> host_req s' ! 0 = 0 \<and>
     host_evs (hs s') = host_evs h @ [Flag ACPI_FLAG_SCIEVENT False, Odr data, Sci_pulse]"
proof -
  obtain m where m: "snd (acpi_to_ospm o' data h) =
      generate_sci (acpi_write_odr data (acpi_set_flag ACPI_FLAG_SCIEVENT (sci_pending h) h\<lparr>polls := m\<rparr>))"
    using to_ospm_sent [OF assms(3)] by blast
  have np: "\<not> sci_pending (snd (acpi_to_ospm o' data h))" using assms(4) m by (simp add: hostdefs sci_pending_def)
  have ev: "host_evs (snd (acpi_to_ospm o' data h)) = host_evs h @ [Flag ACPI_FLAG_SCIEVENT False, Odr data, Sci_pulse]"
    using assms(4) m by (simp add: hostdefs)
  define req where "req = (host_req s)[0 := EC_READ]"
  define s1 where "s1 = s\<lparr>hs := generate_sci (snd (acpi_read_idr EC_READ (hs s))), host_req := req, host_req_len := 1\<rparr>"
  have r: "length req = 10" "req ! 0 = EC_READ" using assms(1) by (simp_all add: req_def)
  have rl: "smchost_req_length c EC_READ = 1" by (simp add: smchost_req_length_def EC_READ_def)
  have c1: "smchost_acpi0_service c o' [(True, EC_READ), (False, idx)] s = smchost_acpi0_service c o' [(False, idx)] s1"
    using assms(1) rl r
    by (simp add: req_def s1_def access Let_def acpi_read_idr_def after_byte_def on_hs_def EC_READ_def EC_WRITE_def
        smchost_req_length_def)
  define s2 where "s2 = s1\<lparr>hs := ec_read_pre idx (hs s), host_req := req[1 := idx]\<rparr>"
  have e: "ec_read_pre idx (hs s) = snd (acpi_read_idr idx (hs s1))" by (simp add: ec_read_pre_def s1_def)
  have rd: "acpi_read_ec o' s2 = Inr (s2\<lparr>planes := p, hs := snd (acpi_to_ospm o' data h)\<rparr>)"
    using r assms(2) by (simp add: acpi_read_ec_def s2_def s1_def access)
  have c2: "smchost_acpi0_service c o' [(False, idx)] s1 =
     Inr ([], s2\<lparr>planes := p, hs := snd (acpi_to_ospm o' data h), host_req := (host_req s2)[0 := 0], host_req_len := 2\<rparr>)"
  proof -
    have "after_byte c o' s2 = Inr (s2\<lparr>planes := p, hs := snd (acpi_to_ospm o' data h), host_req := (host_req s2)[0 := 0]\<rparr>)"
      using r rl rd np
      by (simp add: after_byte_def Let_def smchost_cmd_handler_def s2_def s1_def EC_READ_def EC_WRITE_def)
    moreover have "s1\<lparr>hs := ec_read_pre idx (hs s), host_req := req[1 := idx]\<rparr> = s2" by (simp add: s2_def)
    ultimately show ?thesis
      using r by (simp add: s1_def access Let_def SMCHOST_MAX_BUF_SIZE_def acpi_read_idr_def ec_read_pre_def s2_def)
  qed
  show ?thesis
    using r unfolding c1 c2 by (simp add: ev s2_def)
qed

text \<open>A space whose fixed plane answers every register with the register's number plus one.\<close>

definition demo_smc :: "unit smc" where
  "demo_smc = \<lparr>hs = demo_hcore,
     planes = \<lparr>s_xAcpiPlanes = [], gs_acpiPlanesId = 0xFF, ui8AcpiSelectorUpdate = 0, gs_pCurTab = None, gs_tabSize = 0,
       gs_pCurFun = None, gs_pFixedPlane = None, gs_fixedPlaneTabSize = 0, gs_pFixedFun = Some (\<lambda>r i d h. (1, i + 1, h))\<rparr>,
     host_req = replicate 10 0, host_res = replicate 10 0, host_req_len = 0, host_res_len = 0, host_res_idx = 0,
     pltrst_signal_sts = True\<rparr>"

definition demo_smc_cfg :: smc_cfg where
  "demo_smc_cfg = \<lparr>charger = True, ucsi = True, thermal_management = True, udc_management = True\<rparr>"

section \<open>The request buffer\<close>

text \<open>What the service keeps: the buffer has its 10 bytes and the tables can be searched.\<close>

definition smc_inv :: "'x smc \<Rightarrow> bool" where
  "smc_inv s \<longleftrightarrow> length (host_req s) = 10 \<and> host_req_len s \<le> SMCHOST_MAX_BUF_SIZE \<and> planes_ok (planes s)"

lemma cmd_handler_ok:
  assumes "smc_inv s"
  shows "\<exists>s'. smchost_cmd_handler c o' cmd s = Inr s' \<and> smc_inv s' \<and> host_req_len s' = host_req_len s \<and> host_req s' = host_req s"
proof -
  have l: "length (host_req s) = 10" "planes_ok (planes s)" using assms by (auto simp: smc_inv_def)
  obtain ret d ps where r: "md_acpiplanes_dispatcher True (host_req s ! 1) 0xFF (planes s, hs s) = Inr (ret, d, ps)" "planes_ok (fst ps)"
    using dispatcher_ok [of "(planes s, hs s)"] l by fastforce
  obtain ret' d' ps' where w: "md_acpiplanes_dispatcher False (host_req s ! 1) (host_req s ! 2) (planes s, hs s) = Inr (ret', d', ps')"
      "planes_ok (fst ps')"
    using dispatcher_ok [of "(planes s, hs s)"] l by fastforce
  have ld: "ld (host_req s) 1 = Inr (host_req s ! 1)" "ld (host_req s) 2 = Inr (host_req s ! 2)"
    using l by (simp_all add: access)
  have "\<exists>s'. acpi_read_ec o' s = Inr s' \<and> smc_inv s' \<and> host_req_len s' = host_req_len s \<and> host_req s' = host_req s"
    using assms r ld by (cases ps) (simp add: acpi_read_ec_def smc_inv_def)
  moreover have "\<exists>s'. acpi_write_ec s = Inr s' \<and> smc_inv s' \<and> host_req_len s' = host_req_len s \<and> host_req s' = host_req s"
    using assms w ld by (cases ps') (simp add: acpi_write_ec_def smc_inv_def)
  ultimately show ?thesis
    using assms by (simp add: smchost_cmd_handler_def on_hs_def smc_inv_def)
qed

lemma after_byte_ok:
  assumes "smc_inv s"
  shows "\<exists>s'. after_byte c o' s = Inr s' \<and> smc_inv s' \<and> host_req_len s' = host_req_len s"
proof -
  define s1 where "s1 = (if host_req s ! 0 = EC_READ \<and> host_req_len s \<noteq> 1 then on_hs generate_sci s else s)"
  define s2 where "s2 = (if host_req s ! 0 = EC_WRITE then on_hs generate_sci s1 else s1)"
  have s2: "smc_inv s2" "host_req_len s2 = host_req_len s"
    using assms by (auto simp: s1_def s2_def smc_inv_def on_hs_def)
  from cmd_handler_ok [OF s2(1)] obtain s3 where
    "smchost_cmd_handler c o' (host_req s ! 0) s2 = Inr s3" "smc_inv s3" "host_req_len s3 = host_req_len s" using s2(2) by metis
  with s2 assms show ?thesis
    by (simp add: after_byte_def Let_def flip: s1_def s2_def) (simp add: smc_inv_def on_hs_def)
qed

text \<open>One byte, when there is room for it.\<close>

lemma service_byte:
  assumes "s0 = (if is_cmd then s\<lparr>host_req_len := 0\<rparr> else s)" "host_req_len s0 < SMCHOST_MAX_BUF_SIZE" "length (host_req s) = 10"
  shows "smchost_acpi0_service c o' ((is_cmd, byte) # rest) s =
     (case after_byte c o' (s0\<lparr>hs := acpi_set_flag 0x04 True (hs s0),
             host_req := (host_req s0)[unat (host_req_len s0) := byte]\<rparr>) of
        Inl e \<Rightarrow> Inl e
      | Inr s1 \<Rightarrow> smchost_acpi0_service c o' rest (s1\<lparr>host_req_len := host_req_len s1 + 1\<rparr>))"
proof -
  have "unat (host_req_len s0) < length (host_req s0)"
    using assms by (auto simp: SMCHOST_MAX_BUF_SIZE_def word_less_nat_alt split: if_splits)
  then have "st (host_req s0) (unat (host_req_len s0)) byte = Inr ((host_req s0)[unat (host_req_len s0) := byte])"
    by (simp add: access)
  with assms(2) show ?thesis by (simp add: Let_def acpi_read_idr_def flip: assms(1))
qed

lemma service_full:
  "\<not> host_req_len s < SMCHOST_MAX_BUF_SIZE \<Longrightarrow>
     smchost_acpi0_service c o' ((False, byte) # rest) s = Inr ((False, byte) # rest, s)"
  by simp

declare smchost_acpi0_service.simps(2) [simp del]

lemma service_ok: "smc_inv s \<Longrightarrow> \<exists>rest s'. smchost_acpi0_service c o' inp s = Inr (rest, s') \<and> smc_inv s'"
proof (induction inp arbitrary: s)
  case (Cons x inp)
  obtain is_cmd byte where x: "x = (is_cmd, byte)" by (cases x)
  define s0 where "s0 = (if is_cmd then s\<lparr>host_req_len := 0\<rparr> else s)"
  have i0: "smc_inv s0" using Cons.prems by (simp add: s0_def smc_inv_def SMCHOST_MAX_BUF_SIZE_def)
  show ?case
  proof (cases "host_req_len s0 < SMCHOST_MAX_BUF_SIZE")
    case False
    then have "\<not> is_cmd" by (auto simp: s0_def SMCHOST_MAX_BUF_SIZE_def)
    with False Cons.prems x show ?thesis by (simp add: s0_def service_full)
  next
    case True
    define s1 where "s1 = s0\<lparr>hs := acpi_set_flag 0x04 True (hs s0), host_req := (host_req s0)[unat (host_req_len s0) := byte]\<rparr>"
    have "smc_inv s1" using i0 by (simp add: s1_def smc_inv_def)
    from after_byte_ok [OF this] obtain s2 where s2: "after_byte c o' s1 = Inr s2" "smc_inv s2" "host_req_len s2 = host_req_len s0"
      by (fastforce simp: s1_def)
    have "host_req_len s2 + 1 \<le> SMCHOST_MAX_BUF_SIZE" using True s2(3) by (simp add: inc_le)
    with s2(2) have "smc_inv (s2\<lparr>host_req_len := host_req_len s2 + 1\<rparr>)" by (simp add: smc_inv_def)
    from Cons.IH [OF this] show ?thesis
      using service_byte [OF s0_def True] Cons.prems s2(1) x by (simp add: smc_inv_def flip: s1_def)
  qed
qed simp

definition smc_step :: "smc_cfg \<Rightarrow> 'x smc \<Rightarrow> obf \<times> (bool \<times> u8) list \<Rightarrow> ((bool \<times> u8) list \<times> 'x smc) res" where
  "smc_step c s i = smchost_acpi0_service c (fst i) (snd i) s"

interpretation smc_port: safe_machine "smc_step c" smc_inv "\<lambda>_. True" for c
  using service_ok by unfold_locales (auto simp: smc_step_def)

text \<open>
  Whatever the host writes to the ports, in however many wakeups, the service loop never stores
  outside the request buffer and never reads a register table out of bounds.
\<close>

theorem smc_service_safe:
  assumes "length (host_req s) = 10" "host_req_len s \<le> SMCHOST_MAX_BUF_SIZE" "planes_ok (planes s)"
  shows "\<exists>os s'. run_res (smc_step c) s is = Inr (os, s') \<and> length os = length is"
  using smc_port.run_safe [of s "is" c] assms by (auto simp: smc_inv_def list_all_iff)

section \<open>A byte without room\<close>

lemma service_data:
  "length (host_req s) = 10 \<Longrightarrow> host_req s ! 0 = 0 \<Longrightarrow> 0 < host_req_len s \<Longrightarrow> unat (host_req_len s) + length ds \<le> 10 \<Longrightarrow>
     \<exists>s'. smchost_acpi0_service c o' (map (Pair False) ds @ rest) s = smchost_acpi0_service c o' rest s' \<and>
       unat (host_req_len s') = unat (host_req_len s) + length ds"
proof (induction ds arbitrary: s)
  case (Cons d ds)
  define s2 where "s2 = s\<lparr>hs := acpi_set_flag 0x04 True (hs s), host_req := (host_req s)[unat (host_req_len s) := d]\<rparr>"
  have lt: "host_req_len s < SMCHOST_MAX_BUF_SIZE" using Cons.prems by (simp add: SMCHOST_MAX_BUF_SIZE_def word_less_nat_alt)
  have z: "host_req s2 ! 0 = 0" using Cons.prems by (simp add: s2_def word_less_nat_alt)
  then have ab: "after_byte c o' s2 = Inr s2" by (simp add: after_byte_def)
  let ?s3 = "s2\<lparr>host_req_len := host_req_len s2 + 1\<rparr>"
  have u: "unat (host_req_len s + 1) = unat (host_req_len s) + 1" using lt by (rule unat_inc)
  have "\<exists>s'. smchost_acpi0_service c o' (map (Pair False) ds @ rest) ?s3 = smchost_acpi0_service c o' rest s' \<and>
      unat (host_req_len s') = unat (host_req_len ?s3) + length ds"
    using Cons.prems z u by (intro Cons.IH) (simp_all add: s2_def word_less_nat_alt)
  then show ?case
    using service_byte [of s False s c o' d "map (Pair False) ds @ rest"] lt Cons.prems ab u
    by (simp flip: s2_def) (simp add: s2_def)
qed auto

lemma serve_stuck:
  "\<not> host_req_len s < SMCHOST_MAX_BUF_SIZE \<Longrightarrow> smchost_serve n c o' saf ((False, b) # rest) [] s = Inl Diverges"
  by (induction n) (simp_all add: service_full)

text \<open>
  C19. A complete command followed by ten data bytes hangs the host task: the tenth finds no room,
  the service leaves it in the input register, and the outer loop, which ends when the register is
  empty, does not end in any number of rounds.
\<close>

theorem smc_surplus_data_hangs:
  assumes "length (host_req s) = 10" "length ds = 10"
  shows "smchost_serve n c o' saf ((True, 0x83) # map (Pair False) ds @ rest) [] s = Inl Diverges"
proof (cases n)
  case (Suc m)
  obtain d1 where ds: "ds = butlast ds @ [d1]" "length (butlast ds) = 9" using assms(2) by (cases ds rule: rev_cases) auto
  define s0 where "s0 = s\<lparr>host_req_len := 0\<rparr>"
  define s1 where "s1 = s0\<lparr>hs := acpi_set_flag 0x04 True (hs s0), host_req := (host_req s0)[unat (host_req_len s0) := 0x83]\<rparr>"
  have r: "host_req s1 ! 0 = 0x83" "length (host_req s1) = 10" "host_req_len s1 = 0" using assms(1) by (simp_all add: s1_def s0_def)
  obtain s2 where s2: "after_byte c o' s1 = Inr s2" "length (host_req s2) = 10" "host_req s2 ! 0 = 0" "host_req_len s2 = 0"
    using r by (auto simp: after_byte_def Let_def smchost_req_length_def EC_READ_def EC_WRITE_def smchost_cmd_handler_def on_hs_def)
  have c1: "smchost_acpi0_service c o' ((True, 0x83) # map (Pair False) ds @ rest) s =
      smchost_acpi0_service c o' (map (Pair False) ds @ rest) (s2\<lparr>host_req_len := 1\<rparr>)"
    using service_byte [of s0 True s c o' "0x83" "map (Pair False) ds @ rest"] assms(1) s2
    by (simp add: s0_def [symmetric] SMCHOST_MAX_BUF_SIZE_def flip: s1_def) (simp add: s0_def)
  obtain s3 where s3: "smchost_acpi0_service c o' (map (Pair False) (butlast ds) @ (False, d1) # rest) (s2\<lparr>host_req_len := 1\<rparr>) =
        smchost_acpi0_service c o' ((False, d1) # rest) s3" "unat (host_req_len s3) = 10"
    using service_data [of "s2\<lparr>host_req_len := 1\<rparr>" "butlast ds" c o' "(False, d1) # rest"] s2 ds(2) by auto
  have full: "\<not> host_req_len s3 < SMCHOST_MAX_BUF_SIZE" using s3(2) by (simp add: SMCHOST_MAX_BUF_SIZE_def word_less_nat_alt)
  have "map (Pair False) ds @ rest = map (Pair False) (butlast ds) @ (False, d1) # rest" by (subst ds(1)) simp
  with c1 s3 full have "smchost_acpi0_service c o' ((True, 0x83) # map (Pair False) ds @ rest) s = Inr ((False, d1) # rest, s3)"
    by (simp add: service_full)
  with Suc show ?thesis by (simp add: serve_stuck [OF full])
qed simp

theorem smc_surplus_data_hangs_witness:
  "smchost_serve 5 demo_smc_cfg (\<lambda>_. False) True ((True, 0x83) # map (Pair False) (replicate 10 1) @ []) [] demo_smc = Inl Diverges"
  by (rule smc_surplus_data_hangs) (simp_all add: demo_smc_def)

section \<open>Write permissions\<close>

lemma length_acpi_tbl_attr: "length acpi_tbl_attr = 256"
  by (simp add: acpi_tbl_attr_def length_concat)

lemma write_permitted_total: "\<exists>b. smc_is_acpi_offset_write_permitted offset = Inr b"
  using unsigned_less [of offset, where ?'a = nat]
  by (simp add: smc_is_acpi_offset_write_permitted_def length_acpi_tbl_attr access)

end
