(* ===== verification/Nvfields.thy ===== *)
theory Nvfields
  imports Sci
begin

text \<open>
  The options as bit fields: the accessors \<open>GET_NV_OPTIONS\<close> and \<open>SET_NV_OPTIONS\<close> of
  \<open>src/misc/f_nv_options.h\<close> over the fields that \<open>board_nvoption.h\<close> of a board declares. A field
  keeps as many bits of a value as the board gives it; a value that differs from the stored one
  marks the options for saving. The assertion on the magic number holds since the options were
  loaded (\<open>Nvopt\<close>).
\<close>

datatype nv_opt =
    pwr_keepWlanPwrInS3 | pwr_keepWlanPwrInS4 | pwr_SSD0D3Cold | pwr_SSD1D3Cold | chg_UseNvdcMode
  | chg_DcOnlyProchot | chg_AcOnlyProchot | chg_AcDcSwitch | chg_AcTime | chg_DcTime | chg_FakeDcLevel
  | chg_DcProchotLevel | chg_ProchotAcDebounce | chg_ProchotDuration | chg_ProchotDcDebounce
  | thm_p3tLimitEn_DC | thm_p3tLimitEn_AC | thm_uploadOnboardTemp | thm_uploadEvalCardTemp
  | f_wirelessManagability | f_s0i3KbcWake | f_TurnOnPostCode | espi_ResetInS0i3 | cpu_open_type
  | waie_b_value | hot_bag_enable | thermtrip_force_g3 | s5_alw_enable

record opts = hcore +
  nv :: "nv_opt \<Rightarrow> u32"
  nv_hasUpdate :: bool

definition GET_NV_OPTIONS :: "nv_opt \<Rightarrow> 'x opts_scheme \<Rightarrow> u32" where
  "GET_NV_OPTIONS n s = nv s n"

definition SET_NV_OPTIONS :: "(nv_opt \<Rightarrow> nat) \<Rightarrow> nv_opt \<Rightarrow> u32 \<Rightarrow> 'x opts_scheme \<Rightarrow> 'x opts_scheme" where
  "SET_NV_OPTIONS bits n v s = (if nv s n \<noteq> v then s\<lparr>nv := (nv s)(n := take_bit (bits n) v), nv_hasUpdate := True\<rparr> else s)"

text \<open>The fields of two boards; a field a board does not declare has no bits.\<close>

definition nv_bits_mdsplum :: "nv_opt \<Rightarrow> nat" where
  "nv_bits_mdsplum n =
     (if n \<in> {chg_AcTime, chg_DcTime, chg_FakeDcLevel, cpu_open_type} then 8
      else if n = chg_DcProchotLevel then 6
      else if n \<in> {chg_ProchotAcDebounce, chg_ProchotDcDebounce} then 2
      else if n = chg_ProchotDuration then 3
      else if n = s5_alw_enable then 0 else 1)"

definition nv_bits_rts5918 :: "nv_opt \<Rightarrow> nat" where
  "nv_bits_rts5918 n =
     (if n \<in> {chg_AcTime, chg_DcTime, chg_FakeDcLevel, chg_DcProchotLevel, chg_ProchotAcDebounce, chg_ProchotDcDebounce,
         chg_ProchotDuration} then 8
      else if n = cpu_open_type then 4
      else if n \<in> {waie_b_value, hot_bag_enable, s5_alw_enable} then 0 else 1)"

section \<open>Reading back\<close>

text \<open>Every field holds a value of its width.\<close>

definition nv_wf :: "(nv_opt \<Rightarrow> nat) \<Rightarrow> 'x opts_scheme \<Rightarrow> bool" where
  "nv_wf bits s \<longleftrightarrow> (\<forall>n. take_bit (bits n) (nv s n) = nv s n)"

lemma set_nv_wf: "nv_wf bits s \<Longrightarrow> nv_wf bits (SET_NV_OPTIONS bits n v s)"
  by (simp add: nv_wf_def SET_NV_OPTIONS_def)

text \<open>What is read back is the value, cut to the width of the field.\<close>

lemma get_set_nv:
  "nv_wf bits s \<Longrightarrow> GET_NV_OPTIONS m (SET_NV_OPTIONS bits n v s) = (if m = n then take_bit (bits n) v else GET_NV_OPTIONS m s)"
  by (auto simp: nv_wf_def GET_NV_OPTIONS_def SET_NV_OPTIONS_def)

lemma take_bit_flag: "0 < n \<Longrightarrow> take_bit n (of_bool b :: u32) = of_bool b"
  by (cases b) simp_all

lemma get_set_flag:
  "nv_wf bits s \<Longrightarrow> 0 < bits n \<Longrightarrow>
     GET_NV_OPTIONS m (SET_NV_OPTIONS bits n (of_bool b) s) = (if m = n then of_bool b else GET_NV_OPTIONS m s)"
  by (simp add: get_set_nv take_bit_flag)

end
