(* ===== verification/Btydev.thy ===== *)
theory Btydev
  imports Nvfields
begin

text \<open>
  The smart battery driver \<open>src/drivers/dev_smtbty.c\<close>: a table of battery registers with a cached
  value each, refreshed over the I2C bus, and counters of bus errors per slave address. All boards
  have one battery, so a table belongs to battery 0; the end mark of a table is the end of the list.

  The bus is a parameter of type \<open>bus\<close>: the answer to the \<open>n\<close>-th access, \<open>None\<close> for an error,
  otherwise the bytes read. A failed read leaves the buffer as it was. The mutexes of the registers
  and the debug statistics are left out.
\<close>

section \<open>State\<close>

type_synonym bus = "nat \<Rightarrow> u8 list option"

record reg_item =
  reg :: u8
  width :: nat
  val32 :: u32 \<comment> \<open>\<open>data.value.u32\<close>, of a register of at most 4 bytes\<close>
  pBuf :: "u8 list option" \<comment> \<open>\<open>data.value.pBuf\<close>, of a longer register\<close>
  lastSuccessValue :: u32
  u32refreshReload :: u32
  u32refreshCounter :: u32
  autoRefersh :: bool
  dataAvailable :: bool
  ratio :: nat
  accessType :: nat

record err_count =
  slaveAddr :: u8
  continuousErrCount :: u32
  maxContinuousErrCount :: u32

record btydev = opts +
  bus_pos :: nat
  s_batBuf :: "reg_item list"
  s_platform_btyBufTable :: "reg_item list"
  s_smtbty_i2c_bus_errCount :: "err_count list"
  s_u16ReservedBtyCapacity :: u16

definition MAX_BATTERY_SUPPORTED :: u8 where "MAX_BATTERY_SUPPORTED = 1"
definition DEV_SMTBTY_REG_INVALID :: u8 where "DEV_SMTBTY_REG_INVALID = 0x9A"
definition BATTERY_I2C_ADDRESS :: u8 where "BATTERY_I2C_ADDRESS = 0x0B"

definition REG_Temperature :: u8 where "REG_Temperature = 0x08"
definition REG_Voltage :: u8 where "REG_Voltage = 0x09"
definition REG_Current :: u8 where "REG_Current = 0x0A"
definition REG_MaxError :: u8 where "REG_MaxError = 0x0C"
definition REG_RelativeStateOfCharge :: u8 where "REG_RelativeStateOfCharge = 0x0D"
definition REG_RemainingCapacity :: u8 where "REG_RemainingCapacity = 0x0F"
definition REG_FullChargeCapacity :: u8 where "REG_FullChargeCapacity = 0x10"
definition REG_ChargingCurrent :: u8 where "REG_ChargingCurrent = 0x14"
definition REG_ChargingVoltage :: u8 where "REG_ChargingVoltage = 0x15"
definition REG_BatteryStatus :: u8 where "REG_BatteryStatus = 0x16"
definition REG_CycleCount :: u8 where "REG_CycleCount = 0x17"
definition REG_DesignCapacity :: u8 where "REG_DesignCapacity = 0x18"
definition REG_DesignVoltage :: u8 where "REG_DesignVoltage = 0x19"

text \<open>The table of the common registers. \<open>mwh\<close>: capacities in 10 mWh, where the mode register is writable.\<close>

definition item :: "u8 \<Rightarrow> nat \<Rightarrow> u32 \<Rightarrow> bool \<Rightarrow> nat \<Rightarrow> reg_item" where
  "item r w reload auto acc = \<lparr>reg = r, width = w, val32 = 0, pBuf = None, lastSuccessValue = 0, u32refreshReload = reload,
     u32refreshCounter = 0, autoRefersh = auto, dataAvailable = False, ratio = 0, accessType = acc\<rparr>"

definition s_battery0 :: "bool \<Rightarrow> reg_item list" where
  "s_battery0 mwh =
    [item 0x00 2 8000 True 1, item 0x01 2 3000 True 1, item 0x02 2 3000 True 1,
     item 0x03 2 3000 True (if mwh then 3 else 1), item 0x04 2 3000 True 1, item 0x05 2 3000 True 1,
     item 0x06 2 3000 True 1, item 0x07 2 3000 True 1, item 0x08 2 500 True 1, item 0x09 2 500 True 1,
     item 0x0A 2 500 True 1, item 0x0B 2 500 True 1, item 0x0C 2 500 True 1, item 0x0D 2 1000 True 1,
     item 0x0E 2 1000 True 1, item 0x0F 2 800 True 1, item 0x10 2 8000 True 1, item 0x11 2 1000 True 1,
     item 0x12 2 1000 True 1, item 0x13 2 1000 True 1, item 0x14 2 100 True 1, item 0x15 2 100 True 1,
     item 0x16 2 100 True 1, item 0x17 2 20000 True 1, item 0x18 2 20000 True 1, item 0x19 2 20000 True 1,
     item 0x1A 2 1000 True 1, item 0x1B 2 60000 False 1, item 0x1C 2 60000 False 1, item 0x20 32 3600000 False 1,
     item 0x21 10 3600000 False 1, item 0x22 16 3600000 False 1, item 0x23 32 3600000 False 1,
     item 0x2F 2 0 False 1, item 0x3C 2 0 False 1, item 0x3D 2 0 False 1, item 0x3E 2 0 False 1, item 0x3F 2 0 False 1]"

section \<open>Bus errors\<close>

text \<open>The first entry that is free or belongs to the address is changed.\<close>

fun count_access :: "u8 \<Rightarrow> bool \<Rightarrow> err_count list \<Rightarrow> err_count list" where
  "count_access addr ok [] = []"
| "count_access addr ok (e # es) =
     (if slaveAddr e = 0 \<or> slaveAddr e = addr then
        (let e1 = e\<lparr>slaveAddr := addr\<rparr> in
         if ok then e1\<lparr>continuousErrCount := 0\<rparr>
         else
           (let e2 = (if continuousErrCount e1 < 0xFFFFFF00 then e1\<lparr>continuousErrCount := continuousErrCount e1 + 1\<rparr> else e1)
            in if maxContinuousErrCount e2 < continuousErrCount e2
               then e2\<lparr>maxContinuousErrCount := continuousErrCount e2\<rparr> else e2)) # es
      else e # count_access addr ok es)"

definition dev_smtbty_updateBusErrorCounter :: "u8 \<Rightarrow> bool \<Rightarrow> 'x btydev_scheme \<Rightarrow> 'x btydev_scheme" where
  "dev_smtbty_updateBusErrorCounter addr ok s =
     (if addr \<noteq> 0 then s\<lparr>s_smtbty_i2c_bus_errCount := count_access addr ok (s_smtbty_i2c_bus_errCount s)\<rparr> else s)"

fun reset_count :: "u8 \<Rightarrow> err_count list \<Rightarrow> err_count list" where
  "reset_count addr [] = []"
| "reset_count addr (e # es) = (if slaveAddr e = addr then e\<lparr>continuousErrCount := 0\<rparr> # es else e # reset_count addr es)"

definition dev_smtbty_resetBusErrorCounter :: "u8 \<Rightarrow> 'x btydev_scheme \<Rightarrow> 'x btydev_scheme" where
  "dev_smtbty_resetBusErrorCounter addr s =
     (if addr \<noteq> 0 then s\<lparr>s_smtbty_i2c_bus_errCount := reset_count addr (s_smtbty_i2c_bus_errCount s)\<rparr> else s)"

definition dev_smtbty_getContinuousErrorNum :: "u8 \<Rightarrow> 'x btydev_scheme \<Rightarrow> u32" where
  "dev_smtbty_getContinuousErrorNum addr s =
     (case (if addr \<noteq> 0 then find (\<lambda>e. slaveAddr e = addr) (s_smtbty_i2c_bus_errCount s) else None) of
        Some e \<Rightarrow> continuousErrCount e | None \<Rightarrow> 0xFFFFFFFF)"

section \<open>Access to the bus\<close>

text \<open>The bytes of a little-endian number.\<close>

fun le :: "u8 list \<Rightarrow> u32" where
  "le [] = 0"
| "le (b # bs) = ucast b OR push_bit 8 (le bs)"

definition regAccess_read :: "bus \<Rightarrow> u8 \<Rightarrow> u8 \<Rightarrow> nat \<Rightarrow> 'x btydev_scheme \<Rightarrow> u8 list option \<times> 'x btydev_scheme" where
  "regAccess_read B addr r len s =
     (let answer = B (bus_pos s); s1 = hemit (I2c_read addr r len) (s\<lparr>bus_pos := bus_pos s + 1\<rparr>)
      in (answer, dev_smtbty_updateBusErrorCounter addr (answer \<noteq> None) s1))"

definition regAccess_write :: "bus \<Rightarrow> u8 \<Rightarrow> u8 \<Rightarrow> u32 \<Rightarrow> nat \<Rightarrow> 'x btydev_scheme \<Rightarrow> bool \<times> 'x btydev_scheme" where
  "regAccess_write B addr r v len s =
     (let ok = (B (bus_pos s) \<noteq> None); s1 = hemit (I2c_write addr r v len) (s\<lparr>bus_pos := bus_pos s + 1\<rparr>)
      in (ok, dev_smtbty_updateBusErrorCounter addr ok s1))"

section \<open>Registers\<close>

text \<open>Where an item is: in the platform's table or in the common one.\<close>

datatype place = Platform nat | Common nat

fun find_item :: "u8 \<Rightarrow> nat \<Rightarrow> reg_item list \<Rightarrow> nat option" where
  "find_item r i [] = None"
| "find_item r i (x # xs) = (if reg x = r \<and> accessType x \<noteq> 0 then Some i else find_item r (Suc i) xs)"

definition dev_smtbty_findRegItem :: "u8 \<Rightarrow> u8 \<Rightarrow> 'x btydev_scheme \<Rightarrow> place option" where
  "dev_smtbty_findRegItem btyId r s =
     (if btyId \<ge> MAX_BATTERY_SUPPORTED \<or> r = DEV_SMTBTY_REG_INVALID then None
      else (case find_item r 0 (s_platform_btyBufTable s) of
              Some i \<Rightarrow> Some (Platform i)
            | None \<Rightarrow> map_option Common (find_item r 0 (s_batBuf s))))"

fun get_item :: "place \<Rightarrow> 'x btydev_scheme \<Rightarrow> reg_item" where
  "get_item (Platform i) s = s_platform_btyBufTable s ! i"
| "get_item (Common i) s = s_batBuf s ! i"

fun put_item :: "place \<Rightarrow> reg_item \<Rightarrow> 'x btydev_scheme \<Rightarrow> 'x btydev_scheme" where
  "put_item (Platform i) x s = s\<lparr>s_platform_btyBufTable := (s_platform_btyBufTable s)[i := x]\<rparr>"
| "put_item (Common i) x s = s\<lparr>s_batBuf := (s_batBuf s)[i := x]\<rparr>"

definition dev_smtbty_setRsvdBtyCapacity :: "u16 \<Rightarrow> 'x btydev_scheme \<Rightarrow> 'x btydev_scheme" where
  "dev_smtbty_setRsvdBtyCapacity v s = s\<lparr>s_u16ReservedBtyCapacity := v\<rparr>"

definition dev_smtbty_getRsvdBtyCapacity :: "'x btydev_scheme \<Rightarrow> u16" where
  "dev_smtbty_getRsvdBtyCapacity s = s_u16ReservedBtyCapacity s"

text \<open>Capacities are reported less the reserved capacity.\<close>

definition dev_smtbty_cacheDataOverride :: "u8 \<Rightarrow> u32 \<Rightarrow> 'x btydev_scheme \<Rightarrow> u32" where
  "dev_smtbty_cacheDataOverride r v s =
     (if r \<in> {REG_RemainingCapacity, REG_FullChargeCapacity, REG_DesignCapacity} then
        (let d = (ucast v :: u16); rsv = dev_smtbty_getRsvdBtyCapacity s;
             d' = (if d > rsv then d - rsv else 0)
         in (v AND 0xFFFF0000) OR ucast d')
      else v)"

text \<open>The value of a register of at most 4 bytes, cut to the width the caller reads.\<close>

definition dev_smtbty_i32CacheGet :: "u8 \<Rightarrow> u8 \<Rightarrow> 'x btydev_scheme \<Rightarrow> u32 option" where
  "dev_smtbty_i32CacheGet btyId r s =
     (case dev_smtbty_findRegItem btyId r s of
        None \<Rightarrow> None
      | Some p \<Rightarrow>
          (let x = get_item p s; w = width x;
               raw = (if dataAvailable x then Some (if w \<in> {1, 2, 4} then take_bit (8 * w) (val32 x) else 0)
                      else if w \<le> 4 \<and> lastSuccessValue x \<noteq> 0xFFFFFFFF then Some (lastSuccessValue x) else None)
           in case raw of
                None \<Rightarrow> None
              | Some v \<Rightarrow> if w \<in> {1, 2, 4} then Some (dev_smtbty_cacheDataOverride r (take_bit (8 * w) v) s) else None))"

definition dev_smtbty_blockCacheGet :: "u8 \<Rightarrow> u8 \<Rightarrow> nat \<Rightarrow> 'x btydev_scheme \<Rightarrow> u8 list option" where
  "dev_smtbty_blockCacheGet btyId r n s =
     (case dev_smtbty_findRegItem btyId r s of
        None \<Rightarrow> None
      | Some p \<Rightarrow>
          (let x = get_item p s; k = min n (width x) in
           if dataAvailable x \<and> k \<noteq> 0 then map_option (take k) (pBuf x) else None))"

text \<open>The shift between a register and the value the application sees.\<close>

definition app_value :: "nat \<Rightarrow> u32 \<Rightarrow> u32" where
  "app_value rt v = (if rt = 1 then push_bit 1 v else if rt = 2 then drop_bit 1 v else if rt = 3 then push_bit 2 v else v)"

definition dev_smtbty_autoRead :: "bus \<Rightarrow> place \<Rightarrow> 'x btydev_scheme \<Rightarrow> bool \<times> 'x btydev_scheme" where
  "dev_smtbty_autoRead B p s =
     (let x = get_item p s in
      if accessType x = 2 \<or> accessType x = 0 then (False, s)
      else if width x > 4 \<and> pBuf x = None then (dataAvailable x, s)
      else
        (let (answer, s1) = regAccess_read B BATTERY_I2C_ADDRESS (reg x) (width x) s;
             x1 = (case answer of
                     None \<Rightarrow> x\<lparr>dataAvailable := False\<rparr>
                   | Some bs \<Rightarrow>
                       if width x \<le> 4 then
                         (let v = app_value (ratio x) ((val32 x AND NOT (mask (8 * width x))) OR take_bit (8 * width x) (le bs))
                          in x\<lparr>val32 := v, lastSuccessValue := v, dataAvailable := True\<rparr>)
                       else x\<lparr>pBuf := Some (take (width x) bs), dataAvailable := True\<rparr>);
             x2 = x1\<lparr>u32refreshCounter := u32refreshReload x1\<rparr>
         in (dataAvailable x2, put_item p x2 s1)))"

text \<open>Reading a register the tables do not hold follows a null pointer.\<close>

definition dev_smtbty_i32Read :: "bus \<Rightarrow> u8 \<Rightarrow> u8 \<Rightarrow> 'x btydev_scheme \<Rightarrow> (u32 option \<times> 'x btydev_scheme) res" where
  "dev_smtbty_i32Read B btyId r s =
     (if \<not> btyId < MAX_BATTERY_SUPPORTED then Inl Assert_failed
      else (case dev_smtbty_findRegItem btyId r s of
              None \<Rightarrow> Inl Out_of_bounds
            | Some p \<Rightarrow>
                if width (get_item p s) \<le> 4 then
                  (let (ok, s1) = dev_smtbty_autoRead B p s
                   in Inr (if ok then dev_smtbty_i32CacheGet btyId r s1 else None, s1))
                else Inr (None, s)))"

definition dev_smtbty_i32Write :: "bus \<Rightarrow> u8 \<Rightarrow> u8 \<Rightarrow> u32 \<Rightarrow> 'x btydev_scheme \<Rightarrow> (bool \<times> 'x btydev_scheme) res" where
  "dev_smtbty_i32Write B btyId r v s =
     (if \<not> btyId < MAX_BATTERY_SUPPORTED then Inl Assert_failed
      else (case dev_smtbty_findRegItem btyId r s of
              None \<Rightarrow> Inr (False, s)
            | Some p \<Rightarrow>
                (let x = get_item p s in
                 if accessType x \<in> {1, 0} \<or> width x > 4 then Inr (False, s)
                 else
                   (let v' = (if ratio x = 1 then signed_drop_bit 1 v else if ratio x = 2 then push_bit 1 v
                              else if ratio x = 3 then signed_drop_bit 2 v else v);
                        (ok, s1) = regAccess_write B BATTERY_I2C_ADDRESS r v' (width x) s
                    in Inr (ok, put_item p (x\<lparr>dataAvailable := False, u32refreshCounter := 0\<rparr>) s1)))))"

definition dev_smtbty_blockRead :: "bus \<Rightarrow> u8 \<Rightarrow> u8 \<Rightarrow> nat \<Rightarrow> 'x btydev_scheme \<Rightarrow> (u8 list option \<times> 'x btydev_scheme) res" where
  "dev_smtbty_blockRead B btyId r n s =
     (if \<not> btyId < MAX_BATTERY_SUPPORTED then Inl Assert_failed
      else (case dev_smtbty_findRegItem btyId r s of
              None \<Rightarrow> Inr (None, s)
            | Some p \<Rightarrow>
                (let (ok, s1) = dev_smtbty_autoRead B p s
                 in Inr (if \<not> ok then None else if n = 0 then Some [] else dev_smtbty_blockCacheGet btyId r n s1, s1))))"

end
