(* ===== verification/Smtbty.thy ===== *)
theory Smtbty
  imports Btydev
begin

text \<open>
  Battery management: \<open>src/app/battery_management/app_smtbty.c\<close>. The task refreshes the registers of
  the battery, decides whether and how to charge, and derives flags for the operating system from
  the readings. The callbacks a board registers are a value of type \<open>client\<close>; the charger chip is
  written through the bus. \<open>recent\<close>: the battery was seen within the last 5 ms (a kernel timer).
\<close>

section \<open>State\<close>

datatype chg_status = APP_CHG_DISABLE | APP_CHG_REACTIVATING | APP_CHG_PRE_CHARGE | APP_CHG_ENABLED_NORMAL | APP_CHG_BATTERY_IS_DEAD

record bat_ins =
  btyFlag :: u32
  u16ThresholdBtyWarning :: u16
  u16ThresholdBtyLow :: u16
  u16ThresholdBtyCritical :: u16
  u16ThresholdBtyTripPoint :: u16
  u8ChargeThrottle :: u8
  u16LastRemainingCapicity :: u16
  btyLastFlag :: u32
  u32ErrCnt :: u32

record bty = btydev +
  s_u32BtyTrippedBitMap :: u32
  s_u8SmtBtyInitFlag :: bool
  s_u8SelectedBattery :: u8
  s_batIns :: bat_ins
  s_cachedBtyFlag :: u32
  g_batPresentFlag :: bool
  s_preBtyPresent :: bool
  btyDetachDebounce :: u8
  g_batteryIsReadyToGo :: bool
  s_smtbty_chgSt :: chg_status
  oldChgSt :: chg_status
  s_smtbty_reactivingCounter :: u32
  s_smtbty_batteryResponseCounter :: u32
  s_oldVoltage :: u16
  s_oldCurrent :: u16
  s_skippedLoops :: u8
  s_skippedChgDisLoops :: u8
  u8skippedLoops :: u8
  proc_inited :: bool
  mmio_charger_status :: u8
  smtbty_dbg_flag :: u8
  smtbty_dbg_vector :: "u8 list"

text \<open>Constants of the board.\<close>

record smtbty_cfg =
  REACTIVING_VOLTAGE :: u16
  REACTIVING_CURRENT :: u16
  PRECHARGE_THRESHOLD :: u16
  PRECHARGE_VOLTAGE :: u16
  PRECHARGE_CURRENT :: u16
  FULL_CHARGE_VOLTAGE :: "u16 option"
  MAX_CHARGE_CURRENT :: u16
  isl9241 :: bool
  dbg_enable :: bool

record 's client =
  pfnNotify :: "(u8 \<Rightarrow> u32 \<Rightarrow> 's \<Rightarrow> 's) option"
  pfnPresent :: "(u8 \<Rightarrow> 's \<Rightarrow> bool \<times> 's) option"
  pfnIsAcPresent :: "('s \<Rightarrow> bool) option"
  pfnRefresh :: "(u8 \<Rightarrow> 's \<Rightarrow> 's) option"
  pfnPreProcessing :: "(u8 \<Rightarrow> 's \<Rightarrow> 's) option"
  pfnPostProcessing :: "(u8 \<Rightarrow> 's \<Rightarrow> 's) option"
  pfnChgEnble :: "('s \<Rightarrow> 's) option"
  pfnChgDisable :: "('s \<Rightarrow> 's) option"
  pfnCharger :: "(u8 \<Rightarrow> 's \<Rightarrow> (bool \<times> 's) res) option"
  pfnGetChargeCurrentLimit :: "(u8 \<Rightarrow> 's \<Rightarrow> u16) option"
  pfnStatus :: "(u8 \<Rightarrow> 's \<Rightarrow> bool \<times> 's) option"
  pfnBatteryLed :: "(nat \<Rightarrow> 's \<Rightarrow> 's) option"
  pfnOnBatteryAttach :: "(u8 \<Rightarrow> 's \<Rightarrow> 's) option"
  pfnOnBatteryDetach :: "(u8 \<Rightarrow> 's \<Rightarrow> 's) option"

definition call1 :: "('s \<Rightarrow> 's) option \<Rightarrow> 's \<Rightarrow> 's" where
  "call1 f s = (case f of None \<Rightarrow> s | Some g \<Rightarrow> g s)"

definition call2 :: "('a \<Rightarrow> 's \<Rightarrow> 's) option \<Rightarrow> 'a \<Rightarrow> 's \<Rightarrow> 's" where
  "call2 f a s = (case f of None \<Rightarrow> s | Some g \<Rightarrow> g a s)"

definition APP_SMTBTY_TICK_INTERVAL :: u32 where "APP_SMTBTY_TICK_INTERVAL = 500"
definition APP_SMTBTY_CHG_THROTTLE_DISABLED :: u8 where "APP_SMTBTY_CHG_THROTTLE_DISABLED = 0xFF"
definition F_SMTBTY_MAX_STRING_BUFFER :: nat where "F_SMTBTY_MAX_STRING_BUFFER = 100"
definition ACPI_SCI_BATTERY :: u8 where "ACPI_SCI_BATTERY = 0x39"

definition APP_SMTBTY_CONNECTED :: nat where "APP_SMTBTY_CONNECTED = 0"
definition APP_SMTBTY_WARNING :: nat where "APP_SMTBTY_WARNING = 1"
definition APP_SMTBTY_LOW :: nat where "APP_SMTBTY_LOW = 2"
definition APP_SMTBTY_CRITICAL :: nat where "APP_SMTBTY_CRITICAL = 3"
definition APP_SMTBTY_IDLE :: nat where "APP_SMTBTY_IDLE = 4"
definition APP_SMTBTY_CHARGING :: nat where "APP_SMTBTY_CHARGING = 5"
definition APP_SMTBTY_DISCHARGING :: nat where "APP_SMTBTY_DISCHARGING = 6"
definition APP_SMTBTY_TRIPPED :: nat where "APP_SMTBTY_TRIPPED = 7"
definition APP_SMTBTY_DEAD :: nat where "APP_SMTBTY_DEAD = 8"

section \<open>Setters and getters\<close>

definition on_ins :: "(bat_ins \<Rightarrow> bat_ins) \<Rightarrow> 'x bty_scheme \<Rightarrow> 'x bty_scheme" where
  "on_ins f s = s\<lparr>s_batIns := f (s_batIns s)\<rparr>"

text \<open>The assertion on the battery's number.\<close>

definition bty_get :: "(bat_ins \<Rightarrow> 'a) \<Rightarrow> u8 \<Rightarrow> 'x bty_scheme \<Rightarrow> 'a res" where
  "bty_get f btyId s = (if btyId < MAX_BATTERY_SUPPORTED then Inr (f (s_batIns s)) else Inl Assert_failed)"

definition bty_set :: "(bat_ins \<Rightarrow> bat_ins) \<Rightarrow> u8 \<Rightarrow> 'x bty_scheme \<Rightarrow> 'x bty_scheme res" where
  "bty_set f btyId s = (if btyId < MAX_BATTERY_SUPPORTED then Inr (on_ins f s) else Inl Assert_failed)"

definition app_battery_countGet :: u8 where "app_battery_countGet = MAX_BATTERY_SUPPORTED"

definition app_battery_selectedGet :: "'x bty_scheme \<Rightarrow> u8" where
  "app_battery_selectedGet s = s_u8SelectedBattery s"

definition app_battery_selectedSet :: "u8 \<Rightarrow> 'x bty_scheme \<Rightarrow> 'x bty_scheme" where
  "app_battery_selectedSet btyId s = (if btyId < MAX_BATTERY_SUPPORTED then s\<lparr>s_u8SelectedBattery := btyId\<rparr> else s)"

definition app_battery_warningThresholdGet :: "u8 \<Rightarrow> 'x bty_scheme \<Rightarrow> u16 res" where
  "app_battery_warningThresholdGet = bty_get u16ThresholdBtyWarning"

definition app_battery_warningThresholdSet :: "u8 \<Rightarrow> u16 \<Rightarrow> 'x bty_scheme \<Rightarrow> 'x bty_scheme res" where
  "app_battery_warningThresholdSet btyId v = bty_set (\<lambda>b. b\<lparr>u16ThresholdBtyWarning := v\<rparr>) btyId"

definition app_battery_lowThresholdGet :: "u8 \<Rightarrow> 'x bty_scheme \<Rightarrow> u16 res" where
  "app_battery_lowThresholdGet = bty_get u16ThresholdBtyLow"

definition app_battery_lowThresholdSet :: "u8 \<Rightarrow> u16 \<Rightarrow> 'x bty_scheme \<Rightarrow> 'x bty_scheme res" where
  "app_battery_lowThresholdSet btyId v = bty_set (\<lambda>b. b\<lparr>u16ThresholdBtyLow := v\<rparr>) btyId"

definition app_battery_criticalThresholdGet :: "u8 \<Rightarrow> 'x bty_scheme \<Rightarrow> u16 res" where
  "app_battery_criticalThresholdGet = bty_get u16ThresholdBtyCritical"

definition app_battery_criticalThresholdSet :: "u8 \<Rightarrow> u16 \<Rightarrow> 'x bty_scheme \<Rightarrow> 'x bty_scheme res" where
  "app_battery_criticalThresholdSet btyId v = bty_set (\<lambda>b. b\<lparr>u16ThresholdBtyCritical := v\<rparr>) btyId"

definition app_battery_tripPointGet :: "u8 \<Rightarrow> 'x bty_scheme \<Rightarrow> u16 res" where
  "app_battery_tripPointGet = bty_get u16ThresholdBtyTripPoint"

definition app_battery_tripPointSet :: "u8 \<Rightarrow> u16 \<Rightarrow> 'x bty_scheme \<Rightarrow> 'x bty_scheme res" where
  "app_battery_tripPointSet btyId v = bty_set (\<lambda>b. b\<lparr>u16ThresholdBtyTripPoint := v, u16LastRemainingCapicity := 0\<rparr>) btyId"

definition app_battery_ChargeThrottleGet :: "u8 \<Rightarrow> 'x bty_scheme \<Rightarrow> u8 res" where
  "app_battery_ChargeThrottleGet = bty_get u8ChargeThrottle"

definition app_battery_ChargeThrottleSet :: "u8 \<Rightarrow> u8 \<Rightarrow> 'x bty_scheme \<Rightarrow> 'x bty_scheme res" where
  "app_battery_ChargeThrottleSet btyId v = bty_set (\<lambda>b. b\<lparr>u8ChargeThrottle := v\<rparr>) btyId"

definition app_battery_flagsCacheGet :: "u8 \<Rightarrow> 'x bty_scheme \<Rightarrow> u32" where
  "app_battery_flagsCacheGet btyId s = (if btyId \<ge> MAX_BATTERY_SUPPORTED then 0 else s_cachedBtyFlag s)"

definition app_battery_clearTrippedFlag :: "u8 \<Rightarrow> 'x bty_scheme \<Rightarrow> 'x bty_scheme" where
  "app_battery_clearTrippedFlag btyId s =
     (if btyId \<ge> MAX_BATTERY_SUPPORTED then s else s\<lparr>s_u32BtyTrippedBitMap := unset_bit (unat btyId) (s_u32BtyTrippedBitMap s)\<rparr>)"

section \<open>Initialisation\<close>

definition app_smtbty_frozen :: "'x bty_scheme \<Rightarrow> 'x bty_scheme" where
  "app_smtbty_frozen s = (hemit (Delay_timer True) s)\<lparr>g_batteryIsReadyToGo := False\<rparr>"

definition app_smtbty_unfrozen :: "'x bty_scheme \<Rightarrow> 'x bty_scheme" where
  "app_smtbty_unfrozen s = (hemit (Delay_timer False) s)\<lparr>g_batteryIsReadyToGo := True\<rparr>"

definition app_smtbty_init :: "'x bty_scheme \<Rightarrow> 'x bty_scheme" where
  "app_smtbty_init s = s\<lparr>s_smtbty_i2c_bus_errCount := replicate 5 \<lparr>slaveAddr = 0, continuousErrCount = 0, maxContinuousErrCount = 0\<rparr>,
     s_batIns := \<lparr>btyFlag = 0, u16ThresholdBtyWarning = 0, u16ThresholdBtyLow = 0, u16ThresholdBtyCritical = 0,
       u16ThresholdBtyTripPoint = 0, u8ChargeThrottle = APP_SMTBTY_CHG_THROTTLE_DISABLED, u16LastRemainingCapicity = 0,
       btyLastFlag = 0, u32ErrCnt = 0\<rparr>,
     s_platform_btyBufTable := []\<rparr>"

text \<open>Slices of the string buffer for the long registers of a table; the number counts the bytes given out.\<close>

definition long_item :: "reg_item \<Rightarrow> bool" where
  "long_item x \<longleftrightarrow> width x > 4 \<and> accessType x \<noteq> 0"

fun assign_table :: "reg_item list \<Rightarrow> nat \<times> reg_item list" where
  "assign_table [] = (0, [])"
| "assign_table (x # xs) =
     (let (n, ys) = assign_table xs in
      if long_item x then (n + width x, x\<lparr>pBuf := Some (replicate (width x) 0)\<rparr> # ys) else (n, x # ys))"

text \<open>\<open>chg_bytes\<close>: what the tables of the charger take from the same buffer.\<close>

definition smtbty_assignStringBuffer :: "nat \<Rightarrow> 'x bty_scheme \<Rightarrow> 'x bty_scheme res" where
  "smtbty_assignStringBuffer chg_bytes s =
     (let (n1, plat) = assign_table (s_platform_btyBufTable s); (n2, comm) = assign_table (s_batBuf s) in
      if n1 + n2 + chg_bytes \<le> F_SMTBTY_MAX_STRING_BUFFER
      then Inr (s\<lparr>s_platform_btyBufTable := plat, s_batBuf := comm\<rparr>) else Inl Assert_failed)"

definition reset_item :: "reg_item \<Rightarrow> reg_item" where
  "reset_item x = x\<lparr>u32refreshCounter := 0, dataAvailable := False, lastSuccessValue := 0xFFFFFFFF\<rparr>"

definition battery_resetData :: "'x bty_scheme \<Rightarrow> 'x bty_scheme" where
  "battery_resetData s = s\<lparr>s_batBuf := map reset_item (s_batBuf s),
     s_platform_btyBufTable := map reset_item (s_platform_btyBufTable s)\<rparr>"

section \<open>Presence\<close>

definition set_present :: "bool \<Rightarrow> 'x bty_scheme \<Rightarrow> 'x bty_scheme" where
  "set_present p s =
     (let s1 = s\<lparr>s_preBtyPresent := g_batPresentFlag s, g_batPresentFlag := p\<rparr> in
      if s_preBtyPresent s1 \<noteq> g_batPresentFlag s1 then hemit Pwr_src_event s1 else s1)"

definition try_read :: "bus \<Rightarrow> place option \<Rightarrow> 'x bty_scheme \<Rightarrow> bool \<times> 'x bty_scheme" where
  "try_read B p s = (case p of None \<Rightarrow> (False, s) | Some q \<Rightarrow> dev_smtbty_autoRead B q s)"

text \<open>The register of the last attempt is read once more after 2 ms.\<close>

definition battery_isPresent :: "bus \<Rightarrow> bool \<Rightarrow> u8 \<Rightarrow> 'x bty_scheme \<Rightarrow> bool \<times> 'x bty_scheme" where
  "battery_isPresent B recent btyId s =
     (if recent then (True, set_present True s)
      else
        (let pc = dev_smtbty_findRegItem btyId REG_ChargingCurrent s;
             (ok1, s1) = try_read B pc s;
             pv = dev_smtbty_findRegItem btyId REG_ChargingVoltage s1;
             (ok2, s2) = (if ok1 then try_read B pv s1 else (False, s1))
         in if ok2 then (True, set_present True (s2\<lparr>btyDetachDebounce := 0\<rparr>))
            else
              (let (ok3, s3) = try_read B (if ok1 then pv else pc) (hemit (Sleep_ms 2) s2) in
               if ok3 then (True, set_present True (s3\<lparr>btyDetachDebounce := 0\<rparr>))
               else if btyDetachDebounce s3 \<noteq> 0 then (True, s3\<lparr>btyDetachDebounce := btyDetachDebounce s3 - 1\<rparr>)
               else (False, set_present False s3))))"

end
