(* ===== verification/Charge.thy ===== *)
theory Charge
  imports Smtbty
begin

text \<open>
  The charging decision, the battery flags and the task of
  \<open>src/app/battery_management/app_smtbty.c\<close>.
\<close>

section \<open>Debug vector\<close>

text \<open>A structure of 32 bytes; numbers of two bytes are read and written at their offset.\<close>

definition dbg_set :: "smtbty_cfg \<Rightarrow> nat \<Rightarrow> u16 \<Rightarrow> 'x bty_scheme \<Rightarrow> 'x bty_scheme" where
  "dbg_set c i x s = (if dbg_enable c then s\<lparr>smtbty_dbg_vector := wr16 i x (smtbty_dbg_vector s)\<rparr> else s)"

definition app_smtbty_dbgInit :: "smtbty_cfg \<Rightarrow> 'x bty_scheme \<Rightarrow> 'x bty_scheme" where
  "app_smtbty_dbgInit c s =
     (let v = replicate 32 0xFF;
          hi = (case FULL_CHARGE_VOLTAGE c of Some x \<Rightarrow> x | None \<Rightarrow> 0);
          v1 = wr16 12 0 (wr16 14 0xFCCC (wr16 4 0 (wr16 6 hi v)));
          v2 = wr16 30 (MAX_CHARGE_CURRENT c) (wr16 16 0 (wr16 18 0xFCCC v1))
      in s\<lparr>smtbty_dbg_flag := 1, smtbty_dbg_vector := v2\<rparr>)"

definition dbg_clamp :: "u16 \<Rightarrow> u16 \<Rightarrow> u16 \<Rightarrow> u16" where
  "dbg_clamp lo hi x = (let y = (if x < lo then lo else x) in if y > hi then hi else y)"

text \<open>The timer of the debug counter, every second.\<close>

definition dbg_cache :: "u8 \<Rightarrow> nat \<Rightarrow> 'x bty_scheme \<Rightarrow> 'x bty_scheme" where
  "dbg_cache r i s =
     (case dev_smtbty_i32CacheGet (app_battery_selectedGet s) r s of
        None \<Rightarrow> s | Some v \<Rightarrow> s\<lparr>smtbty_dbg_vector := wr16 i (ucast v) (smtbty_dbg_vector s)\<rparr>)"

definition app_smtbty_dbgCallback :: "'x bty_scheme \<Rightarrow> 'x bty_scheme" where
  "app_smtbty_dbgCallback s =
     (if bit (smtbty_dbg_flag s) 0 then
        (let v = smtbty_dbg_vector s;
             t = (ucast (rd16 v 16) OR push_bit 16 (ucast (rd16 v 18)) :: u32);
             t1 = (if t \<noteq> 0 then t - 1 else t);
             s1 = s\<lparr>smtbty_dbg_vector := wr16 16 (ucast t1) (wr16 18 (ucast (drop_bit 16 t1)) v)\<rparr>
         in dbg_cache REG_BatteryStatus 24 (dbg_cache REG_RelativeStateOfCharge 26 (dbg_cache 0x0E 28 s1)))
      else s)"

text \<open>The fields a debugger may write, while the function is off.\<close>

definition dbg_writable :: "u8 \<Rightarrow> bool" where
  "dbg_writable i \<longleftrightarrow> i \<in> {4, 5, 6, 7, 12, 13, 14, 15, 16, 17, 18, 19}"

definition app_smtbty_dbgHandler :: "bool \<Rightarrow> u8 \<Rightarrow> u8 \<Rightarrow> 'x bty_scheme \<Rightarrow> u8 \<times> u8 \<times> 'x bty_scheme" where
  "app_smtbty_dbgHandler isRead idx data s =
     (if idx = 0x30 then
        (if isRead then (1, smtbty_dbg_flag s, s)
         else
           (let on = bit data 0; v = smtbty_dbg_vector s;
                s1 = (if \<not> on then hemit (Delay_timer False) s
                      else if \<not> bit (smtbty_dbg_flag s) 0 then
                        (let v1 = (if rd16 v 12 > rd16 v 14 then wr16 12 (rd16 v 14) v else v);
                             v2 = (if rd16 v1 4 > rd16 v1 6 then wr16 4 (rd16 v1 6) v1 else v1)
                         in hemit (Delay_timer True) (s\<lparr>smtbty_dbg_vector := v2\<rparr>))
                      else s)
            in (1, data, s1\<lparr>smtbty_dbg_flag := data\<rparr>)))
      else if \<not> idx < 32 then (0, data, s)
      else if isRead then (1, smtbty_dbg_vector s ! unat idx, s)
      else if \<not> bit (smtbty_dbg_flag s) 0 \<and> dbg_writable idx
        then (1, data, s\<lparr>smtbty_dbg_vector := (smtbty_dbg_vector s)[unat idx := data]\<rparr>)
      else (1, data, s))"

section \<open>Charging\<close>

text \<open>The charger chip, on the same bus.\<close>

definition isl9241_i32Write :: "bus \<Rightarrow> u16 \<Rightarrow> u16 \<Rightarrow> 'x bty_scheme \<Rightarrow> bool \<times> 'x bty_scheme" where
  "isl9241_i32Write B r v s = (B (bus_pos s) \<noteq> None, hemit (Chg_write r v) (s\<lparr>bus_pos := bus_pos s + 1\<rparr>))"

definition CHG_CURRENT :: u16 where "CHG_CURRENT = 0x14"
definition CHG_VOLTAGE :: u16 where "CHG_VOLTAGE = 0x15"

text \<open>Current and voltage, in the other order when that fails.\<close>

definition both_writes :: "bus \<Rightarrow> u16 \<Rightarrow> u16 \<Rightarrow> u16 \<Rightarrow> u16 \<Rightarrow> 'x bty_scheme \<Rightarrow> bool \<times> 'x bty_scheme" where
  "both_writes B r1 v1 r2 v2 s =
     (let (ok, s1) = isl9241_i32Write B r1 v1 s in if ok then isl9241_i32Write B r2 v2 s1 else (False, s1))"

definition write_charger :: "smtbty_cfg \<Rightarrow> bus \<Rightarrow> u16 \<Rightarrow> u16 \<Rightarrow> 'x bty_scheme \<Rightarrow> 'x bty_scheme" where
  "write_charger c B current voltage s =
     (if \<not> isl9241 c then s
      else (let (ok, s1) = both_writes B CHG_CURRENT current CHG_VOLTAGE voltage s in
            if ok then s1 else snd (both_writes B CHG_VOLTAGE voltage CHG_CURRENT current s1)))"

text \<open>The state of charge in percent, read or computed. The quotient is cut to 16 bits.\<close>

definition charge_percent :: "u8 \<Rightarrow> 'x bty_scheme \<Rightarrow> u16 res" where
  "charge_percent btyId s =
     (case dev_smtbty_i32CacheGet btyId REG_RelativeStateOfCharge s of
        Some v \<Rightarrow> Inr (ucast v)
      | None \<Rightarrow>
          (case dev_smtbty_i32CacheGet btyId REG_RemainingCapacity s of
             None \<Rightarrow> Inr 0xFF
           | Some rest \<Rightarrow>
               (case dev_smtbty_i32CacheGet btyId REG_FullChargeCapacity s of
                  None \<Rightarrow> Inr 0xFF
                | Some full \<Rightarrow>
                    if (ucast full :: u16) = 0 then Inl Div_by_zero
                    else Inr (of_nat (unat (ucast rest :: u16) * 100 div unat (ucast full :: u16))))))"

text \<open>Charging stops when the state of charge has reached the throttle.\<close>

definition throttle_reached :: "u8 \<Rightarrow> 'x bty_scheme \<Rightarrow> bool res" where
  "throttle_reached btyId s =
     (case app_battery_ChargeThrottleGet btyId s of
        Inl e \<Rightarrow> Inl e
      | Inr thr \<Rightarrow>
          if thr = APP_SMTBTY_CHG_THROTTLE_DISABLED then Inr False
          else (case charge_percent btyId s of
                  Inl e \<Rightarrow> Inl e
                | Inr rsoc \<Rightarrow> Inr (rsoc \<noteq> 0xFF \<and> (ucast rsoc :: u8) \<le> 100 \<and> ucast thr \<le> rsoc)))"

definition precharge_cfg :: "smtbty_cfg \<Rightarrow> bool" where
  "precharge_cfg c \<longleftrightarrow> PRECHARGE_THRESHOLD c > 0 \<and> PRECHARGE_VOLTAGE c > 0 \<and> PRECHARGE_CURRENT c > 0"

definition reactive_cfg :: "smtbty_cfg \<Rightarrow> bool" where
  "reactive_cfg c \<longleftrightarrow> REACTIVING_VOLTAGE c > 0 \<and> REACTIVING_CURRENT c > 0"

definition do_precharge :: "smtbty_cfg \<Rightarrow> bus \<Rightarrow> 'x bty_scheme \<Rightarrow> 'x bty_scheme" where
  "do_precharge c B s =
     (let old = s_skippedLoops s; s1 = s\<lparr>s_skippedLoops := old + 1\<rparr> in
      if old > 30 then (write_charger c B (PRECHARGE_CURRENT c) (PRECHARGE_VOLTAGE c) s1)\<lparr>s_skippedLoops := 0\<rparr> else s1)"

text \<open>Normal charging with the voltage and current the battery asks for, limited.\<close>

definition do_normal :: "smtbty_cfg \<Rightarrow> 'x bty_scheme client \<Rightarrow> bus \<Rightarrow> u8 \<Rightarrow> u16 \<Rightarrow> u16 \<Rightarrow> 'x bty_scheme \<Rightarrow> 'x bty_scheme" where
  "do_normal c cl B btyId reqV reqC s =
     (let s1 = dbg_set c 8 reqC (dbg_set c 0 reqV s);
          cur1 = (case pfnGetChargeCurrentLimit cl of
                    None \<Rightarrow> reqC | Some f \<Rightarrow> (if reqC > f btyId s1 then f btyId s1 else reqC));
          d = smtbty_dbg_vector s1;
          active = (dbg_enable c \<and> bit (smtbty_dbg_flag s1) 0 \<and> (rd16 d 16 \<noteq> 0 \<or> rd16 d 18 \<noteq> 0));
          volt2 = (if active then dbg_clamp (rd16 d 4) (rd16 d 6) reqV else reqV);
          cur2 = (if active then dbg_clamp (rd16 d 12) (rd16 d 14) cur1 else cur1);
          s2 = dbg_set c 10 cur2 (dbg_set c 2 volt2 s1);
          volt3 = (case FULL_CHARGE_VOLTAGE c of Some f \<Rightarrow> (if reqV = 0 then f else volt2) | None \<Rightarrow> volt2);
          differ = (s_oldVoltage s2 \<noteq> volt3 \<or> s_oldCurrent s2 \<noteq> cur2);
          old = s_skippedLoops s2;
          s3 = (if differ then s2 else s2\<lparr>s_skippedLoops := old + 1\<rparr>)
      in if differ \<or> old > 30
         then (write_charger c B cur2 volt3 s3)\<lparr>s_oldVoltage := volt3, s_oldCurrent := cur2, s_skippedLoops := 0\<rparr>
         else s3)"

text \<open>
  With AC and a battery: the new state. The status bits are 15 over charged, 14 terminate charge,
  12 over temperature, 5 fully charged.
\<close>

definition charge_on_ac :: "smtbty_cfg \<Rightarrow> 'x bty_scheme client \<Rightarrow> bus \<Rightarrow> u8 \<Rightarrow> 'x bty_scheme \<Rightarrow> (chg_status \<times> 'x bty_scheme) res" where
  "charge_on_ac c cl B btyId s =
     (case dev_smtbty_i32Read B btyId REG_BatteryStatus s of
        Inl e \<Rightarrow> Inl e
      | Inr (status, s1) \<Rightarrow>
          (case throttle_reached btyId s1 of
             Inl e \<Rightarrow> Inl e
           | Inr thr \<Rightarrow>
               (let alarm = (case status of Some w \<Rightarrow> w AND 0xD000 \<noteq> 0 \<or> w AND 0x0020 \<noteq> 0 | None \<Rightarrow> False);
                    st1 = (if alarm \<or> thr then APP_CHG_DISABLE else APP_CHG_ENABLED_NORMAL);
                    (st2, s2) =
                      (if status \<noteq> None \<and> st1 \<noteq> APP_CHG_DISABLE then
                         (let s' = call1 (pfnChgEnble cl) s1 in
                          if precharge_cfg c \<and>
                             (case dev_smtbty_i32CacheGet btyId REG_RemainingCapacity s' of
                                Some r \<Rightarrow> (ucast r :: u16) \<le> PRECHARGE_THRESHOLD c | None \<Rightarrow> False)
                          then (APP_CHG_PRE_CHARGE, do_precharge c B s')
                          else
                            (case (dev_smtbty_i32CacheGet btyId REG_ChargingVoltage s', dev_smtbty_i32CacheGet btyId REG_ChargingCurrent s') of
                               (Some rv, Some rc) \<Rightarrow> (APP_CHG_ENABLED_NORMAL, do_normal c cl B btyId (ucast rv) (ucast rc) s')
                             | _ \<Rightarrow> (st1, s')))
                       else (st1, s1));
                    st3 = (if reactive_cfg c \<and> st2 \<noteq> APP_CHG_DISABLE \<and> dev_smtbty_getContinuousErrorNum BATTERY_I2C_ADDRESS s2 > 0x120
                           then APP_CHG_REACTIVATING else st2)
                in Inr (st3, s2))))"

text \<open>The end of the decision: the state is stored and a change is reported.\<close>

definition set_chg :: "chg_status \<Rightarrow> 'x bty_scheme \<Rightarrow> bool \<times> 'x bty_scheme" where
  "set_chg new s = (oldChgSt s \<noteq> new, s\<lparr>s_smtbty_chgSt := new, oldChgSt := new\<rparr>)"

definition disable_loops :: "'x bty_scheme client \<Rightarrow> chg_status \<Rightarrow> 'x bty_scheme \<Rightarrow> 'x bty_scheme" where
  "disable_loops cl new s =
     (if new = APP_CHG_DISABLE \<and> pfnChgDisable cl \<noteq> None then
        (if oldChgSt s \<noteq> new \<or> s_skippedChgDisLoops s > 20
         then (call1 (pfnChgDisable cl) s)\<lparr>s_skippedChgDisLoops := 0\<rparr>
         else s\<lparr>s_skippedChgDisLoops := s_skippedChgDisLoops s + 1\<rparr>)
      else s)"

text \<open>One attempt to wake a battery that does not answer, every 20th round.\<close>

definition reactivate :: "smtbty_cfg \<Rightarrow> 'x bty_scheme client \<Rightarrow> bus \<Rightarrow> u8 \<Rightarrow> 'x bty_scheme \<Rightarrow> 'x bty_scheme res" where
  "reactivate c cl B btyId s =
     (let s1 = call1 (pfnChgEnble cl) s in
      case dev_smtbty_i32Read B btyId REG_ChargingVoltage s1 of
        Inl e \<Rightarrow> Inl e
      | Inr (rv, s2) \<Rightarrow>
          (case (if rv \<noteq> None then dev_smtbty_i32Read B btyId REG_ChargingCurrent s2 else Inr (None, s2)) of
             Inl e \<Rightarrow> Inl e
           | Inr (rc, s3) \<Rightarrow>
               (let volt = (case rv of Some x \<Rightarrow> ucast x | None \<Rightarrow> 0) :: u16;
                    cur = (case rc of Some x \<Rightarrow> ucast x | None \<Rightarrow> 0) :: u16;
                    answered = (rv \<noteq> None \<and> rc \<noteq> None \<and> cur \<noteq> 0 \<and> volt \<noteq> 0);
                    cur' = (if answered \<and> \<not> cur < REACTIVING_CURRENT c then cur else REACTIVING_CURRENT c);
                    volt' = (if answered then volt else REACTIVING_VOLTAGE c);
                    s4 = s3\<lparr>s_smtbty_batteryResponseCounter := (if answered then s_smtbty_batteryResponseCounter s3 + 1 else 0)\<rparr>
                in Inr (write_charger c B cur' volt' s4))))"

definition battery_doCharge :: "smtbty_cfg \<Rightarrow> 'x bty_scheme client \<Rightarrow> bus \<Rightarrow> u8 \<Rightarrow> 'x bty_scheme \<Rightarrow> (bool \<times> 'x bty_scheme) res" where
  "battery_doCharge c cl B btyId s =
     (if btyId \<ge> MAX_BATTERY_SUPPORTED \<or> s_smtbty_chgSt s = APP_CHG_BATTERY_IS_DEAD then Inr (False, s)
      else if reactive_cfg c \<and> s_smtbty_chgSt s = APP_CHG_REACTIVATING then
        (if s_smtbty_reactivingCounter s > 1800 then Inr (set_chg APP_CHG_BATTERY_IS_DEAD (call1 (pfnChgDisable cl) s))
         else
           (case (if s_smtbty_reactivingCounter s mod 20 = 0 then reactivate c cl B btyId s else Inr s) of
              Inl e \<Rightarrow> Inl e
            | Inr s1 \<Rightarrow>
                if s_smtbty_batteryResponseCounter s1 > 10 then Inr (set_chg APP_CHG_PRE_CHARGE s1)
                else Inr (False, s1\<lparr>s_smtbty_reactivingCounter := s_smtbty_reactivingCounter s1 + 1\<rparr>)))
      else
        (let s0 = (if reactive_cfg c then s\<lparr>s_smtbty_reactivingCounter := 0, s_smtbty_batteryResponseCounter := 0\<rparr> else s);
             isAcOk = (case pfnIsAcPresent cl of Some f \<Rightarrow> f s0 | None \<Rightarrow> True);
             (present, s1) = (case pfnPresent cl of Some f \<Rightarrow> f btyId s0 | None \<Rightarrow> (False, s0))
         in case (if present \<and> isAcOk then charge_on_ac c cl B btyId s1 else Inr (APP_CHG_DISABLE, s1)) of
              Inl e \<Rightarrow> Inl e
            | Inr (new, s2) \<Rightarrow> Inr (set_chg new (disable_loops cl new s2))))"

section \<open>Flags\<close>

definition flag_if :: "bool \<Rightarrow> nat \<Rightarrow> u32 \<Rightarrow> u32" where
  "flag_if b n w = (if b then set_bit n w else w)"

definition threshold :: "u16 \<Rightarrow> u16 \<Rightarrow> u16" where
  "threshold user dflt = (if user \<noteq> 0 then user else dflt)"

text \<open>The remaining capacity has passed the trip point since the last reading.\<close>

definition crossed :: "u16 \<Rightarrow> u16 \<Rightarrow> u16 \<Rightarrow> bool" where
  "crossed trip prev now \<longleftrightarrow> trip \<noteq> 0 \<and> prev \<noteq> 0 \<and> ((trip < now \<and> prev < trip) \<or> (now < trip \<and> trip < prev))"

definition trip_update :: "u8 \<Rightarrow> u16 \<Rightarrow> 'x bty_scheme \<Rightarrow> 'x bty_scheme" where
  "trip_update btyId now s =
     (let b = s_batIns s;
          s1 = (if crossed (u16ThresholdBtyTripPoint b) (u16LastRemainingCapicity b) now
                then s\<lparr>s_u32BtyTrippedBitMap := set_bit (unat btyId) (s_u32BtyTrippedBitMap s)\<rparr> else s)
      in if now \<noteq> u16ThresholdBtyTripPoint b then on_ins (\<lambda>b. b\<lparr>u16LastRemainingCapicity := now\<rparr>) s1 else s1)"

text \<open>The signal of the reading and its flag: full, discharged, discharging, charging or idle.\<close>

definition APP_BATTERY_INVALID_SIGNAL :: nat where "APP_BATTERY_INVALID_SIGNAL = 0xFFFF"

definition reading_signal :: "u32 \<Rightarrow> u16 \<Rightarrow> nat \<times> nat option" where
  "reading_signal status current =
     (if bit status 5 then (0x0080, None)
      else if bit status 4 then (if sint current > 0 then (0x0020, Some APP_SMTBTY_CHARGING) else (0x0100, None))
      else if sint current < 0 then (0x0040, Some APP_SMTBTY_DISCHARGING)
      else if sint current > 0 then (0x0020, Some APP_SMTBTY_CHARGING)
      else (0x0002, Some APP_SMTBTY_IDLE))"

text \<open>The flags of a battery whose registers could be read.\<close>

definition flags_reading :: "u8 \<Rightarrow> u32 \<Rightarrow> u16 \<Rightarrow> u16 \<Rightarrow> u16 \<Rightarrow> 'x bty_scheme \<Rightarrow> u32 \<times> nat \<times> 'x bty_scheme" where
  "flags_reading btyId status rest full current s =
     (let b = s_batIns s;
          st1 = flag_if (rest < threshold (u16ThresholdBtyWarning b) (full div 5)) APP_SMTBTY_WARNING (set_bit APP_SMTBTY_CONNECTED 0);
          st2 = flag_if (rest < threshold (u16ThresholdBtyLow b) (full div 10)) APP_SMTBTY_LOW st1;
          st3 = flag_if (rest < threshold (u16ThresholdBtyCritical b) (full div 25)) APP_SMTBTY_CRITICAL st2;
          s1 = trip_update btyId rest s;
          st4 = flag_if (bit (s_u32BtyTrippedBitMap s1) (unat btyId)) APP_SMTBTY_TRIPPED st3;
          (sig, fl) = reading_signal status current;
          st5 = (case fl of Some n \<Rightarrow> set_bit n st4 | None \<Rightarrow> st4)
      in (st5, sig, s1))"

text \<open>
  The current of a failed reading is compared with \<open>0xFFFF\<close> as a signed number of 16 bits, so the
  test never holds.
\<close>

definition app_battery_flagsCalculate :: "'x bty_scheme client \<Rightarrow> bus \<Rightarrow> u8 \<Rightarrow> 'x bty_scheme \<Rightarrow> (u32 \<times> 'x bty_scheme) res" where
  "app_battery_flagsCalculate cl B btyId s =
     (if btyId \<ge> MAX_BATTERY_SUPPORTED then Inr (0, s)
      else
        (case (if \<not> bit (btyFlag (s_batIns s)) APP_SMTBTY_CONNECTED then Inr (0, APP_BATTERY_INVALID_SIGNAL, s)
               else
                 (case dev_smtbty_i32Read B btyId REG_BatteryStatus s of
                    Inl e \<Rightarrow> Inl e
                  | Inr (r1, s1) \<Rightarrow>
                      (case (if r1 \<noteq> None then Inr (r1, s1) else dev_smtbty_i32Read B btyId REG_BatteryStatus s1) of
                         Inl e \<Rightarrow> Inl e
                       | Inr (r2, s2) \<Rightarrow>
                           Inr (case (r2, dev_smtbty_i32CacheGet btyId REG_RemainingCapacity s2,
                                      dev_smtbty_i32CacheGet btyId REG_FullChargeCapacity s2, dev_smtbty_i32CacheGet btyId REG_Current s2) of
                                  (Some status, Some rest, Some full, Some current) \<Rightarrow>
                                    if sint (ucast current :: u16) = 0xFFFF then (set_bit APP_SMTBTY_CONNECTED 0, APP_BATTERY_INVALID_SIGNAL, s2)
                                    else flags_reading btyId status (ucast rest) (ucast full) (ucast current) s2
                                | _ \<Rightarrow> (set_bit APP_SMTBTY_CONNECTED 0, APP_BATTERY_INVALID_SIGNAL, s2))))) of
           Inl e \<Rightarrow> Inl e
         | Inr (w, sig, s3) \<Rightarrow>
             (let (w', sig') =
                    (if pfnBatteryLed cl = None then (w, sig)
                     else if s_smtbty_chgSt s3 = APP_CHG_BATTERY_IS_DEAD then (set_bit APP_SMTBTY_DEAD w, 0x0004)
                     else if s_smtbty_chgSt s3 = APP_CHG_REACTIVATING then (set_bit APP_SMTBTY_DEAD w, 0x0008)
                     else if s_smtbty_chgSt s3 = APP_CHG_PRE_CHARGE then (w, 0x0010)
                     else (w, sig));
                  s4 = (if sig' \<noteq> APP_BATTERY_INVALID_SIGNAL then call2 (pfnBatteryLed cl) sig' s3 else s3)
              in Inr (w', s4\<lparr>s_cachedBtyFlag := w'\<rparr>))))"

section \<open>The task\<close>

text \<open>The default callbacks, the reset of the readings, and the flag that lets the task run.\<close>

definition app_smtbty_start :: "smtbty_cfg \<Rightarrow> bus \<Rightarrow> bool \<Rightarrow> nat \<Rightarrow> 'x bty_scheme client \<Rightarrow> 'x bty_scheme \<Rightarrow> ('x bty_scheme client \<times> 'x bty_scheme) res" where
  "app_smtbty_start c B recent chg_bytes cl s =
     (case smtbty_assignStringBuffer chg_bytes s of
        Inl e \<Rightarrow> Inl e
      | Inr s1 \<Rightarrow>
          (let cl1 = (if pfnPresent cl = None then cl\<lparr>pfnPresent := Some (battery_isPresent B recent)\<rparr> else cl);
               cl2 = (if pfnCharger cl1 = None then cl1\<lparr>pfnCharger := Some (battery_doCharge c cl1 B)\<rparr> else cl1);
               s2 = (battery_resetData s1)\<lparr>s_u8SmtBtyInitFlag := True\<rparr>
           in Inr (cl2, if dbg_enable c then app_smtbty_dbgInit c s2 else s2)))"

text \<open>Every register is read again when its counter, less the tick, runs out.\<close>

definition refresh_item :: "bus \<Rightarrow> place \<Rightarrow> 'x bty_scheme \<Rightarrow> 'x bty_scheme" where
  "refresh_item B p s =
     (let x = get_item p s;
          x1 = (if autoRefersh x \<and> u32refreshCounter x \<ge> APP_SMTBTY_TICK_INTERVAL
                then x\<lparr>u32refreshCounter := u32refreshCounter x - APP_SMTBTY_TICK_INTERVAL\<rparr> else x);
          s1 = put_item p x1 s
      in if u32refreshCounter x1 < APP_SMTBTY_TICK_INTERVAL \<and> autoRefersh x1 then
           (let (ok, s2) = dev_smtbty_autoRead B p s1 in
            if ok then s2 else on_ins (\<lambda>b. b\<lparr>u32ErrCnt := u32ErrCnt b + 1\<rparr>) s2)
         else s1)"

definition refresh_all :: "bus \<Rightarrow> 'x bty_scheme \<Rightarrow> 'x bty_scheme" where
  "refresh_all B s =
     (let s1 = fold (\<lambda>i. refresh_item B (Common i)) [0 ..< length (s_batBuf s)] s
      in fold (\<lambda>i. refresh_item B (Platform i)) [0 ..< length (s_platform_btyBufTable s)] s1)"

text \<open>A battery was plugged in.\<close>

definition bty_attach :: "'x bty_scheme client \<Rightarrow> u8 \<Rightarrow> 'x bty_scheme \<Rightarrow> 'x bty_scheme" where
  "bty_attach cl btyId s =
     (let s1 = battery_resetData (s\<lparr>s_smtbty_chgSt := APP_CHG_DISABLE\<rparr>);
          s2 = dev_smtbty_resetBusErrorCounter BATTERY_I2C_ADDRESS s1;
          s3 = s2\<lparr>s_u32BtyTrippedBitMap := unset_bit (unat btyId) (s_u32BtyTrippedBitMap s2)\<rparr>;
          s4 = call2 (pfnOnBatteryAttach cl) btyId s3;
          s5 = on_ins (\<lambda>b. b\<lparr>btyFlag := set_bit APP_SMTBTY_CONNECTED 0, u32ErrCnt := 0\<rparr>) s4;
          s6 = s5\<lparr>mmio_charger_status := mmio_charger_status s5 OR 0x40\<rparr>
      in call2 (pfnBatteryLed cl) 0x0002 s6)"

text \<open>A battery was removed.\<close>

definition bty_detach :: "'x bty_scheme client \<Rightarrow> u8 \<Rightarrow> 'x bty_scheme \<Rightarrow> 'x bty_scheme" where
  "bty_detach cl btyId s =
     (let s1 = battery_resetData (s\<lparr>s_smtbty_chgSt := APP_CHG_DISABLE\<rparr>);
          s2 = dev_smtbty_resetBusErrorCounter BATTERY_I2C_ADDRESS s1;
          s3 = s2\<lparr>s_u32BtyTrippedBitMap := unset_bit (unat btyId) (s_u32BtyTrippedBitMap s2)\<rparr>;
          s4 = call2 (pfnOnBatteryDetach cl) btyId s3;
          s5 = on_ins (\<lambda>b. b\<lparr>btyFlag := unset_bit APP_SMTBTY_CONNECTED (btyFlag b)\<rparr>) s4;
          s6 = s5\<lparr>mmio_charger_status := mmio_charger_status s5 AND NOT 0x40\<rparr>
      in call1 (pfnChgDisable cl) (call2 (pfnBatteryLed cl) 0x0001 s6))"

text \<open>There is no battery and was none.\<close>

definition bty_absent :: "'x bty_scheme client \<Rightarrow> u8 \<Rightarrow> 'x bty_scheme \<Rightarrow> 'x bty_scheme" where
  "bty_absent cl btyId s =
     (let n = u8skippedLoops s; s1 = s\<lparr>u8skippedLoops := n + 1\<rparr>;
          s2 = (if n > 200 then (call1 (pfnChgDisable cl) s1)\<lparr>u8skippedLoops := 0\<rparr> else s1)
      in if \<not> proc_inited s2 then
           (ACPI_NotifyHost ACPI_SCI_BATTERY
              (on_ins (\<lambda>b. b\<lparr>btyFlag := unset_bit APP_SMTBTY_CONNECTED (btyFlag b)\<rparr>)
                 (s2\<lparr>mmio_charger_status := mmio_charger_status s2 AND NOT 0x40\<rparr>)))\<lparr>proc_inited := True\<rparr>
         else s2)"

text \<open>The rest of a round with the battery just attached, detached or still there.\<close>

definition bty_round :: "'x bty_scheme client \<Rightarrow> bus \<Rightarrow> u8 \<Rightarrow> bool \<Rightarrow> 'x bty_scheme \<Rightarrow> 'x bty_scheme res" where
  "bty_round cl B btyId bat_refresh s =
     (let s1 = hemit Chg_refresh (call2 (pfnRefresh cl) btyId (refresh_all B s)) in
      case (case pfnCharger cl of Some f \<Rightarrow> f btyId s1 | None \<Rightarrow> Inl Out_of_bounds) of
        Inl e \<Rightarrow> Inl e
      | Inr (chgSt, s2) \<Rightarrow>
          (case app_battery_flagsCalculate cl B btyId s2 of
             Inl e \<Rightarrow> Inl e
           | Inr (fl, s3) \<Rightarrow>
               (let s4 = on_ins (\<lambda>b. b\<lparr>btyFlag := fl\<rparr>) s3;
                    (upd, s5) = (case pfnStatus cl of Some f \<Rightarrow> f btyId s4 | None \<Rightarrow> (False, s4));
                    alart = btyLastFlag (s_batIns s5) XOR btyFlag (s_batIns s5);
                    s6 = (if chgSt \<or> alart \<noteq> 0 \<or> upd
                          then on_ins (\<lambda>b. b\<lparr>btyLastFlag := btyFlag b\<rparr>)
                                 (case pfnNotify cl of Some f \<Rightarrow> f btyId alart s5 | None \<Rightarrow> s5)
                          else s5);
                    s7 = call2 (pfnPostProcessing cl) btyId s6
                in Inr (if bat_refresh then ACPI_NotifyHost ACPI_SCI_BATTERY s7 else s7))))"

definition app_smtbty_proc :: "'x bty_scheme client \<Rightarrow> bus \<Rightarrow> 'x bty_scheme \<Rightarrow> 'x bty_scheme res" where
  "app_smtbty_proc cl B s =
     (if \<not> s_u8SmtBtyInitFlag s then Inr s
      else
        (let s0 = call2 (pfnPreProcessing cl) 0 s;
             (present, s1) = (case pfnPresent cl of Some f \<Rightarrow> f 0 s0 | None \<Rightarrow> (False, s0));
             was = bit (btyFlag (s_batIns s1)) APP_SMTBTY_CONNECTED
         in if present then (if was then bty_round cl B 0 False s1 else bty_round cl B 0 True (bty_attach cl 0 s1))
            else if was then bty_round cl B 0 True (bty_detach cl 0 s1)
            else Inr (bty_absent cl 0 s1)))"

end
