(* ===== verification/Acdc.thy ===== *)
theory Acdc
  imports Charge
begin

text \<open>
  The AC/DC switch: \<open>src/app/power_management/app_AcDcSwitch.c\<close>, and the loop of the battery task
  that runs it every half second (\<open>batterymgmt_thread\<close> of \<open>app_smtbty.c\<close>). The switch alternates
  between AC and battery power, with the times the host has set, and reports a virtual power state.
\<close>

record acdc = bty +
  g_ui8AC_Time_cnt :: u8
  g_ui8DC_Time_cnt :: u8
  g_ui8Virtual_ACDC_STATUS :: u8
  g_LoadfakeBatteryData :: bool
  g_bACDC_ACMode :: bool
  g_bACDC_ACEvent :: bool
  g_bACDC_DCMode :: bool
  g_bACDC_DCEvent :: bool
  chg_acok :: "bool option" \<comment> \<open>the level last driven on CHG_ACOK\<close>
  slp_ready :: bool

definition ACPI_BATTERY_CONNECTED :: u8 where "ACPI_BATTERY_CONNECTED = 0x40"
definition ACPI_AC_CONNECTED :: u8 where "ACPI_AC_CONNECTED = 0x80"
definition ACPI_SCI_AC :: u8 where "ACPI_SCI_AC = 0x35"

text \<open>The times are options of 8 bits, read into 8 bits.\<close>

definition AC_Time :: "'x opts_scheme \<Rightarrow> u8" where "AC_Time s = ucast (GET_NV_OPTIONS chg_AcTime s)"
definition DC_Time :: "'x opts_scheme \<Rightarrow> u8" where "DC_Time s = ucast (GET_NV_OPTIONS chg_DcTime s)"
definition AcDcSwitchEnableFlag :: "'x opts_scheme \<Rightarrow> bool" where
  "AcDcSwitchEnableFlag s \<longleftrightarrow> (ucast (GET_NV_OPTIONS chg_AcDcSwitch s) :: u8) \<noteq> 0"

text \<open>
  The counters of the modes; the flag says that the handler returns here, a count still running.
  A time is doubled in 8 bits.
\<close>

definition acdc_count :: "'x acdc_scheme \<Rightarrow> bool \<times> 'x acdc_scheme" where
  "acdc_count s =
     (if g_bACDC_DCMode s \<and> \<not> g_bACDC_ACMode s then
        (if g_ui8DC_Time_cnt s \<noteq> 0 then
           (let n = g_ui8DC_Time_cnt s - 1 in
            if n \<noteq> 0 then (True, s\<lparr>g_ui8DC_Time_cnt := n\<rparr>)
            else (False, s\<lparr>g_bACDC_DCMode := False, g_bACDC_ACMode := True, g_bACDC_ACEvent := True,
                          g_ui8AC_Time_cnt := AC_Time s * 2, g_ui8DC_Time_cnt := DC_Time s * 2\<rparr>))
         else (False, s\<lparr>g_ui8DC_Time_cnt := DC_Time s * 2\<rparr>))
      else if g_bACDC_ACMode s \<and> \<not> g_bACDC_DCMode s then
        (if g_ui8AC_Time_cnt s \<noteq> 0 then
           (let n = g_ui8AC_Time_cnt s - 1 in
            if n \<noteq> 0 then (True, s\<lparr>g_ui8AC_Time_cnt := n\<rparr>)
            else (False, s\<lparr>g_bACDC_DCMode := True, g_bACDC_ACMode := False, g_bACDC_DCEvent := True,
                          g_ui8DC_Time_cnt := DC_Time s * 2, g_ui8AC_Time_cnt := AC_Time s * 2\<rparr>))
         else (False, s\<lparr>g_ui8AC_Time_cnt := AC_Time s * 2\<rparr>))
      else (False, s))"

definition to_ac :: "'x acdc_scheme \<Rightarrow> 'x acdc_scheme" where
  "to_ac s = (ACPI_NotifyHost ACPI_SCI_AC
     (s\<lparr>g_ui8Virtual_ACDC_STATUS := g_ui8Virtual_ACDC_STATUS s OR ACPI_AC_CONNECTED, chg_acok := Some True\<rparr>))\<lparr>g_bACDC_ACEvent := False\<rparr>"

definition virtual_dc :: "'x acdc_scheme \<Rightarrow> 'x acdc_scheme" where
  "virtual_dc s = s\<lparr>g_ui8Virtual_ACDC_STATUS :=
     (g_ui8Virtual_ACDC_STATUS s OR ACPI_BATTERY_CONNECTED) AND NOT ACPI_AC_CONNECTED\<rparr>"

definition to_dc :: "'x acdc_scheme \<Rightarrow> 'x acdc_scheme" where
  "to_dc s = (ACPI_NotifyHost ACPI_SCI_BATTERY ((virtual_dc s)\<lparr>chg_acok := Some False\<rparr>))\<lparr>g_bACDC_DCEvent := False\<rparr>"

definition switch_event :: "'x acdc_scheme \<Rightarrow> 'x acdc_scheme" where
  "switch_event s =
     (if g_bACDC_ACMode s \<and> g_bACDC_ACEvent s then to_ac s
      else if g_bACDC_DCMode s \<and> g_bACDC_DCEvent s then to_dc s else s)"

definition app_acDcSwitchHandler :: "'x acdc_scheme \<Rightarrow> bool \<times> 'x acdc_scheme" where
  "app_acDcSwitchHandler s =
     (if \<not> AcDcSwitchEnableFlag s \<or> DC_Time s = 0 then (True, s)
      else
        (let slpAllowed = (AC_Time s = 0);
             present = bit (app_battery_flagsCacheGet (app_battery_selectedGet s) s) APP_SMTBTY_CONNECTED;
             percent = (case dev_smtbty_i32CacheGet (app_battery_selectedGet s) REG_RelativeStateOfCharge s of
                          Some v \<Rightarrow> ucast v | None \<Rightarrow> 0) :: u16;
             s0 = s\<lparr>g_ui8Virtual_ACDC_STATUS := g_ui8Virtual_ACDC_STATUS s OR ACPI_BATTERY_CONNECTED\<rparr>;
             (running, s1) = acdc_count s0
         in if running then (slpAllowed, s1)
            else if AC_Time s \<noteq> 0 \<and> present then
              (let s2 = s1\<lparr>g_LoadfakeBatteryData := False\<rparr> in
               (slpAllowed,
                if percent \<le> 10 then s2\<lparr>g_ui8Virtual_ACDC_STATUS := g_ui8Virtual_ACDC_STATUS s2 OR ACPI_AC_CONNECTED\<rparr>
                else if percent > 20 then switch_event s2 else s2))
            else if AC_Time s \<noteq> 0 then (slpAllowed, switch_event (s1\<lparr>g_LoadfakeBatteryData := True\<rparr>))
            else (slpAllowed, (virtual_dc s1)\<lparr>g_LoadfakeBatteryData := \<not> present, chg_acok := Some False,
                    g_bACDC_DCEvent := False, g_bACDC_ACEvent := False\<rparr>)))"

text \<open>One period of the battery task. \<open>sw\<close>: the build has the AC/DC switch.\<close>

definition batterymgmt_period :: "bool \<Rightarrow> 'x acdc_scheme client \<Rightarrow> bus \<Rightarrow> 'x acdc_scheme \<Rightarrow> 'x acdc_scheme res" where
  "batterymgmt_period sw cl B s =
     (let s1 = s\<lparr>slp_ready := False\<rparr> in
      case (if systemState s1 \<notin> {SYSTEM_INIT_STATE, SYSTEM_G3_STATE} \<and> g_batteryIsReadyToGo s1
            then (case app_smtbty_proc cl B s1 of Inl e \<Rightarrow> Inl e | Inr s' \<Rightarrow> Inr (hemit (Bty_call 0) s')) else Inr s1) of
        Inl e \<Rightarrow> Inl e
      | Inr s2 \<Rightarrow>
          (let (ready, s3) = (if sw then app_acDcSwitchHandler s2 else (False, s2))
           in Inr (s3\<lparr>slp_ready := ready\<rparr>)))"

end
