(* ===== verification/Acpi.thy ===== *)
theory Acpi
  imports Acdc Acpiplanes_Props
begin

text \<open>
  The registers of the fixed plane: \<open>src/app/acpi/app_acpi.c\<close>. Every handler reads or writes one
  register and keeps the state the other modules look at. The configuration of the build is a
  value of type \<open>acpi_cfg\<close>; handlers of other source files come in as \<open>ext_handlers\<close>.

  The options and the selected battery are accessed under assertions that hold: the magic number
  is there once the options are loaded, and only an existing battery can be selected.
\<close>

section \<open>State\<close>

record acpi_cfg =
  bits :: "nv_opt \<Rightarrow> nat"
  cfg_thermal :: bool
  cfg_battery :: bool
  cfg_charger :: bool
  cfg_acdc :: bool
  cfg_ucsi :: bool
  cfg_sfh :: bool
  cfg_hotbag :: bool
  cfg_s5alw :: bool
  cfg_isDM :: bool
  cfg_sleep :: bool
  cfg_dac :: bool
  cfg_usbpd :: bool
  cfg_4cc :: bool
  cfg_ccgx :: bool
  cfg_triport :: bool
  cfg_als :: bool
  cfg_pwm :: bool

text \<open>Values of a register of two bytes, kept between the accesses to its bytes.\<close>

record latches =
  lat_low :: u16
  lat_critical :: u16
  lat_trip :: u16
  lat_temperature :: u16
  lat_maxerror :: u16
  lat_cycle :: u16
  lat_current :: u16
  lat_voltage :: u16
  lat_designVoltage :: u16
  lat_remaining :: u16
  lat_full :: u16
  lat_rsvd :: u16
  lat_designCapacity :: u16
  lat_accuracy :: u16
  lat_als :: "u16 list"

datatype pd_device = PD_TIx | PD_CCGx | PD_other

text \<open>What other modules provide: power source, alarms, capacities, sensor values, settings.\<close>

record acpi_env =
  hasAcPowerSource :: bool
  alartStatus :: u32
  remainingCapacity :: u16
  fullChargeCapacity :: u16
  fullChargeVoltage :: u16
  isFchPwrBtnNotifyEnabled :: bool
  als_data :: "u16 list"
  g_lidCloseEnabled :: bool
  skinTemp :: u16
  usbc_devID :: pd_device
  gs_eSpiMmioSpace :: "u8 list"

record acpi = acdc +
  lat :: latches
  env :: acpi_env
  g_slyType :: u8
  g_allow_BiosInfo_MacAddr_Report :: bool
  g_slideToShutdownEnabled :: bool
  ecResetAfterSetOptions :: bool
  g_u8EcStateFlags :: u8
  g_aslGpFlags :: u8
  g_uPepHook :: u8
  g_usb4Disable :: bool
  g_tbt3Disable :: bool
  g_portDisable :: bool
  g_forceRtPower :: bool
  g_biosDebugLogEnable :: bool
  s_alignPostCode :: bool
  g_smartMuxSetting :: u8
  g_isThrottleApuInAcOnly :: bool
  g_isThrottleApuInDcOnly :: bool
  g_p3tConfigLimit :: u8
  g_ucsiTunnelEnabled :: bool
  g_auxD3Cold :: u8
  g_ui8CpuType :: u8
  g_WAIE_RITE :: bool
  g_pmfStatus :: u8
  g_hotBagEnabled :: bool
  g_powerSeq_criticalZone :: bool
  g_S5AlwEnFlag :: bool
  g_thermtripForceG3 :: bool
  postcode_sts :: bool
  s_vw_mmio_val :: u8
  s_vw_mmio_status :: u8
  s_pmic_addr :: u8
  s_pmic_idx :: u8
  s_pmic_val :: u8
  s_pmic_status :: u8
  gpio_null_cc :: u8

type_synonym 'x reg_handler = "bool \<Rightarrow> u8 \<Rightarrow> u8 \<Rightarrow> 'x acpi_scheme \<Rightarrow> u8 \<times> 'x acpi_scheme"

definition MS_uPEP_HOOK_DISPLAY_OFF :: u8 where "MS_uPEP_HOOK_DISPLAY_OFF = 3"
definition MS_uPEP_HOOK_DISPLAY_ON :: u8 where "MS_uPEP_HOOK_DISPLAY_ON = 4"
definition MS_uPEP_HOOK_DRIPs_ENTER :: u8 where "MS_uPEP_HOOK_DRIPs_ENTER = 5"
definition MS_uPEP_HOOK_MS_ENTER :: u8 where "MS_uPEP_HOOK_MS_ENTER = 7"
definition MS_uPEP_HOOK_OS_ENTER :: u8 where "MS_uPEP_HOOK_OS_ENTER = 9"
definition MS_uPEP_HOOK_Q_EVT :: u8 where "MS_uPEP_HOOK_Q_EVT = 0x70"

section \<open>Helpers\<close>

text \<open>An option as the condition of the code, and an option set from a bit of the data byte.\<close>

definition opt_on :: "nv_opt \<Rightarrow> 'x opts_scheme \<Rightarrow> bool" where
  "opt_on n s \<longleftrightarrow> GET_NV_OPTIONS n s \<noteq> 0"

definition opt_set :: "acpi_cfg \<Rightarrow> nv_opt \<Rightarrow> bool \<Rightarrow> 'x opts_scheme \<Rightarrow> 'x opts_scheme" where
  "opt_set c n b s = SET_NV_OPTIONS (bits c) n (of_bool b) s"

text \<open>A data byte assembled bit by bit, starting from 0.\<close>

definition put_bit :: "nat \<times> bool \<Rightarrow> u8 \<Rightarrow> u8" where
  "put_bit = (\<lambda>(n, b) w. if b then set_bit n w else unset_bit n w)"

definition byte_of :: "(nat \<times> bool) list \<Rightarrow> u8" where
  "byte_of l = fold put_bit l 0"

definition prochot_event :: "acpi_cfg \<Rightarrow> 'x acpi_scheme \<Rightarrow> 'x acpi_scheme" where
  "prochot_event c s = (if cfg_battery c \<and> cfg_charger c then hemit Set_prochot s else s)"

definition lo :: "u16 \<Rightarrow> u8" where "lo w = ucast (w AND 0xFF)"
definition hi :: "u16 \<Rightarrow> u8" where "hi w = ucast (drop_bit 8 w AND 0xFF)"

definition on_lat :: "(latches \<Rightarrow> latches) \<Rightarrow> 'x acpi_scheme \<Rightarrow> 'x acpi_scheme" where
  "on_lat f s = s\<lparr>lat := f (lat s)\<rparr>"

section \<open>Fake notification, prochot settings\<close>

definition AcpiFakeNotifyQueueHandler :: "'x reg_handler" where
  "AcpiFakeNotifyQueueHandler isRead idx data s =
     (if isRead then (s_fakeEventId s, s)
      else if data \<noteq> 0 then (data, s\<lparr>s_fakeEventId := data\<rparr>) else (data, s))"

definition AcpiGpioHandler_NULL :: "'x reg_handler" where
  "AcpiGpioHandler_NULL isRead idx data s =
     (if isRead then (gpio_null_cc s, s\<lparr>gpio_null_cc := gpio_null_cc s + 1\<rparr>) else (data, s))"

definition ProchotSetting00 :: "acpi_cfg \<Rightarrow> 'x reg_handler" where
  "ProchotSetting00 c isRead idx data s =
     (if isRead then (g_p3tConfigLimit s, s)
      else (data, if data \<noteq> g_p3tConfigLimit s
                  then prochot_event c (hemit P3t_reset (s\<lparr>g_p3tConfigLimit := data\<rparr>)) else s))"

definition ProchotSetting01 :: "acpi_cfg \<Rightarrow> 'x reg_handler" where
  "ProchotSetting01 c isRead idx data s =
     (let level = (ucast (GET_NV_OPTIONS chg_FakeDcLevel s) :: u8); en = (ucast (GET_NV_OPTIONS thm_p3tLimitEn_AC s) :: u8) in
      if isRead then ((if en \<noteq> 0 then 0x80 else 0) OR (0x7F AND level), s)
      else
        (let tmp = 0x7F AND data;
             ch1 = (tmp \<le> 100 \<and> tmp \<noteq> level); level' = (if ch1 then tmp else level);
             tmp2 = (if 0x80 AND data \<noteq> 0 then 1 else 0); ch2 = (tmp2 \<noteq> en); en' = (if ch2 then tmp2 else en)
         in (data, if ch1 \<or> ch2
                   then prochot_event c (SET_NV_OPTIONS (bits c) thm_p3tLimitEn_AC (ucast en')
                          (SET_NV_OPTIONS (bits c) chg_FakeDcLevel (ucast level') s))
                   else s)))"

definition prochot02_byte :: "'x acpi_scheme \<Rightarrow> u8" where
  "prochot02_byte s =
     (let ac = (ucast (GET_NV_OPTIONS chg_ProchotAcDebounce s) :: u8); du = (ucast (GET_NV_OPTIONS chg_ProchotDuration s) :: u8);
          dc = (ucast (GET_NV_OPTIONS chg_ProchotDcDebounce s) :: u8); en = (ucast (GET_NV_OPTIONS thm_p3tLimitEn_DC s) :: u8)
      in (ac AND 0x03) OR push_bit 2 (du AND 0x07) OR push_bit 5 (dc AND 0x03) OR push_bit 7 (en AND 0x01))"

definition ProchotSetting02 :: "acpi_cfg \<Rightarrow> 'x reg_handler" where
  "ProchotSetting02 c isRead idx data s =
     (if isRead then (prochot02_byte s, s)
      else (data,
        if prochot02_byte s \<noteq> data then
          prochot_event c
            (SET_NV_OPTIONS (bits c) thm_p3tLimitEn_DC (ucast (drop_bit 7 data AND 0x01))
              (SET_NV_OPTIONS (bits c) chg_ProchotDcDebounce (ucast (drop_bit 5 data AND 0x03))
                (SET_NV_OPTIONS (bits c) chg_ProchotDuration (ucast (drop_bit 2 data AND 0x07))
                  (SET_NV_OPTIONS (bits c) chg_ProchotAcDebounce (ucast (data AND 0x03)) s))))
        else s))"

definition ProchotSetting03 :: "acpi_cfg \<Rightarrow> 'x reg_handler" where
  "ProchotSetting03 c isRead idx data s =
     (let level = (ucast (GET_NV_OPTIONS chg_DcProchotLevel s) :: u8) in
      if isRead then (level, s)
      else (data, if level \<noteq> data AND 0x3F
                  then prochot_event c (SET_NV_OPTIONS (bits c) chg_DcProchotLevel (ucast (data AND 0x3F)) s) else s))"

section \<open>Switches\<close>

definition SW01 :: "acpi_cfg \<Rightarrow> 'x reg_handler" where
  "SW01 c isRead idx data s =
     (if isRead then
        (byte_of [(0, \<not> opt_on chg_UseNvdcMode s), (1, cfg_ucsi c \<and> g_ucsiTunnelEnabled s),
                  (2, opt_on thm_uploadOnboardTemp s), (3, opt_on thm_uploadEvalCardTemp s),
                  (4, opt_on f_wirelessManagability s), (5, opt_on f_s0i3KbcWake s),
                  (6, opt_on pwr_keepWlanPwrInS3 s), (7, opt_on pwr_keepWlanPwrInS4 s)], s)
      else
        (let s1 = opt_set c chg_UseNvdcMode (\<not> bit data 0) (if bit data 0 then hemit Slot_power_off s else s);
             s2 = (if cfg_ucsi c then s1\<lparr>g_ucsiTunnelEnabled := bit data 1\<rparr> else s1);
             s3 = opt_set c thm_uploadOnboardTemp (bit data 2) s2;
             s4 = opt_set c thm_uploadEvalCardTemp (bit data 3) s3;
             s5 = opt_set c f_wirelessManagability (bit data 4) s4;
             s6 = opt_set c f_s0i3KbcWake (bit data 5) s5;
             s7 = opt_set c pwr_keepWlanPwrInS3 (bit data 6) s6
         in (data, opt_set c pwr_keepWlanPwrInS4 (bit data 7) s7)))"

text \<open>Reading the register copies the two prochot options to the globals.\<close>

definition SW02 :: "acpi_cfg \<Rightarrow> 'x reg_handler" where
  "SW02 c isRead idx data s =
     (if isRead then
        (let s1 = s\<lparr>g_isThrottleApuInAcOnly := opt_on chg_AcOnlyProchot s, g_isThrottleApuInDcOnly := opt_on chg_DcOnlyProchot s\<rparr>
         in (byte_of [(0, g_slideToShutdownEnabled s), (1, opt_on espi_ResetInS0i3 s), (2, g_allow_BiosInfo_MacAddr_Report s),
                      (3, g_isThrottleApuInAcOnly s1), (4, opt_on pwr_SSD0D3Cold s), (5, opt_on pwr_SSD1D3Cold s),
                      (6, g_isThrottleApuInDcOnly s1), (7, g_ui8MondernStandbySupport s)], s1))
      else
        (let s1 = opt_set c espi_ResetInS0i3 (bit data 1) (s\<lparr>g_slideToShutdownEnabled := bit data 0\<rparr>);
             ch1 = (g_isThrottleApuInAcOnly s1 \<noteq> bit data 3);
             s2 = (opt_set c chg_AcOnlyProchot (bit data 3) s1)\<lparr>g_isThrottleApuInAcOnly := bit data 3\<rparr>;
             s3 = opt_set c pwr_SSD0D3Cold (bit data 4) s2;
             s4 = opt_set c pwr_SSD1D3Cold (bit data 5) s3;
             ch2 = (g_isThrottleApuInDcOnly s4 \<noteq> bit data 6);
             s5 = (opt_set c chg_DcOnlyProchot (bit data 6) s4)\<lparr>g_isThrottleApuInDcOnly := bit data 6\<rparr>;
             s6 = s5\<lparr>g_ui8MondernStandbySupport := bit data 7\<rparr>
         in (data, if ch1 \<or> ch2 then prochot_event c s6 else s6)))"

definition postcode_on :: "'x acpi_scheme \<Rightarrow> 'x acpi_scheme" where
  "postcode_on s = hemit (Postcode_led True) (s\<lparr>postcode_sts := True\<rparr>)"

definition postcode_off :: "'x acpi_scheme \<Rightarrow> 'x acpi_scheme" where
  "postcode_off s = (hemit (Postcode_led False) s)\<lparr>postcode_sts := False\<rparr>"

definition put_d3 :: "nat \<Rightarrow> bool \<Rightarrow> 'x acpi_scheme \<Rightarrow> 'x acpi_scheme" where
  "put_d3 n b s = s\<lparr>g_auxD3Cold := put_bit (n, b) (g_auxD3Cold s)\<rparr>"

definition SW03 :: "acpi_cfg \<Rightarrow> 'x reg_handler" where
  "SW03 c isRead idx data s =
     (if isRead then
        (byte_of [(0, opt_on f_TurnOnPostCode s), (1, s_alignPostCode s)] OR push_bit 2 (g_smartMuxSetting s AND 0x03) OR
         byte_of [(4, g_biosDebugLogEnable s), (5, bit (g_auxD3Cold s) 5), (6, bit (g_auxD3Cold s) 6), (7, bit (g_auxD3Cold s) 7)], s)
      else
        (let s1 = opt_set c f_TurnOnPostCode (bit data 0) s;
             s2 = (if bit data 0 \<and> \<not> postcode_sts s1 then postcode_on s1
                   else if \<not> bit data 0 \<and> postcode_sts s1 then postcode_off s1 else s1);
             s3 = s2\<lparr>s_alignPostCode := bit data 1\<rparr>;
             mux = drop_bit 2 (data AND 0x0C);
             s4 = (if g_smartMuxSetting s3 \<noteq> mux then hemit Smart_mux (s3\<lparr>g_smartMuxSetting := mux\<rparr>) else s3);
             s5 = s4\<lparr>g_biosDebugLogEnable := bit data 4\<rparr>;
             s6 = (if bit data 4 then s5 else hemit Udc_refresh s5)
         in (data, put_d3 7 (bit data 7) (put_d3 6 (bit data 6) (put_d3 5 (bit data 5) s6)))))"

definition SW04 :: "acpi_cfg \<Rightarrow> 'x reg_handler" where
  "SW04 c isRead idx data s =
     (if isRead then
        (byte_of [(0, bit (g_auxD3Cold s) 0)] OR push_bit 1 (g_ui8CpuType s AND 0x07) OR byte_of [(7, bit (g_auxD3Cold s) 1)], s)
      else
        (let s1 = put_d3 0 (bit data 0) s;
             t = drop_bit 1 (data AND 0x0E);
             s2 = (if \<not> cfg_isDM c \<and> g_ui8CpuType s1 \<noteq> t
                   then (SET_NV_OPTIONS (bits c) cpu_open_type (ucast t) (s1\<lparr>g_ui8CpuType := t\<rparr>))\<lparr>ecResetAfterSetOptions := True\<rparr>
                   else s1)
         in (data, put_d3 1 (bit data 7) s2)))"

text \<open>The state of the power management framework: 1 boot, 2 unload, 3 suspend, 4 resume.\<close>

definition pmf_update :: "u8 \<Rightarrow> 'x acpi_scheme \<Rightarrow> 'x acpi_scheme" where
  "pmf_update t s =
     (let s1 = s\<lparr>g_pmfStatus := t\<rparr> in
      if t = 1 then hemit (Pmf_timer True) s1
      else if t = 2 then hemit (Pmf_timer False) s1
      else if t = 3 then hemit (Pmf_timer True) (s1\<lparr>g_powerSeq_criticalZone := True\<rparr>)
      else if t = 4 then hemit (Pmf_timer True) (s1\<lparr>g_powerSeq_criticalZone := False\<rparr>)
      else s1)"

text \<open>Reading copies four options to the globals.\<close>

definition SW05 :: "acpi_cfg \<Rightarrow> 'x reg_handler" where
  "SW05 c isRead idx data s =
     (if isRead then
        (let s1 = (if cfg_sfh c then s\<lparr>g_WAIE_RITE := opt_on waie_b_value s\<rparr> else s);
             s2 = (if cfg_hotbag c then s1\<lparr>g_hotBagEnabled := opt_on hot_bag_enable s1\<rparr> else s1);
             s3 = (if cfg_s5alw c then s2\<lparr>g_S5AlwEnFlag := opt_on s5_alw_enable s2\<rparr> else s2);
             s4 = s3\<lparr>g_thermtripForceG3 := opt_on thermtrip_force_g3 s3\<rparr>
         in (byte_of [(7, cfg_sfh c \<and> g_WAIE_RITE s4)] OR (if cfg_hotbag c then push_bit 1 (g_pmfStatus s4) AND 0x0E else 0) OR
             byte_of [(4, cfg_hotbag c \<and> g_hotBagEnabled s4), (5, cfg_s5alw c \<and> g_S5AlwEnFlag s4), (6, g_thermtripForceG3 s4)], s4))
      else
        (let s1 = (if cfg_sfh c then opt_set c waie_b_value (bit data 7) (s\<lparr>g_WAIE_RITE := bit data 7\<rparr>) else s);
             s2 = (if cfg_hotbag c then
                     (let s' = (if bit data 0 then hemit (Pmf_timer True) s1
                                else if data AND 0x0E > 0 then pmf_update (drop_bit 1 (data AND 0x0E)) s1 else s1)
                      in opt_set c hot_bag_enable (bit data 4) (s'\<lparr>g_hotBagEnabled := bit data 4\<rparr>))
                   else s1);
             s3 = (if cfg_s5alw c then opt_set c s5_alw_enable (bit data 5) (s2\<lparr>g_S5AlwEnFlag := bit data 5\<rparr>) else s2)
         in (data, opt_set c thermtrip_force_g3 (bit data 6) (s3\<lparr>g_thermtripForceG3 := bit data 6\<rparr>))))"

text \<open>The heartbeat timer has run out: the lid is closed and the system should have been asleep.\<close>

definition ACPI_pmfHeartBeatHandler :: "'x acpi_scheme \<Rightarrow> 'x acpi_scheme" where
  "ACPI_pmfHeartBeatHandler s =
     (let s1 = (hemit (Pmf_timer False) s)\<lparr>g_hotBagEnabled := opt_on hot_bag_enable s\<rparr> in
      if g_hotBagEnabled s1 \<and> g_lidCloseEnabled (env s1) \<and> \<not> hasAcPowerSource (env s1) \<and> \<not> g_LoadfakeBatteryData s1 \<and>
         (g_powerSeq_criticalZone s1 \<longrightarrow> skinTemp (env s1) > 50)
      then hemit Force_g3 s1 else s1)"

definition ACPI_pmfHeartBeatStop :: "'x acpi_scheme \<Rightarrow> 'x acpi_scheme" where
  "ACPI_pmfHeartBeatStop = hemit (Pmf_timer False)"

definition ACPI_pmfHeartBeatRefresh :: "'x acpi_scheme \<Rightarrow> 'x acpi_scheme" where
  "ACPI_pmfHeartBeatRefresh = hemit (Pmf_timer True)"

text \<open>The work item of the smart mux.\<close>

definition smartMux_1P0_SetPwm :: "acpi_cfg \<Rightarrow> bool \<Rightarrow> 'x acpi_scheme \<Rightarrow> 'x acpi_scheme" where
  "smartMux_1P0_SetPwm c on s = (if cfg_pwm c then hemit (Smart_mux_pwm on) s else s)"

definition smartMux_1P0_eventProc :: "acpi_cfg \<Rightarrow> 'x acpi_scheme \<Rightarrow> 'x acpi_scheme" where
  "smartMux_1P0_eventProc c s =
     (let m = g_smartMuxSetting s in
      if m \<le> 3 then smartMux_1P0_SetPwm c (m \<noteq> 0) (hemit (Smart_mux_pins m) s) else s)"

end
