(* ===== verification/Acpi_regs.thy ===== *)
theory Acpi_regs
  imports Acpi
begin

text \<open>
  The registers of \<open>src/app/acpi/app_acpi.c\<close>, continued: times, event flags, modes, the battery,
  the hooks of the operating system, the tunnels, and the table that the dispatcher searches.
\<close>

section \<open>Times, events, versions, modes\<close>

definition ACPIDCTimeHandler :: "acpi_cfg \<Rightarrow> 'x reg_handler" where
  "ACPIDCTimeHandler c isRead idx data s =
     (if isRead then (ucast (GET_NV_OPTIONS chg_DcTime s), s) else (data, SET_NV_OPTIONS (bits c) chg_DcTime (ucast data) s))"

definition ACPIACTimeHandler :: "acpi_cfg \<Rightarrow> 'x reg_handler" where
  "ACPIACTimeHandler c isRead idx data s =
     (if isRead then (ucast (GET_NV_OPTIONS chg_AcTime s), s) else (data, SET_NV_OPTIONS (bits c) chg_AcTime (ucast data) s))"

text \<open>Written ones clear.\<close>

definition ACPIEcEventFlagsHandler1 :: "'x reg_handler" where
  "ACPIEcEventFlagsHandler1 isRead idx data s =
     (if isRead then (g_u8EcStateFlags s, s)
      else (data, s\<lparr>g_u8EcStateFlags := g_u8EcStateFlags s AND NOT data\<rparr>))"

definition ACPIEcEventFlagsHandler2 :: "'x reg_handler" where
  "ACPIEcEventFlagsHandler2 isRead idx data s =
     (if isRead then (if isFchPwrBtnNotifyEnabled (env s) then 0x01 else 0x00, s) else (data, s))"

text \<open>The version strings are not implemented for this controller.\<close>

definition AcpiEcVersionHandler :: "'x reg_handler" where
  "AcpiEcVersionHandler isRead idx data s = (0x11, s)"

definition AcpiEcBuildDateHandler :: "'x reg_handler" where
  "AcpiEcBuildDateHandler isRead idx data s = (0x11, s)"

definition AcpiEcBuildTimeHandler :: "'x reg_handler" where
  "AcpiEcBuildTimeHandler isRead idx data s = (0x11, s)"

text \<open>Bit 1: the AC/DC switch, bit 2: the ACPI mode, bits 7 and 6: the target sleep state, written only.\<close>

definition acdc_enable :: "acpi_cfg \<Rightarrow> bool \<Rightarrow> 'x acpi_scheme \<Rightarrow> 'x acpi_scheme" where
  "acdc_enable c on s =
     (let was = AcDcSwitchEnableFlag s; s1 = hemit (Chg_acok_mode on) s;
          s2 = (if on then s1 else s1\<lparr>g_LoadfakeBatteryData := False, g_ui8AC_Time_cnt := 0, g_ui8DC_Time_cnt := 0\<rparr>);
          s3 = opt_set c chg_AcDcSwitch on s2
      in if was \<noteq> on then prochot_event c s3 else s3)"

definition ACPIMiscStatusControlHandler :: "acpi_cfg \<Rightarrow> 'x reg_handler" where
  "ACPIMiscStatusControlHandler c isRead idx data s =
     (if isRead then
        (let d1 = (if cfg_acdc c then put_bit (1, AcDcSwitchEnableFlag s) data else data);
             d2 = put_bit (2, \<not> ACPI_isHostNotifyDisable s) d1
         in (d2 AND 0x3F, s))
      else
        (let s1 = (if cfg_acdc c then acdc_enable c (bit data 1) s else s);
             s2 = s1\<lparr>g_slyType := drop_bit 6 data AND 0x03\<rparr>
         in (data, if bit data 2 then ACPI_EnableHostNotify (cfg_battery c \<and> cfg_charger c) s2
                   else ACPI_DisableHostNotify (cfg_ucsi c) s2)))"

section \<open>Battery\<close>

text \<open>Accessors of the selected battery, which exists.\<close>

definition sel_get :: "(u8 \<Rightarrow> 'x acpi_scheme \<Rightarrow> 'a res) \<Rightarrow> 'a \<Rightarrow> 'x acpi_scheme \<Rightarrow> 'a" where
  "sel_get f d s = (case f (app_battery_selectedGet s) s of Inr v \<Rightarrow> v | Inl e \<Rightarrow> d)"

definition sel_set :: "(u8 \<Rightarrow> 'v \<Rightarrow> 'x acpi_scheme \<Rightarrow> 'x acpi_scheme res) \<Rightarrow> 'v \<Rightarrow> 'x acpi_scheme \<Rightarrow> 'x acpi_scheme" where
  "sel_set f v s = (case f (app_battery_selectedGet s) v s of Inr s' \<Rightarrow> s' | Inl e \<Rightarrow> s)"

definition ACPIBatteryChargeThrottle :: "'x reg_handler" where
  "ACPIBatteryChargeThrottle isRead idx data s =
     (if isRead \<and> idx = 0xEA then (sel_get app_battery_ChargeThrottleGet 0 s, s)
      else if \<not> isRead \<and> idx = 0xEA then (data, sel_set app_battery_ChargeThrottleSet data s)
      else (data, s))"

text \<open>
  A register of two bytes that is read and written through one latch: reading the high byte takes
  the value, reading the low byte returns the rest of it; writing the low byte keeps it, writing the
  high byte applies the whole.
\<close>

definition latch_rw ::
  "u8 \<Rightarrow> (latches \<Rightarrow> u16) \<Rightarrow> (u16 \<Rightarrow> latches \<Rightarrow> latches) \<Rightarrow> ('x acpi_scheme \<Rightarrow> u16) \<Rightarrow> (u16 \<Rightarrow> 'x acpi_scheme \<Rightarrow> 'x acpi_scheme) \<Rightarrow> 'x reg_handler" where
  "latch_rw base getl setl getv setv isRead idx data s =
     (if isRead \<and> idx = base then (lo (getl (lat s)), s)
      else if isRead \<and> idx = base + 1 then (hi (getv s), on_lat (setl (getv s)) s)
      else if \<not> isRead \<and> idx = base then (data, on_lat (setl (ucast data)) s)
      else if \<not> isRead \<and> idx = base + 1 then
        (let v = (getl (lat s) AND 0xFF) OR (push_bit 8 (ucast data) AND 0xFF00) in (data, setv v (on_lat (setl v) s)))
      else (data, s))"

definition ACPIBatteryLowHandler :: "'x reg_handler" where
  "ACPIBatteryLowHandler = latch_rw 0xD2 lat_low (\<lambda>v l. l\<lparr>lat_low := v\<rparr>) (sel_get app_battery_lowThresholdGet 0)
     (sel_set app_battery_lowThresholdSet)"

definition ACPIBatteryCriticalHandler :: "'x reg_handler" where
  "ACPIBatteryCriticalHandler = latch_rw 0xD4 lat_critical (\<lambda>v l. l\<lparr>lat_critical := v\<rparr>) (sel_get app_battery_criticalThresholdGet 0)
     (sel_set app_battery_criticalThresholdSet)"

definition ACPIBatteryTripPointHandler :: "'x reg_handler" where
  "ACPIBatteryTripPointHandler = latch_rw 0xD6 lat_trip (\<lambda>v l. l\<lparr>lat_trip := v\<rparr>) (sel_get app_battery_tripPointGet 0)
     (\<lambda>v s. sel_set app_battery_tripPointSet v (app_battery_clearTrippedFlag (app_battery_selectedGet s) s))"

text \<open>A register of two bytes that is only read.\<close>

definition latch_ro ::
  "u8 \<Rightarrow> (latches \<Rightarrow> u16) \<Rightarrow> (u16 \<Rightarrow> latches \<Rightarrow> latches) \<Rightarrow> ('x acpi_scheme \<Rightarrow> u16) \<Rightarrow> 'x reg_handler" where
  "latch_ro base getl setl getv isRead idx data s =
     (if isRead \<and> idx = base then (lo (getl (lat s)), s)
      else if isRead \<and> idx = base + 1 then (hi (getv s), on_lat (setl (getv s)) s)
      else (data, s))"

text \<open>A register of the battery from the cache, or a value when it is not available.\<close>

definition cached :: "u8 \<Rightarrow> u16 \<Rightarrow> 'x acpi_scheme \<Rightarrow> u16" where
  "cached r d s = (case dev_smtbty_i32CacheGet (app_battery_selectedGet s) r s of Some v \<Rightarrow> ucast v | None \<Rightarrow> d)"

definition ACPIBatteryTemperatureHandler :: "'x reg_handler" where
  "ACPIBatteryTemperatureHandler = latch_ro 0xD8 lat_temperature (\<lambda>v l. l\<lparr>lat_temperature := v\<rparr>) (cached REG_Temperature 0xFFFF)"

definition ACPIBatteryMaxErrorHandler :: "'x reg_handler" where
  "ACPIBatteryMaxErrorHandler = latch_ro 0xDA lat_maxerror (\<lambda>v l. l\<lparr>lat_maxerror := v\<rparr>) (cached REG_MaxError 0xFFFF)"

definition ACPIBatteryCycleCountHandler :: "'x reg_handler" where
  "ACPIBatteryCycleCountHandler = latch_ro 0xDC lat_cycle (\<lambda>v l. l\<lparr>lat_cycle := v\<rparr>) (cached REG_CycleCount 0xFFFF)"

text \<open>With the AC/DC switch the readings may be faked: 560 mA charging, -230 mA discharging.\<close>

definition fake_current :: "'x acpi_scheme \<Rightarrow> u16" where
  "fake_current s =
     (if g_ui8Virtual_ACDC_STATUS s AND ACPI_BATTERY_CONNECTED \<noteq> 0 then
        (if g_ui8Virtual_ACDC_STATUS s AND ACPI_AC_CONNECTED \<noteq> 0 then 0x0230 else 0xFF1A)
      else 0)"

definition ACPIBatteryCurrentHandler :: "acpi_cfg \<Rightarrow> 'x reg_handler" where
  "ACPIBatteryCurrentHandler c = latch_ro 0xDE lat_current (\<lambda>v l. l\<lparr>lat_current := v\<rparr>)
     (\<lambda>s. if cfg_acdc c \<and> g_LoadfakeBatteryData s then fake_current s else cached REG_Current 0 s)"

definition ACPIBatteryVoltageHandler :: "acpi_cfg \<Rightarrow> 'x reg_handler" where
  "ACPIBatteryVoltageHandler c = latch_ro 0xE0 lat_voltage (\<lambda>v l. l\<lparr>lat_voltage := v\<rparr>)
     (\<lambda>s. if cfg_acdc c \<and> g_LoadfakeBatteryData s then fullChargeVoltage (env s) else cached REG_Voltage 0xFFFF s)"

definition ACPIBatteryDesignVoltageHandler :: "'x reg_handler" where
  "ACPIBatteryDesignVoltageHandler = latch_ro 0xE2 lat_designVoltage (\<lambda>v l. l\<lparr>lat_designVoltage := v\<rparr>) (cached REG_DesignVoltage 0xFFFF)"

definition ACPIBatteryRemainingCapacityHandler :: "'x reg_handler" where
  "ACPIBatteryRemainingCapacityHandler = latch_ro 0xE4 lat_remaining (\<lambda>v l. l\<lparr>lat_remaining := v\<rparr>) (\<lambda>s. remainingCapacity (env s))"

text \<open>Written, the register sets the reserved capacity; its high byte is added to what was written before.\<close>

definition ACPIBatteryFullChargeCapacityHandler :: "'x reg_handler" where
  "ACPIBatteryFullChargeCapacityHandler isRead idx data s =
     (if isRead then latch_ro 0xE6 lat_full (\<lambda>v l. l\<lparr>lat_full := v\<rparr>) (\<lambda>s. fullChargeCapacity (env s)) isRead idx data s
      else if idx = 0xE6 then (data, on_lat (\<lambda>l. l\<lparr>lat_rsvd := 0x00FF AND ucast data\<rparr>) s)
      else if idx = 0xE7 then
        (let v = lat_rsvd (lat s) OR push_bit 8 (ucast data)
         in (data, dev_smtbty_setRsvdBtyCapacity v (on_lat (\<lambda>l. l\<lparr>lat_rsvd := v\<rparr>) s)))
      else (data, s))"

definition ACPIBatteryDesignCapacityHandler :: "acpi_cfg \<Rightarrow> 'x reg_handler" where
  "ACPIBatteryDesignCapacityHandler c = latch_ro 0xE8 lat_designCapacity (\<lambda>v l. l\<lparr>lat_designCapacity := v\<rparr>)
     (\<lambda>s. if cfg_acdc c \<and> g_LoadfakeBatteryData s then 3420 else cached REG_DesignCapacity 0xFFFF s)"

text \<open>96 percent in units of a thousandth, without its low byte.\<close>

definition ACPIBatteryMeasurementAccuracyHandler :: "'x reg_handler" where
  "ACPIBatteryMeasurementAccuracyHandler = latch_ro 0xD0 lat_accuracy (\<lambda>v l. l\<lparr>lat_accuracy := v\<rparr>)
     (\<lambda>s. ucast (drop_bit 8 (96000 :: u32)))"

definition ACPIBatteryCountHandler :: "'x reg_handler" where
  "ACPIBatteryCountHandler isRead idx data s = (if isRead then app_battery_countGet else data, s)"

definition ACPIBatterySelectHandler :: "'x reg_handler" where
  "ACPIBatterySelectHandler isRead idx data s =
     (if isRead then (app_battery_selectedGet s, s) else (data, app_battery_selectedSet data s))"

definition ACPIBatteryAlertHandler :: "'x reg_handler" where
  "ACPIBatteryAlertHandler isRead idx data s =
     (if isRead then (ucast (alartStatus (env s) AND 0xFF), s\<lparr>env := (env s)\<lparr>alartStatus := 0\<rparr>\<rparr>) else (data, s))"

definition ACPIChargerStatusHandler :: "acpi_cfg \<Rightarrow> 'x reg_handler" where
  "ACPIChargerStatusHandler c isRead idx data s =
     (if \<not> isRead then (data, s)
      else if cfg_acdc c \<and> AcDcSwitchEnableFlag s then (g_ui8Virtual_ACDC_STATUS s, s)
      else
        (let fl = app_battery_flagsCacheGet (app_battery_selectedGet s) s in
         (byte_of [(6, bit fl APP_SMTBTY_CONNECTED \<and> \<not> bit fl APP_SMTBTY_DEAD), (7, hasAcPowerSource (env s))], s)))"

text \<open>Bit 0: charging, bit 7: the trip point was passed; writing bit 7 clears it.\<close>

definition ACPIBatteryStatusHandler :: "'x reg_handler" where
  "ACPIBatteryStatusHandler isRead idx data s =
     (if isRead then
        (let fl = app_battery_flagsCacheGet (app_battery_selectedGet s) s in
         (byte_of [(0, hasAcPowerSource (env s) \<and> cached REG_RemainingCapacity 0 s < cached REG_FullChargeCapacity 0 s \<and>
                       sint (cached REG_Current 0 s) > 0 \<and> bit fl APP_SMTBTY_CHARGING),
                   (7, bit fl APP_SMTBTY_TRIPPED)], s))
      else (data, if bit data 7 then app_battery_clearTrippedFlag (app_battery_selectedGet s) s else s))"

section \<open>Hooks of the operating system\<close>

definition ACPI_aslGpFlag :: "'x reg_handler" where
  "ACPI_aslGpFlag isRead idx data s =
     (if \<not> isRead then (data, s)
      else if opt_on f_s0i3KbcWake s \<and> opt_on espi_ResetInS0i3 s then
        (let f1 = (if g_uPepHook s \<in> {MS_uPEP_HOOK_DISPLAY_OFF, MS_uPEP_HOOK_DRIPs_ENTER, MS_uPEP_HOOK_MS_ENTER} then 0xFF else g_aslGpFlags s);
             f2 = (if g_uPepHook s = MS_uPEP_HOOK_Q_EVT then 0x22 else f1)
         in (f2, s\<lparr>g_aslGpFlags := 0\<rparr>))
      else (0xFF, s))"

definition ACPI_uPepHook :: "acpi_cfg \<Rightarrow> 'x reg_handler" where
  "ACPI_uPepHook c isRead idx data s =
     (if isRead then (g_uPepHook s, s)
      else
        (let s1 = s\<lparr>g_uPepHook := data\<rparr> in
         (data,
          if data = MS_uPEP_HOOK_DISPLAY_OFF then (if postcode_sts s1 \<and> s_alignPostCode s1 then postcode_off s1 else s1)
          else if data = MS_uPEP_HOOK_DISPLAY_ON then
            (let s2 = (if cfg_sleep c then hemit Ks_wakeup_off s1 else s1) in
             if \<not> postcode_sts s2 \<and> opt_on f_TurnOnPostCode s2 \<and> s_alignPostCode s2 then postcode_on s2 else s2)
          else if data = MS_uPEP_HOOK_OS_ENTER then (if cfg_battery c then app_smtbty_unfrozen s1 else s1)
          else s1)))"

section \<open>Tunnels\<close>

definition ACPI_PMIC_TunnelHandler :: "'x reg_handler" where
  "ACPI_PMIC_TunnelHandler isRead idx data s =
     (if isRead then
        (if idx = 0x90 then s_pmic_idx s else if idx = 0x91 then s_pmic_val s else if idx = 0x92 then s_pmic_status s else data, s)
      else
        (let s1 = s\<lparr>s_pmic_status := 0xCC\<rparr> in
         (data, if idx = 0x90 then s1\<lparr>s_pmic_idx := data\<rparr> else if idx = 0x91 then s1\<lparr>s_pmic_val := data\<rparr>
                else if idx = 0x92 then hemit Pmic_trigger (s1\<lparr>s_pmic_addr := data\<rparr>) else s1)))"

definition ACPI_PMIC_TunnelProc :: "bus \<Rightarrow> 'x acpi_scheme \<Rightarrow> 'x acpi_scheme" where
  "ACPI_PMIC_TunnelProc B s =
     (let answer = B (bus_pos s); addr = drop_bit 1 (s_pmic_addr s); s1 = s\<lparr>bus_pos := bus_pos s + 1\<rparr> in
      if bit (s_pmic_addr s) 0 then
        (let s2 = hemit (I2c_read addr (s_pmic_idx s) 1) s1 in
         case answer of Some bs \<Rightarrow> s2\<lparr>s_pmic_val := ucast (le (take 1 bs)), s_pmic_status := 0xAC\<rparr> | None \<Rightarrow> s2\<lparr>s_pmic_status := 0xE2\<rparr>)
      else (hemit (I2c_write addr (s_pmic_idx s) (ucast (s_pmic_val s)) 1) s1)\<lparr>s_pmic_status := (if answer \<noteq> None then 0xAC else 0xE2)\<rparr>)"

text \<open>
  Calls to the PD controller, one per port or chip, by operation: 0 to 3 the USB4 and TBT3 modes,
  4 and 5 the ports off and on, 6 and 7 the retimers' forced power. The Cypress controller has one
  chip for the first two ports.
\<close>

definition pd_calls :: "acpi_cfg \<Rightarrow> nat \<Rightarrow> 'x acpi_scheme \<Rightarrow> 'x acpi_scheme" where
  "pd_calls c op s =
     (let ports = [0, 1] @ (if cfg_triport c then [2] else []); chips = [0] @ (if cfg_triport c then [1] else []) in
      fold (\<lambda>p. hemit (Pd_call op p))
        (case usbc_devID (env s) of
           PD_TIx \<Rightarrow> (if cfg_4cc c then ports else [])
         | PD_CCGx \<Rightarrow> (if cfg_ccgx c then (if op \<ge> 5 then chips else ports) else [])
         | PD_other \<Rightarrow> []) s)"

definition usb_modes :: "acpi_cfg \<Rightarrow> bool \<Rightarrow> bool \<Rightarrow> 'x acpi_scheme \<Rightarrow> 'x acpi_scheme" where
  "usb_modes c no_usb4 no_tbt3 s =
     (if \<not> (g_usb4Disable s = no_usb4 \<and> g_tbt3Disable s = no_tbt3)
      then pd_calls c (if no_usb4 \<and> no_tbt3 then 0 else if \<not> no_usb4 \<and> \<not> no_tbt3 then 1 else if no_usb4 then 2 else 3)
             (s\<lparr>g_usb4Disable := no_usb4, g_tbt3Disable := no_tbt3\<rparr>)
      else s)"

definition ACPI_UsbStatus :: "acpi_cfg \<Rightarrow> 'x reg_handler" where
  "ACPI_UsbStatus c isRead idx data s =
     (if isRead then
        (byte_of [(7, g_forceRtPower s), (4, g_usb4Disable s), (5, g_tbt3Disable s), (6, g_portDisable s)], s)
      else
        (let s1 = usb_modes c (bit data 4) (bit data 5) s;
             s2 = (if bit data 6 then (if \<not> g_portDisable s1 then (pd_calls c 4 s1)\<lparr>g_portDisable := True\<rparr> else s1)
                   else (if g_portDisable s1 then (pd_calls c 5 s1)\<lparr>g_portDisable := False\<rparr> else s1))
         in (data,
             if bit data 7 then (if \<not> g_forceRtPower s2 then pd_calls c 6 (s2\<lparr>g_forceRtPower := True\<rparr>) else s2)
             else (if g_forceRtPower s2 then pd_calls c 7 (s2\<lparr>g_forceRtPower := False\<rparr>) else s2))))"

text \<open>A pulse on a virtual wire: high, low, high, until one fails. \<open>W\<close> answers every send.\<close>

definition send_vw :: "(nat \<Rightarrow> bool) \<Rightarrow> nat \<Rightarrow> bool \<Rightarrow> 'x acpi_scheme \<Rightarrow> bool \<times> 'x acpi_scheme" where
  "send_vw W sig level s = (W (bus_pos s), hemit (Vw_pulse sig level) (s\<lparr>bus_pos := bus_pos s + 1\<rparr>))"

definition vw_pulse :: "(nat \<Rightarrow> bool) \<Rightarrow> nat \<Rightarrow> 'x acpi_scheme \<Rightarrow> bool \<times> 'x acpi_scheme" where
  "vw_pulse W sig s =
     (let (ok1, s1) = send_vw W sig True s in
      if \<not> ok1 then (False, s1)
      else (let (ok2, s2) = send_vw W sig False (hemit (Sleep_ms 10) s1) in
            if \<not> ok2 then (False, s2) else send_vw W sig True (hemit (Sleep_ms 10) s2)))"

definition vwMmio_eventProc :: "(nat \<Rightarrow> bool) \<Rightarrow> bool \<Rightarrow> 'x acpi_scheme \<Rightarrow> 'x acpi_scheme" where
  "vwMmio_eventProc W ready s =
     (let (ok1, s1) = (if bit (s_vw_mmio_val s) 0 then (if ready then vw_pulse W 0 s else (False, s)) else (True, s)) in
      if \<not> ok1 then s1\<lparr>s_vw_mmio_status := 0xE2\<rparr>
      else
        (let (ok2, s2) = (if bit (s_vw_mmio_val s1) 1 then (if ready then vw_pulse W 1 s1 else (False, s1)) else (True, s1))
         in s2\<lparr>s_vw_mmio_status := (if ok2 then 0xAC else 0xE2)\<rparr>))"

definition ACPI_VW_MMIO_Handler :: "bool \<Rightarrow> u8 \<Rightarrow> u8 \<Rightarrow> 'x acpi_scheme \<Rightarrow> u8 \<times> u8 \<times> 'x acpi_scheme" where
  "ACPI_VW_MMIO_Handler isRead idx data s =
     (if idx \<ge> 0x31 then (0, data, s)
      else if idx = 0x30 then (1, data, s)
      else if isRead then
        (1, if idx = 0 then s_vw_mmio_val s
            else if idx = 1 then s_vw_mmio_status s
            else if idx \<le> 5 then gs_eSpiMmioSpace (env s) ! (unat idx - 2)
            else if idx \<le> 13 then gs_eSpiMmioSpace (env s) ! (0x50 + unat idx - 6)
            else 0, s)
      else if idx = 0 then
        (let s1 = s\<lparr>s_vw_mmio_val := data\<rparr> in
         (1, data, if data = 0 then s1\<lparr>s_vw_mmio_status := 0xAC\<rparr>
                   else if data \<in> {1, 2, 3} then hemit Vw_mmio_work (s1\<lparr>s_vw_mmio_status := 0xCC\<rparr>)
                   else s1\<lparr>s_vw_mmio_status := 0xE2\<rparr>))
      else (1, data, s))"

text \<open>The light sensor: six values of two bytes, each taken when its high byte is read.\<close>

definition app_opt4048_acpi_handler :: "bool \<Rightarrow> u8 \<Rightarrow> u8 \<Rightarrow> 'x acpi_scheme \<Rightarrow> u8 \<times> u8 \<times> 'x acpi_scheme" where
  "app_opt4048_acpi_handler isRead idx data s =
     (if \<not> isRead then (0, data, s)
      else
        (let i = (if idx \<in> {0xFC, 0xFD} then idx - 0xFC else idx) in
         if i \<ge> 12 then (0, 0, s)
         else if bit i 0 then
           (let v = als_data (env s) ! (unat i div 2)
            in (0, hi v, on_lat (\<lambda>l. l\<lparr>lat_als := (lat_als l)[unat i div 2 := v]\<rparr>) s))
         else (0, lo (lat_als (lat s) ! (unat i div 2)), s)))"

definition app_opt4048_acpi_wrapper :: "'x reg_handler" where
  "app_opt4048_acpi_wrapper isRead idx data s = snd (app_opt4048_acpi_handler isRead idx data s)"

section \<open>The table and the planes\<close>

record 'x ext_handlers =
  acpi_brdIdExpField_Handler :: "'x reg_handler"
  Board_Gpio_AcpiHandler :: "'x reg_handler"
  ACPIThermalHandler :: "'x reg_handler"

definition regs :: "u8 \<Rightarrow> nat \<Rightarrow> 'x reg_handler \<Rightarrow> 'x acpi_scheme acpi_table" where
  "regs base n h = map (\<lambda>i. \<lparr>ui8Register = base + of_nat i, pfnHandler = Some h\<rparr>) [0 ..< n]"

definition battery_regs :: "acpi_cfg \<Rightarrow> 'x acpi_scheme acpi_table" where
  "battery_regs c =
     regs 0xD0 2 ACPIBatteryMeasurementAccuracyHandler @ regs 0xD2 2 ACPIBatteryLowHandler @
     regs 0xD4 2 ACPIBatteryCriticalHandler @ regs 0xD6 2 ACPIBatteryTripPointHandler @
     regs 0xD8 2 ACPIBatteryTemperatureHandler @ regs 0xDA 2 ACPIBatteryMaxErrorHandler @
     regs 0xDC 2 ACPIBatteryCycleCountHandler @ regs 0xDE 2 (ACPIBatteryCurrentHandler c) @
     regs 0xE0 2 (ACPIBatteryVoltageHandler c) @ regs 0xE2 2 ACPIBatteryDesignVoltageHandler @
     regs 0xE4 2 ACPIBatteryRemainingCapacityHandler @ regs 0xE6 2 ACPIBatteryFullChargeCapacityHandler @
     regs 0xE8 2 (ACPIBatteryDesignCapacityHandler c) @ regs 0xEA 1 ACPIBatteryChargeThrottle @
     regs 0xEB 1 ACPIBatteryCountHandler @ regs 0xEC 1 ACPIBatterySelectHandler @
     regs 0xED 1 ACPIBatteryStatusHandler @ regs 0xEE 1 (ACPIChargerStatusHandler c) @ regs 0xEF 1 ACPIBatteryAlertHandler"

definition g_sAPCIHandlerTable :: "acpi_cfg \<Rightarrow> 'x ext_handlers \<Rightarrow> 'x acpi_scheme acpi_table" where
  "g_sAPCIHandlerTable c x =
     regs 0x5F 1 AcpiFakeNotifyQueueHandler @
     (if cfg_dac c then regs 0x90 3 ACPI_PMIC_TunnelHandler else []) @
     regs 0x93 10 (acpi_brdIdExpField_Handler x) @ regs 0x9D 20 (Board_Gpio_AcpiHandler x) @
     (if cfg_thermal c then regs 0xB2 1 (ProchotSetting00 c) else []) @
     regs 0xB3 1 (ProchotSetting01 c) @ regs 0xB4 1 (ProchotSetting02 c) @ regs 0xB5 1 (ProchotSetting03 c) @
     regs 0xB6 1 (SW01 c) @ regs 0xB7 1 (SW02 c) @ regs 0xB8 5 AcpiEcVersionHandler @
     regs 0xBD 4 AcpiEcBuildDateHandler @ regs 0xC1 6 AcpiEcBuildTimeHandler @
     regs 0xC7 1 (ACPIDCTimeHandler c) @ regs 0xC8 1 (ACPIACTimeHandler c) @
     regs 0xCB 1 ACPIEcEventFlagsHandler1 @ regs 0xCC 1 ACPIEcEventFlagsHandler2 @
     regs 0xCD 1 (SW03 c) @ regs 0xCE 1 (SW04 c) @ regs 0xCF 1 (ACPIMiscStatusControlHandler c) @
     (if cfg_battery c then battery_regs c else []) @
     regs 0xF0 1 ACPI_aslGpFlag @ regs 0xF1 1 (ACPI_uPepHook c) @
     (if cfg_thermal c then regs 0xF2 10 (ACPIThermalHandler x) else []) @
     (if cfg_als c then regs 0xFC 2 app_opt4048_acpi_wrapper else []) @
     (if cfg_usbpd c then regs 0xFE 1 (ACPI_UsbStatus c) else []) @
     regs 0xFF 1 (SW05 c)"

text \<open>
  The planes, in the order of their registration: the fixed table, then planes with one function,
  given by their number; those of other modules are a parameter.
\<close>

fun register_all :: "(u8 \<times> 's acpi_launcher) list \<Rightarrow> 's acpiplanes \<Rightarrow> 's acpiplanes res" where
  "register_all [] p = Inr p"
| "register_all ((n, f) # fs) p =
     (case md_acpiplanes_register_fun f n p of Inl e \<Rightarrow> Inl e | Inr (ok, p') \<Rightarrow> register_all fs p')"

definition ACPI_planeInit ::
  "acpi_cfg \<Rightarrow> 'x ext_handlers \<Rightarrow> (u8 \<times> 'x acpi_scheme acpi_launcher) list \<Rightarrow> (u8 \<times> 'x acpi_scheme acpi_launcher) list \<Rightarrow>
     'x acpi_scheme acpiplanes \<Rightarrow> 'x acpi_scheme acpiplanes res" where
  "ACPI_planeInit c x before after p =
     (case md_acpiplanes_register_tab (g_sAPCIHandlerTable c x) (of_nat (length (g_sAPCIHandlerTable c x)))
             MD_ACPI_HYPERPLANE_FIXED_PLANE_ID p of
        Inl e \<Rightarrow> Inl e
      | Inr (ok, p1) \<Rightarrow>
          register_all (before @ [(0xF4, ACPI_VW_MMIO_Handler)] @ after @
            (if cfg_als c then [(0xB2, app_opt4048_acpi_handler)] else [])) p1)"

end
