(* ===== verification/Ec_demo.thy ===== *)
theory Ec_demo
  imports Acpi_regs
begin

text \<open>
  A concrete state of the host-side components and a concrete build, for evaluating the properties
  of the battery, the AC/DC switch and the registers on it.
\<close>

definition demo_ins :: bat_ins where
  "demo_ins = \<lparr>btyFlag = 1, u16ThresholdBtyWarning = 0, u16ThresholdBtyLow = 0, u16ThresholdBtyCritical = 0,
     u16ThresholdBtyTripPoint = 3000, u8ChargeThrottle = 0xFF, u16LastRemainingCapicity = 2990, btyLastFlag = 1, u32ErrCnt = 0\<rparr>"

definition demo_latches :: latches where
  "demo_latches = \<lparr>lat_low = 0, lat_critical = 0, lat_trip = 0, lat_temperature = 0, lat_maxerror = 0, lat_cycle = 0,
     lat_current = 0, lat_voltage = 0, lat_designVoltage = 0, lat_remaining = 0, lat_full = 0, lat_rsvd = 0,
     lat_designCapacity = 0, lat_accuracy = 0, lat_als = replicate 6 0\<rparr>"

definition demo_env :: acpi_env where
  "demo_env = \<lparr>hasAcPowerSource = True, alartStatus = 0, remainingCapacity = 3000, fullChargeCapacity = 4000,
     fullChargeVoltage = 12600, isFchPwrBtnNotifyEnabled = False, als_data = replicate 6 0, g_lidCloseEnabled = True,
     skinTemp = 40, usbc_devID = PD_TIx, gs_eSpiMmioSpace = replicate 256 0\<rparr>"

definition demo_acpi :: acpi where
  "demo_acpi = \<lparr>str0 = 0, polls = 0, sci_msgq = [], sci_enabled = True, acpi_mode = True, g_ui8MondernStandbySupport = False,
     systemState = SYSTEM_S0_STATE, s_fakeEventId = 0, g_isUcsiCycleFinished = True, host_evs = [],
     nv = (\<lambda>_. 0), nv_hasUpdate = False,
     bus_pos = 0, s_batBuf = s_battery0 False, s_platform_btyBufTable = [],
     s_smtbty_i2c_bus_errCount = replicate 5 \<lparr>slaveAddr = 0, continuousErrCount = 0, maxContinuousErrCount = 0\<rparr>,
     s_u16ReservedBtyCapacity = 0,
     s_u32BtyTrippedBitMap = 0, s_u8SmtBtyInitFlag = True, s_u8SelectedBattery = 0, s_batIns = demo_ins, s_cachedBtyFlag = 1,
     g_batPresentFlag = True, s_preBtyPresent = True, btyDetachDebounce = 0, g_batteryIsReadyToGo = True,
     s_smtbty_chgSt = APP_CHG_REACTIVATING, oldChgSt = APP_CHG_REACTIVATING, s_smtbty_reactivingCounter = 0,
     s_smtbty_batteryResponseCounter = 0, s_oldVoltage = 0, s_oldCurrent = 0, s_skippedLoops = 0, s_skippedChgDisLoops = 0,
     u8skippedLoops = 0, proc_inited = True, mmio_charger_status = 0, smtbty_dbg_flag = 0, smtbty_dbg_vector = replicate 32 0,
     g_ui8AC_Time_cnt = 0, g_ui8DC_Time_cnt = 0, g_ui8Virtual_ACDC_STATUS = 0, g_LoadfakeBatteryData = False,
     g_bACDC_ACMode = False, g_bACDC_ACEvent = False, g_bACDC_DCMode = True, g_bACDC_DCEvent = True, chg_acok = None, slp_ready = False,
     lat = demo_latches, env = demo_env, g_slyType = 0, g_allow_BiosInfo_MacAddr_Report = True, g_slideToShutdownEnabled = False,
     ecResetAfterSetOptions = False, g_u8EcStateFlags = 0, g_aslGpFlags = 0, g_uPepHook = 0, g_usb4Disable = False,
     g_tbt3Disable = False, g_portDisable = False, g_forceRtPower = False, g_biosDebugLogEnable = False, s_alignPostCode = False,
     g_smartMuxSetting = 0, g_isThrottleApuInAcOnly = False, g_isThrottleApuInDcOnly = False, g_p3tConfigLimit = 0,
     g_ucsiTunnelEnabled = False, g_auxD3Cold = 0, g_ui8CpuType = 0, g_WAIE_RITE = False, g_pmfStatus = 0, g_hotBagEnabled = False,
     g_powerSeq_criticalZone = False, g_S5AlwEnFlag = False, g_thermtripForceG3 = False, postcode_sts = False, s_vw_mmio_val = 0,
     s_vw_mmio_status = 0, s_pmic_addr = 0, s_pmic_idx = 0, s_pmic_val = 0, s_pmic_status = 0, gpio_null_cc = 0\<rparr>"

definition demo_acpi_cfg :: acpi_cfg where
  "demo_acpi_cfg = \<lparr>bits = nv_bits_mdsplum, cfg_thermal = True, cfg_battery = True, cfg_charger = True, cfg_acdc = True,
     cfg_ucsi = True, cfg_sfh = True, cfg_hotbag = True, cfg_s5alw = False, cfg_isDM = False, cfg_sleep = True,
     cfg_dac = True, cfg_usbpd = True, cfg_4cc = True, cfg_ccgx = False, cfg_triport = False, cfg_als = True, cfg_pwm = True\<rparr>"

definition demo_ext :: "'x ext_handlers" where
  "demo_ext = \<lparr>acpi_brdIdExpField_Handler = AcpiGpioHandler_NULL, Board_Gpio_AcpiHandler = AcpiGpioHandler_NULL,
     ACPIThermalHandler = AcpiGpioHandler_NULL\<rparr>"

definition demo_planes0 :: "'s acpiplanes" where
  "demo_planes0 = \<lparr>s_xAcpiPlanes = [], gs_acpiPlanesId = 0xFF, ui8AcpiSelectorUpdate = 0, gs_pCurTab = None, gs_tabSize = 0,
     gs_pCurFun = None, gs_pFixedPlane = None, gs_fixedPlaneTabSize = 0, gs_pFixedFun = None\<rparr>"

lemma demo_nv_wf: "nv_wf b demo_acpi"
  by (simp add: nv_wf_def demo_acpi_def)

end
