(* ===== verification/Acpi_Props.thy ===== *)
theory Acpi_Props
  imports Ec_demo Smchost_Props "HOL-Library.Sublist"
begin

text \<open>
  The register space as the host sees it. The table of every build is ascending and ends with the
  last register, so the dispatcher finds every handler and never reads behind the table, whatever
  the host sends; the switch registers read back what was written; registers of two bytes are
  transferred whole; and a byte written through the ports reaches its option and is read back.
\<close>

section \<open>The table\<close>

lemma sorted_wrt_subseq: "subseq xs ys \<Longrightarrow> sorted_wrt P ys \<Longrightarrow> sorted_wrt P xs"
  by (induction rule: list_emb.induct) (auto elim: list_emb_set)

text \<open>The table of the build with everything in it, and any other as a part of it.\<close>

definition full_cfg :: "acpi_cfg \<Rightarrow> acpi_cfg" where
  "full_cfg c = c\<lparr>cfg_thermal := True, cfg_battery := True, cfg_dac := True, cfg_als := True, cfg_usbpd := True\<rparr>"

definition tab_regs :: "acpi_cfg \<Rightarrow> 'x ext_handlers \<Rightarrow> u8 list" where
  "tab_regs c x = map ui8Register (g_sAPCIHandlerTable c x)"

lemma map_regs: "map ui8Register (regs b n h) = map (\<lambda>i. b + of_nat i) [0 ..< n]"
  by (simp add: regs_def)

lemma subseq_if: "subseq (if b then xs else []) xs"
  by simp

lemma full_cfg_simps [simp]:
  "cfg_thermal (full_cfg c)" "cfg_battery (full_cfg c)" "cfg_dac (full_cfg c)" "cfg_als (full_cfg c)" "cfg_usbpd (full_cfg c)"
  by (simp_all add: full_cfg_def)

lemma tab_regs_subseq: "subseq (tab_regs c x) (tab_regs (full_cfg c) x)"
  unfolding tab_regs_def g_sAPCIHandlerTable_def battery_regs_def map_append if_distrib [of "map ui8Register"] list.map map_regs
  by (simp only: full_cfg_simps if_True) (intro list_emb_append_mono subseq_order.refl subseq_if)

lemma tab_regs_full:
  "tab_regs (full_cfg c) x = 0x5F # map word_of_nat ([0x90 ..< 0xB1] @ [0xB2 ..< 0xC9] @ [0xCB ..< 0x100])"
  by (simp add: tab_regs_def g_sAPCIHandlerTable_def battery_regs_def map_regs upt_rec_numeral upt_rec [of 0 "numeral k" for k] upt_rec [of "Suc 0" "numeral k" for k] numeral_2_eq_2 [symmetric])


lemma word_of_nat_ascending:
  "sorted_wrt (<) ns \<Longrightarrow> \<forall>n \<in> set ns. n < 2 ^ LENGTH('a) \<Longrightarrow> sorted_wrt (<) (map (word_of_nat :: nat \<Rightarrow> 'a::len word) ns)"
  by (induction ns) (auto simp: of_nat_word_less_iff take_bit_nat_eq_self)

lemma three_ranges:
  "n < a \<Longrightarrow> n < c \<Longrightarrow> n < e \<Longrightarrow> b \<le> c \<Longrightarrow> b \<le> e \<Longrightarrow> d \<le> e \<Longrightarrow> n < m \<Longrightarrow> b \<le> m \<Longrightarrow> d \<le> m \<Longrightarrow> f \<le> m \<Longrightarrow>
     sorted_wrt (<) (n # [a ..< b] @ [c ..< d] @ [e ..< f]) \<and> (\<forall>k \<in> set (n # [a ..< b] @ [c ..< d] @ [e ..< f]). k < (m :: nat))"
  by (auto simp: sorted_wrt_append)

lemma tab_regs_ascending: "sorted_wrt (<) (tab_regs c x)"
proof (rule sorted_wrt_subseq [OF tab_regs_subseq])
  let ?ns = "0x5F # [0x90 ..< 0xB1] @ [0xB2 ..< 0xC9] @ [0xCB ..< 0x100]"
  have "sorted_wrt (<) ?ns \<and> (\<forall>k \<in> set ?ns. k < (2 ^ LENGTH(8) :: nat))" by (rule three_ranges) simp_all
  then have "sorted_wrt (<) (map (word_of_nat :: nat \<Rightarrow> u8) ?ns)" by (intro word_of_nat_ascending) blast+
  then show "sorted_wrt (<) (tab_regs (full_cfg c) x)" unfolding tab_regs_full by (simp only: list.map of_nat_numeral)
qed

lemma tab_length: "length (g_sAPCIHandlerTable c x) \<le> 114"
proof -
  have "length (tab_regs c x) \<le> length (tab_regs (full_cfg c) x)"
    by (rule list_emb_length [OF tab_regs_subseq])
  then show ?thesis unfolding tab_regs_full by (simp add: tab_regs_def del: upt_rec_numeral)
qed

lemma tab_last: "g_sAPCIHandlerTable c x \<noteq> [] \<and> ui8Register (last (g_sAPCIHandlerTable c x)) = 0xFF"
  by (simp add: g_sAPCIHandlerTable_def regs_def)

lemma nth_tab_regs: "i < length (g_sAPCIHandlerTable c x) \<Longrightarrow> ui8Register (g_sAPCIHandlerTable c x ! i) = tab_regs c x ! i"
  by (simp add: tab_regs_def)

lemma tab_size: "unat (of_nat (length (g_sAPCIHandlerTable c x)) :: u8) = length (g_sAPCIHandlerTable c x)"
  using tab_length [of c x] by (simp add: unat_of_nat)

lemma handler_table_ok: "tab_ok (Some (g_sAPCIHandlerTable c x)) (of_nat (length (g_sAPCIHandlerTable c x)))"
proof -
  let ?t = "g_sAPCIHandlerTable c x"
  have "ui8Register (?t ! i) < ui8Register (?t ! j)" if "i < j" "j < length ?t" for i j
  proof -
    have "tab_regs c x ! i < tab_regs c x ! j"
      by (rule sorted_wrt_nth_less [OF tab_regs_ascending that(1)]) (simp add: tab_regs_def that(2))
    with that show ?thesis by (simp add: nth_tab_regs)
  qed
  then have asc: "ascending ?t (length ?t)" unfolding ascending_def by blast
  have lst: "ui8Register (?t ! (length ?t - 1)) = 0xFF" and ne: "0 < length ?t"
    using tab_last [of c x] last_conv_nth [of ?t] by auto
  have "idx \<le> 0xFF" for idx :: u8 using unsigned_less [of idx, where ?'a = nat] by (simp add: word_le_nat_alt)
  then have "covered ?t (length ?t) idx" for idx
    unfolding covered_def lst using ne by blast
  with asc show ?thesis unfolding tab_ok_def tab_size by blast
qed

text \<open>An entry of the table is the handler of its register.\<close>

lemma tab_ascending: "ascending (g_sAPCIHandlerTable c x) (length (g_sAPCIHandlerTable c x))"
  using handler_table_ok [of c x] tab_last [of c x] tab_size [of c x] by (auto simp: tab_ok_def unat_eq_0)

lemma tab_entry:
  assumes "en \<in> set (g_sAPCIHandlerTable c x)"
  shows "tab_handler (g_sAPCIHandlerTable c x) (length (g_sAPCIHandlerTable c x)) (ui8Register en) = pfnHandler en"
proof -
  from assms obtain k where "k < length (g_sAPCIHandlerTable c x)" "g_sAPCIHandlerTable c x ! k = en"
    by (auto simp: in_set_conv_nth)
  with find_take_Some [OF tab_ascending this(1), of "ui8Register en"] show ?thesis by (simp add: tab_handler_def)
qed

text \<open>The fixed plane as the initialisation leaves it.\<close>

definition fixed_plane_set :: "acpi_cfg \<Rightarrow> 'x ext_handlers \<Rightarrow> 'x acpi_scheme acpiplanes \<Rightarrow> bool" where
  "fixed_plane_set c x p \<longleftrightarrow> gs_pFixedPlane p = Some (g_sAPCIHandlerTable c x) \<and>
     gs_fixedPlaneTabSize p = of_nat (length (g_sAPCIHandlerTable c x))"

lemma dispatch_entry:
  assumes "fixed_plane_set c x p" "\<lparr>ui8Register = idx, pfnHandler = Some h\<rparr> \<in> set (g_sAPCIHandlerTable c x)"
    and "MD_ACPI_HYPERPLANE_REGION_END < idx"
  shows "md_acpiplanes_dispatcher isRead idx data (p, s) = (case h isRead idx data s of (d, s') \<Rightarrow> Inr (1, d, p, s'))"
proof -
  have ne: "idx \<noteq> MD_ACPI_HYPERPLANE_SELECTOR_OFFSET"
    using assms(3) by (auto simp: MD_ACPI_HYPERPLANE_REGION_END_def MD_ACPI_HYPERPLANE_SELECTOR_OFFSET_def word_less_nat_alt)
  have nz: "(of_nat (length (g_sAPCIHandlerTable c x)) :: u8) \<noteq> 0"
    using tab_size [of c x] tab_last [of c x] by force
  have "run_plane (Some (g_sAPCIHandlerTable c x)) (of_nat (length (g_sAPCIHandlerTable c x))) f isRead idx data s =
      (case h isRead idx data s of (d, s') \<Rightarrow> Inr (1, d, s'))" for f
    unfolding run_plane_spec [OF handler_table_ok]
    using tab_entry [OF assms(2)] nz tab_size [of c x] by (simp add: plane_spec_def call_handler_def case_prod_beta)
  with assms ne show ?thesis by (simp add: md_acpiplanes_dispatcher_def fixed_plane_set_def case_prod_beta)
qed

section \<open>Initialisation\<close>

lemma tab_ok_none [simp]: "tab_ok None n" "tab_ok t 0"
  by (simp_all add: tab_ok_def)

definition free_slots :: "'s acpi_plane list \<Rightarrow> nat" where
  "free_slots qs = length (filter slot_free qs)"

lemma take_slot_free:
  "0 < free_slots qs \<Longrightarrow> \<forall>q. \<not> slot_free (f q) \<Longrightarrow>
     \<exists>qs'. take_slot f qs = Some qs' \<and> free_slots qs = Suc (free_slots qs')"
  by (induction qs) (auto simp: free_slots_def)

lemma register_fun_ok:
  assumes "planes_ok p" "0 < free_slots (s_xAcpiPlanes p)"
  shows "\<exists>p'. md_acpiplanes_register_fun f n p = Inr (True, p') \<and> planes_ok p' \<and>
     free_slots (s_xAcpiPlanes p) \<le> Suc (free_slots (s_xAcpiPlanes p'))"
proof (cases "n = MD_ACPI_HYPERPLANE_FIXED_PLANE_ID")
  case True
  with assms show ?thesis by (simp add: md_acpiplanes_register_fun_def planes_ok_def)
next
  case False
  let ?f = "\<lambda>q. q\<lparr>planeId := n, pTab := None, pFun := Some f\<rparr>"
  obtain qs where qs: "take_slot ?f (s_xAcpiPlanes p) = Some qs" "free_slots (s_xAcpiPlanes p) = Suc (free_slots qs)"
    using take_slot_free [OF assms(2), of ?f] by (auto simp: slot_free_def)
  from take_slot_split [OF qs(1)] have "set qs \<subseteq> set (s_xAcpiPlanes p) \<union> range ?f" by auto
  with assms(1) have "\<forall>q \<in> set qs. tab_ok (pTab q) (ui8tabSize q)" by (auto simp: planes_ok_def tab_ok_def dest!: subsetD)
  with assms(1) False qs show ?thesis by (simp add: md_acpiplanes_register_fun_def planes_ok_def)
qed

lemma register_all_ok:
  "planes_ok p \<Longrightarrow> length fs \<le> free_slots (s_xAcpiPlanes p) \<Longrightarrow> \<exists>p'. register_all fs p = Inr p' \<and> planes_ok p'"
proof (induction fs arbitrary: p)
  case (Cons nf fs)
  obtain n f where nf: "nf = (n, f)" by (cases nf)
  have "0 < free_slots (s_xAcpiPlanes p)" using Cons.prems(2) by simp
  from register_fun_ok [OF Cons.prems(1) this, of f n] obtain p1 where p1: "md_acpiplanes_register_fun f n p = Inr (True, p1)"
    "planes_ok p1" "free_slots (s_xAcpiPlanes p) \<le> Suc (free_slots (s_xAcpiPlanes p1))" by blast
  then have "length fs \<le> free_slots (s_xAcpiPlanes p1)" using Cons.prems(2) by simp
  from Cons.IH [OF p1(2) this] p1(1) nf show ?case by simp
qed simp

lemma init_free: "free_slots (replicate n no_plane) = n"
  by (simp add: free_slots_def slot_free_def no_plane_def)

lemma planeInit_ok:
  assumes "length before + length after \<le> 23"
  shows "\<exists>p'. ACPI_planeInit c x before after (md_acpiplanes_init p) = Inr p' \<and> planes_ok p'"
proof -
  let ?p1 = "md_acpiplanes_init p\<lparr>gs_pFixedFun := None, gs_pFixedPlane := Some (g_sAPCIHandlerTable c x),
    gs_fixedPlaneTabSize := of_nat (length (g_sAPCIHandlerTable c x))\<rparr>"
  let ?fs = "before @ [(0xF4, ACPI_VW_MMIO_Handler)] @ after @ (if cfg_als c then [(0xB2, app_opt4048_acpi_handler)] else [])"
  have "planes_ok ?p1"
    using handler_table_ok [of c x] by (simp add: planes_ok_def md_acpiplanes_init_def no_plane_def)
  moreover have "length ?fs \<le> free_slots (s_xAcpiPlanes ?p1)"
    using assms by (simp add: md_acpiplanes_init_def init_free MD_ACPI_HYPERPLANE_MAX_PLANES_def)
  ultimately have "\<exists>p'. register_all ?fs ?p1 = Inr p' \<and> planes_ok p'" by (rule register_all_ok)
  then show ?thesis by (simp add: ACPI_planeInit_def md_acpiplanes_register_tab_def)
qed

text \<open>
  C20. Whatever the build options, the handlers of other modules and the planes they register (at
  most 23), the registration of the register space succeeds, and from then on no sequence of bytes
  from the host, in however many wakeups, makes the dispatcher read a register table out of bounds
  or the service loop store outside its buffer.
\<close>

theorem acpi_space_never_faults:
  assumes "length before + length after \<le> 23" "length (host_req s) = 10" "host_req_len s \<le> SMCHOST_MAX_BUF_SIZE"
  shows "\<exists>p'. ACPI_planeInit c x before after (md_acpiplanes_init p) = Inr p' \<and>
     (\<exists>os s'. run_res (smc_step sc) (s\<lparr>planes := p'\<rparr>) is = Inr (os, s') \<and> length os = length is)"
proof -
  obtain p' where p': "ACPI_planeInit c x before after (md_acpiplanes_init p) = Inr p'" "planes_ok p'"
    using planeInit_ok [OF assms(1)] by blast
  with assms have "smc_inv (s\<lparr>planes := p'\<rparr>)" by (simp add: smc_inv_def)
  with p'(1) show ?thesis using smc_port.run_safe [of "s\<lparr>planes := p'\<rparr>" "is" sc] by (auto simp: list_all_iff)
qed

section \<open>Transactions\<close>

text \<open>The interface state when the three bytes of a write have been taken.\<close>

definition ec_write_pre :: "u8 \<Rightarrow> u8 \<Rightarrow> 'x hcore_scheme \<Rightarrow> 'x hcore_scheme" where
  "ec_write_pre idx v h = generate_sci (snd (acpi_read_idr v (generate_sci (snd (acpi_read_idr idx
     (generate_sci (snd (acpi_read_idr EC_WRITE h))))))))"

definition after_cmd :: "'x hcore_scheme \<Rightarrow> 'x hcore_scheme" where
  "after_cmd h = (if sci_pending h then generate_sci (acpi_set_flag ACPI_FLAG_SCIEVENT True h) else h)"

lemma after_byte_write:
  assumes "host_req s ! 0 = EC_WRITE" "host_req_len s \<noteq> 2"
  shows "after_byte c o' s = Inr (s\<lparr>hs := generate_sci (hs s)\<rparr>)"
  using assms by (simp add: after_byte_def Let_def on_hs_def EC_WRITE_def EC_READ_def smchost_req_length_def)

lemma hs_first: "s\<lparr>host_req := q, hs := h\<rparr> = s\<lparr>hs := h, host_req := q\<rparr>" "s\<lparr>host_req_len := n, hs := h\<rparr> = s\<lparr>hs := h, host_req_len := n\<rparr>"
  by simp_all

lemma ec_write_dispatched:
  assumes "length (host_req s) = 10"
    and "md_acpiplanes_dispatcher False idx v (planes s, ec_write_pre idx v (hs s)) = Inr (ret, data, p, h)"
  shows "\<exists>s'. smchost_acpi0_service c o' [(True, EC_WRITE), (False, idx), (False, v)] s = Inr ([], s') \<and>
     planes s' = p \<and> length (host_req s') = 10 \<and> host_req s' ! 0 = 0 \<and> hs s' = after_cmd h"
proof -
  have rl: "smchost_req_length c EC_WRITE = 2" by (simp add: smchost_req_length_def EC_WRITE_def)
  define r1 where "r1 = (host_req s)[0 := EC_WRITE]"
  define r2 where "r2 = r1[1 := idx]"
  define r3 where "r3 = r2[2 := v]"
  have r: "length r1 = 10" "r1 ! 0 = EC_WRITE" "length r2 = 10" "r2 ! 0 = EC_WRITE" "length r3 = 10" "r3 ! 0 = EC_WRITE" "r3 ! 1 = idx"
    "r3 ! 2 = v"
    using assms(1) by (simp_all add: r1_def r2_def r3_def)
  have u: "r1[Suc 0 := idx] = r2" "r2[2 := v] = r3" by (simp_all add: r2_def r3_def)
  define s1 where "s1 = s\<lparr>hs := generate_sci (acpi_set_flag 0x04 True (hs s)), host_req := r1, host_req_len := 1\<rparr>"
  define s2 where "s2 = s1\<lparr>hs := generate_sci (acpi_set_flag 0x04 True (hs s1)), host_req := r2, host_req_len := 2\<rparr>"
  define s3 where "s3 = s2\<lparr>hs := acpi_set_flag 0x04 True (hs s2), host_req := r3\<rparr>"
  have c1: "smchost_acpi0_service c o' ((True, EC_WRITE) # rest) s = smchost_acpi0_service c o' rest s1" for rest
    using r(2) assms(1)
    by (simp add: after_byte_write hs_first service_byte [OF refl] SMCHOST_MAX_BUF_SIZE_def s1_def flip: r1_def)
  have c2: "smchost_acpi0_service c o' ((False, idx) # rest) s1 = smchost_acpi0_service c o' rest s2" for rest
    using r by (simp add: after_byte_write hs_first service_byte [OF refl] SMCHOST_MAX_BUF_SIZE_def s1_def s2_def u)
  have pre: "generate_sci (acpi_set_flag 0x04 True (hs s2)) = ec_write_pre idx v (hs s)"
    by (simp add: ec_write_pre_def s2_def s1_def acpi_read_idr_def)
  have w: "acpi_write_ec (on_hs generate_sci s3) = Inr (s3\<lparr>planes := p, hs := h\<rparr>)"
    using assms(2) r pre by (simp add: acpi_write_ec_def s3_def on_hs_def access s2_def s1_def)
  have a3: "after_byte c o' s3 = Inr (s3\<lparr>planes := p, hs := after_cmd h, host_req := r3[0 := 0]\<rparr>)"
    using w r rl by (simp add: after_byte_def Let_def smchost_cmd_handler_def EC_WRITE_def EC_READ_def s3_def s2_def on_hs_def after_cmd_def)
  have c3: "smchost_acpi0_service c o' [(False, v)] s2 =
      Inr ([], s3\<lparr>planes := p, hs := after_cmd h, host_req := r3[0 := 0], host_req_len := 3\<rparr>)"
    using a3 r by (simp add: service_byte [OF refl] SMCHOST_MAX_BUF_SIZE_def s2_def s3_def u)
  show ?thesis using r by (simp add: c1 c2 c3)
qed

definition demo_full :: "acpi acpiplanes" where
  "demo_full = (let t = g_sAPCIHandlerTable demo_acpi_cfg demo_ext in
     demo_planes0\<lparr>gs_pFixedPlane := Some t, gs_fixedPlaneTabSize := of_nat (length t)\<rparr>)"

text \<open>
  A write transaction on the ports reaches the handler: when the fixed plane is the register
  table of a build and the register lies above the hyperplane, the command 81h, the register and the
  data byte make the register's own handler run exactly once, with this byte; nothing else happens
  but the interrupts of the three bytes and the announcement of a pending event.
\<close>

theorem ec_write_runs_handler:
  assumes "length (host_req s) = 10" "fixed_plane_set c x (planes s)"
    and "\<lparr>ui8Register = idx, pfnHandler = Some h\<rparr> \<in> set (g_sAPCIHandlerTable c x)" "MD_ACPI_HYPERPLANE_REGION_END < idx"
  shows "\<exists>s'. smchost_acpi0_service sc o' [(True, EC_WRITE), (False, idx), (False, v)] s = Inr ([], s') \<and>
     planes s' = planes s \<and> host_req s' ! 0 = 0 \<and> hs s' = after_cmd (snd (h False idx v (ec_write_pre idx v (hs s))))"
  using ec_write_dispatched [where idx = idx and v = v and o' = o' and c = sc, OF assms(1) trans [OF dispatch_entry [OF assms(2,3,4)] case_prod_beta]]
  by blast

definition demo_ec :: "unit acpi_ext acdc_ext bty_ext btydev_ext opts_ext smc" where
  "demo_ec = \<lparr>hs = demo_acpi, planes = demo_full, host_req = replicate 10 0, host_res = replicate 10 0, host_req_len = 0,
     host_res_len = 0, host_res_idx = 0, pltrst_signal_sts = True\<rparr>"

lemma dc_time_entry: "\<lparr>ui8Register = 0xC7, pfnHandler = Some (ACPIDCTimeHandler c)\<rparr> \<in> set (g_sAPCIHandlerTable c x)"
  by (simp add: g_sAPCIHandlerTable_def regs_def)

theorem acpi_space_never_faults_witness:
  "\<exists>p'. ACPI_planeInit demo_acpi_cfg demo_ext [] [] (md_acpiplanes_init demo_full) = Inr p' \<and>
     (\<exists>os s'. run_res (smc_step demo_smc_cfg) (demo_ec\<lparr>planes := p'\<rparr>) [(\<lambda>_. True, [(True, 0x81), (False, 1)]), (\<lambda>_. False, [(True, 0x84)])] =
        Inr (os, s') \<and> length os = 2)"
proof -
  have "length (host_req demo_ec) = 10" "host_req_len demo_ec \<le> SMCHOST_MAX_BUF_SIZE" by (simp_all add: demo_ec_def)
  from acpi_space_never_faults [OF _ this, of "[]" "[]" demo_acpi_cfg demo_ext demo_full demo_smc_cfg
      "[(\<lambda>_. True, [(True, 0x81), (False, 1)]), (\<lambda>_. False, [(True, 0x84)])]"]
  show ?thesis by (simp only: list.size numeral_2_eq_2 add_0_left add_Suc add_0_right le0)
qed

section \<open>Registers of two bytes\<close>

text \<open>
  What a latch and the register behind it promise: storing a value in the latch or in the register
  and reading it back gives the value, and a latch does not disturb the register.
\<close>

definition be16 :: "u8 \<Rightarrow> u8 \<Rightarrow> u16" where
  "be16 h l = push_bit 8 (ucast h) OR ucast l"

lemma byte_masks: "(0xFF :: u16) = mask 8" "(0xFF00 :: u16) = push_bit 8 (mask 8)"
  by (simp_all add: mask_eq_exp_minus_1)

lemma be16_latch: "((ucast l :: u16) AND 0xFF) OR (push_bit 8 (ucast h) AND 0xFF00) = be16 h l"
  unfolding byte_masks by (rule bit_word_eqI) (auto simp: be16_def bit_simps dest: bit_imp_le_length)

lemma be16_hi_lo: "be16 (hi w) (lo w) = w"
  unfolding hi_def lo_def byte_masks be16_def by (rule bit_word_eqI) (auto simp: bit_simps)

locale two_bytes =
  fixes base :: u8
    and getl :: "latches \<Rightarrow> u16" and setl :: "u16 \<Rightarrow> latches \<Rightarrow> latches"
    and getv :: "'x acpi_scheme \<Rightarrow> u16" and setv :: "u16 \<Rightarrow> 'x acpi_scheme \<Rightarrow> 'x acpi_scheme"
    and ok :: "'x acpi_scheme \<Rightarrow> bool"
  assumes get_setl: "getl (setl v l) = v"
    and get_setv: "ok s \<Longrightarrow> getv (setv v s) = v"
    and ok_lat: "ok s \<Longrightarrow> ok (on_lat f s)"
    and ok_setv: "ok s \<Longrightarrow> ok (setv v s)"
    and base_less: "base + 1 \<noteq> base"
begin

lemma write_whole:
  assumes "ok s"
  shows "getv (snd (latch_rw base getl setl getv setv False (base + 1) h
                (snd (latch_rw base getl setl getv setv False base l s)))) = be16 h l"
proof -
  have "ok (on_lat (setl w) (on_lat (setl v) s))" for v w using assms by (intro ok_lat)
  then show ?thesis using base_less
    by (simp add: latch_rw_def Let_def be16_latch get_setl get_setv on_lat_def)
qed

lemma write_ok:
  "ok s \<Longrightarrow> ok (snd (latch_rw base getl setl getv setv isRead i d s))"
  by (simp add: latch_rw_def Let_def ok_lat ok_setv)

lemma read_whole:
  assumes "ok s"
  shows "(let r1 = latch_rw base getl setl getv setv True (base + 1) d1 s;
              r2 = latch_rw base getl setl getv setv True base d2 (snd r1)
          in be16 (fst r1) (fst r2)) = getv s"
  using base_less by (simp add: latch_rw_def Let_def be16_hi_lo get_setl on_lat_def)

end

text \<open>The thresholds of a selected battery that exists.\<close>

definition sel_ok :: "'x bty_scheme \<Rightarrow> bool" where
  "sel_ok s \<longleftrightarrow> s_u8SelectedBattery s < MAX_BATTERY_SUPPORTED"

named_theorems seldefs \<comment> \<open>the accessors of the selected battery, unfolded\<close>

declare sel_ok_def [seldefs] sel_get_def [seldefs] sel_set_def [seldefs] bty_get_def [seldefs] bty_set_def [seldefs]
  app_battery_selectedGet_def [seldefs] on_ins_def [seldefs] on_lat_def [seldefs]
  app_battery_lowThresholdGet_def [seldefs] app_battery_lowThresholdSet_def [seldefs]
  app_battery_criticalThresholdGet_def [seldefs] app_battery_criticalThresholdSet_def [seldefs]
  app_battery_tripPointGet_def [seldefs] app_battery_tripPointSet_def [seldefs] app_battery_clearTrippedFlag_def [seldefs]

interpretation low_reg: two_bytes "0xD2" lat_low "\<lambda>v l. l\<lparr>lat_low := v\<rparr>" "sel_get app_battery_lowThresholdGet 0"
    "sel_set app_battery_lowThresholdSet" sel_ok
  by unfold_locales (simp_all add: seldefs)

interpretation critical_reg: two_bytes "0xD4" lat_critical "\<lambda>v l. l\<lparr>lat_critical := v\<rparr>" "sel_get app_battery_criticalThresholdGet 0"
    "sel_set app_battery_criticalThresholdSet" sel_ok
  by unfold_locales (simp_all add: seldefs)

interpretation trip_reg: two_bytes "0xD6" lat_trip "\<lambda>v l. l\<lparr>lat_trip := v\<rparr>" "sel_get app_battery_tripPointGet 0"
    "\<lambda>v s. sel_set app_battery_tripPointSet v (app_battery_clearTrippedFlag (app_battery_selectedGet s) s)" sel_ok
  by unfold_locales (simp_all add: seldefs)

text \<open>
  The battery thresholds are transferred whole: writing the low byte and then the high byte of
  the low, critical or trip point register gives the selected battery exactly that threshold of two
  bytes, and reading the high byte and then the low byte yields the threshold the battery has.
\<close>

theorem threshold_registers_whole:
  assumes "s_u8SelectedBattery s < MAX_BATTERY_SUPPORTED"
  shows "u16ThresholdBtyLow (s_batIns (snd (ACPIBatteryLowHandler False 0xD3 h (snd (ACPIBatteryLowHandler False 0xD2 l s))))) = be16 h l \<and>
    u16ThresholdBtyCritical (s_batIns (snd (ACPIBatteryCriticalHandler False 0xD5 h (snd (ACPIBatteryCriticalHandler False 0xD4 l s))))) = be16 h l \<and>
    u16ThresholdBtyTripPoint (s_batIns (snd (ACPIBatteryTripPointHandler False 0xD7 h (snd (ACPIBatteryTripPointHandler False 0xD6 l s))))) = be16 h l \<and>
    (let r = ACPIBatteryTripPointHandler True 0xD7 d s in be16 (fst r) (fst (ACPIBatteryTripPointHandler True 0xD6 d (snd r)))) =
      u16ThresholdBtyTripPoint (s_batIns s)"
proof -
  have ok: "sel_ok s" using assms by (simp add: sel_ok_def)
  have get: "sel_get (bty_get f) 0 s' = f (s_batIns s')" if "sel_ok s'" for f :: "bat_ins \<Rightarrow> u16" and s' :: "'x acpi_scheme"
    using that by (simp add: seldefs)
  note defs = ACPIBatteryLowHandler_def ACPIBatteryCriticalHandler_def ACPIBatteryTripPointHandler_def
    app_battery_lowThresholdGet_def app_battery_criticalThresholdGet_def app_battery_tripPointGet_def
  show ?thesis
    using low_reg.write_whole [OF ok, of h l] get [OF low_reg.write_ok [OF low_reg.write_ok [OF ok]]]
      critical_reg.write_whole [OF ok, of h l] get [OF critical_reg.write_ok [OF critical_reg.write_ok [OF ok]]]
      trip_reg.write_whole [OF ok, of h l] get [OF trip_reg.write_ok [OF trip_reg.write_ok [OF ok]]]
      trip_reg.read_whole [OF ok, of d d] get [OF ok]
    by (simp add: defs Let_def)
qed

section \<open>Switches\<close>

text \<open>Setting an option that has a bit, as one update.\<close>

lemma opt_set_eq:
  "0 < bits c n \<Longrightarrow> opt_set c n b s =
     s\<lparr>nv := (nv s)(n := of_bool b), nv_hasUpdate := nv_hasUpdate s \<or> nv s n \<noteq> of_bool b\<rparr>"
  by (cases "nv s n = of_bool b") (simp_all add: opt_set_def SET_NV_OPTIONS_def take_bit_flag fun_upd_idem)

lemma byte_eqI:
  fixes a b :: u8
  assumes "bit a 0 = bit b 0" "bit a 1 = bit b 1" "bit a 2 = bit b 2" "bit a 3 = bit b 3"
    "bit a 4 = bit b 4" "bit a 5 = bit b 5" "bit a 6 = bit b 6" "bit a 7 = bit b 7"
  shows "a = b"
proof (rule bit_word_eqI)
  fix n assume "n < LENGTH(8)"
  then have "n \<in> {0, 1, 2, 3, 4, 5, 6, 7}" by auto
  with assms show "bit a n = bit b n" by blast
qed

lemma bit_put: "bit (put_bit (m, b) w) n = (if m = n then b \<and> n < 8 else bit w n)"
  by (auto simp: put_bit_def bit_simps dest: bit_imp_le_length)

lemma SW01_read_back:
  assumes "\<forall>n \<in> {chg_UseNvdcMode, thm_uploadOnboardTemp, thm_uploadEvalCardTemp, f_wirelessManagability, f_s0i3KbcWake,
    pwr_keepWlanPwrInS3, pwr_keepWlanPwrInS4}. 0 < bits c n"
  shows "fst (SW01 c True i d (snd (SW01 c False i data s))) = (if cfg_ucsi c then data else put_bit (1, False) data)"
  using assms
  by (intro byte_eqI) (simp_all add: SW01_def Let_def opt_set_eq hemit_def opt_on_def GET_NV_OPTIONS_def byte_of_def bit_put)

lemma SW02_read_back:
  assumes "\<forall>n \<in> {espi_ResetInS0i3, chg_AcOnlyProchot, pwr_SSD0D3Cold, pwr_SSD1D3Cold, chg_DcOnlyProchot}. 0 < bits c n"
  shows "fst (SW02 c True i d (snd (SW02 c False i data s))) = put_bit (2, g_allow_BiosInfo_MacAddr_Report s) data"
  using assms
  by (intro byte_eqI) (simp_all add: SW02_def Let_def opt_set_eq hemit_def prochot_event_def opt_on_def GET_NV_OPTIONS_def byte_of_def bit_put)

lemma SW03_read_back:
  assumes "0 < bits c f_TurnOnPostCode"
  shows "fst (SW03 c True i d (snd (SW03 c False i data s))) = data"
  using assms
  by (intro byte_eqI) (simp_all add: SW03_def Let_def opt_set_eq hemit_def opt_on_def GET_NV_OPTIONS_def bit_put byte_of_def
     postcode_on_def postcode_off_def put_d3_def bit_simps)

lemma bit_times_2: "bit (w * 2) n = (n \<noteq> 0 \<and> n < 8 \<and> bit (w :: u8) (n - 1))"
  by (auto simp: mult.commute [of w 2] bit_double_iff dest: bit_imp_le_length)

lemma SW04_read_back:
  assumes "\<not> cfg_isDM c"
  shows "fst (SW04 c True i d (snd (SW04 c False i data s))) = data AND 0x8F"
  using assms
  by (intro byte_eqI) (simp_all add: SW04_def Let_def SET_NV_OPTIONS_def bit_times_2 bit_put byte_of_def put_d3_def bit_simps,
     simp_all add: numeral_2_eq_2 numeral_3_eq_3)

text \<open>
  C21. The switch registers read back what was written: when the board declares the options behind
  them, reading a switch register after writing it yields the written byte, but for the bits that
  cannot be written: the tunnel bit of the first register without the tunnel, the report bit of the
  second, and bits 4 to 6 of the fourth, whose processor type can be set on a platform that is not
  a desktop.
\<close>

theorem switch_registers_read_back:
  assumes "\<forall>n \<in> {chg_UseNvdcMode, thm_uploadOnboardTemp, thm_uploadEvalCardTemp, f_wirelessManagability, f_s0i3KbcWake,
      pwr_keepWlanPwrInS3, pwr_keepWlanPwrInS4, espi_ResetInS0i3, chg_AcOnlyProchot, pwr_SSD0D3Cold, pwr_SSD1D3Cold,
      chg_DcOnlyProchot, f_TurnOnPostCode}. 0 < bits c n" "\<not> cfg_isDM c"
  shows "(fst (SW01 c True i d (snd (SW01 c False i data s))) = (if cfg_ucsi c then data else put_bit (1, False) data)) \<and>
    fst (SW02 c True i d (snd (SW02 c False i data s))) = put_bit (2, g_allow_BiosInfo_MacAddr_Report s) data \<and>
    fst (SW03 c True i d (snd (SW03 c False i data s))) = data \<and>
    fst (SW04 c True i d (snd (SW04 c False i data s))) = data AND 0x8F"
  using assms by (simp_all add: SW01_read_back SW02_read_back SW03_read_back SW04_read_back)

theorem switch_registers_read_back_witness:
  "fst (SW02 demo_acpi_cfg True 0 0 (snd (SW02 demo_acpi_cfg False 0 0xA5 demo_acpi))) = 0xA5"
proof -
  have "\<forall>n \<in> {chg_UseNvdcMode, thm_uploadOnboardTemp, thm_uploadEvalCardTemp, f_wirelessManagability, f_s0i3KbcWake,
      pwr_keepWlanPwrInS3, pwr_keepWlanPwrInS4, espi_ResetInS0i3, chg_AcOnlyProchot, pwr_SSD0D3Cold, pwr_SSD1D3Cold,
      chg_DcOnlyProchot, f_TurnOnPostCode}. 0 < bits demo_acpi_cfg n" "\<not> cfg_isDM demo_acpi_cfg"
    by (simp_all add: demo_acpi_cfg_def nv_bits_mdsplum_def)
  from switch_registers_read_back [OF this, of 0 0 "0xA5" demo_acpi] show ?thesis
    by (simp add: put_bit_def demo_acpi_def set_bit_eq_or)
qed

end
