(* ===== verification/Charge_Props.thy ===== *)
theory Charge_Props
  imports Ec_demo
begin

text \<open>
  The charging decision. A battery that does not answer is given up or found within 1802 rounds;
  when a round of the charger ends with charging disabled; which readings raise the trip flag, and
  that a reading of 0 hides a crossing.
\<close>

section \<open>What an access to the battery keeps\<close>

definition keys :: "reg_item list \<Rightarrow> (u8 \<times> nat) list" where
  "keys = map (\<lambda>x. (reg x, accessType x))"

lemma find_item_keys: "keys xs = keys ys \<Longrightarrow> find_item r i xs = find_item r i ys"
proof (induction xs arbitrary: i ys)
  case (Cons x xs)
  then obtain y zs where "ys = y # zs" "reg y = reg x" "accessType y = accessType x" "keys xs = keys zs"
    by (auto simp: keys_def)
  with Cons.IH show ?case by simp
qed (simp add: keys_def)

lemma keys_update: "reg x = reg (xs ! i) \<Longrightarrow> accessType x = accessType (xs ! i) \<Longrightarrow> keys (xs[i := x]) = keys xs"
  by (simp add: keys_def map_update) (metis (mono_tags, lifting) list_update_beyond list_update_id map_update not_le)

text \<open>The tables' layout, the charging state and the round counter.\<close>

definition frame :: "'x bty_scheme \<Rightarrow> (u8 \<times> nat) list \<times> (u8 \<times> nat) list \<times> chg_status \<times> u32" where
  "frame s = (keys (s_platform_btyBufTable s), keys (s_batBuf s), s_smtbty_chgSt s, s_smtbty_reactivingCounter s)"

definition found_reg :: "u8 \<Rightarrow> 'x bty_scheme \<Rightarrow> bool" where
  "found_reg r s \<longleftrightarrow> dev_smtbty_findRegItem 0 r s \<noteq> None"

lemma found_frame: "frame s = frame s' \<Longrightarrow> found_reg r s = found_reg r s'"
  using find_item_keys [of "s_platform_btyBufTable s" "s_platform_btyBufTable s'" r 0]
    find_item_keys [of "s_batBuf s" "s_batBuf s'" r 0]
  by (simp add: frame_def found_reg_def dev_smtbty_findRegItem_def split: option.split)

lemma put_item_frame:
  "reg x = reg (get_item p s) \<Longrightarrow> accessType x = accessType (get_item p s) \<Longrightarrow> frame (put_item p x s) = frame s"
  by (cases p) (simp_all add: frame_def keys_update)

lemma access_frame:
  "frame (snd (regAccess_read B a r n s)) = frame s" "get_item p (snd (regAccess_read B a r n s)) = get_item p s"
  by (cases p; simp add: regAccess_read_def Let_def dev_smtbty_updateBusErrorCounter_def frame_def hemit_def)+

lemma autoRead_frame: "frame (snd (dev_smtbty_autoRead B p s)) = frame s"
proof -
  obtain a s1 where r: "regAccess_read B BATTERY_I2C_ADDRESS (reg (get_item p s)) (width (get_item p s)) s = (a, s1)" by fastforce
  then have "frame s1 = frame s" "get_item p s1 = get_item p s"
    using access_frame [where B = B and a = BATTERY_I2C_ADDRESS and r = "reg (get_item p s)" and n = "width (get_item p s)" and s = s] by simp_all
  then show ?thesis
    by (simp add: dev_smtbty_autoRead_def Let_def r) (auto simp: put_item_frame Let_def split: option.split)
qed

lemma i32Read_frame:
  assumes "found_reg r s"
  shows "\<exists>v s'. dev_smtbty_i32Read B 0 r s = Inr (v, s') \<and> frame s' = frame s"
proof -
  from assms obtain p where p: "dev_smtbty_findRegItem 0 r s = Some p" by (auto simp: found_reg_def)
  obtain ok s1 where "dev_smtbty_autoRead B p s = (ok, s1)" by fastforce
  with autoRead_frame [of B p s] p show ?thesis
    by (simp add: dev_smtbty_i32Read_def MAX_BATTERY_SUPPORTED_def)
qed

lemma write_charger_frame: "frame (write_charger c B cur v s) = frame s"
  by (simp add: write_charger_def both_writes_def isl9241_i32Write_def hemit_def frame_def)

section \<open>Waking a battery\<close>

definition quiet :: "('x bty_scheme \<Rightarrow> 'x bty_scheme) option \<Rightarrow> bool" where
  "quiet f \<longleftrightarrow> (\<forall>s. frame (call1 f s) = frame s)"

lemma reactivate_ok:
  assumes "found_reg REG_ChargingVoltage s" "found_reg REG_ChargingCurrent s" "quiet (pfnChgEnble cl)"
  shows "\<exists>s'. reactivate c cl B 0 s = Inr s' \<and> frame s' = frame s"
proof -
  let ?s1 = "call1 (pfnChgEnble cl) s"
  have f1: "frame ?s1 = frame s" using assms(3) by (simp add: quiet_def)
  then have "found_reg REG_ChargingVoltage ?s1" using found_frame [OF f1] assms(1) by blast
  from i32Read_frame [OF this] obtain rv s2 where v: "dev_smtbty_i32Read B 0 REG_ChargingVoltage ?s1 = Inr (rv, s2)" "frame s2 = frame ?s1" by blast
  then have "found_reg REG_ChargingCurrent s2" using found_frame f1 assms(2) by metis
  from i32Read_frame [OF this] obtain rc s3 where "dev_smtbty_i32Read B 0 REG_ChargingCurrent s2 = Inr (rc, s3)" "frame s3 = frame s2" by blast
  then obtain rc' s3' where i: "(if rv \<noteq> None then dev_smtbty_i32Read B 0 REG_ChargingCurrent s2 else Inr (None, s2)) = Inr (rc', s3')" "frame s3' = frame s2"
    by (cases "rv \<noteq> None") auto
  have fr: "frame (s3'\<lparr>s_smtbty_batteryResponseCounter := n\<rparr>) = frame s" for n
    using i(2) v(2) f1 by (simp add: frame_def)
  show ?thesis unfolding reactivate_def Let_def v(1) i(1) sum.case prod.case by (simp add: write_charger_frame fr)
qed

text \<open>The rounds of the task, as far as the charger is concerned.\<close>

fun charge_rounds :: "nat \<Rightarrow> smtbty_cfg \<Rightarrow> 'x bty_scheme client \<Rightarrow> bus \<Rightarrow> 'x bty_scheme \<Rightarrow> 'x bty_scheme res" where
  "charge_rounds 0 c cl B s = Inr s"
| "charge_rounds (Suc n) c cl B s =
     (case battery_doCharge c cl B 0 s of Inl e \<Rightarrow> Inl e | Inr (chg, s') \<Rightarrow> charge_rounds n c cl B s')"

lemma reactivating_round:
  assumes "reactive_cfg c" "s_smtbty_chgSt s = APP_CHG_REACTIVATING" "s_smtbty_reactivingCounter s \<le> 1800"
    and "found_reg REG_ChargingVoltage s" "found_reg REG_ChargingCurrent s" "quiet (pfnChgEnble cl)"
  shows "\<exists>chg s'. battery_doCharge c cl B 0 s = Inr (chg, s') \<and>
     (s_smtbty_chgSt s' = APP_CHG_PRE_CHARGE \<or>
      frame s' = frame (s\<lparr>s_smtbty_reactivingCounter := s_smtbty_reactivingCounter s + 1\<rparr>))"
proof -
  obtain s1 where s1: "(if s_smtbty_reactivingCounter s mod 20 = 0 then reactivate c cl B 0 s else Inr s) = Inr s1" "frame s1 = frame s"
    using reactivate_ok [OF assms(4,5,6), of c B] by (cases "s_smtbty_reactivingCounter s mod 20 = 0") auto
  have "\<not> 1800 < s_smtbty_reactivingCounter s" using assms(3) by simp
  then show ?thesis
    using assms(1,2) s1
    by (cases "s_smtbty_batteryResponseCounter s1 > 10")
       (auto simp: battery_doCharge_def MAX_BATTERY_SUPPORTED_def set_chg_def frame_def)
qed

lemma reactivation_within:
  assumes "reactive_cfg c" "quiet (pfnChgEnble cl)"
  shows "s_smtbty_chgSt s = APP_CHG_REACTIVATING \<Longrightarrow> found_reg REG_ChargingVoltage s \<Longrightarrow> found_reg REG_ChargingCurrent s \<Longrightarrow>
     1801 - unat (s_smtbty_reactivingCounter s) = k \<Longrightarrow>
     \<exists>n s'. n \<le> Suc k \<and> charge_rounds n c cl B s = Inr s' \<and> s_smtbty_chgSt s' \<in> {APP_CHG_BATTERY_IS_DEAD, APP_CHG_PRE_CHARGE}"
proof (induction k arbitrary: s)
  case 0
  then have "1800 < s_smtbty_reactivingCounter s" by (simp add: word_less_nat_alt)
  with 0 assms show ?case
    by (intro exI [of _ "Suc 0"]) (simp add: battery_doCharge_def MAX_BATTERY_SUPPORTED_def set_chg_def)
next
  case (Suc k)
  then have le: "s_smtbty_reactivingCounter s \<le> 1800" by (simp add: word_le_nat_alt)
  then have u: "unat (s_smtbty_reactivingCounter s + 1) = unat (s_smtbty_reactivingCounter s) + 1"
    by (simp add: unat_word_ariths(1) word_le_nat_alt)
  obtain chg s' where r: "battery_doCharge c cl B 0 s = Inr (chg, s')"
    "s_smtbty_chgSt s' = APP_CHG_PRE_CHARGE \<or> frame s' = frame (s\<lparr>s_smtbty_reactivingCounter := s_smtbty_reactivingCounter s + 1\<rparr>)"
    using reactivating_round [OF assms(1) Suc.prems(1) le Suc.prems(2,3) assms(2)] by blast
  from r(2) show ?case
  proof
    assume "s_smtbty_chgSt s' = APP_CHG_PRE_CHARGE"
    with r(1) show ?case by (intro exI [of _ "Suc 0"]) simp
  next
    let ?t = "s\<lparr>s_smtbty_reactivingCounter := s_smtbty_reactivingCounter s + 1\<rparr>"
    assume f: "frame s' = frame ?t"
    have "found_reg r ?t = found_reg r s" for r by (simp add: found_reg_def dev_smtbty_findRegItem_def split: option.split)
    then have "found_reg r s' = found_reg r s" for r using found_frame [OF f] by simp
    moreover have "s_smtbty_chgSt s' = APP_CHG_REACTIVATING" "s_smtbty_reactivingCounter s' = s_smtbty_reactivingCounter s + 1"
      using f Suc.prems(1) by (simp_all add: frame_def)
    moreover have "1801 - unat (s_smtbty_reactivingCounter s') = k" using calculation(3) Suc.prems(4) u by simp
    ultimately obtain n s'' where "n \<le> Suc k" "charge_rounds n c cl B s' = Inr s''"
      "s_smtbty_chgSt s'' \<in> {APP_CHG_BATTERY_IS_DEAD, APP_CHG_PRE_CHARGE}"
      using Suc.IH [of s'] Suc.prems(2,3) by blast
    with r(1) show ?case by (intro exI [of _ "Suc n"] exI [of _ s'']) simp
  qed
qed

text \<open>
  C23. Waking a battery ends: whatever the bus answers, a charger in the reactivating state is, after
  at most 1802 rounds without a fault, either charging again (pre-charge) or has declared the battery
  dead. The board's callback that enables the charger must leave the register tables and the state
  of this module alone, and the tables must hold the two registers that are read.
\<close>

theorem reactivation_ends:
  assumes "reactive_cfg c" "quiet (pfnChgEnble cl)" "s_smtbty_chgSt s = APP_CHG_REACTIVATING"
    and "found_reg REG_ChargingVoltage s" "found_reg REG_ChargingCurrent s"
  shows "\<exists>n \<le> 1802. \<exists>s'. charge_rounds n c cl B s = Inr s' \<and> s_smtbty_chgSt s' \<in> {APP_CHG_BATTERY_IS_DEAD, APP_CHG_PRE_CHARGE}"
proof -
  obtain n s' where "n \<le> Suc (1801 - unat (s_smtbty_reactivingCounter s))" "charge_rounds n c cl B s = Inr s'"
      "s_smtbty_chgSt s' \<in> {APP_CHG_BATTERY_IS_DEAD, APP_CHG_PRE_CHARGE}"
    using reactivation_within [OF assms(1,2,3,4,5) refl, of B] by blast
  then show ?thesis by (intro exI [of _ n]) auto
qed

definition demo_smtbty :: smtbty_cfg where
  "demo_smtbty = \<lparr>REACTIVING_VOLTAGE = 11000, REACTIVING_CURRENT = 256, PRECHARGE_THRESHOLD = 100, PRECHARGE_VOLTAGE = 9000,
     PRECHARGE_CURRENT = 256, FULL_CHARGE_VOLTAGE = Some 13000, MAX_CHARGE_CURRENT = 4000, isl9241 = True, dbg_enable = False\<rparr>"

definition demo_client :: "acpi client" where
  "demo_client = \<lparr>pfnNotify = None, pfnPresent = Some (\<lambda>i s. (True, s)), pfnIsAcPresent = Some (\<lambda>s. True), pfnRefresh = None,
     pfnPreProcessing = None, pfnPostProcessing = None, pfnChgEnble = Some (hemit Chg_enable), pfnChgDisable = Some (hemit Chg_disable),
     pfnCharger = None, pfnGetChargeCurrentLimit = None, pfnStatus = None, pfnBatteryLed = None, pfnOnBatteryAttach = None,
     pfnOnBatteryDetach = None\<rparr>"

lemma demo_quiet: "quiet (pfnChgEnble demo_client)"
  by (simp add: quiet_def demo_client_def call1_def frame_def hemit_def)

lemma demo_found: "found_reg REG_ChargingVoltage demo_acpi" "found_reg REG_ChargingCurrent demo_acpi"
  by (simp_all add: found_reg_def dev_smtbty_findRegItem_def demo_acpi_def s_battery0_def item_def REG_ChargingVoltage_def
      REG_ChargingCurrent_def MAX_BATTERY_SUPPORTED_def DEV_SMTBTY_REG_INVALID_def)

theorem reactivation_ends_witness:
  "\<exists>n \<le> 1802. \<exists>s'. charge_rounds n demo_smtbty demo_client (\<lambda>_. None) demo_acpi = Inr s' \<and>
     s_smtbty_chgSt s' \<in> {APP_CHG_BATTERY_IS_DEAD, APP_CHG_PRE_CHARGE}"
  by (rule reactivation_ends [OF _ demo_quiet _ demo_found])
     (simp_all add: demo_acpi_def reactive_cfg_def demo_smtbty_def word_less_nat_alt)

section \<open>Stopping\<close>

text \<open>Over charged, terminate charge, over temperature, fully charged.\<close>

definition stop_alarm :: "u32 option \<Rightarrow> bool" where
  "stop_alarm status \<longleftrightarrow> (\<exists>w. status = Some w \<and> (bit w 15 \<or> bit w 14 \<or> bit w 12 \<or> bit w 5))"

lemma and_mask_nonzero: "w AND m \<noteq> 0 \<longleftrightarrow> (\<exists>n. bit w n \<and> bit m n)" for w m :: "'a::len word"
  by (auto simp: bit_eq_iff bit_simps dest: bit_imp_le_length)

lemma stop_alarm_code:
  "(case status of Some w \<Rightarrow> w AND 0xD000 \<noteq> 0 \<or> w AND 0x0020 \<noteq> 0 | None \<Rightarrow> False) = stop_alarm status"
proof (cases status)
  case (Some w)
  have "list_all (\<lambda>n. bit (0xD000 :: u32) n = (n \<in> {12, 14, 15}) \<and> bit (0x0020 :: u32) n = (n = 5)) [0 ..< 32]" by code_simp
  then have D: "bit (0xD000 :: u32) n = (n \<in> {12, 14, 15})" "bit (0x0020 :: u32) n = (n = 5)" for n
    by (cases "n < 32"; auto simp: list_all_iff dest: bit_imp_le_length)+
  show ?thesis unfolding Some option.case and_mask_nonzero stop_alarm_def D by auto
qed (simp add: stop_alarm_def)

lemma charge_on_ac_stops:
  assumes "dev_smtbty_i32Read B btyId REG_BatteryStatus s = Inr (status, s1)" "throttle_reached btyId s1 = Inr thr"
  shows "\<exists>new s'. charge_on_ac c cl B btyId s = Inr (new, s') \<and> (new = APP_CHG_DISABLE \<longleftrightarrow> stop_alarm status \<or> thr)"
  unfolding charge_on_ac_def assms sum.case prod.case stop_alarm_code
  by (cases "stop_alarm status \<or> thr"; cases status) (simp_all add: Let_def split: prod.split option.split)

text \<open>The state with which the normal decision starts.\<close>

definition normal_start :: "smtbty_cfg \<Rightarrow> 'x bty_scheme \<Rightarrow> 'x bty_scheme" where
  "normal_start c s = (if reactive_cfg c then s\<lparr>s_smtbty_reactivingCounter := 0, s_smtbty_batteryResponseCounter := 0\<rparr> else s)"

text \<open>
  C22. When charging stops: a round of the charger, for a battery that is neither given up as dead
  nor being reactivated, leaves it disabled exactly if the battery is absent, or the power source is
  disconnected, or the status register, when it can be read, reports over charge, terminate charge,
  over temperature or fully charged, or the state of charge has reached the throttle. The status
  and the throttle count only with battery and power source there, and then the evaluation of the
  throttle must not divide by zero (a full charge capacity of 0). An unreadable status does not
  stop the charging.
\<close>

theorem charging_stops_iff:
  assumes "s_smtbty_chgSt s \<notin> {APP_CHG_BATTERY_IS_DEAD, APP_CHG_REACTIVATING}"
    and "pfnPresent cl = Some f" "f 0 (normal_start c s) = (present, s1)"
    and "ac \<longleftrightarrow> (case pfnIsAcPresent cl of Some g \<Rightarrow> g (normal_start c s) | None \<Rightarrow> True)"
    and "present \<and> ac \<Longrightarrow> dev_smtbty_i32Read B 0 REG_BatteryStatus s1 = Inr (status, s2)"
    and "present \<and> ac \<Longrightarrow> throttle_reached 0 s2 = Inr thr"
  shows "\<exists>chg s'. battery_doCharge c cl B 0 s = Inr (chg, s') \<and>
     (s_smtbty_chgSt s' = APP_CHG_DISABLE \<longleftrightarrow> \<not> present \<or> \<not> ac \<or> stop_alarm status \<or> thr)"
proof (cases "present \<and> ac")
  case True
  obtain new s3 where n: "charge_on_ac c cl B 0 s1 = Inr (new, s3)" "new = APP_CHG_DISABLE \<longleftrightarrow> stop_alarm status \<or> thr"
    using charge_on_ac_stops [OF assms(5,6)] True by blast
  with True assms(1-4) show ?thesis
    by (simp add: battery_doCharge_def MAX_BATTERY_SUPPORTED_def set_chg_def flip: normal_start_def)
next
  case False
  with assms(1-4) show ?thesis
    by (simp add: battery_doCharge_def MAX_BATTERY_SUPPORTED_def set_chg_def flip: normal_start_def) blast
qed

text \<open>A fully charged battery.\<close>

definition demo_full_charged :: acpi where
  "demo_full_charged = demo_acpi\<lparr>s_smtbty_chgSt := APP_CHG_ENABLED_NORMAL, s_batBuf := [item 0x16 2 100 True 1]\<rparr>"

theorem charging_stops_iff_witness:
  "\<exists>chg s'. battery_doCharge demo_smtbty demo_client (\<lambda>_. Some [0x20, 0]) 0 demo_full_charged = Inr (chg, s') \<and>
     s_smtbty_chgSt s' = APP_CHG_DISABLE"
proof -
  let ?s1 = "normal_start demo_smtbty demo_full_charged"
  obtain v s2 where r: "dev_smtbty_i32Read (\<lambda>_. Some [0x20, 0]) 0 REG_BatteryStatus ?s1 = Inr (v, s2)" "v = Some 0x20"
      "s_batIns s2 = demo_ins"
    by (auto simp: dev_smtbty_i32Read_def dev_smtbty_findRegItem_def normal_start_def demo_full_charged_def demo_acpi_def
        MAX_BATTERY_SUPPORTED_def REG_BatteryStatus_def item_def DEV_SMTBTY_REG_INVALID_def dev_smtbty_autoRead_def
        regAccess_read_def dev_smtbty_updateBusErrorCounter_def hemit_def app_value_def Let_def dev_smtbty_i32CacheGet_def
        dev_smtbty_cacheDataOverride_def REG_RemainingCapacity_def REG_FullChargeCapacity_def REG_DesignCapacity_def
        take_bit_eq_mod BATTERY_I2C_ADDRESS_def)
  have thr: "throttle_reached 0 s2 = Inr False"
    using r(3) by (simp add: throttle_reached_def app_battery_ChargeThrottleGet_def bty_get_def MAX_BATTERY_SUPPORTED_def demo_ins_def
        APP_SMTBTY_CHG_THROTTLE_DISABLED_def)
  have "s_smtbty_chgSt demo_full_charged \<notin> {APP_CHG_BATTERY_IS_DEAD, APP_CHG_REACTIVATING}"
    "pfnPresent demo_client = Some (\<lambda>i s. (True, s))"
    "True \<longleftrightarrow> (case pfnIsAcPresent demo_client of Some g \<Rightarrow> g ?s1 | None \<Rightarrow> True)"
    by (simp_all add: demo_full_charged_def demo_client_def)
  from charging_stops_iff [OF this(1,2) refl this(3) r(1) thr] r(2) show ?thesis
    by (simp add: stop_alarm_def)
qed

section \<open>Reserved capacity and throttle\<close>

lemma low_zero: "(ucast (w AND 0xFFFF0000 :: u32) :: u16) = 0"
proof (rule bit_word_eqI)
  fix n assume "n < LENGTH(16)"
  have "list_all (\<lambda>n. \<not> bit (0xFFFF0000 :: u32) n) [0 ..< 16]" by code_simp
  with \<open>n < LENGTH(16)\<close> show "bit (ucast (w AND 0xFFFF0000) :: u16) n = bit (0 :: u16) n"
    by (simp add: bit_simps list_all_iff)
qed

lemma no_reserve: "s_u16ReservedBtyCapacity s = 0 \<Longrightarrow> dev_smtbty_cacheDataOverride r v s = v"
proof -
  have "(v AND 0xFFFF0000) OR (ucast (ucast v :: u16) :: u32) = v"
  proof (rule bit_word_eqI)
    fix n assume "n < LENGTH(32)"
    have "list_all (\<lambda>n. bit (0xFFFF0000 :: u32) n = (16 \<le> n)) [0 ..< 32]" by code_simp
    with \<open>n < LENGTH(32)\<close> show "bit ((v AND 0xFFFF0000) OR (ucast (ucast v :: u16) :: u32)) n = bit v n"
      by (auto simp: bit_simps list_all_iff)
  qed
  then show "s_u16ReservedBtyCapacity s = 0 \<Longrightarrow> ?thesis"
    by (auto simp: dev_smtbty_cacheDataOverride_def Let_def dev_smtbty_getRsvdBtyCapacity_def word_gt_0)
qed

lemma cacheGet_override:
  "dev_smtbty_i32CacheGet b r s =
     map_option (\<lambda>v. dev_smtbty_cacheDataOverride r v s) (dev_smtbty_i32CacheGet b r (dev_smtbty_setRsvdBtyCapacity 0 s))"
proof -
  let ?t = "dev_smtbty_setRsvdBtyCapacity 0 s"
  have f: "dev_smtbty_findRegItem b r ?t = dev_smtbty_findRegItem b r s"
    by (simp add: dev_smtbty_findRegItem_def dev_smtbty_setRsvdBtyCapacity_def split: option.split)
  have g: "get_item p ?t = get_item p s" for p by (cases p) (simp_all add: dev_smtbty_setRsvdBtyCapacity_def)
  have n: "dev_smtbty_cacheDataOverride r v ?t = v" for v by (simp add: no_reserve dev_smtbty_setRsvdBtyCapacity_def)
  show ?thesis unfolding dev_smtbty_i32CacheGet_def f g n Let_def by (auto split: option.split)
qed

text \<open>
  A throttle can divide by zero: when a throttle is set, the relative state of charge is not
  available, and the host has reserved at least the whole full charge capacity (registers E6h and
  E7h), the reported full charge capacity is 0 and the charging decision divides by it.
\<close>

theorem throttle_divides_by_zero:
  assumes "u8ChargeThrottle (s_batIns s) \<noteq> APP_SMTBTY_CHG_THROTTLE_DISABLED"
    and "dev_smtbty_i32CacheGet 0 REG_RelativeStateOfCharge s = None"
    and "dev_smtbty_i32CacheGet 0 REG_RemainingCapacity s = Some rest"
    and "dev_smtbty_i32CacheGet 0 REG_FullChargeCapacity (dev_smtbty_setRsvdBtyCapacity 0 s) = Some full"
    and "ucast full \<le> s_u16ReservedBtyCapacity s"
  shows "throttle_reached 0 s = Inl Div_by_zero"
proof -
  have "dev_smtbty_i32CacheGet 0 REG_FullChargeCapacity s = Some (dev_smtbty_cacheDataOverride REG_FullChargeCapacity full s)"
    using assms(4) by (simp add: cacheGet_override [of 0 _ s])
  moreover have "\<not> s_u16ReservedBtyCapacity s < ucast full" using assms(5) by simp
  then have "(ucast (dev_smtbty_cacheDataOverride REG_FullChargeCapacity full s) :: u16) = 0"
    by (simp add: dev_smtbty_cacheDataOverride_def Let_def dev_smtbty_getRsvdBtyCapacity_def low_zero)
  ultimately show ?thesis
    using assms(1-3) by (simp add: throttle_reached_def charge_percent_def app_battery_ChargeThrottleGet_def bty_get_def MAX_BATTERY_SUPPORTED_def)
qed

section \<open>The trip point\<close>

text \<open>On which side of the trip point a reading lies.\<close>

definition above :: "u16 \<Rightarrow> u16 \<Rightarrow> bool" where
  "above trip r \<longleftrightarrow> trip < r"

lemma trip_update_eq:
  assumes "u16ThresholdBtyTripPoint (s_batIns s) = trip" "u16LastRemainingCapicity (s_batIns s) = prev"
  shows "bit (s_u32BtyTrippedBitMap (trip_update 0 now s)) 0 = (bit (s_u32BtyTrippedBitMap s) 0 \<or> crossed trip prev now)"
    and "u16ThresholdBtyTripPoint (s_batIns (trip_update 0 now s)) = trip"
    and "u16LastRemainingCapicity (s_batIns (trip_update 0 now s)) = (if now = trip then prev else now)"
  using assms by (auto simp: trip_update_def Let_def on_ins_def bit_simps)

text \<open>The readings the trip point is compared with: a reading equal to the trip point is not kept.\<close>

definition steps_across :: "u16 \<Rightarrow> u16 \<Rightarrow> u16 list \<Rightarrow> bool" where
  "steps_across trip prev readings \<longleftrightarrow>
     (let kept = filter (\<lambda>r. r \<noteq> trip) readings in
      \<exists>(x, y) \<in> set (zip (prev # kept) kept). x \<noteq> 0 \<and> x \<noteq> trip \<and> above trip x \<noteq> above trip y)"

lemma steps_across_simps [simp]:
  "\<not> steps_across trip prev []"
  "steps_across trip prev (r # rs) \<longleftrightarrow>
     r \<noteq> trip \<and> prev \<noteq> 0 \<and> prev \<noteq> trip \<and> above trip prev \<noteq> above trip r \<or>
     steps_across trip (if r = trip then prev else r) rs"
  by (auto simp: steps_across_def Let_def)

lemma crossed_steps:
  "crossed trip prev r \<longleftrightarrow> trip \<noteq> 0 \<and> r \<noteq> trip \<and> prev \<noteq> 0 \<and> prev \<noteq> trip \<and> above trip prev \<noteq> above trip r"
  by (auto simp: crossed_def above_def)

lemma trip_run:
  assumes "u16ThresholdBtyTripPoint (s_batIns s) = trip" "u16LastRemainingCapicity (s_batIns s) = prev"
  shows "bit (s_u32BtyTrippedBitMap (fold (trip_update 0) readings s)) 0 \<longleftrightarrow>
     bit (s_u32BtyTrippedBitMap s) 0 \<or> trip \<noteq> 0 \<and> steps_across trip prev readings"
  using assms
proof (induction readings arbitrary: s prev)
  case (Cons r rs)
  note u = trip_update_eq [OF Cons.prems, of r]
  show ?case using Cons.IH [OF u(2,3)] u(1) by (auto simp: crossed_steps)
qed simp

lemma steps_across_nonzero:
  assumes "prev \<noteq> 0" "prev \<noteq> trip" "0 \<notin> set readings"
  shows "steps_across trip prev readings \<longleftrightarrow> (\<exists>r \<in> set readings. r \<noteq> trip \<and> above trip r \<noteq> above trip prev)"
  using assms by (induction readings arbitrary: prev) auto

text \<open>
  C24. When the trip flag is raised: for every trip point, every remembered reading and every
  sequence of readings of the remaining capacity, with no clearing of the flag and no new trip
  point in between, the flag is up afterwards if and only if it was before, or the trip point is
  not 0 and, among the remembered reading and the readings that differ from the trip point, two
  successive ones lie on different sides of it and the earlier of the two is neither 0 nor the trip
  point. So if neither the trip point, nor the remembered reading, nor a reading is 0, and the
  remembered reading is not the trip point, the flag is raised exactly when some reading lies on
  the other side than the remembered one. A reading of 0 hides the step that follows it: with
  trip point 5 the readings 3, 0, 10 leave the flag down.
\<close>

theorem trip_flag_exact:
  assumes "u16ThresholdBtyTripPoint (s_batIns s) = trip" "u16LastRemainingCapicity (s_batIns s) = prev"
    and "kept = filter (\<lambda>r. r \<noteq> trip) readings"
    and "up = bit (s_u32BtyTrippedBitMap (fold (trip_update 0) readings s)) 0"
  shows "(up \<longleftrightarrow> bit (s_u32BtyTrippedBitMap s) 0 \<or> trip \<noteq> 0 \<and>
       (\<exists>(x, y) \<in> set (zip (prev # kept) kept). x \<noteq> 0 \<and> x \<noteq> trip \<and> above trip x \<noteq> above trip y)) \<and>
     (trip \<noteq> 0 \<and> prev \<noteq> 0 \<and> prev \<noteq> trip \<and> 0 \<notin> set readings \<longrightarrow>
       (up \<longleftrightarrow> bit (s_u32BtyTrippedBitMap s) 0 \<or> (\<exists>r \<in> set readings. r \<noteq> trip \<and> above trip r \<noteq> above trip prev))) \<and>
     (trip = 5 \<and> prev = 3 \<and> readings = [0, 10] \<longrightarrow> (up \<longleftrightarrow> bit (s_u32BtyTrippedBitMap s) 0))"
  using trip_run [OF assms(1,2), of readings] steps_across_nonzero [of prev trip readings]
  unfolding steps_across_def Let_def assms(3,4) by (auto simp: above_def word_less_nat_alt)

theorem trip_flag_exact_witness:
  "bit (s_u32BtyTrippedBitMap (fold (trip_update 0) [2995, 3000, 3010, 2990] demo_acpi)) 0"
  using trip_flag_exact [of demo_acpi 3000 2990 _ "[2995, 3000, 3010, 2990]", OF _ _ refl refl]
  by (simp add: demo_acpi_def demo_ins_def above_def)

end
