(* ===== verification/Acdc_Props.thy ===== *)
theory Acdc_Props
  imports Ec_demo
begin

text \<open>
  How long the AC/DC switch stays in a mode: twice the time the host has set, in 8 bits, so that a
  time of 128 is never over.
\<close>

section \<open>What a round keeps\<close>

lemma notify_keeps [simp]:
  "nv (ACPI_NotifyHost e s) = nv s"
  "g_bACDC_DCMode (ACPI_NotifyHost e t) = g_bACDC_DCMode t" "g_bACDC_ACMode (ACPI_NotifyHost e t) = g_bACDC_ACMode t"
  "g_ui8DC_Time_cnt (ACPI_NotifyHost e t) = g_ui8DC_Time_cnt t" "g_ui8AC_Time_cnt (ACPI_NotifyHost e t) = g_ui8AC_Time_cnt t"
  by (simp_all add: ACPI_NotifyHost_def enqueue_sci_def smchost_signal_request_def hemit_def)

text \<open>The counters and the mode.\<close>

definition mode_view :: "'x acdc_scheme \<Rightarrow> (nv_opt \<Rightarrow> u32) \<times> bool \<times> bool \<times> u8 \<times> u8" where
  "mode_view s = (nv s, g_bACDC_DCMode s, g_bACDC_ACMode s, g_ui8DC_Time_cnt s, g_ui8AC_Time_cnt s)"

lemma switch_view: "mode_view (switch_event s) = mode_view s"
  by (simp add: switch_event_def mode_view_def to_ac_def to_dc_def virtual_dc_def)

lemma view_update [simp]:
  "mode_view (s\<lparr>g_LoadfakeBatteryData := b\<rparr>) = mode_view s"
  "mode_view (s\<lparr>g_ui8Virtual_ACDC_STATUS := w\<rparr>) = mode_view s"
  "mode_view (s\<lparr>chg_acok := c\<rparr>) = mode_view s"
  "mode_view (s\<lparr>g_bACDC_DCEvent := b\<rparr>) = mode_view s"
  "mode_view (s\<lparr>g_bACDC_ACEvent := b\<rparr>) = mode_view s"
  by (simp_all add: mode_view_def)

lemma count_view: "mode_view (snd (acdc_count (s\<lparr>g_ui8Virtual_ACDC_STATUS := w\<rparr>))) = mode_view (snd (acdc_count s))"
  by (simp add: acdc_count_def mode_view_def AC_Time_def DC_Time_def GET_NV_OPTIONS_def Let_def)

lemma handler_view:
  assumes "AcDcSwitchEnableFlag s" "DC_Time s \<noteq> 0"
  shows "mode_view (snd (app_acDcSwitchHandler s)) = mode_view (snd (acdc_count s))"
proof -
  obtain r s1 where c: "acdc_count (s\<lparr>g_ui8Virtual_ACDC_STATUS := g_ui8Virtual_ACDC_STATUS s OR ACPI_BATTERY_CONNECTED\<rparr>) = (r, s1)"
    by fastforce
  then have v: "mode_view s1 = mode_view (snd (acdc_count s))" using count_view [where s = s] by (metis snd_conv)
  show ?thesis
    using assms unfolding app_acDcSwitchHandler_def Let_def c prod.case
    by (auto simp: v switch_view virtual_dc_def)
qed

definition rounds :: "nat \<Rightarrow> 'x acdc_scheme \<Rightarrow> 'x acdc_scheme" where
  "rounds k = (snd \<circ> app_acDcSwitchHandler) ^^ k"

lemma rounds_Suc: "rounds (Suc k) s = rounds k (snd (app_acDcSwitchHandler s))"
  by (simp add: rounds_def funpow_Suc_right del: funpow.simps)

section \<open>The time in a mode\<close>

text \<open>While the counter of the battery mode runs, the mode stays; the round that ends it switches.\<close>

lemma dc_countdown:
  assumes "AcDcSwitchEnableFlag s" "DC_Time s \<noteq> 0" "g_bACDC_DCMode s" "\<not> g_bACDC_ACMode s"
    and "unat (g_ui8DC_Time_cnt s) = Suc n" "k \<le> Suc n"
  shows "g_bACDC_DCMode (rounds k s) = (k \<le> n) \<and> g_bACDC_ACMode (rounds k s) = (k > n)"
  using assms
proof (induction k arbitrary: s n)
  case (Suc k)
  let ?s = "snd (app_acDcSwitchHandler s)"
  have v: "mode_view ?s = mode_view (snd (acdc_count s))" using handler_view Suc.prems(1,2) by blast
  have nz: "g_ui8DC_Time_cnt s \<noteq> 0" using Suc.prems(5) by auto
  then have u: "unat (g_ui8DC_Time_cnt s - 1) = n" using Suc.prems(5) by (simp add: unat_minus_one)
  show ?case
  proof (cases n)
    case 0
    with Suc.prems(6) have k: "k = 0" by simp
    have "g_ui8DC_Time_cnt s - 1 = 0" using u 0 by (simp add: unat_eq_0)
    then show ?thesis using v Suc.prems 0 k nz by (simp add: rounds_Suc) (simp add: rounds_def mode_view_def acdc_count_def Let_def)
  next
    case (Suc m)
    have ne: "g_ui8DC_Time_cnt s - 1 \<noteq> 0" using u Suc by auto
    have "AcDcSwitchEnableFlag ?s" "DC_Time ?s \<noteq> 0" "g_bACDC_DCMode ?s" "\<not> g_bACDC_ACMode ?s"
        "g_ui8DC_Time_cnt ?s = g_ui8DC_Time_cnt s - 1"
      using v Suc.prems nz ne
      by (simp_all add: mode_view_def acdc_count_def Let_def AcDcSwitchEnableFlag_def DC_Time_def GET_NV_OPTIONS_def)
    then show ?thesis using Suc.IH [of ?s m] u Suc \<open>n = Suc m\<close> Suc.prems(6) by (simp add: rounds_Suc)
  qed
qed (simp add: rounds_def)

lemma dc_stuck:
  assumes "AcDcSwitchEnableFlag s" "DC_Time s = 128" "g_bACDC_DCMode s" "\<not> g_bACDC_ACMode s" "g_ui8DC_Time_cnt s = 0"
  shows "g_bACDC_DCMode (rounds k s) \<and> \<not> g_bACDC_ACMode (rounds k s)"
  using assms
proof (induction k arbitrary: s)
  case (Suc k)
  let ?s = "snd (app_acDcSwitchHandler s)"
  have "mode_view ?s = mode_view (snd (acdc_count s))" using handler_view [of s] Suc.prems(1,2) by simp
  then have "AcDcSwitchEnableFlag ?s \<and> DC_Time ?s = 128 \<and> g_bACDC_DCMode ?s \<and> \<not> g_bACDC_ACMode ?s \<and> g_ui8DC_Time_cnt ?s = 0"
    using Suc.prems by (simp add: mode_view_def acdc_count_def AcDcSwitchEnableFlag_def DC_Time_def GET_NV_OPTIONS_def)
  with Suc.IH [of ?s] show ?case by (simp add: rounds_Suc)
qed (simp add: rounds_def)

lemma double_byte: "unat (t * 2 :: u8) = 2 * unat t mod 256"
  by (simp add: unat_word_ariths(2) mult.commute)

lemma double_zero: "t * 2 = 0 \<Longrightarrow> t \<noteq> 0 \<Longrightarrow> t = 128" for t :: u8
proof -
  assume "t * 2 = 0" "t \<noteq> 0"
  then have "2 * unat t mod 256 = 0" "0 < unat t" using double_byte [of t] by (simp_all add: unat_gt_0)
  with unsigned_less [of t, where ?'a = nat] have "unat t = 128" by (simp; presburger)
  then show "t = 128" by (simp add: word_unat_eq_iff)
qed

text \<open>
  The time the AC/DC switch spends on the battery: in the battery mode with the counter set as
  the switch sets it, for a battery time \<open>t\<close>, the mode ends with the round number \<open>2 t mod 256\<close>;
  for a time of 128 this is 0 and no number of rounds ends the mode.
\<close>

theorem acdc_battery_dwell:
  assumes "AcDcSwitchEnableFlag s" "DC_Time s = t" "t \<noteq> 0" "g_bACDC_DCMode s" "\<not> g_bACDC_ACMode s" "g_ui8DC_Time_cnt s = t * 2"
  shows "if t = 128 then \<forall>k. g_bACDC_DCMode (rounds k s)
     else \<forall>k \<le> 2 * unat t mod 256. g_bACDC_DCMode (rounds k s) = (k < 2 * unat t mod 256)"
proof (cases "t = 128")
  case True
  with dc_stuck [of s] assms show ?thesis by simp
next
  case False
  then have "g_ui8DC_Time_cnt s \<noteq> 0" using double_zero [of t] assms(3,6) by auto
  then obtain n where n: "unat (g_ui8DC_Time_cnt s) = Suc n" by (cases "unat (g_ui8DC_Time_cnt s)") (auto simp: unat_eq_0)
  then have m: "2 * unat t mod 256 = Suc n" using assms(6) double_byte [of t] by simp
  have "g_bACDC_DCMode (rounds k s) = (k < Suc n)" if "k \<le> Suc n" for k
    using dc_countdown [OF assms(1) _ assms(4,5) n that] assms(2,3) by (simp add: less_Suc_eq_le)
  with False m show ?thesis by simp
qed

section \<open>An almost empty battery\<close>

text \<open>What the decision on a low battery reads, and the level of CHG_ACOK.\<close>

definition low_view :: "'x acdc_scheme \<Rightarrow> (nv_opt \<Rightarrow> u32) \<times> u32 \<times> u8 \<times> reg_item list \<times> reg_item list \<times> u16 \<times> bool option" where
  "low_view s = (nv s, s_cachedBtyFlag s, s_u8SelectedBattery s, s_batBuf s, s_platform_btyBufTable s, s_u16ReservedBtyCapacity s, chg_acok s)"

definition low_battery :: "'x acdc_scheme \<Rightarrow> bool" where
  "low_battery s \<longleftrightarrow> AcDcSwitchEnableFlag s \<and> DC_Time s \<noteq> 0 \<and> AC_Time s \<noteq> 0 \<and>
     bit (app_battery_flagsCacheGet (app_battery_selectedGet s) s) APP_SMTBTY_CONNECTED \<and>
     (case dev_smtbty_i32CacheGet (app_battery_selectedGet s) REG_RelativeStateOfCharge s of Some v \<Rightarrow> (ucast v :: u16) | None \<Rightarrow> 0) \<le> 10"

lemma cacheGet_view:
  assumes "low_view s = low_view t"
  shows "dev_smtbty_i32CacheGet b r s = dev_smtbty_i32CacheGet b r t"
proof -
  have f: "dev_smtbty_findRegItem b r s = dev_smtbty_findRegItem b r t"
    using assms by (simp add: low_view_def dev_smtbty_findRegItem_def split: option.split)
  have g: "get_item p s = get_item p t" for p using assms by (cases p) (simp_all add: low_view_def)
  have o: "dev_smtbty_cacheDataOverride r v s = dev_smtbty_cacheDataOverride r v t" for v
    using assms by (simp add: low_view_def dev_smtbty_cacheDataOverride_def dev_smtbty_getRsvdBtyCapacity_def)
  show ?thesis unfolding dev_smtbty_i32CacheGet_def f g o ..
qed

lemma low_battery_view: "low_view s = low_view t \<Longrightarrow> low_battery s = low_battery t"
  using cacheGet_view [of s t "s_u8SelectedBattery t" REG_RelativeStateOfCharge]
  by (simp add: low_battery_def low_view_def app_battery_flagsCacheGet_def app_battery_selectedGet_def AcDcSwitchEnableFlag_def
      DC_Time_def AC_Time_def GET_NV_OPTIONS_def)

lemma low_round:
  assumes "low_battery s"
  shows "low_view (snd (app_acDcSwitchHandler s)) = low_view s"
  using assms by (auto simp: app_acDcSwitchHandler_def low_battery_def acdc_count_def Let_def low_view_def)

lemma low_rounds: "low_battery s \<Longrightarrow> low_battery (rounds k s) \<and> low_view (rounds k s) = low_view s"
proof (induction k arbitrary: s)
  case (Suc k)
  have v: "low_view (snd (app_acDcSwitchHandler s)) = low_view s" using low_round Suc.prems by blast
  with Suc.prems have "low_battery (snd (app_acDcSwitchHandler s))" using low_battery_view by blast
  from Suc.IH [OF this] v show ?case by (simp add: rounds_Suc)
qed (simp add: rounds_def)

text \<open>
  A battery of at most 10 percent is drained on: when the battery mode ends with such a battery,
  the host is told that the power source is connected and the switch enters the AC mode, but it
  leaves CHG_ACOK at the battery, then and in every later round, as long as the battery reports no
  other charge.
\<close>

theorem acdc_low_battery_drained:
  assumes "low_battery s" "g_bACDC_DCMode s" "\<not> g_bACDC_ACMode s" "g_ui8DC_Time_cnt s = 1" "chg_acok s = Some False"
  shows "g_bACDC_ACMode (rounds 1 s) \<and>
    bit (g_ui8Virtual_ACDC_STATUS (rounds 1 s)) 7 \<and>
    chg_acok (rounds k s) = Some False"
proof -
  have b: "bit ACPI_AC_CONNECTED 7" by (simp add: ACPI_AC_CONNECTED_def)
  have "g_bACDC_ACMode (rounds 1 s) \<and> bit (g_ui8Virtual_ACDC_STATUS (rounds 1 s)) 7"
    using assms(1-4) b
    by (simp add: rounds_def app_acDcSwitchHandler_def low_battery_def acdc_count_def Let_def bit_or_iff AC_Time_def DC_Time_def
        GET_NV_OPTIONS_def AcDcSwitchEnableFlag_def app_battery_selectedGet_def)
  then show ?thesis using low_rounds [OF assms(1), of k] assms(5) by (simp add: low_view_def)
qed

definition demo_low :: acpi where
  "demo_low = demo_acpi\<lparr>nv := (\<lambda>n. 1), g_ui8DC_Time_cnt := 1, chg_acok := Some False,
     s_batBuf := [(item 0x0D 2 1000 True 1)\<lparr>dataAvailable := True, val32 := 7\<rparr>]\<rparr>"

end
