(* ===== verification/Spec2Isabelle.thy ===== *)
theory Spec2Isabelle
  imports Rpmc_rom_Props Modbus_Write Sha3_Hmac Sleep_Props Periph_Props Thermal_Props Fan_Ramp Rrq_Props Crc8 Misc Time Keyboard_Path Udc_Props Btn_Props Nvopt_Props Acpiplanes_Props Smchost_Props Acpi_Props Charge_Props Acdc_Props
begin

text \<open>
  The firmware of the embedded controller of AMD's reference notebooks (Zephyr RTOS, C). The
  controller powers the machine up and down, emulates the 8042 keyboard controller, scans the
  keyboard, charges the batteries, turns the fans, watches temperatures, and answers the operating
  system and the host's firmware through the ACPI register space, the debug card and the buses.
  The threads of \<open>src/app\<close> do this work on the drivers of \<open>src/drivers\<close> and the utilities of
  \<open>src/utilities\<close> and \<open>src/misc\<close>; the build selects parts by Kconfig options, and the files of
  \<open>src/boards\<close> give tables and callbacks of a board.

  Paragraphs: how the model is made; the theories and the code they model; what the lemmas show;
  bounds and fuel; interfaces; what is not modelled.

  \<^bold>\<open>How the model is made.\<close> Integers keep their width (\<open>u8\<close>, \<open>u16\<close>, \<open>u32\<close>, \<open>u64\<close> are words of
  \<open>HOL-Library.Word\<close>, a signed C integer is an \<open>int\<close> whose range the code cannot leave, or a word
  read with \<open>sint\<close>). Static variables are the fields of a record that every function takes and
  returns. A routine that can fault returns \<open>fault + 'a\<close> (\<open>Prelude\<close>): a failed assertion, a division
  by zero, an access outside an array, or a loop that does not end. Error codes are values. Effects on the
  outside (pins, timers, writes of bytes to the host, messages to other threads) are recorded as a
  list of events in the state, the newest first or last as the theory says. What the outside
  answers (pin levels, sensors, buses, the flash, the UART, whether the host has read a byte) is an
  argument: a record of functions, a function of the number of the access, or a list of inputs, and the theorems
  hold for all of them unless they say otherwise. Build options and the tables of the boards are
  records too. Mutexes are only modelled where the order of the operations matters (\<open>rrq_locks\<close>);
  logging is left out.

  \<^bold>\<open>Theories and code.\<close>
  \<^item> \<open>Prelude\<close>: C types, faults, checked loads and stores, ring indices, the locale \<open>safe_machine\<close>.
  \<^item> \<open>Rrq\<close>, \<open>Rrq_Correct\<close>, \<open>Rrq_Frames\<close>, \<open>Rrq_Props\<close>: the byte ring queues, \<open>utilities/u_rrq.c\<close>.
    \<open>rrq_handler\<close> is the structure with its buffer, head, tail and running counters; \<open>rrq_content\<close> abstracts it to the list of the bytes
    it holds. Put (discarding or overriding), get, reset, set-up, and the extraction of frames by patterns and by packages.
  \<^item> \<open>Crc8\<close>, \<open>Misc\<close>, \<open>Time\<close>: \<open>utilities/u_crc8.c\<close>, \<open>u_misc.c\<close>, \<open>u_time.c\<close>.
  \<^item> \<open>Keymap\<close>, \<open>Kbs\<close>, \<open>Kbs_Props\<close>: the key tables of \<open>app/kbchost/keyboard_utility.c\<close> and
    \<open>drivers/amdcrb_keymap.c\<close>, and the keyboard scanner \<open>drivers/kbs_matrix.c\<close>.
  \<^item> \<open>Kbc\<close>, \<open>Kbc_Props\<close>, \<open>Keyboard_Path\<close>: the 8042 controller \<open>app/kbchost/kbchost.c\<close> with the state
    machine of its data port and the queue of 16 bytes to the host, which drops what it has no room for; the path of a key press from the scanner to the host's queue.
  \<^item> \<open>Udc\<close>, \<open>Udc_Props\<close>: the protocol of the debug card, \<open>app/udc/app_udc.c\<close>, over two ring queues.
  \<^item> \<open>Pseq\<close>, \<open>Pseq_Inv\<close>, \<open>Pseq_Props\<close>: the power sequencing \<open>app/power_sequencing/app_pseq.c\<close>: the system
    state with its transition handlers and the staged sequences to S5 and G3, driven by timers.
    A \<open>config\<close> of \<open>Pseq_Inv\<close> is the running controller or one that \<open>app_btn_ecReset\<close> is resetting; \<open>pseq_step\<close> has its steps, resets and reboots too.
  \<^item> \<open>Btn\<close>, \<open>Btn_Props\<close>: the power button \<open>app/peripheral_management/app_btn.c\<close> and the power management
    commands \<open>app/smchost/smchost_pm.c\<close>; button and sequencing together.
  \<^item> \<open>Periph\<close>, \<open>Periph_Props\<close>: the debouncing of pins, \<open>app/peripheral_management/periphmgmt.c\<close>,
    with the interrupts of the boards that start it again in the sleeps between its rounds.
  \<^item> \<open>Bram\<close>, \<open>Flash\<close>, \<open>Nvopt\<close>, \<open>Nvfields\<close>, \<open>Nvopt_Props\<close>: the battery-backed RAM \<open>misc/f_bram.c\<close>, the byte-wise
    writing of the internal flash (\<open>drivers/amd_crb_drivers_spiFlash.c\<close>), and the options kept in it,
    \<open>misc/f_nv_options.c\<close>, with the bit fields of the boards.
  \<^item> \<open>Acpiplanes\<close>, \<open>Acpiplanes_Props\<close>: the register space the host sees, \<open>drivers/acpiplanes.c\<close>.
  \<^item> \<open>Sci\<close>, \<open>Smchost\<close>, \<open>Smchost_Props\<close>: the queue of events for the operating system (\<open>app/smchost/sci.c\<close>, the
    registers of \<open>drivers/realtek/realtek_acpi.c\<close>) and the thread that serves the command and data ports, \<open>app/smchost/smchost.c\<close> and \<open>smc.c\<close>.
  \<^item> \<open>Acpi\<close>, \<open>Acpi_regs\<close>, \<open>Acpi_Props\<close>: every register handler of \<open>app/acpi/app_acpi.c\<close> and its table.
  \<^item> \<open>Btydev\<close>, \<open>Smtbty\<close>, \<open>Charge\<close>, \<open>Charge_Props\<close>: the battery's register table with its refresh
    (\<open>drivers/dev_smtbty.c\<close>), and the charging decision, the flags and the task of \<open>app/battery_management/app_smtbty.c\<close>.
  \<^item> \<open>Acdc\<close>, \<open>Acdc_Props\<close>: the AC/DC switch, \<open>app/power_management/app_AcDcSwitch.c\<close>.
  \<^item> \<open>Ec_demo\<close>: a concrete build and state, on which the properties of these parts are evaluated.
  \<^item> \<open>Fan\<close>, \<open>Fan_board\<close>, \<open>Fan_task\<close>, \<open>Fan_Props\<close>, \<open>Fan_Ramp\<close>: fan control, \<open>app/fanctrl/app_fanRpmCtrl.c\<close>,
    with the tables and devices of the Dorne board.
  \<^item> \<open>Thermal\<close>, \<open>Thermal_Props\<close>: \<open>app/thermal_management/app_thermal.c\<close> and the Plum board's
    \<open>board_thermal.c\<close>: the skin temperatures, the limit sent to the processor and the hot bag monitor.
    While a mailbox call sleeps, other threads may change the limit (\<open>p3t_during\<close>).
  \<^item> \<open>Sleep\<close>, \<open>Sleep_Props\<close>: the table of the tasks, \<open>misc/task_handler.c\<close>, and the idle thread \<open>app/power_management/app_sleep.c\<close>.
  \<^item> \<open>Modbus\<close>, \<open>Modbus_Crc\<close>, \<open>Modbus_Props\<close>, \<open>Modbus_Write\<close>: \<open>drivers/amd_crb_modbusrtu_driver.c\<close>.
  \<^item> \<open>Sha3\<close>, \<open>Sha3_Props\<close>, \<open>Sha3_Hmac\<close>: \<open>drivers/oob_rpmc_hmac_sha3_384.c\<close>.
  \<^item> \<open>Rpmc_rom\<close>, \<open>Rpmc_rom_Scan\<close>, \<open>Rpmc_rom_Inv\<close>, \<open>Rpmc_rom_Start\<close>, \<open>Rpmc_rom_Key\<close>, \<open>Rpmc_rom_Dev\<close>, \<open>Rpmc_rom_Props\<close>: the flash
    storage of the replay protected counters and root keys, \<open>drivers/oob_rpmc_rom.c\<close>: \<open>rom_ctx\<close> is its context with the cached
    values and the flash device, and the context is rebuilt from the flash at each start. \<open>_Scan\<close> has the search for the valid slot, \<open>_Inv\<close> the invariant
    of a counter's two blocks and its writes, \<open>_Start\<close> the scan after a power loss, \<open>_Key\<close> the keys, \<open>_Dev\<close> the whole device.
  The functions keep their names; a definition for a part of a function (a loop, a branch) has a
  name of its own. How the parts meet: the scanner's callback is the controller's \<open>mtx_keyboard_callback\<close>; the
  debug card's driver runs on the queues of \<open>Rrq\<close>; the options are saved through \<open>Flash\<close>, checked by
  \<open>Crc8\<close> and read by the battery, the switch, the button and the registers; the ports of \<open>Smchost\<close> call the dispatcher of \<open>Acpiplanes\<close>, which
  runs the handlers of \<open>Acpi\<close>, and these act on the button, the sequencing, the battery and the event queue of \<open>Sci\<close>.

  \<^bold>\<open>What the lemmas show.\<close> \<open>_Correct\<close>, \<open>_Inv\<close> and \<open>_Frames\<close> hold the invariants and refinements the properties rest
  on. Queues: put and get refine appending to and taking from a bounded list, a pattern search finds the first frame. CRC-8, CRC-16,
  Keccak and HMAC: the table-driven, streaming or in-place code equals the definition of the standard. Keyboard: no byte from the host leaves an
  array, and a key does only through uninitialised Fn data; replies and key presses are queued for the host in order as far as its queue has room. Sequencing: the resume reset is high only with the rails on, over all
  interleavings, but for the reset of the controller by the button; the recorded state follows an abstract transition table; power-on reaches S0. Options: what is saved is loaded again, and what a failed write loses. Registers: the
  bisection is a lookup, a transaction returns the handler's byte, no byte sequence faults. Battery: when charging stops, which readings raise the trip flag, and that the reactivation ends. Pins: debouncing makes the calls of
  a specification in terms of the interrupts. Fans and
  temperatures: a bound on the duty, which limits are sent to the processor, a stepwise table is a hysteresis. Replay protected counters: what a history of writes, restarts
  and power losses leaves, and the power loss that resets a counter. Modbus: however the reply
  is cut into pieces, its registers are stored. Some properties state a defect: a run that
  ends in a fault, a hang or a wrong state, with the input that leads there.

  \<^bold>\<open>Bounds and fuel.\<close> The loops over a ring have the length of the buffer as fuel, and \<open>Rrq_Frames\<close> shows that this is
  enough; the loop over the months has 13 units, one more than there are months. Reply loops of the keyboard controller end
  by a measure on index and tries. The service loops of \<open>Smchost\<close> end when the list of the host's bytes does, and take any fuel where a hang is shown: no fuel is enough.
  Reactivation of a battery takes at most 1802 rounds; debouncing ends 256 rounds after the last interrupt, and its loop has that number of rounds as fuel. The bit-serial references loop
  over the bits of a byte. Where a theorem has a bound of its own (queues of at most \<open>2^31\<close> bytes) its
  text says so.

  \<^bold>\<open>Interfaces.\<close> \<open>safe_machine\<close> (a step function that keeps an invariant and does not fault on allowed inputs; then no run
  does) is interpreted on the keyboard scanner, the keyboard controller, the register space and the
  host ports; \<open>byte_queue\<close> (laws of put and get of a bounded queue) on the ring queues; \<open>two_bytes\<close> (a register
  of two bytes transferred whole) on three battery registers; \<open>observation\<close> (a view of the thermal state
  that the rest of a round leaves alone) on three views.

  \<^bold>\<open>Not modelled.\<close> The manifest lists these parts with the reason: the USB-C, PD and UCSI managers and the controllers' firmware interfaces (sequences of I2C
  transactions with external chips), eSPI and its out-of-band channels, the message layer of the replay protected counters (\<open>drivers/oob_rpmc_msg.c\<close>), drivers of sensors, chargers, expanders
  and displays (register writes of a chip), the external SPI flash, the boards' pin lists and generated
  files, boot loader, shells and validation commands, the kernel's threads and locks, and the external
  library's headers. The flash controller, the buses and the hash hardware appear as parameters with their documented behaviour.
\<close>

end
